(* ===== verification/Prelude.thy ===== *)
theory Prelude
  imports Main "HOL-Library.Char_ord" "HOL-Library.List_Lexorder" "HOL-Library.Product_Lexorder"
begin

text \<open>
  What every component of the model shares: the error values of the code, the outcome of an
  operation on a database state, the clock, Python's string and container operations that the
  code uses (\<open>str.strip\<close>, \<open>str.split\<close>, \<open>str.join\<close>, \<open>dict.fromkeys\<close>, \<open>max(lo, min(x, hi))\<close>),
  and the relational tables.

  A table of the database is the list of its rows in insertion order. \<open>session.get\<close> is
  \<open>tget\<close>, \<open>UPDATE ... WHERE\<close> and the flush of a changed row object are \<open>tset\<close>, \<open>DELETE\<close> is
  \<open>tdel\<close>, \<open>INSERT\<close> appends, a \<open>rowcount\<close> is \<open>tcount\<close>, \<open>ORDER BY\<close> is a stable sort.
\<close>

named_theorems table_simps \<open>how the table operations act on lookups, counts and keys\<close>

section \<open>Errors, outcomes, time\<close>

text \<open>The exceptions the modelled code raises or lets through, with their message.\<close>

datatype error =
    ValueError string
  | KeyError string
  | RuntimeError string
  | IntegrityError
  | InvalidRequest
  | SourceUnavailable string
  | NoteAccessDenied string
  | NoteConflict string
  | BudgetExceeded string
  | ValidationError
  | TypeError
  | CliAuthError string int
  | WebRoomError string int
  | QuotaExceeded string "int option"
  | AttributeError
  | DeploymentConflict string
  | AssertionError
  | TimeoutError
  | AuthenticationError
  | RegistrationClosed
  | DuplicateAccount
  | InvitationRefused
  | LifecycleConflict string
  | PublicUrlRejected string

text \<open>
  An operation on a database session returns its value or the exception it raises, with the
  committed state: what a session did not commit is rolled back when it closes.
\<close>

type_synonym ('a, 's) outcome = "(error + 'a) \<times> 's"

text \<open>UTC instants and durations in microseconds, the resolution of Python's datetime.\<close>

type_synonym time = int

definition seconds :: "int \<Rightarrow> time" where
  "seconds n = n * 1000000"

definition minutes :: "int \<Rightarrow> time" where
  "minutes n = seconds (n * 60)"

definition hours :: "int \<Rightarrow> time" where
  "hours n = minutes (n * 60)"

definition days :: "int \<Rightarrow> time" where
  "days n = hours (n * 24)"

lemma seconds_le_iff [simp]: "seconds a \<le> seconds b \<longleftrightarrow> a \<le> b"
  by (simp add: seconds_def)

lemma seconds_less_iff [simp]: "seconds a < seconds b \<longleftrightarrow> a < b"
  by (simp add: seconds_def)

lemma seconds_0 [simp]: "seconds 0 = 0"
  by (simp add: seconds_def)

lemma seconds_nonneg_iff [simp]: "0 \<le> seconds a \<longleftrightarrow> 0 \<le> a"
  by (simp add: seconds_def)

lemma seconds_pos_iff [simp]: "0 < seconds a \<longleftrightarrow> 0 < a"
  by (simp add: seconds_def)

text \<open>The code's \<open>max(lo, min(x, hi))\<close>.\<close>

definition clip :: "int \<Rightarrow> int \<Rightarrow> int \<Rightarrow> int" where
  "clip lo hi x = max lo (min x hi)"

lemma clip_ge [simp, intro]: "lo \<le> clip lo hi x"
  by (simp add: clip_def)

lemma clip_le: "lo \<le> hi \<Longrightarrow> clip lo hi x \<le> hi"
  by (simp add: clip_def)

lemma clip_id: "lo \<le> x \<Longrightarrow> x \<le> hi \<Longrightarrow> clip lo hi x = x"
  by (simp add: clip_def)

lemma nat_clip_le: "lo \<le> hi \<Longrightarrow> nat (clip lo hi x) \<le> nat hi"
  by (rule nat_mono) (rule clip_le)

section \<open>Python strings\<close>

text \<open>
  An identifier, a status or a diagnostic is a \<open>string\<close>, one \<open>char\<close> per code point (so of the
  first 256 only). Prose that the code searches for words of other scripts is a list of code
  points. Both share the operations below, which take the whitespace test as an argument.
\<close>

type_synonym prose = "nat list"

definition space_points :: "nat list" where
  "space_points = [9, 10, 11, 12, 13, 28, 29, 30, 31, 32, 133, 160]"

text \<open>Above Latin-1, Python's \<open>str.isspace\<close> also holds of these code points.\<close>

definition wide_space_points :: "int list" where
  "wide_space_points =
     [5760, 8192, 8193, 8194, 8195, 8196, 8197, 8198, 8199, 8200, 8201, 8202,
      8232, 8233, 8239, 8287, 12288]"

definition is_space :: "char \<Rightarrow> bool" where
  "is_space c \<longleftrightarrow> of_char c \<in> set space_points"

definition is_space_point :: "nat \<Rightarrow> bool" where
  "is_space_point c \<longleftrightarrow> c \<in> set space_points \<or> int c \<in> set wide_space_points"

definition strip_by :: "('a \<Rightarrow> bool) \<Rightarrow> 'a list \<Rightarrow> 'a list" where
  "strip_by sp xs = rev (dropWhile sp (rev (dropWhile sp xs)))"

text \<open>\<open>str.split()\<close>: the maximal runs of characters that are not whitespace.\<close>

function split_by :: "('a \<Rightarrow> bool) \<Rightarrow> 'a list \<Rightarrow> 'a list list" where
  "split_by sp xs =
     (case dropWhile sp xs of
        [] \<Rightarrow> []
      | y # ys \<Rightarrow>
          (y # takeWhile (\<lambda>c. \<not> sp c) ys) # split_by sp (dropWhile (\<lambda>c. \<not> sp c) ys))"
  by pat_completeness auto
termination
proof (relation "measure (\<lambda>(sp, xs). length xs)")
  fix sp :: "'a \<Rightarrow> bool" and xs y ys
  assume "dropWhile sp xs = y # ys"
  then have "Suc (length ys) \<le> length xs"
    by (metis length_Cons length_dropWhile_le)
  then show "((sp, dropWhile (\<lambda>c. \<not> sp c) ys), (sp, xs)) \<in> measure (\<lambda>(sp, xs). length xs)"
    using length_dropWhile_le [of "\<lambda>c. \<not> sp c" ys] by simp
qed simp

declare split_by.simps [simp del]

fun join :: "'a list \<Rightarrow> 'a list list \<Rightarrow> 'a list" where
  "join sep [] = []"
| "join sep [x] = x"
| "join sep (x # y # zs) = x @ sep @ join sep (y # zs)"

abbreviation strip :: "string \<Rightarrow> string" where
  "strip \<equiv> strip_by is_space"

abbreviation strip_prose :: "prose \<Rightarrow> prose" where
  "strip_prose \<equiv> strip_by is_space_point"

definition points :: "string \<Rightarrow> prose" where
  "points s = map of_char s"

text \<open>\<open>" ".join(text.split())\<close>: runs of whitespace collapse to one space.\<close>

definition squeeze :: "prose \<Rightarrow> prose" where
  "squeeze t = join [32] (split_by is_space_point t)"

fun digits_of :: "nat \<Rightarrow> string" where
  "digits_of n =
     (if n < 10 then [char_of (48 + n)] else digits_of (n div 10) @ [char_of (48 + n mod 10)])"

declare digits_of.simps [simp del]

definition str_of_int :: "int \<Rightarrow> string" where
  "str_of_int i = (if i < 0 then CHR 0x2D # digits_of (nat (- i)) else digits_of (nat i))"

lemma strip_by_Nil [simp]: "strip_by sp [] = []"
  by (simp add: strip_by_def)

lemma set_strip_by: "set (strip_by sp xs) \<subseteq> set xs"
  by (auto simp: strip_by_def dest!: set_dropWhileD)

lemma length_strip_by: "length (strip_by sp xs) \<le> length xs"
proof -
  have "length (dropWhile sp (rev (dropWhile sp xs))) \<le> length (dropWhile sp xs)"
    by (metis length_dropWhile_le length_rev)
  also have "\<dots> \<le> length xs" by (rule length_dropWhile_le)
  finally show ?thesis by (simp add: strip_by_def)
qed

lemma dropWhile_hd: "dropWhile P xs = y # ys \<Longrightarrow> \<not> P y"
  by (metis hd_dropWhile list.distinct(1) list.sel(1))

text \<open>Stripping is idempotent: its result starts and ends with a character it keeps.\<close>

lemma strip_by_fix:
  assumes "xs = [] \<or> (\<not> sp (hd xs) \<and> \<not> sp (last xs))"
  shows "strip_by sp xs = xs"
proof (cases xs)
  case (Cons a list)
  with assms have a: "dropWhile sp xs = xs" by simp
  have "rev xs \<noteq> []" "\<not> sp (hd (rev xs))"
    using assms Cons by (simp_all only: hd_rev) simp_all
  then have "dropWhile sp (rev xs) = rev xs"
    by (metis dropWhile.simps(2) list.collapse)
  with a show ?thesis by (simp add: strip_by_def)
qed simp

lemma strip_by_ends:
  "strip_by sp xs = [] \<or> (\<not> sp (hd (strip_by sp xs)) \<and> \<not> sp (last (strip_by sp xs)))"
proof (cases "strip_by sp xs = []")
  case False
  define ys where "ys = dropWhile sp xs"
  define zs where "zs = dropWhile sp (rev ys)"
  have strip: "strip_by sp xs = rev zs" by (simp add: strip_by_def ys_def zs_def)
  with False have nz: "zs \<noteq> []" by auto
  then have "\<not> sp (hd zs)" unfolding zs_def by (rule hd_dropWhile)
  then have last: "\<not> sp (last (rev zs))" using nz by (simp add: last_rev)
  have "ys \<noteq> []" using nz by (auto simp: zs_def)
  then have h: "\<not> sp (hd ys)" unfolding ys_def by (rule hd_dropWhile)
  have "rev ys = takeWhile sp (rev ys) @ zs" by (simp add: zs_def)
  then have "ys = rev zs @ rev (takeWhile sp (rev ys))"
    by (metis rev_append rev_rev_ident)
  then have "hd ys = hd (rev zs)"
    using nz by (metis hd_append rev_is_Nil_conv)
  with h last strip show ?thesis by simp
qed simp

lemma strip_by_idem [simp]: "strip_by sp (strip_by sp xs) = strip_by sp xs"
  by (rule strip_by_fix) (rule strip_by_ends)

text \<open>The words of a split have no whitespace and are not empty.\<close>

lemma split_by_words: "w \<in> set (split_by sp xs) \<Longrightarrow> w \<noteq> [] \<and> (\<forall>c \<in> set w. \<not> sp c)"
proof (induction sp xs arbitrary: w rule: split_by.induct)
  case (1 sp xs)
  show ?case
  proof (cases "dropWhile sp xs")
    case Nil
    with "1.prems" show ?thesis by (simp add: split_by.simps [of sp xs])
  next
    case (Cons y ys)
    then have y: "\<not> sp y" by (rule dropWhile_hd)
    have "split_by sp xs =
        (y # takeWhile (\<lambda>c. \<not> sp c) ys) # split_by sp (dropWhile (\<lambda>c. \<not> sp c) ys)"
      by (subst split_by.simps) (simp add: Cons)
    with "1.prems" consider "w = y # takeWhile (\<lambda>c. \<not> sp c) ys"
      | "w \<in> set (split_by sp (dropWhile (\<lambda>c. \<not> sp c) ys))" by auto
    then show ?thesis
    proof cases
      case 1
      with y show ?thesis by (auto dest: set_takeWhileD)
    next
      case 2
      with "1.IH" [OF Cons] show ?thesis by blast
    qed
  qed
qed

lemma split_by_eq_Nil_iff: "split_by sp xs = [] \<longleftrightarrow> (\<forall>c \<in> set xs. sp c)"
proof -
  have "split_by sp xs = [] \<longleftrightarrow> dropWhile sp xs = []"
    by (cases "dropWhile sp xs") (simp_all add: split_by.simps [of sp xs] del: dropWhile_eq_Nil_conv)
  then show ?thesis by (simp only: dropWhile_eq_Nil_conv)
qed

text \<open>\<open>join\<close> is injective on lists of the same shape whose parts lack the separator.\<close>

lemma append_sep_inject:
  assumes "xs @ c # ys = xs' @ c # ys'" and "c \<notin> set xs" and "c \<notin> set xs'"
  shows "xs = xs' \<and> ys = ys'"
  using assms
proof (induction xs arbitrary: xs')
  case Nil
  then show ?case by (cases xs') auto
next
  case (Cons a xs)
  then obtain zs where "xs' = a # zs" by (cases xs') auto
  with Cons show ?case by auto
qed

lemma join_inject:
  assumes "join [c] xs = join [c] ys" and "length xs = length ys"
    and "\<forall>x \<in> set xs. c \<notin> set x" and "\<forall>y \<in> set ys. c \<notin> set y"
  shows "xs = ys"
  using assms
proof (induction "[c]" xs arbitrary: ys rule: join.induct)
  case 1
  then show ?case by simp
next
  case (2 x)
  then obtain y where "ys = [y]" by (cases ys) auto
  with 2 show ?case by simp
next
  case (3 x x2 zs)
  then obtain y y2 ws where ys: "ys = y # y2 # ws"
    by (metis (no_types) Suc_length_conv)
  with 3 have "x = y \<and> join [c] (x2 # zs) = join [c] (y2 # ws)"
    by (intro append_sep_inject) auto
  with 3 ys show ?case by auto
qed

lemma find_SomeD: "find P xs = Some x \<Longrightarrow> x \<in> set xs \<and> P x"
  by (induction xs) (auto split: if_splits)

section \<open>Order-preserving deduplication\<close>

text \<open>\<open>list(dict.fromkeys(xs))\<close> keeps the first occurrence of every element.\<close>

fun fromkeys :: "'a list \<Rightarrow> 'a list" where
  "fromkeys [] = []"
| "fromkeys (x # xs) = x # filter (\<lambda>y. y \<noteq> x) (fromkeys xs)"

lemma set_fromkeys [simp]: "set (fromkeys xs) = set xs"
  by (induction xs) auto

lemma distinct_fromkeys [simp]: "distinct (fromkeys xs)"
  by (induction xs) auto

lemma fromkeys_distinct: "distinct xs \<Longrightarrow> fromkeys xs = xs"
  by (induction xs) (auto simp: filter_id_conv)

lemma fromkeys_idem [simp]: "fromkeys (fromkeys xs) = fromkeys xs"
  by (simp add: fromkeys_distinct)

lemma length_fromkeys_le: "length (fromkeys xs) \<le> length xs"
  by (induction xs) (auto intro: order_trans [OF length_filter_le])

lemma fromkeys_eq_Nil [simp]: "fromkeys xs = [] \<longleftrightarrow> xs = []"
  by (cases xs) auto

text \<open>The code's \<open>dict.fromkeys(item.strip() for item in values if item.strip())\<close>.\<close>

definition unique_ids :: "string list \<Rightarrow> string list" where
  "unique_ids xs = fromkeys (filter (\<lambda>s. s \<noteq> []) (map strip xs))"

lemma unique_ids_nonempty: "x \<in> set (unique_ids xs) \<Longrightarrow> x \<noteq> [] \<and> strip x = x"
  by (auto simp: unique_ids_def)

lemma distinct_unique_ids [simp]: "distinct (unique_ids xs)"
  by (simp add: unique_ids_def)

end
