(* ===== verification/Runtime_Trace.thy ===== *)
theory Runtime_Trace
  imports Prelude
begin

text \<open>
  The trace contract of \<open>runtime_trace.py\<close>: one event per node transition of an orchestration
  graph, with no prompt or user content. The graphs emit them; \<open>Trace_Store\<close> persists them.
\<close>

datatype trace_node_kind =
    Decision | Context | Retrieval | Agentic | Capability | Authority | State | SideEffect
  | Foundation

datatype trace_status = Started | Completed | Failed

record trace_event =
  ev_trace_id :: string
  ev_graph_run_id :: string
  ev_graph_name :: string
  ev_node_name :: string
  ev_node_kind :: trace_node_kind
  ev_status :: trace_status
  ev_operation_id :: string
  ev_owner_id :: string
  ev_deployment_id :: string
  ev_character_card_id :: string
  ev_changed_keys :: "string list"
  ev_metadata :: "(string \<times> string) list"
  ev_error :: string
  ev_occurred_at :: time

text \<open>\<open>_final_completed_event\<close>: the events after which a run counts as completed.\<close>

definition final_nodes :: "string list" where
  "final_nodes =
     [''turn_authority'', ''social_continuation_authority'', ''watch_mark_not_met'',
      ''watch_mark_triggered'', ''watch_mark_failure'']"

definition final_completed_event :: "trace_event \<Rightarrow> bool" where
  "final_completed_event e =
     (if ev_status e \<noteq> Completed then False
      else if ev_node_name e = ''turn_resolve'' then
        list_ex (\<lambda>(key, _). key = ''result'') (ev_metadata e)
      else List.member final_nodes (ev_node_name e))"

end
