(* ===== verification/Social_Turn.thy ===== *)
theory Social_Turn
  imports Runtime_Trace
begin

text \<open>
  The continuation graph of \<open>orchestration/social_turn_graph.py\<close> with the contracts of
  \<open>api/social_turn_schemas.py\<close>: one request runs one participant of a group conversation and
  returns the cursor from which the next request continues. The three nodes are \<open>admit_participant\<close>,
  \<open>run_character_turn\<close> and \<open>expand_and_advance\<close>; the Character's own turn is an argument.
\<close>

section \<open>Contracts\<close>

datatype social_origin = Selected | Invite | Mention

definition origin_name :: "social_origin \<Rightarrow> string" where
  "origin_name x = (case x of Selected \<Rightarrow> ''selected'' | Invite \<Rightarrow> ''invite'' | Mention \<Rightarrow> ''mention'')"

record pending_turn =
  pt_deployment_id :: string
  pt_origin :: social_origin
  pt_depth :: int
  pt_source_deployment_id :: string

record social_cursor =
  pending_turns :: "pending_turn list"
  completed_deployment_ids :: "string list"
  attempts_used :: int
  budget_remaining :: int
  cursor_max_depth :: int
  step_index :: int

text \<open>The constructors of the two Pydantic models, with the bounds of their fields.\<close>

definition make_pending_turn ::
  "string \<Rightarrow> social_origin \<Rightarrow> int \<Rightarrow> string \<Rightarrow> error + pending_turn" where
  "make_pending_turn dep origin depth source =
     (if 1 \<le> length dep \<and> length dep \<le> 64 \<and> 0 \<le> depth \<and> depth \<le> 12 \<and> length source \<le> 64
      then Inr \<lparr>pt_deployment_id = dep, pt_origin = origin, pt_depth = depth,
                pt_source_deployment_id = source\<rparr>
      else Inl ValidationError)"

definition make_cursor ::
  "pending_turn list \<Rightarrow> string list \<Rightarrow> int \<Rightarrow> int \<Rightarrow> int \<Rightarrow> error + social_cursor" where
  "make_cursor pending completed budget depth index =
     (if length pending \<le> 30 \<and> length completed \<le> 6 \<and> 0 \<le> budget \<and> budget \<le> 30
         \<and> 0 \<le> depth \<and> depth \<le> 12 \<and> 0 \<le> index \<and> index \<le> 60
      then Inr \<lparr>pending_turns = pending, completed_deployment_ids = completed,
                attempts_used = 0, budget_remaining = budget, cursor_max_depth = depth,
                step_index = index\<rparr>
      else Inl ValidationError)"

text \<open>The parts of the Discord payload and of the Character's reply that the graph reads.\<close>

record turn_payload =
  pl_deployment_id :: string
  pl_connection_id :: string
  pl_author_is_bot :: bool
  pl_runtime_operation_id :: string
  pl_runtime_step_id :: string

record step_request =
  rq_payload :: turn_payload
  rq_initial_ids :: "string list"
  rq_available_ids :: "string list"
  rq_continuation_budget :: int
  rq_max_depth :: int
  rq_cursor :: "social_cursor option"
  rq_operation_id :: string
  rq_runtime_step_id :: string

record turn_reply =
  rp_action :: string
  rp_smart_action :: "string option"
  rp_text :: "string option"
  rp_expression_action :: string

record turn_result =
  tr_reply :: turn_reply
  tr_invite_candidate :: string
  tr_mentioned :: "string list"
  tr_outcome :: string

record step_view =
  vw_reply :: turn_reply
  vw_cursor :: social_cursor
  vw_current_deployment_id :: string
  vw_next_turn :: "pending_turn option"
  vw_done :: bool
  vw_stop_reason :: string
  vw_invite_candidate :: string
  vw_mentioned :: "string list"

section \<open>Trace events of the graph\<close>

record social_state =
  ss_trace_id :: string
  ss_graph_run_id :: string
  ss_operation_id :: string
  ss_current_deployment_id :: string

definition social_emit ::
  "time \<Rightarrow> social_state \<Rightarrow> string \<Rightarrow> trace_node_kind \<Rightarrow> trace_status \<Rightarrow> string list \<Rightarrow>
   (string \<times> string) list \<Rightarrow> string \<Rightarrow> trace_event" where
  "social_emit now st node kind status keys meta err =
     \<lparr>ev_trace_id = ss_trace_id st, ev_graph_run_id = ss_graph_run_id st,
      ev_graph_name = ''social_turn'', ev_node_name = node, ev_node_kind = kind,
      ev_status = status, ev_operation_id = ss_operation_id st, ev_owner_id = [],
      ev_deployment_id = ss_current_deployment_id st, ev_character_card_id = [],
      ev_changed_keys = keys, ev_metadata = meta, ev_error = take 300 err,
      ev_occurred_at = now\<rparr>"

section \<open>Initial cursor and admission\<close>

fun selected_turns :: "string list \<Rightarrow> error + pending_turn list" where
  "selected_turns [] = Inr []"
| "selected_turns (x # xs) =
     (case make_pending_turn x Selected 0 [] of
        Inl e \<Rightarrow> Inl e
      | Inr t \<Rightarrow> (case selected_turns xs of Inl e \<Rightarrow> Inl e | Inr ts \<Rightarrow> Inr (t # ts)))"

definition initialize_cursor :: "step_request \<Rightarrow> error + social_cursor" where
  "initialize_cursor rq =
     (let available = unique_ids (rq_available_ids rq) in
      case selected_turns (filter (\<lambda>x. x \<in> set available) (unique_ids (rq_initial_ids rq))) of
        Inl e \<Rightarrow> Inl e
      | Inr pending \<Rightarrow>
          make_cursor pending [] (min (rq_continuation_budget rq) 5) (rq_max_depth rq) 0)"

definition request_cursor :: "step_request \<Rightarrow> error + social_cursor" where
  "request_cursor rq =
     (case rq_cursor rq of Some c \<Rightarrow> Inr c | None \<Rightarrow> initialize_cursor rq)"

text \<open>The checks of \<open>_admit_participant\<close>, in its order; \<open>counts\<close> counts the visible turns.\<close>

definition speaking_exhausted :: "social_cursor \<Rightarrow> string \<Rightarrow> bool" where
  "speaking_exhausted c dep \<longleftrightarrow>
     attempts_used c \<ge> 12
     \<or> length (completed_deployment_ids c) \<ge> 6
     \<or> count_list (completed_deployment_ids c) dep \<ge> 2
     \<or> (dep \<notin> set (completed_deployment_ids c)
        \<and> length (remdups (completed_deployment_ids c)) \<ge> 3)"

definition admit_cursor :: "step_request \<Rightarrow> social_cursor \<Rightarrow> error + pending_turn" where
  "admit_cursor rq c =
     (case pending_turns c of
        [] \<Rightarrow> Inl (ValueError ''Social Turn cursor has no pending participant.'')
      | current # _ \<Rightarrow>
          if pt_deployment_id current \<notin> set (unique_ids (rq_available_ids rq)) then
            Inl (ValueError ''The next Social Turn participant is no longer available.'')
          else if pl_deployment_id (rq_payload rq) \<noteq> pt_deployment_id current then
            Inl (ValueError ''The supplied Character payload does not match the Social Turn cursor.'')
          else if pl_connection_id (rq_payload rq) = [] then
            Inl (ValueError ''Social Turn payload requires a connector connection.'')
          else if speaking_exhausted c (pt_deployment_id current) then
            Inl (ValueError ''The interaction's attempt or speaking budget is exhausted.'')
          else Inr current)"

definition admission_keys :: "string list" where
  "admission_keys =
     [''status'', ''participation_status'', ''current_deployment_id'', ''pending_deployment_ids'',
      ''completed_deployment_ids'', ''continuation_depth'', ''continuation_budget_remaining'']"

definition admit_participant ::
  "time \<Rightarrow> social_state \<Rightarrow> step_request \<Rightarrow>
   trace_event list \<times> (error + social_cursor \<times> pending_turn)" where
  "admit_participant now st rq =
     (let started = social_emit now st ''social_participation'' Decision Started [] [] [] in
      case request_cursor rq of
        Inl e \<Rightarrow> ([started], Inl e)
      | Inr c \<Rightarrow>
          (case admit_cursor rq c of
             Inl e \<Rightarrow> ([started], Inl e)
           | Inr current \<Rightarrow>
               ([started,
                 social_emit now st ''social_participation'' Decision Completed admission_keys
                   [(''origin'', origin_name (pt_origin current)),
                    (''depth'', str_of_int (pt_depth current))] []],
                Inr (c, current))))"

section \<open>The Character's turn\<close>

text \<open>
  The Character graph is the argument \<open>runner\<close>, from the payload with the runtime identities to
  its result or the exception it raised, with the text of the exception.
\<close>

type_synonym character_runner = "turn_payload \<Rightarrow> (error \<times> string) + turn_result"

definition run_character_turn ::
  "time \<Rightarrow> social_state \<Rightarrow> character_runner \<Rightarrow> step_request \<Rightarrow>
   trace_event list \<times> (error + turn_result)" where
  "run_character_turn now st runner rq =
     (let started = social_emit now st ''social_character_turn'' Agentic Started [] [] [];
          payload = (rq_payload rq)\<lparr>pl_runtime_operation_id := rq_operation_id rq,
                                    pl_runtime_step_id := rq_runtime_step_id rq\<rparr>
      in case runner payload of
           Inl (e, message) \<Rightarrow>
             ([started,
               social_emit now st ''social_character_turn'' Agentic Failed
                 [''character_turn_status'', ''status''] [] message],
              Inl e)
         | Inr r \<Rightarrow>
             ([started,
               social_emit now st ''social_character_turn'' Agentic Completed
                 [''character_turn_status'', ''invite_candidate_deployment_id'']
                 [(''action'', rp_action (tr_reply r)), (''character_outcome'', tr_outcome r)] []],
              Inr r))"

section \<open>Continuation authority\<close>

definition visible_reply :: "turn_reply \<Rightarrow> bool" where
  "visible_reply r \<longleftrightarrow>
     rp_action r \<noteq> ''silent''
     \<and> (case rp_smart_action r of
          Some action \<Rightarrow> action \<noteq> ''ignore''
        | None \<Rightarrow> (rp_text r \<noteq> None \<and> rp_text r \<noteq> Some []) \<or> rp_expression_action r \<noteq> ''none'')"

definition proposals_of :: "turn_payload \<Rightarrow> turn_result \<Rightarrow> (string \<times> social_origin) list" where
  "proposals_of payload r =
     (let invite = tr_invite_candidate r;
          invite_allowed = (invite \<noteq> [] \<and> \<not> pl_author_is_bot payload)
      in (if invite_allowed then [(invite, Invite)] else [])
         @ map (\<lambda>x. (x, Mention))
             (filter (\<lambda>x. \<not> (invite_allowed \<and> x = invite)) (tr_mentioned r)))"

text \<open>What the loop over the proposals updates.\<close>

record expansion =
  ex_inserted :: "pending_turn list"
  ex_known :: "string list"
  ex_distinct :: "string list"
  ex_budget :: int

definition proposal_refused ::
  "string list \<Rightarrow> string list \<Rightarrow> nat \<Rightarrow> string \<Rightarrow> expansion \<Rightarrow> string \<Rightarrow> bool" where
  "proposal_refused available completed rest current ex cand \<longleftrightarrow>
     cand \<notin> set available
     \<or> cand \<in> set (ex_known ex)
     \<or> cand = current
     \<or> count_list completed cand \<ge> 2
     \<or> (cand \<notin> set (ex_distinct ex) \<and> length (ex_distinct ex) \<ge> 3)
     \<or> length completed + rest + length (ex_inserted ex) \<ge> 6"

fun insert_proposals ::
  "string list \<Rightarrow> string list \<Rightarrow> nat \<Rightarrow> string \<Rightarrow> int \<Rightarrow> expansion \<Rightarrow>
   (string \<times> social_origin) list \<Rightarrow> error + expansion" where
  "insert_proposals available completed rest current depth ex [] = Inr ex"
| "insert_proposals available completed rest current depth ex ((cand, origin) # ps) =
     (if ex_budget ex \<le> 0 then Inr ex
      else if proposal_refused available completed rest current ex cand then
        insert_proposals available completed rest current depth ex ps
      else
        (case make_pending_turn cand origin depth current of
           Inl e \<Rightarrow> Inl e
         | Inr t \<Rightarrow>
             insert_proposals available completed rest current depth
               \<lparr>ex_inserted = ex_inserted ex @ [t],
                ex_known = List.insert cand (ex_known ex),
                ex_distinct = List.insert cand (ex_distinct ex),
                ex_budget = ex_budget ex - 1\<rparr> ps))"

text \<open>The visible turns after the current one, and the sets the loop starts from.\<close>

definition completed_after :: "social_cursor \<Rightarrow> pending_turn \<Rightarrow> turn_result \<Rightarrow> string list" where
  "completed_after c current r =
     completed_deployment_ids c
     @ (if visible_reply (tr_reply r) then [pt_deployment_id current] else [])"

definition expansion_start :: "social_cursor \<Rightarrow> string list \<Rightarrow> expansion" where
  "expansion_start c completed =
     (let known = remdups (map pt_deployment_id (tl (pending_turns c))) in
      \<lparr>ex_inserted = [], ex_known = known, ex_distinct = remdups (completed @ known),
       ex_budget = budget_remaining c\<rparr>)"

definition expand_turns ::
  "step_request \<Rightarrow> social_cursor \<Rightarrow> pending_turn \<Rightarrow> turn_result \<Rightarrow> error + expansion" where
  "expand_turns rq c current r =
     (let completed = completed_after c current r;
          start = expansion_start c completed;
          next_depth = pt_depth current + 1
      in if visible_reply (tr_reply r) \<and> next_depth \<le> cursor_max_depth c
            \<and> attempts_used c + 1 < 12
         then insert_proposals (unique_ids (rq_available_ids rq)) completed
                (length (tl (pending_turns c))) (pt_deployment_id current) next_depth start
                (proposals_of (rq_payload rq) r)
         else Inr start)"

definition advance_cursor ::
  "step_request \<Rightarrow> social_cursor \<Rightarrow> pending_turn \<Rightarrow> turn_result \<Rightarrow>
   error + social_cursor \<times> nat" where
  "advance_cursor rq c current r =
     (let completed = completed_after c current r;
          attempts = attempts_used c + 1
      in case expand_turns rq c current r of
           Inl e \<Rightarrow> Inl e
         | Inr ex \<Rightarrow>
             Inr (\<lparr>pending_turns =
                     (if length completed \<ge> 6 \<or> attempts \<ge> 12 then []
                      else tl (pending_turns c) @ ex_inserted ex),
                   completed_deployment_ids = completed,
                   attempts_used = attempts,
                   budget_remaining = ex_budget ex,
                   cursor_max_depth = cursor_max_depth c,
                   step_index = step_index c + 1\<rparr>,
                  length (ex_inserted ex)))"

definition continuation_keys :: "string list" where
  "continuation_keys =
     [''status'', ''continuation_status'', ''pending_deployment_ids'',
      ''completed_deployment_ids'', ''continuation_budget_remaining'',
      ''continuation_candidate_ids'', ''done'', ''stop_reason'']"

definition expand_and_advance ::
  "time \<Rightarrow> social_state \<Rightarrow> step_request \<Rightarrow> social_cursor \<Rightarrow> pending_turn \<Rightarrow> turn_result \<Rightarrow>
   trace_event list \<times> (error + social_cursor \<times> pending_turn option)" where
  "expand_and_advance now st rq c current r =
     (let started = social_emit now st ''social_continuation_authority'' Authority Started [] [] [] in
      case advance_cursor rq c current r of
        Inl e \<Rightarrow> ([started], Inl e)
      | Inr (c', inserted) \<Rightarrow>
          (let next = (case pending_turns c' of [] \<Rightarrow> None | t # _ \<Rightarrow> Some t) in
           ([started,
             social_emit now st ''social_continuation_authority'' Authority Completed
               continuation_keys
               [(''inserted'', str_of_int (int inserted)),
                (''done'', if next = None then ''true'' else ''false''),
                (''next'', case next of None \<Rightarrow> [] | Some t \<Rightarrow> pt_deployment_id t)] []],
            Inr (c', next))))"

section \<open>One step of the graph\<close>

text \<open>The view's constructor: it holds at most 20 mentioned Characters.\<close>

definition make_step_view ::
  "step_request \<Rightarrow> turn_result \<Rightarrow> social_cursor \<Rightarrow> pending_turn option \<Rightarrow> error + step_view" where
  "make_step_view rq r c' next =
     (if 20 < length (tr_mentioned r) then Inl ValidationError
      else Inr \<lparr>vw_reply = tr_reply r, vw_cursor = c',
                vw_current_deployment_id = pl_deployment_id (rq_payload rq),
                vw_next_turn = next, vw_done = (next = None),
                vw_stop_reason = (if next = None then ''completed'' else ''await_delivery''),
                vw_invite_candidate = tr_invite_candidate r, vw_mentioned = tr_mentioned r\<rparr>)"

text \<open>\<open>SocialTurnGraphRunner.run\<close>: the three nodes in order, and the view of the result.\<close>

definition social_turn_step ::
  "time \<Rightarrow> string \<Rightarrow> string \<Rightarrow> character_runner \<Rightarrow> step_request \<Rightarrow>
   trace_event list \<times> (error + step_view)" where
  "social_turn_step now trace_id run_id runner rq =
     (let st = \<lparr>ss_trace_id = trace_id, ss_graph_run_id = run_id,
                ss_operation_id = rq_operation_id rq,
                ss_current_deployment_id = pl_deployment_id (rq_payload rq)\<rparr>
      in case admit_participant now st rq of
           (evs, Inl e) \<Rightarrow> (evs, Inl e)
         | (evs, Inr (c, current)) \<Rightarrow>
             (let st' = st\<lparr>ss_current_deployment_id := pt_deployment_id current\<rparr> in
              case run_character_turn now st' runner rq of
                (evs2, Inl e) \<Rightarrow> (evs @ evs2, Inl e)
              | (evs2, Inr r) \<Rightarrow>
                  (case expand_and_advance now st' rq c current r of
                     (evs3, Inl e) \<Rightarrow> (evs @ evs2 @ evs3, Inl e)
                   | (evs3, Inr (c', next)) \<Rightarrow>
                       (evs @ evs2 @ evs3, make_step_view rq r c' next))))"

section \<open>The loop over the proposals\<close>

text \<open>What one turn inserted by the loop satisfies.\<close>

definition admitted_turn ::
  "string list \<Rightarrow> string list \<Rightarrow> string \<Rightarrow> int \<Rightarrow> pending_turn \<Rightarrow> bool" where
  "admitted_turn available completed current depth t \<longleftrightarrow>
     pt_deployment_id t \<in> set available
     \<and> pt_deployment_id t \<noteq> current
     \<and> count_list completed (pt_deployment_id t) < 2
     \<and> pt_depth t = depth
     \<and> pt_source_deployment_id t = current"

lemma make_pending_turn_InrD:
  "make_pending_turn dep orig depth source = Inr t \<Longrightarrow>
    pt_deployment_id t = dep \<and> pt_origin t = orig \<and> pt_depth t = depth
    \<and> pt_source_deployment_id t = source \<and> 1 \<le> length dep \<and> length dep \<le> 64"
  by (auto simp: make_pending_turn_def split: if_splits)

definition loop_result ::
  "string list \<Rightarrow> string list \<Rightarrow> nat \<Rightarrow> string \<Rightarrow> int \<Rightarrow> expansion \<Rightarrow> expansion \<Rightarrow>
   pending_turn list \<Rightarrow> bool" where
  "loop_result available completed rest current depth ex ex' ts \<longleftrightarrow>
     ex_inserted ex' = ex_inserted ex @ ts
     \<and> ex_budget ex' = ex_budget ex - int (length ts)
     \<and> (\<forall>t \<in> set ts. admitted_turn available completed current depth t)
     \<and> distinct (map pt_deployment_id ts)
     \<and> set (map pt_deployment_id ts) \<inter> set (ex_known ex) = {}
     \<and> (ts \<noteq> [] \<longrightarrow> length completed + rest + length (ex_inserted ex') \<le> 6 \<and> 0 \<le> ex_budget ex')
     \<and> set (ex_distinct ex') = set (ex_distinct ex) \<union> set (map pt_deployment_id ts)
     \<and> length (ex_distinct ex') \<le> max 3 (length (ex_distinct ex))"

lemma loop_result_Cons:
  assumes ts: "loop_result available completed rest current depth
      \<lparr>ex_inserted = ex_inserted ex @ [t], ex_known = List.insert cand (ex_known ex),
       ex_distinct = List.insert cand (ex_distinct ex), ex_budget = ex_budget ex - 1\<rparr> ex' ts"
    and budget: "\<not> ex_budget ex \<le> 0"
    and accepted: "\<not> proposal_refused available completed rest current ex cand"
    and t: "make_pending_turn cand orig depth current = Inr t"
  shows "loop_result available completed rest current depth ex ex' (t # ts)"
proof -
  have dep: "pt_deployment_id t = cand" and adm: "admitted_turn available completed current depth t"
    using make_pending_turn_InrD [OF t] accepted
    by (auto simp: admitted_turn_def proposal_refused_def)
  have new: "cand \<notin> set (ex_known ex)" "length completed + rest + length (ex_inserted ex) < 6"
      "length (List.insert cand (ex_distinct ex)) \<le> max 3 (length (ex_distinct ex))"
    using accepted by (auto simp: proposal_refused_def List.insert_def)
  have ins: "ex_inserted ex' = ex_inserted ex @ t # ts"
      "ex_budget ex' = ex_budget ex - int (length (t # ts))"
    using ts by (simp_all add: loop_result_def)
  have room: "length completed + rest + length (ex_inserted ex') \<le> 6 \<and> 0 \<le> ex_budget ex'"
    using ts new(2) budget by (cases ts) (auto simp: loop_result_def)
  have d: "length (ex_distinct ex') \<le> max 3 (length (ex_distinct ex))"
    using ts new(3) by (auto simp: loop_result_def)
  show ?thesis
    using ts adm new(1) ins room d unfolding loop_result_def by (simp add: dep)
qed

lemma insert_proposals_result:
  "insert_proposals available completed rest current depth ex ps = Inr ex' \<Longrightarrow>
    \<exists>ts. loop_result available completed rest current depth ex ex' ts"
proof (induction available completed rest current depth ex ps
    arbitrary: ex' rule: insert_proposals.induct)
  case (1 available completed rest current depth ex)
  then show ?case by (intro exI [of _ "[]"]) (simp add: loop_result_def)
next
  case (2 available completed rest current depth ex cand orig ps)
  show ?case
  proof (cases "ex_budget ex \<le> 0")
    case True
    with "2.prems" show ?thesis by (intro exI [of _ "[]"]) (simp add: loop_result_def)
  next
    case budget: False
    show ?thesis
    proof (cases "proposal_refused available completed rest current ex cand")
      case True
      with 2 budget show ?thesis by simp
    next
      case accepted: False
      with "2.prems" budget obtain t where
        t: "make_pending_turn cand orig depth current = Inr t"
        by (auto split: sum.splits)
      define ex1 where "ex1 = \<lparr>ex_inserted = ex_inserted ex @ [t],
        ex_known = List.insert cand (ex_known ex), ex_distinct = List.insert cand (ex_distinct ex),
        ex_budget = ex_budget ex - 1\<rparr>"
      have "insert_proposals available completed rest current depth ex1 ps = Inr ex'"
        using "2.prems" budget accepted t by (simp add: ex1_def)
      with "2.IH"(2) [OF budget accepted t] obtain ts where
        ts: "loop_result available completed rest current depth ex1 ex' ts"
        by (auto simp: ex1_def)
      have "loop_result available completed rest current depth ex ex' (t # ts)"
        by (rule loop_result_Cons [OF ts [unfolded ex1_def] budget accepted t])
      then show ?thesis by blast
    qed
  qed
qed

lemma insert_proposals_total:
  assumes "\<forall>x \<in> set available. 1 \<le> length x \<and> length x \<le> 64"
    and "length current \<le> 64" and "0 \<le> depth" and "depth \<le> 12"
  shows "\<exists>ex'. insert_proposals available completed rest current depth ex ps = Inr ex'"
  using assms
  by (induction available completed rest current depth ex ps rule: insert_proposals.induct)
    (auto simp: make_pending_turn_def proposal_refused_def)

lemma insert_proposals_origins:
  "insert_proposals available completed rest current depth ex ps = Inr ex' \<Longrightarrow>
    t \<in> set (ex_inserted ex') \<Longrightarrow> t \<in> set (ex_inserted ex) \<or> pt_origin t \<in> snd ` set ps"
proof (induction available completed rest current depth ex ps
    arbitrary: ex' rule: insert_proposals.induct)
  case (2 available completed rest current depth ex cand orig ps)
  consider "ex_budget ex \<le> 0"
    | "\<not> ex_budget ex \<le> 0" "proposal_refused available completed rest current ex cand"
    | u where "\<not> ex_budget ex \<le> 0" "\<not> proposal_refused available completed rest current ex cand"
        "make_pending_turn cand orig depth current = Inr u"
    using "2.prems"(1) by (auto split: if_splits sum.splits)
  then show ?case
  proof cases
    case 3
    with "2.prems" "2.IH"(2) [OF 3] show ?thesis
      by (auto dest: make_pending_turn_InrD)
  qed (use 2 in auto)
qed simp

section \<open>Bounds of the interaction\<close>

definition cursor_bounded :: "social_cursor \<Rightarrow> bool" where
  "cursor_bounded c \<longleftrightarrow>
     0 \<le> attempts_used c \<and> attempts_used c \<le> 12
     \<and> length (completed_deployment_ids c) \<le> 6
     \<and> (\<forall>x \<in> set (completed_deployment_ids c). count_list (completed_deployment_ids c) x \<le> 2)
     \<and> length (remdups (completed_deployment_ids c)) \<le> 3
     \<and> 0 \<le> budget_remaining c"

lemma admit_cursor_InrD:
  "admit_cursor rq c = Inr current \<Longrightarrow>
    (\<exists>rest. pending_turns c = current # rest)
    \<and> pt_deployment_id current \<in> set (unique_ids (rq_available_ids rq))
    \<and> pl_deployment_id (rq_payload rq) = pt_deployment_id current
    \<and> \<not> speaking_exhausted c (pt_deployment_id current)"
  by (auto simp: admit_cursor_def split: list.splits if_splits)

lemma remdups_snoc_length:
  "length (remdups (xs @ [x])) = (if x \<in> set xs then length (remdups xs) else Suc (length (remdups xs)))"
  by (simp add: length_remdups_card_conv insert_absorb)

text \<open>What an expansion adds to its start.\<close>

lemma expand_turns_result:
  assumes "expand_turns rq c current r = Inr ex"
  obtains ts where
    "loop_result (unique_ids (rq_available_ids rq)) (completed_after c current r)
       (length (tl (pending_turns c))) (pt_deployment_id current) (pt_depth current + 1)
       (expansion_start c (completed_after c current r)) ex ts"
    and "ts \<noteq> [] \<longrightarrow> visible_reply (tr_reply r) \<and> pt_depth current + 1 \<le> cursor_max_depth c"
proof (cases "visible_reply (tr_reply r) \<and> pt_depth current + 1 \<le> cursor_max_depth c
    \<and> attempts_used c + 1 < 12")
  case True
  have "insert_proposals (unique_ids (rq_available_ids rq)) (completed_after c current r)
      (length (tl (pending_turns c))) (pt_deployment_id current) (pt_depth current + 1)
      (expansion_start c (completed_after c current r)) (proposals_of (rq_payload rq) r) = Inr ex"
    using assms unfolding expand_turns_def Let_def if_P [OF True] .
  from insert_proposals_result [OF this] True that show thesis by blast
next
  case False
  have "ex = expansion_start c (completed_after c current r)"
    using assms unfolding expand_turns_def Let_def if_not_P [OF False] by simp
  then show thesis by (intro that [of "[]"]) (simp_all add: loop_result_def)
qed

lemma advance_cursor_InrD:
  assumes "advance_cursor rq c current r = Inr (c', n)"
  obtains ex where "expand_turns rq c current r = Inr ex" and "n = length (ex_inserted ex)"
    and "completed_deployment_ids c' = completed_after c current r"
    and "attempts_used c' = attempts_used c + 1"
    and "budget_remaining c' = ex_budget ex"
    and "pending_turns c' = (if length (completed_after c current r) \<ge> 6 \<or> attempts_used c' \<ge> 12
           then [] else tl (pending_turns c) @ ex_inserted ex)"
  using assms by (auto simp: advance_cursor_def Let_def split: sum.splits)

lemma advance_cursor_bounded:
  assumes "cursor_bounded c" and "admit_cursor rq c = Inr current"
    and adv: "advance_cursor rq c current r = Inr (c', n)"
  shows "cursor_bounded c' \<and> attempts_used c' = attempts_used c + 1
    \<and> budget_remaining c' \<le> budget_remaining c"
proof -
  let ?comp = "completed_after c current r"
  have adm: "\<not> speaking_exhausted c (pt_deployment_id current)"
    using assms(2) by (auto dest: admit_cursor_InrD)
  obtain ex where ex: "expand_turns rq c current r = Inr ex"
    and c': "completed_deployment_ids c' = ?comp" "attempts_used c' = attempts_used c + 1"
      "budget_remaining c' = ex_budget ex"
    by (rule advance_cursor_InrD [OF adv])
  have counts: "\<forall>x \<in> set ?comp. count_list ?comp x \<le> 2"
    using adm assms(1) by (auto simp: speaking_exhausted_def cursor_bounded_def completed_after_def)
  have dist: "length (remdups ?comp) \<le> 3" and len: "length ?comp \<le> 6" and "attempts_used c < 12"
    using adm assms(1)
    by (auto simp: speaking_exhausted_def cursor_bounded_def completed_after_def
        remdups_snoc_length)
  moreover have "0 \<le> ex_budget ex \<and> ex_budget ex \<le> budget_remaining c"
  proof (rule expand_turns_result [OF ex])
    fix ts
    assume "loop_result (unique_ids (rq_available_ids rq)) ?comp (length (tl (pending_turns c)))
        (pt_deployment_id current) (pt_depth current + 1) (expansion_start c ?comp) ex ts"
    with assms(1) show ?thesis
      by (cases ts) (auto simp: loop_result_def expansion_start_def Let_def cursor_bounded_def)
  qed
  ultimately show ?thesis
    using c' counts assms(1) by (simp add: cursor_bounded_def)
qed

text \<open>A chain of steps, each request carrying the cursor that the previous step returned.\<close>

fun social_run ::
  "social_cursor \<Rightarrow> (step_request \<times> turn_result) list \<Rightarrow> error + social_cursor" where
  "social_run c [] = Inr c"
| "social_run c ((rq, r) # xs) =
     (case admit_cursor rq c of
        Inl e \<Rightarrow> Inl e
      | Inr current \<Rightarrow>
          (case advance_cursor rq c current r of
             Inl e \<Rightarrow> Inl e
           | Inr (c', n) \<Rightarrow> social_run c' xs))"

lemma social_run_bounded:
  "cursor_bounded c \<Longrightarrow> social_run c xs = Inr c' \<Longrightarrow>
    cursor_bounded c' \<and> attempts_used c' = attempts_used c + int (length xs)"
proof (induction c xs arbitrary: c' rule: social_run.induct)
  case (2 c rq r xs)
  then obtain current c1 n where
    adm: "admit_cursor rq c = Inr current" and adv: "advance_cursor rq c current r = Inr (c1, n)"
    and rest: "social_run c1 xs = Inr c'"
    using "2.prems"(2) by (auto split: sum.splits)
  have one: "cursor_bounded c1 \<and> attempts_used c1 = attempts_used c + 1"
    using advance_cursor_bounded [OF "2.prems"(1) adm adv] by simp
  then have "cursor_bounded c' \<and> attempts_used c' = attempts_used c1 + int (length xs)"
    using "2.IH" [OF adm adv refl] rest by blast
  with one show ?case by simp
qed simp

section \<open>Continuation authority\<close>

text \<open>What one advance leaves pending: the explicitly selected turns first and in order, then the
  admitted proposals, within the budget.\<close>

lemma advance_cursor_pending:
  assumes adv: "advance_cursor rq c current r = Inr (c', n)"
  obtains ts where
    "length ts = n"
    and "pending_turns c' = (if length (completed_deployment_ids c') \<ge> 6 \<or> attempts_used c' \<ge> 12
           then [] else tl (pending_turns c) @ ts)"
    and "\<forall>t \<in> set ts. admitted_turn (unique_ids (rq_available_ids rq))
           (completed_deployment_ids c') (pt_deployment_id current) (pt_depth current + 1) t"
    and "distinct (map pt_deployment_id ts)"
    and "set (map pt_deployment_id ts) \<inter> set (map pt_deployment_id (tl (pending_turns c))) = {}"
    and "budget_remaining c' = budget_remaining c - int n"
    and "ts \<noteq> [] \<longrightarrow> visible_reply (tr_reply r) \<and> pt_depth current + 1 \<le> cursor_max_depth c
           \<and> 0 \<le> budget_remaining c'
           \<and> length (completed_deployment_ids c') + length (tl (pending_turns c) @ ts) \<le> 6"
proof -
  obtain ex where ex: "expand_turns rq c current r = Inr ex" and n: "n = length (ex_inserted ex)"
    and c': "completed_deployment_ids c' = completed_after c current r"
      "budget_remaining c' = ex_budget ex"
      "pending_turns c' = (if length (completed_after c current r) \<ge> 6 \<or> attempts_used c' \<ge> 12
         then [] else tl (pending_turns c) @ ex_inserted ex)"
    by (rule advance_cursor_InrD [OF adv])
  show thesis
  proof (rule expand_turns_result [OF ex])
    fix ts
    assume "loop_result (unique_ids (rq_available_ids rq)) (completed_after c current r)
        (length (tl (pending_turns c))) (pt_deployment_id current) (pt_depth current + 1)
        (expansion_start c (completed_after c current r)) ex ts"
      and "ts \<noteq> [] \<longrightarrow> visible_reply (tr_reply r) \<and> pt_depth current + 1 \<le> cursor_max_depth c"
    with c' n show thesis
      by (intro that [of ts]) (auto simp: loop_result_def expansion_start_def Let_def)
  qed
qed

lemma advance_cursor_silent:
  assumes "advance_cursor rq c current r = Inr (c', n)" and "\<not> visible_reply (tr_reply r)"
  shows "n = 0 \<and> completed_deployment_ids c' = completed_deployment_ids c
    \<and> budget_remaining c' = budget_remaining c"
  using assms
  by (auto simp: advance_cursor_def expand_turns_def completed_after_def expansion_start_def Let_def)

lemma advance_cursor_total:
  assumes "\<forall>x \<in> set (rq_available_ids rq). length x \<le> 64"
    and "length (pt_deployment_id current) \<le> 64"
    and "0 \<le> pt_depth current" and "cursor_max_depth c \<le> 12"
  shows "\<exists>c' n. advance_cursor rq c current r = Inr (c', n)"
proof -
  have av: "\<forall>x \<in> set (unique_ids (rq_available_ids rq)). 1 \<le> length x \<and> length x \<le> 64"
    using assms(1) length_strip_by [of is_space]
    by (fastforce simp: unique_ids_def Suc_le_eq intro: order_trans)
  have "\<exists>ex'. insert_proposals (unique_ids (rq_available_ids rq)) completed n
      (pt_deployment_id current) (pt_depth current + 1) ex ps = Inr ex'"
    if "pt_depth current + 1 \<le> cursor_max_depth c" for completed n ex ps
    using that assms by (intro insert_proposals_total [OF av]) auto
  then have "\<exists>ex. expand_turns rq c current r = Inr ex"
    by (auto simp: expand_turns_def Let_def)
  then show ?thesis by (auto simp: advance_cursor_def Let_def)
qed

lemma initialize_cursor_bounded: "initialize_cursor rq = Inr c \<Longrightarrow> cursor_bounded c"
  by (auto simp: initialize_cursor_def make_cursor_def cursor_bounded_def
      split: sum.splits if_splits)

section \<open>Properties\<close>

text \<open>A two-Character request, for the concrete instances below.\<close>

definition demo_request :: step_request where
  "demo_request =
     \<lparr>rq_payload = \<lparr>pl_deployment_id = ''ann'', pl_connection_id = ''c'', pl_author_is_bot = False,
                     pl_runtime_operation_id = [], pl_runtime_step_id = []\<rparr>,
      rq_initial_ids = ['' ann '', ''ann''], rq_available_ids = [''ann'', ''ben''],
      rq_continuation_budget = 8, rq_max_depth = 5, rq_cursor = None,
      rq_operation_id = ''op'', rq_runtime_step_id = ''st''\<rparr>"

definition demo_result :: turn_result where
  "demo_result =
     \<lparr>tr_reply = \<lparr>rp_action = ''reply'', rp_smart_action = None, rp_text = Some ''hi'',
                   rp_expression_action = ''none''\<rparr>,
      tr_invite_candidate = ''ben'', tr_mentioned = [''ben''], tr_outcome = ''reply''\<rparr>"

definition demo_cursor :: social_cursor where
  "demo_cursor =
     \<lparr>pending_turns = [\<lparr>pt_deployment_id = ''ann'', pt_origin = Selected, pt_depth = 0,
                        pt_source_deployment_id = []\<rparr>],
      completed_deployment_ids = [], attempts_used = 0, budget_remaining = 5,
      cursor_max_depth = 5, step_index = 0\<rparr>"

definition demo_next_cursor :: social_cursor where
  "demo_next_cursor =
     \<lparr>pending_turns = [\<lparr>pt_deployment_id = ''ben'', pt_origin = Invite, pt_depth = 1,
                        pt_source_deployment_id = ''ann''\<rparr>],
      completed_deployment_ids = [''ann''], attempts_used = 1, budget_remaining = 4,
      cursor_max_depth = 5, step_index = 1\<rparr>"

lemma demo_initialize: "initialize_cursor demo_request = Inr demo_cursor"
  by code_simp

lemma demo_admit: "admit_cursor demo_request demo_cursor = Inr (hd (pending_turns demo_cursor))"
  by code_simp

lemma demo_advance:
  "advance_cursor demo_request demo_cursor (hd (pending_turns demo_cursor)) demo_result
     = Inr (demo_next_cursor, 1)"
  by code_simp

text \<open>C4. However the Characters answer, invite and mention each other, an interaction that starts
  from a fresh request takes at most 12 generation steps, at most 6 visible turns, at most 2 turns
  of one Character and at most 3 different speakers.\<close>

theorem social_interaction_bounded:
  assumes "initialize_cursor rq = Inr c" and "social_run c xs = Inr c'"
  shows "length xs \<le> 12 \<and> length (completed_deployment_ids c') \<le> 6
    \<and> (\<forall>x \<in> set (completed_deployment_ids c'). count_list (completed_deployment_ids c') x \<le> 2)
    \<and> card (set (completed_deployment_ids c')) \<le> 3"
proof -
  have "attempts_used c = 0"
    using assms(1)
    by (auto simp: initialize_cursor_def make_cursor_def split: sum.splits if_splits)
  with social_run_bounded [OF initialize_cursor_bounded [OF assms(1)] assms(2)] show ?thesis
    by (simp add: cursor_bounded_def length_remdups_card_conv)
qed

theorem social_interaction_bounded_witness:
  "social_run demo_cursor [(demo_request, demo_result)] = Inr demo_next_cursor
   \<and> card (set (completed_deployment_ids demo_next_cursor)) \<le> 3"
proof -
  have run: "social_run demo_cursor [(demo_request, demo_result)] = Inr demo_next_cursor"
    by (simp add: demo_admit demo_advance)
  with social_interaction_bounded [OF demo_initialize run] show ?thesis by simp
qed

text \<open>C6. After a visible turn the explicitly selected participants stay first and in their order.
  Every turn the authority adds is of an available Character that is not the speaker, is not
  already pending, spoke less than twice, and is one level deeper than the speaker within the
  depth limit; each costs one unit of the continuation budget, and a silent turn adds none.\<close>

theorem continuation_authority:
  assumes "advance_cursor rq c current r = Inr (c', n)"
    and "pending_turns c' \<noteq> []"
  shows "\<exists>ts. pending_turns c' = tl (pending_turns c) @ ts \<and> length ts = n
    \<and> budget_remaining c' = budget_remaining c - int n
    \<and> (ts \<noteq> [] \<longrightarrow> visible_reply (tr_reply r) \<and> 0 \<le> budget_remaining c'
         \<and> length (completed_deployment_ids c') + length (pending_turns c') \<le> 6)
    \<and> distinct (map pt_deployment_id ts)
    \<and> (\<forall>t \<in> set ts. admitted_turn (unique_ids (rq_available_ids rq)) (completed_deployment_ids c')
          (pt_deployment_id current) (pt_depth current + 1) t
         \<and> pt_depth t \<le> cursor_max_depth c
         \<and> pt_deployment_id t \<notin> pt_deployment_id ` set (tl (pending_turns c)))"
proof (rule advance_cursor_pending [OF assms(1)])
  fix ts
  assume ts: "length ts = n"
    "pending_turns c' = (if length (completed_deployment_ids c') \<ge> 6 \<or> attempts_used c' \<ge> 12
        then [] else tl (pending_turns c) @ ts)"
    "\<forall>t \<in> set ts. admitted_turn (unique_ids (rq_available_ids rq))
        (completed_deployment_ids c') (pt_deployment_id current) (pt_depth current + 1) t"
    "distinct (map pt_deployment_id ts)"
    "set (map pt_deployment_id ts) \<inter> set (map pt_deployment_id (tl (pending_turns c))) = {}"
    "budget_remaining c' = budget_remaining c - int n"
    "ts \<noteq> [] \<longrightarrow> visible_reply (tr_reply r) \<and> pt_depth current + 1 \<le> cursor_max_depth c
        \<and> 0 \<le> budget_remaining c'
        \<and> length (completed_deployment_ids c') + length (tl (pending_turns c) @ ts) \<le> 6"
  have "pending_turns c' = tl (pending_turns c) @ ts"
    using ts(2) assms(2) by (simp split: if_splits)
  with ts show ?thesis
    by (intro exI [of _ ts]) (fastforce simp: admitted_turn_def)
qed

theorem continuation_authority_witness:
  "\<exists>ts. pending_turns demo_next_cursor = tl (pending_turns demo_cursor) @ ts \<and> length ts = 1"
  using continuation_authority [OF demo_advance] by (auto simp: demo_next_cursor_def)

text \<open>A message of a bot never makes the authority admit an invitation.\<close>

theorem bot_message_invites_nobody:
  assumes "advance_cursor rq c current r = Inr (c', n)"
    and "pl_author_is_bot (rq_payload rq)"
    and "\<forall>t \<in> set (pending_turns c). pt_origin t \<noteq> Invite"
  shows "\<forall>t \<in> set (pending_turns c'). pt_origin t \<noteq> Invite"
proof -
  have tl: "set (tl (pending_turns c)) \<subseteq> set (pending_turns c)"
    by (cases "pending_turns c") auto
  have "\<forall>x. (x, Invite) \<notin> set (proposals_of (rq_payload rq) r)"
    using assms(2) by (auto simp: proposals_of_def)
  then have ins: "\<forall>t \<in> set (ex_inserted ex). pt_origin t \<noteq> Invite"
    if "expand_turns rq c current r = Inr ex" for ex
    using that
    by (auto simp: expand_turns_def Let_def expansion_start_def split: if_split_asm
        dest!: insert_proposals_origins)
  show ?thesis
  proof (rule advance_cursor_InrD [OF assms(1)])
    fix ex
    assume "expand_turns rq c current r = Inr ex"
      and "pending_turns c' = (if length (completed_after c current r) \<ge> 6 \<or> attempts_used c' \<ge> 12
           then [] else tl (pending_turns c) @ ex_inserted ex)"
    with ins [of ex] tl assms(3) show ?thesis by auto
  qed
qed

theorem bot_message_invites_nobody_witness:
  "\<exists>c' n. advance_cursor (demo_request\<lparr>rq_payload := (rq_payload demo_request)\<lparr>pl_author_is_bot := True\<rparr>\<rparr>)
       demo_cursor (hd (pending_turns demo_cursor)) demo_result = Inr (c', n)
     \<and> pending_turns c' \<noteq> [] \<and> (\<forall>t \<in> set (pending_turns c'). pt_origin t \<noteq> Invite)"
proof -
  let ?rq = "demo_request\<lparr>rq_payload := (rq_payload demo_request)\<lparr>pl_author_is_bot := True\<rparr>\<rparr>"
  let ?c = "demo_next_cursor\<lparr>pending_turns := map (\<lambda>t. t\<lparr>pt_origin := Mention\<rparr>)
      (pending_turns demo_next_cursor)\<rparr>"
  have adv: "advance_cursor ?rq demo_cursor (hd (pending_turns demo_cursor)) demo_result = Inr (?c, 1)"
    by code_simp
  have "\<forall>t \<in> set (pending_turns ?c). pt_origin t \<noteq> Invite"
    by (rule bot_message_invites_nobody [OF adv]) (simp_all add: demo_cursor_def)
  with adv show ?thesis by (intro exI conjI) (auto simp: demo_next_cursor_def)
qed

lemma social_step_view:
  assumes "request_cursor rq = Inr c" and "admit_cursor rq c = Inr current"
    and "runner ((rq_payload rq)\<lparr>pl_runtime_operation_id := rq_operation_id rq,
      pl_runtime_step_id := rq_runtime_step_id rq\<rparr>) = Inr r"
    and "advance_cursor rq c current r = Inr (c', n)"
  shows "snd (social_turn_step now tid rid runner rq) =
    make_step_view rq r c' (case pending_turns c' of [] \<Rightarrow> None | t # _ \<Rightarrow> Some t)"
  using assms
  by (simp add: social_turn_step_def admit_participant_def run_character_turn_def
      expand_and_advance_def Let_def)

text \<open>C24. What becomes of a step whose Character turn returned: with identifiers of at most 64
  characters and a depth limit of at most 12, as the request schema demands, an admitted participant
  gets its step, and the cursor counts one attempt more, if the reply mentions at most 20 Characters;
  a reply that mentions more is lost, because the view that should carry it does not validate. The
  authority itself raises nothing.\<close>

theorem admitted_step_returns:
  assumes "request_cursor rq = Inr c" and "admit_cursor rq c = Inr current"
    and "runner ((rq_payload rq)\<lparr>pl_runtime_operation_id := rq_operation_id rq,
      pl_runtime_step_id := rq_runtime_step_id rq\<rparr>) = Inr r"
    and "\<forall>x \<in> set (rq_available_ids rq). length x \<le> 64"
    and "length (pt_deployment_id current) \<le> 64" and "0 \<le> pt_depth current"
    and "cursor_max_depth c \<le> 12"
  shows "if length (tr_mentioned r) \<le> 20
    then \<exists>v. snd (social_turn_step now tid rid runner rq) = Inr v
      \<and> attempts_used (vw_cursor v) = attempts_used c + 1 \<and> vw_reply v = tr_reply r
      \<and> vw_mentioned v = tr_mentioned r
    else snd (social_turn_step now tid rid runner rq) = Inl ValidationError"
proof -
  obtain c' n where adv: "advance_cursor rq c current r = Inr (c', n)"
    using advance_cursor_total [OF assms(4-7)] by blast
  then have "attempts_used c' = attempts_used c + 1"
    by (auto elim: advance_cursor_InrD)
  then show ?thesis
    unfolding social_step_view [where now = now and tid = tid and rid = rid and rq = rq and runner = runner and r = r, OF assms(1-3) adv]
    by (simp add: make_step_view_def)
qed

theorem admitted_step_returns_witness:
  "(\<exists>v. snd (social_turn_step 0 ''t'' ''r'' (\<lambda>_. Inr demo_result) demo_request) = Inr v
      \<and> attempts_used (vw_cursor v) = attempts_used demo_cursor + 1)
   \<and> snd (social_turn_step 0 ''t'' ''r'' (\<lambda>_. Inr (demo_result\<lparr>tr_mentioned := replicate 21 ''ben''\<rparr>)) demo_request)
      = Inl ValidationError"
proof -
  have c: "request_cursor demo_request = Inr demo_cursor"
    using demo_initialize by (simp add: request_cursor_def) (simp add: demo_request_def)
  have bounds: "\<forall>x \<in> set (rq_available_ids demo_request). length x \<le> 64"
    "length (pt_deployment_id (hd (pending_turns demo_cursor))) \<le> 64"
    "0 \<le> pt_depth (hd (pending_turns demo_cursor))" "cursor_max_depth demo_cursor \<le> 12"
    by (simp_all add: demo_request_def demo_cursor_def)
  note step = admitted_step_returns [OF c demo_admit _ bounds, of _ _ 0 "''t''" "''r''"]
  from step [of "\<lambda>_. Inr demo_result" demo_result]
    step [of "\<lambda>_. Inr (demo_result\<lparr>tr_mentioned := replicate 21 ''ben''\<rparr>)" "demo_result\<lparr>tr_mentioned := replicate 21 ''ben''\<rparr>"]
  show ?thesis by (auto simp: demo_result_def)
qed

end
