(* ===== verification/Social_Types.thy ===== *)
theory Social_Types
  imports Social_Turn
begin

text \<open>
  The field bounds of \<open>api/social_turn_schemas.py\<close> as predicates, and type soundness of the
  interaction: every cursor that the continuation graph hands out validates as the schema's cursor
  (preservation), and whoever it names next is admitted (progress).
\<close>

section \<open>Valid contracts\<close>

definition pending_valid :: "pending_turn \<Rightarrow> bool" where
  "pending_valid t \<longleftrightarrow>
     1 \<le> length (pt_deployment_id t) \<and> length (pt_deployment_id t) \<le> 64
     \<and> 0 \<le> pt_depth t \<and> pt_depth t \<le> 12 \<and> length (pt_source_deployment_id t) \<le> 64"

definition cursor_valid :: "social_cursor \<Rightarrow> bool" where
  "cursor_valid c \<longleftrightarrow>
     length (pending_turns c) \<le> 30 \<and> list_all pending_valid (pending_turns c)
     \<and> length (completed_deployment_ids c) \<le> 6
     \<and> 0 \<le> attempts_used c \<and> attempts_used c \<le> 12
     \<and> 0 \<le> budget_remaining c \<and> budget_remaining c \<le> 30
     \<and> 0 \<le> cursor_max_depth c \<and> cursor_max_depth c \<le> 12
     \<and> 0 \<le> step_index c \<and> step_index c \<le> 60"

definition request_valid :: "step_request \<Rightarrow> bool" where
  "request_valid rq \<longleftrightarrow>
     1 \<le> length (rq_initial_ids rq) \<and> length (rq_initial_ids rq) \<le> 3
     \<and> 1 \<le> length (rq_available_ids rq) \<and> length (rq_available_ids rq) \<le> 30
     \<and> 0 \<le> rq_continuation_budget rq \<and> rq_continuation_budget rq \<le> 30
     \<and> 0 \<le> rq_max_depth rq \<and> rq_max_depth rq \<le> 12
     \<and> (case rq_cursor rq of None \<Rightarrow> True | Some c \<Rightarrow> cursor_valid c)
     \<and> length (rq_operation_id rq) \<le> 64 \<and> length (rq_runtime_step_id rq) \<le> 64"

section \<open>Soundness of the cursor\<close>

text \<open>
  What holds of every cursor of an interaction: it is valid, and nobody it names has used up a
  speaking budget.
\<close>

definition cursor_typed :: "social_cursor \<Rightarrow> bool" where
  "cursor_typed c \<longleftrightarrow>
     cursor_valid c
     \<and> distinct (map pt_deployment_id (pending_turns c))
     \<and> (\<forall>t \<in> set (pending_turns c). count_list (completed_deployment_ids c) (pt_deployment_id t) < 2)
     \<and> length (completed_deployment_ids c) + length (pending_turns c) \<le> 6
     \<and> card (set (completed_deployment_ids c) \<union> pt_deployment_id ` set (pending_turns c)) \<le> 3
     \<and> (pending_turns c \<noteq> [] \<longrightarrow> attempts_used c < 12)
     \<and> step_index c = attempts_used c"

lemma make_pending_turn_valid: "make_pending_turn dep orig depth source = Inr t \<Longrightarrow> pending_valid t"
  by (auto simp: make_pending_turn_def pending_valid_def split: if_splits)

lemma selected_turns_InrD:
  "selected_turns xs = Inr ts \<Longrightarrow> list_all pending_valid ts \<and> map pt_deployment_id ts = xs"
  by (induction xs arbitrary: ts)
    (auto split: sum.splits dest: make_pending_turn_valid make_pending_turn_InrD)

lemma insert_proposals_valid:
  "insert_proposals available completed rest current depth ex ps = Inr ex' \<Longrightarrow>
    list_all pending_valid (ex_inserted ex) \<Longrightarrow> list_all pending_valid (ex_inserted ex')"
proof (induction available completed rest current depth ex ps
    arbitrary: ex' rule: insert_proposals.induct)
  case (2 available completed rest current depth ex cand orig ps)
  consider "ex_budget ex \<le> 0"
    | "\<not> ex_budget ex \<le> 0" "proposal_refused available completed rest current ex cand"
    | u where "\<not> ex_budget ex \<le> 0" "\<not> proposal_refused available completed rest current ex cand"
        "make_pending_turn cand orig depth current = Inr u"
    using "2.prems"(1) by (auto split: if_splits sum.splits)
  then show ?case
  proof cases
    case 3
    with 2 show ?thesis by (simp add: make_pending_turn_valid)
  qed (use 2 in auto)
qed simp

lemma expand_turns_valid: "expand_turns rq c current r = Inr ex \<Longrightarrow> list_all pending_valid (ex_inserted ex)"
  by (auto simp: expand_turns_def expansion_start_def Let_def split: if_splits
      dest: insert_proposals_valid)

lemma initialize_cursor_typed:
  assumes "initialize_cursor rq = Inr c" and "request_valid rq"
  shows "cursor_typed c"
proof -
  define ids where "ids = filter (\<lambda>x. x \<in> set (unique_ids (rq_available_ids rq))) (unique_ids (rq_initial_ids rq))"
  obtain ts where ts: "selected_turns ids = Inr ts"
    and c: "make_cursor ts [] (min (rq_continuation_budget rq) 5) (rq_max_depth rq) 0 = Inr c"
    using assms(1) by (auto simp: initialize_cursor_def ids_def Let_def split: sum.splits)
  have "length ids \<le> length (unique_ids (rq_initial_ids rq))" by (simp add: ids_def)
  also have "\<dots> \<le> length (rq_initial_ids rq)"
    unfolding unique_ids_def
    by (rule order_trans [OF length_fromkeys_le]) (metis length_filter_le length_map)
  also have "\<dots> \<le> 3" using assms(2) by (simp add: request_valid_def)
  finally have len: "length ids \<le> 3" .
  have ids: "map pt_deployment_id ts = ids" and valid: "list_all pending_valid ts"
    using selected_turns_InrD [OF ts] by simp_all
  have n: "length ts \<le> 3" using len ids by (metis length_map)
  have "card (pt_deployment_id ` set ts) \<le> 3"
    using n by (metis card_length ids image_set len order_trans)
  moreover have "distinct (map pt_deployment_id ts)"
    unfolding ids by (simp add: ids_def)
  ultimately show ?thesis
    using c n valid by (auto simp: cursor_typed_def cursor_valid_def make_cursor_def split: if_splits)
qed

text \<open>Whoever a typed cursor names next has speaking budget left.\<close>

lemma typed_not_exhausted:
  assumes "cursor_typed c" and "pending_turns c = t # rest"
  shows "\<not> speaking_exhausted c (pt_deployment_id t)"
proof -
  let ?done = "set (completed_deployment_ids c)" and ?named = "pt_deployment_id ` set (pending_turns c)"
  have "card ?done < 3" if "pt_deployment_id t \<notin> ?done"
  proof -
    have "?done \<subset> ?done \<union> ?named" using that assms(2) by auto
    then have "card ?done < card (?done \<union> ?named)" by (intro psubset_card_mono) auto
    with assms(1) show ?thesis by (simp add: cursor_typed_def)
  qed
  with assms show ?thesis
    by (auto simp: cursor_typed_def speaking_exhausted_def length_remdups_card_conv)
qed

lemma typed_admits:
  assumes "cursor_typed c" and "pending_turns c = t # rest"
    and "pt_deployment_id t \<in> set (unique_ids (rq_available_ids rq))"
    and "pl_deployment_id (rq_payload rq) = pt_deployment_id t" and "pl_connection_id (rq_payload rq) \<noteq> []"
  shows "admit_cursor rq c = Inr t"
  using assms typed_not_exhausted [OF assms(1,2)] by (simp add: admit_cursor_def)

lemma count_list_snoc: "count_list (xs @ [y]) x = count_list xs x + (if x = y then 1 else 0)"
  by simp

lemma advance_cursor_typed:
  assumes typed: "cursor_typed c" and adm: "admit_cursor rq c = Inr current"
    and adv: "advance_cursor rq c current r = Inr (c', n)"
  shows "cursor_typed c'"
proof -
  let ?comp = "completed_after c current r" and ?rest = "tl (pending_turns c)"
  obtain ex where ex: "expand_turns rq c current r = Inr ex"
    and c': "completed_deployment_ids c' = ?comp" "attempts_used c' = attempts_used c + 1"
      "budget_remaining c' = ex_budget ex"
      "pending_turns c' = (if length ?comp \<ge> 6 \<or> attempts_used c' \<ge> 12 then [] else ?rest @ ex_inserted ex)"
    by (rule advance_cursor_InrD [OF adv])
  have same: "cursor_max_depth c' = cursor_max_depth c" "step_index c' = step_index c + 1"
    using adv by (auto simp: advance_cursor_def Let_def split: sum.splits)
  have pend: "pending_turns c = current # ?rest"
    using admit_cursor_InrD [OF adm] by auto
  show ?thesis
  proof (rule expand_turns_result [OF ex])
    fix ts
    assume loop: "loop_result (unique_ids (rq_available_ids rq)) ?comp (length ?rest)
        (pt_deployment_id current) (pt_depth current + 1) (expansion_start c ?comp) ex ts"
    let ?names = "pt_deployment_id ` set ?rest"
    have ins: "ex_inserted ex = ts" "ex_budget ex = budget_remaining c - int (length ts)"
      and adm_ts: "\<forall>t \<in> set ts. admitted_turn (unique_ids (rq_available_ids rq)) ?comp
        (pt_deployment_id current) (pt_depth current + 1) t"
      and dist: "distinct (map pt_deployment_id ts)" "pt_deployment_id ` set ts \<inter> ?names = {}"
      and room: "ts \<noteq> [] \<longrightarrow> length ?comp + length ?rest + length ts \<le> 6 \<and> 0 \<le> ex_budget ex"
      using loop by (auto simp: loop_result_def expansion_start_def Let_def)
    have budget: "0 \<le> ex_budget ex \<and> ex_budget ex \<le> 30"
      using room ins typed by (cases ts) (auto simp: cursor_typed_def cursor_valid_def)
    have valid: "list_all pending_valid (?rest @ ts)"
      using expand_turns_valid [OF ex] typed pend ins(1)
      by (auto simp: cursor_typed_def cursor_valid_def list_all_iff) (metis list.set_intros(2))
    have other: "\<forall>t \<in> set ?rest. pt_deployment_id current \<noteq> pt_deployment_id t
        \<and> count_list (completed_deployment_ids c) (pt_deployment_id t) < 2"
      using typed unfolding cursor_typed_def by (subst (asm) (1 2 3 4) pend) auto
    have count: "\<forall>t \<in> set (?rest @ ts). count_list ?comp (pt_deployment_id t) < 2"
      using other adm_ts by (auto simp: admitted_turn_def completed_after_def)
    have len: "length ?comp + length (?rest @ ts) \<le> 6"
      using typed arg_cong [OF pend, of length] room unfolding cursor_typed_def completed_after_def
      by (cases "ts = []") (auto split: if_splits simp del: length_tl)
    have names: "set ?comp \<union> ?names \<subseteq> set (completed_deployment_ids c) \<union> pt_deployment_id ` set (pending_turns c)"
      by (subst pend) (auto simp: completed_after_def)
    have start: "length (remdups (?comp @ remdups (map pt_deployment_id ?rest))) \<le> 3"
    proof -
      have "card (set ?comp \<union> ?names) \<le> card (set (completed_deployment_ids c) \<union> pt_deployment_id ` set (pending_turns c))"
        by (rule card_mono [OF _ names]) simp
      with typed show ?thesis by (simp add: cursor_typed_def length_remdups_card_conv)
    qed
    have few: "card (set ?comp \<union> pt_deployment_id ` set (?rest @ ts)) \<le> 3"
    proof -
      have "set (ex_distinct ex) = set ?comp \<union> pt_deployment_id ` set (?rest @ ts)"
        and "length (ex_distinct ex) \<le> 3"
        using loop start by (auto simp: loop_result_def expansion_start_def Let_def)
      then show ?thesis by (metis card_length order_trans)
    qed
    have distinct: "distinct (map pt_deployment_id (?rest @ ts))"
      using dist typed pend by (auto simp: cursor_typed_def) (metis distinct.simps(2) list.simps(9))
    have att: "attempts_used c < 12" "0 \<le> attempts_used c"
      using typed pend by (auto simp: cursor_typed_def cursor_valid_def)
    have few0: "card (set ?comp) \<le> 3"
      by (rule order_trans [OF card_mono few]) auto
    have old: "0 \<le> cursor_max_depth c" "cursor_max_depth c \<le> 12" "step_index c = attempts_used c"
      using typed by (simp_all add: cursor_typed_def cursor_valid_def)
    have comp6: "length ?comp \<le> 6" using len by simp
    note facts = c'(1-3) same old att comp6 budget
    show ?thesis
    proof (cases "length ?comp \<ge> 6 \<or> attempts_used c' \<ge> 12")
      case True
      with c'(4) have "pending_turns c' = []" by simp
      with facts few0 show ?thesis by (simp add: cursor_typed_def cursor_valid_def)
    next
      case False
      then have p: "pending_turns c' = ?rest @ ts" using c'(4) ins(1) by simp
      have a: "attempts_used c + 1 < 12" using False c'(2) by simp
      have 1: "length (?rest @ ts) \<le> 30" using len by simp
      show ?thesis unfolding cursor_typed_def cursor_valid_def p
        using facts a 1 valid distinct count len few by (simp only: simp_thms) simp
    qed
  qed
qed

lemma social_run_typed:
  "cursor_typed c \<Longrightarrow> social_run c xs = Inr c' \<Longrightarrow> cursor_typed c'"
  by (induction c xs rule: social_run.induct)
    (auto split: sum.splits dest: advance_cursor_typed)

lemma social_run_snoc:
  "social_run c xs = Inr c1 \<Longrightarrow> social_run c (xs @ ys) = social_run c1 ys"
  by (induction c xs rule: social_run.induct) (auto split: sum.splits)

section \<open>Property\<close>

text \<open>A request that the connector sends for the participant a cursor names next.\<close>

definition serves :: "step_request \<Rightarrow> pending_turn \<Rightarrow> bool" where
  "serves rq t \<longleftrightarrow>
     pt_deployment_id t \<in> set (unique_ids (rq_available_ids rq))
     \<and> list_all (\<lambda>x. length x \<le> 64) (rq_available_ids rq)
     \<and> pl_deployment_id (rq_payload rq) = pt_deployment_id t
     \<and> pl_connection_id (rq_payload rq) \<noteq> []"

text \<open>C5. The interaction is type sound. Every cursor that it hands out satisfies all the bounds of the
  schema, so the next request that carries it validates; and it never names a participant that
  would then be refused: a request that serves the participant named next is admitted, and once the
  Character has answered, it gets its step with a cursor that validates again, unless the answer
  mentions more than the 20 Characters that a view can hold, for which the step fails to validate.\<close>

theorem social_interaction_well_typed:
  assumes "request_valid rq0" and "initialize_cursor rq0 = Inr c0" and "social_run c0 xs = Inr c"
  shows "cursor_valid c
    \<and> (\<forall>t rest rq. pending_turns c = t # rest \<and> serves rq t \<and> rq_cursor rq = Some c \<longrightarrow>
        (\<forall>now tid rid runner r. (\<forall>p. runner p = Inr r) \<longrightarrow>
          (if length (tr_mentioned r) \<le> 20
           then \<exists>v. snd (social_turn_step now tid rid runner rq) = Inr v \<and> cursor_valid (vw_cursor v)
             \<and> social_run c0 (xs @ [(rq, r)]) = Inr (vw_cursor v)
           else snd (social_turn_step now tid rid runner rq) = Inl ValidationError)))"
proof (intro conjI allI impI)
  have typed: "cursor_typed c"
    by (rule social_run_typed [OF initialize_cursor_typed [OF assms(2,1)] assms(3)])
  then show valid: "cursor_valid c" by (simp add: cursor_typed_def)
  fix t rest rq r now tid rid and runner :: character_runner
  assume t: "pending_turns c = t # rest \<and> serves rq t \<and> rq_cursor rq = Some c" and run: "\<forall>p. runner p = Inr r"
  then have adm: "admit_cursor rq c = Inr t"
    using typed by (intro typed_admits) (auto simp: serves_def)
  have "pending_valid t" using valid t by (simp add: cursor_valid_def)
  then obtain c' n where adv: "advance_cursor rq c t r = Inr (c', n)"
    using advance_cursor_total [of rq t c r] t valid
    by (auto simp: pending_valid_def serves_def list_all_iff cursor_valid_def)
  have "cursor_valid c'"
    using advance_cursor_typed [OF typed adm adv] by (simp add: cursor_typed_def)
  moreover have "social_run c0 (xs @ [(rq, r)]) = Inr c'"
    using adm adv by (simp add: social_run_snoc [OF assms(3)])
  moreover have "request_cursor rq = Inr c" using t by (simp add: request_cursor_def)
  note social_step_view [where now = now and tid = tid and rid = rid and rq = rq and runner = runner and r = r, OF this adm _ adv]
  ultimately show "if length (tr_mentioned r) \<le> 20
      then \<exists>v. snd (social_turn_step now tid rid runner rq) = Inr v \<and> cursor_valid (vw_cursor v)
        \<and> social_run c0 (xs @ [(rq, r)]) = Inr (vw_cursor v)
      else snd (social_turn_step now tid rid runner rq) = Inl ValidationError"
    using run by (simp add: make_step_view_def)
qed

theorem social_interaction_well_typed_witness:
  "\<exists>v. snd (social_turn_step 0 ''t'' ''r'' (\<lambda>_. Inr demo_result)
      (demo_request\<lparr>rq_payload := (rq_payload demo_request)\<lparr>pl_deployment_id := ''ben''\<rparr>,
         rq_cursor := Some demo_next_cursor\<rparr>)) = Inr v
    \<and> cursor_valid (vw_cursor v)"
proof -
  let ?rq = "demo_request\<lparr>rq_payload := (rq_payload demo_request)\<lparr>pl_deployment_id := ''ben''\<rparr>,
    rq_cursor := Some demo_next_cursor\<rparr>"
  have v: "request_valid demo_request" by code_simp
  have run: "social_run demo_cursor [(demo_request, demo_result)] = Inr demo_next_cursor"
    by (simp add: demo_admit demo_advance)
  have s: "serves ?rq (hd (pending_turns demo_next_cursor))" by code_simp
  have p: "pending_turns demo_next_cursor = hd (pending_turns demo_next_cursor) # []"
    by (simp add: demo_next_cursor_def)
  have small: "length (tr_mentioned demo_result) \<le> 20" by (simp add: demo_result_def)
  note step = conjunct2 [OF social_interaction_well_typed [OF v demo_initialize run], rule_format,
    OF conjI [OF p conjI [OF s]], of "\<lambda>_. Inr demo_result" demo_result 0 "''t''" "''r''"]
  show ?thesis using step small by auto
qed

end
