(* ===== verification/Tables.thy ===== *)
theory Tables
  imports Prelude
begin

text \<open>
  Relational tables as lists of rows in insertion order, and how lookups by primary key, counts
  and the key constraint behave under insertion, conditional update and conditional deletion.
  The locale \<open>db_table\<close> is the interface of one table inside a database state: a selector and
  an updater of its rows with a primary key. Every table of the model is an interpretation.
\<close>

section \<open>Operations\<close>

definition tget :: "('r \<Rightarrow> 'k) \<Rightarrow> 'r list \<Rightarrow> 'k \<Rightarrow> 'r option" where
  "tget key t k = find (\<lambda>r. key r = k) t"

definition tset :: "('r \<Rightarrow> bool) \<Rightarrow> ('r \<Rightarrow> 'r) \<Rightarrow> 'r list \<Rightarrow> 'r list" where
  "tset P f t = map (\<lambda>r. if P r then f r else r) t"

definition tdel :: "('r \<Rightarrow> bool) \<Rightarrow> 'r list \<Rightarrow> 'r list" where
  "tdel P t = filter (\<lambda>r. \<not> P r) t"

definition tins :: "'r \<Rightarrow> 'r list \<Rightarrow> 'r list" where
  "tins r t = t @ [r]"

definition tcount :: "('r \<Rightarrow> bool) \<Rightarrow> 'r list \<Rightarrow> nat" where
  "tcount P t = length (filter P t)"

text \<open>The primary key constraint.\<close>

definition keyed :: "('r \<Rightarrow> 'k) \<Rightarrow> 'r list \<Rightarrow> bool" where
  "keyed key t \<longleftrightarrow> distinct (map key t)"

text \<open>\<open>ORDER BY ... LIMIT n\<close>.\<close>

definition tlimit :: "int \<Rightarrow> 'r list \<Rightarrow> 'r list" where
  "tlimit n t = take (nat n) t"

section \<open>Lookup\<close>

lemma tget_Nil [simp]: "tget key [] k = None"
  by (simp add: tget_def)

lemma tget_Cons [simp]: "tget key (r # t) k = (if key r = k then Some r else tget key t k)"
  by (simp add: tget_def)

lemma tget_SomeD: "tget key t k = Some r \<Longrightarrow> r \<in> set t \<and> key r = k"
  by (induction t) (auto split: if_splits)

lemma tget_key: "tget key t k = Some r \<Longrightarrow> key r = k"
  by (blast dest: tget_SomeD)

lemma tget_mem: "tget key t k = Some r \<Longrightarrow> r \<in> set t"
  by (blast dest: tget_SomeD)

lemma tget_None_iff: "tget key t k = None \<longleftrightarrow> k \<notin> key ` set t"
  by (induction t) auto

lemma tget_notin [simp]: "k \<notin> key ` set t \<Longrightarrow> tget key t k = None"
  by (simp add: tget_None_iff)

lemma tget_iff: "keyed key t \<Longrightarrow> tget key t k = Some r \<longleftrightarrow> r \<in> set t \<and> key r = k"
  by (induction t) (auto simp: keyed_def)

lemma tget_self: "keyed key t \<Longrightarrow> r \<in> set t \<Longrightarrow> tget key t (key r) = Some r"
  by (simp add: tget_iff)

section \<open>Insertion, update, deletion\<close>

lemma tget_tset [table_simps]:
  assumes "\<And>r. key (f r) = key r"
  shows "tget key (tset P f t) k = map_option (\<lambda>r. if P r then f r else r) (tget key t k)"
  by (induction t) (auto simp: tset_def assms)

lemma tget_tins [table_simps]:
  "tget key (tins r t) k =
     (case tget key t k of Some x \<Rightarrow> Some x | None \<Rightarrow> if key r = k then Some r else None)"
  by (induction t) (auto simp: tins_def)

lemma tget_tdel [table_simps]:
  assumes "keyed key t"
  shows "tget key (tdel P t) k =
     (case tget key t k of None \<Rightarrow> None | Some r \<Rightarrow> if P r then None else Some r)"
  using assms
proof (induction t)
  case (Cons r t)
  then show ?case by (auto simp: tdel_def keyed_def image_iff)
qed (simp add: tdel_def)

lemma keyed_tset [table_simps]:
  assumes "\<And>r. key (f r) = key r"
  shows "keyed key (tset P f t) = keyed key t"
proof -
  have "map key (tset P f t) = map key t"
    by (simp add: tset_def assms)
  then show ?thesis by (simp only: keyed_def)
qed

lemma keyed_tins [table_simps]: "keyed key (tins r t) \<longleftrightarrow> keyed key t \<and> tget key t (key r) = None"
  by (auto simp: keyed_def tins_def tget_None_iff)

lemma keyed_tdel: "keyed key t \<Longrightarrow> keyed key (tdel P t)"
  by (simp add: keyed_def tdel_def distinct_map_filter)

lemma keyed_Nil [simp]: "keyed key []"
  by (simp add: keyed_def)

lemma set_tset: "set (tset P f t) = (\<lambda>r. if P r then f r else r) ` set t"
  by (simp add: tset_def)

lemma image_key_tset: "(\<And>r. key (f r) = key r) \<Longrightarrow> key ` set (tset P f t) = key ` set t"
  by (induction t) (auto simp: tset_def)

lemma keyed_eq: "keyed key t \<Longrightarrow> a \<in> set t \<Longrightarrow> b \<in> set t \<Longrightarrow> key a = key b \<Longrightarrow> a = b"
  by (auto simp: keyed_def distinct_map inj_on_def)

lemma set_tins [simp]: "set (tins r t) = insert r (set t)"
  by (simp add: tins_def)

lemma set_tdel [simp]: "set (tdel P t) = {r \<in> set t. \<not> P r}"
  by (auto simp: tdel_def)

lemma tset_Nil [simp]: "tset P f [] = []"
  by (simp add: tset_def)

lemma length_tset [simp]: "length (tset P f t) = length t"
  by (simp add: tset_def)

lemma tset_unchanged: "(\<And>r. r \<in> set t \<Longrightarrow> P r \<Longrightarrow> f r = r) \<Longrightarrow> tset P f t = t"
  by (induction t) (auto simp: tset_def)

section \<open>Counts\<close>

lemma tcount_Nil [simp]: "tcount P [] = 0"
  by (simp add: tcount_def)

lemma tcount_0_iff: "tcount P t = 0 \<longleftrightarrow> (\<forall>r \<in> set t. \<not> P r)"
  by (auto simp: tcount_def filter_empty_conv)

lemma tcount_tins [table_simps]: "tcount P (tins r t) = tcount P t + (if P r then 1 else 0)"
  by (simp add: tcount_def tins_def)

lemma tcount_tdel [table_simps]: "tcount P (tdel Q t) = tcount (\<lambda>r. P r \<and> \<not> Q r) t"
  by (simp add: tcount_def tdel_def conj_commute)

lemma tcount_tset_eq:
  assumes "\<And>r. r \<in> set t \<Longrightarrow> Q r \<Longrightarrow> P (f r) = P r"
  shows "tcount P (tset Q f t) = tcount P t"
  using assms by (induction t) (auto simp: tcount_def tset_def)

lemma tcount_mono: "(\<And>r. r \<in> set t \<Longrightarrow> P r \<Longrightarrow> Q r) \<Longrightarrow> tcount P t \<le> tcount Q t"
  by (induction t) (auto simp: tcount_def)

lemma tcount_tdel_le: "tcount P (tdel Q t) \<le> tcount P t"
  by (simp add: tcount_tdel) (rule tcount_mono, blast)

text \<open>The row count of an update of one key is 1 exactly when that row meets the condition.\<close>

lemma tcount_key:
  assumes "keyed key t"
  shows "tcount (\<lambda>r. key r = k \<and> Q r) t =
     (case tget key t k of None \<Rightarrow> 0 | Some r \<Rightarrow> if Q r then 1 else 0)"
  using assms
proof (induction t)
  case (Cons r t)
  then show ?case by (auto simp: tcount_def keyed_def)
qed simp

section \<open>The interface of a table in a database\<close>

locale db_table =
  fixes rows :: "'d \<Rightarrow> 'r list"
    and rows_update :: "('r list \<Rightarrow> 'r list) \<Rightarrow> 'd \<Rightarrow> 'd"
    and key :: "'r \<Rightarrow> 'k"
  assumes rows_of_update: "rows (rows_update g d) = g (rows d)"
begin

text \<open>The row that an update by key leaves, and that it leaves the other rows alone.\<close>

lemma get_modify:
  assumes "\<And>r. key (f r) = key r"
  shows "tget key (rows (rows_update (tset (\<lambda>r. key r = k) f) d)) k' =
    (if k' = k then map_option f (tget key (rows d) k) else tget key (rows d) k')"
proof (cases "tget key (rows d) k'")
  case (Some r)
  then have "key r = k'" by (rule tget_key)
  with Some show ?thesis by (auto simp: rows_of_update tget_tset assms)
qed (auto simp: rows_of_update tget_tset assms)

lemma keyed_modify:
  "(\<And>r. key (f r) = key r) \<Longrightarrow> keyed key (rows (rows_update (tset P f) d)) = keyed key (rows d)"
  by (simp add: rows_of_update keyed_tset)

lemma get_insert:
  assumes "tget key (rows d) (key r) = None"
  shows "tget key (rows (rows_update (tins r) d)) k =
    (if k = key r then Some r else tget key (rows d) k)"
  using assms by (auto simp: rows_of_update tget_tins split: option.split)

lemma get_delete:
  assumes "keyed key (rows d)"
  shows "tget key (rows (rows_update (tdel P) d)) k =
    (case tget key (rows d) k of None \<Rightarrow> None | Some r \<Rightarrow> if P r then None else Some r)"
  using assms by (simp add: rows_of_update tget_tdel)

lemma keyed_insert:
  "keyed key (rows d) \<Longrightarrow> tget key (rows d) (key r) = None \<Longrightarrow>
    keyed key (rows (rows_update (tins r) d))"
  by (simp add: rows_of_update keyed_tins)

lemma keyed_delete: "keyed key (rows d) \<Longrightarrow> keyed key (rows (rows_update (tdel P) d))"
  by (simp add: rows_of_update keyed_tdel)

end

end
