(* ===== verification/Json.thy ===== *)
theory Json
  imports Tables "HOL-Library.AList"
begin

text \<open>
  JSON values as the standard library's \<open>json\<close> module reads and writes them. A text column that
  holds JSON is a \<open>json_text\<close>: text that \<open>json.loads\<close> accepts, named by the value it decodes to,
  or text that it rejects. \<open>loads (dumps v)\<close> is \<open>v\<close>, the documented behaviour of the module on
  the values the code writes. Numbers are integers: the code writes no others to these columns.
  A Python dict is an association list with distinct keys in insertion order, so assignment
  to a key keeps its position and equality ignores the order.
\<close>

datatype json =
    JNull
  | JBool bool
  | JInt int
  | JStr string
  | JArr "json list"
  | JObj "(string \<times> json) list"

datatype json_text = Text json | Malformed string

definition loads :: "json_text \<Rightarrow> json option" where
  "loads t = (case t of Text v \<Rightarrow> Some v | Malformed _ \<Rightarrow> None)"

definition dumps :: "json \<Rightarrow> json_text" where
  "dumps v = Text v"

text \<open>The truth value of a text column: every JSON text has at least one character.\<close>

definition nonempty_text :: "json_text \<Rightarrow> bool" where
  "nonempty_text t \<longleftrightarrow> t \<noteq> Malformed []"

text \<open>\<open>d.get(key)\<close> with its default, \<open>d[key] = value\<close>, and reading a list of strings.\<close>

definition jget :: "(string \<times> json) list \<Rightarrow> string \<Rightarrow> json \<Rightarrow> json" where
  "jget d k dflt = (case map_of d k of Some v \<Rightarrow> v | None \<Rightarrow> dflt)"

definition jput :: "string \<Rightarrow> json \<Rightarrow> (string \<times> json) list \<Rightarrow> (string \<times> json) list" where
  "jput k v d = AList.update k v d"

definition jstrs :: "string list \<Rightarrow> json" where
  "jstrs xs = JArr (map JStr xs)"

definition str_items :: "json list \<Rightarrow> string list" where
  "str_items vs = concat (map (\<lambda>v. case v of JStr s \<Rightarrow> [s] | _ \<Rightarrow> []) vs)"

lemma size_json_member:
  "x \<in> set xs \<Longrightarrow> size x < size (JArr xs)"
  "kv \<in> set d \<Longrightarrow> size (snd kv) < size (JObj d)"
  by (induction xs; auto) (induction d; auto simp: size_prod_def)

text \<open>Python's \<open>==\<close> on decoded values: \<open>True == 1\<close>, and dicts compare key by key.\<close>

function (sequential) json_eq :: "json \<Rightarrow> json \<Rightarrow> bool" where
  "json_eq JNull JNull = True"
| "json_eq (JBool a) (JBool b) = (a = b)"
| "json_eq (JBool a) (JInt b) = ((if a then 1 else 0) = b)"
| "json_eq (JInt a) (JBool b) = (a = (if b then 1 else 0))"
| "json_eq (JInt a) (JInt b) = (a = b)"
| "json_eq (JStr a) (JStr b) = (a = b)"
| "json_eq (JArr xs) (JArr ys) =
     list_all2 json_eq xs ys"
| "json_eq (JObj xs) (JObj ys) =
     (length xs = length ys \<and>
      list_all (\<lambda>kv. case map_of ys (fst kv) of
                 None \<Rightarrow> False
               | Some w \<Rightarrow> json_eq (snd kv) w) xs)"
| "json_eq _ _ = False"
  by pat_completeness auto
termination
  by (relation "measure (\<lambda>(v, w). size v)")
    (auto simp: less_Suc_eq_le snds.simps intro: size_list_estimation' dest!: size_json_member)

text \<open>Well-formed values: the keys of every object are distinct, as a dict's are.\<close>

fun json_wf :: "json \<Rightarrow> bool" where
  "json_wf (JArr xs) = list_all json_wf xs"
| "json_wf (JObj d) = (distinct (map fst d) \<and> list_all (\<lambda>kv. json_wf (snd kv)) d)"
| "json_wf _ = True"

lemma loads_dumps [simp]: "loads (dumps v) = Some v"
  by (simp add: loads_def dumps_def)

lemma loads_Text [simp]: "loads (Text v) = Some v"
  by (simp add: loads_def)

lemma nonempty_dumps [simp]: "nonempty_text (dumps v)"
  by (simp add: nonempty_text_def dumps_def)

lemma jget_jput [simp]: "jget (jput k v d) k' dflt = (if k' = k then v else jget d k' dflt)"
  by (simp add: jget_def jput_def update_conv)

lemma str_items_map_JStr [simp]: "str_items (map JStr xs) = xs"
  by (induction xs) (simp_all add: str_items_def)

lemma distinct_jput: "distinct (map fst d) \<Longrightarrow> distinct (map fst (jput k v d))"
  by (simp add: jput_def distinct_update)

lemma json_eq_refl: "json_wf v \<Longrightarrow> json_eq v v"
proof (induction v)
  case (JArr xs)
  then show ?case
    by (auto simp: list_all_iff intro: list.rel_refl_strong)
next
  case (JObj d)
  then show ?case
    by (fastforce simp: list_all_iff snds.simps split: option.split
        dest: map_of_is_SomeI [rotated])
qed simp_all

end
