(* ===== verification/Room_Routing.thy ===== *)
theory Room_Routing
  imports Tables
begin

text \<open>
  The bounded routing contracts of \<open>room_routing.py\<close>: the frozen Pydantic models with their
  validators, and \<open>route_rules\<close>, which decides without a model who answers a room message.
\<close>

section \<open>Validated data\<close>

text \<open>The whitespace of the pattern \<open>^\S+$\<close> (Unicode White_Space) within Latin-1.\<close>

definition pattern_space :: "char \<Rightarrow> bool" where
  "pattern_space c \<longleftrightarrow> (of_char c :: nat) \<in> set [9, 10, 11, 12, 13, 32, 133, 160]"

definition valid_identifier :: "string \<Rightarrow> bool" where
  "valid_identifier s \<longleftrightarrow>
     1 \<le> length s \<and> length s \<le> 200 \<and> list_all (\<lambda>c. \<not> pattern_space c) s"

definition valid_identifier_option :: "string option \<Rightarrow> bool" where
  "valid_identifier_option x = (case x of None \<Rightarrow> True | Some s \<Rightarrow> valid_identifier s)"

record room_scope =
  sc_owner_id :: string
  sc_connection_id :: string
  sc_guild_id :: string
  sc_channel_id :: string
  sc_thread_id :: string

definition valid_scope :: "room_scope \<Rightarrow> bool" where
  "valid_scope s \<longleftrightarrow>
     valid_identifier (sc_owner_id s) \<and> valid_identifier (sc_connection_id s)
     \<and> valid_identifier (sc_guild_id s) \<and> valid_identifier (sc_channel_id s)
     \<and> length (sc_thread_id s) \<le> 200"

datatype author_kind = Human | CharacterAuthor | OtherBot | ExternalAgent

record room_message =
  rm_id :: string
  rm_scope :: room_scope
  rm_author_id :: string
  rm_author_kind :: author_kind
  rm_author_deployment_id :: "string option"
  rm_text :: prose
  rm_version :: int
  rm_reply_to :: "string option"
  rm_response_to :: "string option"
  rm_response_complete :: "bool option"
  rm_mentioned :: "string list"
  rm_deleted :: bool
  rm_content_available :: bool
  rm_unseen_media :: bool

definition valid_message :: "room_message \<Rightarrow> bool" where
  "valid_message m \<longleftrightarrow>
     valid_identifier (rm_id m) \<and> valid_scope (rm_scope m) \<and> valid_identifier (rm_author_id m)
     \<and> valid_identifier_option (rm_author_deployment_id m)
     \<and> length (rm_text m) \<le> 4000 \<and> 1 \<le> rm_version m
     \<and> valid_identifier_option (rm_reply_to m) \<and> valid_identifier_option (rm_response_to m)
     \<and> length (rm_mentioned m) \<le> 24 \<and> list_all valid_identifier (rm_mentioned m)
     \<and> (rm_author_kind m = CharacterAuthor) = (rm_author_deployment_id m \<noteq> None)"

record public_role =
  pr_deployment_id :: string
  pr_scope :: room_scope
  pr_public_name :: prose
  pr_public_description :: prose
  pr_eligible :: bool

definition valid_role :: "public_role \<Rightarrow> bool" where
  "valid_role r \<longleftrightarrow>
     valid_identifier (pr_deployment_id r) \<and> valid_scope (pr_scope r)
     \<and> 1 \<le> length (pr_public_name r) \<and> length (pr_public_name r) \<le> 100
     \<and> length (pr_public_description r) \<le> 600"

record context_action =
  ca_actor_id :: string
  ca_target_message_id :: string
  ca_deployment_ids :: "string list"

definition valid_action :: "context_action \<Rightarrow> bool" where
  "valid_action a \<longleftrightarrow>
     valid_identifier (ca_actor_id a) \<and> valid_identifier (ca_target_message_id a)
     \<and> 1 \<le> length (ca_deployment_ids a) \<and> length (ca_deployment_ids a) \<le> 24
     \<and> list_all valid_identifier (ca_deployment_ids a)"

record routing_snapshot =
  sn_snapshot_id :: string
  sn_revision :: int
  sn_scope :: room_scope
  sn_trigger_message_id :: string
  sn_messages :: "room_message list"
  sn_roles :: "public_role list"
  sn_context_action :: "context_action option"
  sn_capacity_remaining :: int
  sn_ambient_allowed :: bool
  sn_continuation_allowed :: bool

text \<open>The field bounds of \<open>RoutingSnapshot\<close> and its validator \<open>unique_identities\<close>.\<close>

definition valid_snapshot :: "routing_snapshot \<Rightarrow> bool" where
  "valid_snapshot s \<longleftrightarrow>
     valid_identifier (sn_snapshot_id s) \<and> 0 \<le> sn_revision s \<and> valid_scope (sn_scope s)
     \<and> valid_identifier (sn_trigger_message_id s)
     \<and> length (sn_messages s) \<le> 64 \<and> list_all valid_message (sn_messages s)
     \<and> length (sn_roles s) \<le> 24 \<and> list_all valid_role (sn_roles s)
     \<and> (case sn_context_action s of None \<Rightarrow> True | Some a \<Rightarrow> valid_action a)
     \<and> 0 \<le> sn_capacity_remaining s \<and> sn_capacity_remaining s \<le> 24
     \<and> distinct (map rm_id (sn_messages s))
     \<and> distinct (map pr_deployment_id (sn_roles s))"

definition visible_messages :: "routing_snapshot \<Rightarrow> room_message list" where
  "visible_messages s =
     filter (\<lambda>m. rm_scope m = sn_scope s \<and> \<not> rm_deleted m) (sn_messages s)"

definition eligible_roles :: "routing_snapshot \<Rightarrow> public_role list" where
  "eligible_roles s = filter (\<lambda>r. pr_scope r = sn_scope s \<and> pr_eligible r) (sn_roles s)"

text \<open>\<open>{m.id: m for m in messages}\<close>: a later entry of the same key wins.\<close>

definition message_index :: "room_message list \<Rightarrow> string \<Rightarrow> room_message option" where
  "message_index ms k = tget rm_id (rev ms) k"

section \<open>Routing\<close>

datatype speaking_mode = DirectAnswer | Supplement | Reaction | Continuation

record speaker_choice =
  ch_speaker :: string
  ch_target_message_id :: string
  ch_mode :: speaking_mode

datatype rule_kind = Direct | Director | Silence | Blocked

record rule_result =
  ru_kind :: rule_kind
  ru_reason :: string
  ru_requester_id :: "string option"
  ru_choices :: "speaker_choice list"
  ru_requested_targets :: "string list"

definition rule_stop :: "rule_kind \<Rightarrow> string \<Rightarrow> string list \<Rightarrow> rule_result" where
  "rule_stop kind reason targets =
     \<lparr>ru_kind = kind, ru_reason = reason, ru_requester_id = None, ru_choices = [],
      ru_requested_targets = targets\<rparr>"

text \<open>
  Where the explicit targets come from: a verified context action, the platform mentions of the
  trigger, or the Character whose message it replies to. \<open>Inl\<close> is an early return; a resolved
  source is its reason, the targets, the message they answer and the requester.
\<close>

definition explicit_targets ::
  "routing_snapshot \<Rightarrow> room_message \<Rightarrow>
   rule_result + (string \<times> string list \<times> string \<times> string option)" where
  "explicit_targets s trigger =
     (let messages = message_index (visible_messages s);
          requester = (if rm_author_kind trigger = Human then Some (rm_author_id trigger) else None)
      in case sn_context_action s of
           Some a \<Rightarrow>
             (case messages (ca_target_message_id a) of
                None \<Rightarrow> Inl (rule_stop Blocked ''selected_source_unavailable'' [])
              | Some target \<Rightarrow>
                  if \<not> rm_content_available target
                  then Inl (rule_stop Blocked ''selected_source_unavailable'' [])
                  else Inr (''context_action'', fromkeys (ca_deployment_ids a), rm_id target,
                            Some (ca_actor_id a)))
         | None \<Rightarrow>
             if rm_mentioned trigger \<noteq> [] then
               Inr (''explicit_mentions'', fromkeys (rm_mentioned trigger), rm_id trigger, requester)
             else
               (case rm_reply_to trigger of
                  None \<Rightarrow> Inr ([], [], rm_id trigger, requester)
                | Some pid \<Rightarrow>
                    (case messages pid of
                       None \<Rightarrow> Inl (rule_stop Blocked ''reply_source_unavailable'' [])
                     | Some parent \<Rightarrow>
                         (case (rm_author_kind parent, rm_author_deployment_id parent) of
                            (CharacterAuthor, Some d) \<Rightarrow>
                              Inr (''reply_to_character'', [d], rm_id trigger, requester)
                          | _ \<Rightarrow> Inr ([], [], rm_id trigger, requester)))))"

text \<open>The gates before any target is considered, in the order of the code.\<close>

definition trigger_gate :: "routing_snapshot \<Rightarrow> rule_result + room_message" where
  "trigger_gate s =
     (case message_index (visible_messages s) (sn_trigger_message_id s) of
        None \<Rightarrow> Inl (rule_stop Blocked ''trigger_unavailable'' [])
      | Some trigger \<Rightarrow>
          if \<not> rm_content_available trigger \<and> sn_context_action s = None then
            Inl (rule_stop Blocked ''message_content_unavailable'' [])
          else if rm_author_kind trigger = OtherBot \<and> sn_context_action s = None then
            Inl (rule_stop Silence ''untrusted_bot_trigger'' [])
          else if rm_author_kind trigger = CharacterAuthor \<and> \<not> sn_continuation_allowed s
               \<and> sn_context_action s = None then
            Inl (rule_stop Silence ''continuation_not_admitted'' [])
          else Inr trigger)"

definition route_rules :: "routing_snapshot \<Rightarrow> rule_result" where
  "route_rules s =
     (case trigger_gate s of
        Inl result \<Rightarrow> result
      | Inr trigger \<Rightarrow>
          (case explicit_targets s trigger of
             Inl result \<Rightarrow> result
           | Inr (reason, targets, target_id, requester) \<Rightarrow>
               (let roles = map pr_deployment_id (eligible_roles s) in
                if targets \<noteq> [] then
                  (if \<not> set targets \<subseteq> set roles then
                     rule_stop Blocked ''explicit_target_unavailable'' targets
                   else if int (length targets) > sn_capacity_remaining s then
                     rule_stop Blocked ''capacity'' targets
                   else
                     (let mode = (if rm_author_kind trigger = CharacterAuthor
                                     \<and> sn_context_action s = None
                                  then Continuation else DirectAnswer)
                      in \<lparr>ru_kind = Direct, ru_reason = reason, ru_requester_id = requester,
                          ru_choices = map (\<lambda>t. \<lparr>ch_speaker = t, ch_target_message_id = target_id,
                                                 ch_mode = mode\<rparr>) targets,
                          ru_requested_targets = targets\<rparr>))
                else if \<not> sn_ambient_allowed s then rule_stop Silence ''ambient_disabled'' []
                else if roles = [] then rule_stop Silence ''no_eligible_roles'' []
                else if sn_capacity_remaining s = 0 then rule_stop Blocked ''capacity'' []
                else if rm_author_kind trigger = ExternalAgent then
                  rule_stop Silence ''external_participant_not_addressed'' []
                else rule_stop Director ''ambiguous_room_turn'' [])))"

section \<open>Lemmas\<close>

lemma rule_stop_simps [simp]:
  "ru_kind (rule_stop k r t) = k" "ru_reason (rule_stop k r t) = r"
  "ru_requester_id (rule_stop k r t) = None" "ru_choices (rule_stop k r t) = []"
  "ru_requested_targets (rule_stop k r t) = t"
  by (simp_all add: rule_stop_def)

lemma message_index_SomeD:
  "message_index ms k = Some m \<Longrightarrow> m \<in> set ms \<and> rm_id m = k"
  unfolding message_index_def by (auto dest: tget_SomeD)

lemma visible_messages_iff:
  "m \<in> set (visible_messages s) \<longleftrightarrow>
    m \<in> set (sn_messages s) \<and> rm_scope m = sn_scope s \<and> \<not> rm_deleted m"
  by (auto simp: visible_messages_def)

lemma trigger_gate_InrD:
  "trigger_gate s = Inr t \<Longrightarrow>
    t \<in> set (visible_messages s) \<and> rm_id t = sn_trigger_message_id s
    \<and> (sn_context_action s = None \<longrightarrow> rm_content_available t \<and> rm_author_kind t \<noteq> OtherBot
        \<and> (rm_author_kind t = CharacterAuthor \<longrightarrow> sn_continuation_allowed s))"
  by (auto simp: trigger_gate_def split: option.splits if_splits dest: message_index_SomeD)

lemma trigger_gate_InlD:
  "trigger_gate s = Inl r \<Longrightarrow> ru_kind r \<in> {Blocked, Silence} \<and> ru_choices r = []"
  by (auto simp: trigger_gate_def split: option.splits if_splits)

lemma explicit_targets_InlD:
  "explicit_targets s t = Inl r \<Longrightarrow> ru_kind r = Blocked \<and> ru_choices r = []"
  by (auto simp: explicit_targets_def Let_def
      split: option.splits if_splits author_kind.splits prod.splits)

text \<open>A resolved source is a visible message with readable content.\<close>

lemma explicit_targets_InrD:
  assumes "trigger_gate s = Inr t" and "explicit_targets s t = Inr (reason, targets, tid, requester)"
  shows "distinct targets \<and> (\<exists>m \<in> set (visible_messages s). rm_id m = tid \<and> rm_content_available m)"
  using assms trigger_gate_InrD [OF assms(1)]
  by (auto simp: explicit_targets_def Let_def
      split: option.splits if_splits author_kind.splits prod.splits dest: message_index_SomeD)

lemma route_rules_cases:
  obtains (stopped) "ru_kind (route_rules s) \<in> {Blocked, Silence}" and "ru_choices (route_rules s) = []"
  | (direct) t reason targets tid requester where
      "trigger_gate s = Inr t" and "explicit_targets s t = Inr (reason, targets, tid, requester)"
      and "targets \<noteq> []" and "set targets \<subseteq> set (map pr_deployment_id (eligible_roles s))"
      and "int (length targets) \<le> sn_capacity_remaining s"
      and "ru_kind (route_rules s) = Direct" and "ru_requested_targets (route_rules s) = targets"
      and "map ch_speaker (ru_choices (route_rules s)) = targets"
      and "\<forall>c \<in> set (ru_choices (route_rules s)). ch_target_message_id c = tid"
  | (director) t reason tid requester where
      "trigger_gate s = Inr t" and "explicit_targets s t = Inr (reason, [], tid, requester)"
      and "sn_ambient_allowed s" and "eligible_roles s \<noteq> []" and "sn_capacity_remaining s \<noteq> 0"
      and "rm_author_kind t \<noteq> ExternalAgent"
      and "ru_kind (route_rules s) = Director" and "ru_choices (route_rules s) = []"
proof (cases "trigger_gate s")
  case (Inl r)
  with trigger_gate_InlD [OF Inl] show thesis by (intro stopped) (auto simp: route_rules_def)
next
  case t: (Inr t)
  show thesis
  proof (cases "explicit_targets s t")
    case (Inl r)
    with t explicit_targets_InlD [OF Inl] show thesis
      by (intro stopped) (auto simp: route_rules_def)
  next
    case (Inr x)
    obtain reason targets tid requester where x: "x = (reason, targets, tid, requester)"
      by (cases x) auto
    note ex = Inr [unfolded x]
    show thesis
    proof (cases "targets = []")
      case True
      with t ex show thesis
        using stopped director [OF t ex [unfolded True]]
        by (fastforce simp: route_rules_def Let_def split: if_splits)
    next
      case False
      with t ex show thesis
        using stopped direct [OF t ex False]
        by (fastforce simp: route_rules_def Let_def o_def split: if_splits)
    qed
  qed
qed

section \<open>Properties\<close>

definition demo_scope :: room_scope where
  "demo_scope = \<lparr>sc_owner_id = ''o'', sc_connection_id = ''c'', sc_guild_id = ''g'',
                 sc_channel_id = ''ch'', sc_thread_id = []\<rparr>"

definition demo_message :: "string \<Rightarrow> string list \<Rightarrow> room_message" where
  "demo_message mid mentions =
     \<lparr>rm_id = mid, rm_scope = demo_scope, rm_author_id = ''u1'', rm_author_kind = Human,
      rm_author_deployment_id = None, rm_text = points ''hello'', rm_version = 1,
      rm_reply_to = None, rm_response_to = None, rm_response_complete = None,
      rm_mentioned = mentions, rm_deleted = False, rm_content_available = True,
      rm_unseen_media = False\<rparr>"

definition demo_role :: "string \<Rightarrow> public_role" where
  "demo_role dep =
     \<lparr>pr_deployment_id = dep, pr_scope = demo_scope, pr_public_name = points dep,
      pr_public_description = [], pr_eligible = True\<rparr>"

definition demo_snapshot :: "string list \<Rightarrow> routing_snapshot" where
  "demo_snapshot mentions =
     \<lparr>sn_snapshot_id = ''s'', sn_revision = 3, sn_scope = demo_scope,
      sn_trigger_message_id = ''m2'',
      sn_messages = [demo_message ''m1'' [], demo_message ''m2'' mentions],
      sn_roles = [demo_role ''ann'', demo_role ''ben''], sn_context_action = None,
      sn_capacity_remaining = 2, sn_ambient_allowed = True, sn_continuation_allowed = False\<rparr>"

lemma demo_direct: "ru_kind (route_rules (demo_snapshot [''ben'', ''ann'', ''ben''])) = Direct"
  by code_simp

lemma demo_director: "ru_kind (route_rules (demo_snapshot [])) = Director"
  by code_simp

text \<open>A direct route answers every explicitly requested role or none: its speakers are exactly the
  requested targets, each once, all of them eligible in the room of the snapshot and no more than
  the remaining capacity; and each answers a visible message whose content is readable.\<close>

theorem direct_route_all_or_nothing:
  assumes "ru_kind (route_rules s) = Direct"
  shows "map ch_speaker (ru_choices (route_rules s)) = ru_requested_targets (route_rules s)
    \<and> ru_choices (route_rules s) \<noteq> [] \<and> distinct (ru_requested_targets (route_rules s))
    \<and> set (ru_requested_targets (route_rules s)) \<subseteq> pr_deployment_id ` set (eligible_roles s)
    \<and> int (length (ru_choices (route_rules s))) \<le> sn_capacity_remaining s
    \<and> (\<forall>c \<in> set (ru_choices (route_rules s)). \<exists>m \<in> set (visible_messages s).
          rm_id m = ch_target_message_id c \<and> rm_content_available m)"
proof (cases s rule: route_rules_cases)
  case (direct t reason targets tid requester)
  then have len: "length (ru_choices (route_rules s)) = length targets"
    by (metis length_map)
  from explicit_targets_InrD [OF direct(1,2)] direct len show ?thesis by auto
qed (use assms in auto)

theorem direct_route_all_or_nothing_witness:
  "set (ru_requested_targets (route_rules (demo_snapshot [''ben'', ''ann'', ''ben''])))
     \<subseteq> pr_deployment_id ` set (eligible_roles (demo_snapshot [''ben'', ''ann'', ''ben'']))"
  using direct_route_all_or_nothing [OF demo_direct] by blast

text \<open>Routing reads only the room of the snapshot: replacing the messages and roles by any others
  with the same visible messages and the same eligible roles (messages of other rooms, deleted
  messages, ineligible or foreign roles may come and go) does not change the decision.\<close>

theorem routing_reads_only_its_room:
  assumes "visible_messages s' = visible_messages s" and "eligible_roles s' = eligible_roles s"
    and "sn_trigger_message_id s' = sn_trigger_message_id s"
    and "sn_context_action s' = sn_context_action s"
    and "sn_capacity_remaining s' = sn_capacity_remaining s"
    and "sn_ambient_allowed s' = sn_ambient_allowed s"
    and "sn_continuation_allowed s' = sn_continuation_allowed s"
  shows "route_rules s' = route_rules s"
proof -
  have eqs: "trigger_gate s' = trigger_gate s" "explicit_targets s' = explicit_targets s"
    unfolding trigger_gate_def explicit_targets_def assms by (rule refl)+
  show ?thesis unfolding route_rules_def eqs assms by (rule refl)
qed

theorem routing_reads_only_its_room_witness:
  "route_rules ((demo_snapshot [''ann''])\<lparr>sn_messages :=
       (demo_message ''m9'' [])\<lparr>rm_scope := demo_scope\<lparr>sc_guild_id := ''other''\<rparr>\<rparr>
       # sn_messages (demo_snapshot [''ann''])\<rparr>)
     = route_rules (demo_snapshot [''ann''])"
  by (rule routing_reads_only_its_room)
    (simp_all add: visible_messages_def eligible_roles_def demo_snapshot_def demo_message_def
      demo_scope_def)

text \<open>A model is consulted only for an ambiguous turn: the trigger is visible, its author is a
  person or an admitted Character continuation, no role is addressed explicitly, ambient
  participation is on, and an eligible role and capacity remain.\<close>

theorem director_only_for_ambiguous_turns:
  assumes "valid_snapshot s" and "ru_kind (route_rules s) = Director"
  shows "sn_ambient_allowed s \<and> eligible_roles s \<noteq> [] \<and> sn_capacity_remaining s \<noteq> 0
    \<and> sn_context_action s = None
    \<and> (\<exists>t \<in> set (visible_messages s). rm_id t = sn_trigger_message_id s
         \<and> rm_content_available t \<and> rm_mentioned t = []
         \<and> (rm_author_kind t = Human \<or> (rm_author_kind t = CharacterAuthor \<and> sn_continuation_allowed s)))"
proof (cases s rule: route_rules_cases)
  case (director t reason tid requester)
  have "\<forall>a. sn_context_action s = Some a \<longrightarrow> ca_deployment_ids a \<noteq> []"
    using assms(1) by (auto simp: valid_snapshot_def valid_action_def)
  then have none: "sn_context_action s = None"
    using director(2) by (auto simp: explicit_targets_def Let_def split: option.splits if_splits)
  then have "rm_mentioned t = []"
    using director(2) by (auto simp: explicit_targets_def Let_def split: if_splits)
  with none director trigger_gate_InrD [OF director(1)] show ?thesis
    by (cases "rm_author_kind t") auto
qed (use assms in auto)

theorem director_only_for_ambiguous_turns_witness:
  "sn_ambient_allowed (demo_snapshot []) \<and> eligible_roles (demo_snapshot []) \<noteq> []"
proof -
  have "valid_snapshot (demo_snapshot [])" by code_simp
  from director_only_for_ambiguous_turns [OF this demo_director] show ?thesis by simp
qed

end
