(* ===== verification/Runtime_Db.thy ===== *)
theory Runtime_Db
  imports Json Room_Routing
begin

text \<open>
  The tables of \<open>persistence/runtime_durability_models.py\<close> (and the two tables the delivery
  acknowledgement writes: \<open>RoomDeliverySourceRecord\<close>, \<open>ExpressionUsageRecord\<close>), their identities
  and the JSON columns of a cursor. A status column is a datatype of the literals the code stores.
\<close>

section \<open>Digests\<close>

text \<open>
  \<open>hashlib.sha256(...).hexdigest()\<close> of a text, and of the JSON of a scope or of a list of
  identifiers. The digests are arguments of the model: nothing below depends on how they are
  computed, and a property that needs two digests to differ says so.
\<close>

record digests =
  sha_text :: "string \<Rightarrow> string"
  sha_scope :: "room_scope \<Rightarrow> string"
  sha_ids :: "string list \<Rightarrow> string"

definition unit_separator :: char where
  "unit_separator = CHR 0x1F"

text \<open>\<open>DurableRuntimeRepository.stable_hash\<close>.\<close>

definition stable_hash :: "digests \<Rightarrow> string list \<Rightarrow> string" where
  "stable_hash h parts = sha_text h (join [unit_separator] parts)"

definition social_step_id :: "digests \<Rightarrow> string \<Rightarrow> int \<Rightarrow> string \<Rightarrow> string" where
  "social_step_id h operation index deployment =
     stable_hash h [''social-step-v1'', operation, str_of_int index, deployment]"

text \<open>\<open>scope_key\<close>, \<open>evidence_key\<close> and \<open>delivery_key\<close> of \<open>room_sources.py\<close>.\<close>

definition scope_key :: "'h digests_scheme \<Rightarrow> room_scope \<Rightarrow> string" where
  "scope_key h s = sha_scope h s"

definition evidence_key :: "'h digests_scheme \<Rightarrow> room_scope \<Rightarrow> string \<Rightarrow> string" where
  "evidence_key h s mid = sha_ids h [scope_key h s, mid]"

definition delivery_key :: "'h digests_scheme \<Rightarrow> room_scope \<Rightarrow> string \<Rightarrow> string" where
  "delivery_key h s mid =
     sha_ids h [sc_connection_id s, sc_guild_id s, sc_channel_id s, sc_thread_id s, mid]"

section \<open>Rows\<close>

datatype operation_kind = SocialTurn | CharacterTurn

datatype operation_status = OpActive | OpAwaitingDelivery | OpCompleted | OpUncertain | OpFailed

datatype step_status =
    Generating | Generated | Refreshing | DeliveryClaimed | Delivered | Silent
  | StepUncertain | StepFailed

datatype effect_status = EffectClaimed | EffectCompleted | EffectUncertain

record runtime_operation =
  op_id :: string
  op_kind :: operation_kind
  op_owner_id :: string
  op_connection_id :: string
  op_guild_id :: string
  op_channel_id :: string
  op_thread_id :: string
  op_source_message_id :: string
  op_status :: operation_status
  op_initial_ids :: json_text
  op_available_ids :: json_text
  op_cursor :: json_text
  op_sources :: json_text
  op_continuation_budget :: int
  op_max_depth :: int
  op_resume_count :: int
  op_last_error :: string
  op_created_at :: time
  op_updated_at :: time
  op_completed_at :: "time option"

record runtime_step =
  st_id :: string
  st_operation_id :: string
  st_index :: int
  st_deployment_id :: string
  st_status :: step_status
  st_request_hash :: string
  st_response :: json_text
  st_cursor :: json_text
  st_claim_nonce :: string
  st_sent_ids :: json_text
  st_outgoing_text :: string
  st_applied :: bool
  st_last_error :: string
  st_created_at :: time
  st_updated_at :: time
  st_delivered_at :: "time option"

record side_effect =
  se_key :: string
  se_operation_id :: string
  se_step_id :: string
  se_deployment_id :: string
  se_tool_id :: string
  se_arguments_hash :: string
  se_status :: effect_status
  se_content :: string
  se_trace :: json_text
  se_updated_at :: time

record delivery_source =
  ds_id :: string
  ds_owner_id :: string
  ds_connection_id :: string
  ds_guild_id :: string
  ds_channel_id :: string
  ds_thread_id :: string
  ds_message_id :: string
  ds_target_message_id :: string
  ds_deployment_id :: string
  ds_operation_id :: string
  ds_step_id :: string
  ds_complete :: bool

record expression_usage =
  xu_step_id :: string
  xu_owner_id :: string
  xu_scope_id :: string
  xu_deployment_id :: string
  xu_resource_key :: string

record runtime_db =
  operations :: "runtime_operation list"
  steps :: "runtime_step list"
  effects :: "side_effect list"
  deliveries :: "delivery_source list"
  usages :: "expression_usage list"

abbreviation get_operation :: "'a runtime_db_scheme \<Rightarrow> string \<Rightarrow> runtime_operation option" where
  "get_operation d k \<equiv> tget op_id (operations d) k"

abbreviation get_step :: "'a runtime_db_scheme \<Rightarrow> string \<Rightarrow> runtime_step option" where
  "get_step d k \<equiv> tget st_id (steps d) k"

abbreviation get_effect :: "'a runtime_db_scheme \<Rightarrow> string \<Rightarrow> side_effect option" where
  "get_effect d k \<equiv> tget se_key (effects d) k"

text \<open>Writing back a changed row object.\<close>

definition put_operation ::
  "string \<Rightarrow> (runtime_operation \<Rightarrow> runtime_operation) \<Rightarrow> 'a runtime_db_scheme \<Rightarrow> 'a runtime_db_scheme" where
  "put_operation k f d = d\<lparr>operations := tset (\<lambda>r. op_id r = k) f (operations d)\<rparr>"

definition put_step ::
  "string \<Rightarrow> (runtime_step \<Rightarrow> runtime_step) \<Rightarrow> 'a runtime_db_scheme \<Rightarrow> 'a runtime_db_scheme" where
  "put_step k f d = d\<lparr>steps := tset (\<lambda>r. st_id r = k) f (steps d)\<rparr>"

definition put_effect ::
  "string \<Rightarrow> (side_effect \<Rightarrow> side_effect) \<Rightarrow> 'a runtime_db_scheme \<Rightarrow> 'a runtime_db_scheme" where
  "put_effect k f d = d\<lparr>effects := tset (\<lambda>r. se_key r = k) f (effects d)\<rparr>"

interpretation operation_table: db_table operations operations_update op_id
  by unfold_locales simp

interpretation step_table: db_table steps steps_update st_id
  by unfold_locales simp

interpretation effect_table: db_table effects effects_update se_key
  by unfold_locales simp

section \<open>JSON columns\<close>

text \<open>\<open>_object\<close> and \<open>_list\<close>: a decoded dict or list, empty for anything else.\<close>

definition object_of :: "json_text \<Rightarrow> (string \<times> json) list" where
  "object_of t = (case loads t of Some (JObj d) \<Rightarrow> d | _ \<Rightarrow> [])"

definition list_of :: "json_text \<Rightarrow> json list" where
  "list_of t = (case loads t of Some (JArr xs) \<Rightarrow> xs | _ \<Rightarrow> [])"

definition empty_object :: json_text where
  "empty_object = Text (JObj [])"

definition empty_list :: json_text where
  "empty_list = Text (JArr [])"

definition selected_turn_json :: "string \<Rightarrow> json" where
  "selected_turn_json dep =
     JObj [(''deployment_id'', JStr dep), (''origin'', JStr ''selected''), (''depth'', JInt 0),
           (''source_deployment_id'', JStr [])]"

definition initial_cursor_json :: "string list \<Rightarrow> int \<Rightarrow> int \<Rightarrow> json" where
  "initial_cursor_json ids budget depth =
     JObj [(''pending_turns'', JArr (map selected_turn_json (unique_ids ids))),
           (''completed_deployment_ids'', JArr []),
           (''continuation_budget_remaining'', JInt (min 5 (max 0 budget))),
           (''max_depth'', JInt depth),
           (''step_index'', JInt 0)]"

text \<open>\<open>int(text)\<close>: surrounding whitespace, a sign, digits with single underscores between them.\<close>

definition is_digit :: "char \<Rightarrow> bool" where
  "is_digit c \<longleftrightarrow> 48 \<le> (of_char c :: nat) \<and> (of_char c :: nat) \<le> 57"

fun parse_digits :: "int \<Rightarrow> string \<Rightarrow> int option" where
  "parse_digits acc [] = Some acc"
| "parse_digits acc (c # cs) =
     (if is_digit c then parse_digits (10 * acc + (of_char c - 48)) cs
      else if c = CHR 0x5F then
        (case cs of
           [] \<Rightarrow> None
         | c2 # cs2 \<Rightarrow>
             if is_digit c2 then parse_digits (10 * acc + (of_char c2 - 48)) cs2 else None)
      else None)"

definition parse_unsigned :: "string \<Rightarrow> int option" where
  "parse_unsigned s =
     (case s of [] \<Rightarrow> None | c # _ \<Rightarrow> if is_digit c then parse_digits 0 s else None)"

definition int_of_str :: "string \<Rightarrow> int option" where
  "int_of_str s =
     (case strip s of
        [] \<Rightarrow> None
      | c # cs \<Rightarrow>
          if c = CHR 0x2D then map_option uminus (parse_unsigned cs)
          else if c = CHR 0x2B then parse_unsigned cs
          else parse_unsigned (c # cs))"

text \<open>\<open>int(str(cursor.get("attempts_used", 0)))\<close>: any other value has a text that is no number.\<close>

definition attempts_of :: "(string \<times> json) list \<Rightarrow> error + int" where
  "attempts_of cursor =
     (case jget cursor ''attempts_used'' (JInt 0) of
        JInt n \<Rightarrow> Inr n
      | JStr s \<Rightarrow>
          (case int_of_str s of
             Some n \<Rightarrow> Inr n
           | None \<Rightarrow> Inl (ValueError ''invalid literal for int() with base 10''))
      | _ \<Rightarrow> Inl (ValueError ''invalid literal for int() with base 10''))"

lemma object_of_dumps [simp]: "object_of (dumps (JObj d)) = d"
  by (simp add: object_of_def)

lemma list_of_dumps [simp]: "list_of (dumps (JArr xs)) = xs"
  by (simp add: list_of_def)

lemma object_of_empty [simp]: "object_of empty_object = []"
  by (simp add: object_of_def empty_object_def)

lemma list_of_empty [simp]: "list_of empty_list = []"
  by (simp add: list_of_def empty_list_def)

section \<open>How the row writers act\<close>

lemma get_put_operation [table_simps]:
  assumes "\<And>r. op_id (f r) = op_id r"
  shows "get_operation (put_operation k f d) k' =
    (if k' = k then map_option f (get_operation d k) else get_operation d k')"
  unfolding put_operation_def
  using operation_table.get_modify [of f k d k'] assms by simp

lemma get_put_step [table_simps]:
  assumes "\<And>r. st_id (f r) = st_id r"
  shows "get_step (put_step k f d) k' =
    (if k' = k then map_option f (get_step d k) else get_step d k')"
  unfolding put_step_def using step_table.get_modify [of f k d k'] assms by simp

lemma get_put_effect [table_simps]:
  assumes "\<And>r. se_key (f r) = se_key r"
  shows "get_effect (put_effect k f d) k' =
    (if k' = k then map_option f (get_effect d k) else get_effect d k')"
  unfolding put_effect_def using effect_table.get_modify [of f k d k'] assms by simp

lemma put_frames [simp]:
  "steps (put_operation k f d) = steps d" "effects (put_operation k f d) = effects d"
  "deliveries (put_operation k f d) = deliveries d" "usages (put_operation k f d) = usages d"
  "operations (put_step k g d) = operations d" "effects (put_step k g d) = effects d"
  "deliveries (put_step k g d) = deliveries d" "usages (put_step k g d) = usages d"
  "operations (put_effect k e d) = operations d" "steps (put_effect k e d) = steps d"
  "deliveries (put_effect k e d) = deliveries d" "usages (put_effect k e d) = usages d"
  by (simp_all add: put_operation_def put_step_def put_effect_def)

text \<open>The primary keys of the tables.\<close>

definition runtime_keys :: "'a runtime_db_scheme \<Rightarrow> bool" where
  "runtime_keys d \<longleftrightarrow>
     keyed op_id (operations d) \<and> keyed st_id (steps d) \<and> keyed se_key (effects d)
     \<and> keyed ds_id (deliveries d)"

lemma runtime_keys_put [table_simps]:
  "(\<And>r. op_id (f r) = op_id r) \<Longrightarrow> runtime_keys (put_operation k f d) = runtime_keys d"
  "(\<And>r. st_id (g r) = st_id r) \<Longrightarrow> runtime_keys (put_step k g d) = runtime_keys d"
  "(\<And>r. se_key (e r) = se_key r) \<Longrightarrow> runtime_keys (put_effect k e d) = runtime_keys d"
  by (simp_all add: runtime_keys_def put_operation_def put_step_def put_effect_def keyed_tset)

end
