(* ===== verification/Contracts.thy ===== *)
theory Contracts
  imports Prelude
begin

text \<open>
  The contracts that several components share, as locales over a component's operations:
  an invariant that every operation keeps, a status that never leaves its terminal values, and
  a resource that is handed out at most once. Each is proved here for whole runs of operations
  and interpreted in the theories of the components that promise it.
\<close>

section \<open>Runs of operations\<close>

fun run_ops :: "('op \<Rightarrow> 's \<Rightarrow> 's) \<Rightarrow> 'op list \<Rightarrow> 's \<Rightarrow> 's" where
  "run_ops step [] s = s"
| "run_ops step (x # xs) s = run_ops step xs (step x s)"

text \<open>How many operations of a run are granted what they ask for.\<close>

fun grant_count :: "('op \<Rightarrow> 's \<Rightarrow> 's) \<Rightarrow> ('op \<Rightarrow> 's \<Rightarrow> bool) \<Rightarrow> 'op list \<Rightarrow> 's \<Rightarrow> nat" where
  "grant_count step grants [] s = 0"
| "grant_count step grants (x # xs) s =
     (if grants x s then 1 else 0) + grant_count step grants xs (step x s)"

lemma run_ops_append: "run_ops step (xs @ ys) s = run_ops step ys (run_ops step xs s)"
  by (induction xs arbitrary: s) auto

section \<open>Invariants\<close>

locale invariant_system =
  fixes step :: "'op \<Rightarrow> 's \<Rightarrow> 's" and inv :: "'s \<Rightarrow> bool"
  assumes inv_step: "inv s \<Longrightarrow> inv (step x s)"
begin

lemma inv_run: "inv s \<Longrightarrow> inv (run_ops step xs s)"
  by (induction xs arbitrary: s) (auto intro: inv_step)

end

section \<open>Simulation of a specification\<close>

text \<open>
  A specification is a labelled transition relation on an abstract value per key. A component
  implements it when each of its operations takes the abstract value of every key along a
  transition; then whole runs follow paths of the specification.
\<close>

fun path :: "('e \<Rightarrow> 'a \<Rightarrow> 'a \<Rightarrow> bool) \<Rightarrow> 'a \<Rightarrow> 'e list \<Rightarrow> 'a \<Rightarrow> bool" where
  "path R a [] b = (a = b)"
| "path R a (e # es) b = (\<exists>c. R e a c \<and> path R c es b)"

fun events_of :: "('op \<Rightarrow> 's \<Rightarrow> 's) \<Rightarrow> ('op \<Rightarrow> 's \<Rightarrow> 'e) \<Rightarrow> 'op list \<Rightarrow> 's \<Rightarrow> 'e list" where
  "events_of step event [] s = []"
| "events_of step event (x # xs) s = event x s # events_of step event xs (step x s)"

lemma length_events_of [simp]: "length (events_of step event xs s) = length xs"
  by (induction xs arbitrary: s) auto

lemma events_of_append:
  "events_of step event (xs @ ys) s =
    events_of step event xs s @ events_of step event ys (run_ops step xs s)"
  by (induction xs arbitrary: s) auto

lemma path_invariant:
  assumes "\<And>e a b. R e a b \<Longrightarrow> e \<in> E \<Longrightarrow> P a \<Longrightarrow> P b"
  shows "path R a es b \<Longrightarrow> set es \<subseteq> E \<Longrightarrow> P a \<Longrightarrow> P b"
  by (induction es arbitrary: a) (auto dest: assms)

locale simulation = invariant_system step inv
  for step :: "'op \<Rightarrow> 's \<Rightarrow> 's" and inv :: "'s \<Rightarrow> bool" +
  fixes abstraction :: "'s \<Rightarrow> 'k \<Rightarrow> 'a"
    and event :: "'k \<Rightarrow> 'op \<Rightarrow> 's \<Rightarrow> 'e"
    and spec :: "'e \<Rightarrow> 'a \<Rightarrow> 'a \<Rightarrow> bool"
  assumes simulates: "inv s \<Longrightarrow> spec (event k x s) (abstraction s k) (abstraction (step x s) k)"
begin

lemma run_simulates:
  "inv s \<Longrightarrow>
    path spec (abstraction s k) (events_of step (event k) xs s) (abstraction (run_ops step xs s) k)"
  by (induction xs arbitrary: s) (auto intro: simulates inv_step)

end

section \<open>Terminal statuses\<close>

locale terminal_status =
  fixes step :: "'op \<Rightarrow> 's \<Rightarrow> 's"
    and status :: "'s \<Rightarrow> 'k \<Rightarrow> 'v option"
    and final :: "'v \<Rightarrow> bool"
    and removes :: "'op \<Rightarrow> bool"
  assumes final_step:
    "status s k = Some v \<Longrightarrow> final v \<Longrightarrow> \<not> removes x \<Longrightarrow> status (step x s) k = Some v"
begin

text \<open>No run of operations that remove no record leaves a final status.\<close>

lemma final_run:
  "status s k = Some v \<Longrightarrow> final v \<Longrightarrow> \<forall>x \<in> set xs. \<not> removes x \<Longrightarrow>
    status (run_ops step xs s) k = Some v"
  by (induction xs arbitrary: s) (simp_all add: final_step)

end

section \<open>At most one grant\<close>

text \<open>
  A resource is granted while it is open, a grant closes it, and only an operation that re-arms it
  opens it again; whether an operation does may depend on the state.
\<close>

locale rearmed_grant =
  fixes step :: "'op \<Rightarrow> 's \<Rightarrow> 's"
    and grants :: "'op \<Rightarrow> 's \<Rightarrow> bool"
    and open_for :: "'s \<Rightarrow> bool"
    and rearms :: "'op \<Rightarrow> 's \<Rightarrow> bool"
    and ok :: "'s \<Rightarrow> bool"
  assumes ok_step: "ok s \<Longrightarrow> ok (step x s)"
    and grant_open: "ok s \<Longrightarrow> grants x s \<Longrightarrow> open_for s"
    and grant_closes: "ok s \<Longrightarrow> grants x s \<Longrightarrow> \<not> open_for (step x s)"
    and stays_closed: "ok s \<Longrightarrow> \<not> open_for s \<Longrightarrow> \<not> rearms x s \<Longrightarrow> \<not> open_for (step x s)"
    and rearm_no_grant: "rearms x s \<Longrightarrow> \<not> grants x s"
begin

text \<open>A run grants at most once, plus once for every operation that re-arms the resource.\<close>

lemma grants_rearmed:
  "ok s \<Longrightarrow> grant_count step grants xs s \<le> (if open_for s then 1 else 0) + grant_count step rearms xs s"
proof (induction xs arbitrary: s)
  case (Cons x xs)
  have IH: "grant_count step grants xs (step x s) \<le>
      (if open_for (step x s) then 1 else 0) + grant_count step rearms xs (step x s)"
    by (rule Cons.IH) (rule ok_step [OF Cons.prems])
  show ?case
  proof (cases "rearms x s")
    case True
    with IH rearm_no_grant show ?thesis by (auto split: if_splits)
  next
    case False
    with IH grant_open [OF Cons.prems] grant_closes [OF Cons.prems] stays_closed [OF Cons.prems] show ?thesis
      by (cases "grants x s") (fastforce split: if_splits)+
  qed
qed simp

end

lemma grant_count_static: "grant_count step (\<lambda>x s. P x) xs s = length (filter P xs)"
  by (induction xs arbitrary: s) simp_all

text \<open>The case in which the operation alone tells.\<close>

locale at_most_once =
  fixes step :: "'op \<Rightarrow> 's \<Rightarrow> 's"
    and grants :: "'op \<Rightarrow> 's \<Rightarrow> bool"
    and open_for :: "'s \<Rightarrow> bool"
    and rearms :: "'op \<Rightarrow> bool"
    and ok :: "'s \<Rightarrow> bool"
  assumes ok_step: "ok s \<Longrightarrow> ok (step x s)"
    and grant_open: "ok s \<Longrightarrow> grants x s \<Longrightarrow> open_for s"
    and grant_closes: "ok s \<Longrightarrow> grants x s \<Longrightarrow> \<not> open_for (step x s)"
    and stays_closed: "ok s \<Longrightarrow> \<not> open_for s \<Longrightarrow> \<not> rearms x \<Longrightarrow> \<not> open_for (step x s)"
    and rearm_no_grant: "rearms x \<Longrightarrow> \<not> grants x s"

sublocale at_most_once \<subseteq> rearmed: rearmed_grant step grants open_for "\<lambda>x s. rearms x" ok
  by unfold_locales (fact ok_step grant_open grant_closes stays_closed rearm_no_grant)+

context at_most_once
begin

lemma grants_bounded:
  "ok s \<Longrightarrow> grant_count step grants xs s \<le> (if open_for s then 1 else 0) + length (filter rearms xs)"
  using rearmed.grants_rearmed [of s xs] by (simp add: grant_count_static)

lemma at_most_one:
  "ok s \<Longrightarrow> \<forall>x \<in> set xs. \<not> rearms x \<Longrightarrow> grant_count step grants xs s \<le> 1"
  using grants_bounded [of s xs] by (auto simp: filter_empty_conv split: if_splits)

end

section \<open>Weighted credit\<close>

text \<open>
  Every operation spends as much of a credit as it hands out; a run then hands out no more than the
  credit it starts with. A metered budget is the case where every grant weighs one.
\<close>

fun weight_sum :: "('op \<Rightarrow> 's \<Rightarrow> 's) \<Rightarrow> ('op \<Rightarrow> 's \<Rightarrow> nat) \<Rightarrow> 'op list \<Rightarrow> 's \<Rightarrow> nat" where
  "weight_sum step weight [] s = 0"
| "weight_sum step weight (x # xs) s = weight x s + weight_sum step weight xs (step x s)"

lemma grant_count_weight:
  "grant_count step grants xs s = weight_sum step (\<lambda>x s. if grants x s then 1 else 0) xs s"
  by (induction xs arbitrary: s) auto

locale weighted_credit =
  fixes step :: "'op \<Rightarrow> 's \<Rightarrow> 's"
    and weight :: "'op \<Rightarrow> 's \<Rightarrow> nat"
    and credit :: "'s \<Rightarrow> nat"
    and ok :: "'s \<Rightarrow> bool"
    and legal :: "'op \<Rightarrow> bool"
  assumes ok_step: "ok s \<Longrightarrow> legal x \<Longrightarrow> ok (step x s)"
    and weight_spent: "ok s \<Longrightarrow> legal x \<Longrightarrow> credit (step x s) + weight x s \<le> credit s"
begin

lemma weight_within: "ok s \<Longrightarrow> list_all legal xs \<Longrightarrow> weight_sum step weight xs s \<le> credit s"
proof (induction xs arbitrary: s)
  case (Cons x xs)
  then have x: "legal x" by simp
  have "weight_sum step weight xs (step x s) \<le> credit (step x s)"
    using Cons by (intro Cons.IH ok_step) simp_all
  with weight_spent [OF Cons.prems(1) x] show ?case by simp
qed simp

end

section \<open>A metered budget\<close>

text \<open>
  Every grant adds one to a meter that stays below its cap; no other operation lowers it. Only runs
  of \<open>legal\<close> operations are metered.
\<close>

locale metered =
  fixes step :: "'op \<Rightarrow> 's \<Rightarrow> 's"
    and grants :: "'op \<Rightarrow> 's \<Rightarrow> bool"
    and meter :: "'s \<Rightarrow> nat"
    and cap :: nat
    and ok :: "'s \<Rightarrow> bool"
    and legal :: "'op \<Rightarrow> bool"
  assumes ok_step: "ok s \<Longrightarrow> legal x \<Longrightarrow> ok (step x s)"
    and grant_meter: "ok s \<Longrightarrow> legal x \<Longrightarrow> grants x s \<Longrightarrow>
      meter s < cap \<and> meter (step x s) = Suc (meter s)"
    and meter_mono: "ok s \<Longrightarrow> legal x \<Longrightarrow> meter s \<le> meter (step x s)"

sublocale metered \<subseteq> spent: weighted_credit step "\<lambda>x s. if grants x s then 1 else 0"
  "\<lambda>s. cap - meter s" ok legal
proof
  fix s x
  assume "ok s" "legal x"
  with grant_meter [of s x] meter_mono [of s x]
  show "cap - meter (step x s) + (if grants x s then 1 else 0) \<le> cap - meter s" by auto
qed (rule ok_step)

context metered
begin

lemma grants_within:
  "ok s \<Longrightarrow> list_all legal xs \<Longrightarrow> grant_count step grants xs s \<le> cap - meter s"
  using spent.weight_within [of s xs] by (simp add: grant_count_weight)

end

section \<open>Renewable credit\<close>

text \<open>
  Every grant spends some of a credit that no other operation raises by more than it renews: then a
  run grants no more than the initial credit and all that its operations renew.
\<close>

locale renewable_credit =
  fixes step :: "'op \<Rightarrow> 's \<Rightarrow> 's"
    and grants :: "'op \<Rightarrow> 's \<Rightarrow> bool"
    and credit :: "'s \<Rightarrow> nat"
    and renews :: "'op \<Rightarrow> nat"
    and ok :: "'s \<Rightarrow> bool"
  assumes ok_step: "ok s \<Longrightarrow> ok (step x s)"
    and grant_spends: "ok s \<Longrightarrow> grants x s \<Longrightarrow> credit (step x s) < credit s + renews x"
    and credit_step: "ok s \<Longrightarrow> credit (step x s) \<le> credit s + renews x"
begin

lemma grants_credited: "ok s \<Longrightarrow> grant_count step grants xs s \<le> credit s + sum_list (map renews xs)"
proof (induction xs arbitrary: s)
  case (Cons x xs)
  have "grant_count step grants xs (step x s) \<le> credit (step x s) + sum_list (map renews xs)"
    by (rule Cons.IH) (rule ok_step [OF Cons.prems])
  with grant_spends [OF Cons.prems, of x] credit_step [OF Cons.prems, of x] show ?case by auto
qed simp

end


section \<open>Barred operations\<close>

text \<open>A final status also bars an operation: while nothing ends it, no run is granted one.\<close>

locale barred = terminal_status step status final removes
  for step :: "'op \<Rightarrow> 's \<Rightarrow> 's" and status :: "'s \<Rightarrow> 'k \<Rightarrow> 'v option"
    and final :: "'v \<Rightarrow> bool" and removes :: "'op \<Rightarrow> bool" +
  fixes grants :: "'op \<Rightarrow> 's \<Rightarrow> 'k \<Rightarrow> bool"
  assumes final_bars: "status s k = Some v \<Longrightarrow> final v \<Longrightarrow> \<not> removes x \<Longrightarrow> \<not> grants x s k"
begin

lemma none_granted:
  "status s k = Some v \<Longrightarrow> final v \<Longrightarrow> \<forall>x \<in> set xs. \<not> removes x \<Longrightarrow>
    grant_count step (\<lambda>x s. grants x s k) xs s = 0"
  by (induction xs arbitrary: s) (simp_all add: final_bars final_step)

end


end
