(* ===== verification/Runtime_Steps.thy ===== *)
theory Runtime_Steps
  imports Runtime_Db Contracts
begin

text \<open>
  The generation half of \<open>DurableRuntimeRepository\<close> (\<open>persistence/runtime_durability_repository.py\<close>):
  claiming an operation, preparing a step for generation within the attempt budget, failing it and
  completing it, with the scrubbing of a finished operation. Every definition is one session: it
  returns the value or exception of the method with the committed database.
\<close>

section \<open>Flushing a changed row\<close>

text \<open>A flush writes a row object that changed and then applies \<open>onupdate=utcnow\<close>.\<close>

definition save_operation ::
  "time \<Rightarrow> string \<Rightarrow> (runtime_operation \<Rightarrow> runtime_operation) \<Rightarrow> 'a runtime_db_scheme \<Rightarrow> 'a runtime_db_scheme" where
  "save_operation now k f =
     put_operation k (\<lambda>r. if f r = r then r else (f r)\<lparr>op_updated_at := now\<rparr>)"

definition save_step ::
  "time \<Rightarrow> string \<Rightarrow> (runtime_step \<Rightarrow> runtime_step) \<Rightarrow> 'a runtime_db_scheme \<Rightarrow> 'a runtime_db_scheme" where
  "save_step now k f =
     put_step k (\<lambda>r. if f r = r then r else (f r)\<lparr>st_updated_at := now\<rparr>)"

definition save_steps ::
  "time \<Rightarrow> (runtime_step \<Rightarrow> bool) \<Rightarrow> (runtime_step \<Rightarrow> runtime_step) \<Rightarrow> 'a runtime_db_scheme \<Rightarrow> 'a runtime_db_scheme" where
  "save_steps now P f d =
     d\<lparr>steps := tset P (\<lambda>r. if f r = r then r else (f r)\<lparr>st_updated_at := now\<rparr>) (steps d)\<rparr>"

definition save_effects ::
  "time \<Rightarrow> (side_effect \<Rightarrow> bool) \<Rightarrow> (side_effect \<Rightarrow> side_effect) \<Rightarrow> 'a runtime_db_scheme \<Rightarrow> 'a runtime_db_scheme" where
  "save_effects now P f d =
     d\<lparr>effects := tset P (\<lambda>r. if f r = r then r else (f r)\<lparr>se_updated_at := now\<rparr>) (effects d)\<rparr>"

section \<open>Claiming an operation\<close>

definition character_operation_id :: "digests \<Rightarrow> room_scope \<Rightarrow> string \<Rightarrow> string \<Rightarrow> string" where
  "character_operation_id h s source deployment =
     stable_hash h
       [''discord-character-operation-v1'', sc_owner_id s, sc_connection_id s, sc_guild_id s,
        sc_channel_id s, sc_thread_id s, source, deployment]"

definition new_character_operation ::
  "digests \<Rightarrow> time \<Rightarrow> room_scope \<Rightarrow> string \<Rightarrow> string \<Rightarrow> runtime_operation" where
  "new_character_operation h now s source deployment =
     \<lparr>op_id = character_operation_id h s source deployment, op_kind = CharacterTurn,
      op_owner_id = sc_owner_id s, op_connection_id = sc_connection_id s,
      op_guild_id = sc_guild_id s, op_channel_id = sc_channel_id s, op_thread_id = sc_thread_id s,
      op_source_message_id = source, op_status = OpActive,
      op_initial_ids = dumps (jstrs [deployment]), op_available_ids = dumps (jstrs [deployment]),
      op_cursor = dumps (initial_cursor_json [deployment] 0 0), op_sources = empty_list,
      op_continuation_budget = 0, op_max_depth = 0, op_resume_count = 0, op_last_error = [],
      op_created_at = now, op_updated_at = now, op_completed_at = None\<rparr>"

definition open_operation :: "operation_status \<Rightarrow> bool" where
  "open_operation v \<longleftrightarrow> v = OpActive \<or> v = OpAwaitingDelivery"

definition resume_operation :: "time \<Rightarrow> runtime_operation \<Rightarrow> runtime_operation" where
  "resume_operation now r =
     (if open_operation (op_status r)
      then r\<lparr>op_resume_count := op_resume_count r + 1, op_updated_at := now\<rparr> else r)"

definition same_character_event :: "room_scope \<Rightarrow> string \<Rightarrow> string \<Rightarrow> runtime_operation \<Rightarrow> bool" where
  "same_character_event s source deployment r \<longleftrightarrow>
     op_kind r = CharacterTurn \<and> op_owner_id r = sc_owner_id s
     \<and> op_connection_id r = sc_connection_id s \<and> op_guild_id r = sc_guild_id s
     \<and> op_channel_id r = sc_channel_id s \<and> op_thread_id r = sc_thread_id s
     \<and> op_source_message_id r = source \<and> list_of (op_initial_ids r) = [JStr deployment]"

definition resume_character_operation ::
  "time \<Rightarrow> room_scope \<Rightarrow> string \<Rightarrow> string \<Rightarrow> runtime_operation \<Rightarrow> 'a runtime_db_scheme
    \<Rightarrow> (runtime_operation, 'a runtime_db_scheme) outcome" where
  "resume_character_operation now s source deployment r d =
     (if \<not> same_character_event s source deployment r
      then (Inl (ValueError ''Runtime operation identity does not match its validated Discord event.''), d)
      else (Inr (resume_operation now r), put_operation (op_id r) (resume_operation now) d))"

text \<open>
  The insertion races with other sessions: \<open>env\<close> is what they commit between the lookup and the
  commit, \<open>env'\<close> what they commit between the rollback and the second lookup.
\<close>

definition claim_character_operation ::
  "digests \<Rightarrow> ('a runtime_db_scheme \<Rightarrow> 'a runtime_db_scheme) \<Rightarrow> ('a runtime_db_scheme \<Rightarrow> 'a runtime_db_scheme)
    \<Rightarrow> time \<Rightarrow> room_scope \<Rightarrow> string \<Rightarrow> string \<Rightarrow> 'a runtime_db_scheme
    \<Rightarrow> (runtime_operation, 'a runtime_db_scheme) outcome" where
  "claim_character_operation h env env' now s source deployment d =
     (let k = character_operation_id h s source deployment;
          new = new_character_operation h now s source deployment in
      case get_operation d k of
        Some r \<Rightarrow> resume_character_operation now s source deployment r d
      | None \<Rightarrow>
          (case get_operation (env d) k of
             None \<Rightarrow> (Inr new, (env d)\<lparr>operations := tins new (operations (env d))\<rparr>)
           | Some _ \<Rightarrow>
               (case get_operation (env' (env d)) k of
                  None \<Rightarrow> (Inl IntegrityError, env' (env d))
                | Some r \<Rightarrow> resume_character_operation now s source deployment r (env' (env d)))))"

record social_claim =
  sl_operation_id :: string
  sl_scope :: room_scope
  sl_source_message_id :: string
  sl_initial_ids :: "string list"
  sl_available_ids :: "string list"
  sl_budget :: int
  sl_max_depth :: int

definition new_social_operation :: "time \<Rightarrow> social_claim \<Rightarrow> runtime_operation" where
  "new_social_operation now c =
     \<lparr>op_id = sl_operation_id c, op_kind = SocialTurn,
      op_owner_id = sc_owner_id (sl_scope c), op_connection_id = sc_connection_id (sl_scope c),
      op_guild_id = sc_guild_id (sl_scope c), op_channel_id = sc_channel_id (sl_scope c),
      op_thread_id = sc_thread_id (sl_scope c), op_source_message_id = sl_source_message_id c,
      op_status = OpActive, op_initial_ids = dumps (jstrs (sl_initial_ids c)),
      op_available_ids = dumps (jstrs (sl_available_ids c)),
      op_cursor = dumps (initial_cursor_json (sl_initial_ids c) (sl_budget c) (sl_max_depth c)),
      op_sources = empty_list, op_continuation_budget = sl_budget c, op_max_depth = sl_max_depth c,
      op_resume_count = 0, op_last_error = [], op_created_at = now, op_updated_at = now,
      op_completed_at = None\<rparr>"

definition claim_social_operation ::
  "time \<Rightarrow> social_claim \<Rightarrow> 'a runtime_db_scheme \<Rightarrow> (runtime_operation, 'a runtime_db_scheme) outcome" where
  "claim_social_operation now c d =
     (let s = sl_scope c in
      case get_operation d (sl_operation_id c) of
        None \<Rightarrow>
          (Inr (new_social_operation now c),
           d\<lparr>operations := tins (new_social_operation now c) (operations d)\<rparr>)
      | Some r \<Rightarrow>
          if (op_connection_id r, op_guild_id r, op_channel_id r, op_thread_id r, op_source_message_id r)
             \<noteq> (sc_connection_id s, sc_guild_id s, sc_channel_id s, sc_thread_id s, sl_source_message_id c)
          then (Inl (ValueError ''Runtime operation identity does not match its original Discord event.''), d)
          else if op_owner_id r \<noteq> [] \<and> sc_owner_id s \<noteq> [] \<and> op_owner_id r \<noteq> sc_owner_id s
          then (Inl (ValueError ''Runtime operation owner does not match the selected deployment.''), d)
          else (Inr (resume_operation now r), put_operation (op_id r) (resume_operation now) d))"

definition pending_social_operations ::
  "string \<Rightarrow> int \<Rightarrow> 'a runtime_db_scheme \<Rightarrow> runtime_operation list" where
  "pending_social_operations connection limit d =
     tlimit (clip 1 100 limit)
       (sort_key op_updated_at
         (filter (\<lambda>r. op_connection_id r = connection \<and> op_kind r = SocialTurn
                      \<and> open_operation (op_status r)) (operations d)))"

section \<open>Preparing a step\<close>

datatype preparation = Execute | Replay | InProgress | PrepareUncertain

text \<open>\<open>_reserve_generation_attempt\<close>: the exhausted budget is committed before it is reported.\<close>

definition reserve_generation_attempt ::
  "time \<Rightarrow> runtime_operation \<Rightarrow> 'a runtime_db_scheme \<Rightarrow> (unit, 'a runtime_db_scheme) outcome" where
  "reserve_generation_attempt now r d =
     (let cursor = object_of (op_cursor r) in
      case attempts_of cursor of
        Inl e \<Rightarrow> (Inl e, d)
      | Inr used \<Rightarrow>
          if 12 \<le> used then
            (Inl (ValueError ''interaction_generation_attempt_budget_exhausted''),
             save_operation now (op_id r)
               (\<lambda>r. r\<lparr>op_status := OpFailed,
                      op_last_error := ''interaction_generation_attempt_budget_exhausted'',
                      op_updated_at := now\<rparr>) d)
          else
            (Inr (),
             save_operation now (op_id r)
               (\<lambda>r. r\<lparr>op_cursor := dumps (JObj (jput ''attempts_used'' (JInt (used + 1)) cursor))\<rparr>) d))"

definition new_step ::
  "digests \<Rightarrow> time \<Rightarrow> string \<Rightarrow> int \<Rightarrow> string \<Rightarrow> string \<Rightarrow> runtime_step" where
  "new_step h now operation index deployment request_hash =
     \<lparr>st_id = social_step_id h operation index deployment, st_operation_id = operation,
      st_index = index, st_deployment_id = deployment, st_status = Generating,
      st_request_hash = request_hash, st_response = empty_object, st_cursor = empty_object,
      st_claim_nonce = [], st_sent_ids = empty_list, st_outgoing_text = [], st_applied = False,
      st_last_error = [], st_created_at = now, st_updated_at = now, st_delivered_at = None\<rparr>"

text \<open>The unique constraint \<open>uq_runtime_step_operation_index\<close>.\<close>

definition index_taken :: "string \<Rightarrow> int \<Rightarrow> 'a runtime_db_scheme \<Rightarrow> bool" where
  "index_taken operation index d \<longleftrightarrow>
     list_ex (\<lambda>r. st_operation_id r = operation \<and> st_index r = index) (steps d)"

definition retry_step :: "time \<Rightarrow> runtime_step \<Rightarrow> runtime_step" where
  "retry_step now r = r\<lparr>st_status := Generating, st_last_error := [], st_updated_at := now\<rparr>"

definition prepare_existing_step ::
  "time \<Rightarrow> runtime_operation \<Rightarrow> runtime_step \<Rightarrow> string \<Rightarrow> 'a runtime_db_scheme
    \<Rightarrow> (preparation \<times> runtime_step, 'a runtime_db_scheme) outcome" where
  "prepare_existing_step now operation r request_hash d =
     (if st_request_hash r \<noteq> request_hash
      then (Inl (ValueError ''Durable Social Turn retry does not match the original step request.''), d)
      else if st_status r \<in> {Generated, DeliveryClaimed, Silent} \<and> nonempty_text (st_response r)
      then (Inr (Replay, r), d)
      else if st_status r \<in> {Generating, Refreshing} then (Inr (InProgress, r), d)
      else if st_status r = StepUncertain then (Inr (PrepareUncertain, r), d)
      else if st_status r = StepFailed then
        (case reserve_generation_attempt now operation d of
           (Inl e, d') \<Rightarrow> (Inl e, d')
         | (Inr _, d') \<Rightarrow>
             (Inr (Execute, retry_step now r), put_step (st_id r) (retry_step now) d'))
      else if st_status r = Delivered \<and> nonempty_text (st_response r) then (Inr (Replay, r), d)
      else (Inl (ValueError ''Durable Social Turn step cannot be executed from its current state.''), d))"

definition prepare_social_step ::
  "digests \<Rightarrow> time \<Rightarrow> string \<Rightarrow> int \<Rightarrow> string \<Rightarrow> string \<Rightarrow> 'a runtime_db_scheme
    \<Rightarrow> (preparation \<times> runtime_step, 'a runtime_db_scheme) outcome" where
  "prepare_social_step h now operation index deployment request_hash d =
     (case get_operation d operation of
        None \<Rightarrow> (Inl (ValueError ''Durable Social Turn operation has not been claimed.''), d)
      | Some r \<Rightarrow>
          if op_status r = OpCompleted \<or> op_status r = OpFailed
          then (Inl (ValueError ''Durable Social Turn operation is already completed or failed.''), d)
          else if op_status r = OpUncertain
          then (Inl (RuntimeError ''Durable Social Turn operation requires delivery reconciliation.''), d)
          else
            (case get_step d (social_step_id h operation index deployment) of
               Some st \<Rightarrow> prepare_existing_step now r st request_hash d
             | None \<Rightarrow>
                 (case reserve_generation_attempt now r d of
                    (Inl e, d') \<Rightarrow> (Inl e, d')
                  | (Inr _, d') \<Rightarrow>
                      if index_taken operation index d then (Inl IntegrityError, d)
                      else
                        (let st = new_step h now operation index deployment request_hash in
                         (Inr (Execute, st), d'\<lparr>steps := tins st (steps d')\<rparr>)))))"

definition prepare_character_step ::
  "digests \<Rightarrow> time \<Rightarrow> string \<Rightarrow> string \<Rightarrow> 'a runtime_db_scheme
    \<Rightarrow> (preparation \<times> runtime_step, 'a runtime_db_scheme) outcome" where
  "prepare_character_step h now operation deployment =
     prepare_social_step h now operation 0 deployment
       (stable_hash h [''discord-character-step-v1'', operation, deployment])"

section \<open>Finishing a generation\<close>

definition fail_social_step :: "time \<Rightarrow> string \<Rightarrow> string \<Rightarrow> 'a runtime_db_scheme \<Rightarrow> 'a runtime_db_scheme" where
  "fail_social_step now sid err d =
     (case get_step d sid of
        None \<Rightarrow> d
      | Some st \<Rightarrow>
          save_operation now (st_operation_id st)
            (\<lambda>r. if op_status r \<in> {OpCompleted, OpUncertain} then r
                 else r\<lparr>op_status := OpActive, op_last_error := take 1000 err\<rparr>)
            (save_step now sid
              (\<lambda>r. r\<lparr>st_status := StepFailed, st_last_error := take 1000 err, st_updated_at := now\<rparr>) d))"

definition scrub_side_effect_payloads :: "time \<Rightarrow> string \<Rightarrow> 'a runtime_db_scheme \<Rightarrow> 'a runtime_db_scheme" where
  "scrub_side_effect_payloads now sid =
     save_effects now (\<lambda>e. se_step_id e = sid) (\<lambda>e. e\<lparr>se_content := [], se_trace := empty_object\<rparr>)"

definition finished_step :: "string \<Rightarrow> runtime_step \<Rightarrow> bool" where
  "finished_step operation r \<longleftrightarrow>
     st_operation_id r = operation \<and> (st_status r = Delivered \<or> st_status r = Silent)"

definition scrub_completed_operation :: "time \<Rightarrow> string \<Rightarrow> 'a runtime_db_scheme \<Rightarrow> 'a runtime_db_scheme" where
  "scrub_completed_operation now operation d =
     fold (\<lambda>st. scrub_side_effect_payloads now (st_id st))
       (filter (finished_step operation) (steps d))
       (save_steps now (finished_step operation)
         (\<lambda>r. r\<lparr>st_response := empty_object, st_outgoing_text := []\<rparr>) d)"

text \<open>\<open>_advance_operation\<close>: the operation completes when its cursor has no pending turn.\<close>

definition cursor_done :: "json_text \<Rightarrow> bool" where
  "cursor_done cursor \<longleftrightarrow> jget (object_of cursor) ''pending_turns'' JNull = JArr []"

definition advance_operation ::
  "time \<Rightarrow> string \<Rightarrow> json_text \<Rightarrow> 'a runtime_db_scheme \<Rightarrow> 'a runtime_db_scheme" where
  "advance_operation now k cursor d =
     (if cursor_done cursor then
        scrub_completed_operation now k
          (put_operation k (\<lambda>r. r\<lparr>op_cursor := cursor, op_updated_at := now,
                                  op_status := OpCompleted, op_completed_at := Some now\<rparr>) d)
      else
        put_operation k (\<lambda>r. r\<lparr>op_cursor := cursor, op_updated_at := now, op_status := OpActive\<rparr>) d)"

definition complete_social_step_generation ::
  "time \<Rightarrow> string \<Rightarrow> json_text \<Rightarrow> json_text \<Rightarrow> bool \<Rightarrow> 'a runtime_db_scheme
    \<Rightarrow> (runtime_step, 'a runtime_db_scheme) outcome" where
  "complete_social_step_generation now sid response cursor delivery_required d =
     (case get_step d sid of
        None \<Rightarrow> (Inl (KeyError ''Durable Social Turn step not found.''), d)
      | Some st \<Rightarrow>
          (case get_operation d (st_operation_id st) of
             None \<Rightarrow> (Inl (KeyError ''Durable Social Turn operation not found.''), d)
           | Some r \<Rightarrow>
               (let d1 = put_step sid (\<lambda>r. r\<lparr>st_response := response, st_cursor := cursor,
                           st_status := (if delivery_required then Generated else Silent),
                           st_updated_at := now\<rparr>) d;
                    d2 = (if delivery_required
                          then save_operation now (op_id r) (\<lambda>r. r\<lparr>op_status := OpAwaitingDelivery\<rparr>) d1
                          else advance_operation now (op_id r) cursor d1);
                    d3 = save_operation now (op_id r) (\<lambda>r. r\<lparr>op_last_error := []\<rparr>) d2 in
                case get_step d3 sid of
                  Some st' \<Rightarrow> (Inr st', d3)
                | None \<Rightarrow> (Inl InvalidRequest, d3))))"

section \<open>How the writers act\<close>

lemma save_frames [simp]:
  "steps (save_operation now k f d) = steps d" "effects (save_operation now k f d) = effects d"
  "deliveries (save_operation now k f d) = deliveries d" "usages (save_operation now k f d) = usages d"
  "operations (save_step now k g d) = operations d" "effects (save_step now k g d) = effects d"
  "deliveries (save_step now k g d) = deliveries d" "usages (save_step now k g d) = usages d"
  "operations (save_steps now P g d) = operations d" "effects (save_steps now P g d) = effects d"
  "deliveries (save_steps now P g d) = deliveries d" "usages (save_steps now P g d) = usages d"
  "operations (save_effects now Q e d) = operations d" "steps (save_effects now Q e d) = steps d"
  "deliveries (save_effects now Q e d) = deliveries d" "usages (save_effects now Q e d) = usages d"
  by (simp_all add: save_operation_def save_step_def save_steps_def save_effects_def)

lemma get_save_operation [table_simps]:
  assumes "\<And>r. op_id (f r) = op_id r"
  shows "get_operation (save_operation now k f d) k' =
    (if k' = k then map_option (\<lambda>r. if f r = r then r else (f r)\<lparr>op_updated_at := now\<rparr>) (get_operation d k)
     else get_operation d k')"
  unfolding save_operation_def by (simp add: get_put_operation assms)

lemma get_save_step [table_simps]:
  assumes "\<And>r. st_id (f r) = st_id r"
  shows "get_step (save_step now k f d) k' =
    (if k' = k then map_option (\<lambda>r. if f r = r then r else (f r)\<lparr>st_updated_at := now\<rparr>) (get_step d k)
     else get_step d k')"
  unfolding save_step_def by (simp add: get_put_step assms)

lemma get_save_steps [table_simps]:
  assumes "\<And>r. st_id (f r) = st_id r"
  shows "get_step (save_steps now P f d) k =
    map_option (\<lambda>r. if P r then if f r = r then r else (f r)\<lparr>st_updated_at := now\<rparr> else r) (get_step d k)"
  unfolding save_steps_def by (simp add: tget_tset assms)

lemma get_save_effects [table_simps]:
  assumes "\<And>r. se_key (f r) = se_key r"
  shows "get_effect (save_effects now P f d) k =
    map_option (\<lambda>r. if P r then if f r = r then r else (f r)\<lparr>se_updated_at := now\<rparr> else r) (get_effect d k)"
  unfolding save_effects_def by (simp add: tget_tset assms)

lemma runtime_keys_save [table_simps]:
  "(\<And>r. op_id (f r) = op_id r) \<Longrightarrow> runtime_keys (save_operation now k f d) = runtime_keys d"
  "(\<And>r. st_id (g r) = st_id r) \<Longrightarrow> runtime_keys (save_step now k g d) = runtime_keys d"
  "(\<And>r. st_id (g r) = st_id r) \<Longrightarrow> runtime_keys (save_steps now P g d) = runtime_keys d"
  "(\<And>r. se_key (e r) = se_key r) \<Longrightarrow> runtime_keys (save_effects now Q e d) = runtime_keys d"
  by (simp_all add: save_operation_def save_step_def runtime_keys_put)
    (simp_all add: runtime_keys_def save_steps_def save_effects_def keyed_tset)

text \<open>The payload scrubbers touch no operation and no status.\<close>

lemma scrub_effects_frames [simp]:
  "operations (scrub_side_effect_payloads now sid d) = operations d"
  "steps (scrub_side_effect_payloads now sid d) = steps d"
  "deliveries (scrub_side_effect_payloads now sid d) = deliveries d"
  "usages (scrub_side_effect_payloads now sid d) = usages d"
  by (simp_all add: scrub_side_effect_payloads_def)

lemma get_scrub_effects [table_simps]:
  "map_option se_status (get_effect (scrub_side_effect_payloads now sid d) k) =
    map_option se_status (get_effect d k)"
  by (cases "get_effect d k") (simp_all add: scrub_side_effect_payloads_def table_simps)

lemma keys_scrub_effects [table_simps]:
  "runtime_keys (scrub_side_effect_payloads now sid d) = runtime_keys d"
  by (simp add: scrub_side_effect_payloads_def table_simps)

lemma fold_scrub:
  "operations (fold (\<lambda>st. scrub_side_effect_payloads now (st_id st)) xs d) = operations d"
  "steps (fold (\<lambda>st. scrub_side_effect_payloads now (st_id st)) xs d) = steps d"
  "runtime_keys (fold (\<lambda>st. scrub_side_effect_payloads now (st_id st)) xs d) = runtime_keys d"
  "map_option se_status (get_effect (fold (\<lambda>st. scrub_side_effect_payloads now (st_id st)) xs d) k) =
    map_option se_status (get_effect d k)"
  by (induction xs arbitrary: d) (simp_all add: table_simps)

definition scrubbed_row :: "time \<Rightarrow> string \<Rightarrow> runtime_step \<Rightarrow> runtime_step" where
  "scrubbed_row now operation r =
     (if finished_step operation r then
        if st_response r = empty_object \<and> st_outgoing_text r = [] then r
        else r\<lparr>st_response := empty_object, st_outgoing_text := [], st_updated_at := now\<rparr>
      else r)"

lemma scrubbed_row_simps [simp]:
  "st_id (scrubbed_row now k r) = st_id r" "st_status (scrubbed_row now k r) = st_status r"
  "st_operation_id (scrubbed_row now k r) = st_operation_id r"
  "st_claim_nonce (scrubbed_row now k r) = st_claim_nonce r"
  by (simp_all add: scrubbed_row_def)

lemma scrub_step_unchanged:
  "r\<lparr>st_response := a, st_outgoing_text := b\<rparr> = r \<longleftrightarrow> st_response r = a \<and> st_outgoing_text r = b"
  by (cases r) auto

lemma scrub_completed [simp]:
  "operations (scrub_completed_operation now k d) = operations d"
  "steps (scrub_completed_operation now k d) = map (scrubbed_row now k) (steps d)"
  by (auto simp: scrub_completed_operation_def fold_scrub save_steps_def tset_def scrubbed_row_def
      scrub_step_unchanged)

lemma scrub_completed_table [table_simps]:
  "runtime_keys (scrub_completed_operation now k d) = runtime_keys d"
  "map_option se_status (get_effect (scrub_completed_operation now k d) key) =
    map_option se_status (get_effect d key)"
  by (simp_all add: scrub_completed_operation_def fold_scrub table_simps)

lemma tget_map: "(\<And>r. key (f r) = key r) \<Longrightarrow> tget key (map f t) k = map_option f (tget key t k)"
  by (induction t) auto

lemma get_scrubbed_rows [simp]:
  "tget st_id (map (scrubbed_row now k) t) sid = map_option (scrubbed_row now k) (tget st_id t sid)"
  by (simp add: tget_map)

lemma get_scrub_completed [table_simps]:
  "get_step (scrub_completed_operation now k d) sid = map_option (scrubbed_row now k) (get_step d sid)"
  by simp

lemma advance_operation_table [table_simps]:
  "runtime_keys (advance_operation now k cursor d) = runtime_keys d"
  "map_option se_status (get_effect (advance_operation now k cursor d) key) =
    map_option se_status (get_effect d key)"
  "get_step (advance_operation now k cursor d) sid =
    (if cursor_done cursor then map_option (scrubbed_row now k) (get_step d sid) else get_step d sid)"
  by (simp_all add: advance_operation_def table_simps)

lemma advance_operation_steps:
  "steps (advance_operation now k cursor d) =
    (if cursor_done cursor then map (scrubbed_row now k) (steps d) else steps d)"
  by (simp add: advance_operation_def)

lemma get_advance_operation [table_simps]:
  "get_operation (advance_operation now k cursor d) k' =
    (if k' = k then
       map_option (\<lambda>r. if cursor_done cursor
           then r\<lparr>op_cursor := cursor, op_updated_at := now, op_status := OpCompleted,
                  op_completed_at := Some now\<rparr>
           else r\<lparr>op_cursor := cursor, op_updated_at := now, op_status := OpActive\<rparr>)
         (get_operation d k)
     else get_operation d k')"
  by (simp add: advance_operation_def table_simps)

section \<open>What preparation and completion do to steps and operations\<close>

definition step_state :: "'a runtime_db_scheme \<Rightarrow> string \<Rightarrow> step_status option" where
  "step_state d sid = map_option st_status (get_step d sid)"

definition operation_state :: "'a runtime_db_scheme \<Rightarrow> string \<Rightarrow> operation_status option" where
  "operation_state d k = map_option op_status (get_operation d k)"

lemma step_state_frames [simp]:
  "step_state (put_operation k f d) sid = step_state d sid"
  "step_state (save_operation now k f d) sid = step_state d sid"
  "step_state (put_effect key e d) sid = step_state d sid"
  "step_state (scrub_side_effect_payloads now s d) sid = step_state d sid"
  "step_state (scrub_completed_operation now k d) sid = step_state d sid"
  "step_state (advance_operation now k cursor d) sid = step_state d sid"
  by (simp_all add: step_state_def table_simps option.map_comp o_def)

lemma step_state_put [table_simps]:
  "(\<And>r. st_id (f r) = st_id r) \<Longrightarrow>
    step_state (put_step k f d) sid =
      (if sid = k then map_option (\<lambda>r. st_status (f r)) (get_step d k) else step_state d sid)"
  by (simp add: step_state_def get_put_step option.map_comp o_def)

lemma step_state_save [table_simps]:
  "(\<And>r. st_id (f r) = st_id r) \<Longrightarrow>
    step_state (save_step now k f d) sid =
      (if sid = k then map_option (\<lambda>r. st_status (f r)) (get_step d k) else step_state d sid)"
  by (cases "get_step d k") (auto simp: step_state_def get_save_step)

lemma retry_step_simps [simp]:
  "st_id (retry_step now r) = st_id r" "st_status (retry_step now r) = Generating"
  "st_operation_id (retry_step now r) = st_operation_id r"
  by (simp_all add: retry_step_def)

lemma reserve_frames [simp]:
  "steps (snd (reserve_generation_attempt now r d)) = steps d"
  "effects (snd (reserve_generation_attempt now r d)) = effects d"
  "runtime_keys (snd (reserve_generation_attempt now r d)) = runtime_keys d"
  by (auto simp: reserve_generation_attempt_def Let_def table_simps split: sum.split)

definition executes :: "(preparation \<times> runtime_step, 's) outcome \<Rightarrow> bool" where
  "executes res \<longleftrightarrow> (case fst res of Inr (Execute, _) \<Rightarrow> True | _ \<Rightarrow> False)"

text \<open>The outcomes of a preparation: no write, the exhausted budget, a new step, a retried step.\<close>

lemma prepare_existing_cases:
  obtains (refused) "snd (prepare_existing_step now r st hash d) = d"
      and "\<not> executes (prepare_existing_step now r st hash d)"
  | (exhausted) e where "reserve_generation_attempt now r d = (Inl e, snd (prepare_existing_step now r st hash d))"
      and "\<not> executes (prepare_existing_step now r st hash d)"
  | (retried) d' where "reserve_generation_attempt now r d = (Inr (), d')" and "st_status st = StepFailed"
      and "st_request_hash st = hash"
      and "prepare_existing_step now r st hash d =
        (Inr (Execute, retry_step now st), put_step (st_id st) (retry_step now) d')"
proof (cases "st_request_hash st = hash \<and> st_status st = StepFailed")
  case True
  show thesis
  proof (cases "reserve_generation_attempt now r d")
    case (Pair res d')
    show thesis
    proof (cases res)
      case (Inl e)
      with True Pair show thesis
        by (intro exhausted [of e]) (simp_all add: prepare_existing_step_def executes_def)
    next
      case (Inr u)
      with True Pair show thesis
        by (intro retried [of d']) (simp_all add: prepare_existing_step_def)
    qed
  qed
next
  case False
  then show thesis
    by (intro refused) (auto simp: prepare_existing_step_def executes_def)
qed

lemma prepare_cases:
  obtains (refused) "snd (prepare_social_step h now operation index dep hash d) = d"
      and "\<not> executes (prepare_social_step h now operation index dep hash d)"
  | (exhausted) r e where "get_operation d operation = Some r"
      and "reserve_generation_attempt now r d =
        (Inl e, snd (prepare_social_step h now operation index dep hash d))"
      and "\<not> executes (prepare_social_step h now operation index dep hash d)"
  | (created) r d' where "get_operation d operation = Some r"
      and "reserve_generation_attempt now r d = (Inr (), d')"
      and "get_step d (social_step_id h operation index dep) = None" and "\<not> index_taken operation index d"
      and "prepare_social_step h now operation index dep hash d =
        (Inr (Execute, new_step h now operation index dep hash),
         d'\<lparr>steps := tins (new_step h now operation index dep hash) (steps d')\<rparr>)"
  | (retried) r st d' where "get_operation d operation = Some r"
      and "reserve_generation_attempt now r d = (Inr (), d')"
      and "get_step d (social_step_id h operation index dep) = Some st" and "st_status st = StepFailed"
      and "prepare_social_step h now operation index dep hash d =
        (Inr (Execute, retry_step now st),
         put_step (social_step_id h operation index dep) (retry_step now) d')"
proof (cases "get_operation d operation")
  case None
  then show thesis by (intro refused) (simp_all add: prepare_social_step_def executes_def)
next
  case op: (Some r)
  show thesis
  proof (cases "op_status r = OpCompleted \<or> op_status r = OpFailed \<or> op_status r = OpUncertain")
    case True
    with op show thesis
      by (intro refused) (auto simp: prepare_social_step_def executes_def)
  next
    case open_op: False
    show thesis
    proof (cases "get_step d (social_step_id h operation index dep)")
      case None
      show thesis
      proof (cases "reserve_generation_attempt now r d")
        case (Pair res d')
        show thesis
        proof (cases res)
          case (Inl e)
          with None Pair op open_op show thesis
            by (intro exhausted [of r e]) (simp_all add: prepare_social_step_def executes_def)
        next
          case (Inr u)
          show thesis
          proof (cases "index_taken operation index d")
            case True
            with None Pair op open_op Inr show thesis
              by (intro refused) (simp_all add: prepare_social_step_def executes_def)
          next
            case False
            with None Pair op open_op Inr show thesis
              by (intro created [of r d']) (simp_all add: prepare_social_step_def Let_def)
          qed
        qed
      qed
    next
      case (Some st)
      then have k: "st_id st = social_step_id h operation index dep" by (rule tget_key)
      from Some op open_op have eq: "prepare_social_step h now operation index dep hash d =
          prepare_existing_step now r st hash d"
        by (simp add: prepare_social_step_def)
      show thesis
      proof (cases rule: prepare_existing_cases [of now r st hash d])
        case refused
        with eq show thesis by (intro that(1)) simp_all
      next
        case (exhausted e)
        with eq op show thesis by (intro that(2) [of r e]) simp_all
      next
        case (retried d')
        with eq op k Some show thesis by (intro that(4) [of r d' st]) simp_all
      qed
    qed
  qed
qed

lemma reserve_steps: "reserve_generation_attempt now r d = (res, d') \<Longrightarrow> steps d' = steps d"
  using reserve_frames(1) [of now r d] by simp

lemma new_step_simps [simp]:
  "st_id (new_step h now operation index dep hash) = social_step_id h operation index dep"
  "st_status (new_step h now operation index dep hash) = Generating"
  by (simp_all add: new_step_def)

text \<open>A preparation opens a generation, or it leaves every step alone.\<close>

lemma prepare_step_state:
  "step_state (snd (prepare_social_step h now operation index dep hash d)) sid =
     (if executes (prepare_social_step h now operation index dep hash d)
         \<and> sid = social_step_id h operation index dep
      then Some Generating else step_state d sid)"
  "executes (prepare_social_step h now operation index dep hash d) \<Longrightarrow>
    step_state d (social_step_id h operation index dep) \<in> {None, Some StepFailed}"
  by (cases rule: prepare_cases [of h now operation index dep hash d];
      auto simp: step_state_def executes_def get_put_step tget_tins split: option.split
        dest: reserve_steps)+

lemma prepare_rows:
  "get_step (snd (prepare_social_step h now operation index dep hash d)) sid = Some x \<Longrightarrow>
    get_step d sid = Some x \<or> st_status x = Generating"
  by (cases rule: prepare_cases [of h now operation index dep hash d])
    (auto simp: get_put_step tget_tins split: option.splits if_splits dest: reserve_steps)

lemma prepare_keys:
  assumes "runtime_keys d"
  shows "runtime_keys (snd (prepare_social_step h now operation index dep hash d))"
proof -
  have rsv: "runtime_keys d'" if "reserve_generation_attempt now r d = (res, d')" for r res d'
    using reserve_frames(3) [of now r d] that assms by simp
  show ?thesis
  proof (cases rule: prepare_cases [of h now operation index dep hash d])
    case (created r d')
    then have "steps d' = steps d" "runtime_keys d'" by (auto dest: reserve_steps rsv)
    with created show ?thesis by (simp add: runtime_keys_def keyed_tins)
  qed (use assms rsv in \<open>auto simp: runtime_keys_put\<close>)
qed

text \<open>The attempts an operation has used, 0 where the code would refuse to read them.\<close>

definition used_attempts :: "string \<Rightarrow> 'a runtime_db_scheme \<Rightarrow> int" where
  "used_attempts k d =
     (case get_operation d k of
        None \<Rightarrow> 0
      | Some r \<Rightarrow> (case attempts_of (object_of (op_cursor r)) of Inr n \<Rightarrow> n | Inl _ \<Rightarrow> 0))"

lemma attempts_of_put [simp]: "attempts_of (jput ''attempts_used'' (JInt n) d) = Inr n"
  by (simp add: attempts_of_def)

lemma used_attempts_frames [simp]:
  "used_attempts k (put_step s f d) = used_attempts k d"
  "used_attempts k (save_step now s f d) = used_attempts k d"
  "used_attempts k (steps_update g d) = used_attempts k d"
  by (simp_all add: used_attempts_def)

lemma used_attempts_save [table_simps]:
  assumes "\<And>r. op_id (f r) = op_id r" and "\<And>r. op_cursor (f r) = op_cursor r"
  shows "used_attempts k (save_operation now k' f d) = used_attempts k d"
proof (cases "get_operation d k")
  case (Some r)
  then show ?thesis
    by (auto simp: used_attempts_def get_save_operation assms)
qed (auto simp: used_attempts_def get_save_operation assms)

text \<open>Every execution takes one attempt, below twelve; nothing else in a preparation changes it.\<close>

lemma reserve_attempts:
  assumes "get_operation d k = Some r"
  shows "(case fst (reserve_generation_attempt now r d) of
      Inr _ \<Rightarrow> used_attempts k d < 12
        \<and> used_attempts k (snd (reserve_generation_attempt now r d)) = used_attempts k d + 1
    | Inl _ \<Rightarrow> used_attempts k (snd (reserve_generation_attempt now r d)) = used_attempts k d)"
proof -
  have k: "op_id r = k" using assms by (rule tget_key)
  show ?thesis
  proof (cases "attempts_of (object_of (op_cursor r))")
    case (Inl e)
    with assms show ?thesis by (simp add: reserve_generation_attempt_def)
  next
    case (Inr used)
    show ?thesis
    proof (cases "12 \<le> used")
      case True
      with Inr k show ?thesis by (simp add: reserve_generation_attempt_def Let_def used_attempts_save)
    next
      case False
      let ?c = "dumps (JObj (jput ''attempts_used'' (JInt (used + 1)) (object_of (op_cursor r))))"
      have "r\<lparr>op_cursor := ?c\<rparr> \<noteq> r"
      proof
        assume "r\<lparr>op_cursor := ?c\<rparr> = r"
        from arg_cong [OF this, of "\<lambda>r. attempts_of (object_of (op_cursor r))"] Inr
        show False by simp
      qed
      with False Inr k assms show ?thesis
        by (simp add: reserve_generation_attempt_def Let_def used_attempts_def get_save_operation)
    qed
  qed
qed

lemma prepare_attempts:
  "(if executes (prepare_social_step h now operation index dep hash d)
    then used_attempts operation d < 12
      \<and> used_attempts operation (snd (prepare_social_step h now operation index dep hash d))
          = used_attempts operation d + 1
    else used_attempts operation (snd (prepare_social_step h now operation index dep hash d))
          = used_attempts operation d)"
proof (cases rule: prepare_cases [of h now operation index dep hash d])
  case (exhausted r e)
  with reserve_attempts [OF exhausted(1), of now] show ?thesis by simp
next
  case (created r d')
  with reserve_attempts [OF created(1), of now] show ?thesis by (simp add: executes_def)
next
  case (retried r st d')
  with reserve_attempts [OF retried(1), of now] show ?thesis by (simp add: executes_def)
qed simp

lemma fail_step_attempts [simp]: "used_attempts k (fail_social_step now sid err d) = used_attempts k d"
  by (auto simp: fail_social_step_def used_attempts_save split: option.split)

end
