(* ===== verification/Runtime_Delivery.thy ===== *)
theory Runtime_Delivery
  imports Runtime_Steps
begin

text \<open>
  The delivery half of \<open>DurableRuntimeRepository\<close>: claiming a generated step for publication,
  acknowledging what Discord accepted, and recording an uncertain delivery. The publication check
  of \<open>_validate_publication\<close> reads the room and the deployment; it is the argument \<open>validate\<close> here
  and a definition of \<open>Draft_Freshness\<close>.
\<close>

section \<open>Claiming a delivery\<close>

datatype delivery_claim = DeliveryGranted | AlreadyDelivered | DeliveryUncertain

definition lost_claim :: "time \<Rightarrow> runtime_step \<Rightarrow> runtime_step" where
  "lost_claim now r =
     r\<lparr>st_status := StepUncertain, st_last_error := ''delivery_claim_lost_before_ack'',
       st_updated_at := now\<rparr>"

text \<open>What follows when the step is not, or no longer, a generated one.\<close>

definition settle_claim ::
  "time \<Rightarrow> string \<Rightarrow> runtime_operation \<Rightarrow> runtime_step \<Rightarrow> 'a runtime_db_scheme
    \<Rightarrow> (delivery_claim \<times> runtime_step, 'a runtime_db_scheme) outcome" where
  "settle_claim now nonce r st d =
     (if st_status st = DeliveryClaimed then
        if st_claim_nonce st = nonce then (Inr (DeliveryGranted, st), d)
        else
          (Inr (DeliveryUncertain, lost_claim now st),
           put_operation (op_id r)
             (\<lambda>r. r\<lparr>op_status := OpUncertain, op_last_error := ''delivery_claim_lost_before_ack'',
                    op_updated_at := now\<rparr>)
             (put_step (st_id st) (lost_claim now) d))
      else if st_status st \<in> {Delivered, Silent} then (Inr (AlreadyDelivered, st), d)
      else if st_status st = StepUncertain \<or> op_status r = OpUncertain
      then (Inr (DeliveryUncertain, st), d)
      else (Inl (ValueError ''Durable delivery cannot be claimed from the current step state.''), d))"

definition claimed_step :: "time \<Rightarrow> string \<Rightarrow> runtime_step \<Rightarrow> runtime_step" where
  "claimed_step now nonce r =
     r\<lparr>st_status := DeliveryClaimed, st_claim_nonce := nonce, st_updated_at := now\<rparr>"

text \<open>
  The conditional update runs on what other sessions left (\<open>env d\<close>): it claims only the generated
  text that \<open>validate\<close> accepted.
\<close>

definition claim_delivery ::
  "(runtime_operation \<Rightarrow> runtime_step \<Rightarrow> error option) \<Rightarrow> ('a runtime_db_scheme \<Rightarrow> 'a runtime_db_scheme)
    \<Rightarrow> time \<Rightarrow> string \<Rightarrow> string \<Rightarrow> string \<Rightarrow> 'a runtime_db_scheme
    \<Rightarrow> (delivery_claim \<times> runtime_step, 'a runtime_db_scheme) outcome" where
  "claim_delivery validate env now operation sid nonce d =
     (case get_step d sid of
        None \<Rightarrow> (Inl (KeyError ''Durable delivery step not found.''), d)
      | Some st \<Rightarrow>
          if st_operation_id st \<noteq> operation
          then (Inl (KeyError ''Durable delivery step not found.''), d)
          else
            (case get_operation d operation of
               None \<Rightarrow> (Inl (KeyError ''Durable Social Turn operation not found.''), d)
             | Some r \<Rightarrow>
                 if st_status st \<noteq> Generated then settle_claim now nonce r st d
                 else
                   (case validate r st of
                      Some e \<Rightarrow> (Inl e, d)
                    | None \<Rightarrow>
                        (case get_step (env d) sid of
                           None \<Rightarrow> (Inl InvalidRequest, env d)
                         | Some cur \<Rightarrow>
                             if st_status cur = Generated \<and> st_response cur = st_response st then
                               (Inr (DeliveryGranted, claimed_step now nonce cur),
                                put_step sid (claimed_step now nonce) (env d))
                             else
                               (case get_operation (env d) operation of
                                  None \<Rightarrow> (Inl InvalidRequest, env d)
                                | Some r' \<Rightarrow> settle_claim now nonce r' cur (env d))))))"

section \<open>Receipts\<close>

text \<open>\<open>reply.get("context_trace")\<close> and its target, as \<open>_record_room_delivery\<close> reads them.\<close>

definition valid_receipt :: "string \<Rightarrow> bool" where
  "valid_receipt mid \<longleftrightarrow> 0 < length mid \<and> length mid \<le> 200"

definition delivery_target :: "json_text \<Rightarrow> string option" where
  "delivery_target response =
     (let raw = object_of response;
          reply = (case jget raw ''reply'' JNull of JObj ob \<Rightarrow> ob | _ \<Rightarrow> raw) in
      case jget reply ''context_trace'' JNull of
        JObj trace \<Rightarrow>
          (case jget trace ''source_target_message_id'' JNull of
             JStr target \<Rightarrow> if valid_receipt target then Some target else None
           | _ \<Rightarrow> None)
      | _ \<Rightarrow> None)"

definition operation_scope :: "runtime_operation \<Rightarrow> room_scope" where
  "operation_scope r =
     \<lparr>sc_owner_id = op_owner_id r, sc_connection_id = op_connection_id r,
      sc_guild_id = op_guild_id r, sc_channel_id = op_channel_id r, sc_thread_id = op_thread_id r\<rparr>"

definition new_delivery_source ::
  "digests \<Rightarrow> runtime_operation \<Rightarrow> runtime_step \<Rightarrow> string \<Rightarrow> bool \<Rightarrow> string \<Rightarrow> delivery_source" where
  "new_delivery_source h r st target complete mid =
     \<lparr>ds_id = delivery_key h (operation_scope r) mid, ds_owner_id = op_owner_id r,
      ds_connection_id = op_connection_id r, ds_guild_id = op_guild_id r,
      ds_channel_id = op_channel_id r, ds_thread_id = op_thread_id r, ds_message_id = mid,
      ds_target_message_id = target, ds_deployment_id = st_deployment_id st,
      ds_operation_id = op_id r, ds_step_id = st_id st, ds_complete = complete\<rparr>"

text \<open>One iteration per distinct receipt: link it, or confirm the link it already has.\<close>

fun link_receipts ::
  "digests \<Rightarrow> runtime_operation \<Rightarrow> runtime_step \<Rightarrow> string \<Rightarrow> bool \<Rightarrow> string list
    \<Rightarrow> delivery_source list \<Rightarrow> error + delivery_source list" where
  "link_receipts h r st target complete [] t = Inr t"
| "link_receipts h r st target complete (mid # mids) t =
     (let k = delivery_key h (operation_scope r) mid in
      case tget ds_id t k of
        Some e \<Rightarrow>
          if ds_step_id e \<noteq> st_id st \<or> ds_target_message_id e \<noteq> target
          then Inl (ValueError ''delivery_receipt_conflict'')
          else
            link_receipts h r st target complete mids
              (tset (\<lambda>e. ds_id e = k) (\<lambda>e. e\<lparr>ds_complete := ds_complete e \<or> complete\<rparr>) t)
      | None \<Rightarrow>
          link_receipts h r st target complete mids
            (tins (new_delivery_source h r st target complete mid) t))"

definition record_room_delivery ::
  "digests \<Rightarrow> runtime_operation \<Rightarrow> runtime_step \<Rightarrow> string list \<Rightarrow> bool \<Rightarrow> delivery_source list
    \<Rightarrow> error + delivery_source list" where
  "record_room_delivery h r st mids complete t =
     (case delivery_target (st_response st) of
        None \<Rightarrow> Inr t
      | Some target \<Rightarrow>
          if \<not> valid_scope (operation_scope r) then Inl ValidationError
          else if 20 < length mids \<or> list_ex (\<lambda>mid. \<not> valid_receipt mid) mids
          then Inl (ValueError ''invalid_delivery_receipt'')
          else link_receipts h r st target complete (fromkeys mids) t)"

section \<open>Acknowledging\<close>

text \<open>The cursor that the acknowledgement leaves, by what became visible.\<close>

definition pending_items :: "(string \<times> json) list \<Rightarrow> ((string \<times> json) list \<Rightarrow> bool) \<Rightarrow> json" where
  "pending_items cursor keep =
     (case jget cursor ''pending_turns'' (JArr []) of
        JArr items \<Rightarrow> JArr (filter (\<lambda>i. case i of JObj ob \<Rightarrow> keep ob | _ \<Rightarrow> False) items)
      | _ \<Rightarrow> JArr [])"

definition unseen_cursor :: "json_text \<Rightarrow> json_text \<Rightarrow> json_text" where
  "unseen_cursor previous cursor =
     (let projected = jput ''completed_deployment_ids''
            (jget (object_of previous) ''completed_deployment_ids'' (JArr [])) (object_of cursor) in
      dumps (JObj (jput ''pending_turns''
        (pending_items projected (\<lambda>ob. jget ob ''origin'' JNull = JStr ''selected'')) projected)))"

definition reaction_cursor :: "string \<Rightarrow> json_text \<Rightarrow> json_text" where
  "reaction_cursor deployment cursor =
     (let projected = object_of cursor in
      dumps (JObj (jput ''pending_turns''
        (pending_items projected (\<lambda>ob. jget ob ''source_deployment_id'' JNull \<noteq> JStr deployment))
        projected)))"

definition acknowledged_cursor ::
  "string list \<Rightarrow> bool \<Rightarrow> string \<Rightarrow> json_text \<Rightarrow> json_text \<Rightarrow> json_text" where
  "acknowledged_cursor sent applied deployment previous cursor =
     (if sent = [] \<and> \<not> applied then unseen_cursor previous cursor
      else if sent = [] then reaction_cursor deployment cursor
      else cursor)"

definition expression_key :: "json_text \<Rightarrow> string option" where
  "expression_key response =
     (let raw = object_of response in
      case jget raw ''reply'' (JObj raw) of
        JObj reply \<Rightarrow>
          (case jget reply ''smart_output'' JNull of
             JObj smart \<Rightarrow>
               (case jget smart ''expression_resource'' JNull of
                  JObj resource \<Rightarrow>
                    (case jget resource ''resource_key'' JNull of
                       JStr key \<Rightarrow> if 0 < length key \<and> length key \<le> 240 then Some key else None
                     | _ \<Rightarrow> None)
                | _ \<Rightarrow> None)
           | _ \<Rightarrow> None)
      | _ \<Rightarrow> None)"

text \<open>The usage row an applied expression adds; its primary key is the step.\<close>

definition record_usage ::
  "digests \<Rightarrow> runtime_operation \<Rightarrow> runtime_step \<Rightarrow> bool \<Rightarrow> expression_usage list
    \<Rightarrow> error + expression_usage list" where
  "record_usage h r st applied t =
     (case (if applied then expression_key (st_response st) else None) of
        None \<Rightarrow> Inr t
      | Some key \<Rightarrow>
          if \<not> valid_scope (operation_scope r) then Inl ValidationError
          else if list_ex (\<lambda>u. xu_step_id u = st_id st) t then Inl IntegrityError
          else
            Inr (tins \<lparr>xu_step_id = st_id st, xu_owner_id = op_owner_id r,
                       xu_scope_id = scope_key h (operation_scope r),
                       xu_deployment_id = st_deployment_id st, xu_resource_key = key\<rparr> t))"

text \<open>\<open>_record_source\<close>: the last twelve speakers, each with its latest text.\<close>

definition last_items :: "nat \<Rightarrow> 'b list \<Rightarrow> 'b list" where
  "last_items n xs = drop (length xs - n) xs"

definition record_source :: "string \<Rightarrow> string \<Rightarrow> string list \<Rightarrow> json_text \<Rightarrow> json_text" where
  "record_source deployment txt sent sources =
     (let kept = filter (\<lambda>i. case i of JObj ob \<Rightarrow> jget ob ''deployment_id'' JNull \<noteq> JStr deployment
                                     | _ \<Rightarrow> False) (list_of sources);
          entry = JObj [(''deployment_id'', JStr deployment), (''text'', JStr txt),
                        (''sent_message_ids'', jstrs sent)] in
      dumps (JArr (last_items 12 (kept @ [entry]))))"

record delivery_ack =
  ak_operation_id :: string
  ak_step_id :: string
  ak_claim_nonce :: string
  ak_cursor :: json_text
  ak_sent_ids :: "string list"
  ak_outgoing_text :: string
  ak_applied :: bool
  ak_deployment_id :: string

definition acknowledged_step :: "time \<Rightarrow> delivery_ack \<Rightarrow> json_text \<Rightarrow> runtime_step \<Rightarrow> runtime_step" where
  "acknowledged_step now a cursor r =
     (let visible = (ak_sent_ids a \<noteq> [] \<or> ak_applied a) in
      r\<lparr>st_cursor := (if ak_sent_ids a = [] then cursor else st_cursor r),
        st_status := (if visible then Delivered else Silent),
        st_last_error := (if visible then [] else ''not_delivered''),
        st_sent_ids := dumps (jstrs (ak_sent_ids a)), st_outgoing_text := ak_outgoing_text a,
        st_applied := ak_applied a, st_delivered_at := Some now, st_updated_at := now\<rparr>)"

text \<open>The writes of an accepted acknowledgement, after the receipts and the usage are recorded.\<close>

definition settle_delivery ::
  "time \<Rightarrow> delivery_ack \<Rightarrow> json_text \<Rightarrow> runtime_operation \<Rightarrow> 'a runtime_db_scheme \<Rightarrow> 'a runtime_db_scheme" where
  "settle_delivery now a cursor r d =
     (let sid = ak_step_id a; k = op_id r;
          d1 = put_step sid (acknowledged_step now a cursor) d;
          d2 = (if ak_sent_ids a = [] then d1
                else put_operation k (\<lambda>r. r\<lparr>op_sources :=
                       record_source (ak_deployment_id a) (ak_outgoing_text a) (ak_sent_ids a)
                         (op_sources r)\<rparr>) d1);
          d3 = advance_operation now k cursor d2;
          d4 = put_step sid (\<lambda>r. r\<lparr>st_response := empty_object\<rparr>) d3;
          d5 = scrub_side_effect_payloads now sid d4 in
      if cursor_done cursor then put_operation k (\<lambda>r. r\<lparr>op_sources := empty_list\<rparr>) d5 else d5)"

definition acknowledge_delivery ::
  "digests \<Rightarrow> time \<Rightarrow> delivery_ack \<Rightarrow> 'a runtime_db_scheme
    \<Rightarrow> (runtime_operation, 'a runtime_db_scheme) outcome" where
  "acknowledge_delivery h now a d =
     (case (get_step d (ak_step_id a), get_operation d (ak_operation_id a)) of
        (Some st, Some r) \<Rightarrow>
          if st_operation_id st \<noteq> ak_operation_id a
          then (Inl (KeyError ''Durable delivery operation was not found.''), d)
          else if st_status st = Delivered then (Inr r, d)
          else if st_status st \<noteq> DeliveryClaimed \<or> st_claim_nonce st \<noteq> ak_claim_nonce a
          then (Inl (ValueError ''Durable delivery acknowledgement does not own the active claim.''), d)
          else if st_deployment_id st \<noteq> ak_deployment_id a
            \<or> \<not> json_eq (JObj (object_of (ak_cursor a))) (JObj (object_of (st_cursor st)))
          then (Inl (ValueError ''Delivery acknowledgement cannot replace the persisted generation cursor.''), d)
          else
            (case record_room_delivery h r st (ak_sent_ids a) True (deliveries d) of
               Inl e \<Rightarrow> (Inl e, d)
             | Inr links \<Rightarrow>
                 (case record_usage h r st (ak_applied a) (usages d) of
                    Inl e \<Rightarrow> (Inl e, d)
                  | Inr uses \<Rightarrow>
                      (let cursor = acknowledged_cursor (ak_sent_ids a) (ak_applied a)
                             (ak_deployment_id a) (op_cursor r) (ak_cursor a);
                           d' = settle_delivery now a cursor r
                             (d\<lparr>deliveries := links, usages := uses\<rparr>) in
                       case get_operation d' (ak_operation_id a) of
                         Some r' \<Rightarrow> (Inr r', d')
                       | None \<Rightarrow> (Inl InvalidRequest, d'))))
      | _ \<Rightarrow> (Inl (KeyError ''Durable delivery operation was not found.''), d))"

definition acknowledge_character_delivery ::
  "digests \<Rightarrow> time \<Rightarrow> string \<Rightarrow> string \<Rightarrow> string \<Rightarrow> string list \<Rightarrow> bool \<Rightarrow> 'a runtime_db_scheme
    \<Rightarrow> (runtime_operation, 'a runtime_db_scheme) outcome" where
  "acknowledge_character_delivery h now operation sid nonce sent applied d =
     (case get_step d sid of
        None \<Rightarrow> (Inl (KeyError ''Durable Character Turn step was not found.''), d)
      | Some st \<Rightarrow>
          if st_operation_id st \<noteq> operation
          then (Inl (KeyError ''Durable Character Turn step was not found.''), d)
          else
            acknowledge_delivery h now
              \<lparr>ak_operation_id = operation, ak_step_id = sid, ak_claim_nonce = nonce,
               ak_cursor = st_cursor st, ak_sent_ids = sent, ak_outgoing_text = [],
               ak_applied = applied, ak_deployment_id = st_deployment_id st\<rparr> d)"

section \<open>Uncertain deliveries\<close>

definition merged_receipts :: "json_text \<Rightarrow> string list \<Rightarrow> string list" where
  "merged_receipts previous sent =
     take 20 (fromkeys (filter valid_receipt (str_items (list_of previous) @ sent)))"

definition mark_delivery_uncertain ::
  "digests \<Rightarrow> time \<Rightarrow> string \<Rightarrow> string \<Rightarrow> string \<Rightarrow> string \<Rightarrow> string list \<Rightarrow> 'a runtime_db_scheme
    \<Rightarrow> (unit, 'a runtime_db_scheme) outcome" where
  "mark_delivery_uncertain h now operation sid nonce err sent d =
     (case (get_step d sid, get_operation d operation) of
        (Some st, Some r) \<Rightarrow>
          if st_operation_id st \<noteq> operation then (Inr (), d)
          else if op_status r = OpCompleted \<or> st_status st \<notin> {DeliveryClaimed, StepUncertain}
          then (Inr (), d)
          else if nonce = [] \<or> st_claim_nonce st \<noteq> nonce then (Inr (), d)
          else
            (let receipts = merged_receipts (st_sent_ids st) sent in
             case record_room_delivery h r st receipts False (deliveries d) of
               Inl e \<Rightarrow> (Inl e, d)
             | Inr links \<Rightarrow>
                 (Inr (),
                  put_operation operation
                    (\<lambda>r. r\<lparr>op_status := OpUncertain, op_last_error := take 1000 err, op_updated_at := now\<rparr>)
                    (put_step sid
                      (\<lambda>r. r\<lparr>st_sent_ids := dumps (jstrs receipts), st_status := StepUncertain,
                             st_last_error := take 1000 err, st_updated_at := now\<rparr>)
                      (d\<lparr>deliveries := links\<rparr>))))
      | _ \<Rightarrow> (Inr (), d))"

section \<open>What deliveries do to steps and keys\<close>

lemma lost_claim_simps [simp]:
  "st_id (lost_claim now r) = st_id r" "st_status (lost_claim now r) = StepUncertain"
  by (simp_all add: lost_claim_def)

lemma claimed_step_simps [simp]:
  "st_id (claimed_step now nonce r) = st_id r"
  "st_status (claimed_step now nonce r) = DeliveryClaimed"
  "st_claim_nonce (claimed_step now nonce r) = nonce"
  "st_response (claimed_step now nonce r) = st_response r"
  by (simp_all add: claimed_step_def)

lemma acknowledged_step_simps [simp]:
  "st_id (acknowledged_step now a c r) = st_id r"
  "st_operation_id (acknowledged_step now a c r) = st_operation_id r"
  "st_status (acknowledged_step now a c r) =
    (if ak_sent_ids a \<noteq> [] \<or> ak_applied a then Delivered else Silent)"
  by (simp_all add: acknowledged_step_def Let_def)

lemma settle_claim_steps:
  "step_state (snd (settle_claim now nonce r st d)) sid =
    (if st_status st = DeliveryClaimed \<and> st_claim_nonce st \<noteq> nonce \<and> sid = st_id st
     then map_option (\<lambda>_. StepUncertain) (step_state d sid) else step_state d sid)"
  by (auto simp: settle_claim_def step_state_put) (auto simp: step_state_def option.map_comp o_def)

lemma settle_claim_keys [table_simps]:
  "runtime_keys (snd (settle_claim now nonce r st d)) = runtime_keys d"
  by (auto simp: settle_claim_def table_simps)

lemma settle_claim_granted:
  "fst (settle_claim now nonce r st d) = Inr (DeliveryGranted, x) \<Longrightarrow>
    x = st \<and> st_status st = DeliveryClaimed \<and> st_claim_nonce st = nonce
    \<and> snd (settle_claim now nonce r st d) = d"
  by (auto simp: settle_claim_def split: if_splits)

lemma claim_delivery_keys:
  "runtime_keys d \<Longrightarrow> runtime_keys (env d) \<Longrightarrow>
    runtime_keys (snd (claim_delivery v env now operation sid nonce d))"
  by (auto simp: claim_delivery_def table_simps split: option.split)

text \<open>The statuses a claim can leave: claimed, or lost to another nonce.\<close>

definition publishes :: "(delivery_claim \<times> runtime_step, 's) outcome \<Rightarrow> bool" where
  "publishes res \<longleftrightarrow> (case fst res of Inr (DeliveryGranted, _) \<Rightarrow> True | _ \<Rightarrow> False)"

lemma claim_delivery_steps:
  "step_state (snd (claim_delivery v id now operation sid nonce d)) sid' =
    (if sid' = sid \<and> step_state d sid = Some Generated
        \<and> publishes (claim_delivery v id now operation sid nonce d) then Some DeliveryClaimed
     else if sid' = sid \<and> step_state d sid = Some DeliveryClaimed
        \<and> \<not> publishes (claim_delivery v id now operation sid nonce d)
        \<and> step_state (snd (claim_delivery v id now operation sid nonce d)) sid \<noteq> step_state d sid
     then Some StepUncertain
     else step_state d sid')"
proof (cases "get_step d sid")
  case None
  then show ?thesis by (simp add: claim_delivery_def step_state_def publishes_def)
next
  case (Some st)
  then have k: "st_id st = sid" by (rule tget_key)
  show ?thesis
  proof (cases "st_operation_id st = operation \<and> get_operation d operation \<noteq> None")
    case False
    with Some show ?thesis by (auto simp: claim_delivery_def step_state_def publishes_def)
  next
    case True
    then obtain r where r: "get_operation d operation = Some r" by auto
    show ?thesis
    proof (cases "st_status st = Generated")
      case True
      with Some r \<open>st_operation_id st = operation \<and> _\<close> show ?thesis
        by (cases "v r st")
          (auto simp: claim_delivery_def publishes_def step_state_put step_state_def get_put_step)
    next
      case False
      with Some r k \<open>st_operation_id st = operation \<and> _\<close>
      have eq: "claim_delivery v id now operation sid nonce d = settle_claim now nonce r st d"
        by (simp add: claim_delivery_def)
      from Some k False show ?thesis
        unfolding eq settle_claim_steps
        by (auto simp: step_state_def settle_claim_def publishes_def)
    qed
  qed
qed

lemma link_receipts_keyed:
  "link_receipts h r st target complete mids t = Inr t' \<Longrightarrow> keyed ds_id t \<Longrightarrow> keyed ds_id t'"
proof (induction mids arbitrary: t)
  case (Cons mid mids)
  show ?case
  proof (cases "tget ds_id t (delivery_key h (operation_scope r) mid)")
    case None
    with Cons.prems have "keyed ds_id (tins (new_delivery_source h r st target complete mid) t)"
      by (simp add: keyed_tins new_delivery_source_def)
    with Cons None show ?thesis by simp
  next
    case (Some e)
    with Cons show ?thesis by (auto simp: Let_def keyed_tset split: if_splits)
  qed
qed simp

lemma record_room_delivery_keyed:
  "record_room_delivery h r st mids complete t = Inr t' \<Longrightarrow> keyed ds_id t \<Longrightarrow> keyed ds_id t'"
  by (auto simp: record_room_delivery_def split: option.splits if_splits intro: link_receipts_keyed)

lemma settle_delivery_steps:
  "step_state (settle_delivery now a cursor r d) sid =
    (if sid = ak_step_id a
     then map_option (\<lambda>_. if ak_sent_ids a \<noteq> [] \<or> ak_applied a then Delivered else Silent) (step_state d sid)
     else step_state d sid)"
proof -
  have st: "step_state (put_step s (\<lambda>r. r\<lparr>st_response := empty_object\<rparr>) x) k = step_state x k" for s x k
    by (cases "get_step x s") (auto simp: get_put_step step_state_def)
  show ?thesis
    by (simp add: settle_delivery_def Let_def st)
      (auto simp: step_state_put step_state_def [of d] option.map_comp o_def)
qed

lemma settle_delivery_keys [table_simps]:
  "runtime_keys (settle_delivery now a cursor r d) = runtime_keys d"
  by (simp add: settle_delivery_def Let_def table_simps)

text \<open>What an acknowledgement does, by whether it owns the claim.\<close>

definition owns_claim :: "delivery_ack \<Rightarrow> 'a runtime_db_scheme \<Rightarrow> bool" where
  "owns_claim a d \<longleftrightarrow>
     (case get_step d (ak_step_id a) of
        None \<Rightarrow> False
      | Some st \<Rightarrow>
          st_operation_id st = ak_operation_id a \<and> st_status st = DeliveryClaimed
          \<and> st_claim_nonce st = ak_claim_nonce a)"

lemma acknowledge_cases:
  obtains (unchanged) "snd (acknowledge_delivery h now a d) = d"
  | (settled) st r links uses where
      "get_step d (ak_step_id a) = Some st" and "get_operation d (ak_operation_id a) = Some r"
      and "owns_claim a d"
      and "st_deployment_id st = ak_deployment_id a"
      and "json_eq (JObj (object_of (ak_cursor a))) (JObj (object_of (st_cursor st)))"
      and "record_room_delivery h r st (ak_sent_ids a) True (deliveries d) = Inr links"
      and "record_usage h r st (ak_applied a) (usages d) = Inr uses"
      and "snd (acknowledge_delivery h now a d) =
        settle_delivery now a (acknowledged_cursor (ak_sent_ids a) (ak_applied a)
          (ak_deployment_id a) (op_cursor r) (ak_cursor a)) r (d\<lparr>deliveries := links, usages := uses\<rparr>)"
proof (cases "get_step d (ak_step_id a)")
  case None
  then show thesis by (intro unchanged) (simp add: acknowledge_delivery_def)
next
  case st: (Some st)
  show thesis
  proof (cases "get_operation d (ak_operation_id a)")
    case None
    with st show thesis by (intro unchanged) (simp add: acknowledge_delivery_def)
  next
    case r: (Some r)
    show thesis
    proof (cases "owns_claim a d \<and> st_deployment_id st = ak_deployment_id a
        \<and> json_eq (JObj (object_of (ak_cursor a))) (JObj (object_of (st_cursor st)))")
      case False
      with st r show thesis
        by (intro unchanged) (auto simp: acknowledge_delivery_def owns_claim_def simp del: json_eq.simps)
    next
      case own: True
      show thesis
      proof (cases "record_room_delivery h r st (ak_sent_ids a) True (deliveries d)")
        case (Inl e)
        with own st r show thesis
          by (intro unchanged) (simp add: acknowledge_delivery_def owns_claim_def del: json_eq.simps)
      next
        case links: (Inr links)
        show thesis
        proof (cases "record_usage h r st (ak_applied a) (usages d)")
          case (Inl e)
          with own st r links show thesis
            by (intro unchanged) (simp add: acknowledge_delivery_def owns_claim_def del: json_eq.simps)
        next
          case (Inr uses)
          with own st r links show thesis
            by (intro settled [of st r links uses])
              (simp_all add: acknowledge_delivery_def owns_claim_def Let_def del: json_eq.simps
                split: option.split)
        qed
      qed
    qed
  qed
qed

lemma step_state_tables [simp]:
  "step_state (deliveries_update f d) sid = step_state d sid"
  "step_state (usages_update g d) sid = step_state d sid"
  "step_state (effects_update e d) sid = step_state d sid"
  "step_state (operations_update p d) sid = step_state d sid"
  by (simp_all add: step_state_def)

lemma acknowledge_steps:
  "step_state (snd (acknowledge_delivery h now a d)) sid = step_state d sid
    \<or> (sid = ak_step_id a \<and> owns_claim a d
        \<and> step_state (snd (acknowledge_delivery h now a d)) sid
            = Some (if ak_sent_ids a \<noteq> [] \<or> ak_applied a then Delivered else Silent))"
  by (cases rule: acknowledge_cases [of h now a d])
    (auto simp: settle_delivery_steps step_state_def [of d] simp del: json_eq.simps)

lemma acknowledge_keys:
  assumes "runtime_keys d"
  shows "runtime_keys (snd (acknowledge_delivery h now a d))"
proof (cases rule: acknowledge_cases [of h now a d])
  case (settled st r links uses)
  moreover have "keyed ds_id links"
    using settled(6) assms by (auto simp: runtime_keys_def intro: record_room_delivery_keyed)
  ultimately show ?thesis
    using assms by (simp add: table_simps) (simp add: runtime_keys_def)
qed (use assms in simp)

lemma mark_uncertain_steps:
  "step_state (snd (mark_delivery_uncertain h now operation sid nonce err sent d)) sid' = step_state d sid'
    \<or> (sid' = sid \<and> step_state d sid \<in> {Some DeliveryClaimed, Some StepUncertain}
        \<and> step_state (snd (mark_delivery_uncertain h now operation sid nonce err sent d)) sid' = Some StepUncertain)"
  by (auto simp: mark_delivery_uncertain_def Let_def step_state_put split: option.split sum.split)
    (auto simp: step_state_def)

lemma mark_uncertain_keys:
  "runtime_keys d \<Longrightarrow> runtime_keys (snd (mark_delivery_uncertain h now operation sid nonce err sent d))"
  by (auto simp: mark_delivery_uncertain_def Let_def table_simps split: option.split sum.split)
    (auto simp: runtime_keys_def intro: record_room_delivery_keyed)

end
