(* ===== verification/Runtime_Recovery.thy ===== *)
theory Runtime_Recovery
  imports Runtime_Delivery
begin

text \<open>
  The side-effect ledger of \<open>DurableRuntimeRepository\<close>, and what a restarted process does with
  the work it finds interrupted.
\<close>

section \<open>Side effects\<close>

datatype effect_claim = EffectGranted | EffectReplay | EffectUnclear

definition effect_slot :: "digests \<Rightarrow> string \<Rightarrow> string \<Rightarrow> string \<Rightarrow> string" where
  "effect_slot h operation sid deployment =
     stable_hash h [''tool-side-effect-slot-v2'', operation, sid, deployment]"

record effect_result =
  er_claim :: effect_claim
  er_key :: string
  er_content :: string
  er_trace :: "(string \<times> json) list"

definition claim_side_effect ::
  "digests \<Rightarrow> time \<Rightarrow> string \<Rightarrow> string \<Rightarrow> string \<Rightarrow> string \<Rightarrow> string \<Rightarrow> 'a runtime_db_scheme
    \<Rightarrow> effect_result \<times> 'a runtime_db_scheme" where
  "claim_side_effect h now operation sid deployment tool arguments d =
     (let k = effect_slot h operation sid deployment in
      case get_effect d k of
        None \<Rightarrow>
          (\<lparr>er_claim = EffectGranted, er_key = k, er_content = [], er_trace = []\<rparr>,
           d\<lparr>effects := tins
               \<lparr>se_key = k, se_operation_id = operation, se_step_id = sid,
                se_deployment_id = deployment, se_tool_id = tool, se_arguments_hash = arguments,
                se_status = EffectClaimed, se_content = [], se_trace = empty_object,
                se_updated_at = now\<rparr> (effects d)\<rparr>)
      | Some e \<Rightarrow>
          if se_tool_id e \<noteq> tool \<or> se_arguments_hash e \<noteq> arguments
          then (\<lparr>er_claim = EffectUnclear, er_key = k, er_content = [], er_trace = []\<rparr>, d)
          else if se_status e = EffectCompleted
          then (\<lparr>er_claim = EffectReplay, er_key = k, er_content = se_content e,
                 er_trace = object_of (se_trace e)\<rparr>, d)
          else (\<lparr>er_claim = EffectUnclear, er_key = k, er_content = [], er_trace = []\<rparr>, d))"

definition complete_side_effect ::
  "time \<Rightarrow> string \<Rightarrow> string \<Rightarrow> (string \<times> json) list \<Rightarrow> 'a runtime_db_scheme \<Rightarrow> 'a runtime_db_scheme" where
  "complete_side_effect now k content trace =
     put_effect k (\<lambda>e. e\<lparr>se_status := EffectCompleted, se_content := content,
                         se_trace := dumps (JObj trace), se_updated_at := now\<rparr>)"

definition release_side_effect_claim :: "string \<Rightarrow> 'a runtime_db_scheme \<Rightarrow> 'a runtime_db_scheme" where
  "release_side_effect_claim k d =
     d\<lparr>effects := tdel (\<lambda>e. se_key e = k \<and> se_status e = EffectClaimed) (effects d)\<rparr>"

section \<open>Recovery after a restart\<close>

definition interrupt_operation ::
  "time \<Rightarrow> operation_status \<Rightarrow> string \<Rightarrow> string \<Rightarrow> 'a runtime_db_scheme \<Rightarrow> 'a runtime_db_scheme" where
  "interrupt_operation now status err k =
     put_operation k (\<lambda>r. if op_status r = OpCompleted then r
                          else r\<lparr>op_status := status, op_last_error := err, op_updated_at := now\<rparr>)"

definition interrupt_step ::
  "time \<Rightarrow> step_status \<Rightarrow> string \<Rightarrow> runtime_step \<Rightarrow> runtime_step" where
  "interrupt_step now status err r =
     r\<lparr>st_status := status, st_last_error := err, st_updated_at := now\<rparr>"

definition recover_generating :: "time \<Rightarrow> runtime_step \<Rightarrow> 'a runtime_db_scheme \<Rightarrow> 'a runtime_db_scheme" where
  "recover_generating now st d =
     (case get_operation d (st_operation_id st) of
        Some r \<Rightarrow>
          if op_kind r = CharacterTurn then
            interrupt_operation now OpUncertain ''process_restarted_during_character_generation'' (op_id r)
              (put_step (st_id st)
                (interrupt_step now StepUncertain ''process_restarted_during_character_generation'') d)
          else
            put_step (st_id st) (interrupt_step now StepFailed ''process_restarted_during_generation'') d
      | None \<Rightarrow>
          put_step (st_id st) (interrupt_step now StepFailed ''process_restarted_during_generation'') d)"

definition recover_refreshing :: "time \<Rightarrow> runtime_step \<Rightarrow> 'a runtime_db_scheme \<Rightarrow> 'a runtime_db_scheme" where
  "recover_refreshing now st d =
     interrupt_operation now OpFailed ''process_restarted_during_draft_preflight'' (st_operation_id st)
       (put_step (st_id st)
         (\<lambda>r. (interrupt_step now StepFailed ''process_restarted_during_draft_preflight'' r)
                \<lparr>st_response := empty_object\<rparr>) d)"

definition recover_claimed :: "time \<Rightarrow> runtime_step \<Rightarrow> 'a runtime_db_scheme \<Rightarrow> 'a runtime_db_scheme" where
  "recover_claimed now st d =
     interrupt_operation now OpUncertain ''process_restarted_after_delivery_claim_before_ack''
       (st_operation_id st)
       (put_step (st_id st)
         (interrupt_step now StepUncertain ''process_restarted_after_delivery_claim_before_ack'') d)"

definition steps_in :: "step_status \<Rightarrow> 'a runtime_db_scheme \<Rightarrow> runtime_step list" where
  "steps_in v d = filter (\<lambda>r. st_status r = v) (steps d)"

record recovery_counts =
  rc_generation :: nat
  rc_delivery_uncertain :: nat
  rc_side_effect_uncertain :: nat

definition recover_interrupted ::
  "time \<Rightarrow> 'a runtime_db_scheme \<Rightarrow> recovery_counts \<times> 'a runtime_db_scheme" where
  "recover_interrupted now d =
     (let generating = steps_in Generating d;
          d1 = fold (recover_generating now) generating d;
          refreshing = steps_in Refreshing d1;
          d2 = fold (recover_refreshing now) refreshing d1;
          claimed = steps_in DeliveryClaimed d2;
          d3 = fold (recover_claimed now) claimed d2;
          d4 = d3\<lparr>effects := tset (\<lambda>e. se_status e = EffectClaimed)
                    (\<lambda>e. e\<lparr>se_status := EffectUncertain, se_updated_at := now\<rparr>) (effects d3)\<rparr> in
      (\<lparr>rc_generation = length generating + length refreshing,
        rc_delivery_uncertain = length claimed,
        rc_side_effect_uncertain = tcount (\<lambda>e. se_status e = EffectClaimed) (effects d3)\<rparr>, d4))"

section \<open>Interrupted steps\<close>

definition kind_of :: "'a runtime_db_scheme \<Rightarrow> string \<Rightarrow> operation_kind option" where
  "kind_of d k = map_option op_kind (get_operation d k)"

lemma kind_of_frames [simp]:
  "kind_of (put_step s f d) = kind_of d"
  "kind_of (interrupt_operation now v err k' d) = kind_of d"
  by (rule ext, simp add: kind_of_def)
    (rule ext, auto simp: kind_of_def interrupt_operation_def get_put_operation option.map_comp
       intro!: option.map_cong)

lemma interrupt_frames [simp]:
  "step_state (interrupt_operation now v err k d) sid = step_state d sid"
  "effects (interrupt_operation now v err k d) = effects d"
  "steps (interrupt_operation now v err k d) = steps d"
  "runtime_keys (interrupt_operation now v err k d) = runtime_keys d"
  by (simp_all add: interrupt_operation_def runtime_keys_put)

lemma interrupt_step_simps [simp]:
  "st_id (interrupt_step now v err r) = st_id r" "st_status (interrupt_step now v err r) = v"
  "st_operation_id (interrupt_step now v err r) = st_operation_id r"
  by (simp_all add: interrupt_step_def)

text \<open>What a restart makes of a step, by the kind of its operation.\<close>

definition recovered_status ::
  "(string \<Rightarrow> operation_kind option) \<Rightarrow> runtime_step \<Rightarrow> step_status" where
  "recovered_status kinds r =
     (case st_status r of
        Generating \<Rightarrow>
          if kinds (st_operation_id r) = Some CharacterTurn then StepUncertain else StepFailed
      | Refreshing \<Rightarrow> StepFailed
      | DeliveryClaimed \<Rightarrow> StepUncertain
      | v \<Rightarrow> v)"

lemma step_state_put_const [table_simps]:
  "(\<And>r. st_id (f r) = st_id r) \<Longrightarrow> (\<And>r. st_status (f r) = v) \<Longrightarrow>
    step_state (put_step k f d) sid =
      (if sid = k then map_option (\<lambda>_. v) (step_state d k) else step_state d sid)"
  by (simp add: step_state_put) (auto simp: step_state_def option.map_comp o_def)

lemma recover_generating_facts:
  "step_state (recover_generating now st d) sid =
    (if sid = st_id st
     then map_option (\<lambda>_. if kind_of d (st_operation_id st) = Some CharacterTurn
                          then StepUncertain else StepFailed) (step_state d sid)
     else step_state d sid)"
  "kind_of (recover_generating now st d) = kind_of d"
  "effects (recover_generating now st d) = effects d"
  "runtime_keys (recover_generating now st d) = runtime_keys d"
  by (auto simp: recover_generating_def step_state_put_const kind_of_def [of d] runtime_keys_put
      split: option.split)

lemma recover_refreshing_facts:
  "step_state (recover_refreshing now st d) sid =
    (if sid = st_id st then map_option (\<lambda>_. StepFailed) (step_state d sid) else step_state d sid)"
  "kind_of (recover_refreshing now st d) = kind_of d"
  "effects (recover_refreshing now st d) = effects d"
  "runtime_keys (recover_refreshing now st d) = runtime_keys d"
  by (auto simp: recover_refreshing_def step_state_put_const runtime_keys_put)

lemma recover_claimed_facts:
  "step_state (recover_claimed now st d) sid =
    (if sid = st_id st then map_option (\<lambda>_. StepUncertain) (step_state d sid) else step_state d sid)"
  "kind_of (recover_claimed now st d) = kind_of d"
  "effects (recover_claimed now st d) = effects d"
  "runtime_keys (recover_claimed now st d) = runtime_keys d"
  by (auto simp: recover_claimed_def step_state_put_const runtime_keys_put)

text \<open>A loop over step rows that writes each by its key.\<close>

lemma fold_recover:
  assumes f: "\<And>st d. step_state (f st d) (st_id st) =
        map_option (\<lambda>_. g (kind_of d) st) (step_state d (st_id st))"
      "\<And>st d sid. sid \<noteq> st_id st \<Longrightarrow> step_state (f st d) sid = step_state d sid"
      "\<And>st d. kind_of (f st d) = kind_of d"
    and xs: "distinct (map st_id xs)"
  shows "step_state (fold f xs d) sid =
    (case tget st_id xs sid of
       None \<Rightarrow> step_state d sid
     | Some st \<Rightarrow> map_option (\<lambda>_. g (kind_of d) st) (step_state d sid))"
  using xs
proof (induction xs arbitrary: d)
  case (Cons x xs)
  show ?case
  proof (cases "sid = st_id x")
    case True
    with Cons.prems have "tget st_id xs sid = None" by (simp add: tget_None_iff)
    with Cons True show ?thesis by (simp add: f)
  next
    case False
    with Cons show ?thesis by (simp add: f split: option.split)
  qed
qed simp

lemma fold_recover_frames:
  assumes "\<And>st d. kind_of (f st d) = kind_of d" and "\<And>st d. effects (f st d) = effects d"
    and "\<And>st d. runtime_keys (f st d) = runtime_keys d"
  shows "kind_of (fold f xs d) = kind_of d" and "effects (fold f xs d) = effects d"
    and "runtime_keys (fold f xs d) = runtime_keys d"
  using assms by (induction xs arbitrary: d) simp_all

lemma tget_steps_in:
  assumes "runtime_keys d"
  shows "tget st_id (steps_in v d) sid =
    (case get_step d sid of None \<Rightarrow> None | Some r \<Rightarrow> if st_status r = v then Some r else None)"
    and "distinct (map st_id (steps_in v d))"
  using tget_tdel [of st_id "steps d" "\<lambda>r. st_status r \<noteq> v" sid]
    keyed_tdel [of st_id "steps d" "\<lambda>r. st_status r \<noteq> v"] assms
  by (simp_all add: steps_in_def tdel_def runtime_keys_def keyed_def if_distrib [of Not]
      cong: option.case_cong) (auto split: option.split)

lemma recover_frames:
  "runtime_keys (snd (recover_interrupted now d)) = runtime_keys d"
  "kind_of (snd (recover_interrupted now d)) = kind_of d"
proof -
  let ?d1 = "fold (recover_generating now) (steps_in Generating d) d"
  let ?d2 = "fold (recover_refreshing now) (steps_in Refreshing ?d1) ?d1"
  let ?d3 = "fold (recover_claimed now) (steps_in DeliveryClaimed ?d2) ?d2"
  have "runtime_keys ?d3 = runtime_keys d" "kind_of ?d3 = kind_of d"
    by (simp_all add: fold_recover_frames recover_generating_facts recover_refreshing_facts
        recover_claimed_facts)
  then show "runtime_keys (snd (recover_interrupted now d)) = runtime_keys d"
    "kind_of (snd (recover_interrupted now d)) = kind_of d"
    by (simp_all add: recover_interrupted_def Let_def runtime_keys_def keyed_tset)
      (simp_all add: kind_of_def fun_eq_iff)
qed

lemma recover_steps:
  assumes "runtime_keys d"
  shows "step_state (snd (recover_interrupted now d)) sid =
    map_option (recovered_status (kind_of d)) (get_step d sid)"
proof -
  let ?d1 = "fold (recover_generating now) (steps_in Generating d) d"
  let ?d2 = "fold (recover_refreshing now) (steps_in Refreshing ?d1) ?d1"
  let ?d3 = "fold (recover_claimed now) (steps_in DeliveryClaimed ?d2) ?d2"
  note facts = recover_generating_facts recover_refreshing_facts recover_claimed_facts
  have k1: "runtime_keys ?d1" and k2: "runtime_keys ?d2"
    using assms by (simp_all add: fold_recover_frames facts)
  have s1: "step_state ?d1 sid = map_option (\<lambda>r. if st_status r = Generating
      then if kind_of d (st_operation_id r) = Some CharacterTurn then StepUncertain else StepFailed
      else st_status r) (get_step d sid)"
    by (subst fold_recover [where g = "\<lambda>kinds st. if kinds (st_operation_id st) = Some CharacterTurn
          then StepUncertain else StepFailed"])
      (auto simp: facts tget_steps_in assms step_state_def [of d] split: option.split)
  have s2: "step_state ?d2 sid = map_option (\<lambda>v. if v = Refreshing then StepFailed else v) (step_state ?d1 sid)"
    by (subst fold_recover [where g = "\<lambda>_ _. StepFailed"])
      (auto simp: facts tget_steps_in k1 step_state_def [of ?d1] split: option.split)
  have s3: "step_state ?d3 sid = map_option (\<lambda>v. if v = DeliveryClaimed then StepUncertain else v) (step_state ?d2 sid)"
    by (subst fold_recover [where g = "\<lambda>_ _. StepUncertain"])
      (auto simp: facts tget_steps_in k2 step_state_def [of ?d2] split: option.split)
  have "step_state (snd (recover_interrupted now d)) sid = step_state ?d3 sid"
    by (simp add: recover_interrupted_def Let_def)
  then show ?thesis
    unfolding s3 s2 s1
    by (cases "get_step d sid") (auto simp: recovered_status_def split: step_status.split)
qed

section \<open>Retention\<close>

text \<open>
  The part of \<open>prune\<close> that removes old operations: their identifiers and those of their steps are
  read first, other sessions may commit before each of the statements that follow (\<open>env\<close>, \<open>env'\<close>),
  and the deletions ask for nothing but these identifiers.
\<close>

definition expired_operation :: "time \<Rightarrow> 'a runtime_db_scheme \<Rightarrow> runtime_operation \<Rightarrow> bool" where
  "expired_operation cutoff d r \<longleftrightarrow>
     op_updated_at r < cutoff \<and> (op_status r = OpCompleted \<or> op_status r = OpFailed)
     \<and> \<not> list_ex (\<lambda>e. list_ex (\<lambda>st. st_id st = se_step_id e \<and> st_operation_id st = op_id r) (steps d)
                     \<and> (se_status e = EffectClaimed \<or> se_status e = EffectUncertain)) (effects d)
     \<and> \<not> list_ex (\<lambda>st. st_operation_id st = op_id r
                      \<and> st_status st \<in> {Generating, Generated, DeliveryClaimed, StepUncertain}) (steps d)"

definition delete_operations :: "string list \<Rightarrow> string list \<Rightarrow> 'a runtime_db_scheme \<Rightarrow> 'a runtime_db_scheme" where
  "delete_operations old step_ids d =
     d\<lparr>effects := tdel (\<lambda>e. se_step_id e \<in> set step_ids) (effects d),
       steps := tdel (\<lambda>st. st_operation_id st \<in> set old) (steps d),
       operations := tdel (\<lambda>p. op_id p \<in> set old) (operations d)\<rparr>"

definition prune_operations ::
  "time \<Rightarrow> ('a runtime_db_scheme \<Rightarrow> 'a runtime_db_scheme) \<Rightarrow> ('a runtime_db_scheme \<Rightarrow> 'a runtime_db_scheme)
    \<Rightarrow> 'a runtime_db_scheme \<Rightarrow> 'a runtime_db_scheme" where
  "prune_operations cutoff env env' d =
     (let old = map op_id (filter (expired_operation cutoff d) (operations d)) in
      if old = [] then d
      else delete_operations old (map st_id (filter (\<lambda>st. st_operation_id st \<in> set old) (steps (env d)))) (env' (env d)))"

lemma delete_operations_tables:
  assumes "runtime_keys d"
  shows "get_step (delete_operations old ids d) sid =
      (case get_step d sid of None \<Rightarrow> None | Some r \<Rightarrow> if st_operation_id r \<in> set old then None else Some r)"
    and "get_operation (delete_operations old ids d) k =
      (case get_operation d k of None \<Rightarrow> None | Some r \<Rightarrow> if op_id r \<in> set old then None else Some r)"
    and "get_effect (delete_operations old ids d) e =
      (case get_effect d e of None \<Rightarrow> None | Some r \<Rightarrow> if se_step_id r \<in> set ids then None else Some r)"
    and "runtime_keys (delete_operations old ids d)"
  using assms by (simp_all add: delete_operations_def runtime_keys_def tget_tdel keyed_tdel)

end
