(* ===== verification/Runtime_System.thy ===== *)
theory Runtime_System
  imports Runtime_Recovery
begin

text \<open>
  The repository of \<open>persistence/runtime_durability_repository.py\<close> as one transition function over
  its operations, and the contracts that hold of every run of them: the key constraints and the
  scrubbing of finished operations as invariants, publications and side effects at most once,
  generations within their budget.
\<close>

section \<open>The repository as a transition function\<close>

text \<open>
  One operation of the repository with its arguments. Each commits atomically here: the one write
  of the code that races with other sessions, the claim of a delivery, is a single conditional
  update of what it finds (\<open>claim_delivery\<close> with any \<open>env\<close> is that update after \<open>env\<close>). Retention reads
  first and deletes later, so only its deletions are a command, with any identifiers that an earlier
  state may have given it.
\<close>

datatype runtime_command =
    ClaimCharacter time room_scope string string
  | ClaimSocial time social_claim
  | PrepareStep time string int string string
  | FailStep time string string
  | CompleteGeneration time string json_text json_text bool
  | ClaimDelivery time string string string
  | Acknowledge time delivery_ack
  | MarkUncertain time string string string string "string list"
  | ClaimEffect time string string string string string
  | CompleteEffect time string string "(string \<times> json) list"
  | ReleaseEffect string
  | Recover time
  | DeleteOperations "string list" "string list"

fun run_command ::
  "digests \<Rightarrow> (runtime_operation \<Rightarrow> runtime_step \<Rightarrow> error option) \<Rightarrow> runtime_command
    \<Rightarrow> 'a runtime_db_scheme \<Rightarrow> 'a runtime_db_scheme" where
  "run_command h v (ClaimCharacter now s source dep) d =
     snd (claim_character_operation h id id now s source dep d)"
| "run_command h v (ClaimSocial now c) d = snd (claim_social_operation now c d)"
| "run_command h v (PrepareStep now operation index dep hash) d =
     snd (prepare_social_step h now operation index dep hash d)"
| "run_command h v (FailStep now sid err) d = fail_social_step now sid err d"
| "run_command h v (CompleteGeneration now sid response cursor required) d =
     snd (complete_social_step_generation now sid response cursor required d)"
| "run_command h v (ClaimDelivery now operation sid nonce) d =
     snd (claim_delivery v id now operation sid nonce d)"
| "run_command h v (Acknowledge now a) d = snd (acknowledge_delivery h now a d)"
| "run_command h v (MarkUncertain now operation sid nonce err sent) d =
     snd (mark_delivery_uncertain h now operation sid nonce err sent d)"
| "run_command h v (ClaimEffect now operation sid dep tool arguments) d =
     snd (claim_side_effect h now operation sid dep tool arguments d)"
| "run_command h v (CompleteEffect now k content trace) d = complete_side_effect now k content trace d"
| "run_command h v (ReleaseEffect k) d = release_side_effect_claim k d"
| "run_command h v (Recover now) d = snd (recover_interrupted now d)"
| "run_command h v (DeleteOperations old step_ids) d = delete_operations old step_ids d"

lemma prune_operations_run:
  "prune_operations cutoff env env' d = d
   \<or> (\<exists>old step_ids. prune_operations cutoff env env' d = run_command h v (DeleteOperations old step_ids) (env' (env d)))"
  by (auto simp: prune_operations_def Let_def)

section \<open>At most one publication\<close>

text \<open>
  A command that is granted the publication of a step, unless its nonce already holds the claim (the
  repeated request of the same publisher), and one that renews the step or forgets it.
\<close>

definition held_by :: "string \<Rightarrow> string \<Rightarrow> 'a runtime_db_scheme \<Rightarrow> bool" where
  "held_by nonce sid d \<longleftrightarrow>
     (case get_step d sid of
        None \<Rightarrow> False
      | Some st \<Rightarrow> st_status st = DeliveryClaimed \<and> st_claim_nonce st = nonce)"

fun claims_step ::
  "digests \<Rightarrow> (runtime_operation \<Rightarrow> runtime_step \<Rightarrow> error option) \<Rightarrow> string \<Rightarrow> runtime_command
    \<Rightarrow> 'a runtime_db_scheme \<Rightarrow> bool" where
  "claims_step h v sid (ClaimDelivery now operation s nonce) d =
     (s = sid \<and> publishes (claim_delivery v id now operation s nonce d) \<and> \<not> held_by nonce sid d)"
| "claims_step h v sid _ d = False"

fun renews_step :: "string \<Rightarrow> runtime_command \<Rightarrow> 'a runtime_db_scheme \<Rightarrow> bool" where
  "renews_step sid (FailStep now s err) d = (s = sid)"
| "renews_step sid (CompleteGeneration now s response cursor required) d = (s = sid)"
| "renews_step sid (DeleteOperations old step_ids) d =
     (get_step d sid \<noteq> None \<and> get_step (delete_operations old step_ids d) sid = None)"
| "renews_step sid _ d = False"

definition claimable :: "string \<Rightarrow> 'a runtime_db_scheme \<Rightarrow> bool" where
  "claimable sid d \<longleftrightarrow>
     step_state d sid \<in> {None, Some Generating, Some Generated, Some Refreshing, Some StepFailed}"

lemma claim_operation_steps [simp]:
  "steps (snd (claim_character_operation h id id now s source dep d)) = steps d"
  "steps (snd (claim_social_operation now c d)) = steps d"
  by (auto simp: claim_character_operation_def resume_character_operation_def
      claim_social_operation_def Let_def split: option.split)

lemma fail_step_steps:
  "step_state (fail_social_step now sid err d) sid' =
    (if sid' = sid then map_option (\<lambda>_. StepFailed) (step_state d sid) else step_state d sid')"
  by (auto simp: fail_social_step_def step_state_save split: option.split)
    (auto simp: step_state_def)

lemma complete_generation_steps:
  "sid' \<noteq> sid \<Longrightarrow>
    step_state (snd (complete_social_step_generation now sid response cursor required d)) sid' = step_state d sid'"
  by (auto simp: complete_social_step_generation_def Let_def step_state_put split: option.split)

lemma effect_commands_steps [simp]:
  "steps (snd (claim_side_effect h now operation sid dep tool arguments d)) = steps d"
  "steps (complete_side_effect now k content trace d) = steps d"
  "steps (release_side_effect_claim k d) = steps d"
  by (simp_all add: claim_side_effect_def complete_side_effect_def release_side_effect_claim_def
      Let_def split: option.split)

lemma claimable_cong: "steps d' = steps d \<Longrightarrow> claimable sid d' = claimable sid d"
  by (simp add: claimable_def step_state_def)

lemma stays_unclaimable:
  assumes keys: "runtime_keys d" and "\<not> claimable sid d" and "\<not> renews_step sid c d"
  shows "\<not> claimable sid (run_command h v c d)"
proof (cases c)
  case (PrepareStep now operation index dep hash)
  with assms(2) prepare_step_state [of h now operation index dep hash d] show ?thesis
    by (auto simp: claimable_def)
next
  case (FailStep now s err)
  with assms show ?thesis by (simp add: claimable_def fail_step_steps)
next
  case (CompleteGeneration now s response cursor required)
  with assms show ?thesis by (simp add: claimable_def complete_generation_steps)
next
  case (ClaimDelivery now operation s nonce)
  with assms(2) claim_delivery_steps [of v now operation s nonce d sid] show ?thesis
    by (auto simp: claimable_def split: if_splits)
next
  case (Acknowledge now a)
  with assms(2) acknowledge_steps [of h now a d sid] show ?thesis
    by (auto simp: claimable_def split: if_splits)
next
  case (MarkUncertain now operation s nonce err sent)
  with assms(2) mark_uncertain_steps [of h now operation s nonce err sent d sid] show ?thesis
    by (auto simp: claimable_def)
next
  case (Recover now)
  with assms(2) recover_steps [OF keys, of now sid] show ?thesis
    by (cases "get_step d sid")
      (auto simp: claimable_def step_state_def recovered_status_def split: step_status.splits)
next
  case (DeleteOperations old ids)
  with assms show ?thesis
    by (auto simp: claimable_def step_state_def delete_operations_tables(1) [OF keys] split: option.splits if_splits)
qed (use assms(2) in \<open>simp_all add: claimable_def step_state_def\<close>)

lemma publishes_generated:
  assumes "publishes (claim_delivery v id now operation sid nonce d)" and "\<not> held_by nonce sid d"
  shows "step_state d sid = Some Generated"
proof -
  obtain st where st: "get_step d sid = Some st"
    using assms(1) by (auto simp: publishes_def claim_delivery_def split: option.splits)
  show ?thesis
  proof (cases "st_status st = Generated")
    case False
    with assms(1) st obtain r x where "fst (settle_claim now nonce r st d) = Inr (DeliveryGranted, x)"
      by (auto simp: publishes_def claim_delivery_def split: option.splits if_splits sum.splits prod.splits
          delivery_claim.splits)
    from settle_claim_granted [OF this] assms(2) st show ?thesis by (simp add: held_by_def)
  qed (use st in \<open>simp add: step_state_def\<close>)
qed

lemma claims_generated: "claims_step h v sid c d \<Longrightarrow> step_state d sid = Some Generated"
  by (cases c) (auto dest: publishes_generated)

lemma claim_closes:
  assumes "claims_step h v sid c d"
  shows "\<not> claimable sid (run_command h v c d)"
proof (cases c)
  case (ClaimDelivery now operation s nonce)
  with assms have pub: "publishes (claim_delivery v id now operation sid nonce d)" "s = sid" by auto
  have "step_state (snd (claim_delivery v id now operation sid nonce d)) sid = Some DeliveryClaimed"
    by (rule trans [OF claim_delivery_steps]) (simp only: pub claims_generated [OF assms] simp_thms if_True)
  then show ?thesis using ClaimDelivery pub(2) by (simp add: claimable_def)
qed (use assms in simp_all)

section \<open>The key constraints\<close>

lemma claim_operation_keys:
  assumes "runtime_keys d"
  shows "runtime_keys (snd (claim_character_operation h id id now s source dep d))"
    and "runtime_keys (snd (claim_social_operation now c d))"
proof -
  have ins: "get_operation d (op_id r) = None \<Longrightarrow> runtime_keys (d\<lparr>operations := tins r (operations d)\<rparr>)" for r
    using assms by (simp add: runtime_keys_def keyed_tins)
  have res: "op_id (resume_operation now r) = op_id r" for r
    by (simp add: resume_operation_def)
  show "runtime_keys (snd (claim_character_operation h id id now s source dep d))"
    using assms ins
    by (auto simp: claim_character_operation_def resume_character_operation_def Let_def
        runtime_keys_put res new_character_operation_def split: option.split)
  show "runtime_keys (snd (claim_social_operation now c d))"
    using assms ins
    by (auto simp: claim_social_operation_def Let_def runtime_keys_put res new_social_operation_def
        split: option.split)
qed

lemma generation_keys:
  "runtime_keys (fail_social_step now sid err d) = runtime_keys d"
  "runtime_keys (snd (complete_social_step_generation now sid response cursor required d)) = runtime_keys d"
  by (auto simp: fail_social_step_def complete_social_step_generation_def Let_def table_simps
      split: option.split)

lemma effect_keys:
  assumes "runtime_keys d"
  shows "runtime_keys (snd (claim_side_effect h now operation sid dep tool arguments d))"
    and "runtime_keys (complete_side_effect now k content trace d)"
    and "runtime_keys (release_side_effect_claim k d)"
  using assms
  by (auto simp: claim_side_effect_def complete_side_effect_def release_side_effect_claim_def
      Let_def runtime_keys_put split: option.split)
    (auto simp: runtime_keys_def keyed_tins keyed_tdel)

lemma run_command_keys: "runtime_keys d \<Longrightarrow> runtime_keys (run_command h v c d)"
  by (cases c)
    (simp_all add: delete_operations_tables(4) claim_operation_keys generation_keys effect_keys prepare_keys acknowledge_keys
      mark_uncertain_keys recover_frames claim_delivery_keys)

section \<open>Finished operations keep no text\<close>

definition scrubbed_step :: "runtime_step \<Rightarrow> bool" where
  "scrubbed_step r \<longleftrightarrow> st_response r = empty_object \<and> st_outgoing_text r = []"

definition clean :: "'a runtime_db_scheme \<Rightarrow> bool" where
  "clean d \<longleftrightarrow>
     (\<forall>k sid r. operation_state d k = Some OpCompleted \<longrightarrow> get_step d sid = Some r
        \<longrightarrow> finished_step k r \<longrightarrow> scrubbed_step r)"

lemma cleanI:
  assumes "clean d"
    and "\<And>k sid r. operation_state d' k = Some OpCompleted \<Longrightarrow> get_step d' sid = Some r \<Longrightarrow>
      finished_step k r \<Longrightarrow> scrubbed_step r \<or>
      (operation_state d k = Some OpCompleted \<and> get_step d sid = Some r)"
  shows "clean d'"
  using assms unfolding clean_def by blast

lemma operation_state_frames [simp]:
  "operation_state (put_step s f d) k = operation_state d k"
  "operation_state (put_effect s e d) k = operation_state d k"
  "operation_state (save_step now s f d) k = operation_state d k"
  "operation_state (scrub_side_effect_payloads now s d) k = operation_state d k"
  "operation_state (scrub_completed_operation now s d) k = operation_state d k"
  "operation_state (effects_update g d) k = operation_state d k"
  "operation_state (deliveries_update g' d) k = operation_state d k"
  "operation_state (usages_update g'' d) k = operation_state d k"
  "operation_state (steps_update g''' d) k = operation_state d k"
  by (simp_all add: operation_state_def)

lemma operation_state_put [table_simps]:
  "(\<And>r. op_id (f r) = op_id r) \<Longrightarrow>
    operation_state (put_operation s f d) k =
      (if k = s then map_option (\<lambda>r. op_status (f r)) (get_operation d s) else operation_state d k)"
  by (simp add: operation_state_def get_put_operation option.map_comp o_def)

lemma operation_state_save [table_simps]:
  assumes "\<And>r. op_id (f r) = op_id r"
  shows "operation_state (save_operation now s f d) k =
      (if k = s then map_option (\<lambda>r. op_status (f r)) (get_operation d s) else operation_state d k)"
  unfolding save_operation_def
  by (simp add: operation_state_put assms) (auto intro: option.map_cong)

lemma clean_claims:
  assumes "clean d"
  shows "clean (snd (claim_character_operation h id id now s source dep d))"
    and "clean (snd (claim_social_operation now c d))"
proof -
  have ins: "op_status r = OpActive \<Longrightarrow> clean (d\<lparr>operations := tins r (operations d)\<rparr>)" for r
    by (rule cleanI [OF assms]) (auto simp: operation_state_def tget_tins split: option.splits if_splits)
  have res: "op_id (resume_operation now r) = op_id r" "op_status (resume_operation now r) = op_status r" for r
    by (simp_all add: resume_operation_def)
  have put: "clean (put_operation k (resume_operation now) d)" for k
    by (rule cleanI [OF assms]) (auto simp: operation_state_put res operation_state_def [of d] split: if_splits)
  show "clean (snd (claim_character_operation h id id now s source dep d))"
    using assms ins put
    by (auto simp: claim_character_operation_def resume_character_operation_def Let_def
        new_character_operation_def split: option.split)
  show "clean (snd (claim_social_operation now c d))"
    using assms ins put
    by (auto simp: claim_social_operation_def Let_def new_social_operation_def split: option.split)
qed

lemma reserve_operation_state:
  "operation_state (snd (reserve_generation_attempt now r d)) k = operation_state d k
    \<or> operation_state (snd (reserve_generation_attempt now r d)) k = Some OpFailed"
  by (auto simp: reserve_generation_attempt_def Let_def operation_state_save operation_state_def [of d]
      split: sum.split)

lemma prepare_operation_state:
  "operation_state (snd (prepare_social_step h now operation index dep hash d)) k
    \<in> {operation_state d k, Some OpFailed}"
proof -
  have rsv: "operation_state d' k = operation_state d k \<or> operation_state d' k = Some OpFailed"
    if "reserve_generation_attempt now r d = (res, d')" for r res d'
    using reserve_operation_state [of now r d k] that by simp
  show ?thesis
    by (cases rule: prepare_cases [of h now operation index dep hash d]) (auto dest: rsv)
qed

lemma clean_prepare: "clean d \<Longrightarrow> clean (snd (prepare_social_step h now operation index dep hash d))"
proof (rule cleanI, assumption)
  fix k sid x
  let ?d' = "snd (prepare_social_step h now operation index dep hash d)"
  assume "operation_state ?d' k = Some OpCompleted" and row: "get_step ?d' sid = Some x"
    and fin: "finished_step k x"
  with prepare_operation_state [of h now operation index dep hash d k]
  have "operation_state d k = Some OpCompleted" by auto
  with prepare_rows [OF row] fin
  show "scrubbed_step x \<or> (operation_state d k = Some OpCompleted \<and> get_step d sid = Some x)"
    by (auto simp: finished_step_def)
qed

lemma fail_operation_state:
  "operation_state (fail_social_step now sid err d) k \<in> {operation_state d k, Some OpActive}"
proof (cases "get_step d sid")
  case (Some st)
  show ?thesis
  proof (cases "k = st_operation_id st")
    case True
    with Some show ?thesis
      by (cases "get_operation d k") (simp_all add: fail_social_step_def operation_state_save,
          simp_all add: operation_state_def)
  next
    case False
    with Some show ?thesis by (simp add: fail_social_step_def operation_state_save)
  qed
qed (simp add: fail_social_step_def)

lemma fail_rows: "sid' \<noteq> sid \<Longrightarrow> get_step (fail_social_step now sid err d) sid' = get_step d sid'"
  by (simp add: fail_social_step_def get_save_step split: option.split)

lemma clean_fail: "clean d \<Longrightarrow> clean (fail_social_step now sid err d)"
proof (rule cleanI, assumption)
  fix k sid' x
  assume fin_op: "operation_state (fail_social_step now sid err d) k = Some OpCompleted"
    and row: "get_step (fail_social_step now sid err d) sid' = Some x" and fin: "finished_step k x"
  from row have "step_state (fail_social_step now sid err d) sid' = Some (st_status x)"
    by (simp add: step_state_def)
  with fin have "sid' \<noteq> sid"
    by (auto simp: fail_step_steps finished_step_def)
  with row have "get_step d sid' = Some x" by (simp add: fail_rows)
  moreover have "operation_state d k = Some OpCompleted"
    using fin_op fail_operation_state [of now sid err d k] by auto
  ultimately show "scrubbed_step x \<or> (operation_state d k = Some OpCompleted \<and> get_step d sid' = Some x)"
    by simp
qed

text \<open>An advance that finishes an operation scrubs its steps; the others are as clean as before.\<close>

lemma scrubbed_row_clean: "finished_step k (scrubbed_row now k r) \<Longrightarrow> scrubbed_step (scrubbed_row now k r)"
  by (auto simp: scrubbed_row_def scrubbed_step_def finished_step_def)

lemma scrubbed_row_other: "k' \<noteq> k \<Longrightarrow> finished_step k' (scrubbed_row now k r) \<Longrightarrow> scrubbed_row now k r = r"
proof -
  assume "k' \<noteq> k" and "finished_step k' (scrubbed_row now k r)"
  then have "\<not> finished_step k r" by (simp add: finished_step_def)
  then show ?thesis by (simp add: scrubbed_row_def)
qed

lemma operation_state_advance:
  "operation_state (advance_operation now k cursor d) k' =
    (if k' = k then map_option (\<lambda>_. if cursor_done cursor then OpCompleted else OpActive) (operation_state d k)
     else operation_state d k')"
  by (cases "get_operation d k") (auto simp: operation_state_def get_advance_operation)

lemma advance_clean:
  assumes "\<And>k' sid x. k' \<noteq> k \<Longrightarrow> operation_state d k' = Some OpCompleted \<Longrightarrow>
      get_step d sid = Some x \<Longrightarrow> finished_step k' x \<Longrightarrow> scrubbed_step x"
  shows "clean (advance_operation now k cursor d)"
  unfolding clean_def
proof (intro allI impI)
  fix k' sid x
  assume st: "operation_state (advance_operation now k cursor d) k' = Some OpCompleted"
    and row: "get_step (advance_operation now k cursor d) sid = Some x" and fin: "finished_step k' x"
  show "scrubbed_step x"
  proof (cases "k' = k")
    case True
    with st have "cursor_done cursor"
      by (auto simp: operation_state_advance split: if_splits)
    with row True fin show ?thesis
      by (auto simp: advance_operation_table dest: scrubbed_row_clean)
  next
    case False
    from row obtain y where y: "get_step d sid = Some y" "x = y \<or> x = scrubbed_row now k y"
      by (auto simp: advance_operation_table split: if_splits)
    with fin False have "x = y" by (auto dest: scrubbed_row_other)
    with y st False fin show ?thesis
      by (intro assms [of k' sid]) (simp_all add: operation_state_advance)
  qed
qed

lemma clean_operations_cong:
  assumes "clean d" and "\<And>k. operation_state d' k = operation_state d k" and "steps d' = steps d"
  shows "clean d'"
  using assms by (simp add: clean_def)

lemma clean_put_step:
  assumes "clean d" and "\<And>r. st_id (f r) = st_id r"
    and "\<And>r. get_step d s = Some r \<Longrightarrow> st_status (f r) \<notin> {Delivered, Silent}"
  shows "clean (put_step s f d)"
proof (rule cleanI [OF assms(1)])
  fix k sid x
  assume "operation_state (put_step s f d) k = Some OpCompleted"
    and "get_step (put_step s f d) sid = Some x" and "finished_step k x"
  with assms(3) show "scrubbed_step x \<or> (operation_state d k = Some OpCompleted \<and> get_step d sid = Some x)"
    by (auto simp: get_put_step assms(2) finished_step_def split: if_splits)
qed

lemma clean_put_operation:
  assumes "clean d" and "\<And>r. op_id (f r) = op_id r"
    and "\<And>r. op_status (f r) \<in> {op_status r, OpActive, OpAwaitingDelivery, OpUncertain, OpFailed}"
  shows "clean (put_operation s f d)"
proof (rule cleanI [OF assms(1)])
  fix k sid x
  assume st: "operation_state (put_operation s f d) k = Some OpCompleted"
    and "get_step (put_operation s f d) sid = Some x"
  moreover have "operation_state d k = Some OpCompleted"
  proof (cases "k = s")
    case True
    with st obtain r where "get_operation d k = Some r" "op_status (f r) = OpCompleted"
      by (auto simp: operation_state_put assms(2))
    with assms(3) [of r] show ?thesis by (simp add: operation_state_def)
  next
    case False
    with st show ?thesis by (simp add: operation_state_put assms(2))
  qed
  ultimately show "scrubbed_step x \<or> (operation_state d k = Some OpCompleted \<and> get_step d sid = Some x)"
    by simp
qed

lemma clean_save_operation:
  "clean d \<Longrightarrow> (\<And>r. op_id (f r) = op_id r) \<Longrightarrow>
    (\<And>r. op_status (f r) \<in> {op_status r, OpActive, OpAwaitingDelivery, OpUncertain, OpFailed}) \<Longrightarrow>
    clean (save_operation now s f d)"
  unfolding save_operation_def by (rule clean_put_operation) auto

lemma clean_scrub_response:
  assumes "clean d"
  shows "clean (put_step s (\<lambda>r. r\<lparr>st_response := empty_object\<rparr>) d)"
  unfolding clean_def
proof (intro allI impI)
  fix k sid x
  let ?d' = "put_step s (\<lambda>r. r\<lparr>st_response := empty_object\<rparr>) d"
  assume st: "operation_state ?d' k = Some OpCompleted" and row: "get_step ?d' sid = Some x"
    and fin: "finished_step k x"
  from row obtain y where "get_step d sid = Some y" "x = y \<or> x = y\<lparr>st_response := empty_object\<rparr>"
    by (auto simp: get_put_step split: if_splits)
  moreover from this fin have "finished_step k y" by (auto simp: finished_step_def)
  moreover have "operation_state d k = Some OpCompleted" using st by simp
  ultimately show "scrubbed_step x"
    using assms by (auto simp: clean_def scrubbed_step_def)
qed

text \<open>A step written for the operation that is then advanced.\<close>

lemma advance_after_put_clean:
  assumes "clean d" and "\<And>r. st_id (f r) = st_id r" and "\<And>r. st_operation_id (f r) = st_operation_id r"
    and "get_step d s = Some st" and "st_operation_id st = k"
  shows "clean (advance_operation now k cursor (put_step s f d))"
proof (rule advance_clean)
  fix k' sid x
  assume k': "k' \<noteq> k" and st: "operation_state (put_step s f d) k' = Some OpCompleted"
    and row: "get_step (put_step s f d) sid = Some x" and fin: "finished_step k' x"
  have "sid \<noteq> s"
  proof
    assume "sid = s"
    with row assms have "x = f st" by (simp add: get_put_step)
    with fin assms k' show False by (simp add: finished_step_def)
  qed
  with row have "get_step d sid = Some x" by (simp add: get_put_step assms(2))
  moreover have "operation_state d k' = Some OpCompleted" using st by simp
  ultimately show "scrubbed_step x"
    using assms(1) fin unfolding clean_def by blast
qed

lemma clean_frames [simp]:
  "clean (effects_update e d) = clean d" "clean (deliveries_update f d) = clean d"
  "clean (usages_update g d) = clean d" "clean (scrub_side_effect_payloads now s d) = clean d"
  "clean (put_effect k p d) = clean d"
  by (simp_all add: clean_def)

lemma clean_complete_generation:
  assumes "clean d"
  shows "clean (snd (complete_social_step_generation now sid response cursor required d))"
proof (cases "get_step d sid")
  case st: (Some st)
  show ?thesis
  proof (cases "get_operation d (st_operation_id st)")
    case r: (Some r)
    then have k: "op_id r = st_operation_id st" by (rule tget_key)
    show ?thesis
    proof (cases required)
      case True
      with st r k assms show ?thesis
        by (auto simp: complete_social_step_generation_def Let_def split: option.split
            intro!: clean_save_operation clean_put_step)
    next
      case False
      have "clean (advance_operation now (op_id r) cursor
          (put_step sid (\<lambda>r. r\<lparr>st_response := response, st_cursor := cursor, st_status := Silent,
             st_updated_at := now\<rparr>) d))"
        by (rule advance_after_put_clean [OF assms _ _ st]) (simp_all add: k)
      with False st r k show ?thesis
        by (auto simp: complete_social_step_generation_def Let_def split: option.split
            intro!: clean_save_operation)
    qed
  qed (use st assms in \<open>simp add: complete_social_step_generation_def\<close>)
qed (use assms in \<open>simp add: complete_social_step_generation_def\<close>)

lemma clean_claim_delivery:
  "clean d \<Longrightarrow> clean (snd (claim_delivery v id now operation sid nonce d))"
  by (auto simp: claim_delivery_def settle_claim_def split: option.split
      intro!: clean_put_operation clean_put_step)

lemma clean_settle_delivery:
  assumes "clean d" and "get_step d (ak_step_id a) = Some st" and "st_operation_id st = op_id r"
  shows "clean (settle_delivery now a cursor r d)"
proof -
  let ?d1 = "put_step (ak_step_id a) (acknowledged_step now a cursor) d"
  let ?f = "\<lambda>r. r\<lparr>op_sources := record_source (ak_deployment_id a) (ak_outgoing_text a) (ak_sent_ids a) (op_sources r)\<rparr>"
  have comm: "put_operation k f (put_step s g x) = put_step s g (put_operation k f x)"
    for k f s g and x :: "'a runtime_db_scheme"
    by (simp add: put_operation_def put_step_def)
  have d2: "clean (advance_operation now (op_id r) cursor
      (if ak_sent_ids a = [] then ?d1 else put_operation (op_id r) ?f ?d1))"
  proof (cases "ak_sent_ids a = []")
    case True
    with advance_after_put_clean [OF assms(1) _ _ assms(2,3), of "acknowledged_step now a cursor"]
    show ?thesis by simp
  next
    case False
    have "clean (put_operation (op_id r) ?f d)"
      by (rule clean_put_operation [OF assms(1)]) simp_all
    from advance_after_put_clean [OF this, of "acknowledged_step now a cursor" "ak_step_id a" st "op_id r"]
    have "clean (advance_operation now (op_id r) cursor
        (put_step (ak_step_id a) (acknowledged_step now a cursor) (put_operation (op_id r) ?f d)))"
      using assms by simp
    with False show ?thesis by (simp add: comm)
  qed
  show ?thesis
    using d2 unfolding settle_delivery_def Let_def
    by (auto intro!: clean_put_operation clean_scrub_response)
qed

lemma clean_acknowledge: "clean d \<Longrightarrow> clean (snd (acknowledge_delivery h now a d))"
proof (cases rule: acknowledge_cases [of h now a d])
  case (settled st r links uses)
  assume "clean d"
  moreover have "op_id r = ak_operation_id a" using settled(2) by (rule tget_key)
  ultimately show ?thesis
    using settled(1,3) unfolding settled(8)
    by (intro clean_settle_delivery [of _ a st]) (simp_all add: owns_claim_def)
qed simp

lemma clean_mark_uncertain:
  "clean d \<Longrightarrow> clean (snd (mark_delivery_uncertain h now operation sid nonce err sent d))"
  by (auto simp: mark_delivery_uncertain_def Let_def split: option.split sum.split
      intro!: clean_put_operation clean_put_step)

lemma clean_recover:
  assumes "clean d"
  shows "clean (snd (recover_interrupted now d))"
proof -
  have int: "clean x \<Longrightarrow> v \<noteq> OpCompleted \<Longrightarrow> clean (interrupt_operation now v err k x)"
    for v err k and x :: "'a runtime_db_scheme"
    unfolding interrupt_operation_def by (rule clean_put_operation) (auto intro: operation_status.exhaust [of v])
  have fold: "(\<And>st x. clean x \<Longrightarrow> clean (f st x)) \<Longrightarrow> clean x \<Longrightarrow> clean (fold f xs x)"
    for f :: "runtime_step \<Rightarrow> 'a runtime_db_scheme \<Rightarrow> 'a runtime_db_scheme" and xs x
    by (induction xs arbitrary: x) simp_all
  have gen: "clean x \<Longrightarrow> clean (recover_generating now st x)" for st and x :: "'a runtime_db_scheme"
    by (auto simp: recover_generating_def split: option.split intro!: int clean_put_step)
  have ref: "clean x \<Longrightarrow> clean (recover_refreshing now st x)" for st and x :: "'a runtime_db_scheme"
    by (auto simp: recover_refreshing_def intro!: int clean_put_step)
  have cla: "clean x \<Longrightarrow> clean (recover_claimed now st x)" for st and x :: "'a runtime_db_scheme"
    by (auto simp: recover_claimed_def intro!: int clean_put_step)
  show ?thesis
    using assms by (simp add: recover_interrupted_def Let_def) (intro fold gen ref cla)
qed

lemma clean_effects:
  assumes "clean d"
  shows "clean (snd (claim_side_effect h now operation sid dep tool arguments d))"
    and "clean (complete_side_effect now k content trace d)"
    and "clean (release_side_effect_claim k d)"
  using assms
  by (auto simp: claim_side_effect_def complete_side_effect_def release_side_effect_claim_def Let_def
      split: option.split)

lemma clean_delete_operations:
  assumes "runtime_keys d" "clean d"
  shows "clean (delete_operations old ids d)"
proof (rule cleanI [OF assms(2)])
  fix k sid r
  assume "operation_state (delete_operations old ids d) k = Some OpCompleted"
    and "get_step (delete_operations old ids d) sid = Some r"
  then show "scrubbed_step r \<or> (operation_state d k = Some OpCompleted \<and> get_step d sid = Some r)"
    by (auto simp: operation_state_def delete_operations_tables [OF assms(1)] split: option.splits if_splits)
qed

lemma run_command_clean: "runtime_keys d \<Longrightarrow> clean d \<Longrightarrow> clean (run_command h v c d)"
  by (cases c)
    (simp_all add: clean_delete_operations clean_claims clean_prepare clean_fail clean_complete_generation clean_claim_delivery
      clean_acknowledge clean_mark_uncertain clean_effects clean_recover)

definition runtime_ok :: "'a runtime_db_scheme \<Rightarrow> bool" where
  "runtime_ok d \<longleftrightarrow> runtime_keys d \<and> clean d"

interpretation runtime: invariant_system "run_command h v" runtime_ok
  by unfold_locales (simp add: runtime_ok_def run_command_keys run_command_clean)

interpretation publication: rearmed_grant "run_command h v" "claims_step h v sid" "claimable sid"
    "renews_step sid" runtime_keys
proof unfold_locales
  show "runtime_keys d \<Longrightarrow> runtime_keys (run_command h v c d)" for c and d :: "'a runtime_db_scheme"
    by (rule run_command_keys)
  show "claims_step h v sid c d \<Longrightarrow> claimable sid d" for c and d :: "'a runtime_db_scheme"
    by (drule claims_generated) (simp add: claimable_def)
  show "runtime_keys d \<Longrightarrow> claims_step h v sid c d \<Longrightarrow> \<not> claimable sid (run_command h v c d)"
    for c and d :: "'a runtime_db_scheme"
    by (rule claim_closes)
  show "runtime_keys d \<Longrightarrow> \<not> claimable sid d \<Longrightarrow> \<not> renews_step sid c d \<Longrightarrow> \<not> claimable sid (run_command h v c d)"
    for c and d :: "'a runtime_db_scheme"
    by (rule stays_unclaimable)
  show "renews_step sid c d \<Longrightarrow> \<not> claims_step h v sid c d" for c and d :: "'a runtime_db_scheme"
    by (cases c) auto
qed

section \<open>At most one generation between failures\<close>

fun generates_step :: "digests \<Rightarrow> string \<Rightarrow> runtime_command \<Rightarrow> 'a runtime_db_scheme \<Rightarrow> bool" where
  "generates_step h sid (PrepareStep now operation index dep hash) d =
     (social_step_id h operation index dep = sid
      \<and> executes (prepare_social_step h now operation index dep hash d))"
| "generates_step h sid _ d = False"

fun reopens_step :: "string \<Rightarrow> runtime_command \<Rightarrow> 'a runtime_db_scheme \<Rightarrow> bool" where
  "reopens_step sid (FailStep now s err) d = (s = sid)"
| "reopens_step sid (Recover now) d = (step_state d sid \<in> {Some Generating, Some Refreshing})"
| "reopens_step sid (DeleteOperations old step_ids) d =
     (get_step d sid \<noteq> None \<and> get_step (delete_operations old step_ids d) sid = None)"
| "reopens_step sid _ d = False"

definition ungenerated :: "string \<Rightarrow> 'a runtime_db_scheme \<Rightarrow> bool" where
  "ungenerated sid d \<longleftrightarrow> step_state d sid \<in> {None, Some StepFailed}"

lemma complete_generation_state:
  "step_state (snd (complete_social_step_generation now sid response cursor required d)) sid' = step_state d sid'
    \<or> (sid' = sid \<and> step_state d sid \<noteq> None
       \<and> step_state (snd (complete_social_step_generation now sid response cursor required d)) sid'
           = Some (if required then Generated else Silent))"
  by (auto simp: complete_social_step_generation_def Let_def step_state_put split: option.split)
    (auto simp: step_state_def)

lemma stays_generated:
  assumes "\<not> ungenerated sid d" and "\<not> reopens_step sid c d" and keys: "runtime_keys d"
  shows "\<not> ungenerated sid (run_command h v c d)"
proof (cases c)
  case (PrepareStep now operation index dep hash)
  with assms(1) prepare_step_state [of h now operation index dep hash d] show ?thesis
    by (auto simp: ungenerated_def)
next
  case (FailStep now s err)
  with assms show ?thesis by (simp add: ungenerated_def fail_step_steps)
next
  case (CompleteGeneration now s response cursor required)
  with assms(1) complete_generation_state [of now s response cursor required d sid] show ?thesis
    by (auto simp: ungenerated_def split: if_splits)
next
  case (ClaimDelivery now operation s nonce)
  with assms(1) claim_delivery_steps [of v now operation s nonce d sid] show ?thesis
    by (auto simp: ungenerated_def split: if_splits)
next
  case (Acknowledge now a)
  with assms(1) acknowledge_steps [of h now a d sid] show ?thesis
    by (auto simp: ungenerated_def split: if_splits)
next
  case (MarkUncertain now operation s nonce err sent)
  with assms(1) mark_uncertain_steps [of h now operation s nonce err sent d sid] show ?thesis
    by (auto simp: ungenerated_def)
next
  case (Recover now)
  with assms recover_steps [OF keys, of now sid] show ?thesis
    by (cases "get_step d sid")
      (auto simp: ungenerated_def step_state_def recovered_status_def split: step_status.splits)
next
  case (DeleteOperations old ids)
  with assms show ?thesis
    by (auto simp: ungenerated_def step_state_def delete_operations_tables(1) [OF keys] split: option.splits if_splits)
qed (use assms in \<open>simp_all add: ungenerated_def step_state_def\<close>)

interpretation generation: rearmed_grant "run_command h v" "generates_step h sid" "ungenerated sid"
    "reopens_step sid" runtime_keys
proof unfold_locales
  show "runtime_keys d \<Longrightarrow> runtime_keys (run_command h v c d)" for c and d :: "'a runtime_db_scheme"
    by (rule run_command_keys)
  show "generates_step h sid c d \<Longrightarrow> ungenerated sid d" for c and d :: "'a runtime_db_scheme"
    by (cases c) (auto simp: ungenerated_def dest: prepare_step_state(2))
  show "generates_step h sid c d \<Longrightarrow> \<not> ungenerated sid (run_command h v c d)" for c and d :: "'a runtime_db_scheme"
    by (cases c) (auto simp: ungenerated_def prepare_step_state(1))
  show "runtime_keys d \<Longrightarrow> \<not> ungenerated sid d \<Longrightarrow> \<not> reopens_step sid c d \<Longrightarrow> \<not> ungenerated sid (run_command h v c d)"
    for c and d :: "'a runtime_db_scheme"
    by (rule stays_generated)
  show "reopens_step sid c d \<Longrightarrow> \<not> generates_step h sid c d" for c and d :: "'a runtime_db_scheme"
    by (cases c) auto
qed

section \<open>At most one side effect\<close>

fun runs_effect :: "digests \<Rightarrow> string \<Rightarrow> runtime_command \<Rightarrow> 'a runtime_db_scheme \<Rightarrow> bool" where
  "runs_effect h k (ClaimEffect now operation sid dep tool arguments) d =
     (effect_slot h operation sid dep = k
      \<and> er_claim (fst (claim_side_effect h now operation sid dep tool arguments d)) = EffectGranted)"
| "runs_effect h k _ d = False"

fun releases_effect :: "string \<Rightarrow> runtime_command \<Rightarrow> 'a runtime_db_scheme \<Rightarrow> bool" where
  "releases_effect k (ReleaseEffect k') d = (k' = k)"
| "releases_effect k (DeleteOperations old step_ids) d =
     (get_effect d k \<noteq> None \<and> get_effect (delete_operations old step_ids d) k = None)"
| "releases_effect k _ d = False"

definition unclaimed :: "string \<Rightarrow> 'a runtime_db_scheme \<Rightarrow> bool" where
  "unclaimed k d \<longleftrightarrow> get_effect d k = None"

lemma unclaimed_status: "unclaimed k d \<longleftrightarrow> map_option se_status (get_effect d k) = None"
  by (simp add: unclaimed_def)

lemma unclaimed_frames [simp]:
  "unclaimed k (put_operation s f d) = unclaimed k d" "unclaimed k (put_step s g d) = unclaimed k d"
  "unclaimed k (save_operation now s f d) = unclaimed k d" "unclaimed k (save_step now s g d) = unclaimed k d"
  "unclaimed k (scrub_side_effect_payloads now s d) = unclaimed k d"
  "unclaimed k (advance_operation now s cursor d) = unclaimed k d"
  "unclaimed k (operations_update e d) = unclaimed k d" "unclaimed k (deliveries_update e1 d) = unclaimed k d"
  "unclaimed k (usages_update e2 d) = unclaimed k d" "unclaimed k (steps_update e3 d) = unclaimed k d"
  by (simp_all only: unclaimed_status table_simps put_frames save_frames) simp_all

lemma unclaimed_effects_cong: "effects d' = effects d \<Longrightarrow> unclaimed k d' = unclaimed k d"
  by (simp add: unclaimed_def)

lemma unclaimed_prepare [simp]:
  "unclaimed k (snd (prepare_social_step h now operation index dep hash d)) = unclaimed k d"
proof -
  have rsv: "effects d' = effects d" if "reserve_generation_attempt now r d = (res, d')" for r res d'
    using reserve_frames(2) [of now r d] that by simp
  show ?thesis
    by (cases rule: prepare_cases [of h now operation index dep hash d])
      (auto dest: rsv simp: unclaimed_def)
qed

lemma unclaimed_settle [simp]: "unclaimed k (settle_delivery now a cursor r d) = unclaimed k d"
  by (simp add: settle_delivery_def Let_def)

lemma unclaimed_recover [simp]: "unclaimed k (snd (recover_interrupted now d)) = unclaimed k d"
proof -
  note facts = recover_generating_facts recover_refreshing_facts recover_claimed_facts
  show ?thesis
    by (auto simp: recover_interrupted_def Let_def unclaimed_def tget_tset fold_recover_frames facts)
qed

lemma stays_claimed:
  assumes "\<not> unclaimed k d" and "\<not> releases_effect k c d"
  shows "\<not> unclaimed k (run_command h v c d)"
proof (cases c)
  case (Acknowledge now a)
  with assms show ?thesis
    by (cases rule: acknowledge_cases [of h now a d]) simp_all
next
  case (ClaimEffect now operation s dep tool arguments)
  with assms show ?thesis
    by (auto simp: claim_side_effect_def unclaimed_def Let_def tget_tins split: option.splits)
next
  case (CompleteEffect now k' content trace)
  with assms show ?thesis
    by (auto simp: complete_side_effect_def unclaimed_def get_put_effect)
next
  case (ReleaseEffect k')
  have del: "k' \<noteq> k \<Longrightarrow> tget se_key (tdel (\<lambda>e. se_key e = k' \<and> se_status e = EffectClaimed) t) k = tget se_key t k"
    for t
    by (induction t) (auto simp: tdel_def)
  from ReleaseEffect assms show ?thesis
    by (auto simp: release_side_effect_claim_def unclaimed_def del)
next
  case (DeleteOperations old ids)
  with assms show ?thesis by (simp add: unclaimed_def)
qed (use assms in \<open>auto simp: claim_character_operation_def resume_character_operation_def
    claim_social_operation_def fail_social_step_def complete_social_step_generation_def
    claim_delivery_def settle_claim_def mark_delivery_uncertain_def Let_def
    split: option.split sum.split\<close>)

interpretation side_effect: rearmed_grant "run_command h v" "runs_effect h k" "unclaimed k"
    "releases_effect k" "\<lambda>_. True"
proof unfold_locales
  show "runs_effect h k c d \<Longrightarrow> unclaimed k d" for c and d :: "'a runtime_db_scheme"
    by (cases c) (auto simp: unclaimed_def claim_side_effect_def Let_def split: option.splits if_splits)
  show "runs_effect h k c d \<Longrightarrow> \<not> unclaimed k (run_command h v c d)" for c and d :: "'a runtime_db_scheme"
    by (cases c) (auto simp: unclaimed_def claim_side_effect_def Let_def tget_tins split: option.splits if_splits)
  show "\<not> unclaimed k d \<Longrightarrow> \<not> releases_effect k c d \<Longrightarrow> \<not> unclaimed k (run_command h v c d)"
    for c and d :: "'a runtime_db_scheme"
    by (rule stays_claimed)
  show "releases_effect k c d \<Longrightarrow> \<not> runs_effect h k c d" for c and d :: "'a runtime_db_scheme"
    by (cases c) auto
qed simp

section \<open>The generation budget\<close>

text \<open>The connector's retries of one operation: preparations, and failures of what they opened.\<close>

datatype retry = Attempt time int string string | Abandon time string string

fun run_retry :: "digests \<Rightarrow> string \<Rightarrow> retry \<Rightarrow> 'a runtime_db_scheme \<Rightarrow> 'a runtime_db_scheme" where
  "run_retry h k (Attempt now index dep hash) d = snd (prepare_social_step h now k index dep hash d)"
| "run_retry h k (Abandon now sid err) d = fail_social_step now sid err d"

fun attempts_generation :: "digests \<Rightarrow> string \<Rightarrow> retry \<Rightarrow> 'a runtime_db_scheme \<Rightarrow> bool" where
  "attempts_generation h k (Attempt now index dep hash) d =
     executes (prepare_social_step h now k index dep hash d)"
| "attempts_generation h k (Abandon now sid err) d = False"

interpretation budget: metered "run_retry h k" "attempts_generation h k" "\<lambda>d. nat (used_attempts k d)" 12
    "\<lambda>d. 0 \<le> used_attempts k d" "\<lambda>_. True"
proof unfold_locales
  fix c and d :: "'a runtime_db_scheme"
  assume ok: "0 \<le> used_attempts k d"
  have step: "(if attempts_generation h k c d
      then used_attempts k d < 12 \<and> used_attempts k (run_retry h k c d) = used_attempts k d + 1
      else used_attempts k (run_retry h k c d) = used_attempts k d)"
    using prepare_attempts [of h _ k _ _ _ d] by (cases c) simp_all
  show "0 \<le> used_attempts k (run_retry h k c d)"
    using ok step by (simp split: if_splits)
  show "nat (used_attempts k d) \<le> nat (used_attempts k (run_retry h k c d))"
    using ok step by (simp split: if_splits)
  show "nat (used_attempts k d) < 12 \<and> nat (used_attempts k (run_retry h k c d)) = Suc (nat (used_attempts k d))"
    if "attempts_generation h k c d"
    using ok step that by (auto simp: nat_add_distrib)
qed

section \<open>Examples\<close>

text \<open>One room event: its Character turn is claimed, generated, published and acknowledged.\<close>

definition demo_digests :: digests where
  "demo_digests = \<lparr>sha_text = (\<lambda>s. s), sha_scope = sc_channel_id, sha_ids = join ''/''\<rparr>"

definition demo_place :: room_scope where
  "demo_place = \<lparr>sc_owner_id = ''o'', sc_connection_id = ''c'', sc_guild_id = ''g'',
                 sc_channel_id = ''ch'', sc_thread_id = []\<rparr>"

definition demo_operation :: string where
  "demo_operation = character_operation_id demo_digests demo_place ''m1'' ''ann''"

definition demo_step :: string where
  "demo_step = social_step_id demo_digests demo_operation 0 ''ann''"

definition demo_cursor_text :: json_text where
  "demo_cursor_text = dumps (JObj [(''pending_turns'', JArr [])])"

definition demo_response :: json_text where
  "demo_response = dumps (JObj [(''context_trace'', JObj [(''source_target_message_id'', JStr ''m1'')])])"

definition demo_ack :: delivery_ack where
  "demo_ack = \<lparr>ak_operation_id = demo_operation, ak_step_id = demo_step, ak_claim_nonce = ''n1'',
     ak_cursor = demo_cursor_text, ak_sent_ids = [''d1''], ak_outgoing_text = ''hi'',
     ak_applied = False, ak_deployment_id = ''ann''\<rparr>"

definition demo_db :: runtime_db where
  "demo_db = \<lparr>operations = [], steps = [], effects = [], deliveries = [], usages = []\<rparr>"

definition demo_generation :: "runtime_command list" where
  "demo_generation =
     [ClaimCharacter 1 demo_place ''m1'' ''ann'', PrepareStep 2 demo_operation 0 ''ann'' ''q'',
      CompleteGeneration 3 demo_step demo_response demo_cursor_text True]"

definition demo_run :: "runtime_command list" where
  "demo_run = demo_generation @
     [ClaimDelivery 4 demo_operation demo_step ''n1'', Acknowledge 5 demo_ack,
      ClaimDelivery 6 demo_operation demo_step ''n2'']"

definition demo_command :: "runtime_command \<Rightarrow> runtime_db \<Rightarrow> runtime_db" where
  "demo_command = run_command demo_digests (\<lambda>_ _. None)"

lemmas demo_defs = demo_digests_def demo_scope_def demo_operation_def demo_step_def
  demo_cursor_text_def demo_response_def demo_ack_def demo_db_def demo_generation_def demo_run_def
  demo_command_def

lemma demo_ok: "runtime_ok demo_db"
  by (simp add: demo_db_def runtime_ok_def runtime_keys_def clean_def)

section \<open>Properties\<close>

text \<open>C1. A generated answer is published under one claim. Over any run of the operations of the durable
  repository, retention included, the grants of a step's publication to a nonce that does not already hold
  the claim number at most one, if the step can still be claimed, plus one for each time a generation of it
  failed or completed anew, or retention deleted its row: no second publisher is ever told to publish the
  same answer.\<close>

theorem publication_claimed_once:
  assumes "runtime_keys d"
  shows "grant_count (run_command h v) (claims_step h v sid) cs d
    \<le> (if claimable sid d then 1 else 0) + grant_count (run_command h v) (renews_step sid) cs d"
  by (rule publication.grants_rearmed [OF assms])

theorem publication_claimed_once_witness:
  "grant_count demo_command (claims_step demo_digests (\<lambda>_ _. None) demo_step) demo_run demo_db = 1
   \<and> grant_count demo_command (claims_step demo_digests (\<lambda>_ _. None) demo_step) demo_run demo_db
     \<le> 1 + grant_count demo_command (renews_step demo_step) demo_run demo_db"
proof
  show "grant_count demo_command (claims_step demo_digests (\<lambda>_ _. None) demo_step) demo_run demo_db = 1"
    by code_simp
  have "runtime_keys demo_db" using demo_ok by (simp add: runtime_ok_def)
  from publication_claimed_once [OF this, of demo_digests "\<lambda>_ _. None" demo_step demo_run]
  show "grant_count demo_command (claims_step demo_digests (\<lambda>_ _. None) demo_step) demo_run demo_db
     \<le> 1 + grant_count demo_command (renews_step demo_step) demo_run demo_db"
    by (simp add: demo_command_def split: if_splits)
qed

text \<open>C3. A tool with a side effect runs at most once per slot of a step: over any run of the operations of
  the durable repository, retention included, the executions granted for a slot are at most one, if it has
  no row, plus one for each release of the claim before the tool ran and each deletion of its row by
  retention.\<close>

theorem side_effect_runs_once:
  "grant_count (run_command h v) (runs_effect h k) cs d
    \<le> (if unclaimed k d then 1 else 0) + grant_count (run_command h v) (releases_effect k) cs d"
  by (rule side_effect.grants_rearmed) (rule TrueI)

text \<open>C7. A step is generated at most once, plus once for each recorded failure of it, each restart that
  finds it being generated or refreshed, and each deletion of its row by retention: over any run of the
  operations of the durable repository, a retry of the connector never runs the model a second time.\<close>

theorem generation_runs_once:
  assumes "runtime_keys d"
  shows "grant_count (run_command h v) (generates_step h sid) cs d
    \<le> (if ungenerated sid d then 1 else 0) + grant_count (run_command h v) (reopens_step sid) cs d"
  by (rule generation.grants_rearmed [OF assms])

theorem generation_runs_once_witness:
  "grant_count demo_command (generates_step demo_digests demo_step) demo_run demo_db \<le> 1"
proof -
  have "runtime_keys demo_db" using demo_ok by (simp add: runtime_ok_def)
  from generation_runs_once [OF this, of demo_digests "\<lambda>_ _. None" demo_step demo_run]
  have "grant_count demo_command (generates_step demo_digests demo_step) demo_run demo_db
    \<le> 1 + grant_count demo_command (reopens_step demo_step) demo_run demo_db"
    by (simp add: demo_command_def split: if_splits)
  moreover have "grant_count demo_command (reopens_step demo_step) demo_run demo_db = 0" by code_simp
  ultimately show ?thesis by simp
qed

text \<open>Retention forgets nothing that is under way: what it deletes belongs to an operation that has ended.\<close>

lemma retention_spares_claims:
  assumes "runtime_keys d" "get_step d (se_step_id e) = Some st" "get_effect d k = Some e"
    and "se_status e = EffectClaimed \<or> se_status e = EffectUncertain"
  shows "get_effect (prune_operations cutoff id id d) k = Some e"
proof -
  define old where "old = map op_id (filter (expired_operation cutoff d) (operations d))"
  have e: "e \<in> set (effects d)" using assms(3) by (rule tget_mem)
  have st: "st \<in> set (steps d)" "st_id st = se_step_id e" using tget_SomeD [OF assms(2)] by simp_all
  have "st_operation_id x \<notin> set old" if "x \<in> set (steps d)" "st_id x = se_step_id e" for x
    using that e assms(4) by (auto simp: old_def expired_operation_def list_ex_iff)
  then have "se_step_id e \<notin> set (map st_id (filter (\<lambda>st. st_operation_id st \<in> set old) (steps d)))" by auto
  then show ?thesis
    using assms(1,3) by (simp add: prune_operations_def Let_def old_def [symmetric] delete_operations_tables
        del: set_map set_filter)
qed

text \<open>However the connector retries and the generations fail, an operation whose cursor counts
  \<open>n\<close> attempts is granted at most \<open>12 - n\<close> more before its cursor is replaced.\<close>

theorem generation_attempts_bounded:
  assumes "0 \<le> used_attempts k d"
  shows "grant_count (run_retry h k) (attempts_generation h k) rs d \<le> 12 - nat (used_attempts k d)"
  by (rule budget.grants_within [OF assms]) (simp add: list_all_iff)

definition demo_retries :: "retry list" where
  "demo_retries = concat (replicate 14 [Attempt 2 0 ''ann'' ''q'', Abandon 3 demo_step ''e''])"

definition demo_claimed :: runtime_db where
  "demo_claimed = demo_command (ClaimCharacter 1 demo_place ''m1'' ''ann'') demo_db"

theorem generation_attempts_bounded_witness:
  "grant_count (run_retry demo_digests demo_operation) (attempts_generation demo_digests demo_operation)
     demo_retries demo_claimed = 12
   \<and> grant_count (run_retry demo_digests demo_operation) (attempts_generation demo_digests demo_operation)
     demo_retries demo_claimed \<le> 12"
proof
  show "grant_count (run_retry demo_digests demo_operation) (attempts_generation demo_digests demo_operation)
     demo_retries demo_claimed = 12"
    by code_simp
  have "used_attempts demo_operation demo_claimed = 0" by code_simp
  with generation_attempts_bounded [of demo_operation demo_claimed demo_digests demo_retries]
  show "grant_count (run_retry demo_digests demo_operation) (attempts_generation demo_digests demo_operation)
     demo_retries demo_claimed \<le> 12" by simp
qed

text \<open>From a database with distinct keys and no text left in finished operations, any run keeps
  both: whenever an operation is completed, each of its delivered or silent steps has lost its
  response and its outgoing text.\<close>

theorem completed_operations_keep_no_text:
  assumes "runtime_ok d" and "get_operation (run_ops (run_command h v) cs d) k = Some r"
    and "op_status r = OpCompleted" and "get_step (run_ops (run_command h v) cs d) sid = Some st"
    and "st_operation_id st = k" and "st_status st = Delivered \<or> st_status st = Silent"
  shows "st_response st = empty_object \<and> st_outgoing_text st = []"
proof -
  have "clean (run_ops (run_command h v) cs d)"
    using runtime.inv_run [OF assms(1), of h v cs] by (simp add: runtime_ok_def)
  then have "scrubbed_step st"
    using assms by (auto simp: clean_def operation_state_def finished_step_def)
  then show ?thesis by (simp add: scrubbed_step_def)
qed

theorem completed_operations_keep_no_text_witness:
  "st_response (hd (steps (run_ops demo_command demo_run demo_db))) = empty_object"
proof -
  let ?d = "run_ops demo_command demo_run demo_db"
  have "get_operation ?d demo_operation = Some (hd (operations ?d))"
    and "op_status (hd (operations ?d)) = OpCompleted"
    and "get_step ?d demo_step = Some (hd (steps ?d))"
    and "st_operation_id (hd (steps ?d)) = demo_operation" and "st_status (hd (steps ?d)) = Delivered"
    by code_simp+
  with completed_operations_keep_no_text [OF demo_ok, of demo_digests "\<lambda>_ _. None" demo_run]
  show ?thesis by (simp add: demo_command_def)
qed

text \<open>C23. A restart leaves no work in flight and replays no side effect. Every step gets exactly the
  status of \<open>recovered_status\<close>: an interrupted generation of a Character turn and a claimed delivery
  become uncertain, an interrupted room turn and an interrupted refresh fail, all others stay; and no
  side effect remains claimed.\<close>

theorem restart_settles_everything:
  assumes "runtime_keys d"
  shows "step_state (snd (recover_interrupted now d)) sid =
      map_option (recovered_status (kind_of d)) (get_step d sid)
    \<and> step_state (snd (recover_interrupted now d)) sid
        \<notin> {Some Generating, Some Refreshing, Some DeliveryClaimed}
    \<and> map_option se_status (get_effect (snd (recover_interrupted now d)) k) \<noteq> Some EffectClaimed"
proof (intro conjI)
  show eq: "step_state (snd (recover_interrupted now d)) sid =
      map_option (recovered_status (kind_of d)) (get_step d sid)"
    by (rule recover_steps [OF assms])
  show "step_state (snd (recover_interrupted now d)) sid
        \<notin> {Some Generating, Some Refreshing, Some DeliveryClaimed}"
    unfolding eq by (auto simp: recovered_status_def split: step_status.splits if_splits)
  show "map_option se_status (get_effect (snd (recover_interrupted now d)) k) \<noteq> Some EffectClaimed"
    by (auto simp: recover_interrupted_def Let_def tget_tset)
qed

theorem restart_settles_everything_witness:
  "step_state (snd (recover_interrupted 9 (run_ops demo_command (take 4 demo_run) demo_db))) demo_step
     = Some StepUncertain"
proof -
  let ?d = "run_ops demo_command (take 4 demo_run) demo_db"
  have "runtime_ok ?d"
    unfolding demo_command_def by (rule runtime.inv_run [OF demo_ok])
  then have "runtime_keys ?d" by (simp add: runtime_ok_def)
  from restart_settles_everything [OF this, of 9 demo_step k]
  have "step_state (snd (recover_interrupted 9 ?d)) demo_step =
      map_option (recovered_status (kind_of ?d)) (get_step ?d demo_step)" by blast
  also have "\<dots> = Some StepUncertain" by code_simp
  finally show ?thesis .
qed

text \<open>Only text that the publication check accepted is published. Whatever other sessions commit
  between the check and the conditional write, a granted claim holds this nonce, and either the
  check accepted the very response that is now claimed, or the claim was already this nonce's.\<close>

theorem publishes_only_validated_text:
  assumes "claim_delivery v env now operation sid nonce d = (Inr (DeliveryGranted, st), d')"
  shows "st_status st = DeliveryClaimed \<and> st_claim_nonce st = nonce
    \<and> ((\<exists>r st0. get_operation d operation = Some r \<and> get_step d sid = Some st0
          \<and> st_status st0 = Generated \<and> v r st0 = None \<and> st_response st = st_response st0
          \<and> get_step d' sid = Some st)
       \<or> get_step d sid = Some st \<and> d' = d \<or> get_step (env d) sid = Some st \<and> d' = env d)"
proof -
  from assms obtain st0 r where st0: "get_step d sid = Some st0" "get_operation d operation = Some r"
    and own: "st_operation_id st0 = operation"
    by (auto simp: claim_delivery_def split: option.splits if_splits)
  show ?thesis
  proof (cases "st_status st0 = Generated")
    case False
    with assms st0 own have s: "settle_claim now nonce r st0 d = (Inr (DeliveryGranted, st), d')"
      by (simp add: claim_delivery_def)
    from settle_claim_granted [of now nonce r st0 d st] s st0 show ?thesis by auto
  next
    case True
    with assms st0 own obtain cur where v: "v r st0 = None" and cur: "get_step (env d) sid = Some cur"
      by (auto simp: claim_delivery_def split: option.splits)
    show ?thesis
    proof (cases "st_status cur = Generated \<and> st_response cur = st_response st0")
      case t: True
      with assms True st0 own v cur have "st = claimed_step now nonce cur"
        and "d' = put_step sid (claimed_step now nonce) (env d)"
        by (simp_all add: claim_delivery_def)
      with t True st0 v cur show ?thesis by (simp add: get_put_step)
    next
      case f: False
      with assms True st0 own v cur obtain r' where
        s: "settle_claim now nonce r' cur (env d) = (Inr (DeliveryGranted, st), d')"
        by (auto simp: claim_delivery_def split: option.splits if_splits)
      from settle_claim_granted [of now nonce r' cur "env d" st] s cur show ?thesis by auto
    qed
  qed
qed

theorem publishes_only_validated_text_witness:
  "\<exists>st d'. claim_delivery (\<lambda>_ _. None) id 4 demo_operation demo_step ''n1''
      (run_ops demo_command demo_generation demo_db) = (Inr (DeliveryGranted, st), d')
    \<and> st_claim_nonce st = ''n1''"
proof -
  let ?d = "run_ops demo_command demo_generation demo_db"
  let ?r = "claim_delivery (\<lambda>_ _. None) id 4 demo_operation demo_step ''n1'' ?d"
  have "map_prod (map_sum id fst) id ?r = (Inr DeliveryGranted, snd ?r)"
    by code_simp
  then obtain st where r: "?r = (Inr (DeliveryGranted, st), snd ?r)"
    by (cases ?r) (auto simp: map_sum_def split: sum.splits)
  from publishes_only_validated_text [OF r] r show ?thesis by blast
qed

lemma settle_delivery_cursor:
  "map_option op_cursor (get_operation (settle_delivery now a cursor r d) (op_id r)) =
    map_option (\<lambda>_. cursor) (get_operation d (op_id r))"
  by (cases "cursor_done cursor"; cases "ak_sent_ids a = []"; cases "get_operation d (op_id r)")
    (simp_all add: settle_delivery_def Let_def get_put_operation get_advance_operation)

lemma settled_no_claim:
  assumes "get_step d (ak_step_id a) \<noteq> None"
  shows "\<not> owns_claim a (settle_delivery now a cursor r d)"
proof -
  have "step_state (settle_delivery now a cursor r d) (ak_step_id a) \<noteq> Some DeliveryClaimed"
    by (simp add: settle_delivery_steps split: option.split)
  then show ?thesis by (auto simp: owns_claim_def step_state_def split: option.splits)
qed

lemma acknowledge_unowned: "\<not> owns_claim a d \<Longrightarrow> snd (acknowledge_delivery h now a d) = d"
  by (cases rule: acknowledge_cases [of h now a d]) auto

lemma acknowledge_noop:
  assumes "snd (acknowledge_delivery h now a d) = d"
  shows "snd (acknowledge_delivery h now' a d) = d"
proof (cases rule: acknowledge_cases [of h now' a d])
  case (settled st r links uses)
  let ?c = "acknowledged_cursor (ak_sent_ids a) (ak_applied a) (ak_deployment_id a) (op_cursor r) (ak_cursor a)"
  let ?d = "settle_delivery now a ?c r (d\<lparr>deliveries := links, usages := uses\<rparr>)"
  have "snd (acknowledge_delivery h now a d) = ?d"
    using settled by (simp add: acknowledge_delivery_def owns_claim_def Let_def del: json_eq.simps
        split: option.split)
  moreover have "\<not> owns_claim a ?d"
    using settled(1) by (intro settled_no_claim) simp
  ultimately show ?thesis using settled(3) assms by simp
qed

text \<open>C8. An acknowledgement changes the database only while it owns the active claim, and repeating
  it, at any later time, changes nothing more.\<close>

theorem acknowledged_once:
  "(owns_claim a d \<or> snd (acknowledge_delivery h now a d) = d)
   \<and> snd (acknowledge_delivery h now' a (snd (acknowledge_delivery h now a d)))
       = snd (acknowledge_delivery h now a d)"
proof (cases rule: acknowledge_cases [of h now a d])
  case unchanged
  have "snd (acknowledge_delivery h now' a d) = d" by (rule acknowledge_noop [OF unchanged])
  then show ?thesis unfolding unchanged by simp
next
  case (settled st r links uses)
  then have "\<not> owns_claim a (snd (acknowledge_delivery h now a d))"
    by (simp add: settled_no_claim)
  with settled(3) show ?thesis by (simp add: acknowledge_unowned)
qed

text \<open>A delivery that published nothing is no evidence: when neither a message nor a reaction
  became visible, the acknowledgement makes the step silent, and the cursor it leaves keeps the
  operation's earlier completions and only the turns that were selected, never one the unseen
  answer proposed.\<close>

theorem unseen_answer_proposes_nobody:
  assumes "snd (acknowledge_delivery h now a d) \<noteq> d" and "ak_sent_ids a = []" and "\<not> ak_applied a"
    and "get_operation d (ak_operation_id a) = Some r"
  shows "step_state (snd (acknowledge_delivery h now a d)) (ak_step_id a) = Some Silent
    \<and> (\<exists>r'. get_operation (snd (acknowledge_delivery h now a d)) (ak_operation_id a) = Some r'
        \<and> jget (object_of (op_cursor r')) ''completed_deployment_ids'' JNull
            = jget (object_of (op_cursor r)) ''completed_deployment_ids'' (JArr [])
        \<and> (\<exists>items. jget (object_of (op_cursor r')) ''pending_turns'' JNull = JArr items
            \<and> (\<forall>i \<in> set items. \<exists>turn. i = JObj turn \<and> jget turn ''origin'' JNull = JStr ''selected'')))"
proof (cases rule: acknowledge_cases [of h now a d])
  case unchanged
  with assms(1) show ?thesis by simp
next
  case (settled st r0 links uses)
  then have r: "r0 = r" using assms(4) by simp
  have k: "op_id r = ak_operation_id a" using assms(4) by (rule tget_key)
  let ?c = "unseen_cursor (op_cursor r) (ak_cursor a)"
  let ?d = "d\<lparr>deliveries := links, usages := uses\<rparr>"
  have d': "snd (acknowledge_delivery h now a d) = settle_delivery now a ?c r ?d"
    using settled(8) assms r by (simp add: acknowledged_cursor_def)
  have silent: "step_state (settle_delivery now a ?c r ?d) (ak_step_id a) = Some Silent"
    using settled(1) assms(2,3) by (simp add: settle_delivery_steps) (simp add: step_state_def)
  obtain r' where r': "get_operation (settle_delivery now a ?c r ?d) (ak_operation_id a) = Some r'"
    and cur: "op_cursor r' = ?c"
    using settle_delivery_cursor [of now a ?c r ?d] assms(4) k by auto
  have "jget (object_of ?c) ''completed_deployment_ids'' JNull
      = jget (object_of (op_cursor r)) ''completed_deployment_ids'' (JArr [])"
    by (simp add: unseen_cursor_def Let_def)
  moreover have "\<exists>items. jget (object_of ?c) ''pending_turns'' JNull = JArr items
      \<and> (\<forall>i \<in> set items. \<exists>turn. i = JObj turn \<and> jget turn ''origin'' JNull = JStr ''selected'')"
    by (auto simp: unseen_cursor_def Let_def pending_items_def split: json.split json.splits)
  ultimately show ?thesis
    using d' silent r' cur by auto
qed

definition demo_unseen_ack :: delivery_ack where
  "demo_unseen_ack = demo_ack\<lparr>ak_sent_ids := []\<rparr>"

theorem unseen_answer_proposes_nobody_witness:
  "step_state (snd (acknowledge_delivery demo_digests 5 demo_unseen_ack
      (run_ops demo_command (take 4 demo_run) demo_db))) demo_step = Some Silent"
proof -
  let ?d = "run_ops demo_command (take 4 demo_run) demo_db"
  have "map_option st_status (get_step (snd (acknowledge_delivery demo_digests 5 demo_unseen_ack ?d)) demo_step)
      = Some Silent"
    by code_simp
  moreover have "map_option st_status (get_step ?d demo_step) = Some DeliveryClaimed"
    by code_simp
  ultimately have changed: "snd (acknowledge_delivery demo_digests 5 demo_unseen_ack ?d) \<noteq> ?d"
    by auto
  have "map_option op_id (get_operation ?d (ak_operation_id demo_unseen_ack)) = Some demo_operation"
    by code_simp
  then obtain r where "get_operation ?d (ak_operation_id demo_unseen_ack) = Some r" by auto
  from unseen_answer_proposes_nobody [OF changed _ _ this]
  show ?thesis by (simp add: demo_unseen_ack_def demo_ack_def)
qed

lemma merged_receipts_prefix:
  assumes "distinct ids" and "length ids \<le> 20" and "list_all valid_receipt ids"
  shows "take (length ids) (merged_receipts (dumps (jstrs ids)) sent) = ids"
proof -
  have f: "fromkeys (xs @ ys) = xs @ filter (\<lambda>y. y \<notin> set xs) (fromkeys ys)" if "distinct xs" for xs ys :: "string list"
    using that
  proof (induction xs)
    case (Cons x xs)
    then have "filter (\<lambda>y. y \<noteq> x) xs = xs" by (auto simp: filter_id_conv)
    with Cons show ?case by (simp add: conj_commute)
  qed simp
  from assms have "filter valid_receipt (ids @ sent) = ids @ filter valid_receipt sent"
    by (simp add: list_all_iff)
  then show ?thesis
    using assms(2) by (simp add: merged_receipts_def jstrs_def f [OF assms(1)])
qed

text \<open>A confirmed receipt is never erased: reporting an uncertain delivery, however often and with
  whatever list, keeps the receipts already recorded, in order, as the first ones.\<close>

theorem receipts_are_kept:
  assumes "get_step d sid = Some st" and "st_sent_ids st = dumps (jstrs ids)"
    and "distinct ids" and "length ids \<le> 20" and "list_all valid_receipt ids"
    and "get_step (snd (mark_delivery_uncertain h now operation sid nonce err sent d)) sid = Some st'"
  shows "take (length ids) (str_items (list_of (st_sent_ids st'))) = ids"
proof -
  have "st_sent_ids st' = dumps (jstrs ids) \<or> st_sent_ids st' = dumps (jstrs (merged_receipts (dumps (jstrs ids)) sent))"
    using assms(1,2,6)
    by (auto simp: mark_delivery_uncertain_def Let_def get_put_step
        split: option.splits sum.splits if_splits)
  then show ?thesis
    using merged_receipts_prefix [OF assms(3-5)] by (auto simp: jstrs_def)
qed

theorem receipts_are_kept_witness:
  "\<exists>st'. get_step (snd (mark_delivery_uncertain demo_digests 7 demo_operation demo_step ''n1'' ''e'' [''d2'', ''d1'']
      (snd (mark_delivery_uncertain demo_digests 6 demo_operation demo_step ''n1'' ''e'' [''d1'']
        (run_ops demo_command (take 4 demo_run) demo_db))))) demo_step = Some st'
    \<and> take 1 (str_items (list_of (st_sent_ids st'))) = [''d1'']"
proof -
  let ?d = "snd (mark_delivery_uncertain demo_digests 6 demo_operation demo_step ''n1'' ''e'' [''d1'']
        (run_ops demo_command (take 4 demo_run) demo_db))"
  let ?d' = "snd (mark_delivery_uncertain demo_digests 7 demo_operation demo_step ''n1'' ''e'' [''d2'', ''d1''] ?d)"
  have "map_option st_sent_ids (get_step ?d demo_step) = Some (dumps (jstrs [''d1'']))"
    by code_simp
  then obtain st where st: "get_step ?d demo_step = Some st" "st_sent_ids st = dumps (jstrs [''d1''])" by auto
  have "map_option st_status (get_step ?d' demo_step) = Some StepUncertain" by code_simp
  then obtain st' where st': "get_step ?d' demo_step = Some st'" by auto
  from receipts_are_kept [OF st _ _ _ st'] have "take 1 (str_items (list_of (st_sent_ids st'))) = [''d1'']"
    by (simp add: valid_receipt_def)
  with st' show ?thesis by blast
qed

lemma stable_identity:
  assumes "get_operation d (character_operation_id h s source dep) = Some r0"
    and "resume_character_operation now s source dep r0 d = (Inr r, d')"
  shows "op_id r = character_operation_id h s source dep \<and> same_character_event s source dep r
    \<and> get_operation d' (op_id r) = Some r"
proof -
  have k: "op_id r0 = character_operation_id h s source dep" using assms(1) by (rule tget_key)
  have i: "op_id (resume_operation now x) = op_id x" for x by (simp add: resume_operation_def)
  from assms(2) have e: "same_character_event s source dep r0" "r = resume_operation now r0"
    "d' = put_operation (op_id r0) (resume_operation now) d"
    by (auto simp: resume_character_operation_def split: if_splits)
  have "same_character_event s source dep (resume_operation now x) = same_character_event s source dep x" for x
    by (simp add: resume_operation_def same_character_event_def)
  with e k assms(1) show ?thesis by (simp add: i get_put_operation)
qed

text \<open>One Discord event has one operation. Whatever other sessions commit while it is claimed, a
  claim that returns has found or created the operation of exactly this event under the identity
  derived from it, and that operation is the one stored.\<close>

theorem one_operation_per_event:
  assumes "claim_character_operation h env env' now s source dep d = (Inr r, d')"
  shows "op_id r = character_operation_id h s source dep \<and> same_character_event s source dep r
    \<and> get_operation d' (character_operation_id h s source dep) = Some r"
proof (cases "get_operation d (character_operation_id h s source dep)")
  case (Some r0)
  with assms have "resume_character_operation now s source dep r0 d = (Inr r, d')"
    by (simp add: claim_character_operation_def Let_def)
  from stable_identity [OF Some this] show ?thesis by auto
next
  case None
  let ?k = "character_operation_id h s source dep"
  show ?thesis
  proof (cases "get_operation (env d) ?k")
    case n: None
    let ?new = "new_character_operation h now s source dep"
    from None n assms have "r = ?new" "d' = (env d)\<lparr>operations := tins ?new (operations (env d))\<rparr>"
      by (auto simp: claim_character_operation_def Let_def)
    with n show ?thesis
      by (simp add: new_character_operation_def same_character_event_def tget_tins jstrs_def)
  next
    case s: (Some x)
    with None assms obtain r0 where r0: "get_operation (env' (env d)) ?k = Some r0"
      and "resume_character_operation now s source dep r0 (env' (env d)) = (Inr r, d')"
      by (auto simp: claim_character_operation_def Let_def split: option.splits)
    with stable_identity [OF r0, of now r d'] show ?thesis by auto
  qed
qed

theorem one_operation_per_event_witness:
  "\<exists>r d'. claim_character_operation demo_digests
      (demo_command (ClaimCharacter 1 demo_place ''m1'' ''ann'')) id 2 demo_place ''m1'' ''ann'' demo_db = (Inr r, d')
    \<and> get_operation d' demo_operation = Some r"
proof -
  let ?c = "claim_character_operation demo_digests
      (demo_command (ClaimCharacter 1 demo_place ''m1'' ''ann'')) id 2 demo_place ''m1'' ''ann'' demo_db"
  have "map_sum (\<lambda>_. ()) op_resume_count (fst ?c) = Inr 1" by code_simp
  then obtain r where r: "?c = (Inr r, snd ?c)"
    by (cases ?c) (auto simp: map_sum_def split: sum.splits)
  from one_operation_per_event [OF r] r show ?thesis by (auto simp: demo_operation_def)
qed

end
