(* ===== verification/Pagination.thy ===== *)
theory Pagination
  imports Tables
begin

text \<open>
  The opaque cursors of \<open>pagination.py\<close> and the keyset paging that the repositories build on them:
  newest first by time and identifier, one row more than the page to know whether another follows.
\<close>

section \<open>Cursors\<close>

text \<open>
  A cursor text is named by the time and identifier that its base64 JSON decodes to, or it is a text
  that does not decode. Instants are UTC already, so \<open>astimezone\<close> and the defaults for naive
  datetimes leave them as they are.
\<close>

datatype cursor_text = TimeCursor time string | Undecodable string

definition encode_time_cursor :: "time \<Rightarrow> string \<Rightarrow> cursor_text" where
  "encode_time_cursor created_at identifier = TimeCursor created_at identifier"

definition decode_time_cursor :: "cursor_text \<Rightarrow> error + (time \<times> string)" where
  "decode_time_cursor cursor =
     (case cursor of
        Undecodable _ \<Rightarrow> Inl (ValueError ''Invalid pagination cursor.'')
      | TimeCursor created_at identifier \<Rightarrow>
          if strip identifier = [] then Inl (ValueError ''Invalid pagination cursor.'')
          else Inr (created_at, strip identifier))"

lemma decode_encode: "strip k = k \<Longrightarrow> k \<noteq> [] \<Longrightarrow> decode_time_cursor (encode_time_cursor t k) = Inr (t, k)"
  by (simp add: decode_time_cursor_def encode_time_cursor_def)

section \<open>Pages\<close>

text \<open>The rows before a cursor, newest first.\<close>

definition rows_before :: "('r \<Rightarrow> time \<times> string) \<Rightarrow> (time \<times> string) option \<Rightarrow> 'r list \<Rightarrow> 'r list" where
  "rows_before key cursor rows =
     rev (sort_key key (case cursor of None \<Rightarrow> rows | Some c \<Rightarrow> filter (\<lambda>r. key r < c) rows))"

definition time_page ::
  "('r \<Rightarrow> time \<times> string) \<Rightarrow> nat \<Rightarrow> (time \<times> string) option \<Rightarrow> 'r list \<Rightarrow> 'r list \<times> cursor_text option" where
  "time_page key bounded cursor rows =
     (let records = take (bounded + 1) (rows_before key cursor rows);
          items = take bounded records in
      (items,
       if bounded < length records \<and> items \<noteq> []
       then Some (encode_time_cursor (fst (key (last items))) (snd (key (last items)))) else None))"

text \<open>A page of at most \<open>most\<close> rows for a cursor text, and a reader that follows the cursors it is given.\<close>

definition list_page ::
  "('r \<Rightarrow> time \<times> string) \<Rightarrow> int \<Rightarrow> int \<Rightarrow> cursor_text option \<Rightarrow> 'r list
    \<Rightarrow> error + ('r list \<times> cursor_text option)" where
  "list_page key most limit cursor rows =
     (case cursor of
        None \<Rightarrow> Inr (time_page key (nat (clip 1 most limit)) None rows)
      | Some t \<Rightarrow>
          (case decode_time_cursor t of
             Inl e \<Rightarrow> Inl e
           | Inr c \<Rightarrow> Inr (time_page key (nat (clip 1 most limit)) (Some c) rows)))"

fun read_pages ::
  "nat \<Rightarrow> (cursor_text option \<Rightarrow> error + ('r list \<times> cursor_text option)) \<Rightarrow> cursor_text option
    \<Rightarrow> (error + 'r list)" where
  "read_pages 0 page cursor = Inr []"
| "read_pages (Suc n) page cursor =
     (case page cursor of
        Inl e \<Rightarrow> Inl e
      | Inr (items, None) \<Rightarrow> Inr items
      | Inr (items, Some c) \<Rightarrow>
          (case read_pages n page (Some c) of
             Inl e \<Rightarrow> Inl e
           | Inr rest \<Rightarrow> Inr (items @ rest)))"

section \<open>Reading every page reads every row\<close>

lemma descending_filter:
  fixes key :: "'r \<Rightarrow> 'k::linorder"
  assumes "sorted_wrt (\<lambda>a b. key b < key a) xs" and "i < length xs"
  shows "filter (\<lambda>r. key r < key (xs ! i)) xs = drop (Suc i) xs"
  using assms
proof (induction xs arbitrary: i)
  case (Cons x xs)
  show ?case
  proof (cases i)
    case 0
    with Cons.prems have "\<forall>r \<in> set xs. key r < key x" by auto
    with 0 show ?thesis by (simp add: filter_True)
  next
    case (Suc j)
    with Cons.prems have "key (xs ! j) < key x" "j < length xs" by simp_all
    then have "\<not> key x < key (xs ! j)" by (simp add: less_imp_le not_less)
    with Suc Cons show ?thesis by simp
  qed
qed simp

lemma rows_before_descending:
  fixes key :: "'r \<Rightarrow> time \<times> string"
  assumes "distinct (map key rows)"
  shows "sorted_wrt (\<lambda>a b. key b < key a) (rows_before key None rows)"
proof -
  let ?s = "sort_key key rows"
  have "sorted (map key ?s)" by simp
  moreover have "distinct (map key ?s)"
    using assms by (metis distinct_map distinct_sort set_sort)
  ultimately have "sorted_wrt (<) (map key ?s)" by (simp add: strict_sorted_iff)
  then show ?thesis
    by (simp add: rows_before_def sorted_wrt_rev sorted_wrt_map)
qed

lemma rows_before_drop:
  assumes "distinct (map key rows)" and "i < length rows"
  shows "rows_before key (Some (key (rows_before key None rows ! i))) rows
    = drop (Suc i) (rows_before key None rows)"
proof -
  let ?c = "key (rows_before key None rows ! i)"
  have "rows_before key (Some ?c) rows = filter (\<lambda>r. key r < ?c) (rows_before key None rows)"
    by (simp add: rows_before_def filter_sort [symmetric] rev_filter)
  also have "\<dots> = drop (Suc i) (rows_before key None rows)"
    using assms by (intro descending_filter rows_before_descending) (simp_all add: rows_before_def)
  finally show ?thesis .
qed

definition resumes_at ::
  "('r \<Rightarrow> time \<times> string) \<Rightarrow> 'r list \<Rightarrow> nat \<Rightarrow> cursor_text option \<Rightarrow> bool" where
  "resumes_at key rows i cursor \<longleftrightarrow>
     (if i = 0 then cursor = None
      else i \<le> length rows \<and> cursor = Some (let k = key (rows_before key None rows ! (i - 1)) in
        encode_time_cursor (fst k) (snd k)))"

lemma time_page_eq:
  assumes "rows_before key c rows = xs" and "0 < n"
  shows "time_page key n c rows =
    (take n xs, if n < length xs
       then Some (let k = key (xs ! (n - 1)) in encode_time_cursor (fst k) (snd k)) else None)"
proof (cases "n < length xs")
  case True
  then have ne: "take n xs \<noteq> []" using assms(2) by auto
  with True assms(2) have "last (take n xs) = xs ! (n - 1)"
    by (subst last_conv_nth) (simp_all add: min_def)
  with ne True assms(1) show ?thesis by (simp add: time_page_def Let_def min_def)
next
  case False
  with assms(1) show ?thesis by (simp add: time_page_def)
qed

text \<open>With enough pages allowed, following the cursors returns every row once, newest first.\<close>

lemma read_pages_from:
  assumes keys: "distinct (map key rows)" and ids: "\<forall>r \<in> set rows. snd (key r) \<noteq> [] \<and> strip (snd (key r)) = snd (key r)"
    and "resumes_at key rows i cursor" and "length rows < i + fuel"
  shows "read_pages fuel (\<lambda>c. list_page key most limit c rows) cursor = Inr (drop i (rows_before key None rows))"
  using assms(3,4)
proof (induction fuel arbitrary: i cursor)
  case 0
  then show ?case by (simp add: resumes_at_def split: if_splits)
next
  case (Suc fuel)
  define all where "all = rows_before key None rows"
  define n where "n = nat (clip 1 most limit)"
  have "1 \<le> clip 1 most limit" by (rule clip_ge)
  then have n: "0 < n" unfolding n_def by linarith
  have len: "length all = length rows" by (simp add: all_def rows_before_def)
  have set: "set all = set rows" by (simp add: all_def rows_before_def)
  have page: "list_page key most limit cursor rows =
      Inr (take n (drop i all),
           if n < length (drop i all)
           then Some (let k = key (all ! (i + n - 1)) in encode_time_cursor (fst k) (snd k)) else None)"
  proof -
    note tp = time_page_eq [OF _ n, of key _ rows "drop i all"]
    have nth: "drop i all ! (n - 1) = all ! (i + n - 1)" if "n < length (drop i all)"
      using that n by simp
    show ?thesis
    proof (cases "i = 0")
      case True
      with Suc.prems have "cursor = None" by (simp add: resumes_at_def)
      with True tp [of None] nth show ?thesis
        by (simp add: list_page_def n_def all_def cong: if_cong)
    next
      case False
      define k where "k = key (all ! (i - 1))"
      from False Suc.prems have i: "i \<le> length rows" and c: "cursor = Some (encode_time_cursor (fst k) (snd k))"
        by (simp_all add: resumes_at_def Let_def all_def k_def)
      have "all ! (i - 1) \<in> set rows" using i False len unfolding set [symmetric] by (intro nth_mem) linarith
      with ids have "decode_time_cursor (encode_time_cursor (fst k) (snd k)) = Inr k"
        by (simp add: decode_encode k_def)
      moreover have "rows_before key (Some k) rows = drop i all"
        using rows_before_drop [OF keys, of "i - 1"] i False by (simp add: k_def all_def)
      ultimately show ?thesis using c tp [of "Some k"] nth
        by (simp add: list_page_def n_def cong: if_cong)
    qed
  qed
  show ?case
  proof (cases "n < length (drop i all)")
    case False
    with page show ?thesis by (simp add: all_def)
  next
    case True
    have "resumes_at key rows (i + n) (Some (let k = key (all ! (i + n - 1)) in encode_time_cursor (fst k) (snd k)))"
      using True n len by (simp add: resumes_at_def all_def Let_def)
    then have "read_pages fuel (\<lambda>c. list_page key most limit c rows)
        (Some (let k = key (all ! (i + n - 1)) in encode_time_cursor (fst k) (snd k))) = Inr (drop (i + n) all)"
      using Suc.prems n unfolding all_def by (intro Suc.IH) auto
    with True page show ?thesis
      by (simp add: all_def [symmetric] Let_def) (metis add.commute append_take_drop_id drop_drop)
  qed
qed

lemma read_all_pages:
  assumes "distinct (map key rows)" and "\<forall>r \<in> set rows. snd (key r) \<noteq> [] \<and> strip (snd (key r)) = snd (key r)"
  shows "read_pages (Suc (length rows)) (\<lambda>c. list_page key most limit c rows) None = Inr (rev (sort_key key rows))"
  using read_pages_from [OF assms, of 0 None "Suc (length rows)" most limit]
  by (simp add: resumes_at_def rows_before_def)

end
