(* ===== verification/Trace_Store.thy ===== *)
theory Trace_Store
  imports Runtime_Trace Runtime_System Pagination
begin

text \<open>
  The Runtime Trace half of \<open>DurableRuntimeRepository\<close>
  (\<open>persistence/runtime_durability_repository.py\<close>): the runs and events that \<open>emit_batch\<close> stores,
  their listing and clearing, and the retention of \<open>prune\<close>, which also removes old operations.
\<close>

section \<open>Rows\<close>

datatype run_status = RunRunning | RunCompleted | RunFailed

record trace_run =
  tr_id :: string
  tr_trace_id :: string
  tr_operation_id :: string
  tr_graph_name :: string
  tr_status :: run_status
  tr_owner_id :: string
  tr_deployment_id :: string
  tr_card_id :: string
  tr_last_node :: string
  tr_event_count :: int
  tr_error :: string
  tr_created_at :: time
  tr_updated_at :: time

record trace_row =
  te_id :: nat
  te_graph_run_id :: string
  te_trace_id :: string
  te_operation_id :: string
  te_graph_name :: string
  te_node_name :: string
  te_node_kind :: trace_node_kind
  te_status :: trace_status
  te_changed_keys :: json_text
  te_metadata :: json_text
  te_error :: string
  te_created_at :: time

text \<open>\<open>trace_seq\<close> is the autoincrement of the event table.\<close>

record trace_db = runtime_db +
  trace_runs :: "trace_run list"
  trace_rows :: "trace_row list"
  trace_seq :: nat

abbreviation get_run :: "'a trace_db_scheme \<Rightarrow> string \<Rightarrow> trace_run option" where
  "get_run d k \<equiv> tget tr_id (trace_runs d) k"

interpretation run_table: db_table trace_runs trace_runs_update tr_id
  by unfold_locales simp

section \<open>Emitting\<close>

text \<open>Python's \<open>a or b\<close> on texts.\<close>

definition or_text :: "string \<Rightarrow> string \<Rightarrow> string" where
  "or_text a b = (if a \<noteq> [] then a else b)"

definition new_run :: "string \<Rightarrow> trace_event \<Rightarrow> trace_run" where
  "new_run k e =
     \<lparr>tr_id = k, tr_trace_id = ev_trace_id e, tr_operation_id = ev_operation_id e,
      tr_graph_name = ev_graph_name e, tr_status = RunRunning, tr_owner_id = ev_owner_id e,
      tr_deployment_id = ev_deployment_id e, tr_card_id = ev_character_card_id e,
      tr_last_node = [], tr_event_count = 0, tr_error = [], tr_created_at = ev_occurred_at e,
      tr_updated_at = ev_occurred_at e\<rparr>"

definition run_after :: "trace_event \<Rightarrow> trace_run \<Rightarrow> trace_run" where
  "run_after e r =
     r\<lparr>tr_trace_id := or_text (ev_trace_id e) (tr_trace_id r),
       tr_operation_id := or_text (ev_operation_id e) (tr_operation_id r),
       tr_graph_name := or_text (ev_graph_name e) (tr_graph_name r),
       tr_owner_id := or_text (ev_owner_id e) (tr_owner_id r),
       tr_deployment_id := or_text (ev_deployment_id e) (tr_deployment_id r),
       tr_card_id := or_text (ev_character_card_id e) (tr_card_id r),
       tr_last_node := ev_node_name e,
       tr_event_count := tr_event_count r + 1,
       tr_updated_at := ev_occurred_at e,
       tr_status := (if ev_status e = Failed then RunFailed
                     else if final_completed_event e then RunCompleted else tr_status r),
       tr_error := (if ev_status e = Failed then take 1000 (ev_error e) else tr_error r)\<rparr>"

definition new_row :: "nat \<Rightarrow> string \<Rightarrow> trace_event \<Rightarrow> trace_row" where
  "new_row n k e =
     \<lparr>te_id = n, te_graph_run_id = k, te_trace_id = ev_trace_id e,
      te_operation_id = ev_operation_id e, te_graph_name = ev_graph_name e,
      te_node_name = ev_node_name e, te_node_kind = ev_node_kind e, te_status = ev_status e,
      te_changed_keys = dumps (jstrs (ev_changed_keys e)),
      te_metadata = dumps (JArr (map (\<lambda>(k, v). jstrs [k, v]) (ev_metadata e))),
      te_error = take 1000 (ev_error e), te_created_at = ev_occurred_at e\<rparr>"

definition emit_event :: "trace_event \<Rightarrow> 'a trace_db_scheme \<Rightarrow> 'a trace_db_scheme" where
  "emit_event e d =
     (let k = strip (ev_graph_run_id e);
          runs = (case get_run d k of Some _ \<Rightarrow> trace_runs d | None \<Rightarrow> tins (new_run k e) (trace_runs d)) in
      if k = [] then d
      else d\<lparr>trace_runs := tset (\<lambda>r. tr_id r = k) (run_after e) runs,
             trace_rows := tins (new_row (trace_seq d) k e) (trace_rows d),
             trace_seq := trace_seq d + 1\<rparr>)"

definition emit_batch :: "trace_event list \<Rightarrow> 'a trace_db_scheme \<Rightarrow> 'a trace_db_scheme" where
  "emit_batch events d = fold emit_event events d"

section \<open>Listing and clearing\<close>

definition trace_events :: "string \<Rightarrow> 'a trace_db_scheme \<Rightarrow> trace_row list" where
  "trace_events k d = sort_key te_id (filter (\<lambda>r. te_graph_run_id r = k) (trace_rows d))"

text \<open>An empty text is no filter.\<close>

record trace_filter =
  tf_graph_name :: string
  tf_status :: "run_status option"
  tf_operation_id :: string
  tf_owner_id :: string

definition run_matches :: "trace_filter \<Rightarrow> trace_run \<Rightarrow> bool" where
  "run_matches f r \<longleftrightarrow>
     (tf_graph_name f \<noteq> [] \<longrightarrow> tr_graph_name r = tf_graph_name f)
     \<and> (case tf_status f of None \<Rightarrow> True | Some v \<Rightarrow> tr_status r = v)
     \<and> (tf_operation_id f \<noteq> [] \<longrightarrow> tr_operation_id r = tf_operation_id f)
     \<and> (tf_owner_id f \<noteq> [] \<longrightarrow> tr_owner_id r = tf_owner_id f)"

definition run_key :: "trace_run \<Rightarrow> time \<times> string" where
  "run_key r = (tr_created_at r, tr_id r)"

definition list_trace_runs_page ::
  "int \<Rightarrow> cursor_text option \<Rightarrow> trace_filter \<Rightarrow> 'a trace_db_scheme
    \<Rightarrow> error + (trace_run list \<times> cursor_text option)" where
  "list_trace_runs_page limit cursor f d =
     list_page run_key 100 limit cursor (filter (run_matches f) (trace_runs d))"

definition clear_traces :: "string \<Rightarrow> 'a trace_db_scheme \<Rightarrow> nat \<times> 'a trace_db_scheme" where
  "clear_traces owner d =
     (let ids = map tr_id (filter (\<lambda>r. owner \<noteq> [] \<longrightarrow> tr_owner_id r = owner) (trace_runs d)) in
      if ids = [] then (0, d)
      else
        (tcount (\<lambda>r. tr_id r \<in> set ids) (trace_runs d),
         d\<lparr>trace_rows := tdel (\<lambda>e. te_graph_run_id e \<in> set ids) (trace_rows d),
           trace_runs := tdel (\<lambda>r. tr_id r \<in> set ids) (trace_runs d)\<rparr>))"

section \<open>Retention\<close>

record retention =
  rt_days :: int
  rt_maximum_runs :: int

definition make_retention :: "int \<Rightarrow> int \<Rightarrow> retention" where
  "make_retention retention_days maximum =
     \<lparr>rt_days = clip 1 30 retention_days, rt_maximum_runs = clip 200 20000 maximum\<rparr>"

definition unsettled_operation :: "operation_status \<Rightarrow> bool" where
  "unsettled_operation v \<longleftrightarrow> v = OpActive \<or> v = OpAwaitingDelivery \<or> v = OpUncertain"

definition safe_trace :: "time \<Rightarrow> 'a trace_db_scheme \<Rightarrow> trace_run \<Rightarrow> bool" where
  "safe_trace cutoff d r \<longleftrightarrow>
     (tr_status r = RunCompleted \<or> tr_status r = RunFailed \<or> tr_updated_at r < cutoff)
     \<and> \<not> list_ex (\<lambda>p. op_id p = tr_operation_id r \<and> unsettled_operation (op_status p)) (operations d)"

definition prune_traces :: "time \<Rightarrow> int \<Rightarrow> 'a trace_db_scheme \<Rightarrow> 'a trace_db_scheme" where
  "prune_traces cutoff maximum d =
     (let safe = filter (safe_trace cutoff d) (trace_runs d);
          aged = filter (\<lambda>r. tr_created_at r < cutoff) safe;
          excess = drop (nat maximum) (sort_key (\<lambda>r. - tr_created_at r) safe);
          remove = fromkeys (map tr_id aged @ map tr_id excess) in
      d\<lparr>trace_rows := tdel (\<lambda>e. te_graph_run_id e \<in> set remove) (trace_rows d),
        trace_runs := tdel (\<lambda>r. tr_id r \<in> set remove) (trace_runs d)\<rparr>)"

definition prune ::
  "retention \<Rightarrow> time \<Rightarrow> ('a trace_db_scheme \<Rightarrow> 'a trace_db_scheme) \<Rightarrow> ('a trace_db_scheme \<Rightarrow> 'a trace_db_scheme)
    \<Rightarrow> 'a trace_db_scheme \<Rightarrow> 'a trace_db_scheme" where
  "prune c now env env' d =
     (let cutoff = now - days (rt_days c) in
      prune_traces cutoff (rt_maximum_runs c) (prune_operations cutoff env env' d))"

section \<open>The invariant of the store\<close>

text \<open>Runs have distinct names, each counts the events stored for it, no event lacks its run.\<close>

definition trace_ok :: "'a trace_db_scheme \<Rightarrow> bool" where
  "trace_ok d \<longleftrightarrow>
     keyed tr_id (trace_runs d)
     \<and> (\<forall>r \<in> set (trace_runs d). tr_id r \<noteq> [] \<and> strip (tr_id r) = tr_id r
         \<and> tr_event_count r = int (tcount (\<lambda>e. te_graph_run_id e = tr_id r) (trace_rows d)))
     \<and> (\<forall>e \<in> set (trace_rows d). te_graph_run_id e \<in> tr_id ` set (trace_runs d) \<and> te_id e < trace_seq d)
     \<and> keyed te_id (trace_rows d)"

datatype trace_command =
    EmitBatch "trace_event list"
  | ClearTraces string
  | Prune retention time

fun run_trace :: "trace_command \<Rightarrow> 'a trace_db_scheme \<Rightarrow> 'a trace_db_scheme" where
  "run_trace (EmitBatch events) d = emit_batch events d"
| "run_trace (ClearTraces owner) d = snd (clear_traces owner d)"
| "run_trace (Prune c now) d = prune c now id id d"

lemma run_after_simps [simp]:
  "tr_id (run_after e r) = tr_id r" "tr_event_count (run_after e r) = tr_event_count r + 1"
  by (simp_all add: run_after_def)

lemma new_run_simps [simp]:
  "tr_id (new_run k e) = k" "tr_event_count (new_run k e) = 0"
  by (simp_all add: new_run_def)

lemma new_row_simps [simp]: "te_id (new_row n k e) = n" "te_graph_run_id (new_row n k e) = k"
  by (simp_all add: new_row_def)

lemma emit_event_ok:
  assumes "trace_ok d"
  shows "trace_ok (emit_event e d)"
proof (cases "strip (ev_graph_run_id e) = []")
  case True
  with assms show ?thesis by (simp add: emit_event_def Let_def)
next
  case False
  define k where "k = strip (ev_graph_run_id e)"
  define runs where "runs = (case get_run d k of Some _ \<Rightarrow> trace_runs d | None \<Rightarrow> tins (new_run k e) (trace_runs d))"
  define rows where "rows = tins (new_row (trace_seq d) k e) (trace_rows d)"
  have k: "k \<noteq> []" "strip k = k" using False by (simp_all add: k_def)
  have emit: "emit_event e d = d\<lparr>trace_runs := tset (\<lambda>r. tr_id r = k) (run_after e) runs,
      trace_rows := rows, trace_seq := trace_seq d + 1\<rparr>"
    unfolding emit_event_def Let_def runs_def rows_def k_def using False by simp
  have keyed: "keyed tr_id runs" and ink: "k \<in> tr_id ` set runs" and sub: "set (trace_runs d) \<subseteq> set runs"
    using assms by (auto simp: runs_def trace_ok_def keyed_tins image_iff
        split: option.split dest: tget_SomeD)
  have none: "tcount (\<lambda>e. te_graph_run_id e = k) (trace_rows d) = 0" if "get_run d k = None"
    using assms that by (auto simp: trace_ok_def tcount_0_iff tget_None_iff)
  have count: "tr_id r \<noteq> [] \<and> strip (tr_id r) = tr_id r
      \<and> tr_event_count r = int (tcount (\<lambda>e. te_graph_run_id e = tr_id r) (trace_rows d))"
    if "r \<in> set runs" for r
    using assms that k none by (auto simp: runs_def trace_ok_def split: option.splits)
  have "\<forall>r \<in> set (tset (\<lambda>r. tr_id r = k) (run_after e) runs). tr_id r \<noteq> [] \<and> strip (tr_id r) = tr_id r
      \<and> tr_event_count r = int (tcount (\<lambda>e. te_graph_run_id e = tr_id r) rows)"
  proof
    fix r assume "r \<in> set (tset (\<lambda>r. tr_id r = k) (run_after e) runs)"
    then obtain x where x: "x \<in> set runs" and r: "r = (if tr_id x = k then run_after e x else x)"
      by (auto simp: set_tset)
    from count [OF x] show "tr_id r \<noteq> [] \<and> strip (tr_id r) = tr_id r
      \<and> tr_event_count r = int (tcount (\<lambda>e. te_graph_run_id e = tr_id r) rows)"
      using k by (simp add: r rows_def tcount_tins)
  qed
  moreover have "\<forall>x \<in> set rows. te_graph_run_id x \<in> tr_id ` set (tset (\<lambda>r. tr_id r = k) (run_after e) runs)
      \<and> te_id x < trace_seq d + 1"
  proof -
    have "tr_id ` set (tset (\<lambda>r. tr_id r = k) (run_after e) runs) = tr_id ` set runs"
      by (rule image_key_tset) simp
    moreover have "te_graph_run_id x \<in> tr_id ` set runs" if "x \<in> set (trace_rows d)" for x
    proof -
      have "te_graph_run_id x \<in> tr_id ` set (trace_runs d)" using assms that by (simp add: trace_ok_def)
      with sub show ?thesis by blast
    qed
    ultimately show ?thesis
      using assms ink by (auto simp: rows_def trace_ok_def)
  qed
  moreover have "keyed te_id rows"
    using assms by (auto simp: rows_def keyed_tins trace_ok_def tget_None_iff)
  ultimately show ?thesis
    using keyed by (simp add: emit trace_ok_def keyed_tset)
qed

lemma emit_batch_ok: "trace_ok d \<Longrightarrow> trace_ok (emit_batch events d)"
  by (induction events arbitrary: d) (simp_all add: emit_batch_def emit_event_ok)

text \<open>Removing whole runs with their events keeps the accounts of the others.\<close>

lemma remove_runs_ok:
  assumes "trace_ok d"
  shows "trace_ok (d\<lparr>trace_rows := tdel (\<lambda>e. te_graph_run_id e \<in> K) (trace_rows d),
    trace_runs := tdel (\<lambda>r. tr_id r \<in> K) (trace_runs d)\<rparr>)"
proof -
  have "tcount (\<lambda>e. te_graph_run_id e = k) (tdel (\<lambda>e. te_graph_run_id e \<in> K) t)
      = tcount (\<lambda>e. te_graph_run_id e = k) t" if "k \<notin> K" for k and t :: "trace_row list"
    by (induction t) (use that in \<open>auto simp: tcount_def tdel_def\<close>)
  with assms show ?thesis
    by (auto simp: trace_ok_def keyed_tdel)
qed

lemma run_trace_ok: "trace_ok d \<Longrightarrow> trace_ok (run_trace c d)"
proof (cases c)
  case (ClearTraces owner)
  assume "trace_ok d"
  from remove_runs_ok [OF this] this ClearTraces show ?thesis
    by (simp add: clear_traces_def Let_def del: set_map set_filter)
next
  case (Prune c now)
  assume "trace_ok d"
  moreover have "trace_ok (prune_operations cutoff id id d) = trace_ok d" for cutoff
    by (simp add: prune_operations_def delete_operations_def Let_def trace_ok_def)
  ultimately show ?thesis
    using Prune by (simp add: prune_def prune_traces_def Let_def remove_runs_ok
        del: set_map set_filter set_append set_fromkeys)
qed (simp add: emit_batch_ok)

interpretation trace_store: invariant_system run_trace trace_ok
  by unfold_locales (rule run_trace_ok)

section \<open>Properties\<close>

text \<open>The trace accounts stay exact. From an exact store, after any sequence of batches, clearings
  and prunings every run counts exactly the events stored for it and no event is without its run.\<close>

theorem trace_accounts_exact:
  assumes "trace_ok d"
  shows "(\<forall>r \<in> set (trace_runs (run_ops run_trace cs d)).
      tr_event_count r = int (length (trace_events (tr_id r) (run_ops run_trace cs d))))
    \<and> (\<forall>e \<in> set (trace_rows (run_ops run_trace cs d)).
      get_run (run_ops run_trace cs d) (te_graph_run_id e) \<noteq> None)"
proof -
  have "trace_ok (run_ops run_trace cs d)" by (rule trace_store.inv_run [OF assms])
  then show ?thesis
    by (auto simp: trace_ok_def trace_events_def tcount_def tget_None_iff)
qed

definition demo_trace_db :: trace_db where
  "demo_trace_db = runtime_db.extend demo_db \<lparr>trace_runs = [], trace_rows = [], trace_seq = 0\<rparr>"

definition demo_event :: "string \<Rightarrow> time \<Rightarrow> trace_event" where
  "demo_event k t = \<lparr>ev_trace_id = ''t'', ev_graph_run_id = k, ev_graph_name = ''g'',
     ev_node_name = ''turn_authority'', ev_node_kind = Authority, ev_status = Completed,
     ev_operation_id = ''x'', ev_owner_id = ''o'', ev_deployment_id = [], ev_character_card_id = [],
     ev_changed_keys = [], ev_metadata = [], ev_error = [], ev_occurred_at = t\<rparr>"

definition demo_trace :: "trace_command list" where
  "demo_trace = [EmitBatch [demo_event ''a'' 1, demo_event ''b'' 2, demo_event '' a '' 3],
     EmitBatch [demo_event ''c'' 4], ClearTraces ''nobody'']"

lemma demo_trace_ok: "trace_ok demo_trace_db"
  by (simp add: trace_ok_def demo_trace_db_def runtime_db.defs demo_db_def)

theorem trace_accounts_exact_witness:
  "map tr_event_count (trace_runs (run_ops run_trace demo_trace demo_trace_db)) = [2, 1, 1]
   \<and> list_all (\<lambda>r.
      tr_event_count r = int (length (trace_events (tr_id r) (run_ops run_trace demo_trace demo_trace_db))))
      (trace_runs (run_ops run_trace demo_trace demo_trace_db))"
proof
  show "map tr_event_count (trace_runs (run_ops run_trace demo_trace demo_trace_db)) = [2, 1, 1]"
    by code_simp
  show "list_all (\<lambda>r.
      tr_event_count r = int (length (trace_events (tr_id r) (run_ops run_trace demo_trace demo_trace_db))))
      (trace_runs (run_ops run_trace demo_trace demo_trace_db))"
    using trace_accounts_exact [OF demo_trace_ok, of demo_trace] unfolding list_all_iff by blast
qed

text \<open>Following the cursors of the trace listing, with any page size asked for, returns every
  matching run exactly once, newest first, and ends after at most one page per run.\<close>

theorem trace_pages_complete:
  assumes "trace_ok d"
  shows "read_pages (Suc (length (filter (run_matches f) (trace_runs d))))
      (\<lambda>c. list_trace_runs_page limit c f d) None
    = Inr (rev (sort_key run_key (filter (run_matches f) (trace_runs d))))"
  unfolding list_trace_runs_page_def
proof (rule read_all_pages)
  have "distinct (map tr_id (filter (run_matches f) (trace_runs d)))"
    using assms by (simp add: trace_ok_def keyed_def distinct_map_filter)
  then show "distinct (map run_key (filter (run_matches f) (trace_runs d)))"
    by (auto simp: distinct_map inj_on_def run_key_def)
  show "\<forall>r \<in> set (filter (run_matches f) (trace_runs d)).
      snd (run_key r) \<noteq> [] \<and> strip (snd (run_key r)) = snd (run_key r)"
    using assms by (auto simp: trace_ok_def run_key_def)
qed

definition no_filter :: trace_filter where
  "no_filter = \<lparr>tf_graph_name = [], tf_status = None, tf_operation_id = [], tf_owner_id = []\<rparr>"

theorem trace_pages_complete_witness:
  "map_sum id (map tr_id) (read_pages 4 (\<lambda>c. list_trace_runs_page 1 c no_filter
     (run_ops run_trace demo_trace demo_trace_db)) None) = Inr [''c'', ''b'', ''a'']"
proof -
  let ?d = "run_ops run_trace demo_trace demo_trace_db"
  have "trace_ok ?d" by (rule trace_store.inv_run [OF demo_trace_ok])
  from trace_pages_complete [OF this, of no_filter 1]
  have "read_pages (Suc (length (filter (run_matches no_filter) (trace_runs ?d))))
      (\<lambda>c. list_trace_runs_page 1 c no_filter ?d) None
    = Inr (rev (sort_key run_key (filter (run_matches no_filter) (trace_runs ?d))))" .
  moreover have "Suc (length (filter (run_matches no_filter) (trace_runs ?d))) = 4" by code_simp
  moreover have "map tr_id (rev (sort_key run_key (filter (run_matches no_filter) (trace_runs ?d))))
      = [''c'', ''b'', ''a'']" by code_simp
  ultimately show ?thesis by simp
qed

lemma prune_tables:
  "operations (prune c now id id d) = operations (prune_operations (now - days (rt_days c)) id id d)"
  "steps (prune c now id id d) = steps (prune_operations (now - days (rt_days c)) id id d)"
  "effects (prune c now id id d) = effects (prune_operations (now - days (rt_days c)) id id d)"
  by (simp_all add: prune_def prune_traces_def Let_def)

lemma unsettled_not_expired:
  "unsettled_operation (op_status r) \<Longrightarrow> \<not> expired_operation cutoff d r"
  by (auto simp: unsettled_operation_def expired_operation_def)

text \<open>Retention never removes unfinished work: an operation that is active, awaits delivery or is
  uncertain survives every pruning with its steps and its trace runs, and no claimed or uncertain
  side effect of a stored step is forgotten.\<close>

theorem retention_keeps_unfinished_work:
  assumes "runtime_keys d" and "get_operation d k = Some r" and "trace_ok d"
    and "unsettled_operation (op_status r)"
  shows "get_operation (prune c now id id d) k = Some r
    \<and> filter (\<lambda>st. st_operation_id st = k) (steps (prune c now id id d)) = filter (\<lambda>st. st_operation_id st = k) (steps d)
    \<and> filter (\<lambda>t. tr_operation_id t = k) (trace_runs (prune c now id id d))
        = filter (\<lambda>t. tr_operation_id t = k) (trace_runs d)
    \<and> (\<forall>e \<in> set (effects d). se_status e \<in> {EffectClaimed, EffectUncertain} \<longrightarrow> e \<in> set (effects (prune c now id id d)))"
proof (intro conjI ballI impI)
  let ?cut = "now - days (rt_days c)"
  define old where "old = map op_id (filter (expired_operation ?cut d) (operations d))"
  have k: "op_id r = k" "r \<in> set (operations d)" using tget_SomeD [OF assms(2)] by simp_all
  have old: "k \<notin> set old"
  proof
    assume "k \<in> set old"
    then obtain p where p: "p \<in> set (operations d)" "op_id p = k" "expired_operation ?cut d p"
      by (auto simp: old_def)
    then have "p = r"
      using assms(1) k by (auto simp: runtime_keys_def intro: keyed_eq)
    with p assms(4) show False by (simp add: unsettled_not_expired)
  qed
  show "get_operation (prune c now id id d) k = Some r"
    using assms(1,2) old k by (simp add: prune_tables prune_operations_def delete_operations_def Let_def old_def [symmetric]
        tget_tdel runtime_keys_def del: set_map set_filter)
  show "filter (\<lambda>st. st_operation_id st = k) (steps (prune c now id id d)) = filter (\<lambda>st. st_operation_id st = k) (steps d)"
    using old by (auto simp: prune_tables prune_operations_def delete_operations_def Let_def old_def [symmetric] tdel_def
        simp del: set_map set_filter intro!: filter_cong)
  show "filter (\<lambda>t. tr_operation_id t = k) (trace_runs (prune c now id id d))
      = filter (\<lambda>t. tr_operation_id t = k) (trace_runs d)"
  proof -
    let ?d = "prune_operations ?cut id id d"
    have r: "r \<in> set (operations ?d)"
      using old k by (simp add: prune_operations_def delete_operations_def Let_def old_def [symmetric] del: set_map set_filter)
    define gone where "gone = fromkeys
      (map tr_id (filter (\<lambda>r. tr_created_at r < ?cut) (filter (safe_trace ?cut ?d) (trace_runs ?d)))
       @ map tr_id (drop (nat (rt_maximum_runs c))
           (sort_key (\<lambda>r. - tr_created_at r) (filter (safe_trace ?cut ?d) (trace_runs ?d)))))"
    have runs: "trace_runs ?d = trace_runs d" by (simp add: prune_operations_def delete_operations_def Let_def)
    have "tr_id t \<notin> set gone" if t: "t \<in> set (trace_runs d)" "tr_operation_id t = k" for t
    proof
      assume "tr_id t \<in> set gone"
      then obtain u where u: "u \<in> set (trace_runs d)" "tr_id u = tr_id t" "safe_trace ?cut ?d u"
        by (auto simp: gone_def runs dest!: in_set_dropD)
      with t assms(3) have "u = t" by (auto simp: trace_ok_def intro: keyed_eq)
      with u t r k assms(4) show False by (auto simp: safe_trace_def list_ex_iff)
    qed
    moreover have "trace_runs (prune c now id id d) = tdel (\<lambda>r. tr_id r \<in> set gone) (trace_runs d)"
      by (simp add: prune_def prune_traces_def Let_def gone_def runs
          del: set_map set_filter set_append set_fromkeys)
    ultimately show ?thesis by (auto simp: tdel_def intro!: filter_cong)
  qed
  fix e
  assume e: "e \<in> set (effects d)" "se_status e \<in> {EffectClaimed, EffectUncertain}"
  have "\<not> (\<exists>st \<in> set (steps d). st_operation_id st \<in> set old \<and> st_id st = se_step_id e)"
  proof
    assume "\<exists>st \<in> set (steps d). st_operation_id st \<in> set old \<and> st_id st = se_step_id e"
    then obtain st p where "st \<in> set (steps d)" "st_id st = se_step_id e" "st_operation_id st = op_id p"
      "expired_operation ?cut d p"
      by (auto simp: old_def)
    with e show False by (auto simp: expired_operation_def list_ex_iff)
  qed
  with e show "e \<in> set (effects (prune c now id id d))"
    unfolding prune_tables prune_operations_def delete_operations_def Let_def old_def [symmetric] by auto
qed


definition demo_open_db :: trace_db where
  "demo_open_db = runtime_db.extend demo_claimed \<lparr>trace_runs = [], trace_rows = [], trace_seq = 0\<rparr>"

theorem retention_keeps_unfinished_work_witness:
  "get_operation (prune (make_retention 1 200) (days 9) id id demo_open_db) demo_operation \<noteq> None"
proof -
  have "runtime_keys demo_open_db = runtime_keys demo_claimed"
    by (simp add: runtime_keys_def demo_open_db_def runtime_db.defs)
  moreover have "runtime_ok demo_claimed"
    using runtime.inv_run [OF demo_ok, of demo_digests "\<lambda>_ _. None" "[ClaimCharacter 1 demo_place ''m1'' ''ann'']"]
    by (simp add: demo_claimed_def demo_command_def)
  ultimately have keys: "runtime_keys demo_open_db" by (simp add: runtime_ok_def)
  have ok: "trace_ok demo_open_db"
    by (simp add: trace_ok_def demo_open_db_def runtime_db.defs)
  have "map_option op_status (get_operation demo_open_db demo_operation) = Some OpActive" by code_simp
  then obtain r where r: "get_operation demo_open_db demo_operation = Some r" "unsettled_operation (op_status r)"
    by (auto simp: unsettled_operation_def)
  from retention_keeps_unfinished_work [OF keys r(1) ok r(2), of "make_retention 1 200" "days 9"]
  show ?thesis by simp
qed

end
