(* ===== verification/Turn_Jobs.thy ===== *)
theory Turn_Jobs
  imports Trace_Store
begin

text \<open>
  The asynchronous Discord turn jobs: the tables of \<open>persistence/turn_job_models.py\<close>, every
  operation of \<open>TurnJobRepository\<close> (\<open>persistence/turn_job_repository.py\<close>) and the queue of
  \<open>TurnJobManager\<close> (\<open>turn_jobs.py\<close>). Jobs share the database of the durable runtime: a job that
  times out, is stopped or is cancelled also interrupts the runtime operations of its event.
\<close>

section \<open>Rows\<close>

datatype job_status =
    JobQueued | JobRunning | JobSucceeded | JobFailed | JobTimedOut | JobStopped | JobCancelled

definition terminal_jobs :: "job_status list" where
  "terminal_jobs = [JobSucceeded, JobFailed, JobTimedOut, JobStopped, JobCancelled]"

definition terminal :: "job_status \<Rightarrow> bool" where
  "terminal v \<longleftrightarrow> v \<in> set terminal_jobs"

record turn_job =
  tj_id :: string
  tj_kind :: string
  tj_owner_id :: string
  tj_connection_id :: string
  tj_deployment_id :: string
  tj_guild_id :: string
  tj_channel_id :: string
  tj_thread_id :: string
  tj_category_id :: string
  tj_source_message_id :: string
  tj_source_author_id :: string
  tj_request :: json_text
  tj_status :: job_status
  tj_reply :: json_text
  tj_social_step :: json_text
  tj_runtime_step_id :: string
  tj_error_code :: string
  tj_deadline_at :: time
  tj_expires_at :: time
  tj_created_at :: time
  tj_updated_at :: time
  tj_completed_at :: "time option"
  tj_final_notice_ack_at :: "time option"

record job_progress =
  jp_id :: nat
  jp_job_id :: string
  jp_ordinal :: nat
  jp_text :: string
  jp_claim_nonce :: string
  jp_acknowledged_at :: "time option"

text \<open>\<open>progress_seq\<close> is the autoincrement of the progress table.\<close>

record jobs_db = trace_db +
  jobs :: "turn_job list"
  progress :: "job_progress list"
  progress_seq :: nat

abbreviation get_job :: "'a jobs_db_scheme \<Rightarrow> string \<Rightarrow> turn_job option" where
  "get_job d k \<equiv> tget tj_id (jobs d) k"

definition put_job :: "string \<Rightarrow> (turn_job \<Rightarrow> turn_job) \<Rightarrow> 'a jobs_db_scheme \<Rightarrow> 'a jobs_db_scheme" where
  "put_job k f d = d\<lparr>jobs := tset (\<lambda>r. tj_id r = k) f (jobs d)\<rparr>"

interpretation job_table: db_table jobs jobs_update tj_id
  by unfold_locales simp

interpretation progress_table: db_table progress progress_update jp_id
  by unfold_locales simp

section \<open>Submitting and reading\<close>

record job_request =
  jr_kind :: string
  jr_scope :: room_scope
  jr_deployment_id :: string
  jr_message_id :: string
  jr_request :: json_text
  jr_deadline_seconds :: int
  jr_source_author_id :: string
  jr_category_id :: string

definition job_id :: "digests \<Rightarrow> string \<Rightarrow> string \<Rightarrow> string \<Rightarrow> string \<Rightarrow> string" where
  "job_id h kind connection deployment message =
     sha_text h (join [unit_separator] [''discord-turn-job-v1'', kind, connection, deployment, message])"

definition retention_hours :: "int \<Rightarrow> int" where
  "retention_hours n = clip 1 168 n"

definition new_job :: "digests \<Rightarrow> int \<Rightarrow> time \<Rightarrow> job_request \<Rightarrow> turn_job" where
  "new_job h retention now q =
     (let s = jr_scope q in
      \<lparr>tj_id = job_id h (jr_kind q) (sc_connection_id s) (jr_deployment_id q) (jr_message_id q),
       tj_kind = jr_kind q, tj_owner_id = sc_owner_id s, tj_connection_id = sc_connection_id s,
       tj_deployment_id = jr_deployment_id q, tj_guild_id = sc_guild_id s,
       tj_channel_id = sc_channel_id s, tj_thread_id = sc_thread_id s,
       tj_category_id = jr_category_id q, tj_source_message_id = jr_message_id q,
       tj_source_author_id = jr_source_author_id q, tj_request = jr_request q,
       tj_status = JobQueued, tj_reply = Malformed [], tj_social_step = Malformed [],
       tj_runtime_step_id = [], tj_error_code = [],
       tj_deadline_at = now + seconds (jr_deadline_seconds q),
       tj_expires_at = now + hours (retention_hours retention), tj_created_at = now,
       tj_updated_at = now, tj_completed_at = None, tj_final_notice_ack_at = None\<rparr>)"

text \<open>An insertion of a key that exists is an \<open>IntegrityError\<close>: the existing job is the answer.\<close>

definition submit_job ::
  "digests \<Rightarrow> int \<Rightarrow> time \<Rightarrow> job_request \<Rightarrow> 'a jobs_db_scheme \<Rightarrow> (turn_job \<times> bool) \<times> 'a jobs_db_scheme" where
  "submit_job h retention now q d =
     (let job = new_job h retention now q in
      case get_job d (tj_id job) of
        Some existing \<Rightarrow> ((existing, False), d)
      | None \<Rightarrow> ((job, True), d\<lparr>jobs := tins job (jobs d)\<rparr>))"

definition is_due :: "time \<Rightarrow> time \<Rightarrow> bool" where
  "is_due deadline now \<longleftrightarrow> deadline \<le> now"

definition job_active :: "turn_job \<Rightarrow> bool" where
  "job_active j \<longleftrightarrow> tj_status j = JobQueued \<or> tj_status j = JobRunning"

section \<open>Ending a job\<close>

text \<open>\<open>_runtime_operations\<close>: the open operations of the job's event that started with its deployment.\<close>

definition runtime_operations :: "turn_job \<Rightarrow> 'a runtime_db_scheme \<Rightarrow> runtime_operation list" where
  "runtime_operations j d =
     filter (\<lambda>r. op_connection_id r = tj_connection_id j \<and> op_owner_id r = tj_owner_id j
         \<and> op_source_message_id r = tj_source_message_id j \<and> op_guild_id r = tj_guild_id j
         \<and> op_channel_id r = tj_channel_id j \<and> op_thread_id r = tj_thread_id j
         \<and> open_operation (op_status r)
         \<and> (case loads (op_initial_ids r) of
              Some (JArr ids) \<Rightarrow> List.member ids (JStr (tj_deployment_id j))
            | _ \<Rightarrow> False)) (operations d)"

definition interrupt_runtime :: "time \<Rightarrow> runtime_operation \<Rightarrow> 'a runtime_db_scheme \<Rightarrow> 'a runtime_db_scheme" where
  "interrupt_runtime now r d =
     save_steps now (\<lambda>st. st_operation_id st = op_id r \<and> st_status st = Generating)
       (\<lambda>st. st\<lparr>st_status := StepUncertain, st_last_error := ''turn_job_interrupted''\<rparr>)
       (save_operation now (op_id r)
         (\<lambda>r. r\<lparr>op_status := OpUncertain, op_last_error := ''turn_job_interrupted''\<rparr>) d)"

definition ended_job :: "time \<Rightarrow> job_status \<Rightarrow> string \<Rightarrow> turn_job \<Rightarrow> turn_job" where
  "ended_job now v err j =
     j\<lparr>tj_request := empty_object, tj_status := v, tj_error_code := take 80 err,
       tj_completed_at := Some now, tj_updated_at := now\<rparr>"

text \<open>\<open>fail\<close>: its conditional update finds the status that it has just read.\<close>

definition fail_job ::
  "time \<Rightarrow> string \<Rightarrow> job_status \<Rightarrow> string \<Rightarrow> 'a jobs_db_scheme \<Rightarrow> bool \<times> 'a jobs_db_scheme" where
  "fail_job now k v err d =
     (case get_job d k of
        None \<Rightarrow> (False, d)
      | Some j \<Rightarrow>
          if terminal (tj_status j) then (False, d)
          else
            (let d' = put_job k (ended_job now v err) d in
             (True,
              if v \<in> {JobTimedOut, JobStopped, JobCancelled}
              then fold (interrupt_runtime now) (runtime_operations j d') d' else d')))"

definition cleanup :: "time \<Rightarrow> 'a jobs_db_scheme \<Rightarrow> nat \<times> 'a jobs_db_scheme" where
  "cleanup now d =
     (let expired = map tj_id (filter (\<lambda>j. tj_expires_at j < now) (jobs d)) in
      if expired = [] then (0, d)
      else
        (tcount (\<lambda>j. tj_id j \<in> set expired) (jobs d),
         d\<lparr>progress := tdel (\<lambda>p. jp_job_id p \<in> set expired) (progress d),
           jobs := tdel (\<lambda>j. tj_id j \<in> set expired) (jobs d)\<rparr>))"

definition delete_owner :: "string \<Rightarrow> 'a jobs_db_scheme \<Rightarrow> nat \<times> 'a jobs_db_scheme" where
  "delete_owner owner d =
     (let ids = map tj_id (filter (\<lambda>j. tj_owner_id j = owner) (jobs d)) in
      if ids = [] then (0, d)
      else
        (tcount (\<lambda>j. tj_id j \<in> set ids) (jobs d),
         d\<lparr>progress := tdel (\<lambda>p. jp_job_id p \<in> set ids) (progress d),
           jobs := tdel (\<lambda>j. tj_id j \<in> set ids) (jobs d)\<rparr>))"

text \<open>\<open>get\<close>: a read that enforces the retention and the deadline of what it finds.\<close>

definition read_job ::
  "time \<Rightarrow> string \<Rightarrow> string \<Rightarrow> 'a jobs_db_scheme \<Rightarrow> turn_job option \<times> 'a jobs_db_scheme" where
  "read_job now k connection d =
     (case get_job d k of
        None \<Rightarrow> (None, d)
      | Some j \<Rightarrow>
          if tj_connection_id j \<noteq> connection then (None, d)
          else if is_due (tj_expires_at j) now then (None, snd (cleanup now d))
          else if job_active j \<and> is_due (tj_deadline_at j) now then
            (let d' = snd (fail_job now k JobTimedOut ''deadline_exceeded'' d) in (get_job d' k, d'))
          else (Some j, d))"

definition mark_running :: "time \<Rightarrow> string \<Rightarrow> 'a jobs_db_scheme \<Rightarrow> turn_job option \<times> 'a jobs_db_scheme" where
  "mark_running now k d =
     (case get_job d k of
        None \<Rightarrow> (None, d)
      | Some j \<Rightarrow>
          if tj_status j \<noteq> JobQueued then (None, d)
          else
            (let d' = (if is_due (tj_deadline_at j) now
                  then put_job k (\<lambda>j. j\<lparr>tj_status := JobTimedOut, tj_error_code := ''deadline_exceeded'',
                                        tj_completed_at := Some now, tj_updated_at := now\<rparr>) d
                  else put_job k (\<lambda>j. j\<lparr>tj_status := JobRunning, tj_updated_at := now\<rparr>) d) in
             (get_job d' k, d')))"

definition response_step_id :: "json \<Rightarrow> string" where
  "response_step_id v =
     (case v of
        JObj d \<Rightarrow> (case jget d ''step_id'' (JStr []) of JStr s \<Rightarrow> s | _ \<Rightarrow> [])
      | _ \<Rightarrow> [])"

definition complete_job ::
  "time \<Rightarrow> string \<Rightarrow> string \<Rightarrow> json_text \<Rightarrow> 'a jobs_db_scheme \<Rightarrow> (unit, 'a jobs_db_scheme) outcome" where
  "complete_job now k field result d =
     (case get_job d k of
        None \<Rightarrow> (Inr (), d)
      | Some j \<Rightarrow>
          if tj_status j \<noteq> JobRunning then (Inr (), d)
          else if is_due (tj_deadline_at j) now
          then (Inr (), snd (fail_job now k JobTimedOut ''deadline_exceeded'' d))
          else
            (case loads result of
               None \<Rightarrow> (Inl (ValueError ''JSONDecodeError''), d)
             | Some response \<Rightarrow>
                 (Inr (),
                  put_job k (\<lambda>j. j\<lparr>tj_request := empty_object, tj_status := JobSucceeded,
                      tj_completed_at := Some now, tj_updated_at := now,
                      tj_reply := (if field = ''reply'' then result else tj_reply j),
                      tj_social_step := (if field = ''reply'' then tj_social_step j else result),
                      tj_runtime_step_id := response_step_id response\<rparr>) d)))"

definition is_running :: "time \<Rightarrow> string \<Rightarrow> 'a jobs_db_scheme \<Rightarrow> bool" where
  "is_running now k d \<longleftrightarrow>
     (case get_job d k of
        None \<Rightarrow> False
      | Some j \<Rightarrow> k \<noteq> [] \<and> tj_status j = JobRunning \<and> now < tj_deadline_at j)"

section \<open>Cancelling\<close>

definition cancel_job ::
  "time \<Rightarrow> string \<Rightarrow> string \<Rightarrow> string \<Rightarrow> string \<Rightarrow> 'a jobs_db_scheme \<Rightarrow> bool \<times> 'a jobs_db_scheme" where
  "cancel_job now k owner connection reason d =
     (case get_job d k of
        None \<Rightarrow> (False, d)
      | Some j \<Rightarrow>
          if tj_owner_id j \<noteq> owner \<or> tj_connection_id j \<noteq> connection \<or> terminal (tj_status j)
          then (False, d)
          else fail_job now k JobCancelled reason d)"

text \<open>\<open>_cancel_generated_delivery\<close>: the compare-and-set against the connector's delivery claim.\<close>

definition cancelled_step :: "time \<Rightarrow> runtime_step \<Rightarrow> runtime_step" where
  "cancelled_step now st =
     st\<lparr>st_status := StepFailed, st_response := empty_object,
        st_last_error := ''turn_job_cancelled_before_delivery'', st_updated_at := now\<rparr>"

definition cancelled_job :: "time \<Rightarrow> string \<Rightarrow> turn_job \<Rightarrow> turn_job" where
  "cancelled_job now reason j =
     j\<lparr>tj_request := empty_object, tj_reply := Malformed [], tj_social_step := Malformed [],
       tj_status := JobCancelled, tj_error_code := take 80 reason, tj_completed_at := Some now,
       tj_updated_at := now\<rparr>"

definition cancel_generated_delivery ::
  "time \<Rightarrow> turn_job \<Rightarrow> string \<Rightarrow> 'a jobs_db_scheme \<Rightarrow> bool \<times> 'a jobs_db_scheme" where
  "cancel_generated_delivery now j reason d =
     (if tj_runtime_step_id j = [] then (False, d)
      else
        (case get_step d (tj_runtime_step_id j) of
           None \<Rightarrow> (False, d)
         | Some st \<Rightarrow>
             if st_deployment_id st \<noteq> tj_deployment_id j then (False, d)
             else
               (case get_operation d (st_operation_id st) of
                  None \<Rightarrow> (False, d)
                | Some r \<Rightarrow>
                    if r \<notin> set (runtime_operations j d) then (False, d)
                    else if st_status st \<noteq> Generated then (False, d)
                    else if map_option tj_status (get_job d (tj_id j)) \<noteq> Some JobSucceeded then (False, d)
                    else
                      (True,
                       put_operation (op_id r)
                         (\<lambda>r. r\<lparr>op_status := OpFailed, op_last_error := ''turn_job_cancelled_before_delivery'',
                                op_updated_at := now\<rparr>)
                         (put_step (st_id st) (cancelled_step now)
                           (put_job (tj_id j) (cancelled_job now reason) d))))))"

record cancel_scope =
  cn_scope :: room_scope
  cn_deployment_id :: string
  cn_category_id :: string
  cn_message_id :: string
  cn_author_id :: string
  cn_reason :: string

definition cancellable :: "cancel_scope \<Rightarrow> turn_job \<Rightarrow> bool" where
  "cancellable c j \<longleftrightarrow>
     tj_owner_id j = sc_owner_id (cn_scope c) \<and> tj_connection_id j = sc_connection_id (cn_scope c)
     \<and> tj_deployment_id j = cn_deployment_id c \<and> tj_guild_id j = sc_guild_id (cn_scope c)
     \<and> tj_channel_id j = sc_channel_id (cn_scope c) \<and> tj_thread_id j = sc_thread_id (cn_scope c)
     \<and> tj_category_id j = cn_category_id c \<and> tj_source_message_id j = cn_message_id c
     \<and> tj_source_author_id j = cn_author_id c
     \<and> (job_active j \<or> tj_status j = JobSucceeded)"

text \<open>One candidate, read before the transitions of the earlier ones.\<close>

definition cancel_candidate ::
  "time \<Rightarrow> cancel_scope \<Rightarrow> turn_job \<Rightarrow> string list \<times> 'a jobs_db_scheme \<Rightarrow> string list \<times> 'a jobs_db_scheme" where
  "cancel_candidate now c j acc =
     (case acc of (cancelled, d) \<Rightarrow>
        if job_active j then
          (case cancel_job now (tj_id j) (sc_owner_id (cn_scope c)) (sc_connection_id (cn_scope c))
                  (cn_reason c) d of
             (True, d') \<Rightarrow> (cancelled @ [tj_id j], d')
           | (False, d') \<Rightarrow>
               (case get_job d' (tj_id j) of
                  None \<Rightarrow> (cancelled, d')
                | Some completed \<Rightarrow>
                    if tj_status completed \<noteq> JobSucceeded then (cancelled, d')
                    else
                      (case cancel_generated_delivery now completed (cn_reason c) d' of
                         (True, d2) \<Rightarrow> (cancelled @ [tj_id j], d2)
                       | (False, d2) \<Rightarrow> (cancelled, d2))))
        else
          (case cancel_generated_delivery now j (cn_reason c) d of
             (True, d') \<Rightarrow> (cancelled @ [tj_id j], d')
           | (False, d') \<Rightarrow> (cancelled, d')))"

definition cancel_matching_request ::
  "time \<Rightarrow> cancel_scope \<Rightarrow> 'a jobs_db_scheme \<Rightarrow> string list \<times> 'a jobs_db_scheme" where
  "cancel_matching_request now c d =
     fold (cancel_candidate now c) (filter (cancellable c) (jobs d)) ([], d)"

section \<open>Progress\<close>

definition normalized_progress :: "string \<Rightarrow> string" where
  "normalized_progress txt = take 500 (join '' '' (split_by is_space txt))"

definition publish_progress ::
  "string \<Rightarrow> string \<Rightarrow> 'a jobs_db_scheme \<Rightarrow> (bool, 'a jobs_db_scheme) outcome" where
  "publish_progress k txt d =
     (let normalized = normalized_progress txt;
          count = tcount (\<lambda>p. jp_job_id p = k) (progress d) in
      if normalized = [] then (Inr False, d)
      else
        (case get_job d k of
           None \<Rightarrow> (Inr False, d)
         | Some j \<Rightarrow>
             if \<not> job_active j then (Inr False, d)
             else if 3 \<le> count then (Inr False, d)
             else if list_ex (\<lambda>p. jp_job_id p = k \<and> jp_ordinal p = count) (progress d)
             then (Inl IntegrityError, d)
             else
               (Inr True,
                d\<lparr>progress := tins \<lparr>jp_id = progress_seq d, jp_job_id = k, jp_ordinal = count,
                    jp_text = normalized, jp_claim_nonce = [], jp_acknowledged_at = None\<rparr> (progress d),
                  progress_seq := progress_seq d + 1\<rparr>)))"

definition list_progress :: "string \<Rightarrow> 'a jobs_db_scheme \<Rightarrow> job_progress list" where
  "list_progress k d = sort_key jp_ordinal (filter (\<lambda>p. jp_job_id p = k) (progress d))"

text \<open>The loop of \<open>claim_progress\<close> ends at the first notice that is not acknowledged.\<close>

definition claim_progress ::
  "string \<Rightarrow> string \<Rightarrow> 'a jobs_db_scheme \<Rightarrow> job_progress option \<times> 'a jobs_db_scheme" where
  "claim_progress k nonce d =
     (if nonce = [] \<or> 64 < length nonce then (None, d)
      else
        (case get_job d k of
           None \<Rightarrow> (None, d)
         | Some j \<Rightarrow>
             if \<not> (job_active j \<or> tj_status j = JobSucceeded) then (None, d)
             else
               (case find (\<lambda>p. jp_acknowledged_at p = None) (list_progress k d) of
                  None \<Rightarrow> (None, d)
                | Some p \<Rightarrow>
                    if jp_claim_nonce p = nonce then (Some p, d)
                    else if jp_claim_nonce p \<noteq> [] then (None, d)
                    else
                      (Some (p\<lparr>jp_claim_nonce := nonce\<rparr>),
                       d\<lparr>progress := tset (\<lambda>q. jp_id q = jp_id p \<and> jp_claim_nonce q = []
                             \<and> jp_acknowledged_at q = None) (\<lambda>q. q\<lparr>jp_claim_nonce := nonce\<rparr>) (progress d)\<rparr>))))"

definition acknowledge_progress ::
  "time \<Rightarrow> string \<Rightarrow> nat \<Rightarrow> string \<Rightarrow> 'a jobs_db_scheme \<Rightarrow> bool \<times> 'a jobs_db_scheme" where
  "acknowledge_progress now k pid nonce d =
     (case tget jp_id (progress d) pid of
        None \<Rightarrow> (False, d)
      | Some p \<Rightarrow>
          if jp_job_id p \<noteq> k \<or> nonce = [] \<or> jp_claim_nonce p \<noteq> nonce then (False, d)
          else
            (True,
             d\<lparr>progress := tset (\<lambda>q. jp_id q = pid \<and> jp_acknowledged_at q = None)
                 (\<lambda>q. q\<lparr>jp_acknowledged_at := Some now\<rparr>) (progress d)\<rparr>))"

section \<open>Maintenance and recovery\<close>

definition stop_jobs :: "time \<Rightarrow> string list \<Rightarrow> 'a jobs_db_scheme \<Rightarrow> 'a jobs_db_scheme" where
  "stop_jobs now ids d = fold (\<lambda>k d. snd (fail_job now k JobStopped ''service_stopped'' d)) ids d"

definition expire_deadlines :: "time \<Rightarrow> 'a jobs_db_scheme \<Rightarrow> nat \<times> 'a jobs_db_scheme" where
  "expire_deadlines now d =
     (let ids = map tj_id (filter (\<lambda>j. job_active j \<and> tj_deadline_at j < now) (jobs d)) in
      (length ids, fold (\<lambda>k d. snd (fail_job now k JobTimedOut ''deadline_exceeded'' d)) ids d))"

definition notice_due :: "turn_job \<Rightarrow> bool" where
  "notice_due j \<longleftrightarrow>
     tj_status j \<in> {JobFailed, JobTimedOut, JobStopped} \<and> tj_final_notice_ack_at j = None"

text \<open>A success is recoverable while its step is generated in an open operation of the same tenant.\<close>

definition undelivered :: "'a runtime_db_scheme \<Rightarrow> turn_job \<Rightarrow> bool" where
  "undelivered d j \<longleftrightarrow>
     (case get_step d (tj_runtime_step_id j) of
        None \<Rightarrow> False
      | Some st \<Rightarrow>
          st_deployment_id st = tj_deployment_id j \<and> st_status st = Generated
          \<and> (case get_operation d (st_operation_id st) of
               None \<Rightarrow> False
             | Some r \<Rightarrow>
                 op_owner_id r = tj_owner_id j \<and> op_connection_id r = tj_connection_id j
                 \<and> open_operation (op_status r)))"

definition list_recoverable ::
  "time \<Rightarrow> string \<Rightarrow> int \<Rightarrow> string \<Rightarrow> 'a jobs_db_scheme \<Rightarrow> turn_job list" where
  "list_recoverable now connection limit after d =
     tlimit (clip 1 100 limit)
       (sort_key tj_id
         (filter (\<lambda>j. tj_connection_id j = connection \<and> tj_kind j = ''message'' \<and> after < tj_id j
             \<and> now < tj_expires_at j
             \<and> (job_active j \<or> (tj_status j = JobSucceeded \<and> undelivered d j) \<or> notice_due j))
           (jobs d)))"

definition acknowledge_final_notice ::
  "time \<Rightarrow> string \<Rightarrow> string \<Rightarrow> 'a jobs_db_scheme \<Rightarrow> bool \<times> 'a jobs_db_scheme" where
  "acknowledge_final_notice now k connection d =
     (let P = (\<lambda>j. tj_id j = k \<and> tj_connection_id j = connection \<and> notice_due j) in
      (tcount P (jobs d) = 1,
       d\<lparr>jobs := tset P (\<lambda>j. j\<lparr>tj_final_notice_ack_at := Some now, tj_updated_at := now\<rparr>) (jobs d)\<rparr>))"

section \<open>The runtime leaves the tables of the jobs alone\<close>

lemma more_frames [simp]:
  "runtime_db.more (put_operation k f d) = runtime_db.more d"
  "runtime_db.more (put_step s g d) = runtime_db.more d"
  "runtime_db.more (put_effect e p d) = runtime_db.more d"
  "runtime_db.more (save_operation now k f d) = runtime_db.more d"
  "runtime_db.more (save_step now s g d) = runtime_db.more d"
  "runtime_db.more (save_steps now P g d) = runtime_db.more d"
  "runtime_db.more (save_effects now Q p d) = runtime_db.more d"
  by (simp_all add: put_operation_def put_step_def put_effect_def save_operation_def save_step_def
      save_steps_def save_effects_def)

lemma fold_more:
  "(\<And>x d. runtime_db.more (f x d) = runtime_db.more d) \<Longrightarrow> runtime_db.more (fold f xs d) = runtime_db.more d"
  by (induction xs arbitrary: d) simp_all

lemma more_scrub [simp]:
  "runtime_db.more (scrub_side_effect_payloads now s d) = runtime_db.more d"
  "runtime_db.more (scrub_completed_operation now k d) = runtime_db.more d"
  "runtime_db.more (advance_operation now k cursor d) = runtime_db.more d"
  by (simp_all add: scrub_side_effect_payloads_def scrub_completed_operation_def fold_more advance_operation_def)

lemma more_reserve [simp]:
  "runtime_db.more (snd (reserve_generation_attempt now r d)) = runtime_db.more d"
  by (simp add: reserve_generation_attempt_def Let_def split: sum.split)

lemma more_prepare [simp]:
  "runtime_db.more (snd (prepare_social_step h now operation index dep hash d)) = runtime_db.more d"
proof -
  have rsv: "runtime_db.more d' = runtime_db.more d" if "reserve_generation_attempt now r d = (res, d')" for r res d'
    using more_reserve [of now r d] that by simp
  show ?thesis
    by (cases rule: prepare_cases [of h now operation index dep hash d]) (auto dest: rsv)
qed

lemma more_recover [simp]: "runtime_db.more (snd (recover_interrupted now d)) = runtime_db.more d"
  by (simp add: recover_interrupted_def Let_def fold_more recover_generating_def recover_refreshing_def
      recover_claimed_def interrupt_operation_def split: option.split)

lemma more_settle_delivery [simp]:
  "runtime_db.more (settle_delivery now a cursor r d) = runtime_db.more d"
  by (simp add: settle_delivery_def Let_def)

lemma run_command_more: "runtime_db.more (run_command h v c d) = runtime_db.more d"
proof (cases c)
  case (Acknowledge now a)
  then show ?thesis by (cases rule: acknowledge_cases [of h now a d]) simp_all
qed (auto simp: claim_character_operation_def resume_character_operation_def
    claim_social_operation_def fail_social_step_def complete_social_step_generation_def
    claim_delivery_def settle_claim_def mark_delivery_uncertain_def claim_side_effect_def
    complete_side_effect_def release_side_effect_claim_def delete_operations_def Let_def
    split: option.split sum.split)

lemma job_tables_of_more:
  fixes d d' :: "'a jobs_db_scheme"
  assumes "runtime_db.more d' = runtime_db.more d"
  shows "jobs d' = jobs d" "progress d' = progress d" "progress_seq d' = progress_seq d"
    "trace_runs d' = trace_runs d" "trace_rows d' = trace_rows d"
  using assms by (cases d; cases d'; simp)+

lemma interrupt_more [simp]: "runtime_db.more (interrupt_runtime now r d) = runtime_db.more d"
  by (simp add: interrupt_runtime_def)

lemma interrupt_tables [simp]:
  fixes d :: "'a jobs_db_scheme"
  shows "jobs (fold (interrupt_runtime now) rs d) = jobs d"
    "progress (fold (interrupt_runtime now) rs d) = progress d"
    "progress_seq (fold (interrupt_runtime now) rs d) = progress_seq d"
  by (rule job_tables_of_more; simp add: fold_more)+

section \<open>What the operations do to a job\<close>

definition job_state :: "'a jobs_db_scheme \<Rightarrow> string \<Rightarrow> job_status option" where
  "job_state d k = map_option tj_status (get_job d k)"

lemma terminal_simps [simp]:
  "terminal v \<longleftrightarrow> v \<noteq> JobQueued \<and> v \<noteq> JobRunning"
  by (cases v) (simp_all add: terminal_def terminal_jobs_def)

lemma get_put_job [table_simps]:
  assumes "\<And>r. tj_id (f r) = tj_id r"
  shows "get_job (put_job k f d) k' = (if k' = k then map_option f (get_job d k) else get_job d k')"
  unfolding put_job_def using job_table.get_modify [of f k d k'] assms by simp

lemma put_job_frames [simp]:
  "progress (put_job k f d) = progress d" "progress_seq (put_job k f d) = progress_seq d"
  "operations (put_job k f d) = operations d" "steps (put_job k f d) = steps d"
  "effects (put_job k f d) = effects d"
  by (simp_all add: put_job_def)

lemma runtime_puts_jobs [simp]:
  "jobs (put_operation k f d) = jobs d" "jobs (put_step s g d) = jobs d"
  "progress (put_operation k f d) = progress d" "progress (put_step s g d) = progress d"
  "progress_seq (put_operation k f d) = progress_seq d" "progress_seq (put_step s g d) = progress_seq d"
  by (simp_all add: put_operation_def put_step_def)

lemma job_row_simps [simp]:
  "tj_id (ended_job now v err j) = tj_id j" "tj_status (ended_job now v err j) = v"
  "tj_final_notice_ack_at (ended_job now v err j) = tj_final_notice_ack_at j"
  "tj_id (cancelled_job now reason j) = tj_id j" "tj_status (cancelled_job now reason j) = JobCancelled"
  "tj_final_notice_ack_at (cancelled_job now reason j) = tj_final_notice_ack_at j"
  by (simp_all add: ended_job_def cancelled_job_def)

text \<open>A failure ends one active job; its effect on the rows of the table.\<close>

lemma fail_jobs:
  "jobs (snd (fail_job now k v err d)) =
    (if fst (fail_job now k v err d) then tset (\<lambda>r. tj_id r = k) (ended_job now v err) (jobs d) else jobs d)"
  "progress (snd (fail_job now k v err d)) = progress d"
  "progress_seq (snd (fail_job now k v err d)) = progress_seq d"
  by (auto simp: fail_job_def Let_def put_job_def split: option.split)

lemma fail_granted:
  "fst (fail_job now k v err d) \<longleftrightarrow> job_state d k = Some JobQueued \<or> job_state d k = Some JobRunning"
  by (auto simp: fail_job_def job_state_def Let_def split: option.split)

lemma job_state_fail:
  "job_state (snd (fail_job now k v err d)) k' =
    (if k' = k \<and> (job_state d k = Some JobQueued \<or> job_state d k = Some JobRunning)
     then Some v else job_state d k')"
proof (cases "fst (fail_job now k v err d)")
  case True
  then show ?thesis
    using fail_granted [of now k v err d]
    by (cases "get_job d k'") (auto simp: job_state_def fail_jobs tget_tset dest: tget_key)
next
  case False
  then have "\<not> (job_state d k = Some JobQueued \<or> job_state d k = Some JobRunning)"
    by (simp add: fail_granted)
  moreover have "job_state (snd (fail_job now k v err d)) k' = job_state d k'"
    using False by (simp add: job_state_def fail_jobs)
  ultimately show ?thesis by auto
qed

section \<open>The repository as a transition function\<close>

text \<open>The operations of the jobs, with those of the durable runtime on the same database.\<close>

datatype job_command =
    JSubmit int time job_request
  | JRead time string string
  | JMarkRunning time string
  | JComplete time string string json_text
  | JFail time string job_status string
  | JCancelMatching time cancel_scope
  | JPublish string string
  | JClaimProgress string string
  | JAckProgress time string nat string
  | JStop time "string list"
  | JExpire time
  | JCleanup time
  | JDeleteOwner string
  | JAckNotice time string string
  | JRuntime runtime_command

fun run_job ::
  "digests \<Rightarrow> (runtime_operation \<Rightarrow> runtime_step \<Rightarrow> error option) \<Rightarrow> job_command
    \<Rightarrow> 'a jobs_db_scheme \<Rightarrow> 'a jobs_db_scheme" where
  "run_job h p (JSubmit n now q) d = snd (submit_job h n now q d)"
| "run_job h p (JRead now k connection) d = snd (read_job now k connection d)"
| "run_job h p (JMarkRunning now k) d = snd (mark_running now k d)"
| "run_job h p (JComplete now k field result) d = snd (complete_job now k field result d)"
| "run_job h p (JFail now k v err) d = snd (fail_job now k v err d)"
| "run_job h p (JCancelMatching now c) d = snd (cancel_matching_request now c d)"
| "run_job h p (JPublish k txt) d = snd (publish_progress k txt d)"
| "run_job h p (JClaimProgress k nonce) d = snd (claim_progress k nonce d)"
| "run_job h p (JAckProgress now k pid nonce) d = snd (acknowledge_progress now k pid nonce d)"
| "run_job h p (JStop now ids) d = stop_jobs now ids d"
| "run_job h p (JExpire now) d = snd (expire_deadlines now d)"
| "run_job h p (JCleanup now) d = snd (cleanup now d)"
| "run_job h p (JDeleteOwner owner) d = snd (delete_owner owner d)"
| "run_job h p (JAckNotice now k connection) d = snd (acknowledge_final_notice now k connection d)"
| "run_job h p (JRuntime c) d = run_command h p c d"

text \<open>The operations that may delete jobs.\<close>

fun removes_jobs :: "job_command \<Rightarrow> bool" where
  "removes_jobs (JRead now k connection) = True"
| "removes_jobs (JCleanup now) = True"
| "removes_jobs (JDeleteOwner owner) = True"
| "removes_jobs _ = False"

text \<open>A loop of failures.\<close>

definition fail_all :: "time \<Rightarrow> job_status \<Rightarrow> string \<Rightarrow> string list \<Rightarrow> 'a jobs_db_scheme \<Rightarrow> 'a jobs_db_scheme" where
  "fail_all now v err ids d = fold (\<lambda>k d. snd (fail_job now k v err d)) ids d"

lemma stop_jobs_eq: "stop_jobs now ids d = fail_all now JobStopped ''service_stopped'' ids d"
  by (simp add: stop_jobs_def fail_all_def)

lemma expire_deadlines_eq:
  "snd (expire_deadlines now d) = fail_all now JobTimedOut ''deadline_exceeded''
     (map tj_id (filter (\<lambda>j. job_active j \<and> tj_deadline_at j < now) (jobs d))) d"
  by (simp add: expire_deadlines_def fail_all_def Let_def)

lemma fail_all_induct:
  assumes "P d" and "\<And>k d. P d \<Longrightarrow> P (snd (fail_job now k v err d))"
  shows "P (fail_all now v err ids d)"
  using assms(1) by (induction ids arbitrary: d) (simp_all add: fail_all_def assms(2))

lemma cancel_generated_cases:
  obtains (refused) "cancel_generated_delivery now j reason d = (False, d)"
  | (granted) st r where "get_step d (tj_runtime_step_id j) = Some st"
      and "get_operation d (st_operation_id st) = Some r" and "r \<in> set (runtime_operations j d)"
      and "st_status st = Generated" and "job_state d (tj_id j) = Some JobSucceeded"
      and "cancel_generated_delivery now j reason d =
        (True, put_operation (op_id r)
           (\<lambda>r. r\<lparr>op_status := OpFailed, op_last_error := ''turn_job_cancelled_before_delivery'',
                  op_updated_at := now\<rparr>)
           (put_step (st_id st) (cancelled_step now) (put_job (tj_id j) (cancelled_job now reason) d)))"
proof (cases "get_step d (tj_runtime_step_id j)")
  case None
  then show thesis by (intro refused) (simp add: cancel_generated_delivery_def)
next
  case st: (Some st)
  show thesis
  proof (cases "get_operation d (st_operation_id st)")
    case None
    with st show thesis by (intro refused) (simp add: cancel_generated_delivery_def)
  next
    case r: (Some r)
    show thesis
    proof (cases "tj_runtime_step_id j \<noteq> [] \<and> st_deployment_id st = tj_deployment_id j
        \<and> r \<in> set (runtime_operations j d) \<and> st_status st = Generated
        \<and> job_state d (tj_id j) = Some JobSucceeded")
      case True
      with st r show thesis
        by (intro granted [of st r]) (simp_all add: cancel_generated_delivery_def job_state_def)
    next
      case False
      with st r show thesis
        by (intro refused) (auto simp: cancel_generated_delivery_def job_state_def)
    qed
  qed
qed

lemma cancel_generated_jobs:
  "fst (cancel_generated_delivery now j reason d) \<Longrightarrow>
    jobs (snd (cancel_generated_delivery now j reason d)) =
      tset (\<lambda>r. tj_id r = tj_id j) (cancelled_job now reason) (jobs d)
    \<and> job_state d (tj_id j) = Some JobSucceeded"
  "\<not> fst (cancel_generated_delivery now j reason d) \<Longrightarrow> snd (cancel_generated_delivery now j reason d) = d"
  "progress (snd (cancel_generated_delivery now j reason d)) = progress d"
  "progress_seq (snd (cancel_generated_delivery now j reason d)) = progress_seq d"
  by (cases rule: cancel_generated_cases [of now j reason d]; simp add: put_job_def)+

lemma cancel_job_cases:
  "cancel_job now k owner connection reason d = (False, d)
    \<or> cancel_job now k owner connection reason d = fail_job now k JobCancelled reason d"
  by (auto simp: cancel_job_def split: option.split)

text \<open>A cancellation is a sequence of failures and of cancelled deliveries.\<close>

lemma cancel_matching_induct:
  assumes "P d" and "\<And>k d. P d \<Longrightarrow> P (snd (fail_job now k JobCancelled (cn_reason c) d))"
    and "\<And>j d. P d \<Longrightarrow> P (snd (cancel_generated_delivery now j (cn_reason c) d))"
  shows "P (snd (cancel_matching_request now c d))"
proof -
  have one: "P (snd (cancel_candidate now c j (ids, d)))" if P: "P d" for j ids d
  proof -
    have cancel: "P d'" if "cancel_job now k x y (cn_reason c) d = (b, d')" for k x y b d'
      using cancel_job_cases [of now k x y "cn_reason c" d] assms(2) [OF P, of k] P that
      by (metis prod.sel(2))
    have deliver: "P d2" if "cancel_generated_delivery now i (cn_reason c) d' = (b, d2)" "P d'" for i b d' d2
      using assms(3) [OF that(2), of i] that(1) by simp
    show ?thesis
      using P
      by (auto simp: cancel_candidate_def split: prod.split bool.split option.split
          dest: cancel intro: deliver)
  qed
  have "P (snd (fold (cancel_candidate now c) js (ids, d)))" if "P d" for js ids d
    using that
  proof (induction js arbitrary: ids d)
    case (Cons j js)
    obtain ids' d' where e: "cancel_candidate now c j (ids, d) = (ids', d')"
      by (cases "cancel_candidate now c j (ids, d)")
    with one [OF Cons.prems, of j ids] have "P d'" by simp
    with Cons.IH e show ?case by simp
  qed simp
  with assms(1) show ?thesis by (simp add: cancel_matching_request_def)
qed

section \<open>A terminal status stays\<close>

definition ended :: "job_status \<Rightarrow> bool" where
  "ended v \<longleftrightarrow> terminal v \<and> v \<noteq> JobSucceeded"

lemma fail_keeps_ended:
  "job_state d k = Some v \<Longrightarrow> ended v \<Longrightarrow> job_state (snd (fail_job now k' v' err d)) k = Some v"
  by (auto simp: job_state_fail ended_def)

lemma cancel_keeps_ended:
  assumes "job_state d k = Some v" and "ended v"
  shows "job_state (snd (cancel_generated_delivery now j reason d)) k = Some v"
proof (cases "fst (cancel_generated_delivery now j reason d)")
  case True
  from cancel_generated_jobs(1) [OF True] assms have "k \<noteq> tj_id j" by (auto simp: ended_def)
  with cancel_generated_jobs(1) [OF True] assms show ?thesis
    by (cases "get_job d k") (auto simp: job_state_def tget_tset dest: tget_key)
next
  case False
  with assms show ?thesis by (simp add: cancel_generated_jobs(2))
qed

lemma job_state_cong: "jobs d' = jobs d \<Longrightarrow> job_state d' k = job_state d k"
  by (simp add: job_state_def)

lemma complete_state:
  "job_state (snd (complete_job now k' field result d)) k = job_state d k
    \<or> (k' = k \<and> job_state d k = Some JobRunning)"
proof (cases "k' = k")
  case True
  then show ?thesis by (auto simp: complete_job_def job_state_def split: option.split)
next
  case False
  then have "job_state (put_job k' f d) k = job_state d k" if "\<And>r. tj_id (f r) = tj_id r" for f
    using that by (simp add: job_state_def get_put_job)
  with False show ?thesis
    by (auto simp: complete_job_def job_state_fail split: option.split)
qed

lemma ended_stays:
  assumes st: "job_state d k = Some v" and v: "ended v" and c: "\<not> removes_jobs c"
  shows "job_state (run_job h p c d) k = Some v"
proof -
  have same: "jobs d' = jobs d \<Longrightarrow> job_state d' k = Some v" for d' :: "'a jobs_db_scheme"
    using st by (simp add: job_state_def)
  show ?thesis
  proof (cases c)
    case (JSubmit n now q)
    with st show ?thesis
      by (auto simp: submit_job_def Let_def job_state_def tget_tins split: option.split)
  next
    case (JMarkRunning now k')
    with st v show ?thesis
      by (auto simp: mark_running_def Let_def job_state_def get_put_job ended_def split: option.split)
  next
    case (JComplete now k' fld result)
    with st v show ?thesis
      using complete_state [of now k' fld result d k] by (auto simp: ended_def)
  next
    case (JFail now k' v' err)
    with st v show ?thesis by (simp add: fail_keeps_ended)
  next
    case (JCancelMatching now s)
    have "job_state (snd (cancel_matching_request now s d)) k = Some v"
      by (rule cancel_matching_induct) (blast intro: st fail_keeps_ended [OF _ v] cancel_keeps_ended [OF _ v])+
    with JCancelMatching show ?thesis by simp
  next
    case (JPublish k' msg)
    then show ?thesis by (intro same) (simp add: publish_progress_def Let_def split: option.split)
  next
    case (JClaimProgress k' nonce)
    then show ?thesis by (intro same) (simp add: claim_progress_def split: option.split)
  next
    case (JAckProgress now k' pid nonce)
    then show ?thesis by (intro same) (simp add: acknowledge_progress_def split: option.split)
  next
    case (JStop now ids)
    have "job_state (fail_all now JobStopped ''service_stopped'' ids d) k = Some v"
      by (rule fail_all_induct) (blast intro: st fail_keeps_ended [OF _ v])+
    with JStop show ?thesis by (simp add: stop_jobs_eq)
  next
    case (JExpire now)
    have "job_state (fail_all now JobTimedOut ''deadline_exceeded'' ids d) k = Some v" for ids
      by (rule fail_all_induct) (blast intro: st fail_keeps_ended [OF _ v])+
    with JExpire show ?thesis by (simp add: expire_deadlines_eq)
  next
    case (JAckNotice now k' connection)
    with st show ?thesis
      by (cases "get_job d k") (auto simp: acknowledge_final_notice_def Let_def job_state_def tget_tset)
  next
    case (JRuntime x)
    then show ?thesis by (intro same) (simp only: run_job.simps, rule job_tables_of_more(1), rule run_command_more)
  qed (use c in simp_all)
qed

interpretation turn_jobs: terminal_status "run_job h p" job_state ended removes_jobs
  by unfold_locales (rule ended_stays)


section \<open>Progress notices\<close>

lemma fail_all_progress [simp]:
  "progress (fail_all now v err ids d) = progress d" "progress_seq (fail_all now v err ids d) = progress_seq d"
  by (induction ids arbitrary: d) (simp_all add: fail_all_def fail_jobs)

lemma cancel_matching_progress [simp]:
  "progress (snd (cancel_matching_request now c d)) = progress d
    \<and> progress_seq (snd (cancel_matching_request now c d)) = progress_seq d"
  by (rule cancel_matching_induct [where P = "\<lambda>x. progress x = progress d \<and> progress_seq x = progress_seq d"])
    (simp_all add: fail_jobs cancel_generated_jobs(3,4))

lemma tdel_none: "\<forall>r \<in> set t. \<not> P r \<Longrightarrow> tdel P t = t"
  by (simp add: tdel_def filter_id_conv)

lemma cleanup_progress:
  "progress (snd (cleanup now d)) =
    tdel (\<lambda>q. jp_job_id q \<in> set (map tj_id (filter (\<lambda>j. tj_expires_at j < now) (jobs d)))) (progress d)"
  "progress_seq (snd (cleanup now d)) = progress_seq d"
  by (simp_all add: cleanup_def Let_def tdel_none del: set_map set_filter)

lemma delete_owner_progress:
  "progress (snd (delete_owner owner d)) =
    tdel (\<lambda>q. jp_job_id q \<in> set (map tj_id (filter (\<lambda>j. tj_owner_id j = owner) (jobs d)))) (progress d)"
  "progress_seq (snd (delete_owner owner d)) = progress_seq d"
  by (simp_all add: delete_owner_def Let_def tdel_none del: set_map set_filter)

text \<open>The five ways an operation changes the notices.\<close>

lemma progress_cases:
  obtains (same) "progress (run_job h p c d) = progress d" "progress_seq (run_job h p c d) = progress_seq d"
  | (deleted) K where "progress (run_job h p c d) = tdel (\<lambda>q. jp_job_id q \<in> K) (progress d)"
      and "progress_seq (run_job h p c d) = progress_seq d"
  | (published) k msg where "c = JPublish k msg" and "tcount (\<lambda>q. jp_job_id q = k) (progress d) < 3"
      and "progress (run_job h p c d) = tins \<lparr>jp_id = progress_seq d, jp_job_id = k,
          jp_ordinal = tcount (\<lambda>q. jp_job_id q = k) (progress d), jp_text = normalized_progress msg,
          jp_claim_nonce = [], jp_acknowledged_at = None\<rparr> (progress d)"
      and "progress_seq (run_job h p c d) = progress_seq d + 1"
  | (claimed) k nonce q where "c = JClaimProgress k nonce" and "nonce \<noteq> []" and "q \<in> set (progress d)"
      and "jp_claim_nonce q = []" and "jp_job_id q = k" and "jp_acknowledged_at q = None"
      and "progress (run_job h p c d) = tset (\<lambda>x. jp_id x = jp_id q \<and> jp_claim_nonce x = []
          \<and> jp_acknowledged_at x = None) (\<lambda>x. x\<lparr>jp_claim_nonce := nonce\<rparr>) (progress d)"
      and "progress_seq (run_job h p c d) = progress_seq d"
      and "fst (claim_progress k nonce d) = Some (q\<lparr>jp_claim_nonce := nonce\<rparr>)"
  | (acknowledged) now k pid nonce where "c = JAckProgress now k pid nonce"
      and "progress (run_job h p c d) = tset (\<lambda>q. jp_id q = pid \<and> jp_acknowledged_at q = None)
          (\<lambda>q. q\<lparr>jp_acknowledged_at := Some now\<rparr>) (progress d)"
      and "progress_seq (run_job h p c d) = progress_seq d"
proof (cases c)
  case (JRead now k connection)
  have read: "snd (read_job now k connection d) = d \<or> snd (read_job now k connection d) = snd (cleanup now d)
      \<or> snd (read_job now k connection d) = snd (fail_job now k JobTimedOut ''deadline_exceeded'' d)"
    by (simp add: read_job_def Let_def split: option.split)
  show thesis
    using read
  proof (elim disjE)
    assume "snd (read_job now k connection d) = snd (cleanup now d)"
    with JRead show thesis by (intro deleted) (simp only: run_job.simps cleanup_progress)+
  qed (use JRead in \<open>intro same; simp add: fail_jobs\<close>)+
next
  case (JPublish k msg)
  show thesis
  proof (cases "publish_progress k msg d = (Inr True, snd (publish_progress k msg d))")
    case True
    with JPublish show thesis
      by (intro published [of k msg])
        (auto simp: publish_progress_def Let_def split: option.splits if_splits)
  next
    case False
    with JPublish show thesis
      by (intro same) (auto simp: publish_progress_def Let_def split: option.splits if_splits)
  qed
next
  case (JClaimProgress k nonce)
  show thesis
  proof (cases "snd (claim_progress k nonce d) = d")
    case True
    with JClaimProgress show thesis by (intro same) simp_all
  next
    case False
    then obtain q where q: "find (\<lambda>p. jp_acknowledged_at p = None) (list_progress k d) = Some q"
      and n: "jp_claim_nonce q = []" "nonce \<noteq> []"
      and e: "claim_progress k nonce d = (Some (q\<lparr>jp_claim_nonce := nonce\<rparr>),
        d\<lparr>progress := tset (\<lambda>x. jp_id x = jp_id q \<and> jp_claim_nonce x = [] \<and> jp_acknowledged_at x = None)
          (\<lambda>x. x\<lparr>jp_claim_nonce := nonce\<rparr>) (progress d)\<rparr>)"
      by (auto simp: claim_progress_def split: option.splits if_splits)
    from q have "q \<in> set (list_progress k d)" "jp_acknowledged_at q = None"
      by (auto simp: find_Some_iff)
    then have "q \<in> set (progress d)" "jp_job_id q = k" "jp_acknowledged_at q = None"
      by (simp_all add: list_progress_def)
    with JClaimProgress n e show thesis by (intro claimed [of k nonce q]) simp_all
  qed
next
  case (JAckProgress now k pid nonce)
  show thesis
  proof (cases "fst (acknowledge_progress now k pid nonce d)")
    case True
    with JAckProgress show thesis
      by (intro acknowledged [of now k pid nonce])
        (auto simp: acknowledge_progress_def split: option.splits if_splits)
  next
    case False
    with JAckProgress show thesis
      by (intro same) (auto simp: acknowledge_progress_def split: option.splits if_splits)
  qed
next
  case (JRuntime x)
  then show thesis
    by (intro same) (simp only: run_job.simps, rule job_tables_of_more, rule run_command_more)+
next
  case (JCleanup now)
  then show thesis by (intro deleted) (simp only: run_job.simps cleanup_progress)+
next
  case (JDeleteOwner owner)
  then show thesis by (intro deleted) (simp only: run_job.simps delete_owner_progress)+
qed (intro same; simp add: submit_job_def mark_running_def complete_job_def stop_jobs_eq
    expire_deadlines_eq acknowledge_final_notice_def fail_jobs Let_def split: option.split)+

definition progress_ok :: "'a jobs_db_scheme \<Rightarrow> bool" where
  "progress_ok d \<longleftrightarrow>
     keyed jp_id (progress d) \<and> (\<forall>q \<in> set (progress d). jp_id q < progress_seq d)
     \<and> (\<forall>k. map jp_ordinal (filter (\<lambda>q. jp_job_id q = k) (progress d))
           = [0..<tcount (\<lambda>q. jp_job_id q = k) (progress d)]
         \<and> tcount (\<lambda>q. jp_job_id q = k) (progress d) \<le> 3)"

lemma progress_ok_tset:
  assumes "progress_ok d" and f: "\<And>q. jp_id (f q) = jp_id q" "\<And>q. jp_job_id (f q) = jp_job_id q"
    "\<And>q. jp_ordinal (f q) = jp_ordinal q"
    and d': "progress d' = tset P f (progress d)" "progress_seq d' = progress_seq d"
  shows "progress_ok d'"
proof -
  have "map jp_ordinal (filter (\<lambda>q. jp_job_id q = k) (tset P f t)) = map jp_ordinal (filter (\<lambda>q. jp_job_id q = k) t)"
    and "tcount (\<lambda>q. jp_job_id q = k) (tset P f t) = tcount (\<lambda>q. jp_job_id q = k) t"
    for k and t :: "job_progress list"
    by (induction t) (simp_all add: tset_def tcount_def f)
  with assms show ?thesis
    by (auto simp: progress_ok_def keyed_tset f set_tset)
qed

lemma progress_ok_step: "progress_ok d \<Longrightarrow> progress_ok (run_job h p c d)"
proof (cases rule: progress_cases [of h p c d])
  case (deleted K)
  assume ok: "progress_ok d"
  have "filter (\<lambda>q. jp_job_id q = k) (tdel (\<lambda>q. jp_job_id q \<in> K) t)
      = (if k \<in> K then [] else filter (\<lambda>q. jp_job_id q = k) t)"
    for k and t :: "job_progress list"
    by (induction t) (auto simp: tdel_def)
  with ok deleted show ?thesis
    by (simp add: progress_ok_def keyed_tdel tcount_def)
next
  case (published k msg)
  assume ok: "progress_ok d"
  then have "tget jp_id (progress d) (progress_seq d) = None"
    by (auto simp: progress_ok_def tget_None_iff)
  with ok published have keyed: "keyed jp_id (progress (run_job h p c d))"
    by (simp only: published(3) keyed_tins) (simp add: progress_ok_def)
  have seq: "\<forall>q \<in> set (progress (run_job h p c d)). jp_id q < progress_seq (run_job h p c d)"
    using ok by (auto simp: published(3,4) progress_ok_def)
  have "map jp_ordinal (filter (\<lambda>q. jp_job_id q = i) (progress (run_job h p c d)))
      = [0..<tcount (\<lambda>q. jp_job_id q = i) (progress (run_job h p c d))]
    \<and> tcount (\<lambda>q. jp_job_id q = i) (progress (run_job h p c d)) \<le> 3" for i
  proof -
    have "map jp_ordinal (filter (\<lambda>q. jp_job_id q = i) (progress d)) = [0..<tcount (\<lambda>q. jp_job_id q = i) (progress d)]"
      and "tcount (\<lambda>q. jp_job_id q = i) (progress d) \<le> 3"
      using ok by (simp_all add: progress_ok_def)
    then show ?thesis
      using published(2) unfolding published(3) tcount_tins by (auto simp: tins_def)
  qed
  with keyed seq show ?thesis by (simp add: progress_ok_def)
next
  case (claimed k nonce q)
  assume "progress_ok d"
  then show ?thesis by (rule progress_ok_tset [OF _ _ _ _ claimed(7,8)]) simp_all
next
  case (acknowledged now k pid nonce)
  assume "progress_ok d"
  then show ?thesis by (rule progress_ok_tset [OF _ _ _ _ acknowledged(2,3)]) simp_all
qed (simp add: progress_ok_def)

interpretation job_progress: invariant_system "run_job h p" progress_ok
  by unfold_locales (rule progress_ok_step)

text \<open>A notice is handed out under one nonce only.\<close>

fun claims_notice :: "nat \<Rightarrow> job_command \<Rightarrow> 'a jobs_db_scheme \<Rightarrow> bool" where
  "claims_notice pid (JClaimProgress k nonce) d =
     (map_option jp_id (fst (claim_progress k nonce d)) = Some pid
      \<and> map_option jp_claim_nonce (tget jp_id (progress d) pid) = Some [])"
| "claims_notice pid _ d = False"

definition notice_open :: "nat \<Rightarrow> 'a jobs_db_scheme \<Rightarrow> bool" where
  "notice_open pid d \<longleftrightarrow>
     (case tget jp_id (progress d) pid of
        None \<Rightarrow> progress_seq d \<le> pid
      | Some q \<Rightarrow> jp_claim_nonce q = [])"

lemma claim_closes_notice:
  assumes ok: "progress_ok d" and g: "claims_notice pid c d"
  shows "\<not> notice_open pid (run_job h p c d)"
proof -
  from g obtain k nonce r where c: "c = JClaimProgress k nonce" and r: "fst (claim_progress k nonce d) = Some r"
    and pid: "jp_id r = pid" and free: "map_option jp_claim_nonce (tget jp_id (progress d) pid) = Some []"
    by (cases c) auto
  from r obtain q where q: "find (\<lambda>p. jp_acknowledged_at p = None) (list_progress k d) = Some q"
    and n: "nonce \<noteq> []" and id: "jp_id q = jp_id r"
    by (auto simp: claim_progress_def split: option.splits if_splits)
  from q have "q \<in> set (list_progress k d)" and unack: "jp_acknowledged_at q = None"
    by (auto simp: find_Some_iff)
  then have "tget jp_id (progress d) pid = Some q"
    using ok id pid by (auto simp: list_progress_def progress_ok_def tget_iff)
  with free q r n id c pid unack show ?thesis
    by (auto simp: claim_progress_def notice_open_def tget_tset split: option.splits if_splits)
qed

interpretation notice: at_most_once "run_job h p" "claims_notice pid" "notice_open pid" "\<lambda>_. False" progress_ok
proof unfold_locales
  fix c and d :: "'a jobs_db_scheme"
  show "progress_ok d \<Longrightarrow> progress_ok (run_job h p c d)" by (rule progress_ok_step)
  show "claims_notice pid c d \<Longrightarrow> notice_open pid d"
    by (cases c) (auto simp: notice_open_def)
  show "progress_ok d \<Longrightarrow> claims_notice pid c d \<Longrightarrow> \<not> notice_open pid (run_job h p c d)"
    by (rule claim_closes_notice)
  show "\<not> notice_open pid (run_job h p c d)" if ok: "progress_ok d" and closed: "\<not> notice_open pid d"
  proof (cases rule: progress_cases [of h p c d])
    case (deleted K)
    have "pid < progress_seq d" if "tget jp_id (progress d) pid = Some q" for q
      using ok that by (auto simp: progress_ok_def dest!: tget_SomeD)
    with deleted ok closed show ?thesis
      by (auto simp: notice_open_def tget_tdel progress_ok_def split: option.splits dest: tget_SomeD)
  next
    case (published k msg)
    with closed show ?thesis by (auto simp: notice_open_def tget_tins split: option.splits)
  next
    case (claimed k nonce q)
    with closed show ?thesis by (auto simp: notice_open_def tget_tset split: option.splits)
  next
    case (acknowledged now k i nonce)
    with closed show ?thesis by (auto simp: notice_open_def tget_tset split: option.splits)
  qed (use closed in \<open>simp add: notice_open_def split: option.splits\<close>)
qed simp


section \<open>The final notice\<close>

lemma keyed_fail: "keyed tj_id (jobs (snd (fail_job now k v err d))) = keyed tj_id (jobs d)"
  by (simp add: fail_jobs keyed_tset)

lemma keyed_cancel:
  "keyed tj_id (jobs (snd (cancel_generated_delivery now j reason d))) = keyed tj_id (jobs d)"
  by (cases rule: cancel_generated_cases [of now j reason d]) (simp_all add: put_job_def keyed_tset)

lemma keyed_jobs_step: "keyed tj_id (jobs d) \<Longrightarrow> keyed tj_id (jobs (run_job h p c d))"
proof (cases c)
  case (JSubmit n now q)
  assume "keyed tj_id (jobs d)"
  with JSubmit show ?thesis by (simp add: submit_job_def Let_def keyed_tins split: option.split)
next
  case (JRead now k connection)
  assume "keyed tj_id (jobs d)"
  with JRead show ?thesis
    by (auto simp: read_job_def cleanup_def Let_def keyed_fail keyed_tdel split: option.split)
next
  case (JMarkRunning now k)
  assume "keyed tj_id (jobs d)"
  with JMarkRunning show ?thesis
    by (auto simp: mark_running_def Let_def put_job_def keyed_tset split: option.split)
next
  case (JComplete now k fld result)
  assume "keyed tj_id (jobs d)"
  with JComplete show ?thesis
    by (auto simp: complete_job_def put_job_def keyed_tset keyed_fail split: option.split)
next
  case (JCancelMatching now s)
  assume "keyed tj_id (jobs d)"
  then have "keyed tj_id (jobs (snd (cancel_matching_request now s d)))"
    by (rule cancel_matching_induct [where P = "\<lambda>d. keyed tj_id (jobs d)"]) (simp_all add: keyed_fail keyed_cancel)
  with JCancelMatching show ?thesis by simp
next
  case (JStop now ids)
  assume "keyed tj_id (jobs d)"
  then have "keyed tj_id (jobs (fail_all now JobStopped ''service_stopped'' ids d))"
    by (rule fail_all_induct [where P = "\<lambda>d. keyed tj_id (jobs d)"]) (simp add: keyed_fail)
  with JStop show ?thesis by (simp add: stop_jobs_eq)
next
  case (JExpire now)
  assume "keyed tj_id (jobs d)"
  then have "keyed tj_id (jobs (fail_all now JobTimedOut ''deadline_exceeded'' ids d))" for ids
    by (rule fail_all_induct [where P = "\<lambda>d. keyed tj_id (jobs d)"]) (simp add: keyed_fail)
  with JExpire show ?thesis by (simp add: expire_deadlines_eq)
next
  case (JRuntime x)
  assume "keyed tj_id (jobs d)"
  moreover have "jobs (run_job h p c d) = jobs d"
    by (simp only: JRuntime run_job.simps, rule job_tables_of_more(1), rule run_command_more)
  ultimately show ?thesis by simp
qed (auto simp: keyed_fail publish_progress_def claim_progress_def acknowledge_progress_def cleanup_def
    delete_owner_def acknowledge_final_notice_def Let_def keyed_tdel keyed_tset split: option.split)

definition noticed :: "string \<Rightarrow> 'a jobs_db_scheme \<Rightarrow> bool" where
  "noticed k d \<longleftrightarrow>
     (case get_job d k of None \<Rightarrow> False | Some j \<Rightarrow> tj_final_notice_ack_at j \<noteq> None)"

lemma noticed_fail: "noticed k d \<Longrightarrow> noticed k (snd (fail_job now k' v err d))"
  by (auto simp: noticed_def fail_jobs tget_tset split: option.splits)

lemma noticed_cancel: "noticed k d \<Longrightarrow> noticed k (snd (cancel_generated_delivery now j reason d))"
  by (cases rule: cancel_generated_cases [of now j reason d]) (auto simp: noticed_def put_job_def tget_tset split: option.splits)

lemma noticed_stays:
  assumes n: "noticed k d" and c: "\<not> removes_jobs c"
  shows "noticed k (run_job h p c d)"
proof -
  have same: "jobs d' = jobs d \<Longrightarrow> noticed k d'" for d' :: "'a jobs_db_scheme"
    using n by (simp add: noticed_def)
  have all: "noticed k (fail_all now v err ids d)" for now v err ids
    by (rule fail_all_induct) (blast intro: n noticed_fail)+
  show ?thesis
  proof (cases c)
    case (JSubmit n now q)
    with assms show ?thesis by (auto simp: submit_job_def Let_def noticed_def tget_tins split: option.splits)
  next
    case (JMarkRunning now k')
    with n show ?thesis
      by (auto simp: mark_running_def Let_def noticed_def get_put_job split: option.splits)
  next
    case (JComplete now k' fld result)
    with n show ?thesis
      by (auto simp: complete_job_def noticed_fail split: option.split)
        (auto simp: noticed_def get_put_job split: option.splits)
  next
    case (JCancelMatching now s)
    have "noticed k (snd (cancel_matching_request now s d))"
      by (rule cancel_matching_induct) (blast intro: n noticed_fail noticed_cancel)+
    with JCancelMatching show ?thesis by simp
  next
    case (JAckNotice now k' connection)
    with n show ?thesis
      by (auto simp: acknowledge_final_notice_def Let_def noticed_def tget_tset split: option.splits)
  next
    case (JRuntime x)
    then show ?thesis
      by (intro same) (simp only: run_job.simps, rule job_tables_of_more(1), rule run_command_more)
  next
    case (JPublish k' msg)
    then show ?thesis by (intro same) (simp add: publish_progress_def Let_def split: option.split)
  next
    case (JClaimProgress k' nonce)
    then show ?thesis by (intro same) (simp add: claim_progress_def split: option.split)
  next
    case (JAckProgress now k' pid nonce)
    then show ?thesis by (intro same) (simp add: acknowledge_progress_def split: option.split)
  qed (use c n all in \<open>simp_all add: noticed_fail stop_jobs_eq expire_deadlines_eq\<close>)
qed

fun takes_notice :: "string \<Rightarrow> job_command \<Rightarrow> 'a jobs_db_scheme \<Rightarrow> bool" where
  "takes_notice k (JAckNotice now k' connection) d =
     (k' = k \<and> fst (acknowledge_final_notice now k' connection d))"
| "takes_notice k _ d = False"

lemma final_notice_row:
  assumes "keyed tj_id (jobs d)"
  shows "fst (acknowledge_final_notice now k connection d) \<longleftrightarrow>
    (\<exists>j. get_job d k = Some j \<and> tj_connection_id j = connection \<and> notice_due j)"
  using tcount_key [OF assms, of k "\<lambda>j. tj_connection_id j = connection \<and> notice_due j"]
  by (auto simp: acknowledge_final_notice_def Let_def split: option.splits if_splits)

interpretation final_notice: at_most_once "run_job h p" "takes_notice k" "\<lambda>d. \<not> noticed k d" removes_jobs
    "\<lambda>d. keyed tj_id (jobs d)"
proof unfold_locales
  fix c and d :: "'a jobs_db_scheme"
  show "keyed tj_id (jobs d) \<Longrightarrow> keyed tj_id (jobs (run_job h p c d))" by (rule keyed_jobs_step)
  show "keyed tj_id (jobs d) \<Longrightarrow> takes_notice k c d \<Longrightarrow> \<not> noticed k d"
    by (cases c) (auto simp: final_notice_row noticed_def notice_due_def)
  show "keyed tj_id (jobs d) \<Longrightarrow> takes_notice k c d \<Longrightarrow> \<not> \<not> noticed k (run_job h p c d)"
    by (cases c; clarsimp simp: final_notice_row)
      (auto simp: noticed_def acknowledge_final_notice_def Let_def tget_tset dest: tget_key)
  show "keyed tj_id (jobs d) \<Longrightarrow> \<not> \<not> noticed k d \<Longrightarrow> \<not> removes_jobs c \<Longrightarrow> \<not> \<not> noticed k (run_job h p c d)"
    by (simp add: noticed_stays)
  show "removes_jobs c \<Longrightarrow> \<not> takes_notice k c d"
    by (cases c) auto
qed

end
