(* ===== verification/Turn_Manager.thy ===== *)
theory Turn_Manager
  imports Turn_Jobs
begin

text \<open>
  \<open>TurnJobManager\<close> (\<open>turn_jobs.py\<close>): the bounded queue of accepted jobs and one iteration of a
  worker, split where the runner runs (other operations may commit in between). What the runner
  returns or raises is an argument. Then the properties of the turn jobs.
\<close>

section \<open>The manager\<close>

record manager =
  mg_max_queue :: int
  mg_max_concurrency :: int
  mg_deadline_seconds :: int
  mg_started :: bool
  mg_queue :: "string list"
  mg_owned :: "string list"

definition make_manager :: "int \<Rightarrow> int \<Rightarrow> int \<Rightarrow> manager" where
  "make_manager max_queue max_concurrency deadline_seconds =
     \<lparr>mg_max_queue = clip 1 200 max_queue, mg_max_concurrency = clip 1 16 max_concurrency,
      mg_deadline_seconds = clip 30 900 deadline_seconds, mg_started = False, mg_queue = [],
      mg_owned = []\<rparr>"

definition manager_start :: "time \<Rightarrow> manager \<Rightarrow> 'a jobs_db_scheme \<Rightarrow> manager \<times> 'a jobs_db_scheme" where
  "manager_start now m d =
     (if mg_started m then (m, d)
      else (m\<lparr>mg_started := True\<rparr>, snd (expire_deadlines now (snd (cleanup now d)))))"

definition queue_full :: "manager \<Rightarrow> bool" where
  "queue_full m \<longleftrightarrow> mg_max_queue m \<le> int (length (mg_queue m))"

definition can_accept :: "manager \<Rightarrow> bool" where
  "can_accept m \<longleftrightarrow> mg_started m \<and> \<not> queue_full m"

definition manager_submit :: "string \<Rightarrow> manager \<Rightarrow> bool \<times> manager" where
  "manager_submit k m =
     (if \<not> mg_started m \<or> queue_full m then (False, m)
      else (True, m\<lparr>mg_owned := List.insert k (mg_owned m), mg_queue := mg_queue m @ [k]\<rparr>))"

text \<open>The \<open>finally\<close> of an iteration.\<close>

definition worker_release :: "time \<Rightarrow> string \<Rightarrow> manager \<Rightarrow> 'a jobs_db_scheme \<Rightarrow> manager \<times> 'a jobs_db_scheme" where
  "worker_release now k m d =
     (m\<lparr>mg_owned := removeAll k (mg_owned m)\<rparr>, snd (cleanup now d))"

text \<open>A worker takes the next job; it keeps it when the job is now running.\<close>

definition worker_take ::
  "time \<Rightarrow> manager \<Rightarrow> 'a jobs_db_scheme \<Rightarrow> turn_job option \<times> manager \<times> 'a jobs_db_scheme" where
  "worker_take now m d =
     (case mg_queue m of
        [] \<Rightarrow> (None, m, d)
      | k # rest \<Rightarrow>
          (case mark_running now k d of
             (job, d') \<Rightarrow>
               let m' = m\<lparr>mg_queue := rest\<rparr> in
               case job of
                 None \<Rightarrow> (None, worker_release now k m' d')
               | Some j \<Rightarrow>
                   if tj_status j \<noteq> JobRunning then (None, worker_release now k m' d')
                   else (Some j, m', d')))"

datatype run_outcome = RunTimeout | RunCancelled | RunRaised string | RunReturned json_text

text \<open>What follows the runner: the worker survives unless it was cancelled or the result is no JSON.\<close>

definition worker_finish ::
  "time \<Rightarrow> turn_job \<Rightarrow> run_outcome \<Rightarrow> manager \<Rightarrow> 'a jobs_db_scheme \<Rightarrow> bool \<times> manager \<times> 'a jobs_db_scheme" where
  "worker_finish now j res m d =
     (case res of
        RunTimeout \<Rightarrow>
          (True, worker_release now (tj_id j) m
             (snd (fail_job now (tj_id j) JobTimedOut ''deadline_exceeded'' d)))
      | RunCancelled \<Rightarrow>
          (False, worker_release now (tj_id j) m
             (snd (fail_job now (tj_id j) JobStopped ''service_stopped'' d)))
      | RunRaised name \<Rightarrow>
          (True, worker_release now (tj_id j) m (snd (fail_job now (tj_id j) JobFailed name d)))
      | RunReturned result \<Rightarrow>
          (case complete_job now (tj_id j)
                  (if tj_kind j = ''message'' then ''reply'' else ''social_step'') result d of
             (Inl e, d') \<Rightarrow> (False, worker_release now (tj_id j) m d')
           | (Inr _, d') \<Rightarrow> (True, worker_release now (tj_id j) m d')))"

text \<open>Stopping cancels the workers; every job still owned, queued or running, ends as stopped.\<close>

definition manager_stop :: "time \<Rightarrow> manager \<Rightarrow> 'a jobs_db_scheme \<Rightarrow> manager \<times> 'a jobs_db_scheme" where
  "manager_stop now m d =
     (m\<lparr>mg_started := False, mg_owned := []\<rparr>, stop_jobs now (mg_owned m) d)"

section \<open>Interrupted runtime work\<close>

definition interrupted :: "string \<Rightarrow> 'a runtime_db_scheme \<Rightarrow> bool" where
  "interrupted k d \<longleftrightarrow>
     operation_state d k = Some OpUncertain
     \<and> (\<forall>st \<in> set (steps d). st_operation_id st = k \<longrightarrow> st_status st \<noteq> Generating)"

lemma operation_state_save_steps [simp]: "operation_state (save_steps now P f d) k = operation_state d k"
  by (simp add: operation_state_def)

lemma interrupt_runtime_state:
  "operation_state (interrupt_runtime now r d) k =
    (if k = op_id r then map_option (\<lambda>_. OpUncertain) (operation_state d k) else operation_state d k)"
  by (simp add: interrupt_runtime_def operation_state_save) (simp add: operation_state_def option.map_comp o_def)

lemma interrupt_runtime_steps:
  "st \<in> set (steps (interrupt_runtime now r d)) \<Longrightarrow>
    st_status st \<noteq> Generating \<or> (st \<in> set (steps d) \<and> st_operation_id st \<noteq> op_id r)"
  by (auto simp: interrupt_runtime_def save_steps_def set_tset split: if_splits
      dest: arg_cong [of _ _ st_status])

lemma interrupt_fold:
  assumes "interrupted k d \<or> (k \<in> op_id ` set rs \<and> operation_state d k \<noteq> None)"
  shows "interrupted k (fold (interrupt_runtime now) rs d)"
  using assms
proof (induction rs arbitrary: d)
  case (Cons r rs)
  let ?d = "interrupt_runtime now r d"
  have "interrupted k ?d \<or> (k \<in> op_id ` set rs \<and> operation_state ?d k \<noteq> None)"
  proof (cases "k = op_id r")
    case True
    with Cons.prems have "operation_state d k \<noteq> None" by (auto simp: interrupted_def)
    with True show ?thesis
      by (auto simp: interrupted_def interrupt_runtime_state dest!: interrupt_runtime_steps)
  next
    case False
    with Cons.prems show ?thesis
      by (auto simp: interrupted_def interrupt_runtime_state dest!: interrupt_runtime_steps)
  qed
  with Cons.IH show ?case by simp
qed simp

lemma interrupted_refuses:
  "interrupted k d \<Longrightarrow> fst (prepare_social_step h now k index dep hash d) =
    Inl (RuntimeError ''Durable Social Turn operation requires delivery reconciliation.'')"
  by (auto simp: interrupted_def operation_state_def prepare_social_step_def)

lemma runtime_operations_mem: "r \<in> set (runtime_operations j d) \<Longrightarrow> r \<in> set (operations d)"
  by (simp add: runtime_operations_def)

lemma runtime_operations_put_job [simp]: "runtime_operations j (put_job k f d) = runtime_operations j d"
  by (simp add: runtime_operations_def)

section \<open>Properties of the turn jobs\<close>

text \<open>A job that failed, timed out, was stopped or was cancelled keeps that status: no operation of
  the jobs or of the durable runtime that does not delete it ever changes it.\<close>

theorem ended_job_stays_ended:
  assumes "job_state d k = Some v" and "ended v" and "\<forall>c \<in> set cs. \<not> removes_jobs c"
  shows "job_state (run_ops (run_job h p) cs d) k = Some v"
  by (rule turn_jobs.final_run [OF assms])

definition demo_jobs_db :: jobs_db where
  "demo_jobs_db = trace_db.extend demo_trace_db \<lparr>jobs = [], progress = [], progress_seq = 0\<rparr>"

definition demo_job_request :: job_request where
  "demo_job_request = \<lparr>jr_kind = ''message'', jr_scope = demo_place, jr_deployment_id = ''ann'',
     jr_message_id = ''m1'', jr_request = empty_object, jr_deadline_seconds = 300,
     jr_source_author_id = ''u'', jr_category_id = []\<rparr>"

definition demo_job :: string where
  "demo_job = job_id demo_digests ''message'' ''c'' ''ann'' ''m1''"

definition demo_run_job :: "job_command \<Rightarrow> jobs_db \<Rightarrow> jobs_db" where
  "demo_run_job = run_job demo_digests (\<lambda>_ _. None)"

definition demo_jobs :: "job_command list" where
  "demo_jobs = [JSubmit 24 0 demo_job_request, JMarkRunning 1 demo_job,
     JPublish demo_job ''one'', JPublish demo_job '' two  words '', JPublish demo_job ''three'',
     JPublish demo_job ''four'', JFail 2 demo_job JobStopped ''x'']"

theorem ended_job_stays_ended_witness:
  "job_state (run_ops demo_run_job [JComplete 3 demo_job ''reply'' empty_object, JMarkRunning 4 demo_job]
     (run_ops demo_run_job demo_jobs demo_jobs_db)) demo_job = Some JobStopped"
proof -
  have "job_state (run_ops demo_run_job demo_jobs demo_jobs_db) demo_job = Some JobStopped"
    by code_simp
  from ended_job_stays_ended [OF this, of "[JComplete 3 demo_job ''reply'' empty_object, JMarkRunning 4 demo_job]"
      demo_digests "\<lambda>_ _. None"]
  show ?thesis by (simp add: demo_run_job_def ended_def)
qed

lemma demo_progress_ok: "progress_ok demo_jobs_db"
  by (simp add: progress_ok_def demo_jobs_db_def trace_db.defs demo_trace_db_def runtime_db.defs demo_db_def)

text \<open>A job publishes at most three progress notices, numbered in order from 0, whatever is
  submitted, published, acknowledged, expired or deleted.\<close>

theorem progress_bounded:
  assumes "progress_ok d"
  shows "map jp_ordinal (list_progress k (run_ops (run_job h p) cs d))
      = [0..<length (list_progress k (run_ops (run_job h p) cs d))]
    \<and> length (list_progress k (run_ops (run_job h p) cs d)) \<le> 3"
proof -
  let ?t = "filter (\<lambda>q. jp_job_id q = k) (progress (run_ops (run_job h p) cs d))"
  have "progress_ok (run_ops (run_job h p) cs d)" by (rule job_progress.inv_run [OF assms])
  then have "map jp_ordinal ?t = [0..<length ?t]" "length ?t \<le> 3"
    by (auto simp: progress_ok_def tcount_def)
  moreover from this(1) have "sort_key jp_ordinal ?t = ?t"
    by (intro sort_key_id_if_sorted) simp
  ultimately show ?thesis by (simp add: list_progress_def)
qed

theorem progress_bounded_witness:
  "map jp_text (list_progress demo_job (run_ops demo_run_job demo_jobs demo_jobs_db))
     = [''one'', ''two words'', ''three'']
   \<and> length (list_progress demo_job (run_ops demo_run_job demo_jobs demo_jobs_db)) \<le> 3"
proof
  show "map jp_text (list_progress demo_job (run_ops demo_run_job demo_jobs demo_jobs_db))
     = [''one'', ''two words'', ''three'']" by code_simp
  show "length (list_progress demo_job (run_ops demo_run_job demo_jobs demo_jobs_db)) \<le> 3"
    using progress_bounded [OF demo_progress_ok] by (simp add: demo_run_job_def)
qed

text \<open>A progress notice is handed to a connector at most once: over any run only one claim is
  granted for it, so an uncertain external delivery is never replayed under a new nonce.\<close>

theorem progress_notice_claimed_once:
  assumes "progress_ok d"
  shows "grant_count (run_job h p) (claims_notice pid) cs d \<le> 1"
  by (rule notice.at_most_one [OF assms]) simp

definition demo_claims :: "job_command list" where
  "demo_claims = [JSubmit 24 0 demo_job_request, JPublish demo_job ''one'', JClaimProgress demo_job ''a'',
     JClaimProgress demo_job ''b'', JClaimProgress demo_job ''a'']"

theorem progress_notice_claimed_once_witness:
  "grant_count demo_run_job (claims_notice 0) demo_claims demo_jobs_db = 1
   \<and> grant_count demo_run_job (claims_notice 0) demo_claims demo_jobs_db \<le> 1"
proof
  show "grant_count demo_run_job (claims_notice 0) demo_claims demo_jobs_db = 1" by code_simp
  show "grant_count demo_run_job (claims_notice 0) demo_claims demo_jobs_db \<le> 1"
    unfolding demo_run_job_def by (rule progress_notice_claimed_once [OF demo_progress_ok])
qed

text \<open>The final notice of a job is consumed at most once, before it is sent: over any run that does
  not delete jobs, at most one acknowledgement of it is granted.\<close>

theorem final_notice_once:
  assumes "keyed tj_id (jobs d)" and "\<forall>c \<in> set cs. \<not> removes_jobs c"
  shows "grant_count (run_job h p) (takes_notice k) cs d \<le> 1"
  by (rule final_notice.at_most_one [OF assms])

definition demo_notices :: "job_command list" where
  "demo_notices = demo_jobs @ [JAckNotice 5 demo_job ''c'', JAckNotice 6 demo_job ''c'']"

theorem final_notice_once_witness:
  "grant_count demo_run_job (takes_notice demo_job) demo_notices demo_jobs_db = 1
   \<and> grant_count demo_run_job (takes_notice demo_job) demo_notices demo_jobs_db \<le> 1"
proof
  show "grant_count demo_run_job (takes_notice demo_job) demo_notices demo_jobs_db = 1" by code_simp
  have "keyed tj_id (jobs demo_jobs_db)"
    by (simp add: demo_jobs_db_def trace_db.defs demo_trace_db_def runtime_db.defs demo_db_def)
  moreover have "\<forall>c \<in> set demo_notices. \<not> removes_jobs c"
    by (simp add: demo_notices_def demo_jobs_def)
  ultimately show "grant_count demo_run_job (takes_notice demo_job) demo_notices demo_jobs_db \<le> 1"
    unfolding demo_run_job_def by (rule final_notice_once)
qed

text \<open>C2. Cancelling a generated answer and publishing it exclude each other. A granted cancellation
  found the step generated, leaves it failed without its text, the job cancelled and the operation
  of the step failed, and the state it leaves grants no claim of that delivery; a step in any other
  status, claimed, delivered or uncertain among them, refuses the cancellation, which then changes nothing.\<close>

theorem cancel_excludes_publication:
  assumes "cancel_generated_delivery now j reason d = (granted, d')"
  shows "if granted
    then step_state d (tj_runtime_step_id j) = Some Generated
      \<and> step_state d' (tj_runtime_step_id j) = Some StepFailed
      \<and> map_option st_response (get_step d' (tj_runtime_step_id j)) = Some empty_object
      \<and> (\<exists>st. get_step d' (tj_runtime_step_id j) = Some st \<and> operation_state d' (st_operation_id st) = Some OpFailed)
      \<and> job_state d' (tj_id j) = Some JobCancelled
      \<and> \<not> publishes (claim_delivery v id now' operation (tj_runtime_step_id j) nonce d')
    else d' = d"
proof (cases rule: cancel_generated_cases [of now j reason d])
  case refused
  with assms show ?thesis by simp
next
  case (granted st r)
  let ?s = "tj_runtime_step_id j"
  have k: "st_id st = ?s" using granted(1) by (rule tget_key)
  from granted(6) assms have d': "d' = put_operation (op_id r)
      (\<lambda>r. r\<lparr>op_status := OpFailed, op_last_error := ''turn_job_cancelled_before_delivery'', op_updated_at := now\<rparr>)
      (put_step ?s (cancelled_step now) (put_job (tj_id j) (cancelled_job now reason) d))" and g: "granted"
    by (simp_all add: k)
  have step: "get_step d' ?s = Some (cancelled_step now st)"
    using granted(1) by (simp add: d' get_put_step cancelled_step_def)
  then have "\<not> publishes (claim_delivery v id now' operation ?s nonce d')"
    by (auto simp: claim_delivery_def settle_claim_def publishes_def cancelled_step_def split: option.split)
  moreover have "job_state d' (tj_id j) = Some JobCancelled"
    using granted(5) by (auto simp: d' job_state_def get_put_job)
  moreover have "operation_state d' (st_operation_id st) = Some OpFailed"
    using granted(2) by (simp add: d' tget_key [OF granted(2)] operation_state_def get_put_operation)
  ultimately show ?thesis
    using g granted(1,4) step by (simp add: step_state_def cancelled_step_def)
qed

definition demo_generated :: jobs_db where
  "demo_generated = run_ops demo_run_job
     ([JSubmit 24 0 demo_job_request, JMarkRunning 1 demo_job] @ map JRuntime demo_generation
      @ [JComplete 5 demo_job ''reply'' (dumps (JObj [(''step_id'', JStr demo_step)]))]) demo_jobs_db"

theorem cancel_excludes_publication_witness:
  "step_state (snd (cancel_generated_delivery 6 (hd (jobs demo_generated)) ''r'' demo_generated)) demo_step
     = Some StepFailed"
proof -
  let ?c = "cancel_generated_delivery 6 (hd (jobs demo_generated)) ''r'' demo_generated"
  have "fst ?c" by code_simp
  then have c: "?c = (True, snd ?c)" by (cases ?c) simp
  have "tj_runtime_step_id (hd (jobs demo_generated)) = demo_step" by code_simp
  with cancel_excludes_publication [OF c] show ?thesis by simp
qed

text \<open>A job that times out, is stopped or is cancelled takes its runtime work with it: every open
  operation of its event becomes uncertain, none of their steps stays in generation, and no further
  step of them is prepared until the delivery is reconciled.\<close>

theorem interrupted_job_stops_its_runtime:
  assumes "fail_job now k v err d = (True, d')" and "v \<in> {JobTimedOut, JobStopped, JobCancelled}"
    and "get_job d k = Some j" and "r \<in> set (runtime_operations j d)"
  shows "interrupted (op_id r) d'
    \<and> fst (prepare_social_step h now' (op_id r) index dep hash d')
      = Inl (RuntimeError ''Durable Social Turn operation requires delivery reconciliation.'')"
proof -
  let ?d = "put_job k (ended_job now v err) d"
  from assms have d': "d' = fold (interrupt_runtime now) (runtime_operations j ?d) ?d"
    by (auto simp: fail_job_def Let_def split: if_splits)
  have "r \<in> set (operations d)" using assms(4) by (rule runtime_operations_mem)
  then have "operation_state ?d (op_id r) \<noteq> None"
    by (auto simp: operation_state_def tget_None_iff)
  moreover have "op_id r \<in> op_id ` set (runtime_operations j ?d)" using assms(4) by simp
  ultimately have "interrupted (op_id r) d'"
    unfolding d' by (intro interrupt_fold) simp
  then show ?thesis by (simp add: interrupted_refuses)
qed

definition demo_in_flight :: jobs_db where
  "demo_in_flight = run_ops demo_run_job
     ([JSubmit 24 0 demo_job_request, JMarkRunning 1 demo_job] @ map JRuntime (take 2 demo_generation)) demo_jobs_db"

theorem interrupted_job_stops_its_runtime_witness:
  "interrupted demo_operation (snd (fail_job 7 demo_job JobTimedOut ''deadline_exceeded'' demo_in_flight))"
proof -
  let ?f = "fail_job 7 demo_job JobTimedOut ''deadline_exceeded'' demo_in_flight"
  have "fst ?f" by code_simp
  then have f: "?f = (True, snd ?f)" by (cases ?f) simp
  have "map_option (\<lambda>j. map op_id (runtime_operations j demo_in_flight)) (get_job demo_in_flight demo_job)
      = Some [demo_operation]"
    by code_simp
  then obtain j r where j: "get_job demo_in_flight demo_job = Some j"
    and r: "r \<in> set (runtime_operations j demo_in_flight)" "op_id r = demo_operation"
    by (auto simp: map_eq_Cons_conv)
  from interrupted_job_stops_its_runtime [OF f _ j r(1)] r(2) show ?thesis by simp
qed

definition settled_job :: "string \<Rightarrow> 'a jobs_db_scheme \<Rightarrow> bool" where
  "settled_job k d \<longleftrightarrow> job_state d k \<notin> {Some JobQueued, Some JobRunning}"

lemma settled_fail:
  "settled_job k (snd (fail_job now k JobStopped err d))"
  "settled_job k d \<Longrightarrow> settled_job k (snd (fail_job now k' JobStopped err d))"
  by (auto simp: settled_job_def job_state_fail)

lemma settled_fold:
  "k \<in> set ids \<or> settled_job k d \<Longrightarrow>
    settled_job k (fold (\<lambda>k d. snd (fail_job now k JobStopped err d)) ids d)"
proof (induction ids arbitrary: d)
  case (Cons i ids)
  then show ?case by (cases "i = k") (auto simp: settled_fail)
qed simp

text \<open>C25. Stopping the manager leaves none of its jobs behind: every job it had accepted and not yet
  finished is terminal afterwards, and the manager accepts no job until it is started again.\<close>

theorem stop_ends_every_owned_job:
  assumes "manager_stop now m d = (m', d')" and "k \<in> set (mg_owned m)" and "job_state d' k = Some v"
  shows "terminal v \<and> \<not> can_accept m' \<and> fst (manager_submit k' m') = False"
proof -
  have "settled_job k d'"
    using assms(1,2) by (auto simp: manager_stop_def stop_jobs_def intro: settled_fold)
  with assms show ?thesis
    by (auto simp: settled_job_def manager_stop_def can_accept_def manager_submit_def)
qed

definition demo_manager :: manager where
  "demo_manager = snd (manager_submit demo_job (fst (manager_start 0 (make_manager 20 2 300) demo_jobs_db)))"

theorem stop_ends_every_owned_job_witness:
  "job_state (snd (manager_stop 9 demo_manager demo_in_flight)) demo_job = Some JobStopped
   \<and> terminal JobStopped"
proof
  show s: "job_state (snd (manager_stop 9 demo_manager demo_in_flight)) demo_job = Some JobStopped"
    by code_simp
  have "demo_job \<in> set (mg_owned demo_manager)" by code_simp
  moreover obtain m' d' where "manager_stop 9 demo_manager demo_in_flight = (m', d')"
    by (cases "manager_stop 9 demo_manager demo_in_flight")
  ultimately show "terminal JobStopped"
    using stop_ends_every_owned_job [of 9 demo_manager demo_in_flight m' d' demo_job JobStopped] s by simp
qed

end
