(* ===== verification/Trace_Buffer.thy ===== *)
theory Trace_Buffer
  imports Trace_Store "HOL-Library.Sublist"
begin

text \<open>
  \<open>BufferedRuntimeTraceSink\<close> of \<open>runtime_trace_buffer.py\<close>: diagnostic events are kept in a bounded
  queue and written in batches, with the duration of a node added to the event that ends it. The
  reference is the sink without a queue, which annotates and writes every event at once.
\<close>

section \<open>State\<close>

text \<open>
  \<open>_starts\<close> is a dict in insertion order, \<open>tb_running\<close> is whether the task exists, and \<open>tb_batch\<close> the
  local variable of the flush that is under way: the events that left the queue and are not yet written.
\<close>

record trace_buffer =
  tb_capacity :: nat
  tb_running :: bool
  tb_pending :: "trace_event list"
  tb_batch :: "trace_event list"
  tb_dropped :: nat
  tb_starts :: "((string \<times> string) \<times> time) list"

definition new_buffer :: "int \<Rightarrow> trace_buffer" where
  "new_buffer capacity =
     \<lparr>tb_capacity = nat (max 64 capacity), tb_running = False, tb_pending = [], tb_batch = [], tb_dropped = 0,
      tb_starts = []\<rparr>"

section \<open>Durations\<close>

text \<open>
  The time of an event: a start is remembered, the oldest one making room; an end takes the start
  of its node away and gets its duration. \<open>millis\<close> is \<open>int(d.total_seconds() * 1000)\<close>, floating
  point arithmetic.
\<close>

definition pop_oldest :: "nat \<Rightarrow> ('k \<times> 'v) list \<Rightarrow> ('k \<times> 'v) list" where
  "pop_oldest capacity d = (if capacity \<le> length d then tl d else d)"

definition timed ::
  "(time \<Rightarrow> int) \<Rightarrow> nat \<Rightarrow> trace_event \<Rightarrow> ((string \<times> string) \<times> time) list
    \<Rightarrow> trace_event \<times> ((string \<times> string) \<times> time) list" where
  "timed millis capacity e starts =
     (let key = (ev_graph_run_id e, ev_node_name e) in
      if ev_status e = Started
      then (e, AList.update key (ev_occurred_at e) (pop_oldest capacity starts))
      else
        (case map_of starts key of
           None \<Rightarrow> (e, starts)
         | Some started \<Rightarrow>
             (e\<lparr>ev_metadata := ev_metadata e @
                  [(''duration_ms'', str_of_int (max 0 (millis (ev_occurred_at e - started))))]\<rparr>,
              AList.delete key starts)))"

section \<open>Operations\<close>

definition sink_emit ::
  "(time \<Rightarrow> int) \<Rightarrow> trace_event \<Rightarrow> trace_buffer \<times> 'a trace_db_scheme \<Rightarrow> trace_buffer \<times> 'a trace_db_scheme" where
  "sink_emit millis e s =
     (let (b, d) = s in
      if \<not> tb_running b then (b, emit_batch [e] d)
      else if tb_capacity b \<le> length (tb_pending b) then (b\<lparr>tb_dropped := tb_dropped b + 1\<rparr>, d)
      else
        (let (e', starts) = timed millis (tb_capacity b) e (tb_starts b) in
         (b\<lparr>tb_pending := tb_pending b @ [e'], tb_starts := starts\<rparr>, d)))"

text \<open>
  A round of \<open>flush\<close> is two steps, between which events may be emitted: a batch leaves the queue, then
  it is written, or counted as dropped when the database refuses it (\<open>fails\<close>).
\<close>

definition flush_take :: "trace_buffer \<times> 'a trace_db_scheme \<Rightarrow> trace_buffer \<times> 'a trace_db_scheme" where
  "flush_take s =
     (let (b, d) = s in
      if tb_batch b \<noteq> [] then (b, d)
      else (b\<lparr>tb_batch := take 128 (tb_pending b), tb_pending := drop 128 (tb_pending b)\<rparr>, d))"

definition flush_write ::
  "bool \<Rightarrow> trace_buffer \<times> 'a trace_db_scheme \<Rightarrow> trace_buffer \<times> 'a trace_db_scheme" where
  "flush_write fails s =
     (let (b, d) = s; b' = b\<lparr>tb_batch := []\<rparr> in
      if fails then (b'\<lparr>tb_dropped := tb_dropped b + length (tb_batch b)\<rparr>, d)
      else (b', emit_batch (tb_batch b) d))"

text \<open>
  \<open>flush\<close> runs rounds until the queue is empty; \<open>fails n\<close> is whether round \<open>n\<close> fails. Here it is with
  nothing emitted in between.
\<close>

lemma flush_round_shrinks:
  "tb_pending (fst s) \<noteq> [] \<Longrightarrow>
    length (tb_pending (fst (flush_write fails (flush_take s)))) + length (tb_batch (fst (flush_write fails (flush_take s))))
      < length (tb_pending (fst s)) + length (tb_batch (fst s))"
  by (cases s) (auto simp: flush_take_def flush_write_def Let_def)

function flush_buffer ::
  "(nat \<Rightarrow> bool) \<Rightarrow> trace_buffer \<times> 'a trace_db_scheme \<Rightarrow> trace_buffer \<times> 'a trace_db_scheme" where
  "flush_buffer fails s =
     (if tb_pending (fst s) = [] then s
      else flush_buffer (\<lambda>n. fails (Suc n)) (flush_write (fails 0) (flush_take s)))"
  by pat_completeness auto
termination
  by (relation "measure (\<lambda>(fails, s). length (tb_pending (fst s)) + length (tb_batch (fst s)))")
    (simp_all add: flush_round_shrinks)

declare flush_buffer.simps [simp del]

definition start_sink :: "trace_buffer \<times> 'a trace_db_scheme \<Rightarrow> trace_buffer \<times> 'a trace_db_scheme" where
  "start_sink s = (let (b, d) = s in (b\<lparr>tb_running := True\<rparr>, d))"

text \<open>
  \<open>stop\<close> up to \<open>self._task = None\<close>: the task is cancelled, and a write that was under way is awaited. The
  rounds of its flush are steps of their own.
\<close>

definition stop_sink ::
  "bool \<Rightarrow> trace_buffer \<times> 'a trace_db_scheme \<Rightarrow> trace_buffer \<times> 'a trace_db_scheme" where
  "stop_sink fails s = (let (b, d) = flush_write fails s in (b\<lparr>tb_running := False\<rparr>, d))"

text \<open>
  The steps of the sink, in any order: emits come between the steps of a flush, whether the background
  task runs it or \<open>stop\<close>. One flush runs at a time.
\<close>

datatype sink_op = SinkEmit trace_event | SinkTake | SinkWrite bool | SinkStart | SinkStop bool

definition run_sink ::
  "(time \<Rightarrow> int) \<Rightarrow> sink_op \<Rightarrow> trace_buffer \<times> 'a trace_db_scheme \<Rightarrow> trace_buffer \<times> 'a trace_db_scheme" where
  "run_sink millis x s =
     (case x of
        SinkEmit e \<Rightarrow> sink_emit millis e s
      | SinkTake \<Rightarrow> flush_take s
      | SinkWrite fails \<Rightarrow> flush_write fails s
      | SinkStart \<Rightarrow> start_sink s
      | SinkStop fails \<Rightarrow> stop_sink fails s)"

section \<open>The sink without a queue\<close>

text \<open>
  What a sink records that never refuses an event: in the order of the emits, each event with its
  duration where the sink runs, marked with whether it goes through the queue.
\<close>

fun recorded ::
  "(time \<Rightarrow> int) \<Rightarrow> nat \<Rightarrow> bool \<Rightarrow> ((string \<times> string) \<times> time) list \<Rightarrow> sink_op list \<Rightarrow> (bool \<times> trace_event) list" where
  "recorded millis capacity running starts [] = []"
| "recorded millis capacity running starts (SinkEmit e # xs) =
     (if running
      then (let (e', starts') = timed millis capacity e starts in
            (True, e') # recorded millis capacity running starts' xs)
      else (False, e) # recorded millis capacity running starts xs)"
| "recorded millis capacity running starts (SinkTake # xs) = recorded millis capacity running starts xs"
| "recorded millis capacity running starts (SinkWrite fails # xs) = recorded millis capacity running starts xs"
| "recorded millis capacity running starts (SinkStart # xs) = recorded millis capacity True starts xs"
| "recorded millis capacity running starts (SinkStop fails # xs) = recorded millis capacity False starts xs"

fun emitted :: "sink_op list \<Rightarrow> nat" where
  "emitted [] = 0"
| "emitted (SinkEmit e # xs) = Suc (emitted xs)"
| "emitted (x # xs) = emitted xs"

text \<open>What the sink itself takes over of the emits of a run: not those that meet a full queue.\<close>

definition takes :: "(time \<Rightarrow> int) \<Rightarrow> sink_op \<Rightarrow> trace_buffer \<Rightarrow> (bool \<times> trace_event) list" where
  "takes millis x b =
     (case x of
        SinkEmit e \<Rightarrow>
          if \<not> tb_running b then [(False, e)]
          else if tb_capacity b \<le> length (tb_pending b) then []
          else [(True, fst (timed millis (tb_capacity b) e (tb_starts b)))]
      | _ \<Rightarrow> [])"

fun taken ::
  "(time \<Rightarrow> int) \<Rightarrow> sink_op list \<Rightarrow> trace_buffer \<times> 'a trace_db_scheme \<Rightarrow> (bool \<times> trace_event) list" where
  "taken millis [] s = []"
| "taken millis (x # xs) s = takes millis x (fst s) @ taken millis xs (run_sink millis x s)"

definition queued :: "(bool \<times> trace_event) list \<Rightarrow> trace_event list" where
  "queued es = map snd (filter fst es)"

definition written :: "(bool \<times> trace_event) list \<Rightarrow> trace_event list" where
  "written es = map snd (filter (\<lambda>p. \<not> fst p) es)"

text \<open>No event is emitted while a stopped sink still has some of the queue to write.\<close>

definition settled :: "trace_buffer \<Rightarrow> bool" where
  "settled b \<longleftrightarrow> tb_running b \<or> tb_batch b = [] \<and> tb_pending b = []"

fun no_late_emit :: "(time \<Rightarrow> int) \<Rightarrow> sink_op list \<Rightarrow> trace_buffer \<times> 'a trace_db_scheme \<Rightarrow> bool" where
  "no_late_emit millis [] s = True"
| "no_late_emit millis (x # xs) s =
     ((case x of SinkEmit e \<Rightarrow> settled (fst s) | _ \<Rightarrow> True) \<and> no_late_emit millis xs (run_sink millis x s))"

section \<open>Nothing is lost that is not counted\<close>

lemma emit_batch_append: "emit_batch (xs @ ys) d = emit_batch ys (emit_batch xs d)"
  by (simp add: emit_batch_def)

lemma emit_batch_Nil [simp]: "emit_batch [] d = d"
  by (simp add: emit_batch_def)

lemma queued_append [simp]: "queued (xs @ ys) = queued xs @ queued ys" "queued [] = []"
  by (simp_all add: queued_def)

lemma written_append [simp]: "written (xs @ ys) = written xs @ written ys" "written [] = []"
  by (simp_all add: written_def)

lemma length_parted: "length (queued es) + length (written es) = length es"
  unfolding queued_def written_def length_map by (rule sum_length_filter_compl)

lemma shuffles_append:
  "xs \<in> shuffles a b \<Longrightarrow> ys \<in> shuffles c d \<Longrightarrow> xs @ ys \<in> shuffles (a @ c) (b @ d)"
proof (induction xs arbitrary: a b)
  case (Cons x xs)
  from Cons.prems(1) consider a' where "a = x # a'" "xs \<in> shuffles a' b" | b' where "b = x # b'" "xs \<in> shuffles a b'"
    unfolding Cons_in_shuffles_iff by (metis list.collapse)
  then show ?case
    by cases (simp_all add: Cons_in_shuffles_leftI Cons_in_shuffles_rightI Cons.IH [OF _ Cons.prems(2)])
qed simp

text \<open>
  Over a run: what is stored is an interleaving of the events that were written directly and of events
  that left the queue; those and what is still in it are, in order, among what was in it and came into
  it; and every event is accounted for.
\<close>

definition kept_order ::
  "trace_buffer \<times> 'a trace_db_scheme \<Rightarrow> nat \<Rightarrow> (bool \<times> trace_event) list \<Rightarrow> bool
    \<Rightarrow> trace_buffer \<times> 'a trace_db_scheme \<Rightarrow> trace_event list \<Rightarrow> trace_event list \<Rightarrow> bool" where
  "kept_order s n es ordered s' stored flushed \<longleftrightarrow>
     snd s' = emit_batch stored (snd s) \<and> stored \<in> shuffles (written es) flushed
     \<and> subseq (flushed @ tb_batch (fst s') @ tb_pending (fst s')) (tb_batch (fst s) @ tb_pending (fst s) @ queued es)
     \<and> length stored + length (tb_batch (fst s')) + length (tb_pending (fst s')) + tb_dropped (fst s')
        = length (tb_batch (fst s)) + length (tb_pending (fst s)) + n + tb_dropped (fst s)
     \<and> length es \<le> n \<and> tb_dropped (fst s) + (n - length es) \<le> tb_dropped (fst s')
     \<and> (ordered \<and> tb_dropped (fst s') = tb_dropped (fst s) \<longrightarrow>
          stored @ tb_batch (fst s') @ tb_pending (fst s') = tb_batch (fst s) @ tb_pending (fst s) @ map snd es)"

lemma kept_order_refl: "kept_order s 0 [] True s [] []"
  by (simp add: kept_order_def)

lemma kept_order_trans:
  assumes "kept_order s n es o1 s1 t1 f1" and "kept_order s1 m later o2 s2 t2 f2"
  shows "kept_order s (n + m) (es @ later) (o1 \<and> o2) s2 (t1 @ t2) (f1 @ f2)"
proof -
  have "subseq ((f1 @ f2) @ tb_batch (fst s2) @ tb_pending (fst s2))
      (f1 @ tb_batch (fst s1) @ tb_pending (fst s1) @ queued later)"
    using assms(2) by (simp add: kept_order_def subseq_append')
  moreover have "subseq (f1 @ tb_batch (fst s1) @ tb_pending (fst s1) @ queued later)
      (tb_batch (fst s) @ tb_pending (fst s) @ queued (es @ later))"
    using assms(1) subseq_append [of "f1 @ tb_batch (fst s1) @ tb_pending (fst s1)" "queued later"
      "tb_batch (fst s) @ tb_pending (fst s) @ queued es"] by (simp add: kept_order_def)
  ultimately have order: "subseq ((f1 @ f2) @ tb_batch (fst s2) @ tb_pending (fst s2))
      (tb_batch (fst s) @ tb_pending (fst s) @ queued (es @ later))"
    by (rule subseq_order.order_trans)
  have "(t1 @ t2) @ tb_batch (fst s2) @ tb_pending (fst s2) = tb_batch (fst s) @ tb_pending (fst s) @ map snd (es @ later)"
    if "o1 \<and> o2" "tb_dropped (fst s2) = tb_dropped (fst s)"
  proof -
    have "tb_dropped (fst s1) = tb_dropped (fst s)" "tb_dropped (fst s2) = tb_dropped (fst s1)"
      using that assms by (auto simp: kept_order_def)
    then have "t2 @ tb_batch (fst s2) @ tb_pending (fst s2) = tb_batch (fst s1) @ tb_pending (fst s1) @ map snd later"
      and "t1 @ tb_batch (fst s1) @ tb_pending (fst s1) = tb_batch (fst s) @ tb_pending (fst s) @ map snd es"
      using that assms by (simp_all add: kept_order_def)
    then show ?thesis by (metis append_assoc map_append)
  qed
  moreover have "t1 @ t2 \<in> shuffles (written (es @ later)) (f1 @ f2)"
    using assms by (simp add: kept_order_def shuffles_append)
  ultimately show ?thesis
    using assms order unfolding kept_order_def by (simp add: emit_batch_append) linarith
qed

lemma step_kept_order:
  "\<exists>stored flushed. kept_order s (emitted [x]) (takes millis x (fst s))
    (case x of SinkEmit e \<Rightarrow> settled (fst s) | _ \<Rightarrow> True) (run_sink millis x s) stored flushed"
proof (cases s)
  case (Pair b d)
  let ?kept = "kept_order s (emitted [x]) (takes millis x (fst s))
    (case x of SinkEmit e \<Rightarrow> settled (fst s) | _ \<Rightarrow> True) (run_sink millis x s)"
  note defs = Pair run_sink_def kept_order_def takes_def queued_def written_def settled_def
  show ?thesis
  proof (cases x)
    case (SinkEmit e)
    consider "\<not> tb_running b" | "tb_running b" "tb_capacity b \<le> length (tb_pending b)"
      | "tb_running b" "\<not> tb_capacity b \<le> length (tb_pending b)" by blast
    then show ?thesis
    proof cases
      case 1
      with SinkEmit have "?kept [e] []" by (simp add: defs sink_emit_def)
      then show ?thesis by blast
    next
      case 2
      with SinkEmit have "?kept [] []" by (simp add: defs sink_emit_def)
      then show ?thesis by blast
    next
      case 3
      with SinkEmit have "?kept [] []" by (simp add: defs sink_emit_def split: prod.split)
      then show ?thesis by blast
    qed
  next
    case SinkTake
    then have "?kept [] []" by (simp add: defs flush_take_def min_def)
    then show ?thesis by blast
  next
    case (SinkWrite fails)
    then have "?kept (if fails then [] else tb_batch b) (if fails then [] else tb_batch b)"
      by (simp add: defs flush_write_def list_emb_append2 Let_def)
    then show ?thesis by blast
  next
    case SinkStart
    then have "?kept [] []" by (simp add: defs start_sink_def)
    then show ?thesis by blast
  next
    case (SinkStop fails)
    then have "?kept (if fails then [] else tb_batch b) (if fails then [] else tb_batch b)"
      by (simp add: defs stop_sink_def flush_write_def list_emb_append2 Let_def)
    then show ?thesis by blast
  qed
qed

lemma emitted_Cons: "emitted (x # xs) = emitted [x] + emitted xs"
  by (cases x) simp_all

lemma run_kept_order:
  "\<exists>stored flushed. kept_order s (emitted xs) (taken millis xs s) (no_late_emit millis xs s)
    (run_ops (run_sink millis) xs s) stored flushed"
proof (induction xs arbitrary: s)
  case Nil
  show ?case using kept_order_refl [of s] by auto
next
  case (Cons x xs)
  obtain t1 f1 where "kept_order s (emitted [x]) (takes millis x (fst s))
      (case x of SinkEmit e \<Rightarrow> settled (fst s) | _ \<Rightarrow> True) (run_sink millis x s) t1 f1"
    using step_kept_order by blast
  moreover obtain t2 f2 where "kept_order (run_sink millis x s) (emitted xs) (taken millis xs (run_sink millis x s))
      (no_late_emit millis xs (run_sink millis x s)) (run_ops (run_sink millis) xs (run_sink millis x s)) t2 f2"
    using Cons.IH by blast
  ultimately have "kept_order s (emitted (x # xs)) (taken millis (x # xs) s) (no_late_emit millis (x # xs) s)
      (run_ops (run_sink millis) (x # xs) s) (t1 @ t2) (f1 @ f2)"
    using kept_order_trans by (fastforce simp: emitted_Cons [of x xs])
  then show ?case by blast
qed

text \<open>A sink that takes every event over records what the sink without a queue does.\<close>

lemma taken_recorded:
  "length (taken millis xs s) = emitted xs \<Longrightarrow>
    taken millis xs s = recorded millis (tb_capacity (fst s)) (tb_running (fst s)) (tb_starts (fst s)) xs"
proof (induction xs arbitrary: s)
  case (Cons x xs)
  obtain b d where s: "s = (b, d)" by (cases s)
  have "length (takes millis x b) \<le> emitted [x]"
    by (cases x) (simp_all add: takes_def)
  moreover have "length (taken millis xs (run_sink millis x s)) \<le> emitted xs"
    using run_kept_order [of "run_sink millis x s" xs millis] by (auto simp: kept_order_def)
  ultimately have "length (takes millis x b) = emitted [x]" "length (taken millis xs (run_sink millis x s)) = emitted xs"
    using Cons.prems s by (simp_all add: emitted_Cons [of x xs])
  with Cons.IH [of "run_sink millis x s"] s show ?case
    by (cases x)
      (auto simp: takes_def run_sink_def sink_emit_def flush_take_def flush_write_def start_sink_def stop_sink_def Let_def
        split: prod.split if_splits)
qed simp

lemma flush_buffer_empties:
  "tb_pending (fst (flush_buffer fails s)) = []"
  "tb_batch (fst s) = [] \<Longrightarrow> tb_batch (fst (flush_buffer fails s)) = []"
proof (induction fails s rule: flush_buffer.induct)
  case (1 fails s)
  have "tb_batch (fst (flush_write (fails 0) (flush_take s))) = []"
    by (cases s) (simp add: flush_write_def flush_take_def Let_def)
  with 1 show "tb_pending (fst (flush_buffer fails s)) = []"
    and "tb_batch (fst s) = [] \<Longrightarrow> tb_batch (fst (flush_buffer fails s)) = []"
    by (subst flush_buffer.simps, simp)+
qed

section \<open>Property\<close>

definition demo_emitted :: "trace_status \<Rightarrow> time \<Rightarrow> trace_event" where
  "demo_emitted status now =
     \<lparr>ev_trace_id = ''t'', ev_graph_run_id = ''run'', ev_graph_name = ''social_turn'',
      ev_node_name = ''node'', ev_node_kind = Decision, ev_status = status, ev_operation_id = ''op'',
      ev_owner_id = [], ev_deployment_id = [], ev_character_card_id = [], ev_changed_keys = [],
      ev_metadata = [], ev_error = [], ev_occurred_at = now\<rparr>"

text \<open>C26. Buffering does not change what is recorded. However emits come between the steps of starting,
  flushing and stopping a new sink: what the database got is an interleaving of the events that were
  written directly (those emitted while no task runs) and of events that left the queue; these, with
  the batch under way and the rest of the queue, are in their order among the events that were
  queued; and the number of events stored, under way, in the queue and counted as dropped is the
  number emitted. If none was dropped, the queue lost nothing, and the events are those that a sink
  without a queue records, with the same durations; and unless one was emitted while a stopped sink was
  still writing its queue, also in the same order.\<close>

theorem buffering_is_transparent:
  assumes "run_ops (run_sink millis) xs (new_buffer capacity, d) = (b', d')"
  shows "\<exists>stored flushed. d' = emit_batch stored d
    \<and> stored \<in> shuffles (written (taken millis xs (new_buffer capacity, d))) flushed
    \<and> subseq (flushed @ tb_batch b' @ tb_pending b') (queued (taken millis xs (new_buffer capacity, d)))
    \<and> length stored + length (tb_batch b') + length (tb_pending b') + tb_dropped b' = emitted xs
    \<and> (tb_dropped b' = 0 \<longrightarrow>
         taken millis xs (new_buffer capacity, d) = recorded millis (nat (max 64 capacity)) False [] xs
         \<and> flushed @ tb_batch b' @ tb_pending b' = queued (recorded millis (nat (max 64 capacity)) False [] xs)
         \<and> (no_late_emit millis xs (new_buffer capacity, d) \<longrightarrow>
              stored @ tb_batch b' @ tb_pending b' = map snd (recorded millis (nat (max 64 capacity)) False [] xs)))"
proof -
  let ?s = "(new_buffer capacity, d)" and ?es = "taken millis xs (new_buffer capacity, d)"
  obtain stored flushed where kept: "kept_order ?s (emitted xs) ?es (no_late_emit millis xs ?s) (b', d') stored flushed"
    using run_kept_order [of ?s xs millis] assms by auto
  have new: "tb_batch (new_buffer capacity) = []" "tb_pending (new_buffer capacity) = []"
    "tb_dropped (new_buffer capacity) = 0" "tb_capacity (new_buffer capacity) = nat (max 64 capacity)"
    "tb_running (new_buffer capacity) = False" "tb_starts (new_buffer capacity) = []"
    by (simp_all add: new_buffer_def)
  have parts: "d' = emit_batch stored d" "stored \<in> shuffles (written ?es) flushed"
    "subseq (flushed @ tb_batch b' @ tb_pending b') (queued ?es)"
    "length stored + length (tb_batch b') + length (tb_pending b') + tb_dropped b' = emitted xs"
    using kept by (simp_all add: kept_order_def new)
  have "?es = recorded millis (nat (max 64 capacity)) False [] xs
      \<and> flushed @ tb_batch b' @ tb_pending b' = queued ?es
      \<and> (no_late_emit millis xs ?s \<longrightarrow> stored @ tb_batch b' @ tb_pending b' = map snd ?es)"
    if none: "tb_dropped b' = 0"
  proof -
    have all: "length ?es = emitted xs"
      using kept none by (simp add: kept_order_def)
    have "length (flushed @ tb_batch b' @ tb_pending b') = length (queued ?es)"
      using parts(4) length_shuffles [OF parts(2)] length_parted [of ?es] all none by simp
    moreover have "no_late_emit millis xs ?s \<longrightarrow> stored @ tb_batch b' @ tb_pending b' = map snd ?es"
      using kept none by (simp add: kept_order_def new)
    ultimately show ?thesis
      using taken_recorded [OF all] subseq_same_length [OF parts(3)] by (simp add: new)
  qed
  with parts show ?thesis by metis
qed

definition demo_sink :: "sink_op list" where
  "demo_sink =
     [SinkStart, SinkEmit (demo_emitted Started 0), SinkTake, SinkEmit (demo_emitted Completed 7),
      SinkWrite False, SinkStop False, SinkTake, SinkWrite False]"

definition demo_traces :: trace_db where
  "demo_traces = \<lparr>operations = [], steps = [], effects = [], deliveries = [], usages = [],
     trace_runs = [], trace_rows = [], trace_seq = 0\<rparr>"

theorem buffering_is_transparent_witness:
  "snd (run_ops (run_sink (\<lambda>t. t div 1000)) demo_sink (new_buffer 2048, demo_traces))
     = emit_batch [demo_emitted Started 0,
         (demo_emitted Completed 7)\<lparr>ev_metadata := [(''duration_ms'', ''0'')]\<rparr>] demo_traces"
proof -
  let ?s = "run_ops (run_sink (\<lambda>t. t div 1000)) demo_sink (new_buffer 2048, demo_traces)"
  have run: "run_ops (run_sink (\<lambda>t. t div 1000)) demo_sink (new_buffer 2048, demo_traces) = (fst ?s, snd ?s)"
    by simp
  have zero: "str_of_int 0 = ''0''" by code_simp
  have "map snd (recorded (\<lambda>t. t div 1000) (nat (max 64 2048)) False [] demo_sink)
    = [demo_emitted Started 0, (demo_emitted Completed 7)\<lparr>ev_metadata := [(''duration_ms'', ''0'')]\<rparr>]"
    by (simp add: demo_sink_def demo_emitted_def timed_def pop_oldest_def zero)
  moreover have "tb_pending (fst ?s) = [] \<and> tb_batch (fst ?s) = [] \<and> tb_dropped (fst ?s) = 0"
    and "no_late_emit (\<lambda>t. t div 1000) demo_sink (new_buffer 2048, demo_traces)"
    by (simp_all add: demo_sink_def run_sink_def start_sink_def sink_emit_def flush_take_def flush_write_def
        stop_sink_def new_buffer_def demo_emitted_def timed_def pop_oldest_def settled_def Let_def)
  ultimately show ?thesis
    using buffering_is_transparent [OF run] by auto
qed

end
