(* ===== verification/Room_Sources.thy ===== *)
theory Room_Sources
  imports Runtime_Db
begin

text \<open>
  The observations of \<open>room_sources.py\<close>: a platform message with its presentation content, the
  validators of the frozen Pydantic models, the fingerprint that decides whether a message changed
  for a Character, and the immutable context a selection is focused on. Prose is a list of code
  points; identifiers, URLs and names of formats are strings.
\<close>

section \<open>Presentation content\<close>

record source_attachment =
  at_attachment_id :: string
  at_url :: string
  at_proxy_url :: string
  at_filename :: prose
  at_description :: prose
  at_content_type :: string
  at_size_bytes :: "int option"
  at_width :: "int option"
  at_height :: "int option"

text \<open>\<open>min_length\<close> and \<open>max_length\<close> of a field, and \<open>ge=0\<close> of an optional number.\<close>

definition sized :: "int \<Rightarrow> int \<Rightarrow> 'a list \<Rightarrow> bool" where
  "sized lo hi xs \<longleftrightarrow> lo \<le> int (length xs) \<and> int (length xs) \<le> hi"

definition natural :: "int option \<Rightarrow> bool" where
  "natural x = (case x of None \<Rightarrow> True | Some n \<Rightarrow> 0 \<le> n)"

definition valid_attachment :: "source_attachment \<Rightarrow> bool" where
  "valid_attachment a \<longleftrightarrow>
     sized 1 200 (at_attachment_id a) \<and> sized 1 3000 (at_url a) \<and> sized 0 3000 (at_proxy_url a)
     \<and> sized 0 255 (at_filename a) \<and> sized 0 1024 (at_description a)
     \<and> sized 0 160 (at_content_type a) \<and> natural (at_size_bytes a)
     \<and> natural (at_width a) \<and> natural (at_height a)"

record source_expression =
  ex_resource_id :: string
  ex_name :: prose
  ex_animated :: bool
  ex_asset_url :: string
  ex_format_type :: string
  ex_description :: prose

definition valid_expression :: "source_expression \<Rightarrow> bool" where
  "valid_expression e \<longleftrightarrow>
     sized 1 200 (ex_resource_id e) \<and> sized 1 160 (ex_name e) \<and> sized 0 3000 (ex_asset_url e)
     \<and> sized 0 40 (ex_format_type e) \<and> sized 0 1000 (ex_description e)"

datatype mention_kind = UserMention | RoleMention | ChannelMention

record source_mention =
  mn_kind :: mention_kind
  mn_target_id :: string
  mn_label :: prose

definition valid_mention :: "source_mention \<Rightarrow> bool" where
  "valid_mention m \<longleftrightarrow> sized 1 200 (mn_target_id m) \<and> sized 1 160 (mn_label m)"

record source_embed =
  em_embed_type :: string
  em_url :: string
  em_title :: prose
  em_description :: prose
  em_provider_name :: prose
  em_author_name :: prose
  em_image_url :: string
  em_image_proxy_url :: string
  em_thumbnail_url :: string
  em_thumbnail_proxy_url :: string

definition valid_embed :: "source_embed \<Rightarrow> bool" where
  "valid_embed e \<longleftrightarrow>
     sized 0 80 (em_embed_type e) \<and> sized 0 3000 (em_url e) \<and> sized 0 500 (em_title e)
     \<and> sized 0 2000 (em_description e) \<and> sized 0 200 (em_provider_name e)
     \<and> sized 0 200 (em_author_name e) \<and> sized 0 3000 (em_image_url e)
     \<and> sized 0 3000 (em_image_proxy_url e) \<and> sized 0 3000 (em_thumbnail_url e)
     \<and> sized 0 3000 (em_thumbnail_proxy_url e)"

record source_poll_answer =
  pa_answer_id :: int
  pa_text :: prose
  pa_emoji_name :: prose
  pa_emoji_id :: string
  pa_vote_count :: int

definition valid_poll_answer :: "source_poll_answer \<Rightarrow> bool" where
  "valid_poll_answer a \<longleftrightarrow>
     0 \<le> pa_answer_id a \<and> pa_answer_id a \<le> 100 \<and> sized 0 300 (pa_text a)
     \<and> sized 0 160 (pa_emoji_name a) \<and> sized 0 200 (pa_emoji_id a) \<and> 0 \<le> pa_vote_count a"

record source_poll =
  po_question :: prose
  po_answers :: "source_poll_answer list"
  po_allow_multiselect :: bool
  po_expires_at :: "time option"
  po_results_finalized :: bool

definition valid_poll :: "source_poll \<Rightarrow> bool" where
  "valid_poll p \<longleftrightarrow>
     sized 1 300 (po_question p) \<and> sized 0 10 (po_answers p)
     \<and> list_all valid_poll_answer (po_answers p)"

record source_reaction =
  re_key :: string
  re_resource_id :: string
  re_name :: prose
  re_animated :: bool
  re_asset_url :: string
  re_count :: int

definition valid_reaction :: "source_reaction \<Rightarrow> bool" where
  "valid_reaction r \<longleftrightarrow>
     sized 1 240 (re_key r) \<and> sized 0 200 (re_resource_id r) \<and> sized 1 160 (re_name r)
     \<and> sized 0 3000 (re_asset_url r) \<and> 0 \<le> re_count r"

section \<open>Messages\<close>

record source_message =
  sm_message_id :: string
  sm_channel_id :: string
  sm_thread_id :: string
  sm_author_id :: string
  sm_author_display_name :: prose
  sm_author_avatar_url :: string
  sm_author_external_id :: string
  sm_webhook_id :: string
  sm_author_is_bot :: bool
  sm_author_deployment_id :: string
  sm_text :: prose
  sm_reply_to :: string
  sm_response_to :: string
  sm_response_complete :: "bool option"
  sm_mentioned :: "string list"
  sm_created_at :: "time option"
  sm_edited_at :: "time option"
  sm_deleted :: bool
  sm_content_available :: bool
  sm_unseen_media :: bool
  sm_media_fingerprint :: string
  sm_attachments :: "source_attachment list"
  sm_custom_emojis :: "source_expression list"
  sm_stickers :: "source_expression list"
  sm_mentions :: "source_mention list"
  sm_embeds :: "source_embed list"
  sm_poll :: "source_poll option"
  sm_reactions :: "source_reaction list"
  sm_pinned :: bool

text \<open>The field bounds, then \<open>validate_observation\<close> in the order of its checks. Instants carry
  their timezone already, so the last check of the code holds of every value here.\<close>

definition valid_fields :: "source_message \<Rightarrow> bool" where
  "valid_fields m \<longleftrightarrow>
     sized 1 200 (sm_message_id m) \<and> sized 1 200 (sm_channel_id m) \<and> sized 0 200 (sm_thread_id m)
     \<and> sized 0 200 (sm_author_id m) \<and> sized 0 160 (sm_author_display_name m)
     \<and> sized 0 1000 (sm_author_avatar_url m) \<and> sized 0 64 (sm_author_external_id m)
     \<and> sized 0 200 (sm_webhook_id m) \<and> sized 0 200 (sm_author_deployment_id m)
     \<and> sized 0 10000 (sm_text m) \<and> sized 0 200 (sm_reply_to m) \<and> sized 0 200 (sm_response_to m)
     \<and> sized 0 24 (sm_mentioned m) \<and> sized 0 64 (sm_media_fingerprint m)
     \<and> sized 0 10 (sm_attachments m) \<and> list_all valid_attachment (sm_attachments m)
     \<and> sized 0 20 (sm_custom_emojis m) \<and> list_all valid_expression (sm_custom_emojis m)
     \<and> sized 0 3 (sm_stickers m) \<and> list_all valid_expression (sm_stickers m)
     \<and> sized 0 50 (sm_mentions m) \<and> list_all valid_mention (sm_mentions m)
     \<and> sized 0 10 (sm_embeds m) \<and> list_all valid_embed (sm_embeds m)
     \<and> (case sm_poll m of None \<Rightarrow> True | Some p \<Rightarrow> valid_poll p)
     \<and> sized 0 40 (sm_reactions m) \<and> list_all valid_reaction (sm_reactions m)"

definition presented :: "source_message \<Rightarrow> bool" where
  "presented m \<longleftrightarrow>
     sm_attachments m \<noteq> [] \<or> sm_custom_emojis m \<noteq> [] \<or> sm_stickers m \<noteq> [] \<or> sm_mentions m \<noteq> []
     \<or> sm_embeds m \<noteq> [] \<or> sm_poll m \<noteq> None \<or> sm_reactions m \<noteq> []"

definition validate_observation :: "source_message \<Rightarrow> error + source_message" where
  "validate_observation m =
     (if \<not> sm_deleted m \<and> sm_author_id m = [] then Inl ValidationError
      else if sm_author_external_id m \<noteq> []
              \<and> (\<not> sm_author_is_bot m \<or> sm_author_deployment_id m \<noteq> []) then Inl ValidationError
      else if sm_author_deployment_id m \<noteq> [] \<and> \<not> sm_author_is_bot m then Inl ValidationError
      else if sm_deleted m \<and> sm_text m \<noteq> [] then Inl ValidationError
      else if sm_deleted m \<and> presented m then Inl ValidationError
      else if \<not> sm_content_available m \<and> sm_text m \<noteq> [] then Inl ValidationError
      else Inr m)"

definition make_source :: "source_message \<Rightarrow> error + source_message" where
  "make_source m = (if valid_fields m then validate_observation m else Inl ValidationError)"

text \<open>
  What a draft depends on. The SHA-256 of its JSON is an argument of the model, as the other
  digests are: \<open>sha_raw\<close> is the digest of a list dumped with \<open>ensure_ascii=False\<close>, \<open>sha_source\<close>
  and \<open>sha_focus\<close> are those of the two payloads below.
\<close>

record source_payload =
  fp_author_id :: string
  fp_author_is_bot :: bool
  fp_author_external_id :: string
  fp_author_deployment_id :: string
  fp_text :: prose
  fp_reply_to :: string
  fp_response_to :: string
  fp_deleted :: bool
  fp_content_available :: bool
  fp_unseen_media :: bool
  fp_media_fingerprint :: string
  fp_poll :: "(prose \<times> prose list \<times> bool) option"

record focus_payload =
  ff_scope_key :: string
  ff_target_message_id :: string
  ff_sources :: "(string \<times> int) list"
  ff_anchor_ids :: "string list"
  ff_missing_ids :: "string list"

record room_digests = digests +
  sha_raw :: "string list \<Rightarrow> string"
  sha_source :: "source_payload \<Rightarrow> string"
  sha_focus :: "focus_payload \<Rightarrow> string"

definition draft_payload :: "source_message \<Rightarrow> source_payload" where
  "draft_payload m =
     \<lparr>fp_author_id = sm_author_id m, fp_author_is_bot = sm_author_is_bot m,
      fp_author_external_id = sm_author_external_id m,
      fp_author_deployment_id = sm_author_deployment_id m, fp_text = sm_text m,
      fp_reply_to = sm_reply_to m, fp_response_to = sm_response_to m, fp_deleted = sm_deleted m,
      fp_content_available = sm_content_available m, fp_unseen_media = sm_unseen_media m,
      fp_media_fingerprint = sm_media_fingerprint m,
      fp_poll = map_option (\<lambda>p. (po_question p, map pa_text (po_answers p), po_allow_multiselect p))
                           (sm_poll m)\<rparr>"

definition draft_fingerprint :: "room_digests \<Rightarrow> source_message \<Rightarrow> string" where
  "draft_fingerprint h m = sha_source h (draft_payload m)"

text \<open>\<open>datetime.min\<close> in UTC, the year 1.\<close>

definition datetime_min :: time where
  "datetime_min = seconds (- 62135596800)"

definition effective_time :: "source_message \<Rightarrow> time" where
  "effective_time m =
     (case sm_edited_at m of
        Some t \<Rightarrow> t
      | None \<Rightarrow> (case sm_created_at m of Some t \<Rightarrow> t | None \<Rightarrow> datetime_min))"

definition in_scope :: "source_message \<Rightarrow> room_scope \<Rightarrow> bool" where
  "in_scope m s \<longleftrightarrow> sm_channel_id m = sc_channel_id s \<and> sm_thread_id m = sc_thread_id s"

definition nonempty :: "string \<Rightarrow> string option" where
  "nonempty s = (if s = [] then None else Some s)"

definition source_author_kind :: "source_message \<Rightarrow> author_kind" where
  "source_author_kind m =
     (if sm_author_external_id m \<noteq> [] then ExternalAgent
      else if sm_author_deployment_id m \<noteq> [] then CharacterAuthor
      else if sm_author_is_bot m then OtherBot else Human)"

text \<open>\<open>routing_message\<close>; the rendered chat prose of \<open>model_text\<close> is an argument.\<close>

definition routing_message ::
  "(source_message \<Rightarrow> prose) \<Rightarrow> room_scope \<Rightarrow> int \<Rightarrow> source_message \<Rightarrow> error + room_message" where
  "routing_message model_text s revision m =
     (if \<not> in_scope m s \<or> sm_author_id m = []
      then Inl (ValueError ''A source cannot be relabeled to another room.'')
      else
        (let r = \<lparr>rm_id = sm_message_id m, rm_scope = s, rm_author_id = sm_author_id m,
                  rm_author_kind = source_author_kind m,
                  rm_author_deployment_id = nonempty (sm_author_deployment_id m),
                  rm_text = take 4000 (model_text m), rm_version = revision,
                  rm_reply_to = nonempty (sm_reply_to m),
                  rm_response_to = nonempty (sm_response_to m),
                  rm_response_complete = sm_response_complete m, rm_mentioned = sm_mentioned m,
                  rm_deleted = sm_deleted m, rm_content_available = sm_content_available m,
                  rm_unseen_media = sm_unseen_media m\<rparr>
         in if valid_message r then Inr r else Inl ValidationError))"

section \<open>Focus\<close>

record stored_source =
  ss_message :: source_message
  ss_revision :: int
  ss_room_revision :: int

record focused_context =
  fc_scope :: room_scope
  fc_target_message_id :: string
  fc_sources :: "stored_source list"
  fc_anchor_ids :: "string list"
  fc_missing_ids :: "string list"
  fc_room_revision :: int

definition message_ids :: "focused_context \<Rightarrow> string list" where
  "message_ids c = map (sm_message_id \<circ> ss_message) (fc_sources c)"

definition source_versions :: "focused_context \<Rightarrow> (string \<times> int) list" where
  "source_versions c = map (\<lambda>s. (sm_message_id (ss_message s), ss_revision s)) (fc_sources c)"

definition focus_fingerprint :: "room_digests \<Rightarrow> focused_context \<Rightarrow> string" where
  "focus_fingerprint h c =
     sha_focus h \<lparr>ff_scope_key = scope_key h (fc_scope c),
                  ff_target_message_id = fc_target_message_id c,
                  ff_sources = source_versions c, ff_anchor_ids = fc_anchor_ids c,
                  ff_missing_ids = fc_missing_ids c\<rparr>"

section \<open>Tombstones\<close>

text \<open>The copy that \<open>observe\<close> stores for a deleted message, and what older tombstones are
  read as.\<close>

definition blank :: "source_message \<Rightarrow> source_message" where
  "blank m =
     m\<lparr>sm_text := [], sm_attachments := [], sm_custom_emojis := [], sm_stickers := [],
       sm_mentions := [], sm_embeds := [], sm_poll := None, sm_reactions := [],
       sm_pinned := False, sm_unseen_media := False, sm_media_fingerprint := []\<rparr>"

definition tombstone :: "source_message \<Rightarrow> source_message" where
  "tombstone m = blank (m\<lparr>sm_deleted := True\<rparr>)"

text \<open>A source column holds the JSON of a message's fields, named by the record it decodes to
  (not necessarily one that passes the validators), or a text of no such shape.\<close>

datatype source_text = SourceText source_message | BadSource string

definition validate_json :: "source_text \<Rightarrow> error + source_message" where
  "validate_json t = (case t of SourceText m \<Rightarrow> make_source m | BadSource _ \<Rightarrow> Inl ValidationError)"

definition source_from_json :: "source_text \<Rightarrow> error + source_message" where
  "source_from_json t =
     (case validate_json t of
        Inr m \<Rightarrow> Inr m
      | Inl e \<Rightarrow>
          (case t of
             SourceText m \<Rightarrow> if sm_deleted m then make_source (blank m) else Inl e
           | BadSource _ \<Rightarrow> Inl e))"

text \<open>A message that is read is the stored one, or the stored tombstone without its content.\<close>

lemma make_source_InrD: "make_source m = Inr m' \<Longrightarrow> m' = m"
  by (auto simp: make_source_def validate_observation_def split: if_splits)

lemma source_from_json_InrD:
  "source_from_json t = Inr m \<Longrightarrow>
    \<exists>r. t = SourceText r \<and> (m = r \<or> sm_deleted r \<and> m = blank r)"
  by (auto simp: source_from_json_def validate_json_def split: source_text.splits sum.splits if_splits
      dest: make_source_InrD)

lemma blank_simps [simp]:
  "sm_deleted (blank m) = sm_deleted m" "sm_author_id (blank m) = sm_author_id m"
  "sm_author_is_bot (blank m) = sm_author_is_bot m" "sm_text (blank m) = []"
  "sm_message_id (blank m) = sm_message_id m" "\<not> presented (blank m)"
  by (simp_all add: blank_def presented_def)

lemma make_source_InrD2:
  "make_source m = Inr m' \<Longrightarrow> length (sm_text m') \<le> 10000 \<and> (sm_deleted m' \<longrightarrow> sm_text m' = [] \<and> \<not> presented m')"
  by (auto simp: make_source_def validate_observation_def valid_fields_def sized_def split: if_splits)

lemma read_source_facts:
  assumes "source_from_json t = Inr m"
  shows "length (sm_text m) \<le> 10000" "sm_deleted m \<Longrightarrow> sm_text m = []" "sm_deleted m \<Longrightarrow> \<not> presented m"
proof -
  obtain r where "make_source r = Inr m"
    using assms by (auto simp: source_from_json_def validate_json_def
        split: source_text.splits sum.splits if_splits)
  from make_source_InrD2 [OF this]
  show "length (sm_text m) \<le> 10000" "sm_deleted m \<Longrightarrow> sm_text m = []" "sm_deleted m \<Longrightarrow> \<not> presented m"
    by auto
qed

end
