(* ===== verification/Deployments.thy ===== *)
theory Deployments
  imports Json
begin

text \<open>
  The rows of a Character card (\<open>CharacterCardRecord\<close> of \<open>persistence/models.py\<close>) and of its
  deployment to a platform destination (\<open>CharacterDeploymentRecord\<close> of
  \<open>persistence/deployment_models.py\<close>). The rooms, notes and reminders only read them; \<open>Deployment_Store\<close> writes them.
\<close>

record character_card =
  cc_id :: string
  cc_owner_id :: string
  cc_target_id :: string
  cc_display_name :: string
  cc_subtitle :: string
  cc_subject_type :: string
  cc_persona_summary :: string
  cc_traits :: json_text
  cc_tags :: json_text
  cc_expected_tone :: "string option"
  cc_forbidden_behaviors :: json_text
  cc_memory_summary :: "string option"
  cc_preferred_suites :: json_text
  cc_portrait_variant :: string
  cc_created_at :: time

record character_deployment =
  cd_id :: string
  cd_owner_id :: string
  cd_character_card_id :: string
  cd_connection_id :: string
  cd_platform :: string
  cd_workspace_id :: string
  cd_workspace_name :: string
  cd_channel_id :: string
  cd_channel_name :: string
  cd_thread_id :: string
  cd_thread_name :: string
  cd_participation_mode :: string
  cd_memory_scope :: string
  cd_version_label :: string
  cd_sticker_count :: int
  cd_status :: string
  cd_last_message_at :: "time option"
  cd_last_error :: string
  cd_created_at :: time
  cd_updated_at :: time

text \<open>The other rows of \<open>persistence/deployment_models.py\<close>: a platform account, the servers it sees,
  an owner's settings for a server, the attachment of a deployment to such settings, and the
  operational events of a connector.\<close>

record platform_connection =
  pn_id :: string
  pn_owner_id :: string
  pn_platform :: string
  pn_display_name :: string
  pn_connection_mode :: string
  pn_external_account_id :: string
  pn_status :: string
  pn_metadata :: json_text
  pn_last_seen_at :: "time option"
  pn_created_at :: time
  pn_updated_at :: time

record server_catalog =
  vc_id :: string
  vc_owner_id :: string
  vc_connection_id :: string
  vc_guild_id :: string
  vc_guild_name :: string
  vc_channels :: json_text
  vc_synced_at :: time
  vc_created_at :: time
  vc_updated_at :: time

record server_profile =
  vp_id :: string
  vp_owner_id :: string
  vp_connection_id :: string
  vp_name :: string
  vp_guild_id :: string
  vp_guild_name :: string
  vp_channel_scope_mode :: string
  vp_excluded_channel_ids :: json_text
  vp_excluded_category_ids :: json_text
  vp_thread_policy :: string
  vp_created_at :: time
  vp_updated_at :: time

record deployment_scope =
  dz_deployment_id :: string
  dz_owner_id :: string
  dz_server_profile_id :: string
  dz_channel_scope_mode :: string
  dz_excluded_channel_ids :: json_text
  dz_excluded_category_ids :: json_text
  dz_created_at :: time
  dz_updated_at :: time

record connector_event =
  ce_id :: string
  ce_owner_id :: string
  ce_connection_id :: string
  ce_level :: string
  ce_event_type :: string
  ce_message :: string
  ce_guild_id :: string
  ce_guild_name :: string
  ce_channel_id :: string
  ce_channel_name :: string
  ce_thread_id :: string
  ce_thread_name :: string
  ce_source_message_id :: string
  ce_deployment_id :: string
  ce_character_name :: string
  ce_details :: json_text
  ce_occurred_at :: time
  ce_created_at :: time

text \<open>A card and a deployment for the examples.\<close>

definition demo_card :: "string \<Rightarrow> string \<Rightarrow> character_card" where
  "demo_card k owner =
     \<lparr>cc_id = k, cc_owner_id = owner, cc_target_id = ''t'', cc_display_name = ''Ann'',
      cc_subtitle = [], cc_subject_type = ''custom'', cc_persona_summary = [],
      cc_traits = Text (JArr []), cc_tags = Text (JArr []), cc_expected_tone = None,
      cc_forbidden_behaviors = Text (JArr []), cc_memory_summary = None,
      cc_preferred_suites = Text (JArr []), cc_portrait_variant = ''lavender'', cc_created_at = 0\<rparr>"

definition demo_deployment :: "string \<Rightarrow> string \<Rightarrow> character_deployment" where
  "demo_deployment k owner =
     \<lparr>cd_id = k, cd_owner_id = owner, cd_character_card_id = ''card'', cd_connection_id = ''c'',
      cd_platform = ''discord'', cd_workspace_id = ''g'', cd_workspace_name = [],
      cd_channel_id = ''ch'', cd_channel_name = ''general'', cd_thread_id = [], cd_thread_name = [],
      cd_participation_mode = ''mention_and_reply'', cd_memory_scope = ''channel_isolated'',
      cd_version_label = ''Current'', cd_sticker_count = 0, cd_status = ''active'',
      cd_last_message_at = None, cd_last_error = [], cd_created_at = 0, cd_updated_at = 0\<rparr>"

end
