(* ===== verification/Room_Store.thy ===== *)
theory Room_Store
  imports Room_Sources Deployments Pagination
begin

text \<open>
  The evidence of a room: the tables of \<open>persistence/room_models.py\<close> and \<open>RoomRepository\<close>
  (\<open>persistence/room_repository.py\<close>), which records observations with edits in order and sticky
  tombstones, keeps the platform's permission checks, focuses a selection on a bounded context and
  reserves routing decisions. The rows of notes and of perceived media are here too, since an
  observation erases those that were derived from an older version of a message.

  \<open>now\<close> is the clock that every \<open>datetime.now(UTC)\<close> of one call reads; row identifiers that the
  code draws with \<open>uuid4\<close> are arguments. The room locks make each call one step. A \<open>scope_json\<close>
  column is the scope it was dumped from: the code writes nothing else to it.
\<close>

section \<open>Rows\<close>

record room_state =
  ro_id :: string
  ro_scope :: room_scope
  ro_revision :: int
  ro_readable :: bool
  ro_permission_checked_at :: "time option"
  ro_updated_at :: time

record room_source =
  so_id :: string
  so_scope_id :: string
  so_message_id :: string
  so_content :: source_text
  so_revision :: int
  so_room_revision :: int
  so_created_at :: time

datatype selection_origin = DirectOrigin | AmbientOrigin | ContinuationOrigin | ContextActionOrigin

text \<open>The focus a selection is bound to, the value of its \<open>focus_json\<close>.\<close>

record selection_focus =
  sf_fingerprint :: string
  sf_sources :: "(string \<times> int) list"
  sf_anchor_ids :: "string list"
  sf_room_revision :: int

record room_selection =
  sl_id :: string
  sl_scope_id :: string
  sl_request_id :: string
  sl_trigger_message_id :: string
  sl_deployment_id :: string
  sl_requester_id :: string
  sl_requester_is_bot :: bool
  sl_target_message_id :: string
  sl_mode :: speaking_mode
  sl_origin :: selection_origin
  sl_focus :: selection_focus
  sl_created_at :: time
  sl_expires_at :: time

record room_route =
  rt_id :: string
  rt_scope_id :: string
  rt_request_id :: string
  rt_input_hash :: string
  rt_requester_id :: string
  rt_optional :: bool
  rt_status :: string
  rt_result :: string
  rt_created_at :: time
  rt_completed_at :: "time option"

datatype note_kind = PlainNote | RelationshipNote

record character_note =
  cn_id :: string
  cn_owner_id :: string
  cn_card_id :: string
  cn_scope_id :: string
  cn_scope :: "room_scope option"
  cn_subject_ref :: string
  cn_kind :: note_kind
  cn_text :: prose
  cn_authored :: bool
  cn_actor_id :: string
  cn_source_message_id :: string
  cn_source_hash :: string
  cn_version :: int
  cn_created_at :: time
  cn_updated_at :: time

record note_receipt =
  nr_id :: string
  nr_owner_id :: string
  nr_card_id :: string
  nr_created_at :: time

record media_reference =
  mr_id :: string
  mr_owner_id :: string
  mr_deployment_id :: string
  mr_card_id :: string
  mr_guild_id :: string
  mr_channel_id :: string
  mr_thread_id :: string
  mr_message_id :: string
  mr_source_key :: string
  mr_kind :: string
  mr_label :: prose
  mr_context :: string
  mr_source_fingerprint :: string
  mr_source_uri :: string
  mr_created_at :: time
  mr_expires_at :: time

record room_db = runtime_db +
  room_states :: "room_state list"
  room_sources :: "room_source list"
  room_selections :: "room_selection list"
  room_routes :: "room_route list"
  character_notes :: "character_note list"
  note_receipts :: "note_receipt list"
  media_references :: "media_reference list"
  character_cards :: "character_card list"

abbreviation get_room :: "'a room_db_scheme \<Rightarrow> string \<Rightarrow> room_state option" where
  "get_room d k \<equiv> tget ro_id (room_states d) k"

abbreviation get_source :: "'a room_db_scheme \<Rightarrow> string \<Rightarrow> room_source option" where
  "get_source d k \<equiv> tget so_id (room_sources d) k"

abbreviation get_note :: "'a room_db_scheme \<Rightarrow> string \<Rightarrow> character_note option" where
  "get_note d k \<equiv> tget cn_id (character_notes d) k"

interpretation room_table: db_table room_states room_states_update ro_id
  by unfold_locales simp

interpretation source_table: db_table room_sources room_sources_update so_id
  by unfold_locales simp

interpretation selection_table: db_table room_selections room_selections_update sl_id
  by unfold_locales simp

interpretation route_table: db_table room_routes room_routes_update rt_id
  by unfold_locales simp

interpretation note_table: db_table character_notes character_notes_update cn_id
  by unfold_locales simp

section \<open>Rooms and permission checks\<close>

definition new_room :: "room_digests \<Rightarrow> time \<Rightarrow> room_scope \<Rightarrow> room_state" where
  "new_room h now s =
     \<lparr>ro_id = scope_key h s, ro_scope = s, ro_revision = 0, ro_readable = True,
      ro_permission_checked_at = None, ro_updated_at = now\<rparr>"

text \<open>\<open>_room\<close>: insert or do nothing, then the row.\<close>

definition with_room ::
  "room_digests \<Rightarrow> time \<Rightarrow> room_scope \<Rightarrow> 'a room_db_scheme \<Rightarrow> room_state \<times> 'a room_db_scheme" where
  "with_room h now s d =
     (case get_room d (scope_key h s) of
        Some r \<Rightarrow> (r, d)
      | None \<Rightarrow> (new_room h now s, d\<lparr>room_states := tins (new_room h now s) (room_states d)\<rparr>))"

definition put_room ::
  "string \<Rightarrow> (room_state \<Rightarrow> room_state) \<Rightarrow> 'a room_db_scheme \<Rightarrow> 'a room_db_scheme" where
  "put_room k f d = d\<lparr>room_states := tset (\<lambda>r. ro_id r = k) f (room_states d)\<rparr>"

definition late_check :: "time \<Rightarrow> room_state \<Rightarrow> bool" where
  "late_check observed r =
     (case ro_permission_checked_at r of
        None \<Rightarrow> False
      | Some previous \<Rightarrow> observed < previous \<or> (observed = previous \<and> \<not> ro_readable r))"

definition set_access ::
  "room_digests \<Rightarrow> time \<Rightarrow> room_scope \<Rightarrow> bool \<Rightarrow> time option \<Rightarrow> 'a room_db_scheme
    \<Rightarrow> (unit, 'a room_db_scheme) outcome" where
  "set_access h now s readable checked_at d =
     (let (r, d') = with_room h now s d;
          observed = (case checked_at of Some t \<Rightarrow> t | None \<Rightarrow> now) in
      if late_check observed r then (Inr (), d)
      else
        (Inr (),
         put_room (ro_id r)
           (\<lambda>r. if ro_readable r \<noteq> readable
                then r\<lparr>ro_permission_checked_at := Some observed, ro_readable := readable,
                       ro_revision := ro_revision r + 1\<rparr>
                else r\<lparr>ro_permission_checked_at := Some observed\<rparr>) d'))"

definition readable_room :: "room_digests \<Rightarrow> room_scope \<Rightarrow> 'a room_db_scheme \<Rightarrow> room_state option" where
  "readable_room h s d =
     (case get_room d (scope_key h s) of
        None \<Rightarrow> None
      | Some r \<Rightarrow> if ro_readable r then Some r else None)"

definition stored :: "room_source \<Rightarrow> error + stored_source" where
  "stored r =
     (case source_from_json (so_content r) of
        Inl e \<Rightarrow> Inl e
      | Inr m \<Rightarrow> Inr \<lparr>ss_message = m, ss_revision = so_revision r,
                      ss_room_revision = so_room_revision r\<rparr>)"

text \<open>\<open>RoomRepository.get\<close>, \<open>revision\<close> and \<open>can_read\<close>.\<close>

definition get_stored ::
  "room_digests \<Rightarrow> room_scope \<Rightarrow> string \<Rightarrow> 'a room_db_scheme \<Rightarrow> error + stored_source option" where
  "get_stored h s mid d =
     (case readable_room h s d of
        None \<Rightarrow> Inr None
      | Some _ \<Rightarrow>
          (case get_source d (evidence_key h s mid) of
             None \<Rightarrow> Inr None
           | Some r \<Rightarrow> map_sum id Some (stored r)))"

definition room_revision :: "room_digests \<Rightarrow> room_scope \<Rightarrow> 'a room_db_scheme \<Rightarrow> int" where
  "room_revision h s d =
     (case readable_room h s d of None \<Rightarrow> 0 | Some r \<Rightarrow> ro_revision r)"

definition can_read ::
  "room_digests \<Rightarrow> time \<Rightarrow> room_scope \<Rightarrow> int option \<Rightarrow> 'a room_db_scheme \<Rightarrow> bool" where
  "can_read h now s max_age_seconds d =
     (case readable_room h s d of
        None \<Rightarrow> False
      | Some r \<Rightarrow>
          (case max_age_seconds of
             None \<Rightarrow> True
           | Some age \<Rightarrow>
               (case ro_permission_checked_at r of
                  None \<Rightarrow> False
                | Some t \<Rightarrow> 0 \<le> now - t \<and> now - t \<le> seconds age)))"

section \<open>Observing messages\<close>

text \<open>What an observation does to a message that is already stored.\<close>

datatype observation = Skip | Enrich source_message | Revise source_message

definition author_conflict :: "source_message \<Rightarrow> source_message \<Rightarrow> bool" where
  "author_conflict old item \<longleftrightarrow>
     sm_author_id old \<noteq> sm_author_id item \<or> sm_author_is_bot old \<noteq> sm_author_is_bot item"

definition character_conflict :: "source_message \<Rightarrow> source_message \<Rightarrow> bool" where
  "character_conflict old item \<longleftrightarrow>
     sm_author_deployment_id old \<noteq> []
     \<and> sm_author_deployment_id item \<notin> {[], sm_author_deployment_id old}"

text \<open>An enrichment of equal version cannot replace readable text, nor forget the character.\<close>

definition keep_text :: "source_message \<Rightarrow> source_message \<Rightarrow> source_message" where
  "keep_text old item =
     (if effective_time item = effective_time old \<and> sm_content_available old
      then item\<lparr>sm_text := sm_text old, sm_content_available := sm_content_available old\<rparr>
      else item)"

definition keep_character :: "source_message \<Rightarrow> source_message \<Rightarrow> source_message" where
  "keep_character old item =
     (if sm_author_deployment_id item = [] \<and> sm_author_deployment_id old \<noteq> []
      then item\<lparr>sm_author_deployment_id := sm_author_deployment_id old\<rparr> else item)"

definition keep_response :: "source_message \<Rightarrow> source_message \<Rightarrow> source_message" where
  "keep_response old item =
     (if sm_response_to item = [] \<and> sm_response_to old \<noteq> []
      then item\<lparr>sm_response_to := sm_response_to old,
                sm_response_complete := sm_response_complete old\<rparr> else item)"

definition settle_observation ::
  "room_digests \<Rightarrow> source_message \<Rightarrow> source_message \<Rightarrow> observation" where
  "settle_observation h old item =
     (let linked = keep_response old item in
      if old = linked then Skip
      else if draft_fingerprint h old = draft_fingerprint h item then Enrich linked
      else Revise linked)"

definition merge_source ::
  "room_digests \<Rightarrow> source_message \<Rightarrow> source_message \<Rightarrow> error + observation" where
  "merge_source h old item =
     (if sm_deleted old then Inr Skip
      else if sm_deleted item then Inr (settle_observation h old (tombstone old))
      else if author_conflict old item then Inl (ValueError ''source_author_conflict'')
      else if character_conflict old item then Inl (ValueError ''source_character_conflict'')
      else if effective_time item < effective_time old then Inr Skip
      else Inr (settle_observation h old (keep_character old (keep_text old item))))"

text \<open>Notes quoted from another version of the message, and perceptions of another version.\<close>

definition stale_note :: "room_digests \<Rightarrow> string \<Rightarrow> source_message \<Rightarrow> character_note \<Rightarrow> bool" where
  "stale_note h room m n \<longleftrightarrow>
     cn_scope_id n = room \<and> cn_source_message_id n = sm_message_id m \<and> \<not> cn_authored n
     \<and> cn_source_hash n \<noteq> draft_fingerprint h m"

definition stale_media :: "room_digests \<Rightarrow> room_scope \<Rightarrow> source_message \<Rightarrow> media_reference \<Rightarrow> bool" where
  "stale_media h s m r \<longleftrightarrow>
     mr_owner_id r = sc_owner_id s \<and> mr_guild_id r = sc_guild_id s
     \<and> mr_channel_id r = sc_channel_id s \<and> mr_thread_id r = sc_thread_id s
     \<and> mr_message_id r = sm_message_id m \<and> mr_context r \<noteq> []
     \<and> mr_source_fingerprint r \<noteq> draft_fingerprint h m"

definition erase_derived ::
  "room_digests \<Rightarrow> room_scope \<Rightarrow> source_message \<Rightarrow> 'a room_db_scheme \<Rightarrow> 'a room_db_scheme" where
  "erase_derived h s m d =
     d\<lparr>character_notes := tdel (stale_note h (scope_key h s) m) (character_notes d),
       media_references := tdel (stale_media h s m) (media_references d)\<rparr>"

definition put_source ::
  "string \<Rightarrow> (room_source \<Rightarrow> room_source) \<Rightarrow> 'a room_db_scheme \<Rightarrow> 'a room_db_scheme" where
  "put_source k f d = d\<lparr>room_sources := tset (\<lambda>r. so_id r = k) f (room_sources d)\<rparr>"

definition new_source ::
  "room_digests \<Rightarrow> time \<Rightarrow> room_scope \<Rightarrow> string \<Rightarrow> int \<Rightarrow> source_message \<Rightarrow> room_source" where
  "new_source h now s k revision m =
     \<lparr>so_id = k, so_scope_id = scope_key h s,
      so_message_id = sm_message_id m, so_content = SourceText m, so_revision = 1,
      so_room_revision = revision,
      so_created_at = (case sm_created_at m of Some t \<Rightarrow> t | None \<Rightarrow> now)\<rparr>"

text \<open>A new version of a message: derived rows go, the room's revision advances.\<close>

definition record_version ::
  "room_digests \<Rightarrow> time \<Rightarrow> room_scope \<Rightarrow> string \<Rightarrow> source_message \<Rightarrow> 'a room_db_scheme
    \<Rightarrow> 'a room_db_scheme" where
  "record_version h now s k m d =
     (let d1 = put_room (scope_key h s) (\<lambda>r. r\<lparr>ro_revision := ro_revision r + 1\<rparr>)
                 (erase_derived h s m d);
          revision = (case get_room d1 (scope_key h s) of Some r \<Rightarrow> ro_revision r | None \<Rightarrow> 0) in
      case get_source d k of
        None \<Rightarrow> d1\<lparr>room_sources := tins (new_source h now s k revision m) (room_sources d1)\<rparr>
      | Some _ \<Rightarrow>
          put_source k (\<lambda>r. r\<lparr>so_content := SourceText m, so_revision := so_revision r + 1,
                             so_room_revision := revision\<rparr>) d1)"

definition observe_message ::
  "room_digests \<Rightarrow> time \<Rightarrow> room_scope \<Rightarrow> source_message \<Rightarrow> 'a room_db_scheme
    \<Rightarrow> error + 'a room_db_scheme" where
  "observe_message h now s item d =
     (let k = evidence_key h s (sm_message_id item) in
      case get_source d k of
        None \<Rightarrow> Inr (record_version h now s k item d)
      | Some r \<Rightarrow>
          (case source_from_json (so_content r) of
             Inl e \<Rightarrow> Inl e
           | Inr old \<Rightarrow>
               (case merge_source h old item of
                  Inl e \<Rightarrow> Inl e
                | Inr Skip \<Rightarrow> Inr d
                | Inr (Enrich m) \<Rightarrow> Inr (put_source k (\<lambda>r. r\<lparr>so_content := SourceText m\<rparr>) d)
                | Inr (Revise m) \<Rightarrow> Inr (record_version h now s k m d))))"

fun observe_messages ::
  "room_digests \<Rightarrow> time \<Rightarrow> room_scope \<Rightarrow> source_message list \<Rightarrow> 'a room_db_scheme
    \<Rightarrow> error + 'a room_db_scheme" where
  "observe_messages h now s [] d = Inr d"
| "observe_messages h now s (m # ms) d =
     (case observe_message h now s m d of
        Inl e \<Rightarrow> Inl e
      | Inr d' \<Rightarrow> observe_messages h now s ms d')"

definition observe ::
  "room_digests \<Rightarrow> time \<Rightarrow> room_scope \<Rightarrow> source_message list \<Rightarrow> 'a room_db_scheme
    \<Rightarrow> (int, 'a room_db_scheme) outcome" where
  "observe h now s messages d =
     (if 64 < length messages \<or> list_ex (\<lambda>m. \<not> in_scope m s) messages
      then (Inl (ValueError ''source_scope_mismatch''), d)
      else
        (let (room, d1) = with_room h now s d in
         if \<not> ro_readable room then (Inl (SourceUnavailable ''room_access_revoked''), d)
         else
           (case observe_messages h now s messages d1 of
              Inl e \<Rightarrow> (Inl e, d)
            | Inr d2 \<Rightarrow>
                (let d3 = put_room (scope_key h s) (\<lambda>r. r\<lparr>ro_updated_at := now\<rparr>) d2 in
                 (Inr (room_revision h s d3), d3)))))"


section \<open>Recent messages and focus\<close>

definition source_order :: "room_source \<Rightarrow> time \<times> string" where
  "source_order r = (so_created_at r, so_id r)"

definition room_rows :: "string \<Rightarrow> 'a room_db_scheme \<Rightarrow> room_source list" where
  "room_rows room d = filter (\<lambda>r. so_scope_id r = room) (room_sources d)"

definition newest_rows :: "string \<Rightarrow> int \<Rightarrow> 'a room_db_scheme \<Rightarrow> room_source list" where
  "newest_rows room limit d = tlimit limit (rows_before source_order None (room_rows room d))"

fun all_stored :: "room_source list \<Rightarrow> error + stored_source list" where
  "all_stored [] = Inr []"
| "all_stored (r # rs) =
     (case stored r of
        Inl e \<Rightarrow> Inl e
      | Inr x \<Rightarrow> (case all_stored rs of Inl e \<Rightarrow> Inl e | Inr xs \<Rightarrow> Inr (x # xs)))"

definition recent ::
  "room_digests \<Rightarrow> room_scope \<Rightarrow> int \<Rightarrow> 'a room_db_scheme \<Rightarrow> error + stored_source list" where
  "recent h s limit d =
     (if \<not> (1 \<le> limit \<and> limit \<le> 64) then Inl (ValueError ''invalid_source_limit'')
      else
        (case readable_room h s d of
           None \<Rightarrow> Inr []
         | Some room \<Rightarrow> all_stored (rev (newest_rows (ro_id room) limit d))))"

text \<open>Evidence that may be quoted: neither deleted nor without readable content.\<close>

definition unusable :: "stored_source \<Rightarrow> bool" where
  "unusable x \<longleftrightarrow> sm_deleted (ss_message x) \<or> \<not> sm_content_available (ss_message x)"

definition source_id :: "stored_source \<Rightarrow> string" where
  "source_id x = sm_message_id (ss_message x)"

definition source_size :: "stored_source \<Rightarrow> int" where
  "source_size x = int (length (sm_text (ss_message x)))"

text \<open>\<open>reply_to_message_id or response_to_message_id\<close>, and the walk over at most \<open>n\<close> ancestors.
  The result is the anchors after the current one, and the ancestor that is missing.\<close>

definition parent_id :: "stored_source \<Rightarrow> string" where
  "parent_id x =
     (if sm_reply_to (ss_message x) \<noteq> [] then sm_reply_to (ss_message x)
      else sm_response_to (ss_message x))"

fun ancestors ::
  "room_digests \<Rightarrow> room_scope \<Rightarrow> 'a room_db_scheme \<Rightarrow> nat \<Rightarrow> string list \<Rightarrow> stored_source
    \<Rightarrow> error + (stored_source list \<times> string list)" where
  "ancestors h s d 0 seen current = Inr ([], [])"
| "ancestors h s d (Suc n) seen current =
     (let p = parent_id current in
      if p = [] \<or> p \<in> set seen then Inr ([], [])
      else
        (case get_source d (evidence_key h s p) of
           None \<Rightarrow> Inr ([], [p])
         | Some row \<Rightarrow>
             (case stored row of
                Inl e \<Rightarrow> Inl e
              | Inr parent \<Rightarrow>
                  if unusable parent then Inr ([], [p])
                  else
                    (case ancestors h s d n (p # seen) parent of
                       Inl e \<Rightarrow> Inl e
                     | Inr (anchors, missing) \<Rightarrow> Inr (parent # anchors, missing)))))"

text \<open>\<open>selected[id] = source\<close> on a dict in insertion order, with the characters used so far.\<close>

type_synonym picked = "stored_source list \<times> int"

definition pick :: "stored_source \<Rightarrow> picked \<Rightarrow> picked" where
  "pick x p =
     (let (selected, chars) = p in
      (if source_id x \<in> set (map source_id selected)
       then map (\<lambda>y. if source_id y = source_id x then x else y) selected
       else selected @ [x],
       chars + source_size x))"

fun pick_anchors :: "int \<Rightarrow> stored_source list \<Rightarrow> picked \<Rightarrow> picked \<times> string list" where
  "pick_anchors char_limit [] p = (p, [])"
| "pick_anchors char_limit (x # xs) p =
     (if char_limit < snd p + source_size x then (p, [source_id x])
      else pick_anchors char_limit xs (pick x p))"

definition pick_recent :: "int \<Rightarrow> stored_source \<Rightarrow> picked \<Rightarrow> picked" where
  "pick_recent char_limit x p =
     (if unusable x then p
      else if source_id x \<in> set (map source_id (fst p)) \<or> char_limit < snd p + source_size x then p
      else pick x p)"

definition focus_order :: "stored_source \<Rightarrow> time \<times> string" where
  "focus_order x =
     (case sm_created_at (ss_message x) of Some t \<Rightarrow> t | None \<Rightarrow> datetime_min, source_id x)"

definition valid_budget :: "int \<Rightarrow> int \<Rightarrow> int \<Rightarrow> bool" where
  "valid_budget recent_limit ancestor_limit char_limit \<longleftrightarrow>
     0 \<le> recent_limit \<and> recent_limit \<le> 20 \<and> 0 \<le> ancestor_limit \<and> ancestor_limit \<le> 8
     \<and> 10000 \<le> char_limit \<and> char_limit \<le> 32000"

definition focus_target ::
  "room_digests \<Rightarrow> room_scope \<Rightarrow> string \<Rightarrow> 'a room_db_scheme \<Rightarrow> error + (room_state \<times> stored_source)" where
  "focus_target h s target d =
     (case readable_room h s d of
        None \<Rightarrow> Inl (SourceUnavailable ''room_unavailable'')
      | Some room \<Rightarrow>
          (case get_source d (evidence_key h s target) of
             None \<Rightarrow> Inl (SourceUnavailable ''target_unavailable'')
           | Some row \<Rightarrow>
               (case stored row of
                  Inl e \<Rightarrow> Inl e
                | Inr x \<Rightarrow>
                    if unusable x then Inl (SourceUnavailable ''target_unavailable'')
                    else Inr (room, x))))"

definition focus ::
  "room_digests \<Rightarrow> room_scope \<Rightarrow> string \<Rightarrow> int \<Rightarrow> int \<Rightarrow> int \<Rightarrow> 'a room_db_scheme
    \<Rightarrow> error + focused_context" where
  "focus h s target recent_limit ancestor_limit char_limit d =
     (if \<not> valid_budget recent_limit ancestor_limit char_limit
      then Inl (ValueError ''invalid_context_budget'')
      else
        (case focus_target h s target d of
           Inl e \<Rightarrow> Inl e
         | Inr (room, current) \<Rightarrow>
             (case ancestors h s d (nat ancestor_limit) [target] current of
                Inl e \<Rightarrow> Inl e
              | Inr (parents, absent) \<Rightarrow>
                  (let (picked, cut) = pick_anchors char_limit (current # parents) ([], 0) in
                   case all_stored (newest_rows (ro_id room) recent_limit d) of
                     Inl e \<Rightarrow> Inl e
                   | Inr rows \<Rightarrow>
                       (let chosen = fst (fold (pick_recent char_limit) rows picked) in
                        Inr \<lparr>fc_scope = s, fc_target_message_id = target,
                             fc_sources = sort_key focus_order chosen,
                             fc_anchor_ids = filter (\<lambda>i. i \<in> set (map source_id chosen))
                                               (map source_id (current # parents)),
                             fc_missing_ids = absent @ cut,
                             fc_room_revision = ro_revision room\<rparr>)))))"

section \<open>Selections\<close>

definition default_recent :: int where "default_recent = 12"
definition default_ancestors :: int where "default_ancestors = 8"
definition default_chars :: int where "default_chars = 24000"

record selection_request =
  sq_request_id :: string
  sq_trigger_message_id :: string
  sq_requester_id :: string
  sq_requester_is_bot :: bool
  sq_choice :: speaker_choice
  sq_origin :: selection_origin

text \<open>\<open>select\<close>; \<open>uid\<close> is the new row's identifier. The origin is one of its four literals.\<close>

definition select_speaker ::
  "room_digests \<Rightarrow> time \<Rightarrow> string \<Rightarrow> room_scope \<Rightarrow> selection_request \<Rightarrow> 'a room_db_scheme
    \<Rightarrow> (room_selection, 'a room_db_scheme) outcome" where
  "select_speaker h now uid s q d =
     (case focus h s (ch_target_message_id (sq_choice q)) default_recent default_ancestors
             default_chars d of
        Inl e \<Rightarrow> (Inl e, d)
      | Inr c \<Rightarrow>
          (let r = \<lparr>sl_id = uid, sl_scope_id = scope_key h s, sl_request_id = sq_request_id q,
                    sl_trigger_message_id = sq_trigger_message_id q,
                    sl_deployment_id = ch_speaker (sq_choice q),
                    sl_requester_id = sq_requester_id q,
                    sl_requester_is_bot = sq_requester_is_bot q,
                    sl_target_message_id = ch_target_message_id (sq_choice q),
                    sl_mode = ch_mode (sq_choice q), sl_origin = sq_origin q,
                    sl_focus = \<lparr>sf_fingerprint = focus_fingerprint h c,
                                sf_sources = source_versions c, sf_anchor_ids = fc_anchor_ids c,
                                sf_room_revision = fc_room_revision c\<rparr>,
                    sl_created_at = now, sl_expires_at = now + minutes 15\<rparr> in
           if tget sl_id (room_selections d) uid \<noteq> None then (Inl IntegrityError, d)
           else (Inr r, d\<lparr>room_selections := tins r (room_selections d)\<rparr>)))"

definition selection ::
  "room_digests \<Rightarrow> time \<Rightarrow> room_scope \<Rightarrow> string \<Rightarrow> string \<Rightarrow> 'a room_db_scheme
    \<Rightarrow> error + room_selection" where
  "selection h now s k deployment d =
     (case tget sl_id (room_selections d) k of
        None \<Rightarrow> Inl (SourceUnavailable ''selection_unavailable'')
      | Some r \<Rightarrow>
          if sl_scope_id r \<noteq> scope_key h s \<or> sl_deployment_id r \<noteq> deployment
             \<or> sl_expires_at r \<le> now
          then Inl (SourceUnavailable ''selection_unavailable'') else Inr r)"

section \<open>Route reservations\<close>

definition route_key :: "room_digests \<Rightarrow> room_scope \<Rightarrow> string \<Rightarrow> string" where
  "route_key h s request = sha_ids h [scope_key h s, request]"

record route_limits =
  rl_cooldown_seconds :: int
  rl_window_seconds :: int
  rl_max_attempts :: int

datatype reservation =
    RoomAccessRevoked | Replay room_route | RoutingInProgress room_route
  | RoomCooldown | RoomAttemptLimit | Reserved room_route

definition optional_routes :: "string \<Rightarrow> 'a room_db_scheme \<Rightarrow> room_route list" where
  "optional_routes room d = filter (\<lambda>r. rt_scope_id r = room \<and> rt_optional r) (room_routes d)"

definition cooling :: "route_limits \<Rightarrow> time \<Rightarrow> string \<Rightarrow> 'a room_db_scheme \<Rightarrow> bool" where
  "cooling l now room d =
     (case rev (sort_key rt_created_at (optional_routes room d)) of
        [] \<Rightarrow> False
      | newest # _ \<Rightarrow> now < rt_created_at newest + seconds (rl_cooldown_seconds l))"

definition window_count :: "route_limits \<Rightarrow> time \<Rightarrow> string \<Rightarrow> 'a room_db_scheme \<Rightarrow> int" where
  "window_count l now room d =
     int (tcount (\<lambda>r. now - seconds (rl_window_seconds l) \<le> rt_created_at r)
            (optional_routes room d))"

definition new_route ::
  "room_digests \<Rightarrow> time \<Rightarrow> room_scope \<Rightarrow> string \<Rightarrow> string \<Rightarrow> string \<Rightarrow> bool \<Rightarrow> room_route" where
  "new_route h now s request input requester optional =
     \<lparr>rt_id = route_key h s request, rt_scope_id = scope_key h s, rt_request_id = request,
      rt_input_hash = input, rt_requester_id = requester, rt_optional = optional,
      rt_status = ''in_progress'', rt_result = [], rt_created_at = now, rt_completed_at = None\<rparr>"

definition reserve_route ::
  "room_digests \<Rightarrow> time \<Rightarrow> route_limits \<Rightarrow> room_scope \<Rightarrow> string \<Rightarrow> string \<Rightarrow> string \<Rightarrow> bool
    \<Rightarrow> 'a room_db_scheme \<Rightarrow> (reservation, 'a room_db_scheme) outcome" where
  "reserve_route h now l s request input requester optional d =
     (let (room, d') = with_room h now s d in
      if \<not> ro_readable room then (Inr RoomAccessRevoked, d)
      else
        (case tget rt_id (room_routes d) (route_key h s request) of
           Some r \<Rightarrow>
             if rt_input_hash r \<noteq> input \<or> rt_requester_id r \<noteq> requester
             then (Inl (ValueError ''routing_request_conflict''), d)
             else (Inr (if rt_result r \<noteq> [] then Replay r else RoutingInProgress r), d)
         | None \<Rightarrow>
             if optional \<and> cooling l now (ro_id room) d then (Inr RoomCooldown, d)
             else if optional \<and> rl_max_attempts l \<le> window_count l now (ro_id room) d
             then (Inr RoomAttemptLimit, d)
             else
               (let r = new_route h now s request input requester optional in
                (Inr (Reserved r), d'\<lparr>room_routes := tins r (room_routes d')\<rparr>))))"

definition finish_route ::
  "time \<Rightarrow> string \<Rightarrow> string \<Rightarrow> string \<Rightarrow> 'a room_db_scheme \<Rightarrow> (unit, 'a room_db_scheme) outcome" where
  "finish_route now k status result d =
     (case tget rt_id (room_routes d) k of
        None \<Rightarrow> (Inl (ValueError ''routing_receipt_conflict''), d)
      | Some r \<Rightarrow>
          if rt_result r \<noteq> [] then (Inl (ValueError ''routing_receipt_conflict''), d)
          else
            (Inr (),
             d\<lparr>room_routes := tset (\<lambda>r. rt_id r = k)
                 (\<lambda>r. r\<lparr>rt_status := status, rt_result := result, rt_completed_at := Some now\<rparr>)
                 (room_routes d)\<rparr>))"

text \<open>\<open>delivery_source\<close> reads the receipts that the runtime links to a public message.\<close>

definition find_delivery_source ::
  "room_digests \<Rightarrow> room_scope \<Rightarrow> string \<Rightarrow> 'a room_db_scheme \<Rightarrow> delivery_source option" where
  "find_delivery_source h s mid d = tget ds_id (deliveries d) (delivery_key h s mid)"


end
