(* ===== verification/Notes.thy ===== *)
theory Notes
  imports Room_Store Contracts "HOL-Library.Sublist"
begin

text \<open>
  Explicit character notes: the contracts of \<open>notes.py\<close> and \<open>CharacterNoteRepository\<close>
  (\<open>persistence/note_repository.py\<close>). A member saves an exact excerpt of their own readable
  message; an operator writes attributed background; a version number orders the changes; a
  receipt outlives a forgotten note. The rows live in the database of the rooms, whose
  observations erase the notes of an older message version.
\<close>

section \<open>Contracts\<close>

record note_input =
  ni_subject_ref :: string
  ni_kind :: note_kind
  ni_text :: prose

text \<open>\<open>value.split(":", 1)\<close> and the validators of \<open>NoteInput\<close>, after its field bounds.\<close>

definition valid_subject :: "string \<Rightarrow> bool" where
  "valid_subject s \<longleftrightarrow>
     s = ''self'' \<or>
     (CHR 0x3A \<in> set s \<and>
      (let prefix = takeWhile (\<lambda>c. c \<noteq> CHR 0x3A) s;
           identity = tl (dropWhile (\<lambda>c. c \<noteq> CHR 0x3A) s) in
       prefix \<in> {''user'', ''character''} \<and> identity \<noteq> [] \<and> \<not> list_ex is_space identity))"

definition make_note_input :: "string \<Rightarrow> note_kind \<Rightarrow> prose \<Rightarrow> error + note_input" where
  "make_note_input subject kind text =
     (if \<not> sized 1 220 subject \<or> \<not> sized 1 800 text \<or> \<not> valid_subject subject
         \<or> strip_prose text = []
      then Inl ValidationError
      else Inr \<lparr>ni_subject_ref = subject, ni_kind = kind, ni_text = strip_prose text\<rparr>)"

record note_view = note_input +
  nv_id :: string
  nv_card_id :: string
  nv_scope :: "room_scope option"
  nv_authored :: bool
  nv_actor_id :: string
  nv_source_message_id :: string
  nv_version :: int
  nv_updated_at :: time

definition kind_text :: "note_kind \<Rightarrow> string" where
  "kind_text k = (case k of PlainNote \<Rightarrow> ''note'' | RelationshipNote \<Rightarrow> ''relationship'')"

definition prompt_text :: "note_view \<Rightarrow> prose" where
  "prompt_text v =
     points (''['' @ nv_id v @ ''; ''
             @ (if nv_authored v then ''author-defined'' else ''explicit self-report'')
             @ ''; '' @ ni_subject_ref v @ ''; '' @ kind_text (ni_kind v) @ ''] '')
     @ ni_text v"

definition user_ref :: "string \<Rightarrow> string" where
  "user_ref actor = ''user:'' @ actor"

section \<open>Checks\<close>

text \<open>\<open>_view\<close>: a view is validated as its input was.\<close>

definition note_view_of :: "character_note \<Rightarrow> error + note_view" where
  "note_view_of n =
     (case make_note_input (cn_subject_ref n) (cn_kind n) (cn_text n) of
        Inl e \<Rightarrow> Inl e
      | Inr p \<Rightarrow>
          Inr (note_input.extend p
            \<lparr>nv_id = cn_id n, nv_card_id = cn_card_id n, nv_scope = cn_scope n,
             nv_authored = cn_authored n, nv_actor_id = cn_actor_id n,
             nv_source_message_id = cn_source_message_id n, nv_version = cn_version n,
             nv_updated_at = cn_updated_at n\<rparr>))"

definition card_available :: "string \<Rightarrow> string \<Rightarrow> 'a room_db_scheme \<Rightarrow> bool" where
  "card_available owner cid d \<longleftrightarrow>
     list_ex (\<lambda>c. cc_id c = cid \<and> cc_owner_id c = owner) (character_cards d)"

text \<open>\<open>_source\<close>: the fingerprint of the actor's own readable message, which contains the text.\<close>

definition own_message :: "source_message \<Rightarrow> string \<Rightarrow> bool" where
  "own_message m actor \<longleftrightarrow>
     \<not> sm_deleted m \<and> sm_content_available m \<and> \<not> sm_author_is_bot m \<and> sm_author_id m = actor"

definition quoted_source ::
  "room_digests \<Rightarrow> room_scope \<Rightarrow> string \<Rightarrow> string \<Rightarrow> prose \<Rightarrow> 'a room_db_scheme \<Rightarrow> error + string" where
  "quoted_source h s actor source text d =
     (case readable_room h s d of
        None \<Rightarrow> Inl (NoteAccessDenied ''note_source_unavailable'')
      | Some _ \<Rightarrow>
          (case get_source d (evidence_key h s source) of
             None \<Rightarrow> Inl (NoteAccessDenied ''note_source_unavailable'')
           | Some row \<Rightarrow>
               (case validate_json (so_content row) of
                  Inl e \<Rightarrow> Inl e
                | Inr m \<Rightarrow>
                    if \<not> own_message m actor then Inl (NoteAccessDenied ''note_source_not_actor'')
                    else if \<not> sublist text (sm_text m)
                    then Inl (NoteConflict ''note_must_quote_explicit_source'')
                    else Inr (draft_fingerprint h m))))"

text \<open>\<open>_current_source\<close>: whether a stored note still rests on the message it quotes.\<close>

definition current_source ::
  "room_digests \<Rightarrow> 'a room_db_scheme \<Rightarrow> character_note \<Rightarrow> error + bool" where
  "current_source h d n =
     (if cn_source_message_id n = [] then Inr (cn_authored n)
      else
        (case cn_scope n of
           None \<Rightarrow> Inl ValidationError
         | Some s \<Rightarrow>
             (case get_source d (evidence_key h s (cn_source_message_id n)) of
                None \<Rightarrow> Inr False
              | Some row \<Rightarrow>
                  (case validate_json (so_content row) of
                     Inl e \<Rightarrow> Inl e
                   | Inr m \<Rightarrow>
                       Inr (own_message m (cn_actor_id n)
                            \<and> draft_fingerprint h m = cn_source_hash n)))))"

section \<open>Creating\<close>

record note_request =
  nq_owner_id :: string
  nq_card_id :: string
  nq_payload :: note_input
  nq_scope :: "room_scope option"
  nq_actor_id :: string
  nq_source_message_id :: string
  nq_request_id :: string
  nq_authored :: bool

definition scope_id :: "room_digests \<Rightarrow> room_scope option \<Rightarrow> string" where
  "scope_id h s = (case s of None \<Rightarrow> [] | Some s \<Rightarrow> scope_key h s)"

definition scope_mismatch :: "string \<Rightarrow> room_scope option \<Rightarrow> bool" where
  "scope_mismatch owner s = (case s of None \<Rightarrow> False | Some s \<Rightarrow> sc_owner_id s \<noteq> owner)"

definition note_actor :: "note_request \<Rightarrow> string" where
  "note_actor q = (if nq_authored q then nq_owner_id q else nq_actor_id q)"

definition note_gate :: "note_request \<Rightarrow> error option" where
  "note_gate q =
     (if scope_mismatch (nq_owner_id q) (nq_scope q) then Some (NoteAccessDenied ''note_scope_mismatch'')
      else if nq_authored q then
        (if nq_source_message_id q \<noteq> [] then Some (NoteConflict ''authored_note_has_no_member_source'')
         else None)
      else if nq_scope q = None \<or> nq_actor_id q = [] \<or> nq_source_message_id q = []
              \<or> nq_request_id q = [] \<or> ni_subject_ref (nq_payload q) \<noteq> user_ref (nq_actor_id q)
      then Some (NoteAccessDenied ''explicit_own_note_required'')
      else None)"

definition note_identity :: "room_digests \<Rightarrow> string \<Rightarrow> note_request \<Rightarrow> string" where
  "note_identity h uid q =
     (if nq_request_id q \<noteq> []
      then sha_raw h [nq_owner_id q, nq_card_id q, scope_id h (nq_scope q), note_actor q,
                      nq_request_id q]
      else uid)"

definition note_source_hash ::
  "room_digests \<Rightarrow> note_request \<Rightarrow> 'a room_db_scheme \<Rightarrow> error + string" where
  "note_source_hash h q d =
     (if nq_authored q then Inr []
      else
        (case nq_scope q of
           None \<Rightarrow> Inr []
         | Some s \<Rightarrow>
             quoted_source h s (nq_actor_id q) (nq_source_message_id q) (ni_text (nq_payload q)) d))"

definition same_note :: "note_request \<Rightarrow> character_note \<Rightarrow> bool" where
  "same_note q n \<longleftrightarrow>
     cn_text n = ni_text (nq_payload q) \<and> cn_subject_ref n = ni_subject_ref (nq_payload q)
     \<and> cn_kind n = ni_kind (nq_payload q) \<and> cn_authored n = nq_authored q
     \<and> cn_source_message_id n = nq_source_message_id q"

definition card_notes :: "string \<Rightarrow> string \<Rightarrow> character_note \<Rightarrow> bool" where
  "card_notes owner cid n \<longleftrightarrow> cn_owner_id n = owner \<and> cn_card_id n = cid"

definition note_capacity :: int where
  "note_capacity = 256"

definition new_note ::
  "room_digests \<Rightarrow> time \<Rightarrow> string \<Rightarrow> note_request \<Rightarrow> string \<Rightarrow> character_note" where
  "new_note h now k q source_hash =
     \<lparr>cn_id = k, cn_owner_id = nq_owner_id q, cn_card_id = nq_card_id q,
      cn_scope_id = scope_id h (nq_scope q), cn_scope = nq_scope q,
      cn_subject_ref = ni_subject_ref (nq_payload q), cn_kind = ni_kind (nq_payload q),
      cn_text = ni_text (nq_payload q), cn_authored = nq_authored q, cn_actor_id = note_actor q,
      cn_source_message_id = nq_source_message_id q, cn_source_hash = source_hash,
      cn_version = 1, cn_created_at = now, cn_updated_at = now\<rparr>"

definition insert_note ::
  "room_digests \<Rightarrow> time \<Rightarrow> string \<Rightarrow> note_request \<Rightarrow> string \<Rightarrow> 'a room_db_scheme
    \<Rightarrow> (note_view, 'a room_db_scheme) outcome" where
  "insert_note h now k q source_hash d =
     (if tget nr_id (note_receipts d) k \<noteq> None then (Inl (NoteConflict ''note_request_retired''), d)
      else if note_capacity \<le> int (tcount (card_notes (nq_owner_id q) (nq_card_id q)) (character_notes d))
      then (Inl (NoteConflict ''character_note_capacity''), d)
      else
        (let n = new_note h now k q source_hash in
         case note_view_of n of
           Inl e \<Rightarrow> (Inl e, d)
         | Inr v \<Rightarrow>
             (Inr v,
              d\<lparr>character_notes := tins n (character_notes d),
                note_receipts := tins \<lparr>nr_id = k, nr_owner_id = nq_owner_id q,
                                       nr_card_id = nq_card_id q, nr_created_at = now\<rparr>
                                   (note_receipts d)\<rparr>)))"

definition create_note ::
  "room_digests \<Rightarrow> time \<Rightarrow> string \<Rightarrow> note_request \<Rightarrow> 'a room_db_scheme
    \<Rightarrow> (note_view, 'a room_db_scheme) outcome" where
  "create_note h now uid q d =
     (case note_gate q of
        Some e \<Rightarrow> (Inl e, d)
      | None \<Rightarrow>
          if \<not> card_available (nq_owner_id q) (nq_card_id q) d
          then (Inl (NoteAccessDenied ''character_unavailable''), d)
          else
            (case note_source_hash h q d of
               Inl e \<Rightarrow> (Inl e, d)
             | Inr source_hash \<Rightarrow>
                 (case get_note d (note_identity h uid q) of
                    Some n \<Rightarrow>
                      if same_note q n then (note_view_of n, d)
                      else (Inl (NoteConflict ''note_request_reused''), d)
                  | None \<Rightarrow> insert_note h now (note_identity h uid q) q source_hash d)))"

section \<open>Listing\<close>

definition listed_in ::
  "room_digests \<Rightarrow> string \<Rightarrow> string \<Rightarrow> room_scope option \<Rightarrow> bool \<Rightarrow> string list option
    \<Rightarrow> character_note \<Rightarrow> bool" where
  "listed_in h owner cid s include_background subjects n \<longleftrightarrow>
     card_notes owner cid n
     \<and> (cn_scope_id n = scope_id h s
        \<or> (s \<noteq> None \<and> include_background \<and> cn_scope_id n = [] \<and> cn_authored n))
     \<and> (case subjects of None \<Rightarrow> True | Some xs \<Rightarrow> cn_subject_ref n \<in> set (''self'' # xs))"

definition note_order :: "character_note \<Rightarrow> bool \<times> int \<times> string" where
  "note_order n = (\<not> cn_authored n, - cn_updated_at n, cn_id n)"

fun current_views ::
  "room_digests \<Rightarrow> 'a room_db_scheme \<Rightarrow> character_note list \<Rightarrow> error + note_view list" where
  "current_views h d [] = Inr []"
| "current_views h d (n # ns) =
     (case current_source h d n of
        Inl e \<Rightarrow> Inl e
      | Inr False \<Rightarrow> current_views h d ns
      | Inr True \<Rightarrow>
          (case note_view_of n of
             Inl e \<Rightarrow> Inl e
           | Inr v \<Rightarrow>
               (case current_views h d ns of Inl e \<Rightarrow> Inl e | Inr vs \<Rightarrow> Inr (v # vs))))"

definition list_notes ::
  "room_digests \<Rightarrow> string \<Rightarrow> string \<Rightarrow> room_scope option \<Rightarrow> string list option \<Rightarrow> bool \<Rightarrow> int
    \<Rightarrow> 'a room_db_scheme \<Rightarrow> error + note_view list" where
  "list_notes h owner cid s subjects include_background limit d =
     (if \<not> (1 \<le> limit \<and> limit \<le> 256) \<or> (case subjects of None \<Rightarrow> False | Some xs \<Rightarrow> 24 < length xs)
      then Inl (ValueError ''note_query_budget'')
      else if scope_mismatch owner s then Inl (NoteAccessDenied ''note_scope_mismatch'')
      else if \<not> card_available owner cid d then Inl (NoteAccessDenied ''character_unavailable'')
      else if (case s of None \<Rightarrow> False | Some s \<Rightarrow> readable_room h s d = None) then Inr []
      else
        map_sum id (take (nat limit))
          (current_views h d
             (tlimit 256 (sort_key note_order
                (filter (listed_in h owner cid s include_background subjects)
                   (character_notes d))))))"

section \<open>Changing and forgetting\<close>

record note_change =
  nc_owner_id :: string
  nc_card_id :: string
  nc_note_id :: string
  nc_expected_version :: int
  nc_payload :: "note_input option"
  nc_operator :: bool
  nc_actor_id :: string
  nc_scope :: "room_scope option"
  nc_source_message_id :: string

text \<open>What only an operator may do.\<close>

definition actor_mismatch :: "room_digests \<Rightarrow> note_change \<Rightarrow> character_note \<Rightarrow> bool" where
  "actor_mismatch h c n \<longleftrightarrow>
     cn_authored n \<or> nc_scope c = None \<or> scope_mismatch (nc_owner_id c) (nc_scope c)
     \<or> cn_scope_id n \<noteq> scope_id h (nc_scope c) \<or> cn_actor_id n \<noteq> nc_actor_id c
     \<or> cn_subject_ref n \<noteq> user_ref (nc_actor_id c)
     \<or> (case nc_payload c of None \<Rightarrow> False | Some p \<Rightarrow> ni_subject_ref p \<noteq> cn_subject_ref n)"

definition matched_note :: "note_change \<Rightarrow> character_note \<Rightarrow> bool" where
  "matched_note c n \<longleftrightarrow>
     cn_id n = nc_note_id c \<and> cn_version n = nc_expected_version c
     \<and> card_notes (nc_owner_id c) (nc_card_id c) n"

text \<open>\<open>authored\<close>, \<open>actor_id\<close>, \<open>source_message_id\<close> and \<open>source_hash\<close> of the new version.\<close>

definition attribution ::
  "room_digests \<Rightarrow> note_change \<Rightarrow> note_input \<Rightarrow> character_note \<Rightarrow> 'a room_db_scheme
    \<Rightarrow> error + (bool \<times> string \<times> string \<times> string)" where
  "attribution h c p n d =
     (if nc_operator c then Inr (True, nc_owner_id c, [], [])
      else
        (case nc_scope c of
           None \<Rightarrow> Inr (cn_authored n, nc_actor_id c, nc_source_message_id c, cn_source_hash n)
         | Some s \<Rightarrow>
             map_sum id (\<lambda>hash. (cn_authored n, nc_actor_id c, nc_source_message_id c, hash))
               (quoted_source h s (nc_actor_id c) (nc_source_message_id c) (ni_text p) d)))"

definition edited_note ::
  "time \<Rightarrow> note_change \<Rightarrow> note_input \<Rightarrow> bool \<times> string \<times> string \<times> string
    \<Rightarrow> character_note \<Rightarrow> character_note" where
  "edited_note now c p a n =
     (let (authored, actor, source, hash) = a in
      n\<lparr>cn_text := ni_text p, cn_subject_ref := ni_subject_ref p, cn_kind := ni_kind p,
        cn_authored := authored, cn_actor_id := actor, cn_source_message_id := source,
        cn_source_hash := hash, cn_version := nc_expected_version c + 1, cn_updated_at := now\<rparr>)"

definition change_checked ::
  "room_digests \<Rightarrow> note_change \<Rightarrow> 'a room_db_scheme \<Rightarrow> error + character_note" where
  "change_checked h c d =
     (if nc_expected_version c < 1 then Inl (NoteConflict ''note_version_required'')
      else if \<not> card_available (nc_owner_id c) (nc_card_id c) d
      then Inl (NoteAccessDenied ''character_unavailable'')
      else
        (case get_note d (nc_note_id c) of
           None \<Rightarrow> Inl (NoteAccessDenied ''note_unavailable'')
         | Some n \<Rightarrow>
             if \<not> card_notes (nc_owner_id c) (nc_card_id c) n
             then Inl (NoteAccessDenied ''note_unavailable'')
             else if cn_version n \<noteq> nc_expected_version c
             then Inl (NoteConflict ''note_version_conflict'')
             else if \<not> nc_operator c \<and> actor_mismatch h c n
             then Inl (NoteAccessDenied ''note_actor_mismatch'')
             else Inr n))"

definition change_note ::
  "room_digests \<Rightarrow> time \<Rightarrow> note_change \<Rightarrow> 'a room_db_scheme
    \<Rightarrow> (note_view option, 'a room_db_scheme) outcome" where
  "change_note h now c d =
     (case change_checked h c d of
        Inl e \<Rightarrow> (Inl e, d)
      | Inr n \<Rightarrow>
          (case nc_payload c of
             None \<Rightarrow>
               if tcount (matched_note c) (character_notes d) = 0
               then (Inl (NoteConflict ''note_version_conflict''), d)
               else (Inr None, d\<lparr>character_notes := tdel (matched_note c) (character_notes d)\<rparr>)
           | Some p \<Rightarrow>
               (case attribution h c p n d of
                  Inl e \<Rightarrow> (Inl e, d)
                | Inr a \<Rightarrow>
                    if tcount (matched_note c) (character_notes d) = 0
                    then (Inl (NoteConflict ''note_version_conflict''), d)
                    else
                      (case note_view_of (edited_note now c p a n) of
                         Inl e \<Rightarrow> (Inl e, d)
                       | Inr v \<Rightarrow>
                           (Inr (Some v),
                            d\<lparr>character_notes := tset (matched_note c) (edited_note now c p a)
                                                   (character_notes d)\<rparr>)))))"

definition delete_card_notes ::
  "string \<Rightarrow> string \<Rightarrow> 'a room_db_scheme \<Rightarrow> nat \<times> 'a room_db_scheme" where
  "delete_card_notes owner cid d =
     (tcount (card_notes owner cid) (character_notes d),
      d\<lparr>character_notes := tdel (card_notes owner cid) (character_notes d),
        note_receipts := tdel (\<lambda>r. nr_owner_id r = owner \<and> nr_card_id r = cid) (note_receipts d)\<rparr>)"

end
