(* ===== verification/Room_System.thy ===== *)
theory Room_System
  imports Notes
begin

text \<open>
  The rooms and notes as one system: its commands in any order, the invariants they keep and the
  properties that rest on them. A command carries the clock it reads.
\<close>

section \<open>Commands\<close>

datatype room_command =
    Observe room_scope "source_message list"
  | SetAccess room_scope bool "time option"
  | SelectSpeaker string room_scope selection_request
  | ReserveRoute route_limits room_scope string string string bool
  | FinishRoute string string string
  | CreateNote string note_request
  | ChangeNote note_change
  | DeleteCardNotes string string

fun run_room ::
  "room_digests \<Rightarrow> time \<times> room_command \<Rightarrow> 'a room_db_scheme \<Rightarrow> 'a room_db_scheme" where
  "run_room h (now, Observe s ms) d = snd (observe h now s ms d)"
| "run_room h (now, SetAccess s readable at) d = snd (set_access h now s readable at d)"
| "run_room h (now, SelectSpeaker uid s q) d = snd (select_speaker h now uid s q d)"
| "run_room h (now, ReserveRoute l s request input requester optional) d =
     snd (reserve_route h now l s request input requester optional d)"
| "run_room h (now, FinishRoute k status result) d = snd (finish_route now k status result d)"
| "run_room h (now, CreateNote uid q) d = snd (create_note h now uid q d)"
| "run_room h (now, ChangeNote c) d = snd (change_note h now c d)"
| "run_room h (now, DeleteCardNotes owner cid) d = snd (delete_card_notes owner cid d)"

section \<open>What the operations leave alone\<close>

lemma with_room_frames [simp]:
  "room_sources (snd (with_room h now s d)) = room_sources d"
  "room_selections (snd (with_room h now s d)) = room_selections d"
  "room_routes (snd (with_room h now s d)) = room_routes d"
  "character_notes (snd (with_room h now s d)) = character_notes d"
  "note_receipts (snd (with_room h now s d)) = note_receipts d"
  "character_cards (snd (with_room h now s d)) = character_cards d"
  by (simp_all add: with_room_def split: option.split)

lemma put_room_frames [simp]:
  "room_sources (put_room k f d) = room_sources d"
  "room_selections (put_room k f d) = room_selections d"
  "room_routes (put_room k f d) = room_routes d"
  "character_notes (put_room k f d) = character_notes d"
  "note_receipts (put_room k f d) = note_receipts d"
  "character_cards (put_room k f d) = character_cards d"
  by (simp_all add: put_room_def)

lemma put_source_frames [simp]:
  "room_states (put_source k f d) = room_states d"
  "room_selections (put_source k f d) = room_selections d"
  "room_routes (put_source k f d) = room_routes d"
  "character_notes (put_source k f d) = character_notes d"
  "note_receipts (put_source k f d) = note_receipts d"
  "character_cards (put_source k f d) = character_cards d"
  by (simp_all add: put_source_def)

lemma record_version_frames [simp]:
  "room_selections (record_version h now s k m d) = room_selections d"
  "room_routes (record_version h now s k m d) = room_routes d"
  "note_receipts (record_version h now s k m d) = note_receipts d"
  "character_cards (record_version h now s k m d) = character_cards d"
  "character_notes (record_version h now s k m d) =
     tdel (stale_note h (scope_key h s) m) (character_notes d)"
  by (simp_all add: record_version_def erase_derived_def Let_def split: option.split)

lemma record_version_sources:
  obtains revision where
    "room_sources (record_version h now s k m d) =
     (case get_source d k of
        None \<Rightarrow> tins (new_source h now s k revision m) (room_sources d)
      | Some _ \<Rightarrow>
          tset (\<lambda>r. so_id r = k)
            (\<lambda>r. r\<lparr>so_content := SourceText m, so_revision := so_revision r + 1,
                   so_room_revision := revision\<rparr>) (room_sources d))"
proof (rule that)
  let ?d1 = "put_room (scope_key h s) (\<lambda>r. r\<lparr>ro_revision := ro_revision r + 1\<rparr>) (erase_derived h s m d)"
  let ?revision = "case get_room ?d1 (scope_key h s) of Some r \<Rightarrow> ro_revision r | None \<Rightarrow> 0"
  have [simp]: "room_sources (erase_derived h s m d) = room_sources d" by (simp add: erase_derived_def)
  show "room_sources (record_version h now s k m d) =
     (case get_source d k of
        None \<Rightarrow> tins (new_source h now s k ?revision m) (room_sources d)
      | Some _ \<Rightarrow>
          tset (\<lambda>r. so_id r = k)
            (\<lambda>r. r\<lparr>so_content := SourceText m, so_revision := so_revision r + 1,
                   so_room_revision := ?revision\<rparr>) (room_sources d))"
    by (cases "get_source d k") (simp_all add: record_version_def put_source_def Let_def)
qed

text \<open>An observation: nothing, richer presentation of the same version, or a new version.\<close>

lemma observe_message_cases:
  assumes "observe_message h now s item d = Inr d'"
  obtains (skip) "d' = d"
  | (create) "get_source d (evidence_key h s (sm_message_id item)) = None"
      and "d' = record_version h now s (evidence_key h s (sm_message_id item)) item d"
  | (enrich) r old m where "get_source d (evidence_key h s (sm_message_id item)) = Some r"
      and "source_from_json (so_content r) = Inr old" and "merge_source h old item = Inr (Enrich m)"
      and "d' = put_source (evidence_key h s (sm_message_id item)) (\<lambda>r. r\<lparr>so_content := SourceText m\<rparr>) d"
  | (revise) r old m where "get_source d (evidence_key h s (sm_message_id item)) = Some r"
      and "source_from_json (so_content r) = Inr old" and "merge_source h old item = Inr (Revise m)"
      and "d' = record_version h now s (evidence_key h s (sm_message_id item)) m d"
  using assms
  by (fastforce simp: observe_message_def Let_def split: option.splits sum.splits observation.splits)

lemma observe_cases:
  obtains (refused) e where "observe h now s ms d = (Inl e, d)"
  | (recorded) d' where "observe_messages h now s ms (snd (with_room h now s d)) = Inr d'"
      and "observe h now s ms d =
        (Inr (room_revision h s (put_room (scope_key h s) (\<lambda>r. r\<lparr>ro_updated_at := now\<rparr>) d')),
         put_room (scope_key h s) (\<lambda>r. r\<lparr>ro_updated_at := now\<rparr>) d')"
      and "ro_readable (fst (with_room h now s d))"
proof -
  obtain room d1 where w: "with_room h now s d = (room, d1)" by fastforce
  show thesis
  proof (cases "64 < length ms \<or> list_ex (\<lambda>m. \<not> in_scope m s) ms \<or> \<not> ro_readable room")
    case True
    then show thesis by (cases "64 < length ms \<or> list_ex (\<lambda>m. \<not> in_scope m s) ms")
        (rule refused, simp add: observe_def w)+
  next
    case False
    then show thesis
      using refused recorded
      by (cases "observe_messages h now s ms d1") (simp_all add: observe_def w Let_def)
  qed
qed

text \<open>A relation that every observed message keeps holds of the whole batch.\<close>

lemma observe_messages_induct:
  assumes "observe_messages h now s ms d = Inr d'" and "P d"
    and "\<And>m d d'. observe_message h now s m d = Inr d' \<Longrightarrow> P d \<Longrightarrow> P d'"
  shows "P d'"
  using assms(1,2)
proof (induction ms arbitrary: d)
  case (Cons m ms)
  then show ?case by (auto split: sum.splits intro: assms(3))
qed simp

text \<open>What a merged message keeps of the stored one.\<close>

lemma keep_simps [simp]:
  "sm_message_id (keep_text old item) = sm_message_id item"
  "sm_message_id (keep_character old item) = sm_message_id item"
  "sm_message_id (keep_response old item) = sm_message_id item"
  "sm_text (keep_character old item) = sm_text item"
  "sm_text (keep_response old item) = sm_text item"
  "sm_deleted (keep_text old item) = sm_deleted item"
  "sm_deleted (keep_character old item) = sm_deleted item"
  "sm_deleted (keep_response old item) = sm_deleted item"
  "sm_author_id (keep_text old item) = sm_author_id item"
  "sm_author_id (keep_character old item) = sm_author_id item"
  "sm_author_id (keep_response old item) = sm_author_id item"
  "sm_author_is_bot (keep_text old item) = sm_author_is_bot item"
  "sm_author_is_bot (keep_character old item) = sm_author_is_bot item"
  "sm_author_is_bot (keep_response old item) = sm_author_is_bot item"
  by (simp_all add: keep_text_def keep_character_def keep_response_def)

lemma tombstone_simps [simp]:
  "sm_message_id (tombstone m) = sm_message_id m" "sm_deleted (tombstone m)"
  "sm_text (tombstone m) = []" "sm_author_id (tombstone m) = sm_author_id m"
  "sm_author_is_bot (tombstone m) = sm_author_is_bot m" "\<not> presented (tombstone m)"
  by (simp_all add: tombstone_def)

definition merged_from :: "source_message \<Rightarrow> source_message \<Rightarrow> source_message \<Rightarrow> bool" where
  "merged_from old item m \<longleftrightarrow>
     \<not> sm_deleted old \<and> sm_message_id m \<in> {sm_message_id old, sm_message_id item}
     \<and> sm_author_id m = sm_author_id old \<and> sm_author_is_bot m = sm_author_is_bot old"

lemma settle_observation_cases:
  "settle_observation h old item = Enrich m \<Longrightarrow>
    m = keep_response old item \<and> draft_fingerprint h old = draft_fingerprint h item"
  "settle_observation h old item = Revise m \<Longrightarrow> m = keep_response old item"
  by (auto simp: settle_observation_def Let_def split: if_splits)

lemma merge_source_merged:
  assumes "merge_source h old item = Inr (Enrich m) \<or> merge_source h old item = Inr (Revise m)"
  shows "merged_from old item m"
  using assms
  by (auto simp: merge_source_def merged_from_def author_conflict_def split: if_splits
      dest!: settle_observation_cases)

section \<open>The invariant\<close>

text \<open>
  The digests collide on no two evidence keys, and on no two message versions of different text.
  This is what the code relies on when it addresses a source by a digest and compares versions by
  their fingerprint.
\<close>

definition collision_free :: "room_digests \<Rightarrow> bool" where
  "collision_free h \<longleftrightarrow>
     (\<forall>a b c e. sha_ids h [a, b] = sha_ids h [c, e] \<longrightarrow> a = c \<and> b = e)
     \<and> (\<forall>p q. sha_source h p = sha_source h q \<longrightarrow> fp_text p = fp_text q)"

lemma evidence_key_eq:
  "collision_free h \<Longrightarrow> evidence_key h s m = evidence_key h s' m' \<longleftrightarrow> scope_key h s = scope_key h s' \<and> m = m'"
  unfolding evidence_key_def collision_free_def by metis

lemma fingerprint_text:
  "collision_free h \<Longrightarrow> draft_fingerprint h m = draft_fingerprint h m' \<Longrightarrow> sm_text m = sm_text m'"
proof -
  assume "collision_free h" and "draft_fingerprint h m = draft_fingerprint h m'"
  then have "fp_text (draft_payload m) = fp_text (draft_payload m')"
    unfolding collision_free_def draft_fingerprint_def by blast
  then show ?thesis by (simp add: draft_payload_def)
qed

text \<open>A source row is addressed by its room and message, and holds that message.\<close>

definition source_row_ok :: "room_digests \<Rightarrow> room_source \<Rightarrow> bool" where
  "source_row_ok h r \<longleftrightarrow>
     (\<exists>s m. so_id r = evidence_key h s (so_message_id r) \<and> so_scope_id r = scope_key h s
        \<and> so_content r = SourceText m \<and> sm_message_id m = so_message_id r)"

text \<open>A member's note was quoted from a version with its fingerprint, and the message as it is
  recorded now still contains it.\<close>

definition note_quotes :: "room_digests \<Rightarrow> room_source list \<Rightarrow> character_note \<Rightarrow> bool" where
  "note_quotes h t n \<longleftrightarrow>
     (\<exists>s m0 r m. cn_scope n = Some s \<and> cn_scope_id n = scope_key h s \<and> cn_text n \<noteq> []
        \<and> draft_fingerprint h m0 = cn_source_hash n \<and> sublist (cn_text n) (sm_text m0)
        \<and> tget so_id t (evidence_key h s (cn_source_message_id n)) = Some r
        \<and> so_content r = SourceText m \<and> sublist (cn_text n) (sm_text m))"

definition room_ok :: "room_digests \<Rightarrow> 'a room_db_scheme \<Rightarrow> bool" where
  "room_ok h d \<longleftrightarrow>
     keyed ro_id (room_states d) \<and> keyed so_id (room_sources d) \<and> keyed cn_id (character_notes d)
     \<and> keyed rt_id (room_routes d)
     \<and> (\<forall>r \<in> set (room_sources d). source_row_ok h r)
     \<and> (\<forall>n \<in> set (character_notes d). \<not> cn_authored n \<longrightarrow> note_quotes h (room_sources d) n)"

lemma note_quotesI:
  "cn_scope n = Some s \<Longrightarrow> cn_scope_id n = scope_key h s \<Longrightarrow> cn_text n \<noteq> [] \<Longrightarrow>
    draft_fingerprint h m0 = cn_source_hash n \<Longrightarrow> sublist (cn_text n) (sm_text m0) \<Longrightarrow>
    tget so_id t (evidence_key h s (cn_source_message_id n)) = Some r \<Longrightarrow>
    so_content r = SourceText m \<Longrightarrow> sublist (cn_text n) (sm_text m) \<Longrightarrow> note_quotes h t n"
  unfolding note_quotes_def by blast

lemma room_ok_frame:
  assumes "room_ok h d" and "keyed ro_id (room_states d')" and "keyed rt_id (room_routes d')"
    and "room_sources d' = room_sources d" and "keyed cn_id (character_notes d')"
    and "\<And>n. n \<in> set (character_notes d') \<Longrightarrow> \<not> cn_authored n \<Longrightarrow>
      n \<in> set (character_notes d) \<or> note_quotes h (room_sources d) n"
  shows "room_ok h d'"
  using assms unfolding room_ok_def by (simp add: Ball_def) metis

lemma merge_source_text:
  assumes "collision_free h"
  shows "merge_source h old item = Inr (Enrich m) \<Longrightarrow> sm_text m = sm_text old"
  by (auto simp: merge_source_def split: if_splits
      dest!: settle_observation_cases(1) fingerprint_text [OF assms])

text \<open>The message of a found row, as it is read.\<close>

lemma found_source:
  assumes "room_ok h d" and "collision_free h"
    and "get_source d (evidence_key h s mid) = Some r" and "source_from_json (so_content r) = Inr old"
  shows "\<exists>r0. so_content r = SourceText r0 \<and> so_message_id r = mid \<and> sm_message_id old = mid
    \<and> so_scope_id r = scope_key h s \<and> (\<not> sm_deleted old \<longrightarrow> old = r0) \<and> sm_deleted old = sm_deleted r0"
proof -
  have "r \<in> set (room_sources d)" and k: "so_id r = evidence_key h s mid"
    using assms(3) by (blast dest: tget_SomeD)+
  then have "source_row_ok h r" using assms(1) by (simp add: room_ok_def)
  then obtain s' m where r: "so_id r = evidence_key h s' (so_message_id r)" "so_scope_id r = scope_key h s'"
      "so_content r = SourceText m" "sm_message_id m = so_message_id r"
    unfolding source_row_ok_def by blast
  have "scope_key h s' = scope_key h s \<and> so_message_id r = mid"
    using k r(1) evidence_key_eq [OF assms(2)] by metis
  moreover have "old = m \<or> sm_deleted m \<and> old = blank m"
    using source_from_json_InrD [OF assms(4)] r(3) by auto
  ultimately show ?thesis using r by auto
qed

lemma source_row_version [simp]:
  "source_row_ok h (new_source h now s (evidence_key h s (sm_message_id m)) revision m)"
  by (auto simp: source_row_ok_def new_source_def)

lemma source_row_content:
  assumes "source_row_ok h r" and "sm_message_id m = so_message_id r"
  shows "source_row_ok h (r\<lparr>so_content := SourceText m\<rparr>)"
    and "source_row_ok h (r\<lparr>so_content := SourceText m, so_revision := i, so_room_revision := j\<rparr>)"
  using assms by (auto simp: source_row_ok_def)

text \<open>New content of one row keeps the notes that quote the new content.\<close>

lemma quotes_after_update:
  assumes "note_quotes h t n" and key: "\<And>r. so_id (f r) = so_id r"
    and same: "\<And>s r m. tget so_id t k = Some r \<Longrightarrow> cn_scope n = Some s \<Longrightarrow> so_content r = SourceText m \<Longrightarrow>
      evidence_key h s (cn_source_message_id n) = k \<Longrightarrow> cn_scope_id n = scope_key h s \<Longrightarrow>
      sublist (cn_text n) (sm_text m) \<Longrightarrow>
      \<exists>m'. so_content (f r) = SourceText m' \<and> sublist (cn_text n) (sm_text m')"
  shows "note_quotes h (tset (\<lambda>r. so_id r = k) f t) n"
proof -
  obtain s m0 r m where n: "cn_scope n = Some s" "cn_scope_id n = scope_key h s" "cn_text n \<noteq> []"
      "draft_fingerprint h m0 = cn_source_hash n" "sublist (cn_text n) (sm_text m0)"
      "tget so_id t (evidence_key h s (cn_source_message_id n)) = Some r"
      "so_content r = SourceText m" "sublist (cn_text n) (sm_text m)"
    using assms(1) by (auto simp: note_quotes_def)
  have r: "so_id r = evidence_key h s (cn_source_message_id n)" using n(6) by (rule tget_key)
  show ?thesis
  proof (cases "so_id r = k")
    case True
    with r have k: "evidence_key h s (cn_source_message_id n) = k" by simp
    obtain m' where "so_content (f r) = SourceText m'" "sublist (cn_text n) (sm_text m')"
      using same [OF n(6) [unfolded k] n(1) n(7) k n(2) n(8)] by blast
    moreover have "tget so_id (tset (\<lambda>r. so_id r = k) f t) (evidence_key h s (cn_source_message_id n)) = Some (f r)"
      using True n(6) by (simp add: tget_tset key)
    ultimately show ?thesis using n by (blast intro: note_quotesI)
  next
    case False
    then have "tget so_id (tset (\<lambda>r. so_id r = k) f t) (evidence_key h s (cn_source_message_id n)) = Some r"
      using n(6) by (simp add: tget_tset key)
    then show ?thesis using n by (blast intro: note_quotesI)
  qed
qed

lemma quotes_after_insert: "note_quotes h t n \<Longrightarrow> note_quotes h (tins r t) n"
proof -
  assume "note_quotes h t n"
  then obtain s m0 x m where n: "cn_scope n = Some s" "cn_scope_id n = scope_key h s" "cn_text n \<noteq> []"
      "draft_fingerprint h m0 = cn_source_hash n" "sublist (cn_text n) (sm_text m0)"
      "tget so_id t (evidence_key h s (cn_source_message_id n)) = Some x"
      "so_content x = SourceText m" "sublist (cn_text n) (sm_text m)"
    by (auto simp: note_quotes_def)
  have "tget so_id (tins r t) (evidence_key h s (cn_source_message_id n)) = Some x"
    using n(6) by (simp add: tget_tins)
  then show ?thesis using n by (blast intro: note_quotesI)
qed


lemma with_room_cases:
  obtains (found) r where "get_room d (scope_key h s) = Some r" and "with_room h now s d = (r, d)"
  | (added) "get_room d (scope_key h s) = None"
      and "with_room h now s d = (new_room h now s, d\<lparr>room_states := tins (new_room h now s) (room_states d)\<rparr>)"
  by (cases "get_room d (scope_key h s)") (auto simp: with_room_def)

lemma with_room_ok: "room_ok h d \<Longrightarrow> room_ok h (snd (with_room h now s d))"
  by (cases rule: with_room_cases [of d h s now])
    (auto simp: room_ok_def keyed_tins new_room_def)

lemma put_room_ok: "(\<And>r. ro_id (f r) = ro_id r) \<Longrightarrow> room_ok h d \<Longrightarrow> room_ok h (put_room k f d)"
  by (simp add: room_ok_def put_room_def keyed_tset)

lemma put_source_ok:
  assumes ok: "room_ok h d" and key: "\<And>r. so_id (f r) = so_id r"
    and row: "\<And>r. get_source d k = Some r \<Longrightarrow> source_row_ok h (f r)"
    and quotes: "\<And>n. n \<in> set (character_notes d) \<Longrightarrow> \<not> cn_authored n \<Longrightarrow>
      note_quotes h (tset (\<lambda>r. so_id r = k) f (room_sources d)) n"
  shows "room_ok h (put_source k f d)"
proof -
  have "source_row_ok h r" if "r \<in> set (tset (\<lambda>r. so_id r = k) f (room_sources d))" for r
    using that ok row by (auto simp: set_tset room_ok_def tget_iff)
  with ok quotes show ?thesis
    by (auto simp: room_ok_def put_source_def keyed_tset key)
qed

text \<open>A new version of a stored message keeps the invariant: what it does not contain is erased.\<close>

lemma record_version_ok:
  assumes ok: "room_ok h d" and free: "collision_free h"
    and k: "k = evidence_key h s (sm_message_id m)"
  shows "room_ok h (record_version h now s k m d)"
proof -
  let ?d = "record_version h now s k m d"
  have keys: "keyed ro_id (room_states ?d)"
    using ok by (auto simp: record_version_def erase_derived_def put_room_def put_source_def room_ok_def
        keyed_tset Let_def split: option.split)
  have fresh: "sublist (cn_text n) (sm_text m)"
    if n: "n \<in> set (character_notes d)" "\<not> stale_note h (scope_key h s) m n" "\<not> cn_authored n"
      "note_quotes h (room_sources d) n" "cn_scope n = Some s'" "evidence_key h s' (cn_source_message_id n) = k" for n s'
  proof -
    obtain m0 where m0: "cn_scope_id n = scope_key h s'" "draft_fingerprint h m0 = cn_source_hash n"
        "sublist (cn_text n) (sm_text m0)"
      using n(4,5) by (auto simp: note_quotes_def)
    have "scope_key h s' = scope_key h s \<and> cn_source_message_id n = sm_message_id m"
      using n(6) evidence_key_eq [OF free] unfolding k by blast
    with n(2,3) m0 have "draft_fingerprint h m0 = draft_fingerprint h m" by (simp add: stale_note_def)
    then have "sm_text m0 = sm_text m" by (rule fingerprint_text [OF free])
    with m0 show ?thesis by simp
  qed
  obtain revision where src: "room_sources ?d =
     (case get_source d k of
        None \<Rightarrow> tins (new_source h now s k revision m) (room_sources d)
      | Some _ \<Rightarrow>
          tset (\<lambda>r. so_id r = k)
            (\<lambda>r. r\<lparr>so_content := SourceText m, so_revision := so_revision r + 1,
                   so_room_revision := revision\<rparr>) (room_sources d))"
    by (rule record_version_sources)
  show ?thesis
  proof (cases "get_source d k")
    case None
    have "note_quotes h (room_sources ?d) n" if "n \<in> set (character_notes ?d)" "\<not> cn_authored n" for n
      using that ok None by (auto simp: src room_ok_def intro: quotes_after_insert)
    with ok keys None src show ?thesis
      by (auto simp: room_ok_def keyed_tins keyed_tdel new_source_def k source_row_ok_def)
  next
    case (Some r)
    let ?f = "\<lambda>r. r\<lparr>so_content := SourceText m, so_revision := so_revision r + 1, so_room_revision := revision\<rparr>"
    have quotes: "note_quotes h (room_sources ?d) n" if n: "n \<in> set (character_notes ?d)" "\<not> cn_authored n" for n
    proof -
      have q: "note_quotes h (room_sources d) n" using n ok by (auto simp: room_ok_def)
      have "note_quotes h (tset (\<lambda>r. so_id r = k) ?f (room_sources d)) n"
        by (rule quotes_after_update [OF q]) (use n q fresh in \<open>auto intro!: exI [of _ m]\<close>)
      with Some show ?thesis by (simp add: src)
    qed
    have "source_row_ok h (?f x)" if "x \<in> set (room_sources d)" "so_id x = k" for x
    proof -
      have "source_row_ok h x" using that(1) ok by (simp add: room_ok_def)
      then obtain s' where "so_id x = evidence_key h s' (so_message_id x)" by (auto simp: source_row_ok_def)
      with that(2) k have "so_message_id x = sm_message_id m" using evidence_key_eq [OF free] by metis
      then show ?thesis using source_row_content(2) [OF \<open>source_row_ok h x\<close>] by simp
    qed
    with ok keys Some src quotes show ?thesis
      by (auto simp: room_ok_def keyed_tset keyed_tdel set_tset)
  qed
qed

lemma observe_message_ok:
  assumes step: "observe_message h now s item d = Inr d'" and ok: "room_ok h d" and free: "collision_free h"
  shows "room_ok h d'"
  using step
proof (cases rule: observe_message_cases)
  case skip
  with ok show ?thesis by simp
next
  case create
  with ok free show ?thesis by (simp add: record_version_ok)
next
  case (enrich r old m)
  from found_source [OF ok free enrich(1,2)] obtain r0 where r0: "so_content r = SourceText r0"
      "so_message_id r = sm_message_id item" "sm_message_id old = sm_message_id item"
      "\<not> sm_deleted old \<longrightarrow> old = r0" by blast
  have m: "merged_from old item m" using enrich(3) by (blast intro: merge_source_merged)
  with r0 have id: "sm_message_id m = so_message_id r" "old = r0" by (auto simp: merged_from_def)
  have same: "sm_text m = sm_text r0" using merge_source_text [OF free enrich(3)] id by simp
  have "source_row_ok h r" using ok enrich(1) by (auto simp: room_ok_def dest: tget_SomeD)
  show ?thesis unfolding enrich(4)
  proof (rule put_source_ok [OF ok])
    show "source_row_ok h (x\<lparr>so_content := SourceText m\<rparr>)"
      if "get_source d (evidence_key h s (sm_message_id item)) = Some x" for x
      using that enrich(1) source_row_content(1) [OF \<open>source_row_ok h r\<close> id(1)] by simp
    show "note_quotes h (tset (\<lambda>r. so_id r = evidence_key h s (sm_message_id item))
        (\<lambda>r. r\<lparr>so_content := SourceText m\<rparr>) (room_sources d)) n"
      if "n \<in> set (character_notes d)" "\<not> cn_authored n" for n
    proof (rule quotes_after_update)
      show "note_quotes h (room_sources d) n" using that ok by (simp add: room_ok_def)
    qed (use enrich(1) r0(1) same in auto)
  qed simp
next
  case (revise r old m)
  from found_source [OF ok free revise(1,2)] have "sm_message_id old = sm_message_id item" by blast
  moreover have "merged_from old item m" using revise(3) by (blast intro: merge_source_merged)
  ultimately have "sm_message_id m = sm_message_id item" by (auto simp: merged_from_def)
  with ok free revise(4) show ?thesis by (simp add: record_version_ok)
qed


lemma observe_ok:
  assumes "room_ok h d" and "collision_free h"
  shows "room_ok h (snd (observe h now s ms d))"
proof (cases rule: observe_cases [of h now s ms d])
  case (refused e)
  with assms show ?thesis by simp
next
  case (recorded d')
  have "room_ok h d'"
    by (rule observe_messages_induct [OF recorded(1), of "room_ok h"])
      (auto intro: with_room_ok assms observe_message_ok)
  with recorded(2) show ?thesis by (simp add: put_room_ok)
qed

text \<open>A member's note is quoted from the message that the room holds when it is written.\<close>

lemma make_source_same: "validate_json t = Inr m \<Longrightarrow> t = SourceText m"
  by (auto simp: validate_json_def split: source_text.splits dest: make_source_InrD)

lemma quoted_source_InrD:
  assumes "quoted_source h s actor source content d = Inr hash"
  shows "\<exists>r m. get_source d (evidence_key h s source) = Some r \<and> so_content r = SourceText m
    \<and> own_message m actor \<and> sublist content (sm_text m) \<and> hash = draft_fingerprint h m
    \<and> readable_room h s d \<noteq> None"
  using assms
  by (auto simp: quoted_source_def split: option.splits sum.splits if_splits dest!: make_source_same)

lemma note_view_of_InrD: "note_view_of n = Inr v \<Longrightarrow> cn_text n \<noteq> []"
  by (auto simp: note_view_of_def make_note_input_def sized_def split: sum.splits if_splits)

lemma create_note_cases:
  obtains (same) res where "create_note h now uid q d = (res, d)"
    and "\<And>v. res = Inr v \<Longrightarrow> get_note d (note_identity h uid q) \<noteq> None"
  | (fresh) source_hash v where "note_gate q = None" and "card_available (nq_owner_id q) (nq_card_id q) d"
      and "note_source_hash h q d = Inr source_hash"
      and "get_note d (note_identity h uid q) = None"
      and "tget nr_id (note_receipts d) (note_identity h uid q) = None"
      and "int (tcount (card_notes (nq_owner_id q) (nq_card_id q)) (character_notes d)) < note_capacity"
      and "note_view_of (new_note h now (note_identity h uid q) q source_hash) = Inr v"
      and "create_note h now uid q d =
        (Inr v,
         d\<lparr>character_notes := tins (new_note h now (note_identity h uid q) q source_hash) (character_notes d),
           note_receipts := tins \<lparr>nr_id = note_identity h uid q, nr_owner_id = nq_owner_id q,
                                  nr_card_id = nq_card_id q, nr_created_at = now\<rparr> (note_receipts d)\<rparr>)"
proof -
  have "(\<exists>res. create_note h now uid q d = (res, d)
      \<and> (\<forall>v. res = Inr v \<longrightarrow> get_note d (note_identity h uid q) \<noteq> None))
    \<or> (\<exists>source_hash v. note_gate q = None \<and> card_available (nq_owner_id q) (nq_card_id q) d
      \<and> note_source_hash h q d = Inr source_hash
      \<and> get_note d (note_identity h uid q) = None
      \<and> tget nr_id (note_receipts d) (note_identity h uid q) = None
      \<and> int (tcount (card_notes (nq_owner_id q) (nq_card_id q)) (character_notes d)) < note_capacity
      \<and> note_view_of (new_note h now (note_identity h uid q) q source_hash) = Inr v
      \<and> create_note h now uid q d =
        (Inr v,
         d\<lparr>character_notes := tins (new_note h now (note_identity h uid q) q source_hash) (character_notes d),
           note_receipts := tins \<lparr>nr_id = note_identity h uid q, nr_owner_id = nq_owner_id q,
                                  nr_card_id = nq_card_id q, nr_created_at = now\<rparr> (note_receipts d)\<rparr>))"
    by (auto simp: create_note_def insert_note_def Let_def not_le split: option.splits sum.splits)
  then show thesis using same fresh by blast
qed

lemma new_note_simps [simp]:
  "cn_id (new_note h now k q hash) = k" "cn_authored (new_note h now k q hash) = nq_authored q"
  "cn_text (new_note h now k q hash) = ni_text (nq_payload q)"
  "cn_scope (new_note h now k q hash) = nq_scope q"
  "cn_scope_id (new_note h now k q hash) = scope_id h (nq_scope q)"
  "cn_source_message_id (new_note h now k q hash) = nq_source_message_id q"
  "cn_source_hash (new_note h now k q hash) = hash"
  "cn_owner_id (new_note h now k q hash) = nq_owner_id q"
  "cn_card_id (new_note h now k q hash) = nq_card_id q"
  "cn_actor_id (new_note h now k q hash) = note_actor q"
  "cn_version (new_note h now k q hash) = 1"
  by (simp_all add: new_note_def)

lemma create_note_ok:
  assumes "room_ok h d"
  shows "room_ok h (snd (create_note h now uid q d))"
proof (cases rule: create_note_cases [of h now uid q d])
  case (same res)
  with assms show ?thesis by simp
next
  case (fresh hash v)
  let ?n = "new_note h now (note_identity h uid q) q hash"
  have "note_quotes h (room_sources d) ?n" if member: "\<not> nq_authored q"
  proof -
    obtain s where s: "nq_scope q = Some s" using member fresh(1) by (auto simp: note_gate_def split: if_splits)
    with member fresh(3) have "quoted_source h s (nq_actor_id q) (nq_source_message_id q)
        (ni_text (nq_payload q)) d = Inr hash"
      by (simp add: note_source_hash_def)
    from quoted_source_InrD [OF this] obtain r m where
      "get_source d (evidence_key h s (nq_source_message_id q)) = Some r" "so_content r = SourceText m"
      "sublist (ni_text (nq_payload q)) (sm_text m)" "hash = draft_fingerprint h m" by blast
    with s note_view_of_InrD [OF fresh(7)] show ?thesis
      by (intro note_quotesI [of _ s _ m _ r m]) (simp_all add: scope_id_def)
  qed
  with assms fresh(4,8) show ?thesis
    by (auto simp: room_ok_def keyed_tins)
qed

lemma change_note_cases:
  obtains (refused) e where "change_note h now c d = (Inl e, d)"
  | (forgotten) n where "change_checked h c d = Inr n" and "nc_payload c = None"
      and "change_note h now c d =
        (Inr None, d\<lparr>character_notes := tdel (matched_note c) (character_notes d)\<rparr>)"
  | (edited) n p a v where "change_checked h c d = Inr n" and "nc_payload c = Some p"
      and "attribution h c p n d = Inr a" and "note_view_of (edited_note now c p a n) = Inr v"
      and "change_note h now c d =
        (Inr (Some v),
         d\<lparr>character_notes := tset (matched_note c) (edited_note now c p a) (character_notes d)\<rparr>)"
proof -
  have "(\<exists>e. change_note h now c d = (Inl e, d))
    \<or> (\<exists>n. change_checked h c d = Inr n \<and> nc_payload c = None \<and> change_note h now c d =
        (Inr None, d\<lparr>character_notes := tdel (matched_note c) (character_notes d)\<rparr>))
    \<or> (\<exists>n p a v. change_checked h c d = Inr n \<and> nc_payload c = Some p \<and> attribution h c p n d = Inr a
      \<and> note_view_of (edited_note now c p a n) = Inr v \<and> change_note h now c d =
        (Inr (Some v),
         d\<lparr>character_notes := tset (matched_note c) (edited_note now c p a) (character_notes d)\<rparr>))"
    by (auto simp: change_note_def split: option.splits sum.splits)
  then show thesis using refused forgotten edited by blast
qed

lemma edited_note_simps [simp]:
  "cn_id (edited_note now c p a n) = cn_id n" "cn_text (edited_note now c p a n) = ni_text p"
  "cn_scope (edited_note now c p a n) = cn_scope n" "cn_scope_id (edited_note now c p a n) = cn_scope_id n"
  "cn_owner_id (edited_note now c p a n) = cn_owner_id n"
  "cn_card_id (edited_note now c p a n) = cn_card_id n"
  "cn_version (edited_note now c p a n) = nc_expected_version c + 1"
  "cn_authored (edited_note now c p (b, x, y, z) n) = b"
  "cn_actor_id (edited_note now c p (b, x, y, z) n) = x"
  "cn_source_message_id (edited_note now c p (b, x, y, z) n) = y"
  "cn_source_hash (edited_note now c p (b, x, y, z) n) = z"
  by (simp_all add: edited_note_def split: prod.split)

lemma change_checked_InrD:
  "change_checked h c d = Inr n \<Longrightarrow>
    get_note d (nc_note_id c) = Some n \<and> cn_version n = nc_expected_version c \<and> 1 \<le> nc_expected_version c
    \<and> card_notes (nc_owner_id c) (nc_card_id c) n \<and> (nc_operator c \<or> \<not> actor_mismatch h c n)"
  by (auto simp: change_checked_def split: if_splits option.splits)


lemma matched_unique:
  assumes "keyed cn_id (character_notes d)" and "change_checked h c d = Inr n"
    and "x \<in> set (character_notes d)" and "matched_note c x"
  shows "x = n"
proof -
  have n: "n \<in> set (character_notes d)" "cn_id n = nc_note_id c"
    using change_checked_InrD [OF assms(2)] by (auto dest: tget_SomeD)
  show ?thesis by (rule keyed_eq [OF assms(1,3) n(1)]) (use assms(4) n(2) in \<open>simp add: matched_note_def\<close>)
qed

lemma change_note_ok:
  assumes "room_ok h d"
  shows "room_ok h (snd (change_note h now c d))"
proof (cases rule: change_note_cases [of h now c d])
  case (refused e)
  with assms show ?thesis by simp
next
  case (forgotten n)
  with assms show ?thesis by (auto simp: room_ok_def keyed_tdel)
next
  case (edited n p a v)
  note c = change_checked_InrD [OF edited(1)]
  have quotes: "note_quotes h (room_sources d) (edited_note now c p a n)"
    if member: "\<not> cn_authored (edited_note now c p a n)"
  proof -
    have op: "\<not> nc_operator c" using member edited(3) by (auto simp: attribution_def)
    with c obtain s where s: "nc_scope c = Some s" "cn_scope_id n = scope_key h s" "\<not> cn_authored n"
      by (auto simp: actor_mismatch_def scope_id_def split: option.splits)
    with op edited(3) obtain hash where a: "a = (False, nc_actor_id c, nc_source_message_id c, hash)"
        and q: "quoted_source h s (nc_actor_id c) (nc_source_message_id c) (ni_text p) d = Inr hash"
      by (cases "quoted_source h s (nc_actor_id c) (nc_source_message_id c) (ni_text p) d")
        (auto simp: attribution_def)
    have "note_quotes h (room_sources d) n" using assms c s(3) by (auto simp: room_ok_def dest: tget_SomeD)
    then obtain s' where s': "cn_scope n = Some s'" "scope_key h s' = scope_key h s"
      using s(2) by (auto simp: note_quotes_def)
    from quoted_source_InrD [OF q] obtain r m where
      "get_source d (evidence_key h s (nc_source_message_id c)) = Some r" "so_content r = SourceText m"
      "sublist (ni_text p) (sm_text m)" "hash = draft_fingerprint h m" by blast
    with s s' note_view_of_InrD [OF edited(4)] show ?thesis
      by (intro note_quotesI [of _ s' _ m _ r m]) (simp_all add: a evidence_key_def)
  qed
  have "\<not> cn_authored y \<longrightarrow> note_quotes h (room_sources d) y"
    if y: "y \<in> set (tset (matched_note c) (edited_note now c p a) (character_notes d))" for y
  proof -
    obtain x where x: "x \<in> set (character_notes d)"
        "y = (if matched_note c x then edited_note now c p a x else x)"
      using y by (auto simp: set_tset)
    show ?thesis
    proof (cases "matched_note c x")
      case True
      with x have "x = n" using matched_unique [OF _ edited(1)] assms by (auto simp: room_ok_def)
      with True x quotes show ?thesis by simp
    next
      case False
      with x assms show ?thesis by (auto simp: room_ok_def)
    qed
  qed
  with assms edited(5) show ?thesis by (auto simp: room_ok_def keyed_tset)
qed

lemma run_room_ok:
  assumes "room_ok h d" and "collision_free h"
  shows "room_ok h (run_room h x d)"
proof -
  obtain now k where x: "x = (now, k)" by fastforce
  show ?thesis
  proof (cases k)
    case (Observe s ms)
    with x assms show ?thesis by (simp add: observe_ok)
  next
    case (SetAccess s readable at)
    with x assms show ?thesis
      by (auto simp: set_access_def Let_def split: prod.split intro!: put_room_ok
          dest: with_room_ok [of h d now s])
  next
    case (SelectSpeaker uid s q)
    with x assms show ?thesis
      by (auto simp: select_speaker_def Let_def room_ok_def split: sum.split)
  next
    case (ReserveRoute l s request input requester optional)
    have "room_ok h (snd (with_room h now s d))" by (rule with_room_ok [OF assms(1)])
    then show ?thesis using x assms(1) ReserveRoute
      by (auto simp: reserve_route_def Let_def split: prod.split option.split)
        (auto simp: room_ok_def keyed_tins new_route_def with_room_def split: option.splits)
  next
    case (FinishRoute i status result)
    with x assms show ?thesis
      by (auto simp: finish_route_def room_ok_def keyed_tset split: option.split)
  next
    case (CreateNote uid q)
    with x assms show ?thesis by (simp add: create_note_ok)
  next
    case (ChangeNote c)
    with x assms show ?thesis by (simp add: change_note_ok)
  next
    case (DeleteCardNotes owner cid)
    with x assms show ?thesis by (auto simp: delete_card_notes_def room_ok_def keyed_tdel)
  qed
qed

interpretation rooms: invariant_system "run_room h" "\<lambda>d. room_ok h d \<and> collision_free h" for h
  by unfold_locales (simp add: run_room_ok)


section \<open>An example room\<close>

text \<open>Digests that collide on no list of identifiers and on no two texts.\<close>

definition marked :: "string \<Rightarrow> string" where
  "marked s = replicate (length s) CHR ''x'' @ CHR ''/'' # s"

definition demo_room_digests :: room_digests where
  "demo_room_digests =
     \<lparr>sha_text = marked, sha_scope = (\<lambda>s. marked (sc_owner_id s) @ marked (sc_channel_id s)),
      sha_ids = (\<lambda>xs. concat (map marked xs)),
      sha_raw = (\<lambda>xs. CHR ''n'' # concat (map marked xs)),
      sha_source = (\<lambda>p. concat (map (\<lambda>c. replicate c CHR ''c'' @ ''.'') (fp_text p))),
      sha_focus = (\<lambda>p. marked (ff_target_message_id p))\<rparr>"

lemma marked_append: "marked a @ x = marked b @ y \<longleftrightarrow> a = b \<and> x = y"
proof
  assume eq: "marked a @ x = marked b @ y"
  have "replicate (length a) CHR ''x'' = replicate (length b) CHR ''x'' \<and> a @ x = b @ y"
    by (rule append_sep_inject) (use eq in \<open>auto simp: marked_def\<close>)
  then show "a = b \<and> x = y" by (auto dest: arg_cong [of _ _ length])
qed simp

lemma unary_text_inject:
  "concat (map (\<lambda>c. replicate c CHR ''c'' @ ''.'') xs) = concat (map (\<lambda>c. replicate c CHR ''c'' @ ''.'') ys)
    \<Longrightarrow> xs = ys"
proof (induction xs arbitrary: ys)
  case Nil
  then show ?case by (cases ys) auto
next
  case (Cons a xs)
  then obtain b zs where ys: "ys = b # zs" by (cases ys) auto
  have "replicate a CHR ''c'' = replicate b CHR ''c''
    \<and> concat (map (\<lambda>c. replicate c CHR ''c'' @ ''.'') xs) = concat (map (\<lambda>c. replicate c CHR ''c'' @ ''.'') zs)"
    by (rule append_sep_inject [of _ "CHR ''.''"]) (use Cons.prems ys in auto)
  with Cons.IH [of zs] ys show ?case by (auto dest: arg_cong [of _ _ length])
qed

lemma demo_collision_free: "collision_free demo_room_digests"
proof -
  have "a = c \<and> b = e" if "sha_ids demo_room_digests [a, b] = sha_ids demo_room_digests [c, e]" for a b c e
    using that marked_append [of a "marked b" c "marked e"] marked_append [of b "[]" e "[]"]
    by (simp add: demo_room_digests_def)
  moreover have "fp_text p = fp_text q" if "sha_source demo_room_digests p = sha_source demo_room_digests q" for p q
    using that unary_text_inject by (simp add: demo_room_digests_def)
  ultimately show ?thesis unfolding collision_free_def by blast
qed

definition demo_source :: "string \<Rightarrow> prose \<Rightarrow> time \<Rightarrow> source_message" where
  "demo_source mid content t =
     \<lparr>sm_message_id = mid, sm_channel_id = ''ch'', sm_thread_id = [], sm_author_id = ''u1'',
      sm_author_display_name = [], sm_author_avatar_url = [], sm_author_external_id = [],
      sm_webhook_id = [], sm_author_is_bot = False, sm_author_deployment_id = [],
      sm_text = content, sm_reply_to = [], sm_response_to = [], sm_response_complete = None,
      sm_mentioned = [], sm_created_at = Some 0, sm_edited_at = Some t, sm_deleted = False,
      sm_content_available = True, sm_unseen_media = False, sm_media_fingerprint = [],
      sm_attachments = [], sm_custom_emojis = [], sm_stickers = [], sm_mentions = [],
      sm_embeds = [], sm_poll = None, sm_reactions = [], sm_pinned = False\<rparr>"

definition demo_note_request :: note_request where
  "demo_note_request =
     \<lparr>nq_owner_id = ''o'', nq_card_id = ''card'',
      nq_payload = \<lparr>ni_subject_ref = ''user:u1'', ni_kind = PlainNote, ni_text = [5, 6]\<rparr>,
      nq_scope = Some demo_scope, nq_actor_id = ''u1'', nq_source_message_id = ''m1'',
      nq_request_id = ''r1'', nq_authored = False\<rparr>"

definition empty_room_db :: room_db where
  "empty_room_db =
     \<lparr>operations = [], steps = [], effects = [], deliveries = [], usages = [], room_states = [],
      room_sources = [], room_selections = [], room_routes = [], character_notes = [],
      note_receipts = [], media_references = [], character_cards = [demo_card ''card'' ''o'']\<rparr>"

text \<open>A message is observed, quoted in a note, and edited so that it still contains the quote.\<close>

definition demo_history :: "(time \<times> room_command) list" where
  "demo_history =
     [(1, Observe demo_scope [demo_source ''m1'' [4, 5, 6] 1, demo_source ''m2'' [7] 1]),
      (2, CreateNote ''u'' demo_note_request)]"

definition demo_room_db :: room_db where
  "demo_room_db = run_ops (run_room demo_room_digests) demo_history empty_room_db"

definition demo_deletion :: "time \<times> room_command" where
  "demo_deletion = (3, Observe demo_scope [tombstone (demo_source ''m1'' [] 2)])"

lemma empty_room_ok: "room_ok h empty_room_db"
  by (simp add: room_ok_def empty_room_db_def)

lemma demo_room_ok: "room_ok demo_room_digests demo_room_db"
  unfolding demo_room_db_def
  using rooms.inv_run [of demo_room_digests empty_room_db demo_history] empty_room_ok demo_collision_free by blast

end
