(* ===== verification/Room_Safety.thy ===== *)
theory Room_Safety
  imports Room_System "HOL-Library.Multiset"
begin

text \<open>
  What the rooms and notes promise over any run of their commands: notes quote the words of their
  actor, deletions and revocations hold, a focus is bounded and stays in its room, an event reserves
  one routing decision, a request writes one note and a version is changed once.
\<close>

section \<open>Properties of notes\<close>

text \<open>A stored note of a member always quotes the message it names, as the room records that
  message now: observing an edit that drops the quoted words, or a deletion, erases the note in the
  same transaction, and no command writes a note that its source does not contain.\<close>

theorem notes_quote_their_source:
  assumes "room_ok h d" and "collision_free h"
  shows "\<forall>n \<in> set (character_notes (run_ops (run_room h) xs d)). \<not> cn_authored n \<longrightarrow>
    (\<exists>s r m. cn_scope n = Some s \<and> cn_text n \<noteq> []
       \<and> get_source (run_ops (run_room h) xs d) (evidence_key h s (cn_source_message_id n)) = Some r
       \<and> so_content r = SourceText m \<and> sublist (cn_text n) (sm_text m))"
proof -
  have "room_ok h (run_ops (run_room h) xs d)" using rooms.inv_run [of h d xs] assms by blast
  then show ?thesis unfolding room_ok_def note_quotes_def by meson
qed

theorem notes_quote_their_source_witness:
  "map cn_text (character_notes demo_room_db) = [[5, 6]]
   \<and> character_notes (run_room demo_room_digests demo_deletion demo_room_db) = []
   \<and> list_all (\<lambda>n. cn_authored n \<or>
       (\<exists>s r m. cn_scope n = Some s \<and> cn_text n \<noteq> []
         \<and> get_source demo_room_db (evidence_key demo_room_digests s (cn_source_message_id n)) = Some r
         \<and> so_content r = SourceText m \<and> sublist (cn_text n) (sm_text m)))
     (character_notes demo_room_db)"
proof (intro conjI)
  show "map cn_text (character_notes demo_room_db) = [[5, 6]]" by code_simp
  show "character_notes (run_room demo_room_digests demo_deletion demo_room_db) = []" by code_simp
  show "list_all (\<lambda>n. cn_authored n \<or>
       (\<exists>s r m. cn_scope n = Some s \<and> cn_text n \<noteq> []
         \<and> get_source demo_room_db (evidence_key demo_room_digests s (cn_source_message_id n)) = Some r
         \<and> so_content r = SourceText m \<and> sublist (cn_text n) (sm_text m)))
     (character_notes demo_room_db)"
    using notes_quote_their_source [OF empty_room_ok demo_collision_free, of demo_history]
    unfolding list_all_iff demo_room_db_def by blast
qed

text \<open>Stripping returns an excerpt.\<close>

lemma sublist_strip_by: "sublist (strip_by sp xs) xs"
proof -
  have "suffix (dropWhile sp xs) xs" by (simp add: suffix_dropWhile)
  moreover have "prefix (rev (dropWhile sp (rev (dropWhile sp xs)))) (dropWhile sp xs)"
    by (metis rev_rev_ident suffix_dropWhile suffix_to_prefix)
  ultimately show ?thesis
    unfolding strip_by_def by (blast intro: prefix_imp_sublist suffix_imp_sublist sublist_order.order_trans)
qed

lemma note_view_fields:
  assumes "note_view_of n = Inr v"
  shows "nv_authored v = cn_authored n" "nv_actor_id v = cn_actor_id n" "nv_scope v = cn_scope n"
    "nv_source_message_id v = cn_source_message_id n" "nv_card_id v = cn_card_id n"
    "ni_text v = strip_prose (cn_text n)"
  using assms
  by (auto simp: note_view_of_def note_input.extend_def make_note_input_def split: sum.splits if_splits)

lemma current_views_InrD:
  "current_views h d ns = Inr vs \<Longrightarrow> v \<in> set vs \<Longrightarrow>
    \<exists>n \<in> set ns. current_source h d n = Inr True \<and> note_view_of n = Inr v"
  by (induction ns arbitrary: vs) (fastforce split: sum.splits bool.splits)+

lemma list_notes_InrD:
  assumes "list_notes h owner cid s subjects bg limit d = Inr vs" and "v \<in> set vs"
  shows "\<exists>n \<in> set (character_notes d). current_source h d n = Inr True \<and> note_view_of n = Inr v
    \<and> listed_in h owner cid s bg subjects n \<and> (\<forall>s0. s = Some s0 \<longrightarrow> readable_room h s0 d \<noteq> None)"
proof -
  let ?rows = "tlimit 256 (sort_key note_order (filter (listed_in h owner cid s bg subjects) (character_notes d)))"
  obtain ws where ws: "current_views h d ?rows = Inr ws" "vs = take (nat limit) ws"
      and room: "\<forall>s0. s = Some s0 \<longrightarrow> readable_room h s0 d \<noteq> None"
    using assms by (cases "current_views h d ?rows") (auto simp: list_notes_def split: if_splits option.splits)
  have "v \<in> set ws" using assms(2) ws(2) by (auto dest: in_set_takeD)
  from current_views_InrD [OF ws(1) this] obtain n where
    "n \<in> set ?rows" "current_source h d n = Inr True" "note_view_of n = Inr v" by blast
  moreover have "set ?rows \<subseteq> set (filter (listed_in h owner cid s bg subjects) (character_notes d))"
    unfolding tlimit_def by (metis set_sort set_take_subset)
  ultimately show ?thesis using room by auto
qed

text \<open>What a Character is told of a member comes from that member: a listed note is
  one of the card's, and either authored by the operator or an exact excerpt of a message of its
  actor, a human, that is neither deleted nor unreadable, in the room asked about, and that room is
  readable. Never more than the limit are listed.\<close>

theorem listed_notes_are_own_words:
  assumes "room_ok h d" and "collision_free h"
    and "list_notes h owner cid s subjects bg limit d = Inr vs"
  shows "length vs \<le> nat limit \<and> (\<forall>v \<in> set vs. nv_card_id v = cid \<and>
    (nv_authored v \<or>
      (\<exists>s' r m. nv_scope v = Some s' \<and> (\<forall>s0. s = Some s0 \<longrightarrow> scope_key h s' = scope_key h s0
           \<and> readable_room h s0 d \<noteq> None)
         \<and> get_source d (evidence_key h s' (nv_source_message_id v)) = Some r
         \<and> so_content r = SourceText m \<and> own_message m (nv_actor_id v)
         \<and> sublist (ni_text v) (sm_text m))))"
proof (intro conjI ballI)
  show "length vs \<le> nat limit"
    using assms(3) by (auto simp: list_notes_def map_sum_def split: if_splits sum.splits option.splits)
next
  fix v assume "v \<in> set vs"
  from list_notes_InrD [OF assms(3) this] obtain n where n: "n \<in> set (character_notes d)"
      "current_source h d n = Inr True" "note_view_of n = Inr v" "listed_in h owner cid s bg subjects n"
      and room: "\<forall>s0. s = Some s0 \<longrightarrow> readable_room h s0 d \<noteq> None" by blast
  note v = note_view_fields [OF n(3)]
  show "nv_card_id v = cid" using v n(4) by (simp add: listed_in_def card_notes_def)
  show "nv_authored v \<or> (\<exists>s' r m. nv_scope v = Some s' \<and> (\<forall>s0. s = Some s0 \<longrightarrow>
        scope_key h s' = scope_key h s0 \<and> readable_room h s0 d \<noteq> None)
      \<and> get_source d (evidence_key h s' (nv_source_message_id v)) = Some r
      \<and> so_content r = SourceText m \<and> own_message m (nv_actor_id v) \<and> sublist (ni_text v) (sm_text m))"
  proof (cases "cn_authored n")
    case False
    then have q: "note_quotes h (room_sources d) n" using assms(1) n(1) by (auto simp: room_ok_def)
    then obtain s' r m where s': "cn_scope n = Some s'" "cn_scope_id n = scope_key h s'"
        "get_source d (evidence_key h s' (cn_source_message_id n)) = Some r"
        "so_content r = SourceText m" "sublist (cn_text n) (sm_text m)"
      by (auto simp: note_quotes_def)
    have "own_message m (cn_actor_id n)"
      using n(2) s' False
      by (auto simp: current_source_def validate_json_def split: if_splits sum.splits dest!: make_source_InrD)
    moreover have "sublist (ni_text v) (sm_text m)"
      using v(6) s'(5) sublist_strip_by [of is_space_point "cn_text n"] by (metis sublist_order.order_trans)
    moreover have "scope_key h s' = scope_key h s0" if "s = Some s0" for s0
      using n(4) s'(2) that False by (auto simp: listed_in_def scope_id_def)
    ultimately show ?thesis using s' v room by metis
  qed (simp add: v)
qed

theorem listed_notes_are_own_words_witness:
  "\<exists>v. list_notes demo_room_digests ''o'' ''card'' (Some demo_scope) None True 5 demo_room_db = Inr [v]
     \<and> ni_text v = [5, 6] \<and> \<not> nv_authored v
     \<and> (\<exists>s' r m. nv_scope v = Some s'
         \<and> get_source demo_room_db (evidence_key demo_room_digests s' (nv_source_message_id v)) = Some r
         \<and> so_content r = SourceText m \<and> own_message m (nv_actor_id v)
         \<and> sublist (ni_text v) (sm_text m))"
proof -
  have "case list_notes demo_room_digests ''o'' ''card'' (Some demo_scope) None True 5 demo_room_db of
      Inr [v] \<Rightarrow> ni_text v = [5, 6] \<and> \<not> nv_authored v | _ \<Rightarrow> False"
    by code_simp
  then obtain v where v: "list_notes demo_room_digests ''o'' ''card'' (Some demo_scope) None True 5 demo_room_db = Inr [v]"
      "ni_text v = [5, 6]" "\<not> nv_authored v"
    by (auto split: sum.splits list.splits)
  from listed_notes_are_own_words [OF demo_room_ok demo_collision_free v(1)] v show ?thesis
    by (metis list.set_intros(1))
qed


section \<open>Deleted messages\<close>

text \<open>Whether the source of a key is a tombstone without text.\<close>

definition erased :: "'a room_db_scheme \<Rightarrow> string \<Rightarrow> bool option" where
  "erased d k =
     map_option (\<lambda>r. case so_content r of
                       SourceText m \<Rightarrow> sm_deleted m \<and> sm_text m = []
                     | BadSource _ \<Rightarrow> False) (get_source d k)"

lemma erased_TrueD:
  "erased d k = Some True \<Longrightarrow>
    \<exists>r m. get_source d k = Some r \<and> so_content r = SourceText m \<and> sm_deleted m \<and> sm_text m = []"
proof -
  assume "erased d k = Some True"
  then obtain r where "get_source d k = Some r"
      "case so_content r of SourceText m \<Rightarrow> sm_deleted m \<and> sm_text m = [] | BadSource _ \<Rightarrow> False"
    by (auto simp: erased_def)
  then show ?thesis by (cases "so_content r") auto
qed

lemma erased_cong: "room_sources d' = room_sources d \<Longrightarrow> erased d' k = erased d k"
  by (simp add: erased_def)

lemma observe_message_sources:
  assumes "observe_message h now s item d = Inr d'" and "erased d k = Some True"
  shows "erased d' k = Some True"
proof -
  let ?k = "evidence_key h s (sm_message_id item)"
  obtain r m where r: "get_source d k = Some r" "so_content r = SourceText m" "sm_deleted m"
    using erased_TrueD [OF assms(2)] by blast
  have rk: "so_id r = k" using r(1) by (rule tget_key)
  have closed: "\<not> sm_deleted old \<Longrightarrow> source_from_json (so_content x) = Inr old \<Longrightarrow>
      get_source d ?k = Some x \<Longrightarrow> ?k \<noteq> k" for x old
    using r by (auto dest!: source_from_json_InrD)
  from assms(1) show ?thesis
  proof (cases rule: observe_message_cases)
    case skip
    with assms show ?thesis by simp
  next
    case create
    obtain revision where "room_sources d' = tins (new_source h now s ?k revision item) (room_sources d)"
      by (rule record_version_sources [of h now s ?k item d]) (use create in simp)
    with r(1) have "get_source d' k = Some r" by (simp add: tget_tins)
    with assms(2) r show ?thesis by (simp add: erased_def)
  next
    case (enrich x old m')
    then have "?k \<noteq> k" using closed merge_source_merged [of h old item m'] by (auto simp: merged_from_def)
    with enrich(4) r(1) rk have "get_source d' k = Some r"
      by (simp add: put_source_def tget_tset)
    with assms(2) r show ?thesis by (simp add: erased_def)
  next
    case (revise x old m')
    then have k: "?k \<noteq> k" using closed merge_source_merged [of h old item m'] by (auto simp: merged_from_def)
    obtain revision where "room_sources d' = tset (\<lambda>r. so_id r = ?k)
        (\<lambda>r. r\<lparr>so_content := SourceText m', so_revision := so_revision r + 1,
               so_room_revision := revision\<rparr>) (room_sources d)"
      by (rule record_version_sources [of h now s ?k m' d]) (use revise in simp)
    with k r(1) rk have "get_source d' k = Some r"
      by (simp add: tget_tset)
    with assms(2) r show ?thesis by (simp add: erased_def)
  qed
qed

lemma observe_erased:
  assumes "erased d k = Some True"
  shows "erased (snd (observe h now s ms d)) k = Some True"
proof (cases rule: observe_cases [of h now s ms d])
  case (refused e)
  with assms show ?thesis by simp
next
  case (recorded d')
  have "erased (snd (with_room h now s d)) k = Some True"
    using assms erased_cong [OF with_room_frames(1)] by metis
  then have "erased d' k = Some True"
    by (rule observe_messages_induct [OF recorded(1), of "\<lambda>d. erased d k = Some True"])
      (rule observe_message_sources)
  with recorded(2) show ?thesis by (simp add: erased_def)
qed

text \<open>Only an observation writes sources.\<close>

lemma run_room_sources:
  assumes "\<And>s ms. snd x \<noteq> Observe s ms"
  shows "room_sources (run_room h x d) = room_sources d"
proof -
  obtain now k where x: "x = (now, k)" by fastforce
  show ?thesis
  proof (cases k)
    case (Observe s ms)
    with assms [of s ms] x show ?thesis by simp
  next
    case (CreateNote uid q)
    with x show ?thesis by (cases rule: create_note_cases [of h now uid q d]) simp_all
  next
    case (ChangeNote c)
    with x show ?thesis by (cases rule: change_note_cases [of h now c d]) simp_all
  qed (use x in \<open>auto simp: set_access_def select_speaker_def reserve_route_def finish_route_def
      delete_card_notes_def Let_def with_room_def split: prod.split sum.split option.split\<close>)
qed

lemma erased_step:
  assumes "erased d k = Some True"
  shows "erased (run_room h x d) k = Some True"
proof (cases "\<exists>s ms. snd x = Observe s ms")
  case True
  then obtain now s ms where "x = (now, Observe s ms)" by (cases x) auto
  with assms show ?thesis by (simp add: observe_erased)
next
  case False
  with assms show ?thesis using erased_cong [OF run_room_sources] by metis
qed

interpretation tombstones: terminal_status "run_room h" erased "\<lambda>b. b" "\<lambda>_. False" for h
  by unfold_locales (auto simp: erased_step)

text \<open>A deletion is final: once a message's source is a tombstone, no later observation,
  whatever text or version it claims, restores it; what a reader gets of it has no text and no
  presentation content; and no note of a member rests on it.\<close>

theorem deleted_message_stays_deleted:
  assumes "room_ok h d" and "collision_free h" and "erased d (evidence_key h s mid) = Some True"
  shows "erased (run_ops (run_room h) xs d) (evidence_key h s mid) = Some True
    \<and> (\<forall>x. get_stored h s mid (run_ops (run_room h) xs d) = Inr (Some x) \<longrightarrow>
        sm_deleted (ss_message x) \<and> sm_text (ss_message x) = [] \<and> \<not> presented (ss_message x))
    \<and> (\<forall>n \<in> set (character_notes (run_ops (run_room h) xs d)). \<not> cn_authored n \<longrightarrow>
        (\<forall>s'. cn_scope n = Some s' \<longrightarrow> evidence_key h s' (cn_source_message_id n) \<noteq> evidence_key h s mid))"
proof -
  let ?d = "run_ops (run_room h) xs d"
  have e: "erased ?d (evidence_key h s mid) = Some True"
    by (rule tombstones.final_run [OF assms(3)]) simp_all
  then obtain r m where r: "get_source ?d (evidence_key h s mid) = Some r" "so_content r = SourceText m"
      "sm_deleted m" "sm_text m = []" by (blast dest: erased_TrueD)
  have "sm_deleted (ss_message x) \<and> sm_text (ss_message x) = [] \<and> \<not> presented (ss_message x)"
    if "get_stored h s mid ?d = Inr (Some x)" for x
  proof -
    from that r obtain m' where m': "source_from_json (so_content r) = Inr m'" "ss_message x = m'"
      by (auto simp: get_stored_def stored_def split: option.splits sum.splits)
    with r have "sm_deleted m'" by (auto dest!: source_from_json_InrD)
    with m' read_source_facts [OF m'(1)] show ?thesis by simp
  qed
  moreover have "evidence_key h s' (cn_source_message_id n) \<noteq> evidence_key h s mid"
    if "n \<in> set (character_notes ?d)" "\<not> cn_authored n" "cn_scope n = Some s'" for n s'
  proof -
    have "room_ok h ?d" using rooms.inv_run [of h d xs] assms by blast
    then have "note_quotes h (room_sources ?d) n" using that(1,2) by (simp add: room_ok_def)
    with that(3) r show ?thesis by (auto simp: note_quotes_def)
  qed
  ultimately show ?thesis using e by blast
qed

theorem deleted_message_stays_deleted_witness:
  "erased (run_room demo_room_digests demo_deletion demo_room_db)
       (evidence_key demo_room_digests demo_scope ''m1'') = Some True
   \<and> erased (run_ops (run_room demo_room_digests) demo_history
        (run_room demo_room_digests demo_deletion demo_room_db))
       (evidence_key demo_room_digests demo_scope ''m1'') = Some True"
proof -
  have e: "erased (run_room demo_room_digests demo_deletion demo_room_db)
      (evidence_key demo_room_digests demo_scope ''m1'') = Some True" by code_simp
  have "room_ok demo_room_digests (run_room demo_room_digests demo_deletion demo_room_db)"
    by (rule run_room_ok [OF demo_room_ok demo_collision_free])
  with e show ?thesis
    using deleted_message_stays_deleted [OF _ demo_collision_free e, of demo_history] by blast
qed


section \<open>Revoked access\<close>

lemma reserve_route_cases:
  obtains (refused) res where "reserve_route h now l s request input requester optional d = (res, d)"
      and "\<And>r. res \<noteq> Inr (Reserved r)"
  | (reserved) "ro_readable (fst (with_room h now s d))"
      and "tget rt_id (room_routes d) (route_key h s request) = None"
      and "optional \<Longrightarrow> \<not> cooling l now (ro_id (fst (with_room h now s d))) d
        \<and> window_count l now (ro_id (fst (with_room h now s d))) d < rl_max_attempts l"
      and "reserve_route h now l s request input requester optional d =
        (Inr (Reserved (new_route h now s request input requester optional)),
         (snd (with_room h now s d))
           \<lparr>room_routes := tins (new_route h now s request input requester optional) (room_routes d)\<rparr>)"
proof -
  obtain room d1 where w: "with_room h now s d = (room, d1)" by fastforce
  have routes: "room_routes d1 = room_routes d" using with_room_frames(3) [of h now s d] w by simp
  show thesis
  proof (cases "\<not> ro_readable room \<or> tget rt_id (room_routes d) (route_key h s request) \<noteq> None
      \<or> optional \<and> (cooling l now (ro_id room) d \<or> rl_max_attempts l \<le> window_count l now (ro_id room) d)")
    case True
    then show thesis
      by (intro refused [of "fst (reserve_route h now l s request input requester optional d)"])
        (auto simp: reserve_route_def w Let_def split: option.split)
  next
    case False
    with routes show thesis
      by (intro reserved) (auto simp: reserve_route_def w Let_def)
  qed
qed

text \<open>A room whose last permission check, at \<open>t\<close> or later, revoked the access.\<close>

definition revoked_since :: "time \<Rightarrow> 'a room_db_scheme \<Rightarrow> string \<Rightarrow> bool option" where
  "revoked_since t d k =
     map_option (\<lambda>r. \<not> ro_readable r \<and> (case ro_permission_checked_at r of Some p \<Rightarrow> t \<le> p | None \<Rightarrow> False))
       (get_room d k)"

text \<open>A permission check newer than \<open>t\<close> that finds the room readable.\<close>

definition regrants :: "time \<Rightarrow> time \<times> room_command \<Rightarrow> bool" where
  "regrants t x =
     (case snd x of
        SetAccess s readable at \<Rightarrow> readable \<and> t < (case at of Some o' \<Rightarrow> o' | None \<Rightarrow> fst x)
      | _ \<Rightarrow> False)"

lemma get_room_put:
  "(\<And>r. ro_id (f r) = ro_id r) \<Longrightarrow>
    get_room (put_room k f d) k' = (if k' = k then map_option f (get_room d k) else get_room d k')"
  unfolding put_room_def using room_table.get_modify [of f k d k'] by simp

lemma revoked_TrueD:
  "revoked_since t d k = Some True \<Longrightarrow>
    \<exists>r p. get_room d k = Some r \<and> \<not> ro_readable r \<and> ro_permission_checked_at r = Some p \<and> t \<le> p"
  by (auto simp: revoked_since_def split: option.splits)

lemma get_room_with [simp]:
  "get_room (snd (with_room h now s d)) k =
    (case get_room d k of
       Some r \<Rightarrow> Some r | None \<Rightarrow> if k = scope_key h s then Some (new_room h now s) else None)"
  by (cases rule: with_room_cases [of d h s now])
    (auto simp: tget_tins new_room_def split: option.split)

lemma revoked_with [simp]:
  "revoked_since t d k = Some True \<Longrightarrow> revoked_since t (snd (with_room h now s d)) k = Some True"
  by (auto simp: revoked_since_def)

lemma put_room_revoked:
  assumes "revoked_since t d k = Some True" and "\<And>r. ro_id (f r) = ro_id r"
    and "\<And>r. ro_readable (f r) = ro_readable r \<and> ro_permission_checked_at (f r) = ro_permission_checked_at r"
  shows "revoked_since t (put_room k' f d) k = Some True"
  using assms by (auto simp: revoked_since_def get_room_put)

lemma record_version_revoked:
  "revoked_since t d k = Some True \<Longrightarrow> revoked_since t (record_version h now s i m d) k = Some True"
proof -
  assume "revoked_since t d k = Some True"
  then have "revoked_since t (put_room (scope_key h s) (\<lambda>r. r\<lparr>ro_revision := ro_revision r + 1\<rparr>)
      (erase_derived h s m d)) k = Some True"
    by (intro put_room_revoked) (simp_all add: revoked_since_def erase_derived_def)
  then show ?thesis
    by (simp add: record_version_def Let_def revoked_since_def put_source_def split: option.split)
qed

lemma observe_message_revoked:
  assumes "observe_message h now s item d = Inr d'" and "revoked_since t d k = Some True"
  shows "revoked_since t d' k = Some True"
  using assms(1)
proof (cases rule: observe_message_cases)
  case enrich
  with assms(2) show ?thesis by (simp add: revoked_since_def)
qed (use assms(2) in \<open>simp_all add: record_version_revoked\<close>)

lemma observe_revoked:
  assumes "revoked_since t d k = Some True"
  shows "revoked_since t (snd (observe h now s ms d)) k = Some True"
proof (cases rule: observe_cases [of h now s ms d])
  case (refused e)
  with assms show ?thesis by simp
next
  case (recorded d')
  have "revoked_since t d' k = Some True"
    by (rule observe_messages_induct [OF recorded(1), of "\<lambda>d. revoked_since t d k = Some True"])
      (use assms in \<open>auto intro: observe_message_revoked\<close>)
  with recorded(2) show ?thesis by (simp add: put_room_revoked)
qed

lemma set_access_revoked:
  assumes "revoked_since t d k = Some True" and "\<not> regrants t (now, SetAccess s readable at)"
  shows "revoked_since t (snd (set_access h now s readable at d)) k = Some True"
proof -
  obtain r p where r: "get_room d k = Some r" "\<not> ro_readable r" "ro_permission_checked_at r = Some p" "t \<le> p"
    using revoked_TrueD [OF assms(1)] by blast
  define seen where "seen = (case at of Some o' \<Rightarrow> o' | None \<Rightarrow> now)"
  show ?thesis
  proof (cases "k = scope_key h s")
    case True
    with r have w: "with_room h now s d = (r, d)" by (simp add: with_room_def)
    have k: "ro_id r = k" using r(1) by (rule tget_key)
    show ?thesis
    proof (cases "late_check seen r")
      case True
      with w assms(1) show ?thesis by (simp add: set_access_def seen_def)
    next
      case False
      with r(2,3) have "p < seen" by (auto simp: late_check_def not_less)
      moreover from this r(4) assms(2) have "\<not> readable"
        by (cases at) (auto simp: regrants_def seen_def)
      ultimately show ?thesis using w False r k
        by (simp add: set_access_def Let_def seen_def [symmetric] revoked_since_def get_room_put)
    qed
  next
    case False
    have "ro_id (fst (with_room h now s d)) = scope_key h s"
      by (cases rule: with_room_cases [of d h s now]) (auto simp: new_room_def dest: tget_key)
    with False assms(1) r(1) show ?thesis
      by (auto simp: set_access_def Let_def revoked_since_def get_room_put split: prod.split)
        (metis get_room_with option.case(2) snd_conv)+
  qed
qed

lemma revoked_step:
  assumes "revoked_since t d k = Some True" and "\<not> regrants t x"
  shows "revoked_since t (run_room h x d) k = Some True"
proof -
  obtain now c where x: "x = (now, c)" by fastforce
  show ?thesis
  proof (cases c)
    case (Observe s ms)
    with x assms show ?thesis by (simp add: observe_revoked)
  next
    case (SetAccess s readable at)
    with x assms show ?thesis by (simp add: set_access_revoked)
  next
    case (ReserveRoute l s request input requester optional)
    with x assms show ?thesis
      by (cases rule: reserve_route_cases [of h now l s request input requester optional d])
        (use revoked_with [OF assms(1), of h now s] in \<open>simp_all add: revoked_since_def\<close>)
  next
    case (CreateNote uid q)
    with x assms show ?thesis
      by (cases rule: create_note_cases [of h now uid q d]) (simp_all add: revoked_since_def)
  next
    case (ChangeNote y)
    with x assms show ?thesis
      by (cases rule: change_note_cases [of h now y d]) (simp_all add: revoked_since_def)
  qed (use x assms in \<open>auto simp: select_speaker_def finish_route_def delete_card_notes_def
      revoked_since_def Let_def split: sum.split option.split\<close>)
qed

interpretation revocation: terminal_status "run_room h" "revoked_since t" "\<lambda>b. b" "regrants t" for h t
  by unfold_locales (auto simp: revoked_step)


text \<open>What an unreadable room answers.\<close>

lemma unreadable_reads:
  assumes "get_room d (scope_key h s) = Some r" and "\<not> ro_readable r"
  shows "readable_room h s d = None"
    and "get_stored h s mid d = Inr None"
    and "recent h s n d \<in> {Inr [], Inl (ValueError ''invalid_source_limit'')}"
    and "\<exists>e. focus h s target r1 r2 r3 d = Inl e"
    and "list_notes h owner cid (Some s) subjects bg limit d = Inr vs \<Longrightarrow> vs = []"
    and "observe h now s ms d = (fst (observe h now s ms d), d)"
    and "reserve_route h now l s request input requester optional d = (Inr RoomAccessRevoked, d)"
  using assms
  by (auto simp: readable_room_def get_stored_def recent_def focus_def focus_target_def list_notes_def
      observe_def reserve_route_def with_room_def Let_def split: if_splits)

text \<open>C36. A revocation holds: after a platform check at \<open>t\<close> found the room unreadable, no
  command, in particular no permission check observed at \<open>t\<close> or before that arrives late, makes it
  readable again. Until a newer check grants access, no message, context or note of the room is
  disclosed, no message is recorded and no routing is reserved.\<close>

theorem revoked_room_discloses_nothing:
  assumes "revoked_since t d (scope_key h s) = Some True" and "\<forall>x \<in> set xs. \<not> regrants t x"
  defines "d' \<equiv> run_ops (run_room h) xs d"
  shows "get_stored h s mid d' = Inr None
    \<and> recent h s n d' \<in> {Inr [], Inl (ValueError ''invalid_source_limit'')}
    \<and> (\<exists>e. focus h s target r1 r2 r3 d' = Inl e)
    \<and> (\<forall>vs. list_notes h owner cid (Some s) subjects bg limit d' = Inr vs \<longrightarrow> vs = [])
    \<and> snd (observe h now s ms d') = d'
    \<and> reserve_route h now l s request input requester optional d' = (Inr RoomAccessRevoked, d')"
proof -
  have "revoked_since t d' (scope_key h s) = Some True"
    unfolding d'_def by (rule revocation.final_run [OF assms(1) _ assms(2)]) simp
  then obtain r where r: "get_room d' (scope_key h s) = Some r" "\<not> ro_readable r"
    by (blast dest: revoked_TrueD)
  have "snd (observe h now s ms d') = d'" using unreadable_reads(6) [OF r, of now ms] by (metis snd_conv)
  then show ?thesis
    using unreadable_reads(2) [OF r] unreadable_reads(3) [OF r] unreadable_reads(4) [OF r]
      unreadable_reads(5) [OF r] unreadable_reads(7) [OF r] by blast
qed

definition demo_revoked_db :: room_db where
  "demo_revoked_db = run_room demo_room_digests (9, SetAccess demo_scope False (Some 8)) demo_room_db"

theorem revoked_room_discloses_nothing_witness:
  "revoked_since 8 demo_revoked_db (scope_key demo_room_digests demo_scope) = Some True
   \<and> get_stored demo_room_digests demo_scope ''m1''
       (run_room demo_room_digests (10, SetAccess demo_scope True (Some 7)) demo_revoked_db) = Inr None
   \<and> map_sum id (map_option ss_revision) (get_stored demo_room_digests demo_scope ''m1'' demo_room_db) = Inr (Some 1)"
proof -
  have r: "revoked_since 8 demo_revoked_db (scope_key demo_room_digests demo_scope) = Some True"
    by code_simp
  have "\<forall>x \<in> set [(10, SetAccess demo_scope True (Some 7))]. \<not> regrants 8 x"
    by (simp add: regrants_def)
  from revoked_room_discloses_nothing [OF r this, of "''m1''"]
  have "get_stored demo_room_digests demo_scope ''m1''
      (run_room demo_room_digests (10, SetAccess demo_scope True (Some 7)) demo_revoked_db) = Inr None"
    by simp
  moreover have "map_sum id (map_option ss_revision)
      (get_stored demo_room_digests demo_scope ''m1'' demo_room_db) = Inr (Some 1)" by code_simp
  ultimately show ?thesis using r by blast
qed


section \<open>Focus\<close>

text \<open>A source of the room: a stored row of it, as it is read.\<close>

definition from_room :: "room_digests \<Rightarrow> room_scope \<Rightarrow> 'a room_db_scheme \<Rightarrow> stored_source \<Rightarrow> bool" where
  "from_room h s d x \<longleftrightarrow>
     (\<exists>r \<in> set (room_sources d). so_scope_id r = scope_key h s \<and> stored r = Inr x \<and> \<not> unusable x)"

lemma stored_found:
  assumes "room_ok h d" and "collision_free h"
    and "get_source d (evidence_key h s mid) = Some r" and "stored r = Inr x"
  shows "source_id x = mid \<and> (\<not> unusable x \<longrightarrow> from_room h s d x)"
proof -
  obtain old where old: "source_from_json (so_content r) = Inr old" "ss_message x = old"
    using assms(4) by (auto simp: stored_def split: sum.splits)
  from found_source [OF assms(1-3) old(1)] have "sm_message_id old = mid" "so_scope_id r = scope_key h s"
    by blast+
  with assms(3,4) old(2) show ?thesis
    by (auto simp: source_id_def from_room_def dest: tget_mem)
qed

lemma focus_target_InrD:
  assumes "room_ok h d" and "collision_free h" and "focus_target h s target d = Inr (room, x)"
  shows "ro_id room = scope_key h s \<and> source_id x = target \<and> from_room h s d x \<and> source_size x \<le> 10000"
proof -
  obtain row where row: "get_room d (scope_key h s) = Some room"
      "get_source d (evidence_key h s target) = Some row" "stored row = Inr x" "\<not> unusable x"
    using assms(3) by (auto simp: focus_target_def readable_room_def split: option.splits sum.splits if_splits)
  have "length (sm_text (ss_message x)) \<le> 10000"
    using row(3) read_source_facts(1) by (auto simp: stored_def split: sum.splits)
  with row stored_found [OF assms(1,2) row(2,3)] show ?thesis
    by (auto simp: source_size_def dest: tget_key)
qed

lemma ancestors_InrD:
  assumes "room_ok h d" and "collision_free h"
  shows "ancestors h s d n seen x = Inr (ys, missing) \<Longrightarrow>
    length ys \<le> n \<and> (\<forall>y \<in> set ys. from_room h s d y)"
proof (induction n arbitrary: seen x ys missing)
  case (Suc n)
  show ?case
  proof (cases "ys = []")
    case False
    with Suc.prems obtain row y zs where r: "get_source d (evidence_key h s (parent_id x)) = Some row"
        "stored row = Inr y" "\<not> unusable y"
        "ancestors h s d n (parent_id x # seen) y = Inr (zs, missing)" "ys = y # zs"
      by (auto simp: Let_def split: if_splits option.splits sum.splits prod.splits)
    with Suc.IH [OF r(4)] stored_found [OF assms r(1,2)] show ?thesis by simp
  qed simp
qed simp

text \<open>What picking keeps: no message twice, and the characters stay within the limit.\<close>

definition picked_ok :: "int \<Rightarrow> (stored_source \<Rightarrow> bool) \<Rightarrow> picked \<Rightarrow> bool" where
  "picked_ok limit good p \<longleftrightarrow>
     distinct (map source_id (fst p)) \<and> sum_list (map source_size (fst p)) \<le> snd p
     \<and> snd p \<le> limit \<and> (\<forall>x \<in> set (fst p). good x)"

lemma source_size_nonneg [simp]: "0 \<le> source_size x"
  by (simp add: source_size_def)

lemma replace_sum:
  "distinct (map source_id ys) \<Longrightarrow>
    sum_list (map source_size (map (\<lambda>y. if source_id y = source_id x then x else y) ys))
    \<le> sum_list (map source_size ys) + source_size x"
proof (induction ys)
  case (Cons y ys)
  show ?case
  proof (cases "source_id y = source_id x")
    case True
    with Cons.prems have "map (\<lambda>y. if source_id y = source_id x then x else y) ys = ys"
      by (intro map_idI) (auto simp: image_iff)
    with True show ?thesis by (simp del: map_map)
  next
    case False
    with Cons show ?thesis by (simp del: map_map)
  qed
qed simp

lemma pick_fields:
  "fst (pick x p) =
    (if source_id x \<in> source_id ` set (fst p)
     then map (\<lambda>y. if source_id y = source_id x then x else y) (fst p) else fst p @ [x])"
  "snd (pick x p) = snd p + source_size x"
  by (simp_all add: pick_def split: prod.split)

lemma pick_ok:
  assumes "picked_ok limit good p" and "snd p + source_size x \<le> limit" and "good x"
  shows "picked_ok limit good (pick x p)"
    and "length (fst (pick x p)) \<le> Suc (length (fst p))"
    and "source_id ` set (fst (pick x p)) = insert (source_id x) (source_id ` set (fst p))"
proof -
  let ?r = "map (\<lambda>y. if source_id y = source_id x then x else y) (fst p)"
  have ids: "map source_id ?r = map source_id (fst p)" by simp
  have set: "source_id ` set ?r = source_id ` set (fst p)" using ids by (metis list.set_map)
  have d: "distinct (map source_id (fst p))" "sum_list (map source_size (fst p)) \<le> snd p"
      "\<forall>y \<in> set (fst p). good y"
    using assms(1) by (simp_all add: picked_ok_def)
  show "picked_ok limit good (pick x p)"
  proof (cases "source_id x \<in> source_id ` set (fst p)")
    case True
    have "distinct (map source_id ?r)" using ids d(1) by argo
    moreover have "sum_list (map source_size ?r) \<le> snd p + source_size x"
      using replace_sum [OF d(1), of x] d(2) by linarith
    moreover have "\<forall>y \<in> set ?r. good y" using d(3) assms(3) by auto
    ultimately show ?thesis using True assms(2) by (simp add: picked_ok_def pick_fields del: map_map)
  next
    case False
    with d assms show ?thesis by (auto simp: picked_ok_def pick_fields)
  qed
  show "length (fst (pick x p)) \<le> Suc (length (fst p))" by (simp add: pick_fields)
  show "source_id ` set (fst (pick x p)) = insert (source_id x) (source_id ` set (fst p))"
  proof (cases "source_id x \<in> source_id ` set (fst p)")
    case True
    with set show ?thesis by (simp only: pick_fields if_True insert_absorb)
  qed (simp add: pick_fields)
qed

text \<open>A step of picking: it keeps the bounds, adds at most one source and loses no message.\<close>

definition extends :: "int \<Rightarrow> (stored_source \<Rightarrow> bool) \<Rightarrow> nat \<Rightarrow> picked \<Rightarrow> picked \<Rightarrow> bool" where
  "extends limit good n p q \<longleftrightarrow>
     picked_ok limit good q \<and> length (fst q) \<le> length (fst p) + n
     \<and> source_id ` set (fst p) \<subseteq> source_id ` set (fst q)"

lemma extends_trans: "extends limit good m p q \<Longrightarrow> extends limit good n q r \<Longrightarrow> extends limit good (m + n) p r"
  by (auto simp: extends_def)

lemma extends_refl: "picked_ok limit good p \<Longrightarrow> extends limit good n p p"
  by (simp add: extends_def)

lemma pick_extends:
  assumes "picked_ok limit good p" and "snd p + source_size x \<le> limit" and "good x"
  shows "extends limit good (Suc 0) p (pick x p)"
  using pick_ok [OF assms] by (auto simp: extends_def)

lemma pick_anchors_ok:
  assumes "picked_ok limit good p" and "\<forall>x \<in> set xs. good x"
  shows "extends limit good (length xs) p (fst (pick_anchors limit xs p))"
  using assms
proof (induction xs arbitrary: p)
  case (Cons x xs)
  show ?case
  proof (cases "limit < snd p + source_size x")
    case False
    then have "extends limit good (Suc 0) p (pick x p)" using Cons.prems by (intro pick_extends) auto
    moreover from this have "extends limit good (length xs) (pick x p) (fst (pick_anchors limit xs (pick x p)))"
      using Cons.prems by (intro Cons.IH) (auto simp: extends_def)
    ultimately show ?thesis using False extends_trans by fastforce
  qed (simp add: extends_refl Cons.prems)
qed (simp add: extends_refl)

lemma pick_recent_ok:
  assumes "picked_ok limit good p" and "\<forall>x \<in> set xs. \<not> unusable x \<longrightarrow> good x"
  shows "extends limit good (length xs) p (fold (pick_recent limit) xs p)"
  using assms
proof (induction xs arbitrary: p)
  case (Cons x xs)
  have "extends limit good (Suc 0) p (pick_recent limit x p)"
    using Cons.prems by (auto simp: pick_recent_def not_less intro: extends_refl pick_extends)
  moreover from this have "extends limit good (length xs) (pick_recent limit x p)
      (fold (pick_recent limit) xs (pick_recent limit x p))"
    using Cons.prems by (intro Cons.IH) (auto simp: extends_def)
  ultimately show ?case using extends_trans by fastforce
qed (simp add: extends_refl)

lemma all_stored_InrD:
  "all_stored rs = Inr xs \<Longrightarrow> length xs = length rs \<and> (\<forall>x \<in> set xs. \<exists>r \<in> set rs. stored r = Inr x)"
  by (induction rs arbitrary: xs) (auto split: sum.splits)

lemma newest_rows_facts:
  "length (newest_rows k n d) \<le> nat n"
  "r \<in> set (newest_rows k n d) \<Longrightarrow> r \<in> set (room_sources d) \<and> so_scope_id r = k"
  by (auto simp: newest_rows_def tlimit_def rows_before_def room_rows_def dest: in_set_takeD)


text \<open>A selection's context is bounded and stays in its room: it has at most the target, its
  allowed ancestors and the allowed recent messages, no message twice, no more text than the limit;
  every message is one the room records, neither deleted nor unreadable; and the target is always
  among them, since the smallest limit holds the longest message.\<close>

theorem focus_bounded:
  assumes "room_ok h d" and "collision_free h"
    and "focus h s target recent_limit ancestor_limit char_limit d = Inr c"
  shows "length (fc_sources c) \<le> 1 + nat ancestor_limit + nat recent_limit
    \<and> nat ancestor_limit \<le> 8 \<and> nat recent_limit \<le> 20
    \<and> distinct (message_ids c) \<and> target \<in> set (message_ids c)
    \<and> sum_list (map source_size (fc_sources c)) \<le> char_limit
    \<and> (\<forall>x \<in> set (fc_sources c). from_room h s d x)"
proof -
  have budget: "0 \<le> recent_limit" "recent_limit \<le> 20" "0 \<le> ancestor_limit" "ancestor_limit \<le> 8"
      "10000 \<le> char_limit"
    using assms(3) by (auto simp: focus_def valid_budget_def split: if_splits)
  obtain room current parents absent rows where f: "focus_target h s target d = Inr (room, current)"
      "ancestors h s d (nat ancestor_limit) [target] current = Inr (parents, absent)"
      "all_stored (newest_rows (ro_id room) recent_limit d) = Inr rows"
      and src: "fc_sources c = sort_key focus_order (fst (fold (pick_recent char_limit) rows
        (fst (pick_anchors char_limit (current # parents) ([], 0)))))"
    using assms(3) by (auto simp: focus_def Let_def split: if_splits sum.splits prod.splits)
  note t = focus_target_InrD [OF assms(1,2) f(1)]
  note a = ancestors_InrD [OF assms(1,2) f(2)]
  define p1 where "p1 = pick current ([], 0)"
  define p2 where "p2 = fst (pick_anchors char_limit (current # parents) ([], 0))"
  define p3 where "p3 = fold (pick_recent char_limit) rows p2"
  have fits: "\<not> char_limit < snd ([], 0) + source_size current" using t budget by simp
  then have p2: "p2 = fst (pick_anchors char_limit parents p1)" by (simp add: p2_def p1_def)
  have e1: "extends char_limit (from_room h s d) (Suc 0) ([], 0) p1"
    unfolding p1_def using t fits budget by (intro pick_extends) (auto simp: picked_ok_def)
  then have e2: "extends char_limit (from_room h s d) (length parents) p1 p2"
    unfolding p2 using a by (intro pick_anchors_ok) (auto simp: extends_def)
  have "from_room h s d x" if "x \<in> set rows" "\<not> unusable x" for x
    using all_stored_InrD [OF f(3)] that newest_rows_facts(2) t unfolding from_room_def by metis
  with e2 have e3: "extends char_limit (from_room h s d) (length rows) p2 p3"
    unfolding p3_def by (intro pick_recent_ok) (auto simp: extends_def)
  have "length rows \<le> nat recent_limit"
    using all_stored_InrD [OF f(3)] newest_rows_facts(1) by metis
  moreover have e: "extends char_limit (from_room h s d) (Suc (length parents + length rows)) ([], 0) p3"
    using extends_trans [OF extends_trans [OF e1 e2] e3] by simp
  moreover have "source_id ` set (fst p1) \<subseteq> source_id ` set (fst p3)" using e2 e3 by (auto simp: extends_def)
  then have "target \<in> source_id ` set (fst p3)" using t by (simp add: p1_def pick_fields)
  moreover have s: "fc_sources c = sort_key focus_order (fst p3)" by (simp add: src p3_def p2_def)
  moreover have ids: "message_ids c = map source_id (fc_sources c)"
    by (simp add: message_ids_def source_id_def comp_def)
  moreover have "distinct (map source_id (sort_key focus_order (fst p3)))"
    using e by (simp add: extends_def picked_ok_def distinct_map)
  moreover have "sum_list (map source_size (sort_key focus_order (fst p3))) = sum_list (map source_size (fst p3))"
    by (metis mset_map mset_sort sum_mset_sum_list)
  ultimately show ?thesis using a budget by (auto simp: extends_def picked_ok_def)
qed

theorem focus_bounded_witness:
  "\<exists>c. focus demo_room_digests demo_scope ''m1'' 12 8 10000 demo_room_db = Inr c
     \<and> message_ids c = [''m1'', ''m2''] \<and> sum_list (map source_size (fc_sources c)) \<le> 10000"
proof -
  have "map_sum id message_ids (focus demo_room_digests demo_scope ''m1'' 12 8 10000 demo_room_db)
      = Inr [''m1'', ''m2'']" by code_simp
  then obtain c where c: "focus demo_room_digests demo_scope ''m1'' 12 8 10000 demo_room_db = Inr c"
      "message_ids c = [''m1'', ''m2'']"
    by (cases "focus demo_room_digests demo_scope ''m1'' 12 8 10000 demo_room_db") auto
  with focus_bounded [OF demo_room_ok demo_collision_free c(1)] show ?thesis by blast
qed


section \<open>Once\<close>

text \<open>A reservation of one routing key.\<close>

fun reserves :: "room_digests \<Rightarrow> string \<Rightarrow> time \<times> room_command \<Rightarrow> 'a room_db_scheme \<Rightarrow> bool" where
  "reserves h k (now, ReserveRoute l s request input requester optional) d \<longleftrightarrow>
     route_key h s request = k \<and>
     (case fst (reserve_route h now l s request input requester optional d) of
        Inr (Reserved _) \<Rightarrow> True | _ \<Rightarrow> False)"
| "reserves h k _ d \<longleftrightarrow> False"

lemma reserves_cases:
  assumes "reserves h k x d"
  obtains now l s request input requester optional where
    "x = (now, ReserveRoute l s request input requester optional)" and "k = route_key h s request"
    and "tget rt_id (room_routes d) k = None"
    and "room_routes (run_room h x d) = tins (new_route h now s request input requester optional) (room_routes d)"
    and "optional \<Longrightarrow> \<not> cooling l now (scope_key h s) d \<and> window_count l now (scope_key h s) d < rl_max_attempts l"
proof -
  obtain now l s request input requester optional where x: "x = (now, ReserveRoute l s request input requester optional)"
      and k: "k = route_key h s request"
      and r: "case fst (reserve_route h now l s request input requester optional d) of
        Inr (Reserved _) \<Rightarrow> True | _ \<Rightarrow> False"
    using assms by (cases "(h, k, x, d)" rule: reserves.cases) auto
  have id: "ro_id (fst (with_room h now s d)) = scope_key h s"
    by (cases rule: with_room_cases [of d h s now]) (auto simp: new_room_def dest: tget_key)
  show thesis
  proof (cases rule: reserve_route_cases [of h now l s request input requester optional d])
    case (refused res)
    with r show thesis by (auto split: sum.splits reservation.splits)
  next
    case reserved
    with x k id show thesis by (intro that [of now l s request input requester optional]) simp_all
  qed
qed

lemma run_room_routes:
  "tget rt_id (room_routes d) k \<noteq> None \<Longrightarrow> tget rt_id (room_routes (run_room h x d)) k \<noteq> None"
proof -
  assume old: "tget rt_id (room_routes d) k \<noteq> None"
  obtain now c where x: "x = (now, c)" by fastforce
  show ?thesis
  proof (cases c)
    case (Observe s ms)
    have frames: "room_routes d' = room_routes d"
      if "observe_messages h now s ms (snd (with_room h now s d)) = Inr d'" for d'
      by (rule observe_messages_induct [OF that, of "\<lambda>e. room_routes e = room_routes d"])
        (auto elim!: observe_message_cases simp: put_source_def)
    show ?thesis using x Observe old frames
      by (cases rule: observe_cases [of h now s ms d]) simp_all
  next
    case (ReserveRoute l s request input requester optional)
    with x old show ?thesis
      by (cases rule: reserve_route_cases [of h now l s request input requester optional d])
        (auto simp: tget_tins)
  next
    case (CreateNote uid q)
    with x old show ?thesis by (cases rule: create_note_cases [of h now uid q d]) simp_all
  next
    case (ChangeNote y)
    with x old show ?thesis by (cases rule: change_note_cases [of h now y d]) simp_all
  qed (use x old in \<open>auto simp: set_access_def select_speaker_def finish_route_def delete_card_notes_def
      Let_def tget_tset split: prod.split sum.split option.split\<close>,
      (metis snd_conv with_room_frames(3))+)
qed

interpretation routing: at_most_once "run_room h" "reserves h k"
    "\<lambda>d. tget rt_id (room_routes d) k = None" "\<lambda>_. False" "\<lambda>_. True" for h k
proof unfold_locales
  fix x and d :: "'a room_db_scheme"
  assume "reserves h k x d"
  then show "tget rt_id (room_routes d) k = None" "tget rt_id (room_routes (run_room h x d)) k \<noteq> None"
    by (auto elim!: reserves_cases simp: tget_tins new_route_def split: option.split)
next
  fix x and d :: "'a room_db_scheme"
  assume "tget rt_id (room_routes d) k \<noteq> None"
  then show "tget rt_id (room_routes (run_room h x d)) k \<noteq> None" by (rule run_room_routes)
qed simp_all

text \<open>One routing decision is paid for per event: over any run, a request identifier reserves
  at most one. And an optional reservation keeps the room's rate: it is granted only when no optional
  decision of the room is younger than the cooldown, and never brings the decisions of the sliding
  window above the maximum.\<close>

theorem routing_reserved_once:
  "grant_count (run_room h) (reserves h k) xs d \<le> 1
   \<and> (reserve_route h now l s request input requester True d = (Inr (Reserved r), d')
      \<and> 0 \<le> rl_window_seconds l \<longrightarrow>
      (\<forall>x \<in> set (optional_routes (scope_key h s) d). rt_created_at x + seconds (rl_cooldown_seconds l) \<le> now)
      \<and> window_count l now (scope_key h s) d' \<le> rl_max_attempts l)"
proof (intro conjI impI)
  show "grant_count (run_room h) (reserves h k) xs d \<le> 1" by (rule routing.at_most_one) simp_all
next
  assume "reserve_route h now l s request input requester True d = (Inr (Reserved r), d') \<and> 0 \<le> rl_window_seconds l"
  then have run: "reserve_route h now l s request input requester True d = (Inr (Reserved r), d')"
      and w: "0 \<le> rl_window_seconds l" by blast+
  have id: "ro_id (fst (with_room h now s d)) = scope_key h s"
    by (cases rule: with_room_cases [of d h s now]) (auto simp: new_room_def dest: tget_key)
  have "\<not> cooling l now (scope_key h s) d \<and> window_count l now (scope_key h s) d < rl_max_attempts l
    \<and> room_routes d' = tins (new_route h now s request input requester True) (room_routes d)"
  proof (cases rule: reserve_route_cases [of h now l s request input requester True d])
    case (refused res)
    with run show ?thesis by simp
  next
    case reserved
    from reserved(4) run have "d' = (snd (with_room h now s d))
        \<lparr>room_routes := tins (new_route h now s request input requester True) (room_routes d)\<rparr>" by simp
    with reserved(3) id show ?thesis by simp
  qed
  then have free: "\<not> cooling l now (scope_key h s) d" "window_count l now (scope_key h s) d < rl_max_attempts l"
      and routes: "room_routes d' = tins (new_route h now s request input requester True) (room_routes d)"
    by blast+
  show "window_count l now (scope_key h s) d' \<le> rl_max_attempts l"
    using free(2) w routes
    by (simp add: window_count_def optional_routes_def tins_def tcount_def new_route_def)
  show "\<forall>x \<in> set (optional_routes (scope_key h s) d). rt_created_at x + seconds (rl_cooldown_seconds l) \<le> now"
  proof
    fix x assume x: "x \<in> set (optional_routes (scope_key h s) d)"
    let ?s = "sort_key rt_created_at (optional_routes (scope_key h s) d)"
    have "?s \<noteq> []" using x by (metis empty_iff list.set(1) set_sort)
    then obtain newest older where n: "rev ?s = newest # older" by (cases "rev ?s") auto
    have "sorted (map rt_created_at ?s)" by simp
    moreover have s: "?s = rev older @ [newest]" using n by (metis rev.simps(2) rev_rev_ident)
    moreover have "x \<in> set (rev older @ [newest])" using x s by (metis set_sort)
    ultimately have "rt_created_at x \<le> rt_created_at newest"
      by (auto simp: sorted_append)
    with free(1) n show "rt_created_at x + seconds (rl_cooldown_seconds l) \<le> now"
      by (simp add: cooling_def)
  qed
qed

definition demo_limits :: route_limits where
  "demo_limits = \<lparr>rl_cooldown_seconds = 15, rl_window_seconds = 600, rl_max_attempts = 12\<rparr>"

theorem routing_reserved_once_witness:
  "grant_count (run_room demo_room_digests) (reserves demo_room_digests (route_key demo_room_digests demo_scope ''e''))
     (replicate 2 (5, ReserveRoute demo_limits demo_scope ''e'' ''i'' ''u1'' True)) demo_room_db = 1
   \<and> (\<exists>r d'. reserve_route demo_room_digests 5 demo_limits demo_scope ''e'' ''i'' ''u1'' True demo_room_db
        = (Inr (Reserved r), d')
      \<and> window_count demo_limits 5 (scope_key demo_room_digests demo_scope) d' \<le> rl_max_attempts demo_limits)"
proof
  show "grant_count (run_room demo_room_digests) (reserves demo_room_digests (route_key demo_room_digests demo_scope ''e''))
     (replicate 2 (5, ReserveRoute demo_limits demo_scope ''e'' ''i'' ''u1'' True)) demo_room_db = 1"
    by code_simp
  have "reserves demo_room_digests (route_key demo_room_digests demo_scope ''e'')
      (5, ReserveRoute demo_limits demo_scope ''e'' ''i'' ''u1'' True) demo_room_db" by code_simp
  then obtain r d' where r: "reserve_route demo_room_digests 5 demo_limits demo_scope ''e'' ''i'' ''u1'' True demo_room_db
      = (Inr (Reserved r), d')"
    by (cases "reserve_route demo_room_digests 5 demo_limits demo_scope ''e'' ''i'' ''u1'' True demo_room_db")
      (auto split: sum.splits reservation.splits)
  moreover have "0 \<le> rl_window_seconds demo_limits" by (simp add: demo_limits_def)
  ultimately show "\<exists>r d'. reserve_route demo_room_digests 5 demo_limits demo_scope ''e'' ''i'' ''u1'' True demo_room_db
        = (Inr (Reserved r), d')
      \<and> window_count demo_limits 5 (scope_key demo_room_digests demo_scope) d' \<le> rl_max_attempts demo_limits"
    using routing_reserved_once [where h = demo_room_digests and l = demo_limits and s = demo_scope
        and d = demo_room_db and r = r and d' = d' and now = 5 and request = "''e''" and input = "''i''"
        and requester = "''u1''"] by blast
qed

text \<open>A command that stores a new note under the identity \<open>k\<close>, and one that changes its version \<open>v\<close>.\<close>

fun stores_note :: "room_digests \<Rightarrow> string \<Rightarrow> time \<times> room_command \<Rightarrow> 'a room_db_scheme \<Rightarrow> bool" where
  "stores_note h k (now, CreateNote uid q) d \<longleftrightarrow>
     note_identity h uid q = k \<and> get_note d k = None
     \<and> (case fst (create_note h now uid q d) of Inr _ \<Rightarrow> True | Inl _ \<Rightarrow> False)"
| "stores_note h k _ d \<longleftrightarrow> False"

fun changes_version ::
  "room_digests \<Rightarrow> string \<Rightarrow> int \<Rightarrow> time \<times> room_command \<Rightarrow> 'a room_db_scheme \<Rightarrow> bool" where
  "changes_version h k v (now, ChangeNote c) d \<longleftrightarrow>
     nc_note_id c = k \<and> nc_expected_version c = v
     \<and> (case fst (change_note h now c d) of Inr _ \<Rightarrow> True | Inl _ \<Rightarrow> False)"
| "changes_version h k v _ d \<longleftrightarrow> False"

fun clears_card :: "time \<times> room_command \<Rightarrow> bool" where
  "clears_card (now, DeleteCardNotes owner cid) \<longleftrightarrow> True"
| "clears_card _ \<longleftrightarrow> False"

text \<open>Every note has its receipt; receipts only go when the notes of a card are deleted.\<close>

definition receipt_kept :: "'a room_db_scheme \<Rightarrow> string \<Rightarrow> bool" where
  "receipt_kept d k \<longleftrightarrow> tget nr_id (note_receipts d) k \<noteq> None"

definition notes_ok :: "room_digests \<Rightarrow> 'a room_db_scheme \<Rightarrow> bool" where
  "notes_ok h d \<longleftrightarrow>
     room_ok h d \<and> collision_free h
     \<and> (\<forall>n \<in> set (character_notes d). receipt_kept d (cn_id n)
          \<and> (\<forall>r \<in> set (note_receipts d). nr_id r = cn_id n \<longrightarrow>
               nr_owner_id r = cn_owner_id n \<and> nr_card_id r = cn_card_id n))"

text \<open>How a command acts on the notes and receipts.\<close>

definition notes_step :: "'a room_db_scheme \<Rightarrow> 'a room_db_scheme \<Rightarrow> bool" where
  "notes_step d d' \<longleftrightarrow>
     note_receipts d' = note_receipts d \<and> set (character_notes d') \<subseteq> set (character_notes d)"

lemma notes_step_refl [simp]: "notes_step d d"
  by (simp add: notes_step_def)

lemma observe_notes_step: "notes_step d (snd (observe h now s ms d))"
proof (cases rule: observe_cases [of h now s ms d])
  case (recorded d')
  have "notes_step d d'"
    by (rule observe_messages_induct [OF recorded(1), of "notes_step d"])
      (auto elim!: observe_message_cases simp: notes_step_def put_source_def)
  with recorded(2) show ?thesis by (simp add: notes_step_def)
qed simp

lemma other_notes_step:
  assumes "\<not> clears_card x" and "\<And>uid q. snd x \<noteq> CreateNote uid q" and "\<And>c. snd x \<noteq> ChangeNote c"
  shows "notes_step d (run_room h x d)"
proof -
  obtain now c where x: "x = (now, c)" by fastforce
  show ?thesis
  proof (cases c)
    case (Observe s ms)
    with x show ?thesis by (simp add: observe_notes_step)
  next
    case (ReserveRoute l s request input requester optional)
    with x show ?thesis
      by (cases rule: reserve_route_cases [of h now l s request input requester optional d])
        (simp_all add: notes_step_def)
  next
    case (SetAccess s readable at)
    with x show ?thesis
      by (simp add: set_access_def Let_def notes_step_def prod.case_eq_if)
  qed (use x assms in \<open>auto simp: select_speaker_def finish_route_def notes_step_def Let_def
      split: sum.split option.split\<close>)
qed

lemma notes_step_ok:
  assumes "notes_step d d'" and "notes_ok h d" and "room_ok h d'"
  shows "notes_ok h d'"
  using assms by (auto simp: notes_step_def notes_ok_def receipt_kept_def)


text \<open>A command that stores a note, and one that changes or forgets a version.\<close>

lemma create_notes_ok:
  assumes "notes_ok h d"
  shows "notes_ok h (snd (create_note h now uid q d))"
proof (cases rule: create_note_cases [of h now uid q d])
  case (fresh hash v)
  have "room_ok h (snd (create_note h now uid q d))" using assms by (simp add: notes_ok_def create_note_ok)
  moreover have "cn_id n \<noteq> note_identity h uid q" if "n \<in> set (character_notes d)" for n
    using fresh(4) that by (metis tget_None_iff image_eqI)
  moreover have "nr_id r \<noteq> note_identity h uid q" if "r \<in> set (note_receipts d)" for r
    using fresh(5) that by (metis tget_None_iff image_eqI)
  ultimately show ?thesis
    using assms fresh(4,5,8) by (auto simp: notes_ok_def receipt_kept_def tget_tins tget_None_iff split: option.splits)
qed (use assms in simp)

lemma change_notes_ok:
  assumes "notes_ok h d"
  shows "notes_ok h (snd (change_note h now c d))"
proof -
  have "room_ok h (snd (change_note h now c d))" using assms by (simp add: notes_ok_def change_note_ok)
  then show ?thesis
    by (cases rule: change_note_cases [of h now c d])
      (use assms in \<open>auto simp: notes_ok_def receipt_kept_def set_tset\<close>)
qed

lemma delete_notes_ok:
  assumes "notes_ok h d"
  shows "notes_ok h (snd (delete_card_notes owner cid d))"
proof -
  have "room_ok h (snd (delete_card_notes owner cid d))"
    using assms by (auto simp: notes_ok_def delete_card_notes_def room_ok_def keyed_tdel)
  moreover have "cn_id n \<in> nr_id ` {r \<in> set (note_receipts d). nr_owner_id r = owner \<longrightarrow> nr_card_id r \<noteq> cid}"
    if "n \<in> set (character_notes d)" "\<not> card_notes owner cid n" for n
  proof -
    have "cn_id n \<in> nr_id ` set (note_receipts d)"
      using assms that(1) by (auto simp: notes_ok_def receipt_kept_def tget_None_iff)
    then obtain r where "r \<in> set (note_receipts d)" "nr_id r = cn_id n" by auto
    moreover from this assms that have "\<not> (nr_owner_id r = owner \<and> nr_card_id r = cid)"
      by (auto simp: notes_ok_def card_notes_def)
    ultimately show ?thesis by force
  qed
  ultimately show ?thesis
    using assms by (auto simp: notes_ok_def delete_card_notes_def receipt_kept_def tget_None_iff)
qed

lemma run_notes_ok: "notes_ok h d \<Longrightarrow> notes_ok h (run_room h x d)"
proof -
  assume ok: "notes_ok h d"
  then have room: "room_ok h (run_room h x d)" by (simp add: notes_ok_def run_room_ok)
  obtain now c where x: "x = (now, c)" by fastforce
  show ?thesis
  proof (cases "clears_card x \<or> (\<exists>uid q. c = CreateNote uid q) \<or> (\<exists>y. c = ChangeNote y)")
    case True
    with x ok show ?thesis
      by (cases c) (auto simp: create_notes_ok change_notes_ok delete_notes_ok)
  next
    case False
    with x ok room show ?thesis by (intro notes_step_ok [OF other_notes_step]) auto
  qed
qed

text \<open>Without deleting a card's notes, a receipt stays, and a note's version only grows.\<close>

lemma receipt_step:
  assumes "\<not> clears_card x" and "receipt_kept d k"
  shows "receipt_kept (run_room h x d) k"
proof -
  obtain now c where x: "x = (now, c)" by fastforce
  show ?thesis
  proof (cases "(\<exists>uid q. c = CreateNote uid q) \<or> (\<exists>y. c = ChangeNote y)")
    case True
    then show ?thesis
    proof
      assume "\<exists>uid q. c = CreateNote uid q"
      then obtain uid q where "c = CreateNote uid q" by blast
      with x assms(2) show ?thesis
        by (cases rule: create_note_cases [of h now uid q d])
          (auto simp: receipt_kept_def tget_tins)
    next
      assume "\<exists>y. c = ChangeNote y"
      then obtain y where "c = ChangeNote y" by blast
      with x assms(2) show ?thesis
        by (cases rule: change_note_cases [of h now y d]) (simp_all add: receipt_kept_def)
    qed
  next
    case False
    with x assms(1) have "notes_step d (run_room h x d)" by (intro other_notes_step) auto
    with assms(2) show ?thesis by (simp add: receipt_kept_def notes_step_def)
  qed
qed

interpretation note_creation: at_most_once "run_room h" "stores_note h k"
    "\<lambda>d. \<not> receipt_kept d k" clears_card "\<lambda>_. True" for h k
proof unfold_locales
  fix x and d :: "'a room_db_scheme"
  assume "stores_note h k x d"
  then obtain now uid q where x: "x = (now, CreateNote uid q)" "note_identity h uid q = k" "get_note d k = None"
      "\<exists>v. fst (create_note h now uid q d) = Inr v"
    by (cases "(h, k, x, d)" rule: stores_note.cases) (auto split: sum.splits)
  then show "\<not> receipt_kept d k" "\<not> \<not> receipt_kept (run_room h x d) k"
    by (cases rule: create_note_cases [of h now uid q d]; auto simp: receipt_kept_def tget_tins split: option.split)+
next
  fix x and d :: "'a room_db_scheme"
  assume "\<not> \<not> receipt_kept d k" and "\<not> clears_card x"
  then show "\<not> \<not> receipt_kept (run_room h x d) k" by (simp add: receipt_step)
next
  fix x and d :: "'a room_db_scheme"
  assume "clears_card x"
  then show "\<not> stores_note h k x d" by (cases x rule: clears_card.cases) auto
qed simp


definition version_passed :: "'a room_db_scheme \<Rightarrow> string \<Rightarrow> int \<Rightarrow> bool" where
  "version_passed d k v \<longleftrightarrow>
     receipt_kept d k \<and> (case get_note d k of None \<Rightarrow> True | Some n \<Rightarrow> v < cn_version n)"

lemma get_note_mem: "notes_ok h d \<Longrightarrow> n \<in> set (character_notes d) \<Longrightarrow> get_note d (cn_id n) = Some n"
  by (simp add: notes_ok_def room_ok_def tget_self)

lemma change_version:
  assumes ok: "notes_ok h d" and "fst (change_note h now c d) = Inr res"
  shows "version_passed (snd (change_note h now c d)) (nc_note_id c) (nc_expected_version c)
    \<and> \<not> version_passed d (nc_note_id c) (nc_expected_version c)"
proof -
  have keyed: "keyed cn_id (character_notes d)" using ok by (simp add: notes_ok_def room_ok_def)
  have kept: "receipt_kept d (nc_note_id c)" if "change_checked h c d = Inr n" for n
    using change_checked_InrD [OF that] ok by (auto simp: notes_ok_def dest!: tget_SomeD)
  show ?thesis
  proof (cases rule: change_note_cases [of h now c d])
    case (refused e)
    with assms(2) show ?thesis by simp
  next
    case (forgotten n)
    note n = change_checked_InrD [OF forgotten(1)]
    then have "matched_note c n" by (auto simp: matched_note_def dest: tget_key)
    with n kept [OF forgotten(1)] forgotten(3) show ?thesis
      by (simp add: version_passed_def receipt_kept_def tget_tdel [OF keyed])
  next
    case (edited n p a v)
    note n = change_checked_InrD [OF edited(1)]
    then have "matched_note c n" by (auto simp: matched_note_def dest: tget_key)
    with n kept [OF edited(1)] edited(5) show ?thesis
      by (simp add: version_passed_def receipt_kept_def tget_tset)
  qed
qed

lemma version_step:
  assumes ok: "notes_ok h d" and "version_passed d k v" and keep: "\<not> clears_card x"
  shows "version_passed (run_room h x d) k v"
proof -
  obtain now c where x: "x = (now, c)" by fastforce
  have keyed: "keyed cn_id (character_notes d)" using ok by (simp add: notes_ok_def room_ok_def)
  have r: "receipt_kept (run_room h x d) k"
    by (rule receipt_step [OF keep]) (use assms(2) in \<open>simp add: version_passed_def\<close>)
  have "v < cn_version n" if n: "get_note (run_room h x d) k = Some n" for n
  proof -
    have old: "v < cn_version m" if "m \<in> set (character_notes d)" "cn_id m = k" for m
      using assms(2) get_note_mem [OF ok that(1)] that(2) by (simp add: version_passed_def)
    have mem: "n \<in> set (character_notes (run_room h x d))" "cn_id n = k" using n by (blast dest: tget_SomeD)+
    show ?thesis
    proof (cases "(\<exists>uid q. c = CreateNote uid q) \<or> (\<exists>y. c = ChangeNote y)")
      case True
      then show ?thesis
      proof (elim disjE exE)
        fix uid q assume c: "c = CreateNote uid q"
        show ?thesis
        proof (cases rule: create_note_cases [of h now uid q d])
          case (same res)
          with x c mem old show ?thesis by simp
        next
          case (fresh hash v')
          have "note_identity h uid q \<noteq> k"
            using fresh(5) assms(2) by (auto simp: version_passed_def receipt_kept_def)
          with fresh(8) x c mem old show ?thesis by auto
        qed
      next
        fix y assume c: "c = ChangeNote y"
        show ?thesis
        proof (cases rule: change_note_cases [of h now y d])
          case (refused e)
          with x c mem old show ?thesis by simp
        next
          case (forgotten m)
          with x c mem old show ?thesis by auto
        next
          case (edited m p a v')
          with x c mem(1) obtain z where z: "z \<in> set (character_notes d)"
              "n = (if matched_note y z then edited_note now y p a z else z)" by (auto simp: set_tset)
          then have "v < cn_version z" using old mem(2) by (auto split: if_splits)
          with z show ?thesis by (auto simp: matched_note_def)
        qed
      qed
    next
      case False
      with x keep have "notes_step d (run_room h x d)" by (intro other_notes_step) auto
      with mem old show ?thesis by (auto simp: notes_step_def)
    qed
  qed
  with r show ?thesis by (simp add: version_passed_def split: option.split)
qed

interpretation note_versions: at_most_once "run_room h" "changes_version h k v"
    "\<lambda>d. \<not> version_passed d k v" clears_card "notes_ok h" for h k v
proof unfold_locales
  fix x and d :: "'a room_db_scheme"
  assume ok: "notes_ok h d" and "changes_version h k v x d"
  then obtain now c res where "x = (now, ChangeNote c)" "nc_note_id c = k" "nc_expected_version c = v"
      "fst (change_note h now c d) = Inr res"
    by (cases "(h, k, v, x, d)" rule: changes_version.cases) (auto split: sum.splits)
  with change_version [OF ok, of now c res]
  show "\<not> version_passed d k v" "\<not> \<not> version_passed (run_room h x d) k v" by auto
next
  fix x and d :: "'a room_db_scheme"
  assume "clears_card x"
  then show "\<not> changes_version h k v x d" by (cases x rule: clears_card.cases) auto
next
  fix x and d :: "'a room_db_scheme"
  assume "notes_ok h d" and "\<not> \<not> version_passed d k v" and "\<not> clears_card x"
  then show "\<not> \<not> version_passed (run_room h x d) k v" by (simp add: version_step)
qed (simp add: run_notes_ok)

text \<open>Forgetting is final for the request that wrote the note: over any run in which the notes
  of a card are not wiped, the same owner, card, room, member and request identifier store a note at
  most once. A retry finds the stored note, and after it was forgotten it is refused.\<close>

theorem note_written_once:
  "\<forall>x \<in> set xs. \<not> clears_card x \<Longrightarrow> grant_count (run_room h) (stores_note h k) xs d \<le> 1"
  using note_creation.at_most_one by blast

definition demo_forget :: note_change where
  "demo_forget =
     \<lparr>nc_owner_id = ''o'', nc_card_id = ''card'',
      nc_note_id = note_identity demo_room_digests ''u'' demo_note_request, nc_expected_version = 1,
      nc_payload = None, nc_operator = False, nc_actor_id = ''u1'', nc_scope = Some demo_scope,
      nc_source_message_id = []\<rparr>"

definition demo_note_run :: "(time \<times> room_command) list" where
  "demo_note_run =
     [(2, CreateNote ''u'' demo_note_request), (3, CreateNote ''v'' demo_note_request),
      (4, ChangeNote demo_forget), (5, ChangeNote demo_forget), (6, CreateNote ''w'' demo_note_request)]"

definition demo_observed :: room_db where
  "demo_observed = run_room demo_room_digests (1, Observe demo_scope [demo_source ''m1'' [4, 5, 6] 1]) empty_room_db"

theorem note_written_once_witness:
  "grant_count (run_room demo_room_digests)
     (stores_note demo_room_digests (note_identity demo_room_digests ''u'' demo_note_request))
     demo_note_run demo_observed = 1
   \<and> character_notes (run_ops (run_room demo_room_digests) demo_note_run demo_observed) = []"
proof
  have "\<forall>x \<in> set demo_note_run. \<not> clears_card x" by (simp add: demo_note_run_def)
  then have "grant_count (run_room demo_room_digests)
     (stores_note demo_room_digests (note_identity demo_room_digests ''u'' demo_note_request))
     demo_note_run demo_observed \<le> 1" by (rule note_written_once)
  moreover have "0 < grant_count (run_room demo_room_digests)
     (stores_note demo_room_digests (note_identity demo_room_digests ''u'' demo_note_request))
     demo_note_run demo_observed" by code_simp
  ultimately show "grant_count (run_room demo_room_digests)
     (stores_note demo_room_digests (note_identity demo_room_digests ''u'' demo_note_request))
     demo_note_run demo_observed = 1" by simp
  show "character_notes (run_ops (run_room demo_room_digests) demo_note_run demo_observed) = []"
    by code_simp
qed

text \<open>Concurrent edits do not overwrite each other: of all the commands of a run that change or
  forget one note at the version they read, at most one succeeds.\<close>

theorem version_changed_once:
  "notes_ok h d \<Longrightarrow> \<forall>x \<in> set xs. \<not> clears_card x \<Longrightarrow>
    grant_count (run_room h) (changes_version h k v) xs d \<le> 1"
  by (rule note_versions.at_most_one)

lemma demo_observed_ok: "notes_ok demo_room_digests demo_observed"
proof -
  have "notes_ok demo_room_digests empty_room_db"
    by (simp add: notes_ok_def empty_room_ok demo_collision_free) (simp add: empty_room_db_def)
  then show ?thesis unfolding demo_observed_def by (rule run_notes_ok)
qed

theorem version_changed_once_witness:
  "grant_count (run_room demo_room_digests)
     (changes_version demo_room_digests (note_identity demo_room_digests ''u'' demo_note_request) 1)
     demo_note_run demo_observed = 1"
proof -
  have "\<forall>x \<in> set demo_note_run. \<not> clears_card x" by (simp add: demo_note_run_def)
  from version_changed_once [OF demo_observed_ok this]
  have "grant_count (run_room demo_room_digests)
     (changes_version demo_room_digests (note_identity demo_room_digests ''u'' demo_note_request) 1)
     demo_note_run demo_observed \<le> 1" .
  moreover have "0 < grant_count (run_room demo_room_digests)
     (changes_version demo_room_digests (note_identity demo_room_digests ''u'' demo_note_request) 1)
     demo_note_run demo_observed" by code_simp
  ultimately show ?thesis by simp
qed


end
