(* ===== verification/Room_Director.thy ===== *)
theory Room_Director
  imports Complex_Main Room_Routing Json
begin

text \<open>
  The model-backed half of routing: the input that a Room Director sees and the validation of its
  decision (\<open>room_director.py\<close>), the evidence that qualifies a model for it
  (\<open>room_director_policy.py\<close>), and the bounded walk over the qualified routes
  (\<open>RoomDirectorPool.decide\<close> of \<open>room_director_pool.py\<close>).

  The provider's answer, the clock and the list of free routes are arguments. A text that a model
  returns is its length and what it decodes to. A float is its exact rational value.
\<close>

section \<open>The input of a Director\<close>

record director_message =
  dm_id :: string
  dm_author_id :: string
  dm_author_kind :: author_kind
  dm_author_deployment_id :: "string option"
  dm_text :: prose
  dm_content_available :: bool
  dm_reply_to :: "string option"
  dm_response_to :: "string option"
  dm_response_complete :: "bool option"
  dm_unseen_media :: bool
  dm_version :: int

record director_payload =
  dp_trigger_message_id :: string
  dp_roles :: "(string \<times> prose \<times> prose) list"
  dp_messages :: "director_message list"

record director_input =
  di_snapshot_id :: string
  di_revision :: int
  di_scope :: room_scope
  di_messages :: "room_message list"
  di_roles :: "public_role list"
  di_payload :: director_payload
  di_fingerprint :: string

text \<open>The identifiers selected for the input: the newest, with the trigger for the oldest of them.\<close>

definition newest :: "nat \<Rightarrow> 'a list \<Rightarrow> 'a list" where
  "newest n xs = drop (length xs - n) xs"

definition selected_ids :: "nat \<Rightarrow> string \<Rightarrow> room_message list \<Rightarrow> string list" where
  "selected_ids n trigger ms =
     (let selected = map rm_id (newest n ms) in
      if trigger \<in> set selected then selected
      else trigger # filter (\<lambda>k. k \<noteq> rm_id (hd (newest n ms))) selected)"

definition kept_reference :: "string list \<Rightarrow> string option \<Rightarrow> string option" where
  "kept_reference selected x = (case x of None \<Rightarrow> None | Some k \<Rightarrow> if k \<in> set selected then Some k else None)"

definition director_message_of :: "string list \<Rightarrow> room_message \<Rightarrow> director_message" where
  "director_message_of selected m =
     \<lparr>dm_id = rm_id m, dm_author_id = rm_author_id m, dm_author_kind = rm_author_kind m,
      dm_author_deployment_id = rm_author_deployment_id m,
      dm_text = (if rm_content_available m then rm_text m else []),
      dm_content_available = rm_content_available m,
      dm_reply_to = kept_reference selected (rm_reply_to m),
      dm_response_to = kept_reference selected (rm_response_to m),
      dm_response_complete = rm_response_complete m, dm_unseen_media = rm_unseen_media m,
      dm_version = rm_version m\<rparr>"

text \<open>
  \<open>chars\<close> is the length of the payload's JSON text and \<open>digest\<close> the fingerprint of the prompt
  version, the snapshot, the room and that text.
\<close>

definition build_director_input ::
  "(director_payload \<Rightarrow> int) \<Rightarrow> (string \<Rightarrow> int \<Rightarrow> room_scope \<Rightarrow> director_payload \<Rightarrow> string)
    \<Rightarrow> routing_snapshot \<Rightarrow> int \<Rightarrow> int \<Rightarrow> error + director_input" where
  "build_director_input chars digest s max_messages max_input_chars =
     (if ru_kind (route_rules s) \<noteq> Director
      then Inl (ValueError ''Director input is only built after ambiguous-turn eligibility.'')
      else if \<not> (1 \<le> max_messages \<and> max_messages \<le> 64) \<or> max_input_chars < 1
      then Inl (ValueError ''Invalid Director input budget.'')
      else
        (let selected = selected_ids (nat max_messages) (sn_trigger_message_id s) (visible_messages s);
             messages = filter (\<lambda>m. rm_id m \<in> set selected) (visible_messages s);
             roles = eligible_roles s;
             payload = \<lparr>dp_trigger_message_id = sn_trigger_message_id s,
                        dp_roles = map (\<lambda>r. (pr_deployment_id r, pr_public_name r, pr_public_description r)) roles,
                        dp_messages = map (director_message_of selected) messages\<rparr> in
         if max_input_chars < chars payload
         then Inl (ValueError ''Director input budget exceeded.'')
         else Inr \<lparr>di_snapshot_id = sn_snapshot_id s, di_revision = sn_revision s, di_scope = sn_scope s,
                   di_messages = messages, di_roles = roles, di_payload = payload,
                   di_fingerprint = digest (sn_snapshot_id s) (sn_revision s) (sn_scope s) payload\<rparr>))"

section \<open>Its decision\<close>

record director_decision =
  dd_speaker :: "string option"
  dd_target_message_id :: "string option"
  dd_mode :: "speaking_mode option"

text \<open>The mode \<open>none\<close> is \<open>None\<close>. The field types of the model, then \<open>coherent_nulls\<close>.\<close>

definition identifier_field :: "json \<Rightarrow> error + string option" where
  "identifier_field v =
     (case v of
        JNull \<Rightarrow> Inr None
      | JStr s \<Rightarrow> if valid_identifier s then Inr (Some s) else Inl ValidationError
      | _ \<Rightarrow> Inl ValidationError)"

definition mode_field :: "json \<Rightarrow> error + speaking_mode option" where
  "mode_field v =
     (if v = JStr ''direct_answer'' then Inr (Some DirectAnswer)
      else if v = JStr ''supplement'' then Inr (Some Supplement)
      else if v = JStr ''reaction'' then Inr (Some Reaction)
      else if v = JStr ''continuation'' then Inr (Some Continuation)
      else if v = JStr ''none'' then Inr None
      else Inl ValidationError)"

definition coherent_nulls :: "director_decision \<Rightarrow> bool" where
  "coherent_nulls d \<longleftrightarrow>
     (if dd_mode d = None then dd_speaker d = None \<and> dd_target_message_id d = None
      else dd_speaker d \<noteq> None \<and> dd_target_message_id d \<noteq> None)"

definition parse_decision :: "json \<Rightarrow> error + director_decision" where
  "parse_decision v =
     (case v of
        JObj d \<Rightarrow>
          if set (map fst d) \<noteq> {''speaker'', ''target_message_id'', ''mode''} then Inl ValidationError
          else
            (case (identifier_field (jget d ''speaker'' JNull),
                   identifier_field (jget d ''target_message_id'' JNull), mode_field (jget d ''mode'' JNull)) of
               (Inr speaker, Inr target, Inr mode) \<Rightarrow>
                 (let r = \<lparr>dd_speaker = speaker, dd_target_message_id = target, dd_mode = mode\<rparr> in
                  if coherent_nulls r then Inr r else Inl ValidationError)
             | _ \<Rightarrow> Inl ValidationError)
      | _ \<Rightarrow> Inl ValidationError)"

definition decision_choices :: "director_decision \<Rightarrow> speaker_choice list" where
  "decision_choices d =
     (case (dd_mode d, dd_speaker d, dd_target_message_id d) of
        (Some mode, Some speaker, Some target) \<Rightarrow>
          [\<lparr>ch_speaker = speaker, ch_target_message_id = target, ch_mode = mode\<rparr>]
      | _ \<Rightarrow> [])"

text \<open>A returned text: its length, and what \<open>json.loads\<close> makes of it with repeated keys kept apart.\<close>

type_synonym reply_text = "nat \<times> json_text"

definition validate_decision :: "reply_text \<Rightarrow> director_input \<Rightarrow> error + director_decision" where
  "validate_decision text view =
     (if 4096 < fst text then Inl (ValueError ''Director output budget exceeded.'')
      else
        (case loads (snd text) of
           None \<Rightarrow> Inl (ValueError ''JSONDecodeError'')
         | Some raw \<Rightarrow>
             if \<not> json_wf raw then Inl (ValueError ''Duplicate JSON key.'')
             else
               (case parse_decision raw of
                  Inl e \<Rightarrow> Inl e
                | Inr decision \<Rightarrow>
                    (case dd_speaker decision of
                       None \<Rightarrow> Inr decision
                     | Some speaker \<Rightarrow>
                         if speaker \<notin> set (map pr_deployment_id (di_roles view))
                         then Inl (ValueError ''Ineligible Director speaker.'')
                         else if dd_target_message_id decision
                              \<notin> Some ` set (map rm_id (filter rm_content_available (di_messages view)))
                         then Inl (ValueError ''Unavailable Director target.'')
                         else Inr decision))))"

section \<open>One call\<close>

datatype attempt_outcome = AttemptSuccess | AttemptTimeout | AttemptUnavailable | AttemptInvalid | AttemptError

record attempt_receipt =
  rc_provider :: string
  rc_model :: string
  rc_outcome :: attempt_outcome
  rc_latency_ms :: rat
  rc_input_tokens :: "int option"
  rc_output_tokens :: "int option"
  rc_cost_usd :: "rat option"

definition valid_attempt :: "attempt_receipt \<Rightarrow> bool" where
  "valid_attempt r \<longleftrightarrow>
     valid_identifier (rc_provider r) \<and> valid_identifier (rc_model r) \<and> 0 \<le> rc_latency_ms r
     \<and> (case rc_input_tokens r of None \<Rightarrow> True | Some n \<Rightarrow> 0 \<le> n)
     \<and> (case rc_output_tokens r of None \<Rightarrow> True | Some n \<Rightarrow> 0 \<le> n)
     \<and> (case rc_cost_usd r of None \<Rightarrow> True | Some c \<Rightarrow> 0 \<le> c)"

record director_reply =
  dy_text :: reply_text
  dy_attempts :: "attempt_receipt list"

definition valid_reply :: "director_reply \<Rightarrow> bool" where
  "valid_reply r \<longleftrightarrow>
     fst (dy_text r) \<le> 16384 \<and> 1 \<le> length (dy_attempts r) \<and> length (dy_attempts r) \<le> 8"

datatype director_outcome = Decided | DecidedNone | DirectorUnavailable | DirectorInvalid

record director_result =
  dr_failure_code :: string
  dr_outcome :: director_outcome
  dr_decision :: "director_decision option"
  dr_attempts :: "attempt_receipt list"
  dr_fingerprint :: string

definition no_decision :: "director_outcome \<Rightarrow> string \<Rightarrow> attempt_receipt list \<Rightarrow> director_input \<Rightarrow> director_result" where
  "no_decision outcome code attempts view =
     \<lparr>dr_failure_code = code, dr_outcome = outcome, dr_decision = None, dr_attempts = attempts,
      dr_fingerprint = di_fingerprint view\<rparr>"

text \<open>\<open>call_director\<close> with the caller's reply, or the receipts of its \<open>DirectorUnavailable\<close>.\<close>

definition call_director :: "director_input \<Rightarrow> attempt_receipt list + director_reply \<Rightarrow> director_result" where
  "call_director view answer =
     (case answer of
        Inl attempts \<Rightarrow> no_decision DirectorUnavailable [] attempts view
      | Inr reply \<Rightarrow>
          if rc_outcome (last (dy_attempts reply)) \<noteq> AttemptSuccess
          then no_decision DirectorInvalid [] (dy_attempts reply) view
          else
            (case validate_decision (dy_text reply) view of
               Inl e \<Rightarrow> no_decision DirectorInvalid [] (dy_attempts reply) view
             | Inr decision \<Rightarrow>
                 \<lparr>dr_failure_code = [],
                  dr_outcome = (if dd_mode decision = None then DecidedNone else Decided),
                  dr_decision = Some decision, dr_attempts = dy_attempts reply,
                  dr_fingerprint = di_fingerprint view\<rparr>))"

section \<open>Qualified models\<close>

record director_qualification =
  dq_member_id :: string
  dq_provider :: string
  dq_base_url :: string
  dq_model :: string
  dq_observed_model :: string
  dq_prompt_version :: string
  dq_corpus_sha256 :: string
  dq_report_sha256 :: string
  dq_case_count :: int
  dq_expected_none :: int
  dq_expected_contribution :: int
  dq_human_reviewed :: bool
  dq_reviewed_by :: string
  dq_none_precision :: rat
  dq_none_recall :: rat
  dq_joint_accuracy :: rat
  dq_missed_direct :: int
  dq_scope_violations :: int
  dq_approved_at :: time
  dq_expires_at :: time

definition sized_text :: "nat \<Rightarrow> nat \<Rightarrow> string \<Rightarrow> bool" where
  "sized_text lo hi s \<longleftrightarrow> lo \<le> length s \<and> length s \<le> hi"

definition hex_digest :: "string \<Rightarrow> bool" where
  "hex_digest s \<longleftrightarrow> length s = 64 \<and> list_all (\<lambda>c. c \<in> set ''0123456789abcdef'') s"

definition proportion :: "rat \<Rightarrow> bool" where
  "proportion x \<longleftrightarrow> 0 \<le> x \<and> x \<le> 1"

definition valid_qualification :: "director_qualification \<Rightarrow> bool" where
  "valid_qualification q \<longleftrightarrow>
     sized_text 1 64 (dq_member_id q) \<and> sized_text 1 100 (dq_provider q) \<and> sized_text 1 500 (dq_base_url q)
     \<and> sized_text 1 240 (dq_model q) \<and> sized_text 1 240 (dq_observed_model q) \<and> sized_text 1 100 (dq_prompt_version q)
     \<and> hex_digest (dq_corpus_sha256 q) \<and> hex_digest (dq_report_sha256 q)
     \<and> 200 \<le> dq_case_count q \<and> 30 \<le> dq_expected_none q \<and> 30 \<le> dq_expected_contribution q
     \<and> sized_text 1 160 (dq_reviewed_by q)
     \<and> proportion (dq_none_precision q) \<and> proportion (dq_none_recall q) \<and> proportion (dq_joint_accuracy q)
     \<and> 0 \<le> dq_missed_direct q \<and> 0 \<le> dq_scope_violations q
     \<and> dq_approved_at q < dq_expires_at q \<and> dq_expires_at q \<le> dq_approved_at q + days 14
     \<and> dq_expected_none q + dq_expected_contribution q \<le> dq_case_count q"

text \<open>The gates, with the doubles nearest to 0.90, 0.80 and 0.85.\<close>

definition meets_gate :: "director_qualification \<Rightarrow> bool" where
  "meets_gate q \<longleftrightarrow>
     dq_human_reviewed q
     \<and> 8106479329266893 / 2 ^ 53 \<le> dq_none_precision q
     \<and> 3602879701896397 / 2 ^ 52 \<le> dq_none_recall q
     \<and> 7656119366529843 / 2 ^ 53 \<le> dq_joint_accuracy q
     \<and> dq_missed_direct q = 0 \<and> dq_scope_violations q = 0"

record director_policy =
  dpo_enabled :: bool
  dpo_deadline_seconds :: rat
  dpo_max_attempts :: int
  dpo_qualifications :: "director_qualification list"

definition valid_policy :: "director_policy \<Rightarrow> bool" where
  "valid_policy p \<longleftrightarrow>
     1 / 2 \<le> dpo_deadline_seconds p \<and> dpo_deadline_seconds p \<le> 10
     \<and> 1 \<le> dpo_max_attempts p \<and> dpo_max_attempts p \<le> 2
     \<and> length (dpo_qualifications p) \<le> 32 \<and> list_all valid_qualification (dpo_qualifications p)
     \<and> distinct (map dq_member_id (dpo_qualifications p))"

section \<open>The pool\<close>

definition prompt_version :: string where
  "prompt_version = ''room-director-2''"

record utility_route =
  ur_member_id :: string
  ur_provider :: string
  ur_model :: string
  ur_base_url :: string

record provider_completion =
  pc_text :: reply_text
  pc_model :: string
  pc_tool_calls :: bool
  pc_finish_reason :: string
  pc_input_tokens :: "int option"
  pc_output_tokens :: "int option"

text \<open>What one call of a provider comes to: the exceptions that the loop tells apart, or a completion.\<close>

datatype transport = BudgetDenied | CallTimedOut | CallFailed | Completion (completion: provider_completion)

definition completion_of :: "transport \<Rightarrow> provider_completion option" where
  "completion_of t = (if is_Completion t then Some (completion t) else None)"

text \<open>\<open>base_url.rstrip("/")\<close>.\<close>

definition without_slash :: "string \<Rightarrow> string" where
  "without_slash s = rev (dropWhile (\<lambda>c. c = CHR ''/'') (rev s))"

definition accepted_report :: "time \<Rightarrow> director_policy \<Rightarrow> string \<Rightarrow> director_qualification option" where
  "accepted_report now p member =
     tget dq_member_id
       (filter (\<lambda>q. meets_gate q \<and> dq_approved_at q \<le> now \<and> now < dq_expires_at q
                  \<and> dq_prompt_version q = prompt_version) (rev (dpo_qualifications p)))
       member"

definition qualified_route :: "time \<Rightarrow> director_policy \<Rightarrow> utility_route \<Rightarrow> bool" where
  "qualified_route now p r \<longleftrightarrow>
     (case accepted_report now p (ur_member_id r) of
        None \<Rightarrow> False
      | Some q \<Rightarrow>
          dq_provider q = ur_provider r \<and> without_slash (dq_base_url q) = without_slash (ur_base_url r)
          \<and> dq_model q = ur_model r)"

definition call_outcome :: "string option \<Rightarrow> transport \<Rightarrow> attempt_outcome" where
  "call_outcome observed_model t =
     (case t of
        Completion c \<Rightarrow>
          if Some (pc_model c) = observed_model \<and> \<not> pc_tool_calls c \<and> pc_finish_reason c \<noteq> ''length''
          then AttemptSuccess else AttemptInvalid
      | CallTimedOut \<Rightarrow> AttemptTimeout
      | _ \<Rightarrow> AttemptUnavailable)"

definition receipt_of :: "utility_route \<Rightarrow> rat \<Rightarrow> attempt_outcome \<Rightarrow> transport \<Rightarrow> attempt_receipt" where
  "receipt_of route elapsed outcome t =
     (case t of
        Completion c \<Rightarrow>
          \<lparr>rc_provider = ur_provider route, rc_model = pc_model c, rc_outcome = outcome,
           rc_latency_ms = elapsed, rc_input_tokens = pc_input_tokens c, rc_output_tokens = pc_output_tokens c,
           rc_cost_usd = None\<rparr>
      | _ \<Rightarrow>
          \<lparr>rc_provider = ur_provider route, rc_model = ur_model route, rc_outcome = outcome,
           rc_latency_ms = elapsed, rc_input_tokens = None, rc_output_tokens = None,
           rc_cost_usd = None\<rparr>)"

text \<open>
  \<open>text[:16384]\<close>. What the prefix of a longer text decodes to is immaterial: a text of more than
  4096 characters is refused before it is decoded.
\<close>

definition clipped_text :: "reply_text \<Rightarrow> reply_text" where
  "clipped_text t = (min (fst t) 16384, snd t)"

text \<open>
  What the pool observes of the world while it decides: for each attempt, whether time is left, the
  answer of the provider, and the milliseconds it took.
\<close>

record pool_world =
  pw_time_left :: "nat \<Rightarrow> bool"
  pw_call :: "utility_route \<Rightarrow> nat \<Rightarrow> transport"
  pw_elapsed :: "nat \<Rightarrow> rat"

fun try_routes ::
  "pool_world \<Rightarrow> (string \<Rightarrow> string option) \<Rightarrow> director_input \<Rightarrow> nat \<Rightarrow> attempt_receipt list
    \<Rightarrow> utility_route list \<Rightarrow> error + director_result" where
  "try_routes w observed view n attempts [] = Inr (no_decision DirectorUnavailable [] attempts view)"
| "try_routes w observed view n attempts (route # routes) =
     (if \<not> pw_time_left w n then Inr (no_decision DirectorUnavailable [] attempts view)
      else
        (let t = pw_call w route n;
             receipt = receipt_of route (pw_elapsed w n) (call_outcome (observed (ur_member_id route)) t) t;
             attempts' = attempts @ [receipt] in
         if t = BudgetDenied
         then Inr (no_decision DirectorUnavailable ''budget_exhausted'' attempts view)
         else if \<not> valid_attempt receipt then Inl ValidationError
         else
           (case completion_of t of
              Some c \<Rightarrow>
                (let reply = \<lparr>dy_text = clipped_text (pc_text c), dy_attempts = attempts'\<rparr> in
                 if valid_reply reply then Inr (call_director view (Inr reply)) else Inl ValidationError)
            | None \<Rightarrow> try_routes w observed view (n + 1) attempts' routes)))"

definition pool_decide ::
  "pool_world \<Rightarrow> time \<Rightarrow> director_policy \<Rightarrow> utility_route list \<Rightarrow> director_input
    \<Rightarrow> error + director_result" where
  "pool_decide w now p free_routes view =
     (if \<not> dpo_enabled p \<or> list_all (\<lambda>q. accepted_report now p (dq_member_id q) = None) (dpo_qualifications p)
      then Inr (no_decision DirectorUnavailable [] [] view)
      else
        try_routes w (\<lambda>member. map_option dq_observed_model (accepted_report now p member)) view 0 []
          (take (nat (dpo_max_attempts p)) (filter (qualified_route now p) free_routes)))"

end
