(* ===== verification/Director_Safety.thy ===== *)
theory Director_Safety
  imports Room_Director "HOL-Library.Sublist"
begin

text \<open>
  What the model-backed half of routing promises: the input shows a Director nothing but its room,
  within the budget of the call, and whatever the model answers, the outcome of the pool names at
  most one eligible role and a readable message of that room, vouched for by a reviewed report.
\<close>

section \<open>The input\<close>

lemma visible_ids_distinct:
  "valid_snapshot s \<Longrightarrow> distinct (map rm_id (visible_messages s))"
  by (auto simp: valid_snapshot_def visible_messages_def intro: distinct_map_filter)

lemma director_trigger_visible:
  assumes "ru_kind (route_rules s) = Director"
  shows "sn_trigger_message_id s \<in> rm_id ` set (visible_messages s)"
proof (cases s rule: route_rules_cases)
  case (director t reason tid requester)
  from trigger_gate_InrD [OF director(1)] show ?thesis by (metis image_eqI)
qed (use assms in auto)

lemma length_newest: "length (newest n xs) \<le> n"
  by (simp add: newest_def)

lemma newest_complete: "length xs \<le> n \<Longrightarrow> newest n xs = xs"
  by (simp add: newest_def)

lemma set_newest: "set (newest n xs) \<subseteq> set xs"
  by (auto simp: newest_def dest: in_set_dropD)

lemma length_selected_ids:
  assumes "1 \<le> n" and "t \<in> rm_id ` set ms"
  shows "length (selected_ids n t ms) \<le> n"
proof (cases "t \<in> set (map rm_id (newest n ms))")
  case True
  then show ?thesis by (auto simp: selected_ids_def Let_def length_newest)
next
  case False
  with assms(2) have "\<not> length ms \<le> n" using newest_complete by fastforce
  with assms(1) obtain x xs where x: "newest n ms = x # xs"
    by (cases "newest n ms") (auto simp: newest_def)
  then have "length (filter (\<lambda>k. k \<noteq> rm_id x) (map rm_id xs)) < n"
    using length_newest [of n ms] by (auto intro: le_less_trans [OF length_filter_le])
  with x False show ?thesis by (simp add: selected_ids_def Let_def)
qed

lemma trigger_selected: "t \<in> set (selected_ids n t ms)"
  by (auto simp: selected_ids_def Let_def)

lemma length_filter_by_key:
  assumes "distinct (map f xs)"
  shows "length (filter (\<lambda>x. f x \<in> set ks) xs) \<le> length ks"
proof -
  have "length (filter (\<lambda>x. f x \<in> set ks) xs) = card (set (map f (filter (\<lambda>x. f x \<in> set ks) xs)))"
    using distinct_card [OF distinct_map_filter [OF assms]] by (metis length_map)
  also have "\<dots> \<le> card (set ks)" by (rule card_mono) auto
  also have "\<dots> \<le> length ks" by (rule card_length)
  finally show ?thesis .
qed

lemma build_director_inputE:
  assumes "build_director_input chars digest s n limit = Inr v"
  obtains selected where
    "ru_kind (route_rules s) = Director" and "1 \<le> n" and "n \<le> 64"
    and "selected = selected_ids (nat n) (sn_trigger_message_id s) (visible_messages s)"
    and "di_messages v = filter (\<lambda>m. rm_id m \<in> set selected) (visible_messages s)"
    and "di_roles v = eligible_roles s"
    and "dp_messages (di_payload v) = map (director_message_of selected) (di_messages v)"
    and "chars (di_payload v) \<le> limit"
  using assms by (auto simp: build_director_input_def Let_def split: if_splits)

lemma build_director_parts:
  assumes "build_director_input chars digest s n limit = Inr v"
  shows "di_roles v = eligible_roles s \<and> set (di_messages v) \<subseteq> set (visible_messages s)"
  using assms by (rule build_director_inputE) auto

lemma director_message_private:
  "m \<in> set ms \<Longrightarrow> d = director_message_of selected m \<Longrightarrow>
    (dm_content_available d \<or> dm_text d = [])
    \<and> set_option (dm_reply_to d) \<union> set_option (dm_response_to d) \<subseteq> set selected"
  by (auto simp: director_message_of_def kept_reference_def split: option.splits if_splits)

section \<open>The walk over the routes\<close>

lemma parse_decision_InrD: "parse_decision raw = Inr d \<Longrightarrow> coherent_nulls d"
  by (cases raw) (auto simp: parse_decision_def Let_def split: if_splits sum.splits)

lemma validate_decisionE:
  assumes "validate_decision text view = Inr d"
  obtains raw where "parse_decision raw = Inr d"
    and "\<And>speaker. dd_speaker d = Some speaker \<Longrightarrow>
      speaker \<in> set (map pr_deployment_id (di_roles view))
      \<and> dd_target_message_id d \<in> Some ` set (map rm_id (filter rm_content_available (di_messages view)))"
  using assms unfolding validate_decision_def
  by (auto split: if_splits option.splits sum.splits)

lemma decision_choices_SomeD:
  "c \<in> set (decision_choices d) \<Longrightarrow>
    dd_speaker d = Some (ch_speaker c) \<and> dd_target_message_id d = Some (ch_target_message_id c)"
  by (auto simp: decision_choices_def split: option.splits)

lemma validate_decision_choices:
  assumes "validate_decision text view = Inr d" and "c \<in> set (decision_choices d)"
  shows "ch_speaker c \<in> pr_deployment_id ` set (di_roles view)
    \<and> (\<exists>m \<in> set (di_messages view). rm_id m = ch_target_message_id c \<and> rm_content_available m)"
  using assms(1) decision_choices_SomeD [OF assms(2)] by (elim validate_decisionE) auto

lemma choices_at_most_one: "length (decision_choices d) \<le> 1"
  by (auto simp: decision_choices_def split: option.splits)

lemma call_director_decision:
  assumes "dr_decision (call_director view (Inr reply)) = Some d"
  shows "validate_decision (dy_text reply) view = Inr d
    \<and> rc_outcome (last (dy_attempts reply)) = AttemptSuccess
    \<and> dr_attempts (call_director view (Inr reply)) = dy_attempts reply"
  using assms by (auto simp: call_director_def no_decision_def split: if_splits sum.splits)

lemma call_director_attempts [simp]:
  "dr_attempts (call_director view (Inr reply)) = dy_attempts reply"
  by (simp add: call_director_def no_decision_def split: sum.split)

lemma no_decision_simps [simp]:
  "dr_decision (no_decision k c a v) = None" "dr_attempts (no_decision k c a v) = a"
  by (simp_all add: no_decision_def)

lemma receipt_provider [simp]: "rc_provider (receipt_of r e k t) = ur_provider r"
  by (simp add: receipt_of_def split: transport.split)

lemma receipt_success:
  assumes "rc_outcome (receipt_of r e (call_outcome observed t) t) = AttemptSuccess" and "completion_of t = Some c"
  shows "Some (pc_model c) = observed" and "rc_model (receipt_of r e (call_outcome observed t) t) = pc_model c"
  using assms by (auto simp: receipt_of_def call_outcome_def completion_of_def split: transport.splits if_splits)

text \<open>
  What a result rests on: each attempt is the receipt of a call of one of the routes, and a decision is
  what a completion of the last one says, by the model that was observed for its member.
\<close>

definition call_receipt ::
  "pool_world \<Rightarrow> (string \<Rightarrow> string option) \<Rightarrow> utility_route \<Rightarrow> nat \<Rightarrow> attempt_receipt" where
  "call_receipt w observed route n =
     receipt_of route (pw_elapsed w n) (call_outcome (observed (ur_member_id route)) (pw_call w route n)) (pw_call w route n)"

definition rests_on ::
  "pool_world \<Rightarrow> (string \<Rightarrow> string option) \<Rightarrow> utility_route set \<Rightarrow> director_input \<Rightarrow> director_result \<Rightarrow> bool" where
  "rests_on w observed routes view r \<longleftrightarrow>
     (\<forall>a \<in> set (dr_attempts r). \<exists>route \<in> routes. \<exists>n. a = call_receipt w observed route n)
     \<and> (\<forall>d. dr_decision r = Some d \<longrightarrow>
          (\<exists>route \<in> routes. \<exists>n c. completion_of (pw_call w route n) = Some c
             \<and> validate_decision (clipped_text (pc_text c)) view = Inr d
             \<and> Some (pc_model c) = observed (ur_member_id route)
             \<and> last (dr_attempts r) = call_receipt w observed route n
             \<and> rc_model (last (dr_attempts r)) = pc_model c))"

text \<open>The branches of one step, over its parts.\<close>

lemma route_step:
  assumes "(if \<not> left then Inr a else if denied then Inr b else if \<not> ok then Inl e
      else case answer of Some c \<Rightarrow> if fits c then Inr (f c) else Inl e | None \<Rightarrow> rest) = Inr r"
  obtains "r = a \<or> r = b" | c where "answer = Some c" and "r = f c" | "rest = Inr r"
proof (cases "left \<and> \<not> denied \<and> ok")
  case False
  with assms that(1) show thesis by (metis Inl_Inr_False Inr_inject)
next
  case True
  show thesis
  proof (cases answer)
    case None
    with True assms that(3) show thesis by simp
  next
    case (Some c)
    with True assms that(2) show thesis by (cases "fits c") simp_all
  qed
qed

lemma try_routes_sound:
  assumes "try_routes w observed view n attempts routes = Inr r"
    and "\<forall>a \<in> set attempts. \<exists>route \<in> R. \<exists>n. a = call_receipt w observed route n" and "set routes \<subseteq> R"
  shows "length (dr_attempts r) \<le> length attempts + length routes \<and> rests_on w observed R view r"
  using assms
proof (induction routes arbitrary: n attempts)
  case Nil
  then show ?case by (auto simp: rests_on_def)
next
  case (Cons route routes)
  define t where "t = pw_call w route n"
  define receipt where
    "receipt = receipt_of route (pw_elapsed w n) (call_outcome (observed (ur_member_id route)) t) t"
  note step = Cons.prems(1) [unfolded try_routes.simps Let_def, folded t_def, folded receipt_def]
  have receipt: "receipt = call_receipt w observed route n"
    by (simp add: receipt_def call_receipt_def t_def)
  have kept: "\<forall>a \<in> set (attempts @ [receipt]). \<exists>route \<in> R. \<exists>n. a = call_receipt w observed route n"
    using Cons.prems(2,3) receipt by (metis (no_types, lifting) Un_iff empty_iff empty_set list.set_intros(1) set_ConsD set_append subsetD)
  consider (denied) "r = no_decision DirectorUnavailable [] attempts view
        \<or> r = no_decision DirectorUnavailable ''budget_exhausted'' attempts view"
    | (replied) c where "completion_of t = Some c"
        "r = call_director view (Inr \<lparr>dy_text = clipped_text (pc_text c), dy_attempts = attempts @ [receipt]\<rparr>)"
    | (further) "try_routes w observed view (n + 1) (attempts @ [receipt]) routes = Inr r"
    using step by (elim route_step)
  then show ?case
  proof cases
    case denied
    with Cons.prems(2) show ?thesis by (auto simp: rests_on_def)
  next
    case replied
    have "\<exists>c. completion_of (pw_call w route n) = Some c \<and> validate_decision (clipped_text (pc_text c)) view = Inr d
        \<and> Some (pc_model c) = observed (ur_member_id route)
        \<and> last (dr_attempts r) = call_receipt w observed route n \<and> rc_model (last (dr_attempts r)) = pc_model c"
      if "dr_decision r = Some d" for d
    proof (intro exI [of _ c] conjI)
      note decision = call_director_decision [OF that [unfolded replied(2)]]
      have success: "rc_outcome receipt = AttemptSuccess"
        using decision by simp
      show "Some (pc_model c) = observed (ur_member_id route)"
        using receipt_success(1) [OF success [unfolded receipt_def] replied(1)] .
      show "rc_model (last (dr_attempts r)) = pc_model c"
        using receipt_success(2) [OF success [unfolded receipt_def] replied(1)] replied(2) by (simp add: receipt_def)
      show "completion_of (pw_call w route n) = Some c"
        using replied(1) by (simp add: t_def)
      show "validate_decision (clipped_text (pc_text c)) view = Inr d"
        using decision by simp
      show "last (dr_attempts r) = call_receipt w observed route n"
        using replied(2) receipt by simp
    qed
    moreover have "dr_attempts r = attempts @ [receipt]" "route \<in> R"
      using replied(2) Cons.prems(3) by simp_all
    ultimately show ?thesis
      using kept unfolding rests_on_def by (intro conjI allI impI) (simp, metis, metis)
  next
    case further
    from Cons.IH [OF this kept] Cons.prems(3) show ?thesis by simp
  qed
qed

text \<open>A route is vouched for by a report of exactly its member, provider, base URL and model.\<close>

definition vouched_for :: "time \<Rightarrow> director_policy \<Rightarrow> utility_route \<Rightarrow> director_qualification \<Rightarrow> bool" where
  "vouched_for now p route q \<longleftrightarrow>
     q \<in> set (dpo_qualifications p) \<and> meets_gate q \<and> dq_approved_at q \<le> now \<and> now < dq_expires_at q
     \<and> dq_prompt_version q = prompt_version
     \<and> dq_member_id q = ur_member_id route \<and> dq_provider q = ur_provider route
     \<and> without_slash (dq_base_url q) = without_slash (ur_base_url route) \<and> dq_model q = ur_model route"

lemma qualified_vouched:
  assumes "qualified_route now p route"
  shows "\<exists>q. accepted_report now p (ur_member_id route) = Some q \<and> vouched_for now p route q"
proof -
  obtain q where q: "accepted_report now p (ur_member_id route) = Some q"
      "dq_provider q = ur_provider route \<and> without_slash (dq_base_url q) = without_slash (ur_base_url route)
        \<and> dq_model q = ur_model route"
    using assms by (auto simp: qualified_route_def split: option.splits)
  with tget_SomeD [OF q(1) [unfolded accepted_report_def]] show ?thesis
    by (auto simp: vouched_for_def)
qed

lemma selected_visible:
  assumes "t \<in> rm_id ` set ms"
  shows "set (selected_ids n t ms) \<subseteq> rm_id ` set ms"
  using assms set_newest [of n ms] by (auto simp: selected_ids_def Let_def)


lemma pool_decide_sound:
  assumes "valid_policy p" and "pool_decide w now p free view = Inr r"
  shows "length (dr_attempts r) \<le> 2
    \<and> rests_on w (\<lambda>member. map_option dq_observed_model (accepted_report now p member))
         {route \<in> set free. qualified_route now p route} view r"
proof -
  let ?routes = "take (nat (dpo_max_attempts p)) (filter (qualified_route now p) free)"
  let ?observed = "\<lambda>member. map_option dq_observed_model (accepted_report now p member)"
  consider "r = no_decision DirectorUnavailable [] [] view"
    | "try_routes w ?observed view 0 [] ?routes = Inr r"
    using assms(2) unfolding pool_decide_def by (metis Inr_inject)
  then show ?thesis
  proof cases
    case 1
    then show ?thesis by (simp add: rests_on_def)
  next
    case 2
    have "set ?routes \<subseteq> {route \<in> set free. qualified_route now p route}"
      by (auto dest: in_set_takeD)
    from try_routes_sound [OF 2 _ this] assms(1) show ?thesis
      unfolding valid_policy_def by (simp, linarith)
  qed
qed

text \<open>The attempts and the decision of the pool, in terms of the reports.\<close>

lemma pool_attempt_vouched:
  assumes "valid_policy p" "pool_decide w now p free view = Inr r" "a \<in> set (dr_attempts r)"
  shows "\<exists>route \<in> set free. \<exists>q. vouched_for now p route q \<and> rc_provider a = ur_provider route"
  using pool_decide_sound [OF assms(1,2)] assms(3) qualified_vouched unfolding rests_on_def call_receipt_def
  by fastforce

lemma pool_decision_vouched:
  assumes "valid_policy p" "pool_decide w now p free view = Inr r" "dr_decision r = Some d"
  shows "\<exists>route \<in> set free. \<exists>q n c. vouched_for now p route q
      \<and> pw_call w route n = Completion c \<and> validate_decision (clipped_text (pc_text c)) view = Inr d
      \<and> pc_model c = dq_observed_model q
      \<and> rc_provider (last (dr_attempts r)) = dq_provider q \<and> rc_model (last (dr_attempts r)) = pc_model c"
proof -
  let ?observed = "\<lambda>member. map_option dq_observed_model (accepted_report now p member)"
  from pool_decide_sound [OF assms(1,2)] assms(3) obtain route n c
    where route: "route \<in> set free" "qualified_route now p route"
      and c: "completion_of (pw_call w route n) = Some c" "validate_decision (clipped_text (pc_text c)) view = Inr d"
        "Some (pc_model c) = ?observed (ur_member_id route)" "last (dr_attempts r) = call_receipt w ?observed route n"
        "rc_model (last (dr_attempts r)) = pc_model c"
    unfolding rests_on_def by blast
  obtain q where q: "accepted_report now p (ur_member_id route) = Some q" "vouched_for now p route q"
    using qualified_vouched [OF route(2)] by blast
  have "pw_call w route n = Completion c"
    using c(1) by (cases "pw_call w route n") (simp_all add: completion_of_def)
  moreover have "rc_provider (last (dr_attempts r)) = dq_provider q"
    using c(4) q(2) by (simp add: call_receipt_def vouched_for_def)
  moreover have "pc_model c = dq_observed_model q"
    using c(3) q(1) by simp
  ultimately show ?thesis
    using route(1) q(2) c(2,5) by blast
qed

section \<open>Properties\<close>

text \<open>The input of a Director is bounded and private: it exists only for an ambiguous turn, holds at
  most the budgeted number of messages and of characters, and among them the trigger; every message
  in it is a visible message of the snapshot's room, in the order of the room, its text blank unless
  it may be read, its references only to messages that are shown; and the roles are the eligible
  ones.\<close>

theorem director_input_bounded:
  assumes "valid_snapshot s" and "build_director_input chars digest s n limit = Inr v"
  shows "ru_kind (route_rules s) = Director
    \<and> int (length (di_messages v)) \<le> n \<and> n \<le> 64 \<and> chars (di_payload v) \<le> limit
    \<and> sn_trigger_message_id s \<in> rm_id ` set (di_messages v)
    \<and> subseq (di_messages v) (visible_messages s) \<and> di_roles v = eligible_roles s
    \<and> map dm_id (dp_messages (di_payload v)) = map rm_id (di_messages v)
    \<and> (\<forall>d \<in> set (dp_messages (di_payload v)).
          (dm_content_available d \<or> dm_text d = [])
          \<and> set_option (dm_reply_to d) \<union> set_option (dm_response_to d) \<subseteq> rm_id ` set (sn_messages s))"
  using assms(2)
proof (rule build_director_inputE)
  fix selected
  assume kind: "ru_kind (route_rules s) = Director" and n: "1 \<le> n" "n \<le> 64"
    and sel: "selected = selected_ids (nat n) (sn_trigger_message_id s) (visible_messages s)"
    and shown: "di_messages v = filter (\<lambda>m. rm_id m \<in> set selected) (visible_messages s)"
    and roles: "di_roles v = eligible_roles s"
    and payload: "dp_messages (di_payload v) = map (director_message_of selected) (di_messages v)"
    and chars: "chars (di_payload v) \<le> limit"
  note trigger = director_trigger_visible [OF kind]
  have "int (length (di_messages v)) \<le> n"
    using length_filter_by_key [OF visible_ids_distinct [OF assms(1)], of selected]
      length_selected_ids [OF _ trigger, of "nat n"] n unfolding shown sel by linarith
  moreover have "sn_trigger_message_id s \<in> rm_id ` set (di_messages v)"
    using trigger trigger_selected unfolding shown sel by fastforce
  moreover have "set selected \<subseteq> rm_id ` set (sn_messages s)"
    using selected_visible [OF trigger, of "nat n"] unfolding sel
    by (auto simp: visible_messages_def)
  then have "set_option (dm_reply_to d) \<union> set_option (dm_response_to d) \<subseteq> rm_id ` set (sn_messages s)"
    and "dm_content_available d \<or> dm_text d = []" if "d \<in> set (dp_messages (di_payload v))" for d
    using that director_message_private unfolding payload by fastforce+
  ultimately show ?thesis
    using kind n roles chars payload by (auto simp: shown director_message_of_def o_def)
qed



definition demo_view :: director_input where
  "demo_view =
     (case build_director_input (\<lambda>_. 300) (\<lambda>_ _ _ _. ''f'') (demo_snapshot []) 24 24000 of
        Inr v \<Rightarrow> v)"

lemma demo_view_built:
  "build_director_input (\<lambda>_. 300) (\<lambda>_ _ _ _. ''f'') (demo_snapshot []) 24 24000 = Inr demo_view"
  by code_simp

lemma demo_snapshot_valid: "valid_snapshot (demo_snapshot [])"
  by code_simp

theorem director_input_bounded_witness:
  "int (length (di_messages demo_view)) \<le> 24 \<and> sn_trigger_message_id (demo_snapshot []) \<in> rm_id ` set (di_messages demo_view)"
  using director_input_bounded [OF demo_snapshot_valid demo_view_built] by blast

text \<open>C21. The choice of a Director is safe whatever the model and its provider do. The pool tries at most
  two routes, each of them vouched for by a report of exactly its member, provider, base URL and model
  that meets the gate, is approved, has not expired and was made with the prompt in use. A decision is
  what the completion of such a route says, and the model that signed the completion is the one its
  report observed; it names at most one speaker, an eligible role of the room, answering a visible
  message of it whose content is readable.\<close>

theorem director_choice_is_safe:
  assumes "build_director_input chars digest s n limit = Inr view" and "valid_policy p"
    and "pool_decide w now p free view = Inr r"
  shows "length (dr_attempts r) \<le> 2
    \<and> (\<forall>a \<in> set (dr_attempts r). \<exists>route \<in> set free. \<exists>q \<in> set (dpo_qualifications p).
          rc_provider a = ur_provider route \<and> dq_member_id q = ur_member_id route
          \<and> dq_provider q = ur_provider route \<and> dq_model q = ur_model route
          \<and> without_slash (dq_base_url q) = without_slash (ur_base_url route)
          \<and> meets_gate q \<and> dq_approved_at q \<le> now \<and> now < dq_expires_at q
          \<and> dq_prompt_version q = prompt_version)
    \<and> (\<forall>d. dr_decision r = Some d \<longrightarrow>
          length (decision_choices d) \<le> 1
          \<and> (\<forall>c \<in> set (decision_choices d).
                ch_speaker c \<in> pr_deployment_id ` set (eligible_roles s)
                \<and> (\<exists>m \<in> set (visible_messages s).
                      rm_id m = ch_target_message_id c \<and> rm_content_available m))
          \<and> (\<exists>route \<in> set free. \<exists>q \<in> set (dpo_qualifications p). \<exists>i c.
                dq_member_id q = ur_member_id route \<and> dq_provider q = ur_provider route
                \<and> dq_model q = ur_model route
                \<and> without_slash (dq_base_url q) = without_slash (ur_base_url route)
                \<and> meets_gate q \<and> dq_approved_at q \<le> now \<and> now < dq_expires_at q
                \<and> dq_prompt_version q = prompt_version
                \<and> pw_call w route i = Completion c
                \<and> validate_decision (clipped_text (pc_text c)) view = Inr d
                \<and> pc_model c = dq_observed_model q
                \<and> rc_provider (last (dr_attempts r)) = dq_provider q
                \<and> rc_model (last (dr_attempts r)) = dq_observed_model q))"
proof (intro conjI allI impI ballI)
  show "length (dr_attempts r) \<le> 2"
    using pool_decide_sound [OF assms(2,3)] by blast
next
  fix a assume "a \<in> set (dr_attempts r)"
  from pool_attempt_vouched [OF assms(2,3) this]
  show "\<exists>route \<in> set free. \<exists>q \<in> set (dpo_qualifications p).
          rc_provider a = ur_provider route \<and> dq_member_id q = ur_member_id route
          \<and> dq_provider q = ur_provider route \<and> dq_model q = ur_model route
          \<and> without_slash (dq_base_url q) = without_slash (ur_base_url route)
          \<and> meets_gate q \<and> dq_approved_at q \<le> now \<and> now < dq_expires_at q
          \<and> dq_prompt_version q = prompt_version"
    unfolding vouched_for_def by blast
next
  fix d assume d: "dr_decision r = Some d"
  from pool_decision_vouched [OF assms(2,3) d] obtain route q i c where route: "route \<in> set free" "vouched_for now p route q"
      "pw_call w route i = Completion c" "validate_decision (clipped_text (pc_text c)) view = Inr d"
      "pc_model c = dq_observed_model q" "rc_provider (last (dr_attempts r)) = dq_provider q"
      "rc_model (last (dr_attempts r)) = dq_observed_model q" by metis
  note vouched = route(2) [unfolded vouched_for_def]
  from route vouched show "\<exists>route \<in> set free. \<exists>q \<in> set (dpo_qualifications p). \<exists>i c.
                dq_member_id q = ur_member_id route \<and> dq_provider q = ur_provider route
                \<and> dq_model q = ur_model route
                \<and> without_slash (dq_base_url q) = without_slash (ur_base_url route)
                \<and> meets_gate q \<and> dq_approved_at q \<le> now \<and> now < dq_expires_at q
                \<and> dq_prompt_version q = prompt_version
                \<and> pw_call w route i = Completion c
                \<and> validate_decision (clipped_text (pc_text c)) view = Inr d
                \<and> pc_model c = dq_observed_model q
                \<and> rc_provider (last (dr_attempts r)) = dq_provider q
                \<and> rc_model (last (dr_attempts r)) = dq_observed_model q"
    by blast
  show "length (decision_choices d) \<le> 1" by (rule choices_at_most_one)
  fix ch assume ch: "ch \<in> set (decision_choices d)"
  from build_director_parts [OF assms(1)] validate_decision_choices [OF route(4) ch]
  show "ch_speaker ch \<in> pr_deployment_id ` set (eligible_roles s)"
    and "\<exists>m \<in> set (visible_messages s). rm_id m = ch_target_message_id ch \<and> rm_content_available m"
    by (metis, metis subsetD)
qed

definition demo_report :: director_qualification where
  "demo_report =
     \<lparr>dq_member_id = ''u'', dq_provider = ''p'', dq_base_url = ''h/'', dq_model = ''m'',
      dq_observed_model = ''m-1'', dq_prompt_version = prompt_version,
      dq_corpus_sha256 = replicate 64 (CHR ''a''), dq_report_sha256 = replicate 64 (CHR ''b''),
      dq_case_count = 200, dq_expected_none = 60, dq_expected_contribution = 60,
      dq_human_reviewed = True, dq_reviewed_by = ''r'', dq_none_precision = 1, dq_none_recall = 1,
      dq_joint_accuracy = 1, dq_missed_direct = 0, dq_scope_violations = 0,
      dq_approved_at = 0, dq_expires_at = 10\<rparr>"

definition demo_policy :: director_policy where
  "demo_policy = \<lparr>dpo_enabled = True, dpo_deadline_seconds = 6, dpo_max_attempts = 2,
                  dpo_qualifications = [demo_report]\<rparr>"

definition demo_answer :: provider_completion where
  "demo_answer =
     \<lparr>pc_text = (70, Text (JObj [(''speaker'', JStr ''ann''), (''target_message_id'', JStr ''m2''),
                                 (''mode'', JStr ''direct_answer'')])),
      pc_model = ''m-1'', pc_tool_calls = False, pc_finish_reason = ''stop'',
      pc_input_tokens = None, pc_output_tokens = Some 20\<rparr>"

definition demo_world :: pool_world where
  "demo_world = \<lparr>pw_time_left = \<lambda>_. True, pw_call = \<lambda>_ _. Completion demo_answer, pw_elapsed = \<lambda>_. 5\<rparr>"

definition demo_route :: utility_route where
  "demo_route = \<lparr>ur_member_id = ''u'', ur_provider = ''p'', ur_model = ''m'', ur_base_url = ''h''\<rparr>"

lemma demo_policy_valid: "valid_policy demo_policy"
  by (simp add: valid_policy_def demo_policy_def valid_qualification_def demo_report_def sized_text_def
      hex_digest_def proportion_def prompt_version_def days_def hours_def minutes_def seconds_def numeral_eq_Suc)

definition demo_decision :: director_decision where
  "demo_decision =
     \<lparr>dd_speaker = Some ''ann'', dd_target_message_id = Some ''m2'', dd_mode = Some DirectAnswer\<rparr>"

lemma demo_accepted: "accepted_report 5 demo_policy ''u'' = Some demo_report"
  by (simp add: accepted_report_def tget_def demo_policy_def meets_gate_def demo_report_def)

lemma demo_route_qualified: "qualified_route 5 demo_policy demo_route"
  by (simp add: qualified_route_def demo_route_def demo_accepted demo_report_def without_slash_def)

lemma demo_validates: "validate_decision (clipped_text (pc_text demo_answer)) demo_view = Inr demo_decision"
  by code_simp

lemma demo_decides:
  "dr_decision (projr (pool_decide demo_world 5 demo_policy [demo_route] demo_view)) = Some demo_decision
   \<and> \<not> isl (pool_decide demo_world 5 demo_policy [demo_route] demo_view)"
  using demo_accepted demo_route_qualified demo_validates
  by (simp add: pool_decide_def demo_policy_def demo_report_def demo_world_def demo_route_def Let_def
      completion_of_def call_outcome_def receipt_of_def valid_attempt_def valid_reply_def valid_identifier_def
      pattern_space_def call_director_def demo_answer_def clipped_text_def)

theorem director_choice_is_safe_witness:
  "\<exists>r d. pool_decide demo_world 5 demo_policy [demo_route] demo_view = Inr r \<and> dr_decision r = Some d
     \<and> (\<forall>c \<in> set (decision_choices d). ch_speaker c \<in> pr_deployment_id ` set (eligible_roles (demo_snapshot [])))"
proof -
  obtain r where "pool_decide demo_world 5 demo_policy [demo_route] demo_view = Inr r"
    using demo_decides by (metis isl_def sum.collapse(2))
  with demo_decides director_choice_is_safe [OF demo_view_built demo_policy_valid this]
  show ?thesis by (metis sum.sel(2))
qed

end
