(* ===== verification/Model_Budget.thy ===== *)
theory Model_Budget
  imports Room_Routing Contracts
begin

text \<open>
  \<open>ModelAttemptBudget\<close> of \<open>model_attempt_budget.py\<close>: every HTTP attempt of a model is admitted by
  three counters, of its room and of its member in a window of ten minutes, and of its operation.
  One reservation counts on all three or on none.
\<close>

section \<open>Buckets\<close>

record attempt_bucket =
  bk_id :: string
  bk_used :: int
  bk_expires_at :: time

record budget_db =
  buckets :: "attempt_bucket list"

interpretation bucket_table: db_table buckets buckets_update bk_id
  by unfold_locales simp

text \<open>\<open>_key\<close>: the digest of the items around the unit separator; SHA-256 is an argument.\<close>

definition budget_key :: "(string \<Rightarrow> string) \<Rightarrow> string list \<Rightarrow> string" where
  "budget_key sha items = sha (join [CHR 0x1F] items)"

text \<open>\<open>int(now.timestamp()) // 600\<close>: towards zero to seconds, then down to the window.\<close>

definition window_text :: "time \<Rightarrow> string" where
  "window_text now =
     str_of_int ((if 0 \<le> now then now div seconds 1 else - ((- now) div seconds 1)) div 600)"

record attempt_request =
  ar_now :: time
  ar_scope :: room_scope
  ar_requester_id :: string
  ar_operation_id :: string

definition room_part :: "(string \<Rightarrow> string) \<Rightarrow> attempt_request \<Rightarrow> string" where
  "room_part sha q =
     (let s = ar_scope q in
      budget_key sha [sc_connection_id s, sc_guild_id s, sc_channel_id s, sc_thread_id s])"

definition budget_entries :: "(string \<Rightarrow> string) \<Rightarrow> attempt_request \<Rightarrow> (string \<times> int) list" where
  "budget_entries sha q =
     (let room = room_part sha q; window = window_text (ar_now q) in
      sort [(''room:'' @ budget_key sha [room, window], 120),
            (''member:'' @ budget_key sha [room, ar_requester_id q, window], 60),
            (''operation:'' @ budget_key sha [room, ar_operation_id q], 24)])"

section \<open>Reserving\<close>

text \<open>One entry of the loop: the insert that leaves an existing row, then the guarded increment.\<close>

definition opened :: "time \<Rightarrow> string \<Rightarrow> attempt_bucket list \<Rightarrow> attempt_bucket list" where
  "opened now key t =
     (case tget bk_id t key of
        Some b \<Rightarrow> t
      | None \<Rightarrow> tins \<lparr>bk_id = key, bk_used = 0, bk_expires_at = now + days 1\<rparr> t)"

definition count_attempt :: "time \<Rightarrow> string \<Rightarrow> int \<Rightarrow> attempt_bucket list \<Rightarrow> attempt_bucket list option" where
  "count_attempt now key limit t =
     (let t' = opened now key t; open_at = (\<lambda>b. bk_id b = key \<and> bk_used b < limit) in
      if tcount open_at t' = 0 then None
      else Some (tset open_at (\<lambda>b. b\<lparr>bk_used := bk_used b + 1\<rparr>) t'))"

fun count_entries :: "time \<Rightarrow> (string \<times> int) list \<Rightarrow> attempt_bucket list \<Rightarrow> attempt_bucket list option" where
  "count_entries now [] t = Some t"
| "count_entries now ((key, limit) # es) t =
     (case count_attempt now key limit t of None \<Rightarrow> None | Some t' \<Rightarrow> count_entries now es t')"

definition reserve_attempt ::
  "(string \<Rightarrow> string) \<Rightarrow> attempt_request \<Rightarrow> budget_db \<Rightarrow> (unit, budget_db) outcome" where
  "reserve_attempt sha q d =
     (if ar_requester_id q = [] \<or> ar_operation_id q = []
      then (Inl (BudgetExceeded ''model_attempt_identity_missing''), d)
      else
        (case count_entries (ar_now q) (budget_entries sha q) (buckets d) of
           None \<Rightarrow> (Inl (BudgetExceeded ''room_model_attempt_budget_exhausted''), d)
         | Some t \<Rightarrow> (Inr (), d\<lparr>buckets := tdel (\<lambda>b. bk_expires_at b < ar_now q) t\<rparr>)))"

section \<open>What a reservation does to each bucket\<close>

definition budget_ok :: "budget_db \<Rightarrow> bool" where
  "budget_ok d \<longleftrightarrow> keyed bk_id (buckets d)"

definition used_in :: "attempt_bucket list \<Rightarrow> string \<Rightarrow> int" where
  "used_in t k = (case tget bk_id t k of None \<Rightarrow> 0 | Some b \<Rightarrow> bk_used b)"

text \<open>The bucket of a key, or the one that a reservation would open for it.\<close>

definition bucket_or_new :: "time \<Rightarrow> attempt_bucket list \<Rightarrow> string \<Rightarrow> attempt_bucket" where
  "bucket_or_new now t k =
     (case tget bk_id t k of
        Some b \<Rightarrow> b | None \<Rightarrow> \<lparr>bk_id = k, bk_used = 0, bk_expires_at = now + days 1\<rparr>)"

lemma bk_id_new [simp]: "bk_id (bucket_or_new now t k) = k"
  by (auto simp: bucket_or_new_def split: option.split dest: tget_key)

lemma bk_used_new [simp]: "bk_used (bucket_or_new now t k) = used_in t k"
  by (simp add: bucket_or_new_def used_in_def split: option.split)

lemma tget_opened:
  "tget bk_id (opened now key t) k = (if k = key then Some (bucket_or_new now t key) else tget bk_id t k)"
  by (auto simp: opened_def bucket_or_new_def tget_tins split: option.split)

lemma keyed_opened: "keyed bk_id t \<Longrightarrow> keyed bk_id (opened now key t)"
  by (auto simp: opened_def keyed_tins split: option.split)

lemma count_attempt_None_iff:
  "keyed bk_id t \<Longrightarrow> count_attempt now key limit t = None \<longleftrightarrow> limit \<le> used_in t key"
  by (auto simp: count_attempt_def Let_def tcount_key [OF keyed_opened] tget_opened not_less
      split: if_splits)

lemma other_bucket:
  "k \<noteq> key \<Longrightarrow> map_option (\<lambda>b. if bk_id b = key \<and> P b then f b else b) (tget bk_id t k) = tget bk_id t k"
  by (cases "tget bk_id t k") (auto dest: tget_key)

lemma count_attempt_Some:
  assumes "keyed bk_id t" and "count_attempt now key limit t = Some t'"
  shows "keyed bk_id t' \<and> (\<forall>k. tget bk_id t' k =
    (if k = key then Some ((bucket_or_new now t key)\<lparr>bk_used := used_in t key + 1\<rparr>) else tget bk_id t k))"
proof -
  have "used_in t key < limit"
    using assms count_attempt_None_iff [OF assms(1), of now key limit] by fastforce
  then show ?thesis
    using assms keyed_opened [OF assms(1), of now key]
    by (auto simp: count_attempt_def Let_def keyed_tset tget_tset tget_opened other_bucket split: if_splits)
qed

text \<open>A loop over distinct keys counts on each of them, or on none when one is exhausted.\<close>

lemma count_entries_None_iff:
  "keyed bk_id t \<Longrightarrow> distinct (map fst es) \<Longrightarrow>
    count_entries now es t = None \<longleftrightarrow> (\<exists>(k, l) \<in> set es. l \<le> used_in t k)"
proof (induction now es t rule: count_entries.induct)
  case (2 now key limit es t)
  show ?case
  proof (cases "count_attempt now key limit t")
    case None
    moreover have "limit \<le> used_in t key"
      using count_attempt_None_iff [OF "2.prems"(1), of now key limit] None by simp
    ultimately show ?thesis by auto
  next
    case (Some t')
    note t' = count_attempt_Some [OF "2.prems"(1) Some]
    have same: "used_in t' k = used_in t k" if "(k, l) \<in> set es" for k l
      using t' that "2.prems"(2) by (auto simp: used_in_def image_iff)
    have "(\<exists>(k, l) \<in> set es. l \<le> used_in t' k) = (\<exists>(k, l) \<in> set es. l \<le> used_in t k)"
      by (rule bex_cong [OF refl]) (auto simp: same)
    moreover have "\<not> limit \<le> used_in t key"
      using Some count_attempt_None_iff [OF "2.prems"(1), of now key limit] by simp
    ultimately have "(\<exists>(k, l) \<in> set ((key, limit) # es). l \<le> used_in t k)
        \<longleftrightarrow> (\<exists>(k, l) \<in> set es. l \<le> used_in t' k)" by simp
    with "2.IH" [OF Some] t' "2.prems"(2) Some show ?thesis by simp
  qed
qed simp

lemma count_entries_Some:
  "keyed bk_id t \<Longrightarrow> distinct (map fst es) \<Longrightarrow> count_entries now es t = Some t' \<Longrightarrow>
    keyed bk_id t' \<and> (\<forall>k. tget bk_id t' k =
      (if k \<in> fst ` set es then Some ((bucket_or_new now t k)\<lparr>bk_used := used_in t k + 1\<rparr>)
       else tget bk_id t k))"
proof (induction now es t rule: count_entries.induct)
  case (2 now key limit es t)
  then obtain t1 where t1: "count_attempt now key limit t = Some t1" and rest: "count_entries now es t1 = Some t'"
    by (auto split: option.splits)
  note one = count_attempt_Some [OF "2.prems"(1) t1]
  have "keyed bk_id t' \<and> (\<forall>k. tget bk_id t' k =
      (if k \<in> fst ` set es then Some ((bucket_or_new now t1 k)\<lparr>bk_used := used_in t1 k + 1\<rparr>)
       else tget bk_id t1 k))"
    using "2.IH" [OF t1] one "2.prems"(2) rest by simp
  moreover have "bucket_or_new now t1 k = bucket_or_new now t k \<and> used_in t1 k = used_in t k" if "k \<noteq> key" for k
    using one that by (simp add: bucket_or_new_def used_in_def)
  ultimately show ?case
    using one "2.prems"(2) by (auto simp: image_iff)
qed simp

text \<open>The three keys of a reservation differ: their first letters do.\<close>

lemma entries_distinct: "distinct (map fst (budget_entries sha q))"
proof -
  have "distinct (map fst (sort xs)) = distinct (map fst xs)" for xs :: "(string \<times> int) list"
    unfolding distinct_map by simp
  then show ?thesis by (simp add: budget_entries_def Let_def)
qed

lemma set_entries:
  "set (budget_entries sha q) =
    {(''room:'' @ budget_key sha [room_part sha q, window_text (ar_now q)], 120),
     (''member:'' @ budget_key sha [room_part sha q, ar_requester_id q, window_text (ar_now q)], 60),
     (''operation:'' @ budget_key sha [room_part sha q, ar_operation_id q], 24)}"
  by (auto simp: budget_entries_def Let_def)

definition exhausted :: "(string \<Rightarrow> string) \<Rightarrow> attempt_request \<Rightarrow> budget_db \<Rightarrow> bool" where
  "exhausted sha q d \<longleftrightarrow> list_ex (\<lambda>(k, l). l \<le> used_in (buckets d) k) (budget_entries sha q)"

lemma reserve_attempt_cases:
  assumes "budget_ok d"
  shows "if ar_requester_id q = [] \<or> ar_operation_id q = []
      then reserve_attempt sha q d = (Inl (BudgetExceeded ''model_attempt_identity_missing''), d)
    else if exhausted sha q d
      then reserve_attempt sha q d = (Inl (BudgetExceeded ''room_model_attempt_budget_exhausted''), d)
    else (\<exists>d'. reserve_attempt sha q d = (Inr (), d') \<and> budget_ok d'
      \<and> (\<forall>k. tget bk_id (buckets d') k =
          (case (if k \<in> fst ` set (budget_entries sha q)
                 then Some ((bucket_or_new (ar_now q) (buckets d) k)\<lparr>bk_used := used_in (buckets d) k + 1\<rparr>)
                 else tget bk_id (buckets d) k) of
             None \<Rightarrow> None | Some b \<Rightarrow> if bk_expires_at b < ar_now q then None else Some b)))"
proof (cases "count_entries (ar_now q) (budget_entries sha q) (buckets d)")
  case None
  with assms count_entries_None_iff [OF _ entries_distinct, of "buckets d" "ar_now q" sha q] show ?thesis
    by (auto simp: reserve_attempt_def exhausted_def budget_ok_def list_ex_iff)
next
  case (Some t)
  with assms count_entries_None_iff [OF _ entries_distinct, of "buckets d" "ar_now q" sha q]
  have "\<not> exhausted sha q d" by (auto simp: exhausted_def budget_ok_def list_ex_iff)
  moreover note count_entries_Some [OF _ entries_distinct Some]
  ultimately show ?thesis
    using assms Some by (auto simp: reserve_attempt_def budget_ok_def tget_tdel keyed_tdel)
qed

section \<open>Metering\<close>

definition run_attempt :: "(string \<Rightarrow> string) \<Rightarrow> attempt_request \<Rightarrow> budget_db \<Rightarrow> budget_db" where
  "run_attempt sha q d = snd (reserve_attempt sha q d)"

text \<open>The ceiling of a key, by its kind, and the granted reservations that count on it.\<close>

definition limit_of :: "string \<Rightarrow> int" where
  "limit_of k = (if take 5 k = ''room:'' then 120 else if take 7 k = ''member:'' then 60 else 24)"

definition spends :: "(string \<Rightarrow> string) \<Rightarrow> string \<Rightarrow> attempt_request \<Rightarrow> budget_db \<Rightarrow> bool" where
  "spends sha k q d \<longleftrightarrow> fst (reserve_attempt sha q d) = Inr () \<and> k \<in> fst ` set (budget_entries sha q)"

text \<open>Requests of one day, and a bucket that outlives it.\<close>

definition within_day :: "time \<Rightarrow> attempt_request \<Rightarrow> bool" where
  "within_day t q \<longleftrightarrow> t \<le> ar_now q \<and> ar_now q \<le> t + days 1"

definition outlives_day :: "time \<Rightarrow> string \<Rightarrow> budget_db \<Rightarrow> bool" where
  "outlives_day t k d \<longleftrightarrow> budget_ok d \<and>
     (case tget bk_id (buckets d) k of None \<Rightarrow> True | Some b \<Rightarrow> t + days 1 \<le> bk_expires_at b \<and> 0 \<le> bk_used b)"

lemma entry_limit: "(k, l) \<in> set (budget_entries sha q) \<Longrightarrow> l = limit_of k"
  by (auto simp: set_entries limit_of_def)

lemma spends_below:
  assumes "budget_ok d" and "spends sha k q d"
  shows "used_in (buckets d) k < limit_of k"
proof -
  have "\<not> exhausted sha q d"
    using reserve_attempt_cases [OF assms(1), of q sha] assms(2) by (auto simp: spends_def split: if_splits)
  moreover obtain l where l: "(k, l) \<in> set (budget_entries sha q)"
    using assms(2) by (auto simp: spends_def)
  ultimately have "\<not> l \<le> used_in (buckets d) k"
    by (auto simp: exhausted_def list_ex_iff)
  with entry_limit [OF l] show ?thesis by simp
qed

lemma metered_step:
  assumes d: "outlives_day t k d" and q: "within_day t q"
  shows "outlives_day t k (run_attempt sha q d)
    \<and> used_in (buckets (run_attempt sha q d)) k = used_in (buckets d) k + (if spends sha k q d then 1 else 0)"
proof -
  have ok: "budget_ok d" using d by (simp add: outlives_day_def)
  note cases = reserve_attempt_cases [OF ok, of q sha]
  show ?thesis
  proof (cases "fst (reserve_attempt sha q d) = Inr ()")
    case False
    then have "run_attempt sha q d = d"
      using cases by (auto simp: run_attempt_def split: if_splits)
    with False d show ?thesis by (simp add: spends_def)
  next
    case True
    let ?d = "run_attempt sha q d" and ?in = "k \<in> fst ` set (budget_entries sha q)"
    have ok': "budget_ok ?d" and at: "tget bk_id (buckets ?d) k =
        (case (if ?in then Some ((bucket_or_new (ar_now q) (buckets d) k)\<lparr>bk_used := used_in (buckets d) k + 1\<rparr>)
               else tget bk_id (buckets d) k) of
           None \<Rightarrow> None | Some b \<Rightarrow> if bk_expires_at b < ar_now q then None else Some b)"
      using cases True by (auto simp: run_attempt_def split: if_splits)
    have "t + days 1 \<le> bk_expires_at (bucket_or_new (ar_now q) (buckets d) k)"
      and used: "0 \<le> used_in (buckets d) k"
      using d q by (auto simp: outlives_day_def within_day_def bucket_or_new_def used_in_def split: option.splits)
    moreover have "ar_now q \<le> t + days 1" using q by (simp add: within_day_def)
    moreover have "tget bk_id (buckets d) k = Some b \<Longrightarrow> t + days 1 \<le> bk_expires_at b \<and> 0 \<le> bk_used b" for b
      using d by (simp add: outlives_day_def)
    ultimately show ?thesis
      using at ok' True
      by (cases ?in; cases "tget bk_id (buckets d) k")
        (force simp: outlives_day_def spends_def used_in_def [of "buckets ?d"] used_in_def [of "buckets d"])+
  qed
qed

interpretation attempts: metered "run_attempt sha" "spends sha k" "\<lambda>d. nat (used_in (buckets d) k)"
    "nat (limit_of k)" "outlives_day t k" "within_day t" for sha k t
proof unfold_locales
  fix d q
  assume d: "outlives_day t k d" and q: "within_day t q"
  have ok: "budget_ok d" and used: "0 \<le> used_in (buckets d) k"
    using d by (auto simp: outlives_day_def used_in_def split: option.splits)
  note step = metered_step [OF d q, of sha]
  show "outlives_day t k (run_attempt sha q d)" using step by simp
  show "nat (used_in (buckets d) k) \<le> nat (used_in (buckets (run_attempt sha q d)) k)"
    using step by (intro nat_mono) simp
  show "nat (used_in (buckets d) k) < nat (limit_of k)
      \<and> nat (used_in (buckets (run_attempt sha q d)) k) = Suc (nat (used_in (buckets d) k))"
    if "spends sha k q d"
    using step spends_below [OF ok that] used that by (auto simp: nat_add_distrib)
qed

section \<open>Properties\<close>

definition demo_attempt :: attempt_request where
  "demo_attempt =
     \<lparr>ar_now = 0,
      ar_scope = \<lparr>sc_owner_id = ''o'', sc_connection_id = ''c'', sc_guild_id = ''g'',
                  sc_channel_id = ''ch'', sc_thread_id = []\<rparr>,
      ar_requester_id = ''u'', ar_operation_id = ''op''\<rparr>"

text \<open>The attempts of models stay within their ceilings, whatever is retried: within a day, the
  granted attempts that count on one bucket are at most what its ceiling leaves, which is 120 for a
  room and 60 for a member in a window of ten minutes, and 24 for an operation however it is spread.\<close>

theorem model_attempts_bounded:
  assumes "outlives_day t k d" and "list_all (within_day t) qs"
  shows "grant_count (run_attempt sha) (spends sha k) qs d \<le> nat (limit_of k) - nat (used_in (buckets d) k)"
  by (rule attempts.grants_within [OF assms])

theorem model_attempts_bounded_witness:
  "grant_count (run_attempt id) (spends id ''operation:c'') (replicate 30 demo_attempt) \<lparr>buckets = []\<rparr> \<le> 24"
proof -
  have "outlives_day 0 ''operation:c'' \<lparr>buckets = []\<rparr>" by code_simp
  moreover have "list_all (within_day 0) (replicate 30 demo_attempt)"
    by (simp add: list_all_iff within_day_def demo_attempt_def days_def hours_def minutes_def seconds_def)
  ultimately show ?thesis
    using model_attempts_bounded [of 0 "''operation:c''" "\<lparr>buckets = []\<rparr>" "replicate 30 demo_attempt" id]
    by (simp add: limit_of_def)
qed

text \<open>C22. Admission is all or nothing. An attempt is refused exactly when its member or operation is not
  named or one of its three buckets is exhausted, and a refusal leaves every bucket as it was; a
  granted attempt counts one on each of the three that is not past its expiry, and on no other.\<close>

theorem reservation_all_or_nothing:
  assumes "budget_ok d"
  shows "(isl (fst (reserve_attempt sha q d))
      \<longleftrightarrow> ar_requester_id q = [] \<or> ar_operation_id q = [] \<or> exhausted sha q d)
    \<and> (if isl (fst (reserve_attempt sha q d)) then snd (reserve_attempt sha q d) = d
       else \<forall>k. used_in (buckets (snd (reserve_attempt sha q d))) k =
         (if bk_expires_at (bucket_or_new (ar_now q) (buckets d) k) < ar_now q then 0
          else used_in (buckets d) k + (if k \<in> fst ` set (budget_entries sha q) then 1 else 0)))"
proof -
  note cases = reserve_attempt_cases [OF assms, of q sha]
  show ?thesis
  proof (cases "ar_requester_id q = [] \<or> ar_operation_id q = [] \<or> exhausted sha q d")
    case True
    with cases show ?thesis by (auto split: if_splits)
  next
    case False
    then have known: "\<not> (ar_requester_id q = [] \<or> ar_operation_id q = [])" and room: "\<not> exhausted sha q d"
      by blast+
    obtain d' where d': "reserve_attempt sha q d = (Inr (), d')"
      and at: "\<And>k. tget bk_id (buckets d') k =
        (case (if k \<in> fst ` set (budget_entries sha q)
               then Some ((bucket_or_new (ar_now q) (buckets d) k)\<lparr>bk_used := used_in (buckets d) k + 1\<rparr>)
               else tget bk_id (buckets d) k) of
           None \<Rightarrow> None | Some b \<Rightarrow> if bk_expires_at b < ar_now q then None else Some b)"
      using cases [unfolded if_not_P [OF known] if_not_P [OF room]] by blast
    have "used_in (buckets d') k =
        (if bk_expires_at (bucket_or_new (ar_now q) (buckets d) k) < ar_now q then 0
         else used_in (buckets d) k + (if k \<in> fst ` set (budget_entries sha q) then 1 else 0))" for k
      by (cases "tget bk_id (buckets d) k"; cases "k \<in> fst ` set (budget_entries sha q)")
        (auto simp: used_in_def at bucket_or_new_def)
    with False d' show ?thesis by simp
  qed
qed

theorem reservation_all_or_nothing_witness:
  "fst (reserve_attempt id demo_attempt \<lparr>buckets = []\<rparr>) = Inr ()
   \<and> (\<forall>k. used_in (buckets (snd (reserve_attempt id demo_attempt \<lparr>buckets = []\<rparr>))) k =
        (if k \<in> fst ` set (budget_entries id demo_attempt) then 1 else 0))"
proof -
  have ok: "budget_ok \<lparr>buckets = []\<rparr>" by (simp add: budget_ok_def)
  have g: "fst (reserve_attempt id demo_attempt \<lparr>buckets = []\<rparr>) = Inr ()" by code_simp
  have "\<not> bk_expires_at (bucket_or_new (ar_now demo_attempt) [] k) < ar_now demo_attempt" for k
    by (simp add: bucket_or_new_def days_def hours_def minutes_def seconds_def)
  with reservation_all_or_nothing [OF ok, of id demo_attempt] g show ?thesis
    by (simp add: used_in_def [of "[]"])
qed

end
