(* ===== verification/Pending_Actions.thy ===== *)
theory Pending_Actions
  imports Json Contracts "HOL-Library.Sublist"
begin

text \<open>
  Pending tool actions: the durable requests of \<open>persistence/pending_action_repository.py\<close> and
  \<open>PendingActionService\<close> of \<open>pending_actions.py\<close>, which decides whether a message continues one.
  An action waits until its requester continues it in the same place, and is executed by whoever
  moves it to \<open>in_progress\<close>.
\<close>

section \<open>Rows and views\<close>

record pending_action =
  pa_id :: string
  pa_owner_id :: string
  pa_connection_id :: string
  pa_guild_id :: string
  pa_channel_id :: string
  pa_thread_id :: string
  pa_source_message_id :: string
  pa_requested_by :: string
  pa_card_id :: string
  pa_deployment_id :: string
  pa_tool_id :: string
  pa_intent_summary :: prose
  pa_state :: string
  pa_expires_at :: "time option"
  pa_created_at :: time
  pa_updated_at :: time

record action_db =
  actions :: "pending_action list"

interpretation action_table: db_table actions actions_update pa_id
  by unfold_locales simp

abbreviation get_action :: "action_db \<Rightarrow> string \<Rightarrow> pending_action option" where
  "get_action d k \<equiv> tget pa_id (actions d) k"

record action_view =
  av_id :: string
  av_channel_id :: string
  av_thread_id :: string
  av_source_message_id :: string
  av_requested_by :: string
  av_card_id :: string
  av_deployment_id :: string
  av_tool_id :: string
  av_intent_summary :: prose
  av_state :: string
  av_expires_at :: "time option"
  av_created_at :: time
  av_updated_at :: time

definition pending_action_view :: "pending_action \<Rightarrow> action_view" where
  "pending_action_view r =
     \<lparr>av_id = pa_id r, av_channel_id = pa_channel_id r, av_thread_id = pa_thread_id r,
      av_source_message_id = pa_source_message_id r, av_requested_by = pa_requested_by r,
      av_card_id = pa_card_id r, av_deployment_id = pa_deployment_id r, av_tool_id = pa_tool_id r,
      av_intent_summary = pa_intent_summary r, av_state = pa_state r,
      av_expires_at = pa_expires_at r, av_created_at = pa_created_at r,
      av_updated_at = pa_updated_at r\<rparr>"

text \<open>The states that may be resumed, that are unresolved, and that an action never leaves.\<close>

definition resumable_states :: "string list" where
  "resumable_states = [''pending'', ''blocked_unavailable'']"

definition unresolved_states :: "string list" where
  "unresolved_states = [''pending'', ''in_progress'', ''blocked_unavailable'']"

definition final_states :: "string list" where
  "final_states = [''completed'', ''cancelled'', ''expired'']"

section \<open>The repository\<close>

text \<open>The task that an action belongs to, in the order of the service's idempotency key.\<close>

record action_scope =
  as_owner_id :: string
  as_connection_id :: string
  as_guild_id :: string
  as_channel_id :: string
  as_thread_id :: string
  as_requested_by :: string
  as_card_id :: string
  as_deployment_id :: string

text \<open>
  An idempotency key is the JSON text of a list of texts, named by that list (none if empty); its
  UUID is \<open>uuid5\<close>, an argument. Without a key the identifier is a fresh one.
\<close>

definition action_id :: "(string list \<Rightarrow> string) \<Rightarrow> string list \<Rightarrow> string \<Rightarrow> string" where
  "action_id uuid5 key fresh = (if key \<noteq> [] then uuid5 key else fresh)"

definition new_action ::
  "time \<Rightarrow> string \<Rightarrow> action_scope \<Rightarrow> string \<Rightarrow> string \<Rightarrow> prose \<Rightarrow> string \<Rightarrow> time option \<Rightarrow> pending_action" where
  "new_action now k sc source tool summary state expires =
     \<lparr>pa_id = k, pa_owner_id = as_owner_id sc, pa_connection_id = as_connection_id sc,
      pa_guild_id = as_guild_id sc, pa_channel_id = as_channel_id sc, pa_thread_id = as_thread_id sc,
      pa_source_message_id = take 200 source, pa_requested_by = take 200 (as_requested_by sc),
      pa_card_id = take 64 (as_card_id sc), pa_deployment_id = take 64 (as_deployment_id sc),
      pa_tool_id = take 160 tool, pa_intent_summary = take 2000 (squeeze summary),
      pa_state = take 32 state, pa_expires_at = expires, pa_created_at = now, pa_updated_at = now\<rparr>"

definition create_action ::
  "(string list \<Rightarrow> string) \<Rightarrow> time \<Rightarrow> string \<Rightarrow> string list \<Rightarrow> action_scope \<Rightarrow> string \<Rightarrow> string \<Rightarrow> prose
    \<Rightarrow> string \<Rightarrow> time option \<Rightarrow> action_db \<Rightarrow> (action_view, action_db) outcome" where
  "create_action uuid5 now fresh key sc source tool summary state expires d =
     (let r = new_action now (action_id uuid5 key fresh) sc source tool summary state expires in
      case get_action d (pa_id r) of
        None \<Rightarrow> (Inr (pending_action_view r), d\<lparr>actions := tins r (actions d)\<rparr>)
      | Some existing \<Rightarrow>
          if key = [] \<or> pa_owner_id existing \<noteq> as_owner_id sc then (Inl IntegrityError, d)
          else (Inr (pending_action_view existing), d))"

definition claimable_action :: "time \<Rightarrow> string \<Rightarrow> pending_action \<Rightarrow> bool" where
  "claimable_action now owner r \<longleftrightarrow>
     pa_owner_id r = owner \<and> pa_state r \<in> set resumable_states
     \<and> (case pa_expires_at r of None \<Rightarrow> True | Some t \<Rightarrow> now < t)"

definition claim_action ::
  "time \<Rightarrow> string \<Rightarrow> string \<Rightarrow> action_db \<Rightarrow> action_view option \<times> action_db" where
  "claim_action now owner k d =
     (let matching = (\<lambda>r. pa_id r = k \<and> claimable_action now owner r);
          rows = tset matching (\<lambda>r. r\<lparr>pa_state := ''in_progress'', pa_updated_at := now\<rparr>) (actions d) in
      if tcount matching (actions d) = 1
      then (map_option pending_action_view (tget pa_id rows k), d\<lparr>actions := rows\<rparr>)
      else (None, d))"

text \<open>The exact task, unresolved, the latest first; what has expired is marked and left out.\<close>

definition in_action_scope :: "action_scope \<Rightarrow> pending_action \<Rightarrow> bool" where
  "in_action_scope sc r \<longleftrightarrow>
     pa_owner_id r = as_owner_id sc \<and> pa_connection_id r = as_connection_id sc
     \<and> pa_guild_id r = as_guild_id sc \<and> pa_state r \<in> set unresolved_states
     \<and> pa_requested_by r = as_requested_by sc \<and> pa_card_id r = as_card_id sc
     \<and> pa_deployment_id r = as_deployment_id sc \<and> pa_channel_id r = as_channel_id sc
     \<and> pa_thread_id r = as_thread_id sc"

definition action_expired :: "time \<Rightarrow> pending_action \<Rightarrow> bool" where
  "action_expired now r \<longleftrightarrow> (case pa_expires_at r of None \<Rightarrow> False | Some t \<Rightarrow> t \<le> now)"

definition action_rows :: "int \<Rightarrow> action_scope \<Rightarrow> action_db \<Rightarrow> pending_action list" where
  "action_rows limit sc d =
     tlimit (clip 1 100 limit)
       (sort_key (\<lambda>r. - pa_updated_at r) (filter (in_action_scope sc) (actions d)))"

definition active_actions ::
  "time \<Rightarrow> int \<Rightarrow> action_scope \<Rightarrow> action_db \<Rightarrow> action_view list \<times> action_db" where
  "active_actions now limit sc d =
     (let rows = action_rows limit sc d;
          expired = map pa_id (filter (action_expired now) rows) in
      (map pending_action_view (filter (\<lambda>r. \<not> action_expired now r) rows),
       d\<lparr>actions := tset (\<lambda>r. pa_id r \<in> set expired)
            (\<lambda>r. r\<lparr>pa_state := ''expired'', pa_updated_at := now\<rparr>) (actions d)\<rparr>))"

definition pending_action_of :: "string \<Rightarrow> string \<Rightarrow> action_db \<Rightarrow> action_view option" where
  "pending_action_of owner k d =
     (case get_action d k of
        None \<Rightarrow> None
      | Some r \<Rightarrow> if pa_owner_id r \<noteq> owner then None else Some (pending_action_view r))"

definition update_action_state ::
  "time \<Rightarrow> string \<Rightarrow> string \<Rightarrow> string \<Rightarrow> action_db \<Rightarrow> (action_view option, action_db) outcome" where
  "update_action_state now owner k state d =
     (if state \<notin> set (unresolved_states @ final_states)
      then (Inl (ValueError ''invalid_pending_action_state''), d)
      else
        (case get_action d k of
           None \<Rightarrow> (Inr None, d)
         | Some r \<Rightarrow>
             if pa_owner_id r \<noteq> owner then (Inr None, d)
             else if pa_state r \<in> set final_states \<and> state \<noteq> pa_state r then (Inr None, d)
             else
               (let r' = r\<lparr>pa_state := state, pa_updated_at := now\<rparr> in
                (Inr (Some (pending_action_view r')),
                 d\<lparr>actions := tset (\<lambda>r. pa_id r = k)
                      (\<lambda>r. r\<lparr>pa_state := state, pa_updated_at := now\<rparr>) (actions d)\<rparr>))))"

section \<open>The service\<close>

definition action_key :: "action_scope \<Rightarrow> string \<Rightarrow> string \<Rightarrow> string list" where
  "action_key sc source tool =
     [as_owner_id sc, as_connection_id sc, as_guild_id sc, as_channel_id sc, as_thread_id sc, source,
      as_requested_by sc, as_card_id sc, as_deployment_id sc, tool]"

definition register_action ::
  "(string list \<Rightarrow> string) \<Rightarrow> time \<Rightarrow> action_scope \<Rightarrow> string \<Rightarrow> string \<Rightarrow> prose \<Rightarrow> string \<Rightarrow> time option
    \<Rightarrow> action_db \<Rightarrow> (action_view, action_db) outcome" where
  "register_action uuid5 now sc source tool summary state expires d =
     (let (existing, d1) = active_actions now 20 sc d in
      case find (\<lambda>v. av_source_message_id v = source \<and> av_tool_id v = tool) existing of
        Some v \<Rightarrow> (Inr v, d1)
      | None \<Rightarrow>
          create_action uuid5 now [] (action_key sc source tool) sc source tool summary state expires d1)"

text \<open>The cues, and \<open>str.lower\<close> as an argument (Unicode's case mapping).\<close>

definition continue_cues :: "prose list" where
  "continue_cues =
     [[32380, 32396], [32487, 32493], [20877, 35430], [20877, 35797], [37325, 35430],
      [37325, 35797], [21083, 25165, 37027, 20491], [21018, 25165, 37027, 20010],
      [37027, 20491], [37027, 20010], [36889, 20491], [36825, 20010], [29031, 21083, 25165],
      [29031, 21018, 25165], points ''continue'', points ''retry'', points ''again'',
      points ''that one'', points ''the same'', points ''go ahead'', points ''please do'',
      points ''yes please'', points ''proceed'']"

definition cancel_cues :: "prose list" where
  "cancel_cues =
     [[31639, 20102], [19981, 29992, 20102], [21462, 28040], [21029, 20570], [21035, 20570],
      [20572, 27490], points ''cancel'', points ''never mind'', points ''nevermind'',
      points ''stop'']"

definition normalized_text :: "(prose \<Rightarrow> prose) \<Rightarrow> prose \<Rightarrow> prose" where
  "normalized_text lower text = take 4000 (squeeze (lower text))"

definition has_continue_cue :: "(prose \<Rightarrow> prose) \<Rightarrow> prose \<Rightarrow> bool" where
  "has_continue_cue lower text = list_ex (\<lambda>cue. sublist cue (normalized_text lower text)) continue_cues"

definition has_cancel_cue :: "(prose \<Rightarrow> prose) \<Rightarrow> prose \<Rightarrow> bool" where
  "has_cancel_cue lower text = list_ex (\<lambda>cue. sublist cue (normalized_text lower text)) cancel_cues"

datatype continuation_source = ExplicitReply | SameNativeThread | Cancelled | NoContinuation

text \<open>The confidence is 1.0 for every source but \<open>none\<close>, where it is 0.0.\<close>

record continuation =
  ct_action :: "action_view option"
  ct_source :: continuation_source
  ct_reason :: string
  ct_suppressed_tool_ids :: "string list"

definition no_continuation :: "string \<Rightarrow> string list \<Rightarrow> continuation" where
  "no_continuation reason suppressed =
     \<lparr>ct_action = None, ct_source = NoContinuation, ct_reason = reason,
      ct_suppressed_tool_ids = suppressed\<rparr>"

text \<open>
  The one action that the message addresses: cancelled, not continued, or continued. \<open>others\<close> is
  what other sessions commit between the reading of the candidates and the update.
\<close>

definition decide_continuation ::
  "(prose \<Rightarrow> prose) \<Rightarrow> (action_db \<Rightarrow> action_db) \<Rightarrow> time \<Rightarrow> string \<Rightarrow> prose \<Rightarrow> continuation_source \<Rightarrow> string
    \<Rightarrow> string \<Rightarrow> action_view \<Rightarrow> action_db \<Rightarrow> (continuation, action_db) outcome" where
  "decide_continuation lower others now owner message source cancelled continued v d =
     (if has_cancel_cue lower message then
        (let d1 = others d in
         case update_action_state now owner (av_id v) ''cancelled'' d1 of
           (Inl e, d2) \<Rightarrow> (Inl e, d2)
         | (Inr updated, d2) \<Rightarrow>
             (Inr \<lparr>ct_action = updated, ct_source = Cancelled, ct_reason = cancelled,
                   ct_suppressed_tool_ids = [av_tool_id v]\<rparr>, d2))
      else if \<not> has_continue_cue lower message then
        (Inr (no_continuation ''continuation_intent_required'' [av_tool_id v]), d)
      else
        (Inr \<lparr>ct_action = Some v, ct_source = source, ct_reason = continued,
              ct_suppressed_tool_ids = []\<rparr>, d))"

definition candidate_actions :: "string list \<Rightarrow> action_view list \<Rightarrow> action_view list" where
  "candidate_actions assigned vs =
     (if assigned \<noteq> [] then filter (\<lambda>v. av_tool_id v \<in> set assigned) vs else vs)"

definition resume_candidates :: "action_view list \<Rightarrow> action_view list" where
  "resume_candidates vs = filter (\<lambda>v. av_state v \<in> set resumable_states) vs"

definition resolve_continuation ::
  "(prose \<Rightarrow> prose) \<Rightarrow> (action_db \<Rightarrow> action_db) \<Rightarrow> time \<Rightarrow> action_scope \<Rightarrow> prose \<Rightarrow> string \<Rightarrow> string list
    \<Rightarrow> action_db \<Rightarrow> (continuation, action_db) outcome" where
  "resolve_continuation lower others now sc message reply_to assigned d =
     (let (active, d1) = active_actions now 20 sc d;
          candidates = candidate_actions assigned active;
          tools = fromkeys (map av_tool_id candidates);
          resumable = resume_candidates candidates in
      if candidates = [] then (Inr (no_continuation ''no_active_action'' []), d1)
      else if resumable = [] then (Inr (no_continuation ''action_execution_uncertain'' tools), d1)
      else if reply_to \<noteq> [] then
        (case filter (\<lambda>v. av_source_message_id v = reply_to) resumable of
           [v] \<Rightarrow>
             decide_continuation lower others now (as_owner_id sc) message ExplicitReply
               ''explicit_reply_cancel'' ''reply_to_pending_action_source'' v d1
         | _ \<Rightarrow> (Inr (no_continuation ''reply_does_not_identify_unique_pending_action'' tools), d1))
      else
        (case filter (\<lambda>v. as_thread_id sc \<noteq> [] \<and> av_thread_id v = as_thread_id sc) resumable of
           [v] \<Rightarrow>
             decide_continuation lower others now (as_owner_id sc) message SameNativeThread
               ''native_thread_cancel'' ''unique_native_thread_pending_action'' v d1
         | _ \<Rightarrow> (Inr (no_continuation ''continuation_reply_required'' tools), d1)))"

end
