(* ===== verification/Pending_Safety.thy ===== *)
theory Pending_Safety
  imports Pending_Actions
begin

text \<open>
  The life of a pending action, as a specification that every operation of the repository follows
  (\<open>action_life\<close>, an interpretation of \<open>simulation\<close>); from it, that an action is executed at most
  once and that its final states are final. Then which message continues an action.
\<close>

section \<open>Operations\<close>

datatype action_op =
    CreateAction time string "string list" action_scope string string prose string "time option"
  | ClaimAction time string string
  | ListActions time int action_scope
  | SetActionState time string string string

definition run_action :: "(string list \<Rightarrow> string) \<Rightarrow> action_op \<Rightarrow> action_db \<Rightarrow> action_db" where
  "run_action uuid5 x d =
     (case x of
        CreateAction now fresh key sc source tool summary state expires \<Rightarrow>
          snd (create_action uuid5 now fresh key sc source tool summary state expires d)
      | ClaimAction now owner k \<Rightarrow> snd (claim_action now owner k d)
      | ListActions now limit sc \<Rightarrow> snd (active_actions now limit sc d)
      | SetActionState now owner k state \<Rightarrow> snd (update_action_state now owner k state d))"

definition actions_ok :: "action_db \<Rightarrow> bool" where
  "actions_ok d \<longleftrightarrow> keyed pa_id (actions d)"

definition action_state :: "action_db \<Rightarrow> string \<Rightarrow> string option" where
  "action_state d k = map_option pa_state (get_action d k)"

section \<open>The specification of its life\<close>

datatype life_event = Open string | Begin | Lapse | Assign string | Idle

inductive life_step :: "life_event \<Rightarrow> string option \<Rightarrow> string option \<Rightarrow> bool" where
  opened: "life_step (Open s) None (Some s)"
| begun: "s \<in> set resumable_states \<Longrightarrow> life_step Begin (Some s) (Some ''in_progress'')"
| lapsed: "s \<in> set unresolved_states \<Longrightarrow> life_step Lapse (Some s) (Some ''expired'')"
| assigned: "t \<in> set (unresolved_states @ final_states) \<Longrightarrow> s \<in> set final_states \<longrightarrow> t = s \<Longrightarrow>
    life_step (Assign t) (Some s) (Some t)"
| idle: "life_step Idle v v"

inductive_cases life_step_SomeE: "life_step e (Some s) v"

definition life_event :: "(string list \<Rightarrow> string) \<Rightarrow> string \<Rightarrow> action_op \<Rightarrow> action_db \<Rightarrow> life_event" where
  "life_event uuid5 k x d =
     (case x of
        CreateAction now fresh key sc source tool summary state expires \<Rightarrow>
          if action_id uuid5 key fresh = k \<and> get_action d k = None then Open (take 32 state) else Idle
      | ClaimAction now owner i \<Rightarrow>
          if i = k \<and> fst (claim_action now owner i d) \<noteq> None then Begin else Idle
      | ListActions now limit sc \<Rightarrow>
          if k \<in> pa_id ` set (filter (action_expired now) (action_rows limit sc d)) then Lapse else Idle
      | SetActionState now owner i state \<Rightarrow>
          (case get_action d i of
             None \<Rightarrow> Idle
           | Some r \<Rightarrow>
               if i = k \<and> state \<in> set (unresolved_states @ final_states) \<and> pa_owner_id r = owner
                  \<and> (pa_state r \<in> set final_states \<longrightarrow> state = pa_state r)
               then Assign state else Idle))"

lemma claim_action_cases:
  assumes "actions_ok d"
  shows "(case get_action d k of
     None \<Rightarrow> claim_action now owner k d = (None, d)
   | Some r \<Rightarrow>
       if claimable_action now owner r
       then fst (claim_action now owner k d) \<noteq> None
          \<and> snd (claim_action now owner k d) = d\<lparr>actions := tset (\<lambda>r. pa_id r = k)
              (\<lambda>r. r\<lparr>pa_state := ''in_progress'', pa_updated_at := now\<rparr>) (actions d)\<rparr>
       else claim_action now owner k d = (None, d))"
proof -
  have keyed: "keyed pa_id (actions d)" using assms by (simp add: actions_ok_def)
  show ?thesis
  proof (cases "get_action d k")
    case None
    with tcount_key [OF keyed, of k "claimable_action now owner"] show ?thesis
      by (simp add: claim_action_def Let_def)
  next
    case (Some r)
    have "tset (\<lambda>s. pa_id s = k \<and> claimable_action now owner s) f (actions d) = tset (\<lambda>s. pa_id s = k) f (actions d)"
      if "claimable_action now owner r" for f
    proof -
      have "s = r" if "s \<in> set (actions d)" "pa_id s = k" for s
        using keyed_eq [OF keyed that(1) tget_mem [OF Some]] that(2) tget_key [OF Some] by simp
      with that show ?thesis unfolding tset_def by (intro map_cong) auto
    qed
    with Some tcount_key [OF keyed, of k "claimable_action now owner"] show ?thesis
      by (auto simp: claim_action_def Let_def tget_tset)
  qed
qed

lemma run_action_ok: "actions_ok d \<Longrightarrow> actions_ok (run_action uuid5 x d)"
  using claim_action_cases [of d]
  by (cases x)
    (auto simp: run_action_def actions_ok_def create_action_def active_actions_def update_action_state_def
      claim_action_def Let_def keyed_tins keyed_tset split: option.splits)

lemma action_simulates:
  assumes ok: "actions_ok d"
  shows "life_step (life_event uuid5 k x d) (action_state d k) (action_state (run_action uuid5 x d) k)"
proof (cases x)
  case (CreateAction now fresh key sc source tool summary state expires)
  let ?i = "action_id uuid5 key fresh"
  have id: "pa_id (new_action now i sc source tool summary state expires) = i"
      "pa_state (new_action now i sc source tool summary state expires) = take 32 state" for i
    by (simp_all add: new_action_def)
  show ?thesis
  proof (cases "get_action d ?i")
    case None
    with CreateAction show ?thesis
      by (auto simp: run_action_def create_action_def Let_def id life_event_def action_state_def tget_tins
          split: option.split intro: life_step.intros)
  next
    case (Some r)
    with CreateAction have "run_action uuid5 x d = d" by (simp add: run_action_def create_action_def Let_def id)
    moreover have "life_event uuid5 k x d = Idle" using CreateAction Some by (auto simp: life_event_def)
    ultimately show ?thesis by (simp add: idle)
  qed
next
  case (ClaimAction now owner i)
  note claim = claim_action_cases [OF ok, where k = i and now = now and owner = owner]
  show ?thesis
  proof (cases "\<exists>r. get_action d i = Some r \<and> claimable_action now owner r")
    case True
    then obtain r where r: "get_action d i = Some r" "claimable_action now owner r" by blast
    with claim have got: "fst (claim_action now owner i d) \<noteq> None"
      and d': "run_action uuid5 x d = d\<lparr>actions := tset (\<lambda>r. pa_id r = i)
              (\<lambda>r. r\<lparr>pa_state := ''in_progress'', pa_updated_at := now\<rparr>) (actions d)\<rparr>"
      using ClaimAction by (auto simp: run_action_def)
    have "action_state (run_action uuid5 x d) k =
        (if k = i then Some ''in_progress'' else action_state d k)"
      using action_table.get_modify [of "\<lambda>r. r\<lparr>pa_state := ''in_progress'', pa_updated_at := now\<rparr>" i d k] r(1)
      unfolding d' by (simp add: action_state_def)
    with ClaimAction got r show ?thesis
      by (auto simp: life_event_def action_state_def claimable_action_def intro: life_step.intros)
  next
    case False
    with claim have "claim_action now owner i d = (None, d)" by (auto split: option.splits)
    with ClaimAction show ?thesis by (simp add: run_action_def life_event_def idle)
  qed
next
  case (ListActions now limit sc)
  let ?ids = "pa_id ` set (filter (action_expired now) (action_rows limit sc d))"
  have after: "action_state (run_action uuid5 x d) k = (if k \<in> ?ids \<and> get_action d k \<noteq> None then Some ''expired'' else action_state d k)"
  proof (cases "get_action d k")
    case (Some r)
    then have "pa_id r = k" by (rule tget_key)
    with Some ListActions show ?thesis
      by (simp add: run_action_def active_actions_def Let_def action_state_def tget_tset)
  qed (use ListActions in \<open>simp add: run_action_def active_actions_def Let_def action_state_def tget_tset\<close>)
  show ?thesis
  proof (cases "k \<in> ?ids")
    case True
    then obtain r where r: "r \<in> set (action_rows limit sc d)" "pa_id r = k" by auto
    then have mem: "r \<in> set (actions d)" and "in_action_scope sc r"
      unfolding action_rows_def tlimit_def by (auto dest!: in_set_takeD)
    then have "get_action d k = Some r" and "pa_state r \<in> set unresolved_states"
      using ok tget_self [of pa_id "actions d" r] r(2) by (auto simp: actions_ok_def in_action_scope_def)
    with True after ListActions show ?thesis
      by (auto simp: life_event_def action_state_def intro: life_step.intros)
  next
    case False
    with after ListActions show ?thesis by (auto simp: life_event_def idle)
  qed
next
  case (SetActionState now owner i state)
  show ?thesis
  proof (cases "get_action d i")
    case None
    with SetActionState show ?thesis
      by (simp add: run_action_def update_action_state_def life_event_def idle)
  next
    case (Some r)
    let ?f = "\<lambda>r. r\<lparr>pa_state := state, pa_updated_at := now\<rparr>"
    have "action_state (d\<lparr>actions := tset (\<lambda>r. pa_id r = i) ?f (actions d)\<rparr>) k =
        (if k = i then Some state else action_state d k)"
      using action_table.get_modify [of ?f i d k] Some by (simp add: action_state_def)
    with SetActionState Some show ?thesis
      by (auto simp: run_action_def update_action_state_def life_event_def Let_def action_state_def
          intro!: assigned idle)
  qed
qed

interpretation action_life: simulation "run_action uuid5" actions_ok action_state "life_event uuid5" life_step
  for uuid5
  by unfold_locales (auto intro: run_action_ok action_simulates)

section \<open>Executed at most once\<close>

definition begins :: "string \<Rightarrow> action_op \<Rightarrow> action_db \<Rightarrow> bool" where
  "begins k x d \<longleftrightarrow>
     (case x of ClaimAction now owner i \<Rightarrow> i = k \<and> fst (claim_action now owner i d) \<noteq> None | _ \<Rightarrow> False)"

definition resets_action :: "string \<Rightarrow> action_op \<Rightarrow> bool" where
  "resets_action k x \<longleftrightarrow>
     (case x of SetActionState now owner i state \<Rightarrow> i = k \<and> state \<in> set resumable_states | _ \<Rightarrow> False)"

text \<open>An action that may still be begun, or may still be created.\<close>

definition open_action :: "string \<Rightarrow> action_db \<Rightarrow> bool" where
  "open_action k d \<longleftrightarrow> (case action_state d k of None \<Rightarrow> True | Some s \<Rightarrow> s \<in> set resumable_states)"

lemma life_event_begins: "begins k x d \<Longrightarrow> life_event uuid5 k x d = Begin"
  by (auto simp: begins_def life_event_def split: action_op.splits)

lemma life_event_assign:
  "life_event uuid5 k x d = Assign s \<Longrightarrow> s \<in> set resumable_states \<Longrightarrow> resets_action k x"
  by (auto simp: life_event_def resets_action_def split: action_op.splits if_splits option.splits)

interpretation execution: at_most_once "run_action uuid5" "begins k" "open_action k" "resets_action k" actions_ok
  for uuid5 k
proof unfold_locales
  fix x d
  assume ok: "actions_ok d"
  then show "actions_ok (run_action uuid5 x d)" by (rule run_action_ok)
  note step = action_simulates [OF ok, of uuid5 k x]
  show "open_action k d" and "\<not> open_action k (run_action uuid5 x d)" if "begins k x d"
    using step life_event_begins [OF that, of uuid5]
    by (auto simp: open_action_def resumable_states_def elim: life_step.cases)
  show "\<not> open_action k (run_action uuid5 x d)" if closed: "\<not> open_action k d" and "\<not> resets_action k x"
  proof -
    obtain s where s: "action_state d k = Some s" "s \<notin> set resumable_states"
      using closed by (auto simp: open_action_def split: option.splits)
    show ?thesis
      using step [unfolded s(1)] s(2) that(2) life_event_assign [of uuid5 k x d]
      by (cases rule: life_step_SomeE) (auto simp: open_action_def resumable_states_def)
  qed
next
  fix x d assume "resets_action k x"
  then show "\<not> begins k x d" by (auto simp: resets_action_def begins_def split: action_op.splits)
qed

definition final_state :: "action_db \<Rightarrow> string \<Rightarrow> string option" where
  "final_state d k = (if actions_ok d then action_state d k else None)"

interpretation ended_action: terminal_status "run_action uuid5" final_state "\<lambda>s. s \<in> set final_states" "\<lambda>_. False"
  for uuid5
proof unfold_locales
  fix d k v x
  assume "final_state d k = Some v" and v: "v \<in> set final_states"
  then have ok: "actions_ok d" and s: "action_state d k = Some v"
    by (auto simp: final_state_def split: if_splits)
  from action_simulates [OF ok, of uuid5 k x, unfolded s] v
  have "action_state (run_action uuid5 x d) k = Some v"
    by (cases rule: life_step_SomeE) (auto simp: resumable_states_def unresolved_states_def final_states_def)
  with run_action_ok [OF ok] show "final_state (run_action uuid5 x d) k = Some v"
    by (simp add: final_state_def)
qed


section \<open>Which message continues an action\<close>

lemma active_views:
  assumes "active_actions now limit sc d = (vs, d1)" and "v \<in> set vs"
  shows "\<exists>r \<in> set (actions d). v = pending_action_view r \<and> in_action_scope sc r \<and> \<not> action_expired now r"
proof -
  obtain r where r: "r \<in> set (action_rows limit sc d)" "\<not> action_expired now r" "v = pending_action_view r"
    using assms by (auto simp: active_actions_def Let_def)
  have "r \<in> set (actions d) \<and> in_action_scope sc r"
    using r(1) unfolding action_rows_def tlimit_def by (auto dest!: in_set_takeD)
  with r show ?thesis by blast
qed

lemma decide_continuation_cases:
  assumes "decide_continuation lower others now owner message source cancelled continued v d = (Inr c, d')"
  obtains (cancelled) "has_cancel_cue lower message" "ct_source c = Cancelled"
      "ct_suppressed_tool_ids c = [av_tool_id v]"
      "ct_action c = None \<or> action_state d' (av_id v) = Some ''cancelled''"
    | (declined) "\<not> has_continue_cue lower message" "c = no_continuation ''continuation_intent_required'' [av_tool_id v]"
    | (continued) "has_continue_cue lower message" "\<not> has_cancel_cue lower message" "ct_source c = source"
      "ct_action c = Some v"
proof (cases "has_cancel_cue lower message")
  case True
  let ?d = "others d"
  obtain upd where upd: "update_action_state now owner (av_id v) ''cancelled'' ?d = (Inr upd, d')"
    and c: "c = \<lparr>ct_action = upd, ct_source = Cancelled, ct_reason = cancelled,
        ct_suppressed_tool_ids = [av_tool_id v]\<rparr>"
    using assms True by (auto simp: decide_continuation_def Let_def split: prod.splits sum.splits)
  have "upd = None \<or> action_state d' (av_id v) = Some ''cancelled''"
    using upd
    by (auto simp: update_action_state_def Let_def action_state_def tget_tset dest: tget_key
        split: option.splits if_splits)
  with True c show thesis by (intro cancelled) simp_all
next
  case False
  with assms show thesis
    by (cases "has_continue_cue lower message")
      (auto simp: decide_continuation_def intro: declined continued)
qed

text \<open>The action that a message addresses: the one it replies to, or the one of its native thread.\<close>

definition addressed :: "action_scope \<Rightarrow> string \<Rightarrow> action_view \<Rightarrow> bool" where
  "addressed sc reply_to v \<longleftrightarrow>
     (if reply_to \<noteq> [] then av_source_message_id v = reply_to
      else as_thread_id sc \<noteq> [] \<and> av_thread_id v = as_thread_id sc)"

lemma resolve_continuation_cases:
  assumes "resolve_continuation lower others now sc message reply_to assigned d = (Inr c, d')"
    and "active_actions now 20 sc d = (vs, d1)"
  obtains (nothing) reason tools where "c = no_continuation reason tools"
    | (one) v source cancelled continued where
      "filter (addressed sc reply_to) (resume_candidates (candidate_actions assigned vs)) = [v]"
      "decide_continuation lower others now (as_owner_id sc) message source cancelled continued v d1 = (Inr c, d')"
      "source = (if reply_to \<noteq> [] then ExplicitReply else SameNativeThread)"
proof -
  let ?r = "resume_candidates (candidate_actions assigned vs)"
  note res = assms(1) [unfolded resolve_continuation_def Let_def assms(2) prod.case]
  show thesis
  proof (cases "candidate_actions assigned vs = [] \<or> ?r = []")
    case True
    with res obtain reason tools where "c = no_continuation reason tools" by (auto split: if_splits)
    then show thesis by (rule nothing)
  next
    case False
    show thesis
    proof (cases "\<exists>v. filter (addressed sc reply_to) ?r = [v]")
      case True
      then obtain v where v: "filter (addressed sc reply_to) ?r = [v]" by blast
      show thesis
      proof (cases "reply_to \<noteq> []")
        case True
        then have "addressed sc reply_to = (\<lambda>v. av_source_message_id v = reply_to)"
          by (auto simp: addressed_def)
        with True False v res show thesis by (intro one [OF v]) auto
      next
        case False
        then have "addressed sc reply_to = (\<lambda>v. as_thread_id sc \<noteq> [] \<and> av_thread_id v = as_thread_id sc)"
          by (auto simp: addressed_def)
        with False \<open>\<not> (candidate_actions assigned vs = [] \<or> ?r = [])\<close> v res
        show thesis by (intro one [OF v]) auto
      qed
    next
      case many: False
      then have "filter (\<lambda>v. av_source_message_id v = reply_to) ?r \<noteq> [v]" if "reply_to \<noteq> []" for v
        using that by (simp add: addressed_def [abs_def])
      moreover have "filter (\<lambda>v. as_thread_id sc \<noteq> [] \<and> av_thread_id v = as_thread_id sc) ?r \<noteq> [v]" if "reply_to = []" for v
        using that many by (simp add: addressed_def [abs_def])
      ultimately obtain reason tools where "c = no_continuation reason tools"
        using False res by (auto split: if_splits list.splits)
      then show thesis by (rule nothing)
    qed
  qed
qed

section \<open>Properties\<close>

definition demo_action_scope :: action_scope where
  "demo_action_scope =
     \<lparr>as_owner_id = ''o'', as_connection_id = ''c'', as_guild_id = ''g'', as_channel_id = ''ch'',
      as_thread_id = [], as_requested_by = ''u'', as_card_id = ''card'', as_deployment_id = ''dep''\<rparr>"

definition demo_actions :: action_db where
  "demo_actions =
     snd (register_action concat 5 demo_action_scope ''m1'' ''image.generate'' [] ''pending'' None \<lparr>actions = []\<rparr>)"

definition demo_action :: string where
  "demo_action = concat (action_key demo_action_scope ''m1'' ''image.generate'')"

text \<open>C11. A pending action is executed at most once: over any run, the claims granted for it are at most
  one, if it can still be begun or is yet to be created, plus one for each time it is expressly set
  back to a resumable state. And once it is completed, cancelled or expired it stays so.\<close>

theorem pending_action_executed_once:
  assumes "actions_ok d"
  shows "grant_count (run_action uuid5) (begins k) xs d
      \<le> (if open_action k d then 1 else 0) + length (filter (resets_action k) xs)
    \<and> (\<forall>s. action_state d k = Some s \<and> s \<in> set final_states \<longrightarrow>
          action_state (run_ops (run_action uuid5) xs d) k = Some s)"
proof (intro conjI allI impI)
  show "grant_count (run_action uuid5) (begins k) xs d
      \<le> (if open_action k d then 1 else 0) + length (filter (resets_action k) xs)"
    by (rule execution.grants_bounded [OF assms])
  fix s assume s: "action_state d k = Some s \<and> s \<in> set final_states"
  with assms have "final_state d k = Some s" by (simp add: final_state_def)
  from ended_action.final_run [OF this, of xs uuid5] s
  show "action_state (run_ops (run_action uuid5) xs d) k = Some s"
    by (auto simp: final_state_def split: if_splits)
qed

theorem pending_action_executed_once_witness:
  "grant_count (run_action concat) (begins demo_action)
     [ClaimAction 6 ''o'' demo_action, ClaimAction 7 ''o'' demo_action] demo_actions = 1"
proof -
  have "actions_ok demo_actions" by code_simp
  from pending_action_executed_once [OF this, of concat demo_action
      "[ClaimAction 6 ''o'' demo_action, ClaimAction 7 ''o'' demo_action]"]
  have "grant_count (run_action concat) (begins demo_action)
     [ClaimAction 6 ''o'' demo_action, ClaimAction 7 ''o'' demo_action] demo_actions \<le> 1"
    by (auto simp: resets_action_def split: if_splits)
  moreover have "begins demo_action (ClaimAction 6 ''o'' demo_action) demo_actions" by code_simp
  ultimately show ?thesis by simp
qed


text \<open>An action is continued only on its requester's express word, and unambiguously: the message has a
  cue to continue and none to cancel, and addresses, by a reply to the action's source or by its
  native thread, this one alone of the candidates; the action is of exactly this owner, room,
  requester and Character, not expired, still resumable, and its tool is assigned. A cancelling
  message leaves it cancelled unless another session had ended it, and its tool is withheld from the
  turn; in every other case no action is continued.\<close>

theorem continuation_is_explicit:
  assumes "resolve_continuation lower others now sc message reply_to assigned d = (Inr c, d')"
  shows "case ct_source c of
      NoContinuation \<Rightarrow> ct_action c = None
    | Cancelled \<Rightarrow> has_cancel_cue lower message
        \<and> (\<exists>v. addressed sc reply_to v \<and> ct_suppressed_tool_ids c = [av_tool_id v]
              \<and> (ct_action c = None \<or> action_state d' (av_id v) = Some ''cancelled''))
    | _ \<Rightarrow> has_continue_cue lower message \<and> \<not> has_cancel_cue lower message
        \<and> (\<exists>r \<in> set (actions d). ct_action c = Some (pending_action_view r)
              \<and> in_action_scope sc r \<and> \<not> action_expired now r \<and> pa_state r \<in> set resumable_states
              \<and> (assigned \<noteq> [] \<longrightarrow> pa_tool_id r \<in> set assigned)
              \<and> filter (addressed sc reply_to)
                   (resume_candidates (candidate_actions assigned (fst (active_actions now 20 sc d))))
                 = [pending_action_view r])"
proof -
  obtain vs d1 where act: "active_actions now 20 sc d = (vs, d1)" by fastforce
  from assms act show ?thesis
  proof (cases rule: resolve_continuation_cases)
    case (nothing reason tools)
    then show ?thesis by (simp add: no_continuation_def)
  next
    case (one v source cancelled continued)
    have "v \<in> set (filter (addressed sc reply_to) (resume_candidates (candidate_actions assigned vs)))"
      using one(1) by simp
    then have v: "addressed sc reply_to v" "av_state v \<in> set resumable_states" "v \<in> set vs"
        "assigned \<noteq> [] \<longrightarrow> av_tool_id v \<in> set assigned"
      by (auto simp: resume_candidates_def candidate_actions_def split: if_splits)
    obtain r where r: "r \<in> set (actions d)" "v = pending_action_view r" "in_action_scope sc r" "\<not> action_expired now r"
      using active_views [OF act v(3)] by blast
    from one(2) show ?thesis
    proof (cases rule: decide_continuation_cases)
      case cancelled
      with v(1) show ?thesis by auto
    next
      case declined
      then show ?thesis by (simp add: no_continuation_def)
    next
      case continued
      have "ct_action c = Some (pending_action_view r) \<and> in_action_scope sc r \<and> \<not> action_expired now r
          \<and> pa_state r \<in> set resumable_states \<and> (assigned \<noteq> [] \<longrightarrow> pa_tool_id r \<in> set assigned)
          \<and> filter (addressed sc reply_to)
               (resume_candidates (candidate_actions assigned (fst (active_actions now 20 sc d))))
             = [pending_action_view r]"
        using continued(4) r v one(1) by (simp add: act pending_action_view_def)
      with continued(1-3) one(3) r(1) show ?thesis by auto
    qed
  qed
qed

theorem continuation_is_explicit_witness:
  "\<exists>c d'. resolve_continuation id id 6 demo_action_scope (points ''retry please'') ''m1'' [] demo_actions = (Inr c, d')
    \<and> ct_source c = ExplicitReply
    \<and> has_continue_cue id (points ''retry please'')
    \<and> (\<exists>r \<in> set (actions demo_actions). ct_action c = Some (pending_action_view r))"
proof -
  have chars: "squeeze (points ''retry please'') = points ''retry please''" by code_simp
  have go: "has_continue_cue id (points ''retry please'')"
    by (simp add: has_continue_cue_def normalized_text_def chars continue_cues_def) (simp add: points_def sublist_code)
  have stay: "\<not> has_cancel_cue id (points ''retry please'')"
    by (simp add: has_cancel_cue_def normalized_text_def chars cancel_cues_def) (simp add: points_def sublist_code)
  have act: "active_actions 6 20 demo_action_scope demo_actions = (map pending_action_view (actions demo_actions), demo_actions)"
    by code_simp
  have cand: "resume_candidates (candidate_actions [] (map pending_action_view (actions demo_actions)))
      = map pending_action_view (actions demo_actions)"
    by code_simp
  have one: "actions demo_actions = [hd (actions demo_actions)]" "av_source_message_id (pending_action_view (hd (actions demo_actions))) = ''m1''"
    by code_simp+
  have vs: "map pending_action_view (actions demo_actions) = [pending_action_view (hd (actions demo_actions))]"
    using one(1) by (metis list.map(1,2))
  define c where "c = \<lparr>ct_action = Some (pending_action_view (hd (actions demo_actions))),
      ct_source = ExplicitReply, ct_reason = ''reply_to_pending_action_source'', ct_suppressed_tool_ids = []\<rparr>"
  have run: "resolve_continuation id id 6 demo_action_scope (points ''retry please'') ''m1'' [] demo_actions = (Inr c, demo_actions)"
    using go stay one(2) vs unfolding resolve_continuation_def Let_def act prod.case cand
    by (simp add: vs c_def decide_continuation_def) (simp add: candidate_actions_def)
  with continuation_is_explicit [OF run] show ?thesis by (auto simp: c_def)
qed

end
