(* ===== verification/Media_Flight.thy ===== *)
theory Media_Flight
  imports Json Contracts
begin

text \<open>
  The shared cache of media analyses (\<open>persistence/media_repository.py\<close>) and the single-flight
  coordination of the provider calls that fill it (\<open>media_singleflight.py\<close>). A worker claims the
  call of an identity with a lease; the other workers wait, or fail while the cooldown of a failed
  call lasts.

  \<open>claim\<close> is two transactions, an insert and a conditional update, with a read between them, so
  other workers may act in between. Each transaction is one step of the model; \<open>claim\<close> is their
  composition, with what the other workers do in between as an argument. The cleanup of expired rows
  is two steps as well, since its deletion does not repeat the condition of its selection.
\<close>

section \<open>Rows and settings\<close>

datatype media_status = MediaReady | MediaProcessing | MediaFailed

text \<open>The unique constraint: media key, analysis version, provider, model.\<close>

type_synonym media_identity = "string \<times> string \<times> string \<times> string"

record media_analysis =
  ma_id :: string
  ma_identity :: media_identity
  ma_media_type :: string
  ma_status :: media_status
  ma_result_json :: json_text
  ma_lease_token :: "string option"
  ma_lease_expires_at :: "time option"
  ma_error :: "string option"
  ma_created_at :: time
  ma_last_accessed_at :: time
  ma_expires_at :: time

record media_db =
  analyses :: "media_analysis list"

text \<open>\<open>MediaAnalysisRepository\<close> and \<open>MediaAnalysisSingleFlight\<close> with their defaults.\<close>

record media_config =
  mc_ttl :: time
  mc_access_refresh_after :: time
  mc_processing_lease :: time
  mc_failure_cooldown :: time

definition default_media_config :: media_config where
  "default_media_config =
     \<lparr>mc_ttl = days 30, mc_access_refresh_after = hours 6, mc_processing_lease = minutes 3,
      mc_failure_cooldown = seconds 30\<rparr>"

interpretation analysis_table: db_table analyses analyses_update ma_id
  by unfold_locales simp

abbreviation find_analysis :: "media_db \<Rightarrow> media_identity \<Rightarrow> media_analysis option" where
  "find_analysis d i \<equiv> tget ma_identity (analyses d) i"

section \<open>Claiming the provider call\<close>

datatype claim_status = Claimed | ClaimReady | ClaimProcessing | ClaimFailed

record media_claim =
  cl_status :: claim_status
  cl_record :: media_analysis
  cl_lease_token :: string

definition claim_of :: "claim_status \<Rightarrow> media_analysis \<Rightarrow> media_claim" where
  "claim_of s r = \<lparr>cl_status = s, cl_record = r, cl_lease_token = []\<rparr>"

text \<open>The identifiers that a claim draws: \<open>uuid4\<close> for the row and for the lease.\<close>

definition processing_row ::
  "media_config \<Rightarrow> time \<Rightarrow> string \<Rightarrow> string \<Rightarrow> string \<Rightarrow> media_identity \<Rightarrow> media_analysis" where
  "processing_row cfg now rid token mtype ident =
     \<lparr>ma_id = rid, ma_identity = ident, ma_media_type = mtype, ma_status = MediaProcessing,
      ma_result_json = Malformed [], ma_lease_token = Some token,
      ma_lease_expires_at = Some (now + mc_processing_lease cfg), ma_error = None,
      ma_created_at = now, ma_last_accessed_at = now, ma_expires_at = now + mc_ttl cfg\<rparr>"

text \<open>The first transaction: it commits unless the identity (or the identifier) is taken.\<close>

definition claim_insert ::
  "media_config \<Rightarrow> time \<Rightarrow> string \<Rightarrow> string \<Rightarrow> string \<Rightarrow> media_identity \<Rightarrow> media_db
    \<Rightarrow> media_claim option \<times> media_db" where
  "claim_insert cfg now rid token mtype ident d =
     (let created = processing_row cfg now rid token mtype ident in
      if find_analysis d ident = None \<and> tget ma_id (analyses d) rid = None
      then (Some \<lparr>cl_status = Claimed, cl_record = created, cl_lease_token = token\<rparr>,
            d\<lparr>analyses := tins created (analyses d)\<rparr>)
      else (None, d))"

definition lease_after :: "time \<Rightarrow> media_analysis \<Rightarrow> bool" where
  "lease_after now r \<longleftrightarrow> (case ma_lease_expires_at r of None \<Rightarrow> False | Some t \<Rightarrow> now < t)"

text \<open>What a claim reports of the row it read, when it reports without writing.\<close>

definition claim_seen :: "time \<Rightarrow> media_analysis \<Rightarrow> media_claim option" where
  "claim_seen now r =
     (if ma_status r = MediaReady \<and> now < ma_expires_at r then Some (claim_of ClaimReady r)
      else if ma_status r = MediaProcessing \<and> lease_after now r then Some (claim_of ClaimProcessing r)
      else if ma_status r = MediaFailed \<and> lease_after now r then Some (claim_of ClaimFailed r)
      else None)"

text \<open>The conditional update of the row with the identifier that was read.\<close>

definition reclaimable :: "time \<Rightarrow> media_analysis \<Rightarrow> bool" where
  "reclaimable now r \<longleftrightarrow>
     ma_status r = MediaFailed \<or> ma_expires_at r \<le> now
     \<or> (case ma_lease_expires_at r of None \<Rightarrow> True | Some t \<Rightarrow> t \<le> now)"

definition reclaimed :: "media_config \<Rightarrow> time \<Rightarrow> string \<Rightarrow> string \<Rightarrow> media_analysis \<Rightarrow> media_analysis" where
  "reclaimed cfg now token mtype r =
     r\<lparr>ma_media_type := mtype, ma_status := MediaProcessing, ma_result_json := Malformed [],
       ma_lease_token := Some token, ma_lease_expires_at := Some (now + mc_processing_lease cfg),
       ma_error := None, ma_last_accessed_at := now, ma_expires_at := now + mc_ttl cfg\<rparr>"

definition claim_update ::
  "media_config \<Rightarrow> time \<Rightarrow> string \<Rightarrow> string \<Rightarrow> string \<Rightarrow> media_db \<Rightarrow> media_claim option \<times> media_db" where
  "claim_update cfg now rid token mtype d =
     (let matching = (\<lambda>r. ma_id r = rid \<and> reclaimable now r);
          rows = tset matching (reclaimed cfg now token mtype) (analyses d) in
      if tcount matching (analyses d) = 1
      then (map_option (\<lambda>r. \<lparr>cl_status = Claimed, cl_record = r, cl_lease_token = token\<rparr>)
              (tget ma_id rows rid),
            d\<lparr>analyses := rows\<rparr>)
      else (None, d))"

text \<open>What is reported when another worker won between the read and the update.\<close>

definition claim_lost :: "time \<Rightarrow> media_identity \<Rightarrow> media_db \<Rightarrow> error + media_claim" where
  "claim_lost now ident d =
     (case find_analysis d ident of
        None \<Rightarrow> Inl (RuntimeError ''Media Analysis claim was lost during contention.'')
      | Some r \<Rightarrow>
          Inr (if ma_status r = MediaReady \<and> now < ma_expires_at r then claim_of ClaimReady r
               else if ma_status r = MediaFailed then claim_of ClaimFailed r
               else claim_of ClaimProcessing r))"

text \<open>
  The whole claim. \<open>others n\<close> is what other workers commit before the \<open>n\<close>-th further step of it:
  the read, the update, the read after a lost update.
\<close>

definition claim_media ::
  "media_config \<Rightarrow> (nat \<Rightarrow> media_db \<Rightarrow> media_db) \<Rightarrow> time \<Rightarrow> string \<Rightarrow> string \<Rightarrow> string \<Rightarrow> media_identity
    \<Rightarrow> media_db \<Rightarrow> (media_claim, media_db) outcome" where
  "claim_media cfg others now rid token mtype ident d =
     (case claim_insert cfg now rid token mtype ident d of
        (Some c, d') \<Rightarrow> (Inr c, d')
      | (None, d') \<Rightarrow>
          (let d1 = others 0 d' in
           case find_analysis d1 ident of
             None \<Rightarrow>
               (Inl (RuntimeError ''Media Analysis identity disappeared after claim conflict.''), d1)
           | Some existing \<Rightarrow>
               (case claim_seen now existing of
                  Some c \<Rightarrow> (Inr c, d1)
                | None \<Rightarrow>
                    (case claim_update cfg now (ma_id existing) token mtype (others 1 d1) of
                       (Some c, d2) \<Rightarrow> (Inr c, d2)
                     | (None, d2) \<Rightarrow> (let d3 = others 2 d2 in (claim_lost now ident d3, d3))))))"

section \<open>Ending it\<close>

definition holds_lease :: "string \<Rightarrow> string \<Rightarrow> media_analysis \<Rightarrow> bool" where
  "holds_lease rid token r \<longleftrightarrow>
     ma_id r = rid \<and> ma_status r = MediaProcessing \<and> ma_lease_token r = Some token"

definition complete_media ::
  "media_config \<Rightarrow> time \<Rightarrow> string \<Rightarrow> string \<Rightarrow> json_text \<Rightarrow> media_db \<Rightarrow> bool \<times> media_db" where
  "complete_media cfg now rid token result d =
     (if tcount (holds_lease rid token) (analyses d) = 1
      then (True, d\<lparr>analyses := tset (holds_lease rid token)
              (\<lambda>r. r\<lparr>ma_status := MediaReady, ma_result_json := result, ma_lease_token := None,
                     ma_lease_expires_at := None, ma_error := None, ma_last_accessed_at := now,
                     ma_expires_at := now + mc_ttl cfg\<rparr>) (analyses d)\<rparr>)
      else (False, d))"

definition fail_media ::
  "media_config \<Rightarrow> time \<Rightarrow> string \<Rightarrow> string \<Rightarrow> string \<Rightarrow> media_db \<Rightarrow> media_db" where
  "fail_media cfg now rid token err d =
     d\<lparr>analyses := tset (holds_lease rid token)
         (\<lambda>r. r\<lparr>ma_status := MediaFailed, ma_result_json := Malformed [], ma_lease_token := None,
                ma_lease_expires_at := Some (now + mc_failure_cooldown cfg),
                ma_error := Some (take 1000 err), ma_last_accessed_at := now,
                ma_expires_at := now + mc_ttl cfg\<rparr>) (analyses d)\<rparr>"

definition invalidate_media :: "string \<Rightarrow> media_db \<Rightarrow> media_db" where
  "invalidate_media rid d = d\<lparr>analyses := tdel (\<lambda>r. ma_id r = rid) (analyses d)\<rparr>"

section \<open>The cache itself\<close>

text \<open>\<open>ttl or self.ttl\<close>: a missing and a zero duration mean the default.\<close>

definition effective_ttl :: "media_config \<Rightarrow> time option \<Rightarrow> time" where
  "effective_ttl cfg ttl = (case ttl of None \<Rightarrow> mc_ttl cfg | Some t \<Rightarrow> if t = 0 then mc_ttl cfg else t)"

definition touched :: "time \<Rightarrow> time \<Rightarrow> media_analysis \<Rightarrow> media_analysis" where
  "touched now ttl r = r\<lparr>ma_last_accessed_at := now, ma_expires_at := now + ttl\<rparr>"

definition get_media ::
  "media_config \<Rightarrow> time \<Rightarrow> time option \<Rightarrow> media_identity \<Rightarrow> media_db
    \<Rightarrow> media_analysis option \<times> media_db" where
  "get_media cfg now ttl ident d =
     (case find (\<lambda>r. ma_identity r = ident \<and> ma_status r = MediaReady \<and> now < ma_expires_at r) (analyses d) of
        None \<Rightarrow> (None, d)
      | Some r \<Rightarrow>
          if mc_access_refresh_after cfg \<le> now - ma_last_accessed_at r
          then (Some (touched now (effective_ttl cfg ttl) r),
                d\<lparr>analyses := tset (\<lambda>x. ma_id x = ma_id r) (touched now (effective_ttl cfg ttl)) (analyses d)\<rparr>)
          else (Some r, d))"

definition stored_result :: "time \<Rightarrow> time \<Rightarrow> string \<Rightarrow> json_text \<Rightarrow> media_analysis \<Rightarrow> media_analysis" where
  "stored_result now ttl mtype result r =
     r\<lparr>ma_media_type := mtype, ma_status := MediaReady, ma_result_json := result,
       ma_lease_token := None, ma_lease_expires_at := None, ma_error := None,
       ma_last_accessed_at := now, ma_expires_at := now + ttl\<rparr>"

definition put_media ::
  "media_config \<Rightarrow> time \<Rightarrow> time option \<Rightarrow> string \<Rightarrow> string \<Rightarrow> media_identity \<Rightarrow> json_text \<Rightarrow> media_db
    \<Rightarrow> (media_analysis, media_db) outcome" where
  "put_media cfg now ttl rid mtype ident result d =
     (let t = effective_ttl cfg ttl in
      case find_analysis d ident of
        None \<Rightarrow>
          (let r = \<lparr>ma_id = rid, ma_identity = ident, ma_media_type = mtype, ma_status = MediaReady,
                    ma_result_json = result, ma_lease_token = None, ma_lease_expires_at = None,
                    ma_error = None, ma_created_at = now, ma_last_accessed_at = now,
                    ma_expires_at = now + t\<rparr> in
           if tget ma_id (analyses d) rid = None
           then (Inr r, d\<lparr>analyses := tins r (analyses d)\<rparr>)
           else (Inl IntegrityError, d))
      | Some r \<Rightarrow>
          (Inr (stored_result now t mtype result r),
           d\<lparr>analyses := tset (\<lambda>x. ma_id x = ma_id r) (stored_result now t mtype result) (analyses d)\<rparr>))"

text \<open>
  A cleanup reads the identifiers of the rows that have expired, and then deletes the rows with these
  identifiers, whatever they hold by then; \<open>env\<close> is what other workers commit in between.
\<close>

definition expired_ids :: "time \<Rightarrow> int \<Rightarrow> media_db \<Rightarrow> string list" where
  "expired_ids now limit d =
     map ma_id (tlimit (clip 1 5000 limit)
       (sort_key ma_expires_at (filter (\<lambda>r. ma_expires_at r \<le> now) (analyses d))))"

definition delete_analyses :: "string list \<Rightarrow> media_db \<Rightarrow> media_db" where
  "delete_analyses ids d = d\<lparr>analyses := tdel (\<lambda>r. ma_id r \<in> set ids) (analyses d)\<rparr>"

definition purge_media :: "time \<Rightarrow> int \<Rightarrow> (media_db \<Rightarrow> media_db) \<Rightarrow> media_db \<Rightarrow> nat \<times> media_db" where
  "purge_media now limit env d =
     (let ids = expired_ids now limit d in
      if ids = [] then (0, d) else (length ids, delete_analyses ids (env d)))"

end
