(* ===== verification/Media_Safety.thy ===== *)
theory Media_Safety
  imports Media_Flight
begin

text \<open>
  The single-flight coordination implements a small machine per identity: absent, in flight under a
  lease, landed, cooling down. \<open>flight_step\<close> is that specification; every transaction of the model
  is one of its transitions (\<open>flights\<close>, an interpretation of \<open>simulation\<close>), whatever other
  workers do between the transactions of a claim.
\<close>

section \<open>Transactions\<close>

datatype media_op =
    MInsert time string string string media_identity
  | MReclaim time string string string
  | MComplete time string string json_text
  | MFail time string string string
  | MInvalidate string
  | MPut time "time option" string string media_identity json_text
  | MGet time "time option" media_identity
  | MDelete "string list"

definition run_media :: "media_config \<Rightarrow> media_op \<Rightarrow> media_db \<Rightarrow> media_db" where
  "run_media cfg x d =
     (case x of
        MInsert now rid token mtype ident \<Rightarrow> snd (claim_insert cfg now rid token mtype ident d)
      | MReclaim now rid token mtype \<Rightarrow> snd (claim_update cfg now rid token mtype d)
      | MComplete now rid token result \<Rightarrow> snd (complete_media cfg now rid token result d)
      | MFail now rid token err \<Rightarrow> fail_media cfg now rid token err d
      | MInvalidate rid \<Rightarrow> invalidate_media rid d
      | MPut now ttl rid mtype ident result \<Rightarrow> snd (put_media cfg now ttl rid mtype ident result d)
      | MGet now ttl ident \<Rightarrow> snd (get_media cfg now ttl ident d)
      | MDelete ids \<Rightarrow> delete_analyses ids d)"

section \<open>The invariant of the rows\<close>

definition config_ok :: "media_config \<Rightarrow> bool" where
  "config_ok cfg \<longleftrightarrow> mc_processing_lease cfg \<le> mc_ttl cfg"

definition row_ok :: "media_analysis \<Rightarrow> bool" where
  "row_ok r \<longleftrightarrow>
     (case ma_status r of
        MediaReady \<Rightarrow> ma_lease_token r = None \<and> ma_lease_expires_at r = None
      | MediaProcessing \<Rightarrow> ma_lease_token r \<noteq> None
          \<and> (case ma_lease_expires_at r of None \<Rightarrow> False | Some t \<Rightarrow> t \<le> ma_expires_at r)
      | MediaFailed \<Rightarrow> ma_lease_token r = None \<and> ma_lease_expires_at r \<noteq> None)"

definition media_ok :: "media_db \<Rightarrow> bool" where
  "media_ok d \<longleftrightarrow>
     keyed ma_id (analyses d) \<and> keyed ma_identity (analyses d) \<and> list_all row_ok (analyses d)"

section \<open>The specification\<close>

datatype flight =
    InFlight string time
  | Landed json_text time
  | Cooling time

definition flight_of :: "media_analysis \<Rightarrow> flight" where
  "flight_of r =
     (case ma_status r of
        MediaReady \<Rightarrow> Landed (ma_result_json r) (ma_expires_at r)
      | MediaProcessing \<Rightarrow> InFlight (the (ma_lease_token r)) (the (ma_lease_expires_at r))
      | MediaFailed \<Rightarrow> Cooling (the (ma_lease_expires_at r)))"

definition flight_at :: "media_db \<Rightarrow> media_identity \<Rightarrow> flight option" where
  "flight_at d i = map_option flight_of (find_analysis d i)"

text \<open>A call is under way at an instant while its lease lasts.\<close>

definition airborne :: "time \<Rightarrow> flight option \<Rightarrow> bool" where
  "airborne now v \<longleftrightarrow> (case v of Some (InFlight token until) \<Rightarrow> now < until | _ \<Rightarrow> False)"

datatype flight_event =
    TakeOff time string
  | Land time string json_text
  | Crash time string
  | Extend time
  | Store json_text time
  | Remove
  | Stay

inductive flight_step :: "media_config \<Rightarrow> flight_event \<Rightarrow> flight option \<Rightarrow> flight option \<Rightarrow> bool"
  for cfg :: media_config
where
  take_off: "\<not> airborne now v \<Longrightarrow>
    flight_step cfg (TakeOff now token) v (Some (InFlight token (now + mc_processing_lease cfg)))"
| land: "flight_step cfg (Land now token result) (Some (InFlight token until))
    (Some (Landed result (now + mc_ttl cfg)))"
| crash: "flight_step cfg (Crash now token) (Some (InFlight token until))
    (Some (Cooling (now + mc_failure_cooldown cfg)))"
| extend: "flight_step cfg (Extend t) (Some (Landed result until)) (Some (Landed result t))"
| store: "flight_step cfg (Store result t) v (Some (Landed result t))"
| remove: "flight_step cfg Remove v None"
| stay: "flight_step cfg Stay v v"

inductive_cases flight_stepE: "flight_step cfg e (Some (InFlight token until)) w"

text \<open>What a transaction is to one identity, in the state it meets.\<close>

definition flight_event :: "media_config \<Rightarrow> media_identity \<Rightarrow> media_op \<Rightarrow> media_db \<Rightarrow> flight_event" where
  "flight_event cfg i x d =
     (let on = (\<lambda>P e. case find_analysis d i of None \<Rightarrow> Stay | Some r \<Rightarrow> if P r then e else Stay) in
      case x of
        MInsert now rid token mtype ident \<Rightarrow>
          if ident = i \<and> fst (claim_insert cfg now rid token mtype ident d) \<noteq> None
          then TakeOff now token else Stay
      | MReclaim now rid token mtype \<Rightarrow>
          on (\<lambda>r. ma_id r = rid \<and> reclaimable now r) (TakeOff now token)
      | MComplete now rid token result \<Rightarrow> on (holds_lease rid token) (Land now token result)
      | MFail now rid token err \<Rightarrow> on (holds_lease rid token) (Crash now token)
      | MInvalidate rid \<Rightarrow> on (\<lambda>r. ma_id r = rid) Remove
      | MPut now ttl rid mtype ident result \<Rightarrow>
          if ident = i \<and> \<not> isl (fst (put_media cfg now ttl rid mtype ident result d))
          then Store result (now + effective_ttl cfg ttl) else Stay
      | MGet now ttl ident \<Rightarrow>
          on (\<lambda>r. ident = i \<and> ma_status r = MediaReady \<and> now < ma_expires_at r
                \<and> mc_access_refresh_after cfg \<le> now - ma_last_accessed_at r)
             (Extend (now + effective_ttl cfg ttl))
      | MDelete ids \<Rightarrow> on (\<lambda>r. ma_id r \<in> set ids) Remove)"

section \<open>Every transaction keeps the invariant\<close>

lemma count_by_id:
  assumes "keyed ma_id (analyses d)"
  shows "tcount (\<lambda>r. ma_id r = rid \<and> Q r) (analyses d) = 1
    \<longleftrightarrow> (\<exists>r. tget ma_id (analyses d) rid = Some r \<and> Q r)"
  using tcount_key [OF assms, of rid Q] by (auto split: option.splits)

lemma media_ok_update:
  assumes "media_ok d" and "\<And>r. ma_id (f r) = ma_id r" and "\<And>r. ma_identity (f r) = ma_identity r"
    and "\<And>r. r \<in> set (analyses d) \<Longrightarrow> P r \<Longrightarrow> row_ok r \<Longrightarrow> row_ok (f r)"
  shows "media_ok (d\<lparr>analyses := tset P f (analyses d)\<rparr>)"
  using assms by (auto simp: media_ok_def keyed_tset set_tset list_all_iff)

lemma media_ok_insert:
  assumes "media_ok d" and "find_analysis d (ma_identity r) = None"
    and "tget ma_id (analyses d) (ma_id r) = None" and "row_ok r"
  shows "media_ok (d\<lparr>analyses := tins r (analyses d)\<rparr>)"
  using assms by (auto simp: media_ok_def keyed_tins list_all_iff)

lemma media_ok_delete: "media_ok d \<Longrightarrow> media_ok (d\<lparr>analyses := tdel P (analyses d)\<rparr>)"
  by (auto simp: media_ok_def list_all_iff intro: keyed_tdel)

lemma claim_insert_snd:
  "snd (claim_insert cfg now rid token mtype ident d) =
     (if find_analysis d ident = None \<and> tget ma_id (analyses d) rid = None
      then d\<lparr>analyses := tins (processing_row cfg now rid token mtype ident) (analyses d)\<rparr> else d)"
  by (simp add: claim_insert_def Let_def)

text \<open>An update that matches no row leaves the table, so the row count needs no case of its own.\<close>

lemma conditional_update:
  assumes "keyed ma_id t"
  shows "(if tcount (\<lambda>r. ma_id r = rid \<and> Q r) t = 1 then tset (\<lambda>r. ma_id r = rid \<and> Q r) f t else t)
    = tset (\<lambda>r. ma_id r = rid \<and> Q r) f t"
proof (cases "tcount (\<lambda>r. ma_id r = rid \<and> Q r) t = 0")
  case True
  then have "tset (\<lambda>r. ma_id r = rid \<and> Q r) f t = t"
    by (intro tset_unchanged) (auto simp: tcount_0_iff)
  with True show ?thesis by simp
next
  case False
  then have "tcount (\<lambda>r. ma_id r = rid \<and> Q r) t = 1"
    using tcount_key [OF assms, of rid Q] by (auto split: option.splits if_splits)
  then show ?thesis by simp
qed

lemma claim_update_snd:
  assumes "keyed ma_id (analyses d)"
  shows "snd (claim_update cfg now rid token mtype d) =
    d\<lparr>analyses := tset (\<lambda>r. ma_id r = rid \<and> reclaimable now r) (reclaimed cfg now token mtype) (analyses d)\<rparr>"
  using conditional_update [OF assms, of rid "reclaimable now" "reclaimed cfg now token mtype"]
  by (cases d) (auto simp: claim_update_def Let_def split: if_splits)

definition landed_row :: "media_config \<Rightarrow> time \<Rightarrow> json_text \<Rightarrow> media_analysis \<Rightarrow> media_analysis" where
  "landed_row cfg now result r =
     r\<lparr>ma_status := MediaReady, ma_result_json := result, ma_lease_token := None,
       ma_lease_expires_at := None, ma_error := None, ma_last_accessed_at := now,
       ma_expires_at := now + mc_ttl cfg\<rparr>"

lemma complete_media_snd:
  assumes "keyed ma_id (analyses d)"
  shows "snd (complete_media cfg now rid token result d) =
    d\<lparr>analyses := tset (holds_lease rid token) (landed_row cfg now result) (analyses d)\<rparr>"
proof -
  have "holds_lease rid token = (\<lambda>r. ma_id r = rid \<and> (ma_status r = MediaProcessing \<and> ma_lease_token r = Some token))"
    by (rule ext) (simp add: holds_lease_def)
  with conditional_update [OF assms, of rid "\<lambda>r. ma_status r = MediaProcessing \<and> ma_lease_token r = Some token"
      "landed_row cfg now result"]
  show ?thesis
    by (cases d) (auto simp: complete_media_def landed_row_def [abs_def] split: if_splits)
qed

lemma find_keyed:
  "keyed key t \<Longrightarrow> find (\<lambda>r. key r = k \<and> Q r) t =
    (case tget key t k of None \<Rightarrow> None | Some r \<Rightarrow> if Q r then Some r else None)"
proof (induction t)
  case (Cons r t)
  then show ?case
    by (cases "key r = k") (auto simp: keyed_def tget_None_iff split: option.split dest: tget_SomeD)
qed simp

lemma get_media_snd:
  assumes "media_ok d"
  shows "snd (get_media cfg now ttl ident d) =
    (case find_analysis d ident of
       None \<Rightarrow> d
     | Some r \<Rightarrow>
         if ma_status r = MediaReady \<and> now < ma_expires_at r
            \<and> mc_access_refresh_after cfg \<le> now - ma_last_accessed_at r
         then d\<lparr>analyses := tset (\<lambda>x. ma_id x = ma_id r) (touched now (effective_ttl cfg ttl)) (analyses d)\<rparr>
         else d)"
proof -
  have "find (\<lambda>r. ma_identity r = ident \<and> ma_status r = MediaReady \<and> now < ma_expires_at r) (analyses d) =
    (case find_analysis d ident of None \<Rightarrow> None
     | Some r \<Rightarrow> if ma_status r = MediaReady \<and> now < ma_expires_at r then Some r else None)"
    using find_keyed [of ma_identity "analyses d" ident "\<lambda>r. ma_status r = MediaReady \<and> now < ma_expires_at r"]
      assms by (simp add: media_ok_def)
  then show ?thesis by (auto simp: get_media_def split: option.split)
qed

lemma media_okD: "media_ok d \<Longrightarrow> r \<in> set (analyses d) \<Longrightarrow> row_ok r"
  by (simp add: media_ok_def list_all_iff)

lemma same_row:
  "media_ok d \<Longrightarrow> find_analysis d i = Some r \<Longrightarrow> find_analysis d j = Some s \<Longrightarrow> ma_id s = ma_id r \<Longrightarrow> s = r"
  by (auto simp: media_ok_def dest!: tget_SomeD intro: keyed_eq)

lemma run_media_ok:
  assumes ok: "media_ok d" and cfg: "config_ok cfg"
  shows "media_ok (run_media cfg x d)"
proof (cases x)
  case (MInsert now rid token mtype ident)
  with ok cfg show ?thesis
    by (auto simp: run_media_def claim_insert_snd processing_row_def row_ok_def config_ok_def
        intro!: media_ok_insert)
next
  case (MReclaim now rid token mtype)
  with ok cfg show ?thesis
    by (auto simp: run_media_def claim_update_snd media_ok_def [of d] reclaimed_def row_ok_def config_ok_def
        intro!: media_ok_update)
next
  case (MComplete now rid token result)
  with ok show ?thesis
    by (auto simp: run_media_def complete_media_snd media_ok_def [of d] landed_row_def row_ok_def
        intro!: media_ok_update)
next
  case (MFail now rid token err)
  with ok show ?thesis
    by (auto simp: run_media_def fail_media_def row_ok_def intro!: media_ok_update)
next
  case (MInvalidate rid)
  with ok show ?thesis by (simp add: run_media_def invalidate_media_def media_ok_delete)
next
  case (MPut now ttl rid mtype ident result)
  with ok show ?thesis
    by (auto simp: run_media_def put_media_def Let_def stored_result_def row_ok_def split: option.split
        intro!: media_ok_insert media_ok_update)
next
  case (MGet now ttl ident)
  then show ?thesis
  proof (cases "find_analysis d ident")
    case (Some r)
    have "media_ok (d\<lparr>analyses := tset (\<lambda>x. ma_id x = ma_id r) (touched now t) (analyses d)\<rparr>)"
      if "ma_status r = MediaReady" for t
    proof (rule media_ok_update [OF ok])
      fix s
      assume "s \<in> set (analyses d)" "ma_id s = ma_id r" "row_ok s"
      moreover have "s = r"
        using ok Some calculation by (auto simp: media_ok_def dest!: tget_SomeD intro: keyed_eq)
      ultimately show "row_ok (touched now t s)"
        using that by (simp add: row_ok_def touched_def)
    qed (simp_all add: touched_def)
    with MGet Some ok show ?thesis by (simp add: run_media_def get_media_snd)
  qed (use ok in \<open>simp add: run_media_def get_media_snd\<close>)
next
  case (MDelete ids)
  with ok show ?thesis by (simp add: run_media_def delete_analyses_def media_ok_delete)
qed


section \<open>Every transaction is a step of the specification\<close>

lemma flight_update:
  fixes d :: media_db
  assumes "\<And>r. ma_identity (f r) = ma_identity r"
  shows "flight_at (d\<lparr>analyses := tset P f (analyses d)\<rparr>) i =
    map_option (\<lambda>r. flight_of (if P r then f r else r)) (find_analysis d i)"
  by (simp add: flight_at_def tget_tset assms option.map_comp comp_def)

lemma flight_insert:
  assumes "find_analysis d (ma_identity r) = None"
  shows "flight_at (d\<lparr>analyses := tins r (analyses d)\<rparr>) i =
    (if ma_identity r = i then Some (flight_of r) else flight_at d i)"
  using assms by (auto simp: flight_at_def tget_tins split: option.split)

lemma flight_delete:
  assumes "media_ok d"
  shows "flight_at (d\<lparr>analyses := tdel P (analyses d)\<rparr>) i =
    (case find_analysis d i of None \<Rightarrow> None | Some r \<Rightarrow> if P r then None else Some (flight_of r))"
  using assms by (auto simp: flight_at_def media_ok_def tget_tdel split: option.split)

lemma reclaimable_not_airborne:
  "row_ok r \<Longrightarrow> reclaimable now r \<Longrightarrow> \<not> airborne now (Some (flight_of r))"
  by (auto simp: row_ok_def reclaimable_def airborne_def flight_of_def
      split: media_status.splits option.splits)

lemma media_simulates:
  assumes ok: "media_ok d" and cfg: "config_ok cfg"
  shows "flight_step cfg (flight_event cfg i x d) (flight_at d i) (flight_at (run_media cfg x d) i)"
proof (cases x)
  case (MInsert now rid token mtype ident)
  show ?thesis
  proof (cases "find_analysis d ident = None \<and> tget ma_id (analyses d) rid = None")
    case True
    let ?r = "processing_row cfg now rid token mtype ident"
    have id: "ma_identity ?r = ident" by (simp add: processing_row_def)
    have after: "flight_at (run_media cfg x d) i =
        (if ident = i then Some (InFlight token (now + mc_processing_lease cfg)) else flight_at d i)"
      using True MInsert flight_insert [of d ?r i]
      by (simp add: run_media_def claim_insert_snd id) (simp add: processing_row_def flight_of_def)
    have ev: "flight_event cfg i x d = (if ident = i then TakeOff now token else Stay)"
      using True MInsert by (simp add: flight_event_def claim_insert_def Let_def)
    show ?thesis
      using True unfolding after ev
      by (auto intro!: flight_step.intros simp: flight_at_def airborne_def)
  next
    case False
    have "run_media cfg x d = d" using False MInsert by (auto simp: run_media_def claim_insert_snd)
    moreover have "flight_event cfg i x d = Stay"
      using False MInsert by (auto simp: flight_event_def claim_insert_def Let_def)
    ultimately show ?thesis by (simp add: stay)
  qed
next
  case (MReclaim now rid token mtype)
  let ?f = "reclaimed cfg now token mtype"
  have after: "flight_at (run_media cfg x d) i =
      map_option (\<lambda>r. flight_of (if ma_id r = rid \<and> reclaimable now r then ?f r else r)) (find_analysis d i)"
    using ok MReclaim flight_update [of ?f] by (simp add: run_media_def claim_update_snd media_ok_def reclaimed_def)
  show ?thesis
  proof (cases "find_analysis d i")
    case None
    with after MReclaim show ?thesis by (simp add: flight_event_def flight_at_def stay)
  next
    case (Some r)
    have "row_ok r" using media_okD [OF ok tget_mem [OF Some]] .
    moreover have "flight_of (?f r) = InFlight token (now + mc_processing_lease cfg)"
      by (simp add: flight_of_def reclaimed_def)
    ultimately show ?thesis
      using Some MReclaim unfolding after
      by (auto simp: flight_event_def flight_at_def intro!: flight_step.intros dest: reclaimable_not_airborne)
  qed
next
  case (MComplete now rid token result)
  let ?f = "landed_row cfg now result"
  have after: "flight_at (run_media cfg x d) i =
      map_option (\<lambda>r. flight_of (if holds_lease rid token r then ?f r else r)) (find_analysis d i)"
    using ok MComplete flight_update [of ?f] by (simp add: run_media_def complete_media_snd media_ok_def landed_row_def)
  with MComplete show ?thesis
    by (cases "find_analysis d i")
      (auto simp: flight_event_def flight_at_def flight_of_def landed_row_def holds_lease_def
        intro: flight_step.intros)
next
  case (MFail now rid token err)
  have after: "flight_at (run_media cfg x d) i =
      map_option (\<lambda>r. flight_of (if holds_lease rid token r
        then r\<lparr>ma_status := MediaFailed, ma_result_json := Malformed [], ma_lease_token := None,
                ma_lease_expires_at := Some (now + mc_failure_cooldown cfg),
                ma_error := Some (take 1000 err), ma_last_accessed_at := now,
                ma_expires_at := now + mc_ttl cfg\<rparr> else r)) (find_analysis d i)"
    unfolding MFail run_media_def fail_media_def media_op.case by (rule flight_update) simp
  with MFail show ?thesis
    by (cases "find_analysis d i")
      (auto simp: flight_event_def flight_at_def flight_of_def holds_lease_def intro: flight_step.intros)
next
  case (MInvalidate rid)
  have after: "flight_at (run_media cfg x d) i =
      (case find_analysis d i of None \<Rightarrow> None | Some r \<Rightarrow> if ma_id r = rid then None else Some (flight_of r))"
    unfolding MInvalidate run_media_def invalidate_media_def media_op.case by (rule flight_delete [OF ok])
  with MInvalidate show ?thesis
    by (cases "find_analysis d i") (auto simp: flight_event_def flight_at_def [of d] intro: flight_step.intros)
next
  case (MPut now ttl rid mtype ident result)
  let ?t = "effective_ttl cfg ttl"
  show ?thesis
  proof (cases "find_analysis d ident")
    case None
    with MPut show ?thesis
      by (auto simp: run_media_def put_media_def flight_event_def Let_def flight_insert flight_of_def
          intro: flight_step.intros)
  next
    case (Some s)
    have after: "flight_at (run_media cfg x d) i =
        map_option (\<lambda>r. flight_of (if ma_id r = ma_id s then stored_result now ?t mtype result r else r)) (find_analysis d i)"
      using Some MPut flight_update [where f = "stored_result now ?t mtype result" and P = "\<lambda>r. ma_id r = ma_id s" and d = d and i = i]
      by (simp add: run_media_def put_media_def Let_def stored_result_def)
    have ev: "flight_event cfg i x d = (if ident = i then Store result (now + ?t) else Stay)"
      using Some MPut by (simp add: flight_event_def put_media_def Let_def)
    have id: "ma_identity s = ident" using Some by (rule tget_key)
    have "ma_id r \<noteq> ma_id s" if "find_analysis d i = Some r" "ident \<noteq> i" for r
      using same_row [OF ok Some that(1)] that id tget_key [OF that(1)] by auto
    with Some show ?thesis unfolding after ev
      by (cases "find_analysis d i")
        (auto simp: flight_at_def flight_of_def stored_result_def intro: flight_step.intros)
  qed
next
  case (MGet now ttl ident)
  let ?t = "effective_ttl cfg ttl"
  show ?thesis
  proof (cases "find_analysis d ident")
    case None
    with MGet ok show ?thesis
      by (auto simp: run_media_def get_media_snd flight_event_def stay split: option.split)
  next
    case (Some s)
    let ?go = "ma_status s = MediaReady \<and> now < ma_expires_at s \<and> mc_access_refresh_after cfg \<le> now - ma_last_accessed_at s"
    have after: "flight_at (run_media cfg x d) i =
        map_option (\<lambda>r. flight_of (if ?go \<and> ma_id r = ma_id s then touched now ?t r else r)) (find_analysis d i)"
      using Some MGet ok flight_update [where f = "touched now ?t" and P = "\<lambda>r. ma_id r = ma_id s" and d = d and i = i]
      by (cases ?go) (simp_all add: run_media_def get_media_snd touched_def, auto simp: flight_at_def)
    have id: "ma_identity s = ident" using Some by (rule tget_key)
    have "ma_id r \<noteq> ma_id s" if "find_analysis d i = Some r" "ident \<noteq> i" for r
      using same_row [OF ok Some that(1)] that id tget_key [OF that(1)] by auto
    with Some MGet show ?thesis unfolding after
      by (cases "find_analysis d i"; cases "ident = i")
        (auto simp: flight_event_def flight_at_def flight_of_def touched_def intro: flight_step.intros)
  qed
next
  case (MDelete ids)
  have after: "flight_at (run_media cfg x d) i =
      (case find_analysis d i of None \<Rightarrow> None | Some r \<Rightarrow> if ma_id r \<in> set ids then None else Some (flight_of r))"
    unfolding MDelete run_media_def delete_analyses_def media_op.case by (rule flight_delete [OF ok])
  with MDelete show ?thesis
    by (cases "find_analysis d i") (auto simp: flight_event_def flight_at_def [of d] intro: flight_step.intros)
qed



section \<open>One call in flight\<close>

text \<open>The transactions that may end the flight of a token whose lease lasts until \<open>horizon\<close>.\<close>

definition may_end :: "string \<Rightarrow> time \<Rightarrow> media_op \<Rightarrow> bool" where
  "may_end token horizon x =
     (case x of
        MInsert now rid t mtype ident \<Rightarrow> horizon \<le> now
      | MReclaim now rid t mtype \<Rightarrow> horizon \<le> now
      | MComplete now rid t result \<Rightarrow> t = token
      | MFail now rid t err \<Rightarrow> t = token
      | MInvalidate rid \<Rightarrow> True
      | MPut now ttl rid mtype ident result \<Rightarrow> True
      | MGet now ttl ident \<Rightarrow> False
      | MDelete ids \<Rightarrow> True)"

definition takes_off :: "media_config \<Rightarrow> media_op \<Rightarrow> media_db \<Rightarrow> media_identity \<Rightarrow> bool" where
  "takes_off cfg x d i \<longleftrightarrow> (case flight_event cfg i x d of TakeOff now token \<Rightarrow> True | _ \<Rightarrow> False)"

definition flying_with :: "media_config \<Rightarrow> media_db \<Rightarrow> media_identity \<Rightarrow> (string \<times> time) option" where
  "flying_with cfg d i =
     (if media_ok d \<and> config_ok cfg
      then (case flight_at d i of Some (InFlight token until) \<Rightarrow> Some (token, until) | _ \<Rightarrow> None)
      else None)"

text \<open>The event of a transaction carries the transaction's instant and token.\<close>

lemma event_of_survivor:
  assumes "\<not> may_end token horizon x"
  shows "case flight_event cfg i x d of
      TakeOff now t \<Rightarrow> now < horizon | Land now t result \<Rightarrow> t \<noteq> token | Crash now t \<Rightarrow> t \<noteq> token
    | Extend t \<Rightarrow> True | Store result t \<Rightarrow> False | Remove \<Rightarrow> False | Stay \<Rightarrow> True"
  using assms
  by (auto simp: flight_event_def may_end_def not_le split: media_op.splits option.split)

lemma flight_survives:
  assumes "flying_with cfg d i = Some (token, horizon)" and "\<not> may_end token horizon x"
  shows "flying_with cfg (run_media cfg x d) i = Some (token, horizon) \<and> \<not> takes_off cfg x d i"
proof -
  have ok: "media_ok d" "config_ok cfg" and fl: "flight_at d i = Some (InFlight token horizon)"
    using assms(1) by (auto simp: flying_with_def split: if_splits option.splits flight.splits)
  have "flight_step cfg (flight_event cfg i x d) (Some (InFlight token horizon)) (flight_at (run_media cfg x d) i)"
    using media_simulates [OF ok, of i x] by (simp add: fl)
  then have "flight_event cfg i x d = Stay \<and> flight_at (run_media cfg x d) i = Some (InFlight token horizon)"
    using event_of_survivor [OF assms(2), of cfg i d]
    by (cases rule: flight_stepE) (auto simp: airborne_def)
  with run_media_ok [OF ok] ok show ?thesis by (simp add: flying_with_def takes_off_def)
qed

interpretation flying: barred "run_media cfg" "flying_with cfg"
    "\<lambda>v. v = (token, horizon)" "may_end token horizon" "takes_off cfg" for cfg token horizon
  by unfold_locales (auto dest: flight_survives)

section \<open>Whole claims\<close>





text \<open>A cleanup that nobody interrupts removes no call that is under way.\<close>

lemma expired_not_airborne:
  "row_ok r \<Longrightarrow> ma_expires_at r \<le> now \<Longrightarrow> \<not> airborne now (Some (flight_of r))"
  by (rule reclaimable_not_airborne) (simp_all add: reclaimable_def)

lemma purged_expired:
  assumes "media_ok d" and "find_analysis d i = Some r"
    and "ma_id r \<in> set (expired_ids now limit d)"
  shows "ma_expires_at r \<le> now"
proof -
  obtain s where "s \<in> set (filter (\<lambda>r. ma_expires_at r \<le> now) (analyses d))" and id: "ma_id s = ma_id r"
    using assms(3) unfolding tlimit_def expired_ids_def set_map by (metis (no_types, lifting) imageE in_set_takeD set_sort)
  moreover have "s = r"
    using calculation assms(1,2) by (auto simp: media_ok_def dest!: tget_SomeD intro: keyed_eq)
  ultimately show ?thesis by simp
qed

lemma purge_spares_flights:
  assumes "media_ok d" and "airborne now (flight_at d i)"
  shows "flight_at (snd (purge_media now limit id d)) i = flight_at d i"
proof -
  obtain r where r: "find_analysis d i = Some r" "airborne now (Some (flight_of r))"
    using assms(2) by (auto simp: flight_at_def airborne_def split: option.splits)
  have "ma_id r \<notin> set (expired_ids now limit d)"
    using purged_expired [OF assms(1) r(1)] expired_not_airborne [OF media_okD [OF assms(1) tget_mem [OF r(1)]]] r(2)
    by blast
  then show ?thesis
    using r(1) flight_delete [OF assms(1)]
    by (simp add: purge_media_def Let_def delete_analyses_def flight_at_def [of d])
qed

section \<open>Properties\<close>

text \<open>A small history for the concrete instances: a claim at 0 by one worker, its result at 5.\<close>

definition demo_identity :: media_identity where
  "demo_identity = (''key'', ''general-v1'', ''provider'', ''model'')"

definition demo_claim :: media_op where
  "demo_claim = MInsert 0 ''row'' ''token'' ''image'' demo_identity"

definition demo_media :: media_db where
  "demo_media = run_media default_media_config demo_claim \<lparr>analyses = []\<rparr>"



text \<open>One provider call at a time: from a granted claim until its lease ends, no other claim of the
  identity is granted, as long as nobody removes or overwrites the entry by hand and the claim's
  holder has not reported; and the holder's result is then stored.\<close>

theorem one_call_in_flight:
  assumes "media_ok d" and "config_ok cfg" and "flight_event cfg i x d = TakeOff now token"
    and "\<forall>y \<in> set xs. \<not> may_end token (now + mc_processing_lease cfg) y"
  shows "grant_count (run_media cfg) (\<lambda>y e. takes_off cfg y e i) xs (run_media cfg x d) = 0
    \<and> (\<exists>r. find_analysis (run_ops (run_media cfg) xs (run_media cfg x d)) i = Some r
         \<and> fst (complete_media cfg t (ma_id r) token result (run_ops (run_media cfg) xs (run_media cfg x d))))"
proof -
  let ?s = "run_media cfg x d" and ?h = "now + mc_processing_lease cfg"
  let ?f = "run_ops (run_media cfg) xs ?s"
  have "flight_at ?s i = Some (InFlight token ?h)"
    using media_simulates [OF assms(1,2), of i x] unfolding assms(3) by (cases rule: flight_step.cases) auto
  then have fly: "flying_with cfg ?s i = Some (token, ?h)"
    using run_media_ok [OF assms(1,2), of x] assms(2) by (simp add: flying_with_def)
  have "flying_with cfg ?f i = Some (token, ?h)"
    by (rule flying.final_run [OF fly refl assms(4)])
  then have ok: "media_ok ?f" and "flight_at ?f i = Some (InFlight token ?h)"
    by (auto simp: flying_with_def split: if_splits option.splits flight.splits)
  then obtain r where r: "find_analysis ?f i = Some r" and fl: "flight_of r = InFlight token ?h"
    by (auto simp: flight_at_def)
  have row: "row_ok r" using media_okD [OF ok tget_mem [OF r]] .
  have holds: "ma_status r = MediaProcessing \<and> ma_lease_token r = Some token"
    using fl row by (auto simp: flight_of_def row_ok_def split: media_status.splits)
  have "tget ma_id (analyses ?f) (ma_id r) = Some r"
    using ok tget_mem [OF r] by (intro tget_self) (simp_all add: media_ok_def)
  then have "tcount (holds_lease (ma_id r) token) (analyses ?f) = 1"
    using ok holds count_by_id [of ?f "ma_id r" "\<lambda>r. ma_status r = MediaProcessing \<and> ma_lease_token r = Some token"]
    by (simp add: media_ok_def holds_lease_def [abs_def])
  then show ?thesis
    using flying.none_granted [OF fly refl assms(4)] r by (auto simp: complete_media_def)
qed

theorem one_call_in_flight_witness:
  "grant_count (run_media default_media_config) (\<lambda>y e. takes_off default_media_config y e demo_identity)
     [MReclaim (minutes 2) ''row'' ''other'' ''image''] demo_media = 0"
proof -
  have 1: "media_ok \<lparr>analyses = []\<rparr>" by code_simp
  have 2: "config_ok default_media_config" by code_simp
  have 3: "flight_event default_media_config demo_identity demo_claim \<lparr>analyses = []\<rparr> = TakeOff 0 ''token''"
    by code_simp
  have 4: "\<forall>y \<in> set [MReclaim (minutes 2) ''row'' ''other'' ''image''].
      \<not> may_end ''token'' (0 + mc_processing_lease default_media_config) y"
    by (simp add: may_end_def default_media_config_def minutes_def)
  show ?thesis
    using one_call_in_flight [OF 1 2 3 4] by (simp add: demo_media_def)
qed

section \<open>What the update of a claim overlooks\<close>

text \<open>
  A finished analysis has no lease, and the conditional update of \<open>claim\<close> accepts a row without a
  lease. A worker that read an expired lease therefore takes over, and erases, a result that the
  slow holder stored after that read, though the result is fresh; the provider is called again.
\<close>

lemma late_claim_discards_result:
  "let cfg = default_media_config;
       others = (\<lambda>n. if n = 1 then run_media cfg (MComplete (minutes 4) ''row'' ''token'' (Text JNull)) else (\<lambda>d. d));
       ready = run_media cfg (MComplete (minutes 4) ''row'' ''token'' (Text JNull)) demo_media;
       (res, d') = claim_media cfg others (minutes 4) ''new'' ''second'' ''image'' demo_identity demo_media
   in flight_at ready demo_identity = Some (Landed (Text JNull) (minutes 4 + days 30))
      \<and> (case res of Inr c \<Rightarrow> cl_status c = Claimed | Inl e \<Rightarrow> False)
      \<and> flight_at d' demo_identity = Some (InFlight ''second'' (minutes 7))"
  by code_simp

text \<open>
  The deletion of a cleanup asks only for the identifiers: an entry that was reclaimed after the cleanup
  read it is deleted while its call is under way, and the next worker calls the provider as well.
\<close>

lemma cleanup_deletes_reclaimed_call:
  "let cfg = default_media_config; now = days 40;
       reclaim = run_media cfg (MReclaim now ''row'' ''second'' ''image'');
       d' = snd (purge_media now 500 reclaim demo_media)
   in flight_at (reclaim demo_media) demo_identity = Some (InFlight ''second'' (now + minutes 3))
      \<and> flight_at d' demo_identity = None
      \<and> takes_off cfg (MInsert now ''third'' ''token3'' ''image'' demo_identity) d' demo_identity"
  by code_simp

end
