(* ===== verification/Reminders.thy ===== *)
theory Reminders
  imports Deployments Pagination Contracts
begin

text \<open>
  Scheduled reminders: the table of \<open>persistence/scheduled_reminder_models.py\<close>, every operation of
  \<open>ScheduledReminderRepository\<close> (\<open>persistence/scheduled_reminder_repository.py\<close>) and the polling
  step of \<open>ScheduledReminderDeliveryService\<close> (\<open>scheduled_reminder_service.py\<close>). The delivery to
  Discord is an argument: it ends at some time, with or without an error message. Deployments and
  cards are rows that the operations read. \<open>now\<close> is the clock that a call reads, and \<open>onupdate\<close>
  sets \<open>updated_at\<close> of every row that a flush writes. Instants are UTC already.
\<close>

section \<open>Rows\<close>

datatype reminder_status =
    ReminderPending | ReminderProcessing | ReminderCompleted | ReminderFailed | ReminderCancelled

definition status_text :: "reminder_status \<Rightarrow> string" where
  "status_text v =
     (case v of
        ReminderPending \<Rightarrow> ''pending'' | ReminderProcessing \<Rightarrow> ''processing''
      | ReminderCompleted \<Rightarrow> ''completed'' | ReminderFailed \<Rightarrow> ''failed''
      | ReminderCancelled \<Rightarrow> ''cancelled'')"

record scheduled_reminder =
  rd_id :: string
  rd_owner_id :: string
  rd_deployment_id :: string
  rd_connection_id :: string
  rd_platform :: string
  rd_channel_id :: string
  rd_thread_id :: string
  rd_target_user_id :: string
  rd_text :: prose
  rd_scheduled_at :: time
  rd_status :: reminder_status
  rd_attempt_count :: int
  rd_processing_started_at :: "time option"
  rd_delivered_at :: "time option"
  rd_last_error :: string
  rd_created_at :: time
  rd_updated_at :: time

record reminder_db =
  reminders :: "scheduled_reminder list"
  deployments :: "character_deployment list"
  cards :: "character_card list"

abbreviation get_reminder :: "'a reminder_db_scheme \<Rightarrow> string \<Rightarrow> scheduled_reminder option" where
  "get_reminder d k \<equiv> tget rd_id (reminders d) k"

interpretation reminder_table: db_table reminders reminders_update rd_id
  by unfold_locales simp

text \<open>A flush of the rows that meet a condition.\<close>

definition flush_reminder ::
  "time \<Rightarrow> (scheduled_reminder \<Rightarrow> scheduled_reminder) \<Rightarrow> scheduled_reminder \<Rightarrow> scheduled_reminder" where
  "flush_reminder now f r = (if f r = r then r else (f r)\<lparr>rd_updated_at := now\<rparr>)"

definition save_reminders ::
  "time \<Rightarrow> (scheduled_reminder \<Rightarrow> bool) \<Rightarrow> (scheduled_reminder \<Rightarrow> scheduled_reminder)
    \<Rightarrow> 'a reminder_db_scheme \<Rightarrow> 'a reminder_db_scheme" where
  "save_reminders now P f d = d\<lparr>reminders := tset P (flush_reminder now f) (reminders d)\<rparr>"

section \<open>Creating and reading\<close>

record reminder_request =
  rq_owner_id :: string
  rq_deployment_id :: string
  rq_channel_id :: string
  rq_thread_id :: string
  rq_target_user_id :: string
  rq_text :: prose
  rq_scheduled_at :: time

text \<open>The connection and platform hints of the caller are dropped: the deployment decides.\<close>

definition new_reminder ::
  "time \<Rightarrow> string \<Rightarrow> character_deployment \<Rightarrow> reminder_request \<Rightarrow> scheduled_reminder" where
  "new_reminder now uid dep q =
     \<lparr>rd_id = uid, rd_owner_id = rq_owner_id q, rd_deployment_id = rq_deployment_id q,
      rd_connection_id = cd_connection_id dep, rd_platform = cd_platform dep,
      rd_channel_id = rq_channel_id q, rd_thread_id = rq_thread_id q,
      rd_target_user_id = rq_target_user_id q, rd_text = rq_text q,
      rd_scheduled_at = rq_scheduled_at q, rd_status = ReminderPending, rd_attempt_count = 0,
      rd_processing_started_at = None, rd_delivered_at = None, rd_last_error = [],
      rd_created_at = now, rd_updated_at = now\<rparr>"

definition create_reminder ::
  "time \<Rightarrow> string \<Rightarrow> reminder_request \<Rightarrow> 'a reminder_db_scheme
    \<Rightarrow> (scheduled_reminder, 'a reminder_db_scheme) outcome" where
  "create_reminder now uid q d =
     (case tget cd_id (deployments d) (rq_deployment_id q) of
        None \<Rightarrow> (Inl (KeyError ''deployment''), d)
      | Some dep \<Rightarrow>
          if cd_owner_id dep \<noteq> rq_owner_id q then (Inl (KeyError ''deployment''), d)
          else if get_reminder d uid \<noteq> None then (Inl IntegrityError, d)
          else
            (let r = new_reminder now uid dep q in
             (Inr r, d\<lparr>reminders := tins r (reminders d)\<rparr>)))"

definition find_reminder ::
  "string \<Rightarrow> string \<Rightarrow> 'a reminder_db_scheme \<Rightarrow> scheduled_reminder option" where
  "find_reminder owner k d =
     (case get_reminder d k of
        None \<Rightarrow> None
      | Some r \<Rightarrow> if rd_owner_id r \<noteq> owner then None else Some r)"

text \<open>An optional filter is off when it is missing or empty.\<close>

definition asked :: "string option \<Rightarrow> string \<Rightarrow> bool" where
  "asked want have' \<longleftrightarrow> (case want of None \<Rightarrow> True | Some w \<Rightarrow> w = [] \<or> w = have')"

definition owned_by :: "string \<Rightarrow> string option \<Rightarrow> scheduled_reminder \<Rightarrow> bool" where
  "owned_by owner deployment r \<longleftrightarrow> rd_owner_id r = owner \<and> asked deployment (rd_deployment_id r)"

definition in_status :: "string option \<Rightarrow> scheduled_reminder \<Rightarrow> bool" where
  "in_status status r \<longleftrightarrow> asked status (status_text (rd_status r))"

definition list_for_owner ::
  "string \<Rightarrow> string option \<Rightarrow> string option \<Rightarrow> int \<Rightarrow> 'a reminder_db_scheme \<Rightarrow> scheduled_reminder list" where
  "list_for_owner owner deployment status limit d =
     tlimit (clip 1 250 limit)
       (rev (sort_key (\<lambda>r. (rd_scheduled_at r, rd_created_at r))
         (filter (\<lambda>r. owned_by owner deployment r \<and> in_status status r) (reminders d))))"

definition unfinished :: "scheduled_reminder \<Rightarrow> bool" where
  "unfinished r \<longleftrightarrow> rd_status r = ReminderPending \<or> rd_status r = ReminderProcessing"

definition list_for_deployment ::
  "string \<Rightarrow> string \<Rightarrow> int \<Rightarrow> bool \<Rightarrow> 'a reminder_db_scheme \<Rightarrow> scheduled_reminder list" where
  "list_for_deployment owner deployment limit include_finished d =
     tlimit (clip 1 50 limit)
       (sort_key (\<lambda>r. (rd_scheduled_at r, rd_created_at r))
         (filter (\<lambda>r. rd_owner_id r = owner \<and> rd_deployment_id r = deployment
                      \<and> (include_finished \<or> unfinished r)) (reminders d)))"

record portal_row =
  po_record :: scheduled_reminder
  po_card_id :: string
  po_character_name :: string
  po_channel_name :: string
  po_thread_name :: string

text \<open>The two outer joins of a listed reminder.\<close>

definition joined_deployment ::
  "'a reminder_db_scheme \<Rightarrow> scheduled_reminder \<Rightarrow> character_deployment option" where
  "joined_deployment d r =
     find (\<lambda>x. cd_id x = rd_deployment_id r \<and> cd_owner_id x = rd_owner_id r) (deployments d)"

definition joined_card :: "'a reminder_db_scheme \<Rightarrow> scheduled_reminder \<Rightarrow> character_card option" where
  "joined_card d r =
     (case joined_deployment d r of
        None \<Rightarrow> None
      | Some x \<Rightarrow> find (\<lambda>c. cc_id c = cd_character_card_id x \<and> cc_owner_id c = rd_owner_id r) (cards d))"

definition portal_row_of :: "'a reminder_db_scheme \<Rightarrow> scheduled_reminder \<Rightarrow> portal_row" where
  "portal_row_of d r =
     \<lparr>po_record = r,
      po_card_id = (case joined_deployment d r of None \<Rightarrow> [] | Some x \<Rightarrow> cd_character_card_id x),
      po_character_name = (case joined_card d r of None \<Rightarrow> ''Character'' | Some c \<Rightarrow> cc_display_name c),
      po_channel_name = (case joined_deployment d r of None \<Rightarrow> [] | Some x \<Rightarrow> cd_channel_name x),
      po_thread_name = (case joined_deployment d r of None \<Rightarrow> [] | Some x \<Rightarrow> cd_thread_name x)\<rparr>"

definition status_counts ::
  "string \<Rightarrow> string option \<Rightarrow> 'a reminder_db_scheme \<Rightarrow> (string \<times> nat) list" where
  "status_counts owner deployment d =
     filter (\<lambda>(v, n). n \<noteq> 0)
       (map (\<lambda>v. (status_text v, tcount (\<lambda>r. owned_by owner deployment r \<and> rd_status r = v) (reminders d)))
         [ReminderPending, ReminderProcessing, ReminderCompleted, ReminderFailed, ReminderCancelled])"

definition created_order :: "scheduled_reminder \<Rightarrow> time \<times> string" where
  "created_order r = (rd_created_at r, rd_id r)"

definition list_portal_page ::
  "string \<Rightarrow> string option \<Rightarrow> string option \<Rightarrow> int \<Rightarrow> cursor_text option \<Rightarrow> 'a reminder_db_scheme
    \<Rightarrow> error + (portal_row list \<times> cursor_text option \<times> (string \<times> nat) list)" where
  "list_portal_page owner deployment status limit cursor d =
     map_sum id
       (\<lambda>(rows, following). (map (portal_row_of d) rows, following, status_counts owner deployment d))
       (list_page created_order 250 limit cursor
         (filter (\<lambda>r. owned_by owner deployment r \<and> in_status status r) (reminders d)))"

section \<open>Cancelling, claiming, settling\<close>

definition cancel_reminder ::
  "time \<Rightarrow> string \<Rightarrow> string \<Rightarrow> string \<Rightarrow> 'a reminder_db_scheme
    \<Rightarrow> scheduled_reminder option \<times> 'a reminder_db_scheme" where
  "cancel_reminder now owner deployment k d =
     (case get_reminder d k of
        None \<Rightarrow> (None, d)
      | Some r \<Rightarrow>
          if rd_owner_id r \<noteq> owner \<or> rd_deployment_id r \<noteq> deployment then (None, d)
          else if \<not> unfinished r then (Some r, d)
          else
            (let d' = save_reminders now (\<lambda>r. rd_id r = k)
                        (\<lambda>r. r\<lparr>rd_status := ReminderCancelled, rd_processing_started_at := None\<rparr>) d
             in (get_reminder d' k, d')))"

definition stale_processing :: "time \<Rightarrow> int \<Rightarrow> scheduled_reminder \<Rightarrow> bool" where
  "stale_processing now stale_seconds r \<longleftrightarrow>
     rd_status r = ReminderProcessing
     \<and> (case rd_processing_started_at r of
          None \<Rightarrow> True | Some t \<Rightarrow> t \<le> now - seconds (max 30 stale_seconds))"

definition recover_reminders :: "time \<Rightarrow> int \<Rightarrow> 'a reminder_db_scheme \<Rightarrow> nat \<times> 'a reminder_db_scheme" where
  "recover_reminders now stale_seconds d =
     (tcount (stale_processing now stale_seconds) (reminders d),
      save_reminders now (stale_processing now stale_seconds)
        (\<lambda>r. r\<lparr>rd_status := ReminderPending, rd_processing_started_at := None\<rparr>) d)"

definition reminder_due :: "time \<Rightarrow> scheduled_reminder \<Rightarrow> bool" where
  "reminder_due now r \<longleftrightarrow> rd_status r = ReminderPending \<and> rd_scheduled_at r \<le> now"

definition due_reminders :: "time \<Rightarrow> int \<Rightarrow> 'a reminder_db_scheme \<Rightarrow> scheduled_reminder list" where
  "due_reminders now limit d =
     tlimit (clip 1 50 limit) (sort_key rd_scheduled_at (filter (reminder_due now) (reminders d)))"

definition claimed_reminder :: "time \<Rightarrow> scheduled_reminder \<Rightarrow> scheduled_reminder" where
  "claimed_reminder now r =
     r\<lparr>rd_status := ReminderProcessing, rd_attempt_count := rd_attempt_count r + 1,
       rd_processing_started_at := Some now\<rparr>"

definition claim_due ::
  "time \<Rightarrow> int \<Rightarrow> 'a reminder_db_scheme \<Rightarrow> scheduled_reminder list \<times> 'a reminder_db_scheme" where
  "claim_due now limit d =
     (let due = due_reminders now limit d in
      (map (flush_reminder now (claimed_reminder now)) due,
       save_reminders now (\<lambda>r. rd_id r \<in> set (map rd_id due)) (claimed_reminder now) d))"

definition mark_delivered :: "time \<Rightarrow> string \<Rightarrow> 'a reminder_db_scheme \<Rightarrow> 'a reminder_db_scheme" where
  "mark_delivered now k d =
     save_reminders now (\<lambda>r. rd_id r = k)
       (\<lambda>r. r\<lparr>rd_status := ReminderCompleted, rd_delivered_at := Some now,
              rd_processing_started_at := None, rd_last_error := []\<rparr>) d"

definition failed_reminder ::
  "time \<Rightarrow> string \<Rightarrow> int \<Rightarrow> int \<Rightarrow> scheduled_reminder \<Rightarrow> scheduled_reminder" where
  "failed_reminder now err max_attempts retry_seconds r =
     (let r' = r\<lparr>rd_last_error := take 2000 err, rd_processing_started_at := None\<rparr> in
      if max 1 max_attempts \<le> rd_attempt_count r then r'\<lparr>rd_status := ReminderFailed\<rparr>
      else r'\<lparr>rd_status := ReminderPending,
              rd_scheduled_at := now + seconds (max 5 retry_seconds)\<rparr>)"

definition mark_failure ::
  "time \<Rightarrow> string \<Rightarrow> string \<Rightarrow> int \<Rightarrow> int \<Rightarrow> 'a reminder_db_scheme \<Rightarrow> 'a reminder_db_scheme" where
  "mark_failure now k err max_attempts retry_seconds d =
     save_reminders now (\<lambda>r. rd_id r = k) (failed_reminder now err max_attempts retry_seconds) d"

definition purge_orphans :: "'a reminder_db_scheme \<Rightarrow> nat \<times> 'a reminder_db_scheme" where
  "purge_orphans d =
     (let orphan = (\<lambda>r. rd_deployment_id r \<notin> set (map cd_id (deployments d))) in
      (tcount orphan (reminders d), d\<lparr>reminders := tdel orphan (reminders d)\<rparr>))"

definition claim_owner ::
  "time \<Rightarrow> string \<Rightarrow> string \<Rightarrow> 'a reminder_db_scheme \<Rightarrow> nat \<times> 'a reminder_db_scheme" where
  "claim_owner now source target d =
     (tcount (\<lambda>r. rd_owner_id r = source) (reminders d),
      d\<lparr>reminders := tset (\<lambda>r. rd_owner_id r = source)
                       (\<lambda>r. r\<lparr>rd_owner_id := target, rd_updated_at := now\<rparr>) (reminders d)\<rparr>)"

definition delete_owner_reminders :: "string \<Rightarrow> 'a reminder_db_scheme \<Rightarrow> nat \<times> 'a reminder_db_scheme" where
  "delete_owner_reminders owner d =
     (tcount (\<lambda>r. rd_owner_id r = owner) (reminders d),
      d\<lparr>reminders := tdel (\<lambda>r. rd_owner_id r = owner) (reminders d)\<rparr>)"

section \<open>The delivery service\<close>

record delivery_settings =
  dv_retry_seconds :: int
  dv_max_attempts :: int

definition make_settings :: "int \<Rightarrow> int \<Rightarrow> delivery_settings" where
  "make_settings retry_seconds max_attempts =
     \<lparr>dv_retry_seconds = max 5 retry_seconds, dv_max_attempts = max 1 max_attempts\<rparr>"

text \<open>The text that is sent, and whom it may mention.\<close>

definition reminder_content :: "scheduled_reminder \<Rightarrow> prose \<times> string list" where
  "reminder_content r =
     (let content = strip_prose (rd_text r) in
      if rd_target_user_id r \<noteq> []
      then (take 2000 (points (''<@'' @ rd_target_user_id r @ ''> '') @ content), [rd_target_user_id r])
      else (take 2000 content, []))"

text \<open>The end of one delivery: when, and the message of the exception it raised, if any.\<close>

definition settle_reminder ::
  "delivery_settings \<Rightarrow> time \<times> string option \<Rightarrow> string \<Rightarrow> 'a reminder_db_scheme
    \<Rightarrow> 'a reminder_db_scheme" where
  "settle_reminder s outcome k d =
     (case outcome of
        (t, Some err) \<Rightarrow> mark_failure t k err (dv_max_attempts s) (dv_retry_seconds s) d
      | (t, None) \<Rightarrow> mark_delivered t k d)"

definition deliver_due_once ::
  "delivery_settings \<Rightarrow> time \<Rightarrow> (scheduled_reminder \<Rightarrow> time \<times> string option) \<Rightarrow> 'a reminder_db_scheme
    \<Rightarrow> nat \<times> 'a reminder_db_scheme" where
  "deliver_due_once s now deliver d =
     (let (records, d') = claim_due now 20 d in
      (length (filter (\<lambda>r. snd (deliver r) = None) records),
       fold (\<lambda>r. settle_reminder s (deliver r) (rd_id r)) records d'))"

text \<open>\<open>start\<close> before it creates the polling task.\<close>

definition start_delivery :: "time \<Rightarrow> 'a reminder_db_scheme \<Rightarrow> 'a reminder_db_scheme" where
  "start_delivery now d = snd (purge_orphans (snd (recover_reminders now 120 d)))"

end
