(* ===== verification/Reminder_Safety.thy ===== *)
theory Reminder_Safety
  imports Reminders
begin

text \<open>
  What the reminders promise over any run of their operations: a bounded number of delivery
  attempts, deliveries in due order and never early, and a cancellation that holds.
\<close>

section \<open>Commands\<close>

datatype reminder_command =
    CreateReminder string reminder_request
  | CancelReminder string string string
  | RecoverReminders int
  | ClaimDue int
  | DeliverySent string
  | DeliveryFailed string string
  | PurgeOrphans
  | ClaimOwner string string
  | DeleteOwner string

fun run_reminder ::
  "delivery_settings \<Rightarrow> time \<times> reminder_command \<Rightarrow> 'a reminder_db_scheme \<Rightarrow> 'a reminder_db_scheme" where
  "run_reminder s (now, CreateReminder uid q) d = snd (create_reminder now uid q d)"
| "run_reminder s (now, CancelReminder owner deployment k) d = snd (cancel_reminder now owner deployment k d)"
| "run_reminder s (now, RecoverReminders stale) d = snd (recover_reminders now stale d)"
| "run_reminder s (now, ClaimDue limit) d = snd (claim_due now limit d)"
| "run_reminder s (now, DeliverySent k) d = settle_reminder s (now, None) k d"
| "run_reminder s (now, DeliveryFailed k err) d = settle_reminder s (now, Some err) k d"
| "run_reminder s (now, PurgeOrphans) d = snd (purge_orphans d)"
| "run_reminder s (now, ClaimOwner source target) d = snd (claim_owner now source target d)"
| "run_reminder s (now, DeleteOwner owner) d = snd (delete_owner_reminders owner d)"

fun claims :: "string \<Rightarrow> time \<times> reminder_command \<Rightarrow> 'a reminder_db_scheme \<Rightarrow> bool" where
  "claims k (now, ClaimDue limit) d \<longleftrightarrow> k \<in> set (map rd_id (fst (claim_due now limit d)))"
| "claims k _ d \<longleftrightarrow> False"

section \<open>How a command acts on one reminder\<close>

lemma flush_simps [simp]:
  "(\<And>r. rd_id (f r) = rd_id r) \<Longrightarrow> rd_id (flush_reminder now f r) = rd_id r"
  "rd_status (flush_reminder now f r) = rd_status (f r)"
  "rd_attempt_count (flush_reminder now f r) = rd_attempt_count (f r)"
  "rd_scheduled_at (flush_reminder now f r) = rd_scheduled_at (f r)"
  by (simp_all add: flush_reminder_def)

lemma get_save_reminders:
  assumes "\<And>r. rd_id (f r) = rd_id r"
  shows "get_reminder (save_reminders now P f d) k =
    map_option (\<lambda>r. if P r then flush_reminder now f r else r) (get_reminder d k)"
  by (simp add: save_reminders_def tget_tset assms)

lemma failed_simps [simp]:
  "rd_id (failed_reminder now err m retry r) = rd_id r"
  "rd_attempt_count (failed_reminder now err m retry r) = rd_attempt_count r"
  "rd_status (failed_reminder now err m retry r) =
    (if max 1 m \<le> rd_attempt_count r then ReminderFailed else ReminderPending)"
  by (simp_all add: failed_reminder_def Let_def)

lemma claimed_simps [simp]:
  "rd_id (claimed_reminder now r) = rd_id r" "rd_status (claimed_reminder now r) = ReminderProcessing"
  "rd_attempt_count (claimed_reminder now r) = rd_attempt_count r + 1"
  by (simp_all add: claimed_reminder_def)

lemma due_reminders_mem:
  assumes "r \<in> set (due_reminders now limit d)"
  shows "r \<in> set (reminders d) \<and> reminder_due now r"
proof -
  have "set (due_reminders now limit d) \<subseteq> set (filter (reminder_due now) (reminders d))"
    unfolding due_reminders_def tlimit_def by (metis set_sort set_take_subset)
  with assms show ?thesis by auto
qed

lemma claims_ids: "claims k (now, ClaimDue limit) d \<longleftrightarrow> k \<in> rd_id ` set (due_reminders now limit d)"
  by (simp add: claim_due_def Let_def image_image)

lemma claims_due:
  assumes "keyed rd_id (reminders d)" and "claims k (now, ClaimDue limit) d"
  shows "\<exists>r. get_reminder d k = Some r \<and> reminder_due now r"
proof -
  obtain r where "r \<in> set (due_reminders now limit d)" "rd_id r = k"
    using assms(2) unfolding claims_ids by blast
  with due_reminders_mem [OF this(1)] tget_self [OF assms(1)] show ?thesis by blast
qed

lemma get_claim_due:
  "get_reminder (snd (claim_due now limit d)) k =
    map_option (\<lambda>r. if claims k (now, ClaimDue limit) d then flush_reminder now (claimed_reminder now) r else r)
      (get_reminder d k)"
proof (cases "get_reminder d k")
  case (Some r)
  then have "rd_id r = k" by (rule tget_key)
  with Some show ?thesis
    by (simp add: claim_due_def Let_def get_save_reminders image_image)
qed (simp add: claim_due_def Let_def get_save_reminders)

lemma keyed_run_reminder: "keyed rd_id (reminders d) \<Longrightarrow> keyed rd_id (reminders (run_reminder s x d))"
  by (cases "(s, x, d)" rule: run_reminder.cases)
    (auto simp: create_reminder_def cancel_reminder_def recover_reminders_def claim_due_def
      settle_reminder_def mark_delivered_def mark_failure_def purge_orphans_def claim_owner_def
      delete_owner_reminders_def save_reminders_def Let_def keyed_tset keyed_tins keyed_tdel new_reminder_def
      split: option.split)

text \<open>The fate of the reminder \<open>k\<close> in one command: its status and attempts afterwards.\<close>

definition attempts_left :: "int \<Rightarrow> scheduled_reminder \<Rightarrow> nat" where
  "attempts_left m r =
     (if rd_status r = ReminderPending then nat (max 1 (m - rd_attempt_count r))
      else nat (m - rd_attempt_count r))"

definition reminder_credit :: "delivery_settings \<Rightarrow> string \<Rightarrow> 'a reminder_db_scheme \<Rightarrow> nat" where
  "reminder_credit s k d =
     (case get_reminder d k of None \<Rightarrow> 0 | Some r \<Rightarrow> attempts_left (max 1 (dv_max_attempts s)) r)"

fun renews_reminder :: "delivery_settings \<Rightarrow> string \<Rightarrow> time \<times> reminder_command \<Rightarrow> nat" where
  "renews_reminder s k (now, CreateReminder uid q) = (if uid = k then nat (max 1 (dv_max_attempts s)) else 0)"
| "renews_reminder s k (now, RecoverReminders stale) = 1"
| "renews_reminder s k _ = 0"

text \<open>Deleting rows only removes a reminder; every other command maps its row.\<close>

lemma get_deleted:
  assumes "keyed rd_id (reminders d)"
  shows "get_reminder (d\<lparr>reminders := tdel P (reminders d)\<rparr>) k \<in> {None, get_reminder d k}"
  by (simp add: tget_tdel [OF assms] split: option.split)

lemma credit_map:
  assumes "get_reminder d' k = map_option f (get_reminder d k)"
    and "\<And>r. get_reminder d k = Some r \<Longrightarrow>
      attempts_left (max 1 (dv_max_attempts s)) (f r) \<le> attempts_left (max 1 (dv_max_attempts s)) r + n"
  shows "reminder_credit s k d' \<le> reminder_credit s k d + n"
  using assms by (auto simp: reminder_credit_def split: option.split)

lemma credit_deleted:
  assumes "keyed rd_id (reminders d)"
  shows "reminder_credit s k (d\<lparr>reminders := tdel P (reminders d)\<rparr>) \<le> reminder_credit s k d"
  using get_deleted [OF assms, of P k] by (auto simp: reminder_credit_def)

lemma credit_step_reminder:
  assumes keyed: "keyed rd_id (reminders d)"
  shows "reminder_credit s k (run_reminder s x d) \<le> reminder_credit s k d + renews_reminder s k x"
proof -
  let ?m = "max 1 (dv_max_attempts s)"
  obtain now c where x: "x = (now, c)" by fastforce
  show ?thesis
  proof (cases c)
    case (CreateReminder uid q)
    with x show ?thesis
      by (auto simp: create_reminder_def Let_def reminder_credit_def tget_tins new_reminder_def
          attempts_left_def split: option.split)
  next
    case (CancelReminder owner deployment i)
    have "reminder_credit s k (save_reminders now (\<lambda>r. rd_id r = i)
        (\<lambda>r. r\<lparr>rd_status := ReminderCancelled, rd_processing_started_at := None\<rparr>) d) \<le> reminder_credit s k d + 0"
      by (rule credit_map [OF get_save_reminders]) (auto simp: attempts_left_def)
    with x CancelReminder show ?thesis
      by (auto simp: cancel_reminder_def Let_def split: option.split)
  next
    case (RecoverReminders stale)
    have "reminder_credit s k (save_reminders now (stale_processing now stale)
        (\<lambda>r. r\<lparr>rd_status := ReminderPending, rd_processing_started_at := None\<rparr>) d) \<le> reminder_credit s k d + 1"
      by (rule credit_map [OF get_save_reminders]) (auto simp: attempts_left_def)
    with x RecoverReminders show ?thesis by (simp add: recover_reminders_def)
  next
    case (ClaimDue limit)
    have "reminder_credit s k (snd (claim_due now limit d)) \<le> reminder_credit s k d + 0"
      by (rule credit_map [OF get_claim_due]) (auto simp: attempts_left_def)
    with x ClaimDue show ?thesis by simp
  next
    case (DeliverySent i)
    have "reminder_credit s k (mark_delivered now i d) \<le> reminder_credit s k d + 0"
      unfolding mark_delivered_def by (rule credit_map [OF get_save_reminders]) (auto simp: attempts_left_def)
    with x DeliverySent show ?thesis by (simp add: settle_reminder_def)
  next
    case (DeliveryFailed i err)
    have "reminder_credit s k (mark_failure now i err (dv_max_attempts s) (dv_retry_seconds s) d)
        \<le> reminder_credit s k d + 0"
      unfolding mark_failure_def by (rule credit_map [OF get_save_reminders]) (auto simp: attempts_left_def)
    with x DeliveryFailed show ?thesis by (simp add: settle_reminder_def)
  next
    case (ClaimOwner source target)
    have "reminder_credit s k (snd (claim_owner now source target d)) \<le> reminder_credit s k d + 0"
      by (rule credit_map [where f = "\<lambda>r. if rd_owner_id r = source
            then r\<lparr>rd_owner_id := target, rd_updated_at := now\<rparr> else r"])
        (auto simp: claim_owner_def tget_tset attempts_left_def)
    with x ClaimOwner show ?thesis by simp
  qed (use x keyed in \<open>simp_all add: purge_orphans_def delete_owner_reminders_def Let_def credit_deleted\<close>)
qed

lemma claim_spends:
  assumes "keyed rd_id (reminders d)" and "claims k x d"
  shows "reminder_credit s k (run_reminder s x d) < reminder_credit s k d + renews_reminder s k x"
proof -
  obtain now limit where x: "x = (now, ClaimDue limit)"
    using assms(2) by (cases "(k, x, d)" rule: claims.cases) auto
  from claims_due [OF assms(1) assms(2) [unfolded x]] obtain r where "get_reminder d k = Some r" "reminder_due now r" by blast
  with assms(2) x show ?thesis
    by (simp add: reminder_credit_def get_claim_due attempts_left_def reminder_due_def del: claims.simps)
      (simp add: max_def)
qed

interpretation reminder_attempts: renewable_credit "run_reminder s" "claims k" "reminder_credit s k"
    "renews_reminder s k" "\<lambda>d. keyed rd_id (reminders d)" for s k
  by unfold_locales (simp_all add: keyed_run_reminder claim_spends credit_step_reminder)


section \<open>Properties\<close>

definition demo_request :: reminder_request where
  "demo_request =
     \<lparr>rq_owner_id = ''o'', rq_deployment_id = ''dep'', rq_channel_id = ''ch'', rq_thread_id = [],
      rq_target_user_id = ''u1'', rq_text = [4, 5], rq_scheduled_at = 10\<rparr>"

definition demo_reminder_db :: reminder_db where
  "demo_reminder_db =
     \<lparr>reminders = [], deployments = [demo_deployment ''dep'' ''o''], cards = [demo_card ''card'' ''o'']\<rparr>"

definition demo_settings :: delivery_settings where
  "demo_settings = make_settings 30 2"

text \<open>Two failed attempts, one of them interrupted by a restart, and two polls too many.\<close>

definition demo_attempts :: "(time \<times> reminder_command) list" where
  "demo_attempts =
     [(1, CreateReminder ''r'' demo_request), (5, ClaimDue 20), (10, ClaimDue 20),
      (seconds 100, RecoverReminders 120), (seconds 200, RecoverReminders 120),
      (seconds 201, ClaimDue 20), (seconds 202, DeliveryFailed ''r'' ''e''), (seconds 300, ClaimDue 20)]"

text \<open>A reminder is attempted a bounded number of times: from a database without it, a run hands
  it to a delivery at most \<open>max_attempts\<close> times, and once more for every restart that finds it
  interrupted, whatever polls, failures, cancellations and changes of owner happen in between.\<close>

theorem reminder_attempts_bounded:
  assumes "keyed rd_id (reminders d)" and "get_reminder d k = None"
  shows "grant_count (run_reminder s) (claims k) xs d \<le>
    nat (max 1 (dv_max_attempts s)) * length (filter (\<lambda>x. \<exists>q. snd x = CreateReminder k q) xs)
    + length (filter (\<lambda>x. \<exists>stale. snd x = RecoverReminders stale) xs)"
proof -
  have one: "renews_reminder s k x =
      (if \<exists>q. snd x = CreateReminder k q then nat (max 1 (dv_max_attempts s)) else 0)
      + (if \<exists>stale. snd x = RecoverReminders stale then 1 else 0)" for x
    by (cases x; cases "snd x") auto
  have "sum_list (map (renews_reminder s k) xs) =
      nat (max 1 (dv_max_attempts s)) * length (filter (\<lambda>x. \<exists>q. snd x = CreateReminder k q) xs)
      + length (filter (\<lambda>x. \<exists>stale. snd x = RecoverReminders stale) xs)"
    by (induction xs) (simp_all add: one)
  with reminder_attempts.grants_credited [OF assms(1), of s k xs] assms(2) show ?thesis
    by (simp add: reminder_credit_def)
qed

theorem reminder_attempts_bounded_witness:
  "grant_count (run_reminder demo_settings) (claims ''r'') demo_attempts demo_reminder_db = 2
   \<and> grant_count (run_reminder demo_settings) (claims ''r'') demo_attempts demo_reminder_db \<le>
     nat (max 1 (dv_max_attempts demo_settings))
       * length (filter (\<lambda>x. \<exists>q. snd x = CreateReminder ''r'' q) demo_attempts)
     + length (filter (\<lambda>x. \<exists>stale. snd x = RecoverReminders stale) demo_attempts)"
proof
  show "grant_count (run_reminder demo_settings) (claims ''r'') demo_attempts demo_reminder_db = 2"
    by code_simp
  show "grant_count (run_reminder demo_settings) (claims ''r'') demo_attempts demo_reminder_db \<le>
     nat (max 1 (dv_max_attempts demo_settings))
       * length (filter (\<lambda>x. \<exists>q. snd x = CreateReminder ''r'' q) demo_attempts)
     + length (filter (\<lambda>x. \<exists>stale. snd x = RecoverReminders stale) demo_attempts)"
    by (rule reminder_attempts_bounded) (simp_all add: demo_reminder_db_def)
qed

text \<open>Polling delivers what is due, and the oldest first: every reminder it claims was pending
  and due, no more than the limit (and never more than 50) are claimed, each has its attempt counted
  and is marked as being processed; and a due reminder it leaves out is scheduled no earlier than
  those it claims, and is left only when the limit is used up.\<close>

theorem due_in_order:
  assumes "keyed rd_id (reminders d)"
  shows "length (fst (claim_due now limit d)) \<le> nat (clip 1 50 limit)
    \<and> (\<forall>r \<in> set (fst (claim_due now limit d)). \<exists>old. get_reminder d (rd_id r) = Some old
        \<and> reminder_due now old \<and> get_reminder (snd (claim_due now limit d)) (rd_id r) = Some r
        \<and> rd_status r = ReminderProcessing \<and> rd_attempt_count r = rd_attempt_count old + 1)
    \<and> (\<forall>x \<in> set (reminders d). reminder_due now x \<and> rd_id x \<notin> rd_id ` set (fst (claim_due now limit d)) \<longrightarrow>
        length (fst (claim_due now limit d)) = nat (clip 1 50 limit)
        \<and> (\<forall>r \<in> set (fst (claim_due now limit d)). rd_scheduled_at r \<le> rd_scheduled_at x))"
proof (intro conjI ballI impI)
  let ?due = "due_reminders now limit d" and ?n = "nat (clip 1 50 limit)"
  let ?all = "sort_key rd_scheduled_at (filter (reminder_due now) (reminders d))"
  have fst: "fst (claim_due now limit d) = map (flush_reminder now (claimed_reminder now)) ?due"
    by (simp add: claim_due_def Let_def)
  have due: "?due = take ?n ?all" by (simp add: due_reminders_def tlimit_def)
  show "length (fst (claim_due now limit d)) \<le> ?n" by (simp add: fst due)
  fix r assume "r \<in> set (fst (claim_due now limit d))"
  then obtain old where old: "old \<in> set ?due" "r = flush_reminder now (claimed_reminder now) old"
    by (auto simp: fst)
  note m = due_reminders_mem [OF old(1)]
  have get: "get_reminder d (rd_id old) = Some old" using tget_self [OF assms] m by blast
  have "claims (rd_id old) (now, ClaimDue limit) d" unfolding claims_ids using old(1) by blast
  with get have "get_reminder (snd (claim_due now limit d)) (rd_id old) = Some r"
    by (simp add: get_claim_due old(2) del: claims.simps)
  with get m old(2) show "\<exists>old. get_reminder d (rd_id r) = Some old
        \<and> reminder_due now old \<and> get_reminder (snd (claim_due now limit d)) (rd_id r) = Some r
        \<and> rd_status r = ReminderProcessing \<and> rd_attempt_count r = rd_attempt_count old + 1"
    by auto
next
  let ?due = "due_reminders now limit d" and ?n = "nat (clip 1 50 limit)"
  let ?all = "sort_key rd_scheduled_at (filter (reminder_due now) (reminders d))"
  have fst: "fst (claim_due now limit d) = map (flush_reminder now (claimed_reminder now)) ?due"
    by (simp add: claim_due_def Let_def)
  have due: "?due = take ?n ?all" by (simp add: due_reminders_def tlimit_def)
  fix x assume x: "x \<in> set (reminders d)"
    "reminder_due now x \<and> rd_id x \<notin> rd_id ` set (fst (claim_due now limit d))"
  then have "x \<in> set ?all" "x \<notin> set ?due" by (auto simp: fst image_image)
  then have late: "x \<in> set (drop ?n ?all)" by (metis Un_iff append_take_drop_id due set_append)
  then show "length (fst (claim_due now limit d)) = ?n"
    by (cases "?n \<le> length ?all") (simp_all add: fst due)
  fix r assume "r \<in> set (fst (claim_due now limit d))"
  then obtain old where old: "old \<in> set ?due" "r = flush_reminder now (claimed_reminder now) old"
    by (auto simp: fst)
  have "sorted (map rd_scheduled_at (take ?n ?all @ drop ?n ?all))" by simp
  then have "rd_scheduled_at old \<le> rd_scheduled_at x"
    using old(1) late unfolding map_append sorted_append due by auto
  with old(2) show "rd_scheduled_at r \<le> rd_scheduled_at x" by (simp add: claimed_reminder_def)
qed


theorem due_in_order_witness:
  "map rd_id (fst (claim_due 10 20 (run_reminder demo_settings (1, CreateReminder ''r'' demo_request) demo_reminder_db)))
     = [''r'']
   \<and> length (fst (claim_due 10 20 (run_reminder demo_settings (1, CreateReminder ''r'' demo_request) demo_reminder_db)))
     \<le> nat (clip 1 50 20)"
proof
  show "map rd_id (fst (claim_due 10 20 (run_reminder demo_settings (1, CreateReminder ''r'' demo_request) demo_reminder_db)))
     = [''r'']" by code_simp
  have "keyed rd_id (reminders (run_reminder demo_settings (1, CreateReminder ''r'' demo_request) demo_reminder_db))"
    by (rule keyed_run_reminder) (simp add: demo_reminder_db_def)
  from due_in_order [OF this, of 10 20]
  show "length (fst (claim_due 10 20 (run_reminder demo_settings (1, CreateReminder ''r'' demo_request) demo_reminder_db)))
     \<le> nat (clip 1 50 20)" by blast
qed

text \<open>A reminder that is gone or cancelled; a delivery that is settled after all brings it back.\<close>

definition withdrawn :: "string \<Rightarrow> 'a reminder_db_scheme \<Rightarrow> unit \<Rightarrow> bool option" where
  "withdrawn k d u =
     Some (keyed rd_id (reminders d) \<and>
       (case get_reminder d k of None \<Rightarrow> True | Some r \<Rightarrow> rd_status r = ReminderCancelled))"

fun revives :: "string \<Rightarrow> time \<times> reminder_command \<Rightarrow> bool" where
  "revives k (now, CreateReminder uid q) \<longleftrightarrow> uid = k"
| "revives k (now, DeliverySent i) \<longleftrightarrow> i = k"
| "revives k (now, DeliveryFailed i err) \<longleftrightarrow> i = k"
| "revives k _ \<longleftrightarrow> False"

lemma withdrawn_map:
  assumes "get_reminder d' k = map_option f (get_reminder d k)"
    and "\<And>r. get_reminder d k = Some r \<Longrightarrow> rd_status r = ReminderCancelled \<Longrightarrow> rd_status (f r) = ReminderCancelled"
    and "keyed rd_id (reminders d')"
  shows "withdrawn k d u = Some True \<Longrightarrow> withdrawn k d' u = Some True"
  using assms by (auto simp: withdrawn_def split: option.splits)

lemma withdrawn_step:
  assumes w: "withdrawn k d u = Some True" and "\<not> revives k x"
  shows "withdrawn k (run_reminder s x d) u = Some True"
proof -
  have keyed: "keyed rd_id (reminders d)" using w by (simp add: withdrawn_def)
  note keyed' = keyed_run_reminder [OF keyed, of s x]
  obtain now c where x: "x = (now, c)" by fastforce
  show ?thesis
  proof (cases c)
    case (CreateReminder uid q)
    with x assms keyed' show ?thesis
      by (auto simp: create_reminder_def Let_def withdrawn_def tget_tins new_reminder_def
          split: option.splits if_splits)
  next
    case (CancelReminder owner deployment i)
    with x w keyed' show ?thesis
      by (auto simp: cancel_reminder_def Let_def withdrawn_def get_save_reminders
          split: option.splits if_splits)
  next
    case (RecoverReminders stale)
    show ?thesis
      by (rule withdrawn_map [OF _ _ keyed' w, where
            f = "\<lambda>r. if stale_processing now stale r then flush_reminder now
              (\<lambda>r. r\<lparr>rd_status := ReminderPending, rd_processing_started_at := None\<rparr>) r else r"])
        (auto simp: x RecoverReminders recover_reminders_def get_save_reminders stale_processing_def)
  next
    case (ClaimDue limit)
    show ?thesis
      by (rule withdrawn_map [OF _ _ keyed' w, where
            f = "\<lambda>r. if claims k (now, ClaimDue limit) d then flush_reminder now (claimed_reminder now) r else r"])
        (use claims_due [OF keyed, of k now limit] in
          \<open>auto simp: x ClaimDue get_claim_due reminder_due_def simp del: claims.simps\<close>)
  next
    case (ClaimOwner source target)
    show ?thesis
      by (rule withdrawn_map [OF _ _ keyed' w, where
            f = "\<lambda>r. if rd_owner_id r = source then r\<lparr>rd_owner_id := target, rd_updated_at := now\<rparr> else r"])
        (auto simp: x ClaimOwner claim_owner_def tget_tset)
  next
    case PurgeOrphans
    with x w keyed' get_deleted [OF keyed, of "\<lambda>r. rd_deployment_id r \<notin> set (map cd_id (deployments d))" k]
    show ?thesis by (auto simp: purge_orphans_def Let_def withdrawn_def)
  next
    case (DeleteOwner owner)
    with x w keyed' get_deleted [OF keyed, of "\<lambda>r. rd_owner_id r = owner" k]
    show ?thesis by (auto simp: delete_owner_reminders_def withdrawn_def)
  next
    case (DeliverySent i)
    with x assms keyed' show ?thesis
      by (auto simp: settle_reminder_def mark_delivered_def withdrawn_def get_save_reminders
          split: option.splits dest: tget_key)
  next
    case (DeliveryFailed i err)
    with x assms keyed' show ?thesis
      by (auto simp: settle_reminder_def mark_failure_def withdrawn_def get_save_reminders
          split: option.splits dest: tget_key)
  qed
qed

interpretation cancelled: barred "run_reminder s" "withdrawn k" "\<lambda>b. b" "revives k" "\<lambda>x d u. claims k x d" for s k
proof unfold_locales
  fix d :: "'a reminder_db_scheme" and u v x
  assume w: "withdrawn k d u = Some v" "v"
  show "\<not> claims k x d"
  proof
    assume c: "claims k x d"
    then obtain now limit where x: "x = (now, ClaimDue limit)"
      by (cases "(k, x, d)" rule: claims.cases) auto
    from w claims_due [OF _ c [unfolded x]] show False
      by (auto simp: withdrawn_def reminder_due_def split: option.splits)
  qed
qed (simp add: withdrawn_step)

text \<open>A cancellation holds: a reminder that was cancelled (or deleted) is never handed to a
  delivery again, by whatever polls, restarts and changes of owner, as long as no delivery that was
  in progress when it was cancelled reports its end.\<close>

theorem cancelled_reminder_not_delivered:
  assumes "withdrawn k d () = Some True" and "\<forall>x \<in> set xs. \<not> revives k x"
  shows "grant_count (run_reminder s) (claims k) xs d = 0"
  using cancelled.none_granted [OF assms(1) _ assms(2)] by simp

definition demo_cancelled :: reminder_db where
  "demo_cancelled =
     run_ops (run_reminder demo_settings)
       [(1, CreateReminder ''r'' demo_request), (2, CancelReminder ''o'' ''dep'' ''r'')] demo_reminder_db"

theorem cancelled_reminder_not_delivered_witness:
  "map rd_status (reminders demo_cancelled) = [ReminderCancelled]
   \<and> grant_count (run_reminder demo_settings) (claims ''r'')
       [(20, ClaimDue 20), (30, RecoverReminders 0), (40, ClaimDue 20)] demo_cancelled = 0"
proof
  show "map rd_status (reminders demo_cancelled) = [ReminderCancelled]" by code_simp
  have "withdrawn ''r'' demo_cancelled () = Some True" by code_simp
  then show "grant_count (run_reminder demo_settings) (claims ''r'')
       [(20, ClaimDue 20), (30, RecoverReminders 0), (40, ClaimDue 20)] demo_cancelled = 0"
    by (rule cancelled_reminder_not_delivered) simp
qed

text \<open>The condition is needed: a delivery that fails after the cancellation makes the reminder
  pending again, and the next poll delivers it; one that succeeds marks it completed.\<close>

lemma late_failure_revives_cancelled:
  "grant_count (run_reminder demo_settings) (claims ''r'')
     [(seconds 50, ClaimDue 20)]
     (run_ops (run_reminder demo_settings)
       [(1, CreateReminder ''r'' demo_request), (10, ClaimDue 20), (11, CancelReminder ''o'' ''dep'' ''r''),
        (12, DeliveryFailed ''r'' ''timeout'')] demo_reminder_db) = 1"
  by code_simp


end
