(* ===== verification/Stored_Lists.thy ===== *)
theory Stored_Lists
  imports Json "HOL-Library.Sublist"
begin

text \<open>
  Lists of texts that the code keeps in JSON columns: the request of a trial with its options as
  marked items (\<open>persistence/trial_request.py\<close>), and the excluded channels and categories of a
  server profile (\<open>_normalized_ids\<close>, \<open>_encode_ids\<close>, \<open>decode_ids\<close>, \<open>decode_channels\<close> of
  \<open>persistence/deployment_repository.py\<close>).
\<close>

section \<open>Trial requests\<close>

datatype test_language = English | SimplifiedChinese

definition language_value :: "test_language \<Rightarrow> string" where
  "language_value l = (case l of English \<Rightarrow> ''en'' | SimplifiedChinese \<Rightarrow> ''zh-CN'')"

datatype judge_mode = RuleMode | SemanticMode | HybridMode

definition judge_value :: "judge_mode \<Rightarrow> string" where
  "judge_value j = (case j of RuleMode \<Rightarrow> ''rules'' | SemanticMode \<Rightarrow> ''semantic'' | HybridMode \<Rightarrow> ''hybrid'')"

datatype tester_mode = Benchmark | Adaptive

definition tester_value :: "tester_mode \<Rightarrow> string" where
  "tester_value t = (case t of Benchmark \<Rightarrow> ''benchmark'' | Adaptive \<Rightarrow> ''adaptive'')"

record trial_metadata =
  tm_suite :: "string list"
  tm_language :: test_language
  tm_tester :: tester_mode
  tm_judge :: judge_mode

definition default_metadata :: trial_metadata where
  "default_metadata =
     \<lparr>tm_suite = [], tm_language = English, tm_tester = Benchmark, tm_judge = RuleMode\<rparr>"

definition language_prefix :: string where "language_prefix = ''__test_language__:''"
definition tester_prefix :: string where "tester_prefix = ''__tester_mode__:''"
definition judge_prefix :: string where "judge_prefix = ''__judge_mode__:''"

definition encode_trial_request ::
  "string list \<Rightarrow> test_language \<Rightarrow> tester_mode \<Rightarrow> judge_mode \<Rightarrow> string list" where
  "encode_trial_request suite language tester judge =
     suite @ [language_prefix @ language_value language, tester_prefix @ tester_value tester,
              judge_prefix @ judge_value judge]"

text \<open>The enumerations by value, with the default that the code falls back to.\<close>

definition language_or_default :: "string \<Rightarrow> test_language" where
  "language_or_default s = (if s = ''zh-CN'' then SimplifiedChinese else English)"

definition tester_or_default :: "string \<Rightarrow> tester_mode" where
  "tester_or_default s = (if s = ''adaptive'' then Adaptive else Benchmark)"

definition judge_or_default :: "string \<Rightarrow> judge_mode" where
  "judge_or_default s =
     (if s = ''semantic'' then SemanticMode else if s = ''hybrid'' then HybridMode else RuleMode)"

text \<open>The loop over a stored list; an item that is no text is skipped.\<close>

definition read_item :: "json \<Rightarrow> trial_metadata \<Rightarrow> trial_metadata" where
  "read_item v m =
     (case v of
        JStr s \<Rightarrow>
          if prefix language_prefix s
          then m\<lparr>tm_language := language_or_default (drop (length language_prefix) s)\<rparr>
          else if prefix tester_prefix s
          then m\<lparr>tm_tester := tester_or_default (drop (length tester_prefix) s)\<rparr>
          else if prefix judge_prefix s
          then m\<lparr>tm_judge := judge_or_default (drop (length judge_prefix) s)\<rparr>
          else m\<lparr>tm_suite := tm_suite m @ [s]\<rparr>
      | _ \<Rightarrow> m)"

text \<open>The older format, a JSON object; a value that is no text falls back to the default.\<close>

definition text_or_empty :: "json \<Rightarrow> string" where
  "text_or_empty v = (case v of JStr s \<Rightarrow> s | _ \<Rightarrow> [])"

definition read_object :: "(string \<times> json) list \<Rightarrow> trial_metadata" where
  "read_object d =
     \<lparr>tm_suite = (case jget d ''suite'' (JArr []) of JArr vs \<Rightarrow> str_items vs | _ \<Rightarrow> []),
      tm_language = language_or_default (text_or_empty (jget d ''test_language'' (JStr ''en''))),
      tm_tester = tester_or_default (text_or_empty (jget d ''tester_mode'' (JStr ''benchmark''))),
      tm_judge = judge_or_default (text_or_empty (jget d ''judge_mode'' (JStr ''rules'')))\<rparr>"

definition decode_trial_metadata :: "json_text \<Rightarrow> error + trial_metadata" where
  "decode_trial_metadata raw =
     (case loads raw of
        None \<Rightarrow> Inl (ValueError ''JSONDecodeError'')
      | Some (JArr vs) \<Rightarrow> Inr (fold read_item vs default_metadata)
      | Some (JObj d) \<Rightarrow> Inr (read_object d)
      | Some _ \<Rightarrow> Inr default_metadata)"

definition decode_trial_request :: "json_text \<Rightarrow> error + string list \<times> test_language" where
  "decode_trial_request raw =
     (case decode_trial_metadata raw of
        Inl e \<Rightarrow> Inl e
      | Inr m \<Rightarrow> Inr (tm_suite m, tm_language m))"

section \<open>Lists of identifiers\<close>

definition normalized_ids :: "string list option \<Rightarrow> string list" where
  "normalized_ids values = unique_ids (case values of None \<Rightarrow> [] | Some xs \<Rightarrow> xs)"

definition encode_ids :: "string list option \<Rightarrow> json_text" where
  "encode_ids values = dumps (jstrs (normalized_ids values))"

definition decode_ids :: "json_text \<Rightarrow> string list" where
  "decode_ids value =
     (case loads value of Some (JArr vs) \<Rightarrow> normalized_ids (Some (str_items vs)) | _ \<Rightarrow> [])"

definition decode_channels :: "json_text \<Rightarrow> (string \<times> json) list list" where
  "decode_channels value =
     (case loads value of
        Some (JArr vs) \<Rightarrow> concat (map (\<lambda>v. case v of JObj d \<Rightarrow> [d] | _ \<Rightarrow> []) vs)
      | _ \<Rightarrow> [])"

section \<open>Round trips\<close>

definition marked :: "string \<Rightarrow> bool" where
  "marked s \<longleftrightarrow> prefix language_prefix s \<or> prefix tester_prefix s \<or> prefix judge_prefix s"

lemma marks_differ:
  "\<not> prefix language_prefix (tester_prefix @ s)" "\<not> prefix language_prefix (judge_prefix @ s)"
  "\<not> prefix tester_prefix (judge_prefix @ s)"
  by (simp_all add: language_prefix_def tester_prefix_def judge_prefix_def)

lemma or_default_value [simp]:
  "language_or_default (language_value l) = l" "tester_or_default (tester_value t) = t"
  "judge_or_default (judge_value j) = j"
  by (cases l, simp_all add: language_or_default_def language_value_def)
    (cases t, simp_all add: tester_or_default_def tester_value_def,
      cases j, simp_all add: judge_or_default_def judge_value_def)

text \<open>The suite read from a list is what came before, then its unmarked texts in order.\<close>

lemma read_suite:
  "tm_suite (fold read_item vs m) = tm_suite m @ filter (\<lambda>s. \<not> marked s) (str_items vs)"
proof (induction vs arbitrary: m)
  case (Cons v vs)
  have "tm_suite (read_item v m) = tm_suite m @ filter (\<lambda>s. \<not> marked s) (str_items [v])"
    by (cases v) (simp_all add: read_item_def marked_def str_items_def)
  with Cons show ?case by (simp add: str_items_def)
qed (simp add: str_items_def)

lemma read_unmarked:
  "\<forall>s \<in> set xs. \<not> marked s \<Longrightarrow> fold read_item (map JStr xs) m = m\<lparr>tm_suite := tm_suite m @ xs\<rparr>"
  by (induction xs arbitrary: m) (simp_all add: read_item_def marked_def)

lemma read_encoded:
  assumes "\<forall>s \<in> set suite. \<not> marked s"
  shows "fold read_item (map JStr (encode_trial_request suite l t j)) default_metadata
    = \<lparr>tm_suite = suite, tm_language = l, tm_tester = t, tm_judge = j\<rparr>"
  unfolding encode_trial_request_def map_append fold_append comp_apply read_unmarked [OF assms]
  by (simp add: read_item_def marks_differ default_metadata_def)

lemma normalized_idem [simp]: "normalized_ids (Some (normalized_ids xs)) = normalized_ids xs"
proof -
  let ?ys = "normalized_ids xs"
  have "x \<noteq> [] \<and> strip x = x" if "x \<in> set ?ys" for x
    using that unfolding normalized_ids_def by (rule unique_ids_nonempty)
  then have "filter (\<lambda>s. s \<noteq> []) (map strip ?ys) = ?ys"
    by (simp add: map_idI filter_id_conv)
  then show ?thesis
    by (simp add: normalized_ids_def unique_ids_def [of "unique_ids _"] fromkeys_distinct)
qed

lemma decode_encode_ids: "decode_ids (encode_ids xs) = normalized_ids xs"
  by (simp add: decode_ids_def encode_ids_def jstrs_def)

section \<open>Property\<close>

text \<open>What is stored in these columns comes back. A trial request does, suite and options, exactly
  when no scenario of the suite carries one of the marks that the options are stored under (a marked
  one is lost); and whatever list a column holds, its reading is stable: storing what was read and
  reading it again gives the same request, and the same identifiers.\<close>

theorem stored_lists_roundtrip:
  "(decode_trial_metadata (dumps (jstrs (encode_trial_request suite l t j)))
      = Inr \<lparr>tm_suite = suite, tm_language = l, tm_tester = t, tm_judge = j\<rparr>
      \<longleftrightarrow> list_all (\<lambda>s. \<not> marked s) suite)
    \<and> (\<forall>m. decode_trial_metadata (dumps (JArr vs)) = Inr m \<longrightarrow>
        decode_trial_metadata
          (dumps (jstrs (encode_trial_request (tm_suite m) (tm_language m) (tm_tester m) (tm_judge m)))) = Inr m)
    \<and> decode_ids (encode_ids xs) = normalized_ids xs
    \<and> decode_ids (encode_ids (Some (decode_ids raw))) = decode_ids raw"
proof (intro conjI allI impI)
  let ?m = "\<lparr>tm_suite = suite, tm_language = l, tm_tester = t, tm_judge = j\<rparr>"
  have decode: "decode_trial_metadata (dumps (JArr vs)) = Inr (fold read_item vs default_metadata)" for vs
    by (simp add: decode_trial_metadata_def)
  show "decode_trial_metadata (dumps (jstrs (encode_trial_request suite l t j))) = Inr ?m
      \<longleftrightarrow> list_all (\<lambda>s. \<not> marked s) suite"
  proof
    assume "list_all (\<lambda>s. \<not> marked s) suite"
    then show "decode_trial_metadata (dumps (jstrs (encode_trial_request suite l t j))) = Inr ?m"
      by (simp add: jstrs_def decode read_encoded list_all_iff)
  next
    assume "decode_trial_metadata (dumps (jstrs (encode_trial_request suite l t j))) = Inr ?m"
    then have "tm_suite (fold read_item (map JStr (encode_trial_request suite l t j)) default_metadata) = suite"
      by (simp add: jstrs_def decode)
    then have "filter (\<lambda>s. \<not> marked s) (encode_trial_request suite l t j) = suite"
      by (simp add: read_suite default_metadata_def)
    then show "list_all (\<lambda>s. \<not> marked s) suite"
      by (metis (mono_tags, lifting) list_all_iff mem_Collect_eq set_filter)
  qed
  show "decode_ids (encode_ids xs) = normalized_ids xs" by (rule decode_encode_ids)
  show "decode_ids (encode_ids (Some (decode_ids raw))) = decode_ids raw"
  proof -
    have "decode_ids raw = [] \<or> (\<exists>ys. decode_ids raw = normalized_ids (Some ys))"
      by (auto simp: decode_ids_def split: option.split json.split)
    moreover have "normalized_ids (Some []) = []" by (simp add: normalized_ids_def unique_ids_def)
    ultimately show ?thesis by (auto simp: decode_encode_ids)
  qed
  fix m
  assume "decode_trial_metadata (dumps (JArr vs)) = Inr m"
  then have m: "m = fold read_item vs default_metadata" by (simp add: decode)
  have "\<forall>s \<in> set (tm_suite m). \<not> marked s" by (simp add: m read_suite default_metadata_def)
  from read_encoded [OF this, of "tm_language m" "tm_tester m" "tm_judge m"]
  show "decode_trial_metadata
      (dumps (jstrs (encode_trial_request (tm_suite m) (tm_language m) (tm_tester m) (tm_judge m)))) = Inr m"
    by (simp add: decode jstrs_def)
qed

theorem stored_lists_roundtrip_witness:
  "decode_trial_metadata (dumps (jstrs (encode_trial_request [''drift''] SimplifiedChinese Adaptive HybridMode)))
    = Inr \<lparr>tm_suite = [''drift''], tm_language = SimplifiedChinese, tm_tester = Adaptive, tm_judge = HybridMode\<rparr>"
proof -
  let ?m = "\<lparr>tm_suite = [''drift''], tm_language = SimplifiedChinese, tm_tester = Adaptive, tm_judge = HybridMode\<rparr>"
  have "decode_trial_metadata (dumps (JArr [JStr ''drift'', JInt 3, JStr (language_prefix @ ''zh-CN''),
      JStr (tester_prefix @ ''adaptive''), JStr (judge_prefix @ ''hybrid'')])) = Inr ?m"
    by code_simp
  then show ?thesis
    using stored_lists_roundtrip
      [of "[]" English Benchmark RuleMode
        "[JStr ''drift'', JInt 3, JStr (language_prefix @ ''zh-CN''),
          JStr (tester_prefix @ ''adaptive''), JStr (judge_prefix @ ''hybrid'')]" None "Malformed []"]
    by simp
qed

end
