(* ===== verification/Cli_Auth.thy ===== *)
theory Cli_Auth
  imports Tables
begin

text \<open>
  Device authorization of the command line client: the boundary of a restricted credential
  (\<open>cli_auth_policy.py\<close>) and the device flow with its grants (\<open>cli_auth.py\<close>,
  \<open>persistence/cli_auth_models.py\<close>).

  SHA-256, the random codes and identifiers, \<open>str.upper\<close> and the check of a room by
  \<open>WebRoomRepository.require\<close> are arguments. A column of the JSON text of a list of texts is that
  list. From its first write on, a transaction is one step (the write lock of SQLite, the row lock
  of PostgreSQL); before it, other sessions may commit, so a conditional update acts on a row that
  may be newer than the one that was read.
\<close>

section \<open>The credential boundary\<close>

definition cli_token_prefix :: string where
  "cli_token_prefix = ''crcli_''"

definition cli_client_id :: string where
  "cli_client_id = ''character-relay-cli''"

definition cli_scopes :: "string list" where
  "cli_scopes = [''identity:read'', ''rooms:read'', ''messages:read'']"

text \<open>\<open>str.lower\<close> on the letters that the prefix is made of.\<close>

definition lower_char :: "char \<Rightarrow> char" where
  "lower_char c = (if of_char c \<in> {65..90::nat} then char_of (of_char c + 32 :: nat) else c)"

definition restricted_credential :: "string \<Rightarrow> bool" where
  "restricted_credential token \<longleftrightarrow>
     take (length cli_token_prefix) (map lower_char token) = cli_token_prefix"

definition restricted_authorization :: "string \<Rightarrow> bool" where
  "restricted_authorization header \<longleftrightarrow> list_ex restricted_credential (split_by is_space header)"

definition ascii_alnum :: "char \<Rightarrow> bool" where
  "ascii_alnum c \<longleftrightarrow> of_char c \<in> {48..57::nat} \<or> of_char c \<in> {65..90::nat} \<or> of_char c \<in> {97..122::nat}"

definition room_char :: "char \<Rightarrow> bool" where
  "room_char c \<longleftrightarrow> ascii_alnum c \<or> c = CHR ''_'' \<or> c = CHR ''-''"

text \<open>The pattern of the two routes of a room.\<close>

definition cli_room_route :: "string \<Rightarrow> bool" where
  "cli_room_route path \<longleftrightarrow>
     (let prefix = ''/api/cli/rooms/''; rest = drop (length prefix) path;
          room = takeWhile room_char rest; tail = dropWhile room_char rest in
      take (length prefix) path = prefix \<and> 1 \<le> length room \<and> length room \<le> 64
      \<and> (tail = ''/messages'' \<or> tail = ''/events''))"

definition allowed_cli_route :: "string \<Rightarrow> string \<Rightarrow> bool" where
  "allowed_cli_route meth path \<longleftrightarrow>
     (if meth = ''POST'' then path = ''/api/cli-auth/revoke''
      else if meth \<noteq> ''GET'' then False
      else path = ''/api/cli-auth/me'' \<or> path = ''/api/cli/rooms'' \<or> cli_room_route path)"

section \<open>Rows\<close>

datatype device_status = DevicePending | DeviceApproved | DeviceDenied | DeviceRedeemed

record cli_device =
  dv_id :: string
  dv_device_code_hash :: string
  dv_user_code_hash :: string
  dv_client_id :: string
  dv_scopes :: "string list"
  dv_room_ids :: "string list"
  dv_status :: device_status
  dv_reviewing_user_id :: "string option"
  dv_grant_id :: "string option"
  dv_expires_at :: time
  dv_next_poll_at :: time
  dv_interval :: int
  dv_poll_version :: int

record cli_grant =
  cg_id :: string
  cg_user_id :: string
  cg_client_id :: string
  cg_scopes :: "string list"
  cg_room_ids :: "string list"
  cg_token_hash :: "string option"
  cg_approved_at :: time
  cg_expires_at :: time
  cg_revoked_at :: "time option"

text \<open>The columns of a user and of an audit event that are used here.\<close>

record cli_user =
  cu_id :: string
  cu_display_name :: string
  cu_is_active :: bool

record audit_event =
  au_actor_user_id :: string
  au_action :: string
  au_resource_id :: string

record cli_db =
  devices :: "cli_device list"
  cli_grants :: "cli_grant list"
  cli_users :: "cli_user list"
  audits :: "audit_event list"

interpretation device_table: db_table devices devices_update dv_id
  by unfold_locales simp

interpretation grant_table: db_table cli_grants cli_grants_update cg_id
  by unfold_locales simp

abbreviation get_grant :: "cli_db \<Rightarrow> string \<Rightarrow> cli_grant option" where
  "get_grant d k \<equiv> tget cg_id (cli_grants d) k"

record cli_settings =
  cli_auth_enabled :: bool
  cli_auth_public_origin :: string
  cli_device_ttl_seconds :: int
  cli_access_ttl_seconds :: int

text \<open>The digest, the case mapping, the settings and the check of a user's access to a room.\<close>

record web_room =
  wr_id :: string
  wr_name :: string

record cli_world =
  cw_sha :: "string \<Rightarrow> string"
  cw_upper :: "string \<Rightarrow> string"
  cw_settings :: cli_settings
  cw_require :: "string \<Rightarrow> string \<Rightarrow> error + web_room"

fun require_rooms :: "(string \<Rightarrow> string \<Rightarrow> error + web_room) \<Rightarrow> string \<Rightarrow> string list \<Rightarrow> error + web_room list" where
  "require_rooms require user [] = Inr []"
| "require_rooms require user (room # rooms) =
     (case require room user of
        Inl e \<Rightarrow> Inl e
      | Inr r \<Rightarrow> (case require_rooms require user rooms of Inl e \<Rightarrow> Inl e | Inr rs \<Rightarrow> Inr (r # rs)))"

definition normalized_code :: "(string \<Rightarrow> string) \<Rightarrow> string \<Rightarrow> string" where
  "normalized_code upper code = filter (\<lambda>c. c \<noteq> CHR ''-'' \<and> c \<noteq> CHR '' '') (upper code)"

definition cli_audit :: "string \<Rightarrow> string \<Rightarrow> string \<Rightarrow> cli_db \<Rightarrow> cli_db" where
  "cli_audit user action resource d =
     d\<lparr>audits := tins \<lparr>au_actor_user_id = user, au_action = action, au_resource_id = resource\<rparr> (audits d)\<rparr>"

section \<open>Asking for an authorization\<close>

record device_request =
  dq_client_id :: string
  dq_scopes :: "string list"
  dq_room_ids :: "string list"

definition sorted_set :: "string list \<Rightarrow> string list" where
  "sorted_set xs = sort (remdups xs)"

definition room_refused :: "string \<Rightarrow> bool" where
  "room_refused room \<longleftrightarrow>
     room = [] \<or> restricted_credential room \<or> 64 < length room \<or> \<not> list_all room_char room"

definition new_device :: "cli_world \<Rightarrow> time \<Rightarrow> string \<Rightarrow> string \<Rightarrow> string \<Rightarrow> device_request \<Rightarrow> cli_device" where
  "new_device w now did device_code code q =
     \<lparr>dv_id = did, dv_device_code_hash = cw_sha w device_code, dv_user_code_hash = cw_sha w code,
      dv_client_id = dq_client_id q, dv_scopes = sorted_set (dq_scopes q),
      dv_room_ids = sorted_set (dq_room_ids q), dv_status = DevicePending,
      dv_reviewing_user_id = None, dv_grant_id = None,
      dv_expires_at = now + seconds (cli_device_ttl_seconds (cw_settings w)),
      dv_next_poll_at = now, dv_interval = 5, dv_poll_version = 0\<rparr>"

record device_answer =
  da_device_code :: string
  da_user_code :: string
  da_verification_uri :: string
  da_expires_in :: int
  da_interval :: int

definition create_device ::
  "cli_world \<Rightarrow> time \<Rightarrow> string \<Rightarrow> string \<Rightarrow> string \<Rightarrow> device_request \<Rightarrow> cli_db \<Rightarrow> (device_answer, cli_db) outcome" where
  "create_device w now did device_code code q d =
     (if \<not> cli_auth_enabled (cw_settings w) then (Inl (CliAuthError ''cli_auth_disabled'' 404), d)
      else if dq_client_id q \<noteq> cli_client_id then (Inl (CliAuthError ''invalid_client'' 400), d)
      else if dq_scopes q = [] \<or> \<not> set (dq_scopes q) \<subseteq> set cli_scopes
      then (Inl (CliAuthError ''invalid_scope'' 400), d)
      else if dq_room_ids q = [] \<or> 32 < length (dq_room_ids q) \<or> list_ex room_refused (dq_room_ids q)
      then (Inl (CliAuthError ''invalid_room_selection'' 400), d)
      else
        (let r = new_device w now did device_code code q in
         if did \<in> set (map dv_id (devices d))
           \<or> dv_device_code_hash r \<in> set (map dv_device_code_hash (devices d))
           \<or> dv_user_code_hash r \<in> set (map dv_user_code_hash (devices d))
         then (Inl IntegrityError, d)
         else
           (Inr \<lparr>da_device_code = device_code, da_user_code = take 5 code @ ''-'' @ drop 5 code,
                 da_verification_uri = cli_auth_public_origin (cw_settings w) @ ''/cli/authorize'',
                 da_expires_in = cli_device_ttl_seconds (cw_settings w), da_interval = 5\<rparr>,
            d\<lparr>devices := tins r (devices d)\<rparr>)))"

definition device_of :: "cli_world \<Rightarrow> time \<Rightarrow> string \<Rightarrow> cli_db \<Rightarrow> error + cli_device" where
  "device_of w now code d =
     (case find (\<lambda>r. dv_user_code_hash r = cw_sha w (normalized_code (cw_upper w) code)) (devices d) of
        None \<Rightarrow> Inl (CliAuthError ''invalid_or_expired_code'' 400)
      | Some r \<Rightarrow>
          if dv_expires_at r \<le> now then Inl (CliAuthError ''invalid_or_expired_code'' 400) else Inr r)"

section \<open>The user's decision\<close>

definition bindable :: "time \<Rightarrow> string \<Rightarrow> string \<Rightarrow> cli_device \<Rightarrow> bool" where
  "bindable now did user r \<longleftrightarrow>
     dv_id r = did \<and> dv_status r = DevicePending
     \<and> (dv_reviewing_user_id r = None \<or> dv_reviewing_user_id r = Some user) \<and> now < dv_expires_at r"

text \<open>The conditional update of a review: whether a row was bound to the reviewing account.\<close>

definition bind_device :: "time \<Rightarrow> string \<Rightarrow> string \<Rightarrow> cli_db \<Rightarrow> bool \<times> cli_db" where
  "bind_device now did user d =
     (if tcount (bindable now did user) (devices d) = 0 then (False, d)
      else (True, d\<lparr>devices := tset (bindable now did user)
              (\<lambda>r. r\<lparr>dv_reviewing_user_id := Some user\<rparr>) (devices d)\<rparr>))"

record device_review =
  dw_client_id :: string
  dw_rooms :: "web_room list"
  dw_scopes :: "string list"
  dw_device_expires_at :: time
  dw_access_token_ttl_seconds :: int

text \<open>\<open>now\<close> and \<open>later\<close> are the two readings of the clock, \<open>others\<close> what commits between them.\<close>

definition review_device ::
  "cli_world \<Rightarrow> (cli_db \<Rightarrow> cli_db) \<Rightarrow> time \<Rightarrow> time \<Rightarrow> string \<Rightarrow> string \<Rightarrow> cli_db \<Rightarrow> (device_review, cli_db) outcome" where
  "review_device w others now later code user d =
     (if \<not> cli_auth_enabled (cw_settings w) then (Inl (CliAuthError ''cli_auth_disabled'' 404), d)
      else
        (case device_of w now code d of
           Inl e \<Rightarrow> (Inl e, d)
         | Inr r \<Rightarrow>
             if dv_status r \<noteq> DevicePending
             then (Inl (CliAuthError ''authorization_already_decided'' 409), d)
             else
               (case require_rooms (cw_require w) user (dv_room_ids r) of
                  Inl e \<Rightarrow> (Inl e, d)
                | Inr rooms \<Rightarrow>
                    (case bind_device later (dv_id r) user (others d) of
                       (False, d') \<Rightarrow> (Inl (CliAuthError ''authorization_account_mismatch'' 403), d')
                     | (True, d') \<Rightarrow>
                         (Inr \<lparr>dw_client_id = dv_client_id r, dw_rooms = rooms,
                               dw_scopes = dv_scopes r, dw_device_expires_at = dv_expires_at r,
                               dw_access_token_ttl_seconds = cli_access_ttl_seconds (cw_settings w)\<rparr>,
                          d')))))"

definition decidable :: "time \<Rightarrow> string \<Rightarrow> string \<Rightarrow> cli_device \<Rightarrow> bool" where
  "decidable now did user r \<longleftrightarrow>
     dv_id r = did \<and> dv_status r = DevicePending \<and> dv_reviewing_user_id r = Some user
     \<and> now < dv_expires_at r"

definition new_grant :: "cli_world \<Rightarrow> time \<Rightarrow> string \<Rightarrow> string \<Rightarrow> cli_device \<Rightarrow> cli_grant" where
  "new_grant w now gid user r =
     \<lparr>cg_id = gid, cg_user_id = user, cg_client_id = dv_client_id r, cg_scopes = dv_scopes r,
      cg_room_ids = dv_room_ids r, cg_token_hash = None, cg_approved_at = now,
      cg_expires_at = now + seconds (cli_access_ttl_seconds (cw_settings w)), cg_revoked_at = None\<rparr>"

text \<open>\<open>metadata\<close> is the row without its token, so the row stands for it.\<close>

definition settle_decision ::
  "cli_world \<Rightarrow> time \<Rightarrow> string \<Rightarrow> string \<Rightarrow> bool \<Rightarrow> cli_device \<Rightarrow> cli_db \<Rightarrow> (cli_grant option, cli_db) outcome" where
  "settle_decision w now gid user approve seen d =
     (let P = decidable now (dv_id seen) user in
      if tcount P (devices d) = 0
      then (Inl (CliAuthError ''authorization_already_decided'' 409), d)
      else if \<not> approve
      then (Inr None,
            cli_audit user ''cli_grant.denied'' (dv_id seen)
              (d\<lparr>devices := tset P (\<lambda>r. r\<lparr>dv_status := DeviceDenied\<rparr>) (devices d)\<rparr>))
      else if gid \<in> set (map cg_id (cli_grants d)) then (Inl IntegrityError, d)
      else
        (let g = new_grant w now gid user seen in
         (Inr (Some g),
          cli_audit user ''cli_grant.approved'' gid
            (d\<lparr>devices := tset P (\<lambda>r. r\<lparr>dv_status := DeviceApproved, dv_grant_id := Some gid\<rparr>) (devices d),
               cli_grants := tins g (cli_grants d)\<rparr>))))"

definition decide_device ::
  "cli_world \<Rightarrow> (cli_db \<Rightarrow> cli_db) \<Rightarrow> time \<Rightarrow> time \<Rightarrow> string \<Rightarrow> string \<Rightarrow> string \<Rightarrow> bool \<Rightarrow> cli_db
    \<Rightarrow> (cli_grant option, cli_db) outcome" where
  "decide_device w others now later gid code user approve d =
     (if \<not> cli_auth_enabled (cw_settings w) then (Inl (CliAuthError ''cli_auth_disabled'' 404), d)
      else
        (case device_of w later code d of
           Inl e \<Rightarrow> (Inl e, d)
         | Inr r \<Rightarrow>
             if dv_reviewing_user_id r \<noteq> Some user
             then (Inl (CliAuthError ''authorization_account_mismatch'' 403), d)
             else
               (case (if approve then require_rooms (cw_require w) user (dv_room_ids r) else Inr []) of
                  Inl e \<Rightarrow> (Inl e, d)
                | Inr _ \<Rightarrow> settle_decision w now gid user approve r (others d))))"


section \<open>Polling for the token\<close>

record token_answer =
  ta_access_token :: string
  ta_expires_in :: int
  ta_scope :: string

text \<open>The poll that a conditional update claims: the version and the status that were read.\<close>

definition same_poll :: "cli_device \<Rightarrow> cli_device \<Rightarrow> bool" where
  "same_poll seen r \<longleftrightarrow>
     dv_id r = dv_id seen \<and> dv_poll_version r = dv_poll_version seen \<and> dv_status r = dv_status seen"

definition too_fast :: "time \<Rightarrow> cli_device \<Rightarrow> bool" where
  "too_fast now seen \<longleftrightarrow> now < dv_next_poll_at seen"

definition polled :: "time \<Rightarrow> cli_device \<Rightarrow> cli_device \<Rightarrow> cli_device" where
  "polled now seen r =
     (let interval = (if too_fast now seen then dv_interval seen + 5 else dv_interval seen) in
      r\<lparr>dv_poll_version := dv_poll_version seen + 1, dv_interval := interval,
        dv_next_poll_at := now + seconds interval\<rparr>)"

text \<open>The redemption of an approved device: the device, then the token of its grant.\<close>

definition redeemable :: "string \<Rightarrow> cli_device \<Rightarrow> bool" where
  "redeemable did r \<longleftrightarrow> dv_id r = did \<and> dv_status r = DeviceApproved"

definition issuable :: "time \<Rightarrow> string \<Rightarrow> cli_grant \<Rightarrow> bool" where
  "issuable now gid g \<longleftrightarrow>
     cg_id g = gid \<and> cg_revoked_at g = None \<and> now < cg_expires_at g \<and> cg_token_hash g = None"

definition redeem ::
  "cli_world \<Rightarrow> time \<Rightarrow> string \<Rightarrow> string \<Rightarrow> cli_grant \<Rightarrow> cli_db \<Rightarrow> (unit, cli_db) outcome" where
  "redeem w later token did g d =
     (if tcount (redeemable did) (devices d) = 0 then (Inl (CliAuthError ''invalid_grant'' 400), d)
      else if tcount (issuable later (cg_id g)) (cli_grants d) = 0
      then (Inl (CliAuthError ''expired_token'' 400), d)
      else if Some (cw_sha w token) \<in> set (map cg_token_hash (cli_grants d)) then (Inl IntegrityError, d)
      else
        (Inr (),
         cli_audit (cg_user_id g) ''cli_grant.redeemed'' (cg_id g)
           (d\<lparr>devices := tset (redeemable did) (\<lambda>r. r\<lparr>dv_status := DeviceRedeemed\<rparr>) (devices d),
              cli_grants := tset (issuable later (cg_id g))
                (\<lambda>g. g\<lparr>cg_token_hash := Some (cw_sha w token)\<rparr>) (cli_grants d)\<rparr>)))"

definition active_user :: "cli_db \<Rightarrow> string \<Rightarrow> cli_user option" where
  "active_user d user =
     (case tget cu_id (cli_users d) user of
        None \<Rightarrow> None | Some u \<Rightarrow> if cu_is_active u then Some u else None)"

definition granted :: "cli_device \<Rightarrow> cli_db \<Rightarrow> cli_grant option" where
  "granted r d = (case dv_grant_id r of None \<Rightarrow> None | Some k \<Rightarrow> get_grant d k)"

definition settle_exchange ::
  "cli_world \<Rightarrow> time \<Rightarrow> time \<Rightarrow> string \<Rightarrow> cli_device \<Rightarrow> cli_db \<Rightarrow> (token_answer, cli_db) outcome" where
  "settle_exchange w now later secret seen d =
     (if tcount (same_poll seen) (devices d) = 0 then (Inl (CliAuthError ''slow_down'' 400), d)
      else
        (let d1 = d\<lparr>devices := tset (same_poll seen) (polled now seen) (devices d)\<rparr> in
         if too_fast now seen then (Inl (CliAuthError ''slow_down'' 400), d1)
         else if dv_status seen = DevicePending then (Inl (CliAuthError ''authorization_pending'' 400), d1)
         else
           (case granted seen d1 of
              None \<Rightarrow> (Inl (CliAuthError ''expired_token'' 400), d1)
            | Some g \<Rightarrow>
                if cg_revoked_at g \<noteq> None \<or> cg_expires_at g \<le> now
                then (Inl (CliAuthError ''expired_token'' 400), d1)
                else if active_user d1 (cg_user_id g) = None
                then (Inl (CliAuthError ''access_denied'' 400), d)
                else
                  (case require_rooms (cw_require w) (cg_user_id g) (cg_room_ids g) of
                     Inl e \<Rightarrow> (Inl e, d)
                   | Inr _ \<Rightarrow>
                       (case redeem w later (cli_token_prefix @ secret) (dv_id seen) g d1 of
                          (Inl e, _) \<Rightarrow> (Inl e, d)
                        | (Inr _, d2) \<Rightarrow>
                            (Inr \<lparr>ta_access_token = cli_token_prefix @ secret,
                                  ta_expires_in = max 0 ((cg_expires_at g - now) div seconds 1),
                                  ta_scope = join '' '' (cg_scopes g)\<rparr>, d2))))))"

definition read_poll :: "cli_world \<Rightarrow> time \<Rightarrow> string \<Rightarrow> string \<Rightarrow> cli_db \<Rightarrow> error + cli_device" where
  "read_poll w now client device_code d =
     (if \<not> cli_auth_enabled (cw_settings w) then Inl (CliAuthError ''cli_auth_disabled'' 404)
      else if client \<noteq> cli_client_id then Inl (CliAuthError ''invalid_client'' 400)
      else
        (case find (\<lambda>r. dv_device_code_hash r = cw_sha w device_code \<and> dv_client_id r = client) (devices d) of
           None \<Rightarrow> Inl (CliAuthError ''invalid_grant'' 400)
         | Some r \<Rightarrow>
             if dv_status r = DeviceRedeemed then Inl (CliAuthError ''invalid_grant'' 400)
             else if dv_expires_at r \<le> now then Inl (CliAuthError ''expired_token'' 400)
             else if dv_status r = DeviceDenied then Inl (CliAuthError ''access_denied'' 400)
             else Inr r))"

definition exchange_device ::
  "cli_world \<Rightarrow> (cli_db \<Rightarrow> cli_db) \<Rightarrow> time \<Rightarrow> time \<Rightarrow> string \<Rightarrow> string \<Rightarrow> string \<Rightarrow> cli_db
    \<Rightarrow> (token_answer, cli_db) outcome" where
  "exchange_device w others now later secret client device_code d =
     (case read_poll w now client device_code d of
        Inl e \<Rightarrow> (Inl e, d)
      | Inr seen \<Rightarrow> settle_exchange w now later secret seen (others d))"

section \<open>Using and ending a grant\<close>

record cli_principal =
  cp_user_id :: string
  cp_display_name :: string
  cp_grant_id :: string
  cp_scopes :: "string list"
  cp_room_ids :: "string list"

definition token_grant :: "cli_world \<Rightarrow> string \<Rightarrow> cli_db \<Rightarrow> cli_grant option" where
  "token_grant w token d = find (\<lambda>g. cg_token_hash g = Some (cw_sha w token)) (cli_grants d)"

definition resolve_token :: "cli_world \<Rightarrow> time \<Rightarrow> string \<Rightarrow> bool \<Rightarrow> cli_db \<Rightarrow> error + cli_principal" where
  "resolve_token w now token check_rooms d =
     (if \<not> cli_auth_enabled (cw_settings w) then Inl (CliAuthError ''cli_auth_disabled'' 404)
      else if take (length cli_token_prefix) token \<noteq> cli_token_prefix
      then Inl (CliAuthError ''invalid_token'' 401)
      else
        (case token_grant w token d of
           None \<Rightarrow> Inl (CliAuthError ''invalid_token'' 401)
         | Some g \<Rightarrow>
             if cg_revoked_at g \<noteq> None \<or> cg_expires_at g \<le> now
             then Inl (CliAuthError ''invalid_token'' 401)
             else
               (case active_user d (cg_user_id g) of
                  None \<Rightarrow> Inl (CliAuthError ''invalid_token'' 401)
                | Some u \<Rightarrow>
                    (case (if check_rooms then require_rooms (cw_require w) (cu_id u) (cg_room_ids g) else Inr []) of
                       Inl e \<Rightarrow> Inl e
                     | Inr _ \<Rightarrow>
                         Inr \<lparr>cp_user_id = cu_id u, cp_display_name = cu_display_name u,
                              cp_grant_id = cg_id g, cp_scopes = cg_scopes g,
                              cp_room_ids = cg_room_ids g\<rparr>))))"

definition list_grants :: "cli_world \<Rightarrow> string \<Rightarrow> cli_db \<Rightarrow> error + cli_grant list" where
  "list_grants w user d =
     (if \<not> cli_auth_enabled (cw_settings w) then Inl (CliAuthError ''cli_auth_disabled'' 404)
      else Inr (take 100 (sort_key (\<lambda>g. - cg_approved_at g) (filter (\<lambda>g. cg_user_id g = user) (cli_grants d)))))"

definition revoke_grant :: "cli_world \<Rightarrow> time \<Rightarrow> string \<Rightarrow> string \<Rightarrow> cli_db \<Rightarrow> (unit, cli_db) outcome" where
  "revoke_grant w now gid user d =
     (if \<not> cli_auth_enabled (cw_settings w) then (Inl (CliAuthError ''cli_auth_disabled'' 404), d)
      else
        (case get_grant d gid of
           None \<Rightarrow> (Inl (CliAuthError ''grant_not_found'' 404), d)
         | Some g \<Rightarrow>
             if cg_user_id g \<noteq> user then (Inl (CliAuthError ''grant_not_found'' 404), d)
             else if cg_revoked_at g = None
             then (Inr (),
                   cli_audit user ''cli_grant.revoked'' gid
                     (d\<lparr>cli_grants := tset (\<lambda>g. cg_id g = gid) (\<lambda>g. g\<lparr>cg_revoked_at := Some now\<rparr>) (cli_grants d)\<rparr>))
             else (Inr (), d)))"

end
