(* ===== verification/Cli_Safety.thy ===== *)
theory Cli_Safety
  imports Cli_Auth Contracts
begin

text \<open>
  What the device flow promises: a device code is redeemed for one token at most, a token acts for
  the user who reviewed and approved its device, with the rooms and scopes that were asked for, and
  a revoked grant ends its token.
\<close>

section \<open>The committed steps\<close>

text \<open>
  The transactions of the flow, and any change of the user table. The row that a decision or a poll
  has read (\<open>seen\<close>) is a row of an earlier state; how the table can have moved on since is \<open>saw\<close>.
\<close>

datatype cli_op =
    CreateDevice time string string string device_request
  | BindDevice time string string
  | SettleDecision time string string bool cli_device
  | SettleExchange "string \<Rightarrow> string \<Rightarrow> error + web_room" time time string cli_device
  | RevokeGrant time string string
  | ChangeUsers "cli_user list"

definition requested :: "cli_device \<Rightarrow> string \<times> string \<times> string \<times> string \<times> string list \<times> string list" where
  "requested r =
     (dv_id r, dv_device_code_hash r, dv_user_code_hash r, dv_client_id r, dv_scopes r, dv_room_ids r)"

definition moved_on :: "cli_device \<Rightarrow> cli_device \<Rightarrow> bool" where
  "moved_on seen r \<longleftrightarrow>
     requested r = requested seen
     \<and> (dv_status seen = DeviceApproved \<longrightarrow>
          dv_status r \<in> {DeviceApproved, DeviceRedeemed} \<and> dv_grant_id r = dv_grant_id seen)
     \<and> (dv_status seen = DeviceRedeemed \<longrightarrow>
          dv_status r = DeviceRedeemed \<and> dv_grant_id r = dv_grant_id seen)"

definition saw :: "cli_device \<Rightarrow> cli_db \<Rightarrow> bool" where
  "saw seen d \<longleftrightarrow> (\<exists>r \<in> set (devices d). moved_on seen r)"

definition run_cli :: "cli_world \<Rightarrow> cli_op \<Rightarrow> cli_db \<Rightarrow> cli_db" where
  "run_cli w x d =
     (case x of
        CreateDevice now did device_code code q \<Rightarrow> snd (create_device w now did device_code code q d)
      | BindDevice now did user \<Rightarrow> snd (bind_device now did user d)
      | SettleDecision now gid user approve seen \<Rightarrow>
          if saw seen d then snd (settle_decision w now gid user approve seen d) else d
      | SettleExchange req now later secret seen \<Rightarrow>
          if saw seen d then snd (settle_exchange (w\<lparr>cw_require := req\<rparr>) now later secret seen d) else d
      | RevokeGrant now gid user \<Rightarrow> snd (revoke_grant w now gid user d)
      | ChangeUsers us \<Rightarrow> d\<lparr>cli_users := us\<rparr>)"

section \<open>The invariant\<close>

definition backed :: "cli_grant list \<Rightarrow> cli_device \<Rightarrow> bool" where
  "backed gs r \<longleftrightarrow>
     (\<exists>g \<in> set gs. dv_grant_id r = Some (cg_id g) \<and> dv_reviewing_user_id r = Some (cg_user_id g)
        \<and> cg_scopes g = dv_scopes r \<and> cg_room_ids g = dv_room_ids r)"

definition spoken_for :: "cli_device list \<Rightarrow> cli_grant \<Rightarrow> bool" where
  "spoken_for rs g \<longleftrightarrow>
     (\<exists>r \<in> set rs. dv_status r = DeviceRedeemed \<and> dv_grant_id r = Some (cg_id g))"

definition asked_ok :: "cli_device \<Rightarrow> bool" where
  "asked_ok r \<longleftrightarrow> dv_client_id r = cli_client_id \<and> set (dv_scopes r) \<subseteq> set cli_scopes"

definition cli_rows_ok :: "cli_device list \<times> cli_grant list \<Rightarrow> bool" where
  "cli_rows_ok t \<longleftrightarrow>
     (let (rs, gs) = t in
      keyed dv_id rs \<and> keyed dv_device_code_hash rs \<and> keyed cg_id gs
      \<and> (\<forall>r \<in> set rs. dv_status r \<in> {DeviceApproved, DeviceRedeemed} \<longrightarrow> backed gs r)
      \<and> (\<forall>g \<in> set gs. cg_token_hash g \<noteq> None \<longrightarrow> spoken_for rs g)
      \<and> (\<forall>r \<in> set rs. asked_ok r))"

definition cli_ok :: "cli_db \<Rightarrow> bool" where
  "cli_ok d \<longleftrightarrow> cli_rows_ok (devices d, cli_grants d)"

section \<open>What a step does\<close>

lemma audit_frames [simp]:
  "devices (cli_audit u a k d) = devices d" "cli_grants (cli_audit u a k d) = cli_grants d"
  "cli_users (cli_audit u a k d) = cli_users d"
  by (simp_all add: cli_audit_def)

text \<open>The two tables before and after.\<close>

inductive cli_step :: "cli_world \<Rightarrow> cli_device list \<times> cli_grant list \<Rightarrow> cli_device list \<times> cli_grant list \<Rightarrow> bool" for w where
  Same: "cli_step w (rs, gs) (rs, gs)"
| Created: "dv_id r \<notin> dv_id ` set rs \<Longrightarrow> dv_device_code_hash r \<notin> dv_device_code_hash ` set rs \<Longrightarrow>
    dv_status r = DevicePending \<Longrightarrow> asked_ok r \<Longrightarrow> cli_step w (rs, gs) (tins r rs, gs)"
| Bound: "cli_step w (rs, gs)
    (tset (bindable now did user) (\<lambda>r. r\<lparr>dv_reviewing_user_id := Some user\<rparr>) rs, gs)"
| Denied: "cli_step w (rs, gs) (tset (decidable now did user) (\<lambda>r. r\<lparr>dv_status := DeviceDenied\<rparr>) rs, gs)"
| Approved: "r \<in> set rs \<Longrightarrow> requested r = requested seen \<Longrightarrow> gid \<notin> cg_id ` set gs \<Longrightarrow>
    cli_step w (rs, gs)
      (tset (decidable now (dv_id seen) user) (\<lambda>r. r\<lparr>dv_status := DeviceApproved, dv_grant_id := Some gid\<rparr>) rs,
       tins (new_grant w now gid user seen) gs)"
| Polled: "cli_step w (rs, gs) (tset (same_poll seen) (polled now seen) rs, gs)"
| Redeemed: "r \<in> set rs \<Longrightarrow> same_poll seen r \<Longrightarrow> dv_status seen = DeviceApproved \<Longrightarrow>
    dv_grant_id r = Some gid \<Longrightarrow> h \<notin> cg_token_hash ` set gs \<Longrightarrow>
    cli_step w (rs, gs)
      (tset (redeemable (dv_id seen)) (\<lambda>r. r\<lparr>dv_status := DeviceRedeemed\<rparr>)
         (tset (same_poll seen) (polled now seen) rs),
       tset (issuable later gid) (\<lambda>g. g\<lparr>cg_token_hash := h\<rparr>) gs)"
| Revoked: "cli_step w (rs, gs) (rs, tset (\<lambda>g. cg_id g = gid) (\<lambda>g. g\<lparr>cg_revoked_at := Some now\<rparr>) gs)"

lemma create_steps: "cli_step w (devices d, cli_grants d)
    (let d' = snd (create_device w now did dc code q d) in (devices d', cli_grants d'))"
  by (auto simp: create_device_def new_device_def sorted_set_def asked_ok_def Let_def intro!: cli_step.intros)

lemma bind_steps: "cli_step w (devices d, cli_grants d)
    (let d' = snd (bind_device now did user d) in (devices d', cli_grants d'))"
  by (auto simp: bind_device_def Let_def intro: cli_step.intros)

lemma decision_steps:
  assumes "saw seen d"
  shows "cli_step w (devices d, cli_grants d)
    (let d' = snd (settle_decision w now gid user approve seen d) in (devices d', cli_grants d'))"
proof -
  from assms obtain r where "r \<in> set (devices d)" "requested r = requested seen"
    by (auto simp: saw_def moved_on_def)
  then show ?thesis
    by (auto simp: settle_decision_def Let_def intro: cli_step.intros)
qed

text \<open>A successful exchange: the poll it claimed, and the grant whose token it set.\<close>


lemma redeem_cases:
  obtains (refused) e where "redeem w later token did g d = (Inl e, d)"
  | (redeemed) d' where "redeem w later token did g d = (Inr (), d')"
      and "tcount (redeemable did) (devices d) \<noteq> 0"
      and "Some (cw_sha w token) \<notin> cg_token_hash ` set (cli_grants d)"
      and "devices d' = tset (redeemable did) (\<lambda>r. r\<lparr>dv_status := DeviceRedeemed\<rparr>) (devices d)"
      and "cli_grants d' = tset (issuable later (cg_id g))
        (\<lambda>g. g\<lparr>cg_token_hash := Some (cw_sha w token)\<rparr>) (cli_grants d)"
proof (cases "tcount (redeemable did) (devices d) = 0 \<or> tcount (issuable later (cg_id g)) (cli_grants d) = 0
    \<or> Some (cw_sha w token) \<in> cg_token_hash ` set (cli_grants d)")
  case True
  then have "\<exists>e. redeem w later token did g d = (Inl e, d)" by (auto simp: redeem_def)
  then show thesis using refused by blast
next
  case False
  then show thesis by (intro redeemed) (auto simp: redeem_def)
qed

abbreviation poll_claimed :: "time \<Rightarrow> cli_device \<Rightarrow> cli_db \<Rightarrow> cli_db" where
  "poll_claimed now seen d \<equiv> d\<lparr>devices := tset (same_poll seen) (polled now seen) (devices d)\<rparr>"

text \<open>A successful exchange: the poll it claimed, and the grant whose token it set.\<close>

lemma settle_exchange_cases:
  obtains (failed) e where "settle_exchange w now later secret seen d = (Inl e, d)"
  | (polled) e where "settle_exchange w now later secret seen d = (Inl e, poll_claimed now seen d)"
  | (issued) a d' g where "settle_exchange w now later secret seen d = (Inr a, d')"
      and "tcount (same_poll seen) (devices d) \<noteq> 0" and "dv_status seen \<noteq> DevicePending"
      and "granted seen d = Some g" and "cg_revoked_at g = None" and "now < cg_expires_at g"
      and "redeem w later (cli_token_prefix @ secret) (dv_id seen) g (poll_claimed now seen d) = (Inr (), d')"
proof -
  let ?R = "settle_exchange w now later secret seen d"
  let ?d1 = "poll_claimed now seen d"
  consider "tcount (same_poll seen) (devices d) = 0"
    | "tcount (same_poll seen) (devices d) \<noteq> 0"
        "too_fast now seen \<or> dv_status seen = DevicePending \<or> granted seen ?d1 = None"
    | g where "tcount (same_poll seen) (devices d) \<noteq> 0"
        "\<not> too_fast now seen" "dv_status seen \<noteq> DevicePending" "granted seen ?d1 = Some g"
    by fastforce
  then show thesis
  proof cases
    case 1
    then show thesis using failed by (simp add: settle_exchange_def)
  next
    case 2
    then have "\<exists>e. ?R = (Inl e, ?d1)" by (auto simp: settle_exchange_def Let_def)
    then show thesis using polled by blast
  next
    case 3
    note at = 3
    show thesis
    proof (cases "cg_revoked_at g \<noteq> None \<or> cg_expires_at g \<le> now")
      case True
      with at have "\<exists>e. ?R = (Inl e, ?d1)" by (auto simp: settle_exchange_def Let_def)
      then show thesis using polled by blast
    next
      case False
      have same: "granted seen d = Some g" using at(4) by (simp add: granted_def split: option.splits)
      show thesis
      proof (cases "active_user ?d1 (cg_user_id g) = None
          \<or> isl (require_rooms (cw_require w) (cg_user_id g) (cg_room_ids g))")
        case True
        with at False have "\<exists>e. ?R = (Inl e, d)"
          by (auto simp: settle_exchange_def Let_def isl_def)
        then show thesis using failed by blast
      next
        case on: False
        then obtain u rs where on': "active_user ?d1 (cg_user_id g) = Some u"
          "require_rooms (cw_require w) (cg_user_id g) (cg_room_ids g) = Inr rs"
          by (metis isl_def not_None_eq sum.exhaust_sel sum.disc(1))
        show thesis
        proof (cases rule: redeem_cases [of w later "cli_token_prefix @ secret" "dv_id seen" g ?d1])
          case (refused e)
          with at False on' show thesis using failed by (simp add: settle_exchange_def Let_def)
        next
          case (redeemed d')
          with at False on' show thesis using same
            by (intro issued [of _ d' g]) (simp_all add: settle_exchange_def Let_def)
        qed
      qed
    qed
  qed
qed


lemma tcount_nonzero: "tcount P t \<noteq> 0 \<Longrightarrow> \<exists>r \<in> set t. P r"
  by (auto simp: tcount_0_iff)

lemma granted_SomeD:
  "granted seen d = Some g \<Longrightarrow> dv_grant_id seen = Some (cg_id g) \<and> g \<in> set (cli_grants d)"
  by (auto simp: granted_def split: option.splits dest: tget_SomeD)

lemma same_pollD: "same_poll seen r \<Longrightarrow> dv_id r = dv_id seen \<and> dv_status r = dv_status seen"
  by (simp add: same_poll_def)

lemma polled_simps [simp]:
  "dv_id (polled now seen r) = dv_id r" "dv_status (polled now seen r) = dv_status r"
  "dv_grant_id (polled now seen r) = dv_grant_id r" "requested (polled now seen r) = requested r"
  "dv_reviewing_user_id (polled now seen r) = dv_reviewing_user_id r"
  "dv_device_code_hash (polled now seen r) = dv_device_code_hash r"
  "dv_scopes (polled now seen r) = dv_scopes r" "dv_room_ids (polled now seen r) = dv_room_ids r"
  "dv_client_id (polled now seen r) = dv_client_id r"
  by (simp_all add: polled_def requested_def Let_def)

lemma exchange_issued:
  assumes "saw seen d" and keyed: "keyed dv_id (devices d)"
    and issued: "settle_exchange w now later secret seen d = (Inr a, d')"
  obtains r g where "r \<in> set (devices d)" and "same_poll seen r" and "dv_status seen = DeviceApproved"
    and "dv_grant_id r = Some (cg_id g)" and "g \<in> set (cli_grants d)"
    and "Some (cw_sha w (cli_token_prefix @ secret)) \<notin> cg_token_hash ` set (cli_grants d)"
    and "devices d' = tset (redeemable (dv_id seen)) (\<lambda>r. r\<lparr>dv_status := DeviceRedeemed\<rparr>)
          (tset (same_poll seen) (polled now seen) (devices d))"
    and "cli_grants d' = tset (issuable later (cg_id g))
          (\<lambda>g. g\<lparr>cg_token_hash := Some (cw_sha w (cli_token_prefix @ secret))\<rparr>) (cli_grants d)"
proof (cases rule: settle_exchange_cases [of w now later secret seen d])
  case claimed: (issued a' d2 g)
  with issued have d2: "d2 = d'" by simp
  from tcount_nonzero [OF claimed(2)] obtain r where r: "r \<in> set (devices d)" "same_poll seen r" by blast
  from redeem_cases [of w later "cli_token_prefix @ secret" "dv_id seen" g "poll_claimed now seen d"] claimed(7)
  have red: "tcount (redeemable (dv_id seen)) (devices (poll_claimed now seen d)) \<noteq> 0"
    and fresh: "Some (cw_sha w (cli_token_prefix @ secret)) \<notin> cg_token_hash ` set (cli_grants d)"
    and tables: "devices d' = tset (redeemable (dv_id seen)) (\<lambda>r. r\<lparr>dv_status := DeviceRedeemed\<rparr>)
        (devices (poll_claimed now seen d))"
      "cli_grants d' = tset (issuable later (cg_id g))
        (\<lambda>g. g\<lparr>cg_token_hash := Some (cw_sha w (cli_token_prefix @ secret))\<rparr>) (cli_grants d)"
    unfolding d2 by (auto elim: redeem_cases)
  from tcount_nonzero [OF red] obtain r' where "r' \<in> set (devices d)" "redeemable (dv_id seen) r'"
    by (auto simp: set_tset redeemable_def split: if_splits)
  with r keyed have r': "dv_status r = DeviceApproved"
    using keyed_eq [of dv_id "devices d" r r'] by (auto simp: redeemable_def same_poll_def)
  with r have approved: "dv_status seen = DeviceApproved" by (simp add: same_poll_def)
  from assms(1) obtain r0 where "r0 \<in> set (devices d)" "moved_on seen r0" by (auto simp: saw_def)
  with approved granted_SomeD [OF claimed(4)] have "dv_grant_id r0 = Some (cg_id g)" and "dv_id r0 = dv_id r"
    using r by (auto simp: moved_on_def same_poll_def requested_def)
  with r keyed \<open>r0 \<in> set (devices d)\<close> have grant: "dv_grant_id r = Some (cg_id g)"
    using keyed_eq [of dv_id "devices d" r r0] by simp
  show thesis
    using that [OF r approved grant _ fresh] granted_SomeD [OF claimed(4)] tables by simp
qed (use issued in auto)

lemma exchange_steps:
  assumes "saw seen d" and keyed: "keyed dv_id (devices d)"
  shows "cli_step w (devices d, cli_grants d)
    (let d' = snd (settle_exchange w now later secret seen d) in (devices d', cli_grants d'))"
proof (cases rule: settle_exchange_cases [of w now later secret seen d])
  case (issued a d' g)
  show ?thesis
    by (rule exchange_issued [OF assms issued(1)]) (auto simp: issued(1) intro: cli_step.Redeemed)
qed (simp_all add: cli_step.intros)

lemma revoke_steps: "cli_step w (devices d, cli_grants d)
    (let d' = snd (revoke_grant w now gid user d) in (devices d', cli_grants d'))"
  by (auto simp: revoke_grant_def Let_def split: option.splits intro: cli_step.intros)

lemma new_grant_world [simp]: "new_grant (w\<lparr>cw_require := req\<rparr>) = new_grant w"
  by (intro ext) (simp add: new_grant_def)

lemma cli_step_world: "cli_step (w\<lparr>cw_require := req\<rparr>) a b \<Longrightarrow> cli_step w a b"
  by (erule cli_step.cases) (auto intro: cli_step.intros simp del: tset_Nil)

lemma run_cli_step:
  assumes "keyed dv_id (devices d)"
  shows "cli_step w (devices d, cli_grants d) (devices (run_cli w x d), cli_grants (run_cli w x d))"
proof (cases x)
  case (SettleExchange req now later secret seen)
  with cli_step_world [OF exchange_steps [OF _ assms, of seen "w\<lparr>cw_require := req\<rparr>" now later secret]]
  show ?thesis by (auto simp: run_cli_def Let_def cli_step.Same)
qed (use create_steps [of w d] bind_steps [of w d] decision_steps [of _ d w] revoke_steps [of w d] in
    \<open>auto simp: run_cli_def Let_def cli_step.Same\<close>)



section \<open>The invariant is kept\<close>

lemma backed_more: "backed gs r \<Longrightarrow> backed (tins g gs) r"
  by (auto simp: backed_def)

lemma backed_map:
  assumes "backed gs r" and "dv_grant_id r' = dv_grant_id r" and "dv_reviewing_user_id r' = dv_reviewing_user_id r"
    and "dv_scopes r' = dv_scopes r" and "dv_room_ids r' = dv_room_ids r"
    and "\<And>g. cg_id (f g) = cg_id g \<and> cg_user_id (f g) = cg_user_id g \<and> cg_scopes (f g) = cg_scopes g
      \<and> cg_room_ids (f g) = cg_room_ids g"
  shows "backed (tset P f gs) r'"
proof -
  from assms(1) obtain g where "g \<in> set gs" "dv_grant_id r = Some (cg_id g)"
    "dv_reviewing_user_id r = Some (cg_user_id g)" "cg_scopes g = dv_scopes r" "cg_room_ids g = dv_room_ids r"
    by (auto simp: backed_def)
  with assms(2-) show ?thesis
    unfolding backed_def set_tset by (intro bexI [of _ "if P g then f g else g"]) auto
qed

lemma asked_ok_cong: "requested r = requested r' \<Longrightarrow> asked_ok r = asked_ok r'"
  by (simp add: requested_def asked_ok_def)

lemma cli_rows_okI:
  assumes "keyed dv_id rs" and "keyed dv_device_code_hash rs" and "keyed cg_id gs"
    and "\<And>r. r \<in> set rs \<Longrightarrow> dv_status r \<in> {DeviceApproved, DeviceRedeemed} \<Longrightarrow> backed gs r"
    and "\<And>g. g \<in> set gs \<Longrightarrow> cg_token_hash g \<noteq> None \<Longrightarrow> spoken_for rs g"
    and "\<And>r. r \<in> set rs \<Longrightarrow> asked_ok r"
  shows "cli_rows_ok (rs, gs)"
  using assms by (simp add: cli_rows_ok_def)

text \<open>An update of the devices that keeps what was asked for, the grants, and what is redeemed.\<close>

lemma devices_updated_ok:
  assumes ok: "cli_rows_ok (rs, gs)"
    and kept: "\<And>r. requested (f r) = requested r"
    and backing: "\<And>r. r \<in> set rs \<Longrightarrow> P r \<Longrightarrow> dv_status (f r) \<in> {DeviceApproved, DeviceRedeemed} \<Longrightarrow>
      dv_status r \<in> {DeviceApproved, DeviceRedeemed} \<and> dv_grant_id (f r) = dv_grant_id r
      \<and> dv_reviewing_user_id (f r) = dv_reviewing_user_id r"
    and redeemed: "\<And>r. P r \<Longrightarrow> dv_status r = DeviceRedeemed \<Longrightarrow>
      dv_status (f r) = DeviceRedeemed \<and> dv_grant_id (f r) = dv_grant_id r"
  shows "cli_rows_ok (tset P f rs, gs)"
proof (rule cli_rows_okI)
  have f: "dv_id (f r) = dv_id r" "dv_device_code_hash (f r) = dv_device_code_hash r"
    "dv_client_id (f r) = dv_client_id r" "dv_scopes (f r) = dv_scopes r" "dv_room_ids (f r) = dv_room_ids r" for r
    using kept [of r] by (simp_all add: requested_def)
  show "keyed dv_id (tset P f rs)" "keyed dv_device_code_hash (tset P f rs)" "keyed cg_id gs"
    using ok f by (simp_all add: cli_rows_ok_def keyed_tset)
  show "backed gs r" if "r \<in> set (tset P f rs)" and "dv_status r \<in> {DeviceApproved, DeviceRedeemed}" for r
  proof -
    from that(1) obtain r0 where r0: "r0 \<in> set rs" "r = (if P r0 then f r0 else r0)" by (auto simp: set_tset)
    with that(2) backing [of r0] have "dv_status r0 \<in> {DeviceApproved, DeviceRedeemed}"
      "dv_grant_id r = dv_grant_id r0" "dv_reviewing_user_id r = dv_reviewing_user_id r0"
      by (auto split: if_splits)
    moreover from this(1) r0(1) ok have "backed gs r0" by (auto simp: cli_rows_ok_def)
    ultimately show ?thesis using r0(2) f by (simp add: backed_def split: if_splits)
  qed
  show "spoken_for (tset P f rs) g" if "g \<in> set gs" and "cg_token_hash g \<noteq> None" for g
  proof -
    from ok that obtain r where "r \<in> set rs" "dv_status r = DeviceRedeemed" "dv_grant_id r = Some (cg_id g)"
      by (auto simp: cli_rows_ok_def spoken_for_def)
    with redeemed [of r] show ?thesis
      unfolding spoken_for_def set_tset by (intro bexI [of _ "if P r then f r else r"]) auto
  qed
  show "asked_ok r" if "r \<in> set (tset P f rs)" for r
    using ok that asked_ok_cong [OF kept] by (auto simp: cli_rows_ok_def set_tset split: if_splits)
qed

lemma bound_simps [simp]:
  "requested (r\<lparr>dv_reviewing_user_id := u\<rparr>) = requested r" "requested (r\<lparr>dv_status := s\<rparr>) = requested r"
  "requested (r\<lparr>dv_status := s, dv_grant_id := k\<rparr>) = requested r"
  by (simp_all add: requested_def)



lemma grants_updated_ok:
  assumes "cli_rows_ok (rs, gs)"
    and "\<And>g. cg_id (f g) = cg_id g \<and> cg_user_id (f g) = cg_user_id g \<and> cg_scopes (f g) = cg_scopes g
      \<and> cg_room_ids (f g) = cg_room_ids g"
    and "\<And>g. g \<in> set gs \<Longrightarrow> P g \<Longrightarrow> cg_token_hash (f g) \<noteq> None \<Longrightarrow>
      cg_token_hash g \<noteq> None \<or> spoken_for rs g"
  shows "cli_rows_ok (rs, tset P f gs)"
proof (rule cli_rows_okI)
  show "keyed cg_id (tset P f gs)" using assms by (simp add: cli_rows_ok_def keyed_tset)
  show "backed (tset P f gs) r" if "r \<in> set rs" and "dv_status r \<in> {DeviceApproved, DeviceRedeemed}" for r
    using assms(1) that by (intro backed_map [of gs r] assms(2)) (auto simp: cli_rows_ok_def)
  show "spoken_for rs g" if "g \<in> set (tset P f gs)" and "cg_token_hash g \<noteq> None" for g
  proof -
    from that(1) obtain g0 where g0: "g0 \<in> set gs" "g = (if P g0 then f g0 else g0)" by (auto simp: set_tset)
    with that(2) assms(3) [of g0] assms(1) have "spoken_for rs g0"
      by (auto simp: cli_rows_ok_def split: if_splits)
    with g0(2) assms(2) show ?thesis by (simp add: spoken_for_def split: if_splits)
  qed
qed (use assms(1) in \<open>auto simp: cli_rows_ok_def\<close>)

lemma cli_rows_okD:
  assumes "cli_rows_ok (rs, gs)"
  shows "keyed dv_id rs" and "keyed cg_id gs" and "keyed dv_device_code_hash rs"
    and "r \<in> set rs \<Longrightarrow> dv_status r \<in> {DeviceApproved, DeviceRedeemed} \<Longrightarrow> backed gs r"
    and "g \<in> set gs \<Longrightarrow> cg_token_hash g \<noteq> None \<Longrightarrow> spoken_for rs g"
    and "r \<in> set rs \<Longrightarrow> asked_ok r"
  using assms by (auto simp: cli_rows_ok_def)

lemma created_ok:
  assumes ok: "cli_rows_ok (rs, gs)" and "dv_id r \<notin> dv_id ` set rs"
    and "dv_device_code_hash r \<notin> dv_device_code_hash ` set rs" and "dv_status r = DevicePending"
    and "asked_ok r"
  shows "cli_rows_ok (tins r rs, gs)"
  using assms cli_rows_okD [OF ok]
  by (intro cli_rows_okI) (auto simp: keyed_tins tget_None_iff spoken_for_def)

lemma approved_ok:
  assumes ok: "cli_rows_ok (rs, gs)" and r0: "r0 \<in> set rs" "requested r0 = requested seen"
    and gid: "gid \<notin> cg_id ` set gs"
  shows "cli_rows_ok
      (tset (decidable now (dv_id seen) user) (\<lambda>r. r\<lparr>dv_status := DeviceApproved, dv_grant_id := Some gid\<rparr>) rs,
       tins (new_grant w now gid user seen) gs)"
proof (rule cli_rows_okI)
  let ?f = "\<lambda>r. r\<lparr>dv_status := DeviceApproved, dv_grant_id := Some gid\<rparr>"
  let ?P = "decidable now (dv_id seen) user"
  note facts = cli_rows_okD [OF ok]
  show "keyed dv_id (tset ?P ?f rs)" "keyed dv_device_code_hash (tset ?P ?f rs)"
    using facts by (simp_all add: keyed_tset)
  show "keyed cg_id (tins (new_grant w now gid user seen) gs)"
    using facts gid by (simp add: keyed_tins new_grant_def tget_None_iff)
  show "backed (tins (new_grant w now gid user seen) gs) r"
    if "r \<in> set (tset ?P ?f rs)" and "dv_status r \<in> {DeviceApproved, DeviceRedeemed}" for r
  proof -
    from that(1) obtain r1 where r1: "r1 \<in> set rs" "r = (if ?P r1 then ?f r1 else r1)" by (auto simp: set_tset)
    show ?thesis
    proof (cases "?P r1")
      case True
      with r0 r1(1) have "r1 = r0"
        using keyed_eq [OF facts(1), of r1 r0] by (auto simp: decidable_def requested_def)
      with True r1(2) r0 show ?thesis
        by (auto simp: backed_def new_grant_def decidable_def requested_def)
    next
      case False
      with r1 that(2) facts(4) [of r1] show ?thesis by (intro backed_more) auto
    qed
  qed
  show "spoken_for (tset ?P ?f rs) g"
    if "g \<in> set (tins (new_grant w now gid user seen) gs)" and "cg_token_hash g \<noteq> None" for g
  proof -
    from that have "g \<in> set gs" by (auto simp: new_grant_def)
    with facts(5) that(2) obtain r where r: "r \<in> set rs" "dv_status r = DeviceRedeemed" "dv_grant_id r = Some (cg_id g)"
      by (auto simp: spoken_for_def)
    then have "\<not> ?P r" by (simp add: decidable_def)
    with r show ?thesis by (auto simp: spoken_for_def set_tset intro!: bexI [of _ r])
  qed
  show "asked_ok r" if "r \<in> set (tset ?P ?f rs)" for r
    using facts(6) that asked_ok_cong [OF bound_simps(3)] by (auto simp: set_tset split: if_splits)
qed

lemma polled_ok: "cli_rows_ok (rs, gs) \<Longrightarrow> cli_rows_ok (tset (same_poll seen) (polled now seen) rs, gs)"
  by (rule devices_updated_ok) simp_all

lemma redeemed_ok:
  assumes ok: "cli_rows_ok (rs, gs)" and r: "r \<in> set rs" "same_poll seen r" "dv_status seen = DeviceApproved"
    "dv_grant_id r = Some gid"
  shows "cli_rows_ok
      (tset (redeemable (dv_id seen)) (\<lambda>r. r\<lparr>dv_status := DeviceRedeemed\<rparr>)
         (tset (same_poll seen) (polled now seen) rs),
       tset (issuable later gid) (\<lambda>g. g\<lparr>cg_token_hash := h\<rparr>) gs)"
proof (rule grants_updated_ok)
  let ?rs = "tset (redeemable (dv_id seen)) (\<lambda>r. r\<lparr>dv_status := DeviceRedeemed\<rparr>)
    (tset (same_poll seen) (polled now seen) rs)"
  show "cli_rows_ok (?rs, gs)"
    by (rule devices_updated_ok [OF polled_ok [OF ok]]) (auto simp: redeemable_def)
  have "polled now seen r \<in> set (tset (same_poll seen) (polled now seen) rs)"
    using r by (auto simp: set_tset)
  moreover have "redeemable (dv_id seen) (polled now seen r)"
    using r by (simp add: redeemable_def same_poll_def)
  ultimately have "(polled now seen r)\<lparr>dv_status := DeviceRedeemed\<rparr> \<in> set ?rs"
    by (auto simp: set_tset [of "redeemable (dv_id seen)"] intro!: image_eqI [of _ _ "polled now seen r"])
  then have "spoken_for ?rs g" if "cg_id g = gid" for g
    using that r(4) unfolding spoken_for_def by (intro bexI) auto
  then show "cg_token_hash g \<noteq> None \<or> spoken_for ?rs g" if "issuable later gid g" for g
    using that by (simp add: issuable_def)
qed simp

lemma cli_step_ok: "cli_step w t t' \<Longrightarrow> cli_rows_ok t \<Longrightarrow> cli_rows_ok t'"
proof (induction rule: cli_step.induct)
  case (Bound rs gs now did user)
  then show ?case by (rule devices_updated_ok) (auto simp: bindable_def)
next
  case (Denied rs gs now did user)
  then show ?case by (rule devices_updated_ok) (auto simp: decidable_def)
next
  case (Revoked rs gs gid now)
  then show ?case by (rule grants_updated_ok) auto
qed (auto intro: created_ok approved_ok polled_ok redeemed_ok)

interpretation cli: invariant_system "run_cli w" cli_ok for w
proof unfold_locales
  fix d :: cli_db and x
  assume "cli_ok d"
  then show "cli_ok (run_cli w x d)"
    using cli_step_ok [OF run_cli_step] by (simp add: cli_ok_def cli_rows_okD(1))
qed



section \<open>A redeemed device stays redeemed\<close>

lemma moved_on_refl [simp]: "moved_on r r"
  by (auto simp: moved_on_def)

lemma moved_on_trans: "moved_on a b \<Longrightarrow> moved_on b c \<Longrightarrow> moved_on a c"
  by (auto simp: moved_on_def)

lemma moved_on_id: "moved_on a b \<Longrightarrow> dv_id b = dv_id a"
  by (simp add: moved_on_def requested_def)

lemma moved_updates:
  "bindable now did user r \<Longrightarrow> moved_on r (r\<lparr>dv_reviewing_user_id := u\<rparr>)"
  "decidable now did user r \<Longrightarrow> moved_on r (r\<lparr>dv_status := DeviceDenied\<rparr>)"
  "decidable now did user r \<Longrightarrow> moved_on r (r\<lparr>dv_status := DeviceApproved, dv_grant_id := k\<rparr>)"
  "redeemable did r \<Longrightarrow> moved_on r (r\<lparr>dv_status := DeviceRedeemed\<rparr>)"
  "moved_on r (polled now seen r)"
  by (simp_all add: moved_on_def bindable_def decidable_def redeemable_def)

lemma step_moved:
  assumes "cli_step w t t'" and "r \<in> set (fst t)"
  shows "\<exists>r' \<in> set (fst t'). moved_on r r'"
proof -
  have keep: "\<exists>r' \<in> set (tset P f rs). moved_on a r'"
    if "a \<in> set rs" and "\<And>r. P r \<Longrightarrow> moved_on r (f r)" for a P f rs
    using that unfolding set_tset by (intro bexI [of _ "if P a then f a else a"]) auto
  show ?thesis
    using assms
  proof (cases rule: cli_step.cases)
    case (Redeemed r0 rs seen gid h gs now later)
    then have "r \<in> set rs" using assms(2) by simp
    then obtain r1 where "r1 \<in> set (tset (same_poll seen) (polled now seen) rs)" "moved_on r r1"
      using keep [of r rs "same_poll seen" "polled now seen"] moved_updates by blast
    moreover from keep [OF this(1), of "redeemable (dv_id seen)" "\<lambda>r. r\<lparr>dv_status := DeviceRedeemed\<rparr>"]
    obtain r2 where "r2 \<in> set (fst t')" "moved_on r1 r2"
      using Redeemed moved_updates by auto
    ultimately show ?thesis by (blast intro: moved_on_trans)
  qed (use keep moved_updates in \<open>auto intro!: bexI [of _ r]\<close>)
qed

lemma run_moved:
  assumes "cli_ok d" and "r \<in> set (devices d)"
  shows "\<exists>r' \<in> set (devices (run_ops (run_cli w) xs d)). moved_on r r'"
  using assms
proof (induction xs arbitrary: d r)
  case (Cons x xs)
  from Cons.prems(1) have "keyed dv_id (devices d)" by (simp add: cli_ok_def cli_rows_okD(1))
  from step_moved [OF run_cli_step [OF this]] Cons.prems(2)
  obtain r1 where r1: "r1 \<in> set (devices (run_cli w x d))" "moved_on r r1" by fastforce
  from Cons.IH [OF cli.inv_step [OF Cons.prems(1)] r1(1)] r1(2) show ?case
    by (auto intro: moved_on_trans)
qed (use moved_on_refl in \<open>simp, blast\<close>)

text \<open>A row that was read earlier is one that the table has moved on from.\<close>

lemma read_row_saw: "cli_ok d \<Longrightarrow> r \<in> set (devices d) \<Longrightarrow> saw r (run_ops (run_cli w) xs d)"
  using run_moved [of d r w xs] by (simp add: saw_def)

definition redeemed :: "string \<Rightarrow> cli_db \<Rightarrow> bool" where
  "redeemed k d \<longleftrightarrow> (\<exists>r \<in> set (devices d). dv_id r = k \<and> dv_status r = DeviceRedeemed)"

lemma redeemed_step: "cli_ok d \<Longrightarrow> redeemed k d \<Longrightarrow> redeemed k (run_cli w x d)"
  using run_moved [of d _ w "[x]"] by (fastforce simp: redeemed_def moved_on_def requested_def)

text \<open>The steps that hand out a token for the device \<open>k\<close>.\<close>

definition redeems :: "cli_world \<Rightarrow> string \<Rightarrow> cli_op \<Rightarrow> cli_db \<Rightarrow> bool" where
  "redeems w k x d =
     (case x of
        SettleExchange req now later secret seen \<Rightarrow>
          saw seen d \<and> dv_id seen = k
          \<and> \<not> isl (fst (settle_exchange (w\<lparr>cw_require := req\<rparr>) now later secret seen d))
      | _ \<Rightarrow> False)"

lemma redeems_facts:
  assumes "cli_ok d" and "redeems w k x d"
  shows "\<not> redeemed k d \<and> redeemed k (run_cli w x d)"
proof -
  from assms(2) obtain req now later secret seen where x: "x = SettleExchange req now later secret seen"
    and saw: "saw seen d" and k: "dv_id seen = k"
    and granted: "\<not> isl (fst (settle_exchange (w\<lparr>cw_require := req\<rparr>) now later secret seen d))"
    by (auto simp: redeems_def split: cli_op.splits)
  from granted obtain a d' where
    eq: "settle_exchange (w\<lparr>cw_require := req\<rparr>) now later secret seen d = (Inr a, d')"
    by (metis isl_def prod.collapse sum.collapse(2))
  from assms(1) have keyed: "keyed dv_id (devices d)" by (simp add: cli_ok_def cli_rows_okD(1))
  from saw keyed eq show ?thesis
  proof (rule exchange_issued)
    fix r g
    assume r: "r \<in> set (devices d)" "same_poll seen r" "dv_status seen = DeviceApproved"
      and d': "devices d' = tset (redeemable (dv_id seen)) (\<lambda>r. r\<lparr>dv_status := DeviceRedeemed\<rparr>)
          (tset (same_poll seen) (polled now seen) (devices d))"
    have "\<not> redeemed k d"
      using keyed_eq [OF keyed _ r(1)] r k by (fastforce simp: redeemed_def same_poll_def)
    moreover have "(polled now seen r)\<lparr>dv_status := DeviceRedeemed\<rparr> \<in> set (devices d')"
      unfolding d' set_tset using r by (auto simp: redeemable_def same_poll_def image_iff)
    then have "redeemed k d'"
      unfolding redeemed_def by (rule rev_bexI) (use r k in \<open>simp add: same_poll_def\<close>)
    ultimately show ?thesis by (simp add: x run_cli_def saw eq)
  qed
qed

interpretation redemption: at_most_once "run_cli w" "redeems w k" "\<lambda>d. \<not> redeemed k d" "\<lambda>_. False" cli_ok
  for w k
  by unfold_locales (simp_all add: redeems_facts cli.inv_step redeemed_step)



section \<open>Properties\<close>

text \<open>An exchange over the other sessions' steps is a run of steps.\<close>

lemma read_poll_InrD:
  "read_poll w now client code d = Inr seen \<Longrightarrow>
    seen \<in> set (devices d) \<and> dv_device_code_hash seen = cw_sha w code \<and> dv_status seen \<noteq> DeviceRedeemed"
  by (auto simp: read_poll_def find_Some_iff split: if_splits option.splits)

lemma exchange_is_step:
  assumes "cli_ok d" and "read_poll w now client code d = Inr seen"
  shows "exchange_device w (run_ops (run_cli w) ys) now later secret client code d
      = settle_exchange w now later secret seen (run_ops (run_cli w) ys d)"
    and "snd (settle_exchange w now later secret seen (run_ops (run_cli w) ys d))
      = run_cli w (SettleExchange (cw_require w) now later secret seen) (run_ops (run_cli w) ys d)"
    and "redeems w (dv_id seen) (SettleExchange (cw_require w) now later secret seen) (run_ops (run_cli w) ys d)
      \<longleftrightarrow> \<not> isl (fst (settle_exchange w now later secret seen (run_ops (run_cli w) ys d)))"
  using assms(2) read_row_saw [OF assms(1), of seen w ys] read_poll_InrD [OF assms(2)]
  by (simp_all add: exchange_device_def run_cli_def redeems_def)

lemma redeemed_run: "cli_ok d \<Longrightarrow> redeemed k d \<Longrightarrow> redeemed k (run_ops (run_cli w) xs d)"
  by (induction xs arbitrary: d) (simp_all add: redeemed_step cli.inv_step)

lemma redeemed_code_refused:
  assumes "cli_ok d" and "r \<in> set (devices d)" and "dv_status r = DeviceRedeemed"
    and "dv_device_code_hash r = cw_sha w code"
  shows "isl (fst (exchange_device w others now later secret client code d))"
proof (cases "read_poll w now client code d")
  case (Inr seen)
  then have "seen = r"
    using keyed_eq [of dv_device_code_hash "devices d" seen r] assms read_poll_InrD [OF Inr]
    by (simp add: cli_ok_def cli_rows_okD)
  with assms(3) read_poll_InrD [OF Inr] show ?thesis by simp
qed (simp add: exchange_device_def)

text \<open>After an exchange that returned a token, the device it read is redeemed.\<close>

lemma exchange_redeems:
  assumes "cli_ok d" and "exchange_device w (run_ops (run_cli w) ys) now later secret client code d = (Inr a, d')"
  shows "cli_ok d' \<and> (\<exists>r \<in> set (devices d'). dv_status r = DeviceRedeemed \<and> dv_device_code_hash r = cw_sha w code)"
proof -
  from assms(2) obtain seen where seen: "read_poll w now client code d = Inr seen"
    by (auto simp: exchange_device_def split: sum.splits)
  note step = exchange_is_step [OF assms(1) seen, where ys = ys and later = later and secret = secret]
  let ?x = "SettleExchange (cw_require w) now later secret seen"
  let ?d1 = "run_ops (run_cli w) ys d"
  have ok1: "cli_ok ?d1" by (rule cli.inv_run [OF assms(1)])
  from step(1) assms(2) have eq: "settle_exchange w now later secret seen ?d1 = (Inr a, d')" by simp
  then have d': "d' = run_ops (run_cli w) (ys @ [?x]) d"
    using step(2) by (simp add: run_ops_append)
  then have ok': "cli_ok d'" by (simp add: cli.inv_run [OF assms(1)])
  from step(3) eq have "redeems w (dv_id seen) ?x ?d1" by simp
  from redeems_facts [OF ok1 this] have "redeemed (dv_id seen) d'" by (simp add: d' run_ops_append)
  then obtain r where r: "r \<in> set (devices d')" "dv_id r = dv_id seen" "dv_status r = DeviceRedeemed"
    by (auto simp: redeemed_def)
  from read_poll_InrD [OF seen] run_moved [OF assms(1)] obtain r' where
    r': "r' \<in> set (devices d')" "moved_on seen r'" unfolding d' by blast
  with r ok' have "r' = r"
    using keyed_eq [of dv_id "devices d'" r' r] by (simp add: cli_ok_def cli_rows_okD moved_on_id)
  with r r'(2) read_poll_InrD [OF seen] ok' show ?thesis
    by (auto simp: moved_on_def requested_def)
qed

definition demo_cli :: cli_world where
  "demo_cli =
     \<lparr>cw_sha = \<lambda>s. CHR ''#'' # s, cw_upper = \<lambda>s. s,
      cw_settings = \<lparr>cli_auth_enabled = True, cli_auth_public_origin = ''o'', cli_device_ttl_seconds = 600,
                     cli_access_ttl_seconds = 900\<rparr>,
      cw_require = \<lambda>room user. Inr \<lparr>wr_id = room, wr_name = room\<rparr>\<rparr>"

definition empty_cli :: cli_db where
  "empty_cli = \<lparr>devices = [], cli_grants = [], cli_users = [], audits = []\<rparr>"

definition bound_cli :: cli_db where
  "bound_cli = run_ops (run_cli demo_cli)
     [ChangeUsers [\<lparr>cu_id = ''u'', cu_display_name = ''U'', cu_is_active = True\<rparr>],
      CreateDevice 0 ''d'' ''dc'' ''AB''
        \<lparr>dq_client_id = cli_client_id, dq_scopes = [''rooms:read''], dq_room_ids = [''r1'']\<rparr>,
      BindDevice 1 ''d'' ''u''] empty_cli"

definition approved_cli :: cli_db where
  "approved_cli = run_cli demo_cli (SettleDecision 2 ''g'' ''u'' True (hd (devices bound_cli))) bound_cli"

definition redeemed_cli :: cli_db where
  "redeemed_cli = snd (exchange_device demo_cli (run_ops (run_cli demo_cli) []) 3 4 ''t'' cli_client_id ''dc'' approved_cli)"

lemma empty_cli_ok: "cli_ok empty_cli"
  by (simp add: cli_ok_def cli_rows_ok_def empty_cli_def)

lemma approved_cli_ok: "cli_ok approved_cli"
  unfolding approved_cli_def bound_cli_def by (intro cli.inv_step cli.inv_run empty_cli_ok)

lemma demo_exchange:
  "\<not> isl (fst (exchange_device demo_cli (run_ops (run_cli demo_cli) []) 3 4 ''t'' cli_client_id ''dc'' approved_cli))"
  by code_simp

lemma demo_exchanged:
  obtains a where
    "exchange_device demo_cli (run_ops (run_cli demo_cli) []) 3 4 ''t'' cli_client_id ''dc'' approved_cli = (Inr a, redeemed_cli)"
  using demo_exchange unfolding redeemed_cli_def by (metis isl_def prod.collapse sum.collapse(2))

lemma redeemed_cli_ok: "cli_ok redeemed_cli"
  using demo_exchanged exchange_redeems [OF approved_cli_ok] by metis

text \<open>C13. A device code buys one token. Among any interleaving of the steps of all sessions (requests,
  reviews, decisions, polls that act on stale reads, revocations, changes of users) at most one poll
  of a device is answered with a token; and once an exchange of a device code has returned one,
  every later exchange of the same code is refused, whatever commits before, between and after.\<close>

theorem device_code_redeemed_once:
  assumes "cli_ok d"
  shows "grant_count (run_cli w) (redeems w k) xs d \<le> 1
    \<and> (\<forall>a d'. exchange_device w (run_ops (run_cli w) ys) now later secret client code d = (Inr a, d') \<longrightarrow>
        (\<forall>zs zs' now' later' secret' client'.
           isl (fst (exchange_device w (run_ops (run_cli w) zs') now' later' secret' client' code
                       (run_ops (run_cli w) zs d')))))"
proof (intro conjI allI impI)
  show "grant_count (run_cli w) (redeems w k) xs d \<le> 1"
    by (rule redemption.at_most_one [OF assms]) simp
  fix a d' zs zs' now' later' secret' client'
  assume "exchange_device w (run_ops (run_cli w) ys) now later secret client code d = (Inr a, d')"
  from exchange_redeems [OF assms this] obtain r where ok': "cli_ok d'" and r: "r \<in> set (devices d')"
    "dv_status r = DeviceRedeemed" "dv_device_code_hash r = cw_sha w code" by blast
  from run_moved [OF ok' r(1), of w zs] r obtain r' where "r' \<in> set (devices (run_ops (run_cli w) zs d'))"
    "dv_status r' = DeviceRedeemed" "dv_device_code_hash r' = cw_sha w code"
    by (auto simp: moved_on_def requested_def)
  from redeemed_code_refused [OF cli.inv_run [OF ok'] this]
  show "isl (fst (exchange_device w (run_ops (run_cli w) zs') now' later' secret' client' code
      (run_ops (run_cli w) zs d')))" .
qed

theorem device_code_redeemed_once_witness:
  "isl (fst (exchange_device demo_cli (run_ops (run_cli demo_cli) []) 5 6 ''v'' cli_client_id ''dc'' redeemed_cli))"
proof -
  obtain a where
    "exchange_device demo_cli (run_ops (run_cli demo_cli) []) 3 4 ''t'' cli_client_id ''dc'' approved_cli = (Inr a, redeemed_cli)"
    by (rule demo_exchanged)
  with device_code_redeemed_once [OF approved_cli_ok, of demo_cli "''d''" "[]" "[]" 3 4 "''t''" cli_client_id "''dc''"]
  show ?thesis by (metis run_ops.simps(1))
qed

text \<open>Whether a grant is revoked, in a state that meets the invariant.\<close>

definition revocation :: "cli_db \<Rightarrow> string \<Rightarrow> bool option" where
  "revocation d k = (if cli_ok d then map_option (\<lambda>g. cg_revoked_at g \<noteq> None) (get_grant d k) else None)"

lemma step_revocation:
  assumes "cli_step w t t'" and "tget cg_id (snd t) k = Some g" and "cg_revoked_at g \<noteq> None"
  shows "\<exists>g'. tget cg_id (snd t') k = Some g' \<and> cg_revoked_at g' \<noteq> None"
  using assms by (cases rule: cli_step.cases) (auto simp: tget_tset tget_tins)

interpretation revoked: terminal_status "run_cli w" revocation "\<lambda>v. v" "\<lambda>_. False" for w
proof unfold_locales
  fix d k v x
  assume "revocation d k = Some v" and v
  then obtain g where ok: "cli_ok d" and g: "get_grant d k = Some g" "cg_revoked_at g \<noteq> None"
    by (auto simp: revocation_def split: if_splits)
  from ok have "keyed dv_id (devices d)" by (simp add: cli_ok_def cli_rows_okD)
  from step_revocation [OF run_cli_step [OF this]] g cli.inv_step [OF ok] \<open>v\<close>
  show "revocation (run_cli w x d) k = Some v" by (fastforce simp: revocation_def)
qed

lemma require_rooms_ok:
  "\<not> isl (require_rooms require user rooms) \<Longrightarrow> room \<in> set rooms \<Longrightarrow> \<not> isl (require room user)"
  by (induction rooms) (auto split: sum.splits)

lemma resolve_token_InrD:
  assumes "resolve_token w now token check d = Inr p"
  shows "\<exists>g u. g \<in> set (cli_grants d) \<and> cg_token_hash g = Some (cw_sha w token) \<and> cg_revoked_at g = None
    \<and> now < cg_expires_at g \<and> u \<in> set (cli_users d) \<and> cu_id u = cg_user_id g \<and> cu_is_active u
    \<and> (check \<longrightarrow> \<not> isl (require_rooms (cw_require w) (cu_id u) (cg_room_ids g)))
    \<and> p = \<lparr>cp_user_id = cu_id u, cp_display_name = cu_display_name u, cp_grant_id = cg_id g,
           cp_scopes = cg_scopes g, cp_room_ids = cg_room_ids g\<rparr>"
proof -
  from assms obtain g where g: "token_grant w token d = Some g" "cg_revoked_at g = None" "now < cg_expires_at g"
    by (auto simp: resolve_token_def split: if_splits option.splits)
  from assms g obtain u where u: "active_user d (cg_user_id g) = Some u"
    by (auto simp: resolve_token_def split: if_splits option.splits)
  from g(1) have "g \<in> set (cli_grants d) \<and> cg_token_hash g = Some (cw_sha w token)"
    by (auto simp: token_grant_def dest: find_SomeD)
  moreover from u have "u \<in> set (cli_users d) \<and> cu_id u = cg_user_id g \<and> cu_is_active u"
    by (auto simp: active_user_def split: option.splits if_splits dest: tget_SomeD)
  ultimately show ?thesis
    using assms g u by (intro exI [of _ g] exI [of _ u]) (auto simp: resolve_token_def split: if_splits sum.splits)
qed

text \<open>C14. A token speaks for the user who approved it. Whoever a token resolves to reviewed the device and
  approved it, is an active user, and gets exactly the scopes and rooms that the device asked for,
  none beyond the read-only scopes of the client, while the grant is neither revoked nor expired. Where
  the caller asks for it, as every request does except the one by which a client revokes its own token,
  each of the rooms was just found open to that user.\<close>

theorem token_speaks_for_its_approver:
  assumes "cli_ok d" and "resolve_token w now token check (run_ops (run_cli w) xs d) = Inr p"
  shows "\<exists>g \<in> set (cli_grants (run_ops (run_cli w) xs d)). \<exists>r \<in> set (devices (run_ops (run_cli w) xs d)).
    cg_id g = cp_grant_id p \<and> cg_token_hash g = Some (cw_sha w token)
    \<and> cg_revoked_at g = None \<and> now < cg_expires_at g
    \<and> dv_status r = DeviceRedeemed \<and> dv_grant_id r = Some (cg_id g)
    \<and> dv_reviewing_user_id r = Some (cp_user_id p) \<and> cp_scopes p = dv_scopes r \<and> cp_room_ids p = dv_room_ids r
    \<and> set (cp_scopes p) \<subseteq> set cli_scopes
    \<and> (\<exists>u \<in> set (cli_users (run_ops (run_cli w) xs d)). cu_id u = cp_user_id p \<and> cu_is_active u)
    \<and> (check \<longrightarrow> (\<forall>room \<in> set (cp_room_ids p). \<not> isl (cw_require w room (cp_user_id p))))"
proof -
  let ?d = "run_ops (run_cli w) xs d"
  have ok: "cli_rows_ok (devices ?d, cli_grants ?d)"
    using cli.inv_run [OF assms(1)] by (simp add: cli_ok_def)
  from resolve_token_InrD [OF assms(2)] obtain g u where g: "g \<in> set (cli_grants ?d)"
    "cg_token_hash g = Some (cw_sha w token)" "cg_revoked_at g = None" "now < cg_expires_at g"
    and u: "u \<in> set (cli_users ?d)" "cu_id u = cg_user_id g" "cu_is_active u"
    and rooms: "check \<longrightarrow> \<not> isl (require_rooms (cw_require w) (cu_id u) (cg_room_ids g))"
    and p: "p = \<lparr>cp_user_id = cu_id u, cp_display_name = cu_display_name u, cp_grant_id = cg_id g,
                 cp_scopes = cg_scopes g, cp_room_ids = cg_room_ids g\<rparr>" by blast
  from cli_rows_okD(5) [OF ok g(1)] g(2) obtain r where r: "r \<in> set (devices ?d)"
    "dv_status r = DeviceRedeemed" "dv_grant_id r = Some (cg_id g)" by (auto simp: spoken_for_def)
  from cli_rows_okD(4) [OF ok r(1)] r(2) obtain g' where "g' \<in> set (cli_grants ?d)"
    "dv_grant_id r = Some (cg_id g')" "dv_reviewing_user_id r = Some (cg_user_id g')"
    "cg_scopes g' = dv_scopes r" "cg_room_ids g' = dv_room_ids r" by (auto simp: backed_def)
  moreover from this(1,2) r(3) g(1) have "g' = g"
    using keyed_eq [OF cli_rows_okD(2) [OF ok], of g' g] by simp
  ultimately show ?thesis
    using g u r p rooms cli_rows_okD(6) [OF ok r(1)] require_rooms_ok
    by (intro bexI [of _ g] bexI [of _ r]) (auto simp: asked_ok_def)
qed

theorem token_speaks_for_its_approver_witness:
  "\<exists>p. resolve_token demo_cli 7 ''crcli_t'' True (run_ops (run_cli demo_cli) [] redeemed_cli) = Inr p
     \<and> set (cp_scopes p) \<subseteq> set cli_scopes"
proof -
  have "\<not> isl (resolve_token demo_cli 7 ''crcli_t'' True (run_ops (run_cli demo_cli) [] redeemed_cli))" by code_simp
  then obtain p where "resolve_token demo_cli 7 ''crcli_t'' True (run_ops (run_cli demo_cli) [] redeemed_cli) = Inr p"
    by (metis isl_def sum.collapse(2))
  with token_speaks_for_its_approver [OF redeemed_cli_ok this] show ?thesis by blast
qed

text \<open>A revoked grant is over: once a revocation has succeeded, no token resolves to that grant in
  any later state.\<close>

theorem revoked_grant_resolves_nothing:
  assumes "cli_ok d" and "revoke_grant w now gid user d = (Inr (), d')"
  shows "\<not> (\<exists>p. resolve_token w' now' token check (run_ops (run_cli w) xs d') = Inr p \<and> cp_grant_id p = gid)"
proof
  assume "\<exists>p. resolve_token w' now' token check (run_ops (run_cli w) xs d') = Inr p \<and> cp_grant_id p = gid"
  then obtain p where resolved: "resolve_token w' now' token check (run_ops (run_cli w) xs d') = Inr p"
    and gid: "cp_grant_id p = gid" by blast
  have ok': "cli_ok d'" using cli.inv_step [OF assms(1), of w "RevokeGrant now gid user"] assms(2)
    by (simp add: run_cli_def)
  have "revocation d' gid = Some True"
    using assms(2) ok' by (auto simp: revoke_grant_def revocation_def tget_tset split: if_splits option.splits dest: tget_key)
  from revoked.final_run [OF this, of xs w] have "revocation (run_ops (run_cli w) xs d') gid = Some True" by simp
  moreover from resolve_token_InrD [OF resolved] gid obtain g where
    "g \<in> set (cli_grants (run_ops (run_cli w) xs d'))" "cg_id g = gid" "cg_revoked_at g = None" by auto
  moreover have "keyed cg_id (cli_grants (run_ops (run_cli w) xs d'))"
    using cli.inv_run [OF ok'] unfolding cli_ok_def by (rule cli_rows_okD)
  ultimately show False by (auto simp: revocation_def tget_self split: if_splits)
qed

theorem revoked_grant_resolves_nothing_witness:
  "\<not> (\<exists>p. resolve_token demo_cli 9 ''crcli_t'' True
        (run_ops (run_cli demo_cli) [] (snd (revoke_grant demo_cli 8 ''g'' ''u'' redeemed_cli))) = Inr p
      \<and> cp_grant_id p = ''g'')"
proof -
  have "fst (revoke_grant demo_cli 8 ''g'' ''u'' redeemed_cli) = Inr ()" by code_simp
  then have "revoke_grant demo_cli 8 ''g'' ''u'' redeemed_cli
      = (Inr (), snd (revoke_grant demo_cli 8 ''g'' ''u'' redeemed_cli))" by (metis prod.collapse)
  from revoked_grant_resolves_nothing [OF redeemed_cli_ok this] show ?thesis .
qed

end
