(* ===== verification/Rate_Limits.thy ===== *)
theory Rate_Limits
  imports Tables
begin

text \<open>
  Rate limits, login lockout and quotas (\<open>security_controls.py\<close>,
  \<open>persistence/security_models.py\<close>, the limits of \<open>config.py\<close>).

  An upsert is one atomic statement. Of the tables that are only counted, the columns that the
  counts read are modelled. The second transaction of a refused request only reads, so what other
  sessions commit before it shows in its answer alone.
\<close>

section \<open>Settings and rows\<close>

record quota_settings =
  request_limit_per_minute :: int
  login_failure_limit :: int
  login_failure_window_seconds :: int
  login_block_seconds :: int
  max_characters_per_user :: int
  max_scenarios_per_user :: int
  max_test_packs_per_user :: int
  max_runs_per_user :: int
  max_matrices_per_user :: int
  max_matrix_tasks_per_day :: int
  max_concurrent_runs_per_user :: int
  max_workspace_records_per_user :: int
  max_authoring_generations_per_day :: int
  max_evaluation_cases_per_day :: int
  max_template_instantiations_per_day :: int
  max_shared_assets_per_bundle :: int

definition default_quotas :: quota_settings where
  "default_quotas =
     \<lparr>request_limit_per_minute = 300, login_failure_limit = 5,
      login_failure_window_seconds = 15 * 60, login_block_seconds = 15 * 60,
      max_characters_per_user = 100, max_scenarios_per_user = 250, max_test_packs_per_user = 100,
      max_runs_per_user = 2000, max_matrices_per_user = 100, max_matrix_tasks_per_day = 1000,
      max_concurrent_runs_per_user = 3, max_workspace_records_per_user = 3000,
      max_authoring_generations_per_day = 50, max_evaluation_cases_per_day = 1000,
      max_template_instantiations_per_day = 100, max_shared_assets_per_bundle = 200\<rparr>"

record rate_bucket =
  rb_key :: string
  rb_window_started_at :: time
  rb_count :: int
  rb_blocked_until :: "time option"
  rb_updated_at :: time

record owned_run =
  ou_run_id :: string
  ou_owner_id :: string

record trial_row =
  tw_id :: string
  tw_status :: string

record matrix_row =
  mw_owner_id :: string
  mw_started_at :: "time option"
  mw_total_tasks :: int

record quota_db =
  rate_buckets :: "rate_bucket list"
  character_owners :: "string list"
  scenario_owners :: "string list"
  pack_owners :: "string list"
  run_snapshots :: "owned_run list"
  trial_rows :: "trial_row list"
  matrix_rows :: "matrix_row list"

interpretation bucket_table: db_table rate_buckets rate_buckets_update rb_key
  by unfold_locales simp

abbreviation get_bucket :: "quota_db \<Rightarrow> string \<Rightarrow> rate_bucket option" where
  "get_bucket d k \<equiv> tget rb_key (rate_buckets d) k"

section \<open>Counting in a window\<close>

definition window_expired :: "time \<Rightarrow> int \<Rightarrow> rate_bucket \<Rightarrow> bool" where
  "window_expired now window b \<longleftrightarrow> rb_window_started_at b \<le> now - seconds window"

definition counted :: "time \<Rightarrow> int \<Rightarrow> int \<Rightarrow> rate_bucket \<Rightarrow> rate_bucket" where
  "counted now window amount b =
     b\<lparr>rb_count := (if window_expired now window b then amount else rb_count b + amount),
       rb_window_started_at := (if window_expired now window b then now else rb_window_started_at b),
       rb_blocked_until := None, rb_updated_at := now\<rparr>"

text \<open>The upsert: \<open>True\<close> when it returned a row.\<close>

definition admit_amount :: "string \<Rightarrow> int \<Rightarrow> int \<Rightarrow> int \<Rightarrow> time \<Rightarrow> quota_db \<Rightarrow> bool \<times> quota_db" where
  "admit_amount key limit window amount now d =
     (case get_bucket d key of
        None \<Rightarrow>
          (True, d\<lparr>rate_buckets := tins
             \<lparr>rb_key = key, rb_window_started_at = now, rb_count = amount, rb_blocked_until = None,
              rb_updated_at = now\<rparr> (rate_buckets d)\<rparr>)
      | Some b \<Rightarrow>
          if window_expired now window b \<or> rb_count b \<le> limit - amount
          then (True, d\<lparr>rate_buckets := tset (\<lambda>b. rb_key b = key) (counted now window amount) (rate_buckets d)\<rparr>)
          else (False, d))"

definition retry_after :: "string \<Rightarrow> int \<Rightarrow> time \<Rightarrow> quota_db \<Rightarrow> int" where
  "retry_after key window now d =
     (case get_bucket d key of
        None \<Rightarrow> window
      | Some b \<Rightarrow> max 1 ((rb_window_started_at b + seconds window - now) div seconds 1))"

definition consume ::
  "(quota_db \<Rightarrow> quota_db) \<Rightarrow> string \<Rightarrow> int \<Rightarrow> int \<Rightarrow> string \<Rightarrow> int \<Rightarrow> time \<Rightarrow> quota_db \<Rightarrow> (unit, quota_db) outcome" where
  "consume later key limit window message amount now d =
     (if limit \<le> 0 \<or> amount \<le> 0 then (Inr (), d)
      else if limit < amount then (Inl (QuotaExceeded message (Some window)), d)
      else
        (case admit_amount key limit window amount now d of
           (True, d') \<Rightarrow> (Inr (), d')
         | (False, d') \<Rightarrow>
             (Inl (QuotaExceeded message (Some (retry_after key window now (later d')))), d')))"

definition day_seconds :: int where
  "day_seconds = 24 * 60 * 60"

definition request_key :: "string \<Rightarrow> string" where
  "request_key user = ''request:'' @ user"

definition consume_request where
  "consume_request later st user =
     consume later (request_key user) (request_limit_per_minute st) 60 ''Request rate limit exceeded.'' 1"

definition consume_cli_request where
  "consume_cli_request later category identity_hash limit =
     consume later (''cli:'' @ category @ '':'' @ identity_hash) limit 60 ''CLI request limit exceeded.'' 1"

definition consume_authoring_generation where
  "consume_authoring_generation later st user =
     consume later (''authoring-generation:'' @ user) (max_authoring_generations_per_day st) day_seconds
       ''Daily AI authoring generation quota exceeded.'' 1"

definition cases_key :: "string \<Rightarrow> string" where
  "cases_key user = ''evaluation-cases:'' @ user"

definition consume_evaluation_cases ::
  "(quota_db \<Rightarrow> quota_db) \<Rightarrow> quota_settings \<Rightarrow> string \<Rightarrow> int \<Rightarrow> time \<Rightarrow> quota_db \<Rightarrow> (unit, quota_db) outcome" where
  "consume_evaluation_cases later st user case_count now d =
     (if case_count \<le> 0 then (Inr (), d)
      else consume later (cases_key user) (max_evaluation_cases_per_day st) day_seconds
        ''Daily Judge evaluation Case quota exceeded.'' case_count now d)"

definition consume_template_instantiation where
  "consume_template_instantiation later st user =
     consume later (''template-instantiation:'' @ user) (max_template_instantiations_per_day st) day_seconds
       ''Daily evaluation template quota exceeded.'' 1"

section \<open>Failed logins\<close>

definition login_key :: "string \<Rightarrow> string" where
  "login_key identity_hash = ''login:'' @ identity_hash"

definition check_login :: "time \<Rightarrow> string \<Rightarrow> quota_db \<Rightarrow> error + unit" where
  "check_login now identity_hash d =
     (case get_bucket d (login_key identity_hash) of
        None \<Rightarrow> Inr ()
      | Some b \<Rightarrow>
          (case rb_blocked_until b of
             None \<Rightarrow> Inr ()
           | Some blocked \<Rightarrow>
               if blocked \<le> now then Inr ()
               else Inl (QuotaExceeded ''Too many failed login attempts. Try again later.''
                 (Some (max 1 ((blocked - now) div seconds 1))))))"

text \<open>A comparison with a null column is not true.\<close>

definition login_expired :: "quota_settings \<Rightarrow> time \<Rightarrow> rate_bucket \<Rightarrow> bool" where
  "login_expired st now b \<longleftrightarrow>
     window_expired now (login_failure_window_seconds st) b
     \<or> (case rb_blocked_until b of None \<Rightarrow> False | Some blocked \<Rightarrow> blocked \<le> now)"

definition next_failures :: "quota_settings \<Rightarrow> time \<Rightarrow> rate_bucket \<Rightarrow> int" where
  "next_failures st now b = (if login_expired st now b then 1 else rb_count b + 1)"

definition block_end :: "quota_settings \<Rightarrow> time \<Rightarrow> int \<Rightarrow> time option" where
  "block_end st now failures =
     (if login_failure_limit st \<le> failures then Some (now + seconds (login_block_seconds st)) else None)"

definition failed_again :: "quota_settings \<Rightarrow> time \<Rightarrow> rate_bucket \<Rightarrow> rate_bucket" where
  "failed_again st now b =
     b\<lparr>rb_count := next_failures st now b,
       rb_window_started_at := (if login_expired st now b then now else rb_window_started_at b),
       rb_blocked_until := block_end st now (next_failures st now b), rb_updated_at := now\<rparr>"

definition record_login_failure :: "quota_settings \<Rightarrow> time \<Rightarrow> string \<Rightarrow> quota_db \<Rightarrow> quota_db" where
  "record_login_failure st now identity_hash d =
     (let key = login_key identity_hash in
      case get_bucket d key of
        None \<Rightarrow>
          d\<lparr>rate_buckets := tins
             \<lparr>rb_key = key, rb_window_started_at = now, rb_count = 1, rb_blocked_until = block_end st now 1,
              rb_updated_at = now\<rparr> (rate_buckets d)\<rparr>
      | Some _ \<Rightarrow>
          d\<lparr>rate_buckets := tset (\<lambda>b. rb_key b = key) (failed_again st now) (rate_buckets d)\<rparr>)"

definition record_login_success :: "string \<Rightarrow> quota_db \<Rightarrow> quota_db" where
  "record_login_success identity_hash d =
     d\<lparr>rate_buckets := tdel (\<lambda>b. rb_key b = login_key identity_hash) (rate_buckets d)\<rparr>"

section \<open>Quotas of a workspace\<close>

datatype resource_kind = ResCharacter | ResScenario | ResPack | ResRun | ResMatrix

fun kind_title :: "resource_kind \<Rightarrow> string" where
  "kind_title ResCharacter = ''Character''"
| "kind_title ResScenario = ''Scenario''"
| "kind_title ResPack = ''Pack''"
| "kind_title ResRun = ''Run''"
| "kind_title ResMatrix = ''Matrix''"

fun kind_limit :: "quota_settings \<Rightarrow> resource_kind \<Rightarrow> int" where
  "kind_limit st ResCharacter = max_characters_per_user st"
| "kind_limit st ResScenario = max_scenarios_per_user st"
| "kind_limit st ResPack = max_test_packs_per_user st"
| "kind_limit st ResRun = max_runs_per_user st"
| "kind_limit st ResMatrix = max_matrices_per_user st"

fun kind_count :: "string \<Rightarrow> quota_db \<Rightarrow> resource_kind \<Rightarrow> int" where
  "kind_count owner d ResCharacter = int (tcount (\<lambda>x. x = owner) (character_owners d))"
| "kind_count owner d ResScenario = int (tcount (\<lambda>x. x = owner) (scenario_owners d))"
| "kind_count owner d ResPack = int (tcount (\<lambda>x. x = owner) (pack_owners d))"
| "kind_count owner d ResRun = int (tcount (\<lambda>r. ou_owner_id r = owner) (run_snapshots d))"
| "kind_count owner d ResMatrix = int (tcount (\<lambda>r. mw_owner_id r = owner) (matrix_rows d))"

definition workspace_count :: "string \<Rightarrow> quota_db \<Rightarrow> int" where
  "workspace_count owner d =
     kind_count owner d ResCharacter + kind_count owner d ResScenario + kind_count owner d ResPack
     + kind_count owner d ResRun + kind_count owner d ResMatrix"

definition enforce_create :: "quota_settings \<Rightarrow> string \<Rightarrow> resource_kind \<Rightarrow> int \<Rightarrow> quota_db \<Rightarrow> error + unit" where
  "enforce_create st owner kind incoming d =
     (if kind_limit st kind < kind_count owner d kind + incoming
      then Inl (QuotaExceeded (kind_title kind @ '' quota exceeded for this account.'') None)
      else if max_workspace_records_per_user st < workspace_count owner d + incoming
      then Inl (QuotaExceeded ''Workspace storage quota exceeded for this account.'' None)
      else Inr ())"

text \<open>The join of the run snapshots with the runs that are pending or running.\<close>

definition active_runs :: "string \<Rightarrow> quota_db \<Rightarrow> int" where
  "active_runs owner d =
     int (length
       [(s, r) \<leftarrow> List.product (run_snapshots d) (trial_rows d).
          tw_id r = ou_run_id s \<and> ou_owner_id s = owner \<and> tw_status r \<in> {''pending'', ''running''}])"

definition enforce_run_start :: "quota_settings \<Rightarrow> string \<Rightarrow> quota_db \<Rightarrow> error + unit" where
  "enforce_run_start st owner d =
     (case enforce_create st owner ResRun 1 d of
        Inl e \<Rightarrow> Inl e
      | Inr _ \<Rightarrow>
          if max_concurrent_runs_per_user st \<le> active_runs owner d
          then Inl (QuotaExceeded ''Concurrent Run limit reached for this account.'' (Some 5))
          else Inr ())"

definition day_start :: "time \<Rightarrow> time" where
  "day_start now = now - now mod days 1"

definition tasks_since :: "string \<Rightarrow> time \<Rightarrow> quota_db \<Rightarrow> int" where
  "tasks_since owner start d =
     sum_list (map mw_total_tasks (filter (\<lambda>r. mw_owner_id r = owner
       \<and> (case mw_started_at r of None \<Rightarrow> False | Some t \<Rightarrow> start \<le> t)) (matrix_rows d)))"

definition enforce_matrix_launch :: "quota_settings \<Rightarrow> time \<Rightarrow> string \<Rightarrow> int \<Rightarrow> quota_db \<Rightarrow> error + unit" where
  "enforce_matrix_launch st now owner task_count d =
     (if task_count \<le> 0 then Inr ()
      else if max_matrix_tasks_per_day st < tasks_since owner (day_start now) d + task_count
      then Inl (QuotaExceeded ''Daily Matrix task quota exceeded for this account.'' None)
      else Inr ())"

fun enforce_each :: "quota_settings \<Rightarrow> string \<Rightarrow> (resource_kind \<times> int) list \<Rightarrow> quota_db \<Rightarrow> error + unit" where
  "enforce_each st owner [] d = Inr ()"
| "enforce_each st owner ((kind, n) # rest) d =
     (if n = 0 then enforce_each st owner rest d
      else (case enforce_create st owner kind n d of
              Inl e \<Rightarrow> Inl e
            | Inr _ \<Rightarrow> enforce_each st owner rest d))"

definition import_kinds :: "(resource_kind \<Rightarrow> int) \<Rightarrow> (resource_kind \<times> int) list" where
  "import_kinds incoming =
     map (\<lambda>k. (k, incoming k)) [ResCharacter, ResScenario, ResPack, ResRun, ResMatrix]"

definition enforce_import :: "quota_settings \<Rightarrow> string \<Rightarrow> (resource_kind \<Rightarrow> int) \<Rightarrow> quota_db \<Rightarrow> error + unit" where
  "enforce_import st owner incoming d =
     (case enforce_each st owner (import_kinds incoming) d of
        Inl e \<Rightarrow> Inl e
      | Inr _ \<Rightarrow>
          if max_workspace_records_per_user st
             < sum_list (map snd (import_kinds incoming)) + workspace_count owner d
          then Inl (QuotaExceeded ''Workspace import exceeds the account storage quota.'' None)
          else Inr ())"

definition enforce_share_bundle :: "quota_settings \<Rightarrow> int \<Rightarrow> error + unit" where
  "enforce_share_bundle st asset_count =
     (if asset_count \<le> 0
      then Inl (QuotaExceeded ''A Share Bundle requires at least one asset.'' None)
      else if max_shared_assets_per_bundle st < asset_count
      then Inl (QuotaExceeded ''Share Bundle asset limit exceeded.'' None)
      else Inr ())"

end
