(* ===== verification/Rate_Safety.thy ===== *)
theory Rate_Safety
  imports Rate_Limits Contracts
begin

text \<open>
  What the rate limits promise: how much an account is admitted in any span of time whatever the
  order of the operations, how many wrong passwords are tried, and that an import that passes the
  quotas leaves the workspace within them.
\<close>

section \<open>Runs of quota operations\<close>

datatype quota_op =
    QRequest string
  | QCli string string int
  | QAuthoring string
  | QCases string int
  | QTemplate string
  | QFailure string
  | QSuccess string

text \<open>An operation with what its second transaction reads and its clock.\<close>

type_synonym quota_call = "(quota_db \<Rightarrow> quota_db) \<times> time \<times> quota_op"

fun quota_step :: "quota_settings \<Rightarrow> quota_call \<Rightarrow> quota_db \<Rightarrow> quota_db" where
  "quota_step st (later, now, QRequest u) d = snd (consume_request later st u now d)"
| "quota_step st (later, now, QCli c h limit) d = snd (consume_cli_request later c h limit now d)"
| "quota_step st (later, now, QAuthoring u) d = snd (consume_authoring_generation later st u now d)"
| "quota_step st (later, now, QCases u n) d = snd (consume_evaluation_cases later st u n now d)"
| "quota_step st (later, now, QTemplate u) d = snd (consume_template_instantiation later st u now d)"
| "quota_step st (later, now, QFailure h) d = record_login_failure st now h d"
| "quota_step st (later, now, QSuccess h) d = record_login_success h d"

text \<open>The cases that an operation is admitted for a user, and whether it is an admitted request.\<close>

fun cases_admitted :: "quota_settings \<Rightarrow> string \<Rightarrow> quota_call \<Rightarrow> quota_db \<Rightarrow> nat" where
  "cases_admitted st user (later, now, QCases u n) d =
     (if u = user \<and> fst (consume_evaluation_cases later st u n now d) = Inr () then nat n else 0)"
| "cases_admitted st user _ d = 0"

fun request_admitted :: "quota_settings \<Rightarrow> string \<Rightarrow> quota_call \<Rightarrow> quota_db \<Rightarrow> nat" where
  "request_admitted st user (later, now, QRequest u) d =
     (if u = user \<and> fst (consume_request later st u now d) = Inr () then 1 else 0)"
| "request_admitted st user _ d = 0"

section \<open>Buckets\<close>

definition buckets_ok :: "quota_db \<Rightarrow> bool" where
  "buckets_ok d \<longleftrightarrow> keyed rb_key (rate_buckets d) \<and> (\<forall>b \<in> set (rate_buckets d). 0 \<le> rb_count b)"

lemma counted_key [simp]: "rb_key (counted now window amount b) = rb_key b"
  by (simp add: counted_def)

lemma failed_key [simp]: "rb_key (failed_again st now b) = rb_key b"
  by (simp add: failed_again_def)

lemma admit_ok: "buckets_ok d \<Longrightarrow> 0 \<le> amount \<Longrightarrow> buckets_ok (snd (admit_amount key limit window amount now d))"
  by (auto simp: admit_amount_def buckets_ok_def keyed_tins keyed_tset set_tset counted_def split: option.split)

lemma consume_ok: "buckets_ok d \<Longrightarrow> buckets_ok (snd (consume later key limit window message amount now d))"
  using admit_ok [of d amount key limit window now]
  by (auto simp: consume_def split: prod.split bool.split)

lemma cases_ok: "buckets_ok d \<Longrightarrow> buckets_ok (snd (consume_evaluation_cases later st u n now d))"
  by (simp add: consume_evaluation_cases_def consume_ok)

lemma failure_ok: "buckets_ok d \<Longrightarrow> buckets_ok (record_login_failure st now h d)"
  by (auto simp: record_login_failure_def buckets_ok_def Let_def keyed_tins keyed_tset set_tset
      failed_again_def next_failures_def split: option.split)

lemma success_ok: "buckets_ok d \<Longrightarrow> buckets_ok (record_login_success h d)"
  by (simp add: record_login_success_def buckets_ok_def keyed_tdel)

lemmas consume_defs = consume_request_def consume_cli_request_def consume_authoring_generation_def
  consume_template_instantiation_def

lemma quota_step_ok: "buckets_ok d \<Longrightarrow> buckets_ok (quota_step st x d)"
  by (cases "(st, x, d)" rule: quota_step.cases)
    (simp_all add: consume_defs consume_ok cases_ok failure_ok success_ok)

text \<open>Each operation leaves the buckets of other keys alone.\<close>

lemma admit_other: "k \<noteq> key \<Longrightarrow> get_bucket (snd (admit_amount key limit window amount now d)) k = get_bucket d k"
  by (auto simp: admit_amount_def tget_tins tget_tset dest: tget_key split: option.split)

lemma consume_other:
  "k \<noteq> key \<Longrightarrow> get_bucket (snd (consume later key limit window message amount now d)) k = get_bucket d k"
  using admit_other [of k key limit window amount now d]
  by (auto simp: consume_def split: prod.split bool.split)

lemma failure_other: "k \<noteq> login_key h \<Longrightarrow> get_bucket (record_login_failure st now h d) k = get_bucket d k"
  by (auto simp: record_login_failure_def Let_def tget_tins tget_tset dest: tget_key split: option.split)

lemma success_other:
  "buckets_ok d \<Longrightarrow> k \<noteq> login_key h \<Longrightarrow> get_bucket (record_login_success h d) k = get_bucket d k"
  by (auto simp: record_login_success_def buckets_ok_def tget_tdel dest: tget_key split: option.split)

text \<open>The keys of different limits differ, and so do those of different users.\<close>

lemma keys_differ [simp]:
  "cases_key u = cases_key v \<longleftrightarrow> u = v" "request_key u = request_key v \<longleftrightarrow> u = v"
  "cases_key u \<noteq> request_key v" "request_key v \<noteq> cases_key u"
  "cases_key u \<noteq> login_key h" "request_key u \<noteq> login_key h"
  "cases_key u \<noteq> ''cli:'' @ h" "request_key u \<noteq> ''cli:'' @ h"
  "cases_key u \<noteq> ''authoring-generation:'' @ h" "request_key u \<noteq> ''authoring-generation:'' @ h"
  "cases_key u \<noteq> ''template-instantiation:'' @ h" "request_key u \<noteq> ''template-instantiation:'' @ h"
  by (simp_all add: request_key_def cases_key_def login_key_def)

lemma cases_other:
  "k \<noteq> cases_key u \<Longrightarrow> get_bucket (snd (consume_evaluation_cases later st u n now d)) k = get_bucket d k"
  by (simp add: consume_evaluation_cases_def consume_other)

section \<open>The credit of a bucket\<close>

text \<open>
  What a bucket can still admit before \<open>T\<close> at most: the rest of its window, and a whole limit for
  every window that can still be opened. A window that is not open yet starts at \<open>t\<close> at the earliest.
\<close>

definition windows_left :: "time \<Rightarrow> time \<Rightarrow> time \<Rightarrow> nat" where
  "windows_left width T started = nat ((T - 1 - started) div width)"

definition bucket_credit :: "string \<Rightarrow> int \<Rightarrow> int \<Rightarrow> time \<Rightarrow> time \<Rightarrow> quota_db \<Rightarrow> nat" where
  "bucket_credit key limit window t T d =
     (case get_bucket d key of
        None \<Rightarrow> nat limit + nat limit * windows_left (seconds window) T t
      | Some b \<Rightarrow> nat (limit - rb_count b)
          + nat limit * windows_left (seconds window) T (max (rb_window_started_at b) (t - seconds window)))"

lemma windows_left_mono: "0 < width \<Longrightarrow> a \<le> b \<Longrightarrow> windows_left width T b \<le> windows_left width T a"
  by (simp add: windows_left_def nat_mono zdiv_mono1)

lemma window_opened:
  assumes "0 < width" "a + width \<le> now" "now < T"
  shows "Suc (windows_left width T now) \<le> windows_left width T a"
proof -
  have "(T - 1 - now) div width + 1 = (T - 1 - now + width) div width"
    using assms(1) div_mult_self1 [of width "T - 1 - now" 1] by (simp add: algebra_simps)
  also have "\<dots> \<le> (T - 1 - a) div width"
    using assms by (intro zdiv_mono1) simp_all
  finally have "(T - 1 - now) div width + 1 \<le> (T - 1 - a) div width" .
  moreover have "0 \<le> (T - 1 - now) div width"
    using assms by (simp add: pos_imp_zdiv_nonneg_iff)
  ultimately show ?thesis by (simp add: windows_left_def)
qed

lemma limit_opened:
  assumes "0 < width" "a + width \<le> now" "now < T"
  shows "L + L * windows_left width T now \<le> L * windows_left width T a"
  using mult_le_mono2 [OF window_opened [OF assms], of L] by simp

lemma windows_left_before:
  assumes "0 < width"
  shows "windows_left width (t + int n * width) (t - width) \<le> n"
proof -
  have "(width - 1 + int n * width) div width = int n + (width - 1) div width"
    using assms by (intro div_mult_self1) simp
  also have "(width - 1) div width = 0"
    using assms by (intro div_pos_pos_trivial) simp_all
  finally show ?thesis by (simp add: windows_left_def algebra_simps)
qed

lemma admit_spends:
  assumes win: "0 < window" "t \<le> now" "now < T" and am: "0 < amount" "amount \<le> limit"
  shows "bucket_credit key limit window t T (snd (admit_amount key limit window amount now d))
      + (if fst (admit_amount key limit window amount now d) then nat amount else 0)
    \<le> bucket_credit key limit window t T d"
proof (cases "get_bucket d key")
  case None
  have "windows_left (seconds window) T (max now (t - seconds window)) \<le> windows_left (seconds window) T t"
    using win by (intro windows_left_mono) simp_all
  with None am show ?thesis
    by (simp add: admit_amount_def bucket_credit_def tget_tins) (simp add: nat_diff_distrib)
next
  case (Some b)
  show ?thesis
  proof (cases "window_expired now window b")
    case True
    then have "max (rb_window_started_at b) (t - seconds window) + seconds window \<le> now"
      using win by (simp add: window_expired_def max_def)
    then have "nat limit + nat limit * windows_left (seconds window) T now
        \<le> nat limit * windows_left (seconds window) T (max (rb_window_started_at b) (t - seconds window))"
      using win by (intro limit_opened) simp_all
    moreover have "max now (t - seconds window) = now"
      using win by (simp add: seconds_def)
    ultimately show ?thesis
      using Some True am tget_key [OF Some]
      by (simp add: admit_amount_def bucket_credit_def tget_tset counted_def nat_diff_distrib)
  next
    case False
    with Some am tget_key [OF Some] show ?thesis
      by (simp add: admit_amount_def bucket_credit_def tget_tset counted_def) arith
  qed
qed

lemma consume_spends:
  assumes "0 < window" "t \<le> now" "now < T" "0 < limit"
  shows "bucket_credit key limit window t T (snd (consume later key limit window message amount now d))
      + (if fst (consume later key limit window message amount now d) = Inr () then nat amount else 0)
    \<le> bucket_credit key limit window t T d"
  using admit_spends [OF assms(1-3), of amount limit key d] assms(4)
  by (auto simp: consume_def split: prod.split bool.split)

lemma credit_cong: "get_bucket d' key = get_bucket d key \<Longrightarrow>
    bucket_credit key limit window t T d' = bucket_credit key limit window t T d"
  by (simp add: bucket_credit_def)

lemma credit_start:
  assumes "buckets_ok d" "0 < window"
  shows "bucket_credit key limit window t (t + int n * seconds window) d \<le> Suc n * nat limit"
proof -
  let ?T = "t + int n * seconds window"
  have left: "nat limit * windows_left (seconds window) ?T s \<le> n * nat limit"
    if "t - seconds window \<le> s" for s
    using assms that unfolding mult.commute [of n]
    by (intro mult_le_mono2 order_trans [OF windows_left_mono windows_left_before]) simp_all
  show ?thesis
  proof (cases "get_bucket d key")
    case None
    moreover have "t - seconds window \<le> t"
      using assms(2) by (simp add: seconds_def)
    ultimately show ?thesis
      using left [of t] unfolding bucket_credit_def mult_Suc by (simp only: option.case) (rule add_left_mono, simp only:)
  next
    case (Some b)
    moreover have "nat (limit - rb_count b) \<le> nat limit"
      using assms Some by (auto simp: buckets_ok_def dest!: tget_mem)
    ultimately show ?thesis
      using left [of "max (rb_window_started_at b) (t - seconds window)"]
      unfolding bucket_credit_def mult_Suc by (simp only: option.case) (rule add_mono, simp_all only: max.cobounded2)
  qed
qed


section \<open>What a user is admitted\<close>

definition in_span :: "time \<Rightarrow> time \<Rightarrow> quota_call \<Rightarrow> bool" where
  "in_span t T x \<longleftrightarrow> t \<le> fst (snd x) \<and> fst (snd x) < T"

lemma cases_step_other:
  assumes "buckets_ok d" and "\<nexists>n. snd (snd x) = QCases user n"
  shows "get_bucket (quota_step st x d) (cases_key user) = get_bucket d (cases_key user)"
  using assms keys_differ by (cases "(st, x, d)" rule: quota_step.cases)
    (auto simp add: consume_defs consume_other cases_other failure_other success_other simp del: append_Cons)

lemma cases_admitted_other: "\<nexists>n. snd (snd x) = QCases user n \<Longrightarrow> cases_admitted st user x d = 0"
  by (cases "(st, user, x, d)" rule: cases_admitted.cases) auto

lemma cases_spent:
  assumes "buckets_ok d" "0 < max_evaluation_cases_per_day st" "in_span t T x"
  shows "bucket_credit (cases_key user) (max_evaluation_cases_per_day st) day_seconds t T (quota_step st x d)
      + cases_admitted st user x d
    \<le> bucket_credit (cases_key user) (max_evaluation_cases_per_day st) day_seconds t T d"
proof (cases "\<exists>n. snd (snd x) = QCases user n")
  case True
  then obtain later now n where x: "x = (later, now, QCases user n)"
    by (metis prod.collapse)
  have "0 < day_seconds" by (simp add: day_seconds_def)
  from consume_spends [OF this, where t = t and now = now and limit = "max_evaluation_cases_per_day st"
      and key = "cases_key user" and amount = n and d = d and later = later and T = T
      and message = "''Daily Judge evaluation Case quota exceeded.''"] assms x
  show ?thesis by (auto simp: in_span_def consume_evaluation_cases_def)
qed (simp add: cases_admitted_other credit_cong [OF cases_step_other [OF assms(1)]])

interpretation day_of_cases: weighted_credit "quota_step st" "cases_admitted st user"
  "bucket_credit (cases_key user) (max_evaluation_cases_per_day st) day_seconds t T" buckets_ok
  "\<lambda>x. 0 < max_evaluation_cases_per_day st \<and> in_span t T x"
  for st user t T
  by unfold_locales (auto intro: quota_step_ok cases_spent)

lemma request_step_other:
  assumes "buckets_ok d" and "snd (snd x) \<noteq> QRequest user"
  shows "get_bucket (quota_step st x d) (request_key user) = get_bucket d (request_key user)"
  using assms keys_differ by (cases "(st, x, d)" rule: quota_step.cases)
    (auto simp add: consume_defs consume_other cases_other failure_other success_other simp del: append_Cons)

lemma request_admitted_other: "snd (snd x) \<noteq> QRequest user \<Longrightarrow> request_admitted st user x d = 0"
  by (cases "(st, user, x, d)" rule: request_admitted.cases) auto

lemma request_spent:
  assumes "buckets_ok d" "0 < request_limit_per_minute st" "in_span t T x"
  shows "bucket_credit (request_key user) (request_limit_per_minute st) 60 t T (quota_step st x d)
      + request_admitted st user x d
    \<le> bucket_credit (request_key user) (request_limit_per_minute st) 60 t T d"
proof (cases "snd (snd x) = QRequest user")
  case True
  then obtain later now where x: "x = (later, now, QRequest user)"
    by (metis prod.collapse)
  from consume_spends [where window = 60 and t = t and now = now and limit = "request_limit_per_minute st"
      and key = "request_key user" and amount = 1 and d = d and later = later and T = T
      and message = "''Request rate limit exceeded.''"] assms x
  show ?thesis by (auto simp: in_span_def consume_request_def)
qed (simp add: request_admitted_other credit_cong [OF request_step_other [OF assms(1)]])

interpretation minute_of_requests: weighted_credit "quota_step st" "request_admitted st user"
  "bucket_credit (request_key user) (request_limit_per_minute st) 60 t T" buckets_ok
  "\<lambda>x. 0 < request_limit_per_minute st \<and> in_span t T x"
  for st user t T
  by unfold_locales (auto intro: quota_step_ok request_spent)

text \<open>C20. In any span of \<open>n\<close> windows (\<open>n\<close> days for Judge evaluation cases, \<open>n\<close> minutes for
  requests), however the operations of all users and the failed and successful logins are ordered
  and whatever the single clocks read inside the span, a user is admitted at most \<open>n + 1\<close> times the
  limit of one window: a fixed window can be used up once before the span's first full window.\<close>

theorem admitted_within_limits:
  assumes "buckets_ok d"
    and "0 < max_evaluation_cases_per_day st" and "0 < request_limit_per_minute st"
    and "list_all (in_span t (t + int n * days 1)) xs"
    and "list_all (in_span t (t + int n * minutes 1)) ys"
  shows "weight_sum (quota_step st) (cases_admitted st user) xs d
        \<le> Suc n * nat (max_evaluation_cases_per_day st)
    \<and> weight_sum (quota_step st) (request_admitted st user) ys d
        \<le> Suc n * nat (request_limit_per_minute st)"
proof
  have day: "seconds day_seconds = days 1" and minute: "seconds 60 = minutes 1"
    and pos: "0 < day_seconds"
    by (simp_all add: day_seconds_def days_def hours_def minutes_def)
  have "weight_sum (quota_step st) (cases_admitted st user) xs d \<le>
      bucket_credit (cases_key user) (max_evaluation_cases_per_day st) day_seconds t (t + int n * days 1) d"
    by (rule day_of_cases.weight_within) (use assms in \<open>auto simp: list_all_iff\<close>)
  also have "\<dots> \<le> Suc n * nat (max_evaluation_cases_per_day st)"
    using credit_start [OF assms(1), of day_seconds _ _ t n] pos unfolding day by blast
  finally show "weight_sum (quota_step st) (cases_admitted st user) xs d
      \<le> Suc n * nat (max_evaluation_cases_per_day st)" .
  have "weight_sum (quota_step st) (request_admitted st user) ys d \<le>
      bucket_credit (request_key user) (request_limit_per_minute st) 60 t (t + int n * minutes 1) d"
    by (rule minute_of_requests.weight_within) (use assms in \<open>auto simp: list_all_iff\<close>)
  also have "\<dots> \<le> Suc n * nat (request_limit_per_minute st)"
    using credit_start [OF assms(1), of 60 _ _ t n] unfolding minute by simp
  finally show "weight_sum (quota_step st) (request_admitted st user) ys d
      \<le> Suc n * nat (request_limit_per_minute st)" .
qed

theorem admitted_within_limits_witness:
  "weight_sum (quota_step default_quotas) (cases_admitted default_quotas ''u'')
      [(id, 5, QCases ''u'' 600), (id, 6, QCases ''u'' 600), (id, 7, QCases ''v'' 900), (id, 4, QCases ''u'' 400)]
      \<lparr>rate_buckets = [], character_owners = [], scenario_owners = [], pack_owners = [],
       run_snapshots = [], trial_rows = [], matrix_rows = []\<rparr> \<le> 2 * 1000"
  using admitted_within_limits [of "\<lparr>rate_buckets = [], character_owners = [], scenario_owners = [],
      pack_owners = [], run_snapshots = [], trial_rows = [], matrix_rows = []\<rparr>" default_quotas 0 1
      "[(id, 5, QCases ''u'' 600), (id, 6, QCases ''u'' 600), (id, 7, QCases ''v'' 900), (id, 4, QCases ''u'' 400)]"
      "[]" "''u''"]
  by (simp add: buckets_ok_def default_quotas_def in_span_def days_def hours_def minutes_def seconds_def)

section \<open>Wrong passwords\<close>

text \<open>
  An attacker's tries for one identity. A try is two transactions with the verification of the password
  between them: the check, and, as the password is wrong, the record of the failure. The steps of
  several tries come in any order; at most \<open>m\<close> tries are under way at once (\<open>p\<close> of them now), and a try
  that finds no place is not started. What is counted is the tries that the check admits.
\<close>

datatype guess_step = GuessChecked | GuessFailed

fun wrong_guesses ::
  "quota_settings \<Rightarrow> string \<Rightarrow> nat \<Rightarrow> nat \<Rightarrow> (time \<times> guess_step) list \<Rightarrow> quota_db \<Rightarrow> nat" where
  "wrong_guesses st h m p [] d = 0"
| "wrong_guesses st h m p ((now, GuessChecked) # es) d =
     (if p < m \<and> check_login now h d = Inr () then Suc (wrong_guesses st h m (Suc p) es d)
      else wrong_guesses st h m p es d)"
| "wrong_guesses st h m p ((now, GuessFailed) # es) d =
     (if p = 0 then wrong_guesses st h m p es d
      else wrong_guesses st h m (p - 1) es (record_login_failure st now h d))"

definition lockout_width :: "quota_settings \<Rightarrow> time" where
  "lockout_width st = min (seconds (login_failure_window_seconds st)) (seconds (login_block_seconds st))"

text \<open>What one failure window admits, and what the current one can still admit.\<close>

definition window_guesses :: "quota_settings \<Rightarrow> nat \<Rightarrow> int" where
  "window_guesses st m = login_failure_limit st + int m - 1"

definition guess_slack :: "quota_settings \<Rightarrow> string \<Rightarrow> nat \<Rightarrow> nat \<Rightarrow> quota_db \<Rightarrow> int" where
  "guess_slack st h m p d = window_guesses st m - int p
     - (case get_bucket d (login_key h) of None \<Rightarrow> 0 | Some b \<Rightarrow> rb_count b)"

text \<open>
  The bucket of the identity: it was opened in the span, it blocks as soon as the failures reach the
  limit, for as long as the settings say, and no more is under way than the window admits, unless the
  block is over, when the tries are those of the next window.
\<close>

definition lockout_ok :: "quota_settings \<Rightarrow> string \<Rightarrow> nat \<Rightarrow> time \<Rightarrow> time \<Rightarrow> nat \<Rightarrow> quota_db \<Rightarrow> bool" where
  "lockout_ok st h m t clock p d \<longleftrightarrow> p \<le> m \<and>
     (case get_bucket d (login_key h) of
        None \<Rightarrow> 0 \<le> guess_slack st h m p d
      | Some b \<Rightarrow> t \<le> rb_window_started_at b \<and> rb_window_started_at b \<le> clock \<and> rb_count b \<le> window_guesses st m
          \<and> (case rb_blocked_until b of
               None \<Rightarrow> rb_count b < login_failure_limit st \<and> 0 \<le> guess_slack st h m p d
             | Some e \<Rightarrow> rb_window_started_at b + seconds (login_block_seconds st) \<le> e
                 \<and> (0 \<le> guess_slack st h m p d \<or> e \<le> clock)))"

definition guess_credit :: "quota_settings \<Rightarrow> string \<Rightarrow> nat \<Rightarrow> time \<Rightarrow> time \<Rightarrow> nat \<Rightarrow> quota_db \<Rightarrow> int" where
  "guess_credit st h m t T p d = guess_slack st h m p d
     + window_guesses st m * int (windows_left (lockout_width st) T
         (case get_bucket d (login_key h) of None \<Rightarrow> t | Some b \<Rightarrow> rb_window_started_at b))"

lemma failure_bucket:
  "get_bucket (record_login_failure st now h d) (login_key h) =
    Some (case get_bucket d (login_key h) of
        None \<Rightarrow> \<lparr>rb_key = login_key h, rb_window_started_at = now, rb_count = 1,
          rb_blocked_until = block_end st now 1, rb_updated_at = now\<rparr>
      | Some b \<Rightarrow> failed_again st now b)"
  by (auto simp: record_login_failure_def Let_def tget_tins tget_tset dest: tget_key split: option.split)

lemma check_passes:
  "check_login now h d = Inr () \<Longrightarrow> get_bucket d (login_key h) = Some b \<Longrightarrow> rb_blocked_until b = Some e
    \<Longrightarrow> e \<le> now"
  by (auto simp: check_login_def split: option.splits if_splits)

lemma lockout_waits: "lockout_ok st h m t clock p d \<Longrightarrow> clock \<le> now \<Longrightarrow> lockout_ok st h m t now p d"
  by (auto simp: lockout_ok_def split: option.splits)

lemma lockout_checked:
  assumes "lockout_ok st h m t clock p d" "clock \<le> now" "p < m" "check_login now h d = Inr ()"
    "0 < login_failure_limit st"
  shows "lockout_ok st h m t now (Suc p) d"
  using assms check_passes [OF assms(4)]
  by (auto simp: lockout_ok_def guess_slack_def window_guesses_def split: option.splits)

text \<open>A failure either counts in the open window, or opens the next one a lockout period later.\<close>

lemma expired_width:
  assumes "lockout_ok st h m t clock p d" "get_bucket d (login_key h) = Some b" "login_expired st now b"
  shows "rb_window_started_at b + lockout_width st \<le> now"
  using assms
  by (auto simp: lockout_ok_def login_expired_def window_expired_def lockout_width_def min_def seconds_def
      split: option.splits)

lemma lockout_failed:
  assumes "lockout_ok st h m t clock p d" "clock \<le> now" "t \<le> now" "p \<noteq> 0" "0 < login_failure_limit st"
  shows "lockout_ok st h m t now (p - 1) (record_login_failure st now h d)"
  using assms
  by (auto simp: lockout_ok_def failure_bucket failed_again_def next_failures_def block_end_def
      guess_slack_def window_guesses_def login_expired_def split: option.splits if_splits)

lemma windows_credit:
  assumes "0 \<le> K" "0 < width" "a + width \<le> now" "now < T"
  shows "K + K * int (windows_left width T now) \<le> K * int (windows_left width T a)"
  using mult_left_mono [OF _ assms(1), of "int (Suc (windows_left width T now))" "int (windows_left width T a)"]
    window_opened [OF assms(2-4)] by (simp add: algebra_simps)

lemma failed_credit:
  assumes ok: "lockout_ok st h m t clock p d" "p \<noteq> 0"
    and span: "0 < lockout_width st" "t \<le> now" "now < T" "0 < login_failure_limit st"
  shows "guess_credit st h m t T (p - 1) (record_login_failure st now h d) \<le> guess_credit st h m t T p d"
proof (cases "get_bucket d (login_key h)")
  case None
  moreover have "window_guesses st m * int (windows_left (lockout_width st) T now)
      \<le> window_guesses st m * int (windows_left (lockout_width st) T t)"
    using span by (intro mult_left_mono) (simp_all add: window_guesses_def windows_left_mono)
  ultimately show ?thesis
    using ok(2) by (simp add: guess_credit_def guess_slack_def failure_bucket)
next
  case (Some b)
  show ?thesis
  proof (cases "login_expired st now b")
    case True
    have "0 \<le> window_guesses st m" "rb_count b \<le> window_guesses st m"
      using span ok(1) Some by (simp_all add: window_guesses_def lockout_ok_def)
    with windows_credit [OF _ span(1) expired_width [OF ok(1) Some True] span(3), of "window_guesses st m"]
    show ?thesis
      using Some True ok(2)
      by (simp add: guess_credit_def guess_slack_def failure_bucket failed_again_def next_failures_def)
  next
    case False
    with Some ok(2) show ?thesis
      by (simp add: guess_credit_def guess_slack_def failure_bucket failed_again_def next_failures_def)
  qed
qed

lemma credit_left:
  assumes "lockout_ok st h m t clock p d" "clock < T" "0 < lockout_width st" "0 < login_failure_limit st"
  shows "0 \<le> guess_credit st h m t T p d"
proof (cases "0 \<le> guess_slack st h m p d")
  case True
  then show ?thesis
    using assms(4) by (simp add: guess_credit_def window_guesses_def)
next
  case False
  then obtain b e where b: "get_bucket d (login_key h) = Some b" "e \<le> clock"
      "rb_window_started_at b + seconds (login_block_seconds st) \<le> e" "rb_count b \<le> window_guesses st m" "p \<le> m"
    using assms(1) by (auto simp: lockout_ok_def split: option.splits)
  moreover have "lockout_width st \<le> seconds (login_block_seconds st)"
    by (simp add: lockout_width_def)
  ultimately have "rb_window_started_at b + lockout_width st \<le> clock"
    by linarith
  then have "1 \<le> windows_left (lockout_width st) T (rb_window_started_at b)"
    using window_opened [OF assms(3) _ assms(2)] by fastforce
  then have "window_guesses st m * 1 \<le> window_guesses st m * int (windows_left (lockout_width st) T (rb_window_started_at b))"
    using assms(4) by (intro mult_left_mono) (simp_all add: window_guesses_def)
  moreover have "int p + rb_count b \<le> window_guesses st m + window_guesses st m"
    using b assms(4) by (simp add: window_guesses_def)
  ultimately show ?thesis
    using b(1) by (simp add: guess_credit_def guess_slack_def)
qed

lemma guesses_within_credit:
  assumes "0 < lockout_width st" "0 < login_failure_limit st"
  shows "lockout_ok st h m t clock p d \<Longrightarrow> sorted (clock # map fst es) \<Longrightarrow> clock < T
    \<Longrightarrow> \<forall>e \<in> set es. t \<le> fst e \<and> fst e < T
    \<Longrightarrow> int (wrong_guesses st h m p es d) \<le> guess_credit st h m t T p d"
proof (induction es arbitrary: clock p d)
  case Nil
  with credit_left [OF Nil(1,3) assms] show ?case by simp
next
  case (Cons e es)
  obtain now x where e: "e = (now, x)" by (cases e)
  with Cons.prems have now: "clock \<le> now" "t \<le> now" "now < T" "sorted (now # map fst es)"
      "\<forall>e \<in> set es. t \<le> fst e \<and> fst e < T" by auto
  note waits = lockout_waits [OF Cons.prems(1) now(1)]
  show ?case
  proof (cases x)
    case GuessChecked
    show ?thesis
    proof (cases "p < m \<and> check_login now h d = Inr ()")
      case True
      have "int (wrong_guesses st h m (Suc p) es d) \<le> guess_credit st h m t T (Suc p) d"
        using True lockout_checked [OF Cons.prems(1) now(1)] assms now(3-5) by (intro Cons.IH) simp_all
      with True show ?thesis by (simp add: e GuessChecked guess_credit_def guess_slack_def)
    qed (use Cons.IH [OF waits] now in \<open>auto simp: e GuessChecked\<close>)
  next
    case GuessFailed
    show ?thesis
    proof (cases "p = 0")
      case False
      have "int (wrong_guesses st h m (p - 1) es (record_login_failure st now h d))
          \<le> guess_credit st h m t T (p - 1) (record_login_failure st now h d)"
        using False lockout_failed [OF Cons.prems(1) now(1,2)] assms now(3-5) by (intro Cons.IH) simp_all
      with False failed_credit [OF Cons.prems(1) False assms(1) now(2,3) assms(2)] show ?thesis
        by (simp add: e GuessFailed)
    qed (use Cons.IH [OF waits] now in \<open>auto simp: e GuessFailed\<close>)
  qed
qed

text \<open>C19. How many wrong passwords are tried against an identity. Let at most \<open>m\<close> login attempts for it be
  under way at once, from the check to the record of the failure, which are transactions of their own and
  interleave in any order. Then within \<open>n\<close> lockout periods (the shorter of the failure window and the
  block), from a state without failures on record, the check admits at most \<open>n\<close> times \<open>limit + m - 1\<close>
  of them, whatever their timing: the limit where attempts are made one after the other. The clocks of
  the steps do not run backwards, every admitted attempt is a wrong password whose failure is recorded
  before its place is free, and no login of the identity succeeds meanwhile (a success clears the
  failures).\<close>

theorem password_guesses_bounded:
  assumes "get_bucket d (login_key h) = None" and "sorted (map fst es)"
    and "\<forall>e \<in> set es. t \<le> fst e \<and> fst e < t + int n * lockout_width st"
    and "0 < lockout_width st" and "0 < login_failure_limit st"
  shows "int (wrong_guesses st h m 0 es d) \<le> int n * (login_failure_limit st + int m - 1)"
proof (cases "es = []")
  case True
  with assms(5) show ?thesis by simp
next
  case False
  then have T: "t < t + int n * lockout_width st"
    using assms(3) by (cases es) fastforce+
  then obtain k where n: "n = Suc k"
    by (cases n) simp_all
  have "int (wrong_guesses st h m 0 es d) \<le> guess_credit st h m t (t + int n * lockout_width st) 0 d"
    using assms T by (intro guesses_within_credit [where clock = t])
      (auto simp: lockout_ok_def guess_slack_def window_guesses_def)
  also have "\<dots> = window_guesses st m
      + window_guesses st m * int (windows_left (lockout_width st) (t + int n * lockout_width st) t)"
    by (simp add: guess_credit_def guess_slack_def assms(1))
  also have "\<dots> \<le> window_guesses st m + window_guesses st m * int k"
    using windows_left_before [OF assms(4), of "t + lockout_width st" k] n assms(5)
    by (intro add_left_mono mult_left_mono) (simp_all add: algebra_simps window_guesses_def)
  finally show ?thesis by (simp add: n window_guesses_def algebra_simps)
qed

theorem password_guesses_bounded_witness:
  "int (wrong_guesses default_quotas ''h'' 2 0
      [(0, GuessChecked), (1, GuessChecked), (2, GuessFailed), (3, GuessFailed), (4, GuessChecked), (899999999, GuessFailed)]
      \<lparr>rate_buckets = [], character_owners = [], scenario_owners = [], pack_owners = [],
       run_snapshots = [], trial_rows = [], matrix_rows = []\<rparr>) \<le> int 1 * (5 + int 2 - 1)"
  using password_guesses_bounded [of "\<lparr>rate_buckets = [], character_owners = [], scenario_owners = [],
      pack_owners = [], run_snapshots = [], trial_rows = [], matrix_rows = []\<rparr>" "''h''"
      "[(0, GuessChecked), (1, GuessChecked), (2, GuessFailed), (3, GuessFailed), (4, GuessChecked), (899999999, GuessFailed)]"
      0 1 default_quotas 2]
  by (simp add: default_quotas_def lockout_width_def seconds_def)

text \<open>
  The extra \<open>m - 1\<close> tries are real, and a block can end early: a failure that is recorded by a try admitted
  before the block, once the failure window has passed, opens a window and with it ends the block. Here
  the fifth failure blocks until 899 + 900 seconds, and a slow sixth one clears it at 900 seconds.
\<close>

lemma stale_failure_ends_block:
  "let st = default_quotas; h = ''h'';
       d0 = \<lparr>rate_buckets = [], character_owners = [], scenario_owners = [], pack_owners = [],
             run_snapshots = [], trial_rows = [], matrix_rows = []\<rparr>;
       d4 = fold (\<lambda>t. record_login_failure st (seconds t) h) [0, 1, 2, 3] d0;
       d5 = record_login_failure st (seconds 899) h d4;
       d6 = record_login_failure st (seconds 900) h d5
   in check_login (seconds 898) h d4 = Inr ()
      \<and> check_login (seconds 900) h d5 \<noteq> Inr () \<and> check_login (seconds 900) h d6 = Inr ()"
  by code_simp

section \<open>Workspace quotas\<close>

lemma enforce_create_iff:
  "enforce_create st owner kind n d = Inr () \<longleftrightarrow>
     kind_count owner d kind + n \<le> kind_limit st kind
     \<and> workspace_count owner d + n \<le> max_workspace_records_per_user st"
  by (auto simp: enforce_create_def)

lemma enforce_each_iff:
  "enforce_each st owner items d = Inr () \<longleftrightarrow>
     (\<forall>(kind, n) \<in> set items. n \<noteq> 0 \<longrightarrow> enforce_create st owner kind n d = Inr ())"
  by (induction st owner items d rule: enforce_each.induct) (auto split: sum.split)

lemma import_kinds_cover: "(kind, incoming kind) \<in> set (import_kinds incoming)"
  by (cases kind) (simp_all add: import_kinds_def)

text \<open>The database after an import of so many records of each kind.\<close>

definition imported :: "string \<Rightarrow> (resource_kind \<Rightarrow> int) \<Rightarrow> quota_db \<Rightarrow> quota_db \<Rightarrow> bool" where
  "imported owner incoming d d' \<longleftrightarrow>
     (\<forall>kind. kind_count owner d' kind = kind_count owner d kind + incoming kind)"

lemma import_within_quotas:
  assumes "enforce_import st owner incoming d = Inr ()" "imported owner incoming d d'"
    and "\<forall>kind. kind_count owner d kind \<le> kind_limit st kind"
  shows "(\<forall>kind. kind_count owner d' kind \<le> kind_limit st kind)
    \<and> workspace_count owner d' \<le> max_workspace_records_per_user st"
proof (intro conjI allI)
  fix kind
  have each: "enforce_each st owner (import_kinds incoming) d = Inr ()"
    using assms(1) by (auto simp: enforce_import_def split: sum.splits)
  show "kind_count owner d' kind \<le> kind_limit st kind"
  proof (cases "incoming kind = 0")
    case True
    with assms show ?thesis by (simp add: imported_def)
  next
    case False
    with each import_kinds_cover [of kind incoming] have "enforce_create st owner kind (incoming kind) d = Inr ()"
      unfolding enforce_each_iff by blast
    with assms(2) show ?thesis by (simp add: imported_def enforce_create_iff)
  qed
next
  show "workspace_count owner d' \<le> max_workspace_records_per_user st"
  proof -
    have "sum_list (map snd (import_kinds incoming)) + workspace_count owner d \<le> max_workspace_records_per_user st"
      using assms(1) by (auto simp: enforce_import_def split: sum.splits if_splits)
    moreover have "workspace_count owner d' = workspace_count owner d + sum_list (map snd (import_kinds incoming))"
      using assms(2) by (simp add: imported_def workspace_count_def import_kinds_def del: kind_count.simps)
    ultimately show ?thesis by simp
  qed
qed


end
