(* ===== verification/Redaction.thy ===== *)
theory Redaction
  imports Json
begin

text \<open>
  What the ordinary records may keep: the redaction of credentials (\<open>security/redact.py\<close>) and the
  removal of content from operational events (\<open>discord_event_safety.py\<close>), with the property that
  nothing of either is left at any depth, also not in JSON held as text.

  The rewriting of URLs inside a text, and the reading and writing of JSON text inside a value, are
  arguments.
\<close>

section \<open>Texts\<close>

text \<open>\<open>str.lower\<close> and \<open>str.casefold\<close> on the first 256 code points (of them, the micro sign leaves
  the range and is kept).\<close>

definition lower_latin :: "char \<Rightarrow> char" where
  "lower_latin c =
     (let n = of_char c :: nat in
      if (65 \<le> n \<and> n \<le> 90) \<or> (192 \<le> n \<and> n \<le> 222 \<and> n \<noteq> 215) then char_of (n + 32) else c)"

definition lower_text :: "string \<Rightarrow> string" where
  "lower_text = map lower_latin"

definition casefold :: "string \<Rightarrow> string" where
  "casefold s = concat (map (\<lambda>c. if c = CHR 0xDF then ''ss'' else [lower_latin c]) s)"

definition ends_with :: "string \<Rightarrow> string \<Rightarrow> bool" where
  "ends_with s suffix \<longleftrightarrow> length suffix \<le> length s \<and> drop (length s - length suffix) s = suffix"

definition replace_char :: "char \<Rightarrow> char \<Rightarrow> string \<Rightarrow> string" where
  "replace_char a b = map (\<lambda>c. if c = a then b else c)"

section \<open>Credentials\<close>

definition sensitive_keys :: "string list" where
  "sensitive_keys =
     [''authorization'', ''proxy-authorization'', ''api_key'', ''apikey'', ''access_token'',
      ''refresh_token'', ''token'', ''secret'', ''password'', ''credential'', ''cookie'', ''set-cookie'']"

definition token_usage_keys :: "string list" where
  "token_usage_keys =
     [''cached_token_count'', ''input_tokens'', ''input_token_count'', ''output_tokens'',
      ''output_token_count'', ''total_tokens'', ''total_token_count'', ''cached_tokens'',
      ''reasoning_tokens'', ''reasoning_token_count'', ''token_count'']"

definition sensitive_suffixes :: "string list" where
  "sensitive_suffixes = [''_api_key'', ''_secret'', ''_password'', ''_credential'', ''_token'']"

definition is_sensitive_key :: "string \<Rightarrow> bool" where
  "is_sensitive_key key \<longleftrightarrow>
     (let normalized = replace_char (CHR ''-'') (CHR ''_'') (lower_text (strip key));
          keys = map (replace_char (CHR ''-'') (CHR ''_'')) sensitive_keys;
          compact = (\<lambda>s. filter (\<lambda>c. c \<noteq> CHR ''_'') s) in
      normalized \<notin> set token_usage_keys
      \<and> (normalized \<in> set keys \<or> compact normalized \<in> set (map compact keys)
         \<or> list_ex (ends_with normalized) sensitive_suffixes))"

definition redacted :: json where
  "redacted = JStr ''[REDACTED]''"

definition structured_key :: "string option \<Rightarrow> bool" where
  "structured_key key =
     (case key of
        None \<Rightarrow> False
      | Some k \<Rightarrow> ends_with (casefold (strip k)) ''_json'' \<or> casefold (strip k) = ''response_body'')"

text \<open>A JSON text is longer than the texts and the nesting of the value it decodes to: the guard of
  the recursion below is true of every text that a JSON reader accepts.\<close>

fun json_weight :: "json \<Rightarrow> nat" where
  "json_weight (JStr s) = Suc (length s)"
| "json_weight (JArr xs) = Suc (sum_list (map json_weight xs))"
| "json_weight (JObj d) = Suc (sum_list (map (\<lambda>kv. json_weight (snd kv)) d))"
| "json_weight _ = 1"

record redactor =
  rd_decode :: "string \<Rightarrow> json option"
  rd_encode :: "json \<Rightarrow> string"
  rd_urls :: "string \<Rightarrow> string"

lemma weight_member:
  "x \<in> set xs \<Longrightarrow> json_weight x < json_weight (JArr xs)"
  "kv \<in> set d \<Longrightarrow> json_weight (snd kv) < json_weight (JObj d)"
  by (auto simp: less_Suc_eq_le intro: member_le_sum_list)

lemma weight_entry: "(k, v) \<in> set d \<Longrightarrow> json_weight v < json_weight (JObj d)"
  using weight_member(2) by fastforce

function (sequential) redact_value :: "redactor \<Rightarrow> string option \<Rightarrow> json \<Rightarrow> json" where
  "redact_value rd key (JObj d) =
     JObj (map (\<lambda>(k, v). (k, if is_sensitive_key k then redacted else redact_value rd (Some k) v)) d)"
| "redact_value rd key (JArr xs) = JArr (map (redact_value rd None) xs)"
| "redact_value rd key (JStr s) =
     (if structured_key key then
        (case rd_decode rd s of
           None \<Rightarrow> JStr (rd_urls rd s)
         | Some v \<Rightarrow>
             if json_weight v \<le> length s then JStr (rd_encode rd (redact_value rd None v))
             else JStr (rd_urls rd s))
      else JStr (rd_urls rd s))"
| "redact_value rd key v = v"
  by pat_completeness auto
termination
  by (relation "measure (\<lambda>(rd, key, v). json_weight v)")
    (auto dest: weight_entry weight_member simp del: json_weight.simps(2,3))

definition redact :: "redactor \<Rightarrow> json \<Rightarrow> json" where
  "redact rd v = redact_value rd None v"

section \<open>Content\<close>

definition content_tokens :: "string list" where
  "content_tokens =
     [''answer'', ''body'', ''completion'', ''content'', ''description'', ''detail'', ''error'', ''input'',
      ''message'', ''messages'', ''output'', ''payload'', ''preview'', ''prompt'', ''query'', ''raw'',
      ''request'', ''response'', ''text'', ''transcript'']"

definition safe_suffixes :: "string list" where
  "safe_suffixes = [''_code'', ''_id'', ''_kind'', ''_mode'', ''_reason'', ''_source'', ''_status'', ''_type'']"

definition small_or_digit :: "char \<Rightarrow> bool" where
  "small_or_digit c \<longleftrightarrow> of_char c \<in> {97..122::nat} \<or> of_char c \<in> {48..57::nat}"

definition capital :: "char \<Rightarrow> bool" where
  "capital c \<longleftrightarrow> of_char c \<in> {65..90::nat}"

fun split_camel :: "string \<Rightarrow> string" where
  "split_camel (a # b # s) =
     (if small_or_digit a \<and> capital b then a # CHR ''_'' # split_camel (b # s) else a # split_camel (b # s))"
| "split_camel s = s"

definition normalized_key :: "string \<Rightarrow> string" where
  "normalized_key key =
     replace_char (CHR '' '') (CHR ''_'') (replace_char (CHR ''-'') (CHR ''_'') (casefold (split_camel key)))"

definition content_bearing :: "string \<Rightarrow> bool" where
  "content_bearing key \<longleftrightarrow>
     list_ex (\<lambda>w. w \<in> set content_tokens) (split_by (\<lambda>c. c = CHR ''_'') (normalized_key key))"

definition structured_string :: "string \<Rightarrow> bool" where
  "structured_string key \<longleftrightarrow> list_ex (ends_with (normalized_key key)) safe_suffixes"

fun holds_text :: "json \<Rightarrow> bool" where
  "holds_text (JStr s) = True"
| "holds_text (JArr xs) = True"
| "holds_text (JObj d) = True"
| "holds_text _ = False"

definition withheld :: "string \<Rightarrow> json \<Rightarrow> bool" where
  "withheld key v \<longleftrightarrow> content_bearing key \<and> holds_text v \<and> \<not> structured_string key"

function (sequential) sanitize_details :: "json \<Rightarrow> json" where
  "sanitize_details (JObj d) =
     JObj (map (\<lambda>(k, v). (k, sanitize_details v)) (filter (\<lambda>(k, v). \<not> withheld k v) d))"
| "sanitize_details (JArr xs) = JArr (map sanitize_details xs)"
| "sanitize_details v = v"
  by pat_completeness auto
termination
  by (relation "measure json_weight") (auto dest: weight_entry weight_member simp del: json_weight.simps(2,3))

text \<open>\<open>safe_discord_event_details\<close>, of a decoded object or of the text of one.\<close>

definition details_of :: "redactor \<Rightarrow> json \<Rightarrow> (string \<times> json) list" where
  "details_of rd value =
     (let decoded = (case value of
                       JStr s \<Rightarrow> (case rd_decode rd s of Some v \<Rightarrow> v | None \<Rightarrow> JObj [])
                     | v \<Rightarrow> v) in
      case decoded of JObj d \<Rightarrow> d | _ \<Rightarrow> [])"

definition safe_details :: "redactor \<Rightarrow> json \<Rightarrow> (string \<times> json) list" where
  "safe_details rd value =
     (case redact rd (sanitize_details (JObj (details_of rd value))) of JObj d \<Rightarrow> d | _ \<Rightarrow> [])"

section \<open>Nothing is left\<close>

text \<open>
  A value without credentials: behind a sensitive key is only the mark, and that holds in arrays, in
  objects and in the JSON that a structured text encodes. Any other text is one whose URLs were
  rewritten; a structured one of them is no JSON text.
\<close>

inductive hides :: "redactor \<Rightarrow> string option \<Rightarrow> json \<Rightarrow> bool" for rd :: redactor where
  hides_object: "\<forall>(k, v) \<in> set d. (is_sensitive_key k \<and> v = redacted) \<or> (\<not> is_sensitive_key k \<and> hides rd (Some k) v)
    \<Longrightarrow> hides rd key (JObj d)"
| hides_array: "\<forall>v \<in> set xs. hides rd None v \<Longrightarrow> hides rd key (JArr xs)"
| hides_structured: "structured_key key \<Longrightarrow> hides rd None v \<Longrightarrow> hides rd key (JStr (rd_encode rd v))"
| hides_text: "\<not> structured_key key \<or> rd_decode rd s = None \<Longrightarrow> hides rd key (JStr (rd_urls rd s))"
| hides_null: "hides rd key JNull"
| hides_bool: "hides rd key (JBool b)"
| hides_int: "hides rd key (JInt n)"

inductive_simps hides_iff [simp]:
  "hides rd key (JObj d)" "hides rd key (JArr xs)" "hides rd key JNull" "hides rd key (JBool b)"
  "hides rd key (JInt n)"

text \<open>A value without content: whatever a content-bearing key still holds is the mark.\<close>

function (sequential) content_free :: "json \<Rightarrow> bool" where
  "content_free (JObj d) \<longleftrightarrow> (\<forall>(k, v) \<in> set d. (withheld k v \<longrightarrow> v = redacted) \<and> content_free v)"
| "content_free (JArr xs) \<longleftrightarrow> (\<forall>v \<in> set xs. content_free v)"
| "content_free v \<longleftrightarrow> True"
  by pat_completeness auto
termination
  by (relation "measure json_weight") (auto dest: weight_entry weight_member simp del: json_weight.simps(2,3))

text \<open>What a JSON reader does: a text is at least as long as the value it decodes to is heavy.\<close>

definition reads_json :: "redactor \<Rightarrow> bool" where
  "reads_json rd \<longleftrightarrow> (\<forall>s v. rd_decode rd s = Some v \<longrightarrow> json_weight v \<le> length s)"

lemma redact_hides: "reads_json rd \<Longrightarrow> hides rd key (redact_value rd key v)"
proof (induction rd key v rule: redact_value.induct)
  case (1 rd key d)
  have "hides rd (Some k) (redact_value rd (Some k) v)" if "(k, v) \<in> set d" "\<not> is_sensitive_key k" for k v
    using 1(1) [OF that(1) refl that(2) 1(2)] .
  then show ?case by (auto split: if_splits)
next
  case (3 rd key s)
  show ?case
  proof (cases "structured_key key \<and> (\<exists>v. rd_decode rd s = Some v)")
    case True
    then obtain v where v: "rd_decode rd s = Some v" "json_weight v \<le> length s"
      using 3(2) by (auto simp: reads_json_def)
    with True 3 show ?thesis by (auto intro: hides_structured)
  next
    case False
    then show ?thesis by (auto intro!: hides_text split: option.split)
  qed
qed auto

lemma holds_text_redact: "holds_text (redact_value rd key v) = holds_text v"
  by (cases "(rd, key, v)" rule: redact_value.cases) (auto split: option.split)

text \<open>After the removal nothing is withheld any more, and redaction keeps it so.\<close>

function (sequential) no_content :: "json \<Rightarrow> bool" where
  "no_content (JObj d) \<longleftrightarrow> (\<forall>(k, v) \<in> set d. \<not> withheld k v \<and> no_content v)"
| "no_content (JArr xs) \<longleftrightarrow> (\<forall>v \<in> set xs. no_content v)"
| "no_content v \<longleftrightarrow> True"
  by pat_completeness auto
termination
  by (relation "measure json_weight") (auto dest: weight_entry weight_member simp del: json_weight.simps(2,3))

lemma holds_text_sanitize: "holds_text (sanitize_details v) = holds_text v"
  by (cases v) simp_all

lemma sanitize_no_content: "no_content (sanitize_details v)"
proof (induction v rule: sanitize_details.induct)
  case (1 d)
  then show ?case by (fastforce simp: withheld_def holds_text_sanitize)
qed auto

lemma redact_content_free: "no_content v \<Longrightarrow> content_free (redact_value rd key v)"
proof (induction rd key v rule: redact_value.induct)
  case (1 rd key d)
  then show ?case by (fastforce simp: withheld_def holds_text_redact redacted_def)
qed (auto split: option.split)

lemma safe_details_object:
  "JObj (safe_details rd value) = redact rd (sanitize_details (JObj (details_of rd value)))"
  by (simp add: safe_details_def redact_def)

lemma event_details_hide:
  assumes "reads_json rd"
  shows "hides rd None (JObj (safe_details rd value)) \<and> content_free (JObj (safe_details rd value))"
  unfolding safe_details_object redact_def
  using redact_hides [OF assms] redact_content_free [OF sanitize_no_content] by blast

text \<open>Whatever details a connector reports with an event (an object, the text of one, or neither),
  what is stored hides every credential: at any depth, also inside JSON kept as text, a sensitive key
  holds only the mark; and it carries no content: a text, list or object under a content-bearing key
  survives only as that mark.\<close>

theorem event_details_private:
  assumes "reads_json rd"
  shows "hides rd None (JObj (safe_details rd value)) \<and> content_free (JObj (safe_details rd value))"
  using assms by (rule event_details_hide)

definition quoted :: "string \<Rightarrow> string" where
  "quoted s = CHR 0x22 # s @ [CHR 0x22]"

definition demo_token_text :: "string \<Rightarrow> string" where
  "demo_token_text s = ''{'' @ quoted ''token'' @ '':'' @ quoted s @ ''}''"

definition demo_redactor :: redactor where
  "demo_redactor =
     \<lparr>rd_decode = (\<lambda>s. if s = demo_token_text ''abc'' then Some (JObj [(''token'', JStr ''abc'')]) else None),
      rd_encode = (\<lambda>v. if v = JObj [(''token'', redacted)] then demo_token_text ''[REDACTED]'' else ''null''),
      rd_urls = id\<rparr>"

theorem event_details_private_witness:
  "let details = JObj [(''errorMessage'', JStr ''hello''), (''apiKey'', JStr ''k''),
                     (''retry_count'', JInt 2),
                     (''body_json'', JStr ''x''), (''state_json'', JStr (demo_token_text ''abc''))];
       stored = [(''apiKey'', redacted), (''retry_count'', JInt 2),
                 (''state_json'', JStr (demo_token_text ''[REDACTED]''))]
   in safe_details demo_redactor details = stored
      \<and> hides demo_redactor None (JObj stored) \<and> content_free (JObj stored)"
proof -
  let ?details = "JObj [(''errorMessage'', JStr ''hello''), (''apiKey'', JStr ''k''),
                     (''retry_count'', JInt 2),
                     (''body_json'', JStr ''x''), (''state_json'', JStr (demo_token_text ''abc''))]"
  have "safe_details demo_redactor ?details = [(''apiKey'', redacted), (''retry_count'', JInt 2),
      (''state_json'', JStr (demo_token_text ''[REDACTED]''))]"
    by code_simp
  moreover have "reads_json demo_redactor"
    by (simp add: reads_json_def demo_redactor_def demo_token_text_def quoted_def)
  ultimately show ?thesis
    using event_details_private [of demo_redactor ?details] by (simp add: Let_def)
qed


end
