(* ===== verification/Deployment_Store.thy ===== *)
theory Deployment_Store
  imports Deployments Stored_Lists Redaction
begin

text \<open>
  Platform connections, the servers they see, an owner's settings for a server and the deployment of
  Characters to destinations: \<open>DeploymentRepository\<close> of \<open>persistence/deployment_repository.py\<close>.

  A call is one step, except \<open>claim_server_profile\<close>, whose argument \<open>others\<close> is what other sessions
  commit between its reads and its insert. \<open>uid\<close> is the identifier a call draws, \<open>now\<close> its clock;
  a flush applies \<open>onupdate\<close> to a row that changed.
\<close>

section \<open>Tables\<close>

record deploy_db =
  connections :: "platform_connection list"
  catalogs :: "server_catalog list"
  profiles :: "server_profile list"
  deployments :: "character_deployment list"
  scopes :: "deployment_scope list"
  connector_events :: "connector_event list"
  known_cards :: "character_card list"

interpretation connection_table: db_table connections connections_update pn_id
  by unfold_locales simp

interpretation catalog_table: db_table catalogs catalogs_update vc_id
  by unfold_locales simp

interpretation profile_table: db_table profiles profiles_update vp_id
  by unfold_locales simp

interpretation deployment_table: db_table deployments deployments_update cd_id
  by unfold_locales simp

interpretation scope_table: db_table scopes scopes_update dz_deployment_id
  by unfold_locales simp

interpretation event_table: db_table connector_events connector_events_update ce_id
  by unfold_locales simp

abbreviation get_connection_row :: "deploy_db \<Rightarrow> string \<Rightarrow> platform_connection option" where
  "get_connection_row d k \<equiv> tget pn_id (connections d) k"

abbreviation get_profile_row :: "deploy_db \<Rightarrow> string \<Rightarrow> server_profile option" where
  "get_profile_row d k \<equiv> tget vp_id (profiles d) k"

abbreviation get_deployment_row :: "deploy_db \<Rightarrow> string \<Rightarrow> character_deployment option" where
  "get_deployment_row d k \<equiv> tget cd_id (deployments d) k"

abbreviation get_scope_row :: "deploy_db \<Rightarrow> string \<Rightarrow> deployment_scope option" where
  "get_scope_row d k \<equiv> tget dz_deployment_id (scopes d) k"

text \<open>The unique constraints beside the primary keys.\<close>

definition profile_key :: "server_profile \<Rightarrow> string \<times> string \<times> string" where
  "profile_key p = (vp_owner_id p, vp_connection_id p, vp_guild_id p)"

definition target_key :: "character_deployment \<Rightarrow> string \<times> string \<times> string \<times> string \<times> string" where
  "target_key r = (cd_owner_id r, cd_connection_id r, cd_channel_id r, cd_thread_id r, cd_character_card_id r)"

definition catalog_key :: "server_catalog \<Rightarrow> string \<times> string" where
  "catalog_key c = (vc_connection_id c, vc_guild_id c)"

definition owned :: "('r \<Rightarrow> string) \<Rightarrow> string \<Rightarrow> 'r option \<Rightarrow> 'r option" where
  "owned owner_of owner r = (case r of None \<Rightarrow> None | Some x \<Rightarrow> if owner_of x = owner then Some x else None)"

definition given :: "'a option \<Rightarrow> 'a \<Rightarrow> 'a" where
  "given value old = (case value of None \<Rightarrow> old | Some v \<Rightarrow> v)"

section \<open>Connections\<close>

record connection_fields =
  cf_owner_id :: string
  cf_platform :: string
  cf_display_name :: string
  cf_connection_mode :: string
  cf_external_account_id :: string
  cf_status :: string
  cf_metadata :: "(string \<times> json) list"

definition stored_metadata :: "redactor \<Rightarrow> (string \<times> json) list \<Rightarrow> json_text" where
  "stored_metadata rd metadata = dumps (redact rd (JObj metadata))"

definition new_connection :: "redactor \<Rightarrow> time \<Rightarrow> string \<Rightarrow> connection_fields \<Rightarrow> platform_connection" where
  "new_connection rd now uid q =
     \<lparr>pn_id = uid, pn_owner_id = cf_owner_id q, pn_platform = cf_platform q,
      pn_display_name = cf_display_name q, pn_connection_mode = cf_connection_mode q,
      pn_external_account_id = cf_external_account_id q, pn_status = cf_status q,
      pn_metadata = stored_metadata rd (cf_metadata q), pn_last_seen_at = None,
      pn_created_at = now, pn_updated_at = now\<rparr>"

definition create_connection ::
  "redactor \<Rightarrow> time \<Rightarrow> string \<Rightarrow> connection_fields \<Rightarrow> deploy_db \<Rightarrow> (platform_connection, deploy_db) outcome" where
  "create_connection rd now uid q d =
     (let r = new_connection rd now uid q in
      if get_connection_row d uid \<noteq> None then (Inl IntegrityError, d)
      else (Inr r, d\<lparr>connections := tins r (connections d)\<rparr>))"

definition list_connections :: "string \<Rightarrow> deploy_db \<Rightarrow> platform_connection list" where
  "list_connections owner d =
     sort_key (\<lambda>r. (pn_platform r, - pn_created_at r)) (filter (\<lambda>r. pn_owner_id r = owner) (connections d))"

definition get_connection :: "string \<Rightarrow> string \<Rightarrow> deploy_db \<Rightarrow> platform_connection option" where
  "get_connection k owner d = owned pn_owner_id owner (get_connection_row d k)"

definition put_connection ::
  "time \<Rightarrow> string \<Rightarrow> (platform_connection \<Rightarrow> platform_connection) \<Rightarrow> deploy_db \<Rightarrow> deploy_db" where
  "put_connection now k f d =
     d\<lparr>connections := tset (\<lambda>r. pn_id r = k)
        (\<lambda>r. if f r = r then r else (f r)\<lparr>pn_updated_at := now\<rparr>) (connections d)\<rparr>"

record connection_changes =
  ch_display_name :: "string option"
  ch_connection_mode :: "string option"
  ch_external_account_id :: "string option"
  ch_conn_status :: "string option"
  ch_metadata :: "(string \<times> json) list option"

definition changed_connection :: "redactor \<Rightarrow> connection_changes \<Rightarrow> platform_connection \<Rightarrow> platform_connection" where
  "changed_connection rd c r =
     r\<lparr>pn_display_name := given (ch_display_name c) (pn_display_name r),
       pn_connection_mode := given (ch_connection_mode c) (pn_connection_mode r),
       pn_external_account_id := given (ch_external_account_id c) (pn_external_account_id r),
       pn_status := given (ch_conn_status c) (pn_status r),
       pn_metadata := (case ch_metadata c of None \<Rightarrow> pn_metadata r | Some m \<Rightarrow> stored_metadata rd m)\<rparr>"

definition update_connection ::
  "redactor \<Rightarrow> time \<Rightarrow> string \<Rightarrow> string \<Rightarrow> connection_changes \<Rightarrow> deploy_db
    \<Rightarrow> platform_connection option \<times> deploy_db" where
  "update_connection rd now k owner c d =
     (case get_connection k owner d of
        None \<Rightarrow> (None, d)
      | Some _ \<Rightarrow>
          (let d' = put_connection now k (changed_connection rd c) d in (get_connection_row d' k, d')))"

text \<open>The 34 values that a heartbeat copies to the metadata under their own names are \<open>hb_telemetry\<close>,
  in the order of the assignments.\<close>

record heartbeat =
  hb_platform :: string
  hb_external_account_id :: string
  hb_display_name :: string
  hb_status :: string
  hb_last_error :: string
  hb_telemetry :: "(string \<times> json) list"

definition heartbeat_metadata :: "heartbeat \<Rightarrow> json_text \<Rightarrow> (string \<times> json) list" where
  "heartbeat_metadata hb old =
     fold (\<lambda>(k, v). jput k v)
       ([(''last_error'', JStr (hb_last_error hb)),
         (''heartbeat_source'', JStr (hb_platform hb @ ''_connector'')),
         (''connector_display_name'', JStr (hb_display_name hb))] @ hb_telemetry hb)
       (case loads old of Some (JObj m) \<Rightarrow> m | _ \<Rightarrow> [])"

definition heartbeat_connection :: "redactor \<Rightarrow> time \<Rightarrow> string \<Rightarrow> heartbeat \<Rightarrow> deploy_db \<Rightarrow> bool \<times> deploy_db" where
  "heartbeat_connection rd now k hb d =
     (case get_connection_row d k of
        None \<Rightarrow> (False, d)
      | Some r \<Rightarrow>
          if pn_platform r \<noteq> hb_platform hb then (False, d)
          else
            (True,
             put_connection now k
               (\<lambda>r. r\<lparr>pn_external_account_id := hb_external_account_id hb, pn_status := hb_status hb,
                      pn_last_seen_at := Some now,
                      pn_metadata := stored_metadata rd (heartbeat_metadata hb (pn_metadata r))\<rparr>) d))"

definition delete_connection :: "string \<Rightarrow> string \<Rightarrow> deploy_db \<Rightarrow> bool \<times> deploy_db" where
  "delete_connection k owner d =
     (case get_connection k owner d of
        None \<Rightarrow> (False, d)
      | Some _ \<Rightarrow>
          (let gone = map cd_id (filter (\<lambda>r. cd_owner_id r = owner \<and> cd_connection_id r = k) (deployments d)) in
           (True,
            d\<lparr>scopes := tdel (\<lambda>s. dz_deployment_id s \<in> set gone) (scopes d),
              deployments := tdel (\<lambda>r. cd_owner_id r = owner \<and> cd_connection_id r = k) (deployments d),
              profiles := tdel (\<lambda>p. vp_owner_id p = owner \<and> vp_connection_id p = k) (profiles d),
              catalogs := tdel (\<lambda>c. vc_owner_id c = owner \<and> vc_connection_id c = k) (catalogs d),
              connector_events := tdel (\<lambda>e. ce_owner_id e = owner \<and> ce_connection_id e = k) (connector_events d),
              connections := tdel (\<lambda>r. pn_id r = k) (connections d)\<rparr>)))"

section \<open>Connector events\<close>

text \<open>A reported event; the occurrence is \<open>None\<close> when it is no \<open>datetime\<close>.\<close>

record event_item =
  ei_id :: string
  ei_level :: string
  ei_event_type :: string
  ei_guild_id :: string
  ei_guild_name :: string
  ei_channel_id :: string
  ei_channel_name :: string
  ei_thread_id :: string
  ei_thread_name :: string
  ei_source_message_id :: string
  ei_deployment_id :: string
  ei_character_name :: string
  ei_details :: json
  ei_occurred_at :: "time option"

definition operational_message :: string where
  "operational_message = ''Discord connector operational event.''"

definition event_cap :: nat where
  "event_cap = 5000"

definition stored_details :: "redactor \<Rightarrow> json \<Rightarrow> json_text" where
  "stored_details rd details =
     dumps (JObj (safe_details rd (case details of JObj m \<Rightarrow> JObj m | _ \<Rightarrow> JObj [])))"

definition new_event :: "redactor \<Rightarrow> time \<Rightarrow> platform_connection \<Rightarrow> event_item \<Rightarrow> time \<Rightarrow> connector_event" where
  "new_event rd now c e occurred =
     \<lparr>ce_id = ei_id e, ce_owner_id = pn_owner_id c, ce_connection_id = pn_id c,
      ce_level = take 16 (ei_level e), ce_event_type = take 80 (ei_event_type e),
      ce_message = operational_message, ce_guild_id = take 200 (ei_guild_id e),
      ce_guild_name = take 160 (ei_guild_name e), ce_channel_id = take 200 (ei_channel_id e),
      ce_channel_name = take 160 (ei_channel_name e), ce_thread_id = take 200 (ei_thread_id e),
      ce_thread_name = take 160 (ei_thread_name e),
      ce_source_message_id = take 200 (ei_source_message_id e),
      ce_deployment_id = take 64 (ei_deployment_id e),
      ce_character_name = take 160 (ei_character_name e),
      ce_details = stored_details rd (ei_details e), ce_occurred_at = occurred, ce_created_at = now\<rparr>"

text \<open>The loop over the events; an event whose identifier is stored already is skipped.\<close>

fun insert_events ::
  "redactor \<Rightarrow> time \<Rightarrow> platform_connection \<Rightarrow> event_item list \<Rightarrow> nat \<Rightarrow> connector_event list
    \<Rightarrow> error + nat \<times> connector_event list" where
  "insert_events rd now c [] n t = Inr (n, t)"
| "insert_events rd now c (e # es) n t =
     (if tget ce_id t (ei_id e) \<noteq> None then insert_events rd now c es n t
      else
        (case ei_occurred_at e of
           None \<Rightarrow> Inl (ValueError ''Discord event occurred_at must be a datetime.'')
         | Some occurred \<Rightarrow>
             insert_events rd now c es (Suc n) (tins (new_event rd now c e occurred) t)))"

text \<open>Newest first: the order of the events of a connection, and what is beyond the cap.\<close>

definition event_order :: "connector_event \<Rightarrow> time \<times> string" where
  "event_order e = (ce_occurred_at e, ce_id e)"

definition newest_events :: "connector_event list \<Rightarrow> connector_event list" where
  "newest_events es = rev (sort_key event_order es)"

definition overflowing :: "string \<Rightarrow> connector_event list \<Rightarrow> string list" where
  "overflowing k t = map ce_id (drop event_cap (newest_events (filter (\<lambda>e. ce_connection_id e = k) t)))"

definition requested_deployments :: "event_item list \<Rightarrow> string list" where
  "requested_deployments es = filter (\<lambda>s. s \<noteq> []) (map (\<lambda>e. strip (ei_deployment_id e)) es)"

definition record_discord_events ::
  "redactor \<Rightarrow> time \<Rightarrow> string \<Rightarrow> event_item list \<Rightarrow> deploy_db \<Rightarrow> (nat, deploy_db) outcome" where
  "record_discord_events rd now k es d =
     (case get_connection_row d k of
        None \<Rightarrow> (Inl (KeyError ''connection''), d)
      | Some c \<Rightarrow>
          if pn_platform c \<noteq> ''discord'' then (Inl (KeyError ''connection''), d)
          else if \<not> set (requested_deployments es)
                    \<subseteq> set (map cd_id (filter (\<lambda>r. cd_connection_id r = k) (deployments d)))
          then (Inl (ValueError ''One or more Discord event deployment IDs are invalid.''), d)
          else
            (case insert_events rd now c es 0 (connector_events d) of
               Inl e \<Rightarrow> (Inl e, d)
             | Inr (n, t) \<Rightarrow>
                 (Inr n, d\<lparr>connector_events := tdel (\<lambda>e. ce_id e \<in> set (overflowing k t)) t\<rparr>)))"

record event_filter =
  ef_connection_id :: "string option"
  ef_guild_id :: "string option"
  ef_level :: "string option"
  ef_event_type :: "string option"

definition asked :: "string option \<Rightarrow> string \<Rightarrow> bool" where
  "asked wanted value = (case wanted of None \<Rightarrow> True | Some w \<Rightarrow> value = w)"

definition page_count :: "int \<Rightarrow> nat \<Rightarrow> int" where
  "page_count per n = max 1 (- ((- int n) div per))"

definition safe_page :: "int \<Rightarrow> int \<Rightarrow> nat \<Rightarrow> int" where
  "safe_page page per n = min (max page 1) (page_count per n)"

definition page_of :: "int \<Rightarrow> int \<Rightarrow> 'r list \<Rightarrow> 'r list" where
  "page_of page per rows = take (nat per) (drop (nat ((page - 1) * per)) rows)"

definition list_discord_events ::
  "string \<Rightarrow> int \<Rightarrow> int \<Rightarrow> event_filter \<Rightarrow> deploy_db \<Rightarrow> connector_event list \<times> int \<times> nat \<times> int" where
  "list_discord_events owner page per q d =
     (let rows = filter (\<lambda>e. ce_owner_id e = owner \<and> asked (ef_connection_id q) (ce_connection_id e)
                   \<and> asked (ef_guild_id q) (ce_guild_id e) \<and> asked (ef_level q) (ce_level e)
                   \<and> asked (ef_event_type q) (ce_event_type e)) (connector_events d);
          shown = safe_page page per (length rows) in
      (page_of shown per (newest_events rows), shown, length rows, page_count per (length rows)))"

section \<open>The servers that a connection sees\<close>

record seen_server =
  ssv_guild_id :: string
  ssv_guild_name :: string
  ssv_channels :: json

definition new_catalog :: "time \<Rightarrow> string \<Rightarrow> platform_connection \<Rightarrow> seen_server \<Rightarrow> server_catalog" where
  "new_catalog now uid c s =
     \<lparr>vc_id = uid, vc_owner_id = pn_owner_id c, vc_connection_id = pn_id c,
      vc_guild_id = ssv_guild_id s, vc_guild_name = ssv_guild_name s, vc_channels = dumps (ssv_channels s),
      vc_synced_at = now, vc_created_at = now, vc_updated_at = now\<rparr>"

definition seen_again :: "time \<Rightarrow> seen_server \<Rightarrow> server_catalog \<Rightarrow> server_catalog" where
  "seen_again now s c =
     c\<lparr>vc_guild_name := ssv_guild_name s, vc_channels := dumps (ssv_channels s), vc_synced_at := now,
       vc_updated_at := now\<rparr>"

text \<open>The servers against the rows that were there before; \<open>uids\<close> are drawn for the new ones.\<close>

fun sync_servers ::
  "time \<Rightarrow> platform_connection \<Rightarrow> server_catalog list \<Rightarrow> (string \<times> seen_server) list
    \<Rightarrow> server_catalog list \<Rightarrow> string list \<times> server_catalog list" where
  "sync_servers now c existing [] t = ([], t)"
| "sync_servers now c existing ((uid, s) # rest) t =
     (case find (\<lambda>r. vc_guild_id r = ssv_guild_id s) existing of
        None \<Rightarrow>
          (let (ids, t') = sync_servers now c existing rest (tins (new_catalog now uid c s) t) in (uid # ids, t'))
      | Some r \<Rightarrow>
          (let (ids, t') = sync_servers now c existing rest
                             (tset (\<lambda>x. vc_id x = vc_id r) (seen_again now s) t) in
           (vc_id r # ids, t')))"

definition unseen_servers :: "string list option \<Rightarrow> string list option \<Rightarrow> server_catalog list \<Rightarrow> string list" where
  "unseen_servers visible failed existing =
     (case visible of
        None \<Rightarrow> []
      | Some ids \<Rightarrow>
          map vc_id (filter (\<lambda>r. vc_guild_id r \<notin> set (normalized_ids (Some ids)) \<union> set (normalized_ids failed))
                       existing))"

definition sync_discord_server_catalog ::
  "time \<Rightarrow> string \<Rightarrow> (string \<times> seen_server) list \<Rightarrow> string list option \<Rightarrow> string list option \<Rightarrow> deploy_db
    \<Rightarrow> (server_catalog list, deploy_db) outcome" where
  "sync_discord_server_catalog now k servers visible failed d =
     (case get_connection_row d k of
        None \<Rightarrow> (Inl (KeyError ''connection''), d)
      | Some c \<Rightarrow>
          if pn_platform c \<noteq> ''discord'' then (Inl (KeyError ''connection''), d)
          else
            (let existing = filter (\<lambda>r. vc_connection_id r = k) (catalogs d);
                 (ids, t) = sync_servers now c existing servers (catalogs d);
                 gone = unseen_servers visible failed existing;
                 t' = tdel (\<lambda>r. vc_id r \<in> set gone) t in
             if \<not> distinct (map catalog_key t') \<or> \<not> keyed vc_id t' then (Inl IntegrityError, d)
             else if set ids \<inter> set gone \<noteq> {} then (Inl InvalidRequest, d\<lparr>catalogs := t'\<rparr>)
             else (Inr (List.map_filter (tget vc_id t') ids), d\<lparr>catalogs := t'\<rparr>)))"

definition by_guild :: "server_catalog list \<Rightarrow> server_catalog list" where
  "by_guild = sort_key (\<lambda>c. (vc_guild_name c, vc_guild_id c))"

definition list_discord_server_catalog :: "string \<Rightarrow> string option \<Rightarrow> deploy_db \<Rightarrow> server_catalog list" where
  "list_discord_server_catalog owner k d =
     by_guild (filter (\<lambda>c. vc_owner_id c = owner \<and> asked k (vc_connection_id c)) (catalogs d))"

definition list_shared_connections_for_profiles :: "string \<Rightarrow> deploy_db \<Rightarrow> platform_connection list" where
  "list_shared_connections_for_profiles owner d =
     sort_key pn_created_at
       (filter (\<lambda>c. pn_owner_id c \<noteq> owner \<and> pn_platform c = ''discord''
          \<and> list_ex (\<lambda>p. vp_owner_id p = owner \<and> vp_connection_id p = pn_id c) (profiles d)) (connections d))"

definition list_claimed_discord_server_catalog :: "string \<Rightarrow> deploy_db \<Rightarrow> server_catalog list" where
  "list_claimed_discord_server_catalog owner d =
     by_guild (filter (\<lambda>c. list_ex (\<lambda>p. vp_owner_id p = owner \<and> vp_connection_id p = vc_connection_id c
       \<and> vp_guild_id p = vc_guild_id c) (profiles d)) (catalogs d))"


section \<open>Server profiles\<close>

definition new_profile ::
  "time \<Rightarrow> string \<Rightarrow> string \<Rightarrow> string \<Rightarrow> string \<Rightarrow> string \<Rightarrow> string \<Rightarrow> json_text \<Rightarrow> json_text \<Rightarrow> string \<Rightarrow> server_profile" where
  "new_profile now uid owner connection name guild guild_name channels categories policy =
     \<lparr>vp_id = uid, vp_owner_id = owner, vp_connection_id = connection, vp_name = name,
      vp_guild_id = guild, vp_guild_name = guild_name, vp_channel_scope_mode = ''all_except'',
      vp_excluded_channel_ids = channels, vp_excluded_category_ids = categories,
      vp_thread_policy = policy, vp_created_at = now, vp_updated_at = now\<rparr>"

text \<open>The insert of a profile under its constraints.\<close>

definition insert_profile :: "string \<Rightarrow> server_profile \<Rightarrow> deploy_db \<Rightarrow> (server_profile, deploy_db) outcome" where
  "insert_profile message p d =
     (if get_profile_row d (vp_id p) \<noteq> None \<or> profile_key p \<in> set (map profile_key (profiles d))
      then (Inl (DeploymentConflict message), d)
      else (Inr p, d\<lparr>profiles := tins p (profiles d)\<rparr>))"

definition latest_catalog :: "string \<Rightarrow> string \<Rightarrow> deploy_db \<Rightarrow> server_catalog option" where
  "latest_catalog owner guild d =
     (case sort_key (\<lambda>c. - vc_synced_at c)
             (filter (\<lambda>c. vc_owner_id c = owner \<and> vc_guild_id c = guild) (catalogs d)) of
        [] \<Rightarrow> None | c # _ \<Rightarrow> Some c)"

text \<open>The checks of a claim: the catalog row of the managed server, or the exception.\<close>

definition claimable_server :: "string \<Rightarrow> string \<Rightarrow> string \<Rightarrow> deploy_db \<Rightarrow> error + server_catalog" where
  "claimable_server owner catalog_owner guild d =
     (case latest_catalog catalog_owner guild d of
        None \<Rightarrow> Inl (KeyError ''server catalog'')
      | Some c \<Rightarrow>
          (case get_connection_row d (vc_connection_id c) of
             None \<Rightarrow> Inl (KeyError ''connection'')
           | Some n \<Rightarrow>
               if pn_platform n \<noteq> ''discord'' \<or> pn_owner_id n \<noteq> catalog_owner then Inl (KeyError ''connection'')
               else if list_ex (\<lambda>p. profile_key p = (owner, vc_connection_id c, guild)) (profiles d)
               then Inl (DeploymentConflict ''This Discord Server is already in your account.'')
               else if owner \<noteq> catalog_owner
                 \<and> list_ex (\<lambda>p. vp_connection_id p = vc_connection_id c \<and> vp_guild_id p = guild
                       \<and> vp_owner_id p \<notin> {catalog_owner, owner}) (profiles d)
               then Inl (DeploymentConflict ''This Discord Server has already been claimed by another account.'')
               else Inr c))"

definition claim_server_profile ::
  "(deploy_db \<Rightarrow> deploy_db) \<Rightarrow> time \<Rightarrow> string \<Rightarrow> string \<Rightarrow> string \<Rightarrow> string \<Rightarrow> string \<Rightarrow> deploy_db
    \<Rightarrow> (server_profile, deploy_db) outcome" where
  "claim_server_profile others now uid owner catalog_owner guild name d =
     (case claimable_server owner catalog_owner guild d of
        Inl e \<Rightarrow> (Inl e, d)
      | Inr c \<Rightarrow>
          insert_profile ''This Discord Server is already in your account.''
            (new_profile now uid owner (vc_connection_id c)
               (if strip name \<noteq> [] then strip name else vc_guild_name c) (vc_guild_id c) (vc_guild_name c)
               (Text (JArr [])) (Text (JArr [])) ''inherit_parent'') (others d))"

definition create_server_profile ::
  "time \<Rightarrow> string \<Rightarrow> string \<Rightarrow> string \<Rightarrow> string \<Rightarrow> string \<Rightarrow> string \<Rightarrow> string list \<Rightarrow> string list \<Rightarrow> string \<Rightarrow> deploy_db
    \<Rightarrow> (server_profile, deploy_db) outcome" where
  "create_server_profile now uid owner k name guild guild_name channels categories policy d =
     (case get_connection k owner d of
        None \<Rightarrow> (Inl (KeyError ''connection''), d)
      | Some n \<Rightarrow>
          if pn_platform n \<noteq> ''discord'' then (Inl (KeyError ''connection''), d)
          else insert_profile ''A Discord server profile already exists for this account and server.''
            (new_profile now uid owner k name guild guild_name (encode_ids (Some channels))
               (encode_ids (Some categories)) policy) d)"

definition list_server_profiles :: "string \<Rightarrow> deploy_db \<Rightarrow> server_profile list" where
  "list_server_profiles owner d =
     sort_key (\<lambda>p. (vp_name p, vp_guild_name p)) (filter (\<lambda>p. vp_owner_id p = owner) (profiles d))"

definition get_server_profile :: "string \<Rightarrow> string \<Rightarrow> deploy_db \<Rightarrow> server_profile option" where
  "get_server_profile k owner d = owned vp_owner_id owner (get_profile_row d k)"

record profile_changes =
  pc_name :: "string option"
  pc_guild_name :: "string option"
  pc_channel_ids :: "string list option"
  pc_category_ids :: "string list option"
  pc_thread_policy :: "string option"

definition ids_given :: "string list option \<Rightarrow> json_text \<Rightarrow> json_text" where
  "ids_given ids old = (case ids of None \<Rightarrow> old | Some xs \<Rightarrow> encode_ids (Some xs))"

definition changed_profile :: "profile_changes \<Rightarrow> server_profile \<Rightarrow> server_profile" where
  "changed_profile c p =
     p\<lparr>vp_name := given (pc_name c) (vp_name p), vp_guild_name := given (pc_guild_name c) (vp_guild_name p),
       vp_excluded_channel_ids := ids_given (pc_channel_ids c) (vp_excluded_channel_ids p),
       vp_excluded_category_ids := ids_given (pc_category_ids c) (vp_excluded_category_ids p),
       vp_thread_policy := given (pc_thread_policy c) (vp_thread_policy p)\<rparr>"

definition put_profile :: "time \<Rightarrow> string \<Rightarrow> (server_profile \<Rightarrow> server_profile) \<Rightarrow> deploy_db \<Rightarrow> deploy_db" where
  "put_profile now k f d =
     d\<lparr>profiles := tset (\<lambda>p. vp_id p = k)
        (\<lambda>p. if f p = p then p else (f p)\<lparr>vp_updated_at := now\<rparr>) (profiles d)\<rparr>"

definition update_server_profile ::
  "time \<Rightarrow> string \<Rightarrow> string \<Rightarrow> profile_changes \<Rightarrow> deploy_db \<Rightarrow> server_profile option \<times> deploy_db" where
  "update_server_profile now k owner c d =
     (case get_server_profile k owner d of
        None \<Rightarrow> (None, d)
      | Some _ \<Rightarrow> (let d' = put_profile now k (changed_profile c) d in (get_profile_row d' k, d')))"

definition delete_server_profile :: "string \<Rightarrow> string \<Rightarrow> deploy_db \<Rightarrow> (bool, deploy_db) outcome" where
  "delete_server_profile k owner d =
     (case get_server_profile k owner d of
        None \<Rightarrow> (Inr False, d)
      | Some _ \<Rightarrow>
          if list_ex (\<lambda>s. dz_server_profile_id s = k) (scopes d)
          then (Inl (DeploymentConflict ''Remove or convert deployments using this server profile first.''), d)
          else (Inr True, d\<lparr>profiles := tdel (\<lambda>p. vp_id p = k) (profiles d)\<rparr>))"

section \<open>Deployments\<close>

record destination =
  de_workspace_id :: string
  de_workspace_name :: string
  de_channel_id :: string
  de_channel_name :: string
  de_thread_id :: string
  de_thread_name :: string

definition profile_destination :: "server_profile \<Rightarrow> destination" where
  "profile_destination p =
     \<lparr>de_workspace_id = vp_guild_id p, de_workspace_name = vp_guild_name p,
      de_channel_id = ''@server:'' @ vp_id p, de_channel_name = ''All available channels'',
      de_thread_id = [], de_thread_name = []\<rparr>"

record deployment_request =
  dp_owner_id :: string
  dp_card_id :: string
  dp_connection_id :: string
  dp_destination :: destination
  dp_participation_mode :: string
  dp_memory_scope :: string
  dp_version_label :: string
  dp_sticker_count :: int
  dp_status :: string
  dp_server_profile_id :: string
  dp_channel_ids :: "string list option"
  dp_category_ids :: "string list option"

definition new_deployment ::
  "time \<Rightarrow> string \<Rightarrow> deployment_request \<Rightarrow> platform_connection \<Rightarrow> destination \<Rightarrow> character_deployment" where
  "new_deployment now uid q n at =
     \<lparr>cd_id = uid, cd_owner_id = dp_owner_id q, cd_character_card_id = dp_card_id q,
      cd_connection_id = dp_connection_id q, cd_platform = pn_platform n,
      cd_workspace_id = de_workspace_id at, cd_workspace_name = de_workspace_name at,
      cd_channel_id = de_channel_id at, cd_channel_name = de_channel_name at,
      cd_thread_id = de_thread_id at, cd_thread_name = de_thread_name at,
      cd_participation_mode = dp_participation_mode q, cd_memory_scope = dp_memory_scope q,
      cd_version_label = dp_version_label q, cd_sticker_count = dp_sticker_count q,
      cd_status = dp_status q, cd_last_message_at = None, cd_last_error = [],
      cd_created_at = now, cd_updated_at = now\<rparr>"

definition new_scope :: "time \<Rightarrow> string \<Rightarrow> string \<Rightarrow> string \<Rightarrow> json_text \<Rightarrow> json_text \<Rightarrow> deployment_scope" where
  "new_scope now k owner profile channels categories =
     \<lparr>dz_deployment_id = k, dz_owner_id = owner, dz_server_profile_id = profile,
      dz_channel_scope_mode = ''all_except'', dz_excluded_channel_ids = channels,
      dz_excluded_category_ids = categories, dz_created_at = now, dz_updated_at = now\<rparr>"

definition insert_deployment ::
  "character_deployment \<Rightarrow> deployment_scope list \<Rightarrow> deploy_db \<Rightarrow> (character_deployment, deploy_db) outcome" where
  "insert_deployment r ss d =
     (if get_deployment_row d (cd_id r) \<noteq> None \<or> target_key r \<in> set (map target_key (deployments d))
        \<or> list_ex (\<lambda>s. get_scope_row d (dz_deployment_id s) \<noteq> None) ss
      then (Inl (DeploymentConflict ''This character is already deployed to the selected destination.''), d)
      else (Inr r, d\<lparr>deployments := tins r (deployments d), scopes := scopes d @ ss\<rparr>))"

definition usable_profile :: "string \<Rightarrow> string \<Rightarrow> string \<Rightarrow> deploy_db \<Rightarrow> server_profile option" where
  "usable_profile k owner connection d =
     (case get_profile_row d k of
        None \<Rightarrow> None
      | Some p \<Rightarrow> if vp_owner_id p = owner \<and> vp_connection_id p = connection then Some p else None)"

definition create_deployment ::
  "time \<Rightarrow> string \<Rightarrow> deployment_request \<Rightarrow> deploy_db \<Rightarrow> (character_deployment, deploy_db) outcome" where
  "create_deployment now uid q d =
     (case owned cc_owner_id (dp_owner_id q) (tget cc_id (known_cards d) (dp_card_id q)) of
        None \<Rightarrow> (Inl (KeyError ''character''), d)
      | Some _ \<Rightarrow>
          (case get_connection_row d (dp_connection_id q) of
             None \<Rightarrow> (Inl (KeyError ''connection''), d)
           | Some n \<Rightarrow>
               if dp_server_profile_id q \<noteq> [] then
                 (case usable_profile (dp_server_profile_id q) (dp_owner_id q) (dp_connection_id q) d of
                    None \<Rightarrow> (Inl (KeyError ''server profile''), d)
                  | Some p \<Rightarrow>
                      if pn_platform n \<noteq> ''discord''
                      then (Inl (DeploymentConflict
                              ''Discord server profiles can only be used with Discord connections.''), d)
                      else
                        insert_deployment (new_deployment now uid q n (profile_destination p))
                          [new_scope now uid (dp_owner_id q) (vp_id p) (encode_ids (dp_channel_ids q))
                             (encode_ids (dp_category_ids q))] d)
               else if pn_owner_id n \<noteq> dp_owner_id q then (Inl (KeyError ''connection''), d)
               else if de_channel_id (dp_destination q) = [] \<or> de_channel_name (dp_destination q) = []
               then (Inl (DeploymentConflict
                       ''A channel is required when no Discord server profile is selected.''), d)
               else insert_deployment (new_deployment now uid q n (dp_destination q)) [] d))"


section \<open>Reading deployments\<close>

definition by_destination :: "character_deployment list \<Rightarrow> character_deployment list" where
  "by_destination =
     sort_key (\<lambda>r. (cd_platform r, cd_workspace_name r, cd_channel_name r, cd_thread_name r))"

definition in_profile :: "string option \<Rightarrow> deploy_db \<Rightarrow> character_deployment \<Rightarrow> bool" where
  "in_profile k d r =
     (case k of
        None \<Rightarrow> True
      | Some p \<Rightarrow> list_ex (\<lambda>s. dz_deployment_id s = cd_id r \<and> dz_server_profile_id s = p) (scopes d))"

definition list_deployments ::
  "string \<Rightarrow> string option \<Rightarrow> string option \<Rightarrow> deploy_db \<Rightarrow> character_deployment list" where
  "list_deployments owner cid profile d =
     by_destination (filter (\<lambda>r. in_profile profile d r \<and> cd_owner_id r = owner
       \<and> asked cid (cd_character_card_id r)) (deployments d))"

record status_tally =
  sc_active :: nat
  sc_paused :: nat
  sc_attention :: nat

definition list_deployments_page ::
  "string \<Rightarrow> int \<Rightarrow> int \<Rightarrow> string option \<Rightarrow> string option \<Rightarrow> string option \<Rightarrow> string option \<Rightarrow> deploy_db
    \<Rightarrow> character_deployment list \<times> int \<times> nat \<times> int \<times> status_tally" where
  "list_deployments_page owner page per cid platform status profile d =
     (let mine = filter (\<lambda>r. cd_owner_id r = owner \<and> in_profile profile d r) (deployments d);
          rows = filter (\<lambda>r. asked cid (cd_character_card_id r) \<and> asked platform (cd_platform r)
                   \<and> asked status (cd_status r)) mine;
          shown = safe_page page per (length rows);
          among = (\<lambda>vs. tcount (\<lambda>r. cd_status r \<in> set vs) mine) in
      (page_of shown per (rev (sort_key (\<lambda>r. (cd_updated_at r, cd_id r)) rows)), shown, length rows,
       page_count per (length rows),
       \<lparr>sc_active = among [''active''], sc_paused = among [''paused''],
        sc_attention = among [''error'', ''offline'']\<rparr>))"

definition list_connector_deployments :: "string \<Rightarrow> string \<Rightarrow> deploy_db \<Rightarrow> character_deployment list" where
  "list_connector_deployments platform k d =
     sort_key (\<lambda>r. (cd_workspace_name r, cd_channel_name r, cd_thread_name r))
       (filter (\<lambda>r. cd_platform r = platform \<and> cd_connection_id r = k \<and> cd_status r = ''active'') (deployments d))"

definition find_connector_deployment ::
  "string \<Rightarrow> string \<Rightarrow> string \<Rightarrow> string \<Rightarrow> deploy_db \<Rightarrow> character_deployment option" where
  "find_connector_deployment platform k channel thread d =
     find (\<lambda>r. cd_platform r = platform \<and> cd_connection_id r = k \<and> cd_status r = ''active''
       \<and> cd_channel_id r = channel \<and> cd_thread_id r = thread) (deployments d)"

definition get_deployment :: "string \<Rightarrow> string \<Rightarrow> deploy_db \<Rightarrow> character_deployment option" where
  "get_deployment k owner d = owned cd_owner_id owner (get_deployment_row d k)"

definition profile_of_deployment :: "string \<Rightarrow> deploy_db \<Rightarrow> server_profile option" where
  "profile_of_deployment k d =
     (case get_scope_row d k of None \<Rightarrow> None | Some s \<Rightarrow> get_profile_row d (dz_server_profile_id s))"

definition active_discord :: "string \<Rightarrow> string \<Rightarrow> deploy_db \<Rightarrow> character_deployment option" where
  "active_discord k connection d =
     (case get_deployment_row d k of
        None \<Rightarrow> None
      | Some r \<Rightarrow>
          if cd_connection_id r = connection \<and> cd_platform r = ''discord'' \<and> cd_status r = ''active''
          then Some r else None)"

definition active_deployment_for_guild ::
  "string \<Rightarrow> string \<Rightarrow> string \<Rightarrow> deploy_db \<Rightarrow> character_deployment option" where
  "active_deployment_for_guild k connection guild d =
     (case active_discord k connection d of
        None \<Rightarrow> None
      | Some r \<Rightarrow>
          (case get_scope_row d k of
             None \<Rightarrow> if cd_workspace_id r = guild then Some r else None
           | Some s \<Rightarrow>
               (case get_profile_row d (dz_server_profile_id s) of
                  None \<Rightarrow> None
                | Some p \<Rightarrow> if vp_guild_id p = guild then Some r else None)))"

definition excluded_place :: "json_text \<Rightarrow> json_text \<Rightarrow> string \<Rightarrow> string \<Rightarrow> bool" where
  "excluded_place channels categories channel category \<longleftrightarrow>
     channel \<in> set (decode_ids channels) \<or> (category \<noteq> [] \<and> category \<in> set (decode_ids categories))"

definition deployment_matches ::
  "string \<Rightarrow> string \<Rightarrow> string \<Rightarrow> string \<Rightarrow> string \<Rightarrow> string \<Rightarrow> deploy_db \<Rightarrow> character_deployment option" where
  "deployment_matches k connection guild channel thread category d =
     (case active_discord k connection d of
        None \<Rightarrow> None
      | Some r \<Rightarrow>
          (case get_scope_row d k of
             None \<Rightarrow>
               if cd_workspace_id r = guild \<and> cd_channel_id r = channel \<and> cd_thread_id r = thread
               then Some r else None
           | Some s \<Rightarrow>
               (case get_profile_row d (dz_server_profile_id s) of
                  None \<Rightarrow> None
                | Some p \<Rightarrow>
                    if vp_guild_id p \<noteq> guild then None
                    else if excluded_place (vp_excluded_channel_ids p) (vp_excluded_category_ids p) channel category
                      \<or> excluded_place (dz_excluded_channel_ids s) (dz_excluded_category_ids s) channel category
                    then None else Some r)))"

section \<open>Changing and ending deployments\<close>

definition save_deployment ::
  "time \<Rightarrow> string \<Rightarrow> (character_deployment \<Rightarrow> character_deployment) \<Rightarrow> deploy_db \<Rightarrow> deploy_db" where
  "save_deployment now k f d =
     d\<lparr>deployments := tset (\<lambda>r. cd_id r = k)
        (\<lambda>r. if f r = r then r else (f r)\<lparr>cd_updated_at := now\<rparr>) (deployments d)\<rparr>"

record deployment_changes =
  dg_workspace_id :: "string option"
  dg_workspace_name :: "string option"
  dg_channel_id :: "string option"
  dg_channel_name :: "string option"
  dg_thread_id :: "string option"
  dg_thread_name :: "string option"
  dg_participation_mode :: "string option"
  dg_memory_scope :: "string option"
  dg_version_label :: "string option"
  dg_sticker_count :: "int option"
  dg_status :: "string option"
  dg_last_error :: "string option"
  dg_server_profile_id :: "string option"
  dg_channel_ids :: "string list option"
  dg_category_ids :: "string list option"

definition moved_to :: "destination \<Rightarrow> character_deployment \<Rightarrow> character_deployment" where
  "moved_to at r =
     r\<lparr>cd_workspace_id := de_workspace_id at, cd_workspace_name := de_workspace_name at,
       cd_channel_id := de_channel_id at, cd_channel_name := de_channel_name at,
       cd_thread_id := de_thread_id at, cd_thread_name := de_thread_name at\<rparr>"

definition asked_destination :: "deployment_changes \<Rightarrow> character_deployment \<Rightarrow> destination" where
  "asked_destination c r =
     \<lparr>de_workspace_id = given (dg_workspace_id c) (cd_workspace_id r),
      de_workspace_name = given (dg_workspace_name c) (cd_workspace_name r),
      de_channel_id = given (dg_channel_id c) (cd_channel_id r),
      de_channel_name = given (dg_channel_name c) (cd_channel_name r),
      de_thread_id = given (dg_thread_id c) (cd_thread_id r),
      de_thread_name = given (dg_thread_name c) (cd_thread_name r)\<rparr>"

definition changed_settings :: "deployment_changes \<Rightarrow> character_deployment \<Rightarrow> character_deployment" where
  "changed_settings c r =
     r\<lparr>cd_participation_mode := given (dg_participation_mode c) (cd_participation_mode r),
       cd_memory_scope := given (dg_memory_scope c) (cd_memory_scope r),
       cd_version_label := given (dg_version_label c) (cd_version_label r),
       cd_sticker_count := given (dg_sticker_count c) (cd_sticker_count r),
       cd_status := given (dg_status c) (cd_status r),
       cd_last_error := given (dg_last_error c) (cd_last_error r)\<rparr>"

text \<open>The server profile that the deployment has after the call: the one that is asked for, none, or
  the one it had.\<close>

datatype profile_choice = KeepProfile | DropProfile | UseProfile server_profile

definition profile_choice ::
  "string option \<Rightarrow> character_deployment \<Rightarrow> deploy_db \<Rightarrow> error + profile_choice" where
  "profile_choice wanted r d =
     (case wanted of
        None \<Rightarrow> Inr KeepProfile
      | Some k \<Rightarrow>
          if k = [] then Inr DropProfile
          else
            (case usable_profile k (cd_owner_id r) (cd_connection_id r) d of
               None \<Rightarrow> Inl (KeyError ''server profile'')
             | Some p \<Rightarrow>
                 if cd_platform r \<noteq> ''discord''
                 then Inl (DeploymentConflict ''Discord server profiles can only be used with Discord deployments.'')
                 else Inr (UseProfile p)))"

definition scope_after :: "time \<Rightarrow> profile_choice \<Rightarrow> character_deployment \<Rightarrow> deployment_scope option \<Rightarrow> deployment_scope option" where
  "scope_after now choice r scope =
     (case choice of
        KeepProfile \<Rightarrow> scope
      | DropProfile \<Rightarrow> None
      | UseProfile p \<Rightarrow>
          Some (case scope of
                  None \<Rightarrow> new_scope now (cd_id r) (cd_owner_id r) (vp_id p) (Text (JArr [])) (Text (JArr []))
                | Some s \<Rightarrow> s\<lparr>dz_server_profile_id := vp_id p\<rparr>))"

definition excluding :: "deployment_changes \<Rightarrow> deployment_scope \<Rightarrow> deployment_scope" where
  "excluding c s =
     s\<lparr>dz_excluded_channel_ids := ids_given (dg_channel_ids c) (dz_excluded_channel_ids s),
       dz_excluded_category_ids := ids_given (dg_category_ids c) (dz_excluded_category_ids s)\<rparr>"

text \<open>The row of the scope table for a deployment: replaced in place, inserted or deleted.\<close>

definition put_scope :: "time \<Rightarrow> string \<Rightarrow> deployment_scope option \<Rightarrow> deployment_scope list \<Rightarrow> deployment_scope list" where
  "put_scope now k s t =
     (case s of
        None \<Rightarrow> tdel (\<lambda>x. dz_deployment_id x = k) t
      | Some new \<Rightarrow>
          (case tget dz_deployment_id t k of
             None \<Rightarrow> tins new t
           | Some old \<Rightarrow>
               tset (\<lambda>x. dz_deployment_id x = k)
                 (\<lambda>x. if new = old then x else new\<lparr>dz_updated_at := now\<rparr>) t))"

definition updated_deployment ::
  "deployment_changes \<Rightarrow> profile_choice \<Rightarrow> bool \<Rightarrow> character_deployment \<Rightarrow> character_deployment" where
  "updated_deployment c choice scoped r =
     changed_settings c
       (let r' = (case choice of UseProfile p \<Rightarrow> moved_to (profile_destination p) r | _ \<Rightarrow> r) in
        if scoped then r' else moved_to (asked_destination c r') r')"

definition update_deployment ::
  "time \<Rightarrow> string \<Rightarrow> string \<Rightarrow> deployment_changes \<Rightarrow> deploy_db
    \<Rightarrow> (character_deployment option, deploy_db) outcome" where
  "update_deployment now k owner c d =
     (case get_deployment k owner d of
        None \<Rightarrow> (Inr None, d)
      | Some r \<Rightarrow>
          (case profile_choice (dg_server_profile_id c) r d of
             Inl e \<Rightarrow> (Inl e, d)
           | Inr choice \<Rightarrow>
               (let s = map_option (excluding c) (scope_after now choice r (get_scope_row d k));
                    d' = save_deployment now k (updated_deployment c choice (s \<noteq> None))
                           (d\<lparr>scopes := put_scope now k s (scopes d)\<rparr>) in
                if \<not> distinct (map target_key (deployments d'))
                then (Inl (DeploymentConflict
                        ''This character is already deployed to the selected destination.''), d)
                else (Inr (get_deployment_row d' k), d'))))"

definition record_deployment_activity :: "time \<Rightarrow> string \<Rightarrow> deploy_db \<Rightarrow> deploy_db" where
  "record_deployment_activity now k =
     save_deployment now k
       (\<lambda>r. r\<lparr>cd_status := ''active'', cd_last_message_at := Some now, cd_last_error := []\<rparr>)"

definition record_deployment_error :: "time \<Rightarrow> string \<Rightarrow> string \<Rightarrow> deploy_db \<Rightarrow> deploy_db" where
  "record_deployment_error now k message =
     save_deployment now k (\<lambda>r. r\<lparr>cd_status := ''error'', cd_last_error := take 2000 message\<rparr>)"

definition delete_deployment :: "string \<Rightarrow> string \<Rightarrow> deploy_db \<Rightarrow> bool \<times> deploy_db" where
  "delete_deployment k owner d =
     (case get_deployment k owner d of
        None \<Rightarrow> (False, d)
      | Some _ \<Rightarrow>
          (True, d\<lparr>scopes := tdel (\<lambda>s. dz_deployment_id s = k) (scopes d),
                   deployments := tdel (\<lambda>r. cd_id r = k) (deployments d)\<rparr>))"

section \<open>Accounts\<close>

record owner_counts =
  oc_events :: nat
  oc_connections :: nat
  oc_catalogs :: nat
  oc_profiles :: nat
  oc_deployments :: nat
  oc_scopes :: nat

definition owner_counts :: "string \<Rightarrow> deploy_db \<Rightarrow> owner_counts" where
  "owner_counts owner d =
     \<lparr>oc_events = tcount (\<lambda>e. ce_owner_id e = owner) (connector_events d),
      oc_connections = tcount (\<lambda>c. pn_owner_id c = owner) (connections d),
      oc_catalogs = tcount (\<lambda>c. vc_owner_id c = owner) (catalogs d),
      oc_profiles = tcount (\<lambda>p. vp_owner_id p = owner) (profiles d),
      oc_deployments = tcount (\<lambda>r. cd_owner_id r = owner) (deployments d),
      oc_scopes = tcount (\<lambda>s. dz_owner_id s = owner) (scopes d)\<rparr>"

definition delete_deploy_owner :: "string \<Rightarrow> deploy_db \<Rightarrow> owner_counts \<times> deploy_db" where
  "delete_deploy_owner owner d =
     (owner_counts owner d,
      d\<lparr>connector_events := tdel (\<lambda>e. ce_owner_id e = owner) (connector_events d),
        scopes := tdel (\<lambda>s. dz_owner_id s = owner) (scopes d),
        deployments := tdel (\<lambda>r. cd_owner_id r = owner) (deployments d),
        profiles := tdel (\<lambda>p. vp_owner_id p = owner) (profiles d),
        catalogs := tdel (\<lambda>c. vc_owner_id c = owner) (catalogs d),
        connections := tdel (\<lambda>c. pn_owner_id c = owner) (connections d)\<rparr>)"

definition moved_owner :: "time \<Rightarrow> string \<Rightarrow> string \<Rightarrow> deploy_db \<Rightarrow> deploy_db" where
  "moved_owner now source target d =
     d\<lparr>connector_events := tset (\<lambda>e. ce_owner_id e = source) (\<lambda>e. e\<lparr>ce_owner_id := target\<rparr>) (connector_events d),
       connections := tset (\<lambda>c. pn_owner_id c = source)
         (\<lambda>c. c\<lparr>pn_owner_id := target, pn_updated_at := now\<rparr>) (connections d),
       catalogs := tset (\<lambda>c. vc_owner_id c = source)
         (\<lambda>c. c\<lparr>vc_owner_id := target, vc_updated_at := now\<rparr>) (catalogs d),
       profiles := tset (\<lambda>p. vp_owner_id p = source)
         (\<lambda>p. p\<lparr>vp_owner_id := target, vp_updated_at := now\<rparr>) (profiles d),
       deployments := tset (\<lambda>r. cd_owner_id r = source)
         (\<lambda>r. r\<lparr>cd_owner_id := target, cd_updated_at := now\<rparr>) (deployments d),
       scopes := tset (\<lambda>s. dz_owner_id s = source)
         (\<lambda>s. s\<lparr>dz_owner_id := target, dz_updated_at := now\<rparr>) (scopes d)\<rparr>"

definition claim_deploy_owner :: "time \<Rightarrow> string \<Rightarrow> string \<Rightarrow> deploy_db \<Rightarrow> (owner_counts, deploy_db) outcome" where
  "claim_deploy_owner now source target d =
     (let d' = moved_owner now source target d in
      if \<not> distinct (map profile_key (profiles d')) \<or> \<not> distinct (map target_key (deployments d'))
      then (Inl IntegrityError, d)
      else (Inr (owner_counts source d), d'))"


end
