(* ===== verification/Deployment_Safety.thy ===== *)
theory Deployment_Safety
  imports Deployment_Store Contracts
begin

text \<open>
  What the deployment repository keeps true whatever the order of its calls: a deployment attached to
  a server profile belongs to the profile's account and speaks in the profile's server only; a managed
  server is claimed by one account beside the one that manages it; and the events of a connection are
  bounded, carry no content and hide every credential.
\<close>

section \<open>Calls\<close>

datatype deploy_op =
    CreateConnection string connection_fields
  | UpdateConnection string string connection_changes
  | Heartbeat string heartbeat
  | DeleteConnection string string
  | RecordEvents string "event_item list"
  | SyncCatalog string "(string \<times> seen_server) list" "string list option" "string list option"
  | ClaimProfile string string string string string
  | CreateProfile string string string string string string "string list" "string list" string
  | UpdateProfile string string profile_changes
  | DeleteProfile string string
  | CreateDeployment string deployment_request
  | UpdateDeployment string string deployment_changes
  | DeploymentActivity string
  | DeploymentError string string
  | DeleteDeployment string string
  | DeleteAccount string
  | ClaimAccount string string

fun run_deploy :: "redactor \<Rightarrow> time \<times> deploy_op \<Rightarrow> deploy_db \<Rightarrow> deploy_db" where
  "run_deploy rd (now, CreateConnection uid q) d = snd (create_connection rd now uid q d)"
| "run_deploy rd (now, UpdateConnection k owner c) d = snd (update_connection rd now k owner c d)"
| "run_deploy rd (now, Heartbeat k hb) d = snd (heartbeat_connection rd now k hb d)"
| "run_deploy rd (now, DeleteConnection k owner) d = snd (delete_connection k owner d)"
| "run_deploy rd (now, RecordEvents k es) d = snd (record_discord_events rd now k es d)"
| "run_deploy rd (now, SyncCatalog k servers visible failed) d =
     snd (sync_discord_server_catalog now k servers visible failed d)"
| "run_deploy rd (now, ClaimProfile uid owner catalog_owner guild name) d =
     snd (claim_server_profile id now uid owner catalog_owner guild name d)"
| "run_deploy rd (now, CreateProfile uid owner k name guild guild_name chs cats policy) d =
     snd (create_server_profile now uid owner k name guild guild_name chs cats policy d)"
| "run_deploy rd (now, UpdateProfile k owner c) d = snd (update_server_profile now k owner c d)"
| "run_deploy rd (now, DeleteProfile k owner) d = snd (delete_server_profile k owner d)"
| "run_deploy rd (now, CreateDeployment uid q) d = snd (create_deployment now uid q d)"
| "run_deploy rd (now, UpdateDeployment k owner c) d = snd (update_deployment now k owner c d)"
| "run_deploy rd (now, DeploymentActivity k) d = record_deployment_activity now k d"
| "run_deploy rd (now, DeploymentError k message) d = record_deployment_error now k message d"
| "run_deploy rd (now, DeleteDeployment k owner) d = snd (delete_deployment k owner d)"
| "run_deploy rd (now, DeleteAccount owner) d = snd (delete_deploy_owner owner d)"
| "run_deploy rd (now, ClaimAccount source target) d = snd (claim_deploy_owner now source target d)"

section \<open>Bound deployments and single claims\<close>

definition scope_bound :: "server_profile list \<Rightarrow> character_deployment list \<Rightarrow> deployment_scope \<Rightarrow> bool" where
  "scope_bound ps rs s \<longleftrightarrow>
     (\<exists>r \<in> set rs. \<exists>p \<in> set ps.
        cd_id r = dz_deployment_id s \<and> vp_id p = dz_server_profile_id s
        \<and> cd_owner_id r = dz_owner_id s \<and> vp_owner_id p = dz_owner_id s
        \<and> vp_connection_id p = cd_connection_id r \<and> vp_guild_id p = cd_workspace_id r)"

text \<open>Two profiles of one server: one of them is the managing account's own.\<close>

definition claims_ok :: "platform_connection list \<Rightarrow> server_profile list \<Rightarrow> bool" where
  "claims_ok cs ps \<longleftrightarrow>
     (\<forall>p \<in> set ps. \<forall>q \<in> set ps. vp_connection_id p = vp_connection_id q \<and> vp_guild_id p = vp_guild_id q
        \<and> vp_id p \<noteq> vp_id q \<longrightarrow>
        (\<exists>c \<in> set cs. pn_id c = vp_connection_id p \<and> pn_owner_id c \<in> {vp_owner_id p, vp_owner_id q}))"

definition deploy_ok :: "deploy_db \<Rightarrow> bool" where
  "deploy_ok d \<longleftrightarrow>
     keyed pn_id (connections d) \<and> keyed vp_id (profiles d) \<and> keyed cd_id (deployments d)
     \<and> keyed dz_deployment_id (scopes d) \<and> distinct (map profile_key (profiles d))
     \<and> (\<forall>s \<in> set (scopes d). scope_bound (profiles d) (deployments d) s)
     \<and> claims_ok (connections d) (profiles d)"

text \<open>Only four of the tables matter.\<close>

lemma deploy_ok_frames [simp]:
  "deploy_ok (d\<lparr>connector_events := es\<rparr>) = deploy_ok d" "deploy_ok (d\<lparr>catalogs := cs\<rparr>) = deploy_ok d"
  by (simp_all add: deploy_ok_def)

lemma record_events_ok: "deploy_ok d \<Longrightarrow> deploy_ok (snd (record_discord_events rd now k es d))"
  by (auto simp: record_discord_events_def split: option.split sum.split)

lemma sync_catalog_ok: "deploy_ok d \<Longrightarrow> deploy_ok (snd (sync_discord_server_catalog now k servers visible failed d))"
  by (auto simp: sync_discord_server_catalog_def Let_def split: option.split prod.split)

section \<open>Each call keeps them\<close>

lemma claims_okD:
  "claims_ok cs ps \<Longrightarrow> p \<in> set ps \<Longrightarrow> q \<in> set ps \<Longrightarrow> vp_connection_id p = vp_connection_id q \<Longrightarrow>
    vp_guild_id p = vp_guild_id q \<Longrightarrow> vp_id p \<noteq> vp_id q \<Longrightarrow>
    \<exists>c \<in> set cs. pn_id c = vp_connection_id p \<and> pn_owner_id c \<in> {vp_owner_id p, vp_owner_id q}"
  by (simp add: claims_ok_def)

definition managed_by :: "platform_connection \<Rightarrow> string \<times> string" where
  "managed_by c = (pn_id c, pn_owner_id c)"

lemma claims_ok_connections:
  assumes "claims_ok cs ps" and sub: "managed_by ` set cs \<subseteq> managed_by ` set cs'"
  shows "claims_ok cs' ps"
  unfolding claims_ok_def
proof (intro ballI impI)
  fix p q
  assume "p \<in> set ps" "q \<in> set ps"
    and "vp_connection_id p = vp_connection_id q \<and> vp_guild_id p = vp_guild_id q \<and> vp_id p \<noteq> vp_id q"
  with claims_okD [OF assms(1)] obtain c where c: "c \<in> set cs" "pn_id c = vp_connection_id p"
      "pn_owner_id c \<in> {vp_owner_id p, vp_owner_id q}"
    by blast
  from sub c(1) obtain c' where "c' \<in> set cs'" "managed_by c = managed_by c'" by blast
  with c show "\<exists>c \<in> set cs'. pn_id c = vp_connection_id p \<and> pn_owner_id c \<in> {vp_owner_id p, vp_owner_id q}"
    by (intro bexI [of _ c']) (simp_all add: managed_by_def)
qed

lemma put_connection_ok:
  assumes "deploy_ok d" and f: "\<And>r. pn_id (f r) = pn_id r" "\<And>r. pn_owner_id (f r) = pn_owner_id r"
  shows "deploy_ok (put_connection now k f d)"
proof -
  let ?g = "\<lambda>r. if f r = r then r else (f r)\<lparr>pn_updated_at := now\<rparr>"
  have "managed_by ` set (tset (\<lambda>r. pn_id r = k) ?g (connections d)) = managed_by ` set (connections d)"
    by (rule image_key_tset) (simp add: managed_by_def f)
  then have "claims_ok (tset (\<lambda>r. pn_id r = k) ?g (connections d)) (profiles d)"
    using assms(1) by (rule_tac claims_ok_connections [of "connections d"]) (simp_all add: deploy_ok_def)
  moreover have "keyed pn_id (tset (\<lambda>r. pn_id r = k) ?g (connections d)) = keyed pn_id (connections d)"
    by (rule keyed_tset) (simp add: f)
  ultimately show ?thesis
    using assms(1) unfolding deploy_ok_def put_connection_def by simp
qed

lemma connection_calls_ok:
  assumes "deploy_ok d"
  shows "deploy_ok (snd (create_connection rd now uid q d))"
    and "deploy_ok (snd (update_connection rd now k owner c d))"
    and "deploy_ok (snd (heartbeat_connection rd now k hb d))"
proof -
  have "claims_ok (tins (new_connection rd now uid q) (connections d)) (profiles d)"
    using assms by (rule_tac claims_ok_connections [of "connections d"]) (auto simp: deploy_ok_def)
  with assms show "deploy_ok (snd (create_connection rd now uid q d))"
    by (simp add: create_connection_def Let_def deploy_ok_def keyed_tins new_connection_def)
  show "deploy_ok (snd (update_connection rd now k owner c d))"
    by (simp add: update_connection_def Let_def assms put_connection_ok changed_connection_def split: option.split)
  show "deploy_ok (snd (heartbeat_connection rd now k hb d))"
    by (simp add: heartbeat_connection_def assms put_connection_ok split: option.split)
qed

lemma scope_boundE:
  assumes "deploy_ok d" "s \<in> set (scopes d)"
  obtains r p where "r \<in> set (deployments d)" "p \<in> set (profiles d)" "cd_id r = dz_deployment_id s"
    "vp_id p = dz_server_profile_id s" "cd_owner_id r = dz_owner_id s" "vp_owner_id p = dz_owner_id s"
    "vp_connection_id p = cd_connection_id r" "vp_guild_id p = cd_workspace_id r"
  using assms by (auto simp: deploy_ok_def scope_bound_def)

lemma scope_boundI:
  "r \<in> set rs \<Longrightarrow> p \<in> set ps \<Longrightarrow> cd_id r = dz_deployment_id s \<Longrightarrow> vp_id p = dz_server_profile_id s \<Longrightarrow>
    cd_owner_id r = dz_owner_id s \<Longrightarrow> vp_owner_id p = dz_owner_id s \<Longrightarrow>
    vp_connection_id p = cd_connection_id r \<Longrightarrow> vp_guild_id p = cd_workspace_id r \<Longrightarrow> scope_bound ps rs s"
  by (auto simp: scope_bound_def)

lemma claims_ok_subset: "claims_ok cs ps \<Longrightarrow> set ps' \<subseteq> set ps \<Longrightarrow> claims_ok cs ps'"
  by (auto simp: claims_ok_def)

lemma distinct_map_tdel: "distinct (map f t) \<Longrightarrow> distinct (map f (tdel P t))"
  by (simp add: tdel_def distinct_map_filter)

lemma scope_kept:
  assumes "deploy_ok d" "s \<in> set (scopes d)"
    and "\<And>r. r \<in> set (deployments d) \<Longrightarrow> cd_id r = dz_deployment_id s \<Longrightarrow> cd_owner_id r = dz_owner_id s \<Longrightarrow>
      \<exists>r' \<in> set rs. cd_id r' = cd_id r \<and> cd_owner_id r' = cd_owner_id r
        \<and> cd_connection_id r' = cd_connection_id r \<and> cd_workspace_id r' = cd_workspace_id r"
    and "\<And>r p. r \<in> set (deployments d) \<Longrightarrow> cd_id r = dz_deployment_id s \<Longrightarrow> cd_owner_id r = dz_owner_id s \<Longrightarrow>
      p \<in> set (profiles d) \<Longrightarrow> vp_id p = dz_server_profile_id s \<Longrightarrow> vp_owner_id p = dz_owner_id s \<Longrightarrow>
      vp_connection_id p = cd_connection_id r \<Longrightarrow>
      \<exists>p' \<in> set ps. vp_id p' = vp_id p \<and> vp_owner_id p' = vp_owner_id p
        \<and> vp_connection_id p' = vp_connection_id p \<and> vp_guild_id p' = vp_guild_id p"
  shows "scope_bound ps rs s"
  using assms(1,2)
proof (rule scope_boundE)
  fix r p
  assume b: "r \<in> set (deployments d)" "p \<in> set (profiles d)" "cd_id r = dz_deployment_id s"
    "vp_id p = dz_server_profile_id s" "cd_owner_id r = dz_owner_id s" "vp_owner_id p = dz_owner_id s"
    "vp_connection_id p = cd_connection_id r" "vp_guild_id p = cd_workspace_id r"
  from assms(3) [OF b(1,3,5)] obtain r' where r': "r' \<in> set rs" "cd_id r' = cd_id r"
      "cd_owner_id r' = cd_owner_id r" "cd_connection_id r' = cd_connection_id r"
      "cd_workspace_id r' = cd_workspace_id r"
    by blast
  from assms(4) [OF b(1,3,5,2,4,6,7)] obtain p' where p': "p' \<in> set ps" "vp_id p' = vp_id p"
      "vp_owner_id p' = vp_owner_id p" "vp_connection_id p' = vp_connection_id p"
      "vp_guild_id p' = vp_guild_id p"
    by blast
  show ?thesis
    by (rule scope_boundI [OF r'(1) p'(1)]) (simp_all add: r' p' b)
qed

lemma scope_stays:
  assumes "deploy_ok d" "s \<in> set (scopes d)"
    and "\<And>r. r \<in> set (deployments d) \<Longrightarrow> cd_id r = dz_deployment_id s \<Longrightarrow> cd_owner_id r = dz_owner_id s \<Longrightarrow> r \<in> set rs"
    and "\<And>r p. r \<in> set (deployments d) \<Longrightarrow> cd_id r = dz_deployment_id s \<Longrightarrow> cd_owner_id r = dz_owner_id s \<Longrightarrow>
      p \<in> set (profiles d) \<Longrightarrow> vp_id p = dz_server_profile_id s \<Longrightarrow> vp_owner_id p = dz_owner_id s \<Longrightarrow>
      vp_connection_id p = cd_connection_id r \<Longrightarrow> p \<in> set ps"
  shows "scope_bound ps rs s"
  using assms(1,2) by (rule scope_kept) (blast intro: assms(3,4))+

lemma delete_connection_ok:
  assumes ok: "deploy_ok d"
  shows "deploy_ok (snd (delete_connection k owner d))"
proof (cases "get_connection k owner d")
  case None
  with ok show ?thesis by (simp add: delete_connection_def)
next
  case (Some c)
  then have c: "get_connection_row d k = Some c" "pn_owner_id c = owner"
    by (auto simp: get_connection_def owned_def split: option.splits if_splits)
  let ?d = "snd (delete_connection k owner d)"
  have tables: "profiles ?d = tdel (\<lambda>p. vp_owner_id p = owner \<and> vp_connection_id p = k) (profiles d)"
      "deployments ?d = tdel (\<lambda>r. cd_owner_id r = owner \<and> cd_connection_id r = k) (deployments d)"
      "connections ?d = tdel (\<lambda>r. pn_id r = k) (connections d)"
      "scopes ?d = tdel (\<lambda>s. dz_deployment_id s \<in> cd_id ` {r \<in> set (deployments d). cd_owner_id r = owner \<and> cd_connection_id r = k}) (scopes d)"
    using Some by (simp_all add: delete_connection_def Let_def)
  have "scope_bound (profiles ?d) (deployments ?d) s" if "s \<in> set (scopes ?d)" for s
    using ok
  proof (rule scope_stays)
    show "s \<in> set (scopes d)" using that by (simp add: tables)
  qed (use that in \<open>auto simp: tables image_iff\<close>)
  moreover have "claims_ok (connections ?d) (profiles ?d)"
    unfolding claims_ok_def
  proof (intro ballI impI)
    fix p q
    assume pq: "p \<in> set (profiles ?d)" "q \<in> set (profiles ?d)"
      and same: "vp_connection_id p = vp_connection_id q \<and> vp_guild_id p = vp_guild_id q \<and> vp_id p \<noteq> vp_id q"
    then obtain c' where c': "c' \<in> set (connections d)" "pn_id c' = vp_connection_id p"
        "pn_owner_id c' \<in> {vp_owner_id p, vp_owner_id q}"
      using claims_okD [of "connections d" "profiles d" p q] ok by (auto simp: deploy_ok_def tables)
    have "pn_id c' \<noteq> k"
    proof
      assume "pn_id c' = k"
      moreover have "tget pn_id (connections d) (pn_id c') = Some c'"
        using ok c'(1) by (simp add: deploy_ok_def tget_self)
      ultimately have "c' = c" using c(1) by simp
      with c'(2,3) c(2) \<open>pn_id c' = k\<close> pq same show False by (auto simp: tables)
    qed
    with c' show "\<exists>c \<in> set (connections ?d). pn_id c = vp_connection_id p \<and> pn_owner_id c \<in> {vp_owner_id p, vp_owner_id q}"
      by (auto simp: tables)
  qed
  ultimately show ?thesis
    using ok unfolding deploy_ok_def by (simp add: tables keyed_tdel distinct_map_tdel)
qed


definition profile_place :: "server_profile \<Rightarrow> string \<times> string \<times> string \<times> string" where
  "profile_place p = (vp_id p, vp_owner_id p, vp_connection_id p, vp_guild_id p)"

text \<open>Rows that keep their place are as good as before.\<close>

lemma claims_ok_places:
  assumes "claims_ok cs ps" "profile_place ` set ps' \<subseteq> profile_place ` set ps"
  shows "claims_ok cs ps'"
  unfolding claims_ok_def
proof (intro ballI impI)
  fix p q
  assume pq: "p \<in> set ps'" "q \<in> set ps'"
    and same: "vp_connection_id p = vp_connection_id q \<and> vp_guild_id p = vp_guild_id q \<and> vp_id p \<noteq> vp_id q"
  from pq assms(2) obtain p1 q1 where "p1 \<in> set ps" "q1 \<in> set ps"
      "profile_place p = profile_place p1" "profile_place q = profile_place q1"
    by blast
  with same claims_okD [OF assms(1), of p1 q1]
  show "\<exists>c \<in> set cs. pn_id c = vp_connection_id p \<and> pn_owner_id c \<in> {vp_owner_id p, vp_owner_id q}"
    by (simp add: profile_place_def)
qed

lemma put_profile_ok:
  assumes "deploy_ok d" and f: "\<And>p. profile_place (f p) = profile_place p"
  shows "deploy_ok (put_profile now k f d)"
proof -
  let ?g = "\<lambda>p. if f p = p then p else (f p)\<lparr>vp_updated_at := now\<rparr>"
  let ?t = "tset (\<lambda>p. vp_id p = k) ?g (profiles d)"
  have g: "profile_place (?g p) = profile_place p" for p
    using f [of p] by (simp add: profile_place_def)
  then have place: "profile_place ` set ?t = profile_place ` set (profiles d)"
    by (rule image_key_tset)
  have "map profile_key ?t = map profile_key (profiles d)"
    using g by (simp add: tset_def profile_key_def profile_place_def)
  moreover have "keyed vp_id ?t = keyed vp_id (profiles d)"
    using g by (intro keyed_tset) (simp add: profile_place_def)
  moreover have "claims_ok (connections d) ?t"
    using assms(1) place by (rule_tac claims_ok_places [of _ "profiles d"]) (simp_all add: deploy_ok_def)
  moreover have "scope_bound ?t (deployments d) s" if "s \<in> set (scopes d)" for s
    using assms(1) that
  proof (rule scope_kept)
    fix p
    assume "p \<in> set (profiles d)"
    with place obtain p' where "p' \<in> set ?t" "profile_place p = profile_place p'" by blast
    then show "\<exists>p' \<in> set ?t. vp_id p' = vp_id p \<and> vp_owner_id p' = vp_owner_id p
        \<and> vp_connection_id p' = vp_connection_id p \<and> vp_guild_id p' = vp_guild_id p"
      by (intro bexI [of _ p']) (simp_all add: profile_place_def)
  qed blast
  ultimately show ?thesis
    using assms(1) unfolding deploy_ok_def put_profile_def by simp
qed

lemma update_profile_ok: "deploy_ok d \<Longrightarrow> deploy_ok (snd (update_server_profile now k owner c d))"
  by (simp add: update_server_profile_def Let_def put_profile_ok changed_profile_def profile_place_def
      split: option.split)

lemma insert_profile_ok:
  assumes ok: "deploy_ok d"
    and claims: "\<And>q. q \<in> set (profiles d) \<Longrightarrow> vp_connection_id q = vp_connection_id p \<Longrightarrow>
      vp_guild_id q = vp_guild_id p \<Longrightarrow>
      \<exists>c \<in> set (connections d). pn_id c = vp_connection_id p \<and> pn_owner_id c \<in> {vp_owner_id p, vp_owner_id q}"
  shows "deploy_ok (snd (insert_profile message p d))"
proof (cases "get_profile_row d (vp_id p) \<noteq> None \<or> profile_key p \<in> set (map profile_key (profiles d))")
  case True
  with ok show ?thesis by (simp add: insert_profile_def)
next
  case False
  have "claims_ok (connections d) (tins p (profiles d))"
    unfolding claims_ok_def
  proof (intro ballI impI)
    fix a b
    assume ab: "a \<in> set (tins p (profiles d))" "b \<in> set (tins p (profiles d))"
      and same: "vp_connection_id a = vp_connection_id b \<and> vp_guild_id a = vp_guild_id b \<and> vp_id a \<noteq> vp_id b"
    show "\<exists>c \<in> set (connections d). pn_id c = vp_connection_id a \<and> pn_owner_id c \<in> {vp_owner_id a, vp_owner_id b}"
    proof (cases "a = p \<or> b = p")
      case True
      then show ?thesis using ab same claims [of a] claims [of b] by auto
    next
      case False
      with ab same ok claims_okD [of "connections d" "profiles d" a b] show ?thesis
        by (simp add: deploy_ok_def)
    qed
  qed
  moreover have "scope_bound (tins p (profiles d)) (deployments d) s" if "s \<in> set (scopes d)" for s
    using ok that by (rule scope_stays) auto
  ultimately show ?thesis
    using ok False unfolding deploy_ok_def
    by (simp add: insert_profile_def keyed_tins) (simp add: tins_def image_iff)
qed

lemma profile_call_ok:
  assumes ok: "deploy_ok d"
  shows "deploy_ok (snd (create_server_profile now uid owner k name guild guild_name chs cats policy d))"
proof (cases "get_connection k owner d")
  case None
  with ok show ?thesis by (simp add: create_server_profile_def)
next
  case (Some n)
  then have n: "n \<in> set (connections d)" "pn_id n = k" "pn_owner_id n = owner"
    by (auto simp: get_connection_def owned_def dest: tget_mem tget_key split: option.splits if_splits)
  with Some ok show ?thesis
    by (auto simp: create_server_profile_def new_profile_def intro!: insert_profile_ok bexI [of _ n])
qed

lemma latest_catalog_guild:
  assumes "latest_catalog owner guild d = Some c"
  shows "vc_guild_id c = guild"
proof -
  let ?rows = "filter (\<lambda>c. vc_owner_id c = owner \<and> vc_guild_id c = guild) (catalogs d)"
  from assms obtain xs where "sort_key (\<lambda>c. - vc_synced_at c) ?rows = c # xs"
    by (auto simp: latest_catalog_def split: list.splits)
  from arg_cong [OF this, of set] have "c \<in> set ?rows" by simp
  then show ?thesis by simp
qed

lemma claimable_serverD:
  assumes "claimable_server owner catalog_owner guild d = Inr c"
  obtains n where "n \<in> set (connections d)" "pn_id n = vc_connection_id c" "pn_owner_id n = catalog_owner"
    "vc_guild_id c = guild"
    "owner \<noteq> catalog_owner \<Longrightarrow> \<forall>p \<in> set (profiles d). vp_connection_id p = vc_connection_id c \<longrightarrow> vp_guild_id p = guild
      \<longrightarrow> vp_owner_id p \<in> {catalog_owner, owner}"
    "\<forall>p \<in> set (profiles d). profile_key p \<noteq> (owner, vc_connection_id c, guild)"
proof -
  from assms obtain n where n: "latest_catalog catalog_owner guild d = Some c"
      "get_connection_row d (vc_connection_id c) = Some n" "pn_owner_id n = catalog_owner"
      "\<forall>p \<in> set (profiles d). profile_key p \<noteq> (owner, vc_connection_id c, guild)"
      "owner \<noteq> catalog_owner \<Longrightarrow> \<forall>p \<in> set (profiles d). vp_connection_id p = vc_connection_id c \<longrightarrow> vp_guild_id p = guild
        \<longrightarrow> vp_owner_id p \<in> {catalog_owner, owner}"
    unfolding claimable_server_def by (auto simp: list_ex_iff split: option.splits if_splits)
  have "vc_guild_id c = guild" using n(1) by (rule latest_catalog_guild)
  then show ?thesis
    using that [OF tget_mem [OF n(2)] tget_key [OF n(2)] n(3) _ n(5) n(4)] by simp
qed

lemma claim_profile_ok:
  assumes ok: "deploy_ok d"
  shows "deploy_ok (snd (claim_server_profile id now uid owner catalog_owner guild name d))"
proof (cases "claimable_server owner catalog_owner guild d")
  case (Inl e)
  with ok show ?thesis by (simp add: claim_server_profile_def)
next
  case (Inr c)
  from claimable_serverD [OF Inr] obtain n where n: "n \<in> set (connections d)" "pn_id n = vc_connection_id c"
    "pn_owner_id n = catalog_owner" "vc_guild_id c = guild"
    "owner \<noteq> catalog_owner \<Longrightarrow> \<forall>p \<in> set (profiles d). vp_connection_id p = vc_connection_id c \<longrightarrow> vp_guild_id p = guild
      \<longrightarrow> vp_owner_id p \<in> {catalog_owner, owner}"
    "\<forall>p \<in> set (profiles d). profile_key p \<noteq> (owner, vc_connection_id c, guild)"
    by blast
  show ?thesis
    unfolding claim_server_profile_def Inr sum.case id_apply
  proof (rule insert_profile_ok [OF ok], goal_cases)
    case (1 q)
    then have "owner = catalog_owner \<or> vp_owner_id q = catalog_owner"
      using n(4-6) by (auto simp: new_profile_def profile_key_def)
    with n(1-4) show ?case
      by (intro bexI [of _ n]) (auto simp: new_profile_def)
  qed
qed

lemma delete_profile_ok:
  assumes ok: "deploy_ok d"
  shows "deploy_ok (snd (delete_server_profile k owner d))"
proof (cases "get_server_profile k owner d = None \<or> list_ex (\<lambda>s. dz_server_profile_id s = k) (scopes d)")
  case True
  with ok show ?thesis by (auto simp: delete_server_profile_def split: option.split)
next
  case False
  then have unused: "\<forall>s \<in> set (scopes d). dz_server_profile_id s \<noteq> k" by (auto simp: list_ex_iff)
  have "scope_bound (tdel (\<lambda>p. vp_id p = k) (profiles d)) (deployments d) s" if "s \<in> set (scopes d)" for s
    using ok that by (rule scope_stays) (use unused that in auto)
  moreover have "claims_ok (connections d) (tdel (\<lambda>p. vp_id p = k) (profiles d))"
    using ok by (auto simp: deploy_ok_def intro: claims_ok_subset)
  ultimately show ?thesis
    using ok False unfolding deploy_ok_def
    by (auto simp: delete_server_profile_def keyed_tdel distinct_map_tdel)
qed


text \<open>Deployments: a writer that keeps identity, owner, connection and, where a scope binds the row, the
  server.\<close>

lemma usable_profileD:
  "usable_profile k owner connection d = Some p \<Longrightarrow>
    p \<in> set (profiles d) \<and> vp_id p = k \<and> vp_owner_id p = owner \<and> vp_connection_id p = connection"
  by (auto simp: usable_profile_def dest: tget_mem tget_key split: option.splits if_splits)

lemma insert_deployment_ok:
  assumes ok: "deploy_ok d" and scoped: "\<And>s. s \<in> set ss \<Longrightarrow> scope_bound (profiles d) [r] s"
    and one: "length ss \<le> 1"
  shows "deploy_ok (snd (insert_deployment r ss d))"
proof (cases "get_deployment_row d (cd_id r) \<noteq> None \<or> target_key r \<in> set (map target_key (deployments d))
    \<or> list_ex (\<lambda>s. get_scope_row d (dz_deployment_id s) \<noteq> None) ss")
  case True
  with ok show ?thesis by (auto simp: insert_deployment_def)
next
  case False
  have "scope_bound (profiles d) (tins r (deployments d)) s" if "s \<in> set (scopes d @ ss)" for s
  proof (cases "s \<in> set ss")
    case True
    with scoped show ?thesis by (fastforce simp: scope_bound_def)
  next
    case old: False
    with that have "s \<in> set (scopes d)" by simp
    with ok show ?thesis by (rule scope_stays) auto
  qed
  moreover have "keyed dz_deployment_id (scopes d @ ss)"
    using ok False one unfolding deploy_ok_def
    by (cases ss) (auto simp: keyed_def tget_None_iff list_ex_iff)
  ultimately show ?thesis
    using ok False unfolding deploy_ok_def
    by (simp add: insert_deployment_def keyed_tins list_ex_iff)
qed

lemma create_deployment_ok:
  assumes ok: "deploy_ok d"
  shows "deploy_ok (snd (create_deployment now uid q d))"
proof -
  have "deploy_ok (snd (insert_deployment (new_deployment now uid q n (profile_destination p))
      [new_scope now uid (dp_owner_id q) (vp_id p) chs cats] d))"
    if "usable_profile (dp_server_profile_id q) (dp_owner_id q) (dp_connection_id q) d = Some p" for n p chs cats
    using usable_profileD [OF that]
    by (intro insert_deployment_ok [OF ok])
      (auto simp: scope_bound_def new_scope_def new_deployment_def profile_destination_def)
  moreover have "deploy_ok (snd (insert_deployment r [] d))" for r
    by (rule insert_deployment_ok [OF ok]) simp_all
  ultimately show ?thesis
    using ok by (auto simp: create_deployment_def split: option.split)
qed

lemma save_deployment_keyed:
  assumes "\<And>r. cd_id (f r) = cd_id r"
  shows "keyed cd_id (deployments (save_deployment now k f d)) = keyed cd_id (deployments d)"
  unfolding save_deployment_def using assms by (simp add: keyed_tset)

definition deployment_place :: "character_deployment \<Rightarrow> string \<times> string \<times> string \<times> string" where
  "deployment_place r = (cd_id r, cd_owner_id r, cd_connection_id r, cd_workspace_id r)"

lemma save_deployment_ok:
  assumes ok: "deploy_ok d" and f: "\<And>r. deployment_place (f r) = deployment_place r"
  shows "deploy_ok (save_deployment now k f d)"
proof -
  let ?g = "\<lambda>r. if f r = r then r else (f r)\<lparr>cd_updated_at := now\<rparr>"
  let ?t = "tset (\<lambda>r. cd_id r = k) ?g (deployments d)"
  have g: "deployment_place (?g r) = deployment_place r" for r
    using f [of r] by (simp add: deployment_place_def)
  then have place: "deployment_place ` set ?t = deployment_place ` set (deployments d)"
    by (rule image_key_tset)
  have "keyed cd_id ?t = keyed cd_id (deployments d)"
    using g by (intro keyed_tset) (simp add: deployment_place_def)
  moreover have "scope_bound (profiles d) ?t s" if "s \<in> set (scopes d)" for s
    using ok that
  proof (rule scope_kept)
    fix r
    assume "r \<in> set (deployments d)"
    with place obtain r' where "r' \<in> set ?t" "deployment_place r = deployment_place r'" by blast
    then show "\<exists>r' \<in> set ?t. cd_id r' = cd_id r \<and> cd_owner_id r' = cd_owner_id r
        \<and> cd_connection_id r' = cd_connection_id r \<and> cd_workspace_id r' = cd_workspace_id r"
      by (intro bexI [of _ r']) (simp_all add: deployment_place_def)
  qed blast
  ultimately show ?thesis
    using ok unfolding deploy_ok_def save_deployment_def by simp
qed

lemma activity_ok:
  "deploy_ok d \<Longrightarrow> deploy_ok (record_deployment_activity now k d)"
  "deploy_ok d \<Longrightarrow> deploy_ok (record_deployment_error now k message d)"
  by (simp_all add: record_deployment_activity_def record_deployment_error_def save_deployment_ok
      deployment_place_def)

lemma delete_deployment_ok:
  assumes ok: "deploy_ok d"
  shows "deploy_ok (snd (delete_deployment k owner d))"
proof -
  have "scope_bound (profiles d) (tdel (\<lambda>r. cd_id r = k) (deployments d)) s"
    if "s \<in> set (tdel (\<lambda>s. dz_deployment_id s = k) (scopes d))" for s
  proof -
    from that have "s \<in> set (scopes d)" "dz_deployment_id s \<noteq> k" by simp_all
    with ok show ?thesis by (intro scope_stays [of d]) auto
  qed
  with ok show ?thesis
    unfolding delete_deployment_def deploy_ok_def by (simp add: keyed_tdel split: option.split)
qed

text \<open>Accounts.\<close>

lemma delete_owner_ok:
  assumes ok: "deploy_ok d"
  shows "deploy_ok (snd (delete_deploy_owner owner d))"
proof -
  let ?d = "snd (delete_deploy_owner owner d)"
  have tables: "profiles ?d = tdel (\<lambda>p. vp_owner_id p = owner) (profiles d)"
      "deployments ?d = tdel (\<lambda>r. cd_owner_id r = owner) (deployments d)"
      "connections ?d = tdel (\<lambda>c. pn_owner_id c = owner) (connections d)"
      "scopes ?d = tdel (\<lambda>s. dz_owner_id s = owner) (scopes d)"
    by (simp_all add: delete_deploy_owner_def)
  have "scope_bound (profiles ?d) (deployments ?d) s" if "s \<in> set (scopes ?d)" for s
    using ok
  proof (rule scope_stays)
    show "s \<in> set (scopes d)" using that by (simp add: tables)
  qed (use that in \<open>auto simp: tables\<close>)
  moreover have "claims_ok (connections ?d) (profiles ?d)"
    unfolding claims_ok_def
  proof (intro ballI impI)
    fix p q
    assume pq: "p \<in> set (profiles ?d)" "q \<in> set (profiles ?d)"
      and "vp_connection_id p = vp_connection_id q \<and> vp_guild_id p = vp_guild_id q \<and> vp_id p \<noteq> vp_id q"
    then obtain c where c: "c \<in> set (connections d)" "pn_id c = vp_connection_id p"
        "pn_owner_id c \<in> {vp_owner_id p, vp_owner_id q}"
      using claims_okD [of "connections d" "profiles d" p q] ok by (auto simp: deploy_ok_def tables)
    with pq show "\<exists>c \<in> set (connections ?d). pn_id c = vp_connection_id p \<and> pn_owner_id c \<in> {vp_owner_id p, vp_owner_id q}"
      by (intro bexI [of _ c]) (auto simp: tables)
  qed
  ultimately show ?thesis
    using ok unfolding deploy_ok_def by (simp add: tables keyed_tdel distinct_map_tdel)
qed


lemma keyed_tset_on:
  assumes "\<And>r. r \<in> set t \<Longrightarrow> P r \<Longrightarrow> key (f r) = key r"
  shows "keyed key (tset P f t) = keyed key t"
proof -
  have "map key (tset P f t) = map key t" using assms by (simp add: tset_def)
  then show ?thesis by (simp only: keyed_def)
qed

definition scope_place :: "deployment_scope \<Rightarrow> string \<times> string \<times> string" where
  "scope_place s = (dz_deployment_id s, dz_owner_id s, dz_server_profile_id s)"

lemma scope_bound_place: "scope_place s = scope_place s' \<Longrightarrow> scope_bound ps rs s = scope_bound ps rs s'"
  by (simp add: scope_bound_def scope_place_def)

lemma put_scope_mem:
  assumes "keyed dz_deployment_id t" and "\<And>new. s = Some new \<Longrightarrow> dz_deployment_id new = k"
    and "x \<in> set (put_scope now k s t)"
  shows "(dz_deployment_id x \<noteq> k \<and> x \<in> set t) \<or> (\<exists>new. s = Some new \<and> scope_place x = scope_place new)"
proof (cases s)
  case None
  with assms(3) show ?thesis by (auto simp: put_scope_def)
next
  case (Some new)
  show ?thesis
  proof (cases "tget dz_deployment_id t k")
    case None
    with Some assms(3) show ?thesis
      by (auto simp: put_scope_def tget_None_iff image_iff)
  next
    case old: (Some old)
    have "x = old" if "x \<in> set t" "dz_deployment_id x = k"
      using tget_self [OF assms(1) that(1)] that(2) old by simp
    with Some old assms(3) show ?thesis
      by (auto simp: put_scope_def set_tset scope_place_def split: if_splits)
  qed
qed

lemma put_scope_keyed:
  assumes "keyed dz_deployment_id t" and "\<And>new. s = Some new \<Longrightarrow> dz_deployment_id new = k"
  shows "keyed dz_deployment_id (put_scope now k s t)"
proof (cases s)
  case (Some new)
  with assms(2) have "dz_deployment_id new = k" by simp
  then have "keyed dz_deployment_id
      (tset (\<lambda>x. dz_deployment_id x = k) (\<lambda>x. if new = old then x else new\<lparr>dz_updated_at := now\<rparr>) t)" for old
    using assms(1) by (subst keyed_tset_on) auto
  with Some assms show ?thesis
    by (auto simp: put_scope_def keyed_tins split: option.split)
qed (simp add: put_scope_def keyed_tdel assms(1))

lemma updated_place:
  "cd_id (updated_deployment c choice scoped r) = cd_id r"
  "cd_owner_id (updated_deployment c choice scoped r) = cd_owner_id r"
  "cd_connection_id (updated_deployment c choice scoped r) = cd_connection_id r"
  "scoped \<Longrightarrow> cd_workspace_id (updated_deployment c choice scoped r) =
    (case choice of UseProfile p \<Rightarrow> vp_guild_id p | _ \<Rightarrow> cd_workspace_id r)"
  by (auto simp: updated_deployment_def changed_settings_def moved_to_def profile_destination_def Let_def
      split: profile_choice.split)

lemma save_deployment_get:
  assumes "get_deployment_row d k = Some r" "\<And>r. cd_id (f r) = cd_id r"
  shows "\<exists>r'. r' \<in> set (deployments (save_deployment now k f d)) \<and> deployment_place r' = deployment_place (f r)"
proof -
  let ?g = "\<lambda>r. if f r = r then r else (f r)\<lparr>cd_updated_at := now\<rparr>"
  have "r \<in> set (deployments d)" "cd_id r = k" using assms(1) by (auto dest: tget_mem tget_key)
  then have "?g r \<in> set (deployments (save_deployment now k f d))"
    by (auto simp: save_deployment_def set_tset)
  then show ?thesis
    by (intro exI [of _ "?g r"] conjI) (simp_all add: deployment_place_def)
qed

lemma save_deployment_other:
  "r \<in> set (deployments d) \<Longrightarrow> cd_id r \<noteq> k \<Longrightarrow> r \<in> set (deployments (save_deployment now k f d))"
  by (force simp: save_deployment_def set_tset)

lemma choice_bound:
  assumes ok: "deploy_ok d" and r: "get_deployment_row d k = Some r"
    and choice: "profile_choice wanted r d = Inr choice"
    and s: "map_option (excluding c) (scope_after now choice r (get_scope_row d k)) = Some new"
    and r': "r' \<in> set rs" "deployment_place r' = deployment_place (updated_deployment c choice True r)"
  shows "dz_deployment_id new = k \<and> scope_bound (profiles d) rs new"
proof -
  have k: "cd_id r = k" using r by (rule tget_key)
  have old: "dz_deployment_id x = k \<and> dz_owner_id x = cd_owner_id r
      \<and> (\<exists>p \<in> set (profiles d). vp_id p = dz_server_profile_id x \<and> vp_owner_id p = cd_owner_id r
            \<and> vp_connection_id p = cd_connection_id r \<and> vp_guild_id p = cd_workspace_id r)"
    if "get_scope_row d k = Some x" for x
  proof -
    from that have x: "x \<in> set (scopes d)" "dz_deployment_id x = k" by (auto dest: tget_mem tget_key)
    from ok x(1) obtain q p where q: "q \<in> set (deployments d)" "p \<in> set (profiles d)"
        "cd_id q = dz_deployment_id x" "vp_id p = dz_server_profile_id x" "cd_owner_id q = dz_owner_id x"
        "vp_owner_id p = dz_owner_id x" "vp_connection_id p = cd_connection_id q"
        "vp_guild_id p = cd_workspace_id q"
      by (rule scope_boundE)
    have "get_deployment_row d (cd_id q) = Some q"
      using ok q(1) by (simp add: deploy_ok_def tget_self)
    with r q(3) x(2) have "q = r" by simp
    with q x show ?thesis by auto
  qed
  show ?thesis
  proof (cases choice)
    case KeepProfile
    with s obtain x where x: "get_scope_row d k = Some x" "new = excluding c x"
      by (auto simp: scope_after_def)
    have place: "scope_place new = scope_place x" by (simp add: x(2) excluding_def scope_place_def)
    from old [OF x(1)] obtain p where p: "p \<in> set (profiles d)" "vp_id p = dz_server_profile_id x"
        "vp_owner_id p = cd_owner_id r" "vp_connection_id p = cd_connection_id r"
        "vp_guild_id p = cd_workspace_id r"
      by blast
    have "scope_bound (profiles d) rs x"
      using old [OF x(1)] r'(2) k KeepProfile
      by (intro scope_boundI [OF r'(1) p(1)]) (simp_all add: p deployment_place_def updated_place)
    with place old [OF x(1)] show ?thesis
      by (simp add: scope_bound_place [OF place]) (simp add: scope_place_def)
  next
    case DropProfile
    with s show ?thesis by (simp add: scope_after_def)
  next
    case (UseProfile p)
    with choice have p: "p \<in> set (profiles d)" "vp_owner_id p = cd_owner_id r" "vp_connection_id p = cd_connection_id r"
      by (auto simp: profile_choice_def dest: usable_profileD split: option.splits if_splits)
    have own: "dz_deployment_id x = k" "dz_owner_id x = cd_owner_id r" if "get_scope_row d k = Some x" for x
      using old [OF that] by simp_all
    have "scope_place new = (k, cd_owner_id r, vp_id p)"
    proof (cases "get_scope_row d k")
      case None
      with s UseProfile k show ?thesis
        by (auto simp: scope_after_def excluding_def new_scope_def scope_place_def)
    next
      case (Some x)
      with s UseProfile own [OF Some] show ?thesis
        by (auto simp: scope_after_def excluding_def scope_place_def)
    qed
    then have "dz_deployment_id new = k" "dz_owner_id new = cd_owner_id r" "dz_server_profile_id new = vp_id p"
      by (simp_all add: scope_place_def)
    with p r'(2) k UseProfile show ?thesis
      by (intro conjI scope_boundI [OF r'(1) p(1)]) (simp_all add: deployment_place_def updated_place)
  qed
qed

lemma update_deployment_ok:
  assumes ok: "deploy_ok d"
  shows "deploy_ok (snd (update_deployment now k owner c d))"
proof (cases "get_deployment k owner d")
  case None
  with ok show ?thesis by (simp add: update_deployment_def)
next
  case (Some r)
  then have r: "get_deployment_row d k = Some r"
    by (auto simp: get_deployment_def owned_def split: option.splits if_splits)
  show ?thesis
  proof (cases "profile_choice (dg_server_profile_id c) r d")
    case (Inl e)
    with Some ok show ?thesis by (simp add: update_deployment_def)
  next
    case (Inr choice)
    define s where "s = map_option (excluding c) (scope_after now choice r (get_scope_row d k))"
    define f where "f = updated_deployment c choice (s \<noteq> None)"
    define d' where "d' = save_deployment now k f (d\<lparr>scopes := put_scope now k s (scopes d)\<rparr>)"
    have same: "profiles d' = profiles d" "connections d' = connections d"
        "scopes d' = put_scope now k s (scopes d)" "deployments d' = deployments (save_deployment now k f d)"
      by (simp_all add: d'_def save_deployment_def)
    have new: "dz_deployment_id new = k \<and> scope_bound (profiles d') (deployments d') new" if "s = Some new" for new
    proof -
      from that have f: "f = updated_deployment c choice True" by (simp add: f_def)
      obtain r' where r': "r' \<in> set (deployments d')" "deployment_place r' = deployment_place (f r)"
        using save_deployment_get [OF r, of f] by (auto simp: same f_def updated_place)
      show ?thesis
        unfolding same(1)
        by (rule choice_bound [OF ok r Inr that [unfolded s_def] r'(1) r'(2) [unfolded f]])
    qed
    have keyed: "keyed dz_deployment_id (scopes d')"
      using ok new unfolding same by (intro put_scope_keyed) (simp_all add: deploy_ok_def)
    have "scope_bound (profiles d') (deployments d') x" if "x \<in> set (scopes d')" for x
    proof -
      from put_scope_mem [of "scopes d" s k x now] new that ok
      consider "dz_deployment_id x \<noteq> k" "x \<in> set (scopes d)"
        | new where "s = Some new" "scope_place x = scope_place new"
        by (auto simp: same deploy_ok_def)
      then show ?thesis
      proof cases
        case 1
        with ok show ?thesis
          unfolding same by (intro scope_stays [OF ok]) (auto intro: save_deployment_other)
      next
        case 2
        with new show ?thesis using scope_bound_place by blast
      qed
    qed
    with ok keyed have "deploy_ok d'"
      unfolding deploy_ok_def same f_def
      by (simp add: save_deployment_keyed updated_place)
    with ok Some Inr show ?thesis
      unfolding d'_def f_def by (simp add: update_deployment_def Let_def s_def [symmetric])
  qed
qed


text \<open>Moving an account: every row changes its owner in the same way.\<close>

definition renamed :: "string \<Rightarrow> string \<Rightarrow> string \<Rightarrow> string" where
  "renamed source target owner = (if owner = source then target else owner)"

lemma moved_tables:
  "connections (moved_owner now source target d) = tset (\<lambda>c. pn_owner_id c = source)
     (\<lambda>c. c\<lparr>pn_owner_id := target, pn_updated_at := now\<rparr>) (connections d)"
  "profiles (moved_owner now source target d) = tset (\<lambda>p. vp_owner_id p = source)
     (\<lambda>p. p\<lparr>vp_owner_id := target, vp_updated_at := now\<rparr>) (profiles d)"
  "deployments (moved_owner now source target d) = tset (\<lambda>r. cd_owner_id r = source)
     (\<lambda>r. r\<lparr>cd_owner_id := target, cd_updated_at := now\<rparr>) (deployments d)"
  "scopes (moved_owner now source target d) = tset (\<lambda>s. dz_owner_id s = source)
     (\<lambda>s. s\<lparr>dz_owner_id := target, dz_updated_at := now\<rparr>) (scopes d)"
  by (simp_all add: moved_owner_def)

lemma moved_places:
  "managed_by (if pn_owner_id c = source then c\<lparr>pn_owner_id := target, pn_updated_at := now\<rparr> else c) =
    (pn_id c, renamed source target (pn_owner_id c))"
  "profile_place (if vp_owner_id p = source then p\<lparr>vp_owner_id := target, vp_updated_at := now\<rparr> else p) =
    (vp_id p, renamed source target (vp_owner_id p), vp_connection_id p, vp_guild_id p)"
  "deployment_place (if cd_owner_id r = source then r\<lparr>cd_owner_id := target, cd_updated_at := now\<rparr> else r) =
    (cd_id r, renamed source target (cd_owner_id r), cd_connection_id r, cd_workspace_id r)"
  "scope_place (if dz_owner_id s = source then s\<lparr>dz_owner_id := target, dz_updated_at := now\<rparr> else s) =
    (dz_deployment_id s, renamed source target (dz_owner_id s), dz_server_profile_id s)"
  by (simp_all add: managed_by_def profile_place_def deployment_place_def scope_place_def renamed_def)

lemma moved_image:
  "managed_by ` set (connections (moved_owner now source target d)) =
    (\<lambda>c. (pn_id c, renamed source target (pn_owner_id c))) ` set (connections d)"
  "profile_place ` set (profiles (moved_owner now source target d)) =
    (\<lambda>p. (vp_id p, renamed source target (vp_owner_id p), vp_connection_id p, vp_guild_id p)) ` set (profiles d)"
  "deployment_place ` set (deployments (moved_owner now source target d)) =
    (\<lambda>r. (cd_id r, renamed source target (cd_owner_id r), cd_connection_id r, cd_workspace_id r)) ` set (deployments d)"
  "scope_place ` set (scopes (moved_owner now source target d)) =
    (\<lambda>s. (dz_deployment_id s, renamed source target (dz_owner_id s), dz_server_profile_id s)) ` set (scopes d)"
  by (simp_all only: moved_tables set_tset image_image moved_places)

text \<open>Both invariants only depend on the places of the rows.\<close>

lemma scope_bound_iff:
  "scope_bound ps rs s \<longleftrightarrow>
    (case scope_place s of (k, owner, profile) \<Rightarrow>
       \<exists>connection guild. (k, owner, connection, guild) \<in> deployment_place ` set rs
         \<and> (profile, owner, connection, guild) \<in> profile_place ` set ps)"
  unfolding scope_bound_def scope_place_def deployment_place_def profile_place_def
  by (auto simp: image_iff; metis)

lemma claims_ok_iff:
  "claims_ok cs ps \<longleftrightarrow>
    (\<forall>(i, a, connection, guild) \<in> profile_place ` set ps. \<forall>(j, b, connection', guild') \<in> profile_place ` set ps.
       connection = connection' \<and> guild = guild' \<and> i \<noteq> j \<longrightarrow>
       (connection, a) \<in> managed_by ` set cs \<or> (connection, b) \<in> managed_by ` set cs)"
  unfolding claims_ok_def profile_place_def managed_by_def
  by (auto simp: image_iff; metis)

lemma claim_owner_ok:
  assumes ok: "deploy_ok d"
  shows "deploy_ok (snd (claim_deploy_owner now source target d))"
proof -
  let ?d = "moved_owner now source target d"
  have "deploy_ok ?d" if "distinct (map profile_key (profiles ?d))"
  proof -
    have keys: "keyed pn_id (connections ?d)" "keyed vp_id (profiles ?d)" "keyed cd_id (deployments ?d)"
        "keyed dz_deployment_id (scopes ?d)"
      using ok by (simp_all add: moved_owner_def deploy_ok_def keyed_tset)
    have "scope_bound (profiles ?d) (deployments ?d) s" if "s \<in> set (scopes ?d)" for s
    proof -
      from that have "scope_place s \<in> scope_place ` set (scopes ?d)" by blast
      then obtain s0 where s0: "s0 \<in> set (scopes d)"
          "scope_place s = (dz_deployment_id s0, renamed source target (dz_owner_id s0), dz_server_profile_id s0)"
        by (auto simp: moved_image)
      from ok s0(1) obtain r p where b: "r \<in> set (deployments d)" "p \<in> set (profiles d)"
          "cd_id r = dz_deployment_id s0" "vp_id p = dz_server_profile_id s0" "cd_owner_id r = dz_owner_id s0"
          "vp_owner_id p = dz_owner_id s0" "vp_connection_id p = cd_connection_id r"
          "vp_guild_id p = cd_workspace_id r"
        by (rule scope_boundE)
      let ?owner = "renamed source target (dz_owner_id s0)"
      have "(dz_deployment_id s0, ?owner, cd_connection_id r, cd_workspace_id r) \<in> deployment_place ` set (deployments ?d)"
        unfolding moved_image by (rule image_eqI [OF _ b(1)]) (simp add: b)
      moreover have "(dz_server_profile_id s0, ?owner, cd_connection_id r, cd_workspace_id r) \<in> profile_place ` set (profiles ?d)"
        unfolding moved_image by (rule image_eqI [OF _ b(2)]) (simp add: b)
      ultimately show ?thesis
        unfolding scope_bound_iff s0(2) by blast
    qed
    moreover have "claims_ok (connections ?d) (profiles ?d)"
      unfolding claims_ok_iff moved_image
    proof (clarsimp, goal_cases)
      case (1 p q)
      with ok claims_okD [of "connections d" "profiles d" p q] obtain c where
          "c \<in> set (connections d)" "pn_id c = vp_connection_id q" "pn_owner_id c \<in> {vp_owner_id p, vp_owner_id q}"
        by (auto simp: deploy_ok_def)
      with 1 show ?case by (auto simp: image_iff intro!: bexI [of _ c])
    qed
    ultimately show ?thesis
      using that keys unfolding deploy_ok_def by blast
  qed
  with ok show ?thesis by (simp add: claim_deploy_owner_def Let_def)
qed

lemma run_deploy_ok: "deploy_ok d \<Longrightarrow> deploy_ok (run_deploy rd x d)"
  by (cases "(rd, x, d)" rule: run_deploy.cases)
    (simp_all only: run_deploy.simps prod.inject connection_calls_ok delete_connection_ok record_events_ok sync_catalog_ok
      claim_profile_ok profile_call_ok update_profile_ok delete_profile_ok create_deployment_ok
      update_deployment_ok activity_ok delete_deployment_ok delete_owner_ok claim_owner_ok)

interpretation deployment_calls: invariant_system "run_deploy rd" deploy_ok for rd
  by unfold_locales (rule run_deploy_ok)


section \<open>Where a deployment speaks\<close>

definition no_deployments :: deploy_db where
  "no_deployments =
     \<lparr>connections = [], catalogs = [], profiles = [], deployments = [], scopes = [], connector_events = [],
      known_cards = []\<rparr>"

lemma no_deployments_ok [simp]: "deploy_ok no_deployments"
  by (simp add: deploy_ok_def no_deployments_def claims_ok_def)

lemma active_discordD:
  "active_discord k connection d = Some r \<Longrightarrow>
    r \<in> set (deployments d) \<and> cd_id r = k \<and> cd_connection_id r = connection \<and> cd_platform r = ''discord''
    \<and> cd_status r = ''active''"
  by (auto simp: active_discord_def dest: tget_mem tget_key split: option.splits if_splits)

text \<open>Whatever calls the deployment repository has served, a deployment that it lets act at a Discord
  destination is active on that connection and bound to that very server. It acts either in the one
  channel and thread it was given, or, attached to a server profile, anywhere in the server that
  neither the profile nor the deployment excludes; and then the profile belongs to the deployment's
  own account and connection.\<close>

theorem deployment_stays_in_its_server:
  assumes "deploy_ok d0" and "d = run_ops (run_deploy rd) calls d0"
    and "deployment_matches k connection guild channel thread category d = Some r"
  shows "cd_id r = k \<and> cd_connection_id r = connection \<and> cd_status r = ''active'' \<and> cd_workspace_id r = guild
    \<and> (case get_scope_row d k of
         None \<Rightarrow> cd_channel_id r = channel \<and> cd_thread_id r = thread
       | Some s \<Rightarrow>
           (\<exists>p \<in> set (profiles d). vp_id p = dz_server_profile_id s \<and> vp_owner_id p = cd_owner_id r
              \<and> vp_connection_id p = connection \<and> vp_guild_id p = guild
              \<and> channel \<notin> set (decode_ids (vp_excluded_channel_ids p)) \<union> set (decode_ids (dz_excluded_channel_ids s))
              \<and> (category \<noteq> [] \<longrightarrow>
                  category \<notin> set (decode_ids (vp_excluded_category_ids p)) \<union> set (decode_ids (dz_excluded_category_ids s)))))"
proof -
  have ok: "deploy_ok d"
    unfolding assms(2) by (rule deployment_calls.inv_run [OF assms(1)])
  from assms(3) have act: "active_discord k connection d = Some r"
    by (auto simp: deployment_matches_def split: option.splits if_splits)
  note r = active_discordD [OF act]
  show ?thesis
  proof (cases "get_scope_row d k")
    case None
    with assms(3) act r show ?thesis by (auto simp: deployment_matches_def split: if_splits)
  next
    case (Some s)
    then have s: "s \<in> set (scopes d)" "dz_deployment_id s = k" by (auto dest: tget_mem tget_key)
    from ok s(1) obtain q p where b: "q \<in> set (deployments d)" "p \<in> set (profiles d)"
        "cd_id q = dz_deployment_id s" "vp_id p = dz_server_profile_id s" "cd_owner_id q = dz_owner_id s"
        "vp_owner_id p = dz_owner_id s" "vp_connection_id p = cd_connection_id q"
        "vp_guild_id p = cd_workspace_id q"
      by (rule scope_boundE)
    have "q = r"
      using keyed_eq [of cd_id "deployments d" q r] ok b(1,3) r s(2) by (simp add: deploy_ok_def)
    moreover have "get_profile_row d (dz_server_profile_id s) = Some p"
      using ok b(2,4) tget_self [of vp_id "profiles d" p] by (simp add: deploy_ok_def)
    ultimately show ?thesis
      using assms(3) act Some r b
      by (auto simp: deployment_matches_def excluded_place_def intro!: bexI [of _ p] split: if_splits)
  qed
qed

text \<open>A Discord server that one account manages is claimed by at most one other account, whatever calls
  have been served one after the other: of two settings rows for the same server on the same
  connection, one belongs to the account that owns the connection.\<close>

theorem server_claimed_once:
  assumes "deploy_ok d0" and "d = run_ops (run_deploy rd) calls d0"
    and "p \<in> set (profiles d)" and "q \<in> set (profiles d)" and "vp_id p \<noteq> vp_id q"
    and "vp_connection_id p = vp_connection_id q" and "vp_guild_id p = vp_guild_id q"
  shows "vp_owner_id p \<noteq> vp_owner_id q
    \<and> (\<exists>c \<in> set (connections d). pn_id c = vp_connection_id p \<and> pn_owner_id c \<in> {vp_owner_id p, vp_owner_id q})"
proof -
  have ok: "deploy_ok d"
    unfolding assms(2) by (rule deployment_calls.inv_run [OF assms(1)])
  have "profile_key p \<noteq> profile_key q"
  proof
    assume "profile_key p = profile_key q"
    with ok assms(3,4) have "p = q" by (auto simp: deploy_ok_def distinct_map inj_on_def)
    with assms(5) show False by simp
  qed
  with assms(6,7) have "vp_owner_id p \<noteq> vp_owner_id q" by (simp add: profile_key_def)
  with ok claims_okD [of "connections d" "profiles d" p q] assms(3-7) show ?thesis
    by (simp add: deploy_ok_def)
qed

section \<open>A server with two accounts\<close>

text \<open>\<open>ann\<close> manages the connection and the server; \<open>bob\<close> claims the server and deploys a Character to it,
  outside one channel.\<close>

definition demo_fields :: connection_fields where
  "demo_fields =
     \<lparr>cf_owner_id = ''ann'', cf_platform = ''discord'', cf_display_name = ''bot'',
      cf_connection_mode = ''managed'', cf_external_account_id = [], cf_status = ''connected'', cf_metadata = []\<rparr>"

definition demo_deployment_request :: deployment_request where
  "demo_deployment_request =
     \<lparr>dp_owner_id = ''bob'', dp_card_id = ''card'', dp_connection_id = ''n'',
      dp_destination = \<lparr>de_workspace_id = [], de_workspace_name = [], de_channel_id = [], de_channel_name = [],
                         de_thread_id = [], de_thread_name = []\<rparr>,
      dp_participation_mode = ''mention_and_reply'', dp_memory_scope = ''channel_isolated'',
      dp_version_label = ''Current'', dp_sticker_count = 0, dp_status = ''active'',
      dp_server_profile_id = ''b'', dp_channel_ids = Some [''secret''], dp_category_ids = None\<rparr>"

definition demo_seen :: seen_server where
  "demo_seen = \<lparr>ssv_guild_id = ''g'', ssv_guild_name = ''Guild'', ssv_channels = JArr []\<rparr>"

definition demo_deploy_calls :: "(time \<times> deploy_op) list" where
  "demo_deploy_calls =
     [(1, CreateConnection ''n'' demo_fields), (2, SyncCatalog ''n'' [(''cat'', demo_seen)] None None),
      (3, CreateProfile ''a'' ''ann'' ''n'' ''mine'' ''g'' ''Guild'' [] [] ''inherit_parent''),
      (4, ClaimProfile ''b'' ''bob'' ''ann'' ''g'' []),
      (5, ClaimProfile ''c'' ''eve'' ''ann'' ''g'' []),
      (6, CreateDeployment ''dep'' demo_deployment_request)]"

definition demo_cards_only :: deploy_db where
  "demo_cards_only = no_deployments\<lparr>known_cards := [demo_card ''card'' ''bob'']\<rparr>"

definition demo_deploy_db :: deploy_db where
  "demo_deploy_db = run_ops (run_deploy demo_redactor) demo_deploy_calls demo_cards_only"

lemma demo_cards_ok: "deploy_ok demo_cards_only"
  by (simp add: demo_cards_only_def deploy_ok_def no_deployments_def claims_ok_def)

lemma demo_deploy_eval:
  "map vp_owner_id (profiles demo_deploy_db) = [''ann'', ''bob'']"
  "map_option cd_owner_id (deployment_matches ''dep'' ''n'' ''g'' ''general'' [] [] demo_deploy_db) = Some ''bob''"
  "deployment_matches ''dep'' ''n'' ''g'' ''secret'' [] [] demo_deploy_db = None"
  by code_simp+

theorem deployment_stays_in_its_server_witness:
  "\<exists>r. deployment_matches ''dep'' ''n'' ''g'' ''general'' [] [] demo_deploy_db = Some r \<and> cd_workspace_id r = ''g''"
proof -
  obtain r where "deployment_matches ''dep'' ''n'' ''g'' ''general'' [] [] demo_deploy_db = Some r"
    using demo_deploy_eval(2) by auto
  with deployment_stays_in_its_server [OF demo_cards_ok demo_deploy_db_def this] show ?thesis by blast
qed

theorem server_claimed_once_witness:
  "\<exists>p \<in> set (profiles demo_deploy_db). \<exists>q \<in> set (profiles demo_deploy_db).
     vp_owner_id p = ''ann'' \<and> vp_owner_id q = ''bob'' \<and> vp_connection_id p = vp_connection_id q \<and> vp_owner_id p \<noteq> vp_owner_id q"
proof -
  have "map (\<lambda>p. (vp_id p, vp_owner_id p, vp_connection_id p, vp_guild_id p)) (profiles demo_deploy_db) =
      [(''a'', ''ann'', ''n'', ''g''), (''b'', ''bob'', ''n'', ''g'')]"
    by code_simp
  then obtain p q where pq: "profiles demo_deploy_db = [p, q]" "vp_id p = ''a''" "vp_id q = ''b''"
      "vp_owner_id p = ''ann''" "vp_owner_id q = ''bob''" "vp_connection_id p = ''n''" "vp_connection_id q = ''n''"
      "vp_guild_id p = ''g''" "vp_guild_id q = ''g''"
    by (auto simp: map_eq_Cons_conv)
  with server_claimed_once [OF demo_cards_ok demo_deploy_db_def, of p q] show ?thesis by auto
qed

text \<open>Two claims that overlap both pass the check, for no constraint of the table stands behind it.\<close>

lemma overlapping_claims_both_succeed:
  "let d = run_ops (run_deploy demo_redactor) (take 3 demo_deploy_calls) demo_cards_only;
       other = (\<lambda>d. snd (claim_server_profile id 4 ''c'' ''eve'' ''ann'' ''g'' [] d))
   in map vp_owner_id (profiles (snd (claim_server_profile other 4 ''b'' ''bob'' ''ann'' ''g'' [] d))) =
        [''ann'', ''eve'', ''bob'']"
  by code_simp

section \<open>Events\<close>

definition event_private :: "redactor \<Rightarrow> connector_event \<Rightarrow> bool" where
  "event_private rd e \<longleftrightarrow>
     ce_message e = operational_message
     \<and> (\<exists>m. ce_details e = dumps (JObj m) \<and> hides rd None (JObj m) \<and> content_free (JObj m))"

definition events_ok :: "redactor \<Rightarrow> connector_event list \<Rightarrow> bool" where
  "events_ok rd t \<longleftrightarrow>
     keyed ce_id t \<and> (\<forall>e \<in> set t. event_private rd e) \<and> (\<forall>k. tcount (\<lambda>e. ce_connection_id e = k) t \<le> event_cap)"

lemma new_event_private:
  assumes "reads_json rd"
  shows "event_private rd (new_event rd now c e occurred)"
proof -
  let ?m = "safe_details rd (case ei_details e of JObj m \<Rightarrow> JObj m | _ \<Rightarrow> JObj [])"
  have m: "hides rd None (JObj ?m) \<and> content_free (JObj ?m)"
    by (rule event_details_hide [OF assms])
  have d: "ce_message (new_event rd now c e occurred) = operational_message"
      "ce_details (new_event rd now c e occurred) = dumps (JObj ?m)"
    by (simp_all only: new_event_def stored_details_def connector_event.simps)
  show ?thesis
    unfolding event_private_def
    by (rule conjI [OF d(1)], rule exI [of _ ?m], rule conjI [OF d(2) m])
qed

lemma insert_events_ok:
  assumes "insert_events rd now c es n t = Inr (m, t')" "reads_json rd" "keyed ce_id t"
    "\<forall>e \<in> set t. event_private rd e"
  shows "keyed ce_id t' \<and> (\<forall>e \<in> set t'. event_private rd e)
    \<and> (\<forall>k. k \<noteq> pn_id c \<longrightarrow> tcount (\<lambda>e. ce_connection_id e = k) t' = tcount (\<lambda>e. ce_connection_id e = k) t)"
  using assms
proof (induction es arbitrary: n t)
  case (Cons e es)
  show ?case
  proof (cases "tget ce_id t (ei_id e)")
    case (Some x)
    with Cons.prems(1) have "insert_events rd now c es n t = Inr (m, t')" by simp
    from Cons.IH [OF this Cons.prems(2,3,4)] show ?thesis .
  next
    case None
    then obtain occurred where occ: "ei_occurred_at e = Some occurred"
      using Cons.prems(1) by (auto split: option.splits)
    let ?r = "new_event rd now c e occurred"
    have key: "ce_id ?r = ei_id e" "ce_connection_id ?r = pn_id c"
      by (simp_all only: new_event_def connector_event.simps)
    have "insert_events rd now c es (Suc n) (tins ?r t) = Inr (m, t')"
      using Cons.prems(1) None occ by simp
    moreover have "keyed ce_id (tins ?r t)"
      using None Cons.prems(3) by (simp add: keyed_tins key)
    moreover have "\<forall>e \<in> set (tins ?r t). event_private rd e"
      unfolding set_tins using Cons.prems(4) new_event_private [OF Cons.prems(2)] by blast
    ultimately have IH: "keyed ce_id t' \<and> (\<forall>e \<in> set t'. event_private rd e)
        \<and> (\<forall>k. k \<noteq> pn_id c \<longrightarrow>
              tcount (\<lambda>e. ce_connection_id e = k) t' = tcount (\<lambda>e. ce_connection_id e = k) (tins ?r t))"
      using Cons.IH Cons.prems(2) by blast
    have "tcount (\<lambda>e. ce_connection_id e = k) (tins ?r t) = tcount (\<lambda>e. ce_connection_id e = k) t"
      if "k \<noteq> pn_id c" for k
      using that by (simp add: tcount_tins key)
    with IH show ?thesis by simp
  qed
qed simp

lemma overflow_bounded:
  assumes "keyed ce_id t"
  shows "tcount (\<lambda>e. ce_connection_id e = k) (tdel (\<lambda>e. ce_id e \<in> set (overflowing k t)) t) \<le> event_cap"
proof -
  let ?rows = "newest_events (filter (\<lambda>e. ce_connection_id e = k) t)"
  let ?kept = "filter (\<lambda>e. ce_connection_id e = k) (tdel (\<lambda>e. ce_id e \<in> set (overflowing k t)) t)"
  have rows: "set ?rows = {e \<in> set t. ce_connection_id e = k}"
    by (simp add: newest_events_def)
  have "set ?kept \<subseteq> set (take event_cap ?rows)"
  proof
    fix e
    assume e: "e \<in> set ?kept"
    then have "e \<in> set ?rows" by (simp add: rows)
    then have "e \<in> set (take event_cap ?rows) \<union> set (drop event_cap ?rows)"
      by (metis append_take_drop_id set_append)
    with e show "e \<in> set (take event_cap ?rows)"
      by (auto simp: overflowing_def)
  qed
  then have "card (set ?kept) \<le> card (set (take event_cap ?rows))"
    by (intro card_mono) simp_all
  also have "\<dots> \<le> event_cap"
    using card_length [of "take event_cap ?rows"] by simp
  also have "card (set ?kept) = length ?kept"
    using assms by (intro distinct_card distinct_filter) (simp add: tdel_def keyed_def distinct_map)
  finally show ?thesis by (simp add: tcount_def)
qed

lemma record_events_private:
  assumes rd: "reads_json rd" and ok: "events_ok rd (connector_events d)"
  shows "events_ok rd (connector_events (snd (record_discord_events rd now k es d)))"
proof (cases "\<exists>c n t. get_connection_row d k = Some c \<and> insert_events rd now c es 0 (connector_events d) = Inr (n, t)
    \<and> connector_events (snd (record_discord_events rd now k es d)) = tdel (\<lambda>e. ce_id e \<in> set (overflowing k t)) t")
  case False
  with ok show ?thesis
    by (fastforce simp: record_discord_events_def split: option.splits sum.splits prod.splits)
next
  case True
  then obtain c n t where c: "get_connection_row d k = Some c"
      "insert_events rd now c es 0 (connector_events d) = Inr (n, t)"
      "connector_events (snd (record_discord_events rd now k es d)) = tdel (\<lambda>e. ce_id e \<in> set (overflowing k t)) t"
    by blast
  from c(1) have k: "pn_id c = k" by (rule tget_key)
  from insert_events_ok [OF c(2) rd] ok
  have t: "keyed ce_id t" "\<forall>e \<in> set t. event_private rd e"
      "\<And>k'. k' \<noteq> k \<Longrightarrow> tcount (\<lambda>e. ce_connection_id e = k') t \<le> event_cap"
    by (simp_all add: events_ok_def k)
  have "tcount (\<lambda>e. ce_connection_id e = k') (tdel (\<lambda>e. ce_id e \<in> set (overflowing k t)) t) \<le> event_cap" for k'
    using overflow_bounded [OF t(1), of k] t(3) [of k'] tcount_tdel_le order_trans
    by (cases "k' = k") (simp, blast)
  with t c(3) show ?thesis by (simp add: events_ok_def keyed_tdel)
qed
lemma events_ok_subset: "events_ok rd t \<Longrightarrow> events_ok rd (tdel P t)"
  unfolding events_ok_def using order_trans [OF tcount_tdel_le] by (simp add: keyed_tdel) blast

lemma events_ok_owner:
  assumes "events_ok rd t"
  shows "events_ok rd (tset P (\<lambda>e. e\<lparr>ce_owner_id := x\<rparr>) t)"
proof -
  have "event_private rd (e\<lparr>ce_owner_id := x\<rparr>) \<longleftrightarrow> event_private rd e" for e
    by (simp add: event_private_def)
  moreover have "tcount (\<lambda>e. ce_connection_id e = k) (tset P (\<lambda>e. e\<lparr>ce_owner_id := x\<rparr>) t) =
      tcount (\<lambda>e. ce_connection_id e = k) t" for k
    by (induction t) (simp_all add: tcount_def tset_def)
  ultimately show ?thesis
    using assms by (auto simp: events_ok_def keyed_tset set_tset)
qed

text \<open>The other calls only remove events or move them to another account.\<close>

lemma put_rows_events [simp]:
  "connector_events (put_connection now k f d) = connector_events d"
  "connector_events (put_profile now k g d) = connector_events d"
  "connector_events (save_deployment now k h d) = connector_events d"
  by (simp_all add: put_connection_def put_profile_def save_deployment_def)

lemma insert_rows_events [simp]:
  "connector_events (snd (insert_profile m p d)) = connector_events d"
  "connector_events (snd (insert_deployment r ss d)) = connector_events d"
  by (simp_all add: insert_profile_def insert_deployment_def)

lemma connection_calls_events [simp]:
  "connector_events (snd (create_connection rd now uid q d)) = connector_events d"
  "connector_events (snd (update_connection rd now k owner c d)) = connector_events d"
  "connector_events (snd (heartbeat_connection rd now k hb d)) = connector_events d"
  "connector_events (snd (sync_discord_server_catalog now k servers visible failed d)) = connector_events d"
  by (simp_all add: create_connection_def update_connection_def heartbeat_connection_def
        sync_discord_server_catalog_def Let_def split: option.split prod.split)

lemma profile_calls_events [simp]:
  "connector_events (snd (claim_server_profile id now uid owner catalog_owner guild name d)) = connector_events d"
  "connector_events (snd (create_server_profile now uid owner k name guild guild_name chs cats policy d)) =
     connector_events d"
  "connector_events (snd (update_server_profile now k owner pc d)) = connector_events d"
  "connector_events (snd (delete_server_profile k owner d)) = connector_events d"
  by (simp_all add: claim_server_profile_def create_server_profile_def update_server_profile_def
        delete_server_profile_def Let_def split: option.split sum.split)

lemma deployment_calls_events [simp]:
  "connector_events (snd (create_deployment now uid dq d)) = connector_events d"
  "connector_events (snd (update_deployment now k owner dc d)) = connector_events d"
  "connector_events (record_deployment_activity now k d) = connector_events d"
  "connector_events (record_deployment_error now k message d) = connector_events d"
  "connector_events (snd (delete_deployment k owner d)) = connector_events d"
  by (simp_all add: create_deployment_def update_deployment_def record_deployment_activity_def
        record_deployment_error_def delete_deployment_def Let_def split: option.split sum.split)

lemma events_ok_step:
  assumes "reads_json rd" "events_ok rd (connector_events d)"
  shows "events_ok rd (connector_events (run_deploy rd x d))"
  using assms record_events_private [OF assms] events_ok_subset [OF assms(2)] events_ok_owner [OF assms(2)]
  by (cases "(rd, x, d)" rule: run_deploy.cases)
    (simp_all add: delete_connection_def delete_deploy_owner_def claim_deploy_owner_def moved_owner_def
       Let_def split: option.split)

interpretation event_log:
  invariant_system "run_deploy rd" "\<lambda>d. reads_json rd \<longrightarrow> events_ok rd (connector_events d)" for rd
  by unfold_locales (blast intro: events_ok_step)

text \<open>The event log of the connectors keeps no content and no credential, and it stays bounded:
  after any sequence of calls every stored event carries the fixed message and details that hide every
  credential and are free of content, whatever the connector reported, and no connection has more than
  5000 of them.\<close>

theorem events_private_and_bounded:
  assumes "reads_json rd" and "connector_events d0 = []" and "d = run_ops (run_deploy rd) calls d0"
  shows "(\<forall>e \<in> set (connector_events d).
      ce_message e = operational_message
      \<and> (\<exists>m. ce_details e = dumps (JObj m) \<and> hides rd None (JObj m) \<and> content_free (JObj m)))
    \<and> tcount (\<lambda>e. ce_connection_id e = k) (connector_events d) \<le> event_cap"
proof -
  have "events_ok rd (connector_events d0)"
    by (simp add: assms(2) events_ok_def)
  with event_log.inv_run [of rd d0 calls] assms(1,3) have "events_ok rd (connector_events d)"
    by blast
  then show ?thesis
    unfolding events_ok_def event_private_def by blast
qed

definition demo_event :: event_item where
  "demo_event =
     \<lparr>ei_id = ''e1'', ei_level = ''info'', ei_event_type = ''reply'', ei_guild_id = ''g'', ei_guild_name = [],
      ei_channel_id = ''general'', ei_channel_name = [], ei_thread_id = [], ei_thread_name = [],
      ei_source_message_id = [], ei_deployment_id = [], ei_character_name = [],
      ei_details = JObj [(''apiKey'', JStr ''k''), (''errorMessage'', JStr ''hello'')],
      ei_occurred_at = Some 3\<rparr>"

definition demo_event_calls :: "(time \<times> deploy_op) list" where
  "demo_event_calls = [(1, CreateConnection ''n'' demo_fields), (4, RecordEvents ''n'' [demo_event])]"

theorem events_private_and_bounded_witness:
  "let d = run_ops (run_deploy demo_redactor) demo_event_calls no_deployments in
     map ce_details (connector_events d) = [dumps (JObj [(''apiKey'', redacted)])]
     \<and> (\<exists>m. dumps (JObj [(''apiKey'', redacted)]) = dumps (JObj m)
          \<and> hides demo_redactor None (JObj m) \<and> content_free (JObj m))
     \<and> tcount (\<lambda>e. ce_connection_id e = ''n'') (connector_events d) \<le> event_cap"
proof -
  let ?d = "run_ops (run_deploy demo_redactor) demo_event_calls no_deployments"
  have stored: "map ce_details (connector_events ?d) = [dumps (JObj [(''apiKey'', redacted)])]"
    by code_simp
  then obtain e where e: "e \<in> set (connector_events ?d)" "ce_details e = dumps (JObj [(''apiKey'', redacted)])"
    by (cases "connector_events ?d") auto
  have hyps: "reads_json demo_redactor" "connector_events no_deployments = []"
    by (simp_all add: reads_json_def demo_redactor_def demo_token_text_def quoted_def no_deployments_def)
  note all = events_private_and_bounded [OF hyps refl, of demo_event_calls "''n''"]
  from conjunct1 [OF all] e have
    "\<exists>m. dumps (JObj [(''apiKey'', redacted)]) = dumps (JObj m)
       \<and> hides demo_redactor None (JObj m) \<and> content_free (JObj m)"
    by (metis (no_types))
  with stored conjunct2 [OF all] show ?thesis
    unfolding Let_def by blast
qed

end
