(* ===== verification/Draft_Freshness.thy ===== *)
theory Draft_Freshness
  imports Room_Store Runtime_Delivery Social_Types
begin

text \<open>
  The source-version policy of an unsent draft (\<open>draft_freshness.py\<close>): whether the room still says
  what the draft was written from. Pure: no judge, no retrieval, no tool.
\<close>

section \<open>The draft and its sources\<close>

text \<open>The binding of a draft to the messages it was written from, out of \<open>CharacterContextTraceView\<close>;
  \<open>tc_rest\<close> holds the report's other fields, which no code here reads.\<close>

record draft_trace =
  tc_target_message_id :: string
  tc_snapshot_revision :: int
  tc_fingerprint :: string
  tc_revisions :: "(string \<times> int) list"
  tc_content_hashes :: "(string \<times> string) list"
  tc_anchor_ids :: "string list"
  tc_requester_id :: string
  tc_origin :: string
  tc_category_id :: string
  tc_refresh_count :: int
  tc_publication_checked_at :: "time option"
  tc_rest :: json

datatype draft_action = KeepDraft | RefreshDraft | DropDraft | BlockDraft

record draft_decision =
  fd_action :: draft_action
  fd_reason :: string
  fd_changed :: "string list"

definition optional_origin :: "draft_trace \<Rightarrow> bool" where
  "optional_origin t \<longleftrightarrow> tc_origin t \<in> {''ambient'', ''continuation''}"

text \<open>
  The pattern of a correction. \<open>re.IGNORECASE\<close> maps a capital letter to its small one and, of the
  letters in the pattern, lets three other code points stand for \<open>i\<close> and \<open>s\<close>. \<open>alnum\<close> is
  \<open>str.isalnum\<close>.
\<close>

definition fold_point :: "nat \<Rightarrow> nat" where
  "fold_point c =
     (if 65 \<le> c \<and> c \<le> 90 then c + 32
      else if c = 304 \<or> c = 305 then 105 else if c = 383 then 115 else c)"

definition points :: "string \<Rightarrow> prose" where
  "points = map of_char"

definition word_end :: "(nat \<Rightarrow> bool) \<Rightarrow> prose \<Rightarrow> bool" where
  "word_end alnum rest = (case rest of [] \<Rightarrow> True | c # _ \<Rightarrow> \<not> (alnum c \<or> c = 95))"

definition after_word :: "prose \<Rightarrow> string \<Rightarrow> prose option" where
  "after_word text word =
     (if map fold_point (take (length word) text) = points word then Some (drop (length word) text) else None)"

definition starts_word :: "(nat \<Rightarrow> bool) \<Rightarrow> prose \<Rightarrow> string \<Rightarrow> bool" where
  "starts_word alnum text word =
     (case after_word text word of None \<Rightarrow> False | Some rest \<Rightarrow> word_end alnum rest)"

definition correction_prefixes :: "prose list" where
  "correction_prefixes =
     [[26356, 27491], [31561, 31561], [31561, 19968, 19979], [19981, 29992, 20102],
      [19981, 38656, 35201, 20102], [19981, 26159], [25913, 25104], [25913, 28858], [25913, 20026],
      [20854, 23526], [20854, 23454]]"

definition correction :: "(nat \<Rightarrow> bool) \<Rightarrow> prose \<Rightarrow> bool" where
  "correction alnum text \<longleftrightarrow>
     list_ex (starts_word alnum text) [''actually'', ''correction'', ''wait'', ''instead'']
     \<or> (case after_word text ''never'' of
          None \<Rightarrow> False
        | Some rest \<Rightarrow> starts_word alnum (dropWhile is_space_point rest) ''mind'')
     \<or> list_ex (\<lambda>p. take (length p) text = p) correction_prefixes"

text \<open>The two reasons for a source to matter: it changed since, or it is a relevant new message.\<close>

definition materially_changed :: "room_digests \<Rightarrow> draft_trace \<Rightarrow> int \<Rightarrow> stored_source \<Rightarrow> bool" where
  "materially_changed h t revision s =
     (case map_of (tc_content_hashes t) (source_id s) of
        Some prior \<Rightarrow>
          if prior = [] then ss_revision s \<noteq> revision else draft_fingerprint h (ss_message s) \<noteq> prior
      | None \<Rightarrow> ss_revision s \<noteq> revision)"

definition draft_anchors :: "draft_trace \<Rightarrow> string list" where
  "draft_anchors t = (if tc_anchor_ids t = [] then [tc_target_message_id t] else tc_anchor_ids t)"

definition relevant_source :: "(nat \<Rightarrow> bool) \<Rightarrow> room_digests \<Rightarrow> draft_trace \<Rightarrow> stored_source \<Rightarrow> bool" where
  "relevant_source alnum h t s =
     (case map_of (tc_revisions t) (source_id s) of
        Some revision \<Rightarrow> materially_changed h t revision s
      | None \<Rightarrow>
          tc_snapshot_revision t < ss_room_revision s \<and> \<not> sm_author_is_bot (ss_message s)
          \<and> (sm_reply_to (ss_message s) \<in> set (draft_anchors t)
             \<or> (sm_author_id (ss_message s) = tc_requester_id t
                \<and> correction alnum (strip_by is_space_point (sm_text (ss_message s))))))"

definition human_interrupted :: "draft_trace \<Rightarrow> stored_source list \<Rightarrow> bool" where
  "human_interrupted t sources \<longleftrightarrow>
     list_ex (\<lambda>s. tc_snapshot_revision t < ss_room_revision s
       \<and> source_id s \<notin> set (map fst (tc_revisions t)) \<and> \<not> sm_author_is_bot (ss_message s)) sources"

definition changed_sources :: "(nat \<Rightarrow> bool) \<Rightarrow> room_digests \<Rightarrow> draft_trace \<Rightarrow> stored_source list \<Rightarrow> string list" where
  "changed_sources alnum h t sources = map source_id (filter (relevant_source alnum h t) sources)"

definition assess_draft ::
  "(nat \<Rightarrow> bool) \<Rightarrow> room_digests \<Rightarrow> draft_trace \<Rightarrow> focused_context \<Rightarrow> bool \<Rightarrow> bool \<Rightarrow> draft_decision" where
  "assess_draft alnum h t current writable expired =
     (let stop = (if optional_origin t then DropDraft else BlockDraft);
          changed = changed_sources alnum h t (fc_sources current) in
      if \<not> writable then \<lparr>fd_action = BlockDraft, fd_reason = ''destination_not_writable'', fd_changed = []\<rparr>
      else if expired then \<lparr>fd_action = stop, fd_reason = ''draft_deadline_exceeded'', fd_changed = []\<rparr>
      else if tc_target_message_id t = [] \<or> tc_target_message_id t \<noteq> fc_target_message_id current
      then \<lparr>fd_action = BlockDraft, fd_reason = ''draft_source_binding_missing'', fd_changed = []\<rparr>
      else if tc_origin t = ''continuation'' \<and> human_interrupted t (fc_sources current)
      then \<lparr>fd_action = DropDraft, fd_reason = ''human_priority_over_optional_continuation'', fd_changed = []\<rparr>
      else if changed = [] then \<lparr>fd_action = KeepDraft, fd_reason = ''source_unchanged'', fd_changed = []\<rparr>
      else if tc_refresh_count t \<noteq> 0
      then \<lparr>fd_action = stop, fd_reason = ''draft_obsolete_after_refresh'', fd_changed = changed\<rparr>
      else \<lparr>fd_action = RefreshDraft, fd_reason = ''relevant_source_change'', fd_changed = changed\<rparr>)"

end
