(* ===== verification/Draft_Runtime.thy ===== *)
theory Draft_Runtime
  imports Draft_Freshness Deployment_Store
begin

text \<open>
  The publication preflight of a draft with its single refresh (\<open>draft_runtime.py\<close>), and the
  validation that a delivery claim repeats (\<open>_validate_publication\<close> of
  \<open>persistence/runtime_durability_repository.py\<close>).

  What the Pydantic models accept and how they dump is an argument (\<open>draft_codec\<close>), as is the answer
  of the provider that revises a draft. Other sessions may commit between any two transactions of a
  preflight (\<open>draft_others\<close>); \<open>now\<close> and \<open>later\<close> are the clock before and after the refresh.
\<close>

section \<open>Replies\<close>

datatype reply_action = SilentReply | VisibleReply | ExpressionReply

datatype smart_view = IgnoreView | MessageView string string | OtherView json

text \<open>\<open>DiscordConnectorReplyView\<close>: the fields that a preflight reads or replaces, and the rest. Without an
  expression is the default \<open>ExpressionDecision()\<close>; a tool call is its tool and status.\<close>

record draft_reply =
  dr_action :: reply_action
  dr_reason :: string
  dr_text :: "string option"
  dr_smart :: "smart_view option"
  dr_trace :: "draft_trace option"
  dr_expression :: "json option"
  dr_tools :: "(string \<times> string) list"
  dr_input_tokens :: "int option"
  dr_output_tokens :: "int option"
  dr_latency :: "int option"
  dr_delivery_required :: bool
  dr_rest :: json

text \<open>\<open>DiscordSocialTurnStepView\<close>.\<close>

record social_step_view =
  sv_reply :: draft_reply
  sv_cursor :: social_cursor
  sv_next_turn :: "pending_turn option"
  sv_done :: bool
  sv_delivery_required :: bool
  sv_rest :: json

record draft_codec =
  dc_reply :: "json \<Rightarrow> draft_reply option"
  dc_step :: "json \<Rightarrow> social_step_view option"
  dc_cursor :: "json \<Rightarrow> social_cursor option"
  dc_trace :: "json \<Rightarrow> draft_trace option"
  dc_dump_reply :: "draft_reply \<Rightarrow> json"
  dc_dump_step :: "social_step_view \<Rightarrow> json"
  dc_dump_cursor :: "social_cursor \<Rightarrow> json"

definition validated :: "(json \<Rightarrow> 'v option) \<Rightarrow> json \<Rightarrow> error + 'v" where
  "validated read v = (case read v of None \<Rightarrow> Inl ValidationError | Some x \<Rightarrow> Inr x)"

definition read_cursor :: "draft_codec \<Rightarrow> json_text \<Rightarrow> error + social_cursor" where
  "read_cursor c raw = (case loads raw of None \<Rightarrow> Inl ValidationError | Some v \<Rightarrow> validated (dc_cursor c) v)"

text \<open>\<open>_reply\<close>.\<close>

definition stored_reply :: "draft_codec \<Rightarrow> json_text \<Rightarrow> error + draft_reply" where
  "stored_reply c raw =
     (case loads raw of
        None \<Rightarrow> Inl (ValueError ''JSONDecodeError'')
      | Some (JObj ob) \<Rightarrow> validated (dc_reply c) (jget ob ''reply'' (JObj ob))
      | Some _ \<Rightarrow> Inl AttributeError)"

text \<open>\<open>_replace\<close>, with Python's \<open>in\<close> on the decoded value.\<close>

definition names_reply :: "json \<Rightarrow> error + bool" where
  "names_reply v =
     (case v of
        JObj ob \<Rightarrow> Inr (''reply'' \<in> set (map fst ob))
      | JArr xs \<Rightarrow> Inr (JStr ''reply'' \<in> set xs)
      | JStr s \<Rightarrow> Inr (list_ex (\<lambda>i. take 5 (drop i s) = ''reply'') [0..<length s])
      | _ \<Rightarrow> Inl TypeError)"

definition next_pending :: "social_cursor \<Rightarrow> pending_turn option" where
  "next_pending c = (case pending_turns c of [] \<Rightarrow> None | t # _ \<Rightarrow> Some t)"

definition replaced_view :: "draft_reply \<Rightarrow> social_cursor \<Rightarrow> social_step_view \<Rightarrow> social_step_view" where
  "replaced_view reply cursor v =
     v\<lparr>sv_reply := reply, sv_cursor := cursor, sv_next_turn := next_pending cursor,
       sv_done := (pending_turns cursor = []), sv_delivery_required := (dr_action reply \<noteq> SilentReply)\<rparr>"

definition replaced_response ::
  "draft_codec \<Rightarrow> json_text \<Rightarrow> draft_reply \<Rightarrow> json_text \<Rightarrow> error + json_text" where
  "replaced_response c raw reply cursor =
     (case loads raw of
        None \<Rightarrow> Inl (ValueError ''JSONDecodeError'')
      | Some v \<Rightarrow>
          (case names_reply v of
             Inl e \<Rightarrow> Inl e
           | Inr named \<Rightarrow>
               if \<not> named then Inr (dumps (dc_dump_reply c reply))
               else
                 (case validated (dc_step c) v of
                    Inl e \<Rightarrow> Inl e
                  | Inr view \<Rightarrow>
                      map_sum id (\<lambda>parsed. dumps (dc_dump_step c (replaced_view reply parsed view)))
                        (read_cursor c cursor))))"

definition silenced :: "string \<Rightarrow> draft_reply \<Rightarrow> draft_reply" where
  "silenced reason reply =
     reply\<lparr>dr_action := SilentReply, dr_text := None, dr_smart := Some IgnoreView, dr_reason := reason,
           dr_delivery_required := False\<rparr>"

section \<open>Loading, reserving and saving\<close>

datatype disposition = Kept | Refreshed | Dropped | Blocked | BeingChecked

record preflight_view =
  pv_disposition :: disposition
  pv_reason :: string
  pv_reply :: "draft_reply option"
  pv_cursor :: "social_cursor option"

definition bare_view :: "disposition \<Rightarrow> string \<Rightarrow> preflight_view" where
  "bare_view x reason = \<lparr>pv_disposition = x, pv_reason = reason, pv_reply = None, pv_cursor = None\<rparr>"

definition load_draft ::
  "room_scope \<Rightarrow> string \<Rightarrow> string \<Rightarrow> 'a runtime_db_scheme \<Rightarrow> error + runtime_operation \<times> runtime_step" where
  "load_draft s operation sid d =
     (case (get_operation d operation, get_step d sid) of
        (Some r, Some st) \<Rightarrow>
          if st_operation_id st \<noteq> operation
            \<or> (op_connection_id r, op_guild_id r, op_channel_id r, op_thread_id r)
               \<noteq> (sc_connection_id s, sc_guild_id s, sc_channel_id s, sc_thread_id s)
          then Inl (SourceUnavailable ''draft_not_found'')
          else Inr (r, st)
      | _ \<Rightarrow> Inl (SourceUnavailable ''draft_not_found''))"

text \<open>The conditional update: only the generated text that was loaded is reserved.\<close>

definition reserve_draft ::
  "time \<Rightarrow> runtime_step \<Rightarrow> 'a runtime_db_scheme \<Rightarrow> bool \<times> 'a runtime_db_scheme" where
  "reserve_draft now st d =
     (case get_step d (st_id st) of
        None \<Rightarrow> (False, d)
      | Some cur \<Rightarrow>
          if st_status cur = Generated \<and> st_response cur = st_response st
          then (True, put_step (st_id st) (\<lambda>r. r\<lparr>st_status := Refreshing, st_updated_at := now\<rparr>) d)
          else (False, d))"

text \<open>The cursor that the draft leaves. A revised text has no structured invitation, and a silent one
  was no turn: the speakers so far are those of the operation.\<close>

definition without_invitations :: "string \<Rightarrow> social_cursor \<Rightarrow> social_cursor" where
  "without_invitations deployment cursor =
     cursor\<lparr>pending_turns := filter (\<lambda>p. pt_source_deployment_id p \<noteq> deployment) (pending_turns cursor)\<rparr>"

definition saved_cursor ::
  "draft_codec \<Rightarrow> runtime_operation \<Rightarrow> runtime_step \<Rightarrow> bool \<Rightarrow> bool \<Rightarrow> error + social_cursor" where
  "saved_cursor c r st refreshed silent =
     (case read_cursor c (st_cursor st) of
        Inl e \<Rightarrow> Inl e
      | Inr cursor \<Rightarrow>
          (let cursor' = (if refreshed \<or> silent then without_invitations (st_deployment_id st) cursor else cursor) in
           if \<not> silent then Inr cursor'
           else
             (case read_cursor c (op_cursor r) of
                Inl e \<Rightarrow> Inl e
              | Inr old \<Rightarrow>
                  Inr (cursor'\<lparr>completed_deployment_ids := completed_deployment_ids old,
                               pending_turns := filter (\<lambda>p. pt_origin p = Selected) (pending_turns cursor')\<rparr>))))"

definition checked_reply :: "time \<Rightarrow> draft_reply \<Rightarrow> draft_reply" where
  "checked_reply now reply =
     (if dr_action reply = SilentReply then reply
      else reply\<lparr>dr_trace := map_option (\<lambda>t. t\<lparr>tc_publication_checked_at := Some now\<rparr>) (dr_trace reply)\<rparr>)"

definition saved_step :: "time \<Rightarrow> json_text \<Rightarrow> json_text \<Rightarrow> string \<Rightarrow> bool \<Rightarrow> runtime_step \<Rightarrow> runtime_step" where
  "saved_step now cursor response reason silent st =
     st\<lparr>st_cursor := cursor, st_response := response, st_status := (if silent then Silent else Generated),
        st_last_error := (if silent then reason else []), st_updated_at := now\<rparr>"

definition write_draft ::
  "time \<Rightarrow> string \<Rightarrow> string \<Rightarrow> json_text \<Rightarrow> json_text \<Rightarrow> string \<Rightarrow> bool \<Rightarrow> 'a runtime_db_scheme
    \<Rightarrow> 'a runtime_db_scheme" where
  "write_draft now operation sid cursor response reason silent d =
     (let d1 = put_step sid (saved_step now cursor response reason silent) d in
      if silent
      then save_operation now operation (\<lambda>r. r\<lparr>op_last_error := reason\<rparr>) (advance_operation now operation cursor d1)
      else d1)"

definition optional_draft :: "draft_reply \<Rightarrow> bool" where
  "optional_draft reply = (case dr_trace reply of None \<Rightarrow> False | Some t \<Rightarrow> optional_origin t)"

definition disposition_of :: "draft_reply \<Rightarrow> bool \<Rightarrow> disposition" where
  "disposition_of reply refreshed =
     (if dr_action reply = SilentReply then (if optional_draft reply then Dropped else Blocked)
      else if refreshed then Refreshed else Kept)"

text \<open>\<open>_save\<close>.\<close>

definition save_draft ::
  "draft_codec \<Rightarrow> time \<Rightarrow> string \<Rightarrow> draft_reply \<Rightarrow> string \<Rightarrow> bool \<Rightarrow> 'a runtime_db_scheme
    \<Rightarrow> (preflight_view, 'a runtime_db_scheme) outcome" where
  "save_draft c now sid reply reason refreshed d =
     (case get_step d sid of
        None \<Rightarrow> (Inl (SourceUnavailable ''draft_changed_during_preflight''), d)
      | Some st \<Rightarrow>
          if st_status st \<noteq> Refreshing then (Inl (SourceUnavailable ''draft_changed_during_preflight''), d)
          else
            (case get_operation d (st_operation_id st) of
               None \<Rightarrow> (Inl (SourceUnavailable ''draft_operation_no_longer_active''), d)
             | Some r \<Rightarrow>
                 if op_status r \<notin> {OpActive, OpAwaitingDelivery}
                 then (Inl (SourceUnavailable ''draft_operation_no_longer_active''), d)
                 else
                   (let silent = (dr_action reply = SilentReply); reply' = checked_reply now reply in
                    case saved_cursor c r st refreshed silent of
                      Inl e \<Rightarrow> (Inl e, d)
                    | Inr cursor \<Rightarrow>
                        (let raw = dumps (dc_dump_cursor c cursor) in
                         case replaced_response c (st_response st) reply' raw of
                           Inl e \<Rightarrow> (Inl e, d)
                         | Inr response \<Rightarrow>
                             (Inr \<lparr>pv_disposition = disposition_of reply' refreshed, pv_reason = reason,
                                   pv_reply = Some reply', pv_cursor = Some cursor\<rparr>,
                              write_draft now (op_id r) sid raw response reason silent d)))))"

section \<open>The refresh\<close>

text \<open>\<open>RefreshedText\<close>: no text is an \<open>ignore\<close>.\<close>

definition refreshed_text :: "json_text \<Rightarrow> error + string" where
  "refreshed_text raw =
     (case loads raw of
        Some (JObj ob) \<Rightarrow>
          (case jget ob ''text'' (JStr []) of
             JStr s \<Rightarrow>
               if set (map fst ob) \<subseteq> {''action'', ''text''} \<and> length s \<le> 4000
                 \<and> (jget ob ''action'' JNull = JStr ''message'' \<and> strip s \<noteq> []
                    \<or> jget ob ''action'' JNull = JStr ''ignore'' \<and> s = [])
               then Inr s else Inl ValidationError
           | _ \<Rightarrow> Inl ValidationError)
      | _ \<Rightarrow> Inl ValidationError)"

text \<open>\<open>legacy_message_output\<close>; a text part has at most 2000 characters.\<close>

definition message_output :: "string \<Rightarrow> string \<Rightarrow> error + smart_view" where
  "message_output message target =
     (let cleaned = strip message in
      if cleaned = [] then Inr IgnoreView
      else if 2000 < length cleaned then Inl ValidationError else Inr (MessageView cleaned target))"

definition by_message :: "(stored_source \<Rightarrow> 'v) \<Rightarrow> stored_source list \<Rightarrow> (string \<times> 'v) list" where
  "by_message f xs = fold (\<lambda>x. AList.update (source_id x) (f x)) xs []"

definition rebound_trace :: "room_digests \<Rightarrow> focused_context \<Rightarrow> draft_trace \<Rightarrow> draft_trace" where
  "rebound_trace h f t =
     t\<lparr>tc_refresh_count := 1, tc_anchor_ids := fc_anchor_ids f, tc_fingerprint := focus_fingerprint h f,
       tc_snapshot_revision := fc_room_revision f, tc_revisions := by_message ss_revision (fc_sources f),
       tc_content_hashes := by_message (\<lambda>x. draft_fingerprint h (ss_message x)) (fc_sources f)\<rparr>"

record draft_answer =
  da_text :: json_text
  da_input_tokens :: "int option"
  da_output_tokens :: "int option"
  da_latency :: "int option"

text \<open>What the provider of the Character's card does: there is no card or target, the call raises (also
  after 45 seconds), or it answers.\<close>

datatype provider_result = NoTarget | ProviderRaises error | ProviderAnswers draft_answer

definition total_tokens :: "int option \<Rightarrow> int option \<Rightarrow> int option" where
  "total_tokens a b = (case (a, b) of (Some x, Some y) \<Rightarrow> Some (x + y) | _ \<Rightarrow> None)"

definition refreshed_reply ::
  "room_digests \<Rightarrow> focused_context \<Rightarrow> draft_answer \<Rightarrow> string \<Rightarrow> smart_view \<Rightarrow> draft_trace \<Rightarrow> draft_reply
    \<Rightarrow> draft_reply" where
  "refreshed_reply h f a message smart t reply =
     reply\<lparr>dr_action := (if message = [] then SilentReply else VisibleReply),
           dr_text := (if message = [] then None else Some message),
           dr_reason := (if message = [] then ''draft_no_longer_useful'' else ''draft_refreshed''),
           dr_smart := Some smart, dr_trace := Some (rebound_trace h f t), dr_expression := None,
           dr_input_tokens := total_tokens (dr_input_tokens reply) (da_input_tokens a),
           dr_output_tokens := total_tokens (dr_output_tokens reply) (da_output_tokens a),
           dr_latency := Some ((case dr_latency reply of None \<Rightarrow> 0 | Some x \<Rightarrow> x)
                               + (case da_latency a of None \<Rightarrow> 0 | Some x \<Rightarrow> x))\<rparr>"

definition refresh_draft ::
  "room_digests \<Rightarrow> provider_result \<Rightarrow> focused_context \<Rightarrow> draft_reply \<Rightarrow> error + draft_reply" where
  "refresh_draft h provider f reply =
     (case provider of
        NoTarget \<Rightarrow> Inl (SourceUnavailable ''draft_card_unavailable'')
      | ProviderRaises e \<Rightarrow> Inl e
      | ProviderAnswers a \<Rightarrow>
          (case refreshed_text (da_text a) of
             Inl e \<Rightarrow> Inl e
           | Inr message \<Rightarrow>
               (case dr_trace reply of
                  None \<Rightarrow> Inl AssertionError
                | Some t \<Rightarrow>
                    if message = [] \<and> \<not> optional_origin t
                    then Inl (SourceUnavailable ''direct_draft_refresh_declined'')
                    else
                      map_sum id (\<lambda>smart. refreshed_reply h f a message smart t reply)
                        (if message = [] then Inr IgnoreView else message_output message (fc_target_message_id f)))))"

section \<open>The preflight\<close>

text \<open>What other sessions commit between the transactions of one preflight: after the draft is loaded,
  after it is reserved, after its room is read, during the refresh, and after the room is read again.\<close>

record 'd draft_others =
  do_loaded :: "'d \<Rightarrow> 'd"
  do_reserved :: "'d \<Rightarrow> 'd"
  do_read :: "'d \<Rightarrow> 'd"
  do_refreshed :: "'d \<Rightarrow> 'd"
  do_reread :: "'d \<Rightarrow> 'd"

record preflight_request =
  pq_scope :: room_scope
  pq_operation_id :: string
  pq_step_id :: string
  pq_deployment :: "character_deployment option"
  pq_writable :: bool

definition draft_lifetime :: time where
  "draft_lifetime = minutes 10"

text \<open>\<open>str(exc) if isinstance(exc, SourceUnavailable) else "draft_refresh_failed"\<close>.\<close>

definition failure_reason :: "error \<Rightarrow> string" where
  "failure_reason e = (case e of SourceUnavailable reason \<Rightarrow> reason | _ \<Rightarrow> ''draft_refresh_failed'')"

text \<open>The loop over the draft's sources: an erased one ends it with \<open>removed\<close>.\<close>

fun removed_source ::
  "error \<Rightarrow> room_digests \<Rightarrow> room_scope \<Rightarrow> string list \<Rightarrow> 'a room_db_scheme \<Rightarrow> error option" where
  "removed_source removed h s [] d = None"
| "removed_source removed h s (mid # mids) d =
     (case get_stored h s mid d of
        Inl e \<Rightarrow> Some e
      | Inr old \<Rightarrow>
          (case old of
             Some x \<Rightarrow> if unusable x then Some removed else removed_source removed h s mids d
           | None \<Rightarrow> removed_source removed h s mids d))"

definition draft_focus ::
  "room_digests \<Rightarrow> room_scope \<Rightarrow> draft_trace \<Rightarrow> 'a room_db_scheme \<Rightarrow> error + focused_context" where
  "draft_focus h s t = focus h s (tc_target_message_id t) default_recent default_ancestors default_chars"

text \<open>The target, the deployment and the room: what a draft is assessed against.\<close>

definition bound_draft ::
  "preflight_request \<Rightarrow> runtime_step \<Rightarrow> draft_reply \<Rightarrow> error + character_deployment \<times> draft_trace" where
  "bound_draft q st reply =
     (case pq_deployment q of
        None \<Rightarrow> Inl (SourceUnavailable ''draft_deployment_revoked'')
      | Some dep \<Rightarrow>
          if cd_id dep \<noteq> st_deployment_id st then Inl (SourceUnavailable ''draft_deployment_revoked'')
          else
            (case dr_trace reply of
               None \<Rightarrow> Inl (SourceUnavailable ''draft_source_binding_missing'')
             | Some t \<Rightarrow>
                 if tc_target_message_id t = [] then Inl (SourceUnavailable ''draft_source_binding_missing'')
                 else Inr (dep, t)))"

definition owner_scope :: "room_scope \<Rightarrow> character_deployment \<Rightarrow> room_scope" where
  "owner_scope s dep = s\<lparr>sc_owner_id := cd_owner_id dep\<rparr>"

definition read_draft_room ::
  "room_digests \<Rightarrow> room_scope \<Rightarrow> draft_trace \<Rightarrow> 'a room_db_scheme \<Rightarrow> error + focused_context" where
  "read_draft_room h s t d =
     (case draft_focus h s t d of
        Inl e \<Rightarrow> Inl e
      | Inr f \<Rightarrow>
          (case removed_source (SourceUnavailable ''draft_source_removed'') h s (map fst (tc_revisions t)) d of
             Some e \<Rightarrow> Inl e
           | None \<Rightarrow> Inr f))"

text \<open>After the answer: the room is read again, and only a draft that is current there is kept.\<close>

definition settle_refresh ::
  "(nat \<Rightarrow> bool) \<Rightarrow> draft_codec \<Rightarrow> room_digests \<Rightarrow> ('a room_db_scheme) draft_others \<Rightarrow> time
    \<Rightarrow> preflight_request \<Rightarrow> room_scope \<Rightarrow> draft_trace \<Rightarrow> draft_reply \<Rightarrow> 'a room_db_scheme
    \<Rightarrow> (preflight_view, 'a room_db_scheme) outcome" where
  "settle_refresh alnum c h others later q s t refreshed d =
     (case draft_focus h s t d of
        Inl e \<Rightarrow> (Inl e, d)
      | Inr latest \<Rightarrow>
          (case dr_trace refreshed of
             None \<Rightarrow> (Inl AssertionError, d)
           | Some rebound \<Rightarrow>
               (let after = assess_draft alnum h rebound latest (pq_writable q) False in
                if fd_action after \<noteq> KeepDraft
                then save_draft c later (pq_step_id q) (silenced (fd_reason after) refreshed) (fd_reason after)
                       True (do_reread others d)
                else save_draft c later (pq_step_id q) refreshed (dr_reason refreshed) True (do_reread others d))))"

text \<open>The body of the \<open>try\<close>, on the reserved draft.\<close>

definition check_draft ::
  "(nat \<Rightarrow> bool) \<Rightarrow> draft_codec \<Rightarrow> room_digests \<Rightarrow> ('a room_db_scheme) draft_others \<Rightarrow> provider_result
    \<Rightarrow> time \<Rightarrow> time \<Rightarrow> preflight_request \<Rightarrow> runtime_step \<Rightarrow> draft_reply \<Rightarrow> 'a room_db_scheme
    \<Rightarrow> (preflight_view, 'a room_db_scheme) outcome" where
  "check_draft alnum c h others provider now later q st reply d =
     (case bound_draft q st reply of
        Inl e \<Rightarrow> (Inl e, d)
      | Inr (dep, t) \<Rightarrow>
          (let s = owner_scope (pq_scope q) dep; d1 = do_reserved others d in
           case read_draft_room h s t d1 of
             Inl e \<Rightarrow> (Inl e, d1)
           | Inr f \<Rightarrow>
               (let decision = assess_draft alnum h t f (pq_writable q) (draft_lifetime < now - st_created_at st);
                    d2 = do_read others d1 in
                case fd_action decision of
                  KeepDraft \<Rightarrow> save_draft c now (pq_step_id q) reply (fd_reason decision) False d2
                | RefreshDraft \<Rightarrow>
                    (let d3 = do_refreshed others d2 in
                     case refresh_draft h provider f reply of
                       Inl e \<Rightarrow> (Inl e, d3)
                     | Inr refreshed \<Rightarrow> settle_refresh alnum c h others later q s t refreshed d3)
                | _ \<Rightarrow> (Inl (SourceUnavailable (fd_reason decision)), d2))))"

definition preflight ::
  "(nat \<Rightarrow> bool) \<Rightarrow> draft_codec \<Rightarrow> room_digests \<Rightarrow> ('a room_db_scheme) draft_others \<Rightarrow> provider_result
    \<Rightarrow> time \<Rightarrow> time \<Rightarrow> preflight_request \<Rightarrow> 'a room_db_scheme
    \<Rightarrow> (preflight_view, 'a room_db_scheme) outcome" where
  "preflight alnum c h others provider now later q d =
     (case load_draft (pq_scope q) (pq_operation_id q) (pq_step_id q) d of
        Inl e \<Rightarrow> (Inl e, d)
      | Inr (r, st) \<Rightarrow>
          if st_status st = Refreshing then (Inr (bare_view BeingChecked ''draft_refresh_in_progress''), d)
          else if st_status st \<noteq> Generated \<or> op_status r \<notin> {OpActive, OpAwaitingDelivery}
          then (Inr (bare_view Blocked ''draft_not_publishable''), d)
          else
            (case stored_reply c (st_response st) of
               Inl e \<Rightarrow> (Inl e, d)
             | Inr reply \<Rightarrow>
                 (let (reserved, d') = reserve_draft now st (do_loaded others d) in
                  if \<not> reserved then (Inr (bare_view BeingChecked ''draft_preflight_in_progress''), d')
                  else
                    (case check_draft alnum c h others provider now later q st reply d' of
                       (Inr v, d'') \<Rightarrow> (Inr v, d'')
                     | (Inl e, d'') \<Rightarrow>
                         save_draft c later (pq_step_id q) (silenced (failure_reason e) reply) (failure_reason e)
                           False d''))))"

section \<open>The check of a claim\<close>

text \<open>\<open>_validate_publication\<close>. A reply without a bound source is no room turn and is not checked.\<close>

definition truthy :: "json \<Rightarrow> bool" where
  "truthy v \<longleftrightarrow> v \<notin> {JNull, JBool False, JInt 0, JStr [], JArr [], JObj []}"

definition bound_context :: "json_text \<Rightarrow> (string \<times> json) list option" where
  "bound_context response =
     (let raw = object_of response in
      case jget raw ''reply'' (JObj raw) of
        JObj reply \<Rightarrow>
          (case jget reply ''context_trace'' JNull of
             JObj context \<Rightarrow>
               if truthy (jget context ''source_target_message_id'' JNull) then Some context else None
           | _ \<Rightarrow> None)
      | _ \<Rightarrow> None)"

definition publication_window :: time where
  "publication_window = seconds 15"

definition claim_refusal ::
  "(nat \<Rightarrow> bool) \<Rightarrow> room_digests \<Rightarrow> time \<Rightarrow> deploy_db \<Rightarrow> 'a room_db_scheme \<Rightarrow> runtime_operation \<Rightarrow> runtime_step
    \<Rightarrow> draft_trace \<Rightarrow> error option" where
  "claim_refusal alnum h now deploy d r st t =
     (case tc_publication_checked_at t of
        None \<Rightarrow> Some (ValueError ''draft_preflight_required'')
      | Some checked \<Rightarrow>
          if \<not> (0 \<le> now - checked \<and> now - checked \<le> publication_window)
          then Some (ValueError ''draft_preflight_expired'')
          else
            (case get_deployment_row deploy (st_deployment_id st) of
               None \<Rightarrow> Some (ValueError ''draft_deployment_revoked'')
             | Some dep \<Rightarrow>
                 if cd_status dep \<noteq> ''active'' then Some (ValueError ''draft_deployment_revoked'')
                 else if deployment_matches (st_deployment_id st) (op_connection_id r) (op_guild_id r)
                        (op_channel_id r) (op_thread_id r) (tc_category_id t) deploy = None
                 then Some (ValueError ''draft_deployment_scope_revoked'')
                 else
                   (let s = owner_scope (operation_scope r) dep in
                    if \<not> valid_scope s then Some ValidationError
                    else
                      (case draft_focus h s t d of
                         Inl e \<Rightarrow> Some e
                       | Inr f \<Rightarrow>
                           (case removed_source (ValueError ''draft_source_removed'') h s (map fst (tc_revisions t)) d of
                              Some e \<Rightarrow> Some e
                            | None \<Rightarrow>
                                if fd_action (assess_draft alnum h t f True False) \<noteq> KeepDraft
                                then Some (ValueError ''draft_preflight_required'') else None)))))"

definition validate_publication ::
  "(nat \<Rightarrow> bool) \<Rightarrow> draft_codec \<Rightarrow> room_digests \<Rightarrow> time \<Rightarrow> deploy_db \<Rightarrow> 'a room_db_scheme
    \<Rightarrow> runtime_operation \<Rightarrow> runtime_step \<Rightarrow> error option" where
  "validate_publication alnum c h now deploy d r st =
     (case bound_context (st_response st) of
        None \<Rightarrow> None
      | Some context \<Rightarrow>
          (case validated (dc_trace c) (JObj context) of
             Inl e \<Rightarrow> Some e
           | Inr t \<Rightarrow> claim_refusal alnum h now deploy d r st t))"

text \<open>The claim of a room turn: \<open>claim_delivery\<close> with this check, on the database that it reads.\<close>

definition claim_room_delivery ::
  "(nat \<Rightarrow> bool) \<Rightarrow> draft_codec \<Rightarrow> room_digests \<Rightarrow> ('a room_db_scheme \<Rightarrow> 'a room_db_scheme) \<Rightarrow> time \<Rightarrow> deploy_db
    \<Rightarrow> string \<Rightarrow> string \<Rightarrow> string \<Rightarrow> 'a room_db_scheme
    \<Rightarrow> (delivery_claim \<times> runtime_step, 'a room_db_scheme) outcome" where
  "claim_room_delivery alnum c h others now deploy operation sid nonce d =
     claim_delivery (validate_publication alnum c h now deploy d) others now operation sid nonce d"

end
