(* ===== verification/Draft_Safety.thy ===== *)
theory Draft_Safety
  imports Draft_Runtime Room_System
begin

text \<open>
  What the check of a draft promises: what a granted claim publishes was current when it was granted;
  a preflight keeps only current drafts, refreshes each at most once and silences the others; and it
  decides: a draft that it reserves does not stay reserved.
\<close>

section \<open>Current drafts\<close>

text \<open>
  A draft is current for a reading of its room when no message that it was written from has changed,
  and no newer message of a member answers it, is a correction by its requester, or takes the turn
  from an optional continuation.
\<close>

definition unchanged_source :: "room_digests \<Rightarrow> draft_trace \<Rightarrow> int \<Rightarrow> stored_source \<Rightarrow> bool" where
  "unchanged_source h t revision x \<longleftrightarrow>
     (case map_of (tc_content_hashes t) (source_id x) of
        None \<Rightarrow> ss_revision x = revision
      | Some hash \<Rightarrow>
          if hash = [] then ss_revision x = revision else draft_fingerprint h (ss_message x) = hash)"

definition overtakes :: "(nat \<Rightarrow> bool) \<Rightarrow> draft_trace \<Rightarrow> stored_source \<Rightarrow> bool" where
  "overtakes alnum t x \<longleftrightarrow>
     tc_snapshot_revision t < ss_room_revision x \<and> \<not> sm_author_is_bot (ss_message x)
     \<and> (tc_origin t = ''continuation'' \<or> sm_reply_to (ss_message x) \<in> set (draft_anchors t)
        \<or> sm_author_id (ss_message x) = tc_requester_id t
           \<and> correction alnum (strip_by is_space_point (sm_text (ss_message x))))"

definition current_draft :: "(nat \<Rightarrow> bool) \<Rightarrow> room_digests \<Rightarrow> draft_trace \<Rightarrow> focused_context \<Rightarrow> bool" where
  "current_draft alnum h t f \<longleftrightarrow>
     tc_target_message_id t \<noteq> [] \<and> fc_target_message_id f = tc_target_message_id t
     \<and> (\<forall>x \<in> set (fc_sources f).
          (case map_of (tc_revisions t) (source_id x) of
             Some revision \<Rightarrow> unchanged_source h t revision x
           | None \<Rightarrow> \<not> overtakes alnum t x))"

lemma changed_sources_empty:
  "changed_sources alnum h t xs = [] \<longleftrightarrow> (\<forall>x \<in> set xs. \<not> relevant_source alnum h t x)"
  by (simp add: changed_sources_def filter_empty_conv)

lemma assess_keep:
  "fd_action (assess_draft alnum h t f writable expired) = KeepDraft \<longleftrightarrow>
     writable \<and> \<not> expired \<and> tc_target_message_id t \<noteq> [] \<and> tc_target_message_id t = fc_target_message_id f
     \<and> \<not> (tc_origin t = ''continuation'' \<and> human_interrupted t (fc_sources f))
     \<and> changed_sources alnum h t (fc_sources f) = []"
  by (simp add: assess_draft_def Let_def)

lemma current_source_iff:
  "(case map_of (tc_revisions t) (source_id x) of
      Some revision \<Rightarrow> unchanged_source h t revision x
    | None \<Rightarrow> \<not> overtakes alnum t x) \<longleftrightarrow>
   \<not> relevant_source alnum h t x
   \<and> \<not> (tc_origin t = ''continuation'' \<and> tc_snapshot_revision t < ss_room_revision x
        \<and> source_id x \<notin> set (map fst (tc_revisions t)) \<and> \<not> sm_author_is_bot (ss_message x))"
proof (cases "map_of (tc_revisions t) (source_id x)")
  case None
  then have "source_id x \<notin> set (map fst (tc_revisions t))"
    by (simp add: map_of_eq_None_iff)
  with None show ?thesis
    by (auto simp: relevant_source_def overtakes_def)
next
  case (Some revision)
  then have "source_id x \<in> set (map fst (tc_revisions t))"
    by (force dest: map_of_SomeD)
  with Some show ?thesis
    by (auto simp: relevant_source_def unchanged_source_def materially_changed_def split: option.splits if_splits)
qed

lemma keep_is_current:
  "fd_action (assess_draft alnum h t f writable expired) = KeepDraft \<longleftrightarrow>
     writable \<and> \<not> expired \<and> current_draft alnum h t f"
  unfolding assess_keep current_draft_def current_source_iff changed_sources_empty human_interrupted_def
  by (auto simp: list_ex_iff)

section \<open>A claim publishes a current draft\<close>

lemma removed_source_None:
  "removed_source e h s mids d = None \<Longrightarrow> mid \<in> set mids \<Longrightarrow>
    \<exists>old. get_stored h s mid d = Inr old \<and> (\<forall>x. old = Some x \<longrightarrow> \<not> unusable x)"
  by (induction mids) (auto split: sum.splits option.splits if_splits)

lemma claim_refusal_None:
  assumes "claim_refusal alnum h now deploy d r st t = None"
  obtains checked dep f where
    "tc_publication_checked_at t = Some checked" "checked \<le> now" "now \<le> checked + publication_window"
    "get_deployment_row deploy (st_deployment_id st) = Some dep"
    "deployment_matches (st_deployment_id st) (op_connection_id r) (op_guild_id r) (op_channel_id r)
       (op_thread_id r) (tc_category_id t) deploy \<noteq> None"
    "draft_focus h (owner_scope (operation_scope r) dep) t d = Inr f"
    "removed_source (ValueError ''draft_source_removed'') h (owner_scope (operation_scope r) dep)
       (map fst (tc_revisions t)) d = None"
    "current_draft alnum h t f"
  using assms that
  by (auto simp: claim_refusal_def Let_def keep_is_current split: option.splits sum.splits if_splits)

lemma granted_was_validated:
  assumes "fst (claim_delivery v others now operation sid nonce d) = Inr (DeliveryGranted, st')"
    and "get_step d sid = Some st" and "st_status st = Generated"
  obtains r where "get_operation d operation = Some r" "v r st = None"
  using assms that by (auto simp: claim_delivery_def split: option.splits if_splits)

text \<open>C9. What is published is current. When a generated room turn is granted for delivery, the draft was
  checked at most 15 seconds before; its deployment is active and reaches exactly the room of the
  operation; none of the messages it was written from is erased; and in the room as the claim reads it
  the draft is current: no source has changed, and no newer message answers it or corrects its request.\<close>

theorem published_draft_is_current:
  assumes "fst (claim_room_delivery alnum c h others now deploy operation sid nonce d) = Inr (DeliveryGranted, st')"
    and "get_step d sid = Some st" and "st_status st = Generated"
    and "bound_context (st_response st) = Some context"
  shows "\<exists>r t checked dep f.
      get_operation d operation = Some r \<and> dc_trace c (JObj context) = Some t
      \<and> tc_publication_checked_at t = Some checked \<and> checked \<le> now \<and> now \<le> checked + seconds 15
      \<and> deployment_matches (st_deployment_id st) (op_connection_id r) (op_guild_id r) (op_channel_id r)
           (op_thread_id r) (tc_category_id t) deploy = Some dep
      \<and> (\<forall>(mid, _) \<in> set (tc_revisions t). \<exists>old. get_stored h (owner_scope (operation_scope r) dep) mid d = Inr old
           \<and> (\<forall>x. old = Some x \<longrightarrow> \<not> unusable x))
      \<and> focus h (owner_scope (operation_scope r) dep) (tc_target_message_id t) 12 8 24000 d = Inr f
      \<and> current_draft alnum h t f"
proof -
  from granted_was_validated [OF assms(1) [unfolded claim_room_delivery_def] assms(2,3)]
  obtain r where r: "get_operation d operation = Some r"
      "validate_publication alnum c h now deploy d r st = None" .
  with assms(4) obtain t where t: "dc_trace c (JObj context) = Some t" "claim_refusal alnum h now deploy d r st t = None"
    by (auto simp: validate_publication_def validated_def split: option.splits)
  from claim_refusal_None [OF t(2)] obtain checked dep f where f:
      "tc_publication_checked_at t = Some checked" "checked \<le> now" "now \<le> checked + publication_window"
      "get_deployment_row deploy (st_deployment_id st) = Some dep"
      "deployment_matches (st_deployment_id st) (op_connection_id r) (op_guild_id r) (op_channel_id r)
         (op_thread_id r) (tc_category_id t) deploy \<noteq> None"
      "draft_focus h (owner_scope (operation_scope r) dep) t d = Inr f"
      "removed_source (ValueError ''draft_source_removed'') h (owner_scope (operation_scope r) dep)
         (map fst (tc_revisions t)) d = None"
      "current_draft alnum h t f" .
  have match: "deployment_matches (st_deployment_id st) (op_connection_id r) (op_guild_id r) (op_channel_id r)
      (op_thread_id r) (tc_category_id t) deploy = Some dep"
    using f(4,5) by (auto simp: deployment_matches_def active_discord_def split: option.splits if_splits)
  have usable: "\<forall>(mid, _) \<in> set (tc_revisions t). \<exists>old.
      get_stored h (owner_scope (operation_scope r) dep) mid d = Inr old \<and> (\<forall>x. old = Some x \<longrightarrow> \<not> unusable x)"
    using removed_source_None [OF f(7)] by force
  have read: "focus h (owner_scope (operation_scope r) dep) (tc_target_message_id t) 12 8 24000 d = Inr f"
    using f(6) by (simp add: draft_focus_def default_recent_def default_ancestors_def default_chars_def)
  show ?thesis
    using r(1) t(1) f(1,2,3,8) match usable read unfolding publication_window_def by blast
qed

section \<open>A preflight keeps only current drafts\<close>

lemma save_draft_InrD:
  assumes "save_draft c now sid reply reason refreshed d = (Inr v, d')"
  shows "pv_disposition v = disposition_of (checked_reply now reply) refreshed \<and> pv_reason v = reason
    \<and> pv_reply v = Some (checked_reply now reply)"
  using assms by (auto simp: save_draft_def Let_def split: option.splits if_splits sum.splits)

lemma disposition_kept:
  "disposition_of (checked_reply now reply) refreshed \<in> {Kept, Refreshed} \<longleftrightarrow> dr_action reply \<noteq> SilentReply"
  by (auto simp: disposition_of_def checked_reply_def)

lemma silenced_silent [simp]: "dr_action (silenced reason reply) = SilentReply"
  by (simp add: silenced_def)

lemma checked_silent [simp]: "dr_action (checked_reply now reply) = dr_action reply"
  by (simp add: checked_reply_def)

lemma silenced_not_kept:
  "save_draft c now sid (silenced reason reply) r b d = (Inr v, d') \<Longrightarrow> pv_disposition v \<notin> {Kept, Refreshed}"
  using disposition_kept save_draft_InrD silenced_silent by metis

definition current_in ::
  "(nat \<Rightarrow> bool) \<Rightarrow> room_digests \<Rightarrow> room_scope \<Rightarrow> draft_trace \<Rightarrow> 'a room_db_scheme \<Rightarrow> bool" where
  "current_in alnum h s t d \<longleftrightarrow> (\<exists>f. draft_focus h s t d = Inr f \<and> current_draft alnum h t f)"

lemma map_sum_Inr_iff: "map_sum f g r = Inr y \<longleftrightarrow> (\<exists>x. r = Inr x \<and> y = g x)"
  by (cases r) auto

lemma refreshed_reply_trace:
  assumes "refresh_draft h provider f reply = Inr x" and "dr_trace reply = Some t"
  shows "dr_trace x = Some (rebound_trace h f t)"
  using assms
  by (auto simp: refresh_draft_def refreshed_reply_def map_sum_Inr_iff split: provider_result.splits sum.splits if_splits)

lemma rebound_trace_simps [simp]:
  "tc_refresh_count (rebound_trace h f t) = 1" "tc_target_message_id (rebound_trace h f t) = tc_target_message_id t"
  by (simp_all add: rebound_trace_def)

lemma settle_refresh_kept:
  assumes "settle_refresh alnum c h others later q s t refreshed d = (Inr v, d')"
    and "pv_disposition v \<in> {Kept, Refreshed}" and "dr_trace refreshed = Some t'"
    and "tc_target_message_id t' = tc_target_message_id t"
  shows "pv_disposition v = Refreshed \<and> pv_reply v = Some (checked_reply later refreshed)
    \<and> dr_action refreshed \<noteq> SilentReply \<and> current_in alnum h s t' d"
proof -
  obtain f where f: "draft_focus h s t d = Inr f"
    using assms(1) by (auto simp: settle_refresh_def split: sum.splits)
  have keep: "fd_action (assess_draft alnum h t' f (pq_writable q) False) = KeepDraft"
  proof (rule ccontr)
    let ?after = "assess_draft alnum h t' f (pq_writable q) False"
    assume "fd_action ?after \<noteq> KeepDraft"
    then have "save_draft c later (pq_step_id q) (silenced (fd_reason ?after) refreshed) (fd_reason ?after) True
        (do_reread others d) = (Inr v, d')"
      using assms(1,3) f by (simp add: settle_refresh_def Let_def)
    from silenced_not_kept [OF this] assms(2) show False by blast
  qed
  then have saved: "save_draft c later (pq_step_id q) refreshed (dr_reason refreshed) True (do_reread others d) = (Inr v, d')"
    using assms(1,3) f by (simp add: settle_refresh_def Let_def)
  then have act: "dr_action refreshed \<noteq> SilentReply"
    using assms(2) disposition_kept save_draft_InrD by metis
  moreover have "pv_disposition v = Refreshed \<and> pv_reply v = Some (checked_reply later refreshed)"
    using save_draft_InrD [OF saved] act by (simp add: disposition_of_def)
  moreover have "current_in alnum h s t' d"
    using f keep assms(4) unfolding keep_is_current current_in_def draft_focus_def by auto
  ultimately show ?thesis by blast
qed

lemma read_draft_room_focus: "read_draft_room h s t d = Inr f \<Longrightarrow> draft_focus h s t d = Inr f"
  by (auto simp: read_draft_room_def split: sum.splits option.splits)

lemma assess_refresh:
  "fd_action (assess_draft alnum h t f writable expired) = RefreshDraft \<Longrightarrow>
    writable \<and> \<not> expired \<and> tc_refresh_count t = 0"
  by (auto simp: assess_draft_def Let_def split: if_splits)

definition kept_draft ::
  "(nat \<Rightarrow> bool) \<Rightarrow> room_digests \<Rightarrow> time \<Rightarrow> room_scope \<Rightarrow> draft_reply \<Rightarrow> draft_trace \<Rightarrow> preflight_view
    \<Rightarrow> 'a room_db_scheme \<Rightarrow> bool" where
  "kept_draft alnum h now s reply t v d \<longleftrightarrow>
     pv_disposition v = Kept \<and> pv_reply v = Some (checked_reply now reply) \<and> current_in alnum h s t d"

definition refreshed_draft ::
  "(nat \<Rightarrow> bool) \<Rightarrow> room_digests \<Rightarrow> time \<Rightarrow> room_scope \<Rightarrow> draft_trace \<Rightarrow> preflight_view \<Rightarrow> 'a room_db_scheme \<Rightarrow> bool" where
  "refreshed_draft alnum h later s t v d \<longleftrightarrow>
     pv_disposition v = Refreshed \<and> tc_refresh_count t = 0
     \<and> (\<exists>x t'. pv_reply v = Some x \<and> dr_action x \<noteq> SilentReply
          \<and> dr_trace x = Some (t'\<lparr>tc_publication_checked_at := Some later\<rparr>)
          \<and> tc_refresh_count t' = 1 \<and> current_in alnum h s t' d)"

lemma check_draft_kept:
  assumes "check_draft alnum c h others provider now later q st reply d = (Inr v, d')"
    and kept: "pv_disposition v \<in> {Kept, Refreshed}"
  obtains dep t where "bound_draft q st reply = Inr (dep, t)" "pq_writable q"
    "now - st_created_at st \<le> draft_lifetime"
    "kept_draft alnum h now (owner_scope (pq_scope q) dep) reply t v (do_reserved others d)
     \<or> refreshed_draft alnum h later (owner_scope (pq_scope q) dep) t v
         (do_refreshed others (do_read others (do_reserved others d)))"
proof -
  obtain dep t where b: "bound_draft q st reply = Inr (dep, t)"
    using assms(1) by (auto simp: check_draft_def split: sum.splits)
  then have tr: "dr_trace reply = Some t"
    by (auto simp: bound_draft_def split: option.splits if_splits)
  let ?s = "owner_scope (pq_scope q) dep" and ?d1 = "do_reserved others d"
  obtain f where f: "read_draft_room h ?s t ?d1 = Inr f"
    using assms(1) b by (auto simp: check_draft_def Let_def split: sum.splits)
  let ?dec = "assess_draft alnum h t f (pq_writable q) (draft_lifetime < now - st_created_at st)"
  let ?d2 = "do_read others ?d1"
  show thesis
  proof (cases "fd_action ?dec")
    case KeepDraft
    then have saved: "save_draft c now (pq_step_id q) reply (fd_reason ?dec) False ?d2 = (Inr v, d')"
      using assms(1) b f by (simp add: check_draft_def Let_def)
    then have act: "dr_action reply \<noteq> SilentReply"
      using kept disposition_kept save_draft_InrD by metis
    have "kept_draft alnum h now ?s reply t v ?d1"
      using save_draft_InrD [OF saved] act KeepDraft read_draft_room_focus [OF f]
      by (simp add: kept_draft_def disposition_of_def current_in_def keep_is_current)
    with b KeepDraft that show thesis by (simp add: keep_is_current)
  next
    case RefreshDraft
    let ?d3 = "do_refreshed others ?d2"
    obtain x where x: "refresh_draft h provider f reply = Inr x"
        "settle_refresh alnum c h others later q ?s t x ?d3 = (Inr v, d')"
      using assms(1) b f RefreshDraft by (auto simp: check_draft_def Let_def split: sum.splits)
    let ?t = "rebound_trace h f t"
    note t' = refreshed_reply_trace [OF x(1) tr]
    from settle_refresh_kept [OF x(2) kept t'] have
      settled: "pv_disposition v = Refreshed" "pv_reply v = Some (checked_reply later x)"
        "dr_action x \<noteq> SilentReply" "current_in alnum h ?s ?t ?d3"
      by simp_all
    have "dr_trace (checked_reply later x) = Some (?t\<lparr>tc_publication_checked_at := Some later\<rparr>)"
      using settled(3) t' by (simp add: checked_reply_def)
    then have "refreshed_draft alnum h later ?s t v ?d3"
      unfolding refreshed_draft_def using settled assess_refresh [OF RefreshDraft]
      by (intro conjI exI [of _ "checked_reply later x"] exI [of _ ?t]) simp_all
    with b that assess_refresh [OF RefreshDraft] show thesis by simp
  qed (use assms(1) b f in \<open>auto simp: check_draft_def Let_def\<close>)
qed

text \<open>A preflight lets only a current draft through. When it keeps or refreshes one, whatever other
  sessions commit meanwhile, the destination is writable and the draft at most ten minutes old. A kept
  draft was current in the room as it stood after the reservation, and its text is the stored one. A
  refreshed one was never refreshed before, is marked as refreshed, and is current in the room as it
  stands after the provider's answer. So no draft is revised twice.\<close>

theorem preflight_keeps_current_drafts:
  assumes "preflight alnum c h others provider now later q d = (Inr v, d')"
    and "pv_disposition v \<in> {Kept, Refreshed}"
  shows "\<exists>r st reply dep t.
      load_draft (pq_scope q) (pq_operation_id q) (pq_step_id q) d = Inr (r, st)
      \<and> stored_reply c (st_response st) = Inr reply \<and> pq_deployment q = Some dep \<and> dr_trace reply = Some t
      \<and> pq_writable q \<and> now - st_created_at st \<le> minutes 10
      \<and> (let s = owner_scope (pq_scope q) dep;
             d1 = do_reserved others (snd (reserve_draft now st (do_loaded others d))) in
         kept_draft alnum h now s reply t v d1
         \<or> refreshed_draft alnum h later s t v (do_refreshed others (do_read others d1)))"
proof -
  obtain r st where l: "load_draft (pq_scope q) (pq_operation_id q) (pq_step_id q) d = Inr (r, st)"
    using assms(1) by (auto simp: preflight_def split: sum.splits)
  obtain reply where reply: "stored_reply c (st_response st) = Inr reply"
    using assms l by (auto simp: preflight_def bare_view_def split: sum.splits if_splits)
  let ?res = "reserve_draft now st (do_loaded others d)"
  have checked: "check_draft alnum c h others provider now later q st reply (snd ?res) = (Inr v, d')"
  proof (cases "check_draft alnum c h others provider now later q st reply (snd ?res)")
    case (Pair res e)
    with assms l reply show ?thesis
      by (cases res) (auto simp: preflight_def bare_view_def split: prod.splits if_splits dest: silenced_not_kept)
  qed
  from check_draft_kept [OF checked assms(2)] obtain dep t where b: "bound_draft q st reply = Inr (dep, t)"
    "pq_writable q" "now - st_created_at st \<le> draft_lifetime"
    "kept_draft alnum h now (owner_scope (pq_scope q) dep) reply t v (do_reserved others (snd ?res))
     \<or> refreshed_draft alnum h later (owner_scope (pq_scope q) dep) t v
         (do_refreshed others (do_read others (do_reserved others (snd ?res))))" .
  from b(1) have "pq_deployment q = Some dep" "dr_trace reply = Some t"
    by (auto simp: bound_draft_def split: option.splits if_splits)
  with l reply b(2-4) show ?thesis
    unfolding Let_def draft_lifetime_def by blast
qed


section \<open>A preflight decides\<close>

text \<open>What Pydantic does with a cursor: it accepts only valid ones, and reads back what it dumps.\<close>

definition codec_faithful :: "draft_codec \<Rightarrow> bool" where
  "codec_faithful c \<longleftrightarrow>
     (\<forall>v x. dc_cursor c v = Some x \<longrightarrow> cursor_valid x)
     \<and> (\<forall>x. cursor_valid x \<longrightarrow> dc_cursor c (dc_dump_cursor c x) = Some x)"

text \<open>A draft whose stored texts its own models accept.\<close>

definition readable_draft :: "draft_codec \<Rightarrow> runtime_operation \<Rightarrow> runtime_step \<Rightarrow> bool" where
  "readable_draft c r st \<longleftrightarrow>
     (\<exists>ob reply. loads (st_response st) = Some (JObj ob) \<and> stored_reply c (st_response st) = Inr reply
        \<and> (''reply'' \<in> set (map fst ob) \<longrightarrow> dc_step c (JObj ob) \<noteq> None))
     \<and> (\<exists>x. read_cursor c (st_cursor st) = Inr x) \<and> (\<exists>x. read_cursor c (op_cursor r) = Inr x)"

lemma read_cursor_valid: "codec_faithful c \<Longrightarrow> read_cursor c raw = Inr x \<Longrightarrow> cursor_valid x"
  by (auto simp: codec_faithful_def read_cursor_def validated_def split: option.splits)

lemma read_dumped_cursor:
  "codec_faithful c \<Longrightarrow> cursor_valid x \<Longrightarrow> read_cursor c (dumps (dc_dump_cursor c x)) = Inr x"
  by (simp add: codec_faithful_def read_cursor_def validated_def loads_def dumps_def)

lemma fewer_turns_valid:
  assumes "cursor_valid x"
  shows "cursor_valid (x\<lparr>pending_turns := filter P (pending_turns x)\<rparr>)"
  using assms order_trans [OF length_filter_le]
  by (auto simp: cursor_valid_def list_all_iff)

lemma saved_cursor_valid:
  assumes c: "codec_faithful c" and "readable_draft c r st"
  shows "\<exists>x. saved_cursor c r st refreshed silent = Inr x \<and> cursor_valid x"
proof -
  obtain x y where x: "read_cursor c (st_cursor st) = Inr x" "read_cursor c (op_cursor r) = Inr y"
    using assms(2) by (auto simp: readable_draft_def)
  note valid = read_cursor_valid [OF c x(1)] read_cursor_valid [OF c x(2)]
  let ?x = "if refreshed \<or> silent then without_invitations (st_deployment_id st) x else x"
  have "cursor_valid ?x"
    using valid(1) by (simp add: without_invitations_def fewer_turns_valid)
  moreover from this have "cursor_valid (?x\<lparr>completed_deployment_ids := completed_deployment_ids y,
      pending_turns := filter (\<lambda>p. pt_origin p = Selected) (pending_turns ?x)\<rparr>)"
    using fewer_turns_valid [of ?x] valid(2) by (simp add: cursor_valid_def)
  ultimately show ?thesis
    using x by (cases silent; cases refreshed) (simp_all add: saved_cursor_def Let_def)
qed

lemma replaced_response_readable:
  assumes "codec_faithful c" "readable_draft c r st" "cursor_valid x"
  shows "\<exists>response. replaced_response c (st_response st) reply (dumps (dc_dump_cursor c x)) = Inr response"
proof -
  obtain ob where ob: "loads (st_response st) = Some (JObj ob)" "''reply'' \<in> set (map fst ob) \<longrightarrow> dc_step c (JObj ob) \<noteq> None"
    using assms(2) by (auto simp: readable_draft_def)
  then show ?thesis
    using read_dumped_cursor [OF assms(1,3)]
    by (cases "''reply'' \<in> set (map fst ob)")
      (auto simp: replaced_response_def names_reply_def validated_def)
qed

lemma write_draft_step:
  "get_step d sid = Some st \<Longrightarrow>
    step_state (write_draft now operation sid cursor response reason silent d) sid =
      Some (if silent then Silent else Generated)"
  by (simp add: write_draft_def Let_def step_state_put saved_step_def)

lemma save_draft_saves:
  assumes "codec_faithful c" and "readable_draft c r st" and "get_step d sid = Some st" and "st_status st = Refreshing"
    and "get_operation d (st_operation_id st) = Some r" and "op_status r \<in> {OpActive, OpAwaitingDelivery}"
  shows "\<exists>v d'. save_draft c now sid reply reason refreshed d = (Inr v, d')
    \<and> (pv_disposition v \<in> {Kept, Refreshed} \<and> step_state d' sid = Some Generated
       \<or> pv_disposition v \<in> {Dropped, Blocked} \<and> step_state d' sid = Some Silent)"
proof -
  let ?silent = "dr_action reply = SilentReply"
  obtain x where x: "saved_cursor c r st refreshed ?silent = Inr x" "cursor_valid x"
    using saved_cursor_valid [OF assms(1,2)] by blast
  obtain response where response:
      "replaced_response c (st_response st) (checked_reply now reply) (dumps (dc_dump_cursor c x)) = Inr response"
    using replaced_response_readable [OF assms(1,2) x(2)] by blast
  obtain v d' where v: "save_draft c now sid reply reason refreshed d = (Inr v, d')"
      "step_state d' sid = Some (if ?silent then Silent else Generated)"
    using assms(3-6) x(1) response write_draft_step [OF assms(3)]
    by (simp add: save_draft_def Let_def)
  from save_draft_InrD [OF v(1)] v show ?thesis
    by (auto simp: disposition_of_def)
qed

definition undisturbed :: "'d draft_others" where
  "undisturbed = \<lparr>do_loaded = id, do_reserved = id, do_read = id, do_refreshed = id, do_reread = id\<rparr>"

lemma undisturbed_simps [simp]:
  "do_loaded undisturbed d = d" "do_reserved undisturbed d = d" "do_read undisturbed d = d"
  "do_refreshed undisturbed d = d" "do_reread undisturbed d = d"
  by (simp_all add: undisturbed_def)

text \<open>An attempt that nobody disturbs raises without a write, or ends in one save.\<close>

definition saves_or_raises ::
  "draft_codec \<Rightarrow> string \<Rightarrow> 'a runtime_db_scheme \<Rightarrow> (preflight_view, 'a runtime_db_scheme) outcome \<Rightarrow> bool" where
  "saves_or_raises c sid d res \<longleftrightarrow>
     (\<exists>e. res = (Inl e, d)) \<or> (\<exists>tm reply reason b. res = save_draft c tm sid reply reason b d)"

lemma saves_or_raisesI [intro, simp]:
  "saves_or_raises c sid d (Inl e, d)" "saves_or_raises c sid d (save_draft c tm sid reply reason b d)"
  unfolding saves_or_raises_def by blast+

lemma settle_refresh_undisturbed:
  "saves_or_raises c (pq_step_id q) d (settle_refresh alnum c h undisturbed later q s t x d)"
  by (simp add: settle_refresh_def Let_def split: sum.split option.split)

lemma check_draft_undisturbed:
  "saves_or_raises c (pq_step_id q) d (check_draft alnum c h undisturbed provider now later q st reply d)"
  by (simp add: check_draft_def Let_def settle_refresh_undisturbed split: sum.split prod.split draft_action.split)

text \<open>C10. A preflight decides. When nothing else writes meanwhile, a generated draft of an active
  operation whose stored texts are readable never stays reserved and never raises, whatever the room
  holds and however the provider fails: the preflight returns, and the draft is either ready for
  delivery again, kept or refreshed, or silent, dropped or blocked.\<close>

theorem reserved_draft_is_decided:
  assumes "codec_faithful c" and "load_draft (pq_scope q) (pq_operation_id q) (pq_step_id q) d = Inr (r, st)"
    and "st_status st = Generated" and "op_status r \<in> {OpActive, OpAwaitingDelivery}" and "readable_draft c r st"
  shows "\<exists>v d'. preflight alnum c h undisturbed provider now later q d = (Inr v, d')
    \<and> (pv_disposition v \<in> {Kept, Refreshed} \<and> step_state d' (pq_step_id q) = Some Generated
       \<or> pv_disposition v \<in> {Dropped, Blocked} \<and> step_state d' (pq_step_id q) = Some Silent)"
proof -
  let ?sid = "pq_step_id q"
  have st: "get_step d ?sid = Some st" "get_operation d (st_operation_id st) = Some r"
    using assms(2) by (auto simp: load_draft_def split: option.splits if_splits)
  have sid: "st_id st = ?sid" by (rule tget_key [OF st(1)])
  obtain reply where reply: "stored_reply c (st_response st) = Inr reply"
    using assms(5) by (auto simp: readable_draft_def)
  let ?st = "st\<lparr>st_status := Refreshing, st_updated_at := now\<rparr>"
  let ?d = "put_step ?sid (\<lambda>r. r\<lparr>st_status := Refreshing, st_updated_at := now\<rparr>) d"
  have reserved: "reserve_draft now st d = (True, ?d)"
    using st sid assms(3) by (simp add: reserve_draft_def)
  have d: "get_step ?d ?sid = Some ?st" "get_operation ?d (st_operation_id ?st) = Some r"
    using st by (simp_all add: get_put_step)
  have "readable_draft c r ?st"
    using assms(5) by (simp add: readable_draft_def)
  note decided = save_draft_saves [OF assms(1) this d(1) _ d(2) assms(4), simplified]
  have pre: "preflight alnum c h undisturbed provider now later q d =
      (case check_draft alnum c h undisturbed provider now later q st reply ?d of
         (Inr v, d'') \<Rightarrow> (Inr v, d'')
       | (Inl e, d'') \<Rightarrow> save_draft c later ?sid (silenced (failure_reason e) reply) (failure_reason e) False d'')"
    using assms(2-4) reply reserved by (simp add: preflight_def)
  consider e where "check_draft alnum c h undisturbed provider now later q st reply ?d = (Inl e, ?d)"
    | tm x reason b where "check_draft alnum c h undisturbed provider now later q st reply ?d =
        save_draft c tm ?sid x reason b ?d"
    using check_draft_undisturbed unfolding saves_or_raises_def by blast
  then show ?thesis
  proof cases
    case 1
    with decided pre show ?thesis by simp
  next
    case 2
    with decided [of tm x reason b] pre show ?thesis by fastforce
  qed
qed

section \<open>A drafted reply\<close>

definition demo_letters :: "nat \<Rightarrow> bool" where
  "demo_letters c \<longleftrightarrow> 97 \<le> c \<and> c \<le> 122"

fun demo_dump_turn :: "pending_turn \<Rightarrow> json" where
  "demo_dump_turn t =
     JArr [JStr (pt_deployment_id t), JStr (origin_name (pt_origin t)), JInt (pt_depth t),
           JStr (pt_source_deployment_id t)]"

fun demo_read_turn :: "json \<Rightarrow> pending_turn" where
  "demo_read_turn (JArr [JStr k, JStr origin, JInt n, JStr source]) =
     \<lparr>pt_deployment_id = k,
      pt_origin = (if origin = ''selected'' then Selected else if origin = ''invite'' then Invite else Mention),
      pt_depth = n, pt_source_deployment_id = source\<rparr>"
| "demo_read_turn _ =
     \<lparr>pt_deployment_id = [], pt_origin = Selected, pt_depth = 0, pt_source_deployment_id = []\<rparr>"

definition demo_dump_cursor :: "social_cursor \<Rightarrow> json" where
  "demo_dump_cursor x =
     JObj [(''pending_turns'', JArr (map demo_dump_turn (pending_turns x))),
           (''completed_deployment_ids'', jstrs (completed_deployment_ids x)),
           (''attempts_used'', JInt (attempts_used x)),
           (''continuation_budget_remaining'', JInt (budget_remaining x)),
           (''max_depth'', JInt (cursor_max_depth x)), (''step_index'', JInt (step_index x))]"

fun demo_read_cursor :: "json \<Rightarrow> social_cursor option" where
  "demo_read_cursor (JObj [(_, JArr turns), (_, JArr speakers), (_, JInt used), (_, JInt left), (_, JInt depth), (_, JInt index)]) =
     (let x = \<lparr>pending_turns = map demo_read_turn turns, completed_deployment_ids = str_items speakers,
               attempts_used = used, budget_remaining = left, cursor_max_depth = depth, step_index = index\<rparr> in
      if cursor_valid x then Some x else None)"
| "demo_read_cursor _ = None"

definition demo_trace :: draft_trace where
  "demo_trace =
     \<lparr>tc_target_message_id = ''m1'', tc_snapshot_revision = 2, tc_fingerprint = [],
      tc_revisions = [(''m1'', 1), (''m2'', 0)], tc_content_hashes = [], tc_anchor_ids = [''m1''],
      tc_requester_id = ''u1'', tc_origin = [], tc_category_id = [], tc_refresh_count = 0,
      tc_publication_checked_at = None, tc_rest = JNull\<rparr>"

definition demo_read_trace :: "json \<Rightarrow> draft_trace option" where
  "demo_read_trace v =
     (case v of
        JObj m \<Rightarrow>
          (case jget m ''publication_checked_at'' JNull of
             JInt n \<Rightarrow> Some (demo_trace\<lparr>tc_publication_checked_at := Some n, tc_revisions := [(''m1'', 1)],
                                tc_refresh_count := 1\<rparr>)
           | _ \<Rightarrow> Some demo_trace)
      | _ \<Rightarrow> None)"

definition demo_dump_trace :: "draft_trace \<Rightarrow> json" where
  "demo_dump_trace t =
     JObj [(''source_target_message_id'', JStr (tc_target_message_id t)),
           (''publication_checked_at'', case tc_publication_checked_at t of None \<Rightarrow> JNull | Some n \<Rightarrow> JInt n)]"

definition demo_reply :: draft_reply where
  "demo_reply =
     \<lparr>dr_action = VisibleReply, dr_reason = ''answered'', dr_text = Some ''Yes'',
      dr_smart = Some (MessageView ''Yes'' ''m1''), dr_trace = None, dr_expression = None, dr_tools = [],
      dr_input_tokens = None, dr_output_tokens = None, dr_latency = None, dr_delivery_required = True,
      dr_rest = JNull\<rparr>"

definition demo_codec :: draft_codec where
  "demo_codec =
     \<lparr>dc_reply = (\<lambda>v. case v of
          JObj m \<Rightarrow> map_option (\<lambda>t. demo_reply\<lparr>dr_trace := Some t\<rparr>) (demo_read_trace (jget m ''context_trace'' JNull))
        | _ \<Rightarrow> None),
      dc_step = (\<lambda>_. None), dc_cursor = demo_read_cursor, dc_trace = demo_read_trace,
      dc_dump_reply = (\<lambda>x. JObj [(''context_trace'',
        case dr_trace x of None \<Rightarrow> JNull | Some t \<Rightarrow> demo_dump_trace t)]),
      dc_dump_step = (\<lambda>_. JNull), dc_dump_cursor = demo_dump_cursor\<rparr>"

lemma demo_read_dumped_turn: "demo_read_turn (demo_dump_turn t) = t"
  by (cases "pt_origin t") (simp_all add: origin_name_def)

lemma str_items_strs: "str_items (map JStr xs) = xs"
  by (induction xs) (simp_all add: str_items_def)

lemma demo_codec_faithful: "codec_faithful demo_codec"
  unfolding codec_faithful_def
proof (intro conjI allI impI)
  fix v x
  assume "dc_cursor demo_codec v = Some x"
  then show "cursor_valid x"
    by (cases v rule: demo_read_cursor.cases) (auto simp: demo_codec_def Let_def split: if_splits)
next
  fix x
  assume "cursor_valid x"
  moreover have "map demo_read_turn (map demo_dump_turn ts) = ts" for ts
    by (induction ts) (simp_all add: demo_read_dumped_turn del: demo_dump_turn.simps)
  ultimately show "dc_cursor demo_codec (dc_dump_cursor demo_codec x) = Some x"
    by (cases x) (simp add: demo_codec_def demo_dump_cursor_def jstrs_def str_items_strs Let_def
        del: map_map demo_dump_turn.simps)
qed

definition demo_draft_cursor :: json_text where
  "demo_draft_cursor =
     dumps (demo_dump_cursor \<lparr>pending_turns = [], completed_deployment_ids = [''dep''], attempts_used = 1,
                              budget_remaining = 0, cursor_max_depth = 5, step_index = 1\<rparr>)"

definition demo_draft_operation :: runtime_operation where
  "demo_draft_operation =
     \<lparr>op_id = ''op'', op_kind = CharacterTurn, op_owner_id = ''o'', op_connection_id = ''c'', op_guild_id = ''g'',
      op_channel_id = ''ch'', op_thread_id = [], op_source_message_id = ''m1'', op_status = OpAwaitingDelivery,
      op_initial_ids = empty_list, op_available_ids = empty_list, op_cursor = demo_draft_cursor,
      op_sources = empty_list, op_continuation_budget = 0, op_max_depth = 5, op_resume_count = 0,
      op_last_error = [], op_created_at = 3, op_updated_at = 3, op_completed_at = None\<rparr>"

definition demo_draft_step :: "draft_trace \<Rightarrow> runtime_step" where
  "demo_draft_step t =
     \<lparr>st_id = ''s'', st_operation_id = ''op'', st_index = 0, st_deployment_id = ''dep'', st_status = Generated,
      st_request_hash = [], st_response = dumps (JObj [(''context_trace'', demo_dump_trace t)]),
      st_cursor = demo_draft_cursor, st_claim_nonce = [], st_sent_ids = empty_list, st_outgoing_text = [],
      st_applied = False, st_last_error = [], st_created_at = 3, st_updated_at = 3, st_delivered_at = None\<rparr>"

definition demo_draft_db :: "draft_trace \<Rightarrow> room_db" where
  "demo_draft_db t = demo_room_db\<lparr>operations := [demo_draft_operation], steps := [demo_draft_step t]\<rparr>"

definition demo_deployed :: deploy_db where
  "demo_deployed =
     \<lparr>connections = [], catalogs = [], profiles = [], deployments = [demo_deployment ''dep'' ''o''], scopes = [],
      connector_events = [], known_cards = []\<rparr>"

definition demo_preflight :: preflight_request where
  "demo_preflight =
     \<lparr>pq_scope = demo_scope, pq_operation_id = ''op'', pq_step_id = ''s'',
      pq_deployment = Some (demo_deployment ''dep'' ''o''), pq_writable = True\<rparr>"

definition demo_provider :: "string \<Rightarrow> provider_result" where
  "demo_provider message =
     ProviderAnswers \<lparr>da_text = Text (JObj [(''action'', JStr ''message''), (''text'', JStr message)]),
       da_input_tokens = None, da_output_tokens = None, da_latency = None\<rparr>"

text \<open>The second message has changed since the draft: the draft is refreshed. An unanswered refresh
  silences it; a claim of the refreshed draft is granted.\<close>

definition demo_checked :: draft_trace where
  "demo_checked = demo_trace\<lparr>tc_publication_checked_at := Some 7\<rparr>"

lemma demo_refreshes:
  "map_sum id pv_disposition (fst (preflight demo_letters demo_codec demo_room_digests undisturbed (demo_provider ''Yes'')
     5 7 demo_preflight (demo_draft_db demo_trace))) = Inr Refreshed"
  by code_simp

lemma demo_blocks:
  "map_sum id pv_disposition (fst (preflight demo_letters demo_codec demo_room_digests undisturbed NoTarget
     5 7 demo_preflight (demo_draft_db demo_trace))) = Inr Blocked"
  by code_simp

lemma demo_claims:
  "map_sum id fst (fst (claim_room_delivery demo_letters demo_codec demo_room_digests id 9 demo_deployed ''op'' ''s'' ''n''
     (demo_draft_db demo_checked))) = Inr DeliveryGranted"
  by code_simp

lemma map_sum_fstD: "map_sum id g r = Inr y \<Longrightarrow> \<exists>x. r = Inr x \<and> g x = y"
  by (cases r) auto

theorem published_draft_is_current_witness:
  "\<exists>t dep f. dc_trace demo_codec (demo_dump_trace demo_checked) = Some t
     \<and> deployment_matches ''dep'' ''c'' ''g'' ''ch'' [] (tc_category_id t) demo_deployed = Some dep
     \<and> focus demo_room_digests (owner_scope demo_scope dep) (tc_target_message_id t) 12 8 24000
         (demo_draft_db demo_checked) = Inr f
     \<and> current_draft demo_letters demo_room_digests t f"
proof -
  let ?d = "demo_draft_db demo_checked" and ?st = "demo_draft_step demo_checked"
  obtain ctx where ctx: "demo_dump_trace demo_checked = JObj ctx"
    by (simp add: demo_dump_trace_def)
  obtain res where "fst (claim_room_delivery demo_letters demo_codec demo_room_digests id 9 demo_deployed ''op'' ''s'' ''n'' ?d)
      = Inr res" "fst res = DeliveryGranted"
    using map_sum_fstD [OF demo_claims] by blast
  then have granted: "fst (claim_room_delivery demo_letters demo_codec demo_room_digests id 9 demo_deployed
      ''op'' ''s'' ''n'' ?d) = Inr (DeliveryGranted, snd res)"
    by (cases res) simp
  have st: "get_step ?d ''s'' = Some ?st" "st_status ?st = Generated"
    by (simp_all add: demo_draft_db_def demo_draft_step_def)
  have "bound_context (st_response ?st) = Some ctx"
    using ctx by (auto simp: demo_draft_step_def bound_context_def object_of_def loads_def dumps_def jget_def
        demo_dump_trace_def truthy_def demo_checked_def demo_trace_def Let_def)
  from published_draft_is_current [OF granted st this] obtain r t dep f where
    "get_operation ?d ''op'' = Some r" "dc_trace demo_codec (JObj ctx) = Some t"
    "deployment_matches (st_deployment_id ?st) (op_connection_id r) (op_guild_id r) (op_channel_id r)
       (op_thread_id r) (tc_category_id t) demo_deployed = Some dep"
    "focus demo_room_digests (owner_scope (operation_scope r) dep) (tc_target_message_id t) 12 8 24000 ?d = Inr f"
    "current_draft demo_letters demo_room_digests t f"
    by blast
  moreover from this(1) have "r = demo_draft_operation"
    by (simp add: demo_draft_db_def demo_draft_operation_def split: if_splits)
  ultimately show ?thesis
    unfolding ctx by (auto simp: demo_draft_operation_def demo_draft_step_def operation_scope_def demo_scope_def)
qed

theorem preflight_keeps_current_drafts_witness:
  "\<exists>st t v s. refreshed_draft demo_letters demo_room_digests 7 s t v
     (snd (reserve_draft 5 st (demo_draft_db demo_trace)))"
proof -
  obtain v d' where v: "preflight demo_letters demo_codec demo_room_digests undisturbed (demo_provider ''Yes'')
      5 7 demo_preflight (demo_draft_db demo_trace) = (Inr v, d')" "pv_disposition v = Refreshed"
    using map_sum_fstD [OF demo_refreshes] by (metis prod.collapse)
  then have "pv_disposition v \<in> {Kept, Refreshed}" by simp
  from preflight_keeps_current_drafts [OF v(1) this] v(2) show ?thesis
    unfolding Let_def kept_draft_def undisturbed_simps by auto
qed

theorem reserved_draft_is_decided_witness:
  "\<exists>v d'. preflight demo_letters demo_codec demo_room_digests undisturbed NoTarget 5 7 demo_preflight
      (demo_draft_db demo_trace) = (Inr v, d')
    \<and> pv_disposition v \<in> {Dropped, Blocked} \<and> step_state d' ''s'' = Some Silent"
proof -
  let ?d = "demo_draft_db demo_trace" and ?st = "demo_draft_step demo_trace"
  have step: "pq_step_id demo_preflight = ''s''" by (simp add: demo_preflight_def)
  have loaded: "load_draft (pq_scope demo_preflight) (pq_operation_id demo_preflight) (pq_step_id demo_preflight) ?d
      = Inr (demo_draft_operation, ?st)"
    by (simp add: load_draft_def demo_preflight_def demo_draft_db_def demo_draft_operation_def demo_draft_step_def
        demo_scope_def)
  have st: "st_status ?st = Generated" "op_status demo_draft_operation \<in> {OpActive, OpAwaitingDelivery}"
    by (simp_all add: demo_draft_step_def demo_draft_operation_def)
  have "readable_draft demo_codec demo_draft_operation ?st"
  proof -
    have "\<not> isl (stored_reply demo_codec (st_response ?st))" "\<not> isl (read_cursor demo_codec demo_draft_cursor)"
      by code_simp+
    then have "\<exists>x. stored_reply demo_codec (st_response ?st) = Inr x" "\<exists>x. read_cursor demo_codec demo_draft_cursor = Inr x"
      by (metis isl_def sumE)+
    moreover have "loads (st_response ?st) = Some (JObj [(''context_trace'', demo_dump_trace demo_trace)])"
      by (simp add: demo_draft_step_def loads_def dumps_def)
    moreover have "st_cursor ?st = demo_draft_cursor" "op_cursor demo_draft_operation = demo_draft_cursor"
      by (simp_all add: demo_draft_step_def demo_draft_operation_def)
    ultimately show ?thesis
      unfolding readable_draft_def by auto
  qed
  from reserved_draft_is_decided [OF demo_codec_faithful loaded st this, of demo_letters demo_room_digests NoTarget 5 7]
  obtain v d' where "preflight demo_letters demo_codec demo_room_digests undisturbed NoTarget 5 7 demo_preflight ?d = (Inr v, d')"
    "pv_disposition v \<in> {Kept, Refreshed} \<and> step_state d' ''s'' = Some Generated
     \<or> pv_disposition v \<in> {Dropped, Blocked} \<and> step_state d' ''s'' = Some Silent"
    unfolding step by blast
  moreover from this(1) demo_blocks have "pv_disposition v = Blocked" by simp
  ultimately show ?thesis by auto
qed

text \<open>The longest revisions are lost: \<open>RefreshedText\<close> accepts 4000 characters, the text part of a
  message only 2000, so the refresh of a direct draft fails and the answer is withheld.\<close>

lemma long_refresh_is_lost:
  "isl (refresh_draft demo_room_digests (demo_provider (replicate 2001 CHR ''a''))
     \<lparr>fc_scope = demo_scope, fc_target_message_id = ''m1'', fc_sources = [], fc_anchor_ids = [],
      fc_missing_ids = [], fc_room_revision = 2\<rparr> (demo_reply\<lparr>dr_trace := Some demo_trace\<rparr>))
   \<and> refreshed_text (Text (JObj [(''action'', JStr ''message''), (''text'', JStr (replicate 2001 CHR ''a''))]))
       = Inr (replicate 2001 CHR ''a'')"
  by code_simp

end
