(* ===== verification/Accounts.thy ===== *)
theory Accounts
  imports Redaction Pagination Rate_Limits
begin

text \<open>
  Accounts: the rows of users, login sessions, invitations, stored credentials and audit events
  (\<open>persistence/models.py\<close>), \<open>AuthRepository\<close> (\<open>persistence/auth_repository.py\<close>) and \<open>AuthService\<close>
  (\<open>auth.py\<close>).

  SHA-256, the password check, \<open>lower\<close> of the database and the random identifiers, tokens and codes are
  arguments. \<open>others\<close> is what other sessions commit between the transactions of one call. An audit event
  is appended in a transaction of its own after the change it records; the model appends it with it.
\<close>

section \<open>Rows\<close>

record user_row =
  us_id :: string
  us_email :: string
  us_display_name :: string
  us_password_hash :: string
  us_role :: string
  us_active :: bool
  us_created_at :: time
  us_updated_at :: time

record login_session =
  as_id :: string
  as_user_id :: string
  as_token_hash :: string
  as_user_agent_hash :: "string option"
  as_created_at :: time
  as_last_seen_at :: time
  as_expires_at :: time
  as_revoked_at :: "time option"

record invitation =
  iv_id :: string
  iv_code_hash :: string
  iv_email :: "string option"
  iv_role :: string
  iv_created_by :: "string option"
  iv_accepted_by :: "string option"
  iv_created_at :: time
  iv_expires_at :: time
  iv_accepted_at :: "time option"
  iv_revoked_at :: "time option"

record credential_row =
  ec_id :: string
  ec_owner_id :: string
  ec_scope_kind :: string
  ec_scope_id :: string
  ec_encrypted_value :: string
  ec_key_version :: string
  ec_created_at :: time
  ec_updated_at :: time
  ec_rotated_at :: "time option"

record audit_event =
  au_actor_user_id :: "string option"
  au_action :: string
  au_resource_type :: string
  au_resource_id :: "string option"
  au_metadata :: "(string \<times> json) list"

record account_db =
  users :: "user_row list"
  login_sessions :: "login_session list"
  invitations :: "invitation list"
  stored_credentials :: "credential_row list"
  audit_events :: "audit_event list"
  account_buckets :: "rate_bucket list"
  server_grants :: "(string \<times> string) list"

interpretation user_table: db_table users users_update us_id
  by unfold_locales simp

interpretation session_table: db_table login_sessions login_sessions_update as_id
  by unfold_locales simp

interpretation invitation_table: db_table invitations invitations_update iv_id
  by unfold_locales simp

abbreviation get_user :: "'a account_db_scheme \<Rightarrow> string \<Rightarrow> user_row option" where
  "get_user d k \<equiv> tget us_id (users d) k"

abbreviation get_login :: "'a account_db_scheme \<Rightarrow> string \<Rightarrow> login_session option" where
  "get_login d k \<equiv> tget as_id (login_sessions d) k"

abbreviation get_invitation :: "'a account_db_scheme \<Rightarrow> string \<Rightarrow> invitation option" where
  "get_invitation d k \<equiv> tget iv_id (invitations d) k"

record auth_world =
  aw_sha :: "string \<Rightarrow> string"
  aw_verify :: "string \<Rightarrow> string \<Rightarrow> bool"
  aw_dummy_hash :: string
  aw_lower :: "string \<Rightarrow> string"

record auth_settings =
  at_production :: bool
  at_public_registration :: bool
  at_legacy_local_user :: bool
  at_session_ttl_seconds :: int
  at_bootstrap_email :: "string option"
  at_bootstrap_password :: "string option"
  at_bootstrap_name :: string

section \<open>The repository\<close>

definition folded_email :: "string \<Rightarrow> string" where
  "folded_email email = strip (casefold email)"

definition insert_user :: "user_row \<Rightarrow> 'a account_db_scheme \<Rightarrow> (user_row, 'a account_db_scheme) outcome" where
  "insert_user r d =
     (if get_user d (us_id r) \<noteq> None \<or> us_email r \<in> set (map us_email (users d)) then (Inl IntegrityError, d)
      else (Inr r, d\<lparr>users := tins r (users d)\<rparr>))"

definition new_user :: "time \<Rightarrow> string \<Rightarrow> string \<Rightarrow> string \<Rightarrow> string \<Rightarrow> string \<Rightarrow> user_row" where
  "new_user now uid email name hash role =
     \<lparr>us_id = uid, us_email = email, us_display_name = name, us_password_hash = hash, us_role = role,
      us_active = True, us_created_at = now, us_updated_at = now\<rparr>"

definition create_user ::
  "time \<Rightarrow> string \<Rightarrow> string \<Rightarrow> string \<Rightarrow> string \<Rightarrow> string \<Rightarrow> 'a account_db_scheme
    \<Rightarrow> (user_row, 'a account_db_scheme) outcome" where
  "create_user now uid email name hash role d =
     insert_user (new_user now uid (folded_email email) (strip name) hash role) d"

definition get_user_by_email :: "auth_world \<Rightarrow> string \<Rightarrow> 'a account_db_scheme \<Rightarrow> user_row option" where
  "get_user_by_email w email d = find (\<lambda>u. aw_lower w (us_email u) = folded_email email) (users d)"

definition create_login ::
  "time \<Rightarrow> string \<Rightarrow> string \<Rightarrow> string \<Rightarrow> time \<Rightarrow> string option \<Rightarrow> 'a account_db_scheme
    \<Rightarrow> (login_session, 'a account_db_scheme) outcome" where
  "create_login now sid user token_hash expires agent d =
     (let r = \<lparr>as_id = sid, as_user_id = user, as_token_hash = token_hash, as_user_agent_hash = agent,
               as_created_at = now, as_last_seen_at = now, as_expires_at = expires, as_revoked_at = None\<rparr> in
      if get_login d sid \<noteq> None \<or> token_hash \<in> set (map as_token_hash (login_sessions d))
      then (Inl IntegrityError, d)
      else (Inr r, d\<lparr>login_sessions := tins r (login_sessions d)\<rparr>))"

definition login_by_token :: "string \<Rightarrow> 'a account_db_scheme \<Rightarrow> login_session option" where
  "login_by_token token_hash d = find (\<lambda>s. as_token_hash s = token_hash) (login_sessions d)"

definition touch_session :: "time \<Rightarrow> string \<Rightarrow> 'a account_db_scheme \<Rightarrow> 'a account_db_scheme" where
  "touch_session now sid d =
     d\<lparr>login_sessions := tset (\<lambda>s. as_id s = sid)
         (\<lambda>s. if as_revoked_at s \<noteq> None \<or> now - as_last_seen_at s < seconds 60 then s
              else s\<lparr>as_last_seen_at := now\<rparr>) (login_sessions d)\<rparr>"

definition numbered_page ::
  "('r \<Rightarrow> time \<times> string) \<Rightarrow> int \<Rightarrow> int \<Rightarrow> 'r list \<Rightarrow> 'r list \<times> int \<times> int \<times> int" where
  "numbered_page key page size_asked rows =
     (let bounded = max 1 (min size_asked 100); n = int (length rows);
          pages = max 1 ((n + bounded - 1) div bounded); shown = min (max 1 page) pages in
      (take (nat bounded) (drop (nat ((shown - 1) * bounded)) (rev (sort_key key rows))), n, shown, pages))"

definition list_sessions_page ::
  "string \<Rightarrow> int \<Rightarrow> int \<Rightarrow> 'a account_db_scheme \<Rightarrow> login_session list \<times> int \<times> int \<times> int" where
  "list_sessions_page user page size_asked d =
     numbered_page (\<lambda>s. (as_created_at s, as_id s)) page size_asked
       (filter (\<lambda>s. as_user_id s = user) (login_sessions d))"

definition get_session :: "string \<Rightarrow> string \<Rightarrow> 'a account_db_scheme \<Rightarrow> login_session option" where
  "get_session sid user d = find (\<lambda>s. as_id s = sid \<and> as_user_id s = user) (login_sessions d)"

definition ended_session :: "time \<Rightarrow> login_session \<Rightarrow> login_session" where
  "ended_session now s = (if as_revoked_at s = None then s\<lparr>as_revoked_at := Some now\<rparr> else s)"

definition revoke_login :: "time \<Rightarrow> string \<Rightarrow> string option \<Rightarrow> 'a account_db_scheme \<Rightarrow> bool \<times> 'a account_db_scheme" where
  "revoke_login now sid user d =
     (let P = (\<lambda>s. as_id s = sid \<and> (user = None \<or> user = Some (as_user_id s))) in
      if \<not> list_ex P (login_sessions d) then (False, d)
      else (True, d\<lparr>login_sessions := tset P (ended_session now) (login_sessions d)\<rparr>))"

definition invited_email :: "string option \<Rightarrow> string option" where
  "invited_email email = (case email of None \<Rightarrow> None | Some e \<Rightarrow> if e = [] then None else Some (folded_email e))"

definition insert_invitation ::
  "time \<Rightarrow> string \<Rightarrow> string \<Rightarrow> string option \<Rightarrow> string \<Rightarrow> string option \<Rightarrow> time \<Rightarrow> 'a account_db_scheme
    \<Rightarrow> (invitation, 'a account_db_scheme) outcome" where
  "insert_invitation now uid code_hash email role creator expires d =
     (let r = \<lparr>iv_id = uid, iv_code_hash = code_hash, iv_email = invited_email email, iv_role = role,
               iv_created_by = creator, iv_accepted_by = None, iv_created_at = now, iv_expires_at = expires,
               iv_accepted_at = None, iv_revoked_at = None\<rparr> in
      if get_invitation d uid \<noteq> None \<or> code_hash \<in> set (map iv_code_hash (invitations d))
      then (Inl IntegrityError, d)
      else (Inr r, d\<lparr>invitations := tins r (invitations d)\<rparr>))"

definition claimable_invitation :: "time \<Rightarrow> string \<Rightarrow> string \<Rightarrow> invitation \<Rightarrow> bool" where
  "claimable_invitation now code_hash email r \<longleftrightarrow>
     iv_code_hash r = code_hash \<and> iv_accepted_at r = None \<and> iv_revoked_at r = None \<and> now < iv_expires_at r
     \<and> (iv_email r = None \<or> iv_email r = Some (folded_email email))"

text \<open>The conditional update inside the caller's transaction; without exactly one row it is rolled back
  by the caller, who does not commit.\<close>

definition claim_for_registration ::
  "time \<Rightarrow> string \<Rightarrow> string \<Rightarrow> 'a account_db_scheme \<Rightarrow> (invitation \<times> 'a account_db_scheme) option" where
  "claim_for_registration now code_hash email d =
     (if tcount (claimable_invitation now code_hash email) (invitations d) \<noteq> 1 then None
      else
        (let d' = d\<lparr>invitations := tset (claimable_invitation now code_hash email)
                       (\<lambda>r. r\<lparr>iv_accepted_at := Some now\<rparr>) (invitations d)\<rparr> in
         map_option (\<lambda>r. (r, d')) (find (\<lambda>r. iv_code_hash r = code_hash) (invitations d'))))"

definition accepted_by :: "string \<Rightarrow> string \<Rightarrow> 'a account_db_scheme \<Rightarrow> 'a account_db_scheme" where
  "accepted_by k user d =
     d\<lparr>invitations := tset (\<lambda>r. iv_id r = k) (\<lambda>r. r\<lparr>iv_accepted_by := Some user\<rparr>) (invitations d)\<rparr>"

definition claim_invitation ::
  "time \<Rightarrow> string \<Rightarrow> string \<Rightarrow> string \<Rightarrow> 'a account_db_scheme \<Rightarrow> invitation option \<times> 'a account_db_scheme" where
  "claim_invitation now code_hash email user d =
     (case claim_for_registration now code_hash email d of
        None \<Rightarrow> (None, d)
      | Some (r, d') \<Rightarrow> (get_invitation (accepted_by (iv_id r) user d') (iv_id r), accepted_by (iv_id r) user d'))"

definition credential_key :: "credential_row \<Rightarrow> string \<times> string \<times> string" where
  "credential_key r = (ec_owner_id r, ec_scope_kind r, ec_scope_id r)"

definition get_credential ::
  "string \<times> string \<times> string \<Rightarrow> 'a account_db_scheme \<Rightarrow> credential_row option" where
  "get_credential k d = find (\<lambda>r. credential_key r = k) (stored_credentials d)"

definition save_credential ::
  "time \<Rightarrow> string \<Rightarrow> string \<times> string \<times> string \<Rightarrow> string \<Rightarrow> string \<Rightarrow> bool \<Rightarrow> 'a account_db_scheme
    \<Rightarrow> (credential_row, 'a account_db_scheme) outcome" where
  "save_credential now uid k encrypted version rotated d =
     (case get_credential k d of
        None \<Rightarrow>
          (let r = \<lparr>ec_id = uid, ec_owner_id = fst k, ec_scope_kind = fst (snd k), ec_scope_id = snd (snd k),
                    ec_encrypted_value = encrypted, ec_key_version = version, ec_created_at = now,
                    ec_updated_at = now, ec_rotated_at = None\<rparr> in
           if uid \<in> set (map ec_id (stored_credentials d)) then (Inl IntegrityError, d)
           else (Inr r, d\<lparr>stored_credentials := tins r (stored_credentials d)\<rparr>))
      | Some r \<Rightarrow>
          (let f = (\<lambda>r. let r' = r\<lparr>ec_encrypted_value := encrypted, ec_key_version := version,
                                    ec_rotated_at := (if rotated then Some now else ec_rotated_at r)\<rparr> in
                        if r' = r then r else r'\<lparr>ec_updated_at := now\<rparr>) in
           (Inr (f r), d\<lparr>stored_credentials := tset (\<lambda>x. ec_id x = ec_id r) f (stored_credentials d)\<rparr>)))"

definition delete_credential :: "string \<times> string \<times> string \<Rightarrow> 'a account_db_scheme \<Rightarrow> 'a account_db_scheme" where
  "delete_credential k d =
     (case get_credential k d of
        None \<Rightarrow> d
      | Some r \<Rightarrow> d\<lparr>stored_credentials := tdel (\<lambda>x. ec_id x = ec_id r) (stored_credentials d)\<rparr>)"

definition write_audit ::
  "string option \<Rightarrow> string \<Rightarrow> string \<Rightarrow> string option \<Rightarrow> (string \<times> json) list \<Rightarrow> 'a account_db_scheme
    \<Rightarrow> 'a account_db_scheme" where
  "write_audit actor action kind resource metadata d =
     d\<lparr>audit_events := tins \<lparr>au_actor_user_id = actor, au_action = action, au_resource_type = kind,
                              au_resource_id = resource, au_metadata = metadata\<rparr> (audit_events d)\<rparr>"

section \<open>The service\<close>

definition normalize_email :: "string \<Rightarrow> error + string" where
  "normalize_email raw =
     (let normalized = folded_email raw in
      if 320 < length normalized \<or> count_list normalized (CHR ''@'') \<noteq> 1 \<or> CHR '' '' \<in> set normalized
        \<or> take 1 normalized = ''@'' \<or> ends_with normalized ''@''
      then Inl (ValueError ''Enter a valid email address.'') else Inr normalized)"

definition system_runtime_user :: string where
  "system_runtime_user = ''system-runtime''"

definition system_runtime_email :: string where
  "system_runtime_email = ''system-runtime@echo-masque.invalid''"

definition ensure_development_user ::
  "auth_world \<Rightarrow> auth_settings \<Rightarrow> time \<Rightarrow> string \<Rightarrow> string \<Rightarrow> 'a account_db_scheme
    \<Rightarrow> (user_row option, 'a account_db_scheme) outcome" where
  "ensure_development_user w st now hash uid d =
     (if at_production st \<or> \<not> at_legacy_local_user st then (Inr None, d)
      else
        (case get_user d uid of
           Some r \<Rightarrow> (Inr (Some r), d)
         | None \<Rightarrow>
             (case create_user now uid (''legacy-'' @ take 24 (aw_sha w uid) @ ''@echo-masque.invalid'')
                     (if uid = ''local-user'' then ''Local User'' else uid) hash
                     (if uid = ''local-user'' then ''admin'' else ''user'') d of
                (Inl e, d') \<Rightarrow> (Inl e, d')
              | (Inr r, d') \<Rightarrow> (Inr (Some r), d'))))"

definition ensure_system_runtime_user ::
  "time \<Rightarrow> string \<Rightarrow> 'a account_db_scheme \<Rightarrow> (user_row, 'a account_db_scheme) outcome" where
  "ensure_system_runtime_user now hash d =
     (case get_user d system_runtime_user of
        Some r \<Rightarrow> (Inr r, d)
      | None \<Rightarrow> create_user now system_runtime_user system_runtime_email ''Echo Masque Runtime'' hash ''admin'' d)"

definition with_role :: "time \<Rightarrow> string \<Rightarrow> user_row \<Rightarrow> user_row" where
  "with_role now role r = (if us_role r = role then r else r\<lparr>us_role := role, us_updated_at := now\<rparr>)"

definition put_user :: "string \<Rightarrow> (user_row \<Rightarrow> user_row) \<Rightarrow> 'a account_db_scheme \<Rightarrow> 'a account_db_scheme" where
  "put_user k f d = d\<lparr>users := tset (\<lambda>u. us_id u = k) f (users d)\<rparr>"

text \<open>The stored account is read again before it is promoted; \<open>others\<close> commit in between.\<close>

definition ensure_bootstrap_admin ::
  "auth_world \<Rightarrow> auth_settings \<Rightarrow> ('a account_db_scheme \<Rightarrow> 'a account_db_scheme) \<Rightarrow> time \<Rightarrow> string \<Rightarrow> string
    \<Rightarrow> 'a account_db_scheme \<Rightarrow> (user_row option, 'a account_db_scheme) outcome" where
  "ensure_bootstrap_admin w st others now uid hash d =
     (case (at_bootstrap_email st, at_bootstrap_password st) of
        (None, None) \<Rightarrow> (Inr None, d)
      | (Some email, Some password) \<Rightarrow>
          (case normalize_email email of
             Inl e \<Rightarrow> (Inl e, d)
           | Inr normalized \<Rightarrow>
               (case get_user_by_email w normalized d of
                  None \<Rightarrow>
                    if length password < 12
                    then (Inl (ValueError ''Bootstrap Admin password must contain at least 12 characters.''), d)
                    else
                      (case create_user now uid normalized (at_bootstrap_name st) hash ''admin'' (others d) of
                         (Inl e, d') \<Rightarrow> (Inl e, d')
                       | (Inr r, d') \<Rightarrow>
                           (Inr (Some r), write_audit (Some (us_id r)) ''admin.bootstrap_created'' ''user''
                                            (Some (us_id r)) [] d'))
                | Some r \<Rightarrow>
                    if us_role r = ''admin'' then (Inr (Some r), d)
                    else
                      (case get_user (others d) (us_id r) of
                         None \<Rightarrow> (Inl (RuntimeError ''Bootstrap Admin disappeared during promotion.''), others d)
                       | Some s \<Rightarrow>
                           (Inr (Some (with_role now ''admin'' s)),
                            write_audit (Some (us_id s)) ''admin.bootstrap_promoted'' ''user'' (Some (us_id s)) []
                              (put_user (us_id s) (with_role now ''admin'') (others d))))))
      | _ \<Rightarrow> (Inl (ValueError ''CHARACTER_RELAY_BOOTSTRAP_ADMIN_EMAIL and CHARACTER_RELAY_BOOTSTRAP_ADMIN_PASSWORD must be configured together.''), d))"

definition register_from_invitation ::
  "auth_world \<Rightarrow> time \<Rightarrow> string \<Rightarrow> string \<Rightarrow> string \<Rightarrow> string \<Rightarrow> string \<Rightarrow> 'a account_db_scheme
    \<Rightarrow> (user_row, 'a account_db_scheme) outcome" where
  "register_from_invitation w now uid email name hash code d =
     (case claim_for_registration now (aw_sha w (strip code)) email d of
        None \<Rightarrow> (Inl InvitationRefused, d)
      | Some (invited, d1) \<Rightarrow>
          (case insert_user (new_user now uid email (strip name) hash (iv_role invited)) d1 of
             (Inl _, _) \<Rightarrow> (Inl DuplicateAccount, d)
           | (Inr r, d2) \<Rightarrow>
               (Inr r, write_audit (Some uid) ''invitation.accepted'' ''invitation'' (Some (iv_id invited)) []
                         (accepted_by (iv_id invited) uid d2))))"

definition registered ::
  "string \<Rightarrow> (user_row, 'a account_db_scheme) outcome \<Rightarrow> (user_row, 'a account_db_scheme) outcome" where
  "registered source res =
     (case res of
        (Inl e, d) \<Rightarrow> (Inl e, d)
      | (Inr r, d) \<Rightarrow>
          (Inr r, write_audit (Some (us_id r)) ''account.registered'' ''user'' (Some (us_id r))
                    [(''registration_source'', JStr source)] d))"

definition register ::
  "auth_world \<Rightarrow> auth_settings \<Rightarrow> ('a account_db_scheme \<Rightarrow> 'a account_db_scheme) \<Rightarrow> time \<Rightarrow> string \<Rightarrow> string
    \<Rightarrow> string \<Rightarrow> string \<Rightarrow> string option \<Rightarrow> 'a account_db_scheme \<Rightarrow> (user_row, 'a account_db_scheme) outcome" where
  "register w st others now uid email name hash code d =
     (case normalize_email email of
        Inl e \<Rightarrow> (Inl e, d)
      | Inr normalized \<Rightarrow>
          if at_production st \<and> \<not> at_public_registration st then
            (case code of
               None \<Rightarrow> (Inl RegistrationClosed, d)
             | Some c \<Rightarrow>
                 if strip c = [] then (Inl RegistrationClosed, d)
                 else registered ''invitation'' (register_from_invitation w now uid normalized name hash c d))
          else if get_user_by_email w normalized d \<noteq> None then (Inl DuplicateAccount, d)
          else registered ''public'' (create_user now uid normalized (strip name) hash ''user'' (others d)))"

text \<open>What a login answers: the account, its session and the token.\<close>

record issued_session =
  is_user :: user_row
  is_session_id :: string
  is_expires_at :: time
  is_token :: string

definition login ::
  "auth_world \<Rightarrow> auth_settings \<Rightarrow> ('a account_db_scheme \<Rightarrow> 'a account_db_scheme) \<Rightarrow> time \<Rightarrow> string \<Rightarrow> string
    \<Rightarrow> string \<Rightarrow> string \<Rightarrow> string option \<Rightarrow> 'a account_db_scheme \<Rightarrow> (issued_session, 'a account_db_scheme) outcome" where
  "login w st others now sid token email password agent d =
     (case normalize_email email of
        Inl e \<Rightarrow> (Inl e, d)
      | Inr normalized \<Rightarrow>
          (let found = get_user_by_email w normalized d;
               hash = (case found of None \<Rightarrow> aw_dummy_hash w | Some r \<Rightarrow> us_password_hash r);
               valid = aw_verify w hash password;
               refused = (Inl AuthenticationError,
                          write_audit None ''session.login_failed'' ''session'' None
                            [(''email_hash'', JStr (aw_sha w normalized))] d) in
           case found of
             None \<Rightarrow> refused
           | Some r \<Rightarrow>
               if \<not> valid \<or> \<not> us_active r then refused
               else
                 (let expires = now + seconds (at_session_ttl_seconds st) in
                  case create_login now sid (us_id r) (aw_sha w token) expires
                         (case agent of None \<Rightarrow> None | Some a \<Rightarrow> if a = [] then None else Some (aw_sha w a))
                         (others d) of
                    (Inl e, d') \<Rightarrow> (Inl e, d')
                  | (Inr s, d') \<Rightarrow>
                      (Inr \<lparr>is_user = r, is_session_id = sid, is_expires_at = expires, is_token = token\<rparr>,
                       write_audit (Some (us_id r)) ''session.login_succeeded'' ''session'' (Some sid) [] d'))))"

text \<open>\<open>resolve\<close>: the account behind a token, its session and when that ends.\<close>

definition resolve_session ::
  "auth_world \<Rightarrow> time \<Rightarrow> string \<Rightarrow> 'a account_db_scheme
    \<Rightarrow> (user_row \<times> string \<times> time) option \<times> 'a account_db_scheme" where
  "resolve_session w now token d =
     (case login_by_token (aw_sha w token) d of
        None \<Rightarrow> (None, d)
      | Some s \<Rightarrow>
          if as_revoked_at s \<noteq> None then (None, d)
          else if as_expires_at s \<le> now then (None, snd (revoke_login now (as_id s) None d))
          else
            (case get_user d (as_user_id s) of
               None \<Rightarrow> (None, d)
             | Some u \<Rightarrow>
                 if \<not> us_active u then (None, d)
                 else (Some (u, as_id s, as_expires_at s), touch_session now (as_id s) d)))"

definition revoke_session ::
  "time \<Rightarrow> string \<Rightarrow> string \<Rightarrow> 'a account_db_scheme \<Rightarrow> bool \<times> 'a account_db_scheme" where
  "revoke_session now sid user d =
     (let (revoked, d') = revoke_login now sid (Some user) d in
      (revoked,
       if revoked then write_audit (Some user) ''session.revoked'' ''session'' (Some sid) [] d' else d'))"

end
