(* ===== verification/Workspaces.thy ===== *)
theory Workspaces
  imports Accounts
begin

text \<open>
  The workspace of an account and the operations of \<open>AccountLifecycleService\<close> on it
  (\<open>account_lifecycle.py\<close>): the claim of the data of the local user, and the deletion of everything an
  account owns. Of each table the model keeps the columns that these operations read or write: its key,
  its owner, and the row it is a part of.
\<close>

section \<open>Tables\<close>

record owned_row =
  ow_id :: string
  ow_owner_id :: string

record part_row =
  pw_id :: string
  pw_parent_id :: string

record card_row =
  cw_id :: string
  cw_owner_id :: string
  cw_target_id :: string

record prompt_row =
  vw_id :: string
  vw_owner_id :: string
  vw_card_id :: string

record ownership_row =
  tw_id :: string
  tw_target_id :: string
  tw_owner_id :: string

record workspace_db = account_db +
  ws_matrices :: "owned_row list"
  ws_matrix_tasks :: "part_row list"
  ws_runs :: "owned_row list"
  ws_evidence :: "part_row list"
  ws_events :: "part_row list"
  ws_turns :: "part_row list"
  ws_trials :: "part_row list"
  ws_trial_runs :: "string list"
  ws_packs :: "owned_row list"
  ws_pack_items :: "part_row list"
  ws_scenarios :: "owned_row list"
  ws_notes :: "owned_row list"
  ws_receipts :: "owned_row list"
  ws_cards :: "card_row list"
  ws_key_groups :: "part_row list"
  ws_prompts :: "prompt_row list"
  ws_ownerships :: "ownership_row list"
  ws_targets :: "string list"
  ws_probes :: "owned_row list"

definition of_owner :: "string \<Rightarrow> owned_row \<Rightarrow> bool" where
  "of_owner owner r \<longleftrightarrow> ow_owner_id r = owner"

definition ids_of :: "string \<Rightarrow> owned_row list \<Rightarrow> string list" where
  "ids_of owner t = map ow_id (filter (of_owner owner) t)"

definition part_of :: "string list \<Rightarrow> part_row \<Rightarrow> bool" where
  "part_of ids r \<longleftrightarrow> pw_parent_id r \<in> set ids"

definition card_ids_of :: "string \<Rightarrow> card_row list \<Rightarrow> string list" where
  "card_ids_of owner t = map cw_id (filter (\<lambda>r. cw_owner_id r = owner) t)"

definition demo_target :: "string \<Rightarrow> bool" where
  "demo_target k \<longleftrightarrow> take 5 k = ''demo-''"

section \<open>Deleting a workspace\<close>

text \<open>The targets of the deleted cards that neither a card nor an owner needs any longer.\<close>

definition orphaned_targets ::
  "string \<Rightarrow> card_row list \<Rightarrow> card_row list \<Rightarrow> ownership_row list \<Rightarrow> string list" where
  "orphaned_targets owner cards remaining ownerships =
     filter (\<lambda>k. \<not> demo_target k \<and> k \<notin> set (map cw_target_id remaining)
                 \<and> k \<notin> set (map tw_target_id ownerships))
       (remdups (map cw_target_id (filter (\<lambda>r. cw_owner_id r = owner) cards)))"

definition delete_evaluations :: "string \<Rightarrow> 'a workspace_db_scheme \<Rightarrow> 'a workspace_db_scheme" where
  "delete_evaluations owner d =
     (let matrix_ids = ids_of owner (ws_matrices d); run_ids = ids_of owner (ws_runs d);
          pack_ids = ids_of owner (ws_packs d) in
      d\<lparr>ws_matrix_tasks := tdel (part_of matrix_ids) (ws_matrix_tasks d),
        ws_matrices := tdel (\<lambda>r. ow_id r \<in> set matrix_ids) (ws_matrices d),
        ws_evidence := tdel (part_of run_ids) (ws_evidence d),
        ws_events := tdel (part_of run_ids) (ws_events d),
        ws_turns := tdel (part_of run_ids) (ws_turns d),
        ws_trials := tdel (part_of run_ids) (ws_trials d),
        ws_runs := tdel (\<lambda>r. ow_id r \<in> set run_ids) (ws_runs d),
        ws_trial_runs := tdel (\<lambda>k. k \<in> set run_ids) (ws_trial_runs d),
        ws_pack_items := tdel (part_of pack_ids) (ws_pack_items d),
        ws_packs := tdel (\<lambda>r. ow_id r \<in> set pack_ids) (ws_packs d),
        ws_scenarios := tdel (of_owner owner) (ws_scenarios d)\<rparr>)"

definition delete_characters :: "string \<Rightarrow> 'a workspace_db_scheme \<Rightarrow> 'a workspace_db_scheme" where
  "delete_characters owner d =
     (let card_ids = card_ids_of owner (ws_cards d);
          cards = tdel (\<lambda>r. cw_id r \<in> set card_ids) (ws_cards d);
          ownerships = tdel (\<lambda>r. tw_owner_id r = owner) (ws_ownerships d) in
      d\<lparr>ws_notes := tdel (of_owner owner) (ws_notes d), ws_receipts := tdel (of_owner owner) (ws_receipts d),
        ws_key_groups := tdel (part_of card_ids) (ws_key_groups d),
        ws_prompts := tdel (\<lambda>r. vw_card_id r \<in> set card_ids) (ws_prompts d),
        ws_cards := cards, ws_ownerships := ownerships,
        ws_targets := tdel (\<lambda>k. k \<in> set (orphaned_targets owner (ws_cards d) cards ownerships)) (ws_targets d),
        ws_probes := tdel (of_owner owner) (ws_probes d)\<rparr>)"

text \<open>The counts; the groups of an empty selection are not reported.\<close>

definition reported :: "string list \<Rightarrow> (string \<times> nat) list \<Rightarrow> (string \<times> nat) list" where
  "reported ids counts = (if ids = [] then [] else counts)"

definition deleted_counts :: "string \<Rightarrow> 'a workspace_db_scheme \<Rightarrow> (string \<times> nat) list" where
  "deleted_counts owner d =
     (let matrix_ids = ids_of owner (ws_matrices d); run_ids = ids_of owner (ws_runs d);
          pack_ids = ids_of owner (ws_packs d); card_ids = card_ids_of owner (ws_cards d);
          d' = delete_characters owner d;
          orphans = orphaned_targets owner (ws_cards d) (ws_cards d') (ws_ownerships d') in
      reported matrix_ids
        [(''matrix_tasks'', tcount (part_of matrix_ids) (ws_matrix_tasks d)),
         (''matrices'', tcount (\<lambda>r. ow_id r \<in> set matrix_ids) (ws_matrices d))]
      @ reported run_ids
        [(''evidence'', tcount (part_of run_ids) (ws_evidence d)),
         (''events'', tcount (part_of run_ids) (ws_events d)), (''turns'', tcount (part_of run_ids) (ws_turns d)),
         (''character_trials'', tcount (part_of run_ids) (ws_trials d)),
         (''run_snapshots'', tcount (\<lambda>r. ow_id r \<in> set run_ids) (ws_runs d)),
         (''trial_runs'', tcount (\<lambda>k. k \<in> set run_ids) (ws_trial_runs d))]
      @ reported pack_ids
        [(''pack_items'', tcount (part_of pack_ids) (ws_pack_items d)),
         (''test_packs'', tcount (\<lambda>r. ow_id r \<in> set pack_ids) (ws_packs d))]
      @ [(''scenarios'', tcount (of_owner owner) (ws_scenarios d)),
         (''character_notes'', tcount (of_owner owner) (ws_notes d)),
         (''note_creation_receipts'', tcount (of_owner owner) (ws_receipts d))]
      @ reported card_ids
        [(''key_group_assignments'', tcount (part_of card_ids) (ws_key_groups d)),
         (''prompt_versions'', tcount (\<lambda>r. vw_card_id r \<in> set card_ids) (ws_prompts d)),
         (''characters'', tcount (\<lambda>r. cw_id r \<in> set card_ids) (ws_cards d))]
      @ [(''target_ownership'', tcount (\<lambda>r. tw_owner_id r = owner) (ws_ownerships d))]
      @ reported orphans [(''targets'', tcount (\<lambda>k. k \<in> set orphans) (ws_targets d))]
      @ [(''probes'', tcount (of_owner owner) (ws_probes d))])"

definition delete_workspace :: "string \<Rightarrow> 'a workspace_db_scheme \<Rightarrow> (string \<times> nat) list \<times> 'a workspace_db_scheme" where
  "delete_workspace owner d = (deleted_counts owner d, delete_characters owner (delete_evaluations owner d))"

section \<open>Claiming the local workspace\<close>

definition local_owner :: string where
  "local_owner = ''local-user''"

definition moved_rows :: "string \<Rightarrow> owned_row list \<Rightarrow> owned_row list" where
  "moved_rows actor t = tset (of_owner local_owner) (\<lambda>r. r\<lparr>ow_owner_id := actor\<rparr>) t"

definition claim_rows :: "string \<Rightarrow> 'a workspace_db_scheme \<Rightarrow> 'a workspace_db_scheme" where
  "claim_rows actor d =
     d\<lparr>ws_cards := tset (\<lambda>r. cw_owner_id r = local_owner) (\<lambda>r. r\<lparr>cw_owner_id := actor\<rparr>) (ws_cards d),
       ws_scenarios := moved_rows actor (ws_scenarios d), ws_packs := moved_rows actor (ws_packs d),
       ws_runs := moved_rows actor (ws_runs d),
       ws_prompts := tset (\<lambda>r. vw_owner_id r = local_owner) (\<lambda>r. r\<lparr>vw_owner_id := actor\<rparr>) (ws_prompts d),
       ws_matrices := moved_rows actor (ws_matrices d), ws_probes := moved_rows actor (ws_probes d),
       stored_credentials :=
         tset (\<lambda>r. ec_owner_id r = local_owner) (\<lambda>r. r\<lparr>ec_owner_id := actor\<rparr>) (stored_credentials d)\<rparr>"

text \<open>One ownership of the local user: moved, or dropped when the account has its own.\<close>

definition claim_ownership :: "string \<Rightarrow> ownership_row \<Rightarrow> nat \<times> ownership_row list \<Rightarrow> nat \<times> ownership_row list" where
  "claim_ownership actor r res =
     (let (n, t) = res in
      if list_ex (\<lambda>x. tw_target_id x = tw_target_id r \<and> tw_owner_id x = actor) t
      then (n, tdel (\<lambda>x. tw_id x = tw_id r) t)
      else (Suc n, tset (\<lambda>x. tw_id x = tw_id r) (\<lambda>x. x\<lparr>tw_owner_id := actor\<rparr>) t))"

definition own_target :: "(string \<Rightarrow> string) \<Rightarrow> string \<Rightarrow> string \<Rightarrow> nat \<times> ownership_row list \<Rightarrow> nat \<times> ownership_row list" where
  "own_target uid actor k res =
     (let (n, t) = res in
      if demo_target k \<or> list_ex (\<lambda>x. tw_target_id x = k \<and> tw_owner_id x = actor) t then (n, t)
      else (Suc n, tins \<lparr>tw_id = uid k, tw_target_id = k, tw_owner_id = actor\<rparr> t))"

definition claim_ownerships ::
  "(string \<Rightarrow> string) \<Rightarrow> string \<Rightarrow> string list \<Rightarrow> ownership_row list \<Rightarrow> nat \<times> ownership_row list" where
  "claim_ownerships uid actor targets t =
     fold (own_target uid actor) targets
       (fold (claim_ownership actor) (filter (\<lambda>r. tw_owner_id r = local_owner) t) (0, t))"

definition claim_counts :: "nat \<Rightarrow> 'a workspace_db_scheme \<Rightarrow> (string \<times> nat) list" where
  "claim_counts ownerships d =
     [(''characters'', tcount (\<lambda>r. cw_owner_id r = local_owner) (ws_cards d)),
      (''scenarios'', tcount (of_owner local_owner) (ws_scenarios d)),
      (''test_packs'', tcount (of_owner local_owner) (ws_packs d)),
      (''run_snapshots'', tcount (of_owner local_owner) (ws_runs d)),
      (''prompt_versions'', tcount (\<lambda>r. vw_owner_id r = local_owner) (ws_prompts d)),
      (''matrices'', tcount (of_owner local_owner) (ws_matrices d)),
      (''probes'', tcount (of_owner local_owner) (ws_probes d)),
      (''credentials'', tcount (\<lambda>r. ec_owner_id r = local_owner) (stored_credentials d)),
      (''target_ownership'', ownerships)]"

definition claim_local_workspace ::
  "(string \<Rightarrow> string) \<Rightarrow> string \<Rightarrow> 'a workspace_db_scheme
    \<Rightarrow> ((string \<times> nat) list, 'a workspace_db_scheme) outcome" where
  "claim_local_workspace uid actor d =
     (let d1 = claim_rows actor d;
          targets = remdups (map cw_target_id (filter (\<lambda>r. cw_owner_id r = actor) (ws_cards d1)));
          (n, t) = claim_ownerships uid actor targets (ws_ownerships d1);
          d2 = d1\<lparr>ws_ownerships := t\<rparr>; counts = claim_counts n d in
      if \<not> distinct (map credential_key (stored_credentials d1)) \<or> \<not> keyed tw_id t then (Inl IntegrityError, d)
      else if sum_list (map snd counts) = 0
      then (Inl (LifecycleConflict ''No unclaimed local workspace data was found.''), d2)
      else
        (Inr counts,
         write_audit (Some actor) ''workspace.local_claimed'' ''workspace'' (Some actor)
           (map (\<lambda>(k, m). (k, JInt (int m))) counts) d2))"

end
