(* ===== verification/Account_Lifecycle.thy ===== *)
theory Account_Lifecycle
  imports Workspaces
begin

text \<open>
  Invitations, roles and the end of an account: the other operations of
  \<open>AccountLifecycleService\<close> (\<open>account_lifecycle.py\<close>). \<open>others\<close> is what other sessions commit between the
  transactions of a deletion: after its checks, and after the workspace is deleted.
\<close>

section \<open>Invitations\<close>

definition create_invitation ::
  "auth_world \<Rightarrow> time \<Rightarrow> string \<Rightarrow> string \<Rightarrow> string \<Rightarrow> string option \<Rightarrow> string \<Rightarrow> int \<Rightarrow> 'a account_db_scheme
    \<Rightarrow> (invitation \<times> string, 'a account_db_scheme) outcome" where
  "create_invitation w now uid code actor email role lasting d =
     (case insert_invitation now uid (aw_sha w code) email role (Some actor) (now + days lasting) d of
        (Inl e, d') \<Rightarrow> (Inl e, d')
      | (Inr r, d') \<Rightarrow>
          (Inr (r, code),
           write_audit (Some actor) ''invitation.created'' ''invitation'' (Some uid)
             [(''email'', case iv_email r of None \<Rightarrow> JNull | Some e \<Rightarrow> JStr e), (''role'', JStr role)] d'))"

definition list_invitations :: "int \<Rightarrow> 'a account_db_scheme \<Rightarrow> invitation list" where
  "list_invitations limit d = tlimit limit (sort_key (\<lambda>r. - iv_created_at r) (invitations d))"

definition revoke_invitation ::
  "time \<Rightarrow> string \<Rightarrow> string \<Rightarrow> 'a account_db_scheme \<Rightarrow> bool \<times> 'a account_db_scheme" where
  "revoke_invitation now k actor d =
     (case get_invitation d k of
        None \<Rightarrow> (False, d)
      | Some r \<Rightarrow>
          if iv_accepted_at r \<noteq> None then (False, d)
          else
            (True,
             write_audit (Some actor) ''invitation.revoked'' ''invitation'' (Some k) []
               (d\<lparr>invitations := tset (\<lambda>r. iv_id r = k)
                   (\<lambda>r. if iv_revoked_at r = None then r\<lparr>iv_revoked_at := Some now\<rparr> else r) (invitations d)\<rparr>)))"

section \<open>Accounts and roles\<close>

definition contains_text :: "string \<Rightarrow> string \<Rightarrow> bool" where
  "contains_text part whole \<longleftrightarrow> list_ex (\<lambda>i. take (length part) (drop i whole) = part) [0..<Suc (length whole)]"

definition list_users_page ::
  "auth_world \<Rightarrow> int \<Rightarrow> int \<Rightarrow> string option \<Rightarrow> 'a account_db_scheme \<Rightarrow> user_row list \<times> int \<times> int \<times> int" where
  "list_users_page w page size_asked search d =
     (let wanted = (case search of None \<Rightarrow> [] | Some s \<Rightarrow> folded_email s) in
      numbered_page (\<lambda>u. (us_created_at u, us_id u)) page size_asked
        (filter (\<lambda>u. us_id u \<noteq> system_runtime_user \<and> us_active u
           \<and> (wanted = [] \<or> contains_text wanted (aw_lower w (us_email u))
              \<or> contains_text wanted (aw_lower w (us_display_name u)))) (users d)))"

definition active_admin :: "user_row \<Rightarrow> bool" where
  "active_admin u \<longleftrightarrow> us_role u = ''admin'' \<and> us_active u \<and> us_id u \<noteq> system_runtime_user"

definition set_role ::
  "time \<Rightarrow> string \<Rightarrow> string \<Rightarrow> string \<Rightarrow> 'a account_db_scheme \<Rightarrow> (user_row option, 'a account_db_scheme) outcome" where
  "set_role now k role actor d =
     (if k = system_runtime_user
      then (Inl (LifecycleConflict ''The system Runtime account cannot be modified.''), d)
      else if k = actor \<and> role \<noteq> ''admin''
      then (Inl (LifecycleConflict ''An Admin cannot demote the current account.''), d)
      else
        (case get_user d k of
           None \<Rightarrow> (Inr None, d)
         | Some r \<Rightarrow>
             if \<not> us_active r then (Inr None, d)
             else if us_role r = ''admin'' \<and> role \<noteq> ''admin'' \<and> tcount active_admin (users d) \<le> 1
             then (Inl (LifecycleConflict ''At least one active Admin must remain.''), d)
             else
               (Inr (Some (with_role now role r)),
                write_audit (Some actor) ''account.role_changed'' ''user'' (Some k)
                  [(''previous_role'', JStr (us_role r)), (''new_role'', JStr role)]
                  (put_user k (with_role now role) d))))"

section \<open>The end of an account\<close>

definition public_demo_user :: string where
  "public_demo_user = ''public-demo''"

definition validate_account_deletion :: "string \<Rightarrow> 'a account_db_scheme \<Rightarrow> error option" where
  "validate_account_deletion k d =
     (if k = system_runtime_user then Some (LifecycleConflict ''The system Runtime account cannot be deleted.'')
      else if k = public_demo_user
      then Some (LifecycleConflict ''The shared Public Demo account cannot be deleted.'')
      else
        (case get_user d k of
           None \<Rightarrow> Some (LifecycleConflict ''Account is already unavailable.'')
         | Some u \<Rightarrow>
             if \<not> us_active u then Some (LifecycleConflict ''Account is already unavailable.'')
             else if us_role u = ''admin'' \<and> tcount active_admin (users d) \<le> 1
             then Some (LifecycleConflict ''Create another Admin before deleting the final Admin account.'')
             else None))"

definition closed_account :: "time \<Rightarrow> user_row \<Rightarrow> user_row" where
  "closed_account now u =
     (let u' = u\<lparr>us_email := ''deleted-'' @ us_id u @ ''@echo-masque.invalid'',
                 us_display_name := ''Deleted User'', us_role := ''user'', us_active := False\<rparr> in
      if u' = u then u else u'\<lparr>us_updated_at := now\<rparr>)"

text \<open>The second transaction: without the account it raises, and nothing of it is committed.\<close>

definition close_account ::
  "auth_world \<Rightarrow> time \<Rightarrow> string \<Rightarrow> string \<Rightarrow> 'a account_db_scheme \<Rightarrow> (nat, 'a account_db_scheme) outcome" where
  "close_account w now k email d =
     (case get_user d k of
        None \<Rightarrow> (Inl (LifecycleConflict ''Account disappeared during deletion.''), d)
      | Some u \<Rightarrow>
          if us_email (closed_account now u) \<in> us_email ` {x \<in> set (users d). us_id x \<noteq> k}
          then (Inl IntegrityError, d)
          else
            (Inr (tcount (\<lambda>(_, user). user = k) (server_grants d)),
             put_user k (closed_account now)
               (d\<lparr>server_grants := tdel (\<lambda>(_, user). user = k) (server_grants d),
                  login_sessions := tdel (\<lambda>s. as_user_id s = k) (login_sessions d),
                  stored_credentials := tdel (\<lambda>r. ec_owner_id r = k) (stored_credentials d),
                  account_buckets :=
                    tdel (\<lambda>b. rb_key b \<in> {''request:'' @ k, ''login:'' @ aw_sha w (folded_email email)})
                      (account_buckets d)\<rparr>)))"

record 'd deletion_others =
  lo_checked :: "'d \<Rightarrow> 'd"
  lo_emptied :: "'d \<Rightarrow> 'd"

definition delete_account ::
  "auth_world \<Rightarrow> ('a workspace_db_scheme) deletion_others \<Rightarrow> time \<Rightarrow> string \<Rightarrow> string \<Rightarrow> string option
    \<Rightarrow> 'a workspace_db_scheme \<Rightarrow> ((string \<times> nat) list, 'a workspace_db_scheme) outcome" where
  "delete_account w others now k email actor d =
     (case validate_account_deletion k d of
        Some e \<Rightarrow> (Inl e, d)
      | None \<Rightarrow>
          (let actor_id = (case actor of None \<Rightarrow> k | Some a \<Rightarrow> if a = [] then k else a);
               d1 = write_audit (Some actor_id) ''account.deletion_started'' ''user'' (Some k) [] (lo_checked others d);
               (counts, d2) = delete_workspace k d1 in
           case close_account w now k email (lo_emptied others d2) of
             (Inl e, d3) \<Rightarrow> (Inl e, d3)
           | (Inr grants, d3) \<Rightarrow>
               (let deleted = counts @ [(''discord_server_access'', grants)] in
                (Inr deleted,
                 write_audit (Some actor_id) ''account.deleted'' ''user'' (Some k)
                   (map (\<lambda>(c, n). (c, JInt (int n))) deleted) d3))))"

end
