(* ===== verification/Account_Safety.thy ===== *)
theory Account_Safety
  imports Account_Lifecycle Contracts
begin

text \<open>
  What the accounts promise over any run of their operations: an invitation admits one account, a login
  token stands for the account that logged in and for no other, an active administrator remains where
  deletions and demotions do not overlap, and a deletion erases what belongs to the account.
\<close>

section \<open>Operations\<close>

datatype account_op =
    Register string string string string "string option"
  | LogIn string string string string "string option"
  | Resolve string
  | LogOut string string
  | Invite string string string "string option" string int
  | RevokeInvitation string string
  | ClaimInvitation string string string
  | SetRole string string string
  | CloseAccount string string "string option"
  | ClaimLocal "string \<Rightarrow> string" string
  | EnsureDevelopment string string
  | EnsureSystem string
  | EnsureBootstrap string string
  | SaveCredential string "string \<times> string \<times> string" string string bool
  | DropCredential "string \<times> string \<times> string"

definition alone :: "'d deletion_others" where
  "alone = \<lparr>lo_checked = id, lo_emptied = id\<rparr>"

lemma alone_simps [simp]: "lo_checked alone d = d" "lo_emptied alone d = d"
  by (simp_all add: alone_def)

fun run_account ::
  "auth_world \<Rightarrow> auth_settings \<Rightarrow> time \<times> account_op \<Rightarrow> 'a workspace_db_scheme \<Rightarrow> 'a workspace_db_scheme" where
  "run_account w st (now, Register uid email name hash code) d = snd (register w st id now uid email name hash code d)"
| "run_account w st (now, LogIn sid token email password agent) d =
     snd (login w st id now sid token email password agent d)"
| "run_account w st (now, Resolve token) d = snd (resolve_session w now token d)"
| "run_account w st (now, LogOut sid user) d = snd (revoke_session now sid user d)"
| "run_account w st (now, Invite uid code actor email role lasting) d =
     snd (create_invitation w now uid code actor email role lasting d)"
| "run_account w st (now, RevokeInvitation k actor) d = snd (revoke_invitation now k actor d)"
| "run_account w st (now, ClaimInvitation code_hash email user) d = snd (claim_invitation now code_hash email user d)"
| "run_account w st (now, SetRole k role actor) d = snd (set_role now k role actor d)"
| "run_account w st (now, CloseAccount k email actor) d = snd (delete_account w alone now k email actor d)"
| "run_account w st (now, ClaimLocal uid actor) d = snd (claim_local_workspace uid actor d)"
| "run_account w st (now, EnsureDevelopment uid hash) d = snd (ensure_development_user w st now hash uid d)"
| "run_account w st (now, EnsureSystem hash) d = snd (ensure_system_runtime_user now hash d)"
| "run_account w st (now, EnsureBootstrap uid hash) d = snd (ensure_bootstrap_admin w st id now uid hash d)"
| "run_account w st (now, SaveCredential uid k encrypted version rotated) d =
     snd (save_credential now uid k encrypted version rotated d)"
| "run_account w st (now, DropCredential k) d = delete_credential k d"

section \<open>Which tables the operations touch\<close>

lemma account_audit_frames [simp]:
  "users (write_audit a b c e m d) = users d" "login_sessions (write_audit a b c e m d) = login_sessions d"
  "invitations (write_audit a b c e m d) = invitations d"
  by (simp_all add: write_audit_def)

lemma put_user_frames [simp]:
  "login_sessions (put_user k f d) = login_sessions d" "invitations (put_user k f d) = invitations d"
  "users (put_user k f d) = tset (\<lambda>u. us_id u = k) f (users d)"
  by (simp_all add: put_user_def)

lemma accepted_frames [simp]:
  "users (accepted_by k u d) = users d" "login_sessions (accepted_by k u d) = login_sessions d"
  "invitations (accepted_by k u d) = tset (\<lambda>r. iv_id r = k) (\<lambda>r. r\<lparr>iv_accepted_by := Some u\<rparr>) (invitations d)"
  by (simp_all add: accepted_by_def)

lemma workspace_frames [simp]:
  "users (snd (delete_workspace k d)) = users d" "login_sessions (snd (delete_workspace k d)) = login_sessions d"
  "invitations (snd (delete_workspace k d)) = invitations d"
  "users (snd (claim_local_workspace uid actor d)) = users d"
  "login_sessions (snd (claim_local_workspace uid actor d)) = login_sessions d"
  "invitations (snd (claim_local_workspace uid actor d)) = invitations d"
  by (simp_all add: delete_workspace_def delete_characters_def delete_evaluations_def
      claim_local_workspace_def claim_rows_def Let_def split: prod.split)

lemma credential_frames [simp]:
  "users (delete_credential k d) = users d" "login_sessions (delete_credential k d) = login_sessions d"
  "invitations (delete_credential k d) = invitations d"
  "users (snd (save_credential now uid k v version rotated d)) = users d"
  "login_sessions (snd (save_credential now uid k v version rotated d)) = login_sessions d"
  "invitations (snd (save_credential now uid k v version rotated d)) = invitations d"
  by (simp_all add: delete_credential_def save_credential_def Let_def split: option.split)

lemma insert_user_frames [simp]:
  "login_sessions (snd (insert_user r d)) = login_sessions d" "invitations (snd (insert_user r d)) = invitations d"
  by (simp_all add: insert_user_def)

lemma create_user_frames [simp]:
  "login_sessions (snd (create_user now uid email name hash role d)) = login_sessions d"
  "invitations (snd (create_user now uid email name hash role d)) = invitations d"
  by (simp_all add: create_user_def)

lemma claim_for_registration_frames:
  "claim_for_registration now h email d = Some (r, d') \<Longrightarrow>
    users d' = users d \<and> login_sessions d' = login_sessions d
    \<and> invitations d' = tset (claimable_invitation now h email) (\<lambda>r. r\<lparr>iv_accepted_at := Some now\<rparr>) (invitations d)"
  by (auto simp: claim_for_registration_def Let_def split: if_splits)

lemma registered_frames [simp]:
  "users (snd (registered source res)) = users (snd res)"
  "login_sessions (snd (registered source res)) = login_sessions (snd res)"
  "invitations (snd (registered source res)) = invitations (snd res)"
  by (auto simp: registered_def split: prod.split sum.split)

section \<open>Users\<close>

text \<open>Users are inserted under a fresh key or changed in place; nothing removes one. The last active
  administrator keeps the role and the account.\<close>

definition spares_admin :: "string \<Rightarrow> user_row list \<Rightarrow> bool" where
  "spares_admin k t \<longleftrightarrow> (\<forall>r. tget us_id t k = Some r \<longrightarrow> active_admin r \<longrightarrow> 1 < tcount active_admin t)"

inductive gentle_change :: "user_row list \<Rightarrow> user_row list \<Rightarrow> bool" where
  SameUsers: "gentle_change t t"
| NewUser: "us_id r \<notin> us_id ` set t \<Longrightarrow> gentle_change t (tins r t)"
| Promoted: "gentle_change t (tset (\<lambda>u. us_id u = k) (with_role now ''admin'') t)"

inductive user_change :: "user_row list \<Rightarrow> user_row list \<Rightarrow> bool" where
  Gentle: "gentle_change t t' \<Longrightarrow> user_change t t'"
| NewRole: "spares_admin k t \<Longrightarrow> user_change t (tset (\<lambda>u. us_id u = k) (with_role now role) t)"
| Closed: "spares_admin k t \<Longrightarrow> user_change t (tset (\<lambda>u. us_id u = k) (closed_account now) t)"

lemma insert_user_change: "gentle_change (users d) (users (snd (insert_user r d)))"
  by (auto simp: insert_user_def tget_None_iff intro: gentle_change.intros)

lemma create_user_change: "gentle_change (users d) (users (snd (create_user now uid email name hash role d)))"
  by (simp add: create_user_def insert_user_change)

lemma create_user_res:
  assumes "create_user now uid email name hash role d = (res, d')"
  shows "gentle_change (users d) (users d')" "login_sessions d' = login_sessions d" "invitations d' = invitations d"
  using create_user_change [of d now uid email name hash role] create_user_frames [of now uid email name hash role d]
  by (simp_all add: assms)

lemma register_from_invitation_change:
  "gentle_change (users d) (users (snd (register_from_invitation w now uid email name hash code d)))"
proof (cases "claim_for_registration now (aw_sha w (strip code)) email d")
  case (Some res)
  obtain r d1 where r: "res = (r, d1)" by (cases res)
  then have d1: "users d1 = users d"
    using claim_for_registration_frames Some by blast
  obtain out d2 where out: "insert_user (new_user now uid email (strip name) hash (iv_role r)) d1 = (out, d2)"
    by (cases "insert_user (new_user now uid email (strip name) hash (iv_role r)) d1")
  then have "gentle_change (users d) (users d2)"
    using insert_user_change [of d1 "new_user now uid email (strip name) hash (iv_role r)"] d1 by simp
  with Some r out show ?thesis
    by (cases out) (simp_all add: register_from_invitation_def SameUsers)
qed (simp add: register_from_invitation_def SameUsers)

lemma register_change: "gentle_change (users d) (users (snd (register w st id now uid email name hash code d)))"
  by (simp add: register_def create_user_change register_from_invitation_change SameUsers split: sum.split option.split)

lemma set_role_change: "user_change (users d) (users (snd (set_role now k role actor d)))"
  by (auto simp: set_role_def spares_admin_def active_admin_def intro: user_change.intros gentle_change.intros
      split: option.split)

lemma close_account_change:
  assumes "validate_account_deletion k d = None" and "users d' = users d"
  shows "user_change (users d) (users (snd (close_account w now k email d')))"
proof -
  have "spares_admin k (users d)"
    using assms(1) by (auto simp: validate_account_deletion_def spares_admin_def active_admin_def split: option.splits if_splits)
  with assms(2) show ?thesis
    by (auto simp: close_account_def intro: user_change.intros gentle_change.intros split: option.split)
qed

lemma delete_account_change: "user_change (users d) (users (snd (delete_account w alone now k email actor d)))"
proof (cases "validate_account_deletion k d")
  case None
  let ?a = "case actor of None \<Rightarrow> k | Some a \<Rightarrow> if a = [] then k else a"
  let ?d1 = "write_audit (Some ?a) ''account.deletion_started'' ''user'' (Some k) [] d"
  obtain counts d2 where d2: "delete_workspace k ?d1 = (counts, d2)" by (cases "delete_workspace k ?d1")
  then have "users d2 = users d"
    using workspace_frames(1) [of k ?d1] by simp
  from close_account_change [OF None this]
  have "user_change (users d) (users (snd (close_account w now k email d2)))" .
  with None d2 show ?thesis
    by (cases "close_account w now k email d2") (auto simp: delete_account_def Let_def split: sum.split)
qed (simp add: delete_account_def Gentle SameUsers)

lemma ensure_change:
  "gentle_change (users d) (users (snd (ensure_development_user w st now hash uid d)))"
  "gentle_change (users d) (users (snd (ensure_system_runtime_user now hash d)))"
  "gentle_change (users d) (users (snd (ensure_bootstrap_admin w st id now uid hash d)))"
  by (auto simp: ensure_development_user_def ensure_system_runtime_user_def ensure_bootstrap_admin_def create_user_change
      split: option.split sum.split prod.split intro: SameUsers Promoted create_user_res(1))

lemma login_users [simp]: "users (snd (login w st id now sid token email password agent d)) = users d"
  by (auto simp: login_def create_login_def Let_def split: sum.split option.split)

lemma resolve_users [simp]:
  "users (snd (resolve_session w now token d)) = users d" "users (snd (revoke_session now sid user d)) = users d"
  by (simp_all add: resolve_session_def revoke_session_def revoke_login_def touch_session_def Let_def
      split: option.split prod.split)

lemma invitation_users [simp]:
  "users (snd (create_invitation w now uid code actor email role lasting d)) = users d"
  "users (snd (revoke_invitation now k actor d)) = users d"
  "users (snd (claim_invitation now h address user d)) = users d"
  by (auto simp: create_invitation_def insert_invitation_def revoke_invitation_def claim_invitation_def Let_def
      dest!: claim_for_registration_frames split: option.split sum.split prod.split)

lemma account_user_change: "user_change (users d) (users (run_account w st x d))"
  by (cases "(w, st, x, d)" rule: run_account.cases)
    (simp_all add: Gentle register_change set_role_change delete_account_change ensure_change SameUsers)

lemma with_role_simps [simp]:
  "us_id (with_role now role u) = us_id u" "us_active (with_role now role u) = us_active u"
  "us_role (with_role now role u) = role"
  by (simp_all add: with_role_def)

lemma closed_account_simps [simp]:
  "us_id (closed_account now u) = us_id u" "us_active (closed_account now u) = False"
  by (cases u; simp add: closed_account_def Let_def)+

lemma active_admin_with_role [simp]:
  "active_admin (with_role now role u) \<longleftrightarrow> role = ''admin'' \<and> us_active u \<and> us_id u \<noteq> system_runtime_user"
  "\<not> active_admin (closed_account now u)"
  by (simp_all add: active_admin_def)

lemma gentle_change_keyed: "gentle_change t t' \<Longrightarrow> keyed us_id t \<Longrightarrow> keyed us_id t'"
  by (induction rule: gentle_change.induct) (simp_all add: table_simps)

lemma user_change_keyed: "user_change t t' \<Longrightarrow> keyed us_id t \<Longrightarrow> keyed us_id t'"
  by (induction rule: user_change.induct) (simp_all add: gentle_change_keyed table_simps)

text \<open>A change of one row costs at most that row.\<close>

lemma change_one_count:
  assumes "keyed key t" and "\<And>r. key (f r) = key r"
  shows "tcount P t \<le> Suc (tcount P (tset (\<lambda>r. key r = k) f t))"
  using assms(1)
proof (induction t)
  case (Cons r t)
  show ?case
  proof (cases "key r = k")
    case True
    have "\<forall>x \<in> set t. key x \<noteq> k"
    proof
      fix x
      assume "x \<in> set t"
      then have "key x \<in> key ` set t" by (rule imageI)
      with Cons.prems True show "key x \<noteq> k" by (auto simp: keyed_def)
    qed
    then have "tset (\<lambda>r. key r = k) f t = t"
      by (simp add: tset_def map_idI)
    with True show ?thesis by (simp add: tcount_def tset_def)
  next
    case False
    with Cons show ?thesis by (auto simp: tcount_def tset_def keyed_def)
  qed
qed simp

lemma unharmed_count:
  assumes "\<And>r. r \<in> set t \<Longrightarrow> key r = k \<Longrightarrow> P r \<Longrightarrow> P (f r)"
  shows "tcount P t \<le> tcount P (tset (\<lambda>r. key r = k) f t)"
  using assms by (induction t) (auto simp: tcount_def tset_def)

lemma spared:
  assumes "spares_admin k t" "keyed us_id t" "0 < tcount active_admin t" "\<And>r. us_id (f r) = us_id r"
  shows "0 < tcount active_admin (tset (\<lambda>u. us_id u = k) f t)"
proof (cases "\<exists>r. tget us_id t k = Some r \<and> active_admin r")
  case True
  then have "1 < tcount active_admin t"
    using assms(1) by (auto simp: spares_admin_def)
  then show ?thesis
    using change_one_count [OF assms(2,4), of active_admin k] by simp
next
  case False
  have "active_admin (f r)" if "r \<in> set t" "us_id r = k" "active_admin r" for r
  proof -
    have "tget us_id t k = Some r"
      using tget_self [OF assms(2) that(1)] that(2) by simp
    with that(3) False show ?thesis by blast
  qed
  from unharmed_count [of t us_id k active_admin f, OF this] assms(3) show ?thesis by simp
qed

lemma tcount_pos_iff: "0 < tcount P t \<longleftrightarrow> (\<exists>r \<in> set t. P r)"
  using tcount_0_iff [of P t] by auto

lemma gentle_keeps:
  assumes "gentle_change t t'" and "u \<in> set t" and "active_admin u"
  shows "\<exists>u' \<in> set t'. us_id u' = us_id u \<and> active_admin u'"
  using assms
proof (induction rule: gentle_change.induct)
  case (Promoted t k now)
  then have "(if us_id u = k then with_role now ''admin'' u else u) \<in> set (tset (\<lambda>u. us_id u = k) (with_role now ''admin'') t)"
    by (auto simp: set_tset)
  with Promoted show ?case
    by (intro bexI [where x = "if us_id u = k then with_role now ''admin'' u else u"]) (auto simp: active_admin_def)
qed (auto simp: set_tins)

lemma gentle_change_admin:
  "gentle_change t t' \<Longrightarrow> 0 < tcount active_admin t \<Longrightarrow> 0 < tcount active_admin t'"
  using gentle_keeps unfolding tcount_pos_iff by blast

lemma user_change_admin:
  assumes "user_change t t'" and "keyed us_id t" and "0 < tcount active_admin t"
  shows "0 < tcount active_admin t'"
  using assms by (induction rule: user_change.induct) (simp_all add: spared gentle_change_admin)

definition administered :: "user_row list \<Rightarrow> bool" where
  "administered t \<longleftrightarrow> keyed us_id t \<and> 0 < tcount active_admin t"

lemma administered_change: "user_change t t' \<Longrightarrow> administered t \<Longrightarrow> administered t'"
  unfolding administered_def using user_change_keyed user_change_admin by blast

subsection \<open>Deletions that other operations interrupt\<close>

text \<open>
  The check of a deletion, the deletion of the workspace and the deactivation are transactions of their
  own: other operations may run between them. An operation takes an administrator away when it demotes
  an account or deletes one.
\<close>

datatype account_call =
    Call account_op
  | Interrupted string string "string option" "(time \<times> account_op) list" "(time \<times> account_op) list"

fun run_call ::
  "auth_world \<Rightarrow> auth_settings \<Rightarrow> time \<times> account_call \<Rightarrow> 'a workspace_db_scheme \<Rightarrow> 'a workspace_db_scheme" where
  "run_call w st (now, Call x) d = run_account w st (now, x) d"
| "run_call w st (now, Interrupted k email actor checked emptied) d =
     snd (delete_account w \<lparr>lo_checked = run_ops (run_account w st) checked,
       lo_emptied = run_ops (run_account w st) emptied\<rparr> now k email actor d)"

fun takes_away :: "account_op \<Rightarrow> bool" where
  "takes_away (SetRole k role actor) = (role \<noteq> ''admin'')"
| "takes_away (CloseAccount k email actor) = True"
| "takes_away _ = False"

fun undisturbed :: "account_call \<Rightarrow> bool" where
  "undisturbed (Call x) = True"
| "undisturbed (Interrupted k email actor checked emptied) =
     list_all (\<lambda>c. \<not> takes_away (snd c)) (checked @ emptied)"

lemma promotion_change: "gentle_change (users d) (users (snd (set_role now k ''admin'' actor d)))"
  by (auto simp: set_role_def intro: gentle_change.intros split: option.split)

lemma gentle_account: "\<not> takes_away (snd x) \<Longrightarrow> gentle_change (users d) (users (run_account w st x d))"
  by (cases "(w, st, x, d)" rule: run_account.cases)
    (simp_all add: register_change promotion_change ensure_change SameUsers)

text \<open>Such operations keep an administrator beside the account that is deleted.\<close>

definition other_admin :: "string \<Rightarrow> user_row list \<Rightarrow> bool" where
  "other_admin k t \<longleftrightarrow> keyed us_id t \<and> (\<exists>u \<in> set t. active_admin u \<and> us_id u \<noteq> k)"

lemma other_admin_gentle: "gentle_change t t' \<Longrightarrow> other_admin k t \<Longrightarrow> other_admin k t'"
  unfolding other_admin_def using gentle_keeps gentle_change_keyed by metis

lemma other_admin_run:
  "list_all (\<lambda>c. \<not> takes_away (snd c)) cs \<Longrightarrow> other_admin k (users d)
    \<Longrightarrow> other_admin k (users (run_ops (run_account w st) cs d))"
  by (induction cs arbitrary: d) (auto intro: other_admin_gentle [OF gentle_account])

lemma other_admin_spared:
  assumes "administered t" and "spares_admin k t"
  shows "other_admin k t"
proof (cases "\<exists>u \<in> set t. active_admin u \<and> us_id u \<noteq> k")
  case False
  with assms(1) obtain u where u: "u \<in> set t" "active_admin u" "us_id u = k" "keyed us_id t"
    by (auto simp: administered_def tcount_pos_iff)
  then have "1 < tcount active_admin t"
    using assms(2) tget_self [OF u(4,1)] by (simp add: spares_admin_def)
  moreover have "tcount active_admin t \<le> tcount (\<lambda>r. us_id r = k) t"
    using False by (intro tcount_mono) blast
  ultimately show ?thesis
    using tcount_key [OF u(4), of k "\<lambda>_. True"] by (simp split: option.splits)
qed (use assms in \<open>simp add: other_admin_def administered_def\<close>)

lemma closed_beside_admin:
  assumes "other_admin k (users d)"
  shows "administered (users (snd (close_account w now k email d)))"
proof -
  obtain u where u: "u \<in> set (users d)" "active_admin u" "us_id u \<noteq> k" and keys: "keyed us_id (users d)"
    using assms by (auto simp: other_admin_def)
  then have "u \<in> set (tset (\<lambda>u. us_id u = k) (closed_account now) (users d))"
    by (force simp: set_tset)
  with u keys show ?thesis
    by (auto simp: close_account_def administered_def tcount_pos_iff keyed_tset split: option.split)
qed

lemma deletion_beside_admin:
  assumes "administered (users d)"
    and "\<And>e. other_admin k (users e) \<Longrightarrow> other_admin k (users (lo_checked others e))"
    and "\<And>e. other_admin k (users e) \<Longrightarrow> other_admin k (users (lo_emptied others e))"
  shows "administered (users (snd (delete_account w others now k email actor d)))"
proof (cases "validate_account_deletion k d")
  case None
  let ?a = "case actor of None \<Rightarrow> k | Some a \<Rightarrow> if a = [] then k else a"
  let ?d1 = "write_audit (Some ?a) ''account.deletion_started'' ''user'' (Some k) [] (lo_checked others d)"
  obtain counts d2 where d2: "delete_workspace k ?d1 = (counts, d2)" by (cases "delete_workspace k ?d1")
  have "spares_admin k (users d)"
    using None by (auto simp: validate_account_deletion_def spares_admin_def active_admin_def split: option.splits if_splits)
  then have "other_admin k (users d2)"
    using other_admin_spared [OF assms(1)] assms(2) workspace_frames(1) [of k ?d1] d2 by simp
  then have "administered (users (snd (close_account w now k email (lo_emptied others d2))))"
    by (intro closed_beside_admin assms(3))
  with None d2 show ?thesis
    by (cases "close_account w now k email (lo_emptied others d2)")
      (auto simp: delete_account_def Let_def split: sum.split)
qed (use assms(1) in \<open>simp add: delete_account_def\<close>)

lemma administered_call:
  "undisturbed (snd x) \<Longrightarrow> administered (users d) \<Longrightarrow> administered (users (run_call w st x d))"
  by (cases "(w, st, x, d)" rule: run_call.cases)
    (auto intro: administered_change [OF account_user_change] intro!: deletion_beside_admin other_admin_run)

text \<open>C17. Somebody can always administer the installation as long as administrators are taken away one at
  a time. From a database with an active administrator (beside the account of the runtime) every run of
  registrations, logins, invitations, changes of role, deletions of accounts and repairs at startup leaves
  one: the last administrator is neither demoted nor deleted. Between the transactions of a deletion (its
  check, the emptying of the workspace, the deactivation) any number of other operations may run, except
  another deletion and a demotion; with those the claim is false
  (\<open>overlapping_deletions_leave_no_administrator\<close>). The check and the update of a change of role are
  one transaction.\<close>

theorem an_administrator_remains:
  assumes "keyed us_id (users d0)" and "\<exists>u \<in> set (users d0). active_admin u"
    and "list_all (\<lambda>c. undisturbed (snd c)) calls"
    and "d = run_ops (run_call w st) calls d0"
  shows "\<exists>u \<in> set (users d). us_role u = ''admin'' \<and> us_active u \<and> us_id u \<noteq> ''system-runtime''"
proof -
  have "administered (users d0)"
    using assms(1,2) by (auto simp: administered_def tcount_pos_iff)
  then have "administered (users (run_ops (run_call w st) calls d0))"
    using assms(3) by (induction calls arbitrary: d0) (auto intro: administered_call)
  then show ?thesis
    using assms(4) by (auto simp: administered_def tcount_pos_iff active_admin_def system_runtime_user_def)
qed

section \<open>Login sessions\<close>

text \<open>A session after an operation: one that was there, with the same account, token and end, revoked
  if it was; or the new one of a login.\<close>

definition continues :: "login_session \<Rightarrow> login_session \<Rightarrow> bool" where
  "continues s s' \<longleftrightarrow>
     as_id s' = as_id s \<and> as_user_id s' = as_user_id s \<and> as_token_hash s' = as_token_hash s
     \<and> as_expires_at s' = as_expires_at s \<and> (as_revoked_at s \<noteq> None \<longrightarrow> as_revoked_at s' \<noteq> None)"

lemma continues_refl [simp]: "continues s s"
  by (simp add: continues_def)

lemma continues_trans: "continues a b \<Longrightarrow> continues b c \<Longrightarrow> continues a c"
  by (auto simp: continues_def)

definition sessions_continue :: "login_session list \<Rightarrow> login_session list \<Rightarrow> bool" where
  "sessions_continue t t' \<longleftrightarrow> (\<forall>s' \<in> set t'. \<exists>s \<in> set t. continues s s')"

lemma sessions_continueI [intro, simp]:
  "sessions_continue t t" "sessions_continue t (tdel P t)"
  "(\<And>s. continues s (f s)) \<Longrightarrow> sessions_continue t (tset Q f t)"
  by (auto simp: sessions_continue_def tset_def tdel_def intro: continues_refl)

lemma ended_session_continues [simp]: "continues s (ended_session now s)" "as_revoked_at (ended_session now s) \<noteq> None"
  by (simp_all add: continues_def ended_session_def)

lemma touch_continues: "sessions_continue (login_sessions d) (login_sessions (touch_session now sid d))"
  by (simp add: touch_session_def) (rule sessions_continueI(3), simp add: continues_def)

lemma revoke_login_continues: "sessions_continue (login_sessions d) (login_sessions (snd (revoke_login now sid user d)))"
  by (simp add: revoke_login_def Let_def)

lemma resolve_continues: "sessions_continue (login_sessions d) (login_sessions (snd (resolve_session w now token d)))"
  by (simp add: resolve_session_def touch_continues revoke_login_continues split: option.split)

lemma revoke_session_continues: "sessions_continue (login_sessions d) (login_sessions (snd (revoke_session now sid user d)))"
  using revoke_login_continues [of d now sid "Some user"]
  by (auto simp: revoke_session_def Let_def split: prod.split)

lemma close_account_continues:
  "sessions_continue (login_sessions d) (login_sessions (snd (close_account w now k email d)))"
  by (simp add: close_account_def split: option.split)

lemma delete_account_continues:
  "sessions_continue (login_sessions d) (login_sessions (snd (delete_account w alone now k email actor d)))"
proof (cases "validate_account_deletion k d")
  case None
  let ?a = "case actor of None \<Rightarrow> k | Some a \<Rightarrow> if a = [] then k else a"
  let ?d1 = "write_audit (Some ?a) ''account.deletion_started'' ''user'' (Some k) [] d"
  obtain counts d2 where d2: "delete_workspace k ?d1 = (counts, d2)" by (cases "delete_workspace k ?d1")
  then have "login_sessions d2 = login_sessions d"
    using workspace_frames(2) [of k ?d1] by simp
  with close_account_continues [of d2 w now k email]
  have "sessions_continue (login_sessions d) (login_sessions (snd (close_account w now k email d2)))" by simp
  with None d2 show ?thesis
    by (cases "close_account w now k email d2") (auto simp: delete_account_def Let_def split: sum.split)
qed (simp add: delete_account_def)

lemma register_from_invitation_sessions [simp]:
  "login_sessions (snd (register_from_invitation w now uid email name hash code d)) = login_sessions d"
proof (cases "claim_for_registration now (aw_sha w (strip code)) email d")
  case (Some res)
  obtain r d1 where r: "res = (r, d1)" by (cases res)
  then have d1: "login_sessions d1 = login_sessions d"
    using claim_for_registration_frames Some by blast
  obtain out d2 where out: "insert_user (new_user now uid email (strip name) hash (iv_role r)) d1 = (out, d2)"
    by (cases "insert_user (new_user now uid email (strip name) hash (iv_role r)) d1")
  then have "login_sessions d2 = login_sessions d"
    using insert_user_frames(1) [of "new_user now uid email (strip name) hash (iv_role r)" d1] d1 by simp
  with Some r out show ?thesis
    by (cases out) (simp_all add: register_from_invitation_def)
qed (simp add: register_from_invitation_def)

lemma register_sessions [simp]:
  "login_sessions (snd (register w st id now uid email name hash code d)) = login_sessions d"
  by (simp add: register_def split: sum.split option.split)

lemma other_sessions [simp]:
  "login_sessions (snd (create_invitation w now uid code actor email role lasting d)) = login_sessions d"
  "login_sessions (snd (revoke_invitation now k actor d)) = login_sessions d"
  "login_sessions (snd (claim_invitation now h address user d)) = login_sessions d"
  "login_sessions (snd (set_role now k role actor d)) = login_sessions d"
  "login_sessions (snd (ensure_development_user w st now hash uid d)) = login_sessions d"
  "login_sessions (snd (ensure_system_runtime_user now hash d)) = login_sessions d"
  "login_sessions (snd (ensure_bootstrap_admin w st id now uid hash d)) = login_sessions d"
  by (auto simp: create_invitation_def insert_invitation_def revoke_invitation_def claim_invitation_def set_role_def
        ensure_development_user_def ensure_system_runtime_user_def ensure_bootstrap_admin_def Let_def
      dest!: claim_for_registration_frames create_user_res(2) split: option.split sum.split prod.split)

text \<open>A login adds a session under a token that has none.\<close>

lemma create_login_cases:
  "(case create_login now sid user h expires agent d of
      (Inl e, d') \<Rightarrow> d' = d
    | (Inr s, d') \<Rightarrow> login_sessions d' = tins s (login_sessions d) \<and> as_token_hash s = h
        \<and> as_id s = sid \<and> as_user_id s = user \<and> as_expires_at s = expires
        \<and> h \<notin> as_token_hash ` set (login_sessions d))"
  by (simp add: create_login_def Let_def)

lemma login_cases:
  "(case login w st id now sid token email password agent d of
      (Inl e, d') \<Rightarrow> login_sessions d' = login_sessions d
    | (Inr x, d') \<Rightarrow>
        (\<exists>s. login_sessions d' = tins s (login_sessions d) \<and> as_token_hash s = aw_sha w token \<and> as_id s = sid
           \<and> as_user_id s = us_id (is_user x) \<and> as_expires_at s = is_expires_at x
           \<and> aw_sha w token \<notin> as_token_hash ` set (login_sessions d))
        \<and> is_session_id x = sid \<and> is_token x = token \<and> us_active (is_user x)
        \<and> aw_verify w (us_password_hash (is_user x)) password
        \<and> get_user_by_email w (folded_email email) d = Some (is_user x))"
proof (cases "normalize_email email")
  case (Inr normalized)
  then have same: "normalized = folded_email email"
    by (auto simp: normalize_email_def Let_def split: if_splits)
  show ?thesis
  proof (cases "get_user_by_email w normalized d")
    case (Some r)
    let ?expires = "now + seconds (at_session_ttl_seconds st)"
    let ?agent = "case agent of None \<Rightarrow> None | Some a \<Rightarrow> if a = [] then None else Some (aw_sha w a)"
    from create_login_cases [where now = now and sid = sid and user = "us_id r" and h = "aw_sha w token" and d = d
        and expires = ?expires and agent = ?agent] Inr Some same show ?thesis
      by (cases "create_login now sid (us_id r) (aw_sha w token) ?expires ?agent d") (auto simp: login_def Let_def split: sum.split)
  qed (use Inr same in \<open>simp add: login_def Let_def\<close>)
qed (simp add: login_def)

lemma login_sessions_cases:
  obtains "login_sessions (snd (login w st id now sid token email password agent d)) = login_sessions d"
  | s where "login_sessions (snd (login w st id now sid token email password agent d)) = tins s (login_sessions d)"
      "as_token_hash s = aw_sha w token" "aw_sha w token \<notin> as_token_hash ` set (login_sessions d)"
  using login_cases [where w = w and st = st and now = now and sid = sid and token = token and email = email
      and password = password and agent = agent and d = d]
  by (cases "login w st id now sid token email password agent d") (auto split: sum.splits)

lemma session_step:
  assumes "s' \<in> set (login_sessions (run_account w st (now, x) d))"
  shows "(\<exists>s \<in> set (login_sessions d). continues s s')
    \<or> (\<exists>sid token email password agent. x = LogIn sid token email password agent \<and> as_token_hash s' = aw_sha w token)"
proof (cases "\<exists>sid token email password agent. x = LogIn sid token email password agent")
  case True
  then obtain sid token email password agent where "x = LogIn sid token email password agent" by blast
  with assms show ?thesis
    by (cases rule: login_sessions_cases [of w st now sid token email password agent d])
      (auto intro: bexI [of _ s'])
next
  case False
  then have "sessions_continue (login_sessions d) (login_sessions (run_account w st (now, x) d))"
    by (cases x) (simp_all add: resolve_continues revoke_session_continues delete_account_continues)
  with assms show ?thesis by (auto simp: sessions_continue_def)
qed

definition unique_tokens :: "'a account_db_scheme \<Rightarrow> bool" where
  "unique_tokens d \<longleftrightarrow> distinct (map as_token_hash (login_sessions d))"

definition draws_token :: "auth_world \<Rightarrow> string \<Rightarrow> time \<times> account_op \<Rightarrow> bool" where
  "draws_token w h x \<longleftrightarrow> (case snd x of LogIn _ token _ _ _ \<Rightarrow> aw_sha w token = h | _ \<Rightarrow> False)"

lemma session_run:
  assumes "s' \<in> set (login_sessions (run_ops (run_account w st) calls d))" and "as_token_hash s' = h"
    and "\<forall>c \<in> set calls. \<not> draws_token w h c"
  shows "\<exists>s \<in> set (login_sessions d). continues s s'"
  using assms
proof (induction calls arbitrary: d)
  case (Cons c calls)
  then obtain s1 where s1: "s1 \<in> set (login_sessions (run_account w st c d))" "continues s1 s'"
    by auto
  obtain now x where c: "c = (now, x)" by (cases c)
  from session_step [OF s1(1) [unfolded c]] Cons.prems(2,3) s1(2) c
  have "\<exists>s \<in> set (login_sessions d). continues s s1"
    by (auto simp: draws_token_def continues_def)
  with s1(2) show ?case by (blast intro: continues_trans)
qed (auto intro: continues_refl)

lemma logged_out:
  assumes "s' \<in> set (login_sessions (run_account w st (now, LogOut (as_id s') (as_user_id s')) d))"
  shows "as_revoked_at s' \<noteq> None"
proof -
  define P where "P = (\<lambda>s :: login_session. as_id s = as_id s' \<and> (Some (as_user_id s') = None \<or> Some (as_user_id s') = Some (as_user_id s)))"
  have "login_sessions (run_account w st (now, LogOut (as_id s') (as_user_id s')) d) =
      (if list_ex P (login_sessions d) then tset P (ended_session now) (login_sessions d) else login_sessions d)"
    by (simp add: revoke_session_def revoke_login_def P_def Let_def)
  with assms have after: "s' \<in> set (if list_ex P (login_sessions d)
      then tset P (ended_session now) (login_sessions d) else login_sessions d)" by simp
  have "P s'" by (simp add: P_def)
  with after have "list_ex P (login_sessions d)"
    by (auto simp: list_ex_iff split: if_splits)
  with after obtain s where s: "s \<in> set (login_sessions d)" "s' = (if P s then ended_session now s else s)"
    by (auto simp: set_tset)
  have "P s"
  proof (rule ccontr)
    assume "\<not> P s"
    with s(2) have "s' = s" by simp
    with \<open>\<not> P s\<close> \<open>P s'\<close> show False by simp
  qed
  with s(2) show ?thesis by simp
qed

lemma logged_out_run:
  assumes "s' \<in> set (login_sessions (run_ops (run_account w st) calls d))"
    and "\<forall>c \<in> set calls. \<not> draws_token w (as_token_hash s') c"
    and "(now, LogOut (as_id s') (as_user_id s')) \<in> set calls"
  shows "as_revoked_at s' \<noteq> None"
proof -
  let ?x = "(now, LogOut (as_id s') (as_user_id s'))"
  obtain ys zs where calls: "calls = ys @ ?x # zs"
    using assms(3) by (auto simp: in_set_conv_decomp)
  let ?d = "run_account w st ?x (run_ops (run_account w st) ys d)"
  have "s' \<in> set (login_sessions (run_ops (run_account w st) zs ?d))"
    using assms(1) by (simp add: calls run_ops_append)
  moreover have "\<forall>c \<in> set zs. \<not> draws_token w (as_token_hash s') c"
    using assms(2) by (simp add: calls)
  ultimately obtain s where s: "s \<in> set (login_sessions ?d)" "continues s s'"
    using session_run by blast
  from s(2) have same: "as_id s = as_id s'" "as_user_id s = as_user_id s'"
    by (simp_all add: continues_def)
  have "as_revoked_at s \<noteq> None"
    by (rule logged_out) (use s(1) same in simp)
  with s(2) show ?thesis by (simp add: continues_def)
qed

lemma resolve_SomeD:
  assumes "resolve_session w now token d = (Some (u, sid, e), d')"
  obtains s where "s \<in> set (login_sessions d)" "as_token_hash s = aw_sha w token" "as_revoked_at s = None"
    "now < as_expires_at s" "u \<in> set (users d)" "us_id u = as_user_id s" "us_active u" "sid = as_id s"
    "e = as_expires_at s"
proof -
  obtain s where s: "login_by_token (aw_sha w token) d = Some s"
    using assms by (cases "login_by_token (aw_sha w token) d") (simp_all add: resolve_session_def)
  then have row: "s \<in> set (login_sessions d)" "as_token_hash s = aw_sha w token"
    by (auto simp: login_by_token_def find_Some_iff)
  obtain v where v: "get_user d (as_user_id s) = Some v"
    using assms s by (cases "get_user d (as_user_id s)") (simp_all add: resolve_session_def split: if_splits)
  have "as_revoked_at s = None" "now < as_expires_at s" "us_active v" "u = v" "sid = as_id s" "e = as_expires_at s"
    using assms s v by (auto simp: resolve_session_def split: if_splits)
  with row tget_mem [OF v] tget_key [OF v] show ?thesis
    by (intro that) simp_all
qed

text \<open>C15. A login token stands for one account. Whoever it resolves to after any run is the account
  that logged in with it, by its address and password, as that account is stored now and while it is
  active; the session is the one of that login, it has not ended, and its account has not logged it out.
  The run may contain every other operation, also further logins, but none that draws a token of the
  same digest.\<close>

theorem token_stands_for_its_account:
  assumes "login w st id now sid token email password agent d = (Inr x, d1)"
    and "\<forall>c \<in> set calls. \<not> draws_token w (aw_sha w token) c"
    and "d2 = run_ops (run_account w st) calls d1"
    and "resolve_session w later token d2 = (Some (u, sid', e), d3)"
  shows "us_id u = us_id (is_user x) \<and> u \<in> set (users d2) \<and> us_active u
    \<and> get_user_by_email w (folded_email email) d = Some (is_user x)
    \<and> aw_verify w (us_password_hash (is_user x)) password
    \<and> sid' = sid \<and> e = is_expires_at x \<and> later < e \<and> (\<forall>t. (t, LogOut sid (us_id u)) \<notin> set calls)"
proof -
  from login_cases [where w = w and st = st and now = now and sid = sid and token = token and email = email
      and password = password and agent = agent and d = d] assms(1)
  obtain s where s: "login_sessions d1 = tins s (login_sessions d)" "as_token_hash s = aw_sha w token" "as_id s = sid"
      "as_user_id s = us_id (is_user x)" "as_expires_at s = is_expires_at x"
      "aw_sha w token \<notin> as_token_hash ` set (login_sessions d)"
    and x: "get_user_by_email w (folded_email email) d = Some (is_user x)"
      "aw_verify w (us_password_hash (is_user x)) password"
    by auto
  from resolve_SomeD [OF assms(4)] obtain s' where s': "s' \<in> set (login_sessions d2)"
      "as_token_hash s' = aw_sha w token" "as_revoked_at s' = None" "later < as_expires_at s'"
      "u \<in> set (users d2)" "us_id u = as_user_id s'" "us_active u" "sid' = as_id s'" "e = as_expires_at s'" .
  from session_run [OF s'(1) [unfolded assms(3)] s'(2) assms(2)] s obtain "continues s s'"
    using s'(2) by (auto simp: continues_def)
  then have same: "as_id s' = sid" "as_user_id s' = us_id (is_user x)" "as_expires_at s' = is_expires_at x"
    using s by (simp_all add: continues_def)
  have "(t, LogOut (as_id s') (as_user_id s')) \<notin> set calls" for t
    using logged_out_run [OF s'(1) [unfolded assms(3)]] s'(2,3) assms(2) by auto
  with same s' x show ?thesis by simp
qed


section \<open>Invitations\<close>

text \<open>No operation forgets that an invitation was accepted, or stores a second one under its code.\<close>

definition one_per_code :: "invitation list \<Rightarrow> bool" where
  "one_per_code t \<longleftrightarrow> distinct (map iv_code_hash t)"

definition spent_code :: "string \<Rightarrow> invitation list \<Rightarrow> bool" where
  "spent_code h t \<longleftrightarrow> (\<exists>r \<in> set t. iv_code_hash r = h \<and> iv_accepted_at r \<noteq> None)"

definition invitations_continue :: "invitation list \<Rightarrow> invitation list \<Rightarrow> bool" where
  "invitations_continue t t' \<longleftrightarrow>
     (one_per_code t \<longrightarrow> one_per_code t') \<and> (\<forall>h. spent_code h t \<longrightarrow> spent_code h t')"

lemma invitations_continue_refl [simp]: "invitations_continue t t"
  by (simp add: invitations_continue_def)

lemma invitations_continue_trans:
  "invitations_continue a b \<Longrightarrow> invitations_continue b c \<Longrightarrow> invitations_continue a c"
  by (simp add: invitations_continue_def)

lemma invitations_continue_tins: "iv_code_hash r \<notin> iv_code_hash ` set t \<Longrightarrow> invitations_continue t (tins r t)"
  by (simp add: invitations_continue_def one_per_code_def spent_code_def tins_def)

lemma invitations_continue_tset:
  assumes "\<And>r. iv_code_hash (f r) = iv_code_hash r"
    and "\<And>r. iv_accepted_at r \<noteq> None \<Longrightarrow> iv_accepted_at (f r) \<noteq> None"
  shows "invitations_continue t (tset P f t)"
proof -
  have "map iv_code_hash (tset P f t) = map iv_code_hash t"
    by (simp add: tset_def assms(1))
  moreover have "spent_code h (tset P f t)" if spent: "spent_code h t" for h
  proof -
    obtain r where r: "r \<in> set t" "iv_code_hash r = h" "iv_accepted_at r \<noteq> None"
      using spent by (auto simp: spent_code_def)
    then have "(if P r then f r else r) \<in> set (tset P f t)"
      unfolding set_tset by blast
    with r(2,3) assms show ?thesis
      unfolding spent_code_def by (intro bexI [where x = "if P r then f r else r"]) auto
  qed
  ultimately show ?thesis by (simp only: invitations_continue_def one_per_code_def) simp
qed

lemma claim_continues:
  assumes "claim_for_registration now h email d = Some (r, d')"
  shows "invitations_continue (invitations d) (invitations d')"
proof -
  have "invitations d' = tset (claimable_invitation now h email) (\<lambda>r. r\<lparr>iv_accepted_at := Some now\<rparr>) (invitations d)"
    using claim_for_registration_frames [OF assms] by simp
  then show ?thesis by (simp add: invitations_continue_tset)
qed

lemma accepted_by_continues: "invitations_continue (invitations d) (invitations (accepted_by k u d))"
  by (simp add: invitations_continue_tset)

text \<open>A successful claim: the invitation it takes, and that its code is spent afterwards.\<close>

lemma claimed_invitation:
  assumes "claim_for_registration now h email d = Some (r, d')" and "one_per_code (invitations d)"
  shows "\<exists>iv \<in> set (invitations d). claimable_invitation now h email iv \<and> r = iv\<lparr>iv_accepted_at := Some now\<rparr>"
    and "spent_code h (invitations d')" and "\<not> spent_code h (invitations d)"
proof -
  let ?C = "claimable_invitation now h email"
  have d': "d' = d\<lparr>invitations := tset ?C (\<lambda>r. r\<lparr>iv_accepted_at := Some now\<rparr>) (invitations d)\<rparr>"
    and found: "find (\<lambda>r. iv_code_hash r = h) (invitations d') = Some r"
    and one: "tcount ?C (invitations d) = 1"
    using assms(1) by (auto simp: claim_for_registration_def Let_def split: if_splits)
  have "tcount ?C (invitations d) \<noteq> 0"
    using one by simp
  then obtain iv where iv: "iv \<in> set (invitations d)" "?C iv"
    by (auto simp: tcount_0_iff)
  have only: "x = iv" if "x \<in> set (invitations d)" "iv_code_hash x = h" for x
    using assms(2) that iv by (auto simp: one_per_code_def distinct_map inj_on_def claimable_invitation_def)
  have in': "r \<in> set (invitations d')" and h: "iv_code_hash r = h"
    using found by (auto simp: find_Some_iff)
  then obtain x where x: "x \<in> set (invitations d)" "r = (if ?C x then x\<lparr>iv_accepted_at := Some now\<rparr> else x)"
    unfolding d' by (auto simp: set_tset)
  then have "x = iv"
    using only [of x] h by (simp split: if_splits)
  with x iv show "\<exists>iv \<in> set (invitations d). ?C iv \<and> r = iv\<lparr>iv_accepted_at := Some now\<rparr>" by auto
  from in' h x \<open>x = iv\<close> iv(2) show "spent_code h (invitations d')"
    unfolding spent_code_def by (intro bexI [where x = r]) simp_all
  show "\<not> spent_code h (invitations d)"
    using only iv(2) by (auto simp: spent_code_def claimable_invitation_def)
qed



lemma register_from_invitation_cases:
  "(case register_from_invitation w now uid email name hash code d of
      (Inl e, d') \<Rightarrow> d' = d
    | (Inr u, d') \<Rightarrow> u = new_user now uid email (strip name) hash (us_role u) \<and>
        (\<exists>r d1. claim_for_registration now (aw_sha w (strip code)) email d = Some (r, d1) \<and> us_role u = iv_role r
           \<and> invitations d' = invitations (accepted_by (iv_id r) uid d1)))"
proof (cases "claim_for_registration now (aw_sha w (strip code)) email d")
  case (Some res)
  obtain r d1 where r: "res = (r, d1)" by (cases res)
  with Some show ?thesis
    by (cases "insert_user (new_user now uid email (strip name) hash (iv_role r)) d1")
      (auto simp: register_from_invitation_def insert_user_def new_user_def split: if_splits)
qed (simp add: register_from_invitation_def)

lemma register_from_invitation_continues:
  "invitations_continue (invitations d) (invitations (snd (register_from_invitation w now uid email name hash code d)))"
proof (cases "register_from_invitation w now uid email name hash code d")
  case (Pair out d')
  show ?thesis
  proof (cases out)
    case (Inr u)
    with register_from_invitation_cases [where w = w and now = now and uid = uid and email = email and name = name
        and hash = hash and code = code and d = d] Pair
    obtain r d1 where "claim_for_registration now (aw_sha w (strip code)) email d = Some (r, d1)"
      "invitations d' = invitations (accepted_by (iv_id r) uid d1)" by auto
    with Pair show ?thesis
      using claim_continues accepted_by_continues invitations_continue_trans by fastforce
  qed (use register_from_invitation_cases [where w = w and now = now and uid = uid and email = email and name = name
        and hash = hash and code = code and d = d] Pair in simp)
qed

lemma register_continues:
  "invitations_continue (invitations d) (invitations (snd (register w st id now uid email name hash code d)))"
  by (simp add: register_def register_from_invitation_continues split: sum.split option.split)

lemma claim_invitation_continues:
  "invitations_continue (invitations d) (invitations (snd (claim_invitation now h email u d)))"
proof (cases "claim_for_registration now h email d")
  case (Some res)
  obtain r d1 where r: "res = (r, d1)" by (cases res)
  from claim_continues [OF Some [unfolded r]] accepted_by_continues
  have "invitations_continue (invitations d) (invitations (accepted_by (iv_id r) u d1))"
    by (rule invitations_continue_trans)
  with Some r show ?thesis by (simp add: claim_invitation_def)
qed (simp add: claim_invitation_def)

lemma create_invitation_continues:
  "invitations_continue (invitations d) (invitations (snd (create_invitation w now uid code actor email role lasting d)))"
  by (simp add: create_invitation_def insert_invitation_def Let_def invitations_continue_tins split: sum.split prod.split)

lemma revoke_invitation_continues:
  "invitations_continue (invitations d) (invitations (snd (revoke_invitation now k actor d)))"
  by (auto simp: revoke_invitation_def intro: invitations_continue_tset split: option.split)

lemma login_invitations [simp]: "invitations (snd (login w st id now sid token email password agent d)) = invitations d"
  by (auto simp: login_def create_login_def Let_def split: sum.split option.split)

lemma other_invitations [simp]:
  "invitations (snd (resolve_session w now token d)) = invitations d"
  "invitations (snd (revoke_session now sid user d)) = invitations d"
  "invitations (snd (set_role now k role actor d)) = invitations d"
  "invitations (snd (ensure_development_user w st now hash uid d)) = invitations d"
  "invitations (snd (ensure_system_runtime_user now hash d)) = invitations d"
  "invitations (snd (ensure_bootstrap_admin w st id now uid hash d)) = invitations d"
  by (auto simp: resolve_session_def revoke_session_def revoke_login_def touch_session_def set_role_def
        ensure_development_user_def ensure_system_runtime_user_def ensure_bootstrap_admin_def Let_def
      dest!: create_user_res(3) split: option.split sum.split prod.split)

lemma close_account_invitations [simp]: "invitations (snd (close_account w now k email d)) = invitations d"
  by (simp add: close_account_def split: option.split)

lemma delete_account_invitations [simp]:
  "invitations (snd (delete_account w alone now k email actor d)) = invitations d"
proof (cases "validate_account_deletion k d")
  case None
  let ?a = "case actor of None \<Rightarrow> k | Some a \<Rightarrow> if a = [] then k else a"
  let ?d1 = "write_audit (Some ?a) ''account.deletion_started'' ''user'' (Some k) [] d"
  obtain counts d2 where d2: "delete_workspace k ?d1 = (counts, d2)" by (cases "delete_workspace k ?d1")
  then have "invitations d2 = invitations d"
    using workspace_frames(3) [of k ?d1] by simp
  with None d2 show ?thesis
    using close_account_invitations [of w now k email d2]
    by (cases "close_account w now k email d2") (auto simp: delete_account_def Let_def split: sum.split)
qed (simp add: delete_account_def)

lemma account_invitations: "invitations_continue (invitations d) (invitations (run_account w st x d))"
  by (cases "(w, st, x, d)" rule: run_account.cases)
    (simp_all add: register_continues claim_invitation_continues create_invitation_continues revoke_invitation_continues)

text \<open>The registrations that are admitted with a code of a digest.\<close>

definition admits :: "auth_world \<Rightarrow> auth_settings \<Rightarrow> string \<Rightarrow> time \<times> account_op \<Rightarrow> 'a workspace_db_scheme \<Rightarrow> bool" where
  "admits w st h x d \<longleftrightarrow>
     (case x of
        (now, Register uid email name hash (Some code)) \<Rightarrow>
          aw_sha w (strip code) = h \<and> \<not> isl (fst (register w st id now uid email name hash (Some code) d))
      | _ \<Rightarrow> False)"

text \<open>What an admitted registration has claimed, where registration is by invitation only.\<close>

lemma closed_registration:
  assumes "at_production st" "\<not> at_public_registration st" "one_per_code (invitations d)"
    and "register w st id now uid email name hash code d = (Inr u, d')"
  shows "\<exists>c iv address. code = Some c \<and> iv \<in> set (invitations d)
      \<and> claimable_invitation now (aw_sha w (strip c)) address iv \<and> normalize_email email = Inr address
      \<and> u = new_user now uid address (strip name) hash (iv_role iv)
      \<and> spent_code (aw_sha w (strip c)) (invitations d') \<and> \<not> spent_code (aw_sha w (strip c)) (invitations d)"
proof -
  obtain address where address: "normalize_email email = Inr address"
    using assms(4) by (cases "normalize_email email") (simp_all add: register_def)
  obtain c where c: "code = Some c"
    using assms(1,2,4) address by (cases code) (simp_all add: register_def)
  let ?reg = "register_from_invitation w now uid address name hash c d"
  have "fst ?reg = Inr u" "invitations (snd ?reg) = invitations d'"
    using assms(1,2,4) address c registered_frames(3) [of "''invitation''" ?reg]
    by (auto simp: register_def registered_def split: if_splits prod.splits sum.splits)
  with register_from_invitation_cases [where w = w and now = now and uid = uid and email = address and name = name
      and hash = hash and code = c and d = d]
  obtain r d1 where r: "claim_for_registration now (aw_sha w (strip c)) address d = Some (r, d1)"
      "u = new_user now uid address (strip name) hash (iv_role r)"
      "invitations d' = invitations (accepted_by (iv_id r) uid d1)"
    by (cases ?reg) auto
  from claimed_invitation(1) [OF r(1) assms(3)]
  obtain iv where iv: "iv \<in> set (invitations d)" "claimable_invitation now (aw_sha w (strip c)) address iv"
      "r = iv\<lparr>iv_accepted_at := Some now\<rparr>" by blast
  have "spent_code (aw_sha w (strip c)) (invitations d')"
    using claimed_invitation(2) [OF r(1) assms(3)] accepted_by_continues [of d1 "iv_id r" uid] r(3)
    by (simp only: invitations_continue_def)
  with claimed_invitation(3) [OF r(1) assms(3)] iv r(2) address c show ?thesis
    by (intro exI [where x = c] exI [where x = iv] exI [where x = address]) simp
qed

lemma admitted_code:
  assumes "at_production st" "\<not> at_public_registration st" "one_per_code (invitations d)" and "admits w st h x d"
  shows "spent_code h (invitations (run_account w st x d))" "\<not> spent_code h (invitations d)"
proof -
  obtain now uid email name hash code u d' where x: "x = (now, Register uid email name hash (Some code))"
      "aw_sha w (strip code) = h" "register w st id now uid email name hash (Some code) d = (Inr u, d')"
    using assms(4)
    by (auto simp: admits_def split: prod.splits account_op.splits option.splits)
      (metis prod.collapse sum.collapse(2))
  from closed_registration [OF assms(1-3) x(3)] x
  show "spent_code h (invitations (run_account w st x d))" "\<not> spent_code h (invitations d)" by auto
qed

interpretation invited: at_most_once "run_account w st" "admits w st h" "\<lambda>d. \<not> spent_code h (invitations d)"
  "\<lambda>_. False" "\<lambda>d. at_production st \<and> \<not> at_public_registration st \<and> one_per_code (invitations d)" for w st h
proof
  fix x and d :: "'a workspace_db_scheme"
  let ?ok = "\<lambda>d. at_production st \<and> \<not> at_public_registration st \<and> one_per_code (invitations d)"
  have kept: "one_per_code (invitations d) \<Longrightarrow> one_per_code (invitations (run_account w st x d))"
    "spent_code h (invitations d) \<Longrightarrow> spent_code h (invitations (run_account w st x d))"
    using account_invitations [of d w st x] by (simp_all add: invitations_continue_def)
  show "?ok d \<Longrightarrow> ?ok (run_account w st x d)"
    using kept(1) by simp
  show "?ok d \<Longrightarrow> admits w st h x d \<Longrightarrow> \<not> spent_code h (invitations d)"
    using admitted_code(2) [of st d w h x] by simp
  show "?ok d \<Longrightarrow> admits w st h x d \<Longrightarrow> \<not> \<not> spent_code h (invitations (run_account w st x d))"
    using admitted_code(1) [of st d w h x] by simp
  show "?ok d \<Longrightarrow> \<not> \<not> spent_code h (invitations d) \<Longrightarrow> \<not> False
      \<Longrightarrow> \<not> \<not> spent_code h (invitations (run_account w st x d))"
    using kept(2) by simp
qed simp

text \<open>C16. An invitation admits one account. Where registration is by invitation, an account is created
  only for a code whose invitation is unspent, not revoked, not expired and open to its address; it has
  the role the invitation names, and in no later run of any operations the same code admits another.\<close>

theorem invitation_admits_one_account:
  assumes "at_production st" "\<not> at_public_registration st" "distinct (map iv_code_hash (invitations d))"
    and "register w st id now uid email name hash (Some code) d = (Inr u, d1)"
  shows "(\<exists>iv \<in> set (invitations d). iv_code_hash iv = aw_sha w (strip code) \<and> iv_accepted_at iv = None
      \<and> iv_revoked_at iv = None \<and> now < iv_expires_at iv
      \<and> (iv_email iv = None \<or> iv_email iv = Some (folded_email (us_email u))) \<and> us_role u = iv_role iv)
    \<and> us_id u = uid \<and> us_email u = folded_email email
    \<and> grant_count (run_account w st) (admits w st (aw_sha w (strip code))) calls d1 = 0"
proof -
  have one: "one_per_code (invitations d)"
    using assms(3) by (simp add: one_per_code_def)
  from closed_registration [OF assms(1,2) one assms(4)]
  obtain iv address where iv: "iv \<in> set (invitations d)" "claimable_invitation now (aw_sha w (strip code)) address iv"
      "normalize_email email = Inr address" "u = new_user now uid address (strip name) hash (iv_role iv)"
      "spent_code (aw_sha w (strip code)) (invitations d1)" by auto
  have address: "address = folded_email email"
    using iv(3) by (auto simp: normalize_email_def Let_def split: if_splits)
  have "one_per_code (invitations d1)"
    using register_continues [of d w st now uid email name hash "Some code"] one assms(4)
    by (simp add: invitations_continue_def)
  with invited.grants_bounded [where w = w and st = st and h = "aw_sha w (strip code)" and s = d1 and xs = calls]
    assms(1,2) iv(5)
  have "grant_count (run_account w st) (admits w st (aw_sha w (strip code))) calls d1 = 0" by simp
  with iv(1,2,4) address show ?thesis
    by (auto simp: new_user_def claimable_invitation_def intro!: bexI [where x = iv])
qed


section \<open>A deleted account\<close>
























section \<open>Concrete accounts\<close>

definition example_world :: auth_world where
  "example_world = \<lparr>aw_sha = (\<lambda>s. CHR ''#'' # s), aw_verify = (\<lambda>h p. h = CHR ''$'' # p), aw_dummy_hash = ''-'', aw_lower = casefold\<rparr>"

definition invitation_only :: auth_settings where
  "invitation_only =
     \<lparr>at_production = True, at_public_registration = False, at_legacy_local_user = False, at_session_ttl_seconds = 3600,
      at_bootstrap_email = None, at_bootstrap_password = None, at_bootstrap_name = ''Admin''\<rparr>"

definition example_user :: "string \<Rightarrow> string \<Rightarrow> user_row" where
  "example_user k role = new_user 0 k (k @ ''@relay.io'') k ''$secret'' role"

definition example_accounts :: workspace_db where
  "example_accounts =
     \<lparr>users = [example_user ''ann'' ''admin'', example_user ''bob'' ''admin''], login_sessions = [],
      invitations = [\<lparr>iv_id = ''i1'', iv_code_hash = ''#abc'', iv_email = None, iv_role = ''user'', iv_created_by = Some ''ann'',
        iv_accepted_by = None, iv_created_at = 0, iv_expires_at = 100000000, iv_accepted_at = None, iv_revoked_at = None\<rparr>],
      stored_credentials = [], audit_events = [], account_buckets = [], server_grants = [(''s1'', ''bob'')],
      ws_matrices = [\<lparr>ow_id = ''m1'', ow_owner_id = ''bob''\<rparr>, \<lparr>ow_id = ''m2'', ow_owner_id = ''ann''\<rparr>],
      ws_matrix_tasks = [\<lparr>pw_id = ''t1'', pw_parent_id = ''m1''\<rparr>], ws_runs = [], ws_evidence = [], ws_events = [],
      ws_turns = [], ws_trials = [], ws_trial_runs = [], ws_packs = [], ws_pack_items = [], ws_scenarios = [],
      ws_notes = [], ws_receipts = [], ws_cards = [\<lparr>cw_id = ''c1'', cw_owner_id = ''bob'', cw_target_id = ''g1''\<rparr>],
      ws_key_groups = [], ws_prompts = [\<lparr>vw_id = ''p1'', vw_owner_id = ''bob'', vw_card_id = ''c1''\<rparr>],
      ws_ownerships = [\<lparr>tw_id = ''w1'', tw_target_id = ''g1'', tw_owner_id = ''bob''\<rparr>], ws_targets = [''g1'', ''demo-2''],
      ws_probes = []\<rparr>"

lemmas example_defs = example_world_def invitation_only_def example_user_def example_accounts_def new_user_def

theorem an_administrator_remains_witness:
  "let d = run_ops (run_call example_world invitation_only)
       [(5, Call (SetRole ''bob'' ''user'' ''ann'')), (6, Call (CloseAccount ''ann'' ''ann@relay.io'' None)),
        (7, Interrupted ''bob'' ''bob@relay.io'' None [(8, SetRole ''bob'' ''admin'' ''ann'')] [(9, DropCredential (''bob'', ''a'', ''b''))])]
       example_accounts in
   \<exists>u \<in> set (users d). us_role u = ''admin'' \<and> us_active u \<and> us_id u \<noteq> ''system-runtime''"
  unfolding Let_def
  by (rule an_administrator_remains [OF _ _ _ refl])
    (simp_all add: example_defs keyed_def active_admin_def system_runtime_user_def)

definition example_login :: "(error + issued_session) \<times> workspace_db" where
  "example_login = login example_world invitation_only id 5 ''s1'' ''tok'' ''Ann@relay.io'' ''secret'' None example_accounts"

lemma example_login_result:
  "login example_world invitation_only id 5 ''s1'' ''tok'' ''Ann@relay.io'' ''secret'' None example_accounts =
    (Inr \<lparr>is_user = example_user ''ann'' ''admin'', is_session_id = ''s1'', is_expires_at = 5 + seconds 3600, is_token = ''tok''\<rparr>,
     snd example_login)"
  by code_simp

lemma example_session_resolves:
  "fst (resolve_session example_world 20 ''tok''
      (run_ops (run_account example_world invitation_only) [(10, Resolve ''tok''), (12, SetRole ''bob'' ''user'' ''ann'')]
        (snd example_login)))
    = Some (example_user ''ann'' ''admin'', ''s1'', 5 + seconds 3600)"
  by code_simp

theorem token_stands_for_its_account_witness:
  "let d = run_ops (run_account example_world invitation_only)
       [(10, Resolve ''tok''), (12, SetRole ''bob'' ''user'' ''ann'')] (snd example_login) in
   example_user ''ann'' ''admin'' \<in> set (users d) \<and> 20 < 5 + seconds 3600"
proof -
  let ?d = "run_ops (run_account example_world invitation_only)
       [(10, Resolve ''tok''), (12, SetRole ''bob'' ''user'' ''ann'')] (snd example_login)"
  obtain d3 where "resolve_session example_world 20 ''tok'' ?d
      = (Some (example_user ''ann'' ''admin'', ''s1'', 5 + seconds 3600), d3)"
    using example_session_resolves by (metis prod.collapse)
  from token_stands_for_its_account [OF example_login_result _ refl this]
  show ?thesis by (simp add: draws_token_def)
qed

theorem invitation_admits_one_account_witness:
  "let d = snd (register example_world invitation_only id 5 ''cy'' ''cy@relay.io'' ''Cy'' ''$pw'' (Some '' abc '') example_accounts) in
   grant_count (run_account example_world invitation_only) (admits example_world invitation_only ''#abc'')
     [(6, Register ''di'' ''di@relay.io'' ''Di'' ''$pw'' (Some ''abc''))] d = 0"
proof -
  let ?r = "register example_world invitation_only id 5 ''cy'' ''cy@relay.io'' ''Cy'' ''$pw'' (Some '' abc '') example_accounts"
  have "fst ?r = Inr (new_user 5 ''cy'' ''cy@relay.io'' ''Cy'' ''$pw'' ''user'')"
    by code_simp
  then have r: "?r = (Inr (new_user 5 ''cy'' ''cy@relay.io'' ''Cy'' ''$pw'' ''user''), snd ?r)"
    by (metis prod.collapse)
  have h: "aw_sha example_world (strip '' abc '') = ''#abc''"
    by code_simp
  have "at_production invitation_only" "\<not> at_public_registration invitation_only"
    "distinct (map iv_code_hash (invitations example_accounts))"
    by (simp_all add: example_defs)
  from invitation_admits_one_account [OF this r, where calls = "[(6, Register ''di'' ''di@relay.io'' ''Di'' ''$pw'' (Some ''abc''))]"]
  show ?thesis unfolding Let_def h by (elim conjE)
qed


text \<open>The check and the deactivation of a deletion are transactions of their own: the two last
  administrators who delete their accounts at the same time are both let through.\<close>

lemma overlapping_deletions_leave_no_administrator:
  "let other = \<lparr>lo_checked = (\<lambda>d. snd (delete_account example_world alone 5 ''bob'' ''bob@relay.io'' None d)), lo_emptied = id\<rparr>;
       (out, d) = delete_account example_world other 5 ''ann'' ''ann@relay.io'' None example_accounts in
   tcount active_admin (users example_accounts) = 2 \<and> \<not> isl out \<and> tcount active_admin (users d) = 0"
  by code_simp

end
