(* ===== verification/Watches.thy ===== *)
theory Watches
  imports Reminders Runtime_Trace
begin

text \<open>
  Condition watches: the table of \<open>persistence/condition_watch_models.py\<close>, every operation of
  \<open>ConditionWatchRepository\<close> (\<open>persistence/condition_watch_repository.py\<close>), the polling step of
  \<open>ConditionWatchService\<close> (\<open>condition_watch_service.py\<close>), the graph that may take one attempt over
  (\<open>orchestration/condition_watch_graph.py\<close>), and the evaluator and notifier of
  \<open>condition_watch_runtime.py\<close>. A triggered watch is delivered as a scheduled reminder.

  An evaluation calls a model and lasts: it is an argument that returns when it ended, how, and the
  database that the other sessions left meanwhile.
\<close>

section \<open>Rows\<close>

datatype watch_status = WatchActive | WatchTriggered | WatchCancelled | WatchExpired | WatchFailed

record condition_watch =
  wt_id :: string
  wt_owner_id :: string
  wt_deployment_id :: string
  wt_character_card_id :: string
  wt_channel_id :: string
  wt_thread_id :: string
  wt_target_user_id :: string
  wt_condition :: prose
  wt_notification :: prose
  wt_status :: watch_status
  wt_interval :: int
  wt_attempts :: int
  wt_max_attempts :: int
  wt_next_check_at :: time
  wt_expires_at :: time
  wt_triggered_at :: "time option"
  wt_last_checked_at :: "time option"
  wt_last_error :: string
  wt_created_at :: time
  wt_updated_at :: time

record watch_db = reminder_db +
  watches :: "condition_watch list"

abbreviation get_watch :: "'a watch_db_scheme \<Rightarrow> string \<Rightarrow> condition_watch option" where
  "get_watch d k \<equiv> tget wt_id (watches d) k"

interpretation watch_table: db_table watches watches_update wt_id
  by unfold_locales simp

definition flush_watch :: "time \<Rightarrow> (condition_watch \<Rightarrow> condition_watch) \<Rightarrow> condition_watch \<Rightarrow> condition_watch" where
  "flush_watch now f w = (if f w = w then w else (f w)\<lparr>wt_updated_at := now\<rparr>)"

definition save_watches ::
  "time \<Rightarrow> (condition_watch \<Rightarrow> bool) \<Rightarrow> (condition_watch \<Rightarrow> condition_watch) \<Rightarrow> 'a watch_db_scheme \<Rightarrow> 'a watch_db_scheme" where
  "save_watches now P f d = d\<lparr>watches := tset P (flush_watch now f) (watches d)\<rparr>"

section \<open>The repository\<close>

record watch_request =
  wq_owner_id :: string
  wq_deployment_id :: string
  wq_channel_id :: string
  wq_condition :: prose
  wq_notification :: prose
  wq_interval :: int
  wq_expires_at :: time
  wq_max_attempts :: int
  wq_thread_id :: string
  wq_target_user_id :: string
  wq_next_check_at :: "time option"

definition new_watch :: "time \<Rightarrow> string \<Rightarrow> character_deployment \<Rightarrow> watch_request \<Rightarrow> condition_watch" where
  "new_watch now uid dep q =
     \<lparr>wt_id = uid, wt_owner_id = wq_owner_id q, wt_deployment_id = wq_deployment_id q,
      wt_character_card_id = cd_character_card_id dep, wt_channel_id = take 200 (strip (wq_channel_id q)),
      wt_thread_id = take 200 (strip (wq_thread_id q)), wt_target_user_id = take 200 (strip (wq_target_user_id q)),
      wt_condition = strip_prose (wq_condition q), wt_notification = strip_prose (wq_notification q),
      wt_status = WatchActive, wt_interval = wq_interval q, wt_attempts = 0, wt_max_attempts = wq_max_attempts q,
      wt_next_check_at = (case wq_next_check_at q of None \<Rightarrow> now | Some t \<Rightarrow> t), wt_expires_at = wq_expires_at q,
      wt_triggered_at = None, wt_last_checked_at = None, wt_last_error = [], wt_created_at = now,
      wt_updated_at = now\<rparr>"

definition create_watch ::
  "time \<Rightarrow> string \<Rightarrow> watch_request \<Rightarrow> 'a watch_db_scheme \<Rightarrow> (condition_watch, 'a watch_db_scheme) outcome" where
  "create_watch now uid q d =
     (let channel = strip (wq_channel_id q) in
      if channel = [] \<or> take 8 channel = ''@server:''
      then (Inl (ValueError ''Condition Watch requires a concrete destination channel.''), d)
      else
        (case tget cd_id (deployments d) (wq_deployment_id q) of
           None \<Rightarrow> (Inl (KeyError ''deployment''), d)
         | Some dep \<Rightarrow>
             if cd_owner_id dep \<noteq> wq_owner_id q then (Inl (KeyError ''deployment''), d)
             else if get_watch d uid \<noteq> None then (Inl IntegrityError, d)
             else (Inr (new_watch now uid dep q), d\<lparr>watches := tins (new_watch now uid dep q) (watches d)\<rparr>)))"

definition find_watch :: "string \<Rightarrow> string \<Rightarrow> 'a watch_db_scheme \<Rightarrow> condition_watch option" where
  "find_watch owner k d =
     (case get_watch d k of None \<Rightarrow> None | Some w \<Rightarrow> if wt_owner_id w \<noteq> owner then None else Some w)"

definition list_watches :: "string \<Rightarrow> string \<Rightarrow> int \<Rightarrow> bool \<Rightarrow> 'a watch_db_scheme \<Rightarrow> condition_watch list" where
  "list_watches owner deployment limit include_finished d =
     tlimit (clip 1 50 limit)
       (rev (sort_key (\<lambda>w. (wt_created_at w, wt_id w))
         (filter (\<lambda>w. wt_owner_id w = owner \<and> wt_deployment_id w = deployment
                      \<and> (include_finished \<or> wt_status w = WatchActive)) (watches d))))"

definition cancel_watch ::
  "time \<Rightarrow> string \<Rightarrow> string \<Rightarrow> string \<Rightarrow> 'a watch_db_scheme \<Rightarrow> condition_watch option \<times> 'a watch_db_scheme" where
  "cancel_watch now owner deployment k d =
     (case get_watch d k of
        None \<Rightarrow> (None, d)
      | Some w \<Rightarrow>
          if wt_owner_id w \<noteq> owner \<or> wt_deployment_id w \<noteq> deployment then (None, d)
          else if wt_status w \<noteq> WatchActive then (Some w, d)
          else
            (let d' = save_watches now (\<lambda>w. wt_id w = k) (\<lambda>w. w\<lparr>wt_status := WatchCancelled\<rparr>) d in
             (get_watch d' k, d')))"

text \<open>\<open>claim_due\<close>: overdue watches expire, the others that are due are checked once more and their
  next check is moved before they are returned.\<close>

definition overdue_watch :: "time \<Rightarrow> condition_watch \<Rightarrow> bool" where
  "overdue_watch now w \<longleftrightarrow> wt_status w = WatchActive \<and> wt_expires_at w \<le> now"

definition due_watch :: "time \<Rightarrow> condition_watch \<Rightarrow> bool" where
  "due_watch now w \<longleftrightarrow>
     wt_status w = WatchActive \<and> wt_next_check_at w \<le> now \<and> now < wt_expires_at w
     \<and> wt_attempts w < wt_max_attempts w"

definition due_watches :: "time \<Rightarrow> int \<Rightarrow> 'a watch_db_scheme \<Rightarrow> condition_watch list" where
  "due_watches now limit d =
     tlimit (clip 1 50 limit)
       (sort_key (\<lambda>w. (wt_next_check_at w, wt_created_at w)) (filter (due_watch now) (watches d)))"

definition checked_watch :: "time \<Rightarrow> condition_watch \<Rightarrow> condition_watch" where
  "checked_watch now w =
     w\<lparr>wt_attempts := wt_attempts w + 1, wt_last_checked_at := Some now,
       wt_next_check_at := now + seconds (max 300 (wt_interval w)), wt_last_error := []\<rparr>"

definition expire_watches :: "time \<Rightarrow> 'a watch_db_scheme \<Rightarrow> 'a watch_db_scheme" where
  "expire_watches now d = save_watches now (overdue_watch now) (\<lambda>w. w\<lparr>wt_status := WatchExpired\<rparr>) d"

definition claim_watches :: "time \<Rightarrow> int \<Rightarrow> 'a watch_db_scheme \<Rightarrow> condition_watch list \<times> 'a watch_db_scheme" where
  "claim_watches now limit d =
     (let d1 = expire_watches now d; due = due_watches now limit d1 in
      (map (flush_watch now (checked_watch now)) due,
       save_watches now (\<lambda>w. wt_id w \<in> set (map wt_id due)) (checked_watch now) d1))"

text \<open>The three ends of an attempt change an active watch only.\<close>

definition end_attempt ::
  "time \<Rightarrow> string \<Rightarrow> (condition_watch \<Rightarrow> condition_watch) \<Rightarrow> 'a watch_db_scheme \<Rightarrow> 'a watch_db_scheme" where
  "end_attempt now k f d = save_watches now (\<lambda>w. wt_id w = k \<and> wt_status w = WatchActive) f d"

definition mark_not_met :: "time \<Rightarrow> string \<Rightarrow> 'a watch_db_scheme \<Rightarrow> 'a watch_db_scheme" where
  "mark_not_met now k d =
     end_attempt now k (\<lambda>w. if wt_max_attempts w \<le> wt_attempts w then w\<lparr>wt_status := WatchExpired\<rparr> else w) d"

definition mark_triggered :: "time \<Rightarrow> string \<Rightarrow> 'a watch_db_scheme \<Rightarrow> 'a watch_db_scheme" where
  "mark_triggered now k d =
     end_attempt now k (\<lambda>w. w\<lparr>wt_status := WatchTriggered, wt_triggered_at := Some now, wt_last_error := []\<rparr>) d"

definition mark_watch_failure :: "time \<Rightarrow> string \<Rightarrow> string \<Rightarrow> 'a watch_db_scheme \<Rightarrow> 'a watch_db_scheme" where
  "mark_watch_failure now k err d =
     end_attempt now k
       (\<lambda>w. let w' = w\<lparr>wt_last_error := take 2000 err\<rparr> in
            if wt_max_attempts w \<le> wt_attempts w then w'\<lparr>wt_status := WatchFailed\<rparr> else w') d"

definition purge_orphan_watches :: "'a watch_db_scheme \<Rightarrow> nat \<times> 'a watch_db_scheme" where
  "purge_orphan_watches d =
     (let orphan = (\<lambda>w. wt_deployment_id w \<notin> set (map cd_id (deployments d))) in
      (tcount orphan (watches d), d\<lparr>watches := tdel orphan (watches d)\<rparr>))"

definition claim_watch_owner :: "time \<Rightarrow> string \<Rightarrow> string \<Rightarrow> 'a watch_db_scheme \<Rightarrow> nat \<times> 'a watch_db_scheme" where
  "claim_watch_owner now source target d =
     (tcount (\<lambda>w. wt_owner_id w = source) (watches d),
      d\<lparr>watches := tset (\<lambda>w. wt_owner_id w = source)
                     (\<lambda>w. w\<lparr>wt_owner_id := target, wt_updated_at := now\<rparr>) (watches d)\<rparr>)"

definition delete_watch_owner :: "string \<Rightarrow> 'a watch_db_scheme \<Rightarrow> nat \<times> 'a watch_db_scheme" where
  "delete_watch_owner owner d =
     (tcount (\<lambda>w. wt_owner_id w = owner) (watches d),
      d\<lparr>watches := tdel (\<lambda>w. wt_owner_id w = owner) (watches d)\<rparr>)"

section \<open>One attempt\<close>

record watch_evaluation =
  we_triggered :: bool
  we_summary :: string

text \<open>How a call ended: with an answer, with an exception and its text, or cancelled with its task.\<close>

datatype 'a call_end = Answered 'a | Raised string | Stopped

type_synonym 'd watch_evaluator = "condition_watch \<Rightarrow> 'd \<Rightarrow> time \<times> watch_evaluation call_end \<times> 'd"

type_synonym 'd watch_notifier = "condition_watch \<Rightarrow> watch_evaluation \<Rightarrow> 'd \<Rightarrow> time \<times> unit call_end \<times> 'd"

text \<open>\<open>_process\<close> without a processor.\<close>

definition process_watch ::
  "('a watch_db_scheme) watch_evaluator \<Rightarrow> ('a watch_db_scheme) watch_notifier \<Rightarrow> condition_watch
    \<Rightarrow> 'a watch_db_scheme \<Rightarrow> 'a watch_db_scheme" where
  "process_watch ev nt w d =
     (case ev w d of
        (t, Stopped, d1) \<Rightarrow> d1
      | (t, Raised e, d1) \<Rightarrow> mark_watch_failure t (wt_id w) e d1
      | (t, Answered r, d1) \<Rightarrow>
          if \<not> we_triggered r then mark_not_met t (wt_id w) d1
          else
            (case nt w r d1 of
               (t', Stopped, d2) \<Rightarrow> d2
             | (t', Raised e, d2) \<Rightarrow> mark_watch_failure t' (wt_id w) e d2
             | (t', Answered _, d2) \<Rightarrow> mark_triggered t' (wt_id w) d2))"

text \<open>\<open>run_once\<close>; \<open>process\<close> is the path of \<open>_process\<close> that the service was built with.\<close>

definition run_watches ::
  "int \<Rightarrow> time \<Rightarrow> (condition_watch \<Rightarrow> 'a watch_db_scheme \<Rightarrow> 'a watch_db_scheme) \<Rightarrow> 'a watch_db_scheme
    \<Rightarrow> nat \<times> 'a watch_db_scheme" where
  "run_watches batch now process d =
     (let (records, d1) = claim_watches now (clip 1 50 batch) d in (length records, fold process records d1))"

section \<open>The graph of one attempt\<close>

datatype graph_status = GraphPending | GraphRunning | GraphCompleted | GraphFailed

datatype watch_outcome = OutcomePending | OutcomeNotMet | OutcomeTriggered | OutcomeFailed

datatype notification_status = NotStarted | NotificationCompleted | NotificationFailed

record watch_graph_state =
  gs_trace_id :: string
  gs_graph_run_id :: string
  gs_status :: graph_status
  gs_outcome :: watch_outcome
  gs_triggered :: "bool option"
  gs_notification :: notification_status

text \<open>The context of a run: what the nodes leave to each other outside the state, the trace, the clock
  and the database. \<open>wr_stopped\<close> is the cancellation that ends the run.\<close>

record 'd watch_run =
  wr_now :: time
  wr_state :: watch_graph_state
  wr_evaluation :: "watch_evaluation option"
  wr_error :: string
  wr_events :: "trace_event list"
  wr_stopped :: bool
  wr_db :: 'd

definition watch_event ::
  "condition_watch \<Rightarrow> string \<Rightarrow> trace_node_kind \<Rightarrow> trace_status \<Rightarrow> string list \<Rightarrow> (string \<times> string) list \<Rightarrow> string
    \<Rightarrow> 'd watch_run \<Rightarrow> trace_event" where
  "watch_event w node kind status keys metadata err r =
     \<lparr>ev_trace_id = gs_trace_id (wr_state r), ev_graph_run_id = gs_graph_run_id (wr_state r),
      ev_graph_name = ''condition_watch'', ev_node_name = node, ev_node_kind = kind, ev_status = status,
      ev_operation_id = [], ev_owner_id = wt_owner_id w, ev_deployment_id = wt_deployment_id w,
      ev_character_card_id = [], ev_changed_keys = keys, ev_metadata = metadata, ev_error = take 300 err,
      ev_occurred_at = wr_now r\<rparr>"

definition watch_emit ::
  "condition_watch \<Rightarrow> string \<Rightarrow> trace_node_kind \<Rightarrow> trace_status \<Rightarrow> string list \<Rightarrow> (string \<times> string) list \<Rightarrow> string
    \<Rightarrow> 'd watch_run \<Rightarrow> 'd watch_run" where
  "watch_emit w node kind status keys metadata err r =
     r\<lparr>wr_events := wr_events r @ [watch_event w node kind status keys metadata err r]\<rparr>"

definition set_state :: "(watch_graph_state \<Rightarrow> watch_graph_state) \<Rightarrow> 'd watch_run \<Rightarrow> 'd watch_run" where
  "set_state f r = r\<lparr>wr_state := f (wr_state r)\<rparr>"

definition evaluate_node :: "'d watch_evaluator \<Rightarrow> condition_watch \<Rightarrow> 'd watch_run \<Rightarrow> 'd watch_run" where
  "evaluate_node ev w r =
     (let r0 = watch_emit w ''watch_evaluate'' Agentic Started [] [] [] r;
          (t, result, d) = ev w (wr_db r0); r1 = r0\<lparr>wr_now := t, wr_db := d\<rparr> in
      case result of
        Stopped \<Rightarrow> r1\<lparr>wr_stopped := True\<rparr>
      | Raised e \<Rightarrow>
          set_state (\<lambda>s. s\<lparr>gs_outcome := OutcomeFailed, gs_status := GraphFailed\<rparr>)
            (watch_emit w ''watch_evaluate'' Agentic Failed [''outcome'', ''status''] [] e (r1\<lparr>wr_error := e\<rparr>))
      | Answered a \<Rightarrow>
          set_state (\<lambda>s. s\<lparr>gs_triggered := Some (we_triggered a), gs_status := GraphRunning,
                           gs_outcome := (if we_triggered a then OutcomeTriggered else OutcomeNotMet)\<rparr>)
            (watch_emit w ''watch_evaluate'' Agentic Completed [''evaluation_triggered'', ''outcome'', ''status'']
               [(''triggered'', if we_triggered a then ''true'' else ''false'')] []
               (r1\<lparr>wr_evaluation := Some a\<rparr>)))"

definition notification_failed :: "watch_graph_state \<Rightarrow> watch_graph_state" where
  "notification_failed s =
     s\<lparr>gs_notification := NotificationFailed, gs_outcome := OutcomeFailed, gs_status := GraphFailed\<rparr>"

definition notify_failed :: "condition_watch \<Rightarrow> string \<Rightarrow> 'd watch_run \<Rightarrow> 'd watch_run" where
  "notify_failed w e r =
     set_state notification_failed
       (watch_emit w ''watch_notify'' SideEffect Failed [''notification_status'', ''outcome'', ''status''] [] e
          (r\<lparr>wr_error := e\<rparr>))"

definition notify_node :: "'d watch_notifier \<Rightarrow> condition_watch \<Rightarrow> 'd watch_run \<Rightarrow> 'd watch_run" where
  "notify_node nt w r =
     (let r0 = watch_emit w ''watch_notify'' SideEffect Started [] [] [] r in
      case wr_evaluation r0 of
        None \<Rightarrow> notify_failed w ''Condition Watch graph lost its evaluation result.'' r0
      | Some a \<Rightarrow>
          (let (t, result, d) = nt w a (wr_db r0); r1 = r0\<lparr>wr_now := t, wr_db := d\<rparr> in
           case result of
             Stopped \<Rightarrow> r1\<lparr>wr_stopped := True\<rparr>
           | Raised e \<Rightarrow> notify_failed w e r1
           | Answered _ \<Rightarrow>
               set_state (\<lambda>s. s\<lparr>gs_notification := NotificationCompleted\<rparr>)
                 (watch_emit w ''watch_notify'' SideEffect Completed [''notification_status''] [] [] r1)))"

text \<open>The three nodes that record the end of the attempt.\<close>

definition mark_node ::
  "string \<Rightarrow> string \<Rightarrow> (time \<Rightarrow> 'd \<Rightarrow> 'd) \<Rightarrow> (watch_graph_state \<Rightarrow> watch_graph_state) \<Rightarrow> condition_watch
    \<Rightarrow> 'd watch_run \<Rightarrow> 'd watch_run" where
  "mark_node node transition mark f w r =
     (let r0 = watch_emit w node State Started [] [] [] r; r1 = r0\<lparr>wr_db := mark (wr_now r0) (wr_db r0)\<rparr> in
      set_state f
        (watch_emit w node State Completed [''outcome'', ''status''] [(''business_transition'', transition)] [] r1))"

definition not_met_node :: "condition_watch \<Rightarrow> ('a watch_db_scheme) watch_run \<Rightarrow> ('a watch_db_scheme) watch_run" where
  "not_met_node w =
     mark_node ''watch_mark_not_met'' ''not_met'' (\<lambda>t. mark_not_met t (wt_id w))
       (\<lambda>s. s\<lparr>gs_outcome := OutcomeNotMet, gs_status := GraphCompleted\<rparr>) w"

definition triggered_node :: "condition_watch \<Rightarrow> ('a watch_db_scheme) watch_run \<Rightarrow> ('a watch_db_scheme) watch_run" where
  "triggered_node w =
     mark_node ''watch_mark_triggered'' ''triggered'' (\<lambda>t. mark_triggered t (wt_id w))
       (\<lambda>s. s\<lparr>gs_outcome := OutcomeTriggered, gs_status := GraphCompleted\<rparr>) w"

definition unnamed_failure :: string where
  "unnamed_failure = ''Condition Watch graph failed without an error message.''"

definition failure_node :: "condition_watch \<Rightarrow> ('a watch_db_scheme) watch_run \<Rightarrow> ('a watch_db_scheme) watch_run" where
  "failure_node w r =
     (let e = (if wr_error r = [] then unnamed_failure else wr_error r) in
      mark_node ''watch_mark_failure'' ''failure'' (\<lambda>t. mark_watch_failure t (wt_id w) e)
        (\<lambda>s. s\<lparr>gs_outcome := OutcomeFailed, gs_status := GraphFailed\<rparr>) w r)"

text \<open>The edges.\<close>

datatype watch_node = NodeEvaluate | NodeNotify | NodeNotMet | NodeTriggered | NodeFailure

definition route_after_evaluation :: "watch_graph_state \<Rightarrow> watch_node" where
  "route_after_evaluation s =
     (if gs_outcome s = OutcomeTriggered then NodeNotify
      else if gs_outcome s = OutcomeNotMet then NodeNotMet else NodeFailure)"

definition route_after_notification :: "watch_graph_state \<Rightarrow> watch_node" where
  "route_after_notification s =
     (if gs_notification s = NotificationCompleted then NodeTriggered else NodeFailure)"

definition next_node :: "watch_node \<Rightarrow> watch_graph_state \<Rightarrow> watch_node option" where
  "next_node n s =
     (case n of
        NodeEvaluate \<Rightarrow> Some (route_after_evaluation s)
      | NodeNotify \<Rightarrow> Some (route_after_notification s)
      | _ \<Rightarrow> None)"

definition run_node ::
  "('a watch_db_scheme) watch_evaluator \<Rightarrow> ('a watch_db_scheme) watch_notifier \<Rightarrow> condition_watch \<Rightarrow> watch_node
    \<Rightarrow> ('a watch_db_scheme) watch_run \<Rightarrow> ('a watch_db_scheme) watch_run" where
  "run_node ev nt w n r =
     (case n of
        NodeEvaluate \<Rightarrow> evaluate_node ev w r
      | NodeNotify \<Rightarrow> notify_node nt w r
      | NodeNotMet \<Rightarrow> not_met_node w r
      | NodeTriggered \<Rightarrow> triggered_node w r
      | NodeFailure \<Rightarrow> failure_node w r)"

fun node_rank :: "watch_node \<Rightarrow> nat" where
  "node_rank NodeEvaluate = 2"
| "node_rank NodeNotify = 1"
| "node_rank _ = 0"

lemma next_node_rank: "next_node n s = Some m \<Longrightarrow> node_rank m < node_rank n"
  by (cases n) (auto simp: next_node_def route_after_evaluation_def route_after_notification_def split: if_splits)

function run_nodes ::
  "('a watch_db_scheme) watch_evaluator \<Rightarrow> ('a watch_db_scheme) watch_notifier \<Rightarrow> condition_watch \<Rightarrow> watch_node
    \<Rightarrow> ('a watch_db_scheme) watch_run \<Rightarrow> ('a watch_db_scheme) watch_run" where
  "run_nodes ev nt w n r =
     (let r' = run_node ev nt w n r in
      if wr_stopped r' then r'
      else (case next_node n (wr_state r') of None \<Rightarrow> r' | Some m \<Rightarrow> run_nodes ev nt w m r'))"
  by pat_completeness auto
termination
  by (relation "measure (\<lambda>(ev, nt, w, n, r). node_rank n)") (auto dest: next_node_rank)

declare run_nodes.simps [simp del]

definition graph_start :: "string \<Rightarrow> string \<Rightarrow> time \<Rightarrow> 'd \<Rightarrow> 'd watch_run" where
  "graph_start trace_id run_id now d =
     \<lparr>wr_now = now,
      wr_state = \<lparr>gs_trace_id = trace_id, gs_graph_run_id = run_id, gs_status = GraphPending,
                  gs_outcome = OutcomePending, gs_triggered = None, gs_notification = NotStarted\<rparr>,
      wr_evaluation = None, wr_error = [], wr_events = [], wr_stopped = False, wr_db = d\<rparr>"

definition run_watch_graph ::
  "('a watch_db_scheme) watch_evaluator \<Rightarrow> ('a watch_db_scheme) watch_notifier \<Rightarrow> string \<Rightarrow> string \<Rightarrow> time
    \<Rightarrow> condition_watch \<Rightarrow> 'a watch_db_scheme \<Rightarrow> ('a watch_db_scheme) watch_run" where
  "run_watch_graph ev nt trace_id run_id now w d = run_nodes ev nt w NodeEvaluate (graph_start trace_id run_id now d)"

end
