(* ===== verification/Watch_Runtime.thy ===== *)
theory Watch_Runtime
  imports Watches Redaction
begin

text \<open>
  The evaluator and the notifier of a condition watch (\<open>condition_watch_runtime.py\<close>). The model behind
  the Character, its stored target and credential, the tool catalog and the JSON reader are arguments;
  so is \<open>others\<close>, what other sessions commit between the two transactions of the notifier.
\<close>

section \<open>The evaluator's answer\<close>

text \<open>The control line: the object between the marker and the closing brackets.\<close>

definition watch_marker :: "string \<Rightarrow> string option" where
  "watch_marker text0 =
     (let t = strip text0; middle = drop 10 (take (length t - 2) t); p = strip middle in
      if take 10 t = ''[[CR_WATCH'' \<and> ends_with t '']]'' \<and> middle \<noteq> [] \<and> is_space (hd middle)
        \<and> 2 \<le> length p \<and> hd p = CHR ''{'' \<and> last p = CHR ''}''
      then Some p else None)"

text \<open>How Pydantic reads a field of type \<open>bool\<close>.\<close>

definition bool_field :: "json \<Rightarrow> bool option" where
  "bool_field v =
     (case v of
        JBool b \<Rightarrow> Some b
      | JInt i \<Rightarrow> if i = 1 then Some True else if i = 0 then Some False else None
      | JStr s \<Rightarrow>
          if casefold s \<in> {''1'', ''on'', ''t'', ''true'', ''y'', ''yes''} then Some True
          else if casefold s \<in> {''0'', ''off'', ''f'', ''false'', ''n'', ''no''} then Some False else None
      | _ \<Rightarrow> None)"

definition watch_decision :: "json \<Rightarrow> watch_evaluation option" where
  "watch_decision v =
     (case v of
        JObj obj \<Rightarrow>
          (case (map_of obj ''triggered'', jget obj ''summary'' (JStr [])) of
             (Some b, JStr summary) \<Rightarrow>
               (case bool_field b of
                  Some t \<Rightarrow>
                    if length summary \<le> 600 then Some \<lparr>we_triggered = t, we_summary = summary\<rparr> else None
                | None \<Rightarrow> None)
           | _ \<Rightarrow> None)
      | _ \<Rightarrow> None)"

definition parse_watch :: "(string \<Rightarrow> json option) \<Rightarrow> string \<Rightarrow> watch_evaluation option" where
  "parse_watch read text0 =
     (case watch_marker text0 of
        None \<Rightarrow> None
      | Some p \<Rightarrow> (case read p of None \<Rightarrow> None | Some v \<Rightarrow> watch_decision v))"

section \<open>The evaluator\<close>

record tool_entry =
  te_id :: string
  te_operation :: string
  te_side_effect :: bool

record watch_setup =
  vs_target_kind :: "string \<Rightarrow> string option"
  vs_config_error :: "string \<Rightarrow> string option"
  vs_credential :: "string \<Rightarrow> string \<Rightarrow> bool"
  vs_enabled_tools :: "string \<Rightarrow> string list"
  vs_catalog :: "tool_entry list"
  vs_read :: "string \<Rightarrow> json option"

definition read_only_tools :: "tool_entry list \<Rightarrow> string list \<Rightarrow> string list" where
  "read_only_tools catalog enabled =
     filter (\<lambda>k. case find (\<lambda>t. te_id t = k) (rev catalog) of
                   None \<Rightarrow> False
                 | Some t \<Rightarrow> te_operation t = ''read'' \<and> \<not> te_side_effect t \<and> take 6 k \<noteq> ''watch.'') enabled"

definition demo_card_ids :: "string list" where
  "demo_card_ids = [''card-stable-ann'', ''card-fragile-ann'']"

text \<open>Why a watch cannot be evaluated now.\<close>

definition active_watch_deployment :: "condition_watch \<Rightarrow> 'a watch_db_scheme \<Rightarrow> character_deployment option" where
  "active_watch_deployment w d =
     (case tget cd_id (deployments d) (wt_deployment_id w) of
        None \<Rightarrow> None
      | Some dep \<Rightarrow> if cd_owner_id dep = wt_owner_id w \<and> cd_status dep = ''active'' then Some dep else None)"

definition watch_card :: "condition_watch \<Rightarrow> 'a watch_db_scheme \<Rightarrow> character_card option" where
  "watch_card w d =
     (if wt_character_card_id w \<in> set demo_card_ids then None
      else
        (case tget cc_id (cards d) (wt_character_card_id w) of
           None \<Rightarrow> None
         | Some c \<Rightarrow> if cc_owner_id c \<noteq> wt_owner_id w then None else Some c))"

definition evaluation_refusal :: "watch_setup \<Rightarrow> condition_watch \<Rightarrow> 'a watch_db_scheme \<Rightarrow> string option" where
  "evaluation_refusal s w d =
     (case active_watch_deployment w d of
        None \<Rightarrow> Some ''Condition watch deployment is no longer active.''
      | Some dep \<Rightarrow>
          if cd_character_card_id dep \<noteq> wt_character_card_id w
          then Some ''Condition watch Character binding no longer matches deployment.''
          else
            (case watch_card w d of
               None \<Rightarrow> Some ''Condition watch Character Card is unavailable.''
             | Some c \<Rightarrow>
                 if vs_target_kind s (cc_target_id c) \<noteq> Some ''prompt_model''
                 then Some ''Condition watches require a prompt-model Character target.''
                 else if vs_config_error s (cc_target_id c) \<noteq> None then vs_config_error s (cc_target_id c)
                 else if \<not> vs_credential s (wt_owner_id w) (wt_character_card_id w)
                 then Some ''Condition watch Character provider credential is unavailable.''
                 else None))"

text \<open>What the model is asked: the condition, with the tools it may read with, or the repair of an
  answer without a control line.\<close>

datatype watch_prompt = EvaluateCondition prose "string list" | RepairControl

type_synonym 'd watch_model = "watch_prompt \<Rightarrow> 'd \<Rightarrow> time \<times> string call_end \<times> 'd"

definition invalid_control :: string where
  "invalid_control = ''Condition watch evaluator returned invalid control output.''"

definition trimmed_evaluation :: "watch_evaluation \<Rightarrow> watch_evaluation" where
  "trimmed_evaluation e = e\<lparr>we_summary := strip (we_summary e)\<rparr>"

definition repair_evaluation ::
  "watch_setup \<Rightarrow> 'd watch_model \<Rightarrow> 'd \<Rightarrow> time \<times> watch_evaluation call_end \<times> 'd" where
  "repair_evaluation s ask d =
     (case ask RepairControl d of
        (t, Answered reply, d') \<Rightarrow>
          (t, case parse_watch (vs_read s) reply of
                None \<Rightarrow> Raised invalid_control
              | Some e \<Rightarrow> Answered (trimmed_evaluation e), d')
      | (t, Raised err, d') \<Rightarrow> (t, Raised err, d')
      | (t, Stopped, d') \<Rightarrow> (t, Stopped, d'))"

definition evaluate_condition ::
  "watch_setup \<Rightarrow> time \<Rightarrow> ('a watch_db_scheme) watch_model \<Rightarrow> ('a watch_db_scheme) watch_evaluator" where
  "evaluate_condition s now ask w d =
     (case evaluation_refusal s w d of
        Some err \<Rightarrow> (now, Raised err, d)
      | None \<Rightarrow>
          (let tools = read_only_tools (vs_catalog s) (vs_enabled_tools s (wt_deployment_id w)) in
           case ask (EvaluateCondition (wt_condition w) tools) d of
             (t, Raised err, d') \<Rightarrow> (t, Raised err, d')
           | (t, Stopped, d') \<Rightarrow> (t, Stopped, d')
           | (t, Answered reply, d') \<Rightarrow>
               (case parse_watch (vs_read s) reply of
                  None \<Rightarrow> repair_evaluation s ask d'
                | Some e \<Rightarrow> (t, Answered (trimmed_evaluation e), d'))))"

section \<open>The notifier\<close>

definition watch_reminder :: "time \<Rightarrow> condition_watch \<Rightarrow> reminder_request" where
  "watch_reminder now w =
     \<lparr>rq_owner_id = wt_owner_id w, rq_deployment_id = wt_deployment_id w, rq_channel_id = wt_channel_id w,
      rq_thread_id = wt_thread_id w, rq_target_user_id = wt_target_user_id w, rq_text = wt_notification w,
      rq_scheduled_at = now\<rparr>"

definition notify_reminder ::
  "(error \<Rightarrow> string) \<Rightarrow> ('a watch_db_scheme \<Rightarrow> 'a watch_db_scheme) \<Rightarrow> time \<Rightarrow> string
    \<Rightarrow> ('a watch_db_scheme) watch_notifier" where
  "notify_reminder show others now uid w e d =
     (case active_watch_deployment w d of
        None \<Rightarrow> (now, Raised ''Condition watch deployment is no longer active.'', d)
      | Some dep \<Rightarrow>
          (case create_reminder now uid (watch_reminder now w) (others d) of
             (Inl err, d') \<Rightarrow> (now, Raised (show err), d')
           | (Inr r, d') \<Rightarrow> (now, Answered (), d')))"

end
