(* ===== verification/Watch_Safety.thy ===== *)
theory Watch_Safety
  imports Watch_Runtime
begin

text \<open>
  What the condition watches promise: the graph and the older path do the same to the database, a watch
  is checked a bounded number of times and never too soon, and a triggered watch has queued its reminder.
\<close>

section \<open>The graph against the older path\<close>

text \<open>The graph names a failure that has no text; apart from this the two paths are one function.\<close>

definition named :: "'x call_end \<Rightarrow> 'x call_end" where
  "named c = (case c of Raised e \<Rightarrow> Raised (if e = [] then unnamed_failure else e) | _ \<Rightarrow> c)"

lemma named_simps [simp]:
  "named (Answered a) = Answered a" "named Stopped = Stopped"
  "named (Raised e) = Raised (if e = [] then unnamed_failure else e)"
  by (simp_all add: named_def)

definition naming_evaluator :: "'d watch_evaluator \<Rightarrow> 'd watch_evaluator" where
  "naming_evaluator ev w d = (case ev w d of (t, c, d') \<Rightarrow> (t, named c, d'))"

definition naming_notifier :: "'d watch_notifier \<Rightarrow> 'd watch_notifier" where
  "naming_notifier nt w e d = (case nt w e d of (t, c, d') \<Rightarrow> (t, named c, d'))"

lemma emit_simps [simp]:
  "wr_now (watch_emit w n k st ks md e r) = wr_now r" "wr_db (watch_emit w n k st ks md e r) = wr_db r"
  "wr_state (watch_emit w n k st ks md e r) = wr_state r" "wr_error (watch_emit w n k st ks md e r) = wr_error r"
  "wr_evaluation (watch_emit w n k st ks md e r) = wr_evaluation r"
  "wr_stopped (watch_emit w n k st ks md e r) = wr_stopped r"
  by (simp_all add: watch_emit_def)

lemma set_state_simps [simp]:
  "wr_now (set_state f r) = wr_now r" "wr_db (set_state f r) = wr_db r" "wr_state (set_state f r) = f (wr_state r)"
  "wr_error (set_state f r) = wr_error r" "wr_evaluation (set_state f r) = wr_evaluation r"
  "wr_stopped (set_state f r) = wr_stopped r"
  by (simp_all add: set_state_def)

lemmas mark_node_defs = mark_node_def not_met_node_def triggered_node_def failure_node_def Let_def

lemma last_nodes:
  "run_nodes ev nt w NodeNotMet r = not_met_node w r"
  "run_nodes ev nt w NodeTriggered r = triggered_node w r"
  "run_nodes ev nt w NodeFailure r = failure_node w r"
  by (simp_all add: run_nodes.simps [of _ _ _ NodeNotMet] run_nodes.simps [of _ _ _ NodeTriggered]
      run_nodes.simps [of _ _ _ NodeFailure] run_node_def next_node_def Let_def)

lemma notify_path:
  assumes "wr_evaluation r = Some a" "\<not> wr_stopped r"
  shows "run_nodes ev nt w NodeNotify r =
    (case nt w a (wr_db r) of
       (t, Stopped, d) \<Rightarrow> notify_node nt w r
     | (t, Raised e, d) \<Rightarrow> failure_node w (notify_node nt w r)
     | (t, Answered _, d) \<Rightarrow> triggered_node w (notify_node nt w r))"
proof -
  obtain t c d where res: "nt w a (wr_db r) = (t, c, d)" by (cases "nt w a (wr_db r)")
  with assms show ?thesis
    by (subst run_nodes.simps)
      (cases c; simp add: run_node_def notify_node_def notify_failed_def notification_failed_def Let_def next_node_def
        route_after_notification_def last_nodes)
qed

lemma evaluate_path:
  assumes "\<not> wr_stopped r"
  shows "run_nodes ev nt w NodeEvaluate r =
    (case ev w (wr_db r) of
       (t, Stopped, d) \<Rightarrow> evaluate_node ev w r
     | (t, Raised e, d) \<Rightarrow> failure_node w (evaluate_node ev w r)
     | (t, Answered a, d) \<Rightarrow>
         if we_triggered a then run_nodes ev nt w NodeNotify (evaluate_node ev w r)
         else not_met_node w (evaluate_node ev w r))"
proof -
  obtain t c d where res: "ev w (wr_db r) = (t, c, d)" by (cases "ev w (wr_db r)")
  with assms show ?thesis
    by (subst run_nodes.simps)
      (cases c; simp add: run_node_def evaluate_node_def Let_def next_node_def route_after_evaluation_def last_nodes)
qed

text \<open>C27. The graph of a watch attempt is the older path. For every evaluator, notifier and behaviour of
  other sessions while these run, the graph leaves the database as the direct path does, except that a
  failure without a text gets one. A run that was not cancelled has decided the outcome, its last trace
  event completes the run, and its status is completed exactly if the attempt did not fail.\<close>

theorem graph_attempt_is_direct_attempt:
  "let r = run_watch_graph ev nt trace_id run_id now w d in
   wr_db r = process_watch (naming_evaluator ev) (naming_notifier nt) w d
   \<and> (wr_stopped r \<or> gs_outcome (wr_state r) \<noteq> OutcomePending
         \<and> final_completed_event (last (wr_events r))
         \<and> (gs_status (wr_state r) = GraphCompleted \<longleftrightarrow> gs_outcome (wr_state r) \<noteq> OutcomeFailed))"
proof -
  obtain t c d1 where res: "ev w d = (t, c, d1)" by (cases "ev w d")
  note graph = run_watch_graph_def graph_start_def evaluate_path evaluate_node_def mark_node_defs
    naming_evaluator_def watch_emit_def watch_event_def set_state_def final_completed_event_def final_nodes_def
  show ?thesis
  proof (cases c)
    case (Answered a)
    obtain t' c' d2 where res': "nt w a d1 = (t', c', d2)" by (cases "nt w a d1")
    with res Answered show ?thesis
      by (cases c')
        (simp_all add: graph notify_path notify_node_def notify_failed_def notification_failed_def process_watch_def
          naming_notifier_def)
  qed (use res in \<open>simp_all add: graph process_watch_def\<close>)
qed


section \<open>Runs of the repository\<close>

datatype watch_command =
    CreateWatch string watch_request
  | CancelWatch string string string
  | PollWatches int
  | AttemptNotMet string
  | AttemptTriggered string
  | AttemptFailed string string
  | PurgeWatches
  | MoveWatches string string
  | DropWatches string

fun do_watch :: "time \<times> watch_command \<Rightarrow> 'a watch_db_scheme \<Rightarrow> 'a watch_db_scheme" where
  "do_watch (now, CreateWatch uid q) d = snd (create_watch now uid q d)"
| "do_watch (now, CancelWatch owner deployment k) d = snd (cancel_watch now owner deployment k d)"
| "do_watch (now, PollWatches limit) d = snd (claim_watches now limit d)"
| "do_watch (now, AttemptNotMet k) d = mark_not_met now k d"
| "do_watch (now, AttemptTriggered k) d = mark_triggered now k d"
| "do_watch (now, AttemptFailed k err) d = mark_watch_failure now k err d"
| "do_watch (now, PurgeWatches) d = snd (purge_orphan_watches d)"
| "do_watch (now, MoveWatches source target) d = snd (claim_watch_owner now source target d)"
| "do_watch (now, DropWatches owner) d = snd (delete_watch_owner owner d)"

text \<open>The polls that hand a watch out, with their times.\<close>

definition polled :: "string \<Rightarrow> time \<times> watch_command \<Rightarrow> 'a watch_db_scheme \<Rightarrow> bool" where
  "polled k x d \<longleftrightarrow>
     (case x of (now, PollWatches limit) \<Rightarrow> k \<in> wt_id ` set (fst (claim_watches now limit d)) | _ \<Rightarrow> False)"

fun check_times :: "string \<Rightarrow> (time \<times> watch_command) list \<Rightarrow> 'a watch_db_scheme \<Rightarrow> time list" where
  "check_times k [] d = []"
| "check_times k (x # xs) d = (if polled k x d then [fst x] else []) @ check_times k xs (do_watch x d)"

fun spaced :: "time \<Rightarrow> time \<Rightarrow> time list \<Rightarrow> bool" where
  "spaced gap from' [] \<longleftrightarrow> True"
| "spaced gap from' (t # ts) \<longleftrightarrow> from' \<le> t \<and> spaced gap (t + gap) ts"

lemma flush_watch_simps [simp]:
  "(\<And>w. wt_id (f w) = wt_id w) \<Longrightarrow> wt_id (flush_watch now f w) = wt_id w"
  "wt_status (flush_watch now f w) = wt_status (f w)" "wt_attempts (flush_watch now f w) = wt_attempts (f w)"
  "wt_max_attempts (flush_watch now f w) = wt_max_attempts (f w)" "wt_interval (flush_watch now f w) = wt_interval (f w)"
  "wt_next_check_at (flush_watch now f w) = wt_next_check_at (f w)"
  "wt_expires_at (flush_watch now f w) = wt_expires_at (f w)"
  by (simp_all add: flush_watch_def)

lemma get_save_watches:
  assumes "\<And>w. wt_id (f w) = wt_id w"
  shows "get_watch (save_watches now P f d) k = map_option (\<lambda>w. if P w then flush_watch now f w else w) (get_watch d k)"
  by (simp add: save_watches_def tget_tset assms)

lemma keyed_save_watches:
  assumes "\<And>w. wt_id (f w) = wt_id w"
  shows "keyed wt_id (watches (save_watches now P f d)) = keyed wt_id (watches d)"
  by (simp add: save_watches_def keyed_tset assms)

lemma checked_simps [simp]:
  "wt_id (checked_watch now w) = wt_id w" "wt_status (checked_watch now w) = wt_status w"
  "wt_attempts (checked_watch now w) = wt_attempts w + 1" "wt_max_attempts (checked_watch now w) = wt_max_attempts w"
  "wt_interval (checked_watch now w) = wt_interval w" "wt_expires_at (checked_watch now w) = wt_expires_at w"
  "wt_next_check_at (checked_watch now w) = now + seconds (max 300 (wt_interval w))"
  by (simp_all add: checked_watch_def)

text \<open>What stays of a watch under every command: the limits; the attempts and the next check unless it
  is polled; and a final status.\<close>

definition watch_kept :: "condition_watch \<Rightarrow> condition_watch \<Rightarrow> bool" where
  "watch_kept w w' \<longleftrightarrow>
     wt_attempts w' = wt_attempts w \<and> wt_max_attempts w' = wt_max_attempts w \<and> wt_interval w' = wt_interval w
     \<and> wt_next_check_at w' = wt_next_check_at w \<and> wt_expires_at w' = wt_expires_at w
     \<and> (wt_status w \<noteq> WatchActive \<longrightarrow> wt_status w' = wt_status w)"

lemma watch_kept_refl [simp]: "watch_kept w w"
  by (simp add: watch_kept_def)

lemma watch_kept_trans: "watch_kept a b \<Longrightarrow> watch_kept b c \<Longrightarrow> watch_kept a c"
  by (simp add: watch_kept_def)

text \<open>A step keeps a table when each row that is left was there before, up to what is kept.\<close>

definition keeps_watches :: "'a watch_db_scheme \<Rightarrow> 'b watch_db_scheme \<Rightarrow> bool" where
  "keeps_watches d d' \<longleftrightarrow> (\<forall>k w'. get_watch d' k = Some w' \<longrightarrow> (\<exists>w. get_watch d k = Some w \<and> watch_kept w w'))"

lemma keeps_save:
  assumes "\<And>w. wt_id (f w) = wt_id w" "\<And>w. P w \<Longrightarrow> watch_kept w (flush_watch now f w)"
  shows "keeps_watches d (save_watches now P f d)"
  unfolding keeps_watches_def
proof (intro allI impI)
  fix k w'
  assume "get_watch (save_watches now P f d) k = Some w'"
  then obtain w where "get_watch d k = Some w" "w' = (if P w then flush_watch now f w else w)"
    by (auto simp: get_save_watches [OF assms(1)])
  with assms(2) show "\<exists>w. get_watch d k = Some w \<and> watch_kept w w'"
    by (cases "P w") auto
qed

lemma keeps_refl [simp]: "keeps_watches d d"
  by (simp add: keeps_watches_def)

lemma keeps_delete:
  assumes "keyed wt_id (watches d)"
  shows "keeps_watches d (d\<lparr>watches := tdel P (watches d)\<rparr>)"
  using assms by (auto simp: keeps_watches_def tget_tdel split: option.splits if_splits)

lemma end_attempt_kept:
  assumes "\<And>w. wt_id (f w) = wt_id w" "\<And>w. wt_status w = WatchActive \<Longrightarrow> watch_kept w (f w)"
  shows "keeps_watches d (end_attempt now k f d)"
  unfolding end_attempt_def using assms
  by (intro keeps_save) (auto simp: watch_kept_def)

lemma ends_keep:
  "keeps_watches d (mark_not_met now k d)" "keeps_watches d (mark_triggered now k d)"
  "keeps_watches d (mark_watch_failure now k err d)"
  unfolding mark_not_met_def mark_triggered_def mark_watch_failure_def
  by (rule end_attempt_kept; simp add: watch_kept_def Let_def)+

lemma keeps_cancel: "keeps_watches d (snd (cancel_watch now owner deployment k d))"
proof (cases "get_watch d k")
  case (Some w)
  show ?thesis
  proof (cases "wt_owner_id w \<noteq> owner \<or> wt_deployment_id w \<noteq> deployment \<or> wt_status w \<noteq> WatchActive")
    case False
    have "keeps_watches d (save_watches now (\<lambda>w. wt_id w = k) (\<lambda>w. w\<lparr>wt_status := WatchCancelled\<rparr>) d)"
      unfolding keeps_watches_def
    proof (intro allI impI)
      fix j w'
      assume "get_watch (save_watches now (\<lambda>w. wt_id w = k) (\<lambda>w. w\<lparr>wt_status := WatchCancelled\<rparr>) d) j = Some w'"
      then obtain v where v: "get_watch d j = Some v"
          "w' = (if wt_id v = k then flush_watch now (\<lambda>w. w\<lparr>wt_status := WatchCancelled\<rparr>) v else v)"
        by (auto simp: get_save_watches)
      have "watch_kept v w'"
      proof (cases "wt_id v = k")
        case True
        then have "v = w" using tget_key [OF v(1)] v(1) Some by simp
        with v(2) True False show ?thesis by (simp add: watch_kept_def)
      qed (use v(2) in simp)
      with v(1) show "\<exists>w. get_watch d j = Some w \<and> watch_kept w w'" by blast
    qed
    with Some False show ?thesis by (simp add: cancel_watch_def Let_def)
  qed (use Some in \<open>auto simp: cancel_watch_def\<close>)
qed (simp add: cancel_watch_def)

lemma keeps_move: "keeps_watches d (snd (claim_watch_owner now source target d))"
  by (auto simp: keeps_watches_def claim_watch_owner_def tget_tset watch_kept_def)

lemma keeps_expire: "keeps_watches d (expire_watches now d)"
  unfolding expire_watches_def by (rule keeps_save) (simp_all add: watch_kept_def overdue_watch_def)

text \<open>A poll: it hands out the due watches, counts each and moves its next check.\<close>

lemma due_watches_mem: "w \<in> set (due_watches now limit d) \<Longrightarrow> w \<in> set (watches d) \<and> due_watch now w"
  unfolding due_watches_def tlimit_def by (auto dest: in_set_takeD)

lemma polled_ids: "polled k (now, PollWatches limit) d \<longleftrightarrow> k \<in> wt_id ` set (due_watches now limit (expire_watches now d))"
  by (simp add: polled_def claim_watches_def Let_def image_image)

lemma poll_watch:
  assumes "keyed wt_id (watches d)" "get_watch (do_watch (now, PollWatches limit) d) k = Some w'"
  obtains w where "get_watch d k = Some w" "\<not> polled k (now, PollWatches limit) d" "watch_kept w w'"
  | w where "get_watch d k = Some w" "polled k (now, PollWatches limit) d" "wt_status w = WatchActive"
      "wt_next_check_at w \<le> now" "now < wt_expires_at w" "wt_attempts w < wt_max_attempts w"
      "watch_kept (w\<lparr>wt_attempts := wt_attempts w + 1, wt_next_check_at := now + seconds (max 300 (wt_interval w))\<rparr>) w'"
proof -
  define e where "e = expire_watches now d"
  have "get_watch (save_watches now (\<lambda>w. wt_id w \<in> set (map wt_id (due_watches now limit e))) (checked_watch now) e) k = Some w'"
    using assms(2) by (simp add: claim_watches_def Let_def e_def)
  then obtain v where v: "get_watch e k = Some v"
      "w' = (if wt_id v \<in> wt_id ` set (due_watches now limit e) then flush_watch now (checked_watch now) v else v)"
    by (auto simp: get_save_watches)
  obtain w where w: "get_watch d k = Some w" "watch_kept w v"
    using keeps_expire [of d now] v(1) by (auto simp: keeps_watches_def e_def)
  have id: "wt_id v = k" using v(1) by (rule tget_key)
  show thesis
  proof (cases "k \<in> wt_id ` set (due_watches now limit e)")
    case True
    then obtain u where u: "u \<in> set (due_watches now limit e)" "wt_id u = k" by auto
    have "keyed wt_id (watches e)"
      unfolding e_def expire_watches_def using assms(1) by (simp add: keyed_save_watches)
    then have "u = v"
      using due_watches_mem [OF u(1)] u(2) v(1) by (auto simp: tget_iff dest: keyed_eq)
    then have due: "due_watch now v" using due_watches_mem [OF u(1)] by simp
    have "wt_status w = WatchActive"
      using due w(2) by (auto simp: due_watch_def watch_kept_def)
    with due w v(2) True id that(2) show thesis
      by (auto simp: polled_ids e_def [symmetric] due_watch_def watch_kept_def)
  next
    case False
    with v(2) w id that(1) show thesis by (auto simp: polled_ids e_def [symmetric])
  qed
qed


text \<open>Every other command hands nothing out; creation of other watches and everything else keep a row.\<close>

definition creates_watch :: "string \<Rightarrow> time \<times> watch_command \<Rightarrow> bool" where
  "creates_watch k x \<longleftrightarrow> (case snd x of CreateWatch uid q \<Rightarrow> uid = k | _ \<Rightarrow> False)"

lemma create_watch_get:
  assumes "k \<noteq> uid"
  shows "get_watch (snd (create_watch now uid q d)) k = get_watch d k"
  using assms by (auto simp: create_watch_def Let_def tget_tins new_watch_def split: option.split)

lemma keyed_run_watch:
  assumes "keyed wt_id (watches d)"
  shows "keyed wt_id (watches (do_watch x d))"
proof -
  obtain now c where x: "x = (now, c)" by (cases x)
  have ends: "keyed wt_id (watches (mark_not_met now k d))" "keyed wt_id (watches (mark_triggered now k d))"
    "keyed wt_id (watches (mark_watch_failure now k err d))" for k err
    unfolding mark_not_met_def mark_triggered_def mark_watch_failure_def end_attempt_def
    by (subst keyed_save_watches; simp add: assms Let_def)+
  show ?thesis
  proof (cases c)
    case (CancelWatch owner deployment k)
    then show ?thesis using assms by (simp add: x cancel_watch_def Let_def keyed_save_watches split: option.split)
  next
    case (PollWatches limit)
    then show ?thesis
      using assms by (simp add: x claim_watches_def Let_def expire_watches_def keyed_save_watches)
  qed (use assms ends in \<open>auto simp: x create_watch_def new_watch_def Let_def keyed_tins purge_orphan_watches_def
      claim_watch_owner_def delete_watch_owner_def keyed_tset keyed_tdel split: option.split\<close>)
qed

lemma run_watch_kept:
  assumes "keyed wt_id (watches d)" "\<not> creates_watch k (now, c)" "\<And>limit. c \<noteq> PollWatches limit"
    and "get_watch (do_watch (now, c) d) k = Some w'"
  shows "\<not> polled k (now, c) d \<and> (\<exists>w. get_watch d k = Some w \<and> watch_kept w w')"
proof (cases c)
  case (CreateWatch uid q)
  with assms(2,4) show ?thesis by (auto simp: polled_def creates_watch_def create_watch_get)
next
  case (PollWatches limit)
  with assms(3) [of limit] show ?thesis by simp
qed (use assms(1,4) keeps_cancel keeps_move ends_keep keeps_delete in
    \<open>fastforce simp: polled_def keeps_watches_def purge_orphan_watches_def delete_watch_owner_def Let_def\<close>)+

text \<open>A watch that is gone, or no longer active, is not handed out any more.\<close>

lemma polled_row:
  assumes "keyed wt_id (watches d)" "polled k x d"
  shows "\<exists>w. get_watch d k = Some w \<and> wt_status w = WatchActive \<and> wt_next_check_at w \<le> fst x
    \<and> fst x < wt_expires_at w \<and> wt_attempts w < wt_max_attempts w"
proof -
  obtain now limit where x: "x = (now, PollWatches limit)"
    using assms(2) by (auto simp: polled_def split: prod.splits watch_command.splits)
  obtain u where u: "u \<in> set (due_watches now limit (expire_watches now d))" "wt_id u = k"
    using assms(2) by (auto simp: x polled_ids)
  have "keyed wt_id (watches (expire_watches now d))"
    unfolding expire_watches_def using assms(1) by (simp add: keyed_save_watches)
  then have "get_watch (expire_watches now d) k = Some u"
    using due_watches_mem [OF u(1)] u(2) by (simp add: tget_iff)
  then obtain w where "get_watch d k = Some w" "watch_kept w u"
    using keeps_expire [of d now] by (auto simp: keeps_watches_def)
  with due_watches_mem [OF u(1)] x show ?thesis
    by (intro exI [of _ w]) (auto simp: watch_kept_def due_watch_def)
qed

text \<open>The checks of a watch from one state on: how many are left, and from when on the next may be.\<close>

definition checks_left :: "condition_watch option \<Rightarrow> nat" where
  "checks_left w = (case w of None \<Rightarrow> 0 | Some w \<Rightarrow> nat (wt_max_attempts w - wt_attempts w))"

lemma check_step:
  assumes "keyed wt_id (watches d)" "\<not> creates_watch k x" "get_watch (do_watch x d) k = Some w'"
  obtains w where "get_watch d k = Some w" "\<not> polled k x d" "watch_kept w w'"
  | w where "get_watch d k = Some w" "polled k x d" "wt_next_check_at w \<le> fst x" "fst x < wt_expires_at w"
      "wt_attempts w < wt_max_attempts w"
      "watch_kept (w\<lparr>wt_attempts := wt_attempts w + 1, wt_next_check_at := fst x + seconds (max 300 (wt_interval w))\<rparr>) w'"
proof -
  obtain now c where x: "x = (now, c)" by (cases x)
  show thesis
  proof (cases "\<exists>limit. c = PollWatches limit")
    case True
    then obtain limit where c: "c = PollWatches limit" by blast
    from poll_watch [OF assms(1) assms(3) [unfolded x c]] show thesis
      using that x c by (metis fst_conv)
  next
    case False
    with run_watch_kept [OF assms(1)] assms(2,3) x that(1) show thesis by blast
  qed
qed

lemma checks_none:
  assumes "keyed wt_id (watches d)" "get_watch d k = None" "\<forall>x \<in> set xs. \<not> creates_watch k x"
  shows "check_times k xs d = []"
  using assms
proof (induction xs arbitrary: d)
  case (Cons x xs)
  have "get_watch (do_watch x d) k = None"
  proof (rule ccontr)
    assume "get_watch (do_watch x d) k \<noteq> None"
    then obtain w' where "get_watch (do_watch x d) k = Some w'" by auto
    from check_step [OF Cons.prems(1) _ this] Cons.prems(2,3) show False by auto
  qed
  moreover have "\<not> polled k x d"
    using polled_row [OF Cons.prems(1), of k x] Cons.prems(2) by auto
  ultimately show ?case
    using Cons by (simp add: keyed_run_watch)
qed simp

lemma checks_bounded:
  assumes "keyed wt_id (watches d)" "get_watch d k = Some w" "\<forall>x \<in> set xs. \<not> creates_watch k x"
  shows "length (check_times k xs d) \<le> nat (wt_max_attempts w - wt_attempts w)
    \<and> spaced (seconds (max 300 (wt_interval w))) (wt_next_check_at w) (check_times k xs d)
    \<and> (\<forall>t \<in> set (check_times k xs d). t < wt_expires_at w)"
  using assms
proof (induction xs arbitrary: d w)
  case (Cons x xs)
  have keyed: "keyed wt_id (watches (do_watch x d))"
    by (rule keyed_run_watch) (rule Cons.prems(1))
  have rest: "\<forall>x \<in> set xs. \<not> creates_watch k x" and x: "\<not> creates_watch k x"
    using Cons.prems(3) by simp_all
  show ?case
  proof (cases "get_watch (do_watch x d) k")
    case None
    from checks_none [OF keyed this rest] polled_row [OF Cons.prems(1), of k x] Cons.prems(2) show ?thesis by auto
  next
    case (Some w')
    from Cons.IH [OF keyed Some rest]
    have IH: "length (check_times k xs (do_watch x d)) \<le> nat (wt_max_attempts w' - wt_attempts w')"
      "spaced (seconds (max 300 (wt_interval w'))) (wt_next_check_at w') (check_times k xs (do_watch x d))"
      "\<forall>t \<in> set (check_times k xs (do_watch x d)). t < wt_expires_at w'" by simp_all
    from Cons.prems(1) x Some show ?thesis
    proof (cases rule: check_step)
      case (1 v)
      with Cons.prems(2) IH show ?thesis by (simp add: watch_kept_def)
    next
      case (2 v)
      with Cons.prems(2) have "v = w" by simp
      with 2 IH show ?thesis by (auto simp: watch_kept_def)
    qed
  qed
qed simp

text \<open>C28. Checks of a watch are bounded and spaced. In any run of commands a watch is handed out for a check
  at most as often as its attempts allow, always before it expires, never before its next check is due,
  and after each check only when its interval, at least five minutes, has passed.\<close>

theorem watch_checks_bounded:
  assumes "keyed wt_id (watches d)" "get_watch d k = Some w"
    and "\<forall>x \<in> set calls. case snd x of CreateWatch uid q \<Rightarrow> uid \<noteq> k | _ \<Rightarrow> True"
  shows "int (length (check_times k calls d)) \<le> max 0 (wt_max_attempts w - wt_attempts w)
    \<and> spaced (seconds (max 300 (wt_interval w))) (wt_next_check_at w) (check_times k calls d)
    \<and> (\<forall>t \<in> set (check_times k calls d). t < wt_expires_at w)"
proof -
  have "\<forall>x \<in> set calls. \<not> creates_watch k x"
    using assms(3) by (auto simp: creates_watch_def split: watch_command.splits)
  from checks_bounded [OF assms(1,2) this] show ?thesis by auto
qed


section \<open>The reminder of a triggered watch\<close>

lemma final_watch_unpolled:
  assumes "keyed wt_id (watches d)" "get_watch d k = Some w" "wt_status w \<noteq> WatchActive"
    and "\<forall>x \<in> set xs. \<not> creates_watch k x"
  shows "check_times k xs d = []"
  using assms
proof (induction xs arbitrary: d w)
  case (Cons x xs)
  have keyed: "keyed wt_id (watches (do_watch x d))"
    by (rule keyed_run_watch) (rule Cons.prems(1))
  have rest: "\<forall>x \<in> set xs. \<not> creates_watch k x" and x: "\<not> creates_watch k x"
    using Cons.prems(4) by simp_all
  have quiet: "\<not> polled k x d"
    using polled_row [OF Cons.prems(1), of k x] Cons.prems(2,3) by auto
  show ?case
  proof (cases "get_watch (do_watch x d) k")
    case None
    from checks_none [OF keyed this rest] quiet show ?thesis by simp
  next
    case (Some w')
    from Cons.prems(1) x Some have "watch_kept w w'"
      by (cases rule: check_step) (use Cons.prems(2) quiet in auto)
    then have "wt_status w' \<noteq> WatchActive"
      using Cons.prems(3) by (simp add: watch_kept_def)
    from Cons.IH [OF keyed Some this rest] quiet show ?thesis by simp
  qed
qed simp

lemma reminders_mark [simp]:
  "reminders (mark_triggered t k d) = reminders d" "reminders (mark_watch_failure t k e d) = reminders d"
  "reminders (mark_not_met t k d) = reminders d"
  by (simp_all add: mark_triggered_def mark_watch_failure_def mark_not_met_def end_attempt_def save_watches_def)

lemma triggered_graph:
  assumes "ev w d = (t, Answered e, d1)" "we_triggered e" "active_watch_deployment w d1 = Some dep"
    and "get_reminder d1 uid = None"
    and "r = run_watch_graph ev (notify_reminder describe id later uid) trace_id run_id now w d"
  shows "gs_outcome (wr_state r) = OutcomeTriggered"
    and "wr_db r = mark_triggered later (wt_id w)
      (d1\<lparr>reminders := tins (new_reminder later uid dep (watch_reminder later w)) (reminders d1)\<rparr>)"
proof -
  have "tget cd_id (deployments d1) (rq_deployment_id (watch_reminder later w)) = Some dep"
    "cd_owner_id dep = rq_owner_id (watch_reminder later w)"
    using assms(3) by (auto simp: active_watch_deployment_def watch_reminder_def split: option.splits if_splits)
  then have "notify_reminder describe id later uid w e d1 = (later, Answered (),
      d1\<lparr>reminders := tins (new_reminder later uid dep (watch_reminder later w)) (reminders d1)\<rparr>)"
    using assms(3,4) by (simp add: notify_reminder_def create_reminder_def Let_def)
  with assms(1,2) show "gs_outcome (wr_state r) = OutcomeTriggered"
    and "wr_db r = mark_triggered later (wt_id w)
      (d1\<lparr>reminders := tins (new_reminder later uid dep (watch_reminder later w)) (reminders d1)\<rparr>)"
    by (simp_all add: assms(5) run_watch_graph_def graph_start_def evaluate_path notify_path evaluate_node_def
        notify_node_def mark_node_defs watch_emit_def set_state_def)
qed

lemma get_mark_triggered:
  "get_watch (mark_triggered t k d) k =
    map_option (\<lambda>w. if wt_status w = WatchActive
       then flush_watch t (\<lambda>w. w\<lparr>wt_status := WatchTriggered, wt_triggered_at := Some t, wt_last_error := []\<rparr>) w else w)
      (get_watch d k)"
  by (cases "get_watch d k") (auto simp: mark_triggered_def end_attempt_def get_save_watches dest: tget_key)

text \<open>C29. A condition that is met becomes one reminder. When the evaluation of a watch answers that its
  condition holds, and its deployment is still active then, the graph adds exactly one reminder, pending and
  due at once, with the place, the addressee and the text of the watch; the watch, if it is active, is
  triggered, and no later run of commands hands it out again.\<close>

theorem triggered_watch_queues_its_reminder:
  assumes "ev w d = (t, Answered e, d1)" "we_triggered e" "active_watch_deployment w d1 = Some dep"
    and "get_reminder d1 uid = None" "keyed wt_id (watches d1)" "get_watch d1 (wt_id w) = Some v"
    and "\<forall>x \<in> set calls. case snd x of CreateWatch k q \<Rightarrow> k \<noteq> wt_id w | _ \<Rightarrow> True"
    and "r = run_watch_graph ev (notify_reminder describe id later uid) trace_id run_id now w d"
  shows "gs_outcome (wr_state r) = OutcomeTriggered
    \<and> (\<exists>m. reminders (wr_db r) = reminders d1 @ [m] \<and> rd_id m = uid \<and> reminder_due later m
        \<and> rd_owner_id m = wt_owner_id w \<and> rd_deployment_id m = wt_deployment_id w \<and> rd_channel_id m = wt_channel_id w
        \<and> rd_thread_id m = wt_thread_id w \<and> rd_target_user_id m = wt_target_user_id w \<and> rd_text m = wt_notification w)
    \<and> (wt_status v = WatchActive \<longrightarrow> map_option wt_status (get_watch (wr_db r) (wt_id w)) = Some WatchTriggered)
    \<and> check_times (wt_id w) calls (wr_db r) = []"
proof -
  note graph = triggered_graph [OF assms(1-4) assms(8)]
  have quiet: "\<forall>x \<in> set calls. \<not> creates_watch (wt_id w) x"
    using assms(7) by (auto simp: creates_watch_def split: watch_command.splits)
  have keyed: "keyed wt_id (watches (wr_db r))"
    using assms(5) by (simp add: graph(2) mark_triggered_def end_attempt_def keyed_save_watches)
  obtain u where u: "get_watch (wr_db r) (wt_id w) = Some u" "wt_status u \<noteq> WatchActive"
    "wt_status v = WatchActive \<longrightarrow> wt_status u = WatchTriggered"
    using assms(6) by (auto simp: graph(2) get_mark_triggered)
  from final_watch_unpolled [OF keyed u(1,2) quiet] u(1,3) graph(1) show ?thesis
    by (simp add: graph(2) tins_def new_reminder_def watch_reminder_def reminder_due_def)
qed

text \<open>The attempt does not look at the watch again: cancelled while its condition is evaluated, it still
  reminds.\<close>

lemma cancelled_watch_still_reminds:
  assumes "ev w d = (t, Answered e, d1)" "we_triggered e" "active_watch_deployment w d1 = Some dep"
    and "get_reminder d1 uid = None" "get_watch d1 (wt_id w) = Some v" "wt_status v = WatchCancelled"
    and "r = run_watch_graph ev (notify_reminder describe id later uid) trace_id run_id now w d"
  shows "get_watch (wr_db r) (wt_id w) = Some v"
    and "reminders (wr_db r) = reminders d1 @ [new_reminder later uid dep (watch_reminder later w)]"
  using assms(5,6)
  unfolding triggered_graph(2) [OF assms(1-4) assms(7)] by (simp_all add: get_mark_triggered tins_def)

section \<open>A concrete watch\<close>

definition example_watch :: condition_watch where
  "example_watch =
     \<lparr>wt_id = ''w'', wt_owner_id = ''ann'', wt_deployment_id = ''d'', wt_character_card_id = ''card'',
      wt_channel_id = ''ch'', wt_thread_id = [], wt_target_user_id = ''bob'', wt_condition = points ''rain'',
      wt_notification = points ''Take a coat'', wt_status = WatchActive, wt_interval = 60, wt_attempts = 1,
      wt_max_attempts = 3, wt_next_check_at = 0, wt_expires_at = hours 1, wt_triggered_at = None,
      wt_last_checked_at = None, wt_last_error = [], wt_created_at = 0, wt_updated_at = 0\<rparr>"

definition example_watches :: watch_db where
  "example_watches =
     \<lparr>reminders = [], deployments = [demo_deployment ''d'' ''ann''], cards = [demo_card ''card'' ''ann''],
      watches = [example_watch]\<rparr>"

definition example_polls :: "(time \<times> watch_command) list" where
  "example_polls = [(seconds 10, PollWatches 20), (seconds 20, PollWatches 20), (seconds 400, PollWatches 20),
     (seconds 800, PollWatches 20), (hours 2, PollWatches 20)]"

lemma example_checks: "check_times ''w'' example_polls example_watches = [seconds 10, seconds 400]"
  by code_simp

theorem watch_checks_bounded_witness:
  "spaced (seconds 300) 0 [seconds 10, seconds 400] \<and> seconds 400 < hours 1 \<and> length [seconds 10, seconds 400] \<le> 2"
proof -
  have w: "get_watch example_watches ''w'' = Some example_watch" "keyed wt_id (watches example_watches)"
    by (simp_all add: example_watches_def example_watch_def keyed_def)
  have "\<forall>x \<in> set example_polls. case snd x of CreateWatch uid q \<Rightarrow> uid \<noteq> ''w'' | _ \<Rightarrow> True"
    by (simp add: example_polls_def)
  from watch_checks_bounded [OF w(2,1) this] show ?thesis
    by (simp add: example_checks) (simp add: example_watch_def)
qed

definition example_model :: "watch_db watch_model" where
  "example_model prompt d =
     (case prompt of
        EvaluateCondition _ _ \<Rightarrow> (5, Answered ''It rains.'', d)
      | RepairControl \<Rightarrow> (6, Answered ''[[CR_WATCH {rain}]]'', d))"

definition example_setup :: watch_setup where
  "example_setup =
     \<lparr>vs_target_kind = (\<lambda>_. Some ''prompt_model''), vs_config_error = (\<lambda>_. None), vs_credential = (\<lambda>_ _. True),
      vs_enabled_tools = (\<lambda>_. []), vs_catalog = [],
      vs_read = (\<lambda>p. if p = ''{rain}'' then Some (JObj [(''triggered'', JStr ''Yes''), (''summary'', JStr '' wet '')]) else None)\<rparr>"

lemma example_evaluation:
  "evaluate_condition example_setup 1 example_model example_watch example_watches
    = (6, Answered \<lparr>we_triggered = True, we_summary = ''wet''\<rparr>, example_watches)"
  by code_simp

theorem triggered_watch_queues_its_reminder_witness:
  "let r = run_watch_graph (evaluate_condition example_setup 1 example_model) (notify_reminder (\<lambda>_. []) id 7 ''m'')
       ''t'' ''g'' 1 example_watch example_watches in
   gs_outcome (wr_state r) = OutcomeTriggered \<and> length (reminders (wr_db r)) = 1
   \<and> check_times ''w'' example_polls (wr_db r) = []"
proof -
  have w: "active_watch_deployment example_watch example_watches = Some (demo_deployment ''d'' ''ann'')"
    "get_reminder example_watches ''m'' = None" "keyed wt_id (watches example_watches)"
    "get_watch example_watches (wt_id example_watch) = Some example_watch" "wt_id example_watch = ''w''"
    "reminders example_watches = []"
    by (simp_all add: active_watch_deployment_def example_watches_def example_watch_def demo_deployment_def keyed_def)
  have "\<forall>x \<in> set example_polls. case snd x of CreateWatch k q \<Rightarrow> k \<noteq> wt_id example_watch | _ \<Rightarrow> True"
    by (simp add: example_polls_def)
  from triggered_watch_queues_its_reminder [where ev = "evaluate_condition example_setup 1 example_model"
      and w = example_watch and d = example_watches and describe = "\<lambda>_. []" and later = 7 and uid = "''m''"
      and trace_id = "''t''" and run_id = "''g''" and now = 1, OF example_evaluation _ w(1-4) this refl]
  show ?thesis by (auto simp: Let_def w(5,6))
qed

end
