(* ===== verification/Server_Access.thy ===== *)
theory Server_Access
  imports Room_Store Deployments Accounts
begin

text \<open>
  Which accounts may use a shared Discord server: the tables of \<open>persistence/server_access_models.py\<close> and
  \<open>ServerAccessRepository\<close> (\<open>persistence/server_access_repository.py\<close>). The join codes that are drawn, the
  identifiers and \<open>upper\<close> of Python and of the database are arguments. Inserts and their recovery from a
  broken constraint run without other sessions between them.
\<close>

section \<open>Rows\<close>

record join_config =
  jc_id :: string
  jc_connection_id :: string
  jc_guild_id :: string
  jc_join_code :: string
  jc_enabled :: bool
  jc_created_at :: time
  jc_updated_at :: time

record server_access =
  sx_id :: string
  sx_user_id :: string
  sx_connection_id :: string
  sx_guild_id :: string
  sx_source :: string
  sx_created_at :: time

record access_db = room_db +
  ax_users :: "user_row list"
  ax_connections :: "platform_connection list"
  ax_catalogs :: "server_catalog list"
  ax_profiles :: "server_profile list"
  ax_joins :: "join_config list"
  ax_access :: "server_access list"

interpretation join_table: db_table ax_joins ax_joins_update jc_id
  by unfold_locales simp

interpretation access_table: db_table ax_access ax_access_update sx_id
  by unfold_locales simp

section \<open>Join codes\<close>

definition join_key :: "join_config \<Rightarrow> string \<times> string" where
  "join_key r = (jc_connection_id r, jc_guild_id r)"

definition find_join :: "string \<Rightarrow> string \<Rightarrow> 'a access_db_scheme \<Rightarrow> join_config option" where
  "find_join connection guild d = find (\<lambda>r. join_key r = (connection, guild)) (ax_joins d)"

definition new_join :: "time \<Rightarrow> string \<times> string \<Rightarrow> string \<Rightarrow> string \<Rightarrow> join_config" where
  "new_join now drawn connection guild =
     \<lparr>jc_id = fst drawn, jc_connection_id = connection, jc_guild_id = guild, jc_join_code = snd drawn,
      jc_enabled = True, jc_created_at = now, jc_updated_at = now\<rparr>"

definition join_conflict :: "join_config \<Rightarrow> join_config list \<Rightarrow> bool" where
  "join_conflict r t \<longleftrightarrow>
     jc_id r \<in> set (map jc_id t) \<or> join_key r \<in> set (map join_key t) \<or> jc_join_code r \<in> set (map jc_join_code t)"

definition no_join_code :: error where
  "no_join_code = RuntimeError ''Could not allocate a unique Discord server join code.''"

text \<open>At most twelve draws of an identifier and a code.\<close>

fun insert_join ::
  "time \<Rightarrow> (string \<times> string) list \<Rightarrow> string \<Rightarrow> string \<Rightarrow> 'a access_db_scheme
    \<Rightarrow> (join_config, 'a access_db_scheme) outcome" where
  "insert_join now [] connection guild d = (Inl no_join_code, d)"
| "insert_join now (x # xs) connection guild d =
     (let r = new_join now x connection guild in
      if \<not> join_conflict r (ax_joins d) then (Inr r, d\<lparr>ax_joins := tins r (ax_joins d)\<rparr>)
      else
        (case find_join connection guild d of
           Some e \<Rightarrow> (Inr e, d)
         | None \<Rightarrow> insert_join now xs connection guild d))"

definition ensure_join_config ::
  "time \<Rightarrow> (nat \<Rightarrow> string \<times> string) \<Rightarrow> string \<Rightarrow> string \<Rightarrow> 'a access_db_scheme
    \<Rightarrow> (join_config, 'a access_db_scheme) outcome" where
  "ensure_join_config now draw connection guild d =
     (case find_join connection guild d of
        Some r \<Rightarrow> (Inr r, d)
      | None \<Rightarrow> insert_join now (map draw [0..<12]) connection guild d)"

definition join_config_by_code ::
  "(string \<Rightarrow> string) \<Rightarrow> (string \<Rightarrow> string) \<Rightarrow> string \<Rightarrow> 'a access_db_scheme \<Rightarrow> join_config option" where
  "join_config_by_code upper sql_upper code d =
     (let wanted = upper (strip code) in
      if wanted = [] then None else find (\<lambda>r. sql_upper (jc_join_code r) = wanted) (ax_joins d))"

definition changed_join :: "time \<Rightarrow> (join_config \<Rightarrow> join_config) \<Rightarrow> join_config \<Rightarrow> join_config" where
  "changed_join now f r = (if f r = r then r else (f r)\<lparr>jc_updated_at := now\<rparr>)"

definition set_join_enabled ::
  "time \<Rightarrow> string \<Rightarrow> string \<Rightarrow> bool \<Rightarrow> 'a access_db_scheme \<Rightarrow> join_config option \<times> 'a access_db_scheme" where
  "set_join_enabled now connection guild enabled d =
     (case find_join connection guild d of
        None \<Rightarrow> (None, d)
      | Some r \<Rightarrow>
          (let f = changed_join now (\<lambda>r. r\<lparr>jc_enabled := enabled\<rparr>) in
           (Some (f r), d\<lparr>ax_joins := tset (\<lambda>x. jc_id x = jc_id r) f (ax_joins d)\<rparr>)))"

fun replace_code ::
  "time \<Rightarrow> string list \<Rightarrow> join_config \<Rightarrow> 'a access_db_scheme \<Rightarrow> (join_config option, 'a access_db_scheme) outcome" where
  "replace_code now [] r d = (Inl no_join_code, d)"
| "replace_code now (c # cs) r d =
     (if c \<in> jc_join_code ` {x \<in> set (ax_joins d). jc_id x \<noteq> jc_id r} then replace_code now cs r d
      else
        (let f = changed_join now (\<lambda>r. r\<lparr>jc_join_code := c\<rparr>) in
         (Inr (Some (f r)), d\<lparr>ax_joins := tset (\<lambda>x. jc_id x = jc_id r) f (ax_joins d)\<rparr>)))"

definition regenerate_join_code ::
  "time \<Rightarrow> (nat \<Rightarrow> string) \<Rightarrow> string \<Rightarrow> string \<Rightarrow> 'a access_db_scheme
    \<Rightarrow> (join_config option, 'a access_db_scheme) outcome" where
  "regenerate_join_code now draw connection guild d =
     (case find_join connection guild d of
        None \<Rightarrow> (Inr None, d)
      | Some r \<Rightarrow> replace_code now (map draw [0..<12]) r d)"

section \<open>Access\<close>

definition catalog_server :: "string \<Rightarrow> string \<Rightarrow> string \<Rightarrow> 'a access_db_scheme \<Rightarrow> server_catalog option" where
  "catalog_server owner connection guild d =
     find (\<lambda>c. vc_owner_id c = owner \<and> vc_connection_id c = connection \<and> vc_guild_id c = guild) (ax_catalogs d)"

definition access_key :: "server_access \<Rightarrow> string \<times> string \<times> string" where
  "access_key r = (sx_user_id r, sx_connection_id r, sx_guild_id r)"

definition find_access :: "string \<Rightarrow> string \<Rightarrow> string \<Rightarrow> 'a access_db_scheme \<Rightarrow> server_access option" where
  "find_access user connection guild d = find (\<lambda>r. access_key r = (user, connection, guild)) (ax_access d)"

definition grant_access ::
  "time \<Rightarrow> string \<Rightarrow> string \<Rightarrow> string \<Rightarrow> string \<Rightarrow> string \<Rightarrow> 'a access_db_scheme
    \<Rightarrow> (server_access, 'a access_db_scheme) outcome" where
  "grant_access now uid user connection guild source d =
     (case find_access user connection guild d of
        Some r \<Rightarrow> (Inr r, d)
      | None \<Rightarrow>
          (let r = \<lparr>sx_id = uid, sx_user_id = user, sx_connection_id = connection, sx_guild_id = guild,
                    sx_source = source, sx_created_at = now\<rparr> in
           if uid \<in> set (map sx_id (ax_access d)) then (Inl IntegrityError, d)
           else (Inr r, d\<lparr>ax_access := tins r (ax_access d)\<rparr>)))"

definition revoke_access ::
  "string \<Rightarrow> string \<Rightarrow> string \<Rightarrow> 'a access_db_scheme \<Rightarrow> bool \<times> 'a access_db_scheme" where
  "revoke_access user connection guild d =
     (case find_access user connection guild d of
        None \<Rightarrow> (False, d)
      | Some r \<Rightarrow> (True, d\<lparr>ax_access := tdel (\<lambda>x. sx_id x = sx_id r) (ax_access d)\<rparr>))"

definition list_user_access :: "string \<Rightarrow> 'a access_db_scheme \<Rightarrow> server_access list" where
  "list_user_access user d = sort_key sx_created_at (filter (\<lambda>r. sx_user_id r = user) (ax_access d))"

definition list_server_members ::
  "string \<Rightarrow> string \<Rightarrow> string option \<Rightarrow> 'a access_db_scheme \<Rightarrow> (server_access \<times> user_row) list" where
  "list_server_members connection guild excluded d =
     sort_key (\<lambda>(r, u). (us_display_name u, us_email u))
       (concat (map (\<lambda>r. map (Pair r) (filter (\<lambda>u. us_id u = sx_user_id r) (ax_users d)))
         (filter (\<lambda>r. sx_connection_id r = connection \<and> sx_guild_id r = guild \<and> excluded \<noteq> Some (sx_user_id r))
           (ax_access d))))"

definition find_profile :: "string \<Rightarrow> string \<Rightarrow> string \<Rightarrow> 'a access_db_scheme \<Rightarrow> server_profile option" where
  "find_profile user connection guild d =
     find (\<lambda>p. vp_owner_id p = user \<and> vp_connection_id p = connection \<and> vp_guild_id p = guild) (ax_profiles d)"

definition access_profile :: "time \<Rightarrow> string \<Rightarrow> string \<Rightarrow> server_catalog \<Rightarrow> server_profile" where
  "access_profile now uid user c =
     \<lparr>vp_id = uid, vp_owner_id = user, vp_connection_id = vc_connection_id c, vp_name = vc_guild_name c,
      vp_guild_id = vc_guild_id c, vp_guild_name = vc_guild_name c, vp_channel_scope_mode = ''all_except'',
      vp_excluded_channel_ids = Text (JArr []), vp_excluded_category_ids = Text (JArr []),
      vp_thread_policy = ''inherit_parent'', vp_created_at = now, vp_updated_at = now\<rparr>"

definition ensure_profile_for_access ::
  "time \<Rightarrow> string \<Rightarrow> string \<Rightarrow> server_catalog \<Rightarrow> 'a access_db_scheme
    \<Rightarrow> (server_profile \<times> bool, 'a access_db_scheme) outcome" where
  "ensure_profile_for_access now uid user c d =
     (case find_profile user (vc_connection_id c) (vc_guild_id c) d of
        Some p \<Rightarrow> (Inr (p, False), d)
      | None \<Rightarrow>
          if uid \<in> set (map vp_id (ax_profiles d)) then (Inl IntegrityError, d)
          else (Inr (access_profile now uid user c, True),
                d\<lparr>ax_profiles := tins (access_profile now uid user c) (ax_profiles d)\<rparr>))"

text \<open>The profiles of other accounts on the servers that the owner of the catalog manages.\<close>

definition claimed_profiles :: "string \<Rightarrow> string option \<Rightarrow> 'a access_db_scheme \<Rightarrow> server_profile list" where
  "claimed_profiles owner user d =
     concat (map (\<lambda>p. map (\<lambda>_. p)
         (filter (\<lambda>c. vc_connection_id c = vp_connection_id p \<and> vc_guild_id c = vp_guild_id p \<and> vc_owner_id c = owner)
           (ax_catalogs d)))
       (filter (\<lambda>p. vp_owner_id p \<noteq> owner \<and> (user = None \<or> user = Some (vp_owner_id p))) (ax_profiles d)))"

fun backfill_profiles ::
  "time \<Rightarrow> (server_profile \<Rightarrow> string) \<Rightarrow> server_profile list \<Rightarrow> nat \<Rightarrow> 'a access_db_scheme
    \<Rightarrow> (nat, 'a access_db_scheme) outcome" where
  "backfill_profiles now uid [] n d = (Inr n, d)"
| "backfill_profiles now uid (p # ps) n d =
     (if list_ex (\<lambda>r. sx_connection_id r = vp_connection_id p \<and> sx_guild_id r = vp_guild_id p)
           (list_user_access (vp_owner_id p) d)
      then backfill_profiles now uid ps n d
      else
        (case grant_access now (uid p) (vp_owner_id p) (vp_connection_id p) (vp_guild_id p) ''legacy_claim'' d of
           (Inl e, d') \<Rightarrow> (Inl e, d')
         | (Inr _, d') \<Rightarrow> backfill_profiles now uid ps (Suc n) d'))"

definition backfill_access ::
  "time \<Rightarrow> (server_profile \<Rightarrow> string) \<Rightarrow> string \<Rightarrow> string option \<Rightarrow> 'a access_db_scheme
    \<Rightarrow> (nat, 'a access_db_scheme) outcome" where
  "backfill_access now uid owner user d = backfill_profiles now uid (claimed_profiles owner user d) 0 d"

end
