(* ===== verification/Artifacts.thy ===== *)
theory Artifacts
  imports Tables "HOL-Library.Word"
begin

text \<open>
  Short-lived media artifacts: the table of \<open>persistence/generated_media_models.py\<close> and every operation
  of \<open>GeneratedMediaArtifactRepository\<close> (\<open>persistence/generated_media_repository.py\<close>). The operations
  work on the table; the databases that hold it lift them.
\<close>

record media_artifact =
  ga_id :: string
  ga_owner_id :: string
  ga_deployment_id :: string
  ga_card_id :: string
  ga_media_key :: string
  ga_mime_type :: string
  ga_filename :: string
  ga_provider :: string
  ga_model :: string
  ga_content :: "8 word list"
  ga_created_at :: time
  ga_expires_at :: time

record artifact_request =
  gq_owner_id :: string
  gq_deployment_id :: string
  gq_card_id :: string
  gq_media_key :: string
  gq_mime_type :: string
  gq_filename :: string
  gq_provider :: string
  gq_model :: string
  gq_content :: "8 word list"

definition artifact_ttl :: time where
  "artifact_ttl = hours 24"

definition new_artifact :: "time \<Rightarrow> string \<Rightarrow> artifact_request \<Rightarrow> media_artifact" where
  "new_artifact now uid q =
     \<lparr>ga_id = uid, ga_owner_id = gq_owner_id q, ga_deployment_id = gq_deployment_id q, ga_card_id = gq_card_id q,
      ga_media_key = gq_media_key q, ga_mime_type = take 100 (gq_mime_type q), ga_filename = take 255 (gq_filename q),
      ga_provider = take 80 (gq_provider q), ga_model = take 200 (gq_model q), ga_content = gq_content q,
      ga_created_at = now, ga_expires_at = now + artifact_ttl\<rparr>"

definition create_artifact ::
  "time \<Rightarrow> string \<Rightarrow> artifact_request \<Rightarrow> media_artifact list \<Rightarrow> (media_artifact, media_artifact list) outcome" where
  "create_artifact now uid q t =
     (if tget ga_id t uid \<noteq> None then (Inl IntegrityError, t)
      else (Inr (new_artifact now uid q), tins (new_artifact now uid q) t))"

definition get_artifact :: "time \<Rightarrow> string option \<Rightarrow> string \<Rightarrow> media_artifact list \<Rightarrow> media_artifact option" where
  "get_artifact now owner k t =
     (case tget ga_id t k of
        None \<Rightarrow> None
      | Some r \<Rightarrow>
          if now < ga_expires_at r \<and> (case owner of None \<Rightarrow> True | Some v \<Rightarrow> v = [] \<or> v = ga_owner_id r)
          then Some r else None)"

text \<open>The expired artifacts among some, the oldest first.\<close>

definition expired_artifacts ::
  "time \<Rightarrow> (media_artifact \<Rightarrow> bool) \<Rightarrow> int \<Rightarrow> media_artifact list \<Rightarrow> media_artifact list" where
  "expired_artifacts now P limit t =
     tlimit (clip 1 2000 limit) (sort_key ga_expires_at (filter (\<lambda>r. P r \<and> ga_expires_at r \<le> now) t))"

definition purge_artifacts ::
  "time \<Rightarrow> (media_artifact \<Rightarrow> bool) \<Rightarrow> int \<Rightarrow> media_artifact list \<Rightarrow> nat \<times> media_artifact list" where
  "purge_artifacts now P limit t =
     (let ids = map ga_id (expired_artifacts now P limit t) in (length ids, tdel (\<lambda>r. ga_id r \<in> set ids) t))"

definition claim_artifact_owner :: "string \<Rightarrow> string \<Rightarrow> media_artifact list \<Rightarrow> nat \<times> media_artifact list" where
  "claim_artifact_owner source target t =
     (tcount (\<lambda>r. ga_owner_id r = source) t, tset (\<lambda>r. ga_owner_id r = source) (\<lambda>r. r\<lparr>ga_owner_id := target\<rparr>) t)"

definition delete_artifact_owner :: "string \<Rightarrow> media_artifact list \<Rightarrow> nat \<times> media_artifact list" where
  "delete_artifact_owner owner t = (tcount (\<lambda>r. ga_owner_id r = owner) t, tdel (\<lambda>r. ga_owner_id r = owner) t)"

end
