(* ===== verification/Web_Rooms.thy ===== *)
theory Web_Rooms
  imports Server_Access Artifacts
begin

text \<open>
  Rooms on the web: the rows of \<open>persistence/web_room_models.py\<close>, the validated inputs of \<open>web_rooms.py\<close>,
  and the part of \<open>WebRoomRepository\<close> (\<open>persistence/web_room_repository.py\<close>) that decides who may read and
  write a room, and keeps rooms, members, profiles, reactions and uploads. The outbox is in \<open>Web_Outbox\<close>.

  The payload of a message is the record that its JSON text holds: only \<open>enqueue\<close> writes it. Digests are
  arguments, and of an expression the columns that are read here are kept.
\<close>

section \<open>Rows\<close>

record web_room =
  wx_id :: string
  wx_owner_id :: string
  wx_connection_id :: string
  wx_guild_id :: string
  wx_channel_id :: string
  wx_thread_id :: string
  wx_name :: prose
  wx_enabled :: bool
  wx_webhook_id :: string
  wx_created_at :: time

record web_member =
  wm_id :: string
  wm_room_id :: string
  wm_user_id :: string
  wm_can_post :: bool

record web_profile =
  wp_id :: string
  wp_owner_id :: string
  wp_display_name :: prose
  wp_avatar_url :: string
  wp_version :: int

record web_reaction =
  wc_id :: string
  wc_room_id :: string
  wc_message_id :: string
  wc_user_id :: string
  wc_profile_id :: string
  wc_emoji_key :: string
  wc_emoji_name :: prose
  wc_emoji_id :: string
  wc_animated :: bool
  wc_asset_url :: string

record expression_row =
  xp_owner_id :: string
  xp_connection_id :: string
  xp_guild_id :: string
  xp_resource_type :: string
  xp_resource_id :: string
  xp_name :: prose
  xp_description :: prose
  xp_format_type :: string
  xp_asset_url :: string
  xp_animated :: bool
  xp_available :: bool
  xp_enabled :: bool

record web_attachment =
  wa_id :: string
  wa_filename :: string
  wa_mime_type :: string
  wa_size_bytes :: nat

record web_payload =
  wy_display_name :: prose
  wy_avatar_url :: string
  wy_text :: prose
  wy_reply_to :: string
  wy_sticker :: string
  wy_attachments :: "web_attachment list"

datatype outbox_status =
    WebPending | WebClaimed | WebDelivered | WebFailed | WebUncertain | WebCancelled

record web_message =
  wo_id :: string
  wo_room_id :: string
  wo_owner_id :: string
  wo_profile_id :: string
  wo_client_message_id :: string
  wo_payload :: web_payload
  wo_payload_hash :: string
  wo_status :: outbox_status
  wo_claim_nonce :: string
  wo_claimed_at :: "time option"
  wo_discord_message_id :: string
  wo_discord_created_at :: "time option"
  wo_webhook_id :: string
  wo_reason :: string
  wo_routing_status :: string
  wo_created_at :: time

record reading_cursor =
  rc_id :: string
  rc_user_id :: string
  rc_room_id :: string

record web_db = access_db +
  wb_expressions :: "expression_row list"
  wb_artifacts :: "media_artifact list"
  wb_rooms :: "web_room list"
  wb_members :: "web_member list"
  wb_profiles :: "web_profile list"
  wb_reactions :: "web_reaction list"
  wb_outbox :: "web_message list"
  wb_cursors :: "reading_cursor list"

interpretation web_room_table: db_table wb_rooms wb_rooms_update wx_id
  by unfold_locales simp

interpretation web_member_table: db_table wb_members wb_members_update wm_id
  by unfold_locales simp

interpretation outbox_table: db_table wb_outbox wb_outbox_update wo_id
  by unfold_locales simp

interpretation artifact_table: db_table wb_artifacts wb_artifacts_update ga_id
  by unfold_locales simp

abbreviation get_web_room :: "'a web_db_scheme \<Rightarrow> string \<Rightarrow> web_room option" where
  "get_web_room d k \<equiv> tget wx_id (wb_rooms d) k"

abbreviation get_message :: "'a web_db_scheme \<Rightarrow> string \<Rightarrow> web_message option" where
  "get_message d k \<equiv> tget wo_id (wb_outbox d) k"

section \<open>Validated input\<close>

record web_send =
  wn_profile_id :: string
  wn_client_message_id :: string
  wn_text :: prose
  wn_reply_to :: string
  wn_sticker :: string
  wn_attachment_ids :: "string list"

definition utf16_length :: "prose \<Rightarrow> nat" where
  "utf16_length t = sum_list (map (\<lambda>c. if 65536 \<le> c then 2 else 1) t)"

definition client_id_char :: "char \<Rightarrow> bool" where
  "client_id_char c \<longleftrightarrow>
     (CHR ''A'' \<le> c \<and> c \<le> CHR ''Z'') \<or> (CHR ''a'' \<le> c \<and> c \<le> CHR ''z'') \<or> (CHR ''0'' \<le> c \<and> c \<le> CHR ''9'')
     \<or> c = CHR ''_'' \<or> c = CHR ''-''"

text \<open>\<open>WebSend\<close>: the limits of the fields, then what their validators return.\<close>

definition make_web_send :: "web_send \<Rightarrow> error + web_send" where
  "make_web_send q =
     (let sticker = strip (wn_sticker q); ids = map strip (wn_attachment_ids q) in
      if sized 1 64 (wn_profile_id q) \<and> sized 8 100 (wn_client_message_id q)
        \<and> list_all client_id_char (wn_client_message_id q) \<and> sized 0 1800 (wn_text q) \<and> utf16_length (wn_text q) \<le> 1800
        \<and> sized 0 200 (wn_reply_to q) \<and> sized 0 240 (wn_sticker q) \<and> (sticker = [] \<or> take 8 sticker = ''sticker:'')
        \<and> length ids \<le> 4 \<and> list_all (\<lambda>x. x \<noteq> [] \<and> length x \<le> 64) ids \<and> distinct ids
        \<and> (strip_prose (wn_text q) \<noteq> [] \<or> sticker \<noteq> [] \<or> ids \<noteq> [])
      then Inr (q\<lparr>wn_profile_id := strip (wn_profile_id q), wn_reply_to := strip (wn_reply_to q),
                  wn_sticker := sticker, wn_attachment_ids := ids\<rparr>)
      else Inl ValidationError)"

record web_digests =
  wd_list :: "string list \<Rightarrow> string"
  wd_send :: "string \<Rightarrow> web_send \<Rightarrow> string"
  wd_bytes :: "8 word list \<Rightarrow> string"
  wd_room :: room_digests

section \<open>Access\<close>

definition room_unavailable :: error where
  "room_unavailable = WebRoomError ''room_unavailable'' 404"

definition scope_of_room :: "web_room \<Rightarrow> error + room_scope" where
  "scope_of_room r =
     (let s = \<lparr>sc_owner_id = wx_owner_id r, sc_connection_id = wx_connection_id r, sc_guild_id = wx_guild_id r,
               sc_channel_id = wx_channel_id r, sc_thread_id = wx_thread_id r\<rparr> in
      if valid_scope s then Inr s else Inl ValidationError)"

definition fresh_room :: "web_digests \<Rightarrow> time \<Rightarrow> web_room \<Rightarrow> 'a web_db_scheme \<Rightarrow> error + bool" where
  "fresh_room h now r d = map_sum id (\<lambda>s. can_read (wd_room h) now s (Some 90) d) (scope_of_room r)"

definition server_access_of :: "web_room \<Rightarrow> string \<Rightarrow> 'a web_db_scheme \<Rightarrow> bool" where
  "server_access_of r user d \<longleftrightarrow>
     (case (tget us_id (ax_users d) user, tget pn_id (ax_connections d) (wx_connection_id r)) of
        (Some u, Some c) \<Rightarrow>
          us_active u \<and> pn_owner_id c = wx_owner_id r
          \<and> (wx_owner_id r = user \<or> find_access user (wx_connection_id r) (wx_guild_id r) d \<noteq> None)
      | _ \<Rightarrow> False)"

definition member_key :: "web_digests \<Rightarrow> string \<Rightarrow> string \<Rightarrow> string" where
  "member_key h room user = wd_list h [room, user]"

definition web_access :: "web_digests \<Rightarrow> web_room \<Rightarrow> string \<Rightarrow> bool \<Rightarrow> 'a web_db_scheme \<Rightarrow> bool" where
  "web_access h r user post d \<longleftrightarrow>
     wx_enabled r \<and> server_access_of r user d
     \<and> (wx_owner_id r = user
        \<or> (case tget wm_id (wb_members d) (member_key h (wx_id r) user) of
             None \<Rightarrow> False | Some m \<Rightarrow> \<not> post \<or> wm_can_post m))"

definition require_room ::
  "web_digests \<Rightarrow> time \<Rightarrow> string \<Rightarrow> string \<Rightarrow> bool \<Rightarrow> bool \<Rightarrow> 'a web_db_scheme \<Rightarrow> error + web_room" where
  "require_room h now room user post fresh d =
     (case get_web_room d room of
        None \<Rightarrow> Inl room_unavailable
      | Some r \<Rightarrow>
          if \<not> web_access h r user post d then Inl room_unavailable
          else if \<not> fresh then Inr r
          else
            (case fresh_room h now r d of
               Inl e \<Rightarrow> Inl e
             | Inr ok \<Rightarrow> if ok then Inr r else Inl (WebRoomError ''room_connection_unavailable'' 503)))"

record web_room_view =
  vr_room :: web_room
  vr_can_manage :: bool
  vr_can_post :: bool

definition list_web_rooms :: "web_digests \<Rightarrow> string \<Rightarrow> 'a web_db_scheme \<Rightarrow> web_room_view list" where
  "list_web_rooms h user d =
     map (\<lambda>r. \<lparr>vr_room = r, vr_can_manage = (wx_owner_id r = user), vr_can_post = web_access h r user True d\<rparr>)
       (filter (\<lambda>r. web_access h r user False d \<or> (wx_owner_id r = user \<and> server_access_of r user d))
         (tlimit 256 (sort_key wx_name
           (filter (\<lambda>r. wx_owner_id r = user
              \<or> wx_id r \<in> set (map wm_room_id (filter (\<lambda>m. wm_user_id m = user) (wb_members d)))) (wb_rooms d)))))"

section \<open>Rooms and members\<close>

record web_room_input =
  wi_connection_id :: string
  wi_guild_id :: string
  wi_channel_id :: string
  wi_thread_id :: string
  wi_name :: prose

definition valid_room_input :: "web_room_input \<Rightarrow> bool" where
  "valid_room_input q \<longleftrightarrow>
     sized 1 64 (wi_connection_id q) \<and> sized 1 200 (wi_guild_id q) \<and> sized 1 200 (wi_channel_id q)
     \<and> sized 0 200 (wi_thread_id q) \<and> sized 1 80 (wi_name q)"

text \<open>Whether a list of channels names one: the first item that is not an object raises.\<close>

fun names_channel :: "string \<Rightarrow> json list \<Rightarrow> error + bool" where
  "names_channel k [] = Inr False"
| "names_channel k (JObj c # cs) = (if map_of c ''id'' = Some (JStr k) then Inr True else names_channel k cs)"
| "names_channel k (_ # cs) = Inl AttributeError"

definition in_catalog :: "string \<Rightarrow> server_catalog \<Rightarrow> error + bool" where
  "in_catalog k c =
     (case loads (vc_channels c) of
        None \<Rightarrow> Inl (ValueError ''JSONDecodeError'')
      | Some (JArr vs) \<Rightarrow> names_channel k vs
      | Some (JObj obj) \<Rightarrow> if obj = [] then Inr False else Inl AttributeError
      | Some (JStr s) \<Rightarrow> if s = [] then Inr False else Inl AttributeError
      | Some _ \<Rightarrow> Inl TypeError)"

definition web_room_key :: "web_digests \<Rightarrow> web_room_input \<Rightarrow> string" where
  "web_room_key h q = wd_list h [wi_connection_id q, wi_guild_id q, wi_channel_id q, wi_thread_id q]"

definition new_web_room :: "web_digests \<Rightarrow> time \<Rightarrow> string \<Rightarrow> web_room_input \<Rightarrow> web_room" where
  "new_web_room h now user q =
     \<lparr>wx_id = web_room_key h q, wx_owner_id = user, wx_connection_id = wi_connection_id q, wx_guild_id = wi_guild_id q,
      wx_channel_id = wi_channel_id q, wx_thread_id = wi_thread_id q, wx_name = wi_name q, wx_enabled = True,
      wx_webhook_id = [], wx_created_at = now\<rparr>"

definition room_destination :: "web_room \<Rightarrow> string \<times> string \<times> string \<times> string" where
  "room_destination r = (wx_connection_id r, wx_guild_id r, wx_channel_id r, wx_thread_id r)"

definition publish_room ::
  "web_digests \<Rightarrow> time \<Rightarrow> string \<Rightarrow> web_room_input \<Rightarrow> 'a web_db_scheme \<Rightarrow> (string, 'a web_db_scheme) outcome" where
  "publish_room h now user q d =
     (case tget pn_id (ax_connections d) (wi_connection_id q) of
        None \<Rightarrow> (Inl (WebRoomError ''connection_unavailable'' 404), d)
      | Some c \<Rightarrow>
          if pn_owner_id c \<noteq> user \<or> pn_platform c \<noteq> ''discord''
          then (Inl (WebRoomError ''connection_unavailable'' 404), d)
          else
            (case catalog_server user (pn_id c) (wi_guild_id q) d of
               None \<Rightarrow> (Inl (WebRoomError ''channel_not_in_catalog'' 422), d)
             | Some catalog \<Rightarrow>
                 (case in_catalog (wi_channel_id q) catalog of
                    Inl e \<Rightarrow> (Inl e, d)
                  | Inr False \<Rightarrow> (Inl (WebRoomError ''channel_not_in_catalog'' 422), d)
                  | Inr True \<Rightarrow>
                      (case get_web_room d (web_room_key h q) of
                         Some r \<Rightarrow> if wx_owner_id r \<noteq> user then (Inl room_unavailable, d) else (Inr (wx_id r), d)
                       | None \<Rightarrow>
                           if 16 \<le> tcount (\<lambda>r. wx_connection_id r = pn_id c) (wb_rooms d)
                           then (Inl (WebRoomError ''published_room_limit'' 429), d)
                           else
                             (let r = new_web_room h now user q in
                              if room_destination r \<in> set (map room_destination (wb_rooms d)) then (Inl IntegrityError, d)
                              else (Inr (wx_id r), d\<lparr>wb_rooms := tins r (wb_rooms d)\<rparr>))))))"

definition cancel_pending :: "(web_message \<Rightarrow> bool) \<Rightarrow> string \<Rightarrow> 'a web_db_scheme \<Rightarrow> 'a web_db_scheme" where
  "cancel_pending P reason d =
     d\<lparr>wb_outbox := tset (\<lambda>m. P m \<and> wo_status m = WebPending)
         (\<lambda>m. m\<lparr>wo_status := WebCancelled, wo_reason := reason\<rparr>) (wb_outbox d)\<rparr>"

definition owned_room :: "string \<Rightarrow> string \<Rightarrow> 'a web_db_scheme \<Rightarrow> error + web_room" where
  "owned_room room owner d =
     (case get_web_room d room of
        None \<Rightarrow> Inl room_unavailable
      | Some r \<Rightarrow> if wx_owner_id r \<noteq> owner then Inl room_unavailable else Inr r)"

definition put_web_room :: "string \<Rightarrow> (web_room \<Rightarrow> web_room) \<Rightarrow> 'a web_db_scheme \<Rightarrow> 'a web_db_scheme" where
  "put_web_room k f d = d\<lparr>wb_rooms := tset (\<lambda>r. wx_id r = k) f (wb_rooms d)\<rparr>"

definition configure_room ::
  "string \<Rightarrow> string \<Rightarrow> bool \<Rightarrow> 'a web_db_scheme \<Rightarrow> (unit, 'a web_db_scheme) outcome" where
  "configure_room room owner enabled d =
     (case owned_room room owner d of
        Inl e \<Rightarrow> (Inl e, d)
      | Inr _ \<Rightarrow>
          (let d1 = put_web_room room (\<lambda>r. r\<lparr>wx_enabled := enabled\<rparr>) d in
           (Inr (), if enabled then d1 else cancel_pending (\<lambda>m. wo_room_id m = room) ''room_disabled'' d1)))"

definition list_members :: "string \<Rightarrow> string \<Rightarrow> 'a web_db_scheme \<Rightarrow> error + (string \<times> bool) list" where
  "list_members room owner d =
     map_sum id (\<lambda>_. map (\<lambda>m. (wm_user_id m, wm_can_post m)) (tlimit 200 (filter (\<lambda>m. wm_room_id m = room) (wb_members d))))
       (owned_room room owner d)"

text \<open>A membership is given (\<open>Some can_post\<close>) or taken away (\<open>None\<close>).\<close>

definition set_member ::
  "web_digests \<Rightarrow> string \<Rightarrow> string \<Rightarrow> string \<Rightarrow> bool option \<Rightarrow> 'a web_db_scheme \<Rightarrow> (unit, 'a web_db_scheme) outcome" where
  "set_member h room owner user can_post d =
     (case owned_room room owner d of
        Inl e \<Rightarrow> (Inl e, d)
      | Inr r \<Rightarrow>
          (let k = member_key h room user in
           case can_post of
             None \<Rightarrow>
               (Inr (), cancel_pending (\<lambda>m. wo_room_id m = room \<and> wo_owner_id m = user) ''membership_revoked''
                  (d\<lparr>wb_members := tdel (\<lambda>m. wm_id m = k) (wb_members d)\<rparr>))
           | Some post \<Rightarrow>
               if \<not> server_access_of r user d then (Inl (WebRoomError ''server_access_required'' 403), d)
               else
                 (case tget wm_id (wb_members d) k of
                    Some _ \<Rightarrow> (Inr (), d\<lparr>wb_members := tset (\<lambda>m. wm_id m = k) (\<lambda>m. m\<lparr>wm_can_post := post\<rparr>) (wb_members d)\<rparr>)
                  | None \<Rightarrow>
                      if 200 \<le> tcount (\<lambda>m. wm_room_id m = room) (wb_members d)
                      then (Inl (WebRoomError ''room_member_limit'' 429), d)
                      else if (room, user) \<in> set (map (\<lambda>m. (wm_room_id m, wm_user_id m)) (wb_members d))
                      then (Inl IntegrityError, d)
                      else (Inr (), d\<lparr>wb_members := tins \<lparr>wm_id = k, wm_room_id = room, wm_user_id = user, wm_can_post = post\<rparr>
                                                        (wb_members d)\<rparr>))))"

section \<open>Profiles, expressions, reactions\<close>

definition list_profiles :: "string \<Rightarrow> 'a web_db_scheme \<Rightarrow> web_profile list" where
  "list_profiles user d = tlimit 8 (sort_key wp_id (filter (\<lambda>p. wp_owner_id p = user) (wb_profiles d)))"

definition owned_profile :: "string \<Rightarrow> string \<Rightarrow> 'a web_db_scheme \<Rightarrow> error + web_profile" where
  "owned_profile k user d =
     (case tget wp_id (wb_profiles d) k of
        None \<Rightarrow> Inl (WebRoomError ''profile_unavailable'' 404)
      | Some p \<Rightarrow> if wp_owner_id p \<noteq> user then Inl (WebRoomError ''profile_unavailable'' 404) else Inr p)"

definition save_profile ::
  "string \<Rightarrow> string \<Rightarrow> prose \<Rightarrow> string \<Rightarrow> string \<Rightarrow> int \<Rightarrow> 'a web_db_scheme \<Rightarrow> (web_profile, 'a web_db_scheme) outcome" where
  "save_profile uid user name avatar k expected d =
     (if tget us_id (ax_users d) user = None then (Inl (WebRoomError ''account_unavailable'' 404), d)
      else if k \<noteq> [] then
        (case owned_profile k user d of
           Inl e \<Rightarrow> (Inl e, d)
         | Inr p \<Rightarrow>
             if wp_version p \<noteq> expected then (Inl (WebRoomError ''profile_version_conflict'' 409), d)
             else
               (let p' = p\<lparr>wp_version := wp_version p + 1, wp_display_name := name, wp_avatar_url := avatar\<rparr> in
                (Inr p', d\<lparr>wb_profiles := tset (\<lambda>x. wp_id x = k) (\<lambda>_. p') (wb_profiles d)\<rparr>)))
      else if 8 \<le> tcount (\<lambda>p. wp_owner_id p = user) (wb_profiles d) then (Inl (WebRoomError ''profile_limit'' 429), d)
      else if tget wp_id (wb_profiles d) uid \<noteq> None then (Inl IntegrityError, d)
      else
        (let p = \<lparr>wp_id = uid, wp_owner_id = user, wp_display_name = name, wp_avatar_url = avatar, wp_version = 1\<rparr> in
         (Inr p, d\<lparr>wb_profiles := tins p (wb_profiles d)\<rparr>)))"

text \<open>\<open>_expression\<close>: an available resource of the room's server, by a key such as \<open>sticker:7\<close>.\<close>

definition split_key :: "string \<Rightarrow> (string \<times> string) option" where
  "split_key key =
     (let kind = takeWhile (\<lambda>c. c \<noteq> CHR '':'') key; rest = dropWhile (\<lambda>c. c \<noteq> CHR '':'') key in
      if rest = [] then None else Some (kind, tl rest))"

definition usable_expression :: "web_room \<Rightarrow> expression_row \<Rightarrow> bool" where
  "usable_expression r x \<longleftrightarrow>
     xp_owner_id x = wx_owner_id r \<and> xp_connection_id x = wx_connection_id r \<and> xp_guild_id x = wx_guild_id r
     \<and> xp_available x \<and> xp_enabled x"

definition expression_of :: "web_room \<Rightarrow> string \<Rightarrow> string \<Rightarrow> 'a web_db_scheme \<Rightarrow> expression_row option" where
  "expression_of r key resource_type d =
     (case split_key key of
        None \<Rightarrow> None
      | Some (kind, k) \<Rightarrow>
          if kind \<notin> {''emoji'', ''sticker''} \<or> k = [] \<or> kind \<noteq> resource_type then None
          else find (\<lambda>x. usable_expression r x \<and> xp_resource_type x = kind \<and> xp_resource_id x = k) (wb_expressions d))"

definition room_expressions ::
  "web_digests \<Rightarrow> time \<Rightarrow> string \<Rightarrow> string \<Rightarrow> 'a web_db_scheme \<Rightarrow> error + expression_row list" where
  "room_expressions h now room user d =
     map_sum id (\<lambda>r. tlimit 1000 (sort_key (\<lambda>x. (xp_resource_type x, xp_name x, xp_resource_id x))
         (filter (usable_expression r) (wb_expressions d))))
       (require_room h now room user False False d)"

definition readable_source ::
  "web_digests \<Rightarrow> web_room \<Rightarrow> string \<Rightarrow> 'a web_db_scheme \<Rightarrow> error + bool" where
  "readable_source h r mid d =
     (case scope_of_room r of
        Inl e \<Rightarrow> Inl e
      | Inr s \<Rightarrow>
          map_sum id (\<lambda>x. case x of None \<Rightarrow> False
                            | Some m \<Rightarrow> \<not> sm_deleted (ss_message m) \<and> sm_content_available (ss_message m))
            (get_stored (wd_room h) s mid d))"

record emoji_input =
  ei_profile_id :: string
  ei_emoji_key :: string
  ei_emoji_name :: prose

record chosen_emoji =
  ej_name :: prose
  ej_id :: string
  ej_animated :: bool
  ej_asset_url :: string

definition reaction_emoji :: "web_room \<Rightarrow> emoji_input \<Rightarrow> 'a web_db_scheme \<Rightarrow> error + chosen_emoji" where
  "reaction_emoji r q d =
     (let key = ei_emoji_key q; name = strip_prose (ei_emoji_name q) in
      if take 6 key = ''emoji:'' then
        (case expression_of r key ''emoji'' d of
           None \<Rightarrow> Inl (WebRoomError ''reaction_emoji_unavailable'' 422)
         | Some x \<Rightarrow> Inr \<lparr>ej_name = xp_name x, ej_id = xp_resource_id x, ej_animated = xp_animated x, ej_asset_url = xp_asset_url x\<rparr>)
      else if take 8 key = ''unicode:'' then
        (let shown = (if name = [] then points (drop 8 key) else name) in
         if shown = [] \<or> 32 < length shown \<or> list_ex (\<lambda>c. is_space_point c \<or> c < 32) shown
         then Inl (WebRoomError ''reaction_emoji_invalid'' 422)
         else Inr \<lparr>ej_name = shown, ej_id = [], ej_animated = False, ej_asset_url = []\<rparr>)
      else Inl (WebRoomError ''reaction_emoji_invalid'' 422))"

definition reaction_key :: "web_reaction \<Rightarrow> string \<times> string \<times> string \<times> string" where
  "reaction_key c = (wc_room_id c, wc_message_id c, wc_profile_id c, wc_emoji_key c)"

definition put_reaction ::
  "web_digests \<Rightarrow> string \<Rightarrow> string \<Rightarrow> string \<Rightarrow> web_profile \<Rightarrow> emoji_input \<Rightarrow> chosen_emoji \<Rightarrow> bool \<Rightarrow> 'a web_db_scheme
    \<Rightarrow> (unit, 'a web_db_scheme) outcome" where
  "put_reaction h room mid user p q e enabled d =
     (let k = wd_list h [room, mid, wp_id p, ei_emoji_key q];
          c = \<lparr>wc_id = k, wc_room_id = room, wc_message_id = mid, wc_user_id = user, wc_profile_id = wp_id p,
               wc_emoji_key = ei_emoji_key q, wc_emoji_name = ej_name e, wc_emoji_id = ej_id e,
               wc_animated = ej_animated e, wc_asset_url = ej_asset_url e\<rparr> in
      if tget wc_id (wb_reactions d) k = None then
        (if \<not> enabled then (Inr (), d)
         else if reaction_key c \<in> set (map reaction_key (wb_reactions d)) then (Inl IntegrityError, d)
         else (Inr (), d\<lparr>wb_reactions := tins c (wb_reactions d)\<rparr>))
      else if enabled then (Inr (), d)
      else (Inr (), d\<lparr>wb_reactions := tdel (\<lambda>x. wc_id x = k) (wb_reactions d)\<rparr>))"

definition set_reaction ::
  "web_digests \<Rightarrow> time \<Rightarrow> string \<Rightarrow> string \<Rightarrow> string \<Rightarrow> emoji_input \<Rightarrow> bool \<Rightarrow> 'a web_db_scheme
    \<Rightarrow> (unit, 'a web_db_scheme) outcome" where
  "set_reaction h now user room mid q enabled d =
     (case require_room h now room user True True d of
        Inl e \<Rightarrow> (Inl e, d)
      | Inr r \<Rightarrow>
          (case readable_source h r mid d of
             Inl e \<Rightarrow> (Inl e, d)
           | Inr ok \<Rightarrow>
               if \<not> ok then (Inl (WebRoomError ''reaction_source_unavailable'' 422), d)
               else
                 (case owned_profile (ei_profile_id q) user d of
                    Inl e \<Rightarrow> (Inl e, d)
                  | Inr p \<Rightarrow>
                      (case reaction_emoji r q d of
                         Inl e \<Rightarrow> (Inl e, d)
                       | Inr x \<Rightarrow> put_reaction h room mid user p q x enabled d))))"

text \<open>The reactions of messages, grouped by message and emoji in the order of the rows.\<close>

record reaction_group =
  rg_first :: web_reaction
  rg_count :: nat
  rg_mine :: bool
  rg_profiles :: "string list"

definition reaction_group_of :: "string \<Rightarrow> web_reaction list \<Rightarrow> web_reaction \<Rightarrow> reaction_group" where
  "reaction_group_of user rows c =
     (let same = filter (\<lambda>x. wc_message_id x = wc_message_id c \<and> wc_emoji_key x = wc_emoji_key c) rows;
          mine = filter (\<lambda>x. wc_user_id x = user) same in
      \<lparr>rg_first = c, rg_count = length same, rg_mine = (mine \<noteq> []), rg_profiles = fromkeys (map wc_profile_id mine)\<rparr>)"

fun first_of_group :: "web_reaction list \<Rightarrow> web_reaction list" where
  "first_of_group [] = []"
| "first_of_group (c # cs) =
     c # filter (\<lambda>x. (wc_message_id x, wc_emoji_key x) \<noteq> (wc_message_id c, wc_emoji_key c)) (first_of_group cs)"

definition reaction_rows :: "string \<Rightarrow> string list \<Rightarrow> 'a web_db_scheme \<Rightarrow> web_reaction list" where
  "reaction_rows room mids d =
     sort_key (\<lambda>c. (wc_message_id c, wc_emoji_key c))
       (filter (\<lambda>c. wc_room_id c = room \<and> wc_message_id c \<in> set (take 64 mids)) (wb_reactions d))"

definition web_reactions ::
  "web_digests \<Rightarrow> time \<Rightarrow> string \<Rightarrow> string \<Rightarrow> string list \<Rightarrow> 'a web_db_scheme \<Rightarrow> error + reaction_group list" where
  "web_reactions h now room user mids d =
     map_sum id
       (\<lambda>_. if mids = [] then []
             else (let rows = reaction_rows room mids d in map (reaction_group_of user rows) (first_of_group rows)))
       (require_room h now room user False False d)"

section \<open>Uploads\<close>

definition web_upload :: string where
  "web_upload = ''web-room-upload''"

definition attachment_scope :: "web_digests \<Rightarrow> string \<Rightarrow> string" where
  "attachment_scope h room = wd_list h [''web-room-attachment'', room]"

definition attachment_record ::
  "web_digests \<Rightarrow> time \<Rightarrow> string \<Rightarrow> string \<Rightarrow> string \<Rightarrow> 'a web_db_scheme \<Rightarrow> media_artifact option" where
  "attachment_record h now room user k d =
     (case tget ga_id (wb_artifacts d) k of
        None \<Rightarrow> None
      | Some r \<Rightarrow>
          if ga_owner_id r \<noteq> user \<or> ga_deployment_id r \<noteq> attachment_scope h room \<or> ga_provider r \<noteq> web_upload
            \<or> ga_expires_at r \<le> now
          then None else Some r)"

definition attachment_view :: "media_artifact \<Rightarrow> web_attachment" where
  "attachment_view r =
     \<lparr>wa_id = ga_id r, wa_filename = ga_filename r, wa_mime_type = ga_mime_type r, wa_size_bytes = length (ga_content r)\<rparr>"

definition upload_request ::
  "web_digests \<Rightarrow> string \<Rightarrow> string \<Rightarrow> string \<Rightarrow> string \<Rightarrow> 8 word list \<Rightarrow> artifact_request" where
  "upload_request h user room filename mime bytes =
     \<lparr>gq_owner_id = user, gq_deployment_id = attachment_scope h room, gq_card_id = [], gq_media_key = wd_bytes h bytes,
      gq_mime_type = mime, gq_filename = filename, gq_provider = web_upload, gq_model = [], gq_content = bytes\<rparr>"

definition purge_uploads :: "time \<Rightarrow> 'a web_db_scheme \<Rightarrow> 'a web_db_scheme" where
  "purge_uploads now d =
     d\<lparr>wb_artifacts := snd (purge_artifacts now (\<lambda>r. ga_provider r = web_upload) 200 (wb_artifacts d))\<rparr>"

text \<open>The expired uploads are deleted in a transaction of its own, whether or not the upload is stored.\<close>

definition create_attachment ::
  "web_digests \<Rightarrow> time \<Rightarrow> string \<Rightarrow> string \<Rightarrow> string \<Rightarrow> string \<Rightarrow> string \<Rightarrow> 8 word list \<Rightarrow> 'a web_db_scheme
    \<Rightarrow> (web_attachment, 'a web_db_scheme) outcome" where
  "create_attachment h now uid user room filename mime bytes d =
     (case require_room h now room user True True d of
        Inl e \<Rightarrow> (Inl e, d)
      | Inr _ \<Rightarrow>
          (let d1 = purge_uploads now d in
           case create_artifact now uid (upload_request h user room filename mime bytes) (wb_artifacts d1) of
             (Inl e, _) \<Rightarrow> (Inl e, d1)
           | (Inr r, t) \<Rightarrow> (Inr (attachment_view r), d1\<lparr>wb_artifacts := t\<rparr>)))"

section \<open>The connector's view of rooms\<close>

definition connector_rooms :: "string \<Rightarrow> 'a web_db_scheme \<Rightarrow> web_room list" where
  "connector_rooms connection d =
     tlimit 16 (filter (\<lambda>r. wx_connection_id r = connection \<and> wx_enabled r) (wb_rooms d))"

definition register_webhook ::
  "string \<Rightarrow> string \<Rightarrow> string \<Rightarrow> 'a web_db_scheme \<Rightarrow> (unit, 'a web_db_scheme) outcome" where
  "register_webhook connection room webhook d =
     (case get_web_room d room of
        None \<Rightarrow> (Inl room_unavailable, d)
      | Some r \<Rightarrow>
          if wx_connection_id r \<noteq> connection \<or> \<not> wx_enabled r then (Inl room_unavailable, d)
          else (Inr (), put_web_room room (\<lambda>r. r\<lparr>wx_webhook_id := webhook\<rparr>) d))"

end
