(* ===== verification/Web_Outbox.thy ===== *)
theory Web_Outbox
  imports Web_Rooms
begin

text \<open>
  The outbox of the web rooms: the rest of \<open>WebRoomRepository\<close> (\<open>persistence/web_room_repository.py\<close>), from
  \<open>enqueue\<close> through the connector's \<open>claim\<close>, \<open>preflight\<close> and \<open>acknowledge\<close> to the dispatch of what was delivered,
  and the deletion of an account. An operation reads the clock once. The transactions run one after another:
  they hold the repository's lock. What other sessions do between the check of \<open>enqueue\<close> and its transaction
  is an argument.
\<close>

section \<open>Views\<close>

record delivery_view =
  dv_id :: string
  dv_client_message_id :: string
  dv_profile_id :: string
  dv_payload :: web_payload
  dv_status :: outbox_status
  dv_discord_message_id :: string
  dv_reason :: string
  dv_created_at :: time
  dv_routing_status :: string

record room_delivery =
  rw_view :: delivery_view
  rw_room_id :: string
  rw_claim_nonce :: string
  rw_guild_id :: string
  rw_channel_id :: string
  rw_thread_id :: string
  rw_webhook_id :: string
  rw_actor_id :: string
  rw_sticker :: "(prose \<times> string \<times> string) option"

definition view_of :: "web_message \<Rightarrow> delivery_view" where
  "view_of m =
     \<lparr>dv_id = wo_id m, dv_client_message_id = wo_client_message_id m, dv_profile_id = wo_profile_id m,
      dv_payload = wo_payload m, dv_status = wo_status m, dv_discord_message_id = wo_discord_message_id m,
      dv_reason = wo_reason m, dv_created_at = wo_created_at m, dv_routing_status = wo_routing_status m\<rparr>"

definition delivery_of :: "web_room \<Rightarrow> string \<Rightarrow> string \<Rightarrow> expression_row option \<Rightarrow> web_message \<Rightarrow> room_delivery" where
  "delivery_of r nonce webhook sticker m =
     \<lparr>rw_view = view_of m, rw_room_id = wx_id r, rw_claim_nonce = nonce, rw_guild_id = wx_guild_id r,
      rw_channel_id = wx_channel_id r, rw_thread_id = wx_thread_id r, rw_webhook_id = webhook,
      rw_actor_id = ''web:'' @ wo_profile_id m,
      rw_sticker = map_option (\<lambda>x. (xp_name x, xp_asset_url x, xp_format_type x)) sticker\<rparr>"

definition put_message :: "string \<Rightarrow> (web_message \<Rightarrow> web_message) \<Rightarrow> 'a web_db_scheme \<Rightarrow> 'a web_db_scheme" where
  "put_message k f d = d\<lparr>wb_outbox := tset (\<lambda>m. wo_id m = k) f (wb_outbox d)\<rparr>"

section \<open>Enqueueing\<close>

definition message_key :: "web_digests \<Rightarrow> string \<Rightarrow> string \<Rightarrow> string" where
  "message_key h user client = wd_list h [user, client]"

fun chosen_attachments ::
  "web_digests \<Rightarrow> time \<Rightarrow> string \<Rightarrow> string \<Rightarrow> string list \<Rightarrow> 'a web_db_scheme \<Rightarrow> error + web_attachment list" where
  "chosen_attachments h now room user [] d = Inr []"
| "chosen_attachments h now room user (k # ks) d =
     (case attachment_record h now room user k d of
        None \<Rightarrow> Inl (WebRoomError ''attachment_unavailable'' 422)
      | Some r \<Rightarrow> map_sum id (Cons (attachment_view r)) (chosen_attachments h now room user ks d))"

definition reply_readable :: "web_digests \<Rightarrow> web_room \<Rightarrow> string \<Rightarrow> 'a web_db_scheme \<Rightarrow> error + bool" where
  "reply_readable h r mid d = (if mid = [] then Inr True else readable_source h r mid d)"

definition recent_sends :: "(web_message \<Rightarrow> bool) \<Rightarrow> time \<Rightarrow> 'a web_db_scheme \<Rightarrow> nat" where
  "recent_sends P now d = tcount (\<lambda>m. P m \<and> now - seconds 60 \<le> wo_created_at m) (wb_outbox d)"

definition queued_in :: "string \<Rightarrow> 'a web_db_scheme \<Rightarrow> nat" where
  "queued_in room d = tcount (\<lambda>m. wo_room_id m = room \<and> wo_status m \<in> {WebPending, WebClaimed}) (wb_outbox d)"

definition new_message ::
  "web_digests \<Rightarrow> time \<Rightarrow> string \<Rightarrow> string \<Rightarrow> web_send \<Rightarrow> web_profile \<Rightarrow> web_attachment list \<Rightarrow> web_message" where
  "new_message h now user room q p attachments =
     \<lparr>wo_id = message_key h user (wn_client_message_id q), wo_room_id = room, wo_owner_id = user, wo_profile_id = wp_id p,
      wo_client_message_id = wn_client_message_id q,
      wo_payload = \<lparr>wy_display_name = wp_display_name p, wy_avatar_url = wp_avatar_url p, wy_text = wn_text q,
                    wy_reply_to = wn_reply_to q, wy_sticker = wn_sticker q, wy_attachments = attachments\<rparr>,
      wo_payload_hash = wd_send h room q, wo_status = WebPending, wo_claim_nonce = [], wo_claimed_at = None,
      wo_discord_message_id = [], wo_discord_created_at = None, wo_webhook_id = [], wo_reason = [],
      wo_routing_status = ''pending'', wo_created_at = now\<rparr>"

definition client_conflict :: error where
  "client_conflict = WebRoomError ''client_message_id_conflict'' 409"

definition insert_message ::
  "web_message \<Rightarrow> 'a web_db_scheme \<Rightarrow> (delivery_view, 'a web_db_scheme) outcome" where
  "insert_message m d =
     (if 10 \<le> recent_sends (\<lambda>x. wo_owner_id x = wo_owner_id m) (wo_created_at m) d
        \<or> 30 \<le> recent_sends (\<lambda>x. wo_room_id x = wo_room_id m) (wo_created_at m) d
      then (Inl (WebRoomError ''web_send_rate_limit'' 429), d)
      else if 32 \<le> queued_in (wo_room_id m) d then (Inl (WebRoomError ''web_send_capacity'' 429), d)
      else if (wo_owner_id m, wo_client_message_id m)
                \<in> set (map (\<lambda>x. (wo_owner_id x, wo_client_message_id x)) (wb_outbox d))
      then (Inl client_conflict, d)
      else (Inr (view_of m), d\<lparr>wb_outbox := tins m (wb_outbox d)\<rparr>))"

text \<open>A message that has no row yet: profile, sticker, attachments and reply are checked in this order.\<close>

definition enqueue_new ::
  "web_digests \<Rightarrow> time \<Rightarrow> string \<Rightarrow> web_room \<Rightarrow> web_send \<Rightarrow> 'a web_db_scheme
    \<Rightarrow> (delivery_view, 'a web_db_scheme) outcome" where
  "enqueue_new h now user r q d =
     (case owned_profile (wn_profile_id q) user d of
        Inl e \<Rightarrow> (Inl e, d)
      | Inr p \<Rightarrow>
          if wn_sticker q \<noteq> [] \<and> expression_of r (wn_sticker q) ''sticker'' d = None
          then (Inl (WebRoomError ''sticker_unavailable'' 422), d)
          else
            (case chosen_attachments h now (wx_id r) user (wn_attachment_ids q) d of
               Inl e \<Rightarrow> (Inl e, d)
             | Inr attachments \<Rightarrow>
                 (case reply_readable h r (wn_reply_to q) d of
                    Inl e \<Rightarrow> (Inl e, d)
                  | Inr False \<Rightarrow> (Inl (WebRoomError ''reply_source_unavailable'' 422), d)
                  | Inr True \<Rightarrow> insert_message (new_message h now user (wx_id r) q p attachments) d)))"

text \<open>The transaction of \<open>enqueue\<close>, which checks the access again.\<close>

definition enqueue_locked ::
  "web_digests \<Rightarrow> time \<Rightarrow> string \<Rightarrow> string \<Rightarrow> web_send \<Rightarrow> 'a web_db_scheme
    \<Rightarrow> (delivery_view, 'a web_db_scheme) outcome" where
  "enqueue_locked h now user room q d =
     (case get_web_room d room of
        None \<Rightarrow> (Inl room_unavailable, d)
      | Some r \<Rightarrow>
          if \<not> web_access h r user True d then (Inl room_unavailable, d)
          else
            (case get_message d (message_key h user (wn_client_message_id q)) of
               Some m \<Rightarrow> if wo_payload_hash m \<noteq> wd_send h room q then (Inl client_conflict, d) else (Inr (view_of m), d)
             | None \<Rightarrow> enqueue_new h now user r q d))"

definition enqueue ::
  "web_digests \<Rightarrow> time \<Rightarrow> string \<Rightarrow> string \<Rightarrow> web_send \<Rightarrow> ('a web_db_scheme \<Rightarrow> 'a web_db_scheme) \<Rightarrow> 'a web_db_scheme
    \<Rightarrow> (delivery_view, 'a web_db_scheme) outcome" where
  "enqueue h now user room q others d =
     (case require_room h now room user True True d of
        Inl e \<Rightarrow> (Inl e, d)
      | Inr _ \<Rightarrow> enqueue_locked h now user room q (others d))"

text \<open>What an account still sees as on its way: delivered messages only until the room's source of them is kept.\<close>

definition echo_observed :: "string \<Rightarrow> web_message \<Rightarrow> 'a web_db_scheme \<Rightarrow> bool" where
  "echo_observed scope m d \<longleftrightarrow>
     list_ex (\<lambda>x. so_scope_id x = scope \<and> so_message_id x = wo_discord_message_id m) (room_sources d)"

definition list_outbox ::
  "web_digests \<Rightarrow> time \<Rightarrow> string \<Rightarrow> string \<Rightarrow> 'a web_db_scheme \<Rightarrow> error + delivery_view list" where
  "list_outbox h now room user d =
     (case require_room h now room user False False d of
        Inl e \<Rightarrow> Inl e
      | Inr r \<Rightarrow>
          map_sum id
            (\<lambda>s. map view_of (tlimit 32 (sort_key (\<lambda>m. - wo_created_at m)
                (filter (\<lambda>m. wo_room_id m = room \<and> wo_owner_id m = user
                   \<and> (wo_status m \<noteq> WebDelivered \<or> wo_discord_message_id m = []
                      \<or> \<not> echo_observed (scope_key (wd_room h) s) m d)) (wb_outbox d)))))
            (scope_of_room r))"

section \<open>Claiming\<close>

definition expire_claims :: "time \<Rightarrow> string \<Rightarrow> 'a web_db_scheme \<Rightarrow> 'a web_db_scheme" where
  "expire_claims now room d =
     d\<lparr>wb_outbox := tset
         (\<lambda>m. wo_room_id m = room \<and> wo_status m = WebClaimed
            \<and> (case wo_claimed_at m of None \<Rightarrow> False | Some t \<Rightarrow> t < now - minutes 2))
         (\<lambda>m. m\<lparr>wo_status := WebUncertain, wo_reason := ''claim_expired_no_receipt''\<rparr>) (wb_outbox d)\<rparr>"

definition settle_message :: "outbox_status \<Rightarrow> string \<Rightarrow> web_message \<Rightarrow> web_message" where
  "settle_message st reason m = m\<lparr>wo_status := st, wo_reason := reason\<rparr>"

definition take_message :: "time \<Rightarrow> string \<Rightarrow> string \<Rightarrow> web_message \<Rightarrow> web_message" where
  "take_message now nonce webhook m =
     m\<lparr>wo_status := WebClaimed, wo_claim_nonce := nonce, wo_claimed_at := Some now, wo_webhook_id := webhook\<rparr>"

text \<open>What refuses a pending row at its turn, and the sticker that goes with it otherwise.\<close>

definition refusal ::
  "web_digests \<Rightarrow> time \<Rightarrow> web_room \<Rightarrow> web_message \<Rightarrow> 'a web_db_scheme \<Rightarrow> (outbox_status \<times> string) option" where
  "refusal h now r m d =
     (if \<not> web_access h r (wo_owner_id m) True d then Some (WebCancelled, ''access_revoked'')
      else if wo_created_at m < now - minutes 5 then Some (WebFailed, ''queue_expired'')
      else if wy_sticker (wo_payload m) \<noteq> [] \<and> expression_of r (wy_sticker (wo_payload m)) ''sticker'' d = None
      then Some (WebFailed, ''sticker_unavailable'')
      else None)"

definition sticker_of :: "web_room \<Rightarrow> web_message \<Rightarrow> 'a web_db_scheme \<Rightarrow> expression_row option" where
  "sticker_of r m d =
     (if wy_sticker (wo_payload m) = [] then None else expression_of r (wy_sticker (wo_payload m)) ''sticker'' d)"

text \<open>The delivery is built from the row as it was before it is taken.\<close>

fun claim_first ::
  "web_digests \<Rightarrow> time \<Rightarrow> web_room \<Rightarrow> string \<Rightarrow> web_message list \<Rightarrow> 'a web_db_scheme
    \<Rightarrow> room_delivery option \<times> 'a web_db_scheme" where
  "claim_first h now r nonce [] d = (None, d)"
| "claim_first h now r nonce (m # ms) d =
     (case refusal h now r m d of
        Some (st, reason) \<Rightarrow> claim_first h now r nonce ms (put_message (wo_id m) (settle_message st reason) d)
      | None \<Rightarrow>
          (Some (delivery_of r nonce (wx_webhook_id r) (sticker_of r m d) m),
           put_message (wo_id m) (take_message now nonce (wx_webhook_id r)) d))"

definition pending_rows :: "string \<Rightarrow> 'a web_db_scheme \<Rightarrow> web_message list" where
  "pending_rows room d =
     tlimit 32 (sort_key wo_created_at (filter (\<lambda>m. wo_room_id m = room \<and> wo_status m = WebPending) (wb_outbox d)))"

definition claim_message ::
  "web_digests \<Rightarrow> time \<Rightarrow> string \<Rightarrow> string \<Rightarrow> string \<Rightarrow> 'a web_db_scheme
    \<Rightarrow> (room_delivery option, 'a web_db_scheme) outcome" where
  "claim_message h now connection room nonce d =
     (case get_web_room d room of
        None \<Rightarrow> (Inl room_unavailable, d)
      | Some r \<Rightarrow>
          if wx_connection_id r \<noteq> connection then (Inl room_unavailable, d)
          else if \<not> wx_enabled r \<or> wx_webhook_id r = [] then (Inr None, d)
          else
            (case fresh_room h now r d of
               Inl e \<Rightarrow> (Inl e, d)
             | Inr False \<Rightarrow> (Inr None, d)
             | Inr True \<Rightarrow>
                 (let d1 = expire_claims now room d; res = claim_first h now r nonce (pending_rows room d1) d1 in
                  (Inr (fst res), snd res))))"

section \<open>Between the claim and the receipt\<close>

definition claim_stands ::
  "web_digests \<Rightarrow> time \<Rightarrow> string \<Rightarrow> string \<Rightarrow> web_message \<Rightarrow> web_room \<Rightarrow> 'a web_db_scheme \<Rightarrow> error + bool" where
  "claim_stands h now connection nonce m r d =
     (if wx_connection_id r = connection \<and> wo_status m = WebClaimed \<and> wo_claim_nonce m = nonce
         \<and> web_access h r (wo_owner_id m) True d
      then fresh_room h now r d else Inr False)"

definition web_preflight ::
  "web_digests \<Rightarrow> time \<Rightarrow> string \<Rightarrow> string \<Rightarrow> string \<Rightarrow> 'a web_db_scheme \<Rightarrow> error + bool" where
  "web_preflight h now connection k nonce d =
     (case get_message d k of
        None \<Rightarrow> Inr False
      | Some m \<Rightarrow>
          (case get_web_room d (wo_room_id m) of
             None \<Rightarrow> Inr False
           | Some r \<Rightarrow>
               (let y = wo_payload m in
                if wy_sticker y \<noteq> [] \<and> expression_of r (wy_sticker y) ''sticker'' d = None then Inr False
                else if list_ex (\<lambda>a. attachment_record h now (wx_id r) (wo_owner_id m) (wa_id a) d = None)
                          (wy_attachments y)
                then Inr False
                else
                  (case reply_readable h r (wy_reply_to y) d of
                     Inl e \<Rightarrow> Inl e
                   | Inr ok \<Rightarrow> if ok then claim_stands h now connection nonce m r d else Inr False))))"

definition attachment_for_claim ::
  "web_digests \<Rightarrow> time \<Rightarrow> string \<Rightarrow> string \<Rightarrow> string \<Rightarrow> string \<Rightarrow> 'a web_db_scheme \<Rightarrow> error + media_artifact" where
  "attachment_for_claim h now connection k nonce attachment d =
     (case get_message d k of
        None \<Rightarrow> Inl (WebRoomError ''attachment_claim_mismatch'' 409)
      | Some m \<Rightarrow>
          (case get_web_room d (wo_room_id m) of
             None \<Rightarrow> Inl (WebRoomError ''attachment_claim_mismatch'' 409)
           | Some r \<Rightarrow>
               if wx_connection_id r \<noteq> connection \<or> wo_claim_nonce m \<noteq> nonce \<or> wo_status m \<noteq> WebClaimed
               then Inl (WebRoomError ''attachment_claim_mismatch'' 409)
               else if attachment \<notin> set (filter (\<lambda>x. x \<noteq> []) (map wa_id (wy_attachments (wo_payload m))))
               then Inl (WebRoomError ''attachment_unavailable'' 404)
               else
                 (case attachment_record h now (wx_id r) (wo_owner_id m) attachment d of
                    None \<Rightarrow> Inl (WebRoomError ''attachment_unavailable'' 404)
                  | Some a \<Rightarrow> Inr a)))"

section \<open>Receipts\<close>

definition receipt_status :: "string \<Rightarrow> outbox_status option" where
  "receipt_status s =
     (if s = ''delivered'' then Some WebDelivered
      else if s = ''failed'' then Some WebFailed
      else if s = ''uncertain'' then Some WebUncertain
      else if s = ''cancelled'' then Some WebCancelled
      else None)"

record receipt =
  re_status :: string
  re_message_id :: string
  re_created_at :: "time option"
  re_webhook_id :: string
  re_reason :: string

text \<open>The bytes of the uploads are deleted with the receipt.\<close>

definition drop_uploads :: "web_digests \<Rightarrow> web_message \<Rightarrow> 'a web_db_scheme \<Rightarrow> 'a web_db_scheme" where
  "drop_uploads h m d =
     (let ids = filter (\<lambda>x. x \<noteq> []) (map wa_id (wy_attachments (wo_payload m))) in
      d\<lparr>wb_artifacts := tdel (\<lambda>a. ga_id a \<in> set ids \<and> ga_owner_id a = wo_owner_id m
          \<and> ga_deployment_id a = attachment_scope h (wo_room_id m) \<and> ga_provider a = web_upload) (wb_artifacts d)\<rparr>)"

definition receive :: "outbox_status \<Rightarrow> receipt \<Rightarrow> web_message \<Rightarrow> web_message" where
  "receive st q m =
     m\<lparr>wo_status := st, wo_discord_message_id := re_message_id q, wo_discord_created_at := re_created_at q,
       wo_reason := take 80 (re_reason q)\<rparr>"

definition receipt_refused :: "outbox_status \<Rightarrow> receipt \<Rightarrow> web_message \<Rightarrow> 'a web_db_scheme \<Rightarrow> error option" where
  "receipt_refused st q m d =
     (if st \<noteq> WebDelivered then None
      else if re_webhook_id q \<noteq> wo_webhook_id m then Some (WebRoomError ''webhook_receipt_mismatch'' 409)
      else if list_ex (\<lambda>x. wo_discord_message_id x = re_message_id q \<and> wo_id x \<noteq> wo_id m) (wb_outbox d)
      then Some (WebRoomError ''discord_receipt_reused'' 409)
      else None)"

definition acknowledge_row ::
  "web_digests \<Rightarrow> outbox_status \<Rightarrow> receipt \<Rightarrow> web_message \<Rightarrow> 'a web_db_scheme
    \<Rightarrow> (delivery_view, 'a web_db_scheme) outcome" where
  "acknowledge_row h st q m d =
     (if wo_status m = WebDelivered then
        (if st = WebDelivered \<and> wo_discord_message_id m = re_message_id q \<and> wo_webhook_id m = re_webhook_id q
         then (Inr (view_of m), d) else (Inl (WebRoomError ''delivery_receipt_conflict'' 409), d))
      else if wo_status m \<notin> {WebClaimed, WebUncertain} then
        (if wo_status m = st \<and> re_message_id q = [] \<and> wo_discord_message_id m = []
         then (Inr (view_of m), d) else (Inl (WebRoomError ''delivery_terminal'' 409), d))
      else
        (case receipt_refused st q m d of
           Some e \<Rightarrow> (Inl e, d)
         | None \<Rightarrow> (Inr (view_of (receive st q m)), drop_uploads h m (put_message (wo_id m) (receive st q) d))))"

definition web_acknowledge ::
  "web_digests \<Rightarrow> string \<Rightarrow> string \<Rightarrow> string \<Rightarrow> receipt \<Rightarrow> 'a web_db_scheme
    \<Rightarrow> (delivery_view, 'a web_db_scheme) outcome" where
  "web_acknowledge h connection k nonce q d =
     (case receipt_status (re_status q) of
        None \<Rightarrow> (Inl (WebRoomError ''invalid_delivery_status'' 422), d)
      | Some st \<Rightarrow>
          if st = WebDelivered \<and> (re_message_id q = [] \<or> re_created_at q = None \<or> re_webhook_id q = [])
          then (Inl (WebRoomError ''delivery_receipt_required'' 422), d)
          else
            (case get_message d k of
               None \<Rightarrow> (Inl (WebRoomError ''delivery_claim_mismatch'' 409), d)
             | Some m \<Rightarrow>
                 (case get_web_room d (wo_room_id m) of
                    None \<Rightarrow> (Inl (WebRoomError ''delivery_claim_mismatch'' 409), d)
                  | Some r \<Rightarrow>
                      if wx_connection_id r \<noteq> connection \<or> wo_claim_nonce m \<noteq> nonce
                      then (Inl (WebRoomError ''delivery_claim_mismatch'' 409), d)
                      else acknowledge_row h st q m d)))"

section \<open>Dispatch of what was delivered\<close>

definition delivered_message ::
  "string \<times> string \<times> string \<times> string \<Rightarrow> string \<Rightarrow> 'a web_db_scheme \<Rightarrow> web_message option" where
  "delivered_message destination mid d =
     find (\<lambda>m. wo_discord_message_id m = mid \<and> wo_status m = WebDelivered
              \<and> map_option room_destination (get_web_room d (wo_room_id m)) = Some destination) (wb_outbox d)"

text \<open>The rows of a connection with their rooms.\<close>

definition with_rooms :: "(web_message \<Rightarrow> web_room \<Rightarrow> bool) \<Rightarrow> 'a web_db_scheme \<Rightarrow> (web_message \<times> web_room) list" where
  "with_rooms P d =
     concat (map (\<lambda>m. case get_web_room d (wo_room_id m) of None \<Rightarrow> [] | Some r \<Rightarrow> if P m r then [(m, r)] else [])
       (wb_outbox d))"

definition sent_delivery :: "web_message \<times> web_room \<Rightarrow> room_delivery" where
  "sent_delivery x = (case x of (m, r) \<Rightarrow> delivery_of r (wo_claim_nonce m) (wo_webhook_id m) None m)"

definition source_delivery :: "web_digests \<Rightarrow> string \<Rightarrow> string \<Rightarrow> 'a web_db_scheme \<Rightarrow> room_delivery option" where
  "source_delivery h connection mid d =
     (case with_rooms (\<lambda>m r. wx_connection_id r = connection \<and> wo_discord_message_id m = mid \<and> wo_status m = WebDelivered) d of
        [] \<Rightarrow> None
      | (m, r) # _ \<Rightarrow> if web_access h r (wo_owner_id m) True d then Some (sent_delivery (m, r)) else None)"

definition pending_dispatch :: "web_digests \<Rightarrow> string \<Rightarrow> 'a web_db_scheme \<Rightarrow> room_delivery list" where
  "pending_dispatch h connection d =
     map sent_delivery (filter (\<lambda>(m, r). web_access h r (wo_owner_id m) True d)
       (tlimit 32 (sort_key (\<lambda>(m, r). wo_created_at m)
         (with_rooms (\<lambda>m r. wx_connection_id r = connection \<and> wx_enabled r \<and> wo_status m = WebDelivered
                          \<and> wo_routing_status m = ''pending'') d))))"

definition finish_dispatch ::
  "string \<Rightarrow> string \<Rightarrow> string \<Rightarrow> string \<Rightarrow> 'a web_db_scheme \<Rightarrow> (unit, 'a web_db_scheme) outcome" where
  "finish_dispatch connection k nonce result d =
     (if result \<notin> {''processed'', ''failed''} then (Inl (WebRoomError ''invalid_dispatch_outcome'' 422), d)
      else
        (case get_message d k of
           None \<Rightarrow> (Inl (WebRoomError ''dispatch_claim_mismatch'' 409), d)
         | Some m \<Rightarrow>
             (case get_web_room d (wo_room_id m) of
                None \<Rightarrow> (Inl (WebRoomError ''dispatch_claim_mismatch'' 409), d)
              | Some r \<Rightarrow>
                  if wx_connection_id r \<noteq> connection \<or> wo_claim_nonce m \<noteq> nonce
                  then (Inl (WebRoomError ''dispatch_claim_mismatch'' 409), d)
                  else if wo_status m \<noteq> WebDelivered then (Inl (WebRoomError ''dispatch_requires_receipt'' 409), d)
                  else (Inr (), put_message k (\<lambda>m. m\<lparr>wo_routing_status := result\<rparr>) d))))"

section \<open>Deleting an account's part\<close>

definition drop_rooms :: "string list \<Rightarrow> 'a web_db_scheme \<Rightarrow> (string \<times> nat) list \<times> 'a web_db_scheme" where
  "drop_rooms ids d =
     (if ids = [] then ([], d)
      else
        ([(''web_room_reactions'', tcount (\<lambda>x. wc_room_id x \<in> set ids) (wb_reactions d)),
          (''web_room_outbox'', tcount (\<lambda>x. wo_room_id x \<in> set ids) (wb_outbox d)),
          (''web_room_members'', tcount (\<lambda>x. wm_room_id x \<in> set ids) (wb_members d)),
          (''web_room_agent_reading_cursors'', tcount (\<lambda>x. rc_room_id x \<in> set ids) (wb_cursors d)),
          (''web_rooms'', tcount (\<lambda>x. wx_id x \<in> set ids) (wb_rooms d))],
         d\<lparr>wb_reactions := tdel (\<lambda>x. wc_room_id x \<in> set ids) (wb_reactions d),
           wb_outbox := tdel (\<lambda>x. wo_room_id x \<in> set ids) (wb_outbox d),
           wb_members := tdel (\<lambda>x. wm_room_id x \<in> set ids) (wb_members d),
           wb_cursors := tdel (\<lambda>x. rc_room_id x \<in> set ids) (wb_cursors d),
           wb_rooms := tdel (\<lambda>x. wx_id x \<in> set ids) (wb_rooms d)\<rparr>))"

definition delete_web_owner :: "string \<Rightarrow> 'a web_db_scheme \<Rightarrow> (string \<times> nat) list \<times> 'a web_db_scheme" where
  "delete_web_owner owner d =
     (let r = drop_rooms (map wx_id (filter (\<lambda>x. wx_owner_id x = owner) (wb_rooms d))) d; d1 = snd r in
      (fst r @
         [(''web_reactions_by_user'', tcount (\<lambda>x. wc_user_id x = owner) (wb_reactions d1)),
          (''web_outbox_by_user'', tcount (\<lambda>x. wo_owner_id x = owner) (wb_outbox d1)),
          (''web_room_memberships'', tcount (\<lambda>x. wm_user_id x = owner) (wb_members d1)),
          (''web_profiles'', tcount (\<lambda>x. wp_owner_id x = owner) (wb_profiles d1)),
          (''agent_reading_by_user'', tcount (\<lambda>x. rc_user_id x = owner) (wb_cursors d1))],
       d1\<lparr>wb_reactions := tdel (\<lambda>x. wc_user_id x = owner) (wb_reactions d1),
          wb_outbox := tdel (\<lambda>x. wo_owner_id x = owner) (wb_outbox d1),
          wb_members := tdel (\<lambda>x. wm_user_id x = owner) (wb_members d1),
          wb_profiles := tdel (\<lambda>x. wp_owner_id x = owner) (wb_profiles d1),
          wb_cursors := tdel (\<lambda>x. rc_user_id x = owner) (wb_cursors d1)\<rparr>))"

end
