(* ===== verification/Web_Safety.thy ===== *)
theory Web_Safety
  imports Web_Outbox Contracts
begin

text \<open>
  What the outbox of the web rooms promises: it implements a delivery machine that hands a message out at
  most once, a receipt is final and names one message, what is handed out may be sent at that moment, and
  the senders stay within their limits.
\<close>

section \<open>Runs of the transactions\<close>

text \<open>
  What changes the outbox, in transactions that hold the lock, and what other tables this part writes.
  \<open>OtherTables\<close> is any change of the rest of the database, by other parts or by the rest of this one.
\<close>

datatype 'd web_command =
    SendMessage string string web_send
  | ClaimMessage string string string
  | AcknowledgeMessage string string string receipt
  | ConfigureRoom string string bool
  | SetMember string string string "bool option"
  | RegisterWebhook string string string
  | FinishDispatch string string string string
  | UploadAttachment string string string string string "8 word list"
  | DeleteWebOwner string
  | OtherTables "'d \<Rightarrow> 'd"

fun do_web ::
  "web_digests \<Rightarrow> time \<times> ('a web_db_scheme) web_command \<Rightarrow> 'a web_db_scheme \<Rightarrow> 'a web_db_scheme" where
  "do_web h (now, SendMessage user room q) d = snd (enqueue_locked h now user room q d)"
| "do_web h (now, ClaimMessage connection room nonce) d = snd (claim_message h now connection room nonce d)"
| "do_web h (now, AcknowledgeMessage connection k nonce q) d = snd (web_acknowledge h connection k nonce q d)"
| "do_web h (now, ConfigureRoom room owner enabled) d = snd (configure_room room owner enabled d)"
| "do_web h (now, SetMember room owner user post) d = snd (set_member h room owner user post d)"
| "do_web h (now, RegisterWebhook connection room webhook) d = snd (register_webhook connection room webhook d)"
| "do_web h (now, FinishDispatch connection k nonce result) d = snd (finish_dispatch connection k nonce result d)"
| "do_web h (now, UploadAttachment uid user room filename mime bytes) d =
     snd (create_attachment h now uid user room filename mime bytes d)"
| "do_web h (now, DeleteWebOwner owner) d = snd (delete_web_owner owner d)"
| "do_web h (now, OtherTables f) d = (f d)\<lparr>wb_outbox := wb_outbox d\<rparr>"

definition handed_ids :: "room_delivery option \<Rightarrow> string set" where
  "handed_ids v = (case v of None \<Rightarrow> {} | Some x \<Rightarrow> {dv_id (rw_view x)})"

text \<open>The messages that a command hands to a connector, and the one it takes a receipt for.\<close>

fun handed :: "web_digests \<Rightarrow> time \<times> ('a web_db_scheme) web_command \<Rightarrow> 'a web_db_scheme \<Rightarrow> string set" where
  "handed h (now, ClaimMessage connection room nonce) d =
     (case fst (claim_message h now connection room nonce d) of Inl _ \<Rightarrow> {} | Inr v \<Rightarrow> handed_ids v)"
| "handed h _ d = {}"

fun forgets :: "time \<times> ('a web_db_scheme) web_command \<Rightarrow> bool" where
  "forgets (now, DeleteWebOwner owner) = True"
| "forgets _ = False"

section \<open>The delivery machine\<close>

datatype phase = Absent | Queued | InFlight | Unsure | Sent string string | Ended outbox_status

definition row_phase :: "web_message \<Rightarrow> phase" where
  "row_phase m =
     (case wo_status m of
        WebPending \<Rightarrow> Queued
      | WebClaimed \<Rightarrow> InFlight
      | WebUncertain \<Rightarrow> Unsure
      | WebDelivered \<Rightarrow> Sent (wo_webhook_id m) (wo_discord_message_id m)
      | st \<Rightarrow> Ended st)"

definition web_phase :: "'a web_db_scheme \<Rightarrow> string \<Rightarrow> phase" where
  "web_phase d k = (case get_message d k of None \<Rightarrow> Absent | Some m \<Rightarrow> row_phase m)"

text \<open>What may become of a message without being handed out: nothing goes back to the queue.\<close>

definition later :: "phase \<Rightarrow> phase \<Rightarrow> bool" where
  "later p q \<longleftrightarrow> p = q \<or> (p = Queued \<and> (\<exists>st. q = Ended st)) \<or> (p \<in> {InFlight, Unsure} \<and> q \<notin> {Absent, Queued, InFlight})"

text \<open>
  What happens to a message: it is offered by its sender, handed out by a claim, found stale by a claim,
  or passed over by one, which may refuse it; it gets a receipt that says what became of it; it is
  withdrawn with the access to its room; or forgotten with an account.
\<close>

datatype outbox_event =
  Offered | HandedOut | Expired | Passed | Receipted phase | Withdrawn | Idle | Forgotten

fun outbox_spec :: "outbox_event \<Rightarrow> phase \<Rightarrow> phase \<Rightarrow> bool" where
  "outbox_spec Offered p q \<longleftrightarrow> q = p \<or> p = Absent \<and> q = Queued"
| "outbox_spec HandedOut p q \<longleftrightarrow> p = Queued \<and> q = InFlight"
| "outbox_spec Expired p q \<longleftrightarrow> p = InFlight \<and> q = Unsure"
| "outbox_spec Passed p q \<longleftrightarrow> q = p \<or> p = Queued \<and> q \<in> {Ended WebFailed, Ended WebCancelled}"
| "outbox_spec (Receipted r) p q \<longleftrightarrow>
     q = p \<or> p \<in> {InFlight, Unsure} \<and> q = r \<and> r \<notin> {Absent, Queued, InFlight}"
| "outbox_spec Withdrawn p q \<longleftrightarrow> q = p \<or> p = Queued \<and> q = Ended WebCancelled"
| "outbox_spec Idle p q \<longleftrightarrow> q = p"
| "outbox_spec Forgotten p q \<longleftrightarrow> q = p \<or> q = Absent"

lemma spec_later:
  assumes "outbox_spec e p q" and "e \<noteq> Forgotten" and "e \<noteq> HandedOut"
  shows "p = Absent \<and> q = Queued \<or> later p q"
  using assms by (cases e) (auto simp: later_def)

text \<open>The claims of a room that a claim finds stale, and what a receipt says.\<close>

definition stale_claim :: "time \<Rightarrow> string \<Rightarrow> web_message \<Rightarrow> bool" where
  "stale_claim now room m \<longleftrightarrow>
     wo_room_id m = room \<and> wo_status m = WebClaimed
     \<and> (case wo_claimed_at m of None \<Rightarrow> False | Some t \<Rightarrow> t + minutes 2 < now)"

definition open_to_claims where
  "open_to_claims h now connection room d r \<longleftrightarrow>
     get_web_room d room = Some r \<and> wx_connection_id r = connection \<and> wx_enabled r \<and> wx_webhook_id r \<noteq> []
     \<and> fresh_room h now r d = Inr True"

definition expires :: "web_digests \<Rightarrow> string \<Rightarrow> time \<Rightarrow> string \<Rightarrow> string \<Rightarrow> 'a web_db_scheme \<Rightarrow> bool" where
  "expires h k now connection room d \<longleftrightarrow>
     (case get_web_room d room of None \<Rightarrow> False | Some r \<Rightarrow> open_to_claims h now connection room d r)
     \<and> (case get_message d k of None \<Rightarrow> False | Some m \<Rightarrow> stale_claim now room m)"

definition receipt_phase :: "receipt \<Rightarrow> phase option" where
  "receipt_phase q =
     (case receipt_status (re_status q) of
        None \<Rightarrow> None
      | Some st \<Rightarrow>
          Some (case st of WebDelivered \<Rightarrow> Sent (re_webhook_id q) (re_message_id q) | WebUncertain \<Rightarrow> Unsure | _ \<Rightarrow> Ended st))"

fun web_event :: "web_digests \<Rightarrow> string \<Rightarrow> time \<times> ('a web_db_scheme) web_command \<Rightarrow> 'a web_db_scheme \<Rightarrow> outbox_event" where
  "web_event h k (now, SendMessage user room q) d =
     (if message_key h user (wn_client_message_id q) = k then Offered else Idle)"
| "web_event h k (now, ClaimMessage connection room nonce) d =
     (if k \<in> handed h (now, ClaimMessage connection room nonce) d then HandedOut
      else if expires h k now connection room d then Expired else Passed)"
| "web_event h k (now, AcknowledgeMessage connection k' nonce q) d =
     (case receipt_phase q of None \<Rightarrow> Idle | Some r \<Rightarrow> if k' = k then Receipted r else Idle)"
| "web_event h k (now, ConfigureRoom room owner enabled) d = (if enabled then Idle else Withdrawn)"
| "web_event h k (now, SetMember room owner user post) d = Withdrawn"
| "web_event h k (now, DeleteWebOwner owner) d = Forgotten"
| "web_event h k (now, _) d = Idle"

lemma web_event_simps [simp]:
  "web_event h k x d = Forgotten \<longleftrightarrow> forgets x"
  "Forgotten = web_event h k x d \<longleftrightarrow> forgets x"
  "web_event h k x d = HandedOut \<longleftrightarrow> k \<in> handed h x d"
  by (cases "(h, k, x, d)" rule: web_event.cases; simp split: option.split)+

lemma later_refl [simp, intro]: "later p p"
  by (simp add: later_def)

lemma later_trans: "later p q \<Longrightarrow> later q r \<Longrightarrow> later p r"
  by (auto simp: later_def)

lemma later_to_Queued [simp]: "later p Queued \<longleftrightarrow> p = Queued"
  by (auto simp: later_def)

section \<open>What one transaction does to the rows\<close>

definition sealed where
  "sealed m = (wo_id m, wo_room_id m, wo_owner_id m, wo_profile_id m, wo_client_message_id m, wo_payload m,
     wo_payload_hash m, wo_created_at m)"

text \<open>\<open>K\<close> are the rows that are handed out, \<open>L\<close> those that may have got their receipt.\<close>

definition row_moves :: "string set \<Rightarrow> string set \<Rightarrow> web_message \<Rightarrow> web_message \<Rightarrow> bool" where
  "row_moves K L a b \<longleftrightarrow>
     sealed a = sealed b
     \<and> (if wo_id a \<in> K then row_phase a = Queued \<and> row_phase b = InFlight
        else later (row_phase a) (row_phase b)
             \<and> (wo_status b = WebDelivered \<longrightarrow> wo_id a \<in> L \<or> row_phase a = row_phase b))"

definition outbox_moves :: "string set \<Rightarrow> string set \<Rightarrow> 'a web_db_scheme \<Rightarrow> 'b web_db_scheme \<Rightarrow> bool" where
  "outbox_moves K L d d' \<longleftrightarrow> list_all2 (row_moves K L) (wb_outbox d) (wb_outbox d')"

lemma sealed_eqD:
  assumes "sealed a = sealed b"
  shows "wo_id a = wo_id b" "wo_room_id a = wo_room_id b" "wo_owner_id a = wo_owner_id b"
    "wo_client_message_id a = wo_client_message_id b" "wo_payload_hash a = wo_payload_hash b"
    "wo_created_at a = wo_created_at b" "wo_payload a = wo_payload b"
  using assms by (simp_all add: sealed_def)

lemma row_moves_refl [intro]: "wo_id a \<notin> K \<Longrightarrow> row_moves K L a a"
  by (simp add: row_moves_def)

lemma phase_queued_iff [simp]: "row_phase m = Queued \<longleftrightarrow> wo_status m = WebPending"
  by (simp add: row_phase_def split: outbox_status.split)

lemma phase_in_flight_iff [simp]: "row_phase m = InFlight \<longleftrightarrow> wo_status m = WebClaimed"
  by (simp add: row_phase_def split: outbox_status.split)

lemma phase_absent [simp]: "row_phase m \<noteq> Absent"
  by (simp add: row_phase_def split: outbox_status.split)

lemma phase_sent_iff [simp]:
  "row_phase m = Sent w x \<longleftrightarrow> wo_status m = WebDelivered \<and> wo_webhook_id m = w \<and> wo_discord_message_id m = x"
  by (auto simp: row_phase_def split: outbox_status.split)

lemma phase_eq_delivered: "row_phase a = row_phase b \<Longrightarrow> wo_status b = WebDelivered \<Longrightarrow> wo_status a = WebDelivered"
  by (metis phase_sent_iff)

lemma row_moves_trans:
  assumes "row_moves {} {} a b" and "row_moves K L b c"
  shows "row_moves K L a c"
proof -
  have id: "wo_id a = wo_id b" using assms(1) by (auto simp: row_moves_def dest: sealed_eqD)
  from assms show ?thesis
    by (auto simp: row_moves_def id later_to_Queued simp flip: phase_queued_iff split: if_splits intro: later_trans dest: phase_eq_delivered)
qed

lemma outbox_moves_refl: "wb_outbox d' = wb_outbox d \<Longrightarrow> outbox_moves {} L d d'"
  by (auto simp: outbox_moves_def intro!: list.rel_refl_strong)

lemma outbox_moves_trans: "outbox_moves {} {} d d1 \<Longrightarrow> outbox_moves K L d1 d2 \<Longrightarrow> outbox_moves K L d d2"
  unfolding outbox_moves_def by (rule list_all2_trans [OF row_moves_trans])

lemma list_all2_tset:
  assumes "\<And>m. m \<in> set t \<Longrightarrow> P m \<Longrightarrow> R m (f m)" and "\<And>m. m \<in> set t \<Longrightarrow> \<not> P m \<Longrightarrow> R m m"
  shows "list_all2 R t (tset P f t)"
  using assms by (auto simp: tset_def list_all2_map2 intro!: list.rel_refl_strong)

lemma moves_tget:
  assumes "list_all2 (row_moves K L) t t'"
  shows "rel_option (row_moves K L) (tget wo_id t k) (tget wo_id t' k)"
  using assms
  by (induction rule: list_all2_induct) (auto simp: row_moves_def dest: sealed_eqD)

lemma moves_ids: "outbox_moves K L d d' \<Longrightarrow> map wo_id (wb_outbox d') = map wo_id (wb_outbox d)"
  unfolding outbox_moves_def
  by (induction rule: list_all2_induct) (auto simp: row_moves_def dest: sealed_eqD)

lemma moves_keyed: "outbox_moves K L d d' \<Longrightarrow> keyed wo_id (wb_outbox d') = keyed wo_id (wb_outbox d)"
  by (simp add: keyed_def moves_ids)

lemma cancel_pending_moves:
  "wb_outbox d' = wb_outbox d \<Longrightarrow> outbox_moves {} {} d (cancel_pending P reason d')"
  by (auto simp: outbox_moves_def cancel_pending_def row_moves_def sealed_def later_def row_phase_def intro!: list_all2_tset)

lemma expire_claims_moves: "outbox_moves {} {} d (expire_claims now room d)"
  by (auto simp: outbox_moves_def expire_claims_def row_moves_def sealed_def later_def row_phase_def intro!: list_all2_tset)

lemma put_message_moves:
  assumes "keyed wo_id (wb_outbox d)" and "m \<in> set (wb_outbox d)" and "row_moves K L m (f m)" and "K \<subseteq> {wo_id m}"
  shows "outbox_moves K L d (put_message (wo_id m) f d)"
  unfolding outbox_moves_def put_message_def
proof (simp, rule list_all2_tset)
  fix x :: web_message assume "x \<in> set (wb_outbox d)" "wo_id x = wo_id m"
  then have "x = m" using assms(1,2) by (blast dest: keyed_eq)
  then show "row_moves K L x (f x)" by (simp add: assms(3))
next
  fix x :: web_message assume "wo_id x \<noteq> wo_id m"
  then show "row_moves K L x x" using assms(4) by auto
qed

section \<open>Claims\<close>

lemma put_message_outbox: "wb_outbox (put_message k f d) = tset (\<lambda>m. wo_id m = k) f (wb_outbox d)"
  by (simp add: put_message_def)

lemma refused_row_moves:
  assumes "refusal h now r m d = Some (st, reason)" and "wo_status m = WebPending"
  shows "row_moves {} {} m (settle_message st reason m)"
  using assms
  by (auto simp: refusal_def row_moves_def settle_message_def sealed_def row_phase_def later_def split: if_splits)

lemma taken_row_moves:
  assumes "wo_status m = WebPending"
  shows "row_moves {wo_id m} {} m (take_message now nonce webhook m)"
  using assms by (simp add: row_moves_def take_message_def sealed_def)

lemma claim_first_moves:
  assumes "keyed wo_id (wb_outbox d)" and "distinct (map wo_id ms)"
    and "\<forall>m \<in> set ms. m \<in> set (wb_outbox d) \<and> wo_status m = WebPending"
  shows "outbox_moves (handed_ids (fst (claim_first h now r nonce ms d))) {} d (snd (claim_first h now r nonce ms d))"
  using assms
proof (induction ms arbitrary: d)
  case Nil
  then show ?case by (simp add: handed_ids_def outbox_moves_refl)
next
  case (Cons m ms)
  then have m: "m \<in> set (wb_outbox d)" "wo_status m = WebPending" by simp_all
  show ?case
  proof (cases "refusal h now r m d")
    case None
    have "outbox_moves {wo_id m} {} d (put_message (wo_id m) (take_message now nonce (wx_webhook_id r)) d)"
      by (rule put_message_moves [OF Cons.prems(1) m(1)]) (simp_all add: taken_row_moves m(2))
    with None show ?thesis by (simp add: handed_ids_def delivery_of_def view_of_def)
  next
    case (Some x)
    obtain st reason where x: "x = (st, reason)" by (cases x)
    let ?d = "put_message (wo_id m) (settle_message st reason) d"
    have step: "outbox_moves {} {} d ?d"
      by (rule put_message_moves [OF Cons.prems(1) m(1)]) (simp_all add: refused_row_moves [OF Some [unfolded x] m(2)])
    have "\<forall>y \<in> set ms. y \<in> set (wb_outbox ?d) \<and> wo_status y = WebPending"
    proof
      fix y assume y: "y \<in> set ms"
      then have "wo_id y \<in> wo_id ` set ms" by (rule imageI)
      then have "wo_id y \<noteq> wo_id m" using Cons.prems(2) by (metis distinct.simps(2) list.simps(9) list.set_map)
      with y have "y \<in> set (wb_outbox d)" "wo_status y = WebPending" "wo_id y \<noteq> wo_id m"
        using Cons.prems(3) by auto
      then show "y \<in> set (wb_outbox ?d) \<and> wo_status y = WebPending"
        by (auto simp: put_message_outbox set_tset image_iff)
    qed
    with Cons.IH [of ?d] Cons.prems(1,2) step
    have "outbox_moves (handed_ids (fst (claim_first h now r nonce ms ?d))) {} ?d (snd (claim_first h now r nonce ms ?d))"
      by (simp add: moves_keyed)
    with step Some x show ?thesis by (simp add: outbox_moves_trans)
  qed
qed

lemma distinct_pending_rows: "keyed wo_id (wb_outbox d) \<Longrightarrow> distinct (map wo_id (pending_rows room d))"
  by (auto simp: pending_rows_def tlimit_def keyed_def distinct_map distinct_filter take_map
      intro!: distinct_take inj_on_subset [of wo_id "set (wb_outbox d)"] dest!: in_set_takeD)

lemma pending_rowsD: "m \<in> set (pending_rows room d) \<Longrightarrow>
    m \<in> set (wb_outbox d) \<and> wo_room_id m = room \<and> wo_status m = WebPending"
  by (auto simp: pending_rows_def tlimit_def dest!: in_set_takeD)

lemma claim_first_handed: "handed_ids (fst (claim_first h now r nonce ms d)) \<subseteq> wo_id ` set ms"
proof (induction ms arbitrary: d)
  case (Cons m ms)
  show ?case
  proof (cases "refusal h now r m d")
    case None
    then show ?thesis by (simp add: handed_ids_def delivery_of_def view_of_def)
  next
    case (Some x)
    then show ?thesis using Cons.IH [of "put_message (wo_id m) (settle_message (fst x) (snd x)) d"]
      by (cases x) (simp add: subset_insertI2)
  qed
qed (simp add: handed_ids_def)

text \<open>A claim changes nothing, or goes through the pending rows of an open room.\<close>

definition claim_scan where
  "claim_scan h now room nonce r d =
     claim_first h now r nonce (pending_rows room (expire_claims now room d)) (expire_claims now room d)"

lemma claim_message_eq:
  "(\<exists>e. claim_message h now connection room nonce d \<in> {(Inl e, d), (Inr None, d)}
      \<and> (\<forall>r. \<not> open_to_claims h now connection room d r))
   \<or> (\<exists>r. open_to_claims h now connection room d r
          \<and> claim_message h now connection room nonce d
              = (Inr (fst (claim_scan h now room nonce r d)), snd (claim_scan h now room nonce r d)))"
  by (simp add: claim_message_def open_to_claims_def claim_scan_def Let_def split: option.split sum.split bool.split)

lemma claim_outcomes:
  obtains (nothing) e where "claim_message h now connection room nonce d \<in> {(Inl e, d), (Inr None, d)}"
      "\<And>r. \<not> open_to_claims h now connection room d r"
  | (scanned) r where "open_to_claims h now connection room d r"
      "claim_message h now connection room nonce d
        = (Inr (fst (claim_scan h now room nonce r d)), snd (claim_scan h now room nonce r d))"
  using claim_message_eq [of h now connection room nonce d] by blast

lemma handed_pending:
  assumes "k \<in> handed h x d"
  shows "k \<in> wo_id ` set (wb_outbox d)"
  using assms
proof (induction h x d rule: handed.induct)
  case (1 h now connection room nonce d)
  let ?d = "expire_claims now room d"
  obtain r where "k \<in> handed_ids (fst (claim_scan h now room nonce r d))"
    using 1 by (cases rule: claim_outcomes [of h now connection room nonce d]) (auto simp: handed_ids_def)
  with claim_first_handed have "k \<in> wo_id ` set (pending_rows room ?d)" unfolding claim_scan_def by blast
  then have "k \<in> set (map wo_id (wb_outbox ?d))" by (auto dest: pending_rowsD)
  then show ?case by (simp only: moves_ids [OF expire_claims_moves] set_map)
qed simp_all

lemma claim_moves:
  assumes "keyed wo_id (wb_outbox d)"
  shows "outbox_moves (handed h (now, ClaimMessage connection room nonce) d) {} d
           (snd (claim_message h now connection room nonce d))"
proof -
  let ?d = "expire_claims now room d"
  have keyed: "keyed wo_id (wb_outbox ?d)"
    using assms expire_claims_moves [of d now room] by (simp add: moves_keyed)
  have scan: "outbox_moves (handed_ids (fst (claim_scan h now room nonce r d))) {} d
      (snd (claim_scan h now room nonce r d))" for r
    unfolding claim_scan_def
    by (rule outbox_moves_trans [OF expire_claims_moves])
      (rule claim_first_moves [OF keyed distinct_pending_rows [OF keyed]], blast dest: pending_rowsD)
  show ?thesis
    by (cases rule: claim_outcomes [of h now connection room nonce d])
      (auto simp: scan outbox_moves_refl handed_ids_def [where v = None])
qed

section \<open>The other transactions\<close>

lemma receive_row_moves:
  assumes "wo_status m \<in> {WebClaimed, WebUncertain}" and "receipt_status s = Some st"
  shows "row_moves {} {wo_id m} m (receive st q m)"
  using assms
  by (auto simp: row_moves_def receive_def receipt_status_def sealed_def row_phase_def later_def
      split: if_splits outbox_status.splits)

lemma acknowledge_row_eq:
  "snd (acknowledge_row h st q m d) = d
   \<or> ((wo_status m = WebClaimed \<or> wo_status m = WebUncertain) \<and> receipt_refused st q m d = None
       \<and> snd (acknowledge_row h st q m d) = drop_uploads h m (put_message (wo_id m) (receive st q) d))"
  by (simp add: acknowledge_row_def split: option.split)

lemma acknowledge_eq:
  "snd (web_acknowledge h connection k nonce q d) = d
   \<or> (\<exists>m st. get_message d k = Some m \<and> receipt_status (re_status q) = Some st
          \<and> snd (web_acknowledge h connection k nonce q d) = snd (acknowledge_row h st q m d))"
  by (simp add: web_acknowledge_def split: option.split)

lemma acknowledge_effect:
  obtains (same) "snd (web_acknowledge h connection k nonce q d) = d"
  | (received) m st where "get_message d k = Some m" "receipt_status (re_status q) = Some st"
      "wo_status m = WebClaimed \<or> wo_status m = WebUncertain" "receipt_refused st q m d = None"
      "snd (web_acknowledge h connection k nonce q d) = drop_uploads h m (put_message (wo_id m) (receive st q) d)"
  using acknowledge_eq [of h connection k nonce q d] acknowledge_row_eq [of h _ q _ d] by metis

lemma acknowledge_moves:
  assumes "keyed wo_id (wb_outbox d)"
  shows "outbox_moves {} {k} d (snd (web_acknowledge h connection k nonce q d))"
proof -
  have "outbox_moves {} {k} d (drop_uploads h m (put_message (wo_id m) (receive st q) d))"
    if "get_message d k = Some m" "wo_status m = WebClaimed \<or> wo_status m = WebUncertain"
      "receipt_status (re_status q) = Some st" for m st
  proof -
    have m: "m \<in> set (wb_outbox d)" "wo_id m = k" using that(1) by (auto dest: tget_SomeD)
    have "row_moves {} {wo_id m} m (receive st q m)" using that by (intro receive_row_moves) auto
    then have "outbox_moves {} {wo_id m} d (put_message (wo_id m) (receive st q) d)"
      by (intro put_message_moves [OF assms m(1)]) simp_all
    then show ?thesis by (simp add: m(2) outbox_moves_def drop_uploads_def Let_def)
  qed
  note receipt = this
  show ?thesis
    by (cases rule: acknowledge_effect [of h connection k nonce q d]) (simp_all add: receipt outbox_moves_refl)
qed

lemma finish_dispatch_moves: "outbox_moves {} {} d (snd (finish_dispatch connection k nonce result d))"
proof -
  have "outbox_moves {} {} d (put_message k (\<lambda>m. m\<lparr>wo_routing_status := result\<rparr>) d)"
    by (auto simp: outbox_moves_def put_message_def row_moves_def sealed_def row_phase_def split: outbox_status.split
        intro!: list_all2_tset)
  then show ?thesis by (auto simp: finish_dispatch_def outbox_moves_refl split: option.splits)
qed

lemma other_moves:
  "outbox_moves {} {} d (snd (configure_room room owner enabled d))"
  "outbox_moves {} {} d (snd (set_member h room owner user post d))"
  "outbox_moves {} {} d (snd (register_webhook connection room webhook d))"
  "outbox_moves {} {} d (snd (create_attachment h now uid user room filename mime bytes d))"
  by (auto simp: configure_room_def set_member_def register_webhook_def create_attachment_def put_web_room_def
      purge_uploads_def Let_def outbox_moves_refl cancel_pending_moves split: sum.splits option.splits prod.splits)

text \<open>A message is stored only where the limits leave room for it.\<close>

definition fits :: "web_message \<Rightarrow> 'a web_db_scheme \<Rightarrow> bool" where
  "fits m d \<longleftrightarrow>
     get_message d (wo_id m) = None \<and> wo_status m = WebPending
     \<and> recent_sends (\<lambda>x. wo_owner_id x = wo_owner_id m) (wo_created_at m) d < 10
     \<and> recent_sends (\<lambda>x. wo_room_id x = wo_room_id m) (wo_created_at m) d < 30
     \<and> queued_in (wo_room_id m) d < 32"

lemma enqueue_new_eq:
  "(\<exists>e. enqueue_new h now user r q d = (Inl e, d))
   \<or> (\<exists>p ats. enqueue_new h now user r q d = insert_message (new_message h now user (wx_id r) q p ats) d)"
  by (simp add: enqueue_new_def split: option.split sum.split bool.split) blast

lemma insert_message_eq:
  "(\<exists>e. insert_message m d = (Inl e, d))
   \<or> (10 > recent_sends (\<lambda>x. wo_owner_id x = wo_owner_id m) (wo_created_at m) d
       \<and> 30 > recent_sends (\<lambda>x. wo_room_id x = wo_room_id m) (wo_created_at m) d \<and> 32 > queued_in (wo_room_id m) d
       \<and> insert_message m d = (Inr (view_of m), d\<lparr>wb_outbox := tins m (wb_outbox d)\<rparr>))"
  by (simp add: insert_message_def)

lemma enqueue_cases:
  obtains (refused) e where "enqueue_locked h now user room q d = (Inl e, d)"
  | (repeated) m where "get_message d (message_key h user (wn_client_message_id q)) = Some m"
      "wo_payload_hash m = wd_send h room q" "enqueue_locked h now user room q d = (Inr (view_of m), d)"
  | (stored) m where "fits m d" "wo_created_at m = now" "wo_owner_id m = user" "wo_room_id m = room"
      "wo_id m = message_key h user (wn_client_message_id q)" "wo_payload_hash m = wd_send h room q"
      "enqueue_locked h now user room q d = (Inr (view_of m), d\<lparr>wb_outbox := tins m (wb_outbox d)\<rparr>)"
proof (cases "get_web_room d room")
  case None
  then show thesis by (intro refused) (simp add: enqueue_locked_def)
next
  case (Some r)
  show thesis
  proof (cases "web_access h r user True d")
    case False
    with Some show thesis by (intro refused) (simp add: enqueue_locked_def)
  next
    case access: True
    show thesis
    proof (cases "get_message d (message_key h user (wn_client_message_id q))")
      case row: (Some m)
      show thesis
      proof (cases "wo_payload_hash m = wd_send h room q")
        case True
        with row Some access show thesis by (intro repeated [OF row]) (simp_all add: enqueue_locked_def)
      next
        case False
        with row Some access show thesis by (intro refused) (simp add: enqueue_locked_def)
      qed
    next
      case none: None
      with Some access have eq: "enqueue_locked h now user room q d = enqueue_new h now user r q d"
        by (simp add: enqueue_locked_def)
      have id: "wx_id r = room" using Some by (rule tget_key)
      consider (no) e where "enqueue_new h now user r q d = (Inl e, d)"
        | (yes) p ats where "enqueue_new h now user r q d = insert_message (new_message h now user room q p ats) d"
        using enqueue_new_eq [of h now user r q d] id by auto
      then show thesis
      proof cases
        case no
        with eq show thesis by (intro refused) simp
      next
        case (yes p ats)
        let ?m = "new_message h now user room q p ats"
        show thesis
          using insert_message_eq [of ?m d]
        proof (elim disjE exE conjE)
          fix e assume "insert_message ?m d = (Inl e, d)"
          with eq yes show thesis by (intro refused) simp
        qed (use eq yes none in \<open>intro stored [of ?m]; simp add: fits_def new_message_def\<close>)
      qed
    qed
  qed
qed

section \<open>One command\<close>

text \<open>The row of a message that a command may take a receipt for.\<close>

fun receipts :: "time \<times> ('a web_db_scheme) web_command \<Rightarrow> string set" where
  "receipts (now, AcknowledgeMessage connection k nonce q) = {k}"
| "receipts _ = {}"

fun wants :: "time \<times> ('a web_db_scheme) web_command \<Rightarrow> bool" where
  "wants (now, SendMessage user room q) = True"
| "wants _ = False"

lemma web_cases:
  fixes d :: "'a web_db_scheme"
  assumes "keyed wo_id (wb_outbox d)"
  obtains (forgotten) P where "forgets x" "handed h x d = {}" "wb_outbox (do_web h x d) = tdel P (wb_outbox d)"
  | (stored) m where "\<not> forgets x" "handed h x d = {}" "fits m d" "wo_created_at m = fst x"
      "wb_outbox (do_web h x d) = tins m (wb_outbox d)"
  | (moved) "\<not> forgets x" "outbox_moves (handed h x d) (receipts x) d (do_web h x d)"
proof -
  obtain now c where x: "x = (now, c)" by (cases x)
  show thesis
  proof (cases c)
    case (SendMessage user room q)
    show thesis
    proof (cases rule: enqueue_cases [of h now user room q d])
      case (stored m)
      with x SendMessage show thesis by (intro that(2) [of m]) simp_all
    qed (use x SendMessage moved in \<open>simp_all add: outbox_moves_refl\<close>)
  next
    case (ClaimMessage connection room nonce)
    with x moved claim_moves [OF assms, of h now connection room nonce] show thesis by simp
  next
    case (AcknowledgeMessage connection k nonce q)
    with x moved acknowledge_moves [OF assms] show thesis by simp
  next
    case (DeleteWebOwner owner)
    let ?ids = "map wx_id (filter (\<lambda>r. wx_owner_id r = owner) (wb_rooms d))"
    have "wb_outbox (do_web h x d) = tdel (\<lambda>m. (?ids \<noteq> [] \<and> wo_room_id m \<in> set ?ids) \<or> wo_owner_id m = owner) (wb_outbox d)"
      by (auto simp: x DeleteWebOwner delete_web_owner_def drop_rooms_def Let_def tdel_def intro!: filter_cong)
    with x DeleteWebOwner forgotten show thesis by simp
  next
    case (OtherTables f)
    with x moved show thesis by (simp add: outbox_moves_refl)
  qed (use x moved in \<open>simp_all add: other_moves finish_dispatch_moves\<close>)
qed

lemma web_keyed:
  assumes "keyed wo_id (wb_outbox d)"
  shows "keyed wo_id (wb_outbox (do_web h x d))"
  using assms
proof (cases rule: web_cases [where h = h and x = x])
  case (stored m)
  with assms show ?thesis by (simp add: keyed_tins fits_def)
qed (use assms in \<open>simp_all add: keyed_tdel moves_keyed\<close>)

subsection \<open>The phases of one message\<close>

lemma web_phase_cong: "wb_outbox d' = wb_outbox d \<Longrightarrow> web_phase d' k = web_phase d k"
  by (simp add: web_phase_def)

lemma web_phase_put:
  "(\<And>m. wo_id (f m) = wo_id m) \<Longrightarrow>
    web_phase (put_message j f d) k = (if k = j then (case get_message d k of None \<Rightarrow> Absent | Some m \<Rightarrow> row_phase (f m)) else web_phase d k)"
  by (auto simp: web_phase_def put_message_outbox tget_tset dest: tget_key split: option.split)

lemma withdrawn_phase:
  "wb_outbox d' = wb_outbox (cancel_pending P reason d1) \<Longrightarrow> wb_outbox d1 = wb_outbox d
    \<Longrightarrow> outbox_spec Withdrawn (web_phase d k) (web_phase d' k)"
  by (auto simp: web_phase_def cancel_pending_def tget_tset row_phase_def split: option.split)

lemma expired_phase:
  "web_phase (expire_claims now room d) k =
     (case get_message d k of None \<Rightarrow> Absent | Some m \<Rightarrow> if stale_claim now room m then Unsure else row_phase m)"
  by (auto simp: web_phase_def expire_claims_def tget_tset stale_claim_def row_phase_def split: option.split)

lemma refusal_status: "refusal h now r m d = Some (st, reason) \<Longrightarrow> st \<in> {WebFailed, WebCancelled}"
  by (auto simp: refusal_def split: if_splits)

lemma claim_first_passes:
  assumes "distinct (map wo_id ms)" and "\<forall>m \<in> set ms. get_message d (wo_id m) = Some m \<and> wo_status m = WebPending"
    and "k \<notin> handed_ids (fst (claim_first h now r nonce ms d))"
  shows "outbox_spec Passed (web_phase d k) (web_phase (snd (claim_first h now r nonce ms d)) k)"
  using assms
proof (induction ms arbitrary: d)
  case (Cons m ms)
  have m: "get_message d (wo_id m) = Some m" "wo_status m = WebPending" using Cons.prems(2) by simp_all
  show ?case
  proof (cases "refusal h now r m d")
    case None
    with Cons.prems(3) have "k \<noteq> wo_id m" by (simp add: handed_ids_def delivery_of_def view_of_def)
    with None show ?thesis by (simp add: web_phase_put take_message_def)
  next
    case (Some x)
    obtain st reason where x: "x = (st, reason)" by (cases x)
    let ?d = "put_message (wo_id m) (settle_message st reason) d"
    have kept: "get_message ?d j = get_message d j" if "j \<noteq> wo_id m" for j
      by (cases "get_message d j")
        (use that tget_key [of wo_id "wb_outbox d" j] in \<open>simp_all add: put_message_outbox tget_tset settle_message_def\<close>)
    have "outbox_spec Passed (web_phase ?d k) (web_phase (snd (claim_first h now r nonce ms ?d)) k)"
    proof (rule Cons.IH)
      show "distinct (map wo_id ms)" using Cons.prems(1) by simp
      show "k \<notin> handed_ids (fst (claim_first h now r nonce ms ?d))" using Cons.prems(3) Some x by simp
      show "\<forall>y \<in> set ms. get_message ?d (wo_id y) = Some y \<and> wo_status y = WebPending"
      proof
        fix y assume y: "y \<in> set ms"
        then have "wo_id y \<in> set (map wo_id ms)" by simp
        then have "wo_id y \<noteq> wo_id m" using Cons.prems(1) by (metis distinct.simps(2) list.simps(9))
        with kept [OF this] y Cons.prems(2) show "get_message ?d (wo_id y) = Some y \<and> wo_status y = WebPending"
          by simp
      qed
    qed
    moreover have "outbox_spec Passed (web_phase d k) (web_phase ?d k)"
      using m refusal_status [OF Some [unfolded x]]
      by (subst web_phase_put) (auto simp: settle_message_def web_phase_def row_phase_def)
    ultimately show ?thesis using Some x by auto
  qed
qed simp

text \<open>Each command moves a message along the machine.\<close>

lemma send_simulates:
  "outbox_spec (web_event h k (now, SendMessage user room q) d) (web_phase d k)
    (web_phase (do_web h (now, SendMessage user room q) d) k)"
proof (cases rule: enqueue_cases [of h now user room q d])
  case (stored m)
  then show ?thesis
    by (cases "get_message d k") (auto simp: web_phase_def tget_tins fits_def row_phase_def)
qed simp_all

lemma handed_moves:
  assumes "keyed wo_id (wb_outbox d)" and "k \<in> handed h x d"
  shows "web_phase d k = Queued" "web_phase (do_web h x d) k = InFlight"
proof -
  have mem: "get_message d k \<noteq> None" using handed_pending [OF assms(2)] by (simp add: tget_None_iff)
  have "web_phase d k = Queued \<and> web_phase (do_web h x d) k = InFlight"
    using assms(1)
  proof (cases rule: web_cases [where h = h and x = x])
    case moved
    then have "rel_option (row_moves (handed h x d) (receipts x)) (get_message d k) (get_message (do_web h x d) k)"
      by (intro moves_tget) (simp add: outbox_moves_def)
    then show ?thesis
      using assms(2) mem by (cases rule: option.rel_cases) (auto simp: web_phase_def row_moves_def dest: tget_key)
  qed (use assms(2) in auto)
  then show "web_phase d k = Queued" "web_phase (do_web h x d) k = InFlight" by simp_all
qed

lemma claim_simulates:
  assumes "keyed wo_id (wb_outbox d)"
  shows "outbox_spec (web_event h k (now, ClaimMessage connection room nonce) d) (web_phase d k)
    (web_phase (do_web h (now, ClaimMessage connection room nonce) d) k)"
proof (cases "k \<in> handed h (now, ClaimMessage connection room nonce) d")
  case True
  with handed_moves [OF assms True] show ?thesis by simp
next
  case out: False
  show ?thesis
    using claim_message_eq [of h now connection room nonce d]
  proof (elim disjE exE conjE)
    fix e
    assume shut: "claim_message h now connection room nonce d \<in> {(Inl e, d), (Inr None, d)}"
      "\<forall>r. \<not> open_to_claims h now connection room d r"
    then have "\<not> expires h k now connection room d"
      by (simp add: expires_def split: option.split)
    moreover have "do_web h (now, ClaimMessage connection room nonce) d = d"
      using shut(1) by auto
    ultimately show ?thesis using out by (simp only: web_event.simps if_False outbox_spec.simps simp_thms)
  next
    fix r
    assume scanned: "open_to_claims h now connection room d r" "claim_message h now connection room nonce d
        = (Inr (fst (claim_scan h now room nonce r d)), snd (claim_scan h now room nonce r d))"
    let ?d = "expire_claims now room d"
    have keyed: "keyed wo_id (wb_outbox ?d)"
      using assms expire_claims_moves [of d now room] by (simp add: moves_keyed)
    have "outbox_spec Passed (web_phase ?d k) (web_phase (do_web h (now, ClaimMessage connection room nonce) d) k)"
      using out scanned(2) keyed
      by (simp add: claim_scan_def)
        (intro claim_first_passes [simplified] distinct_pending_rows, auto dest!: pending_rowsD intro: tget_self)
    moreover have "web_phase ?d k = (if expires h k now connection room d then Unsure else web_phase d k)"
      using scanned(1) unfolding expired_phase
      by (auto simp: expires_def open_to_claims_def web_phase_def split: option.splits)
    moreover have "expires h k now connection room d \<Longrightarrow> web_phase d k = InFlight"
      by (auto simp: expires_def stale_claim_def web_phase_def split: option.splits)
    ultimately show ?thesis using out by auto
  qed
qed

lemma receipt_simulates:
  "outbox_spec (web_event h k (now, AcknowledgeMessage connection j nonce q) d) (web_phase d k)
    (web_phase (do_web h (now, AcknowledgeMessage connection j nonce q) d) k)"
proof (cases rule: acknowledge_effect [of h connection j nonce q d])
  case same
  then show ?thesis by (simp split: option.split)
next
  case (received m st)
  have j: "wo_id m = j" using received(1) by (rule tget_key)
  have out: "wb_outbox (do_web h (now, AcknowledgeMessage connection j nonce q) d) = wb_outbox (put_message j (receive st q) d)"
    using received(5) j by (simp add: drop_uploads_def Let_def)
  have st: "st \<in> {WebDelivered, WebFailed, WebUncertain, WebCancelled}"
    using received(2) by (auto simp: receipt_status_def split: if_splits)
  have "st = WebDelivered \<Longrightarrow> re_webhook_id q = wo_webhook_id m"
    using received(4) by (auto simp: receipt_refused_def split: if_splits)
  with st have "receipt_phase q = Some (row_phase (receive st q m))" "row_phase (receive st q m) \<notin> {Absent, Queued, InFlight}"
    using received(2) by (auto simp: receipt_phase_def row_phase_def receive_def)
  moreover have "web_phase (do_web h (now, AcknowledgeMessage connection j nonce q) d) k
      = (if k = j then row_phase (receive st q m) else web_phase d k)"
    using received(1) unfolding web_phase_cong [OF out] by (subst web_phase_put) (simp_all add: receive_def)
  ultimately show ?thesis
    using received(1,3) by (auto simp: web_phase_def row_phase_def)
qed

lemma routed_phase: "web_phase (put_message j (\<lambda>m. m\<lparr>wo_routing_status := result\<rparr>) d) k = web_phase d k"
  by (subst web_phase_put) (auto simp: web_phase_def row_phase_def split: option.split outbox_status.split)

lemma dispatch_phase: "web_phase (snd (finish_dispatch connection j nonce result d)) k = web_phase d k"
  by (simp add: finish_dispatch_def routed_phase split: option.split)

lemma unchanged_withdrawn: "wb_outbox d' = wb_outbox d \<Longrightarrow> outbox_spec Withdrawn (web_phase d k) (web_phase d' k)"
  by (simp add: web_phase_def)

lemma configure_simulates:
  "outbox_spec (if enabled then Idle else Withdrawn) (web_phase d k) (web_phase (snd (configure_room room owner enabled d)) k)"
proof (cases enabled)
  case True
  then have "wb_outbox (snd (configure_room room owner enabled d)) = wb_outbox d"
    by (simp add: configure_room_def put_web_room_def Let_def split: sum.split)
  with True show ?thesis by (simp add: web_phase_def)
next
  case False
  show ?thesis
  proof (cases "owned_room room owner d")
    case (Inr r)
    with False show ?thesis
      by (simp only: configure_room_def Let_def sum.case snd_conv if_False) (rule withdrawn_phase [OF refl], simp add: put_web_room_def)
  qed (use False in \<open>simp add: configure_room_def\<close>)
qed

lemma member_simulates:
  "outbox_spec Withdrawn (web_phase d k) (web_phase (snd (set_member h room owner user post d)) k)"
proof (cases "(\<exists>r. owned_room room owner d = Inr r) \<and> post = None")
  case True
  then show ?thesis
    by (elim conjE exE, simp only: set_member_def Let_def sum.case option.case snd_conv)
      (rule withdrawn_phase [OF refl], simp)
next
  case False
  then have "wb_outbox (snd (set_member h room owner user post d)) = wb_outbox d"
    by (auto simp: set_member_def Let_def split: sum.split option.split)
  then show ?thesis by (rule unchanged_withdrawn)
qed

lemma upload_phase:
  "web_phase (snd (register_webhook connection room webhook d)) k = web_phase d k"
  "web_phase (snd (create_attachment h now uid user room filename mime bytes d)) k = web_phase d k"
  "web_phase ((f d)\<lparr>wb_outbox := wb_outbox d\<rparr>) k = web_phase d k"
  by (rule web_phase_cong, auto simp: register_webhook_def create_attachment_def put_web_room_def purge_uploads_def Let_def
      split: sum.splits option.splits prod.splits)+

lemma web_simulates:
  assumes "keyed wo_id (wb_outbox d)"
  shows "outbox_spec (web_event h k x d) (web_phase d k) (web_phase (do_web h x d) k)"
proof (cases "forgets x")
  case True
  then obtain now owner where "x = (now, DeleteWebOwner owner)" by (cases x rule: forgets.cases) auto
  moreover have "web_phase (do_web h x d) k = web_phase d k \<or> web_phase (do_web h x d) k = Absent"
    using assms True by (cases rule: web_cases [where h = h and x = x])
      (auto simp: web_phase_def tget_tdel [OF assms] split: option.split)
  ultimately show ?thesis by simp
next
  case False
  show ?thesis
  proof (cases "(h, k, x, d)" rule: web_event.cases)
    case (1 h k now user room q d)
    then show ?thesis by (simp only: prod.inject) (rule send_simulates)
  next
    case (2 h k now connection room nonce d)
    with assms show ?thesis by (simp only: prod.inject) (rule claim_simulates)
  next
    case (3 h k now connection j nonce q d)
    then show ?thesis by (simp only: prod.inject) (rule receipt_simulates)
  qed (use False in \<open>simp_all only: prod.inject web_event.simps do_web.simps forgets.simps configure_simulates
      member_simulates [unfolded outbox_spec.simps] upload_phase dispatch_phase outbox_spec.simps not_True_eq_False\<close>)
qed

interpretation web_machine: simulation "do_web h" "\<lambda>d. keyed wo_id (wb_outbox d)" web_phase "web_event h" outbox_spec
  by unfold_locales (simp_all add: web_keyed web_simulates)

text \<open>C33. The outbox implements a delivery machine. Whatever runs, and whatever other parts do to the other
  tables, a message goes from absent to queued only when it is offered, and from queued to in flight only
  when a claim hands it out. A message in flight becomes unsure, and nothing else, when a claim of its room
  finds the claim of it more than two minutes old; otherwise a claim changes no message that it does not
  hand out, but for queued ones that it refuses, which end as failed or cancelled. A receipt takes a
  message that is in flight or unsure to what it reports: sent with its webhook and identifier, unsure,
  failed or cancelled. Disabling a room or changing a membership only cancels queued messages, and
  everything else leaves the message where it is; only the deletion of an account forgets it.\<close>

theorem web_outbox_implements_machine:
  assumes "keyed wo_id (wb_outbox d)"
  shows "path outbox_spec (web_phase d k) (events_of (do_web h) (web_event h k) calls d)
           (web_phase (run_ops (do_web h) calls d) k)"
  using assms by (rule web_machine.run_simulates)

interpretation handed_once: at_most_once "do_web h" "\<lambda>x d. k \<in> handed h x d"
    "\<lambda>d. web_phase d k \<in> {Absent, Queued}" forgets "\<lambda>d. keyed wo_id (wb_outbox d)"
proof unfold_locales
  fix x and d :: "'a web_db_scheme"
  assume d: "keyed wo_id (wb_outbox d)"
  then show "keyed wo_id (wb_outbox (do_web h x d))" by (rule web_keyed)
  show "web_phase d k \<in> {Absent, Queued}" if "k \<in> handed h x d" using handed_moves [OF d that] by simp
  show "web_phase (do_web h x d) k \<notin> {Absent, Queued}" if "k \<in> handed h x d" using handed_moves [OF d that] by simp
  assume "web_phase d k \<notin> {Absent, Queued}" "\<not> forgets x"
  then show "web_phase (do_web h x d) k \<notin> {Absent, Queued}"
    using spec_later [OF web_simulates [OF d, of h k x]] handed_moves(1) [OF d, of k h x]
    by (cases "k \<in> handed h x d") (auto simp: later_def)
qed (auto elim: forgets.elims)

text \<open>C30. A message is handed to a connector at most once, over any run of transactions of this part and of
  others, as long as no account's part is deleted. So a connector that crashes after a claim can never cause
  a second send.\<close>

theorem web_message_handed_out_once:
  assumes "keyed wo_id (wb_outbox d)" and "\<forall>x \<in> set calls. \<not> forgets x"
  shows "grant_count (do_web h) (\<lambda>x d. k \<in> handed h x d) calls d \<le> 1"
  using assms by (rule handed_once.at_most_one)

section \<open>Receipts\<close>

lemma quiet_events:
  "\<forall>x \<in> set calls. \<not> forgets x \<Longrightarrow> set (events_of (do_web h) (web_event h k) calls d) \<subseteq> - {Forgotten}"
  by (induction calls arbitrary: d) auto

lemma web_phase_run:
  assumes "keyed wo_id (wb_outbox d)" and "\<forall>x \<in> set calls. \<not> forgets x"
    and "\<And>e p q. outbox_spec e p q \<Longrightarrow> e \<in> - {Forgotten} \<Longrightarrow> Q p \<Longrightarrow> Q q" and "Q (web_phase d k)"
  shows "Q (web_phase (run_ops (do_web h) calls d) k)"
  by (rule path_invariant [where P = Q and R = outbox_spec and E = "- {Forgotten}",
        OF _ web_machine.run_simulates [OF assms(1)] quiet_events [OF assms(2)] assms(4)])
    (rule assms(3))

lemma delivered_phase:
  "web_phase d k = Sent w x \<longleftrightarrow>
     (\<exists>m. get_message d k = Some m \<and> wo_status m = WebDelivered \<and> wo_webhook_id m = w \<and> wo_discord_message_id m = x)"
  by (auto simp: web_phase_def split: option.split)

definition receipts_unique :: "'a web_db_scheme \<Rightarrow> bool" where
  "receipts_unique d \<longleftrightarrow>
     (\<forall>a \<in> set (wb_outbox d). \<forall>b \<in> set (wb_outbox d).
        wo_status a = WebDelivered \<longrightarrow> wo_status b = WebDelivered \<longrightarrow> wo_discord_message_id a = wo_discord_message_id b \<longrightarrow>
        wo_id a = wo_id b)"

lemma receipts_uniqueD:
  "receipts_unique d \<Longrightarrow> a \<in> set (wb_outbox d) \<Longrightarrow> b \<in> set (wb_outbox d) \<Longrightarrow> wo_status a = WebDelivered \<Longrightarrow>
    wo_status b = WebDelivered \<Longrightarrow> wo_discord_message_id a = wo_discord_message_id b \<Longrightarrow> wo_id a = wo_id b"
  unfolding receipts_unique_def by blast

text \<open>It is enough that the delivered rows were there before.\<close>

lemma receipts_unique_from:
  assumes "receipts_unique d"
    and "\<And>b. b \<in> set (wb_outbox d') \<Longrightarrow> wo_status b = WebDelivered \<Longrightarrow>
      \<exists>a \<in> set (wb_outbox d). wo_id a = wo_id b \<and> wo_status a = WebDelivered
        \<and> wo_discord_message_id a = wo_discord_message_id b"
  shows "receipts_unique d'"
  unfolding receipts_unique_def using assms(2) receipts_uniqueD [OF assms(1)] by metis

lemma receipt_cases:
  obtains (same) "wb_outbox (snd (web_acknowledge h connection k nonce q d)) = wb_outbox d"
  | (received) st where
      "wb_outbox (snd (web_acknowledge h connection k nonce q d)) = tset (\<lambda>m. wo_id m = k) (receive st q) (wb_outbox d)"
      "st = WebDelivered \<Longrightarrow> \<forall>x \<in> set (wb_outbox d). wo_discord_message_id x = re_message_id q \<longrightarrow> wo_id x = k"
proof (cases rule: acknowledge_effect [of h connection k nonce q d])
  case same
  then show thesis by (intro that(1)) simp
next
  case (received m st)
  have k: "wo_id m = k" using received(1) by (rule tget_key)
  show thesis
  proof (rule that(2) [of st])
    show "wb_outbox (snd (web_acknowledge h connection k nonce q d)) = tset (\<lambda>m. wo_id m = k) (receive st q) (wb_outbox d)"
      by (simp add: received(5) k drop_uploads_def put_message_def Let_def)
    assume "st = WebDelivered"
    with received(4) k show "\<forall>x \<in> set (wb_outbox d). wo_discord_message_id x = re_message_id q \<longrightarrow> wo_id x = k"
      by (auto simp: receipt_refused_def list_ex_iff split: if_splits)
  qed
qed

lemma receive_simps [simp]:
  "wo_id (receive st q m) = wo_id m" "wo_status (receive st q m) = st"
  "wo_discord_message_id (receive st q m) = re_message_id q"
  by (simp_all add: receive_def)

lemma acknowledge_unique:
  assumes "receipts_unique d"
  shows "receipts_unique (snd (web_acknowledge h connection k nonce q d))"
proof (cases rule: receipt_cases [of h connection k nonce q d])
  case same
  show ?thesis by (rule receipts_unique_from [OF assms]) (auto simp only: same)
next
  case (received st)
  show ?thesis
    unfolding receipts_unique_def received(1) set_tset
  proof (intro ballI impI, elim imageE)
    fix a b a0 b0
    assume ab: "wo_status a = WebDelivered" "wo_status b = WebDelivered" "wo_discord_message_id a = wo_discord_message_id b"
      and a: "a = (if wo_id a0 = k then receive st q a0 else a0)" "a0 \<in> set (wb_outbox d)"
      and b: "b = (if wo_id b0 = k then receive st q b0 else b0)" "b0 \<in> set (wb_outbox d)"
    show "wo_id a = wo_id b"
    proof (cases "wo_id a0 = k \<or> wo_id b0 = k")
      case True
      then have "st = WebDelivered" using a(1) b(1) ab by auto
      note other = received(2) [OF this, rule_format]
      have "wo_id a0 = k"
        by (rule ccontr) (use True a b ab other [OF a(2)] in simp)
      moreover have "wo_id b0 = k"
        by (rule ccontr) (use True a b ab other [OF b(2)] in simp)
      ultimately show ?thesis using a(1) b(1) by simp
    next
      case False
      then have "a = a0" "b = b0" using a(1) b(1) by auto
      with receipts_uniqueD [OF assms] a(2) b(2) ab show ?thesis by blast
    qed
  qed
qed

lemma moves_unique:
  assumes "outbox_moves K {} d d'" and "receipts_unique d"
  shows "receipts_unique d'"
proof -
  have "\<exists>a \<in> set (wb_outbox d). wo_id a = wo_id b \<and> wo_status a = WebDelivered
      \<and> wo_discord_message_id a = wo_discord_message_id b"
    if "b \<in> set (wb_outbox d')" "wo_status b = WebDelivered" for b
  proof -
    obtain a where a: "a \<in> set (wb_outbox d)" "row_moves K {} a b"
      using assms(1) \<open>b \<in> set (wb_outbox d')\<close> unfolding outbox_moves_def by (metis in_set_conv_nth list_all2_conv_all_nth)
    then have "row_phase a = row_phase b"
      using that(2) by (auto simp: row_moves_def split: if_splits)
    moreover have "row_phase b = Sent (wo_webhook_id b) (wo_discord_message_id b)" using that(2) by simp
    ultimately have "wo_status a = WebDelivered \<and> wo_discord_message_id a = wo_discord_message_id b"
      by (metis phase_sent_iff)
    with a show ?thesis by (auto simp: row_moves_def dest: sealed_eqD)
  qed
  then show ?thesis by (rule receipts_unique_from [OF assms(2)])
qed

lemma web_unique:
  assumes "keyed wo_id (wb_outbox d)" and "receipts_unique d"
  shows "receipts_unique (do_web h x d)"
  using assms(1)
proof (cases rule: web_cases [where h = h and x = x])
  case (forgotten P)
  show ?thesis by (rule receipts_unique_from [OF assms(2)]) (auto simp: forgotten)
next
  case (stored m)
  then show ?thesis by (intro receipts_unique_from [OF assms(2)]) (auto simp: fits_def)
next
  case moved
  show ?thesis
  proof (cases "receipts x = {}")
    case True
    with moved assms(2) show ?thesis by (auto intro: moves_unique)
  next
    case False
    then obtain now connection k nonce q where "x = (now, AcknowledgeMessage connection k nonce q)"
      by (cases x rule: receipts.cases) simp_all
    then show ?thesis by (simp add: acknowledge_unique [OF assms(2)])
  qed
qed

interpretation web_receipts: invariant_system "do_web h" "\<lambda>d. keyed wo_id (wb_outbox d) \<and> receipts_unique d"
  by unfold_locales (simp add: web_keyed web_unique)

text \<open>C32. A receipt is final and names one message. Once a message counts as delivered it keeps its
  identifier on the platform and its webhook, and no other delivered message has that identifier, whatever
  commands run later, as long as none of them deletes an account's part of the rooms (which removes the
  messages the account sent and those of its rooms).\<close>

theorem web_receipt_is_final:
  assumes "keyed wo_id (wb_outbox d)" and "receipts_unique d" and "\<forall>x \<in> set calls. \<not> forgets x"
    and "get_message d k = Some m" and "wo_status m = WebDelivered"
  shows "\<exists>m'. get_message (run_ops (do_web h) calls d) k = Some m' \<and> wo_status m' = WebDelivered
           \<and> wo_discord_message_id m' = wo_discord_message_id m \<and> wo_webhook_id m' = wo_webhook_id m
           \<and> (\<forall>x \<in> set (wb_outbox (run_ops (do_web h) calls d)).
                wo_status x = WebDelivered \<longrightarrow> wo_discord_message_id x = wo_discord_message_id m \<longrightarrow> wo_id x = k)"
proof -
  let ?d = "run_ops (do_web h) calls d"
  have "web_phase ?d k = Sent (wo_webhook_id m) (wo_discord_message_id m)"
  proof (rule web_phase_run [OF assms(1,3), where Q = "\<lambda>p. p = Sent (wo_webhook_id m) (wo_discord_message_id m)"])
    show "web_phase d k = Sent (wo_webhook_id m) (wo_discord_message_id m)"
      using assms(4,5) by (simp add: web_phase_def)
  next
    fix e and p q :: phase
    assume "outbox_spec e p q" "e \<in> - {Forgotten}" "p = Sent (wo_webhook_id m) (wo_discord_message_id m)"
    then show "q = Sent (wo_webhook_id m) (wo_discord_message_id m)" by (cases e) auto
  qed
  then obtain m' where m': "get_message ?d k = Some m'" "wo_status m' = WebDelivered"
    "wo_discord_message_id m' = wo_discord_message_id m" "wo_webhook_id m' = wo_webhook_id m"
    by (auto simp: delivered_phase)
  have "receipts_unique ?d" using web_receipts.inv_run [where s = d and xs = calls and h = h] assms(1,2) by simp
  then have "\<forall>x \<in> set (wb_outbox ?d). wo_status x = WebDelivered \<longrightarrow>
      wo_discord_message_id x = wo_discord_message_id m \<longrightarrow> wo_id x = k"
    using receipts_uniqueD [OF _ _ tget_mem [OF m'(1)]] tget_key [OF m'(1)] m'(2,3) by metis
  with m' show ?thesis by blast
qed

section \<open>Retries\<close>

lemma enqueue_result:
  assumes "enqueue_locked h now user room q d = (Inr v, d1)"
  obtains m where "get_message d1 (message_key h user (wn_client_message_id q)) = Some m" "view_of m = v"
    "wo_payload_hash m = wd_send h room q"
proof (cases rule: enqueue_cases [of h now user room q d])
  case (stored m)
  with assms show thesis by (intro that [of m]) (auto simp: tget_tins fits_def)
qed (use assms that in auto)

text \<open>What a message is never changes.\<close>

lemma sealed_step:
  assumes "keyed wo_id (wb_outbox d)" and "\<not> forgets x" and "get_message d k = Some m"
  shows "\<exists>m'. get_message (do_web h x d) k = Some m' \<and> sealed m' = sealed m"
  using assms(1)
proof (cases rule: web_cases [where h = h and x = x])
  case (stored m0)
  with assms(3) show ?thesis by (simp add: tget_tins)
next
  case moved
  then have "rel_option (row_moves (handed h x d) (receipts x)) (Some m) (get_message (do_web h x d) k)"
    using moves_tget [of _ _ "wb_outbox d" "wb_outbox (do_web h x d)" k] assms(3) by (simp add: outbox_moves_def)
  then show ?thesis by (cases "get_message (do_web h x d) k") (auto simp: row_moves_def)
qed (use assms(2) in simp)

lemma sealed_run:
  assumes "keyed wo_id (wb_outbox d)" and "\<forall>x \<in> set calls. \<not> forgets x" and "get_message d k = Some m"
  shows "\<exists>m'. get_message (run_ops (do_web h) calls d) k = Some m' \<and> sealed m' = sealed m"
  using assms
proof (induction calls arbitrary: d m)
  case (Cons x xs)
  then obtain m1 where "get_message (do_web h x d) k = Some m1" "sealed m1 = sealed m"
    using sealed_step [of d x k m h] by auto
  with Cons.IH [of "do_web h x d" m1] Cons.prems web_keyed [of d h x] show ?case by auto
qed simp

text \<open>C34. Sending again with the same client identifier changes nothing, however late it happens and
  whatever ran since, as long as no account's part of the rooms was deleted since (which forgets the
  message, so that the same identifier would be stored anew): the retry either is refused, or returns the
  message of the first send with its payload, and then the request had the same digest.\<close>

theorem web_send_is_idempotent:
  assumes "keyed wo_id (wb_outbox d)" and "enqueue_locked h now user room q d = (Inr v, d1)"
    and "\<forall>x \<in> set calls. \<not> forgets x" and "e = run_ops (do_web h) calls d1"
    and "wn_client_message_id q' = wn_client_message_id q"
  shows "snd (enqueue_locked h retried user room' q' e) = e
    \<and> (\<forall>v'. fst (enqueue_locked h retried user room' q' e) = Inr v' \<longrightarrow>
          dv_id v' = dv_id v \<and> dv_payload v' = dv_payload v \<and> wd_send h room' q' = wd_send h room q)"
proof -
  let ?k = "message_key h user (wn_client_message_id q)"
  have d1: "keyed wo_id (wb_outbox d1)"
    using web_keyed [OF assms(1), of h "(now, SendMessage user room q)"] assms(2) by simp
  obtain m where m: "get_message d1 ?k = Some m" "view_of m = v" "wo_payload_hash m = wd_send h room q"
    using assms(2) by (rule enqueue_result)
  obtain m2 where m2: "get_message e ?k = Some m2" "sealed m2 = sealed m"
    using sealed_run [OF d1 assms(3) m(1)] assms(4) by blast
  then have same: "dv_id (view_of m2) = dv_id v" "dv_payload (view_of m2) = dv_payload v"
    "wo_payload_hash m2 = wd_send h room q"
    using m(2,3) by (auto simp: view_of_def dest: sealed_eqD)
  show ?thesis
    by (cases rule: enqueue_cases [of h retried user room' q' e])
      (use same m2(1) assms(5) in \<open>auto simp: fits_def\<close>)
qed

section \<open>What a claim hands out\<close>

lemma web_access_outbox [simp]: "web_access h r user post (d\<lparr>wb_outbox := t\<rparr>) = web_access h r user post d"
  by (simp add: web_access_def server_access_of_def find_access_def split: option.split)

lemma expression_of_outbox [simp]: "expression_of r key kind (d\<lparr>wb_outbox := t\<rparr>) = expression_of r key kind d"
  by (simp add: expression_of_def split: option.split)

lemma refusal_outbox [simp]: "refusal h now r m (d\<lparr>wb_outbox := t\<rparr>) = refusal h now r m d"
  by (simp add: refusal_def)

lemma sticker_of_outbox [simp]: "sticker_of r m (d\<lparr>wb_outbox := t\<rparr>) = sticker_of r m d"
  by (simp add: sticker_of_def)

lemma refused_status: "refusal h now r m d = Some (st, reason) \<Longrightarrow> st \<noteq> WebPending"
  by (auto simp: refusal_def split: if_splits)

text \<open>The rows before the one that is handed out have been settled, and are pending no more.\<close>

lemma claim_first_split:
  assumes "claim_first h now r nonce ms d = (Some v, d')"
  obtains pre m post t where "ms = pre @ m # post" "refusal h now r m d = None"
    "v = delivery_of r nonce (wx_webhook_id r) (sticker_of r m d) m"
    "d' = d\<lparr>wb_outbox := tset (\<lambda>x. wo_id x = wo_id m) (take_message now nonce (wx_webhook_id r)) t\<rparr>"
    "map wo_id t = map wo_id (wb_outbox d)"
    "\<forall>x \<in> set t. if wo_id x \<in> wo_id ` set pre then wo_status x \<noteq> WebPending else x \<in> set (wb_outbox d)"
  using assms
proof (induction ms arbitrary: d thesis)
  case (Cons m ms)
  show ?case
  proof (cases "refusal h now r m d")
    case None
    with Cons.prems(2) show ?thesis by (intro Cons.prems(1) [of "[]" m ms "wb_outbox d"]) (simp_all add: put_message_def)
  next
    case (Some x)
    obtain st reason where x: "x = (st, reason)" by (cases x)
    let ?t = "tset (\<lambda>y. wo_id y = wo_id m) (settle_message st reason) (wb_outbox d)"
    have "claim_first h now r nonce ms (d\<lparr>wb_outbox := ?t\<rparr>) = (Some v, d')"
      using Cons.prems(2) Some x by (simp add: put_message_def)
    then show ?thesis
    proof (rule Cons.IH [rotated])
      fix pre m' post t
      let ?d = "d\<lparr>wb_outbox := ?t\<rparr>"
      assume step: "ms = pre @ m' # post" "refusal h now r m' ?d = None"
        "v = delivery_of r nonce (wx_webhook_id r) (sticker_of r m' ?d) m'"
        "d' = ?d\<lparr>wb_outbox := tset (\<lambda>x. wo_id x = wo_id m') (take_message now nonce (wx_webhook_id r)) t\<rparr>"
        "map wo_id t = map wo_id (wb_outbox ?d)"
        "\<forall>x \<in> set t. if wo_id x \<in> wo_id ` set pre then wo_status x \<noteq> WebPending else x \<in> set (wb_outbox ?d)"
      show ?thesis
      proof (rule Cons.prems(1) [of "m # pre" m' post t])
      show "map wo_id t = map wo_id (wb_outbox d)"
        using step(5) by (simp add: tset_def settle_message_def comp_def if_distrib cong: if_cong)
      show "\<forall>x \<in> set t. if wo_id x \<in> wo_id ` set (m # pre) then wo_status x \<noteq> WebPending else x \<in> set (wb_outbox d)"
        using step(6) refused_status [OF Some [unfolded x]] by (auto simp: set_tset settle_message_def split: if_splits)
      qed (use step in simp_all)
    qed
  qed
qed simp

lemma expire_keeps_pending:
  "x \<in> set (wb_outbox (expire_claims now room d)) \<Longrightarrow> wo_status x = WebPending \<Longrightarrow> x \<in> set (wb_outbox d)"
  by (auto simp: expire_claims_def set_tset)

lemma pending_first:
  assumes "pending_rows room d = pre @ m # post" and "x \<in> set (wb_outbox d)" and "wo_room_id x = room"
    and "wo_status x = WebPending" and "x \<notin> set pre"
  shows "wo_created_at m \<le> wo_created_at x"
proof -
  let ?l = "sort_key wo_created_at (filter (\<lambda>m. wo_room_id m = room \<and> wo_status m = WebPending) (wb_outbox d))"
  have "take 32 ?l = pre @ m # post" using assms(1) by (simp add: pending_rows_def tlimit_def)
  then have l: "?l = pre @ m # post @ drop 32 ?l" by (metis append_Cons append_assoc append_take_drop_id)
  have "x \<in> set ?l" using assms(2-4) by simp
  then have "x \<in> set (m # post @ drop 32 ?l)" using assms(5) by (subst (asm) l) auto
  moreover have "sorted (map wo_created_at (pre @ m # post @ drop 32 ?l))"
    by (subst l [symmetric]) (rule sorted_sort_key)
  ultimately show ?thesis by (auto simp: sorted_append)
qed

text \<open>C31. What a claim hands out may be sent at that moment: the room is open and belongs to the claiming
  connection, its permissions were checked within 90 seconds, the sender's account is active, has access to the
  server and may post, and the message waited at most five minutes. The row is claimed under the nonce, and no
  older message of the room is left pending: messages are handed out in their order.\<close>

theorem claimed_message_may_be_sent:
  assumes "keyed wo_id (wb_outbox d)" and "claim_message h now connection room nonce d = (Inr (Some v), d')"
  shows "\<exists>r m. get_web_room d room = Some r \<and> wx_connection_id r = connection \<and> wx_enabled r
    \<and> fresh_room h now r d = Inr True
    \<and> m \<in> set (wb_outbox d) \<and> wo_room_id m = room \<and> wo_status m = WebPending \<and> rw_view v = view_of m
    \<and> web_access h r (wo_owner_id m) True d \<and> now - minutes 5 \<le> wo_created_at m
    \<and> get_message d' (wo_id m) = Some (take_message now nonce (wx_webhook_id r) m)
    \<and> (\<forall>x \<in> set (wb_outbox d'). wo_room_id x = room \<longrightarrow> wo_status x = WebPending \<longrightarrow> wo_created_at m \<le> wo_created_at x)"
proof -
  let ?e = "expire_claims now room d"
  obtain r where r: "open_to_claims h now connection room d r"
    and scan: "claim_first h now r nonce (pending_rows room ?e) ?e = (Some v, d')"
    using assms(2) by (cases rule: claim_outcomes [of h now connection room nonce d])
      (auto simp: claim_scan_def prod_eq_iff)
  obtain pre m post t where rows: "pending_rows room ?e = pre @ m # post" and ok: "refusal h now r m ?e = None"
    and v: "v = delivery_of r nonce (wx_webhook_id r) (sticker_of r m ?e) m"
    and d': "d' = ?e\<lparr>wb_outbox := tset (\<lambda>x. wo_id x = wo_id m) (take_message now nonce (wx_webhook_id r)) t\<rparr>"
    and ids: "map wo_id t = map wo_id (wb_outbox ?e)"
    and left: "\<forall>x \<in> set t. if wo_id x \<in> wo_id ` set pre then wo_status x \<noteq> WebPending else x \<in> set (wb_outbox ?e)"
    using scan by (rule claim_first_split)
  have keyed: "keyed wo_id (wb_outbox ?e)" using assms(1) moves_keyed [OF expire_claims_moves] by blast
  have m: "m \<in> set (wb_outbox ?e)" "wo_room_id m = room" "wo_status m = WebPending"
    using pending_rowsD [of m room ?e] rows by simp_all
  have fresh: "wo_id m \<notin> wo_id ` set pre" using distinct_pending_rows [OF keyed, of room] rows by auto
  have "wo_id m \<in> set (map wo_id t)" using m(1) ids by simp
  then obtain m0 where m0: "m0 \<in> set t" "wo_id m0 = wo_id m" by auto
  then have "m0 = m" using left fresh keyed_eq [OF keyed _ m(1)] by auto
  with m0 have mt: "m \<in> set t" by simp
  have "keyed wo_id t" using keyed ids by (simp add: keyed_def)
  then have "tget wo_id t (wo_id m) = Some m" using mt by (rule tget_self)
  then have got: "get_message d' (wo_id m) = Some (take_message now nonce (wx_webhook_id r) m)"
    by (simp add: d' tget_tset take_message_def)
  have first: "wo_created_at m \<le> wo_created_at x"
    if x: "x \<in> set (wb_outbox d')" "wo_room_id x = room" "wo_status x = WebPending" for x
  proof -
    have "x \<in> set t" using x by (auto simp: d' set_tset take_message_def split: if_splits)
    then have "wo_id x \<notin> wo_id ` set pre" "x \<in> set (wb_outbox ?e)" using left x(3) by (auto split: if_splits)
    then show ?thesis using pending_first [OF rows _ x(2,3)] by blast
  qed
  have md: "m \<in> set (wb_outbox d)" using m by (blast intro: expire_keeps_pending)
  have "web_access h r (wo_owner_id m) True d \<and> now - minutes 5 \<le> wo_created_at m"
    using ok by (auto simp: refusal_def expire_claims_def split: if_splits)
  then show ?thesis
    using r m md got first v by (auto simp: open_to_claims_def delivery_of_def)
qed

section \<open>Limits\<close>

text \<open>The messages that are stored with a creation time in the minute that ends at \<open>t\<close>.\<close>

definition in_minute :: "(web_message \<Rightarrow> bool) \<Rightarrow> time \<Rightarrow> 'a web_db_scheme \<Rightarrow> nat" where
  "in_minute P t d = tcount (\<lambda>m. P m \<and> t - seconds 60 \<le> wo_created_at m \<and> wo_created_at m \<le> t) (wb_outbox d)"

definition within_limits :: "time \<Rightarrow> 'a web_db_scheme \<Rightarrow> bool" where
  "within_limits now d \<longleftrightarrow>
     (\<forall>m \<in> set (wb_outbox d). wo_created_at m \<le> now)
     \<and> (\<forall>t user. in_minute (\<lambda>m. wo_owner_id m = user) t d \<le> 10)
     \<and> (\<forall>t room. in_minute (\<lambda>m. wo_room_id m = room) t d \<le> 30)
     \<and> (\<forall>room. queued_in room d \<le> 32)"

lemma tcount_all2:
  assumes "list_all2 R t t'" and "\<And>a b. R a b \<Longrightarrow> P b \<Longrightarrow> Q a"
  shows "tcount P t' \<le> tcount Q t"
  using assms(1) by (induction rule: list_all2_induct) (auto simp: tcount_def dest: assms(2))

text \<open>A new message counts itself and what its own check counted.\<close>

lemma in_minute_stored:
  assumes "wb_outbox d' = tins m (wb_outbox d)"
  shows "in_minute P t d' \<le> (if P m \<and> t - seconds 60 \<le> wo_created_at m \<and> wo_created_at m \<le> t
           then Suc (recent_sends P (wo_created_at m) d) else in_minute P t d)"
proof -
  have "in_minute P t d \<le> recent_sends P (wo_created_at m) d" if "wo_created_at m \<le> t"
    unfolding in_minute_def recent_sends_def using that by (intro tcount_mono) auto
  then show ?thesis by (simp add: in_minute_def assms tcount_tins)
qed

lemma in_minute_moved:
  assumes "outbox_moves K L d d'" and "\<And>a b. sealed a = sealed b \<Longrightarrow> P a = P b"
  shows "in_minute P t d' \<le> in_minute P t d"
proof -
  have "P a \<and> t - seconds 60 \<le> wo_created_at a \<and> wo_created_at a \<le> t"
    if "row_moves K L a b" "P b \<and> t - seconds 60 \<le> wo_created_at b \<and> wo_created_at b \<le> t" for a b
    using that assms(2) [of a b] sealed_eqD(6) [of a b] by (simp add: row_moves_def)
  then show ?thesis
    unfolding in_minute_def by (rule tcount_all2 [OF assms(1) [unfolded outbox_moves_def]])
qed

lemma queued_moved:
  assumes "outbox_moves K L d d'"
  shows "queued_in room d' \<le> queued_in room d"
proof -
  have "wo_room_id a = room \<and> wo_status a \<in> {WebPending, WebClaimed}"
    if "row_moves K L a b" "wo_room_id b = room \<and> wo_status b \<in> {WebPending, WebClaimed}" for a b
  proof -
    have "row_phase b \<in> {Queued, InFlight}" using that(2) by auto
    then have "row_phase a \<in> {Queued, InFlight}"
      using that(1) by (auto simp: row_moves_def later_def split: if_splits simp del: phase_queued_iff phase_in_flight_iff)
    with that show ?thesis by (auto simp: row_moves_def dest: sealed_eqD)
  qed
  then show ?thesis
    unfolding queued_in_def by (rule tcount_all2 [OF assms [unfolded outbox_moves_def]])
qed

lemma created_moved:
  assumes "outbox_moves K L d d'" and "b \<in> set (wb_outbox d')"
  shows "\<exists>a \<in> set (wb_outbox d). wo_created_at b = wo_created_at a"
  using assms unfolding outbox_moves_def
  by (induction rule: list_all2_induct) (auto simp: row_moves_def dest: sealed_eqD)

lemma limits_step:
  assumes "keyed wo_id (wb_outbox d)" and "within_limits now d" and "now \<le> fst x"
  shows "within_limits (fst x) (do_web h x d)"
  using assms(1)
proof (cases rule: web_cases [where h = h and x = x])
  case (forgotten P)
  with assms(2,3) show ?thesis
    by (auto simp: within_limits_def in_minute_def queued_in_def intro: order_trans [OF tcount_tdel_le])
next
  case (stored m)
  have user: "in_minute (\<lambda>a. wo_owner_id a = user) t (do_web h x d) \<le> 10" for user t
    using in_minute_stored [OF stored(5), of "\<lambda>a. wo_owner_id a = user" t] stored(3) assms(2)
    by (auto simp: fits_def within_limits_def split: if_splits intro: order_trans)
  have room: "in_minute (\<lambda>a. wo_room_id a = room) t (do_web h x d) \<le> 30" for room t
    using in_minute_stored [OF stored(5), of "\<lambda>a. wo_room_id a = room" t] stored(3) assms(2)
    by (auto simp: fits_def within_limits_def split: if_splits intro: order_trans)
  have queued: "queued_in room (do_web h x d) \<le> 32" for room
  proof -
    have "queued_in room (do_web h x d) \<le> (if wo_room_id m = room then Suc (queued_in room d) else queued_in room d)"
      by (simp add: queued_in_def stored(5) tcount_tins)
    moreover have "queued_in (wo_room_id m) d < 32" "queued_in room d \<le> 32"
      using stored(3) assms(2) by (simp_all add: fits_def within_limits_def)
    ultimately show ?thesis by (auto split: if_splits)
  qed
  have "\<forall>b \<in> set (wb_outbox (do_web h x d)). wo_created_at b \<le> fst x"
    using assms(2,3) stored(4) by (auto simp: stored(5) within_limits_def)
  with user room queued show ?thesis by (simp add: within_limits_def)
next
  case moved
  have created: "wo_created_at b \<le> fst x" if "b \<in> set (wb_outbox (do_web h x d))" for b
    using created_moved [OF moved(2) that] assms(2,3) by (auto simp: within_limits_def)
  have "in_minute (\<lambda>a. wo_owner_id a = user) t (do_web h x d) \<le> 10" for user t
  proof (rule order_trans [OF in_minute_moved [OF moved(2)]])
    fix a b :: web_message assume "sealed a = sealed b"
    then have "wo_owner_id a = wo_owner_id b" by (rule sealed_eqD(3))
    then show "(wo_owner_id a = user) = (wo_owner_id b = user)" by simp
  qed (use assms(2) in \<open>simp add: within_limits_def\<close>)
  moreover have "in_minute (\<lambda>a. wo_room_id a = room) t (do_web h x d) \<le> 30" for room t
  proof (rule order_trans [OF in_minute_moved [OF moved(2)]])
    fix a b :: web_message assume "sealed a = sealed b"
    then have "wo_room_id a = wo_room_id b" by (rule sealed_eqD(2))
    then show "(wo_room_id a = room) = (wo_room_id b = room)" by simp
  qed (use assms(2) in \<open>simp add: within_limits_def\<close>)
  moreover have "queued_in room (do_web h x d) \<le> 32" for room
    by (rule order_trans [OF queued_moved [OF moved(2)]]) (use assms(2) in \<open>simp add: within_limits_def\<close>)
  ultimately show ?thesis using created by (simp add: within_limits_def)
qed

lemma limits_run:
  assumes "keyed wo_id (wb_outbox d)" and "within_limits now d" and "sorted (now # map fst calls)"
  shows "within_limits (last (now # map fst calls)) (run_ops (do_web h) calls d)"
  using assms
proof (induction calls arbitrary: d now)
  case (Cons x xs)
  have "within_limits (fst x) (do_web h x d)" using limits_step [OF Cons.prems(1,2)] Cons.prems(3) by simp
  from Cons.IH [OF web_keyed [OF Cons.prems(1)] this] Cons.prems(3) show ?case by simp
qed simp

text \<open>C35. The senders stay within their limits. From an empty outbox, over any run with a clock that does not
  go back: in every minute at most 10 messages of an account and at most 30 of a room are stored, and never more
  than 32 messages of a room are queued or in flight.\<close>

theorem web_sends_within_limits:
  assumes "wb_outbox d = []" and "sorted (map fst calls)"
  shows "in_minute (\<lambda>m. wo_owner_id m = user) t (run_ops (do_web h) calls d) \<le> 10
    \<and> in_minute (\<lambda>m. wo_room_id m = room) t (run_ops (do_web h) calls d) \<le> 30
    \<and> queued_in room (run_ops (do_web h) calls d) \<le> 32"
proof (cases calls)
  case Nil
  with assms(1) show ?thesis by (simp add: in_minute_def queued_in_def)
next
  case (Cons x xs)
  have "within_limits (fst x) d" using assms(1) by (simp add: within_limits_def in_minute_def queued_in_def)
  from limits_run [OF _ this, of calls h] assms Cons show ?thesis by (simp add: within_limits_def)
qed

section \<open>A concrete room\<close>

definition example_hashes :: web_digests where
  "example_hashes =
     \<lparr>wd_list = (\<lambda>xs. join ''/'' xs), wd_send = (\<lambda>room q. room @ ''/'' @ wn_client_message_id q @ map char_of (wn_text q)),
      wd_bytes = (\<lambda>_. ''bytes''),
      wd_room = \<lparr>sha_text = id, sha_scope = (\<lambda>s. sc_channel_id s), sha_ids = (\<lambda>xs. join ''/'' xs),
        sha_raw = (\<lambda>xs. join ''/'' xs), sha_source = (\<lambda>_. ''source''), sha_focus = (\<lambda>_. ''focus'')\<rparr>\<rparr>"

definition example_room :: web_room where
  "example_room =
     \<lparr>wx_id = ''r1'', wx_owner_id = ''ann'', wx_connection_id = ''c1'', wx_guild_id = ''g1'', wx_channel_id = ''h1'',
      wx_thread_id = [], wx_name = [], wx_enabled = True, wx_webhook_id = ''w1'', wx_created_at = 0\<rparr>"

definition example_web :: web_db where
  "example_web =
     \<lparr>operations = [], steps = [], effects = [], deliveries = [], usages = [],
      room_states = [\<lparr>ro_id = ''h1'',
        ro_scope = \<lparr>sc_owner_id = ''ann'', sc_connection_id = ''c1'', sc_guild_id = ''g1'', sc_channel_id = ''h1'', sc_thread_id = []\<rparr>,
        ro_revision = 0, ro_readable = True, ro_permission_checked_at = Some 0, ro_updated_at = 0\<rparr>],
      room_sources = [], room_selections = [], room_routes = [], character_notes = [], note_receipts = [],
      media_references = [], character_cards = [],
      ax_users = [\<lparr>us_id = ''bob'', us_email = [], us_display_name = [], us_password_hash = [], us_role = ''user'',
        us_active = True, us_created_at = 0, us_updated_at = 0\<rparr>],
      ax_connections = [\<lparr>pn_id = ''c1'', pn_owner_id = ''ann'', pn_platform = ''discord'', pn_display_name = [],
        pn_connection_mode = [], pn_external_account_id = [], pn_status = [], pn_metadata = Text (JObj []),
        pn_last_seen_at = None, pn_created_at = 0, pn_updated_at = 0\<rparr>],
      ax_catalogs = [], ax_profiles = [], ax_joins = [],
      ax_access = [\<lparr>sx_id = ''s1'', sx_user_id = ''bob'', sx_connection_id = ''c1'', sx_guild_id = ''g1'', sx_source = [], sx_created_at = 0\<rparr>],
      wb_expressions = [], wb_artifacts = [], wb_rooms = [example_room],
      wb_members = [\<lparr>wm_id = ''r1/bob'', wm_room_id = ''r1'', wm_user_id = ''bob'', wm_can_post = True\<rparr>],
      wb_profiles = [\<lparr>wp_id = ''p1'', wp_owner_id = ''bob'', wp_display_name = [], wp_avatar_url = [], wp_version = 1\<rparr>],
      wb_reactions = [], wb_outbox = [], wb_cursors = []\<rparr>"

definition example_send :: web_send where
  "example_send =
     \<lparr>wn_profile_id = ''p1'', wn_client_message_id = ''client01'', wn_text = [104, 105], wn_reply_to = [], wn_sticker = [],
      wn_attachment_ids = []\<rparr>"

definition example_receipt :: receipt where
  "example_receipt =
     \<lparr>re_status = ''delivered'', re_message_id = ''m1'', re_created_at = Some 3, re_webhook_id = ''w1'', re_reason = []\<rparr>"

definition example_calls :: "(time \<times> web_db web_command) list" where
  "example_calls =
     [(1, SendMessage ''bob'' ''r1'' example_send), (2, ClaimMessage ''c1'' ''r1'' ''n1''),
      (3, AcknowledgeMessage ''c1'' ''bob/client01'' ''n1'' example_receipt)]"

lemma example_run:
  "web_phase (run_ops (do_web example_hashes) example_calls example_web) ''bob/client01'' = Sent ''w1'' ''m1''"
  "events_of (do_web example_hashes) (web_event example_hashes ''bob/client01'') example_calls example_web = [Offered, HandedOut, Receipted (Sent ''w1'' ''m1'')]"
  "web_phase example_web ''bob/client01'' = Absent"
  by code_simp+

lemma example_keyed: "keyed wo_id (wb_outbox example_web)"
  by (simp add: example_web_def)

lemma example_forgets: "\<forall>x \<in> set example_calls. \<not> forgets x"
  by (simp add: example_calls_def)

theorem web_outbox_implements_machine_witness:
  "path outbox_spec Absent [Offered, HandedOut, Receipted (Sent ''w1'' ''m1'')] (Sent ''w1'' ''m1'')"
  using web_outbox_implements_machine [OF example_keyed, of "''bob/client01''" example_hashes example_calls]
  by (simp only: example_run)

theorem web_message_handed_out_once_witness:
  "grant_count (do_web example_hashes) (\<lambda>x d. ''bob/client01'' \<in> handed example_hashes x d) example_calls example_web \<le> 1"
  by (rule web_message_handed_out_once [OF example_keyed example_forgets])

definition example_sent :: web_db where
  "example_sent = run_ops (do_web example_hashes) example_calls example_web"

lemma example_sent_rows:
  "map (\<lambda>m. (wo_id m, wo_status m, wo_discord_message_id m, wo_webhook_id m)) (wb_outbox example_sent)
    = [(''bob/client01'', WebDelivered, ''m1'', ''w1'')]"
  unfolding example_sent_def by code_simp

theorem web_receipt_is_final_witness:
  "\<exists>m'. get_message (run_ops (do_web example_hashes) example_calls example_sent) ''bob/client01'' = Some m'
     \<and> wo_status m' = WebDelivered \<and> wo_discord_message_id m' = ''m1''"
proof -
  obtain m where m: "wb_outbox example_sent = [m]" "wo_id m = ''bob/client01''" "wo_status m = WebDelivered"
    "wo_discord_message_id m = ''m1''"
    using example_sent_rows by (auto simp: map_eq_Cons_conv)
  then have "keyed wo_id (wb_outbox example_sent)" "receipts_unique example_sent"
    "get_message example_sent ''bob/client01'' = Some m"
    by (simp_all add: keyed_def receipts_unique_def)
  from web_receipt_is_final [OF this(1,2) example_forgets this(3) m(3), of example_hashes] m(4)
  show ?thesis by auto
qed

lemma example_stored:
  "map (\<lambda>x. case x of Inl _ \<Rightarrow> [] | Inr v \<Rightarrow> dv_id v)
     [fst (enqueue_locked example_hashes 1 ''bob'' ''r1'' example_send example_web),
      fst (enqueue_locked example_hashes 9 ''bob'' ''r1'' example_send example_sent)]
   = [''bob/client01'', ''bob/client01'']"
  unfolding example_sent_def by code_simp

theorem web_send_is_idempotent_witness:
  "snd (enqueue_locked example_hashes 9 ''bob'' ''r1'' example_send example_sent) = example_sent"
proof -
  obtain v where v: "fst (enqueue_locked example_hashes 1 ''bob'' ''r1'' example_send example_web) = Inr v"
    using example_stored by (auto split: sum.splits)
  then have "enqueue_locked example_hashes 1 ''bob'' ''r1'' example_send example_web
      = (Inr v, do_web example_hashes (1, SendMessage ''bob'' ''r1'' example_send) example_web)"
    by (simp add: prod_eq_iff)
  from web_send_is_idempotent [OF example_keyed this, where calls = "tl example_calls" and e = example_sent
      and q' = example_send and retried = 9 and room' = "''r1''"]
  show ?thesis by (simp add: example_sent_def example_calls_def)
qed

definition example_queued :: web_db where
  "example_queued = do_web example_hashes (1, SendMessage ''bob'' ''r1'' example_send) example_web"

lemma example_claim:
  "map_sum id (map_option (\<lambda>v. dv_id (rw_view v)))
     (fst (claim_message example_hashes 2 ''c1'' ''r1'' ''n1'' example_queued)) = Inr (Some ''bob/client01'')"
  unfolding example_queued_def by code_simp

theorem claimed_message_may_be_sent_witness:
  "\<exists>r m. get_web_room example_queued ''r1'' = Some r \<and> wx_enabled r
     \<and> web_access example_hashes r (wo_owner_id m) True example_queued \<and> m \<in> set (wb_outbox example_queued)"
proof -
  obtain v where "fst (claim_message example_hashes 2 ''c1'' ''r1'' ''n1'' example_queued) = Inr (Some v)"
    using example_claim by (cases "fst (claim_message example_hashes 2 ''c1'' ''r1'' ''n1'' example_queued)") auto
  then have "claim_message example_hashes 2 ''c1'' ''r1'' ''n1'' example_queued
      = (Inr (Some v), snd (claim_message example_hashes 2 ''c1'' ''r1'' ''n1'' example_queued))"
    by (simp add: prod_eq_iff)
  moreover have "keyed wo_id (wb_outbox example_queued)"
    unfolding example_queued_def by (rule web_keyed [OF example_keyed])
  ultimately show ?thesis using claimed_message_may_be_sent by blast
qed

theorem web_sends_within_limits_witness:
  "queued_in ''r1'' (run_ops (do_web example_hashes) example_calls example_web) \<le> 32"
proof -
  have "wb_outbox example_web = []" "sorted (map fst example_calls)"
    by (simp_all add: example_web_def example_calls_def)
  from web_sends_within_limits [OF this] show ?thesis by blast
qed

end
