(* ===== verification/Ip_Addresses.thy ===== *)
theory Ip_Addresses
  imports Prelude "HOL-Library.Word" "HOL-Library.Code_Target_Nat"
begin

unbundle bit_operations_syntax

text \<open>
  What the code uses of Python's \<open>ipaddress\<close> and \<open>urllib.parse\<close>: reading and writing addresses, whether an
  address is \<open>is_global\<close>, and the parts of a URL. An address is a word of its width. The code compares and
  dials the text that \<open>str\<close> gives. The lists of networks and the handling of mapped addresses are those of
  Python 3.12. Scope identifiers only occur in text that is cut off before it is compared.
\<close>

section \<open>Text\<close>

text \<open>\<open>str.partition\<close>, \<open>str.rpartition\<close> and \<open>str.split\<close> with one separator character.\<close>

definition before :: "char \<Rightarrow> string \<Rightarrow> string" where
  "before c s = takeWhile (\<lambda>x. x \<noteq> c) s"

definition beyond :: "char \<Rightarrow> string \<Rightarrow> string" where
  "beyond c s = drop 1 (dropWhile (\<lambda>x. x \<noteq> c) s)"

definition before_last :: "char \<Rightarrow> string \<Rightarrow> string" where
  "before_last c s = rev (beyond c (rev s))"

definition beyond_last :: "char \<Rightarrow> string \<Rightarrow> string" where
  "beyond_last c s = rev (before c (rev s))"

fun split_on :: "char \<Rightarrow> string \<Rightarrow> string list" where
  "split_on c [] = [[]]"
| "split_on c (x # xs) =
     (if x = c then [] # split_on c xs
      else (case split_on c xs of [] \<Rightarrow> [[x]] | y # ys \<Rightarrow> (x # y) # ys))"

definition ascii_digit :: "char \<Rightarrow> bool" where
  "ascii_digit c \<longleftrightarrow> CHR ''0'' \<le> c \<and> c \<le> CHR ''9''"

definition hex_value :: "char \<Rightarrow> nat option" where
  "hex_value c =
     (if ascii_digit c then Some (of_char c - 48)
      else if CHR ''a'' \<le> c \<and> c \<le> CHR ''f'' then Some (of_char c - 87)
      else if CHR ''A'' \<le> c \<and> c \<le> CHR ''F'' then Some (of_char c - 55)
      else None)"

text \<open>The number that digits of a base stand for.\<close>

definition number_in :: "nat \<Rightarrow> string \<Rightarrow> nat" where
  "number_in base s = foldl (\<lambda>n c. base * n + the (hex_value c)) 0 s"

definition hex_digit :: "nat \<Rightarrow> char" where
  "hex_digit n = char_of (if n < 10 then 48 + n else 87 + n)"

fun hex_of :: "nat \<Rightarrow> string" where
  "hex_of n = (if n < 16 then [hex_digit n] else hex_of (n div 16) @ [hex_digit (n mod 16)])"

declare hex_of.simps [simp del]

definition ascii_alpha :: "char \<Rightarrow> bool" where
  "ascii_alpha c \<longleftrightarrow> (CHR ''A'' \<le> c \<and> c \<le> CHR ''Z'') \<or> (CHR ''a'' \<le> c \<and> c \<le> CHR ''z'')"

definition ascii_lower :: "string \<Rightarrow> string" where
  "ascii_lower s = map (\<lambda>c. if CHR ''A'' \<le> c \<and> c \<le> CHR ''Z'' then char_of (of_char c + (32::nat)) else c) s"

section \<open>Addresses of version 4\<close>

definition octet :: "string \<Rightarrow> nat option" where
  "octet s =
     (if s = [] \<or> \<not> list_all ascii_digit s \<or> 3 < length s \<or> (s \<noteq> ''0'' \<and> hd s = CHR ''0'') then None
      else (let n = number_in 10 s in if 255 < n then None else Some n))"

definition word_of_parts :: "nat \<Rightarrow> nat list \<Rightarrow> nat" where
  "word_of_parts base ns = foldl (\<lambda>n h. base * n + h) 0 ns"

definition ipv4_of :: "string \<Rightarrow> 32 word option" where
  "ipv4_of s =
     (let octets = map octet (split_on CHR ''.'' s) in
      if length octets \<noteq> 4 \<or> None \<in> set octets then None
      else Some (word_of_nat (word_of_parts 256 (map the octets))))"

definition octets_of :: "32 word \<Rightarrow> nat list" where
  "octets_of w = map (\<lambda>i. unat w div 256 ^ i mod 256) [3, 2, 1, 0]"

definition ipv4_text :: "32 word \<Rightarrow> string" where
  "ipv4_text w = join ''.'' (map digits_of (octets_of w))"

section \<open>Addresses of version 6\<close>

definition hextet :: "string \<Rightarrow> nat option" where
  "hextet s = (if s = [] \<or> 4 < length s \<or> \<not> list_all (\<lambda>c. hex_value c \<noteq> None) s then None else Some (number_in 16 s))"

text \<open>An address may end in one of version 4, which stands for two parts.\<close>

definition ipv6_parts :: "string \<Rightarrow> string list option" where
  "ipv6_parts s =
     (let parts = split_on CHR '':'' s in
      if length parts < 3 then None
      else if CHR ''.'' \<in> set (last parts) then
        map_option (\<lambda>w. butlast parts @ [hex_of (unat (drop_bit 16 w)), hex_of (unat (w AND 0xFFFF))]) (ipv4_of (last parts))
      else Some parts)"

text \<open>An empty part that is neither the first nor the last stands for the missing zeros. An empty first or
  last part is only allowed next to it.\<close>

definition ipv6_spread :: "string list \<Rightarrow> string list option" where
  "ipv6_spread parts =
     (let middle = butlast (tl parts);
          left = takeWhile (\<lambda>p. p \<noteq> []) middle; right = drop 1 (dropWhile (\<lambda>p. p \<noteq> []) middle);
          hi = (if hd parts = [] then left else hd parts # left);
          lo = (if last parts = [] then right else right @ [last parts]) in
      if 9 < length parts then None
      else if [] \<notin> set middle then (if length parts \<noteq> 8 then None else Some parts)
      else if [] \<in> set right \<or> (hd parts = [] \<and> hi \<noteq> []) \<or> (last parts = [] \<and> lo \<noteq> []) \<or> 8 \<le> length hi + length lo
      then None
      else Some (hi @ replicate (8 - (length hi + length lo)) ''0'' @ lo))"

definition ipv6_of :: "string \<Rightarrow> 128 word option" where
  "ipv6_of s =
     (case Option.bind (ipv6_parts s) ipv6_spread of
        None \<Rightarrow> None
      | Some parts \<Rightarrow>
          if None \<in> set (map hextet parts) then None
          else Some (word_of_nat (word_of_parts 65536 (map (\<lambda>p. the (hextet p)) parts))))"

definition hextets_of :: "128 word \<Rightarrow> nat list" where
  "hextets_of w = map (\<lambda>i. unat w div 65536 ^ i mod 65536) [7, 6, 5, 4, 3, 2, 1, 0]"

text \<open>The first longest run of zeros: its start and its length.\<close>

fun longest_zeros :: "nat \<Rightarrow> nat \<times> nat \<Rightarrow> nat \<times> nat \<Rightarrow> string list \<Rightarrow> nat \<times> nat" where
  "longest_zeros i best cur [] = best"
| "longest_zeros i best cur (h # hs) =
     (if h = ''0'' then
        (let cur' = (if snd cur = 0 then i else fst cur, Suc (snd cur)) in
         longest_zeros (Suc i) (if snd best < snd cur' then cur' else best) cur' hs)
      else longest_zeros (Suc i) best (0, 0) hs)"

definition compress_hextets :: "string list \<Rightarrow> string list" where
  "compress_hextets hs =
     (let (start, n) = longest_zeros 0 (0, 0) (0, 0) hs in
      if n \<le> 1 then hs
      else (if start = 0 then [[]] else []) @ take start hs @ [[]] @ drop (start + n) hs
             @ (if start + n = length hs then [[]] else []))"

definition ipv6_text :: "128 word \<Rightarrow> string" where
  "ipv6_text w = join '':'' (compress_hextets (map hex_of (hextets_of w)))"

section \<open>Addresses\<close>

datatype ip_address = V4 "32 word" | V6 "128 word"

definition read_ip :: "string \<Rightarrow> ip_address option" where
  "read_ip s =
     (case ipv4_of s of
        Some w \<Rightarrow> Some (V4 w)
      | None \<Rightarrow>
          if CHR ''/'' \<in> set s then None
          else if CHR ''%'' \<in> set s \<and> (beyond CHR ''%'' s = [] \<or> CHR ''%'' \<in> set (beyond CHR ''%'' s)) then None
          else map_option V6 (ipv6_of (before CHR ''%'' s)))"

fun ip_text :: "ip_address \<Rightarrow> string" where
  "ip_text (V4 w) = ipv4_text w"
| "ip_text (V6 w) = ipv6_text w"

text \<open>A network is its first address and the length of its prefix.\<close>

definition in_network :: "'a::len word \<Rightarrow> 'a word \<times> nat \<Rightarrow> bool" where
  "in_network x net \<longleftrightarrow> x AND NOT (mask (LENGTH('a) - snd net)) = fst net"

definition private_v4_networks :: "(32 word \<times> nat) list" where
  "private_v4_networks =
     [(0x00000000, 8), (0x0A000000, 8), (0x7F000000, 8), (0xA9FE0000, 16), (0xAC100000, 12), (0xC0000000, 24),
      (0xC00000AA, 31), (0xC0000200, 24), (0xC0A80000, 16), (0xC6120000, 15), (0xC6336400, 24), (0xCB007100, 24),
      (0xF0000000, 4), (0xFFFFFFFF, 32)]"

definition private_v4_exceptions :: "(32 word \<times> nat) list" where
  "private_v4_exceptions = [(0xC0000009, 32), (0xC000000A, 32)]"

definition shared_v4_network :: "32 word \<times> nat" where
  "shared_v4_network = (0x64400000, 10)"

definition private_v4 :: "32 word \<Rightarrow> bool" where
  "private_v4 w \<longleftrightarrow> list_ex (in_network w) private_v4_networks \<and> \<not> list_ex (in_network w) private_v4_exceptions"

definition private_v6_networks :: "(128 word \<times> nat) list" where
  "private_v6_networks =
     [(0x1, 128), (0x0, 128), (0xFFFF00000000, 96), (0x0064FF9B000100000000000000000000, 48),
      (0x01000000000000000000000000000000, 64), (0x20010000000000000000000000000000, 23),
      (0x20010DB8000000000000000000000000, 32), (0x20020000000000000000000000000000, 16),
      (0xFC000000000000000000000000000000, 7), (0xFE800000000000000000000000000000, 10)]"

definition private_v6_exceptions :: "(128 word \<times> nat) list" where
  "private_v6_exceptions =
     [(0x20010001000000000000000000000001, 128), (0x20010001000000000000000000000002, 128),
      (0x20010003000000000000000000000000, 32), (0x20010004011200000000000000000000, 48),
      (0x20010020000000000000000000000000, 28), (0x20010030000000000000000000000000, 28)]"

definition private_v6 :: "128 word \<Rightarrow> bool" where
  "private_v6 w \<longleftrightarrow>
     (if drop_bit 32 w = 0xFFFF then private_v4 (ucast w)
      else list_ex (in_network w) private_v6_networks \<and> \<not> list_ex (in_network w) private_v6_exceptions)"

fun is_global :: "ip_address \<Rightarrow> bool" where
  "is_global (V4 w) \<longleftrightarrow> \<not> in_network w shared_v4_network \<and> \<not> private_v4 w"
| "is_global (V6 w) \<longleftrightarrow> \<not> private_v6 w"

section \<open>URLs\<close>

record url_parts =
  ur_scheme :: string
  ur_netloc :: string
  ur_path :: string
  ur_query :: string
  ur_fragment :: string

definition scheme_char :: "char \<Rightarrow> bool" where
  "scheme_char c \<longleftrightarrow> ascii_alpha c \<or> ascii_digit c \<or> c \<in> {CHR ''+'', CHR ''-'', CHR ''.''}"

definition split_scheme :: "string \<Rightarrow> string \<times> string" where
  "split_scheme s =
     (let p = before CHR '':'' s in
      if CHR '':'' \<in> set s \<and> p \<noteq> [] \<and> ascii_alpha (hd p) \<and> list_all scheme_char p
      then (ascii_lower p, beyond CHR '':'' s) else ([], s))"

definition ends_netloc :: "char \<Rightarrow> bool" where
  "ends_netloc c \<longleftrightarrow> c \<in> {CHR ''/'', CHR ''?'', CHR ''#''}"

definition split_netloc :: "string \<Rightarrow> string \<times> string" where
  "split_netloc s =
     (if take 2 s = ''//'' then (takeWhile (\<lambda>c. \<not> ends_netloc c) (drop 2 s), dropWhile (\<lambda>c. \<not> ends_netloc c) (drop 2 s))
      else ([], s))"

definition future_address :: "string \<Rightarrow> bool" where
  "future_address s \<longleftrightarrow>
     CHR ''.'' \<in> set s \<and> before CHR ''.'' (tl s) \<noteq> [] \<and> list_all (\<lambda>c. hex_value c \<noteq> None) (before CHR ''.'' (tl s))
     \<and> beyond CHR ''.'' s \<noteq> []"

definition bracketed_host :: "string \<Rightarrow> bool" where
  "bracketed_host s \<longleftrightarrow>
     (if take 1 s = ''v'' then future_address s else (case read_ip s of Some (V6 _) \<Rightarrow> True | _ \<Rightarrow> False))"

text \<open>\<open>_hostinfo\<close>: the host and the port as they are written.\<close>

definition host_and_port :: "string \<Rightarrow> string \<times> string" where
  "host_and_port netloc =
     (let info = beyond_last CHR ''@'' netloc; inner = beyond CHR ''['' info in
      if CHR ''['' \<in> set info
      then (before CHR '']'' inner, beyond CHR '':'' (beyond CHR '']'' inner))
      else (before CHR '':'' info, beyond CHR '':'' info))"

definition good_brackets :: "string \<Rightarrow> bool" where
  "good_brackets netloc \<longleftrightarrow>
     (CHR ''['' \<in> set netloc \<longleftrightarrow> CHR '']'' \<in> set netloc)
     \<and> (CHR ''['' \<in> set netloc \<longrightarrow>
          (let info = beyond_last CHR ''@'' netloc; rest = beyond CHR '']'' (beyond CHR ''['' info) in
           (CHR ''['' \<in> set info \<longrightarrow> before CHR ''['' info = [] \<and> (rest = [] \<or> hd rest = CHR '':''))
           \<and> bracketed_host (fst (host_and_port netloc))))"

definition urlsplit :: "string \<Rightarrow> url_parts option" where
  "urlsplit url =
     (let cleaned = filter (\<lambda>c. c \<notin> {CHR 0x09, CHR 0x0A, CHR 0x0D}) (dropWhile (\<lambda>c. c \<le> CHR '' '') url);
          (scheme, rest) = split_scheme cleaned;
          (netloc, tail) = split_netloc rest;
          middle = before CHR ''#'' tail in
      if \<not> good_brackets netloc then None
      else Some \<lparr>ur_scheme = scheme, ur_netloc = netloc, ur_path = before CHR ''?'' middle,
                 ur_query = beyond CHR ''?'' middle, ur_fragment = beyond CHR ''#'' tail\<rparr>)"

text \<open>The attributes of the result. \<open>port\<close> raises where the text is no number up to 65535.\<close>

definition url_hostname :: "(string \<Rightarrow> string) \<Rightarrow> url_parts \<Rightarrow> string option" where
  "url_hostname lower u =
     (let host = fst (host_and_port (ur_netloc u)) in
      if host = [] then None
      else Some (lower (before CHR ''%'' host) @ (if CHR ''%'' \<in> set host then CHR ''%'' # beyond CHR ''%'' host else [])))"

definition url_port :: "url_parts \<Rightarrow> (nat option) option" where
  "url_port u =
     (let port = snd (host_and_port (ur_netloc u)) in
      if port = [] then Some None
      else if list_all ascii_digit port \<and> number_in 10 port \<le> 65535 then Some (Some (number_in 10 port))
      else None)"

definition url_username :: "url_parts \<Rightarrow> string" where
  "url_username u = before CHR '':'' (before_last CHR ''@'' (ur_netloc u))"

definition url_password :: "url_parts \<Rightarrow> string" where
  "url_password u = beyond CHR '':'' (before_last CHR ''@'' (ur_netloc u))"

section \<open>Reading back what was written\<close>

lemma split_on_none: "c \<notin> set s \<Longrightarrow> split_on c s = [s]"
  by (induction s) auto

lemma split_on_append: "c \<notin> set x \<Longrightarrow> split_on c (x @ c # s) = x # split_on c s"
  by (induction x) auto

lemma split_on_join:
  "xs \<noteq> [] \<Longrightarrow> \<forall>x \<in> set xs. c \<notin> set x \<Longrightarrow> split_on c (join [c] xs) = xs"
  by (induction "[c]" xs rule: join.induct) (auto simp: split_on_none split_on_append)

text \<open>The digits of a number in a base, most significant first.\<close>

lemma word_of_digits:
  "foldl (\<lambda>n h. b * n + h) a (map (\<lambda>i. n div b ^ i mod b) (rev [0..<k])) = a * b ^ k + n mod b ^ k" for n b :: nat
proof (induction k arbitrary: a)
  case (Suc k)
  define q r where "q = n div b ^ k mod b" and "r = n mod b ^ k"
  have "n mod b ^ Suc k = b ^ k * q + r"
    unfolding q_def r_def using mod_mult2_eq [of n "b ^ k" b] by (simp only: power_Suc2)
  note split = this
  have "foldl (\<lambda>n h. b * n + h) a (map (\<lambda>i. n div b ^ i mod b) (rev [0..<Suc k])) = (b * a + q) * b ^ k + r"
    using Suc [of "b * a + q"] by (simp add: q_def r_def)
  then show ?case unfolding split by (simp add: algebra_simps)
qed simp

lemma unat_less_32: "unat (w :: 32 word) < 256 ^ 4"
  using unsigned_less [of w, where ?'a = nat] by simp

lemma unat_less_128: "unat (w :: 128 word) < 65536 ^ 8"
  using unsigned_less [of w, where ?'a = nat] by simp

lemma word_of_octets: "word_of_parts 256 (octets_of w) = unat w"
proof -
  have "[3, 2, 1, 0] = rev [0..<4::nat]" by (simp add: upt_rec)
  then show ?thesis
    using word_of_digits [of 256 0 "unat w" 4] unat_less_32 [of w]
    by (simp only: octets_of_def word_of_parts_def) simp
qed

lemma word_of_hextets: "word_of_parts 65536 (hextets_of w) = unat w"
proof -
  have "[7, 6, 5, 4, 3, 2, 1, 0] = rev [0..<8::nat]" by (simp add: upt_rec)
  then show ?thesis
    using word_of_digits [of 65536 0 "unat w" 8] unat_less_128 [of w]
    by (simp only: hextets_of_def word_of_parts_def) simp
qed

lemma hex_digit_value: "n < 16 \<Longrightarrow> hex_value (hex_digit n) = Some n \<and> hex_digit n \<notin> {CHR ''.'', CHR '':'', CHR ''/'', CHR ''%''}"
proof -
  have "list_all (\<lambda>n. hex_value (hex_digit n) = Some n \<and> hex_digit n \<notin> {CHR ''.'', CHR '':'', CHR ''/'', CHR ''%''}) [0..<16]"
    by code_simp
  then show "n < 16 \<Longrightarrow> ?thesis" by (simp only: list_all_iff set_upt) simp
qed

lemma digit_value: "n < 10 \<Longrightarrow> hex_value (char_of (48 + n)) = Some n \<and> ascii_digit (char_of (48 + n))
    \<and> (char_of (48 + n) = CHR ''0'' \<longleftrightarrow> n = 0)"
proof -
  have "list_all (\<lambda>n. hex_value (char_of (48 + n)) = Some n \<and> ascii_digit (char_of (48 + n))
    \<and> (char_of (48 + n) = CHR ''0'' \<longleftrightarrow> n = 0)) [0..<10]"
    by code_simp
  then show "n < 10 \<Longrightarrow> ?thesis" by (simp only: list_all_iff set_upt) simp
qed

lemma number_in_snoc: "number_in b (s @ [c]) = b * number_in b s + the (hex_value c)"
  by (simp add: number_in_def)

lemma number_in_single: "number_in b [c] = the (hex_value c)"
  by (simp add: number_in_def)

lemma digits_of_facts:
  "digits_of n \<noteq> [] \<and> list_all ascii_digit (digits_of n) \<and> number_in 10 (digits_of n) = n
   \<and> (hd (digits_of n) = CHR ''0'' \<longrightarrow> n = 0)"
proof (induction n rule: digits_of.induct)
  case (1 n)
  show ?case
  proof (cases "n < 10")
    case True
    then show ?thesis using digit_value [of n] by (simp add: digits_of.simps [of n] number_in_single)
  next
    case False
    have "n mod 10 < 10" "n div 10 \<noteq> 0" using False by auto
    then show ?thesis using 1 [OF False] digit_value [of "n mod 10"] False
      by (simp add: digits_of.simps [of n] number_in_snoc hd_append)
  qed
qed

lemma length_digits_of: "n < 10 ^ Suc k \<Longrightarrow> length (digits_of n) \<le> Suc k"
proof (induction k arbitrary: n)
  case (Suc k)
  then show ?case using Suc.IH [of "n div 10"] by (simp add: digits_of.simps [of n])
qed (simp add: digits_of.simps)

lemma octet_digits:
  assumes "n < 256"
  shows "octet (digits_of n) = Some n \<and> CHR ''.'' \<notin> set (digits_of n)"
proof -
  have "length (digits_of n) \<le> 3" using length_digits_of [of n 2] assms by simp
  moreover have "CHR ''.'' \<notin> set (digits_of n)"
    using digits_of_facts [of n] by (auto simp: list_all_iff ascii_digit_def)
  moreover have "digits_of n = ''0''" if "hd (digits_of n) = CHR ''0''"
    using digits_of_facts [of n] that by (simp add: digits_of.simps [of 0])
  ultimately show ?thesis using digits_of_facts [of n] assms by (auto simp: octet_def Let_def)
qed

lemma ipv4_round_trip: "ipv4_of (ipv4_text w) = Some w"
proof -
  have less: "\<forall>n \<in> set (octets_of w). n < 256" by (simp add: octets_of_def)
  have four: "length (octets_of w) = 4" by (simp add: octets_of_def)
  have "split_on CHR ''.'' (ipv4_text w) = map digits_of (octets_of w)"
    unfolding ipv4_text_def using less octet_digits four
    by (intro split_on_join) auto
  then have "map octet (split_on CHR ''.'' (ipv4_text w)) = map Some (octets_of w)"
    using less octet_digits by simp
  then have "ipv4_of (ipv4_text w) = Some (word_of_nat (word_of_parts 256 (map the (map Some (octets_of w)))))"
    using four by (simp add: ipv4_of_def Let_def image_iff del: map_map)
  then show ?thesis by (simp add: word_of_octets comp_def)
qed

lemma hex_of_facts:
  "hex_of n \<noteq> [] \<and> list_all (\<lambda>c. hex_value c \<noteq> None) (hex_of n) \<and> number_in 16 (hex_of n) = n
   \<and> set (hex_of n) \<inter> {CHR ''.'', CHR '':'', CHR ''/'', CHR ''%''} = {}"
proof (induction n rule: hex_of.induct)
  case (1 n)
  show ?case
  proof (cases "n < 16")
    case True
    then show ?thesis using hex_digit_value [of n] by (simp add: hex_of.simps [of n] number_in_single)
  next
    case False
    have "n mod 16 < 16" by simp
    then show ?thesis using 1 [OF False] hex_digit_value [of "n mod 16"] False
      by (simp add: hex_of.simps [of n] number_in_snoc Int_insert_left)
  qed
qed

lemma length_hex_of: "n < 16 ^ Suc k \<Longrightarrow> length (hex_of n) \<le> Suc k"
proof (induction k arbitrary: n)
  case (Suc k)
  then show ?case using Suc.IH [of "n div 16"] by (simp add: hex_of.simps [of n])
qed (simp add: hex_of.simps)

lemma hextet_hex: "n < 65536 \<Longrightarrow> hextet (hex_of n) = Some n"
  using length_hex_of [of n 3] hex_of_facts [of n] by (simp add: hextet_def)

definition zero_block :: "string list \<Rightarrow> nat \<times> nat \<Rightarrow> bool" where
  "zero_block hs b \<longleftrightarrow> fst b + snd b \<le> length hs \<and> (\<forall>i. fst b \<le> i \<and> i < fst b + snd b \<longrightarrow> hs ! i = ''0'')"

lemma longest_zeros_block:
  assumes "zero_block (pre @ hs) best" and "zero_block (pre @ hs) cur"
    and "snd cur \<noteq> 0 \<longrightarrow> fst cur + snd cur = length pre"
  shows "zero_block (pre @ hs) (longest_zeros (length pre) best cur hs)"
  using assms
proof (induction hs arbitrary: pre best cur)
  case (Cons h hs)
  let ?cur = "(if snd cur = 0 then length pre else fst cur, Suc (snd cur))"
  show ?case
  proof (cases "h = ''0''")
    case True
    then have cur: "zero_block ((pre @ [h]) @ hs) ?cur"
      using Cons.prems by (auto simp: zero_block_def nth_append less_Suc_eq)
    have "zero_block ((pre @ [h]) @ hs) (longest_zeros (length (pre @ [h])) (if snd best < snd ?cur then ?cur else best) ?cur hs)"
      by (rule Cons.IH) (use Cons.prems cur in auto)
    then show ?thesis using True by (simp add: Let_def)
  next
    case False
    have "zero_block ((pre @ [h]) @ hs) (longest_zeros (length (pre @ [h])) best (0, 0) hs)"
      by (rule Cons.IH) (use Cons.prems in \<open>auto simp: zero_block_def\<close>)
    then show ?thesis using False by simp
  qed
qed simp

lemma zeros_of_block:
  assumes "length hs = 8"
  shows "zero_block hs (longest_zeros 0 (0, 0) (0, 0) hs)"
  using longest_zeros_block [of "[]" hs "(0, 0)" "(0, 0)"] by (simp add: zero_block_def)

text \<open>The compressed parts spread to the parts they came from, wherever the run of zeros lies.\<close>

lemma takeWhile_dropWhile_gap:
  "[] \<notin> set xs \<Longrightarrow> takeWhile (\<lambda>p. p \<noteq> []) (xs @ [] # ys) = xs"
  "[] \<notin> set xs \<Longrightarrow> dropWhile (\<lambda>p. p \<noteq> []) (xs @ [] # ys) = [] # ys"
  by (induction xs) auto

lemma spread_gap:
  assumes "[] \<notin> set xs" and "[] \<notin> set ys" and "length xs + length ys < 8"
  shows "ipv6_spread ((if xs = [] then [[]] else []) @ xs @ [[]] @ ys @ (if ys = [] then [[]] else []))
    = Some (xs @ replicate (8 - (length xs + length ys)) ''0'' @ ys)"
proof -
  let ?p = "(if xs = [] then [[]] else []) @ xs @ [[]] @ ys @ (if ys = [] then [[]] else [])"
  have middle: "butlast (tl ?p) = tl xs @ [] # butlast ys"
    by (cases xs; cases ys rule: rev_cases) (simp_all add: butlast_append)
  have ends: "hd ?p = (if xs = [] then [] else hd xs)" "last ?p = (if ys = [] then [] else last ys)"
    by (cases xs; simp)+
  have small: "\<not> 9 < length ?p" using assms(3) by auto
  have rest: "[] \<notin> set (tl xs)" "[] \<notin> set (butlast ys)"
    using assms(1,2) by (auto dest: list.set_sel(2) [rotated] in_set_butlastD) (metis list.sel(2) list.set_sel(2))
  have nonempty: "xs \<noteq> [] \<Longrightarrow> hd xs \<noteq> []" "ys \<noteq> [] \<Longrightarrow> last ys \<noteq> []"
    using assms(1,2) by (metis hd_in_set, metis last_in_set)
  show ?thesis
    unfolding ipv6_spread_def Let_def middle ends takeWhile_dropWhile_gap [OF rest(1)]
    using small rest nonempty assms(3) by (cases "xs = []"; cases "ys = []") auto
qed

lemma spread_plain:
  assumes "length hs = 8" and "[] \<notin> set hs"
  shows "ipv6_spread hs = Some hs"
proof -
  have "[] \<notin> set (butlast (tl hs))" using assms(2) by (metis in_set_butlastD list.sel(2) list.set_sel(2))
  then show ?thesis using assms(1) by (simp add: ipv6_spread_def Let_def)
qed

lemma block_split:
  assumes "zero_block hs (start, n)" and "length hs = 8"
  shows "hs = take start hs @ replicate n ''0'' @ drop (start + n) hs"
proof -
  have "take n (drop start hs) = replicate n ''0''"
    using assms by (intro nth_equalityI) (auto simp: zero_block_def)
  then show ?thesis by (metis append_take_drop_id drop_drop add.commute)
qed

lemma spread_compressed:
  assumes "length hs = 8" and "[] \<notin> set hs"
  shows "ipv6_spread (compress_hextets hs) = Some hs"
proof -
  obtain start n where b: "longest_zeros 0 (0, 0) (0, 0) hs = (start, n)" by fastforce
  then have block: "zero_block hs (start, n)" using zeros_of_block [OF assms(1)] by simp
  then have le: "start + n \<le> 8" using assms(1) by (simp add: zero_block_def)
  show ?thesis
  proof (cases "n \<le> 1")
    case True
    then show ?thesis using spread_plain [OF assms] by (simp add: compress_hextets_def b)
  next
    case False
    let ?xs = "take start hs" and ?ys = "drop (start + n) hs"
    have eq: "compress_hextets hs = (if ?xs = [] then [[]] else []) @ ?xs @ [[]] @ ?ys @ (if ?ys = [] then [[]] else [])"
      using False assms(1) le by (auto simp: compress_hextets_def b)
    have "ipv6_spread (compress_hextets hs) = Some (?xs @ replicate (8 - (length ?xs + length ?ys)) ''0'' @ ?ys)"
      unfolding eq by (rule spread_gap) (use assms le False in \<open>auto dest: in_set_takeD in_set_dropD\<close>)
    also have "8 - (length ?xs + length ?ys) = n" using assms(1) le by simp
    finally show ?thesis using block_split [OF block assms(1)] by simp
  qed
qed

lemma compressed_parts:
  assumes "length hs = 8"
  shows "set (compress_hextets hs) \<subseteq> insert [] (set hs)" "3 \<le> length (compress_hextets hs)"
proof -
  obtain start n where b: "longest_zeros 0 (0, 0) (0, 0) hs = (start, n)" by fastforce
  then have "start + n \<le> 8" using zeros_of_block [OF assms] assms by (simp add: zero_block_def)
  then show "set (compress_hextets hs) \<subseteq> insert [] (set hs)" "3 \<le> length (compress_hextets hs)"
    using assms by (auto simp: compress_hextets_def b dest: in_set_takeD in_set_dropD)
qed

lemma set_join: "set (join sep xs) \<subseteq> set sep \<union> \<Union> (set ` set xs)"
  by (induction sep xs rule: join.induct) auto

lemma ipv6_text_chars:
  "set (ipv6_text w) \<inter> {CHR ''.'', CHR ''/'', CHR ''%''} = {}"
  "\<forall>x \<in> set (compress_hextets (map hex_of (hextets_of w))). CHR '':'' \<notin> set x \<and> CHR ''.'' \<notin> set x"
proof -
  let ?hs = "map hex_of (hextets_of w)"
  have eight: "length ?hs = 8" by (simp add: hextets_of_def)
  have hex: "set x \<inter> {CHR ''.'', CHR '':'', CHR ''/'', CHR ''%''} = {}" if "x \<in> set ?hs" for x
    using that hex_of_facts by auto
  have parts: "set x \<inter> {CHR ''.'', CHR '':'', CHR ''/'', CHR ''%''} = {}" if "x \<in> set (compress_hextets ?hs)" for x
    using subsetD [OF compressed_parts(1) [OF eight] that] hex by auto
  then show "\<forall>x \<in> set (compress_hextets ?hs). CHR '':'' \<notin> set x \<and> CHR ''.'' \<notin> set x" by auto
  show "set (ipv6_text w) \<inter> {CHR ''.'', CHR ''/'', CHR ''%''} = {}"
    using set_join [of "'':''" "compress_hextets ?hs"] parts unfolding ipv6_text_def by fastforce
qed

lemma ip_text_no_scope: "CHR ''%'' \<notin> set (ip_text a)"
proof (cases a)
  case (V4 w)
  have "set (ipv4_text w) \<subseteq> set ''.'' \<union> \<Union> (set ` set (map digits_of (octets_of w)))"
    unfolding ipv4_text_def by (rule set_join)
  moreover have "CHR ''%'' \<notin> set (digits_of n)" for n
    using digits_of_facts [of n] by (auto simp: list_all_iff ascii_digit_def)
  ultimately show ?thesis using V4 by auto
next
  case (V6 w)
  then show ?thesis using ipv6_text_chars(1) [of w] by auto
qed

text \<open>What \<open>str\<close> writes for an address is read as that address.\<close>

lemma ip_round_trip: "read_ip (ip_text a) = Some a"
proof (cases a)
  case (V4 w)
  then show ?thesis by (simp add: read_ip_def ipv4_round_trip)
next
  case (V6 w)
  let ?hs = "map hex_of (hextets_of w)"
  have eight: "length ?hs = 8" by (simp add: hextets_of_def)
  have hex: "x \<noteq> [] \<and> set x \<inter> {CHR ''.'', CHR '':'', CHR ''/'', CHR ''%''} = {}" if "x \<in> set ?hs" for x
    using that hex_of_facts by auto
  note parts = ipv6_text_chars(2) [of w]
  have chars: "CHR ''.'' \<notin> set (ipv6_text w)" "CHR ''/'' \<notin> set (ipv6_text w)" "CHR ''%'' \<notin> set (ipv6_text w)"
    using ipv6_text_chars(1) [of w] by auto
  have split: "split_on CHR '':'' (ipv6_text w) = compress_hextets ?hs"
    unfolding ipv6_text_def using parts compressed_parts(2) [OF eight] by (intro split_on_join) auto
  have "last (compress_hextets ?hs) \<in> set (compress_hextets ?hs)"
    using compressed_parts(2) [OF eight] by (intro last_in_set) auto
  then have "ipv6_parts (ipv6_text w) = Some (compress_hextets ?hs)"
    using parts compressed_parts(2) [OF eight] by (auto simp: ipv6_parts_def split)
  then have spread: "Option.bind (ipv6_parts (ipv6_text w)) ipv6_spread = Some ?hs"
    using spread_compressed [OF eight] hex by auto
  have "\<forall>n \<in> set (hextets_of w). hextet (hex_of n) = Some n"
    using hextet_hex by (auto simp: hextets_of_def)
  moreover from this have "map (\<lambda>n. the (hextet (hex_of n))) (hextets_of w) = hextets_of w"
    by (intro map_idI) simp
  ultimately have "ipv6_of (ipv6_text w) = Some (word_of_nat (word_of_parts 65536 (hextets_of w)))"
    by (auto simp: ipv6_of_def spread comp_def)
  then have "ipv6_of (ipv6_text w) = Some w" by (simp add: word_of_hextets)
  moreover have "ipv4_of (ipv6_text w) = None" using chars(1) by (simp add: ipv4_of_def split_on_none)
  moreover have "before CHR ''%'' (ipv6_text w) = ipv6_text w"
    using chars(3) by (auto simp: before_def takeWhile_eq_all_conv)
  ultimately show ?thesis using V6 chars by (simp add: read_ip_def)
qed

section \<open>Networks as intervals\<close>

text \<open>A network whose first address is a multiple of its size holds the addresses from the first one on.\<close>

lemma in_network_interval:
  fixes x p :: "'a::len word"
  assumes "n \<le> LENGTH('a)" and "2 ^ (LENGTH('a) - n) dvd unat p"
  shows "in_network x (p, n) \<longleftrightarrow> unat p \<le> unat x \<and> unat x < unat p + 2 ^ (LENGTH('a) - n)"
proof -
  let ?k = "LENGTH('a) - n"
  have and_mask: "x AND NOT (mask ?k) = push_bit ?k (drop_bit ?k x)"
    by (simp add: bit_eq_iff bit_simps) auto
  have "unat x div 2 ^ ?k * 2 ^ ?k < 2 ^ LENGTH('a)"
    using unsigned_less [of x, where ?'a = nat] by (meson div_times_less_eq_dividend le_less_trans)
  then have "take_bit LENGTH('a) (push_bit ?k (drop_bit ?k (unat x))) = unat x div 2 ^ ?k * 2 ^ ?k"
    by (simp add: push_bit_eq_mult drop_bit_eq_div take_bit_nat_eq_self)
  then have masked: "unat (x AND NOT (mask ?k)) = unat x div 2 ^ ?k * 2 ^ ?k"
    by (simp only: and_mask unsigned_push_bit_eq unat_drop_bit_eq)
  obtain m where m: "unat p = m * 2 ^ ?k" using assms(2) by (auto simp: dvd_def mult.commute)
  have "in_network x (p, n) \<longleftrightarrow> unat x div 2 ^ ?k * 2 ^ ?k = m * 2 ^ ?k"
    by (simp add: in_network_def word_unat_eq_iff masked m)
  also have "\<dots> \<longleftrightarrow> unat x div 2 ^ ?k = m" by simp
  also have "\<dots> \<longleftrightarrow> m * 2 ^ ?k \<le> unat x \<and> unat x < m * 2 ^ ?k + 2 ^ ?k"
  proof
    assume "unat x div 2 ^ ?k = m"
    then show "m * 2 ^ ?k \<le> unat x \<and> unat x < m * 2 ^ ?k + 2 ^ ?k"
      using div_mult_mod_eq [of "unat x" "2 ^ ?k"] by (metis add_less_cancel_left div_times_less_eq_dividend mod_less_divisor zero_less_numeral zero_less_power)
  qed (auto intro!: div_nat_eqI simp: mult.commute)
  finally show ?thesis by (simp add: m)
qed

end
