(* ===== verification/Network_Safety.thy ===== *)
theory Network_Safety
  imports Ip_Addresses
begin

text \<open>
  Requests to the open network (\<open>network_safety.py\<close>): \<open>PublicUrlGuard\<close> admits a URL only if every address of
  its host is global, and \<open>PinnedAsyncNetworkBackend\<close> dials an address that this very check has seen. A resolver
  is the answer of the name service at the moment of the call. \<open>lower\<close> and \<open>casefold\<close> of Python are arguments.
  The HTTP library above the dial and the translation of its exceptions are not modelled.
\<close>

section \<open>Definitions\<close>

type_synonym resolver = "string \<Rightarrow> error + string list"

record case_maps =
  km_lower :: "string \<Rightarrow> string"
  km_casefold :: "string \<Rightarrow> string"

record connection_target =
  cx_url :: string
  cx_scheme :: string
  cx_hostname :: string
  cx_port :: nat
  cx_addresses :: "string list"

text \<open>The records of the operating system's lookup: the first field of each socket address, if it has one.\<close>

definition default_resolver :: "(string \<Rightarrow> (string option list) option) \<Rightarrow> resolver" where
  "default_resolver lookup hostname =
     (case lookup hostname of
        None \<Rightarrow> Inl (PublicUrlRejected ''Hostname could not be resolved.'')
      | Some records \<Rightarrow> Inr (fromkeys (map the (filter (\<lambda>r. r \<noteq> None) records))))"

definition strip_dots :: "string \<Rightarrow> string" where
  "strip_dots s = rev (dropWhile (\<lambda>c. c = CHR ''.'') (rev s))"

definition is_localhost :: "string \<Rightarrow> bool" where
  "is_localhost h \<longleftrightarrow> h = ''localhost'' \<or> (10 \<le> length h \<and> drop (length h - 10) h = ''.localhost'')"

definition parse_guarded :: "case_maps \<Rightarrow> string \<Rightarrow> error + url_parts \<times> string \<times> nat" where
  "parse_guarded k url =
     (case urlsplit url of
        None \<Rightarrow> Inl (PublicUrlRejected ''URL is invalid.'')
      | Some u \<Rightarrow>
          (case url_port u of
             None \<Rightarrow> Inl (PublicUrlRejected ''URL is invalid.'')
           | Some port \<Rightarrow>
               (case (ur_scheme u \<in> {''http'', ''https''}, url_hostname (km_lower k) u) of
                  (True, Some host) \<Rightarrow>
                    (let hostname = km_casefold k (strip_dots host) in
                     if url_username u \<noteq> [] \<or> url_password u \<noteq> []
                     then Inl (PublicUrlRejected ''URLs containing credentials are not allowed.'')
                     else if port \<noteq> None \<and> port \<notin> {Some 80, Some 443}
                     then Inl (PublicUrlRejected ''Only standard web ports 80 and 443 are allowed.'')
                     else if is_localhost hostname then Inl (PublicUrlRejected ''Localhost URLs are not allowed.'')
                     else Inr (u, hostname, case port of Some p \<Rightarrow> p | None \<Rightarrow> if ur_scheme u = ''https'' then 443 else 80))
                | _ \<Rightarrow> Inl (PublicUrlRejected ''Only public http/https URLs are supported.''))))"

fun public_texts :: "string list \<Rightarrow> error + string list" where
  "public_texts [] = Inr []"
| "public_texts (a # as) =
     (case read_ip (before CHR ''%'' a) of
        None \<Rightarrow> Inl (PublicUrlRejected ''Hostname resolved to an invalid address.'')
      | Some ip \<Rightarrow>
          if \<not> is_global ip
          then Inl (PublicUrlRejected ''Private, local, reserved, or non-routable URLs are not allowed.'')
          else map_sum id (Cons (ip_text ip)) (public_texts as))"

definition require_public :: "string list \<Rightarrow> error + string list" where
  "require_public as =
     (if as = [] then Inl (PublicUrlRejected ''Hostname did not resolve to a public address.'')
      else map_sum id fromkeys (public_texts as))"

definition addresses_of :: "resolver \<Rightarrow> string \<Rightarrow> error + string list" where
  "addresses_of resolve hostname = (if read_ip hostname \<noteq> None then Inr [hostname] else resolve hostname)"

definition resolve_for_connection :: "case_maps \<Rightarrow> resolver \<Rightarrow> string \<Rightarrow> error + connection_target" where
  "resolve_for_connection k resolve url =
     (case parse_guarded k url of
        Inl e \<Rightarrow> Inl e
      | Inr (u, hostname, port) \<Rightarrow>
          (case addresses_of resolve hostname of
             Inl e \<Rightarrow> Inl e
           | Inr as \<Rightarrow>
               map_sum id
                 (\<lambda>t. \<lparr>cx_url = url, cx_scheme = ur_scheme u, cx_hostname = hostname, cx_port = port, cx_addresses = t\<rparr>)
                 (require_public as)))"

text \<open>
  The cache of \<open>validate\<close>: when an answer expires, and the answer. Before the lock is held the cache is read at
  \<open>now\<close>, under it at \<open>now'\<close>; other callers may have filled it between (\<open>others\<close>).
\<close>

type_synonym host_cache = "string \<Rightarrow> (time \<times> string list) option"

definition cached_answer :: "time \<Rightarrow> string \<Rightarrow> host_cache \<Rightarrow> string list option" where
  "cached_answer now hostname cache =
     (case cache hostname of None \<Rightarrow> None | Some (expires, as) \<Rightarrow> if now < expires then Some as else None)"

definition resolve_cached ::
  "int \<Rightarrow> resolver \<Rightarrow> (host_cache \<Rightarrow> host_cache) \<Rightarrow> time \<Rightarrow> time \<Rightarrow> string \<Rightarrow> host_cache
    \<Rightarrow> (string list, host_cache) outcome" where
  "resolve_cached cache_seconds resolve others now now' hostname cache =
     (case cached_answer now hostname cache of
        Some as \<Rightarrow> (Inr as, cache)
      | None \<Rightarrow>
          (let cache1 = others cache in
           case cached_answer now' hostname cache1 of
             Some as \<Rightarrow> (Inr as, cache1)
           | None \<Rightarrow>
               (case resolve hostname of
                  Inl e \<Rightarrow> (Inl e, cache1)
                | Inr as \<Rightarrow> (Inr as, cache1(hostname \<mapsto> (now' + seconds (max 1 cache_seconds), as))))))"

definition validate_url ::
  "case_maps \<Rightarrow> int \<Rightarrow> resolver \<Rightarrow> (host_cache \<Rightarrow> host_cache) \<Rightarrow> time \<Rightarrow> time \<Rightarrow> string \<Rightarrow> host_cache
    \<Rightarrow> (string, host_cache) outcome" where
  "validate_url k cache_seconds resolve others now now' url cache =
     (case parse_guarded k url of
        Inl e \<Rightarrow> (Inl e, cache)
      | Inr (u, hostname, port) \<Rightarrow>
          (case (if read_ip hostname \<noteq> None then (Inr [hostname], cache)
                 else resolve_cached cache_seconds resolve others now now' hostname cache) of
             (Inl e, c) \<Rightarrow> (Inl e, c)
           | (Inr as, c) \<Rightarrow> (map_sum id (\<lambda>_. url) (require_public as), c)))"

definition connection_url :: "case_maps \<Rightarrow> string \<Rightarrow> int \<Rightarrow> error + string" where
  "connection_url k host port =
     (if host = [] \<or> port \<notin> {80, 443}
      then Inl (PublicUrlRejected ''Only standard web ports 80 and 443 are allowed.'')
      else
        (let h = km_casefold k (strip_dots host) in
         if h = [] \<or> set h \<inter> {CHR ''/'', CHR ''?'', CHR ''#'', CHR ''@''} \<noteq> {}
         then Inl (PublicUrlRejected ''Hostname is invalid.'')
         else Inr ((if port = 443 then ''https'' else ''http'') @ ''://''
                   @ (if CHR '':'' \<in> set h then ''['' @ h @ '']'' else h) @ '':'' @ str_of_int port @ ''/'')))"

text \<open>
  The text and the port that are handed to the socket layer. The name service may answer each lookup
  differently (\<open>answers n\<close> is what it says at lookup \<open>n\<close>); the backend makes one.
\<close>

definition connect_tcp :: "case_maps \<Rightarrow> (nat \<Rightarrow> resolver) \<Rightarrow> string \<Rightarrow> int \<Rightarrow> error + string \<times> int" where
  "connect_tcp k answers host port =
     (case connection_url k host port of
        Inl e \<Rightarrow> Inl e
      | Inr url \<Rightarrow> map_sum id (\<lambda>t. (hd (cx_addresses t), port)) (resolve_for_connection k (answers 0) url))"

section \<open>What is global\<close>

text \<open>
  The ranges that are kept out, by their octets: this host (0.0.0.0/8, 127.0.0.0/8, \<open>::\<close> and \<open>::1\<close>),
  private networks (10.0.0.0/8, 172.16.0.0/12, 192.168.0.0/16, \<open>fc00::/7\<close>), links (169.254.0.0/16,
  \<open>fe80::/10\<close>), the reserved 240.0.0.0/4, all of these of version 4 also in the mapped form
  \<open>::ffff:a.b.c.d\<close>, and, not in that form, the network that carriers share (100.64.0.0/10). Multicast,
  the deprecated site-local \<open>fec0::/10\<close> and the deprecated embedding \<open>::a.b.c.d\<close> are not among them.
\<close>

definition local_v4 :: "32 word \<Rightarrow> bool" where
  "local_v4 w \<longleftrightarrow>
     (let a = unat w div 256 ^ 3; b = unat w div 256 ^ 2 mod 256 in
      a = 0 \<or> a = 10 \<or> a = 127 \<or> (a = 169 \<and> b = 254) \<or> (a = 172 \<and> 16 \<le> b \<and> b < 32) \<or> (a = 192 \<and> b = 168)
      \<or> 240 \<le> a)"

definition internal_v4 :: "32 word \<Rightarrow> bool" where
  "internal_v4 w \<longleftrightarrow>
     local_v4 w \<or> (let a = unat w div 256 ^ 3; b = unat w div 256 ^ 2 mod 256 in a = 100 \<and> 64 \<le> b \<and> b < 128)"

definition internal_v6 :: "128 word \<Rightarrow> bool" where
  "internal_v6 w \<longleftrightarrow>
     (let a = unat w div 65536 ^ 7 in
      unat w = 0 \<or> unat w = 1 \<or> (0xFC00 \<le> a \<and> a < 0xFE00) \<or> (0xFE80 \<le> a \<and> a < 0xFEC0))
     \<or> (drop_bit 32 w = 0xFFFF \<and> local_v4 (ucast w))"

lemma v4_interval:
  fixes w p :: "32 word"
  assumes "n \<le> 32" and "2 ^ (32 - n) dvd unat p"
  shows "in_network w (p, n) \<longleftrightarrow> unat p \<le> unat w \<and> unat w < unat p + 2 ^ (32 - n)"
  using in_network_interval [of n p w] assms by simp

lemma local_v4_private:
  assumes "\<not> private_v4 w"
  shows "\<not> local_v4 w"
proof
  assume internal: "local_v4 w"
  let ?n = "unat w"
  have small: "?n < 4294967296" using unsigned_less [of w, where ?'a = nat] by simp
  have nets: "in_network w net \<Longrightarrow> net \<in> set private_v4_networks \<Longrightarrow>
      in_network w (0xC0000009, 32) \<or> in_network w (0xC000000A, 32)" for net
    using assms by (auto simp: private_v4_def private_v4_exceptions_def list_ex_iff)
  define q r a b where "q = ?n div 65536" and "r = ?n mod 65536" and "a = q div 256" and "b = q mod 256"
  have n: "?n = 65536 * q + r" and r: "r < 65536" and q: "q = 256 * a + b" and b: "b < 256"
    by (simp_all add: q_def r_def a_def b_def)
  have octets: "?n div 256 ^ 3 = a" "?n div 256 ^ 2 mod 256 = b"
    by (simp_all add: a_def b_def q_def div_mult2_eq [symmetric])
  have "?n \<noteq> 3221225481" "?n \<noteq> 3221225482"
    using internal unfolding local_v4_def Let_def by auto
  then have except: "\<not> in_network w (0xC0000009, 32)" "\<not> in_network w (0xC000000A, 32)"
    by (simp_all add: v4_interval)
  have outside: "\<not> (unat p \<le> ?n \<and> ?n < unat p + 2 ^ (32 - k))"
    if "(p, k) \<in> set private_v4_networks" "k \<le> 32" "2 ^ (32 - k) dvd unat p" for p k
    using nets [OF _ that(1)] except v4_interval [OF that(2,3), of w] by blast
  have "\<not> ?n < 16777216" "\<not> (167772160 \<le> ?n \<and> ?n < 184549376)"
    "\<not> (2130706432 \<le> ?n \<and> ?n < 2147483648)" "\<not> (2851995648 \<le> ?n \<and> ?n < 2852061184)"
    "\<not> (2886729728 \<le> ?n \<and> ?n < 2887778304)" "\<not> (3232235520 \<le> ?n \<and> ?n < 3232301056)" "\<not> 4026531840 \<le> ?n"
    using small outside [where p = 0 and k = 8] outside [where p = "0x0A000000" and k = 8] outside [where p = "0x7F000000" and k = 8] outside [where p = "0xA9FE0000" and k = 16]
      outside [where p = "0xAC100000" and k = 12] outside [where p = "0xC0A80000" and k = 16] outside [where p = "0xF0000000" and k = 4]
    by (simp_all add: v4_interval private_v4_networks_def)
  with internal n r q b show False
    unfolding local_v4_def Let_def octets by linarith
qed

lemma internal_v4_not_global:
  assumes "is_global (V4 w)"
  shows "\<not> internal_v4 w"
proof -
  let ?n = "unat w"
  have "\<not> (1681915904 \<le> ?n \<and> ?n < 1686110208)"
    using assms by (simp add: shared_v4_network_def v4_interval)
  moreover define q r a b where "q = ?n div 65536" and "r = ?n mod 65536" and "a = q div 256" and "b = q mod 256"
  moreover have "?n = 65536 * q + r" and "r < 65536" and "q = 256 * a + b" and "b < 256"
    by (simp_all add: q_def r_def a_def b_def)
  ultimately have "\<not> (a = 100 \<and> 64 \<le> b \<and> b < 128)" by linarith
  moreover have octets: "?n div 256 ^ 3 = a" "?n div 256 ^ 2 mod 256 = b"
    by (simp_all add: a_def b_def q_def div_mult2_eq [symmetric])
  moreover have "\<not> local_v4 w" using local_v4_private assms by simp
  ultimately show ?thesis unfolding internal_v4_def Let_def octets by blast
qed

lemma v6_interval:
  fixes w p :: "128 word"
  assumes "n \<le> 128" and "2 ^ (128 - n) dvd unat p"
  shows "in_network w (p, n) \<longleftrightarrow> unat p \<le> unat w \<and> unat w < unat p + 2 ^ (128 - n)"
  using in_network_interval [of n p w] assms by simp

lemma internal_v6_not_global:
  assumes "is_global (V6 w)"
  shows "\<not> internal_v6 w"
proof
  assume "internal_v6 w"
  moreover have "\<not> (drop_bit 32 w = 0xFFFF \<and> local_v4 (ucast w))"
    using assms local_v4_private by (auto simp: private_v6_def)
  ultimately have internal: "let a = unat w div 65536 ^ 7 in
      unat w = 0 \<or> unat w = 1 \<or> (0xFC00 \<le> a \<and> a < 0xFE00) \<or> (0xFE80 \<le> a \<and> a < 0xFEC0)"
    unfolding internal_v6_def by blast
  define a where "a = unat w div 65536 ^ 7"
  have "unat w = a * 65536 ^ 7 + unat w mod 65536 ^ 7"
    unfolding a_def by (rule div_mult_mod_eq [symmetric])
  moreover have "unat w mod 65536 ^ 7 < 65536 ^ 7" by (rule mod_less_divisor) simp
  ultimately have w: "65536 ^ 7 * a \<le> unat w \<and> unat w < 65536 ^ 7 * a + 65536 ^ 7"
    unfolding mult.commute [of _ a] by linarith
  have cases: "unat w = 0 \<or> unat w = 1 \<or> (0xFC00 \<le> a \<and> a < 0xFE00) \<or> (0xFE80 \<le> a \<and> a < 0xFEC0)"
    using internal by (simp add: Let_def a_def)
  have plain: "drop_bit 32 w \<noteq> 0xFFFF"
  proof
    assume "drop_bit 32 w = 0xFFFF"
    then have "unat (drop_bit 32 w) = 65535" by (simp only:) simp
    then have "drop_bit 32 (unat w) = 65535" by (simp only: unat_drop_bit_eq)
    then have "unat w div 2 ^ 32 = 65535" by (simp only: drop_bit_eq_div)
    with cases w show False by auto
  qed
  have "\<not> private_v6 w" using assms by simp
  then have nets: "in_network w net \<Longrightarrow> net \<in> set private_v6_networks \<Longrightarrow>
      \<exists>e \<in> set private_v6_exceptions. in_network w e" for net
    using plain by (auto simp: private_v6_def list_ex_iff)
  have except: "\<not> in_network w e" if "e \<in> set private_v6_exceptions" for e
    using that cases w by (auto simp: private_v6_exceptions_def v6_interval)
  have outside: "\<not> (unat p \<le> unat w \<and> unat w < unat p + 2 ^ (128 - k))"
    if "(p, k) \<in> set private_v6_networks" "k \<le> 128" "2 ^ (128 - k) dvd unat p" for p k
    using nets [OF _ that(1)] except v6_interval [OF that(2,3), of w] by blast
  have "unat w \<noteq> 0" "unat w \<noteq> 1"
    using outside [where p = 0 and k = 128] outside [where p = 1 and k = 128] by (auto simp: private_v6_networks_def)
  moreover have "\<not> (65536 ^ 7 * 0xFC00 \<le> unat w \<and> unat w < 65536 ^ 7 * 0xFE00)"
    "\<not> (65536 ^ 7 * 0xFE80 \<le> unat w \<and> unat w < 65536 ^ 7 * 0xFEC0)"
    using outside [where p = "0xFC000000000000000000000000000000" and k = 7]
      outside [where p = "0xFE800000000000000000000000000000" and k = 10] by (auto simp: private_v6_networks_def)
  ultimately show False using cases w by auto
qed

section \<open>The dial\<close>

fun internal :: "ip_address \<Rightarrow> bool" where
  "internal (V4 w) \<longleftrightarrow> internal_v4 w"
| "internal (V6 w) \<longleftrightarrow> internal_v6 w"

lemma internal_not_global: "is_global a \<Longrightarrow> \<not> internal a"
  by (cases a) (simp_all only: internal.simps internal_v4_not_global internal_v6_not_global not_False_eq_True)

lemma map_sum_Inr: "map_sum id f x = Inr y \<longleftrightarrow> (\<exists>z. x = Inr z \<and> y = f z)"
  by (cases x) auto

lemma public_textsD:
  assumes "public_texts as = Inr ts"
  shows "(\<forall>a \<in> set as. \<exists>ip. read_ip (before CHR ''%'' a) = Some ip \<and> is_global ip)
    \<and> (\<forall>t \<in> set ts. \<exists>ip. t = ip_text ip \<and> is_global ip \<and> (\<exists>a \<in> set as. read_ip (before CHR ''%'' a) = Some ip))
    \<and> length ts = length as"
  using assms
proof (induction as arbitrary: ts)
  case (Cons a as)
  then obtain ip us where ip: "read_ip (before CHR ''%'' a) = Some ip" "is_global ip"
    and us: "public_texts as = Inr us" "ts = ip_text ip # us"
    by (auto split: option.splits if_splits simp: map_sum_Inr)
  note IH = Cons.IH [OF us(1)]
  have "\<exists>i. t = ip_text i \<and> is_global i \<and> (\<exists>x \<in> set (a # as). read_ip (before CHR ''%'' x) = Some i)"
    if "t \<in> set ts" for t
    using that ip IH unfolding us(2) by (metis list.set_intros(1,2) set_ConsD)
  with IH ip show ?case unfolding us(2) by auto
qed simp

lemma require_publicD:
  assumes "require_public as = Inr ts"
  shows "(\<forall>a \<in> set as. \<exists>ip. read_ip (before CHR ''%'' a) = Some ip \<and> is_global ip) \<and> ts \<noteq> []
    \<and> (\<forall>t \<in> set ts. \<exists>ip. t = ip_text ip \<and> is_global ip \<and> (\<exists>a \<in> set as. read_ip (before CHR ''%'' a) = Some ip))"
proof -
  obtain us where "public_texts as = Inr us" "ts = fromkeys us" "as \<noteq> []"
    using assms by (cases "public_texts as") (auto simp: require_public_def split: if_splits)
  with public_textsD [of as us] show ?thesis by auto
qed

lemma hd_fromkeys: "xs \<noteq> [] \<Longrightarrow> hd (fromkeys xs) = hd xs"
  by (cases xs) simp_all

lemma require_public_hd:
  assumes "require_public as = Inr ts"
  obtains a bs ip where "as = a # bs" "read_ip (before CHR ''%'' a) = Some ip" "is_global ip" "hd ts = ip_text ip"
proof -
  obtain us where us: "public_texts as = Inr us" "ts = fromkeys us" "as \<noteq> []"
    using assms by (cases "public_texts as") (auto simp: require_public_def split: if_splits)
  then obtain a bs where as: "as = a # bs" by (cases as) simp_all
  with us(1) obtain ip vs where "read_ip (before CHR ''%'' a) = Some ip" "is_global ip" "us = ip_text ip # vs"
    by (auto split: option.splits if_splits simp: map_sum_Inr)
  with as us(2) show thesis by (intro that [of a bs ip]) (simp_all add: hd_fromkeys)
qed

text \<open>C37. Every connection goes to a global address that this very check has seen. Whatever host and
  port are asked for, and whatever the name service answers at each lookup: if a socket is opened, its port
  is the one asked for, 80 or 443; the hostname that the guard reads from the URL of that host and port was
  looked up once; all addresses of that one answer are global; and the text that is dialled is a literal
  address, the first of that answer. It is therefore in none of these ranges: 0/8, 127/8, \<open>::\<close>, \<open>::1\<close> (this
  host), 10/8, 172.16/12, 192.168/16, \<open>fc00::/7\<close> (private networks), 169.254/16, \<open>fe80::/10\<close> (links),
  100.64/10 (carriers), 240/4, and except for the carriers' not in the mapped form of one of version 4.
  What else \<open>is_global\<close> of Python admits is let through, such as multicast
  (\<open>reserved_addresses_admitted\<close>).\<close>

theorem pinned_dial_is_public:
  assumes "connect_tcp k answers host port = Inr (dialled, p)"
  shows "p = port \<and> port \<in> {80, 443}
    \<and> (\<exists>url u hostname q a as ip. connection_url k host port = Inr url
         \<and> parse_guarded k url = Inr (u, hostname, q)
         \<and> addresses_of (answers 0) hostname = Inr (a # as)
         \<and> (\<forall>x \<in> set (a # as). \<exists>i. read_ip (before CHR ''%'' x) = Some i \<and> is_global i)
         \<and> read_ip (before CHR ''%'' a) = Some ip \<and> read_ip dialled = Some ip
         \<and> is_global ip \<and> \<not> internal ip)"
proof -
  obtain url t where url: "connection_url k host port = Inr url"
    and t: "resolve_for_connection k (answers 0) url = Inr t" and dial: "dialled = hd (cx_addresses t)" "p = port"
    using assms by (auto simp: connect_tcp_def map_sum_Inr split: sum.splits)
  have port: "port \<in> {80, 443}" using url by (auto simp: connection_url_def split: if_splits)
  obtain u hostname q as where parsed: "parse_guarded k url = Inr (u, hostname, q)"
    and as: "addresses_of (answers 0) hostname = Inr as" and pub: "require_public as = Inr (cx_addresses t)"
    using t by (auto simp: resolve_for_connection_def map_sum_Inr split: sum.splits)
  obtain x xs ip where first: "as = x # xs" "read_ip (before CHR ''%'' x) = Some ip" "is_global ip"
      "hd (cx_addresses t) = ip_text ip"
    using pub by (rule require_public_hd)
  have "read_ip dialled = Some ip" using first(4) dial(1) ip_round_trip by simp
  moreover have "\<not> internal ip" using internal_not_global first(3) .
  ultimately show ?thesis
    using dial(2) port url parsed as first require_publicD [OF pub] by blast
qed

definition ascii_maps :: case_maps where
  "ascii_maps = \<lparr>km_lower = ascii_lower, km_casefold = ascii_lower\<rparr>"

definition example_names :: resolver where
  "example_names host = (if host = ''example.org'' then Inr [''93.184.215.14'', ''93.184.215.15''] else Inr [''10.0.0.7''])"

lemma example_dial: "connect_tcp ascii_maps (\<lambda>n. if n = 0 then example_names else (\<lambda>_. Inr [''127.0.0.1''])) ''Example.org.'' 443 = Inr (''93.184.215.14'', 443)"
  by code_simp

theorem pinned_dial_is_public_witness:
  "\<exists>ip. read_ip ''93.184.215.14'' = Some ip \<and> is_global ip \<and> \<not> internal ip"
  using pinned_dial_is_public [OF example_dial] by blast

text \<open>A name with a private address among public ones is refused.\<close>

lemma mixed_answer_refused:
  "connect_tcp ascii_maps (\<lambda>_ _. Inr [''93.184.215.14'', ''127.0.0.1'']) ''example.org'' 443
    = Inl (PublicUrlRejected ''Private, local, reserved, or non-routable URLs are not allowed.'')"
  by code_simp

text \<open>Addresses that \<open>is_global\<close> of Python admits: multicast of both versions, a site-local address, loopback
  in the deprecated embedding of version 4, and the shared network of carriers in the mapped form.\<close>

lemma reserved_addresses_admitted:
  "read_ip ''224.0.0.1'' = Some (V4 0xE0000001)" "is_global (V4 0xE0000001)"
  "read_ip ''ff02::1'' = Some (V6 0xFF020000000000000000000000000001)" "is_global (V6 0xFF020000000000000000000000000001)"
  "read_ip ''fec0::1'' = Some (V6 0xFEC00000000000000000000000000001)" "is_global (V6 0xFEC00000000000000000000000000001)"
  "read_ip ''::127.0.0.1'' = Some (V6 0x7F000001)" "is_global (V6 0x7F000001)"
  "read_ip ''::ffff:100.64.0.1'' = Some (V6 0xFFFF64400001)" "is_global (V6 0xFFFF64400001)"
proof -
  show "read_ip ''224.0.0.1'' = Some (V4 0xE0000001)" "is_global (V4 0xE0000001)" by code_simp+
  show "read_ip ''::127.0.0.1'' = Some (V6 0x7F000001)" "read_ip ''::ffff:100.64.0.1'' = Some (V6 0xFFFF64400001)"
    "read_ip ''ff02::1'' = Some (V6 0xFF020000000000000000000000000001)"
    "read_ip ''fec0::1'' = Some (V6 0xFEC00000000000000000000000000001)"
    by code_simp+
  show "is_global (V6 0xFF020000000000000000000000000001)" "is_global (V6 0xFEC00000000000000000000000000001)"
    "is_global (V6 0x7F000001)"
    by (simp_all add: private_v6_def v6_interval private_v6_networks_def drop_bit_eq_div word_div_def)
  have "\<not> private_v4 0x64400001" by code_simp
  moreover have "(0xFFFF64400001 :: 32 word) = 0x64400001" by simp
  ultimately have "\<not> private_v4 0xFFFF64400001" by (simp only: not_False_eq_True)
  then show "is_global (V6 0xFFFF64400001)" by (simp add: private_v6_def drop_bit_eq_div word_div_def)
qed

end
