(* ===== verification/Pinned_Fetch.thy ===== *)
theory Pinned_Fetch
  imports Network_Safety
begin

text \<open>
  The HTTPS client of the knowledge worker: the locators and the decisions of
  \<open>knowledge_fabric_external_policy.py\<close>, and \<open>knowledge_fabric_pinned_fetcher.py\<close> with its reader of HTTP/1.1
  responses. A byte is a character below 256, so that decoding ISO 8859-1 is the identity. The peer of a
  connection is an argument: no peer, a failed TLS handshake, or the bytes that it answers a request with.
  Digests, timeouts as such and the TLS context are not modelled.
\<close>

section \<open>Decisions on locators and responses\<close>

text \<open>A rejected locator or validator raises with a message (\<open>WebsiteSourceRejected\<close>).\<close>

definition source_uses_current_entries :: "string \<Rightarrow> bool" where
  "source_uses_current_entries t \<longleftrightarrow> t \<in> {''atom_public_https'', ''website_collection_public_https''}"

definition urlunsplit_https :: "string \<Rightarrow> string \<Rightarrow> string" where
  "urlunsplit_https host path = ''https://'' @ host @ (if path \<noteq> [] \<and> hd path \<noteq> CHR ''/'' then CHR ''/'' # path else path)"

definition canonical_locator :: "case_maps \<Rightarrow> string \<Rightarrow> string + string" where
  "canonical_locator k locator =
     (case urlsplit locator of
        None \<Rightarrow> Inl ''Website locator is invalid.''
      | Some u \<Rightarrow>
          (case url_port u of
             None \<Rightarrow> Inl ''Website locator is invalid.''
           | Some port \<Rightarrow>
               (case (ur_scheme u = ''https'', url_hostname (km_lower k) u) of
                  (True, Some host) \<Rightarrow>
                    (let hostname = km_casefold k (strip_dots host) in
                     if url_username u \<noteq> [] \<or> url_password u \<noteq> [] \<or> ur_query u \<noteq> [] \<or> ur_fragment u \<noteq> []
                     then Inl ''Website locator contains unsupported authority or state.''
                     else if port \<notin> {None, Some 443} then Inl ''Website locator uses an unsupported port.''
                     else if hostname = [] then Inl ''Website locator is invalid.''
                     else Inr (urlunsplit_https hostname (if ur_path u = [] then ''/'' else ur_path u)))
                | _ \<Rightarrow> Inl ''Website locator must use HTTPS.'')))"

definition conditional_headers :: "string option \<Rightarrow> string option \<Rightarrow> (string \<times> string) list" where
  "conditional_headers etag last_modified =
     [(''Accept'', ''text/html,text/markdown,text/plain;q=0.9'')]
     @ (case etag of Some v \<Rightarrow> if v = [] then [] else [(''If-None-Match'', v)] | None \<Rightarrow> [])
     @ (case last_modified of Some v \<Rightarrow> if v = [] then [] else [(''If-Modified-Since'', v)] | None \<Rightarrow> [])"

definition code_below :: "nat \<Rightarrow> char \<Rightarrow> bool" where
  "code_below n c \<longleftrightarrow> (of_char c :: nat) < n"

definition normalized_validator :: "string option \<Rightarrow> string + string option" where
  "normalized_validator v =
     (case v of
        None \<Rightarrow> Inr None
      | Some s \<Rightarrow>
          (let cleaned = strip s in
           if cleaned = [] \<or> 512 < length cleaned \<or> list_ex (code_below 32) cleaned
           then Inl ''Website response validator is invalid.'' else Inr (Some cleaned)))"

definition max_response_bytes :: nat where
  "max_response_bytes = 1048576"

definition response_error_code :: "case_maps \<Rightarrow> int \<Rightarrow> string \<Rightarrow> nat \<Rightarrow> string option" where
  "response_error_code k status content_type size_bytes =
     (if status = 304 then Some ''not_modified''
      else if status \<in> {401, 403} then Some ''authorization_failed''
      else if 300 \<le> status \<and> status < 400 then Some ''redirect_refused''
      else if status \<noteq> 200 then Some ''http_failed''
      else if size_bytes = 0 \<or> max_response_bytes < size_bytes then Some ''content_size_rejected''
      else if strip (before CHR '';'' (km_casefold k content_type)) \<notin> {''text/html'', ''text/markdown'', ''text/plain''}
      then Some ''content_type_rejected''
      else None)"

section \<open>The request\<close>

datatype fetch_code =
    SourceRejected | DnsFailed | DnsRejected | ConnectFailed | TlsFailed | ProtocolRejected | ResponseTooLarge

type_synonym http_headers = "(string \<times> string) list"

record fetch_response =
  fz_status :: int
  fz_content :: string
  fz_headers :: http_headers

record dial_request =
  dq_address :: string
  dq_hostname :: string
  dq_target :: string
  dq_headers :: http_headers
  dq_max_bytes :: nat

fun safe_headers :: "case_maps \<Rightarrow> http_headers \<Rightarrow> http_headers \<Rightarrow> fetch_code + http_headers" where
  "safe_headers k [] safe = Inr safe"
| "safe_headers k ((name, v) # hs) safe =
     (let n = km_casefold k name in
      if n \<notin> {''accept'', ''if-none-match'', ''if-modified-since''} \<or> v = [] \<or> n \<in> fst ` set safe then Inl SourceRejected
      else if list_ex (\<lambda>c. code_below 32 c \<or> c = CHR 0x7F) v then Inl SourceRejected
      else safe_headers k hs (safe @ [(n, v)]))"

text \<open>A candidate keeps its scope identifier.\<close>

fun public_candidates :: "string list \<Rightarrow> fetch_code + string list" where
  "public_candidates [] = Inr []"
| "public_candidates (a # as) =
     (case read_ip a of
        None \<Rightarrow> Inl DnsRejected
      | Some ip \<Rightarrow>
          if \<not> is_global ip then Inl DnsRejected
          else map_sum id (Cons (ip_text ip @ (if CHR ''%'' \<in> set a then CHR ''%'' # beyond CHR ''%'' a else [])))
                 (public_candidates as))"

definition candidates_of :: "(string \<Rightarrow> string list option) \<Rightarrow> string \<Rightarrow> fetch_code + string list" where
  "candidates_of resolve hostname =
     (case read_ip hostname of
        Some ip \<Rightarrow> Inr [ip_text ip @ (if CHR ''%'' \<in> set hostname then CHR ''%'' # beyond CHR ''%'' hostname else [])]
      | None \<Rightarrow> (case resolve hostname of None \<Rightarrow> Inl DnsFailed | Some as \<Rightarrow> Inr as))"

definition resolve_public_addresses :: "(string \<Rightarrow> string list option) \<Rightarrow> string \<Rightarrow> fetch_code + string list" where
  "resolve_public_addresses resolve hostname =
     (case candidates_of resolve hostname of
        Inl e \<Rightarrow> Inl e
      | Inr as \<Rightarrow> if as = [] then Inl DnsRejected else map_sum id fromkeys (public_candidates as))"

text \<open>\<open>urllib.parse.quote\<close>: every byte of the UTF-8 form that is not safe is written in hexadecimal.\<close>

definition utf8 :: "char \<Rightarrow> nat list" where
  "utf8 c = (let n = of_char c in if n < 128 then [n] else [192 + n div 64, 128 + n mod 64])"

definition upper_hex_digit :: "nat \<Rightarrow> char" where
  "upper_hex_digit n = char_of (if n < 10 then 48 + n else 55 + n)"

definition target_safe :: "char \<Rightarrow> bool" where
  "target_safe c \<longleftrightarrow> ascii_alpha c \<or> ascii_digit c \<or> c \<in> set ''/%:@!$&'()*+,;=-._~''"

definition quote_target :: "string \<Rightarrow> string" where
  "quote_target s =
     concat (map (\<lambda>c. if target_safe c then [c]
        else concat (map (\<lambda>b. [CHR ''%'', upper_hex_digit (b div 16), upper_hex_digit (b mod 16)]) (utf8 c))) s)"

definition request_target :: "string \<Rightarrow> string" where
  "request_target path = quote_target (if path = [] then ''/'' else path)"

definition crlf :: string where
  "crlf = [CHR 0x0D, CHR 0x0A]"

definition request_lines :: "dial_request \<Rightarrow> string list" where
  "request_lines q =
     [''GET '' @ dq_target q @ '' HTTP/1.1'', ''Host: '' @ dq_hostname q, ''Connection: close'']
     @ map (\<lambda>(n, v). n @ '': '' @ v) (dq_headers q)"

text \<open>The bytes that are sent, if they are ASCII.\<close>

definition request_bytes :: "dial_request \<Rightarrow> string option" where
  "request_bytes q =
     (let s = join crlf (request_lines q) @ crlf @ crlf in if list_all (code_below 128) s then Some s else None)"

text \<open>What the fetcher asks the transport for.\<close>

definition dial_request_of ::
  "case_maps \<Rightarrow> (string \<Rightarrow> string list option) \<Rightarrow> string \<Rightarrow> http_headers \<Rightarrow> fetch_code + dial_request" where
  "dial_request_of k resolve url headers =
     (case canonical_locator k url of
        Inl _ \<Rightarrow> Inl SourceRejected
      | Inr canonical \<Rightarrow>
          if canonical \<noteq> url then Inl SourceRejected
          else
            (case safe_headers k headers [] of
               Inl e \<Rightarrow> Inl e
             | Inr hs \<Rightarrow>
                 (case urlsplit canonical of
                    None \<Rightarrow> Inl SourceRejected
                  | Some u \<Rightarrow>
                      (case url_hostname (km_lower k) u of
                         None \<Rightarrow> Inl SourceRejected
                       | Some hostname \<Rightarrow>
                           map_sum id
                             (\<lambda>as. \<lparr>dq_address = hd as, dq_hostname = hostname, dq_target = request_target (ur_path u),
                                    dq_headers = hs, dq_max_bytes = max_response_bytes\<rparr>)
                             (resolve_public_addresses resolve hostname)))))"

text \<open>A transport returns a response, a bounded error, or fails in another way (\<open>None\<close>).\<close>

definition pinned_fetch ::
  "case_maps \<Rightarrow> (string \<Rightarrow> string list option) \<Rightarrow> (dial_request \<Rightarrow> fetch_code option + fetch_response) \<Rightarrow> string \<Rightarrow> http_headers
    \<Rightarrow> fetch_code + fetch_response" where
  "pinned_fetch k resolve transport url headers =
     (case dial_request_of k resolve url headers of
        Inl e \<Rightarrow> Inl e
      | Inr q \<Rightarrow>
          (case transport q of
             Inl (Some e) \<Rightarrow> Inl e
           | Inl None \<Rightarrow> Inl ConnectFailed
           | Inr r \<Rightarrow> if max_response_bytes < length (fz_content r) then Inl ResponseTooLarge else Inr r))"

section \<open>The response\<close>

text \<open>A line of the stream, whose reader holds at most 64 KiB, and what follows it.\<close>

definition read_line :: "string \<Rightarrow> (string \<times> string) option" where
  "read_line s =
     (let line = before CHR 0x0A s in
      if CHR 0x0A \<notin> set s \<or> 65536 < length line \<or> line = [] \<or> last line \<noteq> CHR 0x0D then None
      else Some (butlast line, beyond CHR 0x0A s))"

text \<open>\<open>int(text, base)\<close> for base 10 and 16.\<close>

definition int_space :: "char \<Rightarrow> bool" where
  "int_space c \<longleftrightarrow> (of_char c :: nat) \<in> set [9, 10, 11, 12, 13, 32, 133, 160]"

definition digit_of_base :: "nat \<Rightarrow> char \<Rightarrow> bool" where
  "digit_of_base base c \<longleftrightarrow> (case hex_value c of None \<Rightarrow> False | Some n \<Rightarrow> n < base)"

definition unsigned_int :: "nat \<Rightarrow> string \<Rightarrow> nat option" where
  "unsigned_int base s =
     (let s' = (if base = 16 \<and> take 2 s \<in> {''0x'', ''0X''}
                then (if take 1 (drop 2 s) = ''_'' then drop 3 s else drop 2 s) else s);
          parts = split_on CHR ''_'' s' in
      if list_all (\<lambda>p. p \<noteq> [] \<and> list_all (digit_of_base base) p) parts \<and> (base = 10 \<longrightarrow> length (concat parts) \<le> 4300)
      then Some (number_in base (concat parts)) else None)"

definition py_int :: "nat \<Rightarrow> string \<Rightarrow> int option" where
  "py_int base s =
     (let t = strip_by int_space s in
      if take 1 t = ''-'' then map_option (\<lambda>n. - int n) (unsigned_int base (drop 1 t))
      else map_option int (unsigned_int base (if take 1 t = ''+'' then drop 1 t else t)))"

definition status_of :: "string \<Rightarrow> int option" where
  "status_of line =
     (let rest = beyond CHR '' '' line in
      if CHR '' '' \<in> set line \<and> CHR '' '' \<in> set rest then py_int 10 (before CHR '' '' rest) else None)"

fun read_headers :: "case_maps \<Rightarrow> nat \<Rightarrow> nat \<Rightarrow> http_headers \<Rightarrow> string \<Rightarrow> fetch_code + http_headers \<times> string" where
  "read_headers k 0 used hs s = Inl ProtocolRejected"
| "read_headers k (Suc n) used hs s =
     (case read_line s of
        None \<Rightarrow> Inl ProtocolRejected
      | Some (line, rest) \<Rightarrow>
          (let used' = used + length line + 2;
               name = km_casefold k (strip (before CHR '':'' line)); v = strip (beyond CHR '':'' line) in
           if 32768 < used' then Inl ProtocolRejected
           else if line = [] then Inr (hs, rest)
           else if CHR '':'' \<notin> set line \<or> name = [] \<or> name \<in> fst ` set hs then Inl ProtocolRejected
           else read_headers k n used' (hs @ [(name, v)]) rest))"

lemma length_beyond: "s \<noteq> [] \<Longrightarrow> length (beyond c s) < length s"
  using length_dropWhile_le [of "\<lambda>x. x \<noteq> c" s] by (cases s) (auto simp: beyond_def)

lemma read_line_shorter:
  assumes "read_line s = Some (line, rest)"
  shows "length rest < length s"
proof -
  have "s \<noteq> []" "rest = beyond CHR 0x0A s" using assms by (auto simp: read_line_def Let_def split: if_splits)
  then show ?thesis by (simp add: length_beyond)
qed

function read_trailers :: "string \<Rightarrow> bool" where
  "read_trailers s =
     (case read_line s of
        None \<Rightarrow> False
      | Some (line, rest) \<Rightarrow> if line = [] then True else if CHR '':'' \<notin> set line then False else read_trailers rest)"
  by pat_completeness auto
termination
proof (relation "measure length")
  fix s x line rest
  assume "read_line s = Some x" "(line, rest) = x"
  then show "(rest, s) \<in> measure length" by (auto dest: read_line_shorter)
qed simp

declare read_trailers.simps [simp del]

text \<open>\<open>readexactly\<close>.\<close>

definition read_exactly :: "nat \<Rightarrow> string \<Rightarrow> (string \<times> string) option" where
  "read_exactly n s = (if length s < n then None else Some (take n s, drop n s))"

function read_chunks :: "nat \<Rightarrow> string \<Rightarrow> string \<Rightarrow> fetch_code + string" where
  "read_chunks limit content s =
     (case read_line s of
        None \<Rightarrow> Inl ProtocolRejected
      | Some (line, rest) \<Rightarrow>
          (case py_int 16 (before CHR '';'' line) of
             None \<Rightarrow> Inl ProtocolRejected
           | Some n \<Rightarrow>
               if n < 0 \<or> int limit < int (length content) + n then Inl ResponseTooLarge
               else if n = 0 then (if read_trailers rest then Inr content else Inl ProtocolRejected)
               else
                 (case read_exactly (nat n) rest of
                    None \<Rightarrow> Inl ProtocolRejected
                  | Some (chunk, rest1) \<Rightarrow>
                      (case read_exactly 2 rest1 of
                         None \<Rightarrow> Inl ProtocolRejected
                       | Some (terminator, rest2) \<Rightarrow>
                           if terminator \<noteq> crlf then Inl ProtocolRejected
                           else read_chunks limit (content @ chunk) rest2))))"
  by pat_completeness auto
termination
proof (relation "measure (\<lambda>(limit, content, s). length s)")
  fix limit content s x line rest n y chunk rest1 z terminator rest2
  assume "read_line s = Some x" "(line, rest) = x" "read_exactly (nat n) rest = Some y" "(chunk, rest1) = y"
    "read_exactly 2 rest1 = Some z" "(terminator, rest2) = z"
  then have "length rest < length s" "length rest2 \<le> length rest1" "length rest1 \<le> length rest"
    by (auto simp: read_exactly_def split: if_splits dest: read_line_shorter)
  then show "((limit, content @ chunk, rest2), limit, content, s) \<in> measure (\<lambda>(limit, content, s). length s)"
    by simp
qed simp

declare read_chunks.simps [simp del]

text \<open>Reads of at most 64 KiB until the end of the stream; \<open>serve\<close> is how many bytes a read gets of those left.\<close>

function read_until_eof :: "(nat \<Rightarrow> nat \<Rightarrow> nat) \<Rightarrow> nat \<Rightarrow> string \<Rightarrow> string \<Rightarrow> fetch_code + string" where
  "read_until_eof serve limit content s =
     (let asked = min 65536 (limit - length content + 1);
          got = max 1 (min asked (serve asked (length s))) in
      if s = [] then Inr content
      else if limit < length content + length (take got s) then Inl ResponseTooLarge
      else read_until_eof serve limit (content @ take got s) (drop got s))"
  by pat_completeness auto
termination
proof (relation "measure (\<lambda>(serve, limit, content, s). length s)")
  fix serve :: "nat \<Rightarrow> nat \<Rightarrow> nat" and limit :: nat and content s :: string and asked got :: nat
  assume "got = max 1 (min asked (serve asked (length s)))" "s \<noteq> []"
  then have "length (drop got s) < length s" by simp
  then show "((serve, limit, content @ take got s, drop got s), serve, limit, content, s)
      \<in> measure (\<lambda>(serve, limit, content, s). length s)" by simp
qed simp

declare read_until_eof.simps [simp del]

definition read_body ::
  "case_maps \<Rightarrow> (nat \<Rightarrow> nat \<Rightarrow> nat) \<Rightarrow> nat \<Rightarrow> http_headers \<Rightarrow> string \<Rightarrow> fetch_code + string" where
  "read_body k serve limit hs s =
     (let encoding = km_casefold k (case map_of hs ''transfer-encoding'' of Some v \<Rightarrow> v | None \<Rightarrow> []);
          declared = map_of hs ''content-length'' in
      if encoding \<noteq> [] \<and> declared \<noteq> None then Inl ProtocolRejected
      else if encoding \<noteq> [] then (if encoding \<noteq> ''chunked'' then Inl ProtocolRejected else read_chunks limit [] s)
      else
        (case declared of
           None \<Rightarrow> read_until_eof serve limit [] s
         | Some v \<Rightarrow>
             (case py_int 10 v of
                None \<Rightarrow> Inl ProtocolRejected
              | Some n \<Rightarrow>
                  if n < 0 then Inl ProtocolRejected
                  else if int limit < n then Inl ResponseTooLarge
                  else (case read_exactly (nat n) s of None \<Rightarrow> Inl ProtocolRejected | Some (body, _) \<Rightarrow> Inr body))))"

definition read_response ::
  "case_maps \<Rightarrow> (nat \<Rightarrow> nat \<Rightarrow> nat) \<Rightarrow> nat \<Rightarrow> string \<Rightarrow> fetch_code + fetch_response" where
  "read_response k serve limit s =
     (case read_line s of
        None \<Rightarrow> Inl ProtocolRejected
      | Some (line, rest) \<Rightarrow>
          (case status_of line of
             None \<Rightarrow> Inl ProtocolRejected
           | Some status \<Rightarrow>
               if \<not> (100 \<le> status \<and> status \<le> 599) then Inl ProtocolRejected
               else
                 (case read_headers k 100 (length line + 2) [] rest of
                    Inl e \<Rightarrow> Inl e
                  | Inr (hs, body) \<Rightarrow>
                      map_sum id (\<lambda>content. \<lparr>fz_status = status, fz_content = content, fz_headers = hs\<rparr>)
                        (read_body k serve limit hs body))))"

section \<open>The transport\<close>

text \<open>
  What is at an address under a name, and what becomes of an exchange with a peer: it answers the
  request, or the connection or its TLS layer breaks down.
\<close>

datatype exchange = BrokenOff | TlsBroken | Answered string

datatype peer = NoPeer | BadTls | Peer "string \<Rightarrow> exchange"

definition direct_fetch ::
  "case_maps \<Rightarrow> (nat \<Rightarrow> nat \<Rightarrow> nat) \<Rightarrow> (string \<Rightarrow> string \<Rightarrow> peer) \<Rightarrow> dial_request \<Rightarrow> fetch_code option + fetch_response" where
  "direct_fetch k serve peer_at q =
     (case peer_at (dq_address q) (dq_hostname q) of
        NoPeer \<Rightarrow> Inl (Some ConnectFailed)
      | BadTls \<Rightarrow> Inl (Some TlsFailed)
      | Peer answer \<Rightarrow>
          (case request_bytes q of
             None \<Rightarrow> Inl (Some ConnectFailed)
           | Some request \<Rightarrow>
               (case answer request of
                  BrokenOff \<Rightarrow> Inl (Some ConnectFailed)
                | TlsBroken \<Rightarrow> Inl (Some TlsFailed)
                | Answered s \<Rightarrow> map_sum Some id (read_response k serve (dq_max_bytes q) s))))"

end
