(* ===== verification/Fetch_Safety.thy ===== *)
theory Fetch_Safety
  imports Pinned_Fetch
begin

text \<open>
  What the HTTPS client of the knowledge worker keeps: bounded responses whatever the peer sends, the chunked
  encoding read back, requests that cannot be split by what they carry, and dials to global addresses only.
\<close>

section \<open>Bounds of a response\<close>

lemma read_headersD:
  "read_headers k n used hs s = Inr (hs', rest) \<Longrightarrow> distinct (map fst hs) \<Longrightarrow>
    distinct (map fst hs') \<and> length hs' < length hs + n
    \<and> used + (\<Sum>h \<leftarrow> hs'. length (snd h)) \<le> 32768 + (\<Sum>h \<leftarrow> hs. length (snd h))"
proof (induction k n used hs s rule: read_headers.induct)
  case (2 k n used hs s)
  then obtain line r where line: "read_line s = Some (line, r)" by (auto split: option.splits)
  define used' where "used' = used + length line + 2"
  define name where "name = km_casefold k (strip (before CHR '':'' line))"
  define v where "v = strip (beyond CHR '':'' line)"
  have small: "used' \<le> 32768" using "2.prems"(1) line by (auto simp: used'_def Let_def split: if_splits)
  have "length (beyond CHR '':'' line) \<le> length line"
    using length_dropWhile_le [of "\<lambda>x. x \<noteq> CHR '':''" line] by (simp add: beyond_def)
  then have v: "length v \<le> length line" using length_strip_by order_trans unfolding v_def by blast
  show ?case
  proof (cases "line = []")
    case True
    then show ?thesis using 2 line small by (auto simp: used'_def Let_def split: if_splits)
  next
    case False
    then have more: "CHR '':'' \<in> set line" "name \<noteq> []" "name \<notin> fst ` set hs"
      and next_call: "read_headers k n used' (hs @ [(name, v)]) r = Inr (hs', rest)"
      using "2.prems"(1) line by (auto simp: used'_def name_def v_def Let_def split: if_splits)
    from "2.IH" [OF line refl used'_def name_def v_def] small False more next_call "2.prems"(2)
    have "distinct (map fst hs') \<and> length hs' < length hs + Suc n
        \<and> used' + (\<Sum>h \<leftarrow> hs'. length (snd h)) \<le> 32768 + ((\<Sum>h \<leftarrow> hs. length (snd h)) + length v)"
      by (auto simp: name_def)
    then show ?thesis using v by (auto simp: used'_def)
  qed
qed simp

lemma read_chunks_bounded:
  "read_chunks limit content s = Inr b \<Longrightarrow> length content \<le> limit \<Longrightarrow> length b \<le> limit"
proof (induction limit content s rule: read_chunks.induct)
  case (1 limit content s)
  note unfolded = "1.prems"(1) [unfolded read_chunks.simps [of limit content s]]
  obtain line rest where line: "read_line s = Some (line, rest)" using unfolded by (auto split: option.splits)
  obtain n where n: "py_int 16 (before CHR '';'' line) = Some n" using unfolded line by (auto split: option.splits)
  have small: "\<not> (n < 0 \<or> int limit < int (length content) + n)" using unfolded line n by (auto split: if_splits)
  show ?case
  proof (cases "n = 0")
    case True
    then show ?thesis using unfolded line n "1.prems"(2) by (auto split: if_splits)
  next
    case False
    then obtain chunk rest1 where chunk: "read_exactly (nat n) rest = Some (chunk, rest1)"
      using unfolded line n small by (auto split: option.splits)
    then obtain t rest2 where t: "read_exactly 2 rest1 = Some (t, rest2)" "t = crlf"
      and call: "read_chunks limit (content @ chunk) rest2 = Inr b"
      using unfolded line n small False by (auto split: option.splits if_splits)
    have "length chunk = nat n" using chunk by (auto simp: read_exactly_def split: if_splits)
    then have "length (content @ chunk) \<le> limit" using small by simp linarith
    with "1.IH" [OF line refl n small False chunk refl t(1) refl] t(2) call show ?thesis by simp
  qed
qed

text \<open>How the bytes are dealt out to the reads does not matter.\<close>

lemma read_until_eof_all:
  "length content \<le> limit \<Longrightarrow> read_until_eof serve limit content s =
    (if length content + length s \<le> limit then Inr (content @ s) else Inl ResponseTooLarge)"
proof (induction serve limit content s rule: read_until_eof.induct)
  case (1 serve limit content s)
  define asked where "asked = min 65536 (limit - length content + 1)"
  define got where "got = max 1 (min asked (serve asked (length s)))"
  have unfolded: "read_until_eof serve limit content s =
      (if s = [] then Inr content
       else if limit < length content + length (take got s) then Inl ResponseTooLarge
       else read_until_eof serve limit (content @ take got s) (drop got s))"
    unfolding got_def asked_def by (subst read_until_eof.simps) (simp only: Let_def)
  note IH = "1.IH" [OF asked_def got_def]
  consider "s = []" | "s \<noteq> []" "limit < length content + length (take got s)"
    | "s \<noteq> []" "\<not> limit < length content + length (take got s)" by blast
  then show ?case
  proof cases
    case 1
    then show ?thesis using "1.prems" unfolding unfolded by simp
  next
    case 2
    moreover have "length (take got s) \<le> length s" by simp
    ultimately show ?thesis unfolding unfolded by (simp del: length_take)
  next
    case 3
    then have "length (content @ take got s) \<le> limit" by simp
    note rest = IH [OF 3 this]
    have "length (content @ take got s) + length (drop got s) = length content + length s"
      by (metis append_assoc append_take_drop_id length_append)
    with rest 3 show ?thesis by (simp only: unfolded if_False append_assoc append_take_drop_id)
  qed
qed

lemma read_body_bounded: "read_body k serve limit hs s = Inr b \<Longrightarrow> length b \<le> limit"
  using read_chunks_bounded [of limit "[]" s b]
  by (auto simp: read_body_def read_until_eof_all read_exactly_def Let_def split: if_splits option.splits)

lemma read_body_serve: "read_body k serve limit hs s = read_body k serve' limit hs s"
  by (simp add: read_body_def read_until_eof_all Let_def split: option.split)

section \<open>The chunked encoding\<close>

text \<open>What a peer sends for a list of chunks, without extensions and without trailers.\<close>

definition chunk_text :: "string \<Rightarrow> string" where
  "chunk_text c = hex_of (length c) @ crlf @ c @ crlf"

definition chunked_text :: "string list \<Rightarrow> string" where
  "chunked_text cs = concat (map chunk_text cs) @ ''0'' @ crlf @ crlf"

lemma hex_char:
  assumes "hex_value c \<noteq> None"
  shows "\<not> int_space c" "c \<notin> {CHR 0x0A, CHR 0x0D, CHR '';'', CHR ''_'', CHR ''-'', CHR ''+'', CHR ''x'', CHR ''X''}"
    "digit_of_base 16 c"
proof -
  define n :: nat where "n = of_char c"
  have range: "(48 \<le> n \<and> n \<le> 57) \<or> (97 \<le> n \<and> n \<le> 102) \<or> (65 \<le> n \<and> n \<le> 70)"
    using assms by (auto simp: hex_value_def ascii_digit_def less_eq_char_def n_def split: if_splits)
  then show "\<not> int_space c" by (auto simp: int_space_def n_def [symmetric])
  show "c \<notin> {CHR 0x0A, CHR 0x0D, CHR '';'', CHR ''_'', CHR ''-'', CHR ''+'', CHR ''x'', CHR ''X''}"
    using range by (auto simp: n_def)
  show "digit_of_base 16 c"
    using range by (auto simp: digit_of_base_def hex_value_def ascii_digit_def less_eq_char_def n_def [symmetric])
qed

lemma py_int_hex: "py_int 16 (hex_of n) = Some (int n)"
proof -
  note facts = hex_of_facts [of n]
  have hex: "hex_value c \<noteq> None" if "c \<in> set (hex_of n)" for c using facts that by (auto simp: list_all_iff)
  note chars = hex_char [OF hex]
  have "hd (hex_of n) \<in> set (hex_of n)" "last (hex_of n) \<in> set (hex_of n)" using facts by simp_all
  then have strip: "strip_by int_space (hex_of n) = hex_of n" by (intro strip_by_fix) (simp add: chars(1))
  have sign: "take 1 (hex_of n) \<notin> {''-'', ''+''}"
    using chars(2) facts by (cases "hex_of n") auto
  have "x \<in> set (hex_of n)" if "take 2 (hex_of n) = [y, x]" for x y
    by (metis in_set_takeD list.set_intros that)
  then have prefix: "take 2 (hex_of n) \<notin> {''0x'', ''0X''}" using chars(2) by blast
  have "CHR ''_'' \<notin> set (hex_of n)" using chars(2) by blast
  then have "split_on CHR ''_'' (hex_of n) = [hex_of n]" by (rule split_on_none)
  moreover have "list_all (digit_of_base 16) (hex_of n)" using chars(3) by (simp add: list_all_iff)
  ultimately have "unsigned_int 16 (hex_of n) = Some n" using facts prefix by (simp add: unsigned_int_def)
  then show ?thesis using sign by (simp add: py_int_def strip)
qed

lemma read_line_crlf:
  assumes "CHR 0x0A \<notin> set x" "length x < 65536"
  shows "read_line (x @ crlf @ r) = Some (x, r)"
proof -
  have "takeWhile (\<lambda>c. c \<noteq> CHR 0x0A) (x @ crlf @ r) = x @ [CHR 0x0D]"
    "dropWhile (\<lambda>c. c \<noteq> CHR 0x0A) (x @ crlf @ r) = CHR 0x0A # r"
    using assms(1) by (simp_all add: takeWhile_append dropWhile_append crlf_def)
  then show ?thesis using assms(2) by (simp add: read_line_def before_def beyond_def crlf_def)
qed

lemma before_absent: "c \<notin> set s \<Longrightarrow> before c s = s"
  by (auto simp: before_def takeWhile_eq_all_conv)

lemma size_line:
  assumes "length c < 2 ^ 32"
  shows "read_line (hex_of (length c) @ crlf @ r) = Some (hex_of (length c), r)"
    and "py_int 16 (before CHR '';'' (hex_of (length c))) = Some (int (length c))"
proof -
  have hex: "hex_value x \<noteq> None" if "x \<in> set (hex_of (length c))" for x
    using hex_of_facts that by (auto simp: list_all_iff)
  have "length (hex_of (length c)) \<le> 8" using length_hex_of [of "length c" 7] assms by simp
  then show "read_line (hex_of (length c) @ crlf @ r) = Some (hex_of (length c), r)"
    using hex_char(2) [OF hex] by (intro read_line_crlf) auto
  have "CHR '';'' \<notin> set (hex_of (length c))" using hex_char(2) [OF hex] by blast
  then show "py_int 16 (before CHR '';'' (hex_of (length c))) = Some (int (length c))"
    by (simp add: before_absent py_int_hex)
qed

lemma chunks_end: "read_chunks limit content (chunked_text [] @ r) = (if length content \<le> limit then Inr content else Inl ResponseTooLarge)"
proof -
  have zero: "hex_of (length []) = ''0''" by code_simp
  note line = size_line [of "[]", unfolded zero]
  have whole: "chunked_text [] @ r = ''0'' @ crlf @ crlf @ r" by (simp add: chunked_text_def)
  have trailers: "read_trailers (crlf @ r)"
    using read_line_crlf [of "[]" r] by (simp add: read_trailers.simps [of "crlf @ r"])
  show ?thesis
    unfolding whole by (subst read_chunks.simps) (simp add: line [simplified] trailers)
qed

lemma chunk_step:
  assumes "c \<noteq> []" "length c < 2 ^ 32"
  shows "read_chunks limit content (chunk_text c @ r) =
    (if length content + length c \<le> limit then read_chunks limit (content @ c) r else Inl ResponseTooLarge)"
proof -
  have line: "read_line (chunk_text c @ r) = Some (hex_of (length c), c @ crlf @ r)"
    using size_line(1) [OF assms(2), of "c @ crlf @ r"] by (simp add: chunk_text_def)
  have exactly: "read_exactly (length c) (c @ crlf @ r) = Some (c, crlf @ r)"
    "read_exactly 2 (crlf @ r) = Some (crlf, r)" by (simp_all add: read_exactly_def crlf_def)
  show ?thesis
    using assms(1) by (subst read_chunks.simps) (simp add: line size_line(2) [OF assms(2)] exactly)
qed

lemma chunks_read:
  assumes "\<forall>c \<in> set cs. c \<noteq> [] \<and> length c < 2 ^ 32" "length content \<le> limit"
  shows "read_chunks limit content (chunked_text cs @ r) =
    (if length content + length (concat cs) \<le> limit then Inr (content @ concat cs) else Inl ResponseTooLarge)"
  using assms
proof (induction cs arbitrary: content)
  case Nil
  then show ?case by (simp add: chunks_end)
next
  case (Cons c cs)
  have "chunked_text (c # cs) @ r = chunk_text c @ (chunked_text cs @ r)" by (simp add: chunked_text_def)
  then show ?case using Cons by (simp add: chunk_step)
qed

text \<open>C40. The reader of the chunked transfer encoding inverts it. However a peer cuts a body into chunks
  that are not empty (and shorter than 4 GiB), the content that is read is the body when it is within the limit, whatever
  follows on the connection; otherwise the response is refused as too large.\<close>

theorem chunked_body_roundtrip:
  assumes "\<forall>c \<in> set cs. c \<noteq> [] \<and> length c < 2 ^ 32"
  shows "read_chunks limit [] (chunked_text cs @ r) =
    (if length (concat cs) \<le> limit then Inr (concat cs) else Inl ResponseTooLarge)"
  using chunks_read [OF assms, of "[]" limit r] by simp

theorem chunked_body_roundtrip_witness:
  "read_chunks 11 [] (chunked_text [''hello '', ''world''] @ ''next'') = Inr ''hello world''
   \<and> read_chunks 10 [] (chunked_text [''hello '', ''world''] @ ''next'') = Inl ResponseTooLarge"
  using chunked_body_roundtrip [of "[''hello '', ''world'']" 11 "''next''"]
    chunked_body_roundtrip [of "[''hello '', ''world'']" 10 "''next''"] by simp

section \<open>The request\<close>

text \<open>The parts of a locator are pieces of it.\<close>

lemma set_before: "set (before c s) \<subseteq> set s"
  by (auto simp: before_def dest: set_takeWhileD)

lemma set_beyond: "set (beyond c s) \<subseteq> set s"
  by (auto simp: beyond_def dest!: in_set_dropD set_dropWhileD)

lemma set_beyond_last: "set (beyond_last c s) \<subseteq> set s"
  using set_before [of c "rev s"] by (simp add: beyond_last_def)

lemma set_split_netloc: "set (fst (split_netloc s)) \<subseteq> set s" "set (snd (split_netloc s)) \<subseteq> set s"
  by (auto simp: split_netloc_def dest!: set_takeWhileD set_dropWhileD in_set_dropD)

lemma set_split_scheme: "set (snd (split_scheme s)) \<subseteq> set s"
  using set_beyond [of "CHR '':''" s] by (auto simp: split_scheme_def Let_def)

lemma set_host: "set (fst (host_and_port netloc)) \<subseteq> set netloc"
proof -
  let ?info = "beyond_last CHR ''@'' netloc"
  have "set (fst (host_and_port netloc)) \<subseteq> set ?info"
    using set_before [of "CHR '']''" "beyond CHR ''['' ?info"] set_beyond [of "CHR ''[''" ?info] set_before [of "CHR '':''" ?info]
    by (auto simp: host_and_port_def Let_def)
  then show ?thesis using set_beyond_last by blast
qed

abbreviation breaks :: "char set" where
  "breaks \<equiv> {CHR 0x0A, CHR 0x0D}"

lemma urlsplit_rest:
  assumes "urlsplit url = Some u"
  obtains rest where "set rest \<inter> breaks = {}" "ur_netloc u = fst (split_netloc rest)"
    "ur_path u = before CHR ''?'' (before CHR ''#'' (snd (split_netloc rest)))"
proof -
  define cleaned where "cleaned = filter (\<lambda>c. c \<notin> {CHR 0x09, CHR 0x0A, CHR 0x0D}) (dropWhile (\<lambda>c. c \<le> CHR '' '') url)"
  have "ur_netloc u = fst (split_netloc (snd (split_scheme cleaned)))"
    "ur_path u = before CHR ''?'' (before CHR ''#'' (snd (split_netloc (snd (split_scheme cleaned)))))"
    using assms by (auto simp: urlsplit_def Let_def cleaned_def case_prod_unfold split: if_splits)
  moreover have "set (snd (split_scheme cleaned)) \<inter> breaks = {}"
    using set_split_scheme [of cleaned] by (auto simp: cleaned_def)
  ultimately show thesis using that by blast
qed

lemma netloc_no_breaks: "urlsplit url = Some u \<Longrightarrow> set (ur_netloc u) \<inter> breaks = {}"
  using set_split_netloc(1) by (elim urlsplit_rest) fastforce

lemma hostname_no_breaks:
  assumes "urlsplit url = Some u" "url_hostname lower u = Some h"
    and "\<And>x. set x \<inter> breaks = {} \<Longrightarrow> set (lower x) \<inter> breaks = {}"
  shows "set h \<inter> breaks = {}"
proof -
  let ?host = "fst (host_and_port (ur_netloc u))"
  have host: "set ?host \<inter> breaks = {}" using netloc_no_breaks [OF assms(1)] set_host [of "ur_netloc u"] by blast
  then have "set (before CHR ''%'' ?host) \<inter> breaks = {}" using set_before [of "CHR ''%''" ?host] by blast
  from assms(3) [OF this] host assms(2) set_beyond [of "CHR ''%''" ?host] show ?thesis
    by (auto simp: url_hostname_def Let_def split: if_splits)
qed

text \<open>A path that is not empty starts with a slash when there is a host.\<close>

lemma path_rooted:
  assumes "urlsplit url = Some u" "url_hostname lower u \<noteq> None" "ur_path u \<noteq> []"
  shows "hd (ur_path u) = CHR ''/''"
proof -
  from assms(1) obtain rest where net: "ur_netloc u = fst (split_netloc rest)"
    and path: "ur_path u = before CHR ''?'' (before CHR ''#'' (snd (split_netloc rest)))"
    by (rule urlsplit_rest)
  have "ur_netloc u \<noteq> []" using assms(2) set_host [of "[]"] by (auto simp: url_hostname_def Let_def split: if_splits)
  then have tail: "snd (split_netloc rest) = dropWhile (\<lambda>c. \<not> ends_netloc c) (drop 2 rest)"
    using net by (auto simp: split_netloc_def split: if_splits)
  show ?thesis
  proof (cases "snd (split_netloc rest)")
    case Nil
    then show ?thesis using path assms(3) by (simp add: before_def)
  next
    case (Cons c cs)
    then have "ends_netloc c" using tail dropWhile_hd by metis
    then show ?thesis using path assms(3) Cons by (auto simp: before_def ends_netloc_def)
  qed
qed

lemma upper_hex_plain: "n < 16 \<Longrightarrow> upper_hex_digit n \<notin> {CHR 0x0A, CHR 0x0D, CHR '' ''}"
proof -
  have "list_all (\<lambda>n. upper_hex_digit n \<notin> {CHR 0x0A, CHR 0x0D, CHR '' ''}) [0..<16]" by code_simp
  then show "n < 16 \<Longrightarrow> ?thesis" by (simp only: list_all_iff set_upt) simp
qed

lemma utf8_bytes:
  assumes "b \<in> set (utf8 c)"
  shows "b < 256"
proof -
  define n :: nat where "n = of_char c"
  have "n < 256" by (simp add: n_def)
  moreover have "b = n \<or> b = 192 + n div 64 \<or> b = 128 + n mod 64"
    using assms by (auto simp: utf8_def Let_def n_def split: if_splits)
  ultimately show ?thesis using less_mult_imp_div_less [of n 4 64] mod_less_divisor [of 64 n] by linarith
qed

lemma target_safe_plain: "target_safe c \<Longrightarrow> c \<notin> {CHR 0x0A, CHR 0x0D, CHR '' ''}"
  by (auto simp: target_safe_def ascii_alpha_def ascii_digit_def)

lemma quote_target_plain: "set (quote_target s) \<inter> {CHR 0x0A, CHR 0x0D, CHR '' ''} = {}"
proof -
  define bad where "bad = {CHR 0x0A, CHR 0x0D, CHR '' ''}"
  have "upper_hex_digit n \<notin> bad" if "n < 16" for n using upper_hex_plain [OF that] by (simp only: bad_def) simp
  then have digits: "upper_hex_digit (b div 16) \<notin> bad \<and> upper_hex_digit (b mod 16) \<notin> bad" if "b \<in> set (utf8 c)" for b c
    using utf8_bytes [OF that] by simp
  have percent: "CHR ''%'' \<notin> bad" by (simp add: bad_def)
  have safe: "c \<notin> bad" if "target_safe c" for c using target_safe_plain [OF that] by (simp only: bad_def) simp
  have "set (if target_safe c then [c] else concat (map (\<lambda>b. [CHR ''%'', upper_hex_digit (b div 16), upper_hex_digit (b mod 16)])
      (utf8 c))) \<inter> bad = {}" for c
    using digits percent safe by auto
  then show ?thesis unfolding quote_target_def bad_def [symmetric] by (simp only: set_concat set_map) blast
qed

lemma if_Inl_eq_Inr: "(if P then Inl x else y) = Inr z \<longleftrightarrow> \<not> P \<and> y = Inr z"
  by simp

lemma visible_no_breaks:
  assumes "\<not> list_ex (\<lambda>c. code_below 32 c \<or> c = CHR 0x7F) v"
  shows "CHR 0x0A \<notin> set v" "CHR 0x0D \<notin> set v"
proof -
  have "\<forall>c \<in> set v. \<not> code_below 32 c" using assms unfolding list_ex_iff by blast
  moreover have "code_below 32 CHR 0x0A" "code_below 32 CHR 0x0D" by (simp_all add: code_below_def)
  ultimately show "CHR 0x0A \<notin> set v" "CHR 0x0D \<notin> set v" by blast+
qed

definition plain_header :: "string \<times> string \<Rightarrow> bool" where
  "plain_header h \<longleftrightarrow> fst h \<in> {''accept'', ''if-none-match'', ''if-modified-since''} \<and> set (snd h) \<inter> breaks = {}"

lemma safe_headersD:
  "safe_headers k hs safe = Inr hs' \<Longrightarrow> \<forall>h \<in> set safe. plain_header h \<Longrightarrow> \<forall>h \<in> set hs'. plain_header h"
proof (induction k hs safe rule: safe_headers.induct)
  case (2 k name v hs safe)
  define n where "n = km_casefold k name"
  have "\<not> (n \<notin> {''accept'', ''if-none-match'', ''if-modified-since''} \<or> v = [] \<or> n \<in> fst ` set safe)
      \<and> \<not> list_ex (\<lambda>c. code_below 32 c \<or> c = CHR 0x7F) v \<and> safe_headers k hs (safe @ [(n, v)]) = Inr hs'"
    using "2.prems"(1) by (simp only: safe_headers.simps Let_def n_def if_Inl_eq_Inr simp_thms)
  then have n: "\<not> (n \<notin> {''accept'', ''if-none-match'', ''if-modified-since''} \<or> v = [] \<or> n \<in> fst ` set safe)"
    and v: "\<not> list_ex (\<lambda>c. code_below 32 c \<or> c = CHR 0x7F) v"
    and call: "safe_headers k hs (safe @ [(n, v)]) = Inr hs'" by iprover+
  have "plain_header (n, v)" unfolding plain_header_def fst_conv snd_conv using n visible_no_breaks [OF v] by blast
  then have "\<forall>h \<in> set (safe @ [(n, v)]). plain_header h" using "2.prems"(2) by simp
  with "2.IH" [OF n_def n v call] show ?case by blast
qed simp

text \<open>The fetcher's own steps, taken apart.\<close>

lemma dial_request_ofD:
  assumes "dial_request_of k resolve url headers = Inr q"
  obtains u hs as where "canonical_locator k url = Inr url" "safe_headers k headers [] = Inr hs" "urlsplit url = Some u"
    "url_hostname (km_lower k) u = Some (dq_hostname q)" "resolve_public_addresses resolve (dq_hostname q) = Inr as"
    "dq_address q = hd as" "dq_target q = request_target (ur_path u)" "dq_headers q = hs"
    "dq_max_bytes q = max_response_bytes"
  using assms by (auto simp: dial_request_of_def map_sum_Inr split: sum.splits option.splits if_splits)

text \<open>C39. A request cannot be split by what it carries. Provided that lowering a text makes no line break,
  the bytes of a request are its request line, the host, \<open>Connection: close\<close> and the headers, each ended by one
  CR LF, then an empty line: no line holds a CR or LF, whatever the locator and the validators are. The target
  starts with a slash and holds no space, and the only headers are the three that are allowed.\<close>

theorem request_is_one_message:
  assumes lower: "\<And>x. set x \<inter> {CHR 0x0A, CHR 0x0D} = {} \<Longrightarrow> set (km_lower k x) \<inter> {CHR 0x0A, CHR 0x0D} = {}"
    and request: "dial_request_of k resolve url headers = Inr q"
    and bytes: "request_bytes q = Some s"
  shows "s = concat (map (\<lambda>line. line @ crlf) (request_lines q)) @ crlf
    \<and> (\<forall>line \<in> set (request_lines q). set line \<inter> {CHR 0x0A, CHR 0x0D} = {})
    \<and> hd (dq_target q) = CHR ''/'' \<and> CHR '' '' \<notin> set (dq_target q)
    \<and> fst ` set (dq_headers q) \<subseteq> {''accept'', ''if-none-match'', ''if-modified-since''}"
proof -
  from request obtain u hs where hs: "safe_headers k headers [] = Inr hs" "dq_headers q = hs" and u: "urlsplit url = Some u"
    and host: "url_hostname (km_lower k) u = Some (dq_hostname q)" and target: "dq_target q = request_target (ur_path u)"
    by (rule dial_request_ofD)
  have headers: "\<forall>h \<in> set (dq_headers q). fst h \<in> {''accept'', ''if-none-match'', ''if-modified-since''} \<and> set (snd h) \<inter> breaks = {}"
    using safe_headersD [OF hs(1)] unfolding hs(2) plain_header_def by simp
  have plain: "set (dq_target q) \<inter> {CHR 0x0A, CHR 0x0D, CHR '' ''} = {}"
    unfolding target request_target_def by (rule quote_target_plain)
  have root: "hd (quote_target p) = CHR ''/''" if "p \<noteq> []" "hd p = CHR ''/''" for p
    using that by (cases p) (simp_all add: quote_target_def target_safe_def)
  have slash: "hd (dq_target q) = CHR ''/''"
    unfolding target request_target_def using path_rooted [OF u] host by (intro root) auto
  have "set (dq_hostname q) \<inter> breaks = {}" using hostname_no_breaks [OF u host] lower by blast
  then have lines: "\<forall>line \<in> set (request_lines q). set line \<inter> breaks = {}"
    using plain headers by (auto simp: request_lines_def)
  have joined: "join crlf (x # xs) @ crlf = concat (map (\<lambda>line. line @ crlf) (x # xs))" for x and xs :: "string list"
    by (induction xs arbitrary: x) simp_all
  have "s = join crlf (request_lines q) @ crlf @ crlf"
    using bytes by (auto simp: request_bytes_def Let_def split: if_splits)
  then have "s = concat (map (\<lambda>line. line @ crlf) (request_lines q)) @ crlf"
    unfolding request_lines_def by (simp only: append.simps joined append_assoc [symmetric])
  with lines plain slash headers show ?thesis by auto
qed

text \<open>An example: a page whose path holds a space, and a validator.\<close>

lemma ascii_lower_no_breaks: "set x \<inter> {CHR 0x0A, CHR 0x0D} = {} \<Longrightarrow> set (km_lower ascii_maps x) \<inter> {CHR 0x0A, CHR 0x0D} = {}"
proof -
  have "list_all (\<lambda>n. (char_of (n + 32) :: char) \<notin> {CHR 0x0A, CHR 0x0D}) [65..<91::nat]" by code_simp
  then have upper: "(char_of (n + 32) :: char) \<notin> {CHR 0x0A, CHR 0x0D}" if "65 \<le> n" "n \<le> 90" for n :: nat
    using that unfolding list_all_iff set_upt by simp
  have "(char_of (of_char c + (32 :: nat)) :: char) \<notin> {CHR 0x0A, CHR 0x0D}" if "CHR ''A'' \<le> c" "c \<le> CHR ''Z''" for c
    using that upper [of "of_char c"] by (simp add: less_eq_char_def)
  then show "set x \<inter> {CHR 0x0A, CHR 0x0D} = {} \<Longrightarrow> ?thesis" by (force simp: ascii_maps_def ascii_lower_def)
qed

definition page_names :: "string \<Rightarrow> string list option" where
  "page_names host = (if host = ''example.org'' then Some [''93.184.215.14'', ''93.184.215.15''] else None)"

definition page_request :: dial_request where
  "page_request = \<lparr>dq_address = ''93.184.215.14'', dq_hostname = ''example.org'', dq_target = ''/a%20b'',
     dq_headers = [(''accept'', ''text/html''), (''if-none-match'', ''v1'')], dq_max_bytes = 1048576\<rparr>"

lemma example_request:
  "dial_request_of ascii_maps page_names ''https://example.org/a b'' [(''Accept'', ''text/html''), (''If-None-Match'', ''v1'')]
    = Inr page_request"
  by code_simp

lemma example_bytes: "request_bytes page_request = Some (concat (map (\<lambda>line. line @ crlf)
    [''GET /a%20b HTTP/1.1'', ''Host: example.org'', ''Connection: close'', ''accept: text/html'', ''if-none-match: v1'']) @ crlf)"
  by code_simp

theorem request_is_one_message_witness:
  "hd (dq_target page_request) = CHR ''/'' \<and> list_all (\<lambda>line. set line \<inter> {CHR 0x0A, CHR 0x0D} = {}) (request_lines page_request)"
  using request_is_one_message [OF ascii_lower_no_breaks example_request example_bytes] unfolding list_all_iff by blast

section \<open>The exchange\<close>

lemma map_sum_Some_Inr: "map_sum Some id x = Inr y \<longleftrightarrow> x = Inr y"
  by (cases x) auto

lemma public_candidatesD:
  assumes "public_candidates as = Inr ts"
  shows "(\<forall>a \<in> set as. \<exists>ip. read_ip a = Some ip \<and> is_global ip)
    \<and> (\<forall>t \<in> set ts. \<exists>ip. before CHR ''%'' t = ip_text ip \<and> is_global ip \<and> (\<exists>a \<in> set as. read_ip a = Some ip))
    \<and> length ts = length as"
  using assms
proof (induction as arbitrary: ts)
  case (Cons a as)
  define z where "z = (if CHR ''%'' \<in> set a then CHR ''%'' # beyond CHR ''%'' a else [])"
  obtain ip us where ip: "read_ip a = Some ip" "is_global ip"
    and us: "public_candidates as = Inr us" "ts = (ip_text ip @ z) # us"
    using Cons.prems by (auto simp: z_def map_sum_Inr split: option.splits if_splits)
  have "takeWhile (\<lambda>x. x \<noteq> CHR ''%'') (ip_text ip @ z) = ip_text ip @ takeWhile (\<lambda>x. x \<noteq> CHR ''%'') z"
    using ip_text_no_scope [of ip] by (intro takeWhile_append2) auto
  then have scope: "before CHR ''%'' (ip_text ip @ z) = ip_text ip" by (auto simp: before_def z_def)
  note IH = Cons.IH [OF us(1)]
  have "\<exists>i. before CHR ''%'' t = ip_text i \<and> is_global i \<and> (\<exists>x \<in> set (a # as). read_ip x = Some i)"
    if "t \<in> set ts" for t
    using that ip scope IH unfolding us(2) by (metis list.set_intros(1,2) set_ConsD)
  with IH ip show ?case unfolding us(2) by auto
qed simp

lemma read_responseD:
  assumes "read_response k serve limit s = Inr r"
  obtains line rest body :: string where "100 \<le> fz_status r" "fz_status r \<le> 599"
    "read_headers k 100 (length line + 2) [] rest = Inr (fz_headers r, body)"
    "read_body k serve limit (fz_headers r) body = Inr (fz_content r)"
proof -
  obtain line rest where line: "read_line s = Some (line, rest)" using assms by (auto simp: read_response_def split: option.splits)
  obtain status where status: "status_of line = Some status" "100 \<le> status" "status \<le> 599"
    using assms line by (auto simp: read_response_def split: option.splits if_splits)
  obtain hs body where hs: "read_headers k 100 (length line + 2) [] rest = Inr (hs, body)"
    using assms line status by (auto simp: read_response_def split: sum.splits)
  obtain content where "read_body k serve limit hs body = Inr content"
    "r = \<lparr>fz_status = status, fz_content = content, fz_headers = hs\<rparr>"
    using assms line status hs by (auto simp: read_response_def map_sum_Inr)
  then show thesis using that [of line rest body] hs status by simp
qed

text \<open>C38. A page is fetched from one global address and within the bounds, whatever the peer there sends. If
  the fetcher returns a response, the locator was its own canonical form; every candidate address of the
  locator's host was global, and the one that was dialled is one of them. So it is in none of these ranges:
  0/8, 127/8, \<open>::\<close>, \<open>::1\<close> (this host), 10/8, 172.16/12, 192.168/16, \<open>fc00::/7\<close> (private networks), 169.254/16,
  \<open>fe80::/10\<close> (links), 100.64/10 (carriers), 240/4, and except for the carriers' not in the mapped form of
  one of version 4; multicast, site-local \<open>fec0::/10\<close> and the other embedded forms of version 4 count as
  global (\<open>reserved_addresses_admitted\<close>). The peer at that address accepted the host's name; the status
  is between 100 and 599, the content has at most one MiB, and there are fewer than 100 headers with
  distinct names and at most 32 KiB of values.\<close>

theorem fetched_page_is_bounded:
  assumes "pinned_fetch k resolve (direct_fetch k serve peer_at) url headers = Inr r"
  shows "canonical_locator k url = Inr url
    \<and> (\<exists>q u as ip answer. dial_request_of k resolve url headers = Inr q
         \<and> urlsplit url = Some u \<and> url_hostname (km_lower k) u = Some (dq_hostname q)
         \<and> candidates_of resolve (dq_hostname q) = Inr as \<and> (\<forall>a \<in> set as. \<exists>i. read_ip a = Some i \<and> is_global i)
         \<and> (\<exists>a \<in> set as. read_ip a = Some ip) \<and> read_ip (before CHR ''%'' (dq_address q)) = Some ip
         \<and> is_global ip \<and> \<not> internal ip \<and> peer_at (dq_address q) (dq_hostname q) = Peer answer)
    \<and> 100 \<le> fz_status r \<and> fz_status r \<le> 599 \<and> length (fz_content r) \<le> 1048576
    \<and> length (fz_headers r) < 100 \<and> distinct (map fst (fz_headers r))
    \<and> (\<Sum>h \<leftarrow> fz_headers r. length (snd h)) \<le> 32768"
proof -
  obtain q where q: "dial_request_of k resolve url headers = Inr q" and r: "direct_fetch k serve peer_at q = Inr r"
    using assms by (auto simp: pinned_fetch_def split: sum.splits option.splits if_splits)
  from q obtain u hs ts where canonical: "canonical_locator k url = Inr url"
    and u: "urlsplit url = Some u" "url_hostname (km_lower k) u = Some (dq_hostname q)"
    and ts: "resolve_public_addresses resolve (dq_hostname q) = Inr ts" "dq_address q = hd ts"
    and limit: "dq_max_bytes q = max_response_bytes"
    by (rule dial_request_ofD)
  obtain as us where as: "candidates_of resolve (dq_hostname q) = Inr as" "as \<noteq> []"
    and us: "public_candidates as = Inr us" "ts = fromkeys us"
    using ts(1) by (auto simp: resolve_public_addresses_def map_sum_Inr split: sum.splits if_splits)
  note pub = public_candidatesD [OF us(1)]
  have "dq_address q \<in> set us" using pub as(2) us(2) ts(2) by (metis fromkeys_eq_Nil hd_in_set length_0_conv set_fromkeys)
  with pub obtain ip where ip: "before CHR ''%'' (dq_address q) = ip_text ip" "is_global ip" "\<exists>a \<in> set as. read_ip a = Some ip"
    by blast
  obtain answer bytes where peer: "peer_at (dq_address q) (dq_hostname q) = Peer answer"
    and resp: "read_response k serve max_response_bytes bytes = Inr r"
    using r limit by (auto simp: direct_fetch_def map_sum_Some_Inr split: peer.splits option.splits exchange.splits)
  obtain line rest body :: string where status: "100 \<le> fz_status r" "fz_status r \<le> 599"
    and hs: "read_headers k 100 (length line + 2) [] rest = Inr (fz_headers r, body)"
    and content: "read_body k serve max_response_bytes (fz_headers r) body = Inr (fz_content r)"
    using resp by (rule read_responseD)
  have "length (fz_content r) \<le> 1048576" using read_body_bounded [OF content] by (simp add: max_response_bytes_def)
  moreover have "length (fz_headers r) < 100 \<and> distinct (map fst (fz_headers r))
      \<and> (\<Sum>h \<leftarrow> fz_headers r. length (snd h)) \<le> 32768"
    using read_headersD [OF hs] by simp
  moreover have "read_ip (before CHR ''%'' (dq_address q)) = Some ip" using ip(1) ip_round_trip by simp
  ultimately show ?thesis
    using canonical u q as(1) pub ip(2,3) internal_not_global [OF ip(2)] peer status by blast
qed

definition page_peer :: "string \<Rightarrow> string \<Rightarrow> peer" where
  "page_peer address host =
     (if address = ''93.184.215.14'' \<and> host = ''example.org''
      then Peer (\<lambda>request. Answered (concat (map (\<lambda>line. line @ crlf)
             [''HTTP/1.1 200 OK'', ''Content-Type: text/plain'', ''ETag: v2'', ''Transfer-Encoding: chunked'', [],
              ''3'', ''abc'', ''2;x=y'', ''de'', ''0'', []])))
      else NoPeer)"

definition page_response :: fetch_response where
  "page_response = \<lparr>fz_status = 200, fz_content = ''abcde'',
     fz_headers = [(''content-type'', ''text/plain''), (''etag'', ''v2''), (''transfer-encoding'', ''chunked'')]\<rparr>"

lemma example_fetch:
  "pinned_fetch ascii_maps page_names (direct_fetch ascii_maps (\<lambda>_ n. n) page_peer) ''https://example.org/a b''
     [(''Accept'', ''text/html'')] = Inr page_response"
  by code_simp

theorem fetched_page_is_bounded_witness:
  "canonical_locator ascii_maps ''https://example.org/a b'' = Inr ''https://example.org/a b''
   \<and> length (fz_content page_response) \<le> 1048576"
  using fetched_page_is_bounded [OF example_fetch] by blast

text \<open>The length of the content is refused by its declaration before any of it is read, and a response that claims
  both a length and an encoding is refused.\<close>

lemma declared_too_large:
  "map_of hs ''transfer-encoding'' = None \<Longrightarrow> map_of hs ''content-length'' = Some v \<Longrightarrow> py_int 10 v = Some n \<Longrightarrow>
    int limit < n \<Longrightarrow> km_casefold k [] = [] \<Longrightarrow> read_body k serve limit hs s = Inl ResponseTooLarge"
  by (simp add: read_body_def)

lemma smuggling_refused:
  "map_of hs ''content-length'' = Some v \<Longrightarrow> map_of hs ''transfer-encoding'' = Some e \<Longrightarrow> km_casefold k e \<noteq> [] \<Longrightarrow>
    read_body k serve limit hs s = Inl ProtocolRejected"
  by (simp add: read_body_def)

text \<open>The response does not depend on how the network deals out the bytes.\<close>

lemma direct_fetch_serve: "direct_fetch k serve peer_at q = direct_fetch k serve' peer_at q"
proof -
  have "read_body k serve limit = read_body k serve' limit" for limit using read_body_serve by blast
  then have "read_response k serve = read_response k serve'" unfolding read_response_def by presburger
  then show ?thesis unfolding direct_fetch_def by presburger
qed

end
