(* ===== verification/Spec2Isabelle.thy ===== *)
theory Spec2Isabelle
  imports Social_Types Turn_Manager Trace_Buffer Room_Safety Director_Safety Model_Budget Pending_Safety
    Media_Safety Reminder_Safety Stored_Lists Cli_Safety Rate_Safety Deployment_Safety Draft_Safety
    Account_Safety Watch_Safety Web_Safety Fetch_Safety
begin

text \<open>
  The bounded multi-character chat runtime under \<open>src/src/echo_masque\<close>: Characters of several accounts
  share chat rooms of a platform, a router decides who answers, a turn may continue among Characters, and
  every effect outside (a message sent, a tool run, a provider called, a token issued) goes through a
  durable record that a restart or a second process reads. The theories model the code that carries these
  decisions and records; the theorems marked C1, C2, ... state what makes it correct.

  How the parts interact. A connector reports messages to the room repository, which keeps them as sources
  of evidence. Routing (direct rules, then the model-backed Director) reads a snapshot of one room and
  selects a speaker. The selected turn is a durable operation with steps; a turn job runs it, and the social
  graph decides after each visible step who may continue. A generated step is a draft: the preflight checks
  it against the room, a claim repeats the check and hands it to the connector, an acknowledgement records
  what was published. Tools run under side effect claims and may leave pending actions; media are analysed
  once for all workers; models are called within attempt budgets. Deployments say which Character speaks
  where; accounts, device tokens and quotas say who may ask for any of it. People also write to a room from
  the web: their messages wait in an outbox until the connector of the room claims them. Tools and the
  knowledge worker reach the network through a guard that dials only public addresses.

  The theories, in the order of their dependencies, with the code they model:

  \<^item> Shared: \<open>Prelude\<close> (errors, outcomes, clock, Python strings and containers), \<open>Tables\<close> (rows under a
    primary key, an SQL table as a list; locale \<open>db_table\<close>), \<open>Json\<close> (JSON values and text columns),
    \<open>Contracts\<close> (runs of operations and the contracts below), \<open>Pagination\<close> (\<open>pagination.py\<close>).
  \<^item> Turns: \<open>Social_Turn\<close>, \<open>Social_Types\<close> (\<open>social_turn_graph.py\<close> and its schemas), \<open>Runtime_Db\<close>,
    \<open>Runtime_Steps\<close>, \<open>Runtime_Delivery\<close>, \<open>Runtime_Recovery\<close>, \<open>Runtime_System\<close>
    (\<open>persistence/runtime_durability_repository.py\<close> and its models), \<open>Turn_Jobs\<close>, \<open>Turn_Manager\<close>
    (\<open>persistence/turn_job_repository.py\<close>, \<open>turn_jobs.py\<close>), \<open>Runtime_Trace\<close>, \<open>Trace_Store\<close>,
    \<open>Trace_Buffer\<close> (the runtime trace and its buffered sink).
  \<^item> Rooms: \<open>Room_Routing\<close> (\<open>room_routing.py\<close>), \<open>Room_Sources\<close>, \<open>Room_Store\<close>, \<open>Room_System\<close>, \<open>Room_Safety\<close>
    (\<open>room_sources.py\<close>, \<open>persistence/room_repository.py\<close>), \<open>Notes\<close> (\<open>notes.py\<close>,
    \<open>persistence/note_repository.py\<close>), \<open>Room_Director\<close>, \<open>Director_Safety\<close> (\<open>room_director.py\<close> and the pool
    of providers behind it).
  \<^item> Drafts: \<open>Draft_Freshness\<close>, \<open>Draft_Runtime\<close>, \<open>Draft_Safety\<close> (\<open>draft_freshness.py\<close>, \<open>draft_runtime.py\<close>,
    \<open>_validate_publication\<close> of the runtime repository).
  \<^item> Deployments: \<open>Deployments\<close>, \<open>Deployment_Store\<close>, \<open>Deployment_Safety\<close>
    (\<open>persistence/deployment_repository.py\<close> and its models), \<open>Stored_Lists\<close> (the JSON lists of identifiers
    and of trial requests), \<open>Redaction\<close> (\<open>security/redact.py\<close>, \<open>discord_event_safety.py\<close>).
  \<^item> Work outside: \<open>Pending_Actions\<close>, \<open>Pending_Safety\<close> (\<open>pending_actions.py\<close> and its repository),
    \<open>Media_Flight\<close>, \<open>Media_Safety\<close> (\<open>media_singleflight.py\<close>, \<open>persistence/media_repository.py\<close>), \<open>Reminders\<close>,
    \<open>Reminder_Safety\<close> (scheduled reminders), \<open>Watches\<close>, \<open>Watch_Runtime\<close>, \<open>Watch_Safety\<close> (condition
    watches: \<open>persistence/condition_watch_repository.py\<close>, the service, the graph and its runtime), \<open>Model_Budget\<close> (\<open>model_attempt_budget.py\<close>).
  \<^item> Access: \<open>Cli_Auth\<close>, \<open>Cli_Safety\<close> (\<open>cli_auth.py\<close>, \<open>cli_auth_policy.py\<close>), \<open>Rate_Limits\<close>, \<open>Rate_Safety\<close>
    (\<open>security_controls.py\<close>), \<open>Accounts\<close>, \<open>Workspaces\<close>, \<open>Account_Lifecycle\<close>, \<open>Account_Safety\<close>
    (\<open>auth.py\<close>, \<open>persistence/auth_repository.py\<close>, \<open>account_lifecycle.py\<close>), \<open>Server_Access\<close> (\<open>persistence/server_access_repository.py\<close>).
  \<^item> Web rooms: \<open>Artifacts\<close> (\<open>persistence/generated_media_repository.py\<close>), \<open>Web_Rooms\<close>, \<open>Web_Outbox\<close>,
    \<open>Web_Safety\<close> (\<open>web_rooms.py\<close>, \<open>persistence/web_room_repository.py\<close>).
  \<^item> Network: \<open>Ip_Addresses\<close> (what the code uses of Python's \<open>ipaddress\<close> and \<open>urllib.parse\<close>),
    \<open>Network_Safety\<close> (\<open>network_safety.py\<close>), \<open>Pinned_Fetch\<close>, \<open>Fetch_Safety\<close>
    (\<open>knowledge_fabric_external_policy.py\<close>, \<open>knowledge_fabric_pinned_fetcher.py\<close>).

  How state and operations correspond to the code. A database is a record of tables, a table a list of rows,
  a row a record with the columns of its SQLAlchemy class; the unique constraints that an insert can break
  are checked where the code inserts. An operation takes the arguments of the method and the database and
  returns its value or its exception with the committed database; what a session did not commit is rolled
  back. One transaction is one step: where the code reads in one transaction and writes conditionally in
  another, the definition has an argument for what other sessions commit between them (\<open>env\<close>, \<open>others\<close>,
  \<open>later\<close>), and the theorems hold for every such argument or say that it is the identity. A row that is read
  with \<open>FOR UPDATE\<close> stays locked to the commit, as in PostgreSQL. The clock is an
  argument per call, and so is every identifier that \<open>uuid4\<close> or \<open>secrets\<close> draws. Instants are integers
  in microseconds, as \<open>datetime\<close> counts them. Strings have characters below 256; prose that is inspected
  (messages of a room) is a list of code points. Floats occur only where their value is compared with a
  fixed bound, as rational numbers.

  What stands for code that is not under \<open>src\<close>, or for a library call with no content of its own: digests
  (\<open>digests\<close>, \<open>room_digests\<close>; a theorem that needs them to differ says \<open>collision_free\<close>), the JSON text of a
  column (\<open>json_text\<close>: its value, or text that does not parse), opaque page cursors (the pair they encode),
  the Pydantic readers and writers of a reply (\<open>draft_codec\<close>, with \<open>codec_faithful\<close> where it matters), URL
  rewriting and JSON text inside a value (\<open>redactor\<close>, with \<open>reads_json\<close>), and the answers of models,
  providers and platforms (arguments of the step that receives them).

  What the groups of lemmas show. The contracts of \<open>Contracts\<close> are proved once and interpreted on the
  components that promise them: an invariant that every operation keeps (\<open>invariant_system\<close>), a status that
  is never left (\<open>terminal_status\<close>), a resource that is granted at most once (\<open>at_most_once\<close>), again only
  after an operation that gives it back (\<open>rearmed_grant\<close>), or against a credit (\<open>metered\<close>,
  \<open>weighted_credit\<close>), and a simulation of a small specification (\<open>simulation\<close>). In each
  component the lemmas describe the effect of each operation on the keys, statuses and frames of its tables,
  by cases of the code; the properties follow from them by induction over runs. Each property with a
  hypothesis has a witness, a concrete run on which the hypotheses hold. Where a claim holds only for some
  runs its text says for which, and a lemma shows a run where it fails
  (\<open>overlapping_deletions_leave_no_administrator\<close>, \<open>stale_failure_ends_block\<close>,
  \<open>cleanup_deletes_reclaimed_call\<close>, \<open>reserved_addresses_admitted\<close>).

  What removes rows. Retention of operations and the cleanup of media read identifiers and then delete by
  them; the deletion is a command of its own in the runs (\<open>DeleteOperations\<close>, \<open>MDelete\<close>) with any
  identifiers, so that everything may happen between the two. The claims about the durable repository count
  what it gives back. The deletion of an account's part of the web rooms is a command too, and of the account
  itself its three transactions, with the operations that run between them.

  Bounds and fuel. Recursion is structural or has a measure (JSON depth, the weight of a text); the walk over
  the ancestors of a message takes the code's own limit of eight as fuel. Nothing else is cut off.

  Not modelled, and why. The HTTP routes, the connectors and the command line client call the modelled
  services; they parse and shape requests and answers. The knowledge fabric (collection, indexing and search of
  documents) is a system of its own that the turn runtime only queries; of it, the network client of the worker
  is modelled, with bytes as characters, and not its timeouts, its TLS context and the adapter of
  \<open>network_safety.py\<close> to an HTTP library. Tool, browser and media runtimes
  and the provider clients are I/O around the claims and budgets modelled here. Authoring, calibration,
  trials and their judges, matrices and analytics evaluate Characters offline. Migrations and scripts run
  once. The participation policy and the prompt budget are heuristics over floats and text lengths.
  \<open>PROJECT.json\<close> lists these parts one by one.
\<close>

end
